(* ===== verification/Rust_Prelude.thy ===== *)
theory Rust_Prelude
  imports Main "HOL-Library.Word" "HOL-Library.Multiset"
begin

unbundle bit_operations_syntax

text \<open>
  The part of the Rust language and of its standard library that the components share.

  Unsigned integers are words: \<open>+\<close>, \<open>-\<close> and \<open>*\<close> wrap around, as Rust's operators do in the
  release profile (\<^verbatim>\<open>Cargo.toml\<close> sets no \<^verbatim>\<open>overflow-checks\<close>) and as \<^verbatim>\<open>fetch_add\<close> does in every
  profile.  An \<open>i64\<close> is a 64-bit word read with \<^const>\<open>sint\<close>.  The theory holds the saturating and
  checked operations of \<^verbatim>\<open>core::num\<close>, the weak compare-and-swap loop, the string operations the
  sources call, generic interfaces as locales (an array of slots, a machine with an invariant,
  a value that only grows, a dispenser of increasing values), and the lemma collection \<open>rust_arith\<close>.
\<close>

named_theorems rust_arith \<open>values of saturating and checked operations as natural numbers or integers\<close>

type_synonym u8 = "8 word"
type_synonym u16 = "16 word"
type_synonym u32 = "32 word"
type_synonym u64 = "64 word"
type_synonym u128 = "128 word"
type_synonym i64 = "64 word"
type_synonym usize = nat

section \<open>Integers\<close>

definition saturating_add :: "'a::len word \<Rightarrow> 'a word \<Rightarrow> 'a word" where
  "saturating_add a b = (if unat a + unat b < 2 ^ LENGTH('a) then a + b else - 1)"

definition saturating_sub :: "'a::len word \<Rightarrow> 'a word \<Rightarrow> 'a word" where
  "saturating_sub a b = (if b \<le> a then a - b else 0)"

definition saturating_mul :: "'a::len word \<Rightarrow> 'a word \<Rightarrow> 'a word" where
  "saturating_mul a b = (if unat a * unat b < 2 ^ LENGTH('a) then a * b else - 1)"

definition checked_add :: "'a::len word \<Rightarrow> 'a word \<Rightarrow> 'a word option" where
  "checked_add a b = (if unat a + unat b < 2 ^ LENGTH('a) then Some (a + b) else None)"

definition checked_mul :: "'a::len word \<Rightarrow> 'a word \<Rightarrow> 'a word option" where
  "checked_mul a b = (if unat a * unat b < 2 ^ LENGTH('a) then Some (a * b) else None)"

definition checked_pow :: "'a::len word \<Rightarrow> nat \<Rightarrow> 'a word option" where
  "checked_pow a n = (if unat a ^ n < 2 ^ LENGTH('a) then Some (a ^ n) else None)"

text \<open>The \<open>i64\<close> operations clamp to the range of the type.\<close>

definition i64_clamp :: "int \<Rightarrow> i64" where
  "i64_clamp x = (if x < - (2 ^ 63) then word_of_int (- (2 ^ 63))
                  else if 2 ^ 63 \<le> x then word_of_int (2 ^ 63 - 1) else word_of_int x)"

definition i64_saturating_add :: "i64 \<Rightarrow> i64 \<Rightarrow> i64" where
  "i64_saturating_add a b = i64_clamp (sint a + sint b)"

definition i64_saturating_sub :: "i64 \<Rightarrow> i64 \<Rightarrow> i64" where
  "i64_saturating_sub a b = i64_clamp (sint a - sint b)"

definition i64_less :: "i64 \<Rightarrow> i64 \<Rightarrow> bool" where
  "i64_less a b \<longleftrightarrow> sint a < sint b"

definition i64_max :: "i64 \<Rightarrow> i64 \<Rightarrow> i64" where
  "i64_max a b = (if sint a \<le> sint b then b else a)"

text \<open>\<^verbatim>\<open>i64::abs\<close> wraps on the least value in the release profile.\<close>

definition i64_abs :: "i64 \<Rightarrow> i64" where
  "i64_abs a = (if sint a < 0 then - a else a)"

text \<open>Rust's signed division and remainder truncate towards zero.\<close>

definition trunc_div :: "int \<Rightarrow> int \<Rightarrow> int" where
  "trunc_div a b = sgn a * sgn b * (\<bar>a\<bar> div \<bar>b\<bar>)"

definition trunc_rem :: "int \<Rightarrow> int \<Rightarrow> int" where
  "trunc_rem a b = a - b * trunc_div a b"

lemma unat_less_2p: "unat (a::'a::len word) < 2 ^ LENGTH('a)"
  by (rule unsigned_less)

lemma unat_le_max: "unat (a::'a::len word) \<le> 2 ^ LENGTH('a) - Suc 0"
  using unat_less_2p [of a] by linarith

lemma unat_minus_1_word: "unat (- 1 :: 'a::len word) = 2 ^ LENGTH('a) - 1"
  by (simp add: unsigned_minus_1_eq_mask mask_eq_exp_minus_1)

lemma unat_ucast_mod: "unat (ucast (w::'a::len word) :: 'b::len word) = unat w mod 2 ^ LENGTH('b)"
  by (simp add: unsigned_ucast_eq take_bit_eq_mod)

lemma unat_ucast_up:
  "LENGTH('a) \<le> LENGTH('b) \<Longrightarrow> unat (ucast (w::'a::len word) :: 'b::len word) = unat w"
  by (metis unat_ucast_mod mod_less unat_less_2p power_increasing one_le_numeral order_less_le_trans)

lemma unat_saturating_add [rust_arith]:
  "unat (saturating_add a b) = min (unat a + unat b) (2 ^ LENGTH('a) - 1)"
  for a b :: "'a::len word"
  by (auto simp: saturating_add_def unat_word_ariths unat_minus_1_word min_def)

lemma unat_saturating_sub [rust_arith]: "unat (saturating_sub a b) = unat a - unat b"
  for a b :: "'a::len word"
  by (auto simp: saturating_sub_def unat_sub word_le_nat_alt)

lemma unat_saturating_mul [rust_arith]:
  "unat (saturating_mul a b) = min (unat a * unat b) (2 ^ LENGTH('a) - 1)"
  for a b :: "'a::len word"
proof (cases "unat a * unat b < 2 ^ LENGTH('a)")
  case True
  then have "unat a * unat b \<le> 2 ^ LENGTH('a) - 1" by simp
  with True show ?thesis by (simp add: saturating_mul_def unat_word_ariths min_absorb1)
next
  case False
  then have "2 ^ LENGTH('a) - 1 \<le> unat a * unat b" by simp
  with False show ?thesis by (simp add: saturating_mul_def unat_minus_1_word min_absorb2)
qed

lemma checked_add_eq_Some:
  "checked_add a b = Some c \<longleftrightarrow> unat c = unat a + unat b"
  for a b :: "'a::len word"
  by (auto simp: checked_add_def unat_word_ariths word_unat_eq_iff) (metis unat_less_2p)

lemma checked_mul_eq_Some:
  "checked_mul a b = Some c \<longleftrightarrow> unat c = unat a * unat b"
  for a b :: "'a::len word"
  by (auto simp: checked_mul_def unat_word_ariths word_unat_eq_iff) (metis unat_less_2p)

lemma unat_word_power: "unat ((a::'a::len word) ^ n) = unat a ^ n mod 2 ^ LENGTH('a)"
  by (induction n) (simp_all add: unat_word_ariths mod_mult_right_eq)

lemma checked_pow_eq_Some:
  "checked_pow a n = Some c \<longleftrightarrow> unat c = unat a ^ n"
  for a :: "'a::len word"
  by (auto simp: checked_pow_def unat_word_power word_unat_eq_iff) (metis unat_less_2p)

lemma saturating_add_ge: "a \<le> saturating_add a b" for a b :: "'a::len word"
  using unat_le_max [of a] by (auto simp: word_le_nat_alt unat_saturating_add min_def)

lemma sint_range: "- (2 ^ 63) \<le> sint (a :: i64)" "sint (a :: i64) < 2 ^ 63"
  using sint_greater_eq [of a] sint_lt [of a] by simp_all

lemma sint_word_of_int_id:
  "- (2 ^ 63) \<le> x \<Longrightarrow> x < 2 ^ 63 \<Longrightarrow> sint (word_of_int x :: i64) = x"
  by (simp add: signed_of_int signed_take_bit_int_eq_self)

lemma sint_eq_of_unat_small:
  assumes "unat w < 2 ^ 63"
  shows "sint (w :: i64) = int (unat w)"
proof -
  have "int (unat w) < int (2 ^ 63)" using assms by (simp only: of_nat_less_iff)
  then have "int (unat w) < 2 ^ 63" by simp
  moreover have "- (2 ^ 63) \<le> int (unat w)" by (rule order_trans [of _ 0]) simp_all
  ultimately have "sint (word_of_int (int (unat w)) :: i64) = int (unat w)"
    by (intro sint_word_of_int_id)
  then show ?thesis by simp
qed

lemma u64_bound: "unat (a::u64) < 18446744073709551616"
  using unat_less_2p [of a] by simp

lemma sint_i64_clamp [rust_arith]: "sint (i64_clamp x) = max (- (2 ^ 63)) (min x (2 ^ 63 - 1))"
  by (auto simp: i64_clamp_def sint_word_of_int_id max_def min_def)

lemma sint_i64_saturating_sub [rust_arith]:
  "sint (i64_saturating_sub a b) = max (- (2 ^ 63)) (min (sint a - sint b) (2 ^ 63 - 1))"
  by (simp only: i64_saturating_sub_def sint_i64_clamp)

lemma sint_i64_saturating_add [rust_arith]:
  "sint (i64_saturating_add a b) = max (- (2 ^ 63)) (min (sint a + sint b) (2 ^ 63 - 1))"
  by (simp only: i64_saturating_add_def sint_i64_clamp)

lemma sint_i64_max [rust_arith]: "sint (i64_max a b) = max (sint a) (sint b)"
  by (auto simp: i64_max_def max_def)


section \<open>Lists\<close>

lemma find_append: "find P (xs @ ys) = (case find P xs of None \<Rightarrow> find P ys | Some x \<Rightarrow> Some x)"
  by (induction xs) auto

text \<open>Searching a sorted list that holds every candidate finds the least one.\<close>

lemma find_least:
  assumes "sorted xs" and "\<And>x. P x \<Longrightarrow> x \<in> set xs"
  shows "find P xs = Some x \<longleftrightarrow> P x \<and> (\<forall>y. P y \<longrightarrow> x \<le> y)"
proof -
  have *: "find P ys = Some x \<longleftrightarrow> x \<in> set ys \<and> P x \<and> (\<forall>y \<in> set ys. P y \<longrightarrow> x \<le> y)"
    if "sorted ys" for ys using that by (induction ys) (auto intro: order_antisym)
  show ?thesis using * [OF assms(1)] assms(2) by blast
qed

lemma find_None_all: "(\<And>x. P x \<Longrightarrow> x \<in> set xs) \<Longrightarrow> find P xs = None \<longleftrightarrow> (\<forall>x. \<not> P x)"
  by (auto simp: find_None_iff)

text \<open>
  Indexing that panics out of range, as an option, and a loop that collects the results of its body
  and stops at the first panic.
\<close>

definition get_at :: "'a list \<Rightarrow> nat \<Rightarrow> 'a option" where
  "get_at xs i = (if i < length xs then Some (xs ! i) else None)"

definition put_at :: "nat \<Rightarrow> 'a \<Rightarrow> 'a list \<Rightarrow> 'a list option" where
  "put_at i x xs = (if i < length xs then Some (xs[i := x]) else None)"

fun collect :: "('a \<Rightarrow> 'b list option) \<Rightarrow> 'a list \<Rightarrow> 'b list option" where
  "collect f [] = Some []"
| "collect f (x # xs) =
     (case f x of None \<Rightarrow> None | Some ys \<Rightarrow> map_option (\<lambda>zs. ys @ zs) (collect f xs))"

lemma collect_Some:
  "(\<And>x. x \<in> set xs \<Longrightarrow> f x = Some (g x)) \<Longrightarrow> collect f xs = Some (concat (map g xs))"
  by (induction xs) auto

lemma distinct_concat_map:
  assumes "distinct xs" "\<And>x. x \<in> set xs \<Longrightarrow> distinct (f x)"
    "\<And>x y. x \<in> set xs \<Longrightarrow> y \<in> set (f x) \<Longrightarrow> key y = x"
  shows "distinct (concat (map f xs))"
  using assms
proof (induction xs)
  case (Cons x xs)
  have "y \<notin> set (f x)" if "x' \<in> set xs" "y \<in> set (f x')" for x' y
    using Cons.prems(1) Cons.prems(3) [of x y] Cons.prems(3) [of x' y] that by auto
  with Cons show ?case by auto
qed simp

text \<open>A loop whose body changes the state and may panic.\<close>

fun try_fold :: "('s \<Rightarrow> 'a \<Rightarrow> 's option) \<Rightarrow> 's \<Rightarrow> 'a list \<Rightarrow> 's option" where
  "try_fold f s [] = Some s"
| "try_fold f s (x # xs) = (case f s x of None \<Rightarrow> None | Some s' \<Rightarrow> try_fold f s' xs)"

lemma foldl_inv:
  assumes "\<And>s x. P s \<Longrightarrow> x \<in> set xs \<Longrightarrow> P (f s x)" and "P s"
  shows "P (foldl f s xs)"
  using assms by (induction xs arbitrary: s) auto

lemma try_fold_inv:
  assumes "\<And>s x. P s \<Longrightarrow> x \<in> set xs \<Longrightarrow> \<exists>s'. f s x = Some s' \<and> P s'" and "P s"
  shows "\<exists>s'. try_fold f s xs = Some s' \<and> P s'"
  using assms
proof (induction xs arbitrary: s)
  case (Cons x xs)
  then obtain s' where "f s x = Some s'" "P s'" by (meson list.set_intros(1))
  with Cons.IH [of s'] Cons.prems(1) show ?case by auto
qed simp

lemma collect_total:
  assumes "\<And>x. x \<in> set xs \<Longrightarrow> \<exists>ys. f x = Some ys"
  shows "collect f xs = Some (concat (map (\<lambda>x. the (f x)) xs))"
  by (rule collect_Some) (use assms in fastforce)

lemma collect_None: "collect f xs = None \<longleftrightarrow> (\<exists>x\<in>set xs. f x = None)"
  by (induction xs) (auto split: option.splits)

lemma collect_mem:
  "collect f xs = Some zs \<Longrightarrow> z \<in> set zs \<longleftrightarrow> (\<exists>x\<in>set xs. \<exists>ys. f x = Some ys \<and> z \<in> set ys)"
  by (induction xs arbitrary: zs) (auto split: option.splits)

text \<open>
  An array whose accesses panic out of range.  The laws give what a loop that stores one value in
  many slots does to every slot.
\<close>

locale slot_store =
  fixes load :: "'s \<Rightarrow> nat \<Rightarrow> 'v option" and store :: "'v \<Rightarrow> 's \<Rightarrow> nat \<Rightarrow> 's option"
  assumes store_defined: "load s i \<noteq> None \<Longrightarrow> \<exists>s'. store v s i = Some s'"
    and load_store: "store v s i = Some s' \<Longrightarrow> load s' j = (if j = i then Some v else load s j)"
begin

lemma store_all:
  assumes "\<And>i. i \<in> set is \<Longrightarrow> load s i \<noteq> None"
  shows "\<exists>s'. try_fold (store v) s is = Some s' \<and>
           (\<forall>j. load s' j = (if j \<in> set is then Some v else load s j))"
  using assms
proof (induction "is" arbitrary: s)
  case (Cons i "is")
  then obtain s1 where s1: "store v s i = Some s1" using store_defined by (meson list.set_intros(1))
  then have "load s1 k \<noteq> None" if "k \<in> set is" for k
    using load_store [OF s1] Cons.prems that by auto
  from Cons.IH [OF this] s1 show ?case by (auto simp: load_store [OF s1])
qed simp

end

section \<open>Bit masks\<close>

definition trailing_zeros :: "u64 \<Rightarrow> nat" where
  "trailing_zeros m = (case find (bit m) [0..<64] of None \<Rightarrow> 64 | Some n \<Rightarrow> n)"

definition clear_bit :: "nat \<Rightarrow> u64 \<Rightarrow> u64" where
  "clear_bit i m = m AND NOT (push_bit i 1)"

lemma bit_clear_bit: "bit (clear_bit i m) n \<longleftrightarrow> bit m n \<and> n \<noteq> i"
  by (auto simp: clear_bit_def bit_simps dest: bit_imp_le_length)

lemma trailing_zeros_bit:
  assumes "m \<noteq> 0"
  shows "bit m (trailing_zeros m) \<and> trailing_zeros m < 64 \<and> (\<forall>k < trailing_zeros m. \<not> bit m k)"
proof -
  from assms obtain n where "bit m n" by (metis bit_eq_iff bit_0_eq bot_apply bot_bool_def)
  then have "n < 64" by (auto dest: bit_imp_le_length)
  with \<open>bit m n\<close> obtain k where f: "find (bit m) [0..<64] = Some k"
    by (cases "find (bit m) [0..<64]") (auto simp: find_None_iff)
  then have "trailing_zeros m = k" by (simp add: trailing_zeros_def)
  with f show ?thesis by (auto simp: find_Some_iff)
qed

lemma clear_bit_less: "bit m i \<Longrightarrow> unat (clear_bit i m) < unat m"
proof -
  assume "bit m i"
  then have "clear_bit i m \<noteq> m" using bit_clear_bit [of i m i] by metis
  moreover have "clear_bit i m \<le> m" unfolding clear_bit_def by (rule word_and_le2)
  ultimately show ?thesis by (simp add: word_le_nat_alt word_unat_eq_iff)
qed

text \<open>\<^verbatim>\<open>while mask != 0\<close> with \<^verbatim>\<open>trailing_zeros\<close>: the set bits, lowest first.\<close>

function mask_bits :: "u64 \<Rightarrow> nat list" where
  "mask_bits m =
     (if m = 0 then [] else trailing_zeros m # mask_bits (clear_bit (trailing_zeros m) m))"
  by pat_completeness auto
termination
  by (relation "measure unat") (auto intro: clear_bit_less dest: trailing_zeros_bit)

declare mask_bits.simps [simp del]

lemma set_mask_bits: "set (mask_bits m) = {n. bit m n}"
proof (induction m rule: mask_bits.induct)
  case (1 m)
  show ?case
  proof (cases "m = 0")
    case True
    then show ?thesis by (simp add: mask_bits.simps)
  next
    case False
    then show ?thesis using 1 trailing_zeros_bit [OF False]
      by (subst mask_bits.simps) (auto simp: bit_clear_bit)
  qed
qed

lemma mask_bits_ge: "m \<noteq> 0 \<Longrightarrow> n \<in> set (mask_bits m) \<Longrightarrow> trailing_zeros m \<le> n"
  using trailing_zeros_bit [of m] by (auto simp: set_mask_bits not_le [symmetric])

section \<open>Bytes and strings\<close>

text \<open>
  Strings are byte lists and the identifiers of the sources are ASCII, where
  \<^verbatim>\<open>str::to_lowercase\<close> and \<^verbatim>\<open>to_uppercase\<close> act byte by byte.
\<close>

definition ascii_lower :: "char \<Rightarrow> char" where
  "ascii_lower c = (let n = of_char c :: nat in if 65 \<le> n \<and> n \<le> 90 then char_of (n + 32) else c)"

definition ascii_upper :: "char \<Rightarrow> char" where
  "ascii_upper c = (let n = of_char c :: nat in if 97 \<le> n \<and> n \<le> 122 then char_of (n - 32) else c)"

definition to_lowercase :: "string \<Rightarrow> string" where
  "to_lowercase = map ascii_lower"

definition to_uppercase :: "string \<Rightarrow> string" where
  "to_uppercase = map ascii_upper"

fun is_prefix_of :: "'a list \<Rightarrow> 'a list \<Rightarrow> bool" where
  "is_prefix_of [] ys = True"
| "is_prefix_of (x # xs) [] = False"
| "is_prefix_of (x # xs) (y # ys) = (x = y \<and> is_prefix_of xs ys)"

fun str_contains :: "string \<Rightarrow> string \<Rightarrow> bool" where
  "str_contains [] pat = (pat = [])"
| "str_contains (c # cs) pat = (is_prefix_of pat (c # cs) \<or> str_contains cs pat)"

lemma is_prefix_of_iff: "is_prefix_of xs ys \<longleftrightarrow> (\<exists>zs. ys = xs @ zs)"
  by (induction xs ys rule: is_prefix_of.induct) auto

lemma str_contains_iff: "str_contains s pat \<longleftrightarrow> (\<exists>pre post. s = pre @ pat @ post)"
proof (induction s)
  case (Cons c cs)
  have "(\<exists>pre post. c # cs = pre @ pat @ post) \<longleftrightarrow>
    (\<exists>post. c # cs = pat @ post) \<or> (\<exists>pre post. cs = pre @ pat @ post)"
    by (metis append_Cons append_Nil list.exhaust list.inject)
  with Cons show ?case by (simp add: is_prefix_of_iff)
qed simp

lemma ascii_lower_idem [simp]: "ascii_lower (ascii_lower c) = ascii_lower c"
  by (simp add: ascii_lower_def Let_def)

lemma to_lowercase_idem [simp]: "to_lowercase (to_lowercase s) = to_lowercase s"
  by (simp add: to_lowercase_def)

text \<open>\<^verbatim>\<open>s.split(c)\<close> at a character.\<close>

fun str_split :: "char \<Rightarrow> string \<Rightarrow> string list" where
  "str_split sep [] = [[]]"
| "str_split sep (c # cs) = (if c = sep then [] # str_split sep cs else (c # hd (str_split sep cs)) # tl (str_split sep cs))"

text \<open>\<^verbatim>\<open>str::parse::<i64>\<close>: an optional sign and at least one digit, within the range of the type.\<close>

definition digit_value :: "char \<Rightarrow> nat option" where
  "digit_value c = (let n = of_char c :: nat in if 48 \<le> n \<and> n \<le> 57 then Some (n - 48) else None)"

fun parse_digits :: "nat \<Rightarrow> string \<Rightarrow> nat option" where
  "parse_digits acc [] = Some acc"
| "parse_digits acc (c # cs) =
     (case digit_value c of None \<Rightarrow> None | Some d \<Rightarrow> parse_digits (10 * acc + d) cs)"

definition parse_i64 :: "string \<Rightarrow> i64 option" where
  "parse_i64 s =
     (let (neg, ds) = (case s of [] \<Rightarrow> (False, [])
                       | c # cs \<Rightarrow> if c = CHR ''-'' then (True, cs)
                                  else if c = CHR ''+'' then (False, cs) else (False, s))
      in if ds = [] then None
         else case parse_digits 0 ds of
                None \<Rightarrow> None
              | Some n \<Rightarrow> let x = (if neg then - int n else int n)
                          in if - (2 ^ 63) \<le> x \<and> x < 2 ^ 63 then Some (word_of_int x) else None)"

text \<open>\<^verbatim>\<open>&s[..dot]\<close> at the first dot, the whole string when there is none.\<close>

definition before_dot :: "string \<Rightarrow> string" where
  "before_dot s = takeWhile (\<lambda>c. c \<noteq> CHR ''.'') s"

text \<open>\<^verbatim>\<open>str::trim\<close> and \<^verbatim>\<open>str::parse::<u64>\<close>.\<close>

definition is_ws :: "char \<Rightarrow> bool" where
  "is_ws c \<longleftrightarrow> (let n = of_char c :: nat in n = 32 \<or> 9 \<le> n \<and> n \<le> 13)"

definition str_trim :: "string \<Rightarrow> string" where
  "str_trim s = rev (dropWhile is_ws (rev (dropWhile is_ws s)))"

definition parse_u64 :: "string \<Rightarrow> u64 option" where
  "parse_u64 s =
     (let digits = (case s of c # cs \<Rightarrow> (if c = CHR ''+'' then cs else s) | [] \<Rightarrow> [])
      in if digits = [] then None
         else case parse_digits 0 digits of
                None \<Rightarrow> None | Some n \<Rightarrow> (if n < 2 ^ 64 then Some (of_nat n) else None))"

section \<open>Interfaces shared by the components\<close>

text \<open>
  A component's state changes only through its operations; \<open>run step s ops\<close> is the state after a
  sequence of them.  \<open>trace\<close> collects the results of the operations that return one.
\<close>

abbreviation run :: "('s \<Rightarrow> 'op \<Rightarrow> 's) \<Rightarrow> 's \<Rightarrow> 'op list \<Rightarrow> 's" where
  "run step s ops \<equiv> foldl step s ops"

fun trace :: "('s \<Rightarrow> 'op \<Rightarrow> 's \<times> 'r option) \<Rightarrow> 's \<Rightarrow> 'op list \<Rightarrow> 'r list" where
  "trace exec s [] = []"
| "trace exec s (op # ops) =
     (case exec s op of (s', r) \<Rightarrow>
        (case r of None \<Rightarrow> [] | Some v \<Rightarrow> [v]) @ trace exec s' ops)"

locale guarded_machine =
  fixes step :: "'s \<Rightarrow> 'op \<Rightarrow> 's" and inv :: "'s \<Rightarrow> bool"
  assumes inv_step: "inv s \<Longrightarrow> inv (step s op)"
begin

lemma inv_run: "inv s \<Longrightarrow> inv (run step s ops)"
  by (induction ops arbitrary: s) (auto intro: inv_step)

end

text \<open>A value that no operation lowers.\<close>

locale monotone_machine =
  fixes step :: "'s \<Rightarrow> 'op \<Rightarrow> 's" and val :: "'s \<Rightarrow> 'v::linorder"
  assumes val_step: "val s \<le> val (step s op)"
begin

sublocale floor: guarded_machine step "\<lambda>s. c \<le> val s" for c
  by unfold_locales (rule order_trans [OF _ val_step])

lemma val_run: "val s \<le> val (run step s ops)"
  by (rule floor.inv_run) simp

lemma val_run_append: "val (run step s ops) \<le> val (run step s (ops @ ops'))"
  by (simp add: val_run)

end

text \<open>
  A dispenser returns values below a counter that the same operation raises past them, and that no
  operation lowers: the values it hands out are strictly increasing.
\<close>

locale dispenser =
  fixes exec :: "'s \<Rightarrow> 'op \<Rightarrow> 's \<times> 'v::linorder option" and val :: "'s \<Rightarrow> 'v"
  assumes exec_mono: "val s \<le> val (fst (exec s op))"
    and exec_issue: "snd (exec s op) = Some v \<Longrightarrow> val s \<le> v \<and> v < val (fst (exec s op))"
begin

sublocale monotone_machine "\<lambda>s op. fst (exec s op)" val
  by unfold_locales (rule exec_mono)

lemma trace_lower_bound: "v \<in> set (trace exec s ops) \<Longrightarrow> val s \<le> v"
proof (induction ops arbitrary: s)
  case (Cons op ops)
  obtain s' r where e: "exec s op = (s', r)" by fastforce
  then have le: "val s \<le> val s'" using exec_mono [of s op] by simp
  from Cons.prems e have "r = Some v \<or> v \<in> set (trace exec s' ops)"
    by (auto split: option.splits)
  then show ?case
    using Cons.IH [of s'] exec_issue [of s op v] le e by (auto intro: order_trans)
qed simp

lemma trace_strictly_increasing: "sorted_wrt (<) (trace exec s ops)"
proof (induction ops arbitrary: s)
  case (Cons op ops)
  obtain s' r where e: "exec s op = (s', r)" by fastforce
  have "v < w" if "r = Some v" and "w \<in> set (trace exec s' ops)" for v w
    using exec_issue [of s op v] trace_lower_bound [OF that(2)] that(1) e by auto
  with Cons.IH [of s'] e show ?case by (auto split: option.splits)
qed simp

lemma trace_distinct: "distinct (trace exec s ops)"
  using trace_strictly_increasing by (simp add: strict_sorted_iff)

end

text \<open>
  A store of independent entries under names that are compared without regard to case: an operation
  changes the entries it hits, each by a local rule, and no other.  An entry after a sequence of
  operations is then what the operations that hit it make of it.
\<close>

locale keyed_store =
  fixes lookup :: "'r \<Rightarrow> string \<Rightarrow> 'v option" and step :: "'r \<Rightarrow> 'op \<Rightarrow> 'r"
    and hits :: "'op \<Rightarrow> string \<Rightarrow> bool" and entry :: "'v option \<Rightarrow> 'op \<Rightarrow> 'v option"
  assumes hit: "hits op k \<Longrightarrow> lookup (step r op) k = entry (lookup r k) op"
    and miss: "\<not> hits op k \<Longrightarrow> lookup (step r op) k = lookup r k"
begin

lemma lookup_run: "lookup (run step r ops) k = foldl entry (lookup r k) (filter (\<lambda>op. hits op k) ops)"
  by (induction ops arbitrary: r) (auto simp: hit miss)

lemma isolated: "(\<And>op. op \<in> set ops \<Longrightarrow> \<not> hits op k) \<Longrightarrow> lookup (run step r ops) k = lookup r k"
  by (simp add: lookup_run filter_empty_conv [THEN iffD2])

end

end
