(* ===== verification/Atomic_Cell.thy ===== *)
theory Atomic_Cell
  imports Rust_Prelude
begin

text \<open>
  Lock-free updates of one atomic cell.  The sources share one pattern: load the cell, compute a
  new value (or decide to leave the cell alone), and publish it with \<^verbatim>\<open>compare_exchange_weak\<close>,
  starting over when the exchange fails.  \<open>cas_loop\<close> is that loop as one thread runs it under an
  arbitrary schedule; \<open>cas_step\<close> is the small-step relation of any number of threads running it on
  the same cell.  The components use the first in their operations and the second for what holds
  under every interleaving.
\<close>

section \<open>One thread under a schedule\<close>

text \<open>
  A schedule entry \<open>(g, ok)\<close> is one round of the loop: \<open>g\<close> is what the other threads did to the
  cell since the last load, \<open>ok\<close> whether the exchange succeeds.  A failed exchange has no effect,
  and one that fails because another thread got in between shows that thread's write as the next
  entry's \<open>g\<close>.  The result is the value loaded in the last round and the value in the cell after
  it; \<open>None\<close> says that the schedule ended before the loop returned.
\<close>

type_synonym 'v schedule = "(('v \<Rightarrow> 'v) \<times> bool) list"

fun cas_loop :: "('v \<Rightarrow> 'v option) \<Rightarrow> 'v schedule \<Rightarrow> 'v \<Rightarrow> ('v \<times> 'v) option" where
  "cas_loop f [] v = None"
| "cas_loop f ((g, ok) # rest) v =
     (case f (g v) of
        None \<Rightarrow> Some (g v, g v)
      | Some new \<Rightarrow> if ok then Some (g v, new) else cas_loop f rest (g v))"

text \<open>The cell after a schedule in which the loop did not return: only the others' writes.\<close>

fun others :: "'v schedule \<Rightarrow> 'v \<Rightarrow> 'v" where
  "others [] v = v"
| "others ((g, ok) # rest) v = others rest (g v)"

definition solo :: "'v schedule \<Rightarrow> bool" where
  "solo sched \<longleftrightarrow> (\<forall>(g, ok) \<in> set sched. g = id)"

lemma cas_loop_sound:
  "cas_loop f sched v = Some (cur, new) \<Longrightarrow> f cur = None \<and> new = cur \<or> f cur = Some new"
  by (induction f sched v rule: cas_loop.induct) (auto split: option.splits if_splits)

lemma cas_loop_solo:
  "solo sched \<Longrightarrow> cas_loop f sched v = Some (cur, new) \<Longrightarrow> cur = v"
  by (induction f sched v rule: cas_loop.induct) (auto simp: solo_def split: option.splits if_splits)

lemma cas_loop_returns:
  "(g, True) \<in> set sched \<Longrightarrow> \<exists>cur new. cas_loop f sched v = Some (cur, new)"
  by (induction f sched v rule: cas_loop.induct) (auto split: option.splits)

lemma cas_loop_None_iff:
  "cas_loop f sched v = None \<Longrightarrow> \<forall>(g, ok) \<in> set sched. \<not> ok"
  by (induction f sched v rule: cas_loop.induct) (auto split: option.splits if_splits)

lemma others_solo [simp]: "solo sched \<Longrightarrow> others sched v = v"
  by (induction sched v rule: others.induct) (auto simp: solo_def)

lemma solo_take [simp]: "solo sched \<Longrightarrow> solo (take n sched)"
  by (auto simp: solo_def dest: in_set_takeD)

lemma solo_Nil [simp]: "solo []"
  by (simp add: solo_def)

lemma solo_Cons [simp]: "solo ((g, ok) # rest) \<longleftrightarrow> g = id \<and> solo rest"
  by (auto simp: solo_def)

text \<open>
  The cell after a call, whether or not the loop returned, and the schedule of a thread that runs
  alone and whose exchange fails spuriously \<open>n\<close> times before it succeeds.
\<close>

definition cas_result :: "('v \<Rightarrow> 'v option) \<Rightarrow> 'v schedule \<Rightarrow> 'v \<Rightarrow> 'v" where
  "cas_result f sched v =
     (case cas_loop f sched v of None \<Rightarrow> others sched v | Some (cur, new) \<Rightarrow> new)"

definition spurious :: "nat \<Rightarrow> 'v schedule" where
  "spurious n = replicate n (id, False) @ [(id, True)]"

lemma solo_spurious [simp]: "solo (spurious n)"
  by (auto simp: solo_def spurious_def)

lemma spurious_Suc: "spurious (Suc n) = (id, False) # spurious n"
  by (simp add: spurious_def)

lemma cas_loop_spurious [simp]:
  "cas_loop f (spurious n) v = Some (v, case f v of None \<Rightarrow> v | Some w \<Rightarrow> w)"
proof (induction n)
  case (Suc n)
  then show ?case unfolding spurious_Suc by (simp split: option.splits)
qed (simp add: spurious_def split: option.splits)

lemma take_spurious:
  "take k (spurious n) = (if n < k then spurious n else replicate k (id, False))"
  by (auto simp: spurious_def min_def)

lemma cas_loop_replicate_False:
  "f v = Some w \<Longrightarrow> cas_loop f (replicate k (id, False)) v = None"
  by (induction k) auto

lemma others_replicate_id [simp]: "others (replicate k (id, b)) v = v"
  by (induction k) auto

lemma cas_result_spurious [simp]:
  "cas_result f (spurious n) v = (case f v of None \<Rightarrow> v | Some w \<Rightarrow> w)"
  by (simp add: cas_result_def)

section \<open>Any number of threads\<close>

text \<open>
  Each thread is idle or has loaded a value for an operation.  The log lists the operations that
  took effect, oldest first; an operation whose function gives \<open>None\<close> leaves the cell alone and is
  not logged.
\<close>

datatype ('v, 'op) thread_pc = Idle | Loaded 'op 'v

record ('v, 'op) cell_state =
  cell :: 'v
  pcs :: "nat \<Rightarrow> ('v, 'op) thread_pc"
  commits :: "'op list"

definition cell_init :: "'v \<Rightarrow> ('v, 'op) cell_state" where
  "cell_init v = \<lparr>cell = v, pcs = (\<lambda>_. Idle), commits = []\<rparr>"

inductive cas_step ::
  "('op \<Rightarrow> 'v \<Rightarrow> 'v option) \<Rightarrow> ('v, 'op) cell_state \<Rightarrow> ('v, 'op) cell_state \<Rightarrow> bool"
  for attempt where
  load: "pcs s t = Idle \<Longrightarrow>
    cas_step attempt s (s\<lparr>pcs := (pcs s)(t := Loaded op (cell s))\<rparr>)"
| give_up: "pcs s t = Loaded op cur \<Longrightarrow> attempt op cur = None \<Longrightarrow>
    cas_step attempt s (s\<lparr>pcs := (pcs s)(t := Idle)\<rparr>)"
| exchange: "pcs s t = Loaded op cur \<Longrightarrow> attempt op cur = Some new \<Longrightarrow> cell s = cur \<Longrightarrow>
    cas_step attempt s
      (s\<lparr>cell := new, pcs := (pcs s)(t := Idle), commits := commits s @ [op]\<rparr>)"
| retry: "pcs s t = Loaded op cur \<Longrightarrow> attempt op cur = Some new \<Longrightarrow>
    cas_step attempt s (s\<lparr>pcs := (pcs s)(t := Loaded op (cell s))\<rparr>)"
| abandon: "pcs s t = Loaded op cur \<Longrightarrow> attempt op cur = Some new \<Longrightarrow>
    cas_step attempt s (s\<lparr>pcs := (pcs s)(t := Idle)\<rparr>)"

inductive cas_reachable ::
  "('op \<Rightarrow> 'v \<Rightarrow> 'v option) \<Rightarrow> 'v \<Rightarrow> ('v, 'op) cell_state \<Rightarrow> bool"
  for attempt v0 where
  start: "cas_reachable attempt v0 (cell_init v0)"
| step: "cas_reachable attempt v0 s \<Longrightarrow> cas_step attempt s s' \<Longrightarrow> cas_reachable attempt v0 s'"

text \<open>The atomic specification: the logged operations, one after the other.\<close>

fun replay :: "('op \<Rightarrow> 'v \<Rightarrow> 'v option) \<Rightarrow> 'v \<Rightarrow> 'op list \<Rightarrow> 'v option" where
  "replay attempt v [] = Some v"
| "replay attempt v (op # ops) =
     (case attempt op v of None \<Rightarrow> None | Some v' \<Rightarrow> replay attempt v' ops)"

lemma replay_append:
  "replay attempt v (ops @ ops') = Option.bind (replay attempt v ops) (\<lambda>v'. replay attempt v' ops')"
  by (induction attempt v ops rule: replay.induct) (auto split: option.splits)

text \<open>Every interleaving is linearizable: the cell is what the log gives when run atomically.\<close>

lemma cas_linearizable:
  "cas_reachable attempt v0 s \<Longrightarrow> replay attempt v0 (commits s) = Some (cell s)"
proof (induction rule: cas_reachable.induct)
  case start
  show ?case by (simp add: cell_init_def)
next
  case (step s s')
  from step.hyps(2) step.IH show ?case
    by (cases rule: cas_step.cases) (auto simp: replay_append)
qed

text \<open>An operation whose exchange succeeds sees a value that its own function accepted.\<close>

locale cas_object =
  fixes attempt :: "'op \<Rightarrow> 'v \<Rightarrow> 'v option" and ok :: "'v \<Rightarrow> bool"
  assumes attempt_ok: "ok v \<Longrightarrow> attempt op v = Some v' \<Longrightarrow> ok v'"
begin

lemma replay_ok: "ok v \<Longrightarrow> replay attempt v ops = Some v' \<Longrightarrow> ok v'"
  by (induction ops arbitrary: v) (auto split: option.splits dest: attempt_ok)

lemma reachable_ok: "ok v0 \<Longrightarrow> cas_reachable attempt v0 s \<Longrightarrow> ok (cell s)"
  by (blast intro: replay_ok cas_linearizable)

lemma loop_ok:
  assumes "ok v" and "\<And>g b. (g, b) \<in> set sched \<Longrightarrow> (\<forall>w. ok w \<longrightarrow> ok (g w))"
    and "cas_loop (attempt op) sched v = Some (cur, new)"
  shows "ok cur \<and> ok new"
  using assms
proof (induction "attempt op" sched v rule: cas_loop.induct)
  case (2 g b rest v)
  have gv: "ok (g v)" using 2(2,3) by auto
  show ?case
  proof (cases "attempt op (g v)")
    case None
    with 2(4) gv show ?thesis by auto
  next
    case (Some w)
    then have "ok w" using gv by (blast intro: attempt_ok)
    show ?thesis
    proof (cases b)
      case True
      with Some 2(4) gv \<open>ok w\<close> show ?thesis by auto
    next
      case False
      with Some 2(4) have "cas_loop (attempt op) rest (g v) = Some (cur, new)" by simp
      moreover have "\<forall>w. ok w \<longrightarrow> ok (g' w)" if "(g', b') \<in> set rest" for g' b'
        using that 2(3) [of g' b'] by simp
      ultimately show ?thesis using 2(1) [OF Some False] gv by blast
    qed
  qed
qed simp

end

text \<open>An object whose operations only raise the cell.\<close>

locale cas_monotone =
  fixes attempt :: "'op \<Rightarrow> 'v::linorder \<Rightarrow> 'v option"
  assumes attempt_mono: "attempt op v = Some v' \<Longrightarrow> v \<le> v'"
begin

sublocale cas_object attempt "\<lambda>v. c \<le> v" for c
  by unfold_locales (blast intro: order_trans attempt_mono)

lemma reachable_mono: "cas_reachable attempt v0 s \<Longrightarrow> v0 \<le> cell s"
  by (rule reachable_ok [of v0 v0]) simp_all

lemma step_mono: "cas_step attempt s s' \<Longrightarrow> cell s \<le> cell s'"
  by (auto elim!: cas_step.cases intro: attempt_mono)

end

end
