(* ===== verification/Decimal_Api.thy ===== *)
theory Decimal_Api
  imports Rust_Prelude
begin

text \<open>
  The interface of \<^verbatim>\<open>rust_decimal::Decimal\<close>, a package outside the repository.  The definitions that
  compute with decimals take a record of its operations as an argument, over an arbitrary carrier
  type, and call nothing else of it.  Facts about the package that a theorem needs are hypotheses
  of that theorem.
\<close>

record 'd decimal_api =
  dec_zero :: 'd
  dec_lt :: "'d \<Rightarrow> 'd \<Rightarrow> bool"
  dec_mul :: "'d \<Rightarrow> 'd \<Rightarrow> 'd"
  dec_neg :: "'d \<Rightarrow> 'd"
  dec_from_int :: "int \<Rightarrow> 'd"
  dec_to_u64 :: "'d \<Rightarrow> u64 option"
  dec_to_string :: "'d \<Rightarrow> string"

text \<open>
  The further operations of the path finder and of the execution engine; \<open>dec_new m s\<close> is \<open>m\<close> times \<open>10\<^sup>-\<^sup>s\<close>.
\<close>

record 'd decimal_arith = "'d decimal_api" +
  dec_add :: "'d \<Rightarrow> 'd \<Rightarrow> 'd"
  dec_sub :: "'d \<Rightarrow> 'd \<Rightarrow> 'd"
  dec_div :: "'d \<Rightarrow> 'd \<Rightarrow> 'd"

record 'd exec_decimal = "'d decimal_arith" +
  dec_new :: "int \<Rightarrow> nat \<Rightarrow> 'd"
  dec_saturating_sub :: "'d \<Rightarrow> 'd \<Rightarrow> 'd"
  dec_saturating_add :: "'d \<Rightarrow> 'd \<Rightarrow> 'd"
  dec_ceil :: "'d \<Rightarrow> 'd"
  dec_round :: "'d \<Rightarrow> 'd"
  dec_trunc :: "'d \<Rightarrow> 'd"
  dec_floor :: "'d \<Rightarrow> 'd"
  dec_to_i64 :: "'d \<Rightarrow> i64 option"

text \<open>
  Addition, subtraction and multiplication are exact as long as the result has no more than 28 digits; a theorem about
  amounts in that range assumes so.  Division rounds, and no theorem assumes it to be exact.
\<close>

definition exact_arith :: "('d::linordered_idom, 'b) decimal_arith_scheme \<Rightarrow> bool" where
  "exact_arith D \<longleftrightarrow> dec_zero D = 0 \<and> dec_add D = (+) \<and> dec_sub D = (-) \<and> dec_mul D = (*)"

definition exact_numbers :: "('d::linordered_idom, 'b) decimal_arith_scheme \<Rightarrow> bool" where
  "exact_numbers D \<longleftrightarrow> exact_arith D \<and> dec_from_int D = of_int"

lemma exact_numbersD:
  "exact_numbers D \<Longrightarrow> dec_zero D = 0" "exact_numbers D \<Longrightarrow> dec_add D = (+)" "exact_numbers D \<Longrightarrow> dec_sub D = (-)"
  "exact_numbers D \<Longrightarrow> dec_mul D = (*)" "exact_numbers D \<Longrightarrow> dec_from_int D = of_int"
  by (simp_all add: exact_numbers_def exact_arith_def)

text \<open>
  Documented behaviour of \<^verbatim>\<open>to_u64\<close> that the conversion of percentages relies on: for a value in
  \<open>[0, 1]\<close>, ten thousand times it is between 0 and 10000 and converts to an integer not above
  10000.  Stated over the order of the carrier.
\<close>

definition scales_percentages :: "'d decimal_api \<Rightarrow> bool" where
  "scales_percentages D \<longleftrightarrow>
     (\<forall>x. \<not> dec_lt D x (dec_zero D) \<and> \<not> dec_lt D (dec_from_int D 1) x \<longrightarrow>
        (case dec_to_u64 D (dec_mul D x (dec_from_int D 10000)) of
           None \<Rightarrow> True | Some w \<Rightarrow> w \<le> 10000))"

text \<open>Whole numbers are one carrier: decimals of scale 0.\<close>

fun digits_of :: "nat \<Rightarrow> string" where
  "digits_of n =
     (if n < 10 then [''0123456789'' ! n] else digits_of (n div 10) @ [''0123456789'' ! (n mod 10)])"

declare digits_of.simps [simp del]

definition show_word :: "'a::len word \<Rightarrow> string" where
  "show_word w = digits_of (unat w)"

text \<open>A text of digits determines its number, and contains nothing but digits.\<close>

definition digits_value :: "string \<Rightarrow> nat" where
  "digits_value s = foldl (\<lambda>acc ch. 10 * acc + (of_char ch - 48)) 0 s"

lemma digits_nth: "n < 10 \<Longrightarrow> of_char (''0123456789'' ! n) = n + (48::nat) \<and> ''0123456789'' ! n \<in> set ''0123456789''"
proof -
  assume "n < 10"
  then have "n \<in> {0, 1, 2, 3, 4, 5, 6, 7, 8, 9}" by auto
  then show ?thesis by auto
qed

lemma digits_value_of: "digits_value (digits_of n) = n"
proof (induction n rule: digits_of.induct)
  case (1 n)
  show ?case
  proof (cases "n < 10")
    case True
    then show ?thesis using digits_nth [OF True] by (subst digits_of.simps) (simp add: digits_value_def)
  next
    case False
    have "n mod 10 < 10" by simp
    then show ?thesis using 1 [OF False] digits_nth [of "n mod 10"] False by (subst digits_of.simps) (simp add: digits_value_def)
  qed
qed

lemma digits_of_digits: "set (digits_of n) \<subseteq> set ''0123456789''"
proof (induction n rule: digits_of.induct)
  case (1 n)
  show ?case
  proof (cases "n < 10")
    case True
    then show ?thesis using digits_nth [OF True] by (subst digits_of.simps) (simp del: nth_Cons_numeral)
  next
    case False
    have "n mod 10 < 10" by simp
    then show ?thesis using 1 [OF False] digits_nth [of "n mod 10"] False by (subst digits_of.simps) (simp del: nth_Cons_numeral)
  qed
qed

lemma show_word_inject: "show_word v = show_word w \<longleftrightarrow> v = w"
  by (metis digits_value_of show_word_def word_unat_eq_iff)

lemma show_word_digits: "set (show_word w) \<subseteq> set ''0123456789''"
  unfolding show_word_def by (rule digits_of_digits)

definition int_decimal :: "int decimal_api" where
  "int_decimal =
     \<lparr>dec_zero = 0, dec_lt = (<), dec_mul = (*), dec_neg = uminus, dec_from_int = id,
      dec_to_u64 = (\<lambda>x. if 0 \<le> x \<and> x < 2 ^ 64 then Some (word_of_int x) else None),
      dec_to_string = (\<lambda>x. (if x < 0 then ''-'' else []) @ digits_of (nat \<bar>x\<bar>))\<rparr>"

text \<open>The same carrier with the further operations; a quotient is rounded to a whole number.\<close>

definition decimal_abs :: "'d::linorder exec_decimal \<Rightarrow> 'd \<Rightarrow> 'd" where
  "decimal_abs D x = (if x < dec_zero D then dec_neg D x else x)"

definition int_exec :: "int exec_decimal" where
  "int_exec =
     \<lparr>dec_zero = 0, dec_lt = (<), dec_mul = (*), dec_neg = uminus, dec_from_int = id,
      dec_to_u64 = (\<lambda>x. if 0 \<le> x \<and> x < 2 ^ 64 then Some (word_of_int x) else None),
      dec_to_string = (\<lambda>x. (if x < 0 then ''-'' else []) @ digits_of (nat \<bar>x\<bar>)),
      dec_add = (+), dec_sub = (-), dec_div = (\<lambda>a b. a div b), dec_new = (\<lambda>m s. m div 10 ^ s),
      dec_saturating_sub = (-), dec_saturating_add = (+), dec_ceil = id, dec_round = id, dec_trunc = id, dec_floor = id,
      dec_to_i64 = (\<lambda>x. if - (2 ^ 63) \<le> x \<and> x < 2 ^ 63 then Some (word_of_int x) else None)\<rparr>"

lemma int_decimal_scales: "scales_percentages int_decimal"
proof -
  have "x = 0 \<or> x = 1" if "0 \<le> x" "x \<le> 1" for x :: int using that by linarith
  then show ?thesis
    by (fastforce simp: scales_percentages_def int_decimal_def not_less)
qed

lemma int_exec_exact: "exact_numbers int_exec"
  by (simp add: exact_numbers_def exact_arith_def int_exec_def fun_eq_iff)

end
