(* ===== verification/Protections.thy ===== *)
theory Protections
  imports Atomic_Cell Decimal_Api
begin

text \<open>
  The 14-layer pre-trade gate of \<^verbatim>\<open>src/src/protections.rs\<close>: the drawdown tracker, the per-exchange
  failure tracker and the risk manager with every operation that changes its state.  Clock readings
  (\<^verbatim>\<open>current_time_millis\<close>) are arguments, one for each reading a function makes; the outcomes of
  the weak compare-and-swap loops are a schedule argument.  Amounts are fixed-point words
  (dollars times \<open>10\<^sup>6\<close>) or cents.
\<close>

section \<open>Constants and rejections\<close>

abbreviation BPS_SCALE :: u64 where "BPS_SCALE \<equiv> 10000"
abbreviation MAX_EXCHANGES :: nat where "MAX_EXCHANGES \<equiv> 256"
abbreviation MEMECOIN_MAX_BPS :: u64 where "MEMECOIN_MAX_BPS \<equiv> 500"
abbreviation ALTCOIN_MAX_BPS :: u64 where "ALTCOIN_MAX_BPS \<equiv> 1500"
abbreviation NETWORK_STALE_MS :: u64 where "NETWORK_STALE_MS \<equiv> 30000"

datatype trade_rejection =
    KillSwitchActive | SystemFrozen | ProfitBelowThreshold | EquityStale
  | HardLossCapBreached | PctLossCapBreached | MaxDrawdownBreached
  | ExposureLimitBreached | PositionSizeLimitBreached | ExchangePaused u16
  | DepegActive | MemecoinExposureLimit | AltcoinConcentrationLimit
  | MajorAssetFloorBreached | NetworkLatencyStale

text \<open>The layer that raises each rejection, as the comments of the enum number them.\<close>

fun layer_no :: "trade_rejection \<Rightarrow> nat" where
  "layer_no KillSwitchActive = 0"
| "layer_no SystemFrozen = 1"
| "layer_no ProfitBelowThreshold = 2"
| "layer_no EquityStale = 3"
| "layer_no HardLossCapBreached = 4"
| "layer_no PctLossCapBreached = 5"
| "layer_no MaxDrawdownBreached = 6"
| "layer_no ExposureLimitBreached = 7"
| "layer_no PositionSizeLimitBreached = 8"
| "layer_no (ExchangePaused _) = 9"
| "layer_no DepegActive = 10"
| "layer_no MemecoinExposureLimit = 11"
| "layer_no AltcoinConcentrationLimit = 12"
| "layer_no MajorAssetFloorBreached = 13"
| "layer_no NetworkLatencyStale = 14"

definition paused_id :: "trade_rejection \<Rightarrow> u16" where
  "paused_id r = (case r of ExchangePaused e \<Rightarrow> e | _ \<Rightarrow> 0)"

text \<open>Rejections are ordered by layer, so that the first failing layer is a minimum.\<close>

lemma rejection_eq_iff: "r = r' \<longleftrightarrow> layer_no r = layer_no r' \<and> paused_id r = paused_id r'"
  by (cases r; cases r') (auto simp: paused_id_def)

instantiation trade_rejection :: linorder
begin

definition less_eq_trade_rejection :: "trade_rejection \<Rightarrow> trade_rejection \<Rightarrow> bool" where
  "r \<le> r' \<longleftrightarrow> layer_no r < layer_no r' \<or> layer_no r = layer_no r' \<and> paused_id r \<le> paused_id r'"

definition less_trade_rejection :: "trade_rejection \<Rightarrow> trade_rejection \<Rightarrow> bool" where
  "r < r' \<longleftrightarrow> layer_no r < layer_no r' \<or> layer_no r = layer_no r' \<and> paused_id r < paused_id r'"

instance
  by standard (auto simp: less_eq_trade_rejection_def less_trade_rejection_def rejection_eq_iff)

end

section \<open>Drawdown tracker\<close>

record drawdown_tracker =
  peak_equity :: u64
  current_equity :: u64

definition drawdown_new :: "u64 \<Rightarrow> drawdown_tracker" where
  "drawdown_new fp = \<lparr>peak_equity = fp, current_equity = fp\<rparr>"

definition drawdown_bps :: "drawdown_tracker \<Rightarrow> u64" where
  "drawdown_bps d =
     (let peak = peak_equity d; current = current_equity d
      in if peak = 0 then 0
         else let lost = saturating_sub peak current;
                  bps = ((ucast lost :: u128) * ucast BPS_SCALE) div ucast peak
              in ucast bps)"

definition raise_peak :: "u64 \<Rightarrow> u64 \<Rightarrow> u64 option" where
  "raise_peak equity_fp cur = (if equity_fp \<le> cur then None else Some equity_fp)"

definition drawdown_tracker_update :: "u64 schedule \<Rightarrow> u64 \<Rightarrow> drawdown_tracker \<Rightarrow> drawdown_tracker" where
  "drawdown_tracker_update sched equity_fp d =
     d\<lparr>current_equity := equity_fp,
       peak_equity := cas_result (raise_peak equity_fp) sched (peak_equity d)\<rparr>"

section \<open>Exchange health tracker\<close>

record exchange_health_tracker =
  failure_counts :: "u32 list"
  pause_until :: "i64 list"

definition health_tracker_new :: exchange_health_tracker where
  "health_tracker_new =
     \<lparr>failure_counts = replicate MAX_EXCHANGES 0, pause_until = replicate MAX_EXCHANGES 0\<rparr>"

definition health_idx :: "u16 \<Rightarrow> nat" where
  "health_idx exchange_id = unat exchange_id mod MAX_EXCHANGES"

definition health_is_paused :: "i64 \<Rightarrow> exchange_health_tracker \<Rightarrow> u16 \<Rightarrow> bool" where
  "health_is_paused now h exchange_id = i64_less now (pause_until h ! health_idx exchange_id)"

definition health_record_failure ::
  "i64 \<Rightarrow> u16 \<Rightarrow> u32 \<Rightarrow> i64 \<Rightarrow> exchange_health_tracker \<Rightarrow> exchange_health_tracker" where
  "health_record_failure now exchange_id threshold pause_duration_ms h =
     (let i = health_idx exchange_id;
          count = failure_counts h ! i + 1;
          h' = h\<lparr>failure_counts := (failure_counts h)[i := count]\<rparr>
      in if threshold \<le> count
         then h'\<lparr>pause_until := (pause_until h)[i := i64_saturating_add now pause_duration_ms]\<rparr>
         else h')"

definition health_record_success :: "u16 \<Rightarrow> exchange_health_tracker \<Rightarrow> exchange_health_tracker" where
  "health_record_success exchange_id h =
     h\<lparr>failure_counts := (failure_counts h)[health_idx exchange_id := 0]\<rparr>"

section \<open>Conversions\<close>

definition pct_to_bps :: "'d decimal_api \<Rightarrow> 'd \<Rightarrow> u64" where
  "pct_to_bps D pct =
     (if dec_lt D pct (dec_zero D) then 0
      else case dec_to_u64 D (dec_mul D pct (dec_from_int D 10000)) of None \<Rightarrow> 0 | Some w \<Rightarrow> w)"

definition dollars_to_cents :: "'d decimal_api \<Rightarrow> 'd \<Rightarrow> i64" where
  "dollars_to_cents D dollars =
     (let cents = dec_mul D dollars (dec_from_int D 100);
          neg = dec_lt D cents (dec_zero D);
          a = (if neg then dec_neg D cents else cents);
          v = (case parse_i64 (before_dot (dec_to_string D a)) of
                 None \<Rightarrow> 10000000000 | Some x \<Rightarrow> x)
      in if neg then - v else v)"

definition bps_of_capital_fp :: "u64 \<Rightarrow> u64 \<Rightarrow> u64" where
  "bps_of_capital_fp bps capital_fp =
     (if capital_fp = 0 then 0
      else ucast (((ucast bps :: u128) * ucast capital_fp) div ucast BPS_SCALE))"

definition bps_of_capital_cents :: "u64 \<Rightarrow> u64 \<Rightarrow> i64" where
  "bps_of_capital_cents bps capital_fp =
     (if capital_fp = 0 then 0
      else let result = ((ucast bps :: u128) * ucast capital_fp) div 100000000
           in if 2 ^ 63 - 1 < result then 2 ^ 63 - 1 else ucast result)"

section \<open>Risk manager\<close>

record 'd validated_risk_config =
  min_net_profit_pct :: 'd
  max_equity_staleness_seconds :: i64
  absolute_hard_loss_cap :: 'd
  pct_hard_loss_cap :: 'd
  max_drawdown_pct :: 'd
  max_total_exposure_pct :: 'd
  max_single_position_pct :: 'd
  exchange_failure_threshold :: u32
  exchange_pause_duration_seconds :: i64
  stablecoin_depeg_threshold :: 'd
  daily_loss_limit_usd :: 'd

record 'd risk_manager =
  config :: "'d validated_risk_config"
  kill_switch :: bool
  frozen :: bool
  last_update :: i64
  drawdown :: drawdown_tracker
  exchange_health :: exchange_health_tracker
  total_exposure :: u64
  session_pnl :: i64
  depeg_active :: bool
  memecoin_exposure_fp :: u64
  altcoin_exposure_fp :: u64
  major_asset_breached :: bool
  last_network_check :: i64
  min_profit_bps :: u64
  max_staleness_ms :: i64
  abs_loss_cap_cents :: i64
  pct_loss_cap_bps :: u64
  max_drawdown_bps :: u64
  max_total_exposure_bps :: u64
  max_single_pos_bps :: u64
  failure_threshold :: u32
  pause_duration_ms :: i64

definition risk_manager_new ::
  "'d decimal_api \<Rightarrow> i64 \<Rightarrow> i64 \<Rightarrow> 'd validated_risk_config \<Rightarrow> 'd risk_manager" where
  "risk_manager_new D now_update now_network cfg =
     \<lparr>config = cfg, kill_switch = False, frozen = False, last_update = now_update,
      drawdown = drawdown_new 0, exchange_health = health_tracker_new,
      total_exposure = 0, session_pnl = 0, depeg_active = False,
      memecoin_exposure_fp = 0, altcoin_exposure_fp = 0, major_asset_breached = False,
      last_network_check = now_network,
      min_profit_bps = pct_to_bps D (min_net_profit_pct cfg),
      max_staleness_ms = max_equity_staleness_seconds cfg * 1000,
      abs_loss_cap_cents = dollars_to_cents D (absolute_hard_loss_cap cfg),
      pct_loss_cap_bps = pct_to_bps D (pct_hard_loss_cap cfg),
      max_drawdown_bps = pct_to_bps D (max_drawdown_pct cfg),
      max_total_exposure_bps = pct_to_bps D (max_total_exposure_pct cfg),
      max_single_pos_bps = pct_to_bps D (max_single_position_pct cfg),
      failure_threshold = exchange_failure_threshold cfg,
      pause_duration_ms = exchange_pause_duration_seconds cfg * 1000\<rparr>"

text \<open>
  The exposure reservation: at most 100 rounds; a round that finds the limit exceeded fails without
  a write.
\<close>

definition reserve :: "u64 \<Rightarrow> u64 \<Rightarrow> u64 \<Rightarrow> u64 option" where
  "reserve size_fp max_exp_fp current =
     (let new_total = saturating_add current size_fp
      in if max_exp_fp < new_total then None else Some new_total)"

definition try_reserve_exposure ::
  "u64 schedule \<Rightarrow> u64 \<Rightarrow> u64 \<Rightarrow> 'd risk_manager \<Rightarrow> (string + unit) \<times> 'd risk_manager" where
  "try_reserve_exposure sched size_fp max_exp_fp m =
     (case cas_loop (reserve size_fp max_exp_fp) (take 100 sched) (total_exposure m) of
        None \<Rightarrow> (Inl ''exposure reservation CAS loop exceeded max iterations'',
                 m\<lparr>total_exposure := others (take 100 sched) (total_exposure m)\<rparr>)
      | Some (current, new_total) \<Rightarrow>
          (if reserve size_fp max_exp_fp current = None then Inl ''exposure limit breached''
           else Inr (),
           m\<lparr>total_exposure := new_total\<rparr>))"

definition release :: "u64 \<Rightarrow> u64 \<Rightarrow> u64 option" where
  "release size_fp current = Some (saturating_sub current size_fp)"

definition release_exposure :: "u64 schedule \<Rightarrow> u64 \<Rightarrow> 'd risk_manager \<Rightarrow> 'd risk_manager" where
  "release_exposure sched size_fp m =
     m\<lparr>total_exposure := cas_result (release size_fp) (take 100 sched) (total_exposure m)\<rparr>"

definition set_total_exposure :: "u64 \<Rightarrow> 'd risk_manager \<Rightarrow> 'd risk_manager" where
  "set_total_exposure exposure_fp m = m\<lparr>total_exposure := exposure_fp\<rparr>"

text \<open>The gate reads the clock in layers 3, 9 and 14.\<close>

record gate_clock =
  now_equity :: i64
  now_pause :: i64
  now_network :: i64

definition pre_trade_check ::
  "gate_clock \<Rightarrow> u64 schedule \<Rightarrow> u64 \<Rightarrow> u64 \<Rightarrow> u64 \<Rightarrow> u16 \<Rightarrow> 'd risk_manager \<Rightarrow>
   (trade_rejection + unit) \<times> 'd risk_manager" where
  "pre_trade_check clk sched expected_profit_bps size_fp capital_fp exchange_id m =
     (if kill_switch m then (Inl KillSwitchActive, m)
      else if frozen m then (Inl SystemFrozen, m)
      else if expected_profit_bps < min_profit_bps m then (Inl ProfitBelowThreshold, m)
      else if i64_less (max_staleness_ms m) (i64_saturating_sub (now_equity clk) (last_update m))
        then (Inl EquityStale, m)
      else if i64_less (session_pnl m) (- abs_loss_cap_cents m) then (Inl HardLossCapBreached, m)
      else if i64_less (session_pnl m) (- bps_of_capital_cents (pct_loss_cap_bps m) capital_fp)
        then (Inl PctLossCapBreached, m)
      else if max_drawdown_bps m < drawdown_bps (drawdown m) then (Inl MaxDrawdownBreached, m)
      else
        (case try_reserve_exposure sched size_fp
                (bps_of_capital_fp (max_total_exposure_bps m) capital_fp) m of
           (Inl _, m') \<Rightarrow> (Inl ExposureLimitBreached, m')
         | (Inr _, m') \<Rightarrow>
             if bps_of_capital_fp (max_single_pos_bps m') capital_fp < size_fp
               then (Inl PositionSizeLimitBreached, m')
             else if health_is_paused (now_pause clk) (exchange_health m') exchange_id
               then (Inl (ExchangePaused exchange_id), m')
             else if depeg_active m' then (Inl DepegActive, m')
             else if bps_of_capital_fp MEMECOIN_MAX_BPS capital_fp < memecoin_exposure_fp m'
               then (Inl MemecoinExposureLimit, m')
             else if bps_of_capital_fp ALTCOIN_MAX_BPS capital_fp < altcoin_exposure_fp m'
               then (Inl AltcoinConcentrationLimit, m')
             else if major_asset_breached m' then (Inl MajorAssetFloorBreached, m')
             else if i64_less (ucast NETWORK_STALE_MS)
                       (i64_saturating_sub (now_network clk) (last_network_check m'))
               then (Inl NetworkLatencyStale, m')
             else (Inr (), m')))"

text \<open>State mutation and the setters of layers 10 to 14.\<close>

definition activate_kill_switch :: "'d risk_manager \<Rightarrow> 'd risk_manager" where
  "activate_kill_switch m = m\<lparr>kill_switch := True\<rparr>"

definition freeze :: "'d risk_manager \<Rightarrow> 'd risk_manager" where
  "freeze m = m\<lparr>frozen := True\<rparr>"

definition unfreeze :: "'d risk_manager \<Rightarrow> 'd risk_manager" where
  "unfreeze m = m\<lparr>frozen := False\<rparr>"

definition update_equity :: "i64 \<Rightarrow> u64 schedule \<Rightarrow> u64 \<Rightarrow> 'd risk_manager \<Rightarrow> 'd risk_manager" where
  "update_equity now sched equity_fp m =
     m\<lparr>drawdown := drawdown_tracker_update sched equity_fp (drawdown m), last_update := now\<rparr>"

definition record_trade_pnl :: "i64 \<Rightarrow> 'd risk_manager \<Rightarrow> 'd risk_manager" where
  "record_trade_pnl pnl_cents m = m\<lparr>session_pnl := session_pnl m + pnl_cents\<rparr>"

definition record_exchange_failure :: "i64 \<Rightarrow> u16 \<Rightarrow> 'd risk_manager \<Rightarrow> 'd risk_manager" where
  "record_exchange_failure now exchange_id m =
     m\<lparr>exchange_health :=
         health_record_failure now exchange_id (failure_threshold m) (pause_duration_ms m)
           (exchange_health m)\<rparr>"

definition record_exchange_success :: "u16 \<Rightarrow> 'd risk_manager \<Rightarrow> 'd risk_manager" where
  "record_exchange_success exchange_id m =
     m\<lparr>exchange_health := health_record_success exchange_id (exchange_health m)\<rparr>"

definition set_depeg_active :: "bool \<Rightarrow> 'd risk_manager \<Rightarrow> 'd risk_manager" where
  "set_depeg_active b m = m\<lparr>depeg_active := b\<rparr>"

definition set_memecoin_exposure :: "u64 \<Rightarrow> 'd risk_manager \<Rightarrow> 'd risk_manager" where
  "set_memecoin_exposure fp m = m\<lparr>memecoin_exposure_fp := fp\<rparr>"

definition set_altcoin_exposure :: "u64 \<Rightarrow> 'd risk_manager \<Rightarrow> 'd risk_manager" where
  "set_altcoin_exposure fp m = m\<lparr>altcoin_exposure_fp := fp\<rparr>"

definition set_major_asset_breached :: "bool \<Rightarrow> 'd risk_manager \<Rightarrow> 'd risk_manager" where
  "set_major_asset_breached b m = m\<lparr>major_asset_breached := b\<rparr>"

definition touch_network_check :: "i64 \<Rightarrow> 'd risk_manager \<Rightarrow> 'd risk_manager" where
  "touch_network_check now m = m\<lparr>last_network_check := now\<rparr>"

definition set_initial_equity :: "u64 schedule \<Rightarrow> u64 \<Rightarrow> 'd risk_manager \<Rightarrow> 'd risk_manager" where
  "set_initial_equity sched equity_fp m = m\<lparr>drawdown := drawdown_tracker_update sched equity_fp (drawdown m)\<rparr>"

text \<open>Any call a client can make; the number of an atomic operation counts spurious failures.\<close>

datatype risk_op =
    OpKill | OpFreeze | OpUnfreeze | OpUpdateEquity i64 nat u64 | OpPnl i64
  | OpFailure i64 u16 | OpSuccess u16 | OpDepeg bool | OpMeme u64 | OpAlt u64 | OpMajor bool
  | OpTouch i64 | OpInitialEquity nat u64 | OpSetExposure u64 | OpRelease nat u64
  | OpCheck gate_clock nat u64 u64 u64 u16

fun risk_step :: "'d risk_manager \<Rightarrow> risk_op \<Rightarrow> 'd risk_manager" where
  "risk_step m OpKill = activate_kill_switch m"
| "risk_step m OpFreeze = freeze m"
| "risk_step m OpUnfreeze = unfreeze m"
| "risk_step m (OpUpdateEquity now n fp) = update_equity now (spurious n) fp m"
| "risk_step m (OpPnl c) = record_trade_pnl c m"
| "risk_step m (OpFailure now e) = record_exchange_failure now e m"
| "risk_step m (OpSuccess e) = record_exchange_success e m"
| "risk_step m (OpDepeg b) = set_depeg_active b m"
| "risk_step m (OpMeme fp) = set_memecoin_exposure fp m"
| "risk_step m (OpAlt fp) = set_altcoin_exposure fp m"
| "risk_step m (OpMajor b) = set_major_asset_breached b m"
| "risk_step m (OpTouch now) = touch_network_check now m"
| "risk_step m (OpInitialEquity n fp) = set_initial_equity (spurious n) fp m"
| "risk_step m (OpSetExposure fp) = set_total_exposure fp m"
| "risk_step m (OpRelease n fp) = release_exposure (spurious n) fp m"
| "risk_step m (OpCheck clk n p s c e) = snd (pre_trade_check clk (spurious n) p s c e m)"

section \<open>Specification of the gate\<close>

text \<open>
  What each layer is meant to refuse, over exact integers: percentages of capital are compared by
  cross-multiplication, so neither rounding nor wrap-around occurs in the specification.
\<close>

fun violated ::
  "gate_clock \<Rightarrow> u64 \<Rightarrow> u64 \<Rightarrow> u64 \<Rightarrow> u16 \<Rightarrow> 'd risk_manager \<Rightarrow> trade_rejection \<Rightarrow> bool" where
  "violated clk p s c e m KillSwitchActive = kill_switch m"
| "violated clk p s c e m SystemFrozen = frozen m"
| "violated clk p s c e m ProfitBelowThreshold = (unat p < unat (min_profit_bps m))"
| "violated clk p s c e m EquityStale =
     (sint (max_staleness_ms m) < sint (now_equity clk) - sint (last_update m))"
| "violated clk p s c e m HardLossCapBreached =
     (sint (session_pnl m) < - sint (abs_loss_cap_cents m))"
| "violated clk p s c e m PctLossCapBreached =
     (int (unat (pct_loss_cap_bps m) * unat c) < - sint (session_pnl m) * 100000000)"
| "violated clk p s c e m MaxDrawdownBreached =
     (unat (max_drawdown_bps m) <
        (unat (peak_equity (drawdown m)) - unat (current_equity (drawdown m))) * 10000
          div unat (peak_equity (drawdown m)))"
| "violated clk p s c e m ExposureLimitBreached =
     (unat (max_total_exposure_bps m) * unat c < 10000 * (unat (total_exposure m) + unat s))"
| "violated clk p s c e m PositionSizeLimitBreached =
     (unat (max_single_pos_bps m) * unat c < 10000 * unat s)"
| "violated clk p s c e m (ExchangePaused e') =
     (e' = e \<and> sint (now_pause clk) < sint (pause_until (exchange_health m) ! health_idx e))"
| "violated clk p s c e m DepegActive = depeg_active m"
| "violated clk p s c e m MemecoinExposureLimit =
     (500 * unat c < 10000 * unat (memecoin_exposure_fp m))"
| "violated clk p s c e m AltcoinConcentrationLimit =
     (1500 * unat c < 10000 * unat (altcoin_exposure_fp m))"
| "violated clk p s c e m MajorAssetFloorBreached = major_asset_breached m"
| "violated clk p s c e m NetworkLatencyStale =
     (30000 < sint (now_network clk) - sint (last_network_check m))"

text \<open>
  Thresholds that a validated configuration gives: percentages of at most 100, a staleness bound
  and a loss cap inside the range of \<open>i64\<close>.
\<close>

definition risk_wf :: "'d risk_manager \<Rightarrow> bool" where
  "risk_wf m \<longleftrightarrow>
     pct_loss_cap_bps m \<le> 10000 \<and> max_total_exposure_bps m \<le> 10000 \<and> max_single_pos_bps m \<le> 10000 \<and>
     sint (max_staleness_ms m) < 2 ^ 63 - 1 \<and> sint (abs_loss_cap_cents m) \<noteq> - (2 ^ 63)"

section \<open>Arithmetic of the layers\<close>

lemma unat_mul128 [rust_arith]:
  "unat ((ucast (a::u64) :: u128) * ucast (b::u64)) = unat a * unat b"
proof -
  have "unat a * unat b < 2 ^ 64 * 2 ^ 64"
    using unat_less_2p [of a] unat_less_2p [of b] by (intro mult_strict_mono) auto
  then show ?thesis by (simp add: unat_word_ariths unat_ucast_up)
qed

lemma bps_times_le: "bps \<le> 10000 \<Longrightarrow> unat (bps::u64) * unat (c::u64) \<le> 10000 * unat c"
  by (intro mult_right_mono) (simp_all add: word_le_nat_alt)

lemma unat_bps_of_capital_fp:
  assumes "bps \<le> 10000"
  shows "unat (bps_of_capital_fp bps c) = unat bps * unat c div 10000"
proof -
  have "unat bps * unat c div 10000 \<le> unat c" using bps_times_le [OF assms, of c] by linarith
  then have "unat bps * unat c div 10000 < 2 ^ 64" using unat_less_2p [of c] by simp
  then show ?thesis
    by (simp add: bps_of_capital_fp_def unat_ucast_mod unat_div unat_mul128 unat_ucast_up)
qed

lemma bps_limit_exceeded_iff:
  assumes "bps \<le> 10000"
  shows "bps_of_capital_fp bps c < x \<longleftrightarrow> unat bps * unat c < 10000 * unat x"
  by (simp add: word_less_nat_alt unat_bps_of_capital_fp [OF assms] div_less_iff_less_mult mult.commute)

lemma reserve_None_iff:
  assumes "bps \<le> 10000" and "c \<noteq> - 1"
  shows "reserve s (bps_of_capital_fp bps c) x = None \<longleftrightarrow>
    unat bps * unat c < 10000 * (unat x + unat s)"
proof -
  have "unat c \<noteq> 2 ^ 64 - 1"
    using assms(2) by (auto simp: word_unat_eq_iff unat_minus_1_word)
  then have c: "unat c < 2 ^ 64 - 1" using unat_less_2p [of c] by simp
  then have q: "unat bps * unat c div 10000 < 2 ^ 64 - 1"
    using bps_times_le [OF assms(1), of c] by linarith
  have "reserve s (bps_of_capital_fp bps c) x = None \<longleftrightarrow>
      unat bps * unat c div 10000 < min (unat x + unat s) (2 ^ 64 - 1)"
    by (simp add: reserve_def Let_def word_less_nat_alt unat_bps_of_capital_fp [OF assms(1)] rust_arith)
  also have "\<dots> \<longleftrightarrow> unat bps * unat c div 10000 < unat x + unat s"
    using q by (simp add: min_less_iff_conj)
  finally show ?thesis by (simp add: div_less_iff_less_mult mult.commute)
qed

lemma sint_bps_of_capital_cents:
  assumes "bps \<le> 10000"
  shows "sint (bps_of_capital_cents bps c) = int (unat bps * unat c div 100000000)"
proof -
  let ?q = "unat bps * unat c div 100000000"
  have "unat bps * unat c < 9223372036854775808 * 100000000"
    using bps_times_le [OF assms, of c] u64_bound [of c] by linarith
  then have q: "?q < 2 ^ 63" by (simp add: div_less_iff_less_mult)
  have r: "unat (((ucast bps :: u128) * ucast c) div 100000000) = ?q"
    by (simp add: unat_div unat_mul128)
  have nb: "\<not> (2 ^ 63 - 1 :: u128) < ((ucast bps :: u128) * ucast c) div 100000000"
    using q by (simp add: word_less_nat_alt r)
  have "unat (ucast (((ucast bps :: u128) * ucast c) div 100000000) :: i64) = ?q"
    using q by (simp add: unat_ucast_mod r)
  then have "sint (ucast (((ucast bps :: u128) * ucast c) div 100000000) :: i64) = int ?q"
    using q by (metis sint_eq_of_unat_small)
  with nb show ?thesis by (auto simp: bps_of_capital_cents_def Let_def)
qed

lemma unat_drawdown_bps:
  "unat (drawdown_bps d) =
     (unat (peak_equity d) - unat (current_equity d)) * 10000 div unat (peak_equity d)"
proof (cases "peak_equity d = 0")
  case True
  then show ?thesis by (simp add: drawdown_bps_def)
next
  case False
  let ?p = "unat (peak_equity d)" and ?c = "unat (current_equity d)"
  have p: "0 < ?p" using False by (simp add: unat_gt_0)
  have "(?p - ?c) * 10000 \<le> 10000 * ?p" by simp
  then have le: "(?p - ?c) * 10000 div ?p \<le> 10000"
    using p by (metis div_le_mono nonzero_mult_div_cancel_right less_numeral_extra(3))
  have "unat (((ucast (saturating_sub (peak_equity d) (current_equity d)) :: u128) * ucast (10000 :: u64))
      div ucast (peak_equity d)) = (?p - ?c) * 10000 div ?p"
    by (simp only: unat_div unat_mul128 unat_saturating_sub) (simp add: unat_ucast_up)
  with False le show ?thesis
    by (simp add: drawdown_bps_def Let_def unat_ucast_mod)
qed

lemma drawdown_bps_le: "drawdown_bps d \<le> 10000"
proof -
  let ?p = "unat (peak_equity d)" and ?c = "unat (current_equity d)"
  have "(?p - ?c) * 10000 \<le> 10000 * ?p" by simp
  then have "(?p - ?c) * 10000 div ?p \<le> 10000"
    by (metis div_by_0 div_le_mono gr_zeroI nonzero_mult_div_cancel_right zero_le)
  then show ?thesis by (simp add: word_le_nat_alt unat_drawdown_bps)
qed

text \<open>Comparisons of the word layers, one for each shape that occurs in the gate.\<close>

lemma elapsed_exceeds_iff:
  assumes "sint bound < 2 ^ 63 - 1"
  shows "i64_less bound (i64_saturating_sub now prev) \<longleftrightarrow> sint bound < sint now - sint prev"
  using assms sint_range [of bound] by (auto simp: i64_less_def rust_arith)

lemma sint_neg: "sint a \<noteq> - (2 ^ 63) \<Longrightarrow> sint (- (a :: i64)) = - sint a"
proof -
  assume "sint a \<noteq> - (2 ^ 63)"
  then have "- (2 ^ 63) \<le> - sint a" "- sint a < 2 ^ 63" using sint_range [of a] by auto
  then have "sint (word_of_int (- sint a) :: i64) = - sint a" by (rule sint_word_of_int_id)
  then show ?thesis by simp
qed

lemma i64_less_neg_iff: "sint b \<noteq> - (2 ^ 63) \<Longrightarrow> i64_less a (- b) \<longleftrightarrow> sint a < - sint b"
  by (simp add: i64_less_def sint_neg)

lemma health_is_paused_iff:
  "health_is_paused now h e \<longleftrightarrow> sint now < sint (pause_until h ! health_idx e)"
  by (simp add: health_is_paused_def i64_less_def)

lemma pct_loss_exceeded_iff:
  assumes "bps \<le> 10000"
  shows "i64_less pnl (- bps_of_capital_cents bps c) \<longleftrightarrow>
    int (unat bps * unat c) < - sint pnl * 100000000"
proof -
  let ?q = "unat bps * unat c div 100000000"
  have s: "sint (bps_of_capital_cents bps c) = int ?q" by (rule sint_bps_of_capital_cents [OF assms])
  then have "sint (- bps_of_capital_cents bps c) = - int ?q" by (subst sint_neg) simp_all
  then have "i64_less pnl (- bps_of_capital_cents bps c) \<longleftrightarrow> int ?q < - sint pnl"
    by (auto simp: i64_less_def)
  also have "\<dots> \<longleftrightarrow> int (unat bps * unat c) < - sint pnl * 100000000"
    by (simp only: zdiv_int of_nat_numeral) linarith
  finally show ?thesis .
qed

lemma try_reserve_spurious:
  "n < 100 \<Longrightarrow> try_reserve_exposure (spurious n) s mx m =
     (case reserve s mx (total_exposure m) of
        None \<Rightarrow> (Inl ''exposure limit breached'', m)
      | Some x \<Rightarrow> (Inr (), m\<lparr>total_exposure := x\<rparr>))"
  by (simp add: try_reserve_exposure_def take_spurious split: option.splits)

section \<open>The gate meets its specification\<close>

text \<open>The layers before and after the reservation, in the order the gate tries them.\<close>

definition early_layers :: "trade_rejection list" where
  "early_layers = [KillSwitchActive, SystemFrozen, ProfitBelowThreshold, EquityStale,
     HardLossCapBreached, PctLossCapBreached, MaxDrawdownBreached, ExposureLimitBreached]"

definition late_layers :: "u16 \<Rightarrow> trade_rejection list" where
  "late_layers e = [PositionSizeLimitBreached, ExchangePaused e, DepegActive, MemecoinExposureLimit,
     AltcoinConcentrationLimit, MajorAssetFloorBreached, NetworkLatencyStale]"

lemma gate_reference:
  assumes "risk_wf m" and "c \<noteq> - 1" and "n < 100"
  shows "pre_trade_check clk (spurious n) p s c e m =
    (case find (violated clk p s c e m) early_layers of
       Some r \<Rightarrow> (Inl r, m)
     | None \<Rightarrow>
         (case find (violated clk p s c e m) (late_layers e) of Some r \<Rightarrow> Inl r | None \<Rightarrow> Inr (),
          m\<lparr>total_exposure := total_exposure m + s\<rparr>))"
proof -
  let ?mx = "bps_of_capital_fp (max_total_exposure_bps m) c"
  note wf = assms(1) [unfolded risk_wf_def]
  have r_None: "reserve s ?mx (total_exposure m) = None \<longleftrightarrow> violated clk p s c e m ExposureLimitBreached"
    using wf assms(2) by (simp add: reserve_None_iff)
  have r_Some: "x = total_exposure m + s" if "reserve s ?mx (total_exposure m) = Some x" for x
  proof -
    have "unat (max_total_exposure_bps m) * unat c \<le> 10000 * unat c" using wf by (intro bps_times_le) simp
    moreover have "\<not> unat (max_total_exposure_bps m) * unat c < 10000 * (unat (total_exposure m) + unat s)"
      using that wf assms(2) reserve_None_iff [of "max_total_exposure_bps m" c s "total_exposure m"] by auto
    ultimately have "10000 * (unat (total_exposure m) + unat s) \<le> 10000 * unat c"
      by (meson leI le_trans)
    then have "unat (total_exposure m) + unat s \<le> unat c" by simp
    then have "unat (total_exposure m) + unat s < 18446744073709551616"
      using u64_bound [of c] by (rule le_less_trans)
    with that show ?thesis by (auto simp: reserve_def Let_def saturating_add_def split: if_splits)
  qed
  have late: "depeg_active m \<longleftrightarrow> violated clk p s c e m DepegActive"
    "major_asset_breached m \<longleftrightarrow> violated clk p s c e m MajorAssetFloorBreached"
    "bps_of_capital_fp (max_single_pos_bps m) c < s \<longleftrightarrow>
      violated clk p s c e m PositionSizeLimitBreached"
    "bps_of_capital_fp 500 c < memecoin_exposure_fp m \<longleftrightarrow> violated clk p s c e m MemecoinExposureLimit"
    "bps_of_capital_fp 1500 c < altcoin_exposure_fp m \<longleftrightarrow> violated clk p s c e m AltcoinConcentrationLimit"
    "i64_less 30000 (i64_saturating_sub (now_network clk) (last_network_check m)) \<longleftrightarrow>
      violated clk p s c e m NetworkLatencyStale"
    "health_is_paused (now_pause clk) (exchange_health m) e \<longleftrightarrow> violated clk p s c e m (ExchangePaused e)"
    using wf by (simp_all add: bps_limit_exceeded_iff elapsed_exceeds_iff health_is_paused_iff)
  have early: "kill_switch m \<longleftrightarrow> violated clk p s c e m KillSwitchActive"
    "frozen m \<longleftrightarrow> violated clk p s c e m SystemFrozen"
    "p < min_profit_bps m \<longleftrightarrow> violated clk p s c e m ProfitBelowThreshold"
    "i64_less (max_staleness_ms m) (i64_saturating_sub (now_equity clk) (last_update m)) \<longleftrightarrow>
      violated clk p s c e m EquityStale"
    "i64_less (session_pnl m) (- abs_loss_cap_cents m) \<longleftrightarrow> violated clk p s c e m HardLossCapBreached"
    "i64_less (session_pnl m) (- bps_of_capital_cents (pct_loss_cap_bps m) c) \<longleftrightarrow>
      violated clk p s c e m PctLossCapBreached"
    "max_drawdown_bps m < drawdown_bps (drawdown m) \<longleftrightarrow> violated clk p s c e m MaxDrawdownBreached"
    using wf by (simp_all add: word_less_nat_alt elapsed_exceeds_iff pct_loss_exceeded_iff
        unat_drawdown_bps i64_less_neg_iff)
  show ?thesis
    unfolding pre_trade_check_def try_reserve_spurious [OF assms(3)] early
    using r_None r_Some
    by (cases "reserve s ?mx (total_exposure m)")
      (simp_all add: early_layers_def late_layers_def late del: violated.simps)
qed

lemma layers_sorted: "sorted (early_layers @ late_layers e)"
  by (simp add: early_layers_def late_layers_def less_eq_trade_rejection_def)

lemma layers_complete: "violated clk p s c e m r \<Longrightarrow> r \<in> set (early_layers @ late_layers e)"
  by (cases r) (auto simp: early_layers_def late_layers_def)

lemma gate_result:
  assumes "risk_wf m" and "c \<noteq> - 1" and "n < 100"
  shows "fst (pre_trade_check clk (spurious n) p s c e m) =
    (case find (violated clk p s c e m) (early_layers @ late_layers e) of
       Some r \<Rightarrow> Inl r | None \<Rightarrow> Inr ())"
  by (simp add: gate_reference [OF assms] find_append split: option.splits)

lemma gate_layers_exact:
  assumes "risk_wf m" and "capital \<noteq> - 1" and "n < 100"
  shows "fst (pre_trade_check clk (spurious n) profit sz capital exch m) = Inl r \<longleftrightarrow>
            violated clk profit sz capital exch m r \<and> (\<forall>r'. violated clk profit sz capital exch m r' \<longrightarrow> r \<le> r')"
    and "fst (pre_trade_check clk (spurious n) profit sz capital exch m) = Inr () \<longleftrightarrow> (\<forall>r. \<not> violated clk profit sz capital exch m r)"
proof -
  let ?L = "early_layers @ late_layers exch" and ?v = "violated clk profit sz capital exch m"
  note all = layers_complete [of clk profit sz capital exch m]
  have res: "fst (pre_trade_check clk (spurious n) profit sz capital exch m) =
      (case find ?v ?L of Some r \<Rightarrow> Inl r | None \<Rightarrow> Inr ())"
    by (rule gate_result [OF assms])
  have "find ?v ?L = Some r \<longleftrightarrow> ?v r \<and> (\<forall>r'. ?v r' \<longrightarrow> r \<le> r')"
    by (rule find_least [OF layers_sorted all])
  moreover have "find ?v ?L = None \<longleftrightarrow> (\<forall>r. \<not> ?v r)"
    by (rule find_None_all [OF all])
  ultimately show "fst (pre_trade_check clk (spurious n) profit sz capital exch m) = Inl r \<longleftrightarrow> ?v r \<and> (\<forall>r'. ?v r' \<longrightarrow> r \<le> r')"
    and "fst (pre_trade_check clk (spurious n) profit sz capital exch m) = Inr () \<longleftrightarrow> (\<forall>r. \<not> ?v r)"
    unfolding res by (cases "find ?v ?L"; auto)+
qed

text \<open>
  C1: The gate refuses a trade exactly when one of its 15 layers is violated over exact integers,
  and the rejection it returns is the violated layer with the least number; otherwise it accepts.
  The thresholds are those a validated configuration gives, and the exchange on the exposure
  counter succeeds within its 100 rounds; the capital is below the largest 64-bit number.
\<close>

theorem gate_first_violated_layer:
  assumes "risk_wf m" and "capital \<noteq> - 1" and "n < 100"
  shows "(fst (pre_trade_check clk (spurious n) profit sz capital exch m) = Inl r \<longleftrightarrow>
            violated clk profit sz capital exch m r \<and>
            (\<forall>r'. violated clk profit sz capital exch m r' \<longrightarrow> r \<le> r')) \<and>
         (fst (pre_trade_check clk (spurious n) profit sz capital exch m) = Inr () \<longleftrightarrow>
            (\<forall>r. \<not> violated clk profit sz capital exch m r))"
  using gate_layers_exact [OF assms] by blast

definition sample_config :: "int validated_risk_config" where
  "sample_config =
     \<lparr>min_net_profit_pct = 0, max_equity_staleness_seconds = 60, absolute_hard_loss_cap = 500,
      pct_hard_loss_cap = 1, max_drawdown_pct = 1, max_total_exposure_pct = 1,
      max_single_position_pct = 1, exchange_failure_threshold = 3,
      exchange_pause_duration_seconds = 300, stablecoin_depeg_threshold = 1,
      daily_loss_limit_usd = 100\<rparr>"

definition sample_manager :: "int risk_manager" where
  "sample_manager = risk_manager_new int_decimal 1000 1000 sample_config"

definition sample_clock :: "i64 \<Rightarrow> gate_clock" where
  "sample_clock t = \<lparr>now_equity = t, now_pause = t, now_network = t\<rparr>"

lemma digits_of_50000: "digits_of 50000 = ''50000''"
  by (simp add: digits_of.simps)

lemma sample_manager_wf: "risk_wf sample_manager"
  by (simp add: risk_wf_def sample_manager_def sample_config_def risk_manager_new_def pct_to_bps_def
      dollars_to_cents_def int_decimal_def digits_of_50000 before_dot_def parse_i64_def digit_value_def
      Let_def)

lemmas sample_defs = sample_manager_def sample_config_def risk_manager_new_def pct_to_bps_def
  dollars_to_cents_def int_decimal_def digits_of_50000 before_dot_def parse_i64_def digit_value_def
  sample_clock_def drawdown_new_def health_tracker_new_def health_idx_def

lemma sample_not_violated:
  "\<not> violated (sample_clock 2000) 10 5000000 100000000 1 sample_manager r"
  by (cases r) (simp_all add: sample_defs Let_def nth_replicate)

theorem gate_first_violated_layer_witness:
  "risk_wf sample_manager \<and> (100000000 :: u64) \<noteq> - 1 \<and> (3::nat) < 100 \<and>
   fst (pre_trade_check (sample_clock 2000) (spurious 3) 10 5000000 100000000 1 sample_manager) = Inr ()"
  using gate_first_violated_layer [OF sample_manager_wf, of 100000000 3 "sample_clock 2000" 10 5000000 1]
    sample_not_violated sample_manager_wf by simp

lemma gate_transition:
  assumes "risk_wf m" and "capital \<noteq> - 1" and "n < 100"
    and "pre_trade_check clk (spurious n) profit sz capital exch m = (res, m')"
  shows "(case res of Inl r \<Rightarrow> layer_no r \<le> 7 | Inr _ \<Rightarrow> False) \<and> m' = m \<or>
         (case res of Inl r \<Rightarrow> 7 < layer_no r | Inr _ \<Rightarrow> True) \<and>
         m' = m\<lparr>total_exposure := total_exposure m + sz\<rparr> \<and>
         unat (total_exposure m') = unat (total_exposure m) + unat sz \<and>
         10000 * unat (total_exposure m') \<le> unat (max_total_exposure_bps m) * unat capital"
proof (cases "find (violated clk profit sz capital exch m) early_layers")
  case (Some r)
  then have "r \<in> set early_layers" by (auto simp: find_Some_iff in_set_conv_nth)
  then have "layer_no r \<le> 7" by (auto simp: early_layers_def)
  with Some assms(4) show ?thesis by (auto simp: gate_reference [OF assms(1-3)])
next
  case None
  have late: "7 < layer_no r" if "find (violated clk profit sz capital exch m) (late_layers exch) = Some r" for r
  proof -
    from that have "r \<in> set (late_layers exch)" by (auto simp: find_Some_iff in_set_conv_nth)
    then show ?thesis by (auto simp: late_layers_def)
  qed
  from None have "\<forall>r \<in> set early_layers. \<not> violated clk profit sz capital exch m r"
    by (auto simp: find_None_iff simp del: violated.simps)
  then have "\<not> violated clk profit sz capital exch m ExposureLimitBreached"
    by (simp add: early_layers_def)
  then have le: "10000 * (unat (total_exposure m) + unat sz) \<le> unat (max_total_exposure_bps m) * unat capital"
    by simp
  also have "\<dots> \<le> 10000 * unat capital"
    using assms(1) by (intro bps_times_le) (simp add: risk_wf_def)
  finally have "unat (total_exposure m) + unat sz \<le> unat capital" by simp
  then have "unat (total_exposure m) + unat sz < 2 ^ LENGTH(64)"
    using unat_less_2p [of capital] by (rule le_less_trans)
  then have sum: "unat (total_exposure m + sz) = unat (total_exposure m) + unat sz"
    by (simp add: unat_word_ariths)
  from assms(4) None have "m' = m\<lparr>total_exposure := total_exposure m + sz\<rparr>"
    and "res = (case find (violated clk profit sz capital exch m) (late_layers exch) of
                  Some r \<Rightarrow> Inl r | None \<Rightarrow> Inr ())"
    by (simp_all add: gate_reference [OF assms(1-3)])
  with le sum late show ?thesis by (auto split: option.splits)
qed

text \<open>
  C2: The only field the gate ever writes is the exposure counter.  An accepted trade, and one
  refused by a layer after the seventh, leaves the counter raised by exactly the trade's size (the
  sum does not wrap and stays within the exposure limit); one refused by a layer up to the seventh
  leaves the manager as it was.
\<close>

theorem gate_effect:
  assumes "risk_wf m" and "capital \<noteq> - 1" and "n < 100"
    and "pre_trade_check clk (spurious n) profit sz capital exch m = (res, m')"
  shows "(case res of Inl r \<Rightarrow> layer_no r \<le> 7 | Inr _ \<Rightarrow> False) \<and> m' = m \<or>
         (case res of Inl r \<Rightarrow> 7 < layer_no r | Inr _ \<Rightarrow> True) \<and>
         m' = m\<lparr>total_exposure := total_exposure m + sz\<rparr> \<and>
         unat (total_exposure m') = unat (total_exposure m) + unat sz \<and>
         10000 * unat (total_exposure m') \<le> unat (max_total_exposure_bps m) * unat capital"
  using assms by (rule gate_transition)

theorem gate_effect_witness:
  "\<exists>m'. pre_trade_check (sample_clock 2000) (spurious 0) 10 5000000 100000000 1 sample_manager = (Inr (), m') \<and>
     unat (total_exposure m') = 5000000"
proof -
  obtain res m' where e:
    "pre_trade_check (sample_clock 2000) (spurious 0) 10 5000000 100000000 1 sample_manager = (res, m')"
    by fastforce
  have "fst (pre_trade_check (sample_clock 2000) (spurious 0) 10 5000000 100000000 1 sample_manager) = Inr ()"
    using sample_not_violated by (simp add: gate_result [OF sample_manager_wf] find_None_iff
      del: violated.simps split: option.splits)
  with e have "res = Inr ()" by simp
  with gate_effect [OF sample_manager_wf _ _ e] e show ?thesis
    by (auto simp: sample_manager_def risk_manager_new_def)
qed

text \<open>
  Releasing the size of a trade that the gate refused after the reservation (layers 8 to 14)
  gives back the manager as it was before the check.  The gate itself does not release: until the
  caller does, the refused trade counts against the exposure limit.
\<close>

theorem release_after_late_rejection:
  assumes "risk_wf m" and "capital \<noteq> - 1" and "n < 100" and "k < 100"
    and "pre_trade_check clk (spurious n) profit sz capital exch m = (Inl r, m')"
    and "7 < layer_no r"
  shows "release_exposure (spurious k) sz m' = m \<and> total_exposure m' = total_exposure m + sz"
proof -
  have m': "m' = m\<lparr>total_exposure := total_exposure m + sz\<rparr>"
    and sum: "unat (total_exposure m + sz) = unat (total_exposure m) + unat sz"
    using gate_transition [OF assms(1-3,5)] assms(6) by auto
  have "saturating_sub (total_exposure m + sz) sz = total_exposure m"
    by (simp add: word_unat_eq_iff unat_saturating_sub sum)
  then show ?thesis
    using assms(4) by (simp add: m' release_exposure_def release_def take_spurious)
qed

theorem release_after_late_rejection_witness:
  "\<exists>m'. pre_trade_check (sample_clock 2000) (spurious 0) 10 5000000 100000000 1
       (set_depeg_active True sample_manager) = (Inl DepegActive, m') \<and>
     release_exposure (spurious 2) 5000000 m' = set_depeg_active True sample_manager"
proof -
  let ?m = "set_depeg_active True sample_manager"
  obtain res m' where e:
    "pre_trade_check (sample_clock 2000) (spurious 0) 10 5000000 100000000 1 ?m = (res, m')"
    by fastforce
  have wf: "risk_wf ?m" using sample_manager_wf by (simp add: risk_wf_def set_depeg_active_def)
  have "fst (pre_trade_check (sample_clock 2000) (spurious 0) 10 5000000 100000000 1 ?m) = Inl DepegActive"
    by (subst gate_result [OF wf]) (simp_all add: early_layers_def late_layers_def set_depeg_active_def
        sample_defs Let_def nth_replicate)
  with e have "res = Inl DepegActive" by simp
  with release_after_late_rejection [OF wf _ _ _ e [unfolded this], of 2] e show ?thesis by simp
qed

text \<open>
  The reservation fails closed.  When the exchange on the exposure counter fails in each of the
  100 rounds, the gate refuses the trade with the exposure rejection and leaves the manager as it
  was, even when the trade would fit under the limit.
\<close>

theorem reservation_fails_closed:
  assumes "100 \<le> n" and "\<forall>r \<in> set early_layers. \<not> violated clk profit sz capital exch m r"
    and "risk_wf m"
  shows "pre_trade_check clk (spurious n) profit sz capital exch m = (Inl ExposureLimitBreached, m)"
proof -
  let ?f = "reserve sz (bps_of_capital_fp (max_total_exposure_bps m) capital)"
  have t: "take 100 (spurious n) = replicate 100 (id, False)"
    using assms(1) by (simp add: take_spurious)
  have r: "try_reserve_exposure (spurious n) sz (bps_of_capital_fp (max_total_exposure_bps m) capital) m =
      (Inl (if ?f (total_exposure m) = None then ''exposure limit breached''
            else ''exposure reservation CAS loop exceeded max iterations''), m)"
  proof (cases "?f (total_exposure m)")
    case None
    then have "cas_loop ?f ((id, False) # replicate 99 (id, False)) (total_exposure m) =
        Some (total_exposure m, total_exposure m)" by simp
    then have "cas_loop ?f (replicate 100 (id, False)) (total_exposure m) =
        Some (total_exposure m, total_exposure m)" by (simp add: numeral_eq_Suc)
    with None show ?thesis by (simp add: try_reserve_exposure_def t)
  next
    case (Some x)
    have "solo (replicate 100 (id, False))" by (simp add: solo_def)
    with Some show ?thesis
      by (simp add: try_reserve_exposure_def t cas_loop_replicate_False)
  qed
  show ?thesis
    using assms(2,3) by (simp add: pre_trade_check_def r early_layers_def risk_wf_def word_less_nat_alt
      elapsed_exceeds_iff i64_less_neg_iff pct_loss_exceeded_iff unat_drawdown_bps)
qed

theorem reservation_fails_closed_witness:
  "pre_trade_check (sample_clock 2000) (spurious 100) 10 5000000 100000000 1 sample_manager =
     (Inl ExposureLimitBreached, sample_manager)"
  using sample_not_violated
  by (intro reservation_fails_closed sample_manager_wf) (simp_all del: violated.simps)

end
