(* ===== verification/Protections_Runs.thy ===== *)
theory Protections_Runs
  imports Protections
begin

text \<open>
  The risk manager over sequences of calls and over interleavings of threads: the kill switch is a
  latch, the equity peak only grows, the tracker arrays keep their size, concurrent reservations
  never pass the limit and lose no update, and consecutive failures pause an exchange.
\<close>

section \<open>Sequences of calls\<close>

definition risk_inv :: "'d risk_manager \<Rightarrow> bool" where
  "risk_inv m \<longleftrightarrow>
     current_equity (drawdown m) \<le> peak_equity (drawdown m) \<and>
     length (failure_counts (exchange_health m)) = MAX_EXCHANGES \<and>
     length (pause_until (exchange_health m)) = MAX_EXCHANGES"

lemma try_reserve_frame:
  "try_reserve_exposure sched s mx m = (r, m') \<Longrightarrow> \<exists>x. m' = m\<lparr>total_exposure := x\<rparr>"
  by (auto simp: try_reserve_exposure_def split: option.splits prod.splits)

lemma two_valued_if:
  "a = m \<or> a = y \<Longrightarrow> x = m \<or> x = y \<Longrightarrow> (if b then a else x) = m \<or> (if b then a else x) = y"
  by simp

lemma snd_pre_trade_check:
  "snd (pre_trade_check clk sched p s c e m) = m \<or>
   snd (pre_trade_check clk sched p s c e m) =
     snd (try_reserve_exposure sched s (bps_of_capital_fp (max_total_exposure_bps m) c) m)"
proof -
  obtain r m' where t:
    "try_reserve_exposure sched s (bps_of_capital_fp (max_total_exposure_bps m) c) m = (r, m')"
    by fastforce
  show ?thesis
    unfolding pre_trade_check_def t
    by (cases r) (simp_all only: if_distrib [of snd] snd_conv sum.case prod.case if_cancel,
      (intro two_valued_if; simp)+)
qed

lemma pre_trade_check_frame:
  "snd (pre_trade_check clk sched p s c e m) =
     m\<lparr>total_exposure := total_exposure (snd (pre_trade_check clk sched p s c e m))\<rparr>"
  (is "?m' = _")
proof (cases "?m' = m")
  case False
  obtain r m' where t:
    "try_reserve_exposure sched s (bps_of_capital_fp (max_total_exposure_bps m) c) m = (r, m')"
    by fastforce
  with False have "?m' = m'" using snd_pre_trade_check [of clk sched p s c e m] by simp
  with try_reserve_frame [OF t] show ?thesis by auto
qed simp

lemma pre_trade_check_fields [simp]:
  "kill_switch (snd (pre_trade_check clk sched p s c e m)) = kill_switch m"
  "drawdown (snd (pre_trade_check clk sched p s c e m)) = drawdown m"
  "exchange_health (snd (pre_trade_check clk sched p s c e m)) = exchange_health m"
  by (subst pre_trade_check_frame, simp)+

lemma drawdown_tracker_update_spurious:
  "drawdown_tracker_update (spurious n) fp d =
     d\<lparr>current_equity := fp, peak_equity := max (peak_equity d) fp\<rparr>"
  by (auto simp: drawdown_tracker_update_def raise_peak_def max_def)

lemmas risk_op_defs = activate_kill_switch_def freeze_def unfreeze_def update_equity_def
  record_trade_pnl_def record_exchange_failure_def record_exchange_success_def set_depeg_active_def
  set_memecoin_exposure_def set_altcoin_exposure_def set_major_asset_breached_def
  touch_network_check_def set_initial_equity_def set_total_exposure_def release_exposure_def
  drawdown_tracker_update_spurious health_record_failure_def health_record_success_def

interpretation kill: guarded_machine risk_step kill_switch
proof
  fix m :: "'d risk_manager" and opn
  assume "kill_switch m"
  then show "kill_switch (risk_step m opn)"
    by (cases opn) (simp_all add: risk_op_defs)
qed

interpretation gate: guarded_machine risk_step risk_inv
proof
  fix m :: "'d risk_manager" and opn
  assume "risk_inv m"
  then show "risk_inv (risk_step m opn)"
    by (cases opn) (simp_all add: risk_op_defs risk_inv_def Let_def)
qed

interpretation peak: monotone_machine risk_step "\<lambda>m. peak_equity (drawdown m)"
proof
  fix m :: "'d risk_manager" and opn
  show "peak_equity (drawdown m) \<le> peak_equity (drawdown (risk_step m opn))"
    by (cases opn) (simp_all add: risk_op_defs Let_def)
qed

text \<open>
  The kill switch is a latch.  After a sequence of calls that activates it anywhere, every
  pre-trade check is refused by layer 0, under every schedule and clock, and changes nothing.
\<close>

theorem kill_switch_permanent:
  assumes "OpKill \<in> set ops"
  shows "pre_trade_check clk sched p s c e (run risk_step m ops) =
           (Inl KillSwitchActive, run risk_step m ops)"
proof -
  from assms obtain xs ys where ops: "ops = xs @ OpKill # ys" by (meson split_list)
  have "kill_switch (run risk_step (risk_step (run risk_step m xs) OpKill) ys)"
    by (rule kill.inv_run) (simp add: activate_kill_switch_def)
  then have "kill_switch (run risk_step m ops)" by (simp add: ops)
  then show ?thesis by (simp add: pre_trade_check_def)
qed

theorem kill_switch_permanent_witness:
  "OpKill \<in> set [OpKill, OpUnfreeze, OpDepeg False] \<and>
   fst (pre_trade_check (sample_clock 2000) (spurious 0) 10 5000000 100000000 1
     (run risk_step sample_manager [OpKill, OpUnfreeze, OpDepeg False])) = Inl KillSwitchActive"
  using kill_switch_permanent [of "[OpKill, OpUnfreeze, OpDepeg False]" "sample_clock 2000" "spurious 0"
    10 5000000 100000000 1 sample_manager] by simp

fun reported_equity :: "risk_op list \<Rightarrow> u64 list" where
  "reported_equity [] = []"
| "reported_equity (OpUpdateEquity _ _ fp # ops) = fp # reported_equity ops"
| "reported_equity (OpInitialEquity _ fp # ops) = fp # reported_equity ops"
| "reported_equity (_ # ops) = reported_equity ops"

lemma unat_foldl_max: "unat (foldl max (v :: u64) vs) = foldl max (unat v) (map unat vs)"
  by (induction vs arbitrary: v) (simp_all add: max_def word_le_nat_alt)

lemma drawdown_run:
  "peak_equity (drawdown (run risk_step m ops)) =
     foldl max (peak_equity (drawdown m)) (reported_equity ops) \<and>
   current_equity (drawdown (run risk_step m ops)) =
     (if reported_equity ops = [] then current_equity (drawdown m) else last (reported_equity ops))"
proof (induction ops arbitrary: m)
  case (Cons opn ops)
  show ?case using Cons.IH [of "risk_step m opn"]
    by (cases opn) (simp_all add: risk_op_defs Let_def)
qed simp

text \<open>
  C22: In every state that a fresh manager reaches by a sequence of calls, the drawdown tracker holds the highest and the latest
  equity reported to it (zero before the first report), and the peak has never been lowered.  The drawdown it reports is exactly the
  loss from that peak to the latest equity in basis points of the peak, rounded down, so at most 10000, and zero while the
  peak is zero.  The per-exchange arrays keep their 256 slots.
\<close>

theorem drawdown_tracks_history:
  "let m0 = risk_manager_new D t1 t2 cfg; m = run risk_step m0 ops;
       peak = foldl max 0 (map unat (reported_equity ops));
       latest = (if reported_equity ops = [] then 0 else unat (last (reported_equity ops))) in
    risk_inv m \<and>
    unat (peak_equity (drawdown m)) = peak \<and> unat (current_equity (drawdown m)) = latest \<and>
    peak_equity (drawdown m) \<le> peak_equity (drawdown (run risk_step m0 (ops @ ops'))) \<and>
    latest \<le> peak \<and>
    unat (drawdown_bps (drawdown m)) = (if peak = 0 then 0 else (peak - latest) * 10000 div peak) \<and>
    unat (drawdown_bps (drawdown m)) \<le> 10000"
proof -
  let ?init = "risk_manager_new D t1 t2 cfg"
  let ?fin = "run risk_step ?init ops" and ?eqs = "reported_equity ops"
  have "risk_inv ?init"
    by (simp add: risk_inv_def risk_manager_new_def drawdown_new_def health_tracker_new_def)
  then have inv: "risk_inv ?fin" by (rule gate.inv_run)
  have init: "peak_equity (drawdown ?init) = 0" "current_equity (drawdown ?init) = 0"
    by (simp_all add: risk_manager_new_def drawdown_new_def)
  have peak: "unat (peak_equity (drawdown ?fin)) = foldl max 0 (map unat ?eqs)"
    using drawdown_run [of ?init ops] init unat_foldl_max [of 0 ?eqs] by simp
  have latest: "unat (current_equity (drawdown ?fin)) = (if ?eqs = [] then 0 else unat (last ?eqs))"
    using drawdown_run [of ?init ops] init by simp
  have le: "(if ?eqs = [] then 0 else unat (last ?eqs)) \<le> foldl max 0 (map unat ?eqs)"
    by (cases ?eqs rule: rev_cases) simp_all
  have "unat (drawdown_bps (drawdown ?fin)) \<le> 10000"
    using drawdown_bps_le [of "drawdown ?fin"] by (simp add: word_le_nat_alt)
  with inv peak latest le show ?thesis
    using unat_drawdown_bps [of "drawdown ?fin"] peak.val_run_append [of ?init ops ops'] by (simp add: Let_def)
qed

text \<open>
  A late call of \<^verbatim>\<open>set_initial_equity\<close> is not the no-op its comment promises: the peak stays, but the current equity becomes the
  argument, so a smaller one shows up as a drawdown.
\<close>

lemma late_initial_equity:
  assumes "fp \<le> peak_equity (drawdown m)"
  shows "drawdown (set_initial_equity (spurious n) fp m) = (drawdown m)\<lparr>current_equity := fp\<rparr>"
  using assms by (simp add: set_initial_equity_def drawdown_tracker_update_spurious max_def)

section \<open>Threads\<close>

text \<open>
  Any number of threads reserve and release exposure on one counter.  The specification adds and
  subtracts natural numbers.
\<close>

datatype exposure_op = Reserve u64 | Release u64

fun exposure_attempt :: "u64 \<Rightarrow> exposure_op \<Rightarrow> u64 \<Rightarrow> u64 option" where
  "exposure_attempt mx (Reserve s) v = reserve s mx v"
| "exposure_attempt mx (Release s) v = release s v"

fun exposure_spec :: "nat \<Rightarrow> exposure_op \<Rightarrow> nat" where
  "exposure_spec n (Reserve s) = n + unat s"
| "exposure_spec n (Release s) = n - unat s"

lemma saturating_sub_le: "saturating_sub a b \<le> (a :: 'a::len word)"
  by (simp add: word_le_nat_alt unat_saturating_sub)

interpretation exposure: cas_object "exposure_attempt mx" "\<lambda>v. v \<le> mx" for mx
proof
  fix v op v'
  assume "v \<le> mx" and "exposure_attempt mx op v = Some v'"
  then show "v' \<le> mx"
    by (cases op) (auto simp: reserve_def release_def Let_def not_less split: if_splits
      intro: order_trans [OF saturating_sub_le])
qed

lemma exposure_attempt_spec:
  assumes "mx \<noteq> - 1" and "exposure_attempt mx op v = Some v'"
  shows "unat v' = exposure_spec (unat v) op"
proof (cases op)
  case (Reserve s)
  have "unat mx \<noteq> 2 ^ 64 - 1" using assms(1) by (auto simp: word_unat_eq_iff unat_minus_1_word)
  then have mx: "unat mx < 2 ^ 64 - 1" using unat_less_2p [of mx] by simp
  from Reserve assms(2) have "v' = saturating_add v s" and "v' \<le> mx"
    by (auto simp: reserve_def Let_def not_less split: if_splits)
  then have "unat v' = min (unat v + unat s) (2 ^ 64 - 1)" and "unat v' < 2 ^ 64 - 1"
    using mx by (simp_all add: unat_saturating_add word_le_nat_alt)
  with Reserve show ?thesis by (simp add: min_def split: if_splits)
next
  case (Release s)
  with assms(2) show ?thesis by (auto simp: release_def unat_saturating_sub)
qed

lemma exposure_replay_spec:
  "mx \<noteq> - 1 \<Longrightarrow> replay (exposure_attempt mx) v ops = Some v' \<Longrightarrow>
   unat v' = foldl exposure_spec (unat v) ops"
proof (induction ops arbitrary: v)
  case (Cons op ops)
  then obtain w where "exposure_attempt mx op v = Some w" "replay (exposure_attempt mx) w ops = Some v'"
    by (auto split: option.splits)
  with Cons exposure_attempt_spec show ?case by fastforce
qed simp

text \<open>
  C8: Under every interleaving of threads that reserve and release exposure with the
  compare-and-swap loop, the counter never exceeds the limit, and it equals the start value with
  the committed reservations added and the committed releases subtracted, in the order of their commits: no
  update is lost or applied twice.  A release of more than the counter holds leaves zero; the limit is
  below the largest 64-bit number.
\<close>

theorem concurrent_exposure_accounted:
  assumes "cas_reachable (exposure_attempt mx) v0 st" and "v0 \<le> mx" and "mx \<noteq> - 1"
  shows "cell st \<le> mx \<and> unat (cell st) = foldl exposure_spec (unat v0) (commits st)"
  using exposure.reachable_ok [OF assms(2,1)]
    exposure_replay_spec [OF assms(3) cas_linearizable [OF assms(1)]] by simp

text \<open>Two threads race: both load 0, the first commits, the second retries and commits.\<close>

definition race_states :: "(u64, exposure_op) cell_state list" where
  "race_states =
     [\<lparr>cell = 0, pcs = (\<lambda>_. Idle)(0 := Loaded (Reserve 5) 0), commits = []\<rparr>,
      \<lparr>cell = 0, pcs = (\<lambda>_. Idle)(0 := Loaded (Reserve 5) 0, 1 := Loaded (Reserve 7) 0), commits = []\<rparr>,
      \<lparr>cell = 5, pcs = (\<lambda>_. Idle)(1 := Loaded (Reserve 7) 0), commits = [Reserve 5]\<rparr>,
      \<lparr>cell = 5, pcs = (\<lambda>_. Idle)(1 := Loaded (Reserve 7) 5), commits = [Reserve 5]\<rparr>,
      \<lparr>cell = 12, pcs = (\<lambda>_. Idle), commits = [Reserve 5, Reserve 7]\<rparr>]"

lemma race_reachable: "cas_reachable (exposure_attempt 20) 0 (last race_states)"
proof -
  let ?r = "cas_reachable (exposure_attempt 20) 0"
  have s0: "?r (race_states ! 0)"
    using cas_reachable.step [OF cas_reachable.start, of "exposure_attempt 20" 0 "race_states ! 0"]
      cas_step.load [of "cell_init 0" 0 "exposure_attempt 20" "Reserve 5"]
    by (simp add: cell_init_def race_states_def)
  have s1: "?r (race_states ! 1)"
    using cas_reachable.step [OF s0, of "race_states ! 1"]
      cas_step.load [of "race_states ! 0" 1 "exposure_attempt 20" "Reserve 7"]
    by (simp add: race_states_def)
  have s2: "?r (race_states ! 2)"
    using cas_reachable.step [OF s1, of "race_states ! 2"]
      cas_step.exchange [of "race_states ! 1" 0 "Reserve 5" 0 "exposure_attempt 20" 5]
    by (simp add: race_states_def reserve_def saturating_add_def Let_def fun_upd_twist fun_upd_idem)
  have s3: "?r (race_states ! 3)"
    using cas_reachable.step [OF s2, of "race_states ! 3"]
      cas_step.retry [of "race_states ! 2" 1 "Reserve 7" 0 "exposure_attempt 20" 7]
    by (simp add: race_states_def reserve_def saturating_add_def Let_def)
  show ?thesis
    using cas_reachable.step [OF s3, of "race_states ! 4"]
      cas_step.exchange [of "race_states ! 3" 1 "Reserve 7" 5 "exposure_attempt 20" 12]
    by (simp add: race_states_def reserve_def saturating_add_def Let_def fun_upd_idem)
qed

theorem concurrent_exposure_accounted_witness:
  "cas_reachable (exposure_attempt 20) 0 (last race_states) \<and> (0::u64) \<le> 20 \<and> (20::u64) \<noteq> - 1 \<and>
   cell (last race_states) \<le> 20 \<and> unat (cell (last race_states)) = 12"
  using concurrent_exposure_accounted [OF race_reachable] race_reachable
  by (simp add: race_states_def)

section \<open>Raising the peak\<close>

interpretation peak_cell: cas_monotone raise_peak
  by unfold_locales (auto simp: raise_peak_def split: if_splits)

text \<open>The loop goes on past a round exactly when its exchange failed and the peak it saw was too low.\<close>

definition seen_peak :: "u64 schedule \<Rightarrow> u64 \<Rightarrow> nat \<Rightarrow> u64" where
  "seen_peak sched v i = foldl (\<lambda>x g. g x) v (map fst (take (Suc i) sched))"

lemma find_mapped: "find P (map f xs) = map_option f (find (\<lambda>x. P (f x)) xs)"
  by (induction xs) auto

lemma find_upt_None: "find P [0..<n] = None \<longleftrightarrow> (\<forall>i<n. \<not> P i)"
  by (auto simp: find_None_iff)

lemma raise_peak_rounds:
  "cas_loop (raise_peak fp) sched v =
     (case find (\<lambda>i. snd (sched ! i) \<or> fp \<le> seen_peak sched v i) [0..<length sched] of
        None \<Rightarrow> None | Some i \<Rightarrow> Some (seen_peak sched v i, max (seen_peak sched v i) fp))"
proof (induction sched arbitrary: v)
  case (Cons r sched)
  obtain g ok where r: "r = (g, ok)" by fastforce
  have shift: "[0..<length (r # sched)] = 0 # map Suc [0..<length sched]" by (simp add: upt_conv_Cons map_Suc_upt del: upt_Suc)
  have seen: "seen_peak (r # sched) v 0 = g v" "seen_peak (r # sched) v (Suc i) = seen_peak sched (g v) i" for i
    by (simp_all add: seen_peak_def r)
  have first: "find (\<lambda>i. snd ((r # sched) ! i) \<or> fp \<le> seen_peak (r # sched) v i) [0..<length (r # sched)] =
      (if ok \<or> fp \<le> g v then Some 0
       else map_option Suc (find (\<lambda>i. snd (sched ! i) \<or> fp \<le> seen_peak sched (g v) i) [0..<length sched]))"
    unfolding shift find.simps find_mapped seen by (simp add: r)
  show ?case
  proof (cases "ok \<or> fp \<le> g v")
    case True
    then show ?thesis unfolding first by (auto simp: r seen [unfolded r] raise_peak_def max_def)
  next
    case False
    then have "cas_loop (raise_peak fp) (r # sched) v = cas_loop (raise_peak fp) sched (g v)" by (simp add: r raise_peak_def)
    with False Cons.IH [of "g v"] show ?thesis unfolding first by (simp add: seen split: option.split)
  qed
qed simp

text \<open>
  C40: When the unbounded loop of the drawdown tracker returns.  Each round of the loop sees the peak that the other threads have left, and the loop returns
  in the first round in which its exchange succeeds or the peak it sees is already as high as the reported equity because another
  thread has raised it; it does not return while every exchange fails and the peak stays lower.  When it returns in round
  \<open>i\<close>, the peak is the larger one of the reported equity and the peak seen in that round, and the current equity is the reported one.
  In particular a peak that is seen high enough ends the loop in that round at the latest, whatever its exchanges do.
\<close>

theorem raise_peak_returns:
  "let stop = (\<lambda>i. snd (sched ! i) \<or> fp \<le> seen_peak sched v i) in
    ((\<exists>r. cas_loop (raise_peak fp) sched v = Some r) \<longleftrightarrow> (\<exists>i<length sched. stop i)) \<and>
    (i < length sched \<and> stop i \<and> (\<forall>j<i. \<not> stop j) \<longrightarrow>
       drawdown_tracker_update sched fp \<lparr>peak_equity = v, current_equity = w\<rparr> =
         \<lparr>peak_equity = max (seen_peak sched v i) fp, current_equity = fp\<rparr>) \<and>
    (i < length sched \<and> fp \<le> seen_peak sched v i \<longrightarrow> (\<exists>r. cas_loop (raise_peak fp) (take (Suc i) sched) v = Some r))"
proof -
  define stop where "stop = (\<lambda>i. snd (sched ! i) \<or> fp \<le> seen_peak sched v i)"
  have ret: "(\<exists>r. cas_loop (raise_peak fp) s v = Some r) \<longleftrightarrow> (\<exists>i<length s. snd (s ! i) \<or> fp \<le> seen_peak s v i)" for s
  proof -
    have "(\<exists>r. cas_loop (raise_peak fp) s v = Some r) \<longleftrightarrow> find (\<lambda>i. snd (s ! i) \<or> fp \<le> seen_peak s v i) [0..<length s] \<noteq> None"
      by (auto simp: raise_peak_rounds split: option.split)
    then show ?thesis unfolding find_upt_None by blast
  qed
  have "drawdown_tracker_update sched fp \<lparr>peak_equity = v, current_equity = w\<rparr> =
         \<lparr>peak_equity = max (seen_peak sched v i) fp, current_equity = fp\<rparr>"
    if i: "i < length sched" "stop i" "\<forall>j<i. \<not> stop j"
  proof -
    have "find stop [0..<length sched] = Some i"
      using i by (auto simp: find_Some_iff intro!: exI [of _ i])
    then have "cas_loop (raise_peak fp) sched v = Some (seen_peak sched v i, max (seen_peak sched v i) fp)"
      by (simp add: raise_peak_rounds stop_def)
    then show ?thesis by (simp add: drawdown_tracker_update_def cas_result_def)
  qed
  moreover have "seen_peak (take (Suc i) sched) v i = seen_peak sched v i" by (simp add: seen_peak_def)
  then have "\<exists>r. cas_loop (raise_peak fp) (take (Suc i) sched) v = Some r" if "i < length sched" "fp \<le> seen_peak sched v i"
    unfolding ret using that by (intro exI [of _ i]) simp
  ultimately show ?thesis unfolding Let_def ret by (simp add: stop_def)
qed

theorem raise_peak_returns_witness:
  "drawdown_tracker_update [(\<lambda>_. 70, False), (\<lambda>_. 120, False)] 100 \<lparr>peak_equity = 50, current_equity = 50\<rparr> =
     \<lparr>peak_equity = 120, current_equity = 100\<rparr>"
  using raise_peak_returns [where sched = "[(\<lambda>_. 70, False), (\<lambda>_. 120, False)]" and fp = 100 and v = 50 and i = 1 and w = 50]
  by (simp add: seen_peak_def less_Suc_eq)

section \<open>Pausing an exchange\<close>

text \<open>The tracker after failures of one exchange at the given times.\<close>

definition failures :: "u16 \<Rightarrow> i64 list \<Rightarrow> 'd risk_manager \<Rightarrow> 'd risk_manager" where
  "failures e ts m = foldl (\<lambda>m t. record_exchange_failure t e m) m ts"

lemma failures_snoc: "failures e (ts @ [t]) m = record_exchange_failure t e (failures e ts m)"
  by (simp add: failures_def)

lemma failures_state:
  assumes "risk_inv m" and "failure_counts (exchange_health m) ! health_idx e = 0"
    and "length ts < 2 ^ 32"
  shows "failure_threshold (failures e ts m) = failure_threshold m \<and>
    pause_duration_ms (failures e ts m) = pause_duration_ms m \<and> risk_inv (failures e ts m) \<and>
    unat (failure_counts (exchange_health (failures e ts m)) ! health_idx e) = length ts \<and>
    (ts \<noteq> [] \<longrightarrow> 0 < unat (failure_threshold m) \<longrightarrow>
      pause_until (exchange_health (failures e ts m)) ! health_idx e =
        (if unat (failure_threshold m) \<le> length ts
         then i64_saturating_add (last ts) (pause_duration_ms m)
         else pause_until (exchange_health m) ! health_idx e))"
  using assms(3)
proof (induction ts rule: rev_induct)
  case Nil
  with assms(1,2) show ?case by (simp add: failures_def)
next
  case (snoc t ts)
  then have IH: "failure_threshold (failures e ts m) = failure_threshold m"
    "pause_duration_ms (failures e ts m) = pause_duration_ms m" "risk_inv (failures e ts m)"
    "unat (failure_counts (exchange_health (failures e ts m)) ! health_idx e) = length ts"
    "ts \<noteq> [] \<longrightarrow> 0 < unat (failure_threshold m) \<longrightarrow>
      pause_until (exchange_health (failures e ts m)) ! health_idx e =
        (if unat (failure_threshold m) \<le> length ts
         then i64_saturating_add (last ts) (pause_duration_ms m)
         else pause_until (exchange_health m) ! health_idx e)" by auto
  have idx: "health_idx e < 256" by (simp add: health_idx_def)
  have cnt: "unat (failure_counts (exchange_health (failures e ts m)) ! health_idx e + 1) = Suc (length ts)"
    using snoc.prems by (simp add: unat_word_ariths IH(4))
  have nil: "ts = [] \<Longrightarrow> failures e ts m = m" by (simp add: failures_def)
  show ?case
    using IH idx cnt nil
    by (auto simp: failures_snoc record_exchange_failure_def health_record_failure_def Let_def
        risk_inv_def word_le_nat_alt nth_list_update)
qed

text \<open>
  Starting from a success, the exchange is paused exactly when its consecutive failures have
  reached the configured threshold: until the last failure's time plus the pause duration (saturating),
  and a success after that resets the count but leaves the pause in force.
\<close>

theorem failures_pause_exchange:
  assumes "risk_inv m" and "failure_counts (exchange_health m) ! health_idx e = 0"
    and "pause_until (exchange_health m) ! health_idx e = 0" and "0 \<le> sint now"
    and "ts \<noteq> []" and "length ts < 2 ^ 32" and "0 < failure_threshold m"
  shows "health_is_paused now (exchange_health (record_exchange_success e (failures e ts m))) e \<longleftrightarrow>
    unat (failure_threshold m) \<le> length ts \<and>
    sint now < sint (i64_saturating_add (last ts) (pause_duration_ms m))"
proof -
  have "0 < unat (failure_threshold m)" using assms(7) by (simp add: word_less_nat_alt)
  with failures_state [OF assms(1,2,6)] assms(5)
  have "pause_until (exchange_health (failures e ts m)) ! health_idx e =
        (if unat (failure_threshold m) \<le> length ts
         then i64_saturating_add (last ts) (pause_duration_ms m)
         else pause_until (exchange_health m) ! health_idx e)" by blast
  with assms(3,4) show ?thesis
    by (simp add: health_is_paused_iff record_exchange_success_def health_record_success_def)
qed

theorem failures_pause_exchange_witness:
  "health_is_paused 5000 (exchange_health (record_exchange_success 7
     (failures 7 [1000, 2000, 3000] sample_manager))) 7"
proof -
  have "risk_inv sample_manager"
    by (simp add: risk_inv_def sample_manager_def risk_manager_new_def drawdown_new_def health_tracker_new_def)
  then show ?thesis
    using failures_pause_exchange [of sample_manager 7 5000 "[1000, 2000, 3000]"]
    by (simp add: sample_manager_def risk_manager_new_def health_tracker_new_def health_idx_def
        sample_config_def nth_replicate rust_arith)
qed

end
