(* ===== verification/Strategies.thy ===== *)
theory Strategies
  imports Rust_Prelude
begin

text \<open>
  The market arena of \<^verbatim>\<open>src/src/strategies.rs\<close>: the fee schedule, the flat price arrays with one
  slot per (exchange, token), the discovery of cross-exchange targets and triangular loops, and the
  hot-path evaluation of a tick.  A panic (an index out of range, a failed assertion) is \<open>None\<close>.
  Whether \<^verbatim>\<open>try_lock\<close> or \<^verbatim>\<open>try_read\<close> gets its lock is an argument, and so is the iteration order
  of a hash map.  Flat indices are \<open>usize\<close> values: natural numbers with the wrap-around written out.
\<close>

section \<open>Fee schedule\<close>

abbreviation DEFAULT_TAKER_FEE_BPS :: u64 where "DEFAULT_TAKER_FEE_BPS \<equiv> 10"

record exchange_fee_schedule =
  maker_fees :: "u64 list"
  taker_fees :: "u64 list"

definition fee_schedule_new :: "usize \<Rightarrow> u64 \<Rightarrow> exchange_fee_schedule" where
  "fee_schedule_new total_exchanges default_bps =
     \<lparr>maker_fees = replicate total_exchanges default_bps,
      taker_fees = replicate total_exchanges default_bps\<rparr>"

text \<open>The message of the error carries the identifier and the length minus one, which wraps at 0.\<close>

datatype fee_error = FeeOutOfRange usize usize

definition set_fee ::
  "usize \<Rightarrow> u64 \<Rightarrow> u64 \<Rightarrow> exchange_fee_schedule \<Rightarrow>
   ((fee_error + unit) \<times> exchange_fee_schedule) option" where
  "set_fee exchange_id maker_bps taker_bps f =
     (if length (maker_fees f) \<le> exchange_id
      then Some (Inl (FeeOutOfRange exchange_id ((length (maker_fees f) + 2 ^ 64 - 1) mod 2 ^ 64)), f)
      else case put_at exchange_id maker_bps (maker_fees f) of
             None \<Rightarrow> None
           | Some mk \<Rightarrow>
               (case put_at exchange_id taker_bps (taker_fees f) of
                  None \<Rightarrow> None
                | Some tk \<Rightarrow> Some (Inr (), f\<lparr>maker_fees := mk, taker_fees := tk\<rparr>)))"

definition taker_or_default :: "exchange_fee_schedule \<Rightarrow> usize \<Rightarrow> u64" where
  "taker_or_default f e = (case get_at (taker_fees f) e of None \<Rightarrow> DEFAULT_TAKER_FEE_BPS | Some x \<Rightarrow> x)"

definition round_trip_taker_bps :: "exchange_fee_schedule \<Rightarrow> usize \<Rightarrow> usize \<Rightarrow> u64" where
  "round_trip_taker_bps f exch_a exch_b =
     saturating_add (taker_or_default f exch_a) (taker_or_default f exch_b)"

definition tri_leg_taker_bps :: "exchange_fee_schedule \<Rightarrow> usize \<Rightarrow> u64" where
  "tri_leg_taker_bps f exchange_id = saturating_mul (taker_or_default f exchange_id) 3"

definition get_taker :: "exchange_fee_schedule \<Rightarrow> usize \<Rightarrow> u64 option" where
  "get_taker f e = get_at (taker_fees f) e"

definition get_maker :: "exchange_fee_schedule \<Rightarrow> usize \<Rightarrow> u64 option" where
  "get_maker f e = get_at (maker_fees f) e"

section \<open>Data\<close>

record order_book_state =
  bid_price :: u64
  ask_price :: u64
  bid_volume :: u32
  ask_volume :: u32
  last_update_ns :: u64

record triangular_loop =
  token_a :: u16
  token_b :: u16
  token_c :: u16

record cross_exchange_target =
  target_token :: u16
  exchange_mask :: u64
  shared_count :: u8

datatype arbitrage_signal =
    CrossExchange (buy_exchange: u16) (sell_exchange: u16) (signal_token: u16) (spread_bps: u64)
  | Triangular (tri_exchange: u16) (tri_a: u16) (tri_b: u16) (tri_c: u16) (profit_bps: u64)

abbreviation ARENA_BPS :: u64 where "ARENA_BPS \<equiv> 10000"
abbreviation MAX_RATIO_BPS_MULTIPLIER :: u64 where "MAX_RATIO_BPS_MULTIPLIER \<equiv> 100"
abbreviation SENTINEL_PRICE_MIN :: u64 where "SENTINEL_PRICE_MIN \<equiv> 1000000"
abbreviation SENTINEL_PRICE_MAX :: u64 where "SENTINEL_PRICE_MAX \<equiv> 1000001"

record market_arena =
  matrix :: "order_book_state list"
  bid_prices :: "u64 list"
  ask_prices :: "u64 list"
  total_tokens :: usize
  total_exchanges :: usize
  cross_targets :: "cross_exchange_target list"
  cross_index :: "usize list list"
  tri_loops :: "u16 \<rightharpoonup> triangular_loop list"
  active_tokens :: "u16 list"
  enabled_cross :: bool
  enabled_tri :: bool
  fee_schedule :: exchange_fee_schedule
  fee_aware_enabled :: bool
  cross_exchange_mask :: u64
  tri_exchange_mask :: u64

definition arena_new :: "usize \<Rightarrow> usize \<Rightarrow> market_arena option" where
  "arena_new total_ex total_tok =
     (if total_ex \<le> 64
      then let sz = min (total_ex * total_tok) (2 ^ 64 - 1)
           in Some \<lparr>matrix = replicate sz
                      \<lparr>bid_price = 0, ask_price = 0, bid_volume = 0, ask_volume = 0, last_update_ns = 0\<rparr>,
                    bid_prices = replicate sz 0, ask_prices = replicate sz 0,
                    total_tokens = total_tok, total_exchanges = total_ex,
                    cross_targets = [], cross_index = replicate total_tok [],
                    tri_loops = Map.empty, active_tokens = [],
                    enabled_cross = True, enabled_tri = True,
                    fee_schedule = fee_schedule_new total_ex DEFAULT_TAKER_FEE_BPS,
                    fee_aware_enabled = True,
                    cross_exchange_mask = - 1, tri_exchange_mask = - 1\<rparr>
      else None)"

section \<open>Active tokens and prices\<close>

definition register_active_token :: "bool \<Rightarrow> u16 \<Rightarrow> market_arena \<Rightarrow> market_arena" where
  "register_active_token lock_ok token_id a =
     (if lock_ok \<and> token_id \<notin> set (active_tokens a)
      then a\<lparr>active_tokens := active_tokens a @ [token_id]\<rparr> else a)"

definition unregister_active_token :: "bool \<Rightarrow> u16 \<Rightarrow> market_arena \<Rightarrow> market_arena" where
  "unregister_active_token lock_ok token_id a =
     (if lock_ok then a\<lparr>active_tokens := filter (\<lambda>t. t \<noteq> token_id) (active_tokens a)\<rparr> else a)"

definition get_active_token_ids :: "bool \<Rightarrow> market_arena \<Rightarrow> u16 list" where
  "get_active_token_ids poisoned a = (if poisoned then [] else active_tokens a)"

definition get_index :: "market_arena \<Rightarrow> usize \<Rightarrow> usize \<Rightarrow> usize" where
  "get_index a exch_id token_id = (exch_id * total_tokens a + token_id) mod 2 ^ 64"

definition store_quote :: "usize \<Rightarrow> u64 \<Rightarrow> u64 \<Rightarrow> market_arena \<Rightarrow> market_arena option" where
  "store_quote idx bid ask a =
     (case put_at idx bid (bid_prices a) of
        None \<Rightarrow> None
      | Some bs \<Rightarrow>
          (case put_at idx ask (ask_prices a) of
             None \<Rightarrow> None
           | Some ks \<Rightarrow> Some (a\<lparr>bid_prices := bs, ask_prices := ks\<rparr>)))"

definition load_quote :: "market_arena \<Rightarrow> usize \<Rightarrow> (u64 \<times> u64) option" where
  "load_quote a idx =
     (case get_at (bid_prices a) idx of
        None \<Rightarrow> None
      | Some b \<Rightarrow> (case get_at (ask_prices a) idx of None \<Rightarrow> None | Some k \<Rightarrow> Some (b, k)))"

definition update_price :: "usize \<Rightarrow> usize \<Rightarrow> u64 \<Rightarrow> u64 \<Rightarrow> market_arena \<Rightarrow> market_arena option" where
  "update_price exch_id token_id bid ask a =
     (if total_exchanges a \<le> exch_id \<or> total_tokens a \<le> token_id then Some a
      else store_quote (get_index a exch_id token_id) bid ask a)"

definition zero_slots :: "usize list \<Rightarrow> market_arena \<Rightarrow> market_arena option" where
  "zero_slots is a = try_fold (\<lambda>a i. store_quote i 0 0 a) a is"

definition invalidate_token :: "usize \<Rightarrow> market_arena \<Rightarrow> market_arena option" where
  "invalidate_token token_id a =
     (if total_tokens a \<le> token_id then Some a
      else zero_slots (map (\<lambda>e. get_index a e token_id) [0..<total_exchanges a]) a)"

definition invalidate_exchange :: "usize \<Rightarrow> market_arena \<Rightarrow> market_arena option" where
  "invalidate_exchange exch_id a =
     (if total_exchanges a \<le> exch_id then Some a
      else let base = (exch_id * total_tokens a) mod 2 ^ 64
           in zero_slots (map (\<lambda>offset. (base + offset) mod 2 ^ 64) [0..<total_tokens a]) a)"

section \<open>Target discovery\<close>

fun scan_exchanges ::
  "market_arena \<Rightarrow> usize \<Rightarrow> usize list \<Rightarrow> u64 \<Rightarrow> u8 \<Rightarrow> (u64 \<times> u8) option" where
  "scan_exchanges a token_id [] msk cnt = Some (msk, cnt)"
| "scan_exchanges a token_id (e # es) msk cnt =
     (case load_quote a (get_index a e token_id) of
        None \<Rightarrow> None
      | Some (bid, ask) \<Rightarrow>
          if 0 < bid \<and> 0 < ask
          then scan_exchanges a token_id es (if e < 64 then msk OR push_bit e 1 else msk)
                 (saturating_add cnt 1)
          else scan_exchanges a token_id es msk cnt)"

definition push_target ::
  "cross_exchange_target \<Rightarrow> usize \<Rightarrow> cross_exchange_target list \<times> usize list list \<Rightarrow>
   (cross_exchange_target list \<times> usize list list) option" where
  "push_target t token_id acc =
     (case acc of (targets, index) \<Rightarrow>
        (case get_at index token_id of
           None \<Rightarrow> None
         | Some bucket \<Rightarrow> Some (targets @ [t], index[token_id := bucket @ [length targets]])))"

fun build_targets_loop ::
  "market_arena \<Rightarrow> usize list \<Rightarrow> cross_exchange_target list \<times> usize list list \<Rightarrow>
   (cross_exchange_target list \<times> usize list list) option" where
  "build_targets_loop a [] acc = Some acc"
| "build_targets_loop a (token_id # toks) acc =
     (case scan_exchanges a token_id [0..<total_exchanges a] 0 0 of
        None \<Rightarrow> None
      | Some (msk, cnt) \<Rightarrow>
          if 2 \<le> cnt
          then (case push_target \<lparr>target_token = word_of_nat token_id, exchange_mask = msk,
                                  shared_count = cnt\<rparr> token_id acc of
                  None \<Rightarrow> None
                | Some acc' \<Rightarrow> build_targets_loop a toks acc')
          else build_targets_loop a toks acc)"

definition build_cross_exchange_targets :: "market_arena \<Rightarrow> market_arena option" where
  "build_cross_exchange_targets a =
     map_option (\<lambda>(targets, index). a\<lparr>cross_targets := targets, cross_index := index\<rparr>)
       (build_targets_loop a [0..<total_tokens a] ([], map (\<lambda>_. []) (cross_index a)))"

text \<open>Presence data: a hash map to hash sets, both listed in their iteration order.\<close>

fun presence_mask :: "market_arena \<Rightarrow> u16 list \<Rightarrow> u64 \<Rightarrow> u8 \<Rightarrow> u64 \<times> u8" where
  "presence_mask a [] msk cnt = (msk, cnt)"
| "presence_mask a (e # es) msk cnt =
     (if total_exchanges a \<le> unat e then presence_mask a es msk cnt
      else presence_mask a es (if e < 64 then msk OR push_bit (unat e) 1 else msk)
             (saturating_add cnt 1))"

fun build_presence_loop ::
  "market_arena \<Rightarrow> (u16 \<times> u16 list) list \<Rightarrow> cross_exchange_target list \<times> usize list list \<Rightarrow>
   (cross_exchange_target list \<times> usize list list) option" where
  "build_presence_loop a [] acc = Some acc"
| "build_presence_loop a ((token_id, exchanges) # rest) acc =
     (if length exchanges < 2 \<or> total_tokens a \<le> unat token_id then build_presence_loop a rest acc
      else case presence_mask a exchanges 0 0 of
             (msk, cnt) \<Rightarrow>
               if 2 \<le> cnt
               then (case push_target \<lparr>target_token = token_id, exchange_mask = msk,
                                       shared_count = cnt\<rparr> (unat token_id) acc of
                       None \<Rightarrow> None
                     | Some acc' \<Rightarrow> build_presence_loop a rest acc')
               else build_presence_loop a rest acc)"

definition build_cross_exchange_targets_from_presence ::
  "(u16 \<times> u16 list) list \<Rightarrow> market_arena \<Rightarrow> market_arena option" where
  "build_cross_exchange_targets_from_presence presence a =
     map_option (\<lambda>(targets, index). a\<lparr>cross_targets := targets, cross_index := index\<rparr>)
       (build_presence_loop a presence ([], map (\<lambda>_. []) (cross_index a)))"

section \<open>Triangular loops\<close>

definition adj_push :: "(u16 \<rightharpoonup> u16 list) \<Rightarrow> u16 \<times> u16 \<Rightarrow> (u16 \<rightharpoonup> u16 list)" where
  "adj_push adj e = (case e of (base, quote) \<Rightarrow>
     adj(base \<mapsto> (case adj base of None \<Rightarrow> [] | Some qs \<Rightarrow> qs) @ [quote]))"

definition adjacency :: "(u16 \<times> u16) list \<Rightarrow> (u16 \<rightharpoonup> u16 list)" where
  "adjacency pairs = foldl adj_push Map.empty pairs"

definition loops_from :: "(u16 \<times> u16) list \<Rightarrow> u16 \<Rightarrow> triangular_loop list" where
  "loops_from pairs a =
     (let adj = adjacency pairs in
      concat (map (\<lambda>b.
        if b = a then []
        else case adj b of
               None \<Rightarrow> []
             | Some cs \<Rightarrow>
                 concat (map (\<lambda>c.
                   if c = a \<or> c = b then []
                   else if (c, a) \<in> set pairs \<and> a < b \<and> a < c
                        then [\<lparr>token_a = a, token_b = b, token_c = c\<rparr>] else []) cs))
        (case adj a of None \<Rightarrow> [] | Some bs \<Rightarrow> bs)))"

text \<open>\<open>order\<close> lists the keys of the adjacency map in the order the map iterates over them.\<close>

definition exchange_loops :: "(u16 list \<Rightarrow> u16 list) \<Rightarrow> (u16 \<times> u16) list \<Rightarrow> triangular_loop list" where
  "exchange_loops order pairs = concat (map (loops_from pairs) (order (remdups (map fst pairs))))"

definition build_triangular_loops ::
  "(u16 list \<Rightarrow> u16 list) \<Rightarrow> (u16 \<times> (u16 \<times> u16) list) list \<Rightarrow> market_arena \<Rightarrow> market_arena" where
  "build_triangular_loops order exchange_pairs a =
     a\<lparr>tri_loops :=
         foldl (\<lambda>m (exchange_id, pairs).
             let loops = exchange_loops order pairs
             in if loops = [] then m else m(exchange_id \<mapsto> loops))
           Map.empty exchange_pairs\<rparr>"

section \<open>Evaluating a tick\<close>

text \<open>
  What the evaluation cannot control: whether each \<^verbatim>\<open>try_read\<close> gets its lock.  The fee schedule is
  read once for each direction of a pair of exchanges and once for each loop, so these answers are
  indexed by target, buyer and seller, and by the loop's position.
\<close>

record tick_env =
  targets_lock :: bool
  index_lock :: bool
  loops_lock :: bool
  fee_lock_cross :: "usize \<Rightarrow> usize \<Rightarrow> usize \<Rightarrow> bool"
  fee_lock_tri :: "usize \<Rightarrow> bool"

definition is_sentinel :: "u64 \<Rightarrow> bool" where
  "is_sentinel p \<longleftrightarrow> SENTINEL_PRICE_MIN \<le> p \<and> p \<le> SENTINEL_PRICE_MAX"

definition max_ratio :: u64 where
  "max_ratio = ARENA_BPS * MAX_RATIO_BPS_MULTIPLIER"

definition in_mask :: "u64 \<Rightarrow> usize \<Rightarrow> bool" where
  "in_mask msk e \<longleftrightarrow> msk AND push_bit e 1 \<noteq> 0"

text \<open>
  One direction of a pair: \<open>None\<close> when the code continues with the next pair, otherwise the signals
  it pushes.
\<close>

definition cross_direction ::
  "market_arena \<Rightarrow> bool \<Rightarrow> u64 \<Rightarrow> u16 \<Rightarrow> usize \<Rightarrow> u64 \<Rightarrow> usize \<Rightarrow> u64 \<Rightarrow> arbitrage_signal list option" where
  "cross_direction a fee_ok min_spread token buy ask sell bid =
     (if ask < bid \<and> 0 < ask
      then let raw = saturating_mul (bid - ask) ARENA_BPS div ask
           in if max_ratio \<le> raw then None
              else if fee_aware_enabled a \<and> \<not> fee_ok then None
              else let net = (if fee_aware_enabled a
                              then saturating_sub raw (round_trip_taker_bps (fee_schedule a) buy sell)
                              else raw)
                   in Some (if min_spread < net \<and> in_mask (cross_exchange_mask a) buy \<and>
                               in_mask (cross_exchange_mask a) sell
                            then [CrossExchange (word_of_nat buy) (word_of_nat sell) token net]
                            else [])
      else Some [])"

definition cross_pair ::
  "market_arena \<Rightarrow> tick_env \<Rightarrow> usize \<Rightarrow> u16 \<Rightarrow> usize \<Rightarrow> u64 \<Rightarrow> usize \<Rightarrow> usize \<Rightarrow>
   arbitrage_signal list option" where
  "cross_pair a env t token updated_token min_spread i j =
     (let idx_i = get_index a i updated_token; idx_j = get_index a j updated_token
      in if length (bid_prices a) \<le> idx_i \<or> length (bid_prices a) \<le> idx_j then Some []
         else case load_quote a idx_i of
                None \<Rightarrow> None
              | Some (bid_i, ask_i) \<Rightarrow>
                  (case load_quote a idx_j of
                     None \<Rightarrow> None
                   | Some (bid_j, ask_j) \<Rightarrow>
                       Some (if is_sentinel bid_i \<or> is_sentinel ask_i \<or> is_sentinel bid_j \<or> is_sentinel ask_j
                             then []
                             else case cross_direction a (fee_lock_cross env t i j) min_spread token i ask_i j bid_j of
                                    None \<Rightarrow> []
                                  | Some s1 \<Rightarrow>
                                      (case cross_direction a (fee_lock_cross env t j i) min_spread token j ask_j i bid_i of
                                         None \<Rightarrow> s1
                                       | Some s2 \<Rightarrow> s1 @ s2))))"

text \<open>The outer and inner \<^verbatim>\<open>while\<close> loops over the bits of the mask.\<close>

function mask_pairs :: "u64 \<Rightarrow> (usize \<times> usize) list" where
  "mask_pairs msk =
     (if msk = 0 then []
      else let i = trailing_zeros msk; rest = clear_bit i msk
           in map (Pair i) (mask_bits rest) @ mask_pairs rest)"
  by pat_completeness auto
termination
  by (relation "measure unat") (auto intro: clear_bit_less dest: trailing_zeros_bit)

declare mask_pairs.simps [simp del]

definition cross_target_signals ::
  "market_arena \<Rightarrow> tick_env \<Rightarrow> usize \<Rightarrow> u64 \<Rightarrow> usize \<Rightarrow> arbitrage_signal list option" where
  "cross_target_signals a env updated_token min_spread t =
     (case get_at (cross_targets a) t of
        None \<Rightarrow> None
      | Some target \<Rightarrow>
          collect (\<lambda>(i, j). cross_pair a env t (target_token target) updated_token min_spread i j)
            (mask_pairs (exchange_mask target)))"

definition cross_signals ::
  "market_arena \<Rightarrow> tick_env \<Rightarrow> usize \<Rightarrow> u64 \<Rightarrow> arbitrage_signal list option" where
  "cross_signals a env updated_token min_spread =
     (if enabled_cross a \<and> targets_lock env \<and> index_lock env \<and> updated_token < length (cross_index a)
      then collect (cross_target_signals a env updated_token min_spread)
             (cross_index a ! updated_token)
      else Some [])"

text \<open>The ratio of a loop in basis points; \<open>None\<close> when a product overflows 64 bits.\<close>

definition tri_ratio ::
  "u64 \<times> u64 \<Rightarrow> u64 \<times> u64 \<Rightarrow> u64 \<times> u64 \<Rightarrow> (u64 \<times> u64 \<times> u64) option" where
  "tri_ratio qa qb qc =
     (case checked_mul (fst qa) ARENA_BPS of
        None \<Rightarrow> None
      | Some v1 \<Rightarrow> let step1 = v1 div snd qa in
          (case checked_mul step1 (fst qb) of
             None \<Rightarrow> None
           | Some v2 \<Rightarrow> let step2 = v2 div snd qb in
               (case checked_mul step2 (fst qc) of
                  None \<Rightarrow> None
                | Some v3 \<Rightarrow> Some (step1, step2, v3 div snd qc))))"

definition tri_signal ::
  "market_arena \<Rightarrow> bool \<Rightarrow> usize \<Rightarrow> u64 \<Rightarrow> triangular_loop \<Rightarrow> u64 \<times> u64 \<Rightarrow> u64 \<times> u64 \<Rightarrow> u64 \<times> u64 \<Rightarrow>
   arbitrage_signal list" where
  "tri_signal a fee_ok exch min_profit tri qa qb qc =
     (if fst qa = 0 \<or> snd qa = 0 \<or> fst qb = 0 \<or> snd qb = 0 \<or> fst qc = 0 \<or> snd qc = 0 then []
      else if is_sentinel (fst qa) \<or> is_sentinel (snd qa) \<or> is_sentinel (fst qb) \<or>
              is_sentinel (snd qb) \<or> is_sentinel (fst qc) \<or> is_sentinel (snd qc) then []
      else case tri_ratio qa qb qc of
             None \<Rightarrow> []
           | Some (step1, step2, step3) \<Rightarrow>
               if max_ratio \<le> step1 \<or> max_ratio \<le> step2 \<or> max_ratio \<le> step3 then []
               else if ARENA_BPS < step3
               then let raw = step3 - ARENA_BPS
                    in if fee_aware_enabled a \<and> \<not> fee_ok then []
                       else let net = (if fee_aware_enabled a
                                       then saturating_sub raw (tri_leg_taker_bps (fee_schedule a) exch)
                                       else raw)
                            in if min_profit < net \<and> exch < 64 \<and> in_mask (tri_exchange_mask a) exch
                               then [Triangular (word_of_nat exch) (token_a tri) (token_b tri) (token_c tri) net]
                               else []
               else [])"

definition tri_loop_signals ::
  "market_arena \<Rightarrow> tick_env \<Rightarrow> usize \<Rightarrow> usize \<Rightarrow> u64 \<Rightarrow> usize \<times> triangular_loop \<Rightarrow>
   arbitrage_signal list option" where
  "tri_loop_signals a env exch updated_token min_profit ntri =
     (case ntri of (n, tri) \<Rightarrow>
        let ut = word_of_nat updated_token;
            idx_a = get_index a exch (unat (token_a tri));
            idx_b = get_index a exch (unat (token_b tri));
            idx_c = get_index a exch (unat (token_c tri))
        in if token_a tri \<noteq> ut \<and> token_b tri \<noteq> ut \<and> token_c tri \<noteq> ut then Some []
           else if length (bid_prices a) \<le> idx_a \<or> length (bid_prices a) \<le> idx_b \<or>
                   length (bid_prices a) \<le> idx_c then Some []
           else case (load_quote a idx_a, load_quote a idx_b, load_quote a idx_c) of
                  (Some qa, Some qb, Some qc) \<Rightarrow>
                    Some (tri_signal a (fee_lock_tri env n) exch min_profit tri qa qb qc)
                | _ \<Rightarrow> None)"

definition tri_signals ::
  "market_arena \<Rightarrow> tick_env \<Rightarrow> usize \<Rightarrow> usize \<Rightarrow> u64 \<Rightarrow> arbitrage_signal list option" where
  "tri_signals a env exch updated_token min_profit =
     (if enabled_tri a \<and> loops_lock env
      then case tri_loops a (word_of_nat exch) of
             None \<Rightarrow> Some []
           | Some loops \<Rightarrow>
               collect (tri_loop_signals a env exch updated_token min_profit) (enumerate 0 loops)
      else Some [])"

definition evaluate_tick ::
  "tick_env \<Rightarrow> usize \<Rightarrow> usize \<Rightarrow> u64 \<Rightarrow> u64 \<Rightarrow> market_arena \<Rightarrow> arbitrage_signal list option" where
  "evaluate_tick env updated_exch updated_token min_spread_bps min_tri_profit_bps a =
     (case cross_signals a env updated_token min_spread_bps of
        None \<Rightarrow> None
      | Some cross \<Rightarrow>
          map_option (\<lambda>tri. cross @ tri) (tri_signals a env updated_exch updated_token min_tri_profit_bps))"

end
