(* ===== verification/Strategies_Prices.thy ===== *)
theory Strategies_Prices
  imports Strategies
begin

text \<open>
  The price arrays of the arena: the flat index is injective on the exchanges and tokens in range, so
  the arrays implement a table of quotes, \<open>quote_of\<close>, that every price operation updates as a finite
  map; and no operation of the arena panics.
\<close>

definition arena_wf :: "market_arena \<Rightarrow> bool" where
  "arena_wf a \<longleftrightarrow>
     total_exchanges a \<le> 64 \<and> total_exchanges a * total_tokens a < 2 ^ 64 \<and>
     length (bid_prices a) = total_exchanges a * total_tokens a \<and>
     length (ask_prices a) = total_exchanges a * total_tokens a \<and>
     length (cross_index a) = total_tokens a \<and>
     (\<forall>bucket \<in> set (cross_index a). \<forall>i \<in> set bucket. i < length (cross_targets a))"

definition quote_of :: "market_arena \<Rightarrow> usize \<Rightarrow> usize \<Rightarrow> (u64 \<times> u64) option" where
  "quote_of a e t =
     (if e < total_exchanges a \<and> t < total_tokens a then load_quote a (get_index a e t) else None)"

section \<open>Indices\<close>

lemma flat_index_less:
  fixes e t n m :: nat
  assumes "e < n" "t < m"
  shows "e * m + t < n * m"
proof -
  have "e * m + t < (e + 1) * m" using assms(2) by simp
  also have "\<dots> \<le> n * m" using assms(1) by (intro mult_right_mono) auto
  finally show ?thesis .
qed

lemma flat_index_inj:
  fixes e e' t t' m :: nat
  assumes "t < m" "t' < m" "e * m + t = e' * m + t'"
  shows "e = e' \<and> t = t'"
proof -
  have "(e * m + t) div m = e" "(e' * m + t') div m = e'" using assms(1,2) by simp_all
  with assms show ?thesis by (metis add_left_imp_eq)
qed

lemma get_index_in_range:
  assumes "arena_wf a" "e < total_exchanges a" "t < total_tokens a"
  shows "get_index a e t = e * total_tokens a + t" "get_index a e t < length (bid_prices a)"
proof -
  have "e * total_tokens a + t < total_exchanges a * total_tokens a"
    using assms(2,3) by (rule flat_index_less)
  with assms(1) show "get_index a e t = e * total_tokens a + t" "get_index a e t < length (bid_prices a)"
    by (simp_all add: get_index_def arena_wf_def)
qed

lemma get_index_eq_iff:
  assumes "arena_wf a" "e < total_exchanges a" "t < total_tokens a"
    "e' < total_exchanges a" "t' < total_tokens a"
  shows "get_index a e t = get_index a e' t' \<longleftrightarrow> e = e' \<and> t = t'"
  using get_index_in_range(1) [OF assms(1)] assms(2-) flat_index_inj by metis

lemma load_quote_defined:
  "arena_wf a \<Longrightarrow> i < length (bid_prices a) \<Longrightarrow> \<exists>q. load_quote a i = Some q"
  by (simp add: load_quote_def get_at_def arena_wf_def)

lemma quote_of_defined:
  assumes "arena_wf a"
  shows "quote_of a e t \<noteq> None \<longleftrightarrow> e < total_exchanges a \<and> t < total_tokens a"
  using load_quote_defined [OF assms get_index_in_range(2) [OF assms], of e t] by (auto simp: quote_of_def)

section \<open>The arrays as a store of quotes\<close>

interpretation quotes: slot_store load_quote "\<lambda>(b, k) a i. store_quote i b k a"
  by unfold_locales
    (auto simp: load_quote_def store_quote_def get_at_def put_at_def nth_list_update
          split: option.splits if_splits prod.splits)

lemma store_quote_frame:
  assumes "store_quote i b k a = Some a'"
  shows "total_tokens a' = total_tokens a" "total_exchanges a' = total_exchanges a"
    "cross_targets a' = cross_targets a" "cross_index a' = cross_index a"
    "length (bid_prices a') = length (bid_prices a)" "length (ask_prices a') = length (ask_prices a)"
  using assms by (auto simp: store_quote_def put_at_def split: option.splits if_splits)

lemma store_quote_wf: "store_quote i b k a = Some a' \<Longrightarrow> arena_wf a \<Longrightarrow> arena_wf a'"
  using store_quote_frame [of i b k a a'] by (simp add: arena_wf_def)

lemma zero_slots_frame:
  assumes "zero_slots is a = Some a'"
  shows "total_tokens a' = total_tokens a \<and> total_exchanges a' = total_exchanges a \<and>
    (arena_wf a \<longrightarrow> arena_wf a')"
  using assms unfolding zero_slots_def
proof (induction "is" arbitrary: a)
  case (Cons i "is")
  then obtain a1 where "store_quote i 0 0 a = Some a1" "try_fold (\<lambda>a i. store_quote i 0 0 a) a1 is = Some a'"
    by (auto split: option.splits)
  with Cons.IH [of a1] show ?case using store_quote_frame [of i 0 0 a a1] store_quote_wf by metis
qed simp

lemma zero_slots_quotes:
  assumes "\<And>i. i \<in> set is \<Longrightarrow> load_quote a i \<noteq> None"
  shows "\<exists>a'. zero_slots is a = Some a' \<and>
           (\<forall>j. load_quote a' j = (if j \<in> set is then Some (0, 0) else load_quote a j))"
  using quotes.store_all [of "is" a "(0, 0)"] assms by (simp add: zero_slots_def)

section \<open>Refinement of the price operations\<close>

lemma get_index_cong: "total_tokens a' = total_tokens a \<Longrightarrow> get_index a' e t = get_index a e t"
  by (simp add: get_index_def)

lemma update_price_refines:
  assumes wf: "arena_wf a"
  shows "\<exists>a'. update_price e t bid ask a = Some a' \<and> arena_wf a' \<and>
    total_exchanges a' = total_exchanges a \<and> total_tokens a' = total_tokens a \<and>
    (\<forall>e' t'. quote_of a' e' t' =
       (if e' = e \<and> t' = t \<and> quote_of a e t \<noteq> None then Some (bid, ask) else quote_of a e' t'))"
proof (cases "total_exchanges a \<le> e \<or> total_tokens a \<le> t")
  case True
  then show ?thesis using wf by (auto simp: update_price_def quote_of_def)
next
  case False
  then have r: "e < total_exchanges a" "t < total_tokens a" by auto
  let ?i = "get_index a e t"
  have "load_quote a ?i \<noteq> None"
    using load_quote_defined [OF wf get_index_in_range(2) [OF wf r]] by auto
  then obtain a' where a': "store_quote ?i bid ask a = Some a'"
    using quotes.store_defined [of a ?i "(bid, ask)"] by auto
  note fr = store_quote_frame [OF a']
  have "load_quote a' j = (if j = ?i then Some (bid, ask) else load_quote a j)" for j
    using quotes.load_store [of "(bid, ask)" a ?i a' j] a' by simp
  then have "quote_of a' e' t' = (if e' = e \<and> t' = t then Some (bid, ask) else quote_of a e' t')" for e' t'
    using get_index_eq_iff [OF wf _ _ r] r
    by (auto simp: quote_of_def fr get_index_cong [OF fr(1)])
  then show ?thesis
    using a' False fr store_quote_wf [OF a' wf] quote_of_defined [OF wf, of e t]
    by (auto simp: update_price_def)
qed

lemma zero_slots_refines:
  assumes wf: "arena_wf a"
    and ix: "set is = (\<lambda>(e, t). get_index a e t) ` S"
    and S: "\<And>e t. (e, t) \<in> S \<Longrightarrow> e < total_exchanges a \<and> t < total_tokens a"
  shows "\<exists>a'. zero_slots is a = Some a' \<and> arena_wf a' \<and>
    total_exchanges a' = total_exchanges a \<and> total_tokens a' = total_tokens a \<and>
    (\<forall>e t. quote_of a' e t = (if (e, t) \<in> S then Some (0, 0) else quote_of a e t))"
proof -
  have "load_quote a i \<noteq> None" if "i \<in> set is" for i
  proof -
    from that ix obtain e t where et: "(e, t) \<in> S" "i = get_index a e t" by auto
    with load_quote_defined [OF wf get_index_in_range(2) [OF wf]] S [OF et(1)] show ?thesis by auto
  qed
  from zero_slots_quotes [OF this] obtain a' where
    a': "zero_slots is a = Some a'"
    and q: "\<And>j. load_quote a' j = (if j \<in> set is then Some (0, 0) else load_quote a j)" by auto
  note fr = zero_slots_frame [OF a']
  have mem: "get_index a e t \<in> set is \<longleftrightarrow> (e, t) \<in> S" if "e < total_exchanges a" "t < total_tokens a" for e t
  proof
    assume "get_index a e t \<in> set is"
    with ix obtain e' t' where et: "(e', t') \<in> S" "get_index a e t = get_index a e' t'" by auto
    with get_index_eq_iff [OF wf that] S [OF et(1)] show "(e, t) \<in> S" by auto
  next
    assume "(e, t) \<in> S"
    with ix show "get_index a e t \<in> set is" by (metis case_prod_conv imageI)
  qed
  have "quote_of a' e t = (if (e, t) \<in> S then Some (0, 0) else quote_of a e t)" for e t
  proof (cases "e < total_exchanges a \<and> t < total_tokens a")
    case True
    then show ?thesis using fr mem [of e t] by (simp add: quote_of_def q get_index_cong [of a' a])
  next
    case False
    then show ?thesis using fr S [of e t] by (auto simp: quote_of_def)
  qed
  with a' fr wf show ?thesis by metis
qed

lemma invalidate_token_refines:
  assumes wf: "arena_wf a"
  shows "\<exists>a'. invalidate_token t a = Some a' \<and> arena_wf a' \<and>
    total_exchanges a' = total_exchanges a \<and> total_tokens a' = total_tokens a \<and>
    (\<forall>e' t'. quote_of a' e' t' =
       (if t' = t \<and> quote_of a e' t \<noteq> None then Some (0, 0) else quote_of a e' t'))"
proof (cases "total_tokens a \<le> t")
  case True
  then show ?thesis using wf by (auto simp: invalidate_token_def quote_of_def)
next
  case False
  let ?S = "{0..<total_exchanges a} \<times> {t}"
  have "\<exists>a'. zero_slots (map (\<lambda>e. get_index a e t) [0..<total_exchanges a]) a = Some a' \<and> arena_wf a' \<and>
    total_exchanges a' = total_exchanges a \<and> total_tokens a' = total_tokens a \<and>
    (\<forall>e t'. quote_of a' e t' = (if (e, t') \<in> ?S then Some (0, 0) else quote_of a e t'))"
    by (rule zero_slots_refines [OF wf]) (use False in auto)
  then show ?thesis
    using False quote_of_defined [OF wf, of _ t] by (auto simp: invalidate_token_def)
qed

lemma invalidate_exchange_refines:
  assumes wf: "arena_wf a"
  shows "\<exists>a'. invalidate_exchange e a = Some a' \<and> arena_wf a' \<and>
    total_exchanges a' = total_exchanges a \<and> total_tokens a' = total_tokens a \<and>
    (\<forall>e' t'. quote_of a' e' t' =
       (if e' = e \<and> quote_of a e t' \<noteq> None then Some (0, 0) else quote_of a e' t'))"
proof (cases "total_exchanges a \<le> e")
  case True
  then show ?thesis using wf by (auto simp: invalidate_exchange_def quote_of_def)
next
  case False
  let ?S = "{e} \<times> {0..<total_tokens a}"
  have ix: "((e * total_tokens a) mod 2 ^ 64 + t) mod 2 ^ 64 = get_index a e t" for t
    by (simp add: get_index_def mod_add_left_eq)
  have "\<exists>a'. zero_slots (map (\<lambda>t. get_index a e t) [0..<total_tokens a]) a = Some a' \<and> arena_wf a' \<and>
    total_exchanges a' = total_exchanges a \<and> total_tokens a' = total_tokens a \<and>
    (\<forall>e' t. quote_of a' e' t = (if (e', t) \<in> ?S then Some (0, 0) else quote_of a e' t))"
    by (rule zero_slots_refines [OF wf]) (use False in auto)
  moreover have "invalidate_exchange e a = zero_slots (map (\<lambda>t. get_index a e t) [0..<total_tokens a]) a"
    using False unfolding invalidate_exchange_def Let_def ix by simp
  ultimately show ?thesis using False quote_of_defined [OF wf, of e] by auto
qed

section \<open>Sequences of price operations\<close>

datatype price_op =
    UpdatePrice usize usize u64 u64
  | InvalidateToken usize
  | InvalidateExchange usize

fun price_step :: "market_arena \<Rightarrow> price_op \<Rightarrow> market_arena option" where
  "price_step a (UpdatePrice e t bid ask) = update_price e t bid ask a"
| "price_step a (InvalidateToken t) = invalidate_token t a"
| "price_step a (InvalidateExchange e) = invalidate_exchange e a"

text \<open>The specification: a table of quotes in which writes out of range have no effect.\<close>

type_synonym quote_table = "usize \<Rightarrow> usize \<Rightarrow> (u64 \<times> u64) option"

definition empty_table :: "usize \<Rightarrow> usize \<Rightarrow> quote_table" where
  "empty_table n m = (\<lambda>e t. if e < n \<and> t < m then Some (0, 0) else None)"

definition table_set :: "(usize \<Rightarrow> usize \<Rightarrow> bool) \<Rightarrow> u64 \<times> u64 \<Rightarrow> quote_table \<Rightarrow> quote_table" where
  "table_set hit q T = (\<lambda>e t. if hit e t \<and> T e t \<noteq> None then Some q else T e t)"

fun table_step :: "quote_table \<Rightarrow> price_op \<Rightarrow> quote_table" where
  "table_step T (UpdatePrice e t bid ask) = table_set (\<lambda>e' t'. e' = e \<and> t' = t) (bid, ask) T"
| "table_step T (InvalidateToken t) = table_set (\<lambda>e' t'. t' = t) (0, 0) T"
| "table_step T (InvalidateExchange e) = table_set (\<lambda>e' t'. e' = e) (0, 0) T"

lemma price_step_refines:
  assumes "arena_wf a"
  shows "\<exists>a'. price_step a op = Some a' \<and> arena_wf a' \<and>
    total_exchanges a' = total_exchanges a \<and> total_tokens a' = total_tokens a \<and>
    quote_of a' = table_step (quote_of a) op"
proof (cases op)
  case (UpdatePrice e t bid ask)
  then show ?thesis using update_price_refines [OF assms, of e t bid ask]
    by (fastforce simp: table_set_def fun_eq_iff)
next
  case (InvalidateToken t)
  then show ?thesis using invalidate_token_refines [OF assms, of t]
    by (fastforce simp: table_set_def fun_eq_iff)
next
  case (InvalidateExchange e)
  then show ?thesis using invalidate_exchange_refines [OF assms, of e]
    by (fastforce simp: table_set_def fun_eq_iff)
qed

lemma price_run_refines:
  assumes "arena_wf a"
  shows "\<exists>a'. try_fold price_step a ops = Some a' \<and> arena_wf a' \<and>
    quote_of a' = foldl table_step (quote_of a) ops"
  using assms
proof (induction ops arbitrary: a)
  case (Cons op ops)
  obtain a1 where "price_step a op = Some a1" "arena_wf a1" "quote_of a1 = table_step (quote_of a) op"
    using price_step_refines [OF Cons.prems] by blast
  with Cons.IH [of a1] show ?case by simp
qed simp

lemma arena_new_wf:
  assumes "n \<le> 64" "n * m < 2 ^ 64"
  shows "\<exists>a. arena_new n m = Some a \<and> arena_wf a \<and> quote_of a = empty_table n m \<and>
    total_exchanges a = n \<and> total_tokens a = m"
proof -
  from assms obtain a where a: "arena_new n m = Some a" by (simp add: arena_new_def Let_def)
  with assms have d: "total_exchanges a = n" "total_tokens a = m"
    "bid_prices a = replicate (n * m) 0" "ask_prices a = replicate (n * m) 0"
    and wf: "arena_wf a"
    by (auto simp: arena_new_def Let_def arena_wf_def)
  have "quote_of a e t = empty_table n m e t" for e t
    using get_index_in_range(2) [OF wf, of e t]
    by (auto simp: quote_of_def empty_table_def d load_quote_def get_at_def)
  with a wf d show ?thesis by blast
qed

text \<open>
  C10: an arena built for at most 64 exchanges executes every sequence of price updates, token
  invalidations and exchange invalidations without a panic, whatever the identifiers, and its flat
  arrays then hold exactly the table those operations describe: a quote is the last one stored for
  its own (exchange, token), no operation touches another slot, and an operation whose identifiers
  are out of range changes nothing.
\<close>

theorem arena_refines_table:
  assumes "n \<le> 64" and "n * m < 2 ^ 64"
  shows "\<exists>a a'. arena_new n m = Some a \<and> try_fold price_step a ops = Some a' \<and>
    quote_of a' = foldl table_step (empty_table n m) ops"
  using arena_new_wf [OF assms] price_run_refines by metis

theorem arena_refines_table_witness:
  "\<exists>a a'. arena_new 2 2 = Some a \<and>
     try_fold price_step a [UpdatePrice 1 0 7 8, UpdatePrice 1 1 5 6, InvalidateToken 0] = Some a' \<and>
     quote_of a' 1 0 = Some (0, 0) \<and> quote_of a' 1 1 = Some (5, 6) \<and> quote_of a' 2 0 = None"
proof -
  let ?ops = "[UpdatePrice 1 0 7 8, UpdatePrice 1 1 5 6, InvalidateToken 0]"
  have T: "foldl table_step (empty_table 2 2) ?ops 1 0 = Some (0, 0)"
    "foldl table_step (empty_table 2 2) ?ops 1 1 = Some (5, 6)"
    "foldl table_step (empty_table 2 2) ?ops 2 0 = None"
    by (simp_all add: table_set_def empty_table_def)
  show ?thesis using arena_refines_table [of 2 2 ?ops] T by auto
qed

end
