(* ===== verification/Strategies_Targets.thy ===== *)
theory Strategies_Targets
  imports Strategies_Prices
begin

text \<open>
  Target discovery: what \<^verbatim>\<open>build_cross_exchange_targets\<close>, its variant on presence data and
  \<^verbatim>\<open>build_triangular_loops\<close> leave in the arena, against a specification in terms of sets.
\<close>

lemma quote_of_cong:
  "bid_prices a' = bid_prices a \<Longrightarrow> ask_prices a' = ask_prices a \<Longrightarrow> total_tokens a' = total_tokens a \<Longrightarrow>
   total_exchanges a' = total_exchanges a \<Longrightarrow> quote_of a' = quote_of a"
  by (intro ext) (simp add: quote_of_def get_index_def load_quote_def cong: option.case_cong)

section \<open>Pushing targets\<close>

definition push_all ::
  "cross_exchange_target list \<times> usize list list \<Rightarrow> (usize \<times> cross_exchange_target) list \<Rightarrow>
   (cross_exchange_target list \<times> usize list list) option" where
  "push_all = try_fold (\<lambda>acc (t, x). push_target x t acc)"

definition positions :: "nat \<Rightarrow> usize \<Rightarrow> (usize \<times> cross_exchange_target) list \<Rightarrow> nat list" where
  "positions n t entries = map fst (filter (\<lambda>(_, t', _). t' = t) (enumerate n entries))"

lemma positions_Nil [simp]: "positions n t [] = []"
  by (simp add: positions_def)

lemma positions_Cons [simp]:
  "positions n t ((t', x) # es) = (if t' = t then n # positions (Suc n) t es else positions (Suc n) t es)"
  by (simp add: positions_def)

lemma push_all_result:
  assumes "\<And>t x. (t, x) \<in> set entries \<Longrightarrow> t < length index"
  shows "\<exists>index'. push_all (targets, index) entries = Some (targets @ map snd entries, index') \<and>
    length index' = length index \<and>
    (\<forall>t < length index. index' ! t = index ! t @ positions (length targets) t entries)"
  using assms
proof (induction entries arbitrary: targets index)
  case Nil
  then show ?case by (simp add: push_all_def)
next
  case (Cons e es)
  obtain t0 x where e: "e = (t0, x)" by fastforce
  with Cons.prems have t0: "t0 < length index" by auto
  define index1 where "index1 = index[t0 := index ! t0 @ [length targets]]"
  have "push_target x t0 (targets, index) = Some (targets @ [x], index1)"
    using t0 by (simp add: push_target_def get_at_def index1_def)
  moreover have "t < length index1" if "(t, y) \<in> set es" for t y
    using Cons.prems that by (auto simp: index1_def)
  then obtain index' where
    "push_all (targets @ [x], index1) es = Some ((targets @ [x]) @ map snd es, index')"
    "length index' = length index1"
    "\<And>t. t < length index1 \<Longrightarrow> index' ! t = index1 ! t @ positions (length (targets @ [x])) t es"
    using Cons.IH [of index1 "targets @ [x]"] by blast
  ultimately show ?case using t0 by (auto simp: push_all_def e index1_def nth_list_update)
qed

lemma positions_bound: "i \<in> set (positions n t es) \<Longrightarrow> n \<le> i \<and> i < n + length es"
  by (induction es arbitrary: n) (fastforce split: if_splits)+

lemma positions_absent: "t \<notin> fst ` set es \<Longrightarrow> positions n t es = []"
  by (induction es arbitrary: n) auto

lemma positions_present:
  assumes "distinct (map fst es)" "(t, x) \<in> set es"
  shows "\<exists>i < length es. positions n t es = [n + i] \<and> es ! i = (t, x)"
  using assms
proof (induction es arbitrary: n)
  case (Cons e es)
  show ?case
  proof (cases "e = (t, x)")
    case True
    with Cons.prems(1) show ?thesis by (auto intro!: exI [of _ 0] positions_absent)
  next
    case False
    with Cons.prems have m: "(t, x) \<in> set es" "fst e \<noteq> t" by (auto simp: image_iff)
    with Cons.IH [of "Suc n"] Cons.prems(1) obtain i where
      "i < length es" "positions (Suc n) t es = [Suc n + i]" "es ! i = (t, x)" by auto
    with m(2) show ?thesis by (cases e) (auto intro!: exI [of _ "Suc i"])
  qed
qed simp

text \<open>The targets and the reverse index that the pushes leave, on an arena whose buckets were cleared.\<close>

definition indexed ::
  "market_arena \<Rightarrow> usize \<Rightarrow> (cross_exchange_target \<Rightarrow> bool) option \<Rightarrow> bool" where
  "indexed a t P = (case P of
       None \<Rightarrow> cross_index a ! t = []
     | Some Q \<Rightarrow> \<exists>i < length (cross_targets a). cross_index a ! t = [i] \<and> Q (cross_targets a ! i))"

lemma push_all_indexed:
  assumes wf: "arena_wf a"
    and r: "\<And>t x. (t, x) \<in> set entries \<Longrightarrow> t < total_tokens a"
    and d: "distinct (map fst entries)"
    and b: "map_option (\<lambda>(targets, index). a\<lparr>cross_targets := targets, cross_index := index\<rparr>)
              (push_all ([], map (\<lambda>_. []) (cross_index a)) entries) = res"
  shows "\<exists>a'. res = Some a' \<and> arena_wf a' \<and> cross_targets a' = map snd entries \<and>
    quote_of a' = quote_of a \<and>
    (\<forall>t x. (t, x) \<in> set entries \<longrightarrow> indexed a' t (Some (\<lambda>y. y = x))) \<and>
    (\<forall>t < total_tokens a. t \<notin> fst ` set entries \<longrightarrow> indexed a' t None)"
proof -
  let ?ix = "map (\<lambda>_. []) (cross_index a) :: usize list list"
  have len: "length (cross_index a) = total_tokens a" using wf by (simp add: arena_wf_def)
  obtain ix where p: "push_all ([], ?ix) entries = Some (map snd entries, ix)"
    and lix: "length ix = total_tokens a"
    and ix: "\<And>t. t < total_tokens a \<Longrightarrow> ix ! t = positions 0 t entries"
    using push_all_result [of entries ?ix "[]"] r by (auto simp: len)
  let ?a = "a\<lparr>cross_targets := map snd entries, cross_index := ix\<rparr>"
  have "i < length entries" if "bucket \<in> set ix" "i \<in> set bucket" for bucket i
    using that ix lix positions_bound [of i 0] by (metis add_0 in_set_conv_nth)
  then have "arena_wf ?a" using wf lix by (simp add: arena_wf_def)
  moreover have "quote_of ?a = quote_of a"
    by (rule quote_of_cong) simp_all
  moreover have "indexed ?a t (Some (\<lambda>y. y = x))" if "(t, x) \<in> set entries" for t x
    using positions_present [OF d that, of 0] ix [OF r [OF that]] by (auto simp: indexed_def)
  moreover have "indexed ?a t None" if "t < total_tokens a" "t \<notin> fst ` set entries" for t
    using positions_absent that ix by (simp add: indexed_def)
  moreover have "res = Some ?a" using b p by simp
  ultimately show ?thesis by (intro exI [of _ ?a]) simp
qed

section \<open>Cross-exchange targets from the price arrays\<close>

text \<open>The exchanges that quote a token on both sides.\<close>

definition carriers :: "market_arena \<Rightarrow> usize \<Rightarrow> usize set" where
  "carriers a t = {e. \<exists>b k. quote_of a e t = Some (b, k) \<and> 0 < b \<and> 0 < k}"

lemma carriers_less: "arena_wf a \<Longrightarrow> e \<in> carriers a t \<Longrightarrow> e < total_exchanges a"
  using quote_of_defined [of a e t] by (auto simp: carriers_def)

lemma bit_set_bit_word: "e < 64 \<Longrightarrow> bit (m OR push_bit e 1 :: u64) k \<longleftrightarrow> bit m k \<or> k = e"
  by (auto simp: bit_simps dest: bit_imp_le_length)

lemmas bit_or_power = bit_set_bit_word [unfolded push_bit_of_1]

lemma unat_count: "unat (c :: u8) < 255 \<Longrightarrow> unat (saturating_add c 1) = unat c + 1"
  by (simp add: unat_saturating_add)

lemma scan_exchanges_result:
  assumes "arena_wf a" "t < total_tokens a" "set es \<subseteq> {..<total_exchanges a}" "distinct es"
    "unat c + length es < 256"
  shows "\<exists>m' c'. scan_exchanges a t es m c = Some (m', c') \<and>
    (\<forall>k. bit m' k \<longleftrightarrow> bit m k \<or> k \<in> set es \<inter> carriers a t) \<and>
    unat c' = unat c + card (set es \<inter> carriers a t)"
  using assms(3-)
proof (induction es arbitrary: m c)
  case (Cons e es)
  then have e: "e < total_exchanges a" "e < 64" using assms(1) by (auto simp: arena_wf_def)
  then obtain b k where q: "load_quote a (get_index a e t) = Some (b, k)"
    using load_quote_defined [OF assms(1) get_index_in_range(2) [OF assms(1) e(1) assms(2)]] by fastforce
  have c: "e \<in> carriers a t \<longleftrightarrow> 0 < b \<and> 0 < k"
    using q e assms(2) by (simp add: carriers_def quote_of_def)
  show ?case
  proof (cases "e \<in> carriers a t")
    case True
    have u: "unat (saturating_add c 1) = unat c + 1" using Cons.prems by (intro unat_count) simp
    have "set (e # es) \<inter> carriers a t = insert e (set es \<inter> carriers a t)" using True by auto
    moreover have "e \<notin> set es \<inter> carriers a t" using Cons.prems by auto
    ultimately show ?thesis
      using Cons.IH [of "saturating_add c 1" "m OR push_bit e 1"] Cons.prems True c q e(2) u
      by (auto simp: bit_or_power)
  next
    case False
    then have "set (e # es) \<inter> carriers a t = set es \<inter> carriers a t" by auto
    then show ?thesis using Cons.IH [of c m] Cons.prems False c q by auto
  qed
qed simp

lemma scan_carriers:
  assumes "arena_wf a" "t < total_tokens a"
  shows "\<exists>m c. scan_exchanges a t [0..<total_exchanges a] 0 0 = Some (m, c) \<and>
    {e. bit m e} = carriers a t \<and> unat c = card (carriers a t)"
proof -
  have "set [0..<total_exchanges a] \<inter> carriers a t = carriers a t"
    using carriers_less [OF assms(1)] by auto
  moreover have "total_exchanges a \<le> 64" using assms(1) by (simp add: arena_wf_def)
  ultimately show ?thesis
    using scan_exchanges_result [OF assms, of "[0..<total_exchanges a]" 0 0] by (auto simp: lessThan_atLeast0)
qed

definition describes :: "usize \<Rightarrow> usize set \<Rightarrow> cross_exchange_target \<Rightarrow> bool" where
  "describes t E x \<longleftrightarrow> target_token x = word_of_nat t \<and> {e. bit (exchange_mask x) e} = E \<and>
     unat (shared_count x) = card E"

definition scan_entry :: "market_arena \<Rightarrow> usize \<Rightarrow> (usize \<times> cross_exchange_target) list" where
  "scan_entry a t = (case scan_exchanges a t [0..<total_exchanges a] 0 0 of
       None \<Rightarrow> []
     | Some (m, c) \<Rightarrow> if 2 \<le> c then [(t, \<lparr>target_token = word_of_nat t, exchange_mask = m, shared_count = c\<rparr>)]
                      else [])"

lemma scan_entry_cases:
  assumes "arena_wf a" "t < total_tokens a"
  shows "2 \<le> card (carriers a t) \<Longrightarrow> \<exists>x. scan_entry a t = [(t, x)] \<and> describes t (carriers a t) x"
    and "card (carriers a t) < 2 \<Longrightarrow> scan_entry a t = []"
  using scan_carriers [OF assms] by (auto simp: scan_entry_def describes_def word_le_nat_alt)

lemma scan_entry_fst: "p \<in> set (scan_entry a t) \<Longrightarrow> fst p = t"
  by (auto simp: scan_entry_def split: option.splits if_splits)

lemma build_targets_loop_push:
  assumes "arena_wf a" "set toks \<subseteq> {..<total_tokens a}"
  shows "build_targets_loop a toks acc = push_all acc (concat (map (scan_entry a) toks))"
  using assms(2)
proof (induction toks arbitrary: acc)
  case (Cons t toks)
  then obtain m c where "scan_exchanges a t [0..<total_exchanges a] 0 0 = Some (m, c)"
    using scan_carriers [OF assms(1), of t] by auto
  then show ?case using Cons by (auto simp: scan_entry_def push_all_def split: option.splits)
qed (simp add: push_all_def)

lemma distinct_scan_entries:
  "distinct toks \<Longrightarrow> distinct (map fst (concat (map (scan_entry a) toks)))"
  unfolding map_concat map_map o_def
  by (rule distinct_concat_map [where key = "\<lambda>t. t"])
    (auto simp: scan_entry_def split: option.splits if_splits)

lemma build_cross_exchange_targets_result:
  assumes wf: "arena_wf a"
  shows "\<exists>a'. build_cross_exchange_targets a = Some a' \<and> arena_wf a' \<and> quote_of a' = quote_of a \<and>
    (\<forall>t < total_tokens a.
       indexed a' t (if 2 \<le> card (carriers a t) then Some (describes t (carriers a t)) else None))"
proof -
  let ?es = "concat (map (scan_entry a) [0..<total_tokens a])"
  have r: "t < total_tokens a" if "(t, x) \<in> set ?es" for t x using that scan_entry_fst by fastforce
  have d: "distinct (map fst ?es)" by (rule distinct_scan_entries) simp
  have b: "build_cross_exchange_targets a =
      map_option (\<lambda>(targets, index). a\<lparr>cross_targets := targets, cross_index := index\<rparr>)
        (push_all ([], map (\<lambda>_. []) (cross_index a)) ?es)"
    unfolding build_cross_exchange_targets_def by (subst build_targets_loop_push [OF wf]) auto
  from push_all_indexed [OF wf _ d b [symmetric]] r obtain a' where
    a': "build_cross_exchange_targets a = Some a'" "arena_wf a'" "quote_of a' = quote_of a"
    and present: "\<And>t x. (t, x) \<in> set ?es \<Longrightarrow> indexed a' t (Some (\<lambda>y. y = x))"
    and absent: "\<And>t. t < total_tokens a \<Longrightarrow> t \<notin> fst ` set ?es \<Longrightarrow> indexed a' t None"
    by blast
  have "indexed a' t (if 2 \<le> card (carriers a t) then Some (describes t (carriers a t)) else None)"
    if t: "t < total_tokens a" for t
  proof (cases "2 \<le> card (carriers a t)")
    case True
    with scan_entry_cases(1) [OF wf t] obtain x where
      x: "scan_entry a t = [(t, x)]" "describes t (carriers a t) x" by blast
    have "(t, x) \<in> set ?es" using x(1) t by force
    with present x(2) True show ?thesis by (auto simp: indexed_def)
  next
    case False
    then have "scan_entry a t = []" using scan_entry_cases(2) [OF wf t] by simp
    then have "t \<notin> fst ` set ?es" using scan_entry_fst by fastforce
    with absent t False show ?thesis by simp
  qed
  with a' show ?thesis by blast
qed

section \<open>Cross-exchange targets from presence data\<close>

lemma presence_mask_result:
  assumes "total_exchanges a \<le> 64" "distinct es"
    "unat c + card {e \<in> set es. unat e < total_exchanges a} < 256"
    "presence_mask a es m c = (m', c')"
  shows "(\<forall>k. bit m' k \<longleftrightarrow> bit m k \<or> k \<in> unat ` {e \<in> set es. unat e < total_exchanges a}) \<and>
    unat c' = unat c + card {e \<in> set es. unat e < total_exchanges a}"
  using assms(2-)
proof (induction es arbitrary: m c)
  case (Cons e es)
  show ?case
  proof (cases "unat e < total_exchanges a")
    case True
    have S: "{x \<in> set (e # es). unat x < total_exchanges a} =
        insert e {x \<in> set es. unat x < total_exchanges a}" using True by auto
    have e: "e < 64" "unat e < 64" using True assms(1) by (simp_all add: word_less_nat_alt)
    have c: "card (insert e {x \<in> set es. unat x < total_exchanges a}) =
        Suc (card {x \<in> set es. unat x < total_exchanges a})"
      using Cons.prems(1) by (subst card_insert_disjoint) auto
    have u: "unat (saturating_add c 1) = unat c + 1" using Cons.prems(2) c by (intro unat_count) (simp only: S)
    have "presence_mask a es (m OR push_bit (unat e) 1) (saturating_add c 1) = (m', c')"
      using Cons.prems(3) True e by simp
    with Cons.IH [of "saturating_add c 1" "m OR push_bit (unat e) 1"] Cons.prems(1,2) [unfolded S c] u
    show ?thesis
      unfolding S c by (auto simp: bit_or_power [OF e(2)])
  next
    case False
    then have "{x \<in> set (e # es). unat x < total_exchanges a} = {x \<in> set es. unat x < total_exchanges a}"
      by auto
    with Cons False show ?thesis by simp
  qed
qed simp

definition present_on :: "market_arena \<Rightarrow> u16 list \<Rightarrow> usize set" where
  "present_on a es = unat ` {e \<in> set es. unat e < total_exchanges a}"

lemma present_on_bound: "total_exchanges a \<le> 64 \<Longrightarrow> present_on a es \<subseteq> {..<64}"
  by (auto simp: present_on_def)

lemma present_on_card:
  "total_exchanges a \<le> 64 \<Longrightarrow> card {e \<in> set es. unat e < total_exchanges a} = card (present_on a es)"
  "total_exchanges a \<le> 64 \<Longrightarrow> card (present_on a es) \<le> 64"
proof -
  show "card {e \<in> set es. unat e < total_exchanges a} = card (present_on a es)"
    unfolding present_on_def by (rule card_image [symmetric]) (simp add: inj_on_def word_unat_eq_iff)
  assume "total_exchanges a \<le> 64"
  then have "card (present_on a es) \<le> card {..<64 :: nat}"
    by (intro card_mono present_on_bound) auto
  then show "card (present_on a es) \<le> 64" by simp
qed

definition presence_entry :: "market_arena \<Rightarrow> u16 \<times> u16 list \<Rightarrow> (usize \<times> cross_exchange_target) list" where
  "presence_entry a p = (case p of (t, es) \<Rightarrow>
     if length es < 2 \<or> total_tokens a \<le> unat t then []
     else case presence_mask a es 0 0 of (m, c) \<Rightarrow>
       if 2 \<le> c then [(unat t, \<lparr>target_token = t, exchange_mask = m, shared_count = c\<rparr>)] else [])"

lemma build_presence_loop_push:
  "build_presence_loop a ps acc = push_all acc (concat (map (presence_entry a) ps))"
proof (induction ps arbitrary: acc)
  case (Cons p ps)
  then show ?case
    by (cases p) (auto simp: presence_entry_def push_all_def split: prod.splits option.splits)
qed (simp add: push_all_def)

lemma presence_entry_fst: "q \<in> set (presence_entry a p) \<Longrightarrow> fst q = unat (fst p) \<and> fst q < total_tokens a"
  by (cases p; cases "presence_mask a (snd p) 0 0") (auto simp: presence_entry_def split: if_splits)

lemma presence_entry_cases:
  assumes "total_exchanges a \<le> 64" "distinct es" "unat t < total_tokens a"
  shows "2 \<le> card (present_on a es) \<Longrightarrow>
      \<exists>x. presence_entry a (t, es) = [(unat t, x)] \<and> describes (unat t) (present_on a es) x"
    and "card (present_on a es) < 2 \<Longrightarrow> presence_entry a (t, es) = []"
proof -
  obtain m c where mc: "presence_mask a es 0 0 = (m, c)" by fastforce
  have "\<forall>k. bit m k \<longleftrightarrow> k \<in> present_on a es" "unat c = card (present_on a es)"
    using presence_mask_result [OF assms(1,2) _ mc] present_on_card [OF assms(1), of es]
    by (auto simp: present_on_def)
  moreover have "card (present_on a es) \<le> length es"
    using card_image_le [of "{e \<in> set es. unat e < total_exchanges a}" unat]
      card_mono [of "set es" "{e \<in> set es. unat e < total_exchanges a}"] card_length [of es]
    by (simp add: present_on_def)
  ultimately show "2 \<le> card (present_on a es) \<Longrightarrow>
      \<exists>x. presence_entry a (t, es) = [(unat t, x)] \<and> describes (unat t) (present_on a es) x"
    "card (present_on a es) < 2 \<Longrightarrow> presence_entry a (t, es) = []"
    using assms(3) mc by (auto simp: presence_entry_def describes_def word_le_nat_alt)
qed

lemma distinct_presence_entries:
  assumes "distinct (map fst ps)"
  shows "distinct (map fst (concat (map (presence_entry a) ps)))"
  unfolding map_concat map_map o_def
proof (rule distinct_concat_map)
  show "distinct ps" using assms by (simp add: distinct_map)
  show "distinct (map fst (presence_entry a p))" for p
    by (auto simp: presence_entry_def split: prod.splits)
  show "(THE p. p \<in> set ps \<and> unat (fst p) = t) = p"
    if "p \<in> set ps" "t \<in> set (map fst (presence_entry a p))" for p t
  proof (rule the_equality)
    show pt: "p \<in> set ps \<and> unat (fst p) = t" using that by (auto dest: presence_entry_fst)
    show "q = p" if qt: "q \<in> set ps \<and> unat (fst q) = t" for q
    proof -
      have "fst q = fst p" using pt qt by (simp add: word_unat_eq_iff)
      with assms pt qt show ?thesis by (metis distinct_map inj_on_def)
    qed
  qed
qed

lemma build_from_presence_result:
  assumes wf: "arena_wf a" and d: "distinct (map fst ps)" and ds: "\<And>t es. (t, es) \<in> set ps \<Longrightarrow> distinct es"
  shows "\<exists>a'. build_cross_exchange_targets_from_presence ps a = Some a' \<and> arena_wf a' \<and>
    quote_of a' = quote_of a \<and>
    (\<forall>(t, es) \<in> set ps. unat t < total_tokens a \<longrightarrow>
       indexed a' (unat t)
         (if 2 \<le> card (present_on a es) then Some (describes (unat t) (present_on a es)) else None)) \<and>
    (\<forall>t < total_tokens a. t \<notin> unat ` fst ` set ps \<longrightarrow> indexed a' t None)"
proof -
  let ?es = "concat (map (presence_entry a) ps)"
  have n: "total_exchanges a \<le> 64" using wf by (simp add: arena_wf_def)
  have r: "t < total_tokens a" if "(t, x) \<in> set ?es" for t x using that presence_entry_fst by fastforce
  have b: "build_cross_exchange_targets_from_presence ps a =
      map_option (\<lambda>(targets, index). a\<lparr>cross_targets := targets, cross_index := index\<rparr>)
        (push_all ([], map (\<lambda>_. []) (cross_index a)) ?es)"
    by (simp add: build_cross_exchange_targets_from_presence_def build_presence_loop_push)
  from push_all_indexed [OF wf _ distinct_presence_entries [OF d] b [symmetric]] r obtain a' where
    a': "build_cross_exchange_targets_from_presence ps a = Some a'" "arena_wf a'" "quote_of a' = quote_of a"
    and present: "\<And>t x. (t, x) \<in> set ?es \<Longrightarrow> indexed a' t (Some (\<lambda>y. y = x))"
    and absent: "\<And>t. t < total_tokens a \<Longrightarrow> t \<notin> fst ` set ?es \<Longrightarrow> indexed a' t None"
    by blast
  have "indexed a' (unat t)
      (if 2 \<le> card (present_on a es) then Some (describes (unat t) (present_on a es)) else None)"
    if p: "(t, es) \<in> set ps" "unat t < total_tokens a" for t es
  proof (cases "2 \<le> card (present_on a es)")
    case True
    with presence_entry_cases(1) [OF n ds [OF p(1)] p(2)] obtain x where
      x: "presence_entry a (t, es) = [(unat t, x)]" "describes (unat t) (present_on a es) x" by blast
    have "(unat t, x) \<in> set ?es" using x(1) p(1) by force
    with present x(2) True show ?thesis by (auto simp: indexed_def)
  next
    case False
    then have e: "presence_entry a (t, es) = []"
      using presence_entry_cases(2) [OF n ds [OF p(1)] p(2)] by simp
    have "unat t \<notin> fst ` set (presence_entry a q)" if "q \<in> set ps" for q
    proof (cases "fst q = t")
      case True
      with d p(1) that have "q = (t, es)" by (metis eq_key_imp_eq_value prod.collapse)
      with e show ?thesis by simp
    qed (auto dest!: presence_entry_fst simp: word_unat_eq_iff)
    then have "unat t \<notin> fst ` set ?es" by auto
    with absent [OF p(2)] False show ?thesis by simp
  qed
  moreover have "indexed a' t None" if "t < total_tokens a" "t \<notin> unat ` fst ` set ps" for t
    using that by (intro absent) (force dest!: presence_entry_fst)+
  ultimately show ?thesis using a' by blast
qed

section \<open>Triangular loops\<close>

lemma adjacency_eq:
  "adjacency pairs b = (if b \<in> fst ` set pairs then Some (map snd (filter (\<lambda>p. fst p = b) pairs)) else None)"
proof (induction pairs rule: rev_induct)
  case (snoc p pairs)
  then show ?case by (cases p) (auto simp: adjacency_def adj_push_def image_iff filter_empty_conv)
qed (simp add: adjacency_def)

lemma adjacency_edges: "(case adjacency pairs b of None \<Rightarrow> [] | Some qs \<Rightarrow> qs) = map snd (filter (\<lambda>p. fst p = b) pairs)"
  by (auto simp: adjacency_eq filter_empty_conv)

definition third_legs :: "(u16 \<times> u16) list \<Rightarrow> u16 \<Rightarrow> u16 \<Rightarrow> triangular_loop list" where
  "third_legs pairs a b = concat (map (\<lambda>c.
     if c = a \<or> c = b then []
     else if (c, a) \<in> set pairs \<and> a < b \<and> a < c
          then [\<lparr>token_a = a, token_b = b, token_c = c\<rparr>] else [])
     (map snd (filter (\<lambda>p. fst p = b) pairs)))"

lemma loops_from_third_legs:
  "loops_from pairs a =
     concat (map (\<lambda>b. if b = a then [] else third_legs pairs a b) (map snd (filter (\<lambda>p. fst p = a) pairs)))"
proof -
  have "(case adjacency pairs b of None \<Rightarrow> [] | Some cs \<Rightarrow> concat (map h cs)) =
      concat (map h (map snd (filter (\<lambda>p. fst p = b) pairs)))"
    for h :: "u16 \<Rightarrow> triangular_loop list" and b
    unfolding adjacency_edges [symmetric] by (simp split: option.splits)
  then show ?thesis unfolding loops_from_def third_legs_def Let_def adjacency_edges by presburger
qed

text \<open>A directed cycle through three distinct tokens.\<close>

definition cycle3 :: "(u16 \<times> u16) list \<Rightarrow> u16 \<Rightarrow> u16 \<Rightarrow> u16 \<Rightarrow> bool" where
  "cycle3 pairs x y z \<longleftrightarrow>
     (x, y) \<in> set pairs \<and> (y, z) \<in> set pairs \<and> (z, x) \<in> set pairs \<and> x \<noteq> y \<and> y \<noteq> z \<and> z \<noteq> x"

lemma loops_from_mem:
  "l \<in> set (loops_from pairs a) \<longleftrightarrow>
   token_a l = a \<and> a < token_b l \<and> a < token_c l \<and> cycle3 pairs a (token_b l) (token_c l)"
  by (cases l) (force simp: loops_from_third_legs third_legs_def cycle3_def split: if_splits)

lemma loops_from_distinct:
  assumes "distinct pairs"
  shows "distinct (loops_from pairs a)"
proof -
  have d: "distinct (map snd (filter (\<lambda>p. fst p = b) pairs))" for b
    using assms by (auto simp: distinct_map inj_on_def)
  have "distinct (third_legs pairs a b)" for b
    unfolding third_legs_def
    by (rule distinct_concat_map [where key = token_c]) (use d in \<open>auto split: if_splits\<close>)
  then show ?thesis unfolding loops_from_third_legs
    by (intro distinct_concat_map [where key = token_b])
      (use d in \<open>auto simp: third_legs_def split: if_splits\<close>)
qed

lemma exchange_loops_mem:
  assumes "\<And>ks. mset (order ks) = mset ks"
  shows "l \<in> set (exchange_loops order pairs) \<longleftrightarrow>
    cycle3 pairs (token_a l) (token_b l) (token_c l) \<and> token_a l < token_b l \<and> token_a l < token_c l"
proof -
  have "set (order (remdups (map fst pairs))) = fst ` set pairs"
    by (metis assms set_mset_mset set_remdups set_map)
  then show ?thesis by (auto simp: exchange_loops_def loops_from_mem cycle3_def image_iff) force+
qed

lemma exchange_loops_distinct:
  assumes "\<And>ks. mset (order ks) = mset ks" "distinct pairs"
  shows "distinct (exchange_loops order pairs)"
  unfolding exchange_loops_def
proof (rule distinct_concat_map)
  show "distinct (order (remdups (map fst pairs)))" by (metis assms(1) mset_eq_imp_distinct_iff distinct_remdups)
  show "distinct (loops_from pairs a)" for a by (rule loops_from_distinct [OF assms(2)])
  show "token_a l = a" if "l \<in> set (loops_from pairs a)" for a l using that by (simp add: loops_from_mem)
qed

lemma tri_loops_fold:
  assumes "distinct (map fst eps)" "(e, pairs) \<in> set eps"
  shows "tri_loops (build_triangular_loops order eps a) e =
    (let loops = exchange_loops order pairs in if loops = [] then None else Some loops)"
proof -
  let ?step = "\<lambda>m (e, pairs). let loops = exchange_loops order pairs in if loops = [] then m else m(e \<mapsto> loops)"
  have other: "foldl ?step m eps' e = m e" if "e \<notin> fst ` set eps'" for eps' m
    using that by (induction eps' arbitrary: m) (auto simp: Let_def split: if_splits prod.splits)
  have "foldl ?step m eps e = (let loops = exchange_loops order pairs in if loops = [] then m e else Some loops)" for m
    using assms
  proof (induction eps arbitrary: m)
    case (Cons p eps)
    then show ?case using other [of eps] by (cases p) (auto simp: Let_def image_iff)
  qed simp
  then show ?thesis by (simp add: build_triangular_loops_def)
qed

section \<open>What discovery guarantees\<close>

lemma indexed_if:
  "indexed a t (if c then Some Q else None) \<longleftrightarrow>
   (if c then \<exists>i < length (cross_targets a). cross_index a ! t = [i] \<and> Q (cross_targets a ! i)
    else cross_index a ! t = [])"
  by (simp add: indexed_def)

lemma describes_token: "t < 65536 \<Longrightarrow> describes t E x \<Longrightarrow> unat (target_token x) = t"
  by (simp add: describes_def unat_of_nat)

definition sample_arena :: market_arena where
  "sample_arena =
     \<lparr>matrix = [], bid_prices = [100, 0, 120, 9], ask_prices = [101, 7, 121, 10],
      total_tokens = 2, total_exchanges = 2, cross_targets = [], cross_index = [[], []],
      tri_loops = Map.empty, active_tokens = [], enabled_cross = True, enabled_tri = True,
      fee_schedule = fee_schedule_new 2 10, fee_aware_enabled = True,
      cross_exchange_mask = - 1, tri_exchange_mask = - 1\<rparr>"

lemma sample_arena_wf: "arena_wf sample_arena"
  by (simp add: arena_wf_def sample_arena_def)

lemma sample_carriers: "carriers sample_arena 0 = {0, 1}" "carriers sample_arena 1 = {1}"
proof -
  have "quote_of sample_arena 0 0 = Some (100, 101)" "quote_of sample_arena 1 0 = Some (120, 121)"
    "quote_of sample_arena 0 1 = Some (0, 7)" "quote_of sample_arena 1 1 = Some (9, 10)"
    by (simp_all add: quote_of_def get_index_def load_quote_def get_at_def sample_arena_def)
  moreover have "quote_of sample_arena e t = None" if "e \<noteq> 0" "e \<noteq> 1" for e t
    using that by (simp add: quote_of_def sample_arena_def)
  ultimately have "e \<in> carriers sample_arena 0 \<longleftrightarrow> e = 0 \<or> e = 1" "e \<in> carriers sample_arena 1 \<longleftrightarrow> e = 1" for e
    by (cases "e = 0"; cases "e = 1"; simp add: carriers_def)+
  then show "carriers sample_arena 0 = {0, 1}" "carriers sample_arena 1 = {1}" by blast+
qed

text \<open>
  rebuilding the cross-exchange targets from the price arrays never panics and indexes exactly
  the tokens that at least two exchanges quote on both sides: such a token has one target, with its
  own identifier, a mask whose bits are exactly the exchanges that quote it and their number as the
  count; every other token has none.  The prices are left as they were.
\<close>

theorem cross_targets_exact:
  assumes "arena_wf a" and "total_tokens a \<le> 65536"
  shows "\<exists>a'. build_cross_exchange_targets a = Some a' \<and> arena_wf a' \<and> quote_of a' = quote_of a \<and>
    (\<forall>t < total_tokens a.
       if 2 \<le> card (carriers a t)
       then \<exists>i < length (cross_targets a'). cross_index a' ! t = [i] \<and>
              unat (target_token (cross_targets a' ! i)) = t \<and>
              {e. bit (exchange_mask (cross_targets a' ! i)) e} = carriers a t \<and>
              unat (shared_count (cross_targets a' ! i)) = card (carriers a t)
       else cross_index a' ! t = [])"
proof -
  from build_cross_exchange_targets_result [OF assms(1)] obtain a' where
    a': "build_cross_exchange_targets a = Some a'" "arena_wf a'" "quote_of a' = quote_of a"
    and ix: "\<And>t. t < total_tokens a \<Longrightarrow>
      indexed a' t (if 2 \<le> card (carriers a t) then Some (describes t (carriers a t)) else None)"
    by blast
  have "if 2 \<le> card (carriers a t)
       then \<exists>i < length (cross_targets a'). cross_index a' ! t = [i] \<and>
              unat (target_token (cross_targets a' ! i)) = t \<and>
              {e. bit (exchange_mask (cross_targets a' ! i)) e} = carriers a t \<and>
              unat (shared_count (cross_targets a' ! i)) = card (carriers a t)
       else cross_index a' ! t = []" if "t < total_tokens a" for t
    using ix [OF that] describes_token [of t "carriers a t"] that assms(2)
    unfolding indexed_if by (auto simp: describes_def split: if_splits)
  with a' show ?thesis by blast
qed

theorem cross_targets_exact_witness:
  "\<exists>a'. build_cross_exchange_targets sample_arena = Some a' \<and>
     (\<exists>i < length (cross_targets a'). cross_index a' ! 0 = [i] \<and>
        {e. bit (exchange_mask (cross_targets a' ! i)) e} = {0, 1}) \<and> cross_index a' ! 1 = []"
proof -
  have n: "total_tokens sample_arena = 2" by (simp add: sample_arena_def)
  obtain a' where a': "build_cross_exchange_targets sample_arena = Some a'"
    and *: "\<forall>t < 2. if 2 \<le> card (carriers sample_arena t)
       then \<exists>i < length (cross_targets a'). cross_index a' ! t = [i] \<and>
              unat (target_token (cross_targets a' ! i)) = t \<and>
              {e. bit (exchange_mask (cross_targets a' ! i)) e} = carriers sample_arena t \<and>
              unat (shared_count (cross_targets a' ! i)) = card (carriers sample_arena t)
       else cross_index a' ! t = []"
    using cross_targets_exact [OF sample_arena_wf] unfolding n by auto
  have "\<exists>i < length (cross_targets a'). cross_index a' ! 0 = [i] \<and>
      {e. bit (exchange_mask (cross_targets a' ! i)) e} = {0, 1}"
    using * [rule_format, of 0] unfolding sample_carriers by auto
  moreover have "cross_index a' ! 1 = []" using * [rule_format, of 1] unfolding sample_carriers by simp
  ultimately show ?thesis using a' by blast
qed

text \<open>
  rebuilding the targets from presence data (a hash map of hash sets, so distinct keys and
  distinct members, in any iteration order) indexes a token in range exactly when at least two of the
  exchanges listed for it are in range, with those exchanges as the mask and the count; exchanges out
  of range are dropped, and a token that is absent from the data has no target.
\<close>

theorem presence_targets_exact:
  assumes "arena_wf a" and "distinct (map fst ps)" and "\<forall>p \<in> set ps. distinct (snd p)"
  shows "\<exists>a'. build_cross_exchange_targets_from_presence ps a = Some a' \<and> arena_wf a' \<and>
    quote_of a' = quote_of a \<and>
    (\<forall>(t, es) \<in> set ps. unat t < total_tokens a \<longrightarrow>
       (if 2 \<le> card {e \<in> unat ` set es. e < total_exchanges a}
        then \<exists>i < length (cross_targets a'). cross_index a' ! unat t = [i] \<and>
               target_token (cross_targets a' ! i) = t \<and>
               {e. bit (exchange_mask (cross_targets a' ! i)) e} = {e \<in> unat ` set es. e < total_exchanges a} \<and>
               unat (shared_count (cross_targets a' ! i)) = card {e \<in> unat ` set es. e < total_exchanges a}
        else cross_index a' ! unat t = [])) \<and>
    (\<forall>t < total_tokens a. t \<notin> unat ` fst ` set ps \<longrightarrow> cross_index a' ! t = [])"
proof -
  have P: "present_on a es = {e \<in> unat ` set es. e < total_exchanges a}" for es
    by (auto simp: present_on_def)
  from build_from_presence_result [OF assms(1,2)] assms(3) obtain a' where
    a': "build_cross_exchange_targets_from_presence ps a = Some a'" "arena_wf a'" "quote_of a' = quote_of a"
    and ix: "\<And>t es. (t, es) \<in> set ps \<Longrightarrow> unat t < total_tokens a \<Longrightarrow> indexed a' (unat t)
         (if 2 \<le> card (present_on a es) then Some (describes (unat t) (present_on a es)) else None)"
    and none: "\<And>t. t < total_tokens a \<Longrightarrow> t \<notin> unat ` fst ` set ps \<Longrightarrow> indexed a' t None"
    by fastforce
  have "if 2 \<le> card (present_on a es)
        then \<exists>i < length (cross_targets a'). cross_index a' ! unat t = [i] \<and>
               target_token (cross_targets a' ! i) = t \<and>
               {e. bit (exchange_mask (cross_targets a' ! i)) e} = present_on a es \<and>
               unat (shared_count (cross_targets a' ! i)) = card (present_on a es)
        else cross_index a' ! unat t = []" if "(t, es) \<in> set ps" "unat t < total_tokens a" for t es
    using ix [OF that] unfolding indexed_if describes_def by (auto split: if_splits)
  moreover have "cross_index a' ! t = []" if "t < total_tokens a" "t \<notin> unat ` fst ` set ps" for t
    using none [OF that] by (simp add: indexed_def)
  ultimately show ?thesis
    using a' unfolding P by (intro exI [of _ a']) blast
qed

theorem presence_targets_exact_witness:
  "\<exists>a'. build_cross_exchange_targets_from_presence [(1, [0, 5, 1]), (0, [1, 7])] sample_arena = Some a' \<and>
     (\<exists>i < length (cross_targets a'). cross_index a' ! 1 = [i] \<and>
        {e. bit (exchange_mask (cross_targets a' ! i)) e} = {0, 1}) \<and> cross_index a' ! 0 = []"
proof -
  have n: "total_tokens sample_arena = 2" "total_exchanges sample_arena = 2" by (simp_all add: sample_arena_def)
  have S: "{e \<in> unat ` set [0, 5, 1 :: u16]. e < 2} = {0, 1}" "{e \<in> unat ` set [1, 7 :: u16]. e < 2} = {1}"
    by auto
  obtain a' where a': "build_cross_exchange_targets_from_presence [(1, [0, 5, 1]), (0, [1, 7])] sample_arena = Some a'"
    and *: "\<forall>(t, es) \<in> set [(1, [0, 5, 1]), (0, [1, 7 :: u16])]. unat t < 2 \<longrightarrow>
       (if 2 \<le> card {e \<in> unat ` set es. e < 2}
        then \<exists>i < length (cross_targets a'). cross_index a' ! unat t = [i] \<and>
               target_token (cross_targets a' ! i) = t \<and>
               {e. bit (exchange_mask (cross_targets a' ! i)) e} = {e \<in> unat ` set es. e < 2} \<and>
               unat (shared_count (cross_targets a' ! i)) = card {e \<in> unat ` set es. e < 2}
        else cross_index a' ! unat t = [])"
    using presence_targets_exact [OF sample_arena_wf, of "[(1, [0, 5, 1]), (0, [1, 7])]"]
    unfolding n by auto
  have "\<exists>i < length (cross_targets a'). cross_index a' ! 1 = [i] \<and>
      {e. bit (exchange_mask (cross_targets a' ! i)) e} = {0, 1}"
    using * [rule_format, of "(1, [0, 5, 1])"] unfolding prod.case S by auto
  moreover have "cross_index a' ! 0 = []"
    using * [rule_format, of "(0, [1, 7])"] unfolding prod.case S by auto
  ultimately show ?thesis using a' by blast
qed

text \<open>
  C35: for every exchange, loop discovery stores exactly the directed cycles x, y, z of three distinct
  tokens among its pairs, each in the one rotation that starts at its smallest token, and stores
  none of them twice when the pairs are distinct; the order in which the hash maps are iterated does
  not matter.
\<close>

theorem triangular_loops_exact:
  assumes "distinct (map fst eps)" and "\<forall>ks. mset (order ks) = mset ks" and "(e, pairs) \<in> set eps"
  shows "\<exists>loops. tri_loops (build_triangular_loops order eps a) e = (if loops = [] then None else Some loops) \<and>
    (\<forall>x y z. \<lparr>token_a = x, token_b = y, token_c = z\<rparr> \<in> set loops \<longleftrightarrow>
       (x, y) \<in> set pairs \<and> (y, z) \<in> set pairs \<and> (z, x) \<in> set pairs \<and> y \<noteq> z \<and> x < y \<and> x < z) \<and>
    (distinct pairs \<longrightarrow> distinct loops)"
  using tri_loops_fold [OF assms(1,3)] exchange_loops_mem [of order] exchange_loops_distinct [of order] assms(2)
  by (intro exI [of _ "exchange_loops order pairs"]) (auto simp: cycle3_def Let_def)

theorem triangular_loops_exact_witness:
  "\<exists>loops. tri_loops (build_triangular_loops rev [(4, [(1, 2), (2, 3), (3, 1), (2, 1)])] sample_arena) 4 = Some loops \<and>
     \<lparr>token_a = 1, token_b = 2, token_c = 3\<rparr> \<in> set loops \<and>
     \<lparr>token_a = 2, token_b = 3, token_c = 1\<rparr> \<notin> set loops"
proof -
  obtain loops where l:
    "tri_loops (build_triangular_loops rev [(4, [(1, 2), (2, 3), (3, 1), (2, 1)])] sample_arena) 4 =
      (if loops = [] then None else Some loops)"
    "\<And>x y z. \<lparr>token_a = x, token_b = y, token_c = z\<rparr> \<in> set loops \<longleftrightarrow>
       (x, y) \<in> set [(1, 2), (2, 3), (3, 1), (2, 1)] \<and> (y, z) \<in> set [(1, 2), (2, 3), (3, 1), (2, 1)] \<and>
       (z, x) \<in> set [(1, 2), (2, 3), (3, 1), (2, 1)] \<and> y \<noteq> z \<and> x < y \<and> x < z"
    using triangular_loops_exact [of "[(4, [(1, 2), (2, 3), (3, 1), (2, 1)])]" rev 4
      "[(1, 2), (2, 3), (3, 1), (2, 1)]" sample_arena] by auto
  have m: "\<lparr>token_a = 1, token_b = 2, token_c = 3\<rparr> \<in> set loops"
    "\<lparr>token_a = 2, token_b = 3, token_c = 1\<rparr> \<notin> set loops" unfolding l(2) by simp_all
  then have "loops \<noteq> []" by auto
  with l(1) m show ?thesis by auto
qed

end
