(* ===== verification/Strategies_Signals.thy ===== *)
theory Strategies_Signals
  imports Strategies_Targets
begin

text \<open>
  The hot path \<^verbatim>\<open>evaluate_tick\<close>: it never panics, every signal it emits is backed by quotes whose
  spread or loop ratio, in exact arithmetic and after fees, is at least what the signal says, and no
  admissible cross-exchange opportunity on uncrossed books is missed.
\<close>

section \<open>Pairs of exchanges\<close>

lemma set_mask_pairs: "set (mask_pairs m) = {(i, j). i < j \<and> bit m i \<and> bit m j}"
proof (induction m rule: mask_pairs.induct)
  case (1 m)
  show ?case
  proof (cases "m = 0")
    case True
    then show ?thesis by (simp add: mask_pairs.simps)
  next
    case False
    let ?i = "trailing_zeros m" and ?rest = "clear_bit (trailing_zeros m) m"
    note tz = trailing_zeros_bit [OF False]
    have IH: "set (mask_pairs ?rest) = {(i, j). i < j \<and> bit ?rest i \<and> bit ?rest j}"
      using 1 False by simp
    have "set (mask_pairs m) = Pair ?i ` {n. bit ?rest n} \<union> {(i, j). i < j \<and> bit ?rest i \<and> bit ?rest j}"
      using False by (subst mask_pairs.simps) (simp add: Let_def set_mask_bits IH)
    also have "\<dots> = {(i, j). i < j \<and> bit m i \<and> bit m j}"
      using tz by (auto simp: bit_clear_bit) (metis linorder_neqE_nat)+
    finally show ?thesis .
  qed
qed

lemma in_mask_bit: "in_mask m e \<longleftrightarrow> bit m e"
proof -
  have "m AND push_bit e 1 \<noteq> 0 \<longleftrightarrow> (\<exists>n. bit (m AND push_bit e 1) n)"
    by (metis bit_0_eq bit_eqI bot_apply bot_bool_def)
  also have "\<dots> \<longleftrightarrow> bit m e" by (auto simp: bit_simps dest: bit_imp_le_length)
  finally show ?thesis by (simp add: in_mask_def)
qed

section \<open>No panic\<close>

lemma cross_pair_total: "arena_wf a \<Longrightarrow> \<exists>sg. cross_pair a env n token t ms i j = Some sg"
  using load_quote_defined [of a "get_index a i t"] load_quote_defined [of a "get_index a j t"]
  by (fastforce simp: cross_pair_def Let_def not_le)

lemma cross_target_signals_total:
  "arena_wf a \<Longrightarrow> n < length (cross_targets a) \<Longrightarrow> \<exists>sg. cross_target_signals a env t ms n = Some sg"
  using collect_total [of "mask_pairs (exchange_mask (cross_targets a ! n))"
      "\<lambda>(i, j). cross_pair a env n (target_token (cross_targets a ! n)) t ms i j"]
    cross_pair_total [of a env n "target_token (cross_targets a ! n)" t ms]
  by (auto simp: cross_target_signals_def get_at_def)

lemma cross_index_less:
  assumes "arena_wf a" "t < length (cross_index a)" "n \<in> set (cross_index a ! t)"
  shows "n < length (cross_targets a)"
  using assms nth_mem [of t "cross_index a"] by (auto simp: arena_wf_def)

lemma cross_signals_total: "arena_wf a \<Longrightarrow> \<exists>sg. cross_signals a env t ms = Some sg"
  using collect_total [of "cross_index a ! t" "cross_target_signals a env t ms"]
    cross_target_signals_total cross_index_less [of a t]
  by (auto simp: cross_signals_def)

lemma tri_loop_signals_total: "arena_wf a \<Longrightarrow> \<exists>sg. tri_loop_signals a env e t mp nl = Some sg"
  using load_quote_defined [of a "get_index a e (unat (token_a (snd nl)))"]
    load_quote_defined [of a "get_index a e (unat (token_b (snd nl)))"]
    load_quote_defined [of a "get_index a e (unat (token_c (snd nl)))"]
  by (cases nl) (fastforce simp: tri_loop_signals_def Let_def not_le)

lemma tri_signals_total:
  assumes "arena_wf a"
  shows "\<exists>sg. tri_signals a env e t mp = Some sg"
proof -
  have "\<exists>sg. collect (tri_loop_signals a env e t mp) ls = Some sg" for ls
    using collect_total [of ls] tri_loop_signals_total [OF assms] by blast
  then show ?thesis by (simp add: tri_signals_def split: option.splits)
qed

lemma evaluate_tick_total: "arena_wf a \<Longrightarrow> \<exists>sigs. evaluate_tick env e t ms mp a = Some sigs"
  using cross_signals_total [of a env t ms] tri_signals_total [of a env e t mp]
  by (auto simp: evaluate_tick_def)

section \<open>Arithmetic of one direction\<close>

definition fee_cross :: "market_arena \<Rightarrow> usize \<Rightarrow> usize \<Rightarrow> nat" where
  "fee_cross a buy sell =
     (if fee_aware_enabled a then unat (round_trip_taker_bps (fee_schedule a) buy sell) else 0)"

definition fee_tri :: "market_arena \<Rightarrow> usize \<Rightarrow> nat" where
  "fee_tri a e = (if fee_aware_enabled a then unat (tri_leg_taker_bps (fee_schedule a) e) else 0)"

lemma raw_spread_exact:
  fixes ask bid :: u64
  assumes "ask < bid"
  shows "unat (saturating_mul (bid - ask) 10000 div ask) * unat ask \<le> (unat bid - unat ask) * 10000"
proof -
  have "unat (saturating_mul (bid - ask) 10000 div ask) * unat ask \<le> unat (saturating_mul (bid - ask) 10000)"
    by (simp add: unat_div_distrib)
  also have "\<dots> \<le> unat (bid - ask) * 10000" by (simp add: unat_saturating_mul)
  also have "unat (bid - ask) = unat bid - unat ask"
    using assms by (intro unat_sub) simp
  finally show ?thesis .
qed

lemma net_of_sub:
  fixes raw fee net m :: u64
  assumes "net = saturating_sub raw fee" "m < net"
  shows "unat net + unat fee = unat raw"
  using assms by (simp add: word_less_nat_alt unat_saturating_sub)

lemma cross_direction_sound:
  assumes "cross_direction a fee_ok ms token buy ask sell bid = Some sg" "x \<in> set sg"
  shows "\<exists>net. x = CrossExchange (word_of_nat buy) (word_of_nat sell) token net \<and> ms < net \<and>
    0 < ask \<and> ask < bid \<and> bit (cross_exchange_mask a) buy \<and> bit (cross_exchange_mask a) sell \<and>
    (unat net + fee_cross a buy sell) * unat ask \<le> (unat bid - unat ask) * 10000"
proof -
  let ?raw = "saturating_mul (bid - ask) ARENA_BPS div ask"
  let ?net = "if fee_aware_enabled a then saturating_sub ?raw (round_trip_taker_bps (fee_schedule a) buy sell)
              else ?raw"
  from assms have "ask < bid" "0 < ask" "ms < ?net"
    and x: "x = CrossExchange (word_of_nat buy) (word_of_nat sell) token ?net"
    and m: "bit (cross_exchange_mask a) buy" "bit (cross_exchange_mask a) sell"
    by (auto simp: cross_direction_def Let_def in_mask_bit split: if_splits)
  moreover from \<open>ms < ?net\<close> have "unat ?net + fee_cross a buy sell = unat ?raw"
    using net_of_sub [of ?net ?raw "round_trip_taker_bps (fee_schedule a) buy sell" ms]
    by (auto simp: fee_cross_def)
  ultimately show ?thesis using raw_spread_exact by metis
qed

section \<open>Cross-exchange signals\<close>

text \<open>Every target is indexed under its own token.\<close>

definition targets_wf :: "market_arena \<Rightarrow> bool" where
  "targets_wf a \<longleftrightarrow> (\<forall>t < total_tokens a. \<forall>i \<in> set (cross_index a ! t).
     unat (target_token (cross_targets a ! i)) = t)"

definition clean_quote :: "market_arena \<Rightarrow> usize \<Rightarrow> usize \<Rightarrow> u64 \<Rightarrow> u64 \<Rightarrow> bool" where
  "clean_quote a e t bid ask \<longleftrightarrow>
     quote_of a e t = Some (bid, ask) \<and> \<not> is_sentinel bid \<and> \<not> is_sentinel ask"

lemma get_index_out_of_range:
  assumes "arena_wf a" "total_tokens a \<le> 65536" "t < total_tokens a" "e < 64"
  shows "get_index a e t < length (bid_prices a) \<longleftrightarrow> e < total_exchanges a"
proof
  have "e * total_tokens a \<le> 63 * 65536" using assms(2,4) by (intro mult_mono) auto
  then have "e * total_tokens a + t < 2 ^ 64" using assms(2,3) by simp
  then have ix: "get_index a e t = e * total_tokens a + t" by (simp add: get_index_def)
  assume "get_index a e t < length (bid_prices a)"
  then have "e * total_tokens a + t < total_exchanges a * total_tokens a"
    using assms(1) ix by (simp add: arena_wf_def)
  then have "e * total_tokens a < total_exchanges a * total_tokens a" by linarith
  then show "e < total_exchanges a" by simp
qed (rule get_index_in_range(2) [OF assms(1) _ assms(3)])

lemma cross_pair_mem:
  assumes wf: "arena_wf a" and tok: "total_tokens a \<le> 65536" "t < total_tokens a"
    and ij: "i < 64" "j < 64" and sg: "cross_pair a env n token t ms i j = Some sg" "x \<in> set sg"
  shows "\<exists>b s bid ask bid' ask' s1. (b = i \<and> s = j \<or> b = j \<and> s = i) \<and>
    clean_quote a b t bid' ask \<and> clean_quote a s t bid ask' \<and>
    cross_direction a (fee_lock_cross env n b s) ms token b ask s bid = Some s1 \<and> x \<in> set s1"
proof -
  from sg have r: "i < total_exchanges a" "j < total_exchanges a"
    using get_index_out_of_range [OF wf tok ij(1)] get_index_out_of_range [OF wf tok ij(2)]
    by (auto simp: cross_pair_def Let_def split: if_splits)
  from quote_of_defined [OF wf] r tok obtain bi ai bj aj where
    q: "quote_of a i t = Some (bi, ai)" "quote_of a j t = Some (bj, aj)" by fastforce
  then have l: "load_quote a (get_index a i t) = Some (bi, ai)" "load_quote a (get_index a j t) = Some (bj, aj)"
    using r tok by (simp_all add: quote_of_def)
  from sg have c: "clean_quote a i t bi ai" "clean_quote a j t bj aj"
    by (auto simp: cross_pair_def Let_def l q clean_quote_def split: if_splits)
  from sg consider
      s1 where "cross_direction a (fee_lock_cross env n i j) ms token i ai j bj = Some s1" "x \<in> set s1"
    | s2 where "cross_direction a (fee_lock_cross env n j i) ms token j aj i bi = Some s2" "x \<in> set s2"
    by (auto simp: cross_pair_def Let_def l split: if_splits option.splits)
  then show ?thesis using c by cases blast+
qed

lemma cross_signals_mem:
  assumes "arena_wf a" "cross_signals a env t ms = Some sg" "x \<in> set sg"
  shows "t < total_tokens a \<and> (\<exists>n \<in> set (cross_index a ! t). \<exists>i j s1. i < j \<and> j < 64 \<and>
    bit (exchange_mask (cross_targets a ! n)) i \<and> bit (exchange_mask (cross_targets a ! n)) j \<and>
    cross_pair a env n (target_token (cross_targets a ! n)) t ms i j = Some s1 \<and> x \<in> set s1)"
proof -
  from assms have t: "t < length (cross_index a)"
    and c: "collect (cross_target_signals a env t ms) (cross_index a ! t) = Some sg"
    by (auto simp: cross_signals_def split: if_splits)
  from collect_mem [OF c] assms(3) obtain n ys where
    n: "n \<in> set (cross_index a ! t)" "cross_target_signals a env t ms n = Some ys" "x \<in> set ys" by blast
  have "get_at (cross_targets a) n = Some (cross_targets a ! n)"
    using cross_index_less [OF assms(1) t n(1)] by (simp add: get_at_def)
  with n(2) have "collect (\<lambda>(i, j). cross_pair a env n (target_token (cross_targets a ! n)) t ms i j)
      (mask_pairs (exchange_mask (cross_targets a ! n))) = Some ys"
    by (simp add: cross_target_signals_def)
  from collect_mem [OF this] n(3) obtain i j s1 where
    s1: "(i, j) \<in> set (mask_pairs (exchange_mask (cross_targets a ! n)))"
      "cross_pair a env n (target_token (cross_targets a ! n)) t ms i j = Some s1" "x \<in> set s1" by auto
  then have "i < j" "j < 64" "bit (exchange_mask (cross_targets a ! n)) i" "bit (exchange_mask (cross_targets a ! n)) j"
    by (auto simp: set_mask_pairs dest: bit_imp_le_length)
  moreover have "t < total_tokens a" using t assms(1) by (simp add: arena_wf_def)
  ultimately show ?thesis using n(1) s1 by blast
qed

text \<open>A cross-exchange signal comes from the cross-exchange scan, a triangular one from the loops.\<close>

lemma tri_loop_signals_tri:
  "tri_loop_signals a env e t mp nl = Some sg \<Longrightarrow> x \<in> set sg \<Longrightarrow>
   (\<exists>qa qb qc. load_quote a (get_index a e (unat (token_a (snd nl)))) = Some qa \<and>
      load_quote a (get_index a e (unat (token_b (snd nl)))) = Some qb \<and>
      load_quote a (get_index a e (unat (token_c (snd nl)))) = Some qc \<and>
      x \<in> set (tri_signal a (fee_lock_tri env (fst nl)) e mp (snd nl) qa qb qc))"
  by (cases nl) (auto simp: tri_loop_signals_def Let_def split: if_splits option.splits)

lemma tri_signal_shape:
  "x \<in> set (tri_signal a ok e mp tri qa qb qc) \<Longrightarrow>
   \<exists>net. x = Triangular (word_of_nat e) (token_a tri) (token_b tri) (token_c tri) net"
  by (auto simp: tri_signal_def Let_def split: if_splits option.splits)

lemma tri_signals_mem:
  assumes "tri_signals a env e t mp = Some sg" "x \<in> set sg"
  shows "\<exists>loops n tri qa qb qc. tri_loops a (word_of_nat e) = Some loops \<and> tri \<in> set loops \<and>
      load_quote a (get_index a e (unat (token_a tri))) = Some qa \<and>
      load_quote a (get_index a e (unat (token_b tri))) = Some qb \<and>
      load_quote a (get_index a e (unat (token_c tri))) = Some qc \<and>
      x \<in> set (tri_signal a (fee_lock_tri env n) e mp tri qa qb qc)"
proof -
  from assms obtain loops where l: "tri_loops a (word_of_nat e) = Some loops"
    and c: "collect (tri_loop_signals a env e t mp) (enumerate 0 loops) = Some sg"
    by (auto simp: tri_signals_def split: if_splits option.splits)
  from collect_mem [OF c] assms(2) obtain n tri ys where
    n: "(n, tri) \<in> set (enumerate 0 loops)" "tri_loop_signals a env e t mp (n, tri) = Some ys" "x \<in> set ys" by auto
  from n(1) have "tri \<in> set loops" by (auto simp: in_set_enumerate_eq)
  with l tri_loop_signals_tri [OF n(2,3)] show ?thesis unfolding fst_conv snd_conv by blast
qed

lemma evaluate_tick_cases:
  assumes "evaluate_tick env e t ms mp a = Some sigs" "x \<in> set sigs"
  obtains (cross) sg where "cross_signals a env t ms = Some sg" "x \<in> set sg"
  | (tri) sg where "tri_signals a env e t mp = Some sg" "x \<in> set sg"
  using assms by (auto simp: evaluate_tick_def split: option.splits)

lemma tri_signals_not_cross:
  "tri_signals a env e t mp = Some sg \<Longrightarrow> CrossExchange b s tok net \<notin> set sg"
  using tri_signals_mem tri_signal_shape by blast

lemma cross_signals_not_tri:
  assumes "arena_wf a" "total_tokens a \<le> 65536" "cross_signals a env t ms = Some sg"
  shows "Triangular b x y z net \<notin> set sg"
proof
  assume "Triangular b x y z net \<in> set sg"
  from cross_signals_mem [OF assms(1,3) this] obtain n i j s1 where
    p: "t < total_tokens a" "i < j" "j < 64"
      "cross_pair a env n (target_token (cross_targets a ! n)) t ms i j = Some s1" "Triangular b x y z net \<in> set s1"
    by blast
  then have "i < 64" by simp
  from cross_pair_mem [OF assms(1,2) p(1) this p(3-5)] obtain c b' ask s' bid s1' where
    "cross_direction a c ms (target_token (cross_targets a ! n)) b' ask s' bid = Some s1'"
    "Triangular b x y z net \<in> set s1'" by blast
  from cross_direction_sound [OF this] show False by blast
qed

lemma cross_signal_facts:
  assumes wf: "arena_wf a" "targets_wf a" "total_tokens a \<le> 65536"
    and ev: "cross_signals a env t ms = Some sg" "CrossExchange b s tok net \<in> set sg"
  shows "unat tok = t \<and> b \<noteq> s \<and>
    bit (cross_exchange_mask a) (unat b) \<and> bit (cross_exchange_mask a) (unat s) \<and> ms < net \<and>
    (\<exists>bid ask bid' ask'. clean_quote a (unat b) t bid' ask \<and> clean_quote a (unat s) t bid ask' \<and>
       0 < ask \<and> ask < bid \<and>
       (unat net + fee_cross a (unat b) (unat s)) * unat ask \<le> (unat bid - unat ask) * 10000)"
proof -
  from cross_signals_mem [OF wf(1) ev] obtain n i j s1 where
    t: "t < total_tokens a" and n: "n \<in> set (cross_index a ! t)" and ij: "i < j" "j < 64"
    and s1: "cross_pair a env n (target_token (cross_targets a ! n)) t ms i j = Some s1"
      "CrossExchange b s tok net \<in> set s1" by blast
  have i: "i < 64" using ij by simp
  from cross_pair_mem [OF wf(1,3) t i ij(2) s1] obtain b' s' bid ask bid' ask' s2 where
    bs: "b' = i \<and> s' = j \<or> b' = j \<and> s' = i"
    and q: "clean_quote a b' t bid' ask" "clean_quote a s' t bid ask'"
    and d: "cross_direction a (fee_lock_cross env n b' s') ms (target_token (cross_targets a ! n)) b' ask s' bid = Some s2"
      "CrossExchange b s tok net \<in> set s2" by blast
  from bs ij i have u: "unat (word_of_nat b' :: u16) = b'" "unat (word_of_nat s' :: u16) = s'" "b' \<noteq> s'"
    by (auto simp: unat_of_nat)
  from cross_direction_sound [OF d]
  have c: "b = word_of_nat b'" "s = word_of_nat s'" "tok = target_token (cross_targets a ! n)"
    and m: "ms < net" "0 < ask" "ask < bid" "bit (cross_exchange_mask a) b'" "bit (cross_exchange_mask a) s'"
      "(unat net + fee_cross a b' s') * unat ask \<le> (unat bid - unat ask) * 10000"
    by auto
  have "b \<noteq> s" using u c by metis
  moreover have "unat tok = t" using wf(2) t n c(3) by (simp add: targets_wf_def)
  ultimately show ?thesis using m q u unfolding c(1,2) by auto
qed

section \<open>Completeness\<close>

text \<open>
  The spread that the code computes for buying at \<open>ask\<close> and selling at \<open>bid\<close>, and when a direction
  emits a signal.
\<close>

definition net_spread :: "market_arena \<Rightarrow> usize \<Rightarrow> usize \<Rightarrow> u64 \<Rightarrow> u64 \<Rightarrow> u64" where
  "net_spread a buy sell ask bid =
     (let raw = saturating_mul (bid - ask) ARENA_BPS div ask
      in if fee_aware_enabled a then saturating_sub raw (round_trip_taker_bps (fee_schedule a) buy sell) else raw)"

lemma cross_direction_emits:
  assumes "0 < ask" "ask < bid" "saturating_mul (bid - ask) ARENA_BPS div ask < max_ratio" "fee_ok"
    "ms < net_spread a buy sell ask bid" "bit (cross_exchange_mask a) buy" "bit (cross_exchange_mask a) sell"
  shows "cross_direction a fee_ok ms token buy ask sell bid =
    Some [CrossExchange (word_of_nat buy) (word_of_nat sell) token (net_spread a buy sell ask bid)]"
  using assms by (auto simp: cross_direction_def net_spread_def Let_def in_mask_bit not_le [symmetric])

lemma cross_direction_uncrossed: "bid \<le> ask \<Longrightarrow> cross_direction a ok ms token buy ask sell bid = Some []"
  using not_le [of bid ask] by (simp add: cross_direction_def)

lemma collect_memI:
  "collect f xs = Some zs \<Longrightarrow> x \<in> set xs \<Longrightarrow> f x = Some ys \<Longrightarrow> z \<in> set ys \<Longrightarrow> z \<in> set zs"
  using collect_mem by fast

lemma cross_pair_emits:
  assumes wf: "arena_wf a" and t: "t < total_tokens a"
    and q: "clean_quote a b t bid_b ask_b" "clean_quote a s t bid_s ask_s"
    and uncrossed: "bid_b \<le> ask_b" "bid_s \<le> ask_s"
    and p: "i = min b s" "j = max b s" "b \<noteq> s"
    and d: "cross_direction a (fee_lock_cross env n b s) ms token b ask_b s bid_s = Some [x]"
      "ask_b < bid_s"
  shows "\<exists>sg. cross_pair a env n token t ms i j = Some sg \<and> x \<in> set sg"
proof -
  have r: "b < total_exchanges a" "s < total_exchanges a"
    using q quote_of_defined [OF wf, of b t] quote_of_defined [OF wf, of s t] by (auto simp: clean_quote_def)
  have ix: "get_index a b t < length (bid_prices a)" "get_index a s t < length (bid_prices a)"
    using get_index_in_range(2) [OF wf _ t] r by auto
  have l: "load_quote a (get_index a b t) = Some (bid_b, ask_b)" "load_quote a (get_index a s t) = Some (bid_s, ask_s)"
    using q r t by (simp_all add: clean_quote_def quote_of_def)
  have s: "\<not> is_sentinel bid_b" "\<not> is_sentinel ask_b" "\<not> is_sentinel bid_s" "\<not> is_sentinel ask_s"
    using q by (simp_all add: clean_quote_def)
  have "bid_b \<le> ask_s" using uncrossed d(2) by (meson less_imp_le order_trans)
  then have o: "cross_direction a (fee_lock_cross env n s b) ms token s ask_s b bid_b = Some []"
    by (rule cross_direction_uncrossed)
  show ?thesis
  proof (cases "b < s")
    case True
    then have "i = b" "j = s" using p by auto
    then show ?thesis using ix l s d(1) o by (simp add: cross_pair_def Let_def)
  next
    case False
    then have "i = s" "j = b" using p by auto
    then show ?thesis using ix l s d(1) o by (simp add: cross_pair_def Let_def)
  qed
qed

lemma cross_signals_complete:
  assumes wf: "arena_wf a" and t: "t < total_tokens a"
    and en: "enabled_cross a" "targets_lock env" "index_lock env"
    and n: "n \<in> set (cross_index a ! t)"
    and bits: "bit (exchange_mask (cross_targets a ! n)) b" "bit (exchange_mask (cross_targets a ! n)) s" "b \<noteq> s"
    and pr: "cross_pair a env n (target_token (cross_targets a ! n)) t ms (min b s) (max b s) = Some sg" "x \<in> set sg"
    and c: "cross_signals a env t ms = Some sigs"
  shows "x \<in> set sigs"
proof -
  have t': "t < length (cross_index a)" using wf t by (simp add: arena_wf_def)
  have c': "collect (cross_target_signals a env t ms) (cross_index a ! t) = Some sigs"
    using c en t' by (simp add: cross_signals_def)
  have g: "get_at (cross_targets a) n = Some (cross_targets a ! n)"
    using cross_index_less [OF wf t' n] by (simp add: get_at_def)
  obtain ys where ys: "cross_target_signals a env t ms n = Some ys"
    using cross_target_signals_total [OF wf cross_index_less [OF wf t' n]] by blast
  then have "collect (\<lambda>(i, j). cross_pair a env n (target_token (cross_targets a ! n)) t ms i j)
      (mask_pairs (exchange_mask (cross_targets a ! n))) = Some ys"
    by (simp add: cross_target_signals_def g)
  moreover have "(min b s, max b s) \<in> set (mask_pairs (exchange_mask (cross_targets a ! n)))"
    using bits by (auto simp: set_mask_pairs min_def max_def)
  ultimately have "x \<in> set ys" using pr by (auto intro: collect_memI)
  with c' n ys show ?thesis by (rule collect_memI)
qed

section \<open>Triangular signals\<close>

lemma floor_chain:
  fixes p1 p2 p3 k1 k2 k3 s1 s2 s3 B :: nat
  assumes "s1 * k1 \<le> p1 * B" "s2 * k2 \<le> s1 * p2" "s3 * k3 \<le> s2 * p3"
  shows "s3 * (k1 * k2 * k3) \<le> B * (p1 * p2 * p3)"
proof -
  have "s3 * (k1 * k2 * k3) = (s3 * k3) * (k1 * k2)" by simp
  also have "\<dots> \<le> (s2 * p3) * (k1 * k2)" by (intro mult_right_mono assms) simp
  also have "\<dots> = (s2 * k2) * (p3 * k1)" by simp
  also have "\<dots> \<le> (s1 * p2) * (p3 * k1)" by (intro mult_right_mono assms) simp
  also have "\<dots> = (s1 * k1) * (p2 * p3)" by simp
  also have "\<dots> \<le> (p1 * B) * (p2 * p3)" by (intro mult_right_mono assms) simp
  finally show ?thesis by (simp add: ac_simps)
qed

lemma checked_step:
  fixes x y k v :: u64
  assumes "checked_mul x y = Some v"
  shows "unat (v div k) * unat k \<le> unat x * unat y"
proof -
  have "unat v = unat x * unat y" using assms by (simp add: checked_mul_eq_Some)
  then show ?thesis by (metis div_times_less_eq_dividend unat_div_distrib)
qed

lemma tri_ratio_floor:
  assumes "tri_ratio qa qb qc = Some (s1, s2, s3)"
  shows "unat s3 * (unat (snd qa) * unat (snd qb) * unat (snd qc)) \<le>
    10000 * (unat (fst qa) * unat (fst qb) * unat (fst qc))"
proof -
  from assms obtain v1 v2 v3 where v:
    "checked_mul (fst qa) ARENA_BPS = Some v1" "s1 = v1 div snd qa"
    "checked_mul s1 (fst qb) = Some v2" "s2 = v2 div snd qb"
    "checked_mul s2 (fst qc) = Some v3" "s3 = v3 div snd qc"
    by (auto simp: tri_ratio_def Let_def split: option.splits)
  show ?thesis
    by (rule floor_chain [of "unat s1" _ _ _ "unat s2"])
      (use checked_step [OF v(1), of "snd qa"] checked_step [OF v(3), of "snd qb"]
        checked_step [OF v(5), of "snd qc"] v in simp_all)
qed

lemma tri_signal_sound:
  assumes "Triangular e x y z net \<in> set (tri_signal a ok exch mp tri qa qb qc)"
  shows "e = word_of_nat exch \<and> x = token_a tri \<and> y = token_b tri \<and> z = token_c tri \<and> mp < net \<and>
    exch < 64 \<and> bit (tri_exchange_mask a) exch \<and>
    (\<forall>p \<in> {fst qa, snd qa, fst qb, snd qb, fst qc, snd qc}. 0 < p \<and> \<not> is_sentinel p) \<and>
    (10000 + unat net + fee_tri a exch) * (unat (snd qa) * unat (snd qb) * unat (snd qc)) \<le>
    10000 * (unat (fst qa) * unat (fst qb) * unat (fst qc))"
proof -
  from assms obtain s1 s2 s3 where r: "tri_ratio qa qb qc = Some (s1, s2, s3)"
    by (cases "tri_ratio qa qb qc") (auto simp: tri_signal_def split: if_splits)
  from assms have big: "ARENA_BPS < s3"
    and net: "net = (if fee_aware_enabled a then saturating_sub (s3 - ARENA_BPS) (tri_leg_taker_bps (fee_schedule a) exch)
                     else s3 - ARENA_BPS)" "mp < net"
    and ids: "e = word_of_nat exch" "x = token_a tri" "y = token_b tri" "z = token_c tri" "exch < 64"
      "bit (tri_exchange_mask a) exch"
    and q: "\<forall>p \<in> {fst qa, snd qa, fst qb, snd qb, fst qc, snd qc}. p \<noteq> 0 \<and> \<not> is_sentinel p"
    by (auto simp: tri_signal_def Let_def in_mask_bit r split: if_splits)
  have "unat (s3 - ARENA_BPS) = unat s3 - 10000" using big by (subst unat_sub) auto
  moreover have "10000 < unat s3" using big by (simp add: word_less_nat_alt)
  moreover have "unat net + fee_tri a exch = unat (s3 - ARENA_BPS)"
    using net net_of_sub [of net "s3 - ARENA_BPS" "tri_leg_taker_bps (fee_schedule a) exch" mp]
    by (auto simp: fee_tri_def split: if_splits)
  ultimately have "10000 + unat net + fee_tri a exch = unat s3" by simp
  with tri_ratio_floor [OF r] ids q net(2) show ?thesis by (simp add: word_gt_0)
qed

section \<open>Properties of a tick\<close>

datatype arena_op =
    Price price_op
  | RegisterToken bool u16
  | UnregisterToken bool u16
  | BuildTargets
  | BuildFromPresence "(u16 \<times> u16 list) list"
  | BuildLoops "(u16 \<times> (u16 \<times> u16) list) list"

fun arena_step :: "(u16 list \<Rightarrow> u16 list) \<Rightarrow> market_arena \<Rightarrow> arena_op \<Rightarrow> market_arena option" where
  "arena_step order a (Price op) = price_step a op"
| "arena_step order a (RegisterToken lock_ok t) = Some (register_active_token lock_ok t a)"
| "arena_step order a (UnregisterToken lock_ok t) = Some (unregister_active_token lock_ok t a)"
| "arena_step order a BuildTargets = build_cross_exchange_targets a"
| "arena_step order a (BuildFromPresence ps) = build_cross_exchange_targets_from_presence ps a"
| "arena_step order a (BuildLoops eps) = Some (build_triangular_loops order eps a)"

text \<open>Presence data is a hash map of hash sets.\<close>

fun valid_arena_op :: "arena_op \<Rightarrow> bool" where
  "valid_arena_op (BuildFromPresence ps) \<longleftrightarrow> distinct (map fst ps) \<and> list_all (\<lambda>p. distinct (snd p)) ps"
| "valid_arena_op _ \<longleftrightarrow> True"

lemma arena_step_wf:
  assumes "arena_wf a" "valid_arena_op op"
  shows "\<exists>a'. arena_step order a op = Some a' \<and> arena_wf a'"
proof (cases op)
  case (Price x)
  then show ?thesis using price_step_refines [OF assms(1), of x] by auto
next
  case (BuildFromPresence ps)
  then show ?thesis using build_from_presence_result [OF assms(1), of ps] assms(2) by (fastforce simp: list_all_iff)
qed (use assms build_cross_exchange_targets_result [OF assms(1)] in
    \<open>auto simp: arena_wf_def register_active_token_def unregister_active_token_def build_triangular_loops_def\<close>)

text \<open>
  an arena built for at most 64 exchanges never panics.  Every sequence of its operations
  (price updates and invalidations with identifiers in range or not, token registration, both ways of
  rebuilding the targets, rebuilding the loops) runs to its end, and the evaluation of a tick then
  returns a list of signals for every exchange and token, whatever locks are busy.
\<close>

theorem arena_never_panics:
  assumes "n \<le> 64" and "n * m < 2 ^ 64" and "list_all valid_arena_op ops"
  shows "\<exists>a a' sigs. arena_new n m = Some a \<and> try_fold (arena_step order) a ops = Some a' \<and>
    evaluate_tick env e t ms mp a' = Some sigs"
proof -
  obtain a where a: "arena_new n m = Some a" "arena_wf a" using arena_new_wf [OF assms(1,2)] by blast
  have "\<exists>a'. try_fold (arena_step order) a ops = Some a' \<and> arena_wf a'"
    by (rule try_fold_inv [where P = arena_wf]) (use arena_step_wf a(2) assms(3) in \<open>auto simp: list_all_iff\<close>)
  then show ?thesis using a(1) evaluate_tick_total by blast
qed

text \<open>
  C6: every cross-exchange signal is real.  It is for the updated token, between two different
  exchanges allowed by the strategy mask; the buyer's ask and the seller's bid are stored in the
  arena and are not discovery sentinels; the ask is positive and below the bid; the reported net
  spread exceeds the threshold, and together with the round-trip fee it is at most the exact spread
  \<open>10000 (bid - ask) / ask\<close>, saturation and integer division included.
\<close>

theorem cross_signal_sound:
  assumes "arena_wf a" and "targets_wf a" and "total_tokens a \<le> 65536"
    and "evaluate_tick env e t ms mp a = Some sigs" and "CrossExchange b s tok net \<in> set sigs"
  shows "unat tok = t \<and> b \<noteq> s \<and>
    bit (cross_exchange_mask a) (unat b) \<and> bit (cross_exchange_mask a) (unat s) \<and> ms < net \<and>
    (\<exists>bid ask bid' ask'. clean_quote a (unat b) t bid' ask \<and> clean_quote a (unat s) t bid ask' \<and>
       0 < ask \<and> ask < bid \<and>
       (unat net + fee_cross a (unat b) (unat s)) * unat ask \<le> (unat bid - unat ask) * 10000)"
  using assms(4,5)
proof (cases rule: evaluate_tick_cases)
  case (cross sg)
  show ?thesis by (rule cross_signal_facts [OF assms(1-3) cross])
next
  case (tri sg)
  then show ?thesis using tri_signals_not_cross by blast
qed

text \<open>
  C9: no opportunity is missed.  If a target of the updated token lists both exchanges, their books
  are not crossed and hold no sentinel, the seller's bid is above the buyer's positive ask by less than the
  anomaly limit, the locks are free, and the net spread exceeds the threshold, then the evaluation
  emits the signal for that pair, in that direction, with that spread.
\<close>

theorem cross_signal_complete:
  assumes wf: "arena_wf a" and t: "t < total_tokens a"
    and en: "enabled_cross a \<and> targets_lock env \<and> index_lock env \<and> (\<forall>n i j. fee_lock_cross env n i j)"
    and n: "n \<in> set (cross_index a ! t)"
    and bits: "bit (exchange_mask (cross_targets a ! n)) b \<and> bit (exchange_mask (cross_targets a ! n)) s \<and> b \<noteq> s"
    and q: "clean_quote a b t bid_b ask_b \<and> clean_quote a s t bid_s ask_s"
    and uncrossed: "bid_b \<le> ask_b \<and> bid_s \<le> ask_s"
    and opp: "0 < ask_b \<and> ask_b < bid_s \<and> saturating_mul (bid_s - ask_b) ARENA_BPS div ask_b < max_ratio"
    and net: "ms < net_spread a b s ask_b bid_s"
    and mask: "bit (cross_exchange_mask a) b \<and> bit (cross_exchange_mask a) s"
  shows "\<exists>sigs. evaluate_tick env e t ms mp a = Some sigs \<and>
    CrossExchange (word_of_nat b) (word_of_nat s) (target_token (cross_targets a ! n))
      (net_spread a b s ask_b bid_s) \<in> set sigs"
proof -
  let ?x = "CrossExchange (word_of_nat b) (word_of_nat s) (target_token (cross_targets a ! n))
      (net_spread a b s ask_b bid_s)"
  have "cross_direction a (fee_lock_cross env n b s) ms (target_token (cross_targets a ! n)) b ask_b s bid_s = Some [?x]"
    by (rule cross_direction_emits) (use opp en net mask in auto)
  with q uncrossed bits opp obtain sg where
    sg: "cross_pair a env n (target_token (cross_targets a ! n)) t ms (min b s) (max b s) = Some sg" "?x \<in> set sg"
    using cross_pair_emits [OF wf t _ _ _ _ refl refl] by blast
  obtain cs where cs: "cross_signals a env t ms = Some cs" using cross_signals_total [OF wf] by blast
  have "?x \<in> set cs" using cross_signals_complete [OF wf t _ _ _ n _ _ _ sg cs] en bits by blast
  moreover obtain ts where "tri_signals a env e t mp = Some ts" using tri_signals_total [OF wf] by blast
  ultimately show ?thesis using cs by (simp add: evaluate_tick_def)
qed

text \<open>
  C7: every triangular signal is real.  Its loop is one of the loops compiled for the updated
  exchange, which the strategy mask allows; all six prices are positive and are no sentinels; the net
  profit exceeds the threshold, and \<open>10000\<close> plus the net profit plus the three-leg fee is at most
  \<open>10000\<close> times the exact product of the three bid/ask ratios: the staged integer divisions and the
  overflow checks never overstate a profit.
\<close>

theorem triangular_signal_sound:
  assumes "arena_wf a" and "total_tokens a \<le> 65536"
    and "evaluate_tick env e t ms mp a = Some sigs" and "Triangular ex x y z net \<in> set sigs"
  shows "e < 64 \<and> unat ex = e \<and> bit (tri_exchange_mask a) e \<and> mp < net \<and>
    (\<exists>loops. tri_loops a ex = Some loops \<and> \<lparr>token_a = x, token_b = y, token_c = z\<rparr> \<in> set loops) \<and>
    (\<exists>qa qb qc. load_quote a (get_index a e (unat x)) = Some qa \<and>
       load_quote a (get_index a e (unat y)) = Some qb \<and>
       load_quote a (get_index a e (unat z)) = Some qc \<and>
       (\<forall>p \<in> {fst qa, snd qa, fst qb, snd qb, fst qc, snd qc}. 0 < p \<and> \<not> is_sentinel p) \<and>
       (10000 + unat net + fee_tri a e) * (unat (snd qa) * unat (snd qb) * unat (snd qc)) \<le>
       10000 * (unat (fst qa) * unat (fst qb) * unat (fst qc)))"
  using assms(3,4)
proof (cases rule: evaluate_tick_cases)
  case (cross sg)
  then show ?thesis using cross_signals_not_tri [OF assms(1,2)] by blast
next
  case (tri sg)
  from tri_signals_mem [OF tri] obtain loops n l qa qb qc where
    l: "tri_loops a (word_of_nat e) = Some loops" "l \<in> set loops"
    and q: "load_quote a (get_index a e (unat (token_a l))) = Some qa"
      "load_quote a (get_index a e (unat (token_b l))) = Some qb"
      "load_quote a (get_index a e (unat (token_c l))) = Some qc"
    and s: "Triangular ex x y z net \<in> set (tri_signal a (fee_lock_tri env n) e mp l qa qb qc)"
    by blast
  note f = tri_signal_sound [OF s]
  have "\<lparr>token_a = x, token_b = y, token_c = z\<rparr> = l" using f by simp
  then have "\<lparr>token_a = x, token_b = y, token_c = z\<rparr> \<in> set loops" using l(2) by (simp only:)
  moreover have "unat ex = e" using f by (simp add: unat_of_nat)
  moreover have "tri_loops a ex = Some loops" using f l(1) by simp
  moreover have "load_quote a (get_index a e (unat x)) = Some qa" "load_quote a (get_index a e (unat y)) = Some qb"
    "load_quote a (get_index a e (unat z)) = Some qc" using f q by simp_all
  ultimately show ?thesis using f by (intro conjI) blast+
qed

section \<open>A tick on a concrete arena\<close>

definition ready_arena :: market_arena where
  "ready_arena = sample_arena
     \<lparr>cross_targets := [\<lparr>target_token = 0, exchange_mask = 3, shared_count = 2\<rparr>], cross_index := [[0], []]\<rparr>"

definition loop_arena :: market_arena where
  "loop_arena =
     \<lparr>matrix = [], bid_prices = [200, 300, 400], ask_prices = [190, 290, 390],
      total_tokens = 3, total_exchanges = 1, cross_targets = [], cross_index = [[], [], []],
      tri_loops = [0 \<mapsto> [\<lparr>token_a = 0, token_b = 1, token_c = 2\<rparr>]], active_tokens = [],
      enabled_cross = True, enabled_tri = True,
      fee_schedule = fee_schedule_new 1 10, fee_aware_enabled = True,
      cross_exchange_mask = - 1, tri_exchange_mask = - 1\<rparr>"

definition free_locks :: tick_env where
  "free_locks = \<lparr>targets_lock = True, index_lock = True, loops_lock = True,
     fee_lock_cross = \<lambda>_ _ _. True, fee_lock_tri = \<lambda>_. True\<rparr>"

lemma ready_arena_wf: "arena_wf ready_arena" "targets_wf ready_arena" "total_tokens ready_arena = 2"
  by (auto simp: arena_wf_def targets_wf_def ready_arena_def sample_arena_def less_2_cases_iff)

lemma loop_arena_wf: "arena_wf loop_arena" "total_tokens loop_arena = 3"
  by (simp_all add: arena_wf_def loop_arena_def)

lemma sample_bits: "trailing_zeros 3 = 0" "trailing_zeros 2 = 1" "clear_bit 0 3 = 2" "clear_bit 1 2 = 0"
  by (simp_all add: trailing_zeros_def upt_conv_Cons clear_bit_def)

lemma sample_pairs: "mask_pairs 3 = [(0, 1)]"
proof -
  have z: "mask_pairs 0 = []" "mask_bits 0 = []" by (subst mask_pairs.simps mask_bits.simps, simp)+
  have "mask_bits 2 = [1]" "mask_pairs 2 = []"
    by (subst mask_bits.simps mask_pairs.simps, simp add: sample_bits [simplified] z)+
  then show ?thesis by (subst mask_pairs.simps) (simp add: sample_bits [simplified])
qed

lemmas tick_defs = evaluate_tick_def cross_signals_def cross_target_signals_def cross_pair_def Let_def
  cross_direction_def get_index_def load_quote_def get_at_def is_sentinel_def max_ratio_def in_mask_def
  saturating_mul_def saturating_sub_def saturating_add_def round_trip_taker_bps_def taker_or_default_def
  fee_schedule_new_def tri_signals_def tri_loop_signals_def tri_signal_def tri_ratio_def checked_mul_def
  tri_leg_taker_bps_def free_locks_def

lemma ready_tick: "evaluate_tick free_locks 0 0 5 5 ready_arena = Some [CrossExchange 0 1 0 1861]"
  by (simp add: tick_defs ready_arena_def sample_arena_def sample_pairs)

lemma loop_tick: "evaluate_tick free_locks 0 1 5 5 loop_arena = Some [Triangular 0 0 1 2 1137]"
  by (simp add: tick_defs loop_arena_def)

theorem arena_never_panics_witness:
  "\<exists>a a' sigs. arena_new 2 2 = Some a \<and>
     try_fold (arena_step rev) a [Price (UpdatePrice 7 0 1 2), BuildFromPresence [(1, [0, 9])], BuildTargets] = Some a' \<and>
     evaluate_tick free_locks 99 12345 5 5 a' = Some sigs"
  by (rule arena_never_panics) simp_all

theorem cross_signal_sound_witness:
  "\<exists>sigs. evaluate_tick free_locks 0 0 5 5 ready_arena = Some sigs \<and> CrossExchange 0 1 0 1861 \<in> set sigs \<and>
     (\<exists>bid ask bid' ask'. clean_quote ready_arena 0 0 bid' ask \<and> clean_quote ready_arena 1 0 bid ask' \<and>
       (1861 + fee_cross ready_arena 0 1) * unat ask \<le> (unat bid - unat ask) * 10000)"
  using cross_signal_sound [OF ready_arena_wf(1,2) _ ready_tick, of 0 1 0 1861] ready_arena_wf(3) ready_tick
  by auto

theorem cross_signal_complete_witness:
  "\<exists>sigs. evaluate_tick free_locks 0 0 5 5 ready_arena = Some sigs \<and> CrossExchange 0 1 0 1861 \<in> set sigs"
proof -
  have n: "net_spread ready_arena 0 1 101 120 = 1861"
    by (simp add: net_spread_def tick_defs ready_arena_def sample_arena_def)
  have q: "clean_quote ready_arena 0 0 100 101" "clean_quote ready_arena 1 0 120 121"
    by (simp_all add: clean_quote_def quote_of_def tick_defs ready_arena_def sample_arena_def)
  have "\<exists>sigs. evaluate_tick free_locks 0 0 5 5 ready_arena = Some sigs \<and>
      CrossExchange (word_of_nat 0) (word_of_nat 1) (target_token (cross_targets ready_arena ! 0))
        (net_spread ready_arena 0 1 101 120) \<in> set sigs"
    by (rule cross_signal_complete [OF ready_arena_wf(1), where bid_b = 100 and ask_s = 121])
      (use q n in \<open>simp_all add: free_locks_def ready_arena_def sample_arena_def max_ratio_def saturating_mul_def\<close>)
  then show ?thesis unfolding n by (simp add: ready_arena_def)
qed

theorem triangular_signal_sound_witness:
  "evaluate_tick free_locks 0 1 5 5 loop_arena = Some [Triangular 0 0 1 2 1137] \<and>
   bit (tri_exchange_mask loop_arena) 0 \<and>
   (11137 + fee_tri loop_arena 0) * (190 * 290 * 390) \<le> 10000 * (200 * 300 * 400)"
proof -
  have q: "load_quote loop_arena (get_index loop_arena 0 0) = Some (200, 190)"
    "load_quote loop_arena (get_index loop_arena 0 (Suc 0)) = Some (300, 290)"
    "load_quote loop_arena (get_index loop_arena 0 2) = Some (400, 390)"
    by (simp_all add: load_quote_def get_index_def get_at_def loop_arena_def)
  show ?thesis
    using triangular_signal_sound [OF loop_arena_wf(1) _ loop_tick, of 0 0 1 2 1137] loop_arena_wf(2) loop_tick
    by (simp add: q)
qed

end
