(* ===== verification/Datafeed.thy ===== *)
theory Datafeed
  imports Strategies_Prices
begin

text \<open>
  The market data feed of \<^verbatim>\<open>src/src/datafeed.rs\<close>: the byte scanner that extracts a token and two prices
  from a ticker message, the splitting of symbols, and the worker that streams messages into the
  arena.  A position \<^verbatim>\<open>i\<close> in a payload is represented by the bytes from \<^verbatim>\<open>i\<close> on, so the guard \<^verbatim>\<open>i < len\<close>
  is the test that this suffix is not empty.
\<close>

section \<open>Numbers\<close>

definition is_ascii_digit :: "char \<Rightarrow> bool" where
  "is_ascii_digit c \<longleftrightarrow> digit_value c \<noteq> None"

definition digit_of :: "char \<Rightarrow> nat" where
  "digit_of c = of_char c - 48"

fun accumulate :: "'a::len word \<Rightarrow> string \<Rightarrow> 'a word option" where
  "accumulate val [] = Some val"
| "accumulate val (c # cs) =
     (case checked_mul val 10 of
        None \<Rightarrow> None
      | Some v \<Rightarrow> (case checked_add v (of_nat (digit_of c)) of None \<Rightarrow> None | Some v' \<Rightarrow> accumulate v' cs))"

definition parse_u16_at :: "string \<Rightarrow> (u16 \<times> string) option" where
  "parse_u16_at bytes =
     (let digits = takeWhile is_ascii_digit bytes
      in if digits = [] then None
         else case accumulate 0 digits of
                None \<Rightarrow> None
              | Some val \<Rightarrow> Some (val, dropWhile is_ascii_digit bytes))"

abbreviation TARGET_DECIMALS :: nat where "TARGET_DECIMALS \<equiv> 9"

text \<open>The first pass: the number's text, its decimal places, and what follows it.\<close>

fun scan_number :: "bool \<Rightarrow> u32 \<Rightarrow> string \<Rightarrow> string \<times> u32 \<times> string" where
  "scan_number dot_seen decimal_places [] = ([], decimal_places, [])"
| "scan_number dot_seen decimal_places (c # cs) =
     (if is_ascii_digit c \<or> c = CHR ''.'' then
        if c = CHR ''.'' then
          if dot_seen then ([], decimal_places, c # cs)
          else (case scan_number True decimal_places cs of (s, p, r) \<Rightarrow> (c # s, p, r))
        else (case scan_number dot_seen (if dot_seen then decimal_places + 1 else decimal_places) cs of
                (s, p, r) \<Rightarrow> (c # s, p, r))
      else ([], decimal_places, c # cs))"

text \<open>The second pass, which skips the dot.\<close>

fun accumulate_skip_dot :: "u64 \<Rightarrow> string \<Rightarrow> u64 option" where
  "accumulate_skip_dot raw_val [] = Some raw_val"
| "accumulate_skip_dot raw_val (c # cs) =
     (if c = CHR ''.'' then accumulate_skip_dot raw_val cs
      else case checked_mul raw_val 10 of
             None \<Rightarrow> None
           | Some v \<Rightarrow>
               (case checked_add v (of_nat (digit_of c)) of None \<Rightarrow> None | Some v' \<Rightarrow> accumulate_skip_dot v' cs))"

definition normalize :: "u64 \<Rightarrow> u32 \<Rightarrow> u64 option" where
  "normalize raw_val decimal_places =
     (if unat decimal_places \<le> TARGET_DECIMALS then
        case checked_pow 10 (TARGET_DECIMALS - unat decimal_places) of
          None \<Rightarrow> None
        | Some v \<Rightarrow> checked_mul raw_val v
      else case checked_pow 10 (unat decimal_places - TARGET_DECIMALS) of
             None \<Rightarrow> None
           | Some divisor \<Rightarrow> Some (raw_val div divisor))"

definition parse_u64_skip_dot :: "string \<Rightarrow> (u64 \<times> string) option" where
  "parse_u64_skip_dot bytes =
     (case scan_number False 0 bytes of (text, decimal_places, rest) \<Rightarrow>
        if text = [] then None
        else case accumulate_skip_dot 0 text of
               None \<Rightarrow> None
             | Some raw_val \<Rightarrow> (case normalize raw_val decimal_places of
                 None \<Rightarrow> None
               | Some normalized \<Rightarrow> Some (normalized, rest)))"

section \<open>Messages\<close>

type_synonym ticker_fields = "u16 option \<times> u64 option \<times> u64 option"

definition is_space :: "char \<Rightarrow> bool" where
  "is_space c \<longleftrightarrow> c = CHR '' '' \<or> c = CHR 0x0A \<or> c = CHR 0x0D \<or> c = CHR 0x09"

text \<open>The arms of \<^verbatim>\<open>match key\<close>; \<open>None\<close> is the early return of the \<^verbatim>\<open>?\<close> operator.\<close>

definition parse_value :: "char \<Rightarrow> string \<Rightarrow> ticker_fields \<Rightarrow> (ticker_fields \<times> string) option" where
  "parse_value key bytes = (\<lambda>(token_id, bid_price, ask_price).
     if key = CHR ''t'' then
       (case parse_u16_at bytes of
          None \<Rightarrow> None | Some (val, next) \<Rightarrow> Some ((Some val, bid_price, ask_price), next))
     else if key = CHR ''b'' then
       (case parse_u64_skip_dot bytes of
          None \<Rightarrow> None | Some (val, next) \<Rightarrow> Some ((token_id, Some val, ask_price), next))
     else if key = CHR ''a'' then
       (case parse_u64_skip_dot bytes of
          None \<Rightarrow> None | Some (val, next) \<Rightarrow> Some ((token_id, bid_price, Some val), next))
     else Some ((token_id, bid_price, ask_price), dropWhile (\<lambda>c. c \<noteq> CHR 0x22) bytes))"

lemma scan_number_rest_shorter: "scan_number d p bytes = (s, q, r) \<Longrightarrow> length r = length bytes - length s \<and> length s \<le> length bytes"
  by (induction d p bytes arbitrary: s q r rule: scan_number.induct) (auto split: if_splits prod.splits)

lemma parse_value_shorter: "parse_value key bytes f = Some (f', r) \<Longrightarrow> length r \<le> length bytes"
  by (auto simp: parse_value_def parse_u16_at_def parse_u64_skip_dot_def Let_def length_dropWhile_le
      dest: scan_number_rest_shorter split: if_splits option.splits prod.splits)

function parse_loop :: "ticker_fields \<Rightarrow> string \<Rightarrow> ticker_fields option" where
  "parse_loop f bytes =
     (case bytes of
        [] \<Rightarrow> Some f
      | c # rest \<Rightarrow>
          if c \<noteq> CHR 0x22 then parse_loop f rest
          else (case rest of
            [] \<Rightarrow> Some f
          | key # rest1 \<Rightarrow>
              (case rest1 of
                 [] \<Rightarrow> parse_loop f rest1
               | q # rest2 \<Rightarrow>
                   if q \<noteq> CHR 0x22 then parse_loop f rest1
                   else (case rest2 of
                     [] \<Rightarrow> parse_loop f rest2
                   | colon # rest3 \<Rightarrow>
                       if colon \<noteq> CHR '':'' then parse_loop f rest2
                       else let val = dropWhile is_space rest3
                            in if val = [] then Some f
                               else (case parse_value key val f of
                                       None \<Rightarrow> None
                                     | Some (f', next) \<Rightarrow> parse_loop f' next)))))"
  by pat_completeness auto
termination
proof (relation "measure (length \<circ> snd)", goal_cases)
  case (7 f bytes c rest key rest1 q rest2 colon rest3 val r f' nxt)
  have "length nxt \<le> length val" using parse_value_shorter 7 by blast
  also have "\<dots> \<le> length rest3" using 7 by (simp add: length_dropWhile_le)
  finally show ?case using 7 by auto
qed auto

declare parse_loop.simps [simp del]

definition parse_raw_bytes_fast :: "string \<Rightarrow> (u16 \<times> u64 \<times> u64) option" where
  "parse_raw_bytes_fast payload =
     (case parse_loop (None, None, None) payload of
        Some (Some t, Some b, Some a) \<Rightarrow> Some (t, b, a)
      | _ \<Rightarrow> None)"


section \<open>Symbols\<close>

definition KNOWN_QUOTES :: "string list" where
  "KNOWN_QUOTES = [''USDT'', ''USDC'', ''BUSD'', ''BTC'', ''ETH'', ''BNB'',
                   ''USD'', ''TUSD'', ''DAI'', ''EUR'', ''GBP'']"

definition strip_suffix :: "string \<Rightarrow> string \<Rightarrow> string option" where
  "strip_suffix s suf =
     (if is_prefix_of (rev suf) (rev s) then Some (take (length s - length suf) s) else None)"

definition splits_at :: "string \<Rightarrow> string \<Rightarrow> bool" where
  "splits_at s quote = (case strip_suffix s quote of None \<Rightarrow> False | Some base \<Rightarrow> base \<noteq> [])"

definition split_base_quote :: "string \<Rightarrow> string \<times> string" where
  "split_base_quote s =
     (case find (splits_at s) KNOWN_QUOTES of
        None \<Rightarrow> (s, [])
      | Some quote \<Rightarrow> (take (length s - length quote) s, quote))"

section \<open>The worker\<close>

abbreviation WS_MAX_MESSAGE_SIZE :: nat where "WS_MAX_MESSAGE_SIZE \<equiv> 65536"
abbreviation BASE_DELAY_SECS :: u64 where "BASE_DELAY_SECS \<equiv> 1"
abbreviation MAX_DELAY_SECS :: u64 where "MAX_DELAY_SECS \<equiv> 30"
abbreviation MAX_CONSECUTIVE_FAILURES :: u32 where "MAX_CONSECUTIVE_FAILURES \<equiv> 50"

text \<open>
  The worker's effects: the shared arena, the heartbeats recorded through the optional handle, and
  the delays it slept.  \<open>hb\<close> says whether a handle is attached.
\<close>

record feed_worker =
  fw_arena :: market_arena
  fw_heartbeats :: "u16 list"
  fw_sleeps :: "nat list"

datatype ws_message = WsText string | WsClose | WsOther | WsError

datatype connect_result = Connected "ws_message list" | ConnectFailed | ConnectTimedOut

definition on_text :: "u16 \<Rightarrow> bool \<Rightarrow> string \<Rightarrow> feed_worker \<Rightarrow> feed_worker option" where
  "on_text ex hb text w =
     (if WS_MAX_MESSAGE_SIZE < length text then Some w
      else case parse_raw_bytes_fast text of
             None \<Rightarrow> Some w
           | Some (token_id, bid, ask) \<Rightarrow>
               (case update_price (unat ex) (unat token_id) bid ask (fw_arena w) of
                  None \<Rightarrow> None
                | Some a \<Rightarrow> Some (w\<lparr>fw_arena := a,
                                  fw_heartbeats := (if hb then fw_heartbeats w @ [ex] else fw_heartbeats w)\<rparr>)))"

text \<open>
  The read loop over the messages of one connection; the flag says that a close frame made the
  worker return.
\<close>

fun read_loop :: "u16 \<Rightarrow> bool \<Rightarrow> ws_message list \<Rightarrow> feed_worker \<Rightarrow> (bool \<times> feed_worker) option" where
  "read_loop ex hb [] w = Some (False, w)"
| "read_loop ex hb (WsText text # ms) w =
     (case on_text ex hb text w of None \<Rightarrow> None | Some w' \<Rightarrow> read_loop ex hb ms w')"
| "read_loop ex hb (WsClose # ms) w = Some (True, w)"
| "read_loop ex hb (WsOther # ms) w = read_loop ex hb ms w"
| "read_loop ex hb (WsError # ms) w = Some (False, w)"

definition drop_prices :: "u16 \<Rightarrow> feed_worker \<Rightarrow> feed_worker option" where
  "drop_prices ex w =
     (case invalidate_exchange (unat ex) (fw_arena w) of None \<Rightarrow> None | Some a \<Rightarrow> Some (w\<lparr>fw_arena := a\<rparr>))"

text \<open>
  The delay before a new attempt.  The jittered delay is floating-point arithmetic on a random
  number; \<open>jitter\<close> is that product in whole seconds.
\<close>

definition base_delay :: "u32 \<Rightarrow> u64" where
  "base_delay consecutive_failures =
     min (push_bit (unat (saturating_sub consecutive_failures 1) mod 64) BASE_DELAY_SECS) MAX_DELAY_SECS"

definition delay_secs :: "(u64 \<Rightarrow> nat) \<Rightarrow> u32 \<Rightarrow> nat" where
  "delay_secs jitter consecutive_failures =
     max (min (jitter (base_delay consecutive_failures)) (unat MAX_DELAY_SECS)) 1"

definition connect_failed :: "(u64 \<Rightarrow> nat) \<Rightarrow> u16 \<Rightarrow> u32 \<Rightarrow> feed_worker \<Rightarrow> (bool \<times> feed_worker) option" where
  "connect_failed jitter ex consecutive_failures w =
     (case drop_prices ex w of
        None \<Rightarrow> None
      | Some w' \<Rightarrow>
          if MAX_CONSECUTIVE_FAILURES < consecutive_failures then Some (True, w')
          else Some (False, w'\<lparr>fw_sleeps := fw_sleeps w' @ [delay_secs jitter consecutive_failures]\<rparr>))"

text \<open>
  The outer loop over the outcomes of the connection attempts.  It returns whether the worker has
  returned, the worker, and the attempts it has not made.  After a connected stream ends, the
  \<^verbatim>\<open>break\<close> leaves this loop: the statements that follow the \<^verbatim>\<open>match\<close> are not reachable.
\<close>

fun start_streaming ::
  "(u64 \<Rightarrow> nat) \<Rightarrow> u16 \<Rightarrow> bool \<Rightarrow> u32 \<Rightarrow> connect_result list \<Rightarrow> feed_worker \<Rightarrow>
   (bool \<times> feed_worker \<times> connect_result list) option" where
  "start_streaming jitter ex hb failures [] w = Some (False, w, [])"
| "start_streaming jitter ex hb failures (r # rs) w =
     (case r of
        Connected ms \<Rightarrow>
          (case read_loop ex hb ms w of
             None \<Rightarrow> None
           | Some (got_close, w') \<Rightarrow>
               if got_close then Some (True, w', rs)
               else (case drop_prices ex w' of None \<Rightarrow> None | Some w'' \<Rightarrow> Some (True, w'', rs)))
      | _ \<Rightarrow>
          (case connect_failed jitter ex (failures + 1) w of
             None \<Rightarrow> None
           | Some (gave_up, w') \<Rightarrow>
               if gave_up then Some (True, w', rs)
               else start_streaming jitter ex hb (failures + 1) rs w'))"


section \<open>What the price parser computes\<close>

definition stops :: "string \<Rightarrow> bool" where
  "stops r \<longleftrightarrow> (case r of [] \<Rightarrow> True | c # _ \<Rightarrow> \<not> is_ascii_digit c)"

text \<open>The number that a string of digits denotes.\<close>

definition append_digits :: "nat \<Rightarrow> string \<Rightarrow> nat" where
  "append_digits n ds = foldl (\<lambda>n c. 10 * n + digit_of c) n ds"

abbreviation number :: "string \<Rightarrow> nat" where "number \<equiv> append_digits 0"

lemma append_digits_simps [simp]:
  "append_digits n [] = n" "append_digits n (c # cs) = append_digits (10 * n + digit_of c) cs"
  "append_digits n (ds @ es) = append_digits (append_digits n ds) es"
  by (simp_all add: append_digits_def)

lemma append_digits_ge: "n \<le> append_digits n ds"
proof (induction ds arbitrary: n)
  case (Cons c cs)
  from Cons [of "10 * n + digit_of c"] show ?case by simp
qed simp

lemma digit_of_le: "is_ascii_digit c \<Longrightarrow> digit_of c \<le> 9"
  by (auto simp: is_ascii_digit_def digit_value_def digit_of_def Let_def split: if_splits)

lemma dot_no_digit [simp]: "\<not> is_ascii_digit CHR ''.''"
  by (simp add: is_ascii_digit_def digit_value_def)

lemma unat_of_nat_eq: "n < 2 ^ LENGTH('a) \<Longrightarrow> unat (of_nat n :: 'a::len word) = n"
  by (simp add: unat_of_nat)

lemma accumulate_exact:
  assumes "list_all is_ascii_digit ds" and "8 \<le> LENGTH('a::len)"
  shows "accumulate (v::'a word) ds =
    (if append_digits (unat v) ds < 2 ^ LENGTH('a) then Some (of_nat (append_digits (unat v) ds)) else None)"
  using assms(1)
proof (induction ds arbitrary: v)
  case (Cons c cs)
  let ?n = "10 * unat v + digit_of c"
  have big: "(256::nat) \<le> 2 ^ LENGTH('a)"
    using power_increasing [OF assms(2), of "2::nat"] by simp
  have ten: "take_bit LENGTH('a) (10::nat) = 10" "unat (of_nat (digit_of c) :: 'a word) = digit_of c"
    using big digit_of_le [of c] Cons.prems by (simp_all add: unat_of_nat take_bit_eq_mod)
  show ?case
  proof (cases "?n < 2 ^ LENGTH('a)")
    case True
    have m: "checked_mul v 10 = Some (v * 10)" "unat (v * 10) = unat v * 10"
      using True by (simp_all add: checked_mul_def ten unat_word_ariths)
    have a: "checked_add (v * 10) (of_nat (digit_of c)) = Some (of_nat ?n)" "unat (of_nat ?n :: 'a word) = ?n"
      using True by (simp_all add: checked_add_eq_Some ten m(2) unat_of_nat_eq del: of_nat_add of_nat_mult)
    show ?thesis using Cons.IH [of "of_nat ?n"] Cons.prems by (simp add: m(1) a del: of_nat_add of_nat_mult)
  next
    case False
    then have "\<not> append_digits (unat v) (c # cs) < 2 ^ LENGTH('a)" using append_digits_ge [of ?n cs] by simp
    moreover have "checked_add w (of_nat (digit_of c)) = None" if "checked_mul v 10 = Some w" for w
      using that False by (simp add: checked_mul_eq_Some ten checked_add_def)
    ultimately show ?thesis by (simp split: option.split)
  qed
qed simp

lemma accumulate_skip_dot_filter: "accumulate_skip_dot v s = accumulate v (filter (\<lambda>c. c \<noteq> CHR ''.'') s)"
  by (induction v s rule: accumulate_skip_dot.induct) (auto split: option.split)


text \<open>
  The grammar of the scanner: digits, then possibly a dot and further digits.  \<open>split_number\<close> reads
  the integer digits, the fraction digits if there is a dot, and the rest.
\<close>

definition split_number :: "string \<Rightarrow> string \<times> string option \<times> string" where
  "split_number bytes =
     (let whole = takeWhile is_ascii_digit bytes; r = dropWhile is_ascii_digit bytes
      in case r of
           [] \<Rightarrow> (whole, None, r)
         | c # cs \<Rightarrow> if c = CHR ''.'' then (whole, Some (takeWhile is_ascii_digit cs), dropWhile is_ascii_digit cs)
                    else (whole, None, r))"

lemma scan_digits:
  "list_all is_ascii_digit ds \<Longrightarrow> scan_number d p (ds @ r) =
    (case scan_number d (if d then p + of_nat (length ds) else p) r of (s, q, r') \<Rightarrow> (ds @ s, q, r'))"
  by (induction ds arbitrary: p) (auto split: prod.split simp: add_ac)

lemma scan_stops: "stops r \<Longrightarrow> (d \<or> r = [] \<or> hd r \<noteq> CHR ''.'') \<Longrightarrow> scan_number d p r = ([], p, r)"
  by (cases r) (auto simp: stops_def)

lemma stops_dropWhile: "stops (dropWhile is_ascii_digit bytes)"
  by (auto simp: stops_def split: list.split dest: hd_dropWhile)
    (metis dropWhile_eq_Cons_conv)

lemma takeWhile_digits: "list_all is_ascii_digit (takeWhile is_ascii_digit bytes)"
  by (auto simp: list_all_iff dest: set_takeWhileD)

lemma scan_number_split:
  "scan_number False 0 bytes = (case split_number bytes of (whole, frac, rest) \<Rightarrow>
     (case frac of None \<Rightarrow> (whole, 0, rest)
      | Some ds \<Rightarrow> (whole @ CHR ''.'' # ds, of_nat (length ds), rest)))"
proof -
  let ?w = "takeWhile is_ascii_digit bytes" and ?r = "dropWhile is_ascii_digit bytes"
  have w: "scan_number False 0 bytes = (case scan_number False 0 ?r of (s, q, r') \<Rightarrow> (?w @ s, q, r'))"
    using scan_digits [OF takeWhile_digits, of False 0 bytes ?r] by simp
  show ?thesis
  proof (cases "\<exists>cs. ?r = CHR ''.'' # cs")
    case True
    then obtain cs where r: "?r = CHR ''.'' # cs" by blast
    have "scan_number True 0 cs =
        (takeWhile is_ascii_digit cs, of_nat (length (takeWhile is_ascii_digit cs)), dropWhile is_ascii_digit cs)"
      using scan_digits [OF takeWhile_digits, of True 0 cs "dropWhile is_ascii_digit cs"]
      by (simp add: scan_stops stops_dropWhile)
    then show ?thesis by (simp add: w r split_number_def Let_def)
  next
    case False
    then have "scan_number False 0 ?r = ([], 0, ?r)"
      by (intro scan_stops stops_dropWhile) (metis list.collapse)
    with False w show ?thesis by (auto simp: split_number_def Let_def split: list.split)
  qed
qed

text \<open>
  The specification: the exact value, in units of \<open>10\<^sup>-\<^sup>9\<close> rounded down, when the digits fit in 64 bits, the
  result fits, and at most 28 decimal places are given.
\<close>

definition price_spec :: "string \<Rightarrow> (u64 \<times> string) option" where
  "price_spec bytes = (case split_number bytes of (whole, frac, rest) \<Rightarrow>
     let ds = (case frac of None \<Rightarrow> [] | Some ds \<Rightarrow> ds); places = length ds; n = number (whole @ ds)
     in if (whole = [] \<and> frac = None) \<or> 2 ^ 64 \<le> n \<or> 28 < places \<or> 2 ^ 64 \<le> n * 10 ^ 9 div 10 ^ places then None
        else Some (of_nat (n * 10 ^ 9 div 10 ^ places), rest))"

lemma billion: "(10::nat) ^ 9 = 1000000000"
  by simp

lemma scale_down: "9 < places \<Longrightarrow> n * 1000000000 div 10 ^ places = n div 10 ^ (places - 9)" for n places :: nat
proof -
  assume "9 < places"
  then have "(10::nat) ^ places = 10 ^ (9 + (places - 9))" by simp
  also have "\<dots> = 1000000000 * 10 ^ (places - 9)" by (simp only: power_add billion)
  finally show ?thesis by (simp add: div_mult2_eq)
qed

lemma scale_up: "places \<le> 9 \<Longrightarrow> n * 1000000000 div 10 ^ places = n * 10 ^ (9 - places)" for n places :: nat
proof -
  assume "places \<le> 9"
  then have "(10::nat) ^ (9 - places) * 10 ^ places = 10 ^ 9" by (simp only: le_add_diff_inverse2 flip: power_add)
  then have "n * 1000000000 = n * 10 ^ (9 - places) * 10 ^ places" by simp
  then show ?thesis by (simp only: nonzero_mult_div_cancel_right [OF power_not_zero])
qed

lemma pow_ten_fits: "(10::nat) ^ k < 2 ^ 64 \<longleftrightarrow> k \<le> 19"
proof
  assume "(10::nat) ^ k < 2 ^ 64"
  show "k \<le> 19"
  proof (rule ccontr)
    assume "\<not> k \<le> 19"
    then have "(10::nat) ^ 20 \<le> 10 ^ k" by (intro power_increasing) auto
    with \<open>10 ^ k < 2 ^ 64\<close> show False by simp
  qed
next
  assume "k \<le> 19"
  then have "(10::nat) ^ k \<le> 10 ^ 19" by (intro power_increasing) auto
  then show "(10::nat) ^ k < 2 ^ 64" by simp
qed

lemma checked_pow_ten: "checked_pow (10::u64) k = (if k \<le> 19 then Some (of_nat (10 ^ k)) else None)"
  using pow_ten_fits [of k] by (simp add: checked_pow_def)

lemma normalize_exact:
  assumes "n < 2 ^ 64" and "places < 2 ^ 32"
  shows "normalize (of_nat n) (of_nat places) =
    (if 28 < places \<or> 2 ^ 64 \<le> n * 10 ^ 9 div 10 ^ places then None else Some (of_nat (n * 10 ^ 9 div 10 ^ places)))"
proof -
  have p: "unat (of_nat places :: u32) = places" and n: "unat (of_nat n :: u64) = n"
    using assms by (simp_all add: unat_of_nat)
  show ?thesis
  proof (cases "places \<le> 9")
    case True
    have t: "unat (of_nat (10 ^ (9 - places)) :: u64) = 10 ^ (9 - places)"
      using pow_ten_fits [of "9 - places"] by (intro unat_of_nat_eq) simp
    have f: "9 - places \<le> 19" by simp
    from True show ?thesis
      by (simp add: normalize_def p f checked_pow_ten checked_mul_def n t scale_up del: of_nat_power)
  next
    case False
    show ?thesis
    proof (cases "places \<le> 28")
      case True
      have t: "unat (of_nat (10 ^ (places - 9)) :: u64) = 10 ^ (places - 9)"
        using pow_ten_fits [of "places - 9"] True by (intro unat_of_nat_eq) simp
      have l: "n div 10 ^ (places - 9) < 2 ^ 64" using assms(1) div_le_dividend le_less_trans by blast
      have "(of_nat n :: u64) div of_nat (10 ^ (places - 9)) = of_nat (n div 10 ^ (places - 9))"
        using l by (simp only: word_unat_eq_iff unat_div t n) (simp add: unat_of_nat)
      with False True l show ?thesis
        by (simp add: normalize_def p checked_pow_ten scale_down del: of_nat_power)
    next
      case False
      then show ?thesis by (simp add: normalize_def p checked_pow_ten)
    qed
  qed
qed


lemma parse_u64_skip_dot_spec:
  assumes "\<And>whole ds rest. split_number bytes = (whole, Some ds, rest) \<Longrightarrow> length ds < 2 ^ 32"
  shows "parse_u64_skip_dot bytes = price_spec bytes"
proof -
  obtain whole fr rest where s: "split_number bytes = (whole, fr, rest)" by (metis prod_cases3)
  define ds where "ds = (case fr of None \<Rightarrow> [] | Some ds \<Rightarrow> ds)"
  have len: "length ds < 2 ^ 32" using assms s by (auto simp: ds_def split: option.split)
  have dig: "list_all is_ascii_digit (whole @ ds)"
    using s takeWhile_digits by (auto simp: ds_def split_number_def Let_def split: list.splits if_splits)
  have "c \<noteq> CHR ''.''" if "c \<in> set (whole @ ds)" for c using dig that dot_no_digit by (metis list_all_iff)
  then have "filter (\<lambda>c. c \<noteq> CHR ''.'') (whole @ ds) = whole @ ds" by (intro filter_True) blast
  then have acc: "accumulate_skip_dot 0 (whole @ ds) =
      (if number (whole @ ds) < 2 ^ 64 then Some (of_nat (number (whole @ ds))) else None)"
    "accumulate_skip_dot 0 (whole @ CHR ''.'' # ds) = accumulate_skip_dot 0 (whole @ ds)"
    using accumulate_exact [OF dig, where 'a = 64] by (simp_all add: accumulate_skip_dot_filter)
  have none: "fr = None \<Longrightarrow> ds = []" "fr = Some es \<Longrightarrow> es = ds" for es by (simp_all add: ds_def)
  show ?thesis
  proof (cases "number (whole @ ds) < 2 ^ 64")
    case True
    from normalize_exact [OF this len] acc True none show ?thesis
      by (cases fr) (auto simp: parse_u64_skip_dot_def price_spec_def scan_number_split s Let_def)
  next
    case False
    with acc none show ?thesis
      by (cases fr) (auto simp: parse_u64_skip_dot_def price_spec_def scan_number_split s Let_def)
  qed
qed


text \<open>
  C12: the price parser is exact.  For every text whose fraction has fewer than \<open>2\<^sup>3\<^sup>2\<close> digits it returns the
  decimal number at its start, in units of \<open>10\<^sup>-\<^sup>9\<close> rounded down, together with the text after it; it
  refuses, rather than wrap around, when there is no number, when the digits or the result do not fit in 64 bits,
  and when more than 28 decimal places are given.
\<close>

theorem price_parse_exact:
  assumes "\<And>whole ds rest. split_number bytes = (whole, Some ds, rest) \<Longrightarrow> length ds < 2 ^ 32"
  shows "parse_u64_skip_dot bytes = price_spec bytes"
  using assms by (rule parse_u64_skip_dot_spec)

theorem price_parse_exact_witness:
  "parse_u64_skip_dot ''50000.50,'' = Some (50000500000000, '','') \<and>
   parse_u64_skip_dot ''5000.050,'' = Some (5000050000000, '','') \<and>
   parse_u64_skip_dot ''99999999999'' = None"
proof -
  have "parse_u64_skip_dot ''50000.50,'' = price_spec ''50000.50,''"
    by (rule price_parse_exact) (simp add: split_number_def is_ascii_digit_def digit_value_def)
  moreover have "parse_u64_skip_dot ''5000.050,'' = price_spec ''5000.050,''"
    by (rule price_parse_exact) (simp add: split_number_def is_ascii_digit_def digit_value_def)
  moreover have "parse_u64_skip_dot ''99999999999'' = price_spec ''99999999999''"
    by (rule price_parse_exact) (simp add: split_number_def is_ascii_digit_def digit_value_def)
  ultimately show ?thesis
    by (simp add: price_spec_def split_number_def is_ascii_digit_def digit_value_def digit_of_def)
qed

section \<open>Round trip\<close>

definition digit_char :: "nat \<Rightarrow> char" where
  "digit_char d = char_of (48 + d)"

fun show_nat :: "nat \<Rightarrow> string" where
  "show_nat n = (if n < 10 then [digit_char n] else show_nat (n div 10) @ [digit_char (n mod 10)])"

declare show_nat.simps [simp del]

fun show_fixed :: "nat \<Rightarrow> nat \<Rightarrow> string" where
  "show_fixed 0 n = []"
| "show_fixed (Suc k) n = show_fixed k (n div 10) @ [digit_char (n mod 10)]"

text \<open>A price printed with nine decimals, and a ticker message.\<close>

definition show_price :: "u64 \<Rightarrow> string" where
  "show_price p = show_nat (unat p div 10 ^ 9) @ ''.'' @ show_fixed 9 (unat p mod 10 ^ 9)"

definition ticker_message :: "u16 \<Rightarrow> u64 \<Rightarrow> u64 \<Rightarrow> string" where
  "ticker_message t b a =
     [CHR ''{'', CHR 0x22, CHR ''t'', CHR 0x22, CHR '':''] @ show_nat (unat t) @
     [CHR '','', CHR 0x22, CHR ''b'', CHR 0x22, CHR '':'', CHR '' ''] @ show_price b @
     [CHR '','', CHR 0x22, CHR ''a'', CHR 0x22, CHR '':'', CHR '' ''] @ show_price a @ [CHR ''}'']"

lemma digit_char [simp]:
  "d < 10 \<Longrightarrow> is_ascii_digit (digit_char d)" "d < 10 \<Longrightarrow> digit_of (digit_char d) = d"
  by (simp_all add: is_ascii_digit_def digit_value_def digit_char_def digit_of_def Let_def)

lemma show_nat_digits: "list_all is_ascii_digit (show_nat n)" "show_nat n \<noteq> []"
  by (induction n rule: show_nat.induct) (auto simp: show_nat.simps)

lemma append_digits_show_nat: "number (show_nat n) = n"
  by (induction n rule: show_nat.induct) (auto simp: show_nat.simps)

lemma show_fixed_digits: "list_all is_ascii_digit (show_fixed k n)" "length (show_fixed k n) = k"
  by (induction k n rule: show_fixed.induct) auto

lemma append_digits_show_fixed: "append_digits m (show_fixed k n) = m * 10 ^ k + n mod 10 ^ k"
proof (induction k n arbitrary: m rule: show_fixed.induct)
  case (2 k n)
  have "n mod 10 ^ Suc k = 10 * (n div 10 mod 10 ^ k) + n mod 10"
    using mod_mult2_eq [of n 10 "10 ^ k"] by simp
  with 2 show ?case by (simp add: algebra_simps)
qed simp

lemma takeWhile_dropWhile_digits:
  "list_all is_ascii_digit ds \<Longrightarrow> stops r \<Longrightarrow>
   takeWhile is_ascii_digit (ds @ r) = ds \<and> dropWhile is_ascii_digit (ds @ r) = r"
  by (induction ds) (auto simp: stops_def split: list.splits)

lemma parse_u16_show:
  assumes "stops r" shows "parse_u16_at (show_nat (unat t) @ r) = Some (t, r)"
proof -
  have "accumulate (0::u16) (show_nat (unat t)) = Some t"
    using accumulate_exact [OF show_nat_digits(1), where 'a = 16, of 0 "unat t"] unat_less_2p [of t]
    by (simp add: append_digits_show_nat)
  then show ?thesis
    using takeWhile_dropWhile_digits [OF show_nat_digits(1) assms, of "unat t"] show_nat_digits(2)
    by (simp add: parse_u16_at_def Let_def)
qed

lemma parse_price_show:
  assumes "stops r" shows "parse_u64_skip_dot (show_price p @ r) = Some (p, r)"
proof -
  let ?w = "show_nat (unat p div 10 ^ 9)" and ?f = "show_fixed 9 (unat p mod 10 ^ 9)"
  have s: "split_number (show_price p @ r) = (?w, Some ?f, r)"
    using takeWhile_dropWhile_digits [OF show_nat_digits(1), of "''.'' @ ?f @ r" "unat p div 10 ^ 9"]
      takeWhile_dropWhile_digits [OF show_fixed_digits(1) assms, of 9 "unat p mod 10 ^ 9"]
    by (simp add: split_number_def show_price_def stops_def Let_def)
  have n: "number (?w @ ?f) = unat p"
    by (simp add: append_digits_show_nat append_digits_show_fixed)
  have "parse_u64_skip_dot (show_price p @ r) = price_spec (show_price p @ r)"
    by (rule parse_u64_skip_dot_spec) (simp add: s show_fixed_digits(2))
  also have "\<dots> = Some (p, r)"
    using unat_less_2p [of p] unfolding price_spec_def s
    by (simp only: prod.case option.case Let_def n show_fixed_digits(2)) simp
  finally show ?thesis .
qed


lemma parse_loop_skip: "c \<noteq> CHR 0x22 \<Longrightarrow> parse_loop f (c # cs) = parse_loop f cs"
  by (simp add: parse_loop.simps [of f "c # cs"])

lemma parse_loop_field:
  "val = dropWhile is_space cs \<Longrightarrow> val \<noteq> [] \<Longrightarrow> parse_value key val f = Some (f', r) \<Longrightarrow>
   parse_loop f (CHR 0x22 # key # CHR 0x22 # CHR '':'' # cs) = parse_loop f' r"
  by (subst parse_loop.simps) (auto simp: Let_def)

lemma digit_no_space: "is_ascii_digit c \<Longrightarrow> \<not> is_space c"
  by (auto simp: is_ascii_digit_def is_space_def digit_value_def Let_def)

lemma dropWhile_space_digits:
  "list_all is_ascii_digit ds \<Longrightarrow> ds \<noteq> [] \<Longrightarrow> dropWhile is_space (ds @ r) = ds @ r"
  by (cases ds) (auto simp: digit_no_space)

lemma dropWhile_space_price: "dropWhile is_space (show_price p @ r) = show_price p @ r"
  using dropWhile_space_digits [OF show_nat_digits] by (simp add: show_price_def)

lemma stops_simps [simp]: "stops (CHR '','' # cs)" "stops (CHR ''}'' # cs)"
  by (simp_all add: stops_def is_ascii_digit_def digit_value_def)

lemma show_price_nonempty: "show_price p \<noteq> []"
  by (simp add: show_price_def)

lemma parse_loop_token:
  "stops r \<Longrightarrow> parse_loop (x, y, z) (CHR 0x22 # CHR ''t'' # CHR 0x22 # CHR '':'' # show_nat (unat t) @ r) =
    parse_loop (Some t, y, z) r"
  by (rule parse_loop_field [OF refl])
    (auto simp: dropWhile_space_digits show_nat_digits parse_value_def parse_u16_show)

lemma parse_loop_price:
  assumes "stops r"
  shows "parse_loop (x, y, z) (CHR 0x22 # CHR ''b'' # CHR 0x22 # CHR '':'' # CHR '' '' # show_price p @ r) =
      parse_loop (x, Some p, z) r"
    and "parse_loop (x, y, z) (CHR 0x22 # CHR ''a'' # CHR 0x22 # CHR '':'' # CHR '' '' # show_price p @ r) =
      parse_loop (x, y, Some p) r"
proof -
  have "dropWhile is_space (CHR '' '' # show_price p @ r) = show_price p @ r"
    by (simp add: is_space_def dropWhile_space_price)
  note parse_loop_field [OF this [symmetric]]
  then show "parse_loop (x, y, z) (CHR 0x22 # CHR ''b'' # CHR 0x22 # CHR '':'' # CHR '' '' # show_price p @ r) =
      parse_loop (x, Some p, z) r"
    and "parse_loop (x, y, z) (CHR 0x22 # CHR ''a'' # CHR 0x22 # CHR '':'' # CHR '' '' # show_price p @ r) =
      parse_loop (x, y, Some p) r"
    using assms by (simp_all add: show_price_nonempty parse_value_def parse_price_show)
qed

text \<open>
  C13: parsing inverts printing.  For every token and every pair of 64-bit prices, the ticker
  message that carries them with nine decimals is parsed back to exactly them.
\<close>

theorem ticker_roundtrip: "parse_raw_bytes_fast (ticker_message t b a) = Some (t, b, a)"
proof -
  have "parse_loop f [CHR ''}''] = Some f" for f by (simp add: parse_loop_skip parse_loop.simps [of f "[]"])
  then show ?thesis
    by (simp add: parse_raw_bytes_fast_def ticker_message_def parse_loop_skip parse_loop_token parse_loop_price)
qed


section \<open>What the worker does to the arena\<close>

text \<open>The price operations that a message, a connection and a sequence of attempts stand for.\<close>

definition text_ops :: "u16 \<Rightarrow> string \<Rightarrow> price_op list" where
  "text_ops ex text =
     (if WS_MAX_MESSAGE_SIZE < length text then []
      else case parse_raw_bytes_fast text of
             None \<Rightarrow> [] | Some (t, bid, ask) \<Rightarrow> [UpdatePrice (unat ex) (unat t) bid ask])"

fun stream_ops :: "u16 \<Rightarrow> ws_message list \<Rightarrow> price_op list" where
  "stream_ops ex [] = [InvalidateExchange (unat ex)]"
| "stream_ops ex (WsText text # ms) = text_ops ex text @ stream_ops ex ms"
| "stream_ops ex (WsClose # ms) = []"
| "stream_ops ex (WsOther # ms) = stream_ops ex ms"
| "stream_ops ex (WsError # ms) = [InvalidateExchange (unat ex)]"

fun is_update :: "price_op \<Rightarrow> bool" where
  "is_update (UpdatePrice e t b a) = True"
| "is_update _ = False"

definition worker_does :: "u16 \<Rightarrow> bool \<Rightarrow> price_op list \<Rightarrow> nat list \<Rightarrow> feed_worker \<Rightarrow> feed_worker \<Rightarrow> bool" where
  "worker_does ex hb ops ss w w' \<longleftrightarrow>
     arena_wf (fw_arena w') \<and> quote_of (fw_arena w') = foldl table_step (quote_of (fw_arena w)) ops \<and>
     fw_heartbeats w' = fw_heartbeats w @ replicate (if hb then length (filter is_update ops) else 0) ex \<and>
     fw_sleeps w' = fw_sleeps w @ ss"

lemma worker_does_wf: "worker_does ex hb ops ss w w' \<Longrightarrow> arena_wf (fw_arena w')"
  by (simp add: worker_does_def)

lemma worker_does_trans:
  "worker_does ex hb ops ss w w' \<Longrightarrow> worker_does ex hb ops' ss' w' w'' \<Longrightarrow>
   worker_does ex hb (ops @ ops') (ss @ ss') w w''"
  by (simp add: worker_does_def replicate_add)

lemma on_text_does:
  assumes "arena_wf (fw_arena w)"
  shows "\<exists>w'. on_text ex hb text w = Some w' \<and> worker_does ex hb (text_ops ex text) [] w w'"
proof (cases "WS_MAX_MESSAGE_SIZE < length text \<or> parse_raw_bytes_fast text = None")
  case True
  with assms show ?thesis by (auto simp: on_text_def text_ops_def worker_does_def)
next
  case False
  then obtain t bid ask where p: "parse_raw_bytes_fast text = Some (t, bid, ask)" by auto
  from price_step_refines [OF assms, of "UpdatePrice (unat ex) (unat t) bid ask"] obtain a where
    a: "update_price (unat ex) (unat t) bid ask (fw_arena w) = Some a" "arena_wf a"
      "quote_of a = table_step (quote_of (fw_arena w)) (UpdatePrice (unat ex) (unat t) bid ask)" by auto
  with p False show ?thesis by (simp add: on_text_def text_ops_def worker_does_def)
qed

lemma drop_prices_does:
  assumes "arena_wf (fw_arena w)"
  shows "\<exists>w'. drop_prices ex w = Some w' \<and> worker_does ex hb [InvalidateExchange (unat ex)] [] w w'"
  using price_step_refines [OF assms, of "InvalidateExchange (unat ex)"]
  by (auto simp: drop_prices_def worker_does_def)

lemma connection_does:
  assumes "arena_wf (fw_arena w)"
  shows "\<exists>got_close w1 w2. read_loop ex hb ms w = Some (got_close, w1) \<and>
    (if got_close then w2 = w1 else drop_prices ex w1 = Some w2) \<and> worker_does ex hb (stream_ops ex ms) [] w w2"
  using assms
proof (induction ex hb ms w rule: read_loop.induct)
  case (2 ex hb m ms w)
  from on_text_does [OF 2(2)] obtain w' where
    w': "on_text ex hb m w = Some w'" "worker_does ex hb (text_ops ex m) [] w w'" by blast
  from 2(1) [OF w'(1) worker_does_wf [OF w'(2)]] worker_does_trans [OF w'(2)] w'(1) show ?case by fastforce
next
  case (3 ex hb ms w)
  then show ?case by (intro exI [of _ True]) (auto simp: worker_does_def)
qed (use drop_prices_does in auto)

lemma delay_bounds: "1 \<le> delay_secs jitter f \<and> delay_secs jitter f \<le> 30"
  by (auto simp: delay_secs_def)


text \<open>The attempts that fail before the first connection.\<close>

definition failed :: "connect_result \<Rightarrow> bool" where
  "failed r \<longleftrightarrow> (case r of Connected ms \<Rightarrow> False | _ \<Rightarrow> True)"

lemma connect_failed_does:
  assumes "arena_wf (fw_arena w)"
  shows "\<exists>w' ss. connect_failed jitter ex f w = Some (50 < f, w') \<and>
    worker_does ex hb [InvalidateExchange (unat ex)] ss w w' \<and>
    (if 50 < f then ss = [] else \<exists>d. ss = [d] \<and> 1 \<le> d \<and> d \<le> 30)"
proof -
  from drop_prices_does [OF assms] obtain w' where
    w': "drop_prices ex w = Some w'" "worker_does ex hb [InvalidateExchange (unat ex)] [] w w'" by blast
  show ?thesis
  proof (cases "50 < f")
    case True
    with w' show ?thesis by (auto simp: connect_failed_def)
  next
    case False
    have "worker_does ex hb [InvalidateExchange (unat ex)] [delay_secs jitter f] w
        (w'\<lparr>fw_sleeps := fw_sleeps w' @ [delay_secs jitter f]\<rparr>)"
      using w'(2) by (simp add: worker_does_def)
    with False w'(1) delay_bounds [of jitter f] show ?thesis
      by (intro exI [of _ "w'\<lparr>fw_sleeps := fw_sleeps w' @ [delay_secs jitter f]\<rparr>"] exI [of _ "[delay_secs jitter f]"])
        (auto simp: connect_failed_def)
  qed
qed

definition attempts_ops :: "u16 \<Rightarrow> nat \<Rightarrow> connect_result list \<Rightarrow> price_op list" where
  "attempts_ops ex budget rs =
     (let k = length (takeWhile failed rs)
      in replicate (min k budget) (InvalidateExchange (unat ex)) @
         (if k < budget \<and> k < length rs then (case rs ! k of Connected ms \<Rightarrow> stream_ops ex ms | _ \<Rightarrow> []) else []))"

lemma start_streaming_does:
  assumes "arena_wf (fw_arena w)" "unat f \<le> 50" "budget = 51 - unat f" "k = length (takeWhile failed rs)"
  shows "\<exists>w' ss. start_streaming jitter ex hb f rs w =
      Some (budget \<le> k \<or> k < length rs, w', drop (Suc (min k (budget - 1))) rs) \<and>
    worker_does ex hb (attempts_ops ex budget rs) ss w w' \<and>
    length ss = min k (budget - 1) \<and> (\<forall>d\<in>set ss. 1 \<le> d \<and> d \<le> 30)"
  using assms
proof (induction rs arbitrary: w f budget k)
  case Nil
  then show ?case by (auto simp: worker_does_def attempts_ops_def)
next
  case (Cons r rs)
  show ?case
  proof (cases "failed r")
    case False
    then obtain ms where r: "r = Connected ms" by (cases r) (auto simp: failed_def)
    from connection_does [OF Cons.prems(1)] obtain c w1 w2 where
      "read_loop ex hb ms w = Some (c, w1)" "if c then w2 = w1 else drop_prices ex w1 = Some w2"
      "worker_does ex hb (stream_ops ex ms) [] w w2" by blast
    moreover have "k = 0" "0 < budget" using Cons.prems False by simp_all
    ultimately show ?thesis using r
      by (intro exI [of _ w2] exI [of _ "[]"]) (auto simp: attempts_ops_def failed_def)
  next
    case True
    let ?k = "length (takeWhile failed rs)"
    have k: "k = Suc ?k" using Cons.prems True by simp
    have step: "start_streaming jitter ex hb f (r # rs) w =
        (case connect_failed jitter ex (f + 1) w of
           None \<Rightarrow> None
         | Some (gave_up, w') \<Rightarrow> if gave_up then Some (True, w', rs) else start_streaming jitter ex hb (f + 1) rs w')"
      using True by (cases r) (auto simp: failed_def)
    have f1: "unat (f + 1) = unat f + 1" using Cons.prems(2) by (simp add: unat_word_ariths)
    have lt: "50 < f + 1 \<longleftrightarrow> unat f = 50" using Cons.prems(2) f1 by (auto simp: word_less_nat_alt)
    from connect_failed_does [OF Cons.prems(1), of jitter ex "f + 1" hb] obtain w1 ss1 where
      w1: "connect_failed jitter ex (f + 1) w = Some (50 < f + 1, w1)"
        "worker_does ex hb [InvalidateExchange (unat ex)] ss1 w w1"
        "if 50 < f + 1 then ss1 = [] else \<exists>d. ss1 = [d] \<and> 1 \<le> d \<and> d \<le> 30" by blast
    show ?thesis
    proof (cases "unat f = 50")
      case True
      with w1 lt step Cons.prems(3) k show ?thesis
        by (intro exI [of _ w1] exI [of _ "[]"]) (simp add: attempts_ops_def \<open>failed r\<close>)
    next
      case False
      define b1 where "b1 = budget - 1"
      have b: "budget = Suc b1" "b1 = 51 - unat (f + 1)" "unat (f + 1) \<le> 50" "0 < b1"
        using False Cons.prems(2,3) f1 by (auto simp: b1_def)
      from Cons.IH [OF worker_does_wf [OF w1(2)] b(3,2) refl] obtain w2 ss2 where
        w2: "start_streaming jitter ex hb (f + 1) rs w1 =
            Some (b1 \<le> ?k \<or> ?k < length rs, w2, drop (Suc (min ?k (b1 - 1))) rs)"
          "worker_does ex hb (attempts_ops ex b1 rs) ss2 w1 w2" "length ss2 = min ?k (b1 - 1)"
          "\<forall>d\<in>set ss2. 1 \<le> d \<and> d \<le> 30" by blast
      have ops: "attempts_ops ex budget (r # rs) = [InvalidateExchange (unat ex)] @ attempts_ops ex b1 rs"
        using True by (simp add: attempts_ops_def Let_def b(1))
      have m: "min k (budget - 1) = Suc (min ?k (b1 - 1))" using b k by simp
      have rest: "drop (Suc (min k (budget - 1))) (r # rs) = drop (Suc (min ?k (b1 - 1))) rs"
        by (simp only: m drop_Suc_Cons)
      have fin: "budget \<le> k \<or> k < length (r # rs) \<longleftrightarrow> b1 \<le> ?k \<or> ?k < length rs" by (simp add: k b(1))
      have "worker_does ex hb (attempts_ops ex budget (r # rs)) (ss1 @ ss2) w w2"
        unfolding ops by (rule worker_does_trans [OF w1(2) w2(2)])
      moreover have "length (ss1 @ ss2) = min k (budget - 1) \<and> (\<forall>d\<in>set (ss1 @ ss2). 1 \<le> d \<and> d \<le> 30)"
        using w1(3) False lt w2(3,4) m by auto
      moreover have "start_streaming jitter ex hb f (r # rs) w =
          Some (budget \<le> k \<or> k < length (r # rs), w2, drop (Suc (min k (budget - 1))) (r # rs))"
        using w1(1) False lt w2(1) step unfolding rest fin by simp
      ultimately show ?thesis by blast
    qed
  qed
qed


lemma text_ops_local: "op \<in> set (text_ops ex m) \<Longrightarrow> e \<noteq> unat ex \<Longrightarrow> table_step T op e t = T e t"
  by (auto simp: text_ops_def table_set_def split: if_splits option.splits)

lemma stream_ops_local: "op \<in> set (stream_ops ex ms) \<Longrightarrow> e \<noteq> unat ex \<Longrightarrow> table_step T op e t = T e t"
  by (induction ex ms rule: stream_ops.induct) (auto simp: table_set_def dest: text_ops_local)

lemma replicate_append_mem: "x \<in> set (replicate n y @ (if c then ys else [])) \<Longrightarrow> x = y \<or> x \<in> set ys"
  by (cases c) (simp_all, blast+)

lemma attempts_ops_local:
  assumes "op \<in> set (attempts_ops ex n rs)" and "e \<noteq> unat ex"
  shows "table_step T op e t = T e t"
proof -
  from replicate_append_mem [OF assms(1) [unfolded attempts_ops_def Let_def]]
  consider "op = InvalidateExchange (unat ex)" | ms where "op \<in> set (stream_ops ex ms)"
    by (cases "rs ! length (takeWhile failed rs)") auto
  then show ?thesis
  proof cases
    case 1
    with assms(2) show ?thesis by (simp add: table_set_def)
  next
    case 2
    then show ?thesis using assms(2) by (rule stream_ops_local)
  qed
qed

lemma foldl_local:
  "(\<And>op T. op \<in> set ops \<Longrightarrow> table_step T op e t = T e t) \<Longrightarrow> foldl table_step T ops e t = T e t"
  by (induction ops arbitrary: T) auto

text \<open>
  C11: what a feed worker does, for every sequence of connection outcomes and messages.  It performs
  exactly the price operations its messages stand for (one update of its own exchange per
  parsed message of at most 64 KiB, each with a heartbeat), never panics, never changes a quote of another
  exchange, and zeroes its exchange on every failed attempt and on a read error.  It stops
  for good at the first connection or at the 51st failure: once a stream has ended it makes no
  further attempt, whatever attempts remain.  It sleeps 1 to 30 seconds between failed attempts.
\<close>

theorem feed_worker_effect:
  assumes "arena_wf (fw_arena w)" and "k = length (takeWhile failed rs)"
  shows "\<exists>w' ss. start_streaming jitter ex hb 0 rs w =
      Some (51 \<le> k \<or> k < length rs, w', drop (Suc (min k 50)) rs) \<and>
    worker_does ex hb (attempts_ops ex 51 rs) ss w w' \<and>
    length ss = min k 50 \<and> (\<forall>d\<in>set ss. 1 \<le> d \<and> d \<le> 30) \<and>
    (\<forall>e t. e \<noteq> unat ex \<longrightarrow> quote_of (fw_arena w') e t = quote_of (fw_arena w) e t)"
proof -
  from start_streaming_does [OF assms(1) _ refl assms(2), of 0 jitter ex hb] obtain w' ss where
    s: "start_streaming jitter ex hb 0 rs w = Some (51 \<le> k \<or> k < length rs, w', drop (Suc (min k 50)) rs)"
      "worker_does ex hb (attempts_ops ex 51 rs) ss w w'" "length ss = min k 50" "\<forall>d\<in>set ss. 1 \<le> d \<and> d \<le> 30"
    by auto
  have "quote_of (fw_arena w') e t = quote_of (fw_arena w) e t" if "e \<noteq> unat ex" for e t
    using s(2) foldl_local [OF attempts_ops_local] that by (simp add: worker_does_def)
  with s show ?thesis by blast
qed

theorem feed_worker_effect_witness:
  "\<exists>a w'. arena_new 2 4 = Some a \<and>
     start_streaming (\<lambda>d. unat d) 1 True 0
       [ConnectFailed, Connected [WsText (ticker_message 3 7 8), WsClose], Connected [WsText (ticker_message 2 5 6)]]
       \<lparr>fw_arena = a, fw_heartbeats = [], fw_sleeps = []\<rparr> =
     Some (True, w', [Connected [WsText (ticker_message 2 5 6)]])"
proof -
  let ?rs = "[ConnectFailed, Connected [WsText (ticker_message 3 7 8), WsClose], Connected [WsText (ticker_message 2 5 6)]]"
  from arena_new_wf [of 2 4] obtain a where a: "arena_new 2 4 = Some a" "arena_wf a" by auto
  have k: "1 = length (takeWhile failed ?rs)" by (simp add: failed_def)
  from a feed_worker_effect [OF _ k, of "\<lparr>fw_arena = a, fw_heartbeats = [], fw_sleeps = []\<rparr>" "\<lambda>d. unat d" 1 True]
  show ?thesis by auto
qed


section \<open>Splitting symbols\<close>

lemma strip_suffix_eq: "strip_suffix s suf = Some base \<longleftrightarrow> s = base @ suf"
proof
  assume "strip_suffix s suf = Some base"
  then have p: "is_prefix_of (rev suf) (rev s)" and b: "base = take (length s - length suf) s"
    by (simp_all add: strip_suffix_def split: if_splits)
  from p obtain zs where "rev s = rev suf @ zs" by (auto simp: is_prefix_of_iff)
  then have "s = rev zs @ suf" by (metis rev_append rev_rev_ident)
  with b show "s = base @ suf" by simp
qed (simp add: strip_suffix_def is_prefix_of_iff)

lemma splits_at_iff: "splits_at s quote \<longleftrightarrow> (\<exists>base. base \<noteq> [] \<and> s = base @ quote)"
  by (auto simp: splits_at_def strip_suffix_eq split: option.split) (metis option.distinct(1) strip_suffix_eq)

text \<open>A split loses nothing, and its quote is the first known one that ends the symbol.\<close>

lemma split_base_quote_sound:
  assumes "split_base_quote s = (base, quote)"
  shows "s = base @ quote" and "quote \<noteq> [] \<Longrightarrow> base \<noteq> [] \<and> quote \<in> set KNOWN_QUOTES"
    and "quote = [] \<Longrightarrow> b \<noteq> [] \<Longrightarrow> q \<in> set KNOWN_QUOTES \<Longrightarrow> s \<noteq> b @ q"
proof -
  have none: "find (splits_at s) KNOWN_QUOTES = None \<Longrightarrow> q \<in> set KNOWN_QUOTES \<Longrightarrow> \<not> splits_at s q" for q
    by (auto simp: find_None_iff)
  have some: "s = take (length s - length q) s @ q \<and> take (length s - length q) s \<noteq> [] \<and> q \<in> set KNOWN_QUOTES"
    if f: "find (splits_at s) KNOWN_QUOTES = Some q" for q
  proof -
    from f have "splits_at s q" "q \<in> set KNOWN_QUOTES" by (auto simp: find_Some_iff)
    then show ?thesis by (auto simp: splits_at_iff)
  qed
  have ne: "q \<in> set KNOWN_QUOTES \<Longrightarrow> q \<noteq> []" for q by (auto simp: KNOWN_QUOTES_def)
  show "s = base @ quote" and "quote \<noteq> [] \<Longrightarrow> base \<noteq> [] \<and> quote \<in> set KNOWN_QUOTES"
    using assms some by (auto simp: split_base_quote_def split: option.splits)
  show "s \<noteq> b @ q" if "quote = []" "b \<noteq> []" "q \<in> set KNOWN_QUOTES"
  proof (cases "find (splits_at s) KNOWN_QUOTES")
    case None
    from none [OF None that(3)] that(2) show ?thesis by (auto simp: splits_at_iff)
  next
    case (Some q')
    with assms that(1) some [OF Some] ne [of q'] show ?thesis by (simp add: split_base_quote_def)
  qed
qed

text \<open>
  The list is not ordered by length: a pair quoted in TUSD is split before the shorter USD.
\<close>

lemma tusd_split_as_usd: "split_base_quote ''BTCTUSD'' = (''BTCT'', ''USD'')"
  by (simp add: split_base_quote_def KNOWN_QUOTES_def splits_at_def strip_suffix_def)

end
