(* ===== verification/Circuit_Breaker.thy ===== *)
theory Circuit_Breaker
  imports Rust_Prelude
begin

text \<open>
  The engine-wide circuit breaker of \<^verbatim>\<open>src/src/circuit_breaker.rs\<close>.  The operations read the clock
  as an argument, in milliseconds.  The second half splits \<^verbatim>\<open>trip\<close> and \<^verbatim>\<open>reset\<close> into their atomic
  accesses and interleaves them.
\<close>

section \<open>State and operations\<close>

record engine_circuit_breaker =
  system_frozen :: bool
  trip_reason :: u64
  trip_timestamp_ms :: u64
  trip_count :: u64
  rejected_count :: u64

abbreviation REASON_UNKNOWN :: u64 where "REASON_UNKNOWN \<equiv> 0"
abbreviation REASON_MANUAL_KILL :: u64 where "REASON_MANUAL_KILL \<equiv> 1"
abbreviation REASON_BALANCE_CORRUPTION :: u64 where "REASON_BALANCE_CORRUPTION \<equiv> 2"
abbreviation REASON_UNAUTHORIZED_POSITION :: u64 where "REASON_UNAUTHORIZED_POSITION \<equiv> 3"
abbreviation REASON_DRAWDOWN_BREACHED :: u64 where "REASON_DRAWDOWN_BREACHED \<equiv> 4"
abbreviation REASON_NETWORK_PARTITION :: u64 where "REASON_NETWORK_PARTITION \<equiv> 5"
abbreviation REASON_EXCHANGE_MASS_FAILURE :: u64 where "REASON_EXCHANGE_MASS_FAILURE \<equiv> 6"
abbreviation REASON_CLOCK_DRIFT :: u64 where "REASON_CLOCK_DRIFT \<equiv> 7"
abbreviation TRANSIENT_COOLDOWN_MS :: u64 where "TRANSIENT_COOLDOWN_MS \<equiv> 60000"

datatype circuit_breaker_error = SystemFrozen (err_reason: u64) (err_total: u64)

definition breaker_new :: engine_circuit_breaker where
  "breaker_new = \<lparr>system_frozen = False, trip_reason = 0, trip_timestamp_ms = 0, trip_count = 0,
     rejected_count = 0\<rparr>"

definition trip :: "u64 \<Rightarrow> u64 \<Rightarrow> engine_circuit_breaker \<Rightarrow> engine_circuit_breaker" where
  "trip now reason_code b =
     (if system_frozen b then b\<lparr>system_frozen := True\<rparr>
      else b\<lparr>system_frozen := True, trip_reason := reason_code, trip_timestamp_ms := now,
             trip_count := trip_count b + 1\<rparr>)"

definition reset_forced :: "engine_circuit_breaker \<Rightarrow> bool \<times> engine_circuit_breaker" where
  "reset_forced b =
     (system_frozen b,
      if system_frozen b
      then b\<lparr>system_frozen := False, trip_reason := REASON_UNKNOWN, trip_timestamp_ms := 0\<rparr>
      else b\<lparr>system_frozen := False\<rparr>)"

definition critical_reason :: "u64 \<Rightarrow> bool" where
  "critical_reason r \<longleftrightarrow> r = REASON_BALANCE_CORRUPTION \<or> r = REASON_MANUAL_KILL"

definition reset :: "engine_circuit_breaker \<Rightarrow> bool \<times> engine_circuit_breaker" where
  "reset b = (if critical_reason (trip_reason b) then (system_frozen b, b) else reset_forced b)"

definition transient_reason :: "u64 \<Rightarrow> bool" where
  "transient_reason r \<longleftrightarrow> r = REASON_NETWORK_PARTITION \<or> r = REASON_CLOCK_DRIFT"

definition check_and_reject ::
  "u64 \<Rightarrow> engine_circuit_breaker \<Rightarrow> (circuit_breaker_error + unit) \<times> engine_circuit_breaker" where
  "check_and_reject now b =
     (if system_frozen b
      then if transient_reason (trip_reason b) \<and>
              TRANSIENT_COOLDOWN_MS < saturating_sub now (trip_timestamp_ms b)
           then (Inr (), snd (reset b))
           else let b' = b\<lparr>rejected_count := rejected_count b + 1\<rparr>
                in (Inl (SystemFrozen (trip_reason b) (rejected_count b')), b')
      else (Inr (), b))"

definition trip_reason_string :: "engine_circuit_breaker \<Rightarrow> string" where
  "trip_reason_string b =
     (if trip_reason b = REASON_MANUAL_KILL then ''Manual kill switch activated''
      else if trip_reason b = REASON_BALANCE_CORRUPTION then ''Balance corruption detected''
      else if trip_reason b = REASON_UNAUTHORIZED_POSITION then ''Unauthorized position detected''
      else if trip_reason b = REASON_DRAWDOWN_BREACHED then ''Maximum drawdown breached''
      else if trip_reason b = REASON_NETWORK_PARTITION then ''Network partition detected''
      else if trip_reason b = REASON_EXCHANGE_MASS_FAILURE then ''Multiple exchanges failing simultaneously''
      else if trip_reason b = REASON_CLOCK_DRIFT then ''System clock drift detected''
      else ''Unknown reason'')"

datatype breaker_op = Trip u64 u64 | Reset | ResetForced | Check u64

fun breaker_step :: "engine_circuit_breaker \<Rightarrow> breaker_op \<Rightarrow> engine_circuit_breaker" where
  "breaker_step b (Trip now r) = trip now r b"
| "breaker_step b Reset = snd (reset b)"
| "breaker_step b ResetForced = snd (reset_forced b)"
| "breaker_step b (Check now) = snd (check_and_reject now b)"

lemmas breaker_defs = trip_def reset_forced_def reset_def check_and_reject_def critical_reason_def
  transient_reason_def

section \<open>Sequential runs\<close>

text \<open>An unfrozen breaker carries no reason and no time stamp.\<close>

definition breaker_inv :: "engine_circuit_breaker \<Rightarrow> bool" where
  "breaker_inv b \<longleftrightarrow> (system_frozen b \<or> trip_reason b = REASON_UNKNOWN \<and> trip_timestamp_ms b = 0)"

interpretation breaker: guarded_machine breaker_step breaker_inv
proof
  fix b opn
  assume "breaker_inv b"
  then show "breaker_inv (breaker_step b opn)"
    by (cases opn) (auto simp: breaker_inv_def breaker_defs Let_def)
qed

text \<open>The operations that respect the guard: everything but a forced reset.\<close>

fun guarded_step :: "engine_circuit_breaker \<Rightarrow> breaker_op \<Rightarrow> engine_circuit_breaker" where
  "guarded_step b ResetForced = b"
| "guarded_step b opn = breaker_step b opn"

interpretation critical: guarded_machine guarded_step
  "\<lambda>b :: engine_circuit_breaker. system_frozen b \<and> critical_reason r \<and> trip_reason b = r" for r
proof
  fix b :: engine_circuit_breaker and opn
  assume "system_frozen b \<and> critical_reason r \<and> trip_reason b = r"
  then show "system_frozen (guarded_step b opn) \<and> critical_reason r \<and> trip_reason (guarded_step b opn) = r"
    by (cases opn) (auto simp: breaker_defs Let_def)
qed

lemma guarded_run_eq: "ResetForced \<notin> set ops \<Longrightarrow> run guarded_step b ops = run breaker_step b ops"
proof (induction ops arbitrary: b)
  case (Cons opn ops)
  then show ?case by (cases opn) auto
qed simp

text \<open>
  a critical trip stays.  Once the unfrozen breaker is tripped for a manual kill or a balance
  corruption, no later sequence of trips, resets and checks clears it without a forced reset: the
  breaker stays frozen for that same reason and every check is refused with it, at every time.
\<close>

theorem critical_trip_latches:
  assumes "\<not> system_frozen b" and "critical_reason r" and "ResetForced \<notin> set ops"
  shows "let b' = run breaker_step (trip now r b) ops in
    system_frozen b' \<and> trip_reason b' = r \<and>
    fst (check_and_reject later b') = Inl (SystemFrozen r (rejected_count b' + 1))"
proof -
  have "system_frozen (trip now r b) \<and> critical_reason r \<and> trip_reason (trip now r b) = r"
    using assms(1,2) by (simp add: trip_def)
  from critical.inv_run [OF this, of ops] assms(3)
  have "system_frozen (run breaker_step (trip now r b) ops)" "trip_reason (run breaker_step (trip now r b) ops) = r"
    by (simp_all add: guarded_run_eq)
  then show ?thesis using assms(2) by (auto simp: check_and_reject_def critical_reason_def transient_reason_def Let_def)
qed

theorem critical_trip_latches_witness:
  "let b' = run breaker_step (trip 1000 REASON_MANUAL_KILL breaker_new) [Check 900000, Trip 5 7, Reset, Check 3] in
    system_frozen b' \<and> trip_reason b' = 1 \<and>
    fst (check_and_reject 999999999 b') = Inl (SystemFrozen 1 (rejected_count b' + 1))"
  by (rule critical_trip_latches) (simp_all add: breaker_new_def critical_reason_def)

text \<open>What the counters count: the refusals returned and the transitions into the frozen state.\<close>

definition refused :: "engine_circuit_breaker \<Rightarrow> breaker_op \<Rightarrow> bool" where
  "refused b opn = (case opn of Check now \<Rightarrow> fst (check_and_reject now b) \<noteq> Inr () | _ \<Rightarrow> False)"

definition froze :: "engine_circuit_breaker \<Rightarrow> breaker_op \<Rightarrow> bool" where
  "froze b opn \<longleftrightarrow> \<not> system_frozen b \<and> system_frozen (breaker_step b opn)"

fun events :: "(engine_circuit_breaker \<Rightarrow> breaker_op \<Rightarrow> bool) \<Rightarrow> engine_circuit_breaker \<Rightarrow> breaker_op list \<Rightarrow> nat" where
  "events P b [] = 0"
| "events P b (opn # ops) = (if P b opn then 1 else 0) + events P (breaker_step b opn) ops"

lemma breaker_step_counts:
  "rejected_count (breaker_step b opn) = rejected_count b + of_bool (refused b opn)"
  "trip_count (breaker_step b opn) = trip_count b + of_bool (froze b opn)"
  by (cases opn; auto simp: refused_def froze_def breaker_defs Let_def)+

lemma events_counts:
  "rejected_count (run breaker_step b ops) = rejected_count b + word_of_nat (events refused b ops)"
  "trip_count (run breaker_step b ops) = trip_count b + word_of_nat (events froze b ops)"
  by (induction ops arbitrary: b) (simp_all add: breaker_step_counts)

text \<open>
  the breaker's books are right.  After every sequence of operations on a new breaker, with
  fewer than \<open>2 ^ 64\<close> of them, the rejected count is the number of checks that were refused, the trip count
  is the number of times the breaker went from running to frozen, and an unfrozen breaker holds no
  stale reason or time stamp.
\<close>

theorem breaker_accounting:
  assumes "length ops < 2 ^ 64"
  shows "let b = run breaker_step breaker_new ops in
    unat (rejected_count b) = events refused breaker_new ops \<and>
    unat (trip_count b) = events froze breaker_new ops \<and>
    (\<not> system_frozen b \<longrightarrow> trip_reason b = REASON_UNKNOWN \<and> trip_timestamp_ms b = 0)"
proof -
  have "events P b ops \<le> length ops" for P b
    by (induction ops arbitrary: b) (auto intro: le_SucI)
  then have "events P b ops < 2 ^ 64" for P b using assms by (rule le_less_trans)
  moreover have "breaker_inv (run breaker_step breaker_new ops)"
    by (rule breaker.inv_run) (simp add: breaker_inv_def breaker_new_def)
  ultimately show ?thesis
    by (auto simp: Let_def events_counts breaker_new_def unat_of_nat breaker_inv_def)
qed

theorem breaker_accounting_witness:
  "let b = run breaker_step breaker_new [Trip 0 5, Check 100, Check 60001, Trip 70000 1, Check 900000, Reset] in
    unat (rejected_count b) = 2 \<and> unat (trip_count b) = 2 \<and> system_frozen b"
  using breaker_accounting [of "[Trip 0 5, Check 100, Check 60001, Trip 70000 1, Check 900000, Reset]"]
  by (simp add: Let_def breaker_new_def refused_def froze_def breaker_defs saturating_sub_def)

text \<open>
  a transient trip recovers on its own and nothing else does.  A check on a frozen breaker
  succeeds exactly when the reason is a network partition or clock drift and more than 60 seconds
  have passed since the trip; it then leaves the breaker running with the reason cleared.  Every
  other check on a frozen breaker is refused, and counted once.
\<close>

theorem check_recovers_transient_only:
  assumes "system_frozen b"
  shows "(fst (check_and_reject now b) = Inr () \<longleftrightarrow>
      trip_reason b \<in> {REASON_NETWORK_PARTITION, REASON_CLOCK_DRIFT} \<and>
      unat (trip_timestamp_ms b) + 60000 < unat now) \<and>
    system_frozen (snd (check_and_reject now b)) = (fst (check_and_reject now b) \<noteq> Inr ()) \<and>
    rejected_count (snd (check_and_reject now b)) =
      rejected_count b + of_bool (fst (check_and_reject now b) \<noteq> Inr ()) \<and>
    (fst (check_and_reject now b) = Inr () \<longrightarrow> trip_reason (snd (check_and_reject now b)) = REASON_UNKNOWN)"
proof -
  have "TRANSIENT_COOLDOWN_MS < saturating_sub now (trip_timestamp_ms b) \<longleftrightarrow>
      unat (trip_timestamp_ms b) + 60000 < unat now"
    by (auto simp: word_less_nat_alt unat_saturating_sub)
  then show ?thesis using assms by (auto simp: breaker_defs Let_def)
qed

theorem check_recovers_transient_only_witness:
  "fst (check_and_reject 60002 (trip 1 REASON_CLOCK_DRIFT breaker_new)) = Inr () \<and>
   fst (check_and_reject 60001 (trip 1 REASON_CLOCK_DRIFT breaker_new)) \<noteq> Inr ()"
  using check_recovers_transient_only [of "trip 1 REASON_CLOCK_DRIFT breaker_new" 60002]
    check_recovers_transient_only [of "trip 1 REASON_CLOCK_DRIFT breaker_new" 60001]
  by (simp add: trip_def breaker_new_def)

section \<open>Interleaved runs\<close>

text \<open>
  The atomic accesses of \<^verbatim>\<open>trip\<close> and \<^verbatim>\<open>reset\<close>, one per step, in program order.
\<close>

datatype breaker_pc =
    TripSwap u64 u64 | TripReason u64 u64 | TripStamp u64 | TripCount
  | ResetLoad | ResetReport | ResetSwap | ResetReason | ResetStamp | Done

fun breaker_micro :: "engine_circuit_breaker \<Rightarrow> breaker_pc \<Rightarrow> engine_circuit_breaker \<times> breaker_pc" where
  "breaker_micro b (TripSwap now r) =
     (b\<lparr>system_frozen := True\<rparr>, if system_frozen b then Done else TripReason now r)"
| "breaker_micro b (TripReason now r) = (b\<lparr>trip_reason := r\<rparr>, TripStamp now)"
| "breaker_micro b (TripStamp now) = (b\<lparr>trip_timestamp_ms := now\<rparr>, TripCount)"
| "breaker_micro b TripCount = (b\<lparr>trip_count := trip_count b + 1\<rparr>, Done)"
| "breaker_micro b ResetLoad = (b, if critical_reason (trip_reason b) then ResetReport else ResetSwap)"
| "breaker_micro b ResetReport = (b, Done)"
| "breaker_micro b ResetSwap =
     (b\<lparr>system_frozen := False\<rparr>, if system_frozen b then ResetReason else Done)"
| "breaker_micro b ResetReason = (b\<lparr>trip_reason := REASON_UNKNOWN\<rparr>, ResetStamp)"
| "breaker_micro b ResetStamp = (b\<lparr>trip_timestamp_ms := 0\<rparr>, Done)"
| "breaker_micro b Done = (b, Done)"

text \<open>A schedule names the thread that takes the next step.\<close>

fun interleave ::
  "nat list \<Rightarrow> engine_circuit_breaker \<times> breaker_pc list \<Rightarrow> engine_circuit_breaker \<times> breaker_pc list" where
  "interleave [] st = st"
| "interleave (i # is) (b, pcs) =
     (if i < length pcs
      then case breaker_micro b (pcs ! i) of (b', pc') \<Rightarrow> interleave is (b', pcs[i := pc'])
      else interleave is (b, pcs))"

text \<open>Run without interruption, the accesses are the operations of the sequential model.\<close>

lemma micro_sequential:
  "interleave (replicate 4 0) (b, [TripSwap now r]) = (trip now r b, [Done])"
  "interleave (replicate 4 0) (b, [ResetLoad]) = (snd (reset b), [Done])"
  by (auto simp: numeral_eq_Suc trip_def reset_def reset_forced_def critical_reason_def)

text \<open>
  the guard of \<^verbatim>\<open>reset\<close> is not atomic with the trip it guards.  The freeze flag is set before the
  reason is stored, so a reset that runs between the two finds no critical reason and clears the
  flag: from every running breaker with no reason there is an interleaving of one manual kill and
  one plain reset, both completed, that leaves the breaker running although the manual kill was
  counted and its reason is on record; run one after the other, in either order, they leave it frozen.
\<close>

theorem reset_races_with_manual_kill:
  assumes "\<not> system_frozen b" and "trip_reason b = REASON_UNKNOWN"
  shows "(\<exists>sched. case interleave sched (b, [TripSwap now REASON_MANUAL_KILL, ResetLoad]) of
      (b', pcs) \<Rightarrow> pcs = [Done, Done] \<and> \<not> system_frozen b' \<and>
        trip_reason b' = REASON_MANUAL_KILL \<and> trip_count b' = trip_count b + 1) \<and>
    system_frozen (snd (reset (trip now REASON_MANUAL_KILL b))) \<and>
    system_frozen (trip now REASON_MANUAL_KILL (snd (reset b)))"
proof
  show "\<exists>sched. case interleave sched (b, [TripSwap now REASON_MANUAL_KILL, ResetLoad]) of
      (b', pcs) \<Rightarrow> pcs = [Done, Done] \<and> \<not> system_frozen b' \<and>
        trip_reason b' = REASON_MANUAL_KILL \<and> trip_count b' = trip_count b + 1"
    by (rule exI [of _ "[0, 1, 1, 1, 1, 0, 0, 0]"]) (use assms in \<open>simp add: critical_reason_def\<close>)
qed (use assms in \<open>simp add: breaker_defs\<close>)

theorem reset_races_with_manual_kill_witness:
  "\<exists>sched. case interleave sched (breaker_new, [TripSwap 9 REASON_MANUAL_KILL, ResetLoad]) of
      (b', pcs) \<Rightarrow> pcs = [Done, Done] \<and> \<not> system_frozen b' \<and>
        trip_reason b' = REASON_MANUAL_KILL \<and> trip_count b' = trip_count breaker_new + 1"
  by (rule conjunct1 [OF reset_races_with_manual_kill]) (simp_all add: breaker_new_def)

end
