(* ===== verification/Execution_Guards.thy ===== *)
theory Execution_Guards
  imports Rust_Prelude
begin

text \<open>
  The guards of the execution engine in \<^verbatim>\<open>src/src/execution.rs\<close>: the retries around an order, the cooldown of
  an exchange that answered with a rate limit, and the daily loss limit.  Clock readings are
  arguments of the operations that take them.
\<close>

section \<open>Retries with backoff\<close>

abbreviation MAX_BACKOFF_MS :: u64 where "MAX_BACKOFF_MS \<equiv> 2000"
abbreviation MIN_DELAY_MS :: u64 where "MIN_DELAY_MS \<equiv> 10"

datatype retry_error = RetryRateLimited string | AllAttemptsFailed u32 string

definition is_rate_limit :: "string \<Rightarrow> bool" where
  "is_rate_limit e \<longleftrightarrow> str_contains e ''429'' \<or> str_contains e ''rate.limit'' \<or> str_contains e ''rate limit'' \<or>
     str_contains e ''Too Many Requests''"

definition base_backoff :: "u64 \<Rightarrow> nat \<Rightarrow> u64" where
  "base_backoff base_delay_ms attempt =
     (if attempt < 64 then min (saturating_mul base_delay_ms (push_bit attempt 1)) MAX_BACKOFF_MS else MAX_BACKOFF_MS)"

text \<open>
  The loop over the attempts: \<open>f i\<close> is what the operation returns the \<open>i\<close>-th time, \<open>jitter i\<close> the product of a base
  delay with the \<open>i\<close>-th random factor.  The result comes with the delays slept, in
  milliseconds.
\<close>

fun retry_loop ::
  "u32 \<Rightarrow> u64 \<Rightarrow> (nat \<Rightarrow> u64 \<Rightarrow> u64) \<Rightarrow> (nat \<Rightarrow> string + 'a) \<Rightarrow> nat list \<Rightarrow> string \<Rightarrow> u64 list \<Rightarrow>
   (retry_error + 'a) \<times> u64 list" where
  "retry_loop max_retries base_delay_ms jitter f [] last_err slept =
     (Inl (AllAttemptsFailed max_retries last_err), slept)"
| "retry_loop max_retries base_delay_ms jitter f (attempt # rest) last_err slept =
     (case f attempt of
        Inr result \<Rightarrow> (Inr result, slept)
      | Inl e \<Rightarrow>
          if is_rate_limit e then (Inl (RetryRateLimited e), slept)
          else if attempt + 1 < unat max_retries then
            retry_loop max_retries base_delay_ms jitter f rest e
              (slept @ [max (jitter attempt (base_backoff base_delay_ms attempt)) MIN_DELAY_MS])
          else retry_loop max_retries base_delay_ms jitter f rest e slept)"

definition retry_with_backoff ::
  "(nat \<Rightarrow> u64 \<Rightarrow> u64) \<Rightarrow> u32 \<Rightarrow> u64 \<Rightarrow> (nat \<Rightarrow> string + 'a) \<Rightarrow> (retry_error + 'a) \<times> u64 list" where
  "retry_with_backoff jitter max_retries base_delay_ms f =
     retry_loop max_retries base_delay_ms jitter f [0..<unat max_retries] [] []"

section \<open>Cooldowns\<close>

record cooldown_breaker =
  cooldown_until_ms :: "u64 list"
  cooldown_duration_secs :: u64

definition cooldown_new :: "usize \<Rightarrow> u64 \<Rightarrow> cooldown_breaker" where
  "cooldown_new num_exchanges duration_secs =
     \<lparr>cooldown_until_ms = replicate num_exchanges 0, cooldown_duration_secs = duration_secs\<rparr>"

text \<open>The error carries the exchange and the remaining seconds of its message.\<close>

definition cooldown_check ::
  "u16 \<Rightarrow> u64 \<Rightarrow> cooldown_breaker \<Rightarrow> ((u16 \<times> u64) + unit) \<times> cooldown_breaker" where
  "cooldown_check exchange_id now b =
     (let idx = unat exchange_id
      in if length (cooldown_until_ms b) \<le> idx then (Inr (), b)
         else let until = cooldown_until_ms b ! idx
              in if until = 0 then (Inr (), b)
                 else if now < until then (Inl (exchange_id, (until - now) div 1000), b)
                 else (Inr (), b\<lparr>cooldown_until_ms := (cooldown_until_ms b)[idx := 0]\<rparr>))"

definition cooldown_until :: "u64 \<Rightarrow> u64 \<Rightarrow> u64" where
  "cooldown_until duration_secs now = saturating_add now (saturating_mul duration_secs 1000)"

definition cooldown_trip :: "u16 \<Rightarrow> u64 \<Rightarrow> cooldown_breaker \<Rightarrow> cooldown_breaker" where
  "cooldown_trip exchange_id now b =
     (let idx = unat exchange_id
      in if length (cooldown_until_ms b) \<le> idx then b
         else b\<lparr>cooldown_until_ms := (cooldown_until_ms b)[idx := cooldown_until (cooldown_duration_secs b) now]\<rparr>)"

definition active_cooldown_count :: "u64 \<Rightarrow> cooldown_breaker \<Rightarrow> usize" where
  "active_cooldown_count now b = length (filter (\<lambda>until. 0 < until \<and> now < until) (cooldown_until_ms b))"

section \<open>The daily loss limit\<close>

record daily_pnl =
  daily_loss_cents :: u64
  daily_profit_cents :: u64
  daily_reset_day :: u32
  daily_loss_limit_cents :: u64

definition check_daily_reset :: "u32 \<Rightarrow> daily_pnl \<Rightarrow> (u64 \<times> u64) \<times> daily_pnl" where
  "check_daily_reset today p =
     (let p' = (if today \<noteq> daily_reset_day p
                then p\<lparr>daily_reset_day := today, daily_loss_cents := 0, daily_profit_cents := 0\<rparr> else p)
      in ((daily_loss_cents p', daily_profit_cents p'), p'))"

definition set_daily_loss_limit_cents :: "u64 \<Rightarrow> daily_pnl \<Rightarrow> daily_pnl" where
  "set_daily_loss_limit_cents cents p = p\<lparr>daily_loss_limit_cents := cents\<rparr>"

definition check_daily_loss_limit :: "u32 \<Rightarrow> daily_pnl \<Rightarrow> ((u64 \<times> u64) + unit) \<times> daily_pnl" where
  "check_daily_loss_limit today p =
     (let max_loss_cents = daily_loss_limit_cents p
      in case check_daily_reset today p of
           ((daily_loss, _), p') \<Rightarrow>
             (if max_loss_cents \<le> daily_loss then (Inl (daily_loss, max_loss_cents), p') else (Inr (), p')))"

text \<open>
  The widened values are at most \<open>2\<^sup>6\<^sup>3\<close>, so the cap of the code never applies; \<^verbatim>\<open>fetch_add\<close> wraps.
\<close>

definition record_daily_pnl :: "i64 \<Rightarrow> daily_pnl \<Rightarrow> daily_pnl" where
  "record_daily_pnl profit_cents p =
     (let x = sint profit_cents
      in if 0 \<le> x then
           let val = (if 2 ^ 64 - 1 < x then - 1 else word_of_int x)
           in p\<lparr>daily_profit_cents := daily_profit_cents p + val\<rparr>
         else
           let val = (if 2 ^ 64 - 1 < - x then - 1 else word_of_int (- x))
           in p\<lparr>daily_loss_cents := daily_loss_cents p + val\<rparr>)"


section \<open>Retries: correctness\<close>

text \<open>An attempt is decisive when it succeeds or reports a rate limit.\<close>

definition decisive :: "(nat \<Rightarrow> string + 'a) \<Rightarrow> nat \<Rightarrow> bool" where
  "decisive f i = (case f i of Inr r \<Rightarrow> True | Inl e \<Rightarrow> is_rate_limit e)"

definition attempt_outcome :: "(nat \<Rightarrow> string + 'a) \<Rightarrow> nat \<Rightarrow> retry_error + 'a" where
  "attempt_outcome f i = (case f i of Inr r \<Rightarrow> Inr r | Inl e \<Rightarrow> Inl (RetryRateLimited e))"

definition attempt_delay :: "(nat \<Rightarrow> u64 \<Rightarrow> u64) \<Rightarrow> u64 \<Rightarrow> nat \<Rightarrow> u64" where
  "attempt_delay jitter base i = max (jitter i (base_backoff base i)) MIN_DELAY_MS"

lemma retry_loop_exact:
  assumes "N = unat mx" "k \<le> N"
  shows "retry_loop mx base jitter f [k..<N] err slept =
    (case find (decisive f) [k..<N] of
       Some i \<Rightarrow> (attempt_outcome f i, slept @ map (attempt_delay jitter base) [k..<i])
     | None \<Rightarrow> (Inl (AllAttemptsFailed mx (if k < N then projl (f (N - 1)) else err)),
                slept @ map (attempt_delay jitter base) [k..<N - 1]))"
  using assms(2)
proof (induction "N - k" arbitrary: k err slept)
  case 0
  then show ?case by simp
next
  case (Suc m)
  then have k: "k < N" by simp
  then have l: "[k..<N] = k # [Suc k..<N]" by (simp add: upt_conv_Cons)
  show ?case
  proof (cases "decisive f k")
    case True
    then show ?thesis by (cases "f k") (simp_all add: l decisive_def attempt_outcome_def)
  next
    case False
    then obtain e where e: "f k = Inl e" "\<not> is_rate_limit e" by (auto simp: decisive_def split: sum.splits)
    have IH: "retry_loop mx base jitter f [Suc k..<N] err' slept' =
        (case find (decisive f) [Suc k..<N] of
           Some i \<Rightarrow> (attempt_outcome f i, slept' @ map (attempt_delay jitter base) [Suc k..<i])
         | None \<Rightarrow> (Inl (AllAttemptsFailed mx (if Suc k < N then projl (f (N - 1)) else err')),
                    slept' @ map (attempt_delay jitter base) [Suc k..<N - 1]))" for err' slept'
      using Suc.hyps(2) k by (intro Suc.hyps(1)) auto
    have ge: "Suc k \<le> i" if "find (decisive f) [Suc k..<N] = Some i" for i
      using that by (auto simp: find_Some_iff)
    show ?thesis
    proof (cases "Suc k < N")
      case True
      then have "[k..<N - 1] = k # [Suc k..<N - 1]" by (intro upt_conv_Cons) simp
      moreover have "[k..<i] = k # [Suc k..<i]" if "find (decisive f) [Suc k..<N] = Some i" for i
        using ge [OF that] by (intro upt_conv_Cons) simp
      moreover have "k + 1 < unat mx" using True assms(1) by simp
      ultimately show ?thesis using True False e
        by (simp add: l IH attempt_delay_def del: upt_Suc split: option.split)
    next
      case False
      then have "N = Suc k" using k by simp
      then show ?thesis using \<open>\<not> decisive f k\<close> e assms(1) by simp
    qed
  qed
qed

lemma base_backoff_le: "base_backoff base i \<le> MAX_BACKOFF_MS"
  by (simp add: base_backoff_def)

text \<open>
  a retried operation ends with the first attempt that succeeds or reports a rate limit, with
  that result, and makes no attempt after it; if there is none among the permitted attempts, it fails
  after all of them with the last error.  It sleeps once between consecutive attempts, never
  after the last one, at least 10 ms each time, and the unjittered delay is at most 2 s.
\<close>

theorem retry_exact:
  "retry_with_backoff jitter max_retries base f =
     (case find (decisive f) [0..<unat max_retries] of
        Some i \<Rightarrow> (attempt_outcome f i, map (attempt_delay jitter base) [0..<i])
      | None \<Rightarrow> (Inl (AllAttemptsFailed max_retries (if 0 < unat max_retries then projl (f (unat max_retries - 1)) else [])),
                 map (attempt_delay jitter base) [0..<unat max_retries - 1])) \<and>
   (\<forall>i. MIN_DELAY_MS \<le> attempt_delay jitter base i \<and> base_backoff base i \<le> MAX_BACKOFF_MS)"
  using retry_loop_exact [OF refl, of 0 max_retries base jitter f "[]" "[]"]
  by (simp add: retry_with_backoff_def attempt_delay_def base_backoff_le split: option.split)

section \<open>Cooldowns: correctness\<close>

datatype cooldown_op = CoolTrip u16 u64 | CoolCheck u16 u64

fun cooldown_step :: "cooldown_breaker \<Rightarrow> cooldown_op \<Rightarrow> cooldown_breaker" where
  "cooldown_step b (CoolTrip e now) = cooldown_trip e now b"
| "cooldown_step b (CoolCheck e now) = snd (cooldown_check e now b)"

fun cooldown_time :: "cooldown_op \<Rightarrow> u64" where
  "cooldown_time (CoolTrip e now) = now"
| "cooldown_time (CoolCheck e now) = now"

fun last_trip :: "u16 \<Rightarrow> cooldown_op list \<Rightarrow> u64 option \<Rightarrow> u64 option" where
  "last_trip e [] acc = acc"
| "last_trip e (CoolTrip e' now # ops) acc = last_trip e ops (if e' = e then Some now else acc)"
| "last_trip e (CoolCheck e' now # ops) acc = last_trip e ops acc"

text \<open>A cell agrees with the last trip at every time from \<open>T\<close> on.\<close>

definition cell_agrees :: "u16 \<Rightarrow> u64 \<Rightarrow> u64 option \<Rightarrow> u64 \<Rightarrow> cooldown_breaker \<Rightarrow> bool" where
  "cell_agrees e dur trip T b \<longleftrightarrow>
     cooldown_duration_secs b = dur \<and> unat e < length (cooldown_until_ms b) \<and>
     (\<forall>T'\<ge>T. T' < cooldown_until_ms b ! unat e \<longleftrightarrow> (\<exists>t. trip = Some t \<and> T' < cooldown_until dur t))"

lemma cell_agrees_step:
  assumes "cell_agrees e dur trip T b" and "T \<le> cooldown_time op"
  shows "cell_agrees e dur (last_trip e [op] trip) (cooldown_time op) (cooldown_step b op)"
proof (cases op)
  case (CoolTrip e' now)
  with assms show ?thesis
    by (auto simp: cell_agrees_def cooldown_trip_def Let_def nth_list_update simp flip: word_unat_eq_iff)
next
  case (CoolCheck e' now)
  with assms show ?thesis
    by (auto simp: cell_agrees_def cooldown_check_def Let_def nth_list_update simp flip: word_unat_eq_iff)
qed


lemma last_trip_Cons: "last_trip e (op # ops) acc = last_trip e ops (last_trip e [op] acc)"
  by (cases op) simp_all

lemma cell_agrees_run:
  assumes "cell_agrees e dur trip T b" and "sorted (T # map cooldown_time ops @ [now])"
  shows "cell_agrees e dur (last_trip e ops trip) now (run cooldown_step b ops)"
  using assms
proof (induction ops arbitrary: b trip T)
  case Nil
  then show ?case by (auto simp: cell_agrees_def)
next
  case (Cons op ops)
  have t: "T \<le> cooldown_time op" "sorted (cooldown_time op # map cooldown_time ops @ [now])"
    using Cons.prems(2) by simp_all
  from Cons.IH [OF cell_agrees_step [OF Cons.prems(1) t(1)] t(2)] show ?case
    by (simp add: last_trip_Cons [of e op ops])
qed

text \<open>
  an exchange in cooldown is refused exactly while its cooldown lasts.  After any sequence of trips
  and checks of any exchanges, read from a clock that does not go back, a check of a known
  exchange is refused if and only if the exchange was tripped and the configured duration since
  its last trip has not passed; trips and checks of other exchanges do not matter.
\<close>

theorem cooldown_exact:
  assumes "unat e < n" and "sorted (map cooldown_time ops @ [now])"
  shows "fst (cooldown_check e now (run cooldown_step (cooldown_new n dur) ops)) \<noteq> Inr () \<longleftrightarrow>
    (\<exists>t. last_trip e ops None = Some t \<and> now < cooldown_until dur t)"
proof -
  have "cell_agrees e dur None 0 (cooldown_new n dur)" using assms(1) by (simp add: cell_agrees_def cooldown_new_def)
  from cell_agrees_run [OF this, of ops now] assms(2)
  have "cell_agrees e dur (last_trip e ops None) now (run cooldown_step (cooldown_new n dur) ops)" by simp
  then show ?thesis by (auto simp: cell_agrees_def cooldown_check_def Let_def)
qed

theorem cooldown_exact_witness:
  "fst (cooldown_check 3 60000 (run cooldown_step (cooldown_new 17 60) [CoolTrip 3 1000, CoolCheck 4 2000])) \<noteq> Inr () \<and>
   fst (cooldown_check 3 61000 (run cooldown_step (cooldown_new 17 60) [CoolTrip 3 1000, CoolCheck 4 2000])) = Inr ()"
proof -
  have "cooldown_until 60 1000 = 61000" by (simp add: cooldown_until_def saturating_add_def saturating_mul_def)
  with cooldown_exact [of 3 17 "[CoolTrip 3 1000, CoolCheck 4 2000]" 60000 60]
    cooldown_exact [of 3 17 "[CoolTrip 3 1000, CoolCheck 4 2000]" 61000 60]
  show ?thesis by auto
qed

section \<open>The daily limit: correctness\<close>

datatype daily_op = RecordPnl i64 | CheckLimit u32 | SetLimit u64

fun daily_step :: "daily_pnl \<Rightarrow> daily_op \<Rightarrow> daily_pnl" where
  "daily_step p (RecordPnl x) = record_daily_pnl x p"
| "daily_step p (CheckLimit today) = snd (check_daily_loss_limit today p)"
| "daily_step p (SetLimit c) = set_daily_loss_limit_cents c p"

text \<open>The ledger: the day of the last check and the losses recorded since a check changed it.\<close>

fun ledger_step :: "u32 \<times> int \<Rightarrow> daily_op \<Rightarrow> u32 \<times> int" where
  "ledger_step (d, loss) (RecordPnl x) = (d, if sint x < 0 then loss - sint x else loss)"
| "ledger_step (d, loss) (CheckLimit today) = (today, if today = d then loss else 0)"
| "ledger_step (d, loss) (SetLimit c) = (d, loss)"

definition ledger_of :: "u32 \<times> int \<Rightarrow> daily_pnl \<Rightarrow> bool" where
  "ledger_of l p \<longleftrightarrow> daily_reset_day p = fst l \<and> daily_loss_cents p = word_of_int (snd l) \<and> 0 \<le> snd l"

lemma ledger_of_step: "ledger_of l p \<Longrightarrow> ledger_of (ledger_step l op) (daily_step p op)"
proof (cases op)
  case (RecordPnl x)
  assume l: "ledger_of l p"
  have "\<not> 2 ^ 64 - 1 < - sint x" using sint_range(1) [of x] by simp
  with l RecordPnl show ?thesis
    by (cases l) (auto simp: ledger_of_def record_daily_pnl_def Let_def wi_hom_add [symmetric] simp flip: wi_hom_sub)
qed (cases l; auto simp: ledger_of_def check_daily_loss_limit_def check_daily_reset_def set_daily_loss_limit_cents_def Let_def)+

lemma ledger_of_run: "ledger_of l p \<Longrightarrow> ledger_of (foldl ledger_step l ops) (run daily_step p ops)"
  by (induction ops arbitrary: l p) (auto simp: ledger_of_step)

text \<open>
  C26: the daily limit halts trading exactly when the losses of the day reach it.  After any sequence of
  recorded results, checks and changes of the limit, a check refuses if and only if the losses
  recorded since the check that started the current day, which are less than \<open>2\<^sup>6\<^sup>4\<close> cents, are at least the limit.
\<close>

theorem daily_limit_exact:
  assumes "daily_loss_cents p = 0" and "daily_reset_day p = d0"
    and "(day, loss) = foldl ledger_step (d0, 0) (ops @ [CheckLimit today])" and "loss < 2 ^ 64"
  shows "fst (check_daily_loss_limit today (run daily_step p ops)) \<noteq> Inr () \<longleftrightarrow>
    uint (daily_loss_limit_cents (run daily_step p ops)) \<le> loss"
proof -
  let ?p = "run daily_step p ops"
  have "ledger_of (d0, 0) p" using assms(1,2) by (simp add: ledger_of_def)
  from ledger_of_run [OF this, of "ops @ [CheckLimit today]"] assms(3)
  have "daily_loss_cents (snd (check_daily_loss_limit today ?p)) = word_of_int loss" "0 \<le> loss"
    by (auto simp: ledger_of_def) (metis snd_conv)+
  then have "uint (daily_loss_cents (snd (check_daily_loss_limit today ?p))) = loss"
    using assms(4) by (simp add: uint_word_of_int_eq take_bit_int_eq_self)
  then show ?thesis
    by (auto simp: check_daily_loss_limit_def check_daily_reset_def Let_def word_le_def split: if_splits)
qed


definition sample_day :: daily_pnl where
  "sample_day = \<lparr>daily_loss_cents = 0, daily_profit_cents = 0, daily_reset_day = 12, daily_loss_limit_cents = 500\<rparr>"

theorem daily_limit_exact_witness:
  "fst (check_daily_loss_limit 12 (run daily_step sample_day [RecordPnl (- 300), RecordPnl 700, RecordPnl (- 200)])) \<noteq> Inr ()"
proof -
  let ?ops = "[RecordPnl (- 300), RecordPnl 700, RecordPnl (- 200)]"
  have "(12, 500) = foldl ledger_step (12, 0) (?ops @ [CheckLimit 12])" by simp
  from daily_limit_exact [OF _ _ this, of sample_day] show ?thesis
    by (simp add: sample_day_def record_daily_pnl_def Let_def)
qed

text \<open>
  The day changes only at a check: a loss recorded after midnight and before the first check of
  the new day is erased by that check.  Days are numbered within their year, so a check on
  the same day of the next year erases nothing.
\<close>

lemma loss_after_midnight_is_erased:
  assumes "today \<noteq> daily_reset_day p" and "0 < daily_loss_limit_cents p"
  shows "fst (check_daily_loss_limit today (record_daily_pnl x p)) = Inr ()"
  using assms by (auto simp: check_daily_loss_limit_def check_daily_reset_def record_daily_pnl_def Let_def word_gt_0)

end
