(* ===== verification/Nonce_Manager.thy ===== *)
theory Nonce_Manager
  imports Atomic_Cell
begin

text \<open>
  Request nonces: the per-exchange counters of \<^verbatim>\<open>src/src/nonce_manager.rs\<close> and, from
  \<^verbatim>\<open>src/src/exchange/common.rs\<close>, the Kraken nonce generator and the request throttle.  The loops on
  atomic cells take a schedule, as in \<^verbatim>\<open>Atomic_Cell\<close>; \<^verbatim>\<open>fetch_update\<close> is the same loop.
\<close>

section \<open>The nonce manager\<close>

record exchange_nonce =
  current :: u64
  nonce_name :: string

definition exchange_nonce_new :: "string \<Rightarrow> u64 \<Rightarrow> exchange_nonce" where
  "exchange_nonce_new name initial = \<lparr>current = initial, nonce_name = name\<rparr>"

definition nonce_bump :: "u64 \<Rightarrow> u64 option" where
  "nonce_bump v = checked_add v 1"

text \<open>
  \<^verbatim>\<open>fetch_update\<close> returns the value it replaced, or an error when the function gives \<open>None\<close>.  A
  schedule that ends before the loop returns gives no nonce.
\<close>

definition nonce_next :: "u64 schedule \<Rightarrow> exchange_nonce \<Rightarrow> u64 option \<times> exchange_nonce" where
  "nonce_next sched n =
     (case cas_loop nonce_bump sched (current n) of
        None \<Rightarrow> (None, n\<lparr>current := others sched (current n)\<rparr>)
      | Some (v, v') \<Rightarrow> (if nonce_bump v = None then None else Some v, n\<lparr>current := v'\<rparr>))"

definition nonce_raise :: "u64 \<Rightarrow> u64 \<Rightarrow> u64 option" where
  "nonce_raise min_value v = (if min_value \<le> v then None else Some min_value)"

definition ensure_min :: "u64 schedule \<Rightarrow> u64 \<Rightarrow> exchange_nonce \<Rightarrow> exchange_nonce" where
  "ensure_min sched min_value n = n\<lparr>current := cas_result (nonce_raise min_value) sched (current n)\<rparr>"

type_synonym api_nonce_manager = "string \<rightharpoonup> exchange_nonce"

definition nonce_manager_new :: api_nonce_manager where
  "nonce_manager_new = Map.empty"

definition register_exchange :: "string \<Rightarrow> u64 \<Rightarrow> api_nonce_manager \<Rightarrow> api_nonce_manager" where
  "register_exchange exchange_id initial_nonce m =
     m(to_lowercase exchange_id \<mapsto> exchange_nonce_new exchange_id initial_nonce)"

definition next_nonce ::
  "u64 schedule \<Rightarrow> string \<Rightarrow> api_nonce_manager \<Rightarrow> u64 option \<times> api_nonce_manager" where
  "next_nonce sched exchange_id m =
     (case m (to_lowercase exchange_id) of
        None \<Rightarrow> (None, m)
      | Some n \<Rightarrow> (case nonce_next sched n of (r, n') \<Rightarrow> (r, m(to_lowercase exchange_id \<mapsto> n'))))"

definition current_nonce :: "string \<Rightarrow> api_nonce_manager \<Rightarrow> u64 option" where
  "current_nonce exchange_id m = map_option current (m (to_lowercase exchange_id))"

definition set_nonce :: "u64 schedule \<Rightarrow> string \<Rightarrow> u64 \<Rightarrow> api_nonce_manager \<Rightarrow> api_nonce_manager" where
  "set_nonce sched exchange_id v m =
     (case m (to_lowercase exchange_id) of
        None \<Rightarrow> m
      | Some n \<Rightarrow> m(to_lowercase exchange_id \<mapsto> ensure_min sched v n))"

definition force_set_nonce :: "string \<Rightarrow> u64 \<Rightarrow> api_nonce_manager \<Rightarrow> api_nonce_manager" where
  "force_set_nonce exchange_id v m =
     (case m (to_lowercase exchange_id) of
        None \<Rightarrow> m
      | Some n \<Rightarrow> m(to_lowercase exchange_id \<mapsto> n\<lparr>current := v\<rparr>))"

definition sync_with_server :: "u64 schedule \<Rightarrow> string \<Rightarrow> u64 \<Rightarrow> api_nonce_manager \<Rightarrow> api_nonce_manager" where
  "sync_with_server sched exchange_id server_nonce m =
     (case m (to_lowercase exchange_id) of
        None \<Rightarrow> m
      | Some n \<Rightarrow> m(to_lowercase exchange_id \<mapsto> ensure_min sched server_nonce n))"

text \<open>
  The operations; the number is how often the exchange of a loop fails spuriously before it
  succeeds.
\<close>

datatype nonce_op =
    Register string u64
  | NextNonce nat string
  | SetNonce nat string u64
  | ForceSet string u64
  | SyncServer nat string u64

fun nonce_step :: "api_nonce_manager \<Rightarrow> nonce_op \<Rightarrow> api_nonce_manager" where
  "nonce_step m (Register x v) = register_exchange x v m"
| "nonce_step m (NextNonce n x) = snd (next_nonce (spurious n) x m)"
| "nonce_step m (SetNonce n x v) = set_nonce (spurious n) x v m"
| "nonce_step m (ForceSet x v) = force_set_nonce x v m"
| "nonce_step m (SyncServer n x v) = sync_with_server (spurious n) x v m"

fun nonce_key :: "nonce_op \<Rightarrow> string" where
  "nonce_key (Register x v) = x"
| "nonce_key (NextNonce n x) = x"
| "nonce_key (SetNonce n x v) = x"
| "nonce_key (ForceSet x v) = x"
| "nonce_key (SyncServer n x v) = x"

section \<open>Isolation of the exchanges\<close>

lemma nonce_next_spurious:
  "nonce_next (spurious n) c =
     (if current c = - 1 then (None, c) else (Some (current c), c\<lparr>current := current c + 1\<rparr>))"
proof (cases "current c = - 1")
  case True
  then show ?thesis by (cases c) (simp add: nonce_next_def nonce_bump_def checked_add_def unat_minus_1_word)
next
  case False
  then have "unat (current c) \<noteq> 2 ^ 64 - 1" by (auto simp: word_unat_eq_iff unat_minus_1_word)
  with unat_le_max [of "current c"] have "unat (current c) + unat (1 :: u64) < 2 ^ 64" by simp
  with False show ?thesis by (simp add: nonce_next_def nonce_bump_def checked_add_def)
qed

lemma ensure_min_spurious: "ensure_min (spurious n) v c = c\<lparr>current := max (current c) v\<rparr>"
  by (cases c) (auto simp: ensure_min_def nonce_raise_def max_def)

text \<open>What an operation does to the entry it addresses.\<close>

fun nonce_entry :: "exchange_nonce option \<Rightarrow> nonce_op \<Rightarrow> exchange_nonce option" where
  "nonce_entry e (Register x v) = Some (exchange_nonce_new x v)"
| "nonce_entry e (NextNonce n x) = map_option (\<lambda>c. snd (nonce_next (spurious n) c)) e"
| "nonce_entry e (SetNonce n x v) = map_option (\<lambda>c. c\<lparr>current := max (current c) v\<rparr>) e"
| "nonce_entry e (ForceSet x v) = map_option (\<lambda>c. c\<lparr>current := v\<rparr>) e"
| "nonce_entry e (SyncServer n x v) = map_option (\<lambda>c. c\<lparr>current := max (current c) v\<rparr>) e"

definition nonce_hits :: "nonce_op \<Rightarrow> string \<Rightarrow> bool" where
  "nonce_hits opn k \<longleftrightarrow> to_lowercase (nonce_key opn) = to_lowercase k"

definition nonce_lookup :: "api_nonce_manager \<Rightarrow> string \<Rightarrow> exchange_nonce option" where
  "nonce_lookup m k = m (to_lowercase k)"

lemmas nonce_defs = register_exchange_def next_nonce_def set_nonce_def force_set_nonce_def
  sync_with_server_def nonce_hits_def nonce_lookup_def ensure_min_spurious

interpretation nonces: keyed_store nonce_lookup nonce_step nonce_hits nonce_entry
proof
  fix opn k m
  show "nonce_hits opn k \<Longrightarrow> nonce_lookup (nonce_step m opn) k = nonce_entry (nonce_lookup m k) opn"
    by (cases opn) (auto simp: nonce_defs split: option.splits prod.splits)
  show "\<not> nonce_hits opn k \<Longrightarrow> nonce_lookup (nonce_step m opn) k = nonce_lookup m k"
    by (cases opn) (auto simp: nonce_defs split: option.splits prod.splits)
qed

section \<open>Strictly increasing nonces\<close>

text \<open>The calls on one exchange that may lower its counter: registering it again and forcing it.\<close>

fun disruptive :: "string \<Rightarrow> nonce_op \<Rightarrow> bool" where
  "disruptive k (Register x v) \<longleftrightarrow> to_lowercase x = to_lowercase k"
| "disruptive k (ForceSet x v) \<longleftrightarrow> to_lowercase x = to_lowercase k"
| "disruptive k _ \<longleftrightarrow> False"

fun issued_nonce :: "string \<Rightarrow> api_nonce_manager \<Rightarrow> nonce_op \<Rightarrow> u64 option" where
  "issued_nonce k m (NextNonce n x) =
     (if to_lowercase x = to_lowercase k then fst (next_nonce (spurious n) x m) else None)"
| "issued_nonce k m _ = None"

definition nonce_exec :: "string \<Rightarrow> api_nonce_manager \<Rightarrow> nonce_op \<Rightarrow> api_nonce_manager \<times> u64 option" where
  "nonce_exec k m opn = (nonce_step m opn, issued_nonce k m opn)"

definition quiet_exec :: "string \<Rightarrow> api_nonce_manager \<Rightarrow> nonce_op \<Rightarrow> api_nonce_manager \<times> u64 option" where
  "quiet_exec k m opn = (if disruptive k opn then (m, None) else nonce_exec k m opn)"

definition nonce_floor :: "string \<Rightarrow> api_nonce_manager \<Rightarrow> u64" where
  "nonce_floor k m = (case nonce_lookup m k of None \<Rightarrow> 0 | Some c \<Rightarrow> current c)"

lemma word_less_Suc: "v \<noteq> - 1 \<Longrightarrow> v < v + 1" for v :: u64
proof -
  assume "v \<noteq> - 1"
  then have "unat v \<noteq> 2 ^ 64 - 1" by (auto simp: word_unat_eq_iff unat_minus_1_word)
  with unat_le_max [of v] have "unat v + 1 < 2 ^ 64" by simp
  then show "v < v + 1" by (simp add: word_less_nat_alt unat_word_ariths)
qed

lemma nonce_floor_step:
  assumes "\<not> disruptive k opn"
  shows "nonce_floor k m \<le> nonce_floor k (nonce_step m opn)"
proof (cases "nonce_hits opn k")
  case True
  have up: "v \<noteq> - 1 \<Longrightarrow> v \<le> v + 1" for v :: u64 using word_less_Suc by (simp add: less_imp_le)
  have "nonce_lookup (nonce_step m opn) k = nonce_entry (nonce_lookup m k) opn" by (rule nonces.hit [OF True])
  then show ?thesis using assms True
    by (cases opn; cases "nonce_lookup m k") (auto simp: nonce_floor_def nonce_next_spurious nonce_hits_def up)
next
  case False
  then show ?thesis by (simp add: nonce_floor_def nonces.miss)
qed

interpretation issue: dispenser "quiet_exec k" "nonce_floor k" for k
proof
  fix m opn v
  show "nonce_floor k m \<le> nonce_floor k (fst (quiet_exec k m opn))"
    using nonce_floor_step by (simp add: quiet_exec_def nonce_exec_def)
  show "nonce_floor k m \<le> v \<and> v < nonce_floor k (fst (quiet_exec k m opn))"
    if "snd (quiet_exec k m opn) = Some v"
  proof -
    from that obtain n x where o: "opn = NextNonce n x" "to_lowercase x = to_lowercase k"
      by (cases opn) (auto simp: quiet_exec_def nonce_exec_def split: if_splits)
    with that show ?thesis
      by (cases "m (to_lowercase k)")
        (auto simp: quiet_exec_def nonce_exec_def next_nonce_def nonce_next_spurious nonce_floor_def
          nonce_lookup_def word_less_Suc split: if_splits)
  qed
qed

lemma quiet_trace: "(\<And>opn. opn \<in> set ops \<Longrightarrow> \<not> disruptive k opn) \<Longrightarrow>
  trace (quiet_exec k) m ops = trace (nonce_exec k) m ops"
  by (induction ops arbitrary: m) (auto simp: quiet_exec_def nonce_exec_def split: prod.splits)

text \<open>
  C28: an exchange never sees a nonce twice.  Over every sequence of calls, on any exchanges under
  any capitalisation of their names, in which this exchange is neither registered again nor forced,
  the nonces handed out for it are strictly increasing, and calls on other exchanges do not affect its counter.
\<close>

theorem nonces_strictly_increase:
  assumes "\<forall>opn \<in> set ops. \<not> disruptive k opn"
  shows "sorted_wrt (<) (trace (nonce_exec k) m ops) \<and> distinct (trace (nonce_exec k) m ops) \<and>
    nonce_lookup (run nonce_step m ops) k =
      foldl nonce_entry (nonce_lookup m k) (filter (\<lambda>opn. nonce_hits opn k) ops)"
  using issue.trace_strictly_increasing [of k m ops] issue.trace_distinct [of k m ops]
    quiet_trace [of ops k m] assms nonces.lookup_run by simp

definition sample_nonces :: api_nonce_manager where
  "sample_nonces = register_exchange ''Kraken'' 7 (register_exchange ''okx'' 3 nonce_manager_new)"

theorem nonces_strictly_increase_witness:
  "sorted_wrt (<) (trace (nonce_exec ''KRAKEN'') sample_nonces
     [NextNonce 0 ''kraken'', NextNonce 2 ''OKX'', SyncServer 0 ''kraken'' 50, NextNonce 1 ''Kraken''])"
  using nonces_strictly_increase [of "[NextNonce 0 ''kraken'', NextNonce 2 ''OKX'', SyncServer 0 ''kraken'' 50,
    NextNonce 1 ''Kraken'']" "''KRAKEN''" sample_nonces] by simp

section \<open>Concurrent callers\<close>

datatype counter_op = Bump | RaiseTo u64

fun counter_attempt :: "counter_op \<Rightarrow> u64 \<Rightarrow> u64 option" where
  "counter_attempt Bump v = nonce_bump v"
| "counter_attempt (RaiseTo x) v = nonce_raise x v"

text \<open>The nonces that the committed calls returned, in the order in which they took effect.\<close>

fun issued :: "u64 \<Rightarrow> counter_op list \<Rightarrow> u64 list" where
  "issued v [] = []"
| "issued v (opn # ops) =
     (case opn of Bump \<Rightarrow> [v] | RaiseTo x \<Rightarrow> []) @
     (case counter_attempt opn v of None \<Rightarrow> [] | Some v' \<Rightarrow> issued v' ops)"

lemma counter_attempt_strict: "counter_attempt opn v = Some v' \<Longrightarrow> v < v'"
  by (cases opn) (auto simp: nonce_bump_def nonce_raise_def checked_add_eq_Some word_less_nat_alt word_le_nat_alt split: if_splits)

interpretation counter: cas_monotone counter_attempt
  by unfold_locales (blast dest: counter_attempt_strict intro: less_imp_le)

lemma issued_bounds:
  "replay counter_attempt v ops = Some w \<Longrightarrow> x \<in> set (issued v ops) \<Longrightarrow> v \<le> x \<and> x < w"
proof (induction ops arbitrary: v)
  case (Cons opn ops)
  then obtain v' where v': "counter_attempt opn v = Some v'" "replay counter_attempt v' ops = Some w"
    by (auto split: option.splits)
  have lt: "v < v'" by (rule counter_attempt_strict [OF v'(1)])
  have "v' \<le> w" using counter.replay_ok [of v' v' ops w] v'(2) by simp
  with Cons.IH [OF v'(2)] Cons.prems(2) v'(1) lt show ?case
    by (auto split: counter_op.splits intro: less_imp_le order_trans)
qed simp

lemma issued_increasing: "replay counter_attempt v ops = Some w \<Longrightarrow> sorted_wrt (<) (issued v ops)"
proof (induction ops arbitrary: v)
  case (Cons opn ops)
  then obtain v' where v': "counter_attempt opn v = Some v'" "replay counter_attempt v' ops = Some w"
    by (auto split: option.splits)
  have "v < x" if "x \<in> set (issued v' ops)" for x
    using issued_bounds [OF v'(2) that] counter_attempt_strict [OF v'(1)] by (auto intro: less_le_trans)
  with Cons.IH [OF v'(2)] v'(1) show ?case by (cases opn) auto
qed simp

text \<open>
  no two threads get the same nonce.  Under every interleaving of threads that draw nonces and
  synchronise the counter with the server on one exchange, the nonces drawn are strictly increasing in the order in
  which the draws took effect, and all lie below the counter.
\<close>

theorem concurrent_nonces_unique:
  assumes "cas_reachable counter_attempt v0 st"
  shows "sorted_wrt (<) (issued v0 (commits st)) \<and> v0 \<le> cell st \<and>
    (\<forall>x \<in> set (issued v0 (commits st)). v0 \<le> x \<and> x < cell st)"
  using cas_linearizable [OF assms] issued_increasing issued_bounds counter.reachable_mono [OF assms] by blast

lemma counter_race: "cas_reachable counter_attempt 5 \<lparr>cell = 6, pcs = (\<lambda>_. Idle)(1 := Loaded Bump 5), commits = [Bump]\<rparr>"
proof -
  let ?r = "cas_reachable counter_attempt 5" and ?s0 = "cell_init 5 :: (u64, counter_op) cell_state"
  let ?s1 = "?s0\<lparr>pcs := (pcs ?s0)(0 := Loaded Bump (cell ?s0))\<rparr>"
  let ?s2 = "?s1\<lparr>pcs := (pcs ?s1)(1 := Loaded Bump (cell ?s1))\<rparr>"
  have "?r ?s1" by (rule cas_reachable.step [OF cas_reachable.start cas_step.load]) (simp add: cell_init_def)
  then have "?r ?s2" by (rule cas_reachable.step [OF _ cas_step.load]) (simp add: cell_init_def)
  moreover have "cas_step counter_attempt ?s2
      (?s2\<lparr>cell := 6, pcs := (pcs ?s2)(0 := Idle), commits := commits ?s2 @ [Bump]\<rparr>)"
    by (rule cas_step.exchange [where cur = 5]) (simp_all add: cell_init_def nonce_bump_def checked_add_def)
  ultimately have "?r (?s2\<lparr>cell := 6, pcs := (pcs ?s2)(0 := Idle), commits := commits ?s2 @ [Bump]\<rparr>)"
    by (rule cas_reachable.step)
  then show ?thesis by (simp add: cell_init_def fun_upd_twist fun_upd_idem)
qed

theorem concurrent_nonces_unique_witness:
  "\<exists>st. cas_reachable counter_attempt 5 st \<and> commits st = [Bump] \<and> (\<forall>x \<in> set (issued 5 (commits st)). x < cell st)"
  using concurrent_nonces_unique [OF counter_race] counter_race by fastforce

end
