(* ===== verification/Exchange_Common.thy ===== *)
theory Exchange_Common
  imports Rust_Prelude
begin

text \<open>
  The request throttle and the Kraken nonce generator of \<^verbatim>\<open>src/src/exchange/common.rs\<close>.
\<close>

section \<open>Throttle\<close>

record throttle_limiter =
  min_interval_us :: u64
  last_call :: u64

definition throttle_new :: "u64 \<Rightarrow> throttle_limiter" where
  "throttle_new requests_per_second =
     \<lparr>min_interval_us = 1000000 div max requests_per_second 1, last_call = 0\<rparr>"

text \<open>
  One round of the loop: the clock reading, what other callers did to the cell before the load, and
  whether the exchange succeeds.  A round in which the call is too early sleeps and starts over.  The
  result is the value the successful exchange replaced, the time it stored, and the rounds left.
\<close>

type_synonym throttle_round = "u64 \<times> (u64 \<Rightarrow> u64) \<times> bool"

fun throttle_loop :: "u64 \<Rightarrow> throttle_round list \<Rightarrow> u64 \<Rightarrow> (u64 \<times> u64) option" where
  "throttle_loop interval [] v = None"
| "throttle_loop interval ((now_us, g, ok) # rounds) v =
     (let prev = g v; next_allowed = saturating_add prev interval
      in if prev = 0 \<or> next_allowed \<le> now_us
         then if ok then Some (prev, now_us) else throttle_loop interval rounds prev
         else throttle_loop interval rounds prev)"

definition throttle :: "throttle_round list \<Rightarrow> throttle_limiter \<Rightarrow> throttle_limiter option" where
  "throttle rounds l =
     map_option (\<lambda>(prev, now_us). l\<lparr>last_call := now_us\<rparr>)
       (throttle_loop (min_interval_us l) rounds (last_call l))"

lemma throttle_loop_sound:
  "throttle_loop interval rounds v = Some (prev, now) \<Longrightarrow> prev = 0 \<or> saturating_add prev interval \<le> now"
  by (induction interval rounds v rule: throttle_loop.induct) (auto simp: Let_def split: if_splits)

text \<open>Calls that run one after the other: every round finds the cell as the previous call left it.\<close>

definition undisturbed :: "throttle_round list \<Rightarrow> bool" where
  "undisturbed rounds \<longleftrightarrow> (\<forall>(now, g, ok) \<in> set rounds. g = id)"

lemma throttle_loop_undisturbed:
  "undisturbed rounds \<Longrightarrow> throttle_loop interval rounds v = Some (prev, now) \<Longrightarrow> prev = v"
  by (induction interval rounds v rule: throttle_loop.induct)
    (auto simp: undisturbed_def Let_def split: if_splits)

lemma throttle_loop_returns:
  assumes "v + interval < 2 ^ 64" "(now, id, True) \<in> set rounds" "v + interval \<le> unat now" "undisturbed rounds"
  shows "\<exists>r. throttle_loop (word_of_nat interval) rounds (word_of_nat v) = Some r"
  using assms(2,4)
proof (induction rounds)
  case (Cons x rounds)
  obtain n g ok where x: "x = (n, g, ok)" by (metis prod.exhaust)
  have g: "g = id" "undisturbed rounds" using Cons.prems x by (auto simp: undisturbed_def)
  have small: "unat (word_of_nat v :: u64) = v" "unat (word_of_nat interval :: u64) = interval"
    using assms(1) by (simp_all add: unat_of_nat)
  have "saturating_add (word_of_nat v) (word_of_nat interval) \<le> now"
    using assms(1,3) by (simp add: word_le_nat_alt unat_saturating_add small min_def)
  with Cons g x show ?case by (auto simp: Let_def)
qed simp

fun admitted :: "throttle_limiter \<Rightarrow> throttle_round list list \<Rightarrow> u64 list option" where
  "admitted l [] = Some []"
| "admitted l (c # cs) =
     (case throttle c l of
        None \<Rightarrow> None
      | Some l' \<Rightarrow> map_option (\<lambda>ts. last_call l' # ts) (admitted l' cs))"

definition spaced :: "u64 \<Rightarrow> u64 list \<Rightarrow> bool" where
  "spaced interval ts \<longleftrightarrow>
     (\<forall>i. Suc i < length ts \<longrightarrow> ts ! i \<noteq> 0 \<longrightarrow> saturating_add (ts ! i) interval \<le> ts ! Suc i)"

lemma admitted_spaced:
  assumes "admitted l cs = Some ts" "list_all undisturbed cs" "last_call l \<noteq> 0"
  shows "spaced (min_interval_us l) (last_call l # ts)"
  using assms
proof (induction cs arbitrary: l ts)
  case Nil
  then show ?case by (simp add: spaced_def)
next
  case (Cons c cs)
  then obtain prev now ts' where
    t: "throttle_loop (min_interval_us l) c (last_call l) = Some (prev, now)"
    and ts: "ts = now # ts'" "admitted (l\<lparr>last_call := now\<rparr>) cs = Some ts'"
    by (auto simp: throttle_def split: option.splits)
  have now: "saturating_add (last_call l) (min_interval_us l) \<le> now"
    using throttle_loop_sound [OF t] throttle_loop_undisturbed [OF _ t] Cons.prems by auto
  then have "now \<noteq> 0" using Cons.prems(3) saturating_add_ge [of "last_call l" "min_interval_us l"]
    by (metis word_le_0_iff order_trans)
  then have "spaced (min_interval_us l) (now # ts')"
    using Cons.IH [OF ts(2)] Cons.prems(2) by simp
  with now show ?case unfolding spaced_def ts(1) by (metis Suc_less_eq length_Cons nth_Cons_0 nth_Cons_Suc not0_implies_Suc)
qed

text \<open>
  the throttle spaces requests.  Of calls made one after the other, each waits until at least
  the minimum interval after the moment the call before it was admitted, whatever the clock readings, the sleeps and the
  spurious failures in between; and a call returns as soon as one round with a late enough clock reading
  has a successful exchange.
\<close>

theorem throttle_spaces_requests:
  assumes "list_all undisturbed cs" and "admitted l cs = Some ts" and "last_call l \<noteq> 0"
  shows "spaced (min_interval_us l) (last_call l # ts) \<and>
    (unat (last_call l) + unat (min_interval_us l) < 2 ^ 64 \<longrightarrow> undisturbed c \<longrightarrow>
      (\<exists>now. (now, id, True) \<in> set c \<and> unat (last_call l) + unat (min_interval_us l) \<le> unat now) \<longrightarrow>
      (\<exists>l'. throttle c l = Some l'))"
proof -
  have "\<exists>l'. throttle c l = Some l'"
    if "unat (last_call l) + unat (min_interval_us l) < 2 ^ 64" "undisturbed c" "(now, id, True) \<in> set c"
      "unat (last_call l) + unat (min_interval_us l) \<le> unat now" for now
    using throttle_loop_returns [OF that(1,3,4,2)] by (auto simp: throttle_def)
  with admitted_spaced [OF assms(2,1,3)] show ?thesis by blast
qed

theorem throttle_spaces_requests_witness:
  "let cs = [[(50, id, True), (120, id, False), (130, id, True)], [(200, id, True), (231, id, True)]] in
   admitted \<lparr>min_interval_us = 100, last_call = 7\<rparr> cs = Some [130, 231] \<and>
   spaced 100 (7 # [130, 231])"
  using throttle_spaces_requests [of "[[(50, id, True), (120, id, False), (130, id, True)], [(200, id, True), (231, id, True)]]"
      "\<lparr>min_interval_us = 100, last_call = 7\<rparr>" "[130, 231]"]
  by (simp add: undisturbed_def throttle_def Let_def saturating_add_def)

section \<open>Kraken nonces\<close>

record kraken_nonce =
  kraken_last :: u64

definition kraken_new :: "u64 \<Rightarrow> kraken_nonce" where
  "kraken_new now_ms = \<lparr>kraken_last = now_ms\<rparr>"

definition kraken_next :: "kraken_nonce \<Rightarrow> u64 \<times> kraken_nonce" where
  "kraken_next k = (let v = saturating_add (kraken_last k) 1 in (v, k\<lparr>kraken_last := v\<rparr>))"

definition sync_to :: "u64 \<Rightarrow> kraken_nonce \<Rightarrow> u64 \<times> kraken_nonce" where
  "sync_to server_nonce k =
     (let v = (if kraken_last k \<le> server_nonce then server_nonce + 1 else kraken_last k)
      in (v, k\<lparr>kraken_last := v\<rparr>))"

datatype kraken_op = KNext | KSync u64

fun kraken_exec :: "kraken_nonce \<Rightarrow> kraken_op \<Rightarrow> kraken_nonce \<times> u64 option" where
  "kraken_exec k KNext = (snd (kraken_next k), Some (fst (kraken_next k)))"
| "kraken_exec k (KSync s) = (snd (sync_to s k), None)"

fun kraken_servers :: "kraken_op list \<Rightarrow> u64 list" where
  "kraken_servers [] = []"
| "kraken_servers (KNext # ops) = kraken_servers ops"
| "kraken_servers (KSync s # ops) = s # kraken_servers ops"

lemma kraken_trace_bounds:
  assumes "\<forall>x \<in> set (kraken_last k # kraken_servers ops). unat x + length ops < 2 ^ 64"
  shows "sorted_wrt (<) (trace kraken_exec k ops) \<and> (\<forall>v \<in> set (trace kraken_exec k ops). kraken_last k < v)"
  using assms
proof (induction ops arbitrary: k)
  case (Cons opn ops)
  show ?case
  proof (cases opn)
    case KNext
    have b: "unat (kraken_last k) + Suc (length ops) < 2 ^ 64" using Cons.prems by simp
    then have v: "unat (saturating_add (kraken_last k) 1) = unat (kraken_last k) + 1"
      by (simp add: unat_saturating_add)
    let ?k = "k\<lparr>kraken_last := saturating_add (kraken_last k) 1\<rparr>"
    have "\<forall>x \<in> set (kraken_last ?k # kraken_servers ops). unat x + length ops < 2 ^ 64"
      using Cons.prems KNext b v by fastforce
    note IH = Cons.IH [OF this]
    have "kraken_last k < saturating_add (kraken_last k) 1" using v by (simp add: word_less_nat_alt)
    with IH KNext show ?thesis by (auto simp: kraken_next_def Let_def)
  next
    case (KSync s)
    let ?v = "if kraken_last k \<le> s then s + 1 else kraken_last k"
    have b: "unat s + Suc (length ops) < 2 ^ 64" "unat (kraken_last k) + Suc (length ops) < 2 ^ 64"
      using Cons.prems KSync by simp_all
    then have s: "unat (s + 1) = unat s + 1" by (simp add: unat_word_ariths)
    have "\<forall>x \<in> set (kraken_last (k\<lparr>kraken_last := ?v\<rparr>) # kraken_servers ops). unat x + length ops < 2 ^ 64"
      using Cons.prems KSync b s by fastforce
    note IH = Cons.IH [OF this]
    have "kraken_last k \<le> ?v" using s by (simp add: word_le_nat_alt)
    then have "kraken_last k < v" if "v \<in> set (trace kraken_exec (k\<lparr>kraken_last := ?v\<rparr>) ops)" for v
      using IH that by (auto intro: le_less_trans)
    with IH KSync show ?thesis by (simp add: sync_to_def Let_def)
  qed
qed simp

text \<open>
  A synchronisation with the largest 64-bit value wraps the counter to 0, so the next nonce is below
  the one before it; saturation then repeats the largest nonce.
\<close>

lemma kraken_sync_wraps:
  "\<not> sorted_wrt (<) (trace kraken_exec k [KNext, KSync (- 1), KNext])"
  "trace kraken_exec (kraken_new (- 1)) [KNext, KNext] = [- 1, - 1]"
proof -
  have "saturating_add 0 1 = (1 :: u64)" by (simp add: saturating_add_def)
  moreover have "\<not> saturating_add (kraken_last k) 1 < 1"
    using unat_le_max [of "kraken_last k"] by (simp add: word_less_nat_alt unat_saturating_add)
  ultimately show "\<not> sorted_wrt (<) (trace kraken_exec k [KNext, KSync (- 1), KNext])"
    by (simp add: kraken_next_def sync_to_def Let_def)
  show "trace kraken_exec (kraken_new (- 1)) [KNext, KNext] = [- 1, - 1]"
    by (simp add: kraken_next_def kraken_new_def saturating_add_def Let_def unat_minus_1_word)
qed

text \<open>
  while the counter and every server value stay clear of \<open>2 ^ 64\<close> by the number of calls, the
  Kraken generator hands out strictly increasing nonces across all calls and synchronisations, all
  above the value it started from.
\<close>

theorem kraken_nonces_increase:
  assumes "\<forall>x \<in> set (kraken_last k # kraken_servers ops). unat x + length ops < 2 ^ 64"
  shows "sorted_wrt (<) (trace kraken_exec k ops) \<and> (\<forall>v \<in> set (trace kraken_exec k ops). kraken_last k < v)"
  by (rule kraken_trace_bounds [OF assms])

theorem kraken_nonces_increase_witness:
  "sorted_wrt (<) (trace kraken_exec (kraken_new 1000) [KNext, KSync 5000, KNext, KSync 3, KNext])"
  using kraken_nonces_increase [of "kraken_new 1000" "[KNext, KSync 5000, KNext, KSync 3, KNext]"]
  by (simp add: kraken_new_def)

end
