(* ===== verification/Rate_Limiter.thy ===== *)
theory Rate_Limiter
  imports Rust_Prelude
begin

text \<open>
  The per-exchange API weight limiter of \<^verbatim>\<open>src/src/rate_limiter.rs\<close>.  Instants and durations are natural
  numbers of nanoseconds (a duration above \<open>2 ^ 64\<close> seconds, whose triple would overflow, is not
  considered), and each reading of the clock is an argument.  The two things the code does with a floating-point
  threshold, testing that it lies in the unit interval and rounding it to basis points, are arguments
  of the registration.
\<close>

section \<open>State of one exchange\<close>

abbreviation DEFAULT_WINDOW_DURATION_SECS :: nat where "DEFAULT_WINDOW_DURATION_SECS \<equiv> 60"
abbreviation DEFAULT_MAX_VIOLATIONS :: u32 where "DEFAULT_MAX_VIOLATIONS \<equiv> 3"
abbreviation EXTENDED_COOLDOWN_MULTIPLIER :: nat where "EXTENDED_COOLDOWN_MULTIPLIER \<equiv> 3"
abbreviation BPS_PER_UNIT :: u64 where "BPS_PER_UNIT \<equiv> 10000"

record exchange_rate_state =
  used_weight :: u64
  max_weight :: u64
  pause_threshold :: u32
  rate_paused :: bool
  paused_at :: "nat option"
  cooldown_duration :: nat
  consecutive_violations :: u32
  max_violations_before_extended :: u32
  window_start :: nat
  window_duration :: nat

datatype rate_limit_status =
    RateOk
  | RatePaused (remaining_ms: u64)
  | RateTripped (tripped_used: u64) (tripped_max: u64) (violations: u32) (cooldown_ms: u64)

definition duration_ms :: "nat \<Rightarrow> u64" where
  "duration_ms d = word_of_nat (d div 1000000)"

definition rate_state_new :: "nat \<Rightarrow> u64 \<Rightarrow> u32 \<Rightarrow> nat \<Rightarrow> exchange_rate_state" where
  "rate_state_new now mx threshold_bps cooldown =
     \<lparr>used_weight = 0, max_weight = mx, pause_threshold = threshold_bps, rate_paused = False,
      paused_at = None, cooldown_duration = cooldown, consecutive_violations = 0,
      max_violations_before_extended = DEFAULT_MAX_VIOLATIONS, window_start = now,
      window_duration = DEFAULT_WINDOW_DURATION_SECS * 1000000000\<rparr>"

definition effective_cooldown :: "exchange_rate_state \<Rightarrow> nat" where
  "effective_cooldown s =
     (if max_violations_before_extended s \<le> consecutive_violations s
      then cooldown_duration s * EXTENDED_COOLDOWN_MULTIPLIER else cooldown_duration s)"

text \<open>The readings of the clock of one call, in the order in which the code makes them.\<close>

record rate_clock =
  t_window :: nat
  t_rotate :: nat
  t_resume :: nat
  t_remaining :: nat
  t_trip :: nat

definition should_resume :: "nat \<Rightarrow> exchange_rate_state \<Rightarrow> bool" where
  "should_resume now s =
     (case paused_at s of None \<Rightarrow> False | Some t \<Rightarrow> effective_cooldown s \<le> now - t)"

definition state_record_weight ::
  "rate_clock \<Rightarrow> u64 \<Rightarrow> exchange_rate_state \<Rightarrow> rate_limit_status \<times> exchange_rate_state" where
  "state_record_weight clk weight s =
     (if window_duration s \<le> t_window clk - window_start s
      then (RateOk, s\<lparr>window_start := t_rotate clk, used_weight := weight\<rparr>)
      else if rate_paused s
      then if should_resume (t_resume clk) s
           then (RateOk, s\<lparr>rate_paused := False, paused_at := None, used_weight := weight,
                           consecutive_violations := 0\<rparr>)
           else (RatePaused (case paused_at s of
                     None \<Rightarrow> 0
                   | Some t \<Rightarrow> duration_ms (effective_cooldown s - (t_remaining clk - t))), s)
      else let prev = used_weight s;
               cur = saturating_add prev weight;
               s1 = s\<lparr>used_weight := prev + weight\<rparr>
           in if max_weight s * ucast (pause_threshold s) \<le> cur * BPS_PER_UNIT
              then let v = saturating_add (consecutive_violations s) 1
                   in (RateTripped cur (max_weight s) v
                         (if max_violations_before_extended s \<le> v
                          then duration_ms (cooldown_duration s) * word_of_nat EXTENDED_COOLDOWN_MULTIPLIER
                          else duration_ms (cooldown_duration s)),
                       s1\<lparr>rate_paused := True, paused_at := Some (t_trip clk),
                          consecutive_violations := consecutive_violations s + 1\<rparr>)
              else (RateOk, s1\<lparr>consecutive_violations := 0\<rparr>))"

definition state_reset_window :: "exchange_rate_state \<Rightarrow> exchange_rate_state" where
  "state_reset_window s =
     s\<lparr>used_weight := 0, consecutive_violations := 0, rate_paused := False, paused_at := None\<rparr>"

section \<open>The limiter\<close>

record 'f rate_limit_breaker =
  exchanges :: "string \<rightharpoonup> exchange_rate_state"
  default_max_weight :: u64
  default_pause_threshold :: 'f
  default_cooldown :: nat

definition rate_limit_breaker_new :: "u64 \<Rightarrow> 'f \<Rightarrow> nat \<Rightarrow> 'f rate_limit_breaker" where
  "rate_limit_breaker_new mx threshold cooldown =
     \<lparr>exchanges = Map.empty, default_max_weight = mx, default_pause_threshold = threshold,
      default_cooldown = cooldown\<rparr>"

text \<open>\<open>None\<close> is a failed assertion.\<close>

definition register_exchange_with_config ::
  "('f \<Rightarrow> bool) \<Rightarrow> ('f \<Rightarrow> u32) \<Rightarrow> nat \<Rightarrow> string \<Rightarrow> u64 \<Rightarrow> 'f \<Rightarrow> nat \<Rightarrow> 'f rate_limit_breaker \<Rightarrow>
   'f rate_limit_breaker option" where
  "register_exchange_with_config in_unit to_bps now exchange_id mx threshold cooldown r =
     (if exchange_id = [] \<or> mx = 0 \<or> \<not> in_unit threshold then None
      else Some (r\<lparr>exchanges := (exchanges r)(to_lowercase exchange_id \<mapsto>
                     rate_state_new now mx (to_bps threshold) cooldown)\<rparr>))"

definition rate_register_exchange ::
  "('f \<Rightarrow> bool) \<Rightarrow> ('f \<Rightarrow> u32) \<Rightarrow> nat \<Rightarrow> string \<Rightarrow> 'f rate_limit_breaker \<Rightarrow> 'f rate_limit_breaker option" where
  "rate_register_exchange in_unit to_bps now exchange_id r =
     register_exchange_with_config in_unit to_bps now exchange_id (default_max_weight r)
       (default_pause_threshold r) (default_cooldown r) r"

definition record_weight ::
  "rate_clock \<Rightarrow> string \<Rightarrow> u64 \<Rightarrow> 'f rate_limit_breaker \<Rightarrow> rate_limit_status \<times> 'f rate_limit_breaker" where
  "record_weight clk exchange_id weight r =
     (case exchanges r (to_lowercase exchange_id) of
        None \<Rightarrow> (RatePaused (- 1), r)
      | Some s \<Rightarrow>
          (case state_record_weight clk weight s of
             (st, s') \<Rightarrow> (st, r\<lparr>exchanges := (exchanges r)(to_lowercase exchange_id \<mapsto> s')\<rparr>)))"

definition rate_is_paused :: "string \<Rightarrow> 'f rate_limit_breaker \<Rightarrow> bool" where
  "rate_is_paused exchange_id r =
     (case exchanges r (to_lowercase exchange_id) of None \<Rightarrow> False | Some s \<Rightarrow> rate_paused s)"

definition reset_window :: "string \<Rightarrow> 'f rate_limit_breaker \<Rightarrow> 'f rate_limit_breaker" where
  "reset_window exchange_id r =
     (case exchanges r (to_lowercase exchange_id) of
        None \<Rightarrow> r
      | Some s \<Rightarrow> r\<lparr>exchanges := (exchanges r)(to_lowercase exchange_id \<mapsto> state_reset_window s)\<rparr>)"

definition reset_all_windows :: "'f rate_limit_breaker \<Rightarrow> 'f rate_limit_breaker" where
  "reset_all_windows r = r\<lparr>exchanges := (\<lambda>k. map_option state_reset_window (exchanges r k))\<rparr>"

definition get_usage :: "string \<Rightarrow> 'f rate_limit_breaker \<Rightarrow> (u64 \<times> u64) option" where
  "get_usage exchange_id r =
     map_option (\<lambda>s. (used_weight s, max_weight s)) (exchanges r (to_lowercase exchange_id))"

datatype rate_op =
    RecordWeight rate_clock string u64
  | ResetWindow string
  | ResetAll

fun rate_step :: "'f rate_limit_breaker \<Rightarrow> rate_op \<Rightarrow> 'f rate_limit_breaker" where
  "rate_step r (RecordWeight clk x w) = snd (record_weight clk x w r)"
| "rate_step r (ResetWindow x) = reset_window x r"
| "rate_step r ResetAll = reset_all_windows r"

section \<open>Isolation\<close>

fun rate_hits :: "rate_op \<Rightarrow> string \<Rightarrow> bool" where
  "rate_hits (RecordWeight clk x w) k \<longleftrightarrow> to_lowercase x = to_lowercase k"
| "rate_hits (ResetWindow x) k \<longleftrightarrow> to_lowercase x = to_lowercase k"
| "rate_hits ResetAll k \<longleftrightarrow> True"

fun rate_entry :: "exchange_rate_state option \<Rightarrow> rate_op \<Rightarrow> exchange_rate_state option" where
  "rate_entry e (RecordWeight clk x w) = map_option (\<lambda>s. snd (state_record_weight clk w s)) e"
| "rate_entry e (ResetWindow x) = map_option state_reset_window e"
| "rate_entry e ResetAll = map_option state_reset_window e"

definition rate_lookup :: "'f rate_limit_breaker \<Rightarrow> string \<Rightarrow> exchange_rate_state option" where
  "rate_lookup r k = exchanges r (to_lowercase k)"

interpretation rates: keyed_store rate_lookup rate_step rate_hits rate_entry
proof
  fix opn k and r :: "'f rate_limit_breaker"
  show "rate_hits opn k \<Longrightarrow> rate_lookup (rate_step r opn) k = rate_entry (rate_lookup r k) opn"
    by (cases opn) (auto simp: rate_lookup_def record_weight_def reset_window_def reset_all_windows_def
        split: option.splits prod.splits)
  show "\<not> rate_hits opn k \<Longrightarrow> rate_lookup (rate_step r opn) k = rate_lookup r k"
    by (cases opn) (auto simp: rate_lookup_def record_weight_def reset_window_def
        split: option.splits prod.splits)
qed

section \<open>Violations\<close>

text \<open>What every reachable state of an exchange satisfies.\<close>

definition rate_inv :: "exchange_rate_state \<Rightarrow> bool" where
  "rate_inv s \<longleftrightarrow> max_violations_before_extended s = DEFAULT_MAX_VIOLATIONS \<and>
     (if rate_paused s then consecutive_violations s = 1 \<and> paused_at s \<noteq> None
      else consecutive_violations s = 0 \<and> paused_at s = None)"

lemma state_record_weight_inv: "rate_inv s \<Longrightarrow> rate_inv (snd (state_record_weight clk w s))"
  by (auto simp: rate_inv_def state_record_weight_def should_resume_def Let_def split: if_splits)

lemma state_reset_window_inv: "rate_inv s \<Longrightarrow> rate_inv (state_reset_window s)"
  by (simp add: rate_inv_def state_reset_window_def)

interpretation rate_entries: guarded_machine rate_entry "\<lambda>e. pred_option rate_inv e"
proof
  fix e opn
  assume "pred_option rate_inv e"
  then show "pred_option rate_inv (rate_entry e opn)"
    by (cases opn; cases e) (simp_all add: state_record_weight_inv state_reset_window_inv)
qed

lemma rate_run_inv:
  "rate_lookup r k = Some s \<Longrightarrow> rate_inv s \<Longrightarrow>
   \<exists>s'. rate_lookup (run rate_step r ops) k = Some s' \<and> rate_inv s'"
proof -
  assume "rate_lookup r k = Some s" "rate_inv s"
  then have "pred_option rate_inv (rate_lookup (run rate_step r ops) k)"
    unfolding rates.lookup_run by (intro rate_entries.inv_run) simp
  moreover have "foldl rate_entry (Some x) xs \<noteq> None" for x xs
  proof (induction xs arbitrary: x)
    case (Cons opn xs)
    then show ?case by (cases opn) auto
  qed simp
  ultimately show ?thesis
    using \<open>rate_lookup r k = Some s\<close> by (metis rates.lookup_run option.exhaust option.pred_inject(2))
qed

text \<open>The status that a sequence of calls ends with, on one exchange.\<close>

lemma three_le_one: "\<not> (3 :: u32) \<le> 1"
  by (simp add: word_le_nat_alt)

lemma unat_mult_exact: "unat a * unat b < 2 ^ 64 \<Longrightarrow> unat (a * b) = unat a * unat b" for a b :: u64
  by (simp add: unat_word_ariths)

lemma rate_inv_cooldown: "rate_inv s \<Longrightarrow> effective_cooldown s = cooldown_duration s"
  by (auto simp: rate_inv_def effective_cooldown_def three_le_one split: if_splits)

lemma tripped_once:
  "rate_inv s \<Longrightarrow> fst (state_record_weight clk w s) = RateTripped u m v c \<Longrightarrow>
   v = 1 \<and> c = duration_ms (cooldown_duration s)"
  by (auto simp: rate_inv_def state_record_weight_def saturating_add_def Let_def three_le_one split: if_splits)

text \<open>
  the extended cooldown is dead code.  Every way of leaving the paused state clears the counter
  of consecutive violations, so on a registered exchange, after any sequence of weight reports and
  resets, the counter is at most 1, every trip reports exactly one violation and the plain cooldown,
  and a pause always lasts for the plain cooldown.
\<close>

theorem extended_cooldown_unreachable:
  assumes "register_exchange_with_config in_unit to_bps t0 x mx th cd r0 = Some r"
  shows "\<exists>s. rate_lookup (run rate_step r ops) x = Some s \<and>
    unat (consecutive_violations s) \<le> 1 \<and> effective_cooldown s = cooldown_duration s \<and>
    (\<forall>clk w u m v c. fst (record_weight clk x w (run rate_step r ops)) = RateTripped u m v c \<longrightarrow>
       v = 1 \<and> c = duration_ms (cooldown_duration s))"
proof -
  from assms have "rate_lookup r x = Some (rate_state_new t0 mx (to_bps th) cd)"
    by (auto simp: register_exchange_with_config_def rate_lookup_def split: if_splits)
  moreover have "rate_inv (rate_state_new t0 mx (to_bps th) cd)"
    by (simp add: rate_inv_def rate_state_new_def)
  ultimately obtain s where s: "rate_lookup (run rate_step r ops) x = Some s" "rate_inv s"
    using rate_run_inv by blast
  moreover have "unat (consecutive_violations s) \<le> 1"
    using s(2) by (cases "rate_paused s") (simp_all add: rate_inv_def)
  moreover have "v = 1 \<and> c = duration_ms (cooldown_duration s)"
    if "fst (record_weight clk x w (run rate_step r ops)) = RateTripped u m v c" for clk w u m v c
    using that s tripped_once [of s clk w u m v c]
    by (auto simp: record_weight_def rate_lookup_def split: prod.splits)
  ultimately show ?thesis using rate_inv_cooldown by blast
qed

section \<open>When the limiter trips\<close>

text \<open>
  on an exchange that is not paused and whose window has not elapsed, a report trips the limiter
  exactly when the weight used in the window, with this report, reaches the threshold fraction of
  the maximum, provided the products fit in 64 bits; the weight is added either way, and the exchange
  is paused exactly when it tripped.
\<close>

theorem limiter_trips_at_threshold:
  assumes "\<not> rate_paused s" and "t_window clk - window_start s < window_duration s"
    and "(unat (used_weight s) + unat w) * 10000 < 2 ^ 64"
    and "unat (max_weight s) * unat (pause_threshold s) < 2 ^ 64"
  shows "case state_record_weight clk w s of (st, s') \<Rightarrow>
    unat (used_weight s') = unat (used_weight s) + unat w \<and>
    (rate_paused s' \<longleftrightarrow> st \<noteq> RateOk) \<and>
    (st \<noteq> RateOk \<longleftrightarrow>
       unat (max_weight s) * unat (pause_threshold s) \<le> (unat (used_weight s) + unat w) * 10000)"
proof -
  have sum: "unat (used_weight s) + unat w < 2 ^ 64" using assms(3) by simp
  then have a: "unat (used_weight s + w) = unat (used_weight s) + unat w"
    "saturating_add (used_weight s) w = used_weight s + w"
    by (simp_all add: unat_word_ariths saturating_add_def)
  have u: "unat (ucast (pause_threshold s) :: u64) = unat (pause_threshold s)" by (simp add: unat_ucast_up)
  have "unat ((used_weight s + w) * BPS_PER_UNIT) = (unat (used_weight s) + unat w) * 10000"
    using assms(3) unat_mult_exact [of "used_weight s + w" BPS_PER_UNIT] unfolding a by simp
  moreover have "unat (max_weight s * ucast (pause_threshold s)) = unat (max_weight s) * unat (pause_threshold s)"
    using assms(4) unat_mult_exact [of "max_weight s" "ucast (pause_threshold s)"] unfolding u by simp
  ultimately have "max_weight s * ucast (pause_threshold s) \<le> (used_weight s + w) * BPS_PER_UNIT \<longleftrightarrow>
      unat (max_weight s) * unat (pause_threshold s) \<le> (unat (used_weight s) + unat w) * 10000"
    by (simp add: word_le_nat_alt)
  then show ?thesis using assms(1,2) a by (simp add: state_record_weight_def Let_def)
qed

section \<open>While the limiter is paused\<close>

text \<open>
  the window comes first.  A report on a paused exchange whose window has elapsed is accepted
  whatever its weight and however recent the pause, although the exchange stays paused; only inside
  the window does the pause hold, and there every report before the cooldown is over is refused and
  changes nothing.
\<close>

theorem window_rotation_bypasses_pause:
  assumes "rate_paused s" and "paused_at s = Some t"
  shows "(window_duration s \<le> t_window clk - window_start s \<longrightarrow>
      fst (state_record_weight clk w s) = RateOk \<and> rate_paused (snd (state_record_weight clk w s)) \<and>
      used_weight (snd (state_record_weight clk w s)) = w) \<and>
    (t_window clk - window_start s < window_duration s \<longrightarrow> t_resume clk - t < effective_cooldown s \<longrightarrow>
      (\<exists>ms. state_record_weight clk w s = (RatePaused ms, s))) \<and>
    (t_window clk - window_start s < window_duration s \<longrightarrow> effective_cooldown s \<le> t_resume clk - t \<longrightarrow>
      fst (state_record_weight clk w s) = RateOk \<and> \<not> rate_paused (snd (state_record_weight clk w s)))"
  using assms by (auto simp: state_record_weight_def should_resume_def)

text \<open>A registered exchange, tripped and paused.\<close>

definition sample_limiter :: "unit rate_limit_breaker" where
  "sample_limiter = rate_limit_breaker_new 2400 () 60000000000"

definition sample_rate :: exchange_rate_state where
  "sample_rate = rate_state_new 0 2400 8000 60000000000"

definition clock_at :: "nat \<Rightarrow> rate_clock" where
  "clock_at t = \<lparr>t_window = t, t_rotate = t, t_resume = t, t_remaining = t, t_trip = t\<rparr>"

theorem extended_cooldown_unreachable_witness:
  "\<exists>r s. rate_register_exchange (\<lambda>_. True) (\<lambda>_. 8000) 0 ''Binance'' sample_limiter = Some r \<and>
     rate_lookup (run rate_step r [RecordWeight (clock_at 5) ''BINANCE'' 2000]) ''Binance'' = Some s \<and>
     unat (consecutive_violations s) \<le> 1"
proof -
  obtain r where r: "rate_register_exchange (\<lambda>_. True) (\<lambda>_. 8000) 0 ''Binance'' sample_limiter = Some r"
    by (simp add: rate_register_exchange_def register_exchange_with_config_def sample_limiter_def
        rate_limit_breaker_new_def)
  with extended_cooldown_unreachable [OF r [unfolded rate_register_exchange_def]] show ?thesis by blast
qed

theorem limiter_trips_at_threshold_witness:
  "fst (state_record_weight (clock_at 5) 1920 sample_rate) \<noteq> RateOk \<and>
   fst (state_record_weight (clock_at 5) 1919 sample_rate) = RateOk"
  using limiter_trips_at_threshold [of sample_rate "clock_at 5" 1920]
    limiter_trips_at_threshold [of sample_rate "clock_at 5" 1919]
  by (simp add: sample_rate_def rate_state_new_def clock_at_def split: prod.splits)

theorem window_rotation_bypasses_pause_witness:
  "let s = snd (state_record_weight (clock_at 59999999999) 2000 sample_rate) in
     rate_paused s \<and> fst (state_record_weight (clock_at 60000000000) 900000 s) = RateOk \<and>
     rate_paused (snd (state_record_weight (clock_at 60000000000) 900000 s))"
proof -
  let ?s = "snd (state_record_weight (clock_at 59999999999) 2000 sample_rate)"
  have "rate_paused ?s" "paused_at ?s = Some 59999999999"
    "window_duration ?s \<le> t_window (clock_at 60000000000) - window_start ?s"
    by (simp_all add: state_record_weight_def sample_rate_def rate_state_new_def clock_at_def
        saturating_add_def Let_def)
  with window_rotation_bypasses_pause [of ?s 59999999999 "clock_at 60000000000" 900000]
  show ?thesis by (simp add: Let_def)
qed

end
