(* ===== verification/Ring_Buffer.thy ===== *)
theory Ring_Buffer
  imports Decimal_Api
begin

text \<open>
  The trade log of \<^verbatim>\<open>src/src/ring_buffer_logger.rs\<close>: a circular buffer of 65536 slots with 64-bit
  sequence numbers, against a bounded queue that drops its oldest entry when it is full.
\<close>

section \<open>A bounded queue that drops its oldest entry\<close>

definition fifo_push :: "nat \<Rightarrow> 'e \<Rightarrow> 'e list \<Rightarrow> 'e list" where
  "fifo_push n e q = (if length q < n then q else tl q) @ [e]"

text \<open>
  \<open>ok k s\<close> says that the representation is valid and that \<open>k\<close> more operations fit in its sequence
  numbers.
\<close>

locale bounded_fifo =
  fixes cap :: nat and ok :: "nat \<Rightarrow> 's \<Rightarrow> bool" and contents :: "'s \<Rightarrow> 'e list"
    and push :: "'e \<Rightarrow> 's \<Rightarrow> 's" and pop :: "'s \<Rightarrow> 'e option \<times> 's"
  assumes push_ok: "ok (Suc k) s \<Longrightarrow> ok k (push e s)"
    and push_contents: "ok (Suc k) s \<Longrightarrow> contents (push e s) = fifo_push cap e (contents s)"
    and pop_ok: "ok (Suc k) s \<Longrightarrow> ok k (snd (pop s))"
    and pop_contents: "ok (Suc k) s \<Longrightarrow>
      fst (pop s) = (case contents s of [] \<Rightarrow> None | e # es \<Rightarrow> Some e) \<and> contents (snd (pop s)) = tl (contents s)"
begin

lemma push_all_contents:
  "ok (length es + k) s \<Longrightarrow> length (contents s) + length es \<le> cap \<Longrightarrow>
   ok k (foldl (\<lambda>s e. push e s) s es) \<and> contents (foldl (\<lambda>s e. push e s) s es) = contents s @ es"
proof (induction es arbitrary: s)
  case (Cons e es)
  have k: "ok (Suc (length es + k)) s" using Cons.prems(1) by simp
  have "contents (push e s) = contents s @ [e]"
    using Cons.prems(2) by (simp add: push_contents [OF k] fifo_push_def)
  with Cons.IH [OF push_ok [OF k]] Cons.prems(2) show ?case by simp
qed simp

end

section \<open>Data\<close>

abbreviation LOG_LEVEL_TRACE :: u8 where "LOG_LEVEL_TRACE \<equiv> 0"
abbreviation LOG_LEVEL_DEBUG :: u8 where "LOG_LEVEL_DEBUG \<equiv> 1"
abbreviation LOG_LEVEL_INFO :: u8 where "LOG_LEVEL_INFO \<equiv> 2"
abbreviation LOG_LEVEL_WARN :: u8 where "LOG_LEVEL_WARN \<equiv> 3"
abbreviation LOG_LEVEL_ERROR :: u8 where "LOG_LEVEL_ERROR \<equiv> 4"
abbreviation RING_BUFFER_SIZE :: nat where "RING_BUFFER_SIZE \<equiv> 65536"
abbreviation RING_BUFFER_MASK :: nat where "RING_BUFFER_MASK \<equiv> 65535"

record 'd log_event =
  ev_level :: u8
  ev_log_id :: u64
  ev_timestamp_ms :: u64
  ev_delta_profit :: 'd
  ev_exchange_id :: u16
  ev_symbol :: string
  ev_side :: string
  ev_quantity :: 'd
  ev_price :: 'd
  ev_strategy :: string

record 'd ring_buffer_logger =
  rb_buffer :: "'d log_event option list"
  write_seq :: u64
  read_seq :: u64
  log_file_path :: "string option"
  min_level :: u8

definition logger_new :: "'d ring_buffer_logger" where
  "logger_new = \<lparr>rb_buffer = replicate RING_BUFFER_SIZE None, write_seq = 0, read_seq = 0,
     log_file_path = None, min_level = LOG_LEVEL_DEBUG\<rparr>"

definition set_level :: "u8 \<Rightarrow> 'd ring_buffer_logger \<Rightarrow> 'd ring_buffer_logger" where
  "set_level lvl b = b\<lparr>min_level := lvl\<rparr>"

definition slot_of :: "u64 \<Rightarrow> nat" where
  "slot_of i = unat i AND RING_BUFFER_MASK"

text \<open>\<^verbatim>\<open>push\<close> always succeeds; \<open>log_write\<close> is its effect once the level test has passed.\<close>

definition log_write :: "'d log_event \<Rightarrow> 'd ring_buffer_logger \<Rightarrow> 'd ring_buffer_logger" where
  "log_write event b =
     (let write_idx = write_seq b;
          read_idx = read_seq b;
          slot = slot_of write_idx
      in b\<lparr>write_seq := write_idx + 1,
           read_seq := (if read_idx + word_of_nat RING_BUFFER_SIZE \<le> write_idx
                        then write_idx - word_of_nat RING_BUFFER_SIZE + 1 else read_idx),
           rb_buffer := (rb_buffer b)[slot := Some event]\<rparr>)"

definition log_push :: "'d log_event \<Rightarrow> 'd ring_buffer_logger \<Rightarrow> (string + unit) \<times> 'd ring_buffer_logger" where
  "log_push event b = (Inr (), if ev_level event < min_level b then b else log_write event b)"

definition log_pop :: "'d ring_buffer_logger \<Rightarrow> 'd log_event option \<times> 'd ring_buffer_logger" where
  "log_pop b =
     (if write_seq b \<le> read_seq b then (None, b)
      else let slot = slot_of (read_seq b)
           in (rb_buffer b ! slot,
               b\<lparr>rb_buffer := (rb_buffer b)[slot := None], read_seq := read_seq b + 1\<rparr>))"

definition unread_count :: "'d ring_buffer_logger \<Rightarrow> nat" where
  "unread_count b = unat (write_seq b - read_seq b)"

definition peek_latest :: "'d ring_buffer_logger \<Rightarrow> 'd log_event option" where
  "peek_latest b = (if write_seq b = 0 then None else rb_buffer b ! slot_of (write_seq b - 1))"

function drain_all :: "'d ring_buffer_logger \<Rightarrow> 'd log_event list \<times> 'd ring_buffer_logger" where
  "drain_all b =
     (case log_pop b of
        (None, b') \<Rightarrow> ([], b')
      | (Some e, b') \<Rightarrow> (case drain_all b' of (es, b'') \<Rightarrow> (e # es, b'')))"
  by pat_completeness auto
termination
proof (relation "measure (\<lambda>b. unat (write_seq b) - unat (read_seq b))")
  fix b b' :: "'d ring_buffer_logger" and r e
  assume p: "(r, b') = log_pop b" "r = Some e"
  then have lt: "read_seq b < write_seq b"
    by (cases "write_seq b \<le> read_seq b") (auto simp: log_pop_def not_le)
  then have "unat (read_seq b) + 1 < 2 ^ 64"
    using unat_less_2p [of "write_seq b"] by (simp add: word_less_nat_alt)
  then have "unat (read_seq b + 1) = unat (read_seq b) + 1" by (simp add: unat_word_ariths)
  moreover have "write_seq b' = write_seq b" "read_seq b' = read_seq b + 1"
    using p lt by (auto simp: log_pop_def Let_def not_le [symmetric])
  ultimately show "(b', b) \<in> measure (\<lambda>b. unat (write_seq b) - unat (read_seq b))"
    using lt by (simp add: word_less_nat_alt)
qed simp

declare drain_all.simps [simp del]

definition set_log_file_path :: "string \<Rightarrow> 'd ring_buffer_logger \<Rightarrow> 'd ring_buffer_logger" where
  "set_log_file_path path b = b\<lparr>log_file_path := Some path\<rparr>"

definition quoted :: "string \<Rightarrow> string" where
  "quoted s = [CHR 0x22] @ s @ [CHR 0x22]"

definition csv_line :: "'d decimal_api \<Rightarrow> 'd log_event \<Rightarrow> string" where
  "csv_line api e =
     digits_of (unat (ev_log_id e)) @ '','' @ digits_of (unat (ev_timestamp_ms e)) @ '','' @
     digits_of (unat (ev_exchange_id e)) @ '','' @ quoted (ev_symbol e) @ '','' @ quoted (ev_side e) @ '','' @
     dec_to_string api (ev_quantity e) @ '','' @ dec_to_string api (ev_price e) @ '','' @
     dec_to_string api (ev_delta_profit e) @ '','' @ quoted (ev_strategy e) @ [CHR 0x0A]"

text \<open>
  Dropping the logger: the file it opens (when it opens) and the lines it writes to it.  \<open>opens\<close> says
  whether the file can be opened.
\<close>

definition logger_drop :: "'d decimal_api \<Rightarrow> bool \<Rightarrow> 'd ring_buffer_logger \<Rightarrow> (string \<times> string list) option" where
  "logger_drop api opens b =
     (case log_file_path b of
        None \<Rightarrow> None
      | Some path \<Rightarrow>
          let remaining = fst (drain_all b)
          in if remaining = [] \<or> \<not> opens then None else Some (path, map (csv_line api) remaining))"

section \<open>The buffer as a queue\<close>

lemma slot_of_mod: "slot_of i = unat i mod RING_BUFFER_SIZE"
proof -
  have "unat i AND mask 16 = take_bit 16 (unat i)" by (simp add: take_bit_eq_mask)
  then show ?thesis by (simp add: slot_of_def take_bit_eq_mod mask_eq_exp_minus_1)
qed

definition rb_inv :: "'d ring_buffer_logger \<Rightarrow> bool" where
  "rb_inv b \<longleftrightarrow> length (rb_buffer b) = RING_BUFFER_SIZE \<and> unat (read_seq b) \<le> unat (write_seq b) \<and>
     unat (write_seq b) - unat (read_seq b) \<le> RING_BUFFER_SIZE \<and>
     (\<forall>i \<in> {unat (read_seq b)..<unat (write_seq b)}. rb_buffer b ! (i mod RING_BUFFER_SIZE) \<noteq> None)"

definition rb_contents :: "'d ring_buffer_logger \<Rightarrow> 'd log_event list" where
  "rb_contents b = map (\<lambda>i. the (rb_buffer b ! (i mod RING_BUFFER_SIZE)))
     [unat (read_seq b)..<unat (write_seq b)]"

definition rb_ok :: "nat \<Rightarrow> 'd ring_buffer_logger \<Rightarrow> bool" where
  "rb_ok k b \<longleftrightarrow> rb_inv b \<and> unat (write_seq b) + k + RING_BUFFER_SIZE < 2 ^ 64"

lemma mod_neq_close:
  fixes i w n :: nat
  assumes "i < w" "w - i < n"
  shows "i mod n \<noteq> w mod n"
proof
  assume "i mod n = w mod n"
  then have "n dvd w - i" using assms(1) by (metis less_imp_le mod_eq_dvd_iff_nat)
  with assms show False by (meson dvd_imp_le not_less zero_less_diff)
qed

lemma log_write_seqs:
  assumes "rb_ok (Suc k) b"
  shows "unat (write_seq (log_write e b)) = unat (write_seq b) + 1"
    "unat (read_seq (log_write e b)) =
      (if unat (write_seq b) - unat (read_seq b) < RING_BUFFER_SIZE then unat (read_seq b) else unat (read_seq b) + 1)"
proof -
  let ?w = "write_seq b" and ?r = "read_seq b"
  have b: "unat ?r \<le> unat ?w" "unat ?w - unat ?r \<le> RING_BUFFER_SIZE" "unat ?w + 1 + RING_BUFFER_SIZE < 2 ^ 64"
    using assms by (auto simp: rb_ok_def rb_inv_def)
  show "unat (write_seq (log_write e b)) = unat ?w + 1"
    using b by (simp add: log_write_def Let_def unat_word_ariths)
  have sum: "unat (?r + 65536) = unat ?r + 65536" using b by (simp add: unat_word_ariths)
  show "unat (read_seq (log_write e b)) =
      (if unat ?w - unat ?r < RING_BUFFER_SIZE then unat ?r else unat ?r + 1)"
  proof (cases "unat ?w - unat ?r < RING_BUFFER_SIZE")
    case True
    then have "\<not> ?r + 65536 \<le> ?w" using b sum by (simp add: word_le_nat_alt)
    with True show ?thesis by (simp add: log_write_def Let_def)
  next
    case False
    then have eq: "unat ?w = unat ?r + 65536" using b by simp
    then have "?w = ?r + 65536" by (simp add: word_unat_eq_iff sum)
    then have "?w - 65536 + 1 = ?r + 1" "?r + 65536 \<le> ?w" by simp_all
    moreover have "unat (?r + 1) = unat ?r + 1" using b eq by (simp add: unat_word_ariths)
    ultimately show ?thesis using False by (simp add: log_write_def Let_def)
  qed
qed

lemma log_write_slot:
  "rb_buffer (log_write e b) = (rb_buffer b)[unat (write_seq b) mod RING_BUFFER_SIZE := Some e]"
  by (simp add: log_write_def Let_def slot_of_mod)

lemma log_write_old:
  assumes "rb_ok (Suc k) b" "unat (read_seq (log_write e b)) \<le> i" "i < unat (write_seq b)"
  shows "rb_buffer (log_write e b) ! (i mod RING_BUFFER_SIZE) = rb_buffer b ! (i mod RING_BUFFER_SIZE)"
proof -
  have "unat (write_seq b) - i < RING_BUFFER_SIZE"
    using assms log_write_seqs(2) [OF assms(1), of e] by (auto simp: rb_ok_def rb_inv_def split: if_splits)
  with mod_neq_close [OF assms(3) this] show ?thesis by (simp add: log_write_slot)
qed

lemma log_write_new:
  assumes "rb_ok (Suc k) b"
  shows "rb_buffer (log_write e b) ! (unat (write_seq b) mod RING_BUFFER_SIZE) = Some e"
  using assms by (simp add: log_write_slot rb_ok_def rb_inv_def)

lemma log_write_inv:
  assumes "rb_ok (Suc k) b"
  shows "rb_ok k (log_write e b)"
proof -
  note sq = log_write_seqs [OF assms, of e]
  have old: "length (rb_buffer b) = RING_BUFFER_SIZE" "unat (read_seq b) \<le> unat (write_seq b)"
    "unat (write_seq b) - unat (read_seq b) \<le> RING_BUFFER_SIZE" "unat (write_seq b) + Suc k + RING_BUFFER_SIZE < 2 ^ 64"
    and some: "\<And>i. unat (read_seq b) \<le> i \<Longrightarrow> i < unat (write_seq b) \<Longrightarrow> rb_buffer b ! (i mod RING_BUFFER_SIZE) \<noteq> None"
    using assms by (auto simp: rb_ok_def rb_inv_def)
  have "rb_buffer (log_write e b) ! (i mod RING_BUFFER_SIZE) \<noteq> None"
    if "unat (read_seq (log_write e b)) \<le> i" "i < unat (write_seq (log_write e b))" for i
  proof (cases "i = unat (write_seq b)")
    case True
    then show ?thesis using log_write_new [OF assms] by simp
  next
    case False
    then have i: "i < unat (write_seq b)" using that(2) sq(1) by simp
    have "unat (read_seq b) \<le> i" using that(1) sq(2) by (simp split: if_splits)
    with some i log_write_old [OF assms that(1) i] show ?thesis by simp
  qed
  moreover have "length (rb_buffer (log_write e b)) = RING_BUFFER_SIZE" by (simp add: log_write_slot old)
  ultimately show ?thesis using old sq by (auto simp: rb_ok_def rb_inv_def)
qed

lemma log_write_contents:
  assumes "rb_ok (Suc k) b"
  shows "rb_contents (log_write e b) = fifo_push RING_BUFFER_SIZE e (rb_contents b)"
proof -
  let ?r = "unat (read_seq b)" and ?w = "unat (write_seq b)" and ?r' = "unat (read_seq (log_write e b))"
  note sq = log_write_seqs [OF assms, of e]
  have le: "?r \<le> ?w" "?w - ?r \<le> RING_BUFFER_SIZE" using assms by (auto simp: rb_ok_def rb_inv_def)
  then have r': "?r' \<le> ?w" using sq(2) by (auto split: if_splits)
  have "rb_contents (log_write e b) =
      map (\<lambda>i. the (rb_buffer (log_write e b) ! (i mod RING_BUFFER_SIZE))) [?r'..<?w] @ [e]"
    using log_write_new [OF assms, of e] r' by (simp add: rb_contents_def sq(1))
  also have "map (\<lambda>i. the (rb_buffer (log_write e b) ! (i mod RING_BUFFER_SIZE))) [?r'..<?w] =
      map (\<lambda>i. the (rb_buffer b ! (i mod RING_BUFFER_SIZE))) [?r'..<?w]"
    using log_write_old [OF assms] by (intro map_cong) auto
  also have "\<dots> = (if length (rb_contents b) < RING_BUFFER_SIZE then rb_contents b else tl (rb_contents b))"
    using sq(2) le by (auto simp: rb_contents_def map_tl [symmetric] tl_upt)
  finally show ?thesis by (simp add: fifo_push_def)
qed

lemma log_pop_facts:
  assumes "rb_ok k b"
  shows "rb_ok k (snd (log_pop b)) \<and> write_seq (snd (log_pop b)) = write_seq b \<and>
    fst (log_pop b) = (case rb_contents b of [] \<Rightarrow> None | e # es \<Rightarrow> Some e) \<and>
    rb_contents (snd (log_pop b)) = tl (rb_contents b)"
proof (cases "write_seq b \<le> read_seq b")
  case True
  then have "rb_contents b = []" by (simp add: rb_contents_def word_le_nat_alt)
  with True assms show ?thesis by (simp add: log_pop_def)
next
  case False
  let ?r = "unat (read_seq b)" and ?w = "unat (write_seq b)"
  have lt: "?r < ?w" using False by (simp add: word_le_nat_alt)
  have r1: "unat (read_seq b + 1) = ?r + 1"
    using lt unat_less_2p [of "write_seq b"] by (simp add: unat_word_ariths)
  have inv: "length (rb_buffer b) = RING_BUFFER_SIZE" "?w - ?r \<le> RING_BUFFER_SIZE" "?w + k + RING_BUFFER_SIZE < 2 ^ 64"
    and some: "\<And>i. ?r \<le> i \<Longrightarrow> i < ?w \<Longrightarrow> rb_buffer b ! (i mod RING_BUFFER_SIZE) \<noteq> None"
    using assms by (auto simp: rb_ok_def rb_inv_def)
  define b' where "b' = b\<lparr>rb_buffer := (rb_buffer b)[?r mod RING_BUFFER_SIZE := None], read_seq := read_seq b + 1\<rparr>"
  have p: "log_pop b = (rb_buffer b ! (?r mod RING_BUFFER_SIZE), b')"
    using False by (simp add: log_pop_def Let_def slot_of_mod b'_def)
  have keep: "rb_buffer b' ! (i mod RING_BUFFER_SIZE) = rb_buffer b ! (i mod RING_BUFFER_SIZE)"
    if "?r + 1 \<le> i" "i < ?w" for i
    using mod_neq_close [of ?r i RING_BUFFER_SIZE] that inv(2) by (simp add: b'_def)
  have "rb_ok k b'" using lt inv some keep r1 by (auto simp: rb_ok_def rb_inv_def b'_def)
  moreover have "[?r..<?w] = ?r # [Suc ?r..<?w]" using lt by (simp add: upt_conv_Cons)
  then have "rb_contents b = the (rb_buffer b ! (?r mod RING_BUFFER_SIZE)) # rb_contents b'"
    using keep r1 by (simp add: rb_contents_def) (simp add: b'_def)
  ultimately show ?thesis using p some [of ?r] lt by (auto simp: b'_def)
qed

interpretation ring: bounded_fifo RING_BUFFER_SIZE rb_ok rb_contents log_write log_pop
proof
  fix k e and b :: "'d ring_buffer_logger"
  assume ok: "rb_ok (Suc k) b"
  show "rb_ok k (log_write e b)" by (rule log_write_inv [OF ok])
  show "rb_contents (log_write e b) = fifo_push RING_BUFFER_SIZE e (rb_contents b)"
    by (rule log_write_contents [OF ok])
  have "rb_ok k b" using ok by (simp add: rb_ok_def)
  from log_pop_facts [OF this] show "rb_ok k (snd (log_pop b))"
    "fst (log_pop b) = (case rb_contents b of [] \<Rightarrow> None | e # es \<Rightarrow> Some e) \<and>
     rb_contents (snd (log_pop b)) = tl (rb_contents b)" by blast+
qed

section \<open>Refinement\<close>

datatype 'd log_op = LogPush "'d log_event" | LogPop | LogLevel u8

fun log_exec :: "'d ring_buffer_logger \<Rightarrow> 'd log_op \<Rightarrow> 'd ring_buffer_logger \<times> 'd log_event option" where
  "log_exec b (LogPush e) = (snd (log_push e b), None)"
| "log_exec b LogPop = (snd (log_pop b), fst (log_pop b))"
| "log_exec b (LogLevel l) = (set_level l b, None)"

text \<open>The specification: a level and a queue.\<close>

fun fifo_exec :: "u8 \<times> 'd log_event list \<Rightarrow> 'd log_op \<Rightarrow> (u8 \<times> 'd log_event list) \<times> 'd log_event option" where
  "fifo_exec (lvl, q) (LogPush e) =
     ((lvl, if ev_level e < lvl then q else fifo_push RING_BUFFER_SIZE e q), None)"
| "fifo_exec (lvl, q) LogPop = (case q of [] \<Rightarrow> ((lvl, []), None) | e # es \<Rightarrow> ((lvl, es), Some e))"
| "fifo_exec (lvl, q) (LogLevel l) = ((l, q), None)"

lemma log_exec_refines:
  assumes "rb_ok (Suc k) b"
  shows "rb_ok k (fst (log_exec b opn)) \<and>
    fifo_exec (min_level b, rb_contents b) opn =
      ((min_level (fst (log_exec b opn)), rb_contents (fst (log_exec b opn))), snd (log_exec b opn))"
proof (cases opn)
  case (LogPush e)
  have "min_level (log_write e b) = min_level b" by (simp add: log_write_def Let_def)
  then show ?thesis using LogPush assms ring.push_ok [OF assms] ring.push_contents [OF assms]
    by (simp add: log_push_def rb_ok_def)
next
  case LogPop
  have "min_level (snd (log_pop b)) = min_level b" by (simp add: log_pop_def Let_def)
  then show ?thesis using LogPop ring.pop_ok [OF assms] ring.pop_contents [OF assms]
    by (cases "rb_contents b") auto
next
  case (LogLevel l)
  then show ?thesis using assms by (simp add: set_level_def rb_ok_def rb_inv_def rb_contents_def)
qed

lemma log_trace_refines:
  "rb_ok (length ops) b \<Longrightarrow>
   trace log_exec b ops = trace fifo_exec (min_level b, rb_contents b) ops \<and>
   rb_contents (run (\<lambda>b opn. fst (log_exec b opn)) b ops) =
     snd (run (\<lambda>q opn. fst (fifo_exec q opn)) (min_level b, rb_contents b) ops) \<and>
   rb_ok 0 (run (\<lambda>b opn. fst (log_exec b opn)) b ops)"
proof (induction ops arbitrary: b)
  case (Cons opn ops)
  then have ok: "rb_ok (Suc (length ops)) b" by simp
  note r = log_exec_refines [OF ok, of opn]
  note IH = Cons.IH [OF conjunct1 [OF r]]
  obtain b' v where e: "log_exec b opn = (b', v)" by fastforce
  show ?case using IH conjunct2 [OF r] by (simp add: e)
qed simp

lemma logger_new_ok: "k + RING_BUFFER_SIZE < 2 ^ 64 \<Longrightarrow> rb_ok k (logger_new :: 'd ring_buffer_logger)"
  by (simp add: rb_ok_def rb_inv_def logger_new_def)

lemma logger_new_contents: "rb_contents (logger_new :: 'd ring_buffer_logger) = []"
  by (simp add: rb_contents_def logger_new_def)

lemma logger_new_level: "min_level logger_new = LOG_LEVEL_DEBUG"
  by (simp add: logger_new_def)

lemma drain_all_contents:
  "rb_ok k b \<Longrightarrow> fst (drain_all b) = rb_contents b \<and> rb_contents (snd (drain_all b)) = []"
proof (induction b rule: drain_all.induct)
  case (1 b)
  note f = log_pop_facts [OF 1(2)]
  obtain r b' where p: "log_pop b = (r, b')" by fastforce
  show ?case
  proof (cases r)
    case None
    then show ?thesis using f p by (subst (1 2) drain_all.simps) (auto split: list.splits)
  next
    case (Some e)
    then have "fst (drain_all b') = rb_contents b' \<and> rb_contents (snd (drain_all b')) = []"
      using 1(1) [of r b' e] 1(2) f p by auto
    with Some f p show ?thesis
      by (subst (1 2) drain_all.simps) (auto split: list.splits prod.splits)
  qed
qed

text \<open>
  C30: the trade log is a bounded queue.  For every sequence of pushes, pops and level changes on a
  new logger that does not exhaust the 64-bit sequence numbers, the entries popped, and those left, are exactly
  those of a queue of 65536 places that skips entries below the level and drops the oldest when it
  is full: no entry is lost, duplicated or reordered otherwise, and no slot that is read was
  overwritten.
\<close>

theorem trade_log_refines_queue:
  assumes "length ops + RING_BUFFER_SIZE < 2 ^ 64"
  shows "trace log_exec logger_new ops = trace fifo_exec (LOG_LEVEL_DEBUG, []) ops \<and>
    rb_contents (run (\<lambda>b opn. fst (log_exec b opn)) logger_new ops) =
      snd (run (\<lambda>q opn. fst (fifo_exec q opn)) (LOG_LEVEL_DEBUG, []) ops)"
  using log_trace_refines [OF logger_new_ok [OF assms]]
  by (simp add: logger_new_contents logger_new_level)

definition sample_event :: "u64 \<Rightarrow> u8 \<Rightarrow> int log_event" where
  "sample_event n lvl = \<lparr>ev_level = lvl, ev_log_id = n, ev_timestamp_ms = 0, ev_delta_profit = 1, ev_exchange_id = 0,
     ev_symbol = ''BTCUSDT'', ev_side = ''BUY'', ev_quantity = 1, ev_price = 5, ev_strategy = ''triangular''\<rparr>"

theorem trade_log_refines_queue_witness:
  "trace log_exec logger_new
     [LogPush (sample_event 1 2), LogPush (sample_event 2 0), LogLevel 0, LogPush (sample_event 3 0), LogPop, LogPop, LogPop] =
   [sample_event 1 2, sample_event 3 0]"
  using trade_log_refines_queue [of "[LogPush (sample_event 1 2), LogPush (sample_event 2 0), LogLevel 0,
    LogPush (sample_event 3 0), LogPop, LogPop, LogPop]"]
  by (simp add: fifo_push_def sample_event_def)

text \<open>
  nothing is lost at shutdown.  Dropping a logger that has a file path, after any such sequence,
  writes one line for each unread entry, oldest first, when the file opens; draining terminates and
  leaves the queue empty.
\<close>

theorem drop_flushes_unread:
  assumes "length ops + RING_BUFFER_SIZE < 2 ^ 64"
    and "b = run (\<lambda>b opn. fst (log_exec b opn)) logger_new ops"
    and "snd (run (\<lambda>q opn. fst (fifo_exec q opn)) (LOG_LEVEL_DEBUG, []) ops) = q" and "q \<noteq> []"
  shows "logger_drop api True (set_log_file_path path b) = Some (path, map (csv_line api) q) \<and>
    rb_contents (snd (drain_all b)) = []"
proof -
  note t = log_trace_refines [OF logger_new_ok [OF assms(1)], unfolded logger_new_level logger_new_contents]
  then have ok: "rb_ok 0 b" and c: "rb_contents b = q" using assms(2,3) by auto
  have ok': "rb_ok 0 (set_log_file_path path b)" and c': "rb_contents (set_log_file_path path b) = q"
    using ok c by (simp_all add: set_log_file_path_def rb_ok_def rb_inv_def rb_contents_def)
  have "fst (drain_all (set_log_file_path path b)) = q" using drain_all_contents [OF ok'] c' by simp
  then show ?thesis using assms(4) drain_all_contents [OF ok]
    by (simp add: logger_drop_def set_log_file_path_def)
qed

theorem drop_flushes_unread_witness:
  "logger_drop int_decimal True (set_log_file_path ''trades.csv''
     (run (\<lambda>b opn. fst (log_exec b opn)) logger_new [LogPush (sample_event 1 2), LogPush (sample_event 2 2), LogPop])) =
   Some (''trades.csv'', [csv_line int_decimal (sample_event 2 2)])"
  using drop_flushes_unread [of "[LogPush (sample_event 1 2), LogPush (sample_event 2 2), LogPop]" _
      "[sample_event 2 2]" int_decimal "''trades.csv''"]
  by (simp add: fifo_push_def sample_event_def)

end
