(* ===== verification/Shared_Memory.thy ===== *)
theory Shared_Memory
  imports Rust_Prelude
begin

text \<open>
  The market frames of \<^verbatim>\<open>src/src/shared_memory.rs\<close>: one writer publishes frames under a sequence lock,
  readers validate what they read by loading the sequence number twice.  A write is the list of its
  stores in program order, the symbol byte by byte, so that the second half can interleave it with
  the loads of a reader.  Symbols are byte lists.
\<close>

section \<open>UTF-8 validity\<close>

text \<open>\<^verbatim>\<open>str::from_utf8\<close> accepts exactly the well-formed sequences of the Unicode standard.\<close>

definition in_range :: "u8 \<Rightarrow> u8 \<Rightarrow> u8 \<Rightarrow> bool" where
  "in_range lo hi b \<longleftrightarrow> lo \<le> b \<and> b \<le> hi"

fun valid_utf8 :: "u8 list \<Rightarrow> bool" where
  "valid_utf8 [] = True"
| "valid_utf8 (b # bs) =
     (if b < 128 then valid_utf8 bs
      else if in_range 194 223 b
      then (case bs of c # r \<Rightarrow> in_range 128 191 c \<and> valid_utf8 r | _ \<Rightarrow> False)
      else if in_range 224 239 b
      then (case bs of
              c # d # r \<Rightarrow>
                (if b = 224 then in_range 160 191 c else if b = 237 then in_range 128 159 c
                 else in_range 128 191 c) \<and> in_range 128 191 d \<and> valid_utf8 r
            | _ \<Rightarrow> False)
      else if in_range 240 244 b
      then (case bs of
              c # d # e # r \<Rightarrow>
                (if b = 240 then in_range 144 191 c else if b = 244 then in_range 128 143 c
                 else in_range 128 191 c) \<and> in_range 128 191 d \<and> in_range 128 191 e \<and> valid_utf8 r
            | _ \<Rightarrow> False)
      else False)"

lemma valid_utf8_ascii: "list_all (\<lambda>b. b < 128) bs \<Longrightarrow> valid_utf8 bs"
  by (induction bs) simp_all

section \<open>Frames\<close>

abbreviation MAX_SYMBOL_LEN :: nat where "MAX_SYMBOL_LEN \<equiv> 12"

record shared_market_frame =
  sequence_id :: u64
  symbol_bytes :: "u8 list"
  best_bid :: u64
  best_ask :: u64
  frame_timestamp :: u64

definition frame_zeroed :: shared_market_frame where
  "frame_zeroed = \<lparr>sequence_id = 0, symbol_bytes = replicate MAX_SYMBOL_LEN 0, best_bid = 0, best_ask = 0,
     frame_timestamp = 0\<rparr>"

datatype frame_store = StSeq u64 | StSym nat u8 | StBid u64 | StAsk u64 | StTime u64

fun apply_store :: "shared_market_frame \<Rightarrow> frame_store \<Rightarrow> shared_market_frame" where
  "apply_store f (StSeq v) = f\<lparr>sequence_id := v\<rparr>"
| "apply_store f (StSym i b) = f\<lparr>symbol_bytes := (symbol_bytes f)[i := b]\<rparr>"
| "apply_store f (StBid v) = f\<lparr>best_bid := v\<rparr>"
| "apply_store f (StAsk v) = f\<lparr>best_ask := v\<rparr>"
| "apply_store f (StTime v) = f\<lparr>frame_timestamp := v\<rparr>"

text \<open>The stores of \<^verbatim>\<open>write\<close> after the one that marks the write as in progress.\<close>

definition payload_stores :: "u8 list \<Rightarrow> u64 \<Rightarrow> u64 \<Rightarrow> u64 \<Rightarrow> frame_store list" where
  "payload_stores sb bid ask ts =
     map (\<lambda>i. StSym i 0) [0..<MAX_SYMBOL_LEN] @
     map (\<lambda>i. StSym i (sb ! i)) [0..<min (length sb) (MAX_SYMBOL_LEN - 1)] @
     [StBid bid, StAsk ask, StTime ts]"

definition write_stores :: "u64 \<Rightarrow> u8 list \<Rightarrow> u64 \<Rightarrow> u64 \<Rightarrow> u64 \<Rightarrow> frame_store list" where
  "write_stores seq sb bid ask ts =
     StSeq (seq * 2 + 1) # payload_stores sb bid ask ts @ [StSeq (seq * 2)]"

definition frame_write :: "u64 \<Rightarrow> u8 list \<Rightarrow> u64 \<Rightarrow> u64 \<Rightarrow> u64 \<Rightarrow> shared_market_frame \<Rightarrow> shared_market_frame" where
  "frame_write seq sb bid ask ts f = foldl apply_store f (write_stores seq sb bid ask ts)"

definition symbol_str :: "u8 list \<Rightarrow> u8 list" where
  "symbol_str bytes = (let s = takeWhile (\<lambda>b. b \<noteq> 0) bytes in if valid_utf8 s then s else [])"

text \<open>\<^verbatim>\<open>read_consistent\<close> on a frame that nobody writes; the interleaved reader is below.\<close>

definition read_consistent :: "shared_market_frame \<Rightarrow> (u64 \<times> u8 list \<times> u64 \<times> u64 \<times> u64) option" where
  "read_consistent f =
     (let seq1 = sequence_id f
      in if seq1 AND 1 \<noteq> 0 then None
         else Some (seq1 div 2, symbol_str (symbol_bytes f), best_bid f, best_ask f, frame_timestamp f))"

section \<open>The arena of frames\<close>

record shared_memory_arena =
  frames :: "shared_market_frame list"
  capacity :: nat
  global_seq :: u64

definition shm_new :: "nat \<Rightarrow> shared_memory_arena option" where
  "shm_new cap =
     (if 0 < cap then Some \<lparr>frames = replicate cap frame_zeroed, capacity = cap, global_seq = 1\<rparr> else None)"

datatype shm_error = SlotOutOfBounds nat nat

text \<open>The index panics when the slot is inside the capacity but outside the vector.\<close>

definition write_slot ::
  "u64 \<Rightarrow> nat \<Rightarrow> u8 list \<Rightarrow> u64 \<Rightarrow> u64 \<Rightarrow> shared_memory_arena \<Rightarrow>
   ((shm_error + unit) \<times> shared_memory_arena) option" where
  "write_slot now_ms slot sb bid ask a =
     (if capacity a \<le> slot then Some (Inl (SlotOutOfBounds slot (capacity a)), a)
      else case get_at (frames a) slot of
             None \<Rightarrow> None
           | Some f \<Rightarrow>
               Some (Inr (), a\<lparr>global_seq := global_seq a + 1,
                               frames := (frames a)[slot := frame_write (global_seq a) sb bid ask now_ms f]\<rparr>))"

definition read_slot :: "nat \<Rightarrow> shared_memory_arena \<Rightarrow> shared_market_frame option" where
  "read_slot slot a = (if capacity a \<le> slot then None else get_at (frames a) slot)"

section \<open>A completed write\<close>

definition padded :: "u8 list \<Rightarrow> u8 list" where
  "padded sb = take (MAX_SYMBOL_LEN - 1) sb @ replicate (MAX_SYMBOL_LEN - min (length sb) (MAX_SYMBOL_LEN - 1)) 0"

definition complete :: "u64 \<Rightarrow> u8 list \<Rightarrow> u64 \<Rightarrow> u64 \<Rightarrow> u64 \<Rightarrow> shared_market_frame" where
  "complete seq sb bid ask ts =
     \<lparr>sequence_id = seq * 2, symbol_bytes = padded sb, best_bid = bid, best_ask = ask, frame_timestamp = ts\<rparr>"

lemma apply_zeroes:
  assumes "n \<le> length (symbol_bytes f)"
  shows "foldl apply_store f (map (\<lambda>i. StSym i 0) [0..<n]) =
    f\<lparr>symbol_bytes := replicate n 0 @ drop n (symbol_bytes f)\<rparr>"
  using assms
proof (induction n)
  case (Suc n)
  have "(replicate n 0 @ drop n s)[n := 0] = replicate (Suc n) 0 @ drop (Suc n) s"
    if "Suc n \<le> length s" for s :: "u8 list"
    using that by (simp add: list_update_append Cons_nth_drop_Suc [symmetric] replicate_app_Cons_same)
  with Suc show ?case by simp
qed simp

lemma apply_copies:
  assumes "n \<le> length sb" "n \<le> length (symbol_bytes f)"
  shows "foldl apply_store f (map (\<lambda>i. StSym i (sb ! i)) [0..<n]) =
    f\<lparr>symbol_bytes := take n sb @ drop n (symbol_bytes f)\<rparr>"
  using assms
proof (induction n)
  case (Suc n)
  have "(take n sb @ drop n s)[n := sb ! n] = take (Suc n) sb @ drop (Suc n) s"
    if "Suc n \<le> length s" for s :: "u8 list"
    using that Suc.prems(1) by (intro nth_equalityI) (auto simp: nth_list_update nth_append nth_take min_def less_Suc_eq)
  with Suc show ?case by simp
qed simp

lemma frame_write_complete:
  assumes "length (symbol_bytes f) = MAX_SYMBOL_LEN"
  shows "frame_write seq sb bid ask ts f = complete seq sb bid ask ts"
proof -
  let ?k = "min (length sb) 11"
  have "foldl apply_store (f\<lparr>sequence_id := seq * 2 + 1, symbol_bytes := replicate 12 0\<rparr>)
      (map (\<lambda>i. StSym i (sb ! i)) [0..<?k]) =
      f\<lparr>sequence_id := seq * 2 + 1, symbol_bytes := take ?k sb @ drop ?k (replicate 12 0)\<rparr>"
    by (subst apply_copies) simp_all
  moreover have "take ?k sb = take 11 sb" by (cases "length sb \<le> 11") (auto simp: min_def)
  ultimately show ?thesis
    using assms
    by (simp add: frame_write_def write_stores_def payload_stores_def apply_zeroes complete_def padded_def
        del: upt_rec_numeral)
qed

lemma even_double: "(seq * 2 :: u64) AND 1 = 0" "(seq * 2 + 1 :: u64) AND 1 = 1"
  by (simp_all add: and_one_eq odd_iff_mod_2_eq_one mod_2_eq_odd)

lemma half_double: "unat seq < 2 ^ 63 \<Longrightarrow> (seq * 2) div 2 = (seq :: u64)"
  by (simp add: word_unat_eq_iff unat_div_distrib unat_word_ariths)

lemma takeWhile_padded:
  "0 \<notin> set (take (MAX_SYMBOL_LEN - 1) sb) \<Longrightarrow>
   takeWhile (\<lambda>b. b \<noteq> 0) (padded sb) = take (MAX_SYMBOL_LEN - 1) sb"
  by (auto simp: padded_def takeWhile_append)

section \<open>A reader beside the writer\<close>

text \<open>
  The loads of a reader between its two loads of the sequence number, in any number and order: the
  code loads the prices and the time, then searches the symbol for its end and decodes it.
\<close>

datatype frame_load = LdSym nat | LdBid | LdAsk | LdTime

fun load_value :: "frame_load \<Rightarrow> shared_market_frame \<Rightarrow> u64" where
  "load_value (LdSym i) f = ucast (symbol_bytes f ! i)"
| "load_value LdBid f = best_bid f"
| "load_value LdAsk f = best_ask f"
| "load_value LdTime f = frame_timestamp f"

text \<open>
  The frame, the stores the writer still has to make, the number of the last write begun, the
  complete frame of every write begun so far by its number, and the reader: the sequence number it
  loaded first and what it observed since.
\<close>

record seqlock =
  sl_frame :: shared_market_frame
  pending :: "frame_store list"
  w_seq :: u64
  written :: "u64 \<rightharpoonup> shared_market_frame"
  reader :: "(u64 \<times> (frame_load \<times> u64) list) option"

definition seqlock_init :: seqlock where
  "seqlock_init = \<lparr>sl_frame = frame_zeroed, pending = [], w_seq = 0, written = [0 \<mapsto> frame_zeroed], reader = None\<rparr>"

inductive seqlock_step :: "seqlock \<Rightarrow> seqlock \<Rightarrow> bool" where
  begin_write: "pending s = [] \<Longrightarrow> w_seq s < seq \<Longrightarrow> unat seq < 2 ^ 63 \<Longrightarrow>
    seqlock_step s (s\<lparr>pending := write_stores seq sb bid ask ts, w_seq := seq,
      written := (written s)(seq \<mapsto> complete seq sb bid ask ts)\<rparr>)"
| store: "pending s = st # rest \<Longrightarrow>
    seqlock_step s (s\<lparr>sl_frame := apply_store (sl_frame s) st, pending := rest\<rparr>)"
| begin_read: "reader s = None \<Longrightarrow> sequence_id (sl_frame s) AND 1 = 0 \<Longrightarrow>
    seqlock_step s (s\<lparr>reader := Some (sequence_id (sl_frame s), [])\<rparr>)"
| observe: "reader s = Some (v, obs) \<Longrightarrow>
    seqlock_step s (s\<lparr>reader := Some (v, obs @ [(l, load_value l (sl_frame s))])\<rparr>)"
| end_read: "reader s = Some (v, obs) \<Longrightarrow> seqlock_step s (s\<lparr>reader := None\<rparr>)"

inductive seqlock_reachable :: "seqlock \<Rightarrow> bool" where
  sl_start: "seqlock_reachable seqlock_init"
| sl_step: "seqlock_reachable s \<Longrightarrow> seqlock_step s s' \<Longrightarrow> seqlock_reachable s'"

text \<open>The three phases of the writer.\<close>

definition phase_idle :: "seqlock \<Rightarrow> bool" where
  "phase_idle s \<longleftrightarrow> pending s = [] \<and> written s (w_seq s) = Some (sl_frame s) \<and>
     sequence_id (sl_frame s) = w_seq s * 2"

definition phase_begun :: "seqlock \<Rightarrow> bool" where
  "phase_begun s \<longleftrightarrow> (\<exists>q sb bid ask ts. q < w_seq s \<and> pending s = write_stores (w_seq s) sb bid ask ts \<and>
     written s q = Some (sl_frame s) \<and> sequence_id (sl_frame s) = q * 2 \<and>
     written s (w_seq s) = Some (complete (w_seq s) sb bid ask ts))"

definition phase_writing :: "seqlock \<Rightarrow> bool" where
  "phase_writing s \<longleftrightarrow> (\<exists>f0 dn rest sb bid ask ts. length (symbol_bytes f0) = MAX_SYMBOL_LEN \<and>
     payload_stores sb bid ask ts = dn @ rest \<and> pending s = rest @ [StSeq (w_seq s * 2)] \<and>
     sl_frame s = foldl apply_store f0 (StSeq (w_seq s * 2 + 1) # dn) \<and>
     sequence_id (sl_frame s) = w_seq s * 2 + 1 \<and>
     written s (w_seq s) = Some (complete (w_seq s) sb bid ask ts))"

definition writer_inv :: "seqlock \<Rightarrow> bool" where
  "writer_inv s \<longleftrightarrow> unat (w_seq s) < 2 ^ 63 \<and> length (symbol_bytes (sl_frame s)) = MAX_SYMBOL_LEN \<and>
     (phase_idle s \<or> phase_begun s \<or> phase_writing s)"

definition reader_inv :: "seqlock \<Rightarrow> bool" where
  "reader_inv s \<longleftrightarrow> (\<forall>v obs. reader s = Some (v, obs) \<longrightarrow>
     (\<exists>q f. v = q * 2 \<and> q \<le> w_seq s \<and> written s q = Some f \<and> (pending s \<noteq> [] \<longrightarrow> q < w_seq s) \<and>
        (sequence_id (sl_frame s) = v \<longrightarrow> sl_frame s = f \<and> (\<forall>(l, x) \<in> set obs. x = load_value l f))))"

lemma double_inj: "unat a < 2 ^ 63 \<Longrightarrow> unat b < 2 ^ 63 \<Longrightarrow> (a :: u64) * 2 = b * 2 \<Longrightarrow> a = b"
  by (metis half_double)

lemma double_neq_odd: "(a :: u64) * 2 \<noteq> b * 2 + 1"
  by (metis even_double zero_neq_one)

lemma payload_keeps_seq: "st \<in> set (payload_stores sb bid ask ts) \<Longrightarrow>
   sequence_id (apply_store f st) = sequence_id f \<and> length (symbol_bytes (apply_store f st)) = length (symbol_bytes f)"
  by (auto simp: payload_stores_def)

lemma writer_store:
  assumes inv: "writer_inv s" and p: "pending s = st # rest"
  shows "writer_inv (s\<lparr>sl_frame := apply_store (sl_frame s) st, pending := rest\<rparr>) \<and>
    (sequence_id (apply_store (sl_frame s) st) = w_seq s * 2 + 1 \<or>
     sequence_id (apply_store (sl_frame s) st) = w_seq s * 2)"
proof -
  let ?s' = "s\<lparr>sl_frame := apply_store (sl_frame s) st, pending := rest\<rparr>"
  have b: "unat (w_seq s) < 2 ^ 63" "length (symbol_bytes (sl_frame s)) = MAX_SYMBOL_LEN"
    using inv by (auto simp: writer_inv_def)
  from inv p consider (begun) "phase_begun s" | (writing) "phase_writing s"
    by (auto simp: writer_inv_def phase_idle_def)
  then show ?thesis
  proof cases
    case begun
    then obtain sb bid ask ts where
      w: "st = StSeq (w_seq s * 2 + 1)" "rest = payload_stores sb bid ask ts @ [StSeq (w_seq s * 2)]"
        "written s (w_seq s) = Some (complete (w_seq s) sb bid ask ts)"
      using p by (auto simp: phase_begun_def write_stores_def)
    then have "phase_writing ?s'"
      unfolding phase_writing_def using b(2)
      by (intro exI [of _ "sl_frame s"] exI [of _ "[]"] exI [of _ "payload_stores sb bid ask ts"]
          exI [of _ sb] exI [of _ bid] exI [of _ ask] exI [of _ ts]) simp
    then show ?thesis using b w(1) by (simp add: writer_inv_def)
  next
    case writing
    then obtain f0 dn rs sb bid ask ts where
      w: "length (symbol_bytes f0) = MAX_SYMBOL_LEN" "payload_stores sb bid ask ts = dn @ rs"
        "pending s = rs @ [StSeq (w_seq s * 2)]" "sl_frame s = foldl apply_store f0 (StSeq (w_seq s * 2 + 1) # dn)"
        "sequence_id (sl_frame s) = w_seq s * 2 + 1" "written s (w_seq s) = Some (complete (w_seq s) sb bid ask ts)"
      by (auto simp: phase_writing_def)
    show ?thesis
    proof (cases rs)
      case Nil
      then have st: "st = StSeq (w_seq s * 2)" "rest = []" using w(3) p by auto
      have "apply_store (sl_frame s) st = frame_write (w_seq s) sb bid ask ts f0"
        using w(2,4) Nil st by (simp add: frame_write_def write_stores_def)
      then have "apply_store (sl_frame s) st = complete (w_seq s) sb bid ask ts"
        using frame_write_complete [OF w(1)] by simp
      then show ?thesis using w(6) st b by (simp add: writer_inv_def phase_idle_def complete_def padded_def)
    next
      case (Cons x xs)
      then have st: "st = x" "rest = xs @ [StSeq (w_seq s * 2)]" using w(3) p by auto
      have mem: "st \<in> set (payload_stores sb bid ask ts)" using w(2) Cons st by simp
      have "phase_writing ?s'"
        unfolding phase_writing_def
        by (rule exI [of _ f0], rule exI [of _ "dn @ [x]"], rule exI [of _ xs], rule exI [of _ sb],
            rule exI [of _ bid], rule exI [of _ ask], rule exI [of _ ts])
          (use w st Cons payload_keeps_seq [OF mem, of "sl_frame s"] in auto)
      then show ?thesis using b payload_keeps_seq [OF mem, of "sl_frame s"] w(5) by (simp add: writer_inv_def)
    qed
  qed
qed

lemma reader_store:
  assumes w: "writer_inv s" and r: "reader_inv s" and p: "pending s = st # rest"
  shows "reader_inv (s\<lparr>sl_frame := apply_store (sl_frame s) st, pending := rest\<rparr>)"
proof -
  have bound: "unat (w_seq s) < 2 ^ 63" using w by (simp add: writer_inv_def)
  have ne: "sequence_id (apply_store (sl_frame s) st) \<noteq> q * 2" if "q < w_seq s" for q
  proof -
    have "unat q < 2 ^ 63" using that bound by (simp add: word_less_nat_alt)
    then have "q * 2 \<noteq> w_seq s * 2" using double_inj [of q "w_seq s"] bound that by blast
    moreover have "q * 2 \<noteq> w_seq s * 2 + 1" by (rule double_neq_odd)
    ultimately show ?thesis using conjunct2 [OF writer_store [OF w p]] by metis
  qed
  show ?thesis
    unfolding reader_inv_def
  proof (intro allI impI, goal_cases)
    case (1 v obs)
    with r p obtain q f where q: "v = q * 2" "q < w_seq s" "written s q = Some f"
      by (auto simp: reader_inv_def)
    with ne [OF q(2)] show ?case by (intro exI [of _ q] exI [of _ f]) (simp add: less_imp_le)
  qed
qed

lemma begin_write_inv:
  assumes w: "writer_inv s" and r: "reader_inv s"
    and p: "pending s = []" "w_seq s < seq" "unat seq < 2 ^ 63"
  shows "writer_inv (s\<lparr>pending := write_stores seq sb bid ask ts, w_seq := seq,
      written := (written s)(seq \<mapsto> complete seq sb bid ask ts)\<rparr>) \<and>
    reader_inv (s\<lparr>pending := write_stores seq sb bid ask ts, w_seq := seq,
      written := (written s)(seq \<mapsto> complete seq sb bid ask ts)\<rparr>)"
  (is "writer_inv ?s' \<and> reader_inv ?s'")
proof
  have idle: "written s (w_seq s) = Some (sl_frame s)" "sequence_id (sl_frame s) = w_seq s * 2"
    and len: "length (symbol_bytes (sl_frame s)) = MAX_SYMBOL_LEN"
    using w p(1) by (auto simp: writer_inv_def phase_idle_def phase_begun_def phase_writing_def write_stores_def)
  have "phase_begun ?s'"
    unfolding phase_begun_def
    by (rule exI [of _ "w_seq s"], rule exI [of _ sb], rule exI [of _ bid], rule exI [of _ ask], rule exI [of _ ts])
      (use p(2) idle in auto)
  with p(3) len show "writer_inv ?s'" by (simp add: writer_inv_def)
  show "reader_inv ?s'"
    unfolding reader_inv_def
  proof (intro allI impI)
    fix v obs
    assume "reader ?s' = Some (v, obs)"
    with r obtain q f where q: "v = q * 2" "q \<le> w_seq s" "written s q = Some f"
      "sequence_id (sl_frame s) = v \<longrightarrow> sl_frame s = f \<and> (\<forall>(l, x) \<in> set obs. x = load_value l f)"
      by (auto simp: reader_inv_def)
    moreover have "q < seq" using q(2) p(2) by (rule le_less_trans)
    ultimately show "\<exists>q f. v = q * 2 \<and> q \<le> w_seq ?s' \<and> written ?s' q = Some f \<and>
        (pending ?s' \<noteq> [] \<longrightarrow> q < w_seq ?s') \<and>
        (sequence_id (sl_frame ?s') = v \<longrightarrow> sl_frame ?s' = f \<and> (\<forall>(l, x) \<in> set obs. x = load_value l f))"
      by (intro exI [of _ q] exI [of _ f]) (auto simp: less_imp_le)
  qed
qed

lemma begin_read_inv:
  assumes w: "writer_inv s" and even: "sequence_id (sl_frame s) AND 1 = 0"
  shows "reader_inv (s\<lparr>reader := Some (sequence_id (sl_frame s), [])\<rparr>)"
proof -
  have nw: "\<not> phase_writing s" using even even_double by (auto simp: phase_writing_def)
  with w consider (idle) "phase_idle s" | (begun) "phase_begun s" by (auto simp: writer_inv_def)
  then obtain q where "sequence_id (sl_frame s) = q * 2" "q \<le> w_seq s" "written s q = Some (sl_frame s)"
    "pending s \<noteq> [] \<longrightarrow> q < w_seq s"
  proof cases
    case idle
    then show ?thesis by (intro that [of "w_seq s"]) (auto simp: phase_idle_def)
  next
    case begun
    then show ?thesis by (auto simp: phase_begun_def intro!: that less_imp_le)
  qed
  then show ?thesis by (auto simp: reader_inv_def)
qed

lemma seqlock_inv: "seqlock_reachable s \<Longrightarrow> writer_inv s \<and> reader_inv s"
proof (induction rule: seqlock_reachable.induct)
  case sl_start
  show ?case
    by (simp add: seqlock_init_def writer_inv_def reader_inv_def phase_idle_def frame_zeroed_def)
next
  case (sl_step s s')
  have frame: "writer_inv (s\<lparr>reader := x\<rparr>)" for x
    using sl_step.IH by (simp add: writer_inv_def phase_idle_def phase_begun_def phase_writing_def)
  from sl_step.hyps(2) show ?case
  proof cases
    case (begin_write seq sb bid ask ts)
    then show ?thesis using begin_write_inv sl_step.IH by blast
  next
    case (store st rest)
    then show ?thesis using writer_store reader_store sl_step.IH by blast
  next
    case begin_read
    then show ?thesis using begin_read_inv frame sl_step.IH by blast
  next
    case (observe v obs l)
    have "reader_inv s'" using sl_step.IH observe by (fastforce simp: reader_inv_def)
    with frame observe show ?thesis by blast
  next
    case (end_read v obs)
    with frame show ?thesis by (simp add: reader_inv_def)
  qed
qed

text \<open>
  C31: a validated read is never torn.  In every interleaving of one writer, byte by byte, and a
  reader, while the write numbers increase and stay below \<open>2 ^ 63\<close>: if the sequence number that the reader loaded first was even and is in
  the frame again when it checks, then everything the reader observed in between, in whatever
  order, comes from the one complete frame of the write with that number.  This covers what is loaded before the check; the
  symbol that the code returns points into the live frame and may change after it.
\<close>

theorem validated_read_not_torn:
  assumes "seqlock_reachable s" and "reader s = Some (v, obs)" and "sequence_id (sl_frame s) = v"
  shows "\<exists>f. written s (v div 2) = Some f \<and> sequence_id f = v \<and> (\<forall>(l, x) \<in> set obs. x = load_value l f)"
proof -
  have "unat (w_seq s) < 2 ^ 63" and r: "reader_inv s"
    using seqlock_inv [OF assms(1)] by (auto simp: writer_inv_def)
  from r assms(2,3) obtain q f where q: "v = q * 2" "q \<le> w_seq s" "written s q = Some f" "sl_frame s = f"
    "\<forall>(l, x) \<in> set obs. x = load_value l f" by (auto simp: reader_inv_def)
  have "unat q < 2 ^ 63" using q(2) \<open>unat (w_seq s) < 2 ^ 63\<close> by (simp add: word_le_nat_alt)
  then have "v div 2 = q" using half_double q(1) by simp
  with q assms(3) show ?thesis by auto
qed

lemma seqlock_sample: "seqlock_reachable (seqlock_init\<lparr>reader := Some (0, [(LdBid, 0)])\<rparr>)"
proof -
  have "seqlock_reachable (seqlock_init\<lparr>reader := Some (sequence_id (sl_frame seqlock_init), [])\<rparr>)"
    by (rule sl_step [OF sl_start begin_read]) (simp_all add: seqlock_init_def frame_zeroed_def)
  from sl_step [OF this observe [of _ 0 "[]" LdBid]] show ?thesis
    by (simp add: seqlock_init_def frame_zeroed_def)
qed

theorem validated_read_not_torn_witness:
  "\<exists>f. written (seqlock_init\<lparr>reader := Some (0, [(LdBid, 0)])\<rparr>) 0 = Some f \<and> sequence_id f = 0 \<and> best_bid f = 0"
  using validated_read_not_torn [OF seqlock_sample, of 0 "[(LdBid, 0)]"]
  by (auto simp: seqlock_init_def frame_zeroed_def)

text \<open>
  what is written to a slot is what is read from it.  On an arena whose capacity is its number
  of slots, a write to a slot in range succeeds, and reading that slot
  gives back the number of the write, the prices, the time, and the first 11 bytes of the symbol
  whenever these hold no zero byte and are valid UTF-8; the other slots are unchanged.  A write out
  of range is refused and changes nothing.
\<close>

theorem slot_roundtrip:
  assumes "length (frames a) = capacity a" and "\<forall>f \<in> set (frames a). length (symbol_bytes f) = MAX_SYMBOL_LEN"
    and "unat (global_seq a) < 2 ^ 63"
    and "0 \<notin> set (take 11 sb)" and "valid_utf8 (take 11 sb)"
  shows "if slot < capacity a
    then \<exists>a'. write_slot now slot sb bid ask a = Some (Inr (), a') \<and>
      Option.bind (read_slot slot a') read_consistent = Some (global_seq a, take 11 sb, bid, ask, now) \<and>
      (\<forall>k. k \<noteq> slot \<longrightarrow> read_slot k a' = read_slot k a)
    else write_slot now slot sb bid ask a = Some (Inl (SlotOutOfBounds slot (capacity a)), a)"
proof (cases "slot < capacity a")
  case True
  let ?f = "complete (global_seq a) sb bid ask now"
  let ?a = "a\<lparr>global_seq := global_seq a + 1, frames := (frames a)[slot := ?f]\<rparr>"
  have "frame_write (global_seq a) sb bid ask now (frames a ! slot) = ?f"
    using True assms(1,2) by (intro frame_write_complete) auto
  then have "write_slot now slot sb bid ask a = Some (Inr (), ?a)"
    using True assms(1) by (simp add: write_slot_def get_at_def)
  moreover have "read_consistent ?f = Some (global_seq a, take 11 sb, bid, ask, now)"
    using assms(3-5) takeWhile_padded [of sb] even_double(1) half_double
    by (simp add: read_consistent_def complete_def symbol_str_def Let_def)
  then have "Option.bind (read_slot slot ?a) read_consistent = Some (global_seq a, take 11 sb, bid, ask, now)"
    using True assms(1) by (simp add: read_slot_def get_at_def)
  moreover have "read_slot k ?a = read_slot k a" if "k \<noteq> slot" for k
    using that by (simp add: read_slot_def get_at_def)
  ultimately show ?thesis using True by auto
qed (simp add: write_slot_def)

theorem slot_roundtrip_witness:
  "\<exists>a a'. shm_new 3 = Some a \<and> write_slot 1700 2 [66, 84, 67] 5 6 a = Some (Inr (), a') \<and>
     Option.bind (read_slot 2 a') read_consistent = Some (1, [66, 84, 67], 5, 6, 1700)"
proof -
  let ?a = "\<lparr>frames = replicate 3 frame_zeroed, capacity = 3, global_seq = 1\<rparr>"
  have "shm_new 3 = Some ?a" by (simp add: shm_new_def)
  with slot_roundtrip [of ?a "[66, 84, 67]" 2 1700 5 6] show ?thesis
    by (auto simp: frame_zeroed_def)
qed

end
