(* ===== verification/Order_Tracker.thy ===== *)
theory Order_Tracker
  imports Decimal_Api
begin

text \<open>
  The live order tracker of \<^verbatim>\<open>src/src/live_order_tracker.rs\<close>.  The hash map is an association list in its
  iteration order with one entry per key; instants are natural numbers of nanoseconds and every
  reading of the clock is an argument.  The lock is taken (a poisoned lock leaves the map alone).
\<close>

section \<open>State and operations\<close>

abbreviation DEFAULT_MAX_TRACKED_ORDERS :: nat where "DEFAULT_MAX_TRACKED_ORDERS \<equiv> 10000"

record 'd tracked_order =
  order_id :: string
  order_exchange :: u16
  order_symbol :: string
  is_buy :: bool
  submitted_at :: nat
  submitted_at_epoch_ms :: u64
  filled_qty :: 'd

record 'd live_order_tracker =
  orders :: "(string \<times> 'd tracked_order) list"
  max_age_secs :: u64
  max_tracked_orders :: nat
  total_tracked :: u64

definition with_max_orders :: "u64 \<Rightarrow> nat \<Rightarrow> 'd live_order_tracker" where
  "with_max_orders age mx = \<lparr>orders = [], max_age_secs = age, max_tracked_orders = mx, total_tracked = 0\<rparr>"

definition tracker_new :: "u64 \<Rightarrow> 'd live_order_tracker" where
  "tracker_new age = with_max_orders age DEFAULT_MAX_TRACKED_ORDERS"

definition fresh_order :: "nat \<Rightarrow> 'd live_order_tracker \<Rightarrow> 'd tracked_order \<Rightarrow> bool" where
  "fresh_order now tr ord = ((now - submitted_at ord) div 1000000000 < unat (max_age_secs tr))"

text \<open>The first entry with the least key, as \<^verbatim>\<open>min_by_key\<close> returns it.\<close>

fun min_by_time :: "(string \<times> 'd tracked_order) list \<Rightarrow> (string \<times> 'd tracked_order) option" where
  "min_by_time [] = None"
| "min_by_time (e # es) =
     (case min_by_time es of
        None \<Rightarrow> Some e
      | Some m \<Rightarrow> if submitted_at (snd m) < submitted_at (snd e) then Some m else Some e)"

definition map_remove :: "string \<Rightarrow> (string \<times> 'v) list \<Rightarrow> (string \<times> 'v) list" where
  "map_remove k m = filter (\<lambda>e. fst e \<noteq> k) m"

definition map_insert :: "string \<Rightarrow> 'v \<Rightarrow> (string \<times> 'v) list \<Rightarrow> (string \<times> 'v) list" where
  "map_insert k v m =
     (if map_of m k = None then m @ [(k, v)] else map (\<lambda>e. if fst e = k then (k, v) else e) m)"

definition retained :: "nat \<Rightarrow> 'd live_order_tracker \<Rightarrow> (string \<times> 'd tracked_order) list" where
  "retained now tr =
     (if max_tracked_orders tr div 2 < length (orders tr)
      then filter (\<lambda>e. fresh_order now tr (snd e)) (orders tr) else orders tr)"

definition evicted :: "nat \<Rightarrow> (string \<times> 'd tracked_order) list \<Rightarrow> (string \<times> 'd tracked_order) list" where
  "evicted mx m =
     (if mx \<le> length m
      then case min_by_time m of None \<Rightarrow> m | Some oldest \<Rightarrow> map_remove (fst oldest) m
      else m)"

definition track ::
  "'d decimal_api \<Rightarrow> nat \<Rightarrow> nat \<Rightarrow> u64 \<Rightarrow> string \<Rightarrow> u16 \<Rightarrow> string \<Rightarrow> bool \<Rightarrow> 'd live_order_tracker \<Rightarrow>
   'd live_order_tracker" where
  "track api t_clean now epoch_ms oid exch symbol buy tr =
     tr\<lparr>orders := map_insert oid
          \<lparr>order_id = oid, order_exchange = exch, order_symbol = to_uppercase symbol, is_buy = buy,
           submitted_at = now, submitted_at_epoch_ms = epoch_ms, filled_qty = dec_zero api\<rparr>
          (evicted (max_tracked_orders tr) (retained t_clean tr)),
        total_tracked := total_tracked tr + 1\<rparr>"

definition tracker_get :: "string \<Rightarrow> 'd live_order_tracker \<Rightarrow> 'd tracked_order option" where
  "tracker_get oid tr = map_of (orders tr) oid"

definition tracker_remove :: "string \<Rightarrow> 'd live_order_tracker \<Rightarrow> 'd live_order_tracker" where
  "tracker_remove oid tr = tr\<lparr>orders := map_remove oid (orders tr)\<rparr>"

definition get_by_exchange :: "u16 \<Rightarrow> 'd live_order_tracker \<Rightarrow> 'd tracked_order list" where
  "get_by_exchange exch tr = filter (\<lambda>ord. order_exchange ord = exch) (map snd (orders tr))"

definition cleanup_stale :: "nat \<Rightarrow> 'd live_order_tracker \<Rightarrow> nat \<times> 'd live_order_tracker" where
  "cleanup_stale now tr =
     (let kept = filter (\<lambda>e. fresh_order now tr (snd e)) (orders tr)
      in (length (orders tr) - length kept, tr\<lparr>orders := kept\<rparr>))"

definition prune_oldest :: "'d live_order_tracker \<Rightarrow> nat \<times> 'd live_order_tracker" where
  "prune_oldest tr =
     (if length (orders tr) \<le> max_tracked_orders tr then (0, tr)
      else let entries = sort_key snd (map (\<lambda>e. (order_id (snd e), submitted_at (snd e))) (orders tr));
               to_remove = length (orders tr) - max_tracked_orders tr
           in (to_remove, tr\<lparr>orders := foldl (\<lambda>m e. map_remove (fst e) m) (orders tr) (take to_remove entries)\<rparr>))"

definition update_fill :: "string \<Rightarrow> 'd \<Rightarrow> 'd live_order_tracker \<Rightarrow> 'd live_order_tracker" where
  "update_fill oid qty tr =
     tr\<lparr>orders := map (\<lambda>e. if fst e = oid then (fst e, (snd e)\<lparr>filled_qty := qty\<rparr>) else e) (orders tr)\<rparr>"

datatype 'd tracker_op =
    Track nat nat u64 string u16 string bool
  | Remove string
  | Cleanup nat
  | Prune
  | Fill string 'd

fun tracker_step :: "'d decimal_api \<Rightarrow> 'd live_order_tracker \<Rightarrow> 'd tracker_op \<Rightarrow> 'd live_order_tracker" where
  "tracker_step api tr (Track t_clean now ms oid x s b) = track api t_clean now ms oid x s b tr"
| "tracker_step api tr (Remove oid) = tracker_remove oid tr"
| "tracker_step api tr (Cleanup now) = snd (cleanup_stale now tr)"
| "tracker_step api tr Prune = snd (prune_oldest tr)"
| "tracker_step api tr (Fill oid q) = update_fill oid q tr"

section \<open>Maps as association lists\<close>

definition keyed :: "(string \<times> 'd tracked_order) list \<Rightarrow> bool" where
  "keyed m \<longleftrightarrow> distinct (map fst m) \<and> (\<forall>e \<in> set m. order_id (snd e) = fst e)"

lemma keyed_filter: "keyed m \<Longrightarrow> keyed (filter P m)"
  by (auto simp: keyed_def distinct_map_filter)

lemma keyed_remove: "keyed m \<Longrightarrow> keyed (map_remove k m)"
  by (simp add: map_remove_def keyed_filter)

lemma map_of_remove: "map_of (map_remove k m) = (map_of m)(k := None)"
  by (induction m) (auto simp: map_remove_def fun_eq_iff)

lemma map_of_overwrite:
  "map_of (map (\<lambda>e. if fst e = k then (k, v) else e) m) x =
     (if x = k then map_option (\<lambda>_. v) (map_of m k) else map_of m x)"
  by (induction m) auto

lemma map_of_insert: "map_of (map_insert k v m) = (map_of m)(k \<mapsto> v)"
  by (auto simp: map_insert_def map_of_overwrite fun_eq_iff map_add_def split: option.splits)

lemma keyed_insert:
  assumes "keyed m" "order_id v = k"
  shows "keyed (map_insert k v m)"
proof (cases "map_of m k = None")
  case True
  then have "k \<notin> fst ` set m" by (metis map_of_eq_None_iff)
  moreover have "map_insert k v m = m @ [(k, v)]" using True by (simp add: map_insert_def)
  ultimately show ?thesis using assms by (simp add: keyed_def)
next
  case False
  let ?f = "\<lambda>e. if fst e = k then (k, v) else e"
  have "map fst (map ?f m) = map fst m" by (induction m) auto
  then have "distinct (map fst (map ?f m))" using assms(1) by (simp only: keyed_def)
  moreover have "order_id (snd (?f e)) = fst (?f e)" if "e \<in> set m" for e
    using that assms by (simp add: keyed_def)
  then have "\<forall>e \<in> set (map ?f m). order_id (snd e) = fst e" unfolding set_map by blast
  moreover have "map_insert k v m = map ?f m" using False by (simp add: map_insert_def)
  ultimately show ?thesis unfolding keyed_def by (simp only:)
qed

lemma length_insert: "length (map_insert k v m) \<le> Suc (length m)"
  by (simp add: map_insert_def)

lemma keyed_remove_length: "keyed m \<Longrightarrow> k \<in> fst ` set m \<Longrightarrow> Suc (length (map_remove k m)) = length m"
proof (induction m)
  case (Cons e m)
  show ?case
  proof (cases "fst e = k")
    case True
    then have "k \<notin> fst ` set m" using Cons.prems by (auto simp: keyed_def)
    then have "map_remove k m = m" by (auto simp: map_remove_def filter_id_conv)
    with True show ?thesis by (simp add: map_remove_def)
  next
    case False
    with Cons show ?thesis by (auto simp: map_remove_def keyed_def)
  qed
qed simp

lemma min_by_time_Some:
  "min_by_time m = Some e \<Longrightarrow> e \<in> set m \<and> (\<forall>x \<in> set m. submitted_at (snd e) \<le> submitted_at (snd x))"
proof (induction m arbitrary: e)
  case (Cons x m)
  show ?case
  proof (cases "min_by_time m")
    case None
    then have "m = []" by (cases m) (auto split: option.splits if_splits)
    with Cons.prems show ?thesis by simp
  next
    case (Some y)
    with Cons.IH [OF Some] Cons.prems show ?thesis by (auto split: if_splits)
  qed
qed simp

lemma min_by_time_None: "min_by_time m = None \<longleftrightarrow> m = []"
  by (cases m) (auto split: option.splits)

lemma evicted_length:
  assumes "keyed m"
  shows "length (evicted mx m) < max mx 1 \<or> length (evicted mx m) < length m"
proof (cases "min_by_time m")
  case None
  then show ?thesis by (auto simp: evicted_def min_by_time_None)
next
  case (Some e)
  with min_by_time_Some [OF Some] keyed_remove_length [OF assms, of "fst e"] show ?thesis
    by (auto simp: evicted_def)
qed

section \<open>Invariant\<close>

definition tracker_inv :: "'d live_order_tracker \<Rightarrow> bool" where
  "tracker_inv tr \<longleftrightarrow> keyed (orders tr) \<and> length (orders tr) \<le> max (max_tracked_orders tr) 1"

lemma retained_keyed: "keyed (orders tr) \<Longrightarrow> keyed (retained now tr)"
  by (simp add: retained_def keyed_filter)

lemma retained_length: "length (retained now tr) \<le> length (orders tr)"
  by (simp add: retained_def)

lemma evicted_keyed: "keyed m \<Longrightarrow> keyed (evicted mx m)"
  by (simp add: evicted_def keyed_remove split: option.splits)

lemma track_inv: "tracker_inv tr \<Longrightarrow> tracker_inv (track api t0 now ms oid x s b tr)"
proof -
  assume inv: "tracker_inv tr"
  let ?m = "evicted (max_tracked_orders tr) (retained t0 tr)"
  have k: "keyed (retained t0 tr)" using inv retained_keyed by (auto simp: tracker_inv_def)
  have "length ?m < max (max_tracked_orders tr) 1"
    using evicted_length [OF k, of "max_tracked_orders tr"] retained_length [of t0 tr] inv
    by (auto simp: tracker_inv_def)
  then have "length (map_insert oid v ?m) \<le> max (max_tracked_orders tr) 1" for v
    using length_insert [of oid v ?m] by linarith
  with keyed_insert [OF evicted_keyed [OF k]] show ?thesis by (simp add: tracker_inv_def track_def)
qed

lemma foldl_remove: "foldl (\<lambda>m e. map_remove (fst e) m) m es = filter (\<lambda>e. fst e \<notin> fst ` set es) m"
  by (induction es arbitrary: m) (auto simp: map_remove_def intro!: filter_cong)

lemma prune_inv: "tracker_inv tr \<Longrightarrow> tracker_inv (snd (prune_oldest tr))"
  by (auto simp: prune_oldest_def Let_def tracker_inv_def keyed_filter foldl_remove
      intro: order_trans [OF length_filter_le])

lemma fill_keyed:
  assumes "keyed m"
  shows "keyed (map (\<lambda>e. if fst e = oid then (fst e, (snd e)\<lparr>filled_qty := q\<rparr>) else e) m)"
proof -
  let ?f = "\<lambda>e. if fst e = oid then (fst e, (snd e)\<lparr>filled_qty := q\<rparr>) else e"
  have "map fst (map ?f m) = map fst m" by (induction m) auto
  moreover have "\<forall>e \<in> set (map ?f m). order_id (snd e) = fst e"
    using assms unfolding keyed_def set_map by auto
  ultimately show ?thesis using assms unfolding keyed_def by (simp only:)
qed

interpretation tracker: guarded_machine "tracker_step api" tracker_inv for api :: "'d decimal_api"
proof
  fix tr :: "'d live_order_tracker" and opn
  assume inv: "tracker_inv tr"
  have others: "tracker_inv (tracker_remove k tr)" "tracker_inv (snd (cleanup_stale t tr))"
    "tracker_inv (update_fill k q tr)" for k t and q :: 'd
    using inv by (auto simp: tracker_inv_def tracker_remove_def map_remove_def keyed_filter cleanup_stale_def
        Let_def update_fill_def fill_keyed intro: order_trans [OF length_filter_le])
  then show "tracker_inv (tracker_step api tr opn)"
    by (cases opn) (simp_all add: track_inv prune_inv inv)
qed

lemma tracker_caps: "max_tracked_orders (run (tracker_step api) tr ops) = max_tracked_orders tr"
proof (induction ops arbitrary: tr)
  case (Cons opn ops)
  then show ?case
    by (cases opn) (simp_all add: track_def tracker_remove_def cleanup_stale_def Let_def prune_oldest_def update_fill_def)
qed simp

text \<open>
  C32: the tracker is bounded.  After every sequence of its operations a tracker holds at most its
  configured number of orders (one, when that number is zero), one entry per order identifier, and
  each entry is filed under its own identifier.
\<close>

theorem tracker_bounded:
  "let tr = run (tracker_step api) (with_max_orders age mx) ops in
     length (orders tr) \<le> max mx 1 \<and> distinct (map fst (orders tr)) \<and>
     (\<forall>oid ord. tracker_get oid tr = Some ord \<longrightarrow> order_id ord = oid)"
proof -
  let ?tr = "run (tracker_step api) (with_max_orders age mx) ops"
  have "tracker_inv (with_max_orders age mx :: 'a live_order_tracker)"
    by (simp add: tracker_inv_def with_max_orders_def keyed_def)
  then have "tracker_inv ?tr" by (rule tracker.inv_run)
  moreover have "max_tracked_orders ?tr = mx" by (simp add: tracker_caps with_max_orders_def)
  ultimately show ?thesis
    by (fastforce simp: Let_def tracker_inv_def keyed_def tracker_get_def dest: map_of_SomeD)
qed

theorem tracker_bounded_witness:
  "let tr = run (tracker_step int_decimal) (with_max_orders 60 2)
       [Track 0 0 0 ''a'' 1 ''btc'' True, Track 1 1 0 ''b'' 1 ''eth'' True, Track 2 2 0 ''c'' 2 ''sol'' False] in
     length (orders tr) \<le> 2"
  using tracker_bounded [of int_decimal 60 2
      "[Track 0 0 0 ''a'' 1 ''btc'' True, Track 1 1 0 ''b'' 1 ''eth'' True, Track 2 2 0 ''c'' 2 ''sol'' False]"]
  by (simp add: Let_def)

section \<open>Effect of tracking an order\<close>

lemma map_of_filter_keyed:
  "distinct (map fst m) \<Longrightarrow> map_of (filter (\<lambda>e. P (snd e)) m) k =
     (case map_of m k of None \<Rightarrow> None | Some v \<Rightarrow> if P v then Some v else None)"
proof (induction m)
  case (Cons e m)
  then show ?case
    by (cases e) (auto split: option.splits simp: map_of_eq_None_iff dest: map_of_SomeD)
qed simp

text \<open>
  tracking an order makes it retrievable, and forgets another order only for a reason.  The new
  order is found under its identifier with the symbol in upper case and nothing filled.  Another
  order is either found unchanged, or it was too old (and more than half of the capacity was in use),
  or the tracker was full of recent orders and none of them was submitted before it.
\<close>

theorem track_effect:
  assumes "tracker_inv tr"
  shows "let tr' = track api t0 now ms oid x s b tr in
    tracker_get oid tr' = Some \<lparr>order_id = oid, order_exchange = x, order_symbol = to_uppercase s, is_buy = b,
      submitted_at = now, submitted_at_epoch_ms = ms, filled_qty = dec_zero api\<rparr> \<and>
    (\<forall>k ord. k \<noteq> oid \<longrightarrow> tracker_get k tr = Some ord \<longrightarrow>
      tracker_get k tr' = Some ord \<or>
      tracker_get k tr' = None \<and>
        (\<not> fresh_order t0 tr ord \<and> max_tracked_orders tr div 2 < length (orders tr) \<or>
         max_tracked_orders tr \<le> length (orders tr) \<and>
         (\<forall>k' ord'. tracker_get k' tr' = Some ord' \<longrightarrow> k' \<noteq> oid \<longrightarrow> submitted_at ord \<le> submitted_at ord')))"
proof -
  let ?r = "retained t0 tr" and ?e = "evicted (max_tracked_orders tr) (retained t0 tr)"
  let ?tr = "track api t0 now ms oid x s b tr"
  have d: "distinct (map fst (orders tr))" "distinct (map fst ?r)"
    using assms retained_keyed [of tr t0] by (auto simp: tracker_inv_def keyed_def)
  have get: "tracker_get k ?tr = map_of ?e k" if "k \<noteq> oid" for k
    using that by (simp add: tracker_get_def track_def map_of_insert)
  have ret: "map_of ?r k = Some ord \<or> map_of ?r k = None \<and> \<not> fresh_order t0 tr ord \<and>
      max_tracked_orders tr div 2 < length (orders tr)" if "tracker_get k tr = Some ord" for k ord
    using that map_of_filter_keyed [OF d(1), of "fresh_order t0 tr" k]
    by (auto simp: retained_def tracker_get_def)
  have sub: "map_of ?r k = Some ord" if "map_of ?e k = Some ord" for k ord
    using that by (auto simp: evicted_def map_of_remove split: option.splits if_splits)
  have "tracker_get k ?tr = Some ord \<or> tracker_get k ?tr = None \<and>
        (\<not> fresh_order t0 tr ord \<and> max_tracked_orders tr div 2 < length (orders tr) \<or>
         max_tracked_orders tr \<le> length (orders tr) \<and>
         (\<forall>k' ord'. tracker_get k' ?tr = Some ord' \<longrightarrow> k' \<noteq> oid \<longrightarrow> submitted_at ord \<le> submitted_at ord'))"
    if k: "k \<noteq> oid" "tracker_get k tr = Some ord" for k ord
  proof (cases "map_of ?e k")
    case (Some ord')
    then have "ord' = ord" using sub [OF Some] ret [OF k(2)] by auto
    then show ?thesis using Some get [OF k(1)] by simp
  next
    case None
    show ?thesis
    proof (cases "map_of ?r k = Some ord")
      case False
      then show ?thesis using ret [OF k(2)] None get [OF k(1)] by auto
    next
      case True
      with None obtain m where full: "max_tracked_orders tr \<le> length ?r" and m: "min_by_time ?r = Some m" "fst m = k"
        by (auto simp: evicted_def map_of_remove split: if_splits option.splits)
      have m_eq: "m = (k, ord)" using min_by_time_Some [OF m(1)] m(2) True d(2)
        by (metis map_of_eq_Some_iff prod.collapse option.inject)
      have "submitted_at ord \<le> submitted_at ord'" if "tracker_get k' ?tr = Some ord'" "k' \<noteq> oid" for k' ord'
      proof -
        have "map_of ?r k' = Some ord'" by (rule sub) (use get [OF that(2)] that(1) in simp)
        then have "(k', ord') \<in> set ?r" by (rule map_of_SomeD)
        with m_eq min_by_time_Some [OF m(1)] show ?thesis by (metis snd_conv)
      qed
      then show ?thesis using None get [OF k(1)] full retained_length [of t0 tr] by auto
    qed
  qed
  then show ?thesis by (simp add: Let_def tracker_get_def track_def map_of_insert)
qed

definition sample_tracker :: "int live_order_tracker" where
  "sample_tracker = track int_decimal 0 5 50 ''o1'' 1 ''btcusdt'' True (with_max_orders 60 1)"

lemma sample_tracker_inv: "tracker_inv sample_tracker"
  unfolding sample_tracker_def
  by (rule track_inv) (simp add: tracker_inv_def with_max_orders_def keyed_def)

theorem track_effect_witness:
  "tracker_get ''o2'' (track int_decimal 6 7 70 ''o2'' 2 ''ethusdt'' False sample_tracker) =
     Some \<lparr>order_id = ''o2'', order_exchange = 2, order_symbol = to_uppercase ''ethusdt'', is_buy = False,
       submitted_at = 7, submitted_at_epoch_ms = 70, filled_qty = 0\<rparr>"
  using track_effect [OF sample_tracker_inv, of int_decimal 6 7 70 "''o2''" 2 "''ethusdt''" False]
  by (simp add: Let_def int_decimal_def)

section \<open>Pruning\<close>

lemma sorted_take_drop:
  assumes "sorted (map f xs)" "x \<in> set (take n xs)" "y \<in> set (drop n xs)"
  shows "f x \<le> f y"
proof -
  have "sorted (map f (take n xs) @ map f (drop n xs))"
    using assms(1) by (metis append_take_drop_id map_append)
  with assms(2,3) show ?thesis by (auto simp: sorted_append)
qed

lemma length_filter_keys:
  assumes "distinct (map fst m)" "set ks \<subseteq> fst ` set m" "distinct ks"
  shows "length (filter (\<lambda>e. fst e \<notin> set ks) m) = length m - length ks"
proof -
  have "length (filter (\<lambda>e. fst e \<in> set ks) m) = card (set ks)"
  proof -
    have "set (map fst (filter (\<lambda>e. fst e \<in> set ks) m)) = set ks" using assms(2) by auto
    moreover have "distinct (map fst (filter (\<lambda>e. fst e \<in> set ks) m))" by (rule distinct_map_filter [OF assms(1)])
    ultimately show ?thesis by (metis distinct_card length_map)
  qed
  moreover have "length (filter (\<lambda>e. fst e \<in> set ks) m) + length (filter (\<lambda>e. fst e \<notin> set ks) m) = length m"
    by (rule sum_length_filter_compl)
  ultimately show ?thesis using distinct_card [OF assms(3)] by simp
qed

text \<open>
  pruning removes exactly the excess, oldest first.  It leaves the smaller of the number of
  orders and the limit, returns how many it removed, keeps the orders it leaves as they were, and
  every order it removed was submitted no later than every order it kept.
\<close>

theorem prune_removes_oldest:
  assumes "keyed (orders tr)"
  shows "let (n, tr') = prune_oldest tr in
    length (orders tr') = min (length (orders tr)) (max_tracked_orders tr) \<and>
    n = length (orders tr) - length (orders tr') \<and> set (orders tr') \<subseteq> set (orders tr) \<and>
    (\<forall>e \<in> set (orders tr) - set (orders tr'). \<forall>e' \<in> set (orders tr').
       submitted_at (snd e) \<le> submitted_at (snd e'))"
proof (cases "length (orders tr) \<le> max_tracked_orders tr")
  case True
  then show ?thesis by (simp add: prune_oldest_def)
next
  case False
  define g where "g = (\<lambda>e :: string \<times> 'a tracked_order. (order_id (snd e), submitted_at (snd e)))"
  define es where "es = sort_key snd (map g (orders tr))"
  define n where "n = length (orders tr) - max_tracked_orders tr"
  have fg: "map fst (map g (orders tr)) = map fst (orders tr)" using assms by (auto simp: keyed_def g_def)
  have des: "distinct (map fst es)"
  proof -
    have "mset (map fst es) = mset (map fst (orders tr))" using fg by (metis es_def mset_map mset_sort)
    then show ?thesis using assms by (metis keyed_def mset_eq_imp_distinct_iff)
  qed
  have les: "length es = length (orders tr)" and ses: "set es = g ` set (orders tr)" by (simp_all add: es_def)
  have srt: "sorted (map snd es)" by (simp add: es_def)
  have "orders (snd (prune_oldest tr)) = filter (\<lambda>e. fst e \<notin> fst ` set (take n es)) (orders tr)"
    using False by (simp add: prune_oldest_def Let_def foldl_remove es_def n_def g_def)
  then have kept: "orders (snd (prune_oldest tr)) = filter (\<lambda>e. fst e \<notin> set (map fst (take n es))) (orders tr)"
    by simp
  have sub: "set (map fst (take n es)) \<subseteq> fst ` set (orders tr)"
    using ses assms by (auto simp: g_def keyed_def dest!: in_set_takeD)
  have len: "length (orders (snd (prune_oldest tr))) = max_tracked_orders tr"
    unfolding kept using length_filter_keys [OF _ sub] assms des False les
    by (simp add: keyed_def n_def distinct_take [of "map fst es", simplified take_map])
  have old: "submitted_at (snd e) \<le> submitted_at (snd e')"
    if e: "e \<in> set (orders tr)" "fst e \<in> set (map fst (take n es))"
      and e': "e' \<in> set (orders tr)" "fst e' \<notin> set (map fst (take n es))" for e e'
  proof -
    have ge: "g e \<in> set es" "g e' \<in> set es" "fst (g e) = fst e" "fst (g e') = fst e'"
      using e(1) e'(1) ses assms by (auto simp: g_def keyed_def)
    have "g e \<in> set (take n es)"
      using e(2) ge(1,3) des by (metis (no_types, lifting) eq_key_imp_eq_value imageE in_set_takeD list.set_map prod.collapse)
    moreover have "g e' \<in> set (drop n es)"
      using e'(2) ge(2,4) by (metis (no_types, lifting) Un_iff append_take_drop_id image_eqI list.set_map set_append)
    ultimately have "snd (g e) \<le> snd (g e')" using sorted_take_drop [OF srt] by blast
    then show ?thesis by (simp add: g_def)
  qed
  have fstp: "fst (prune_oldest tr) = n" using False by (simp add: prune_oldest_def Let_def n_def)
  obtain k tr' where p: "prune_oldest tr = (k, tr')" by fastforce
  show ?thesis using len fstp kept old False unfolding p by (auto simp: n_def)
qed

theorem prune_removes_oldest_witness:
  "let tr = sample_tracker\<lparr>max_tracked_orders := 0\<rparr> in
     keyed (orders tr) \<and> length (orders (snd (prune_oldest tr))) = 0 \<and> fst (prune_oldest tr) = 1"
proof -
  have k: "keyed (orders (sample_tracker\<lparr>max_tracked_orders := 0\<rparr>))"
    using sample_tracker_inv by (simp add: tracker_inv_def)
  moreover have "length (orders sample_tracker) = 1"
    by (simp add: sample_tracker_def track_def with_max_orders_def retained_def evicted_def map_insert_def)
  ultimately show ?thesis using prune_removes_oldest [OF k] by (auto simp: Let_def split: prod.splits)
qed

end
