(* ===== verification/Watchdogs.thy ===== *)
theory Watchdogs
  imports Rust_Prelude
begin

text \<open>
  The two liveness monitors: the dead man's switch of \<^verbatim>\<open>src/src/dead_mans_switch.rs\<close> and the health
  monitor of \<^verbatim>\<open>src/src/health.rs\<close>.  Wall-clock readings are 64-bit milliseconds and arguments of the
  operations; the monotonic up-time of the health monitor is a number of whole seconds.
\<close>

section \<open>Dead man's switch\<close>

record dead_mans_switch =
  last_heartbeat_ms :: u64
  tripped :: bool
  grace_period_ms :: u64
  timeout_ms :: u64

definition switch_new :: "u64 \<Rightarrow> u64 \<Rightarrow> u64 \<Rightarrow> dead_mans_switch" where
  "switch_new now grace_period_secs timeout_secs =
     \<lparr>last_heartbeat_ms = now, tripped = False, grace_period_ms = grace_period_secs * 1000,
      timeout_ms = timeout_secs * 1000\<rparr>"

definition heartbeat :: "u64 \<Rightarrow> dead_mans_switch \<Rightarrow> dead_mans_switch" where
  "heartbeat now d = d\<lparr>last_heartbeat_ms := now\<rparr>"

definition switch_trip :: "dead_mans_switch \<Rightarrow> dead_mans_switch" where
  "switch_trip d = d\<lparr>tripped := True\<rparr>"

definition elapsed_since_heartbeat_ms :: "u64 \<Rightarrow> dead_mans_switch \<Rightarrow> u64" where
  "elapsed_since_heartbeat_ms now d = saturating_sub now (last_heartbeat_ms d)"

text \<open>One round of the watchdog after the grace period; the result says whether the task goes on.\<close>

definition watchdog_round :: "u64 \<Rightarrow> dead_mans_switch \<Rightarrow> bool \<times> dead_mans_switch" where
  "watchdog_round now d =
     (if tripped d then (False, d)
      else if timeout_ms d < elapsed_since_heartbeat_ms now d then (False, d\<lparr>tripped := True\<rparr>)
      else (True, d))"

text \<open>
  The events a switch sees, in their order: heartbeats and manual trips by other tasks, and the
  rounds of the watchdog, which is gone once a round has ended it.
\<close>

datatype switch_event = Beat u64 | ManualTrip | Round u64

fun switch_step :: "dead_mans_switch \<times> bool \<Rightarrow> switch_event \<Rightarrow> dead_mans_switch \<times> bool" where
  "switch_step (d, alive) (Beat now) = (heartbeat now d, alive)"
| "switch_step (d, alive) ManualTrip = (switch_trip d, alive)"
| "switch_step (d, alive) (Round now) =
     (if alive then case watchdog_round now d of (go, d') \<Rightarrow> (d', go) else (d, alive))"

interpretation switch: guarded_machine switch_step "\<lambda>s :: dead_mans_switch \<times> bool. tripped (fst s)"
proof
  fix s :: "dead_mans_switch \<times> bool" and ev
  assume "tripped (fst s)"
  then show "tripped (fst (switch_step s ev))"
    by (cases s; cases ev)
      (auto simp: heartbeat_def switch_trip_def watchdog_round_def)
qed

text \<open>The time of the last heartbeat, and whether some round came too late after it.\<close>

fun overdue :: "nat \<Rightarrow> nat \<Rightarrow> switch_event list \<Rightarrow> bool" where
  "overdue timeout hb [] = False"
| "overdue timeout hb (Beat now # evs) = overdue timeout (unat now) evs"
| "overdue timeout hb (ManualTrip # evs) = True"
| "overdue timeout hb (Round now # evs) = (hb + timeout < unat now \<or> overdue timeout hb evs)"

lemma elapsed_iff:
  "timeout_ms d < elapsed_since_heartbeat_ms now d \<longleftrightarrow>
     unat (last_heartbeat_ms d) + unat (timeout_ms d) < unat now"
  by (auto simp: elapsed_since_heartbeat_ms_def word_less_nat_alt unat_saturating_sub)

lemma switch_run:
  "\<not> tripped d \<Longrightarrow> tripped (fst (run switch_step (d, True) evs)) \<longleftrightarrow>
     overdue (unat (timeout_ms d)) (unat (last_heartbeat_ms d)) evs"
proof (induction evs arbitrary: d)
  case (Cons ev evs)
  have stays: "tripped (fst (run switch_step (d', b) evs))" if "tripped d'" for d' b
    using switch.inv_run [of "(d', b)" evs] that by simp
  show ?case
  proof (cases ev)
    case (Beat now)
    with Cons.IH [of "heartbeat now d"] Cons.prems show ?thesis by (simp add: heartbeat_def)
  next
    case ManualTrip
    then show ?thesis using stays by (simp add: switch_trip_def)
  next
    case (Round now)
    show ?thesis
    proof (cases "timeout_ms d < elapsed_since_heartbeat_ms now d")
      case True
      then show ?thesis using Round Cons.prems stays by (simp add: watchdog_round_def elapsed_iff)
    next
      case False
      then show ?thesis using Round Cons by (simp add: watchdog_round_def elapsed_iff)
    qed
  qed
qed simp

text \<open>
  the dead man's switch trips exactly when it should.  Over every sequence of heartbeats, manual
  trips and watchdog rounds, a fresh switch ends up tripped exactly when it was tripped by hand or
  some round came more than the timeout after the last heartbeat before it; once tripped, it stays so.
\<close>

theorem switch_trips_exactly:
  "tripped (fst (run switch_step (switch_new now g t, True) evs)) \<longleftrightarrow>
     overdue (unat (t * 1000)) (unat now) evs"
  using switch_run [of "switch_new now g t" evs] by (simp add: switch_new_def)

section \<open>Health monitor\<close>

abbreviation FEED_STALENESS_MS :: int where "FEED_STALENESS_MS \<equiv> 10000"
abbreviation STARTUP_GRACE_PERIOD_SECS :: nat where "STARTUP_GRACE_PERIOD_SECS \<equiv> 60"
abbreviation SIGNAL_FRESHNESS_MS :: u64 where "SIGNAL_FRESHNESS_MS \<equiv> 30000"
abbreviation FEED_REGISTRATION_GRACE_SECS :: nat where "FEED_REGISTRATION_GRACE_SECS \<equiv> 10"
abbreviation MS_PER_SEC :: u64 where "MS_PER_SEC \<equiv> 1000"

text \<open>The feeds are a hash map in its iteration order.\<close>

record health_monitor =
  total_signals_generated :: u64
  total_trades_executed :: u64
  total_trade_errors :: u64
  total_websocket_reconnects :: u64
  last_signal_time_ms :: u64
  last_trade_time_ms :: u64
  healthy_flag :: bool
  last_feed_update :: "(u16 \<times> i64) list"

definition health_monitor_new :: "u64 \<Rightarrow> u64 \<Rightarrow> health_monitor" where
  "health_monitor_new now1 now2 =
     \<lparr>total_signals_generated = 0, total_trades_executed = 0, total_trade_errors = 0,
      total_websocket_reconnects = 0, last_signal_time_ms = now1, last_trade_time_ms = now2,
      healthy_flag = True, last_feed_update = []\<rparr>"

definition record_signal :: "u64 \<Rightarrow> health_monitor \<Rightarrow> health_monitor" where
  "record_signal now h =
     h\<lparr>total_signals_generated := total_signals_generated h + 1, last_signal_time_ms := now\<rparr>"

definition record_trade_success :: "u64 \<Rightarrow> health_monitor \<Rightarrow> health_monitor" where
  "record_trade_success now h =
     h\<lparr>total_trades_executed := total_trades_executed h + 1, last_trade_time_ms := now\<rparr>"

definition record_trade_error :: "health_monitor \<Rightarrow> health_monitor" where
  "record_trade_error h = h\<lparr>total_trade_errors := total_trade_errors h + 1\<rparr>"

definition record_ws_reconnect :: "health_monitor \<Rightarrow> health_monitor" where
  "record_ws_reconnect h = h\<lparr>total_websocket_reconnects := total_websocket_reconnects h + 1\<rparr>"

text \<open>\<^verbatim>\<open>as i64\<close> keeps the bits.\<close>

definition record_feed_update :: "u64 \<Rightarrow> u16 \<Rightarrow> health_monitor \<Rightarrow> health_monitor" where
  "record_feed_update now exch h =
     h\<lparr>last_feed_update :=
         (if map_of (last_feed_update h) exch = None then last_feed_update h @ [(exch, now)]
          else map (\<lambda>e. if fst e = exch then (exch, now) else e) (last_feed_update h))\<rparr>"

definition feed_fresh :: "u64 \<Rightarrow> i64 \<Rightarrow> bool" where
  "feed_fresh now ts \<longleftrightarrow> sint (i64_saturating_sub now ts) < FEED_STALENESS_MS"

definition is_feed_healthy :: "u64 \<Rightarrow> u16 \<Rightarrow> health_monitor \<Rightarrow> bool" where
  "is_feed_healthy now exch h =
     (case map_of (last_feed_update h) exch of None \<Rightarrow> False | Some ts \<Rightarrow> feed_fresh now ts)"

definition all_feeds_healthy :: "nat \<Rightarrow> u64 \<Rightarrow> health_monitor \<Rightarrow> bool" where
  "all_feeds_healthy uptime_secs now h =
     (if last_feed_update h = [] then uptime_secs < FEED_REGISTRATION_GRACE_SECS
      else list_all (\<lambda>e. feed_fresh now (snd e)) (last_feed_update h))"

definition is_healthy :: "nat \<Rightarrow> u64 \<Rightarrow> health_monitor \<Rightarrow> bool" where
  "is_healthy uptime_secs now h =
     (if uptime_secs < STARTUP_GRACE_PERIOD_SECS then all_feeds_healthy uptime_secs now h
      else saturating_sub now (last_signal_time_ms h) < SIGNAL_FRESHNESS_MS \<and>
           all_feeds_healthy uptime_secs now h)"

record health_stats =
  st_uptime_secs :: nat
  st_total_signals :: u64
  st_total_trades :: u64
  st_total_errors :: u64
  st_ws_reconnects :: u64
  st_is_healthy :: bool
  st_last_signal_ago_secs :: u64
  st_last_trade_ago_secs :: u64
  st_feed_healthy :: "(u16 \<times> bool) list"

definition get_stats :: "nat \<Rightarrow> u64 \<Rightarrow> health_monitor \<Rightarrow> health_stats" where
  "get_stats uptime_secs now h =
     \<lparr>st_uptime_secs = uptime_secs, st_total_signals = total_signals_generated h,
      st_total_trades = total_trades_executed h, st_total_errors = total_trade_errors h,
      st_ws_reconnects = total_websocket_reconnects h, st_is_healthy = is_healthy uptime_secs now h,
      st_last_signal_ago_secs = saturating_sub now (last_signal_time_ms h) div MS_PER_SEC,
      st_last_trade_ago_secs = saturating_sub now (last_trade_time_ms h) div MS_PER_SEC,
      st_feed_healthy = map (\<lambda>e. (fst e, feed_fresh now (snd e))) (last_feed_update h)\<rparr>"

datatype health_event =
    Signal u64 | TradeOk u64 | TradeError | WsReconnect | FeedUpdate u16 u64

fun health_step :: "health_monitor \<Rightarrow> health_event \<Rightarrow> health_monitor" where
  "health_step h (Signal now) = record_signal now h"
| "health_step h (TradeOk now) = record_trade_success now h"
| "health_step h TradeError = record_trade_error h"
| "health_step h WsReconnect = record_ws_reconnect h"
| "health_step h (FeedUpdate x now) = record_feed_update now x h"

text \<open>The history a run leaves: the latest signal and the latest update of each feed.\<close>

fun last_signal :: "u64 \<Rightarrow> health_event list \<Rightarrow> u64" where
  "last_signal t [] = t"
| "last_signal t (Signal now # evs) = last_signal now evs"
| "last_signal t (ev # evs) = last_signal t evs"

fun last_feed :: "(u16 \<rightharpoonup> u64) \<Rightarrow> health_event list \<Rightarrow> (u16 \<rightharpoonup> u64)" where
  "last_feed F [] = F"
| "last_feed F (FeedUpdate x now # evs) = last_feed (F(x \<mapsto> now)) evs"
| "last_feed F (ev # evs) = last_feed F evs"

lemma map_of_feed_update: "map_of (last_feed_update (record_feed_update now x h)) = (map_of (last_feed_update h))(x \<mapsto> now)"
proof -
  have "map_of (map (\<lambda>e. if fst e = x then (x, now) else e) m) y =
      (if y = x then map_option (\<lambda>_. now) (map_of m x) else map_of m y)" for m y
    by (induction m) auto
  then show ?thesis by (auto simp: record_feed_update_def fun_eq_iff map_add_def split: option.splits)
qed

lemma health_run:
  "last_signal_time_ms (run health_step h evs) = last_signal (last_signal_time_ms h) evs"
  "map_of (last_feed_update (run health_step h evs)) = last_feed (map_of (last_feed_update h)) evs"
  by (induction evs arbitrary: h rule: last_signal.induct,
    auto simp: record_signal_def record_trade_success_def record_trade_error_def record_ws_reconnect_def
      map_of_feed_update, simp add: record_feed_update_def)

lemma feed_keys_distinct:
  "distinct (map fst (last_feed_update h)) \<Longrightarrow> distinct (map fst (last_feed_update (health_step h ev)))"
proof (cases ev)
  case (FeedUpdate x now)
  assume d: "distinct (map fst (last_feed_update h))"
  have "map fst (map (\<lambda>e. if fst e = x then (x, now) else e) m) = map fst m" for m :: "(u16 \<times> i64) list"
    by (induction m) auto
  with d FeedUpdate show ?thesis
    by (auto simp: record_feed_update_def map_of_eq_None_iff simp del: map_map)
qed (auto simp: record_signal_def record_trade_success_def record_trade_error_def record_ws_reconnect_def)

interpretation feeds: guarded_machine health_step "\<lambda>h. distinct (map fst (last_feed_update h))"
  by unfold_locales (rule feed_keys_distinct)

lemma clamp_diff:
  "a < 2 ^ 63 \<Longrightarrow> b < 2 ^ 63 \<Longrightarrow> max (- (2 ^ 63)) (min (int a - int b) (2 ^ 63 - 1)) < 10000 \<longleftrightarrow> a < b + 10000"
  by (auto simp: max_def min_def)

lemma feed_fresh_exact:
  assumes "unat now < 2 ^ 63" "unat ts < 2 ^ 63"
  shows "feed_fresh now ts \<longleftrightarrow> unat now < unat ts + 10000"
  unfolding feed_fresh_def sint_i64_saturating_sub sint_eq_of_unat_small [OF assms(1)]
    sint_eq_of_unat_small [OF assms(2)] by (rule clamp_diff [OF assms])

lemma all_feeds_map:
  assumes "distinct (map fst (last_feed_update h))"
  shows "list_all (\<lambda>e. feed_fresh now (snd e)) (last_feed_update h) \<longleftrightarrow>
    (\<forall>x ts. map_of (last_feed_update h) x = Some ts \<longrightarrow> feed_fresh now ts)"
  using assms by (auto simp: list_all_iff)

text \<open>
  health means what it says, over exact time.  After any history of signals, trades, errors and
  feed updates, with times in milliseconds below \<open>2 ^ 63\<close>, the monitor reports health exactly when
  every feed seen so far delivered within the last 10 seconds (or, if none was ever seen, the process
  is less than 10 seconds old), and, once the process is 60 seconds old, the last signal is less
  than 30 seconds old; trade errors and reconnects never make it look healthier.
\<close>

theorem health_exact:
  assumes "unat now < 2 ^ 63"
    and "\<forall>x ts. last_feed Map.empty evs x = Some ts \<longrightarrow> unat ts < 2 ^ 63"
  shows "is_healthy up now (run health_step (health_monitor_new t0 t1) evs) \<longleftrightarrow>
    (if last_feed Map.empty evs = Map.empty then up < 10
     else \<forall>x ts. last_feed Map.empty evs x = Some ts \<longrightarrow> unat now < unat ts + 10000) \<and>
    (60 \<le> up \<longrightarrow> unat now < unat (last_signal t0 evs) + 30000)"
proof -
  let ?h = "run health_step (health_monitor_new t0 t1) evs"
  have F: "map_of (last_feed_update ?h) = last_feed Map.empty evs"
    by (simp add: health_run health_monitor_new_def)
  have S: "last_signal_time_ms ?h = last_signal t0 evs" by (simp add: health_run health_monitor_new_def)
  have d: "distinct (map fst (last_feed_update ?h))" by (rule feeds.inv_run) (simp add: health_monitor_new_def)
  have e: "last_feed_update ?h = [] \<longleftrightarrow> last_feed Map.empty evs = Map.empty"
    unfolding F [symmetric] by (cases "last_feed_update ?h") auto
  have all: "list_all (\<lambda>e. feed_fresh now (snd e)) (last_feed_update ?h) \<longleftrightarrow>
      (\<forall>x ts. last_feed Map.empty evs x = Some ts \<longrightarrow> unat now < unat ts + 10000)"
    unfolding all_feeds_map [OF d] F using feed_fresh_exact [OF assms(1)] assms(2) by blast
  have sig: "saturating_sub now (last_signal t0 evs) < SIGNAL_FRESHNESS_MS \<longleftrightarrow>
      unat now < unat (last_signal t0 evs) + 30000"
    by (auto simp: word_less_nat_alt unat_saturating_sub)
  show ?thesis unfolding is_healthy_def all_feeds_healthy_def e all S sig by auto
qed

theorem health_exact_witness:
  "\<not> is_healthy 100 1050000 (run health_step (health_monitor_new 1000000 1000000)
     [FeedUpdate 3 1049000, Signal 1010000, TradeError])"
proof -
  have "last_feed Map.empty [FeedUpdate 3 1049000, Signal 1010000, TradeError] = [3 \<mapsto> 1049000]"
    "last_signal 1000000 [FeedUpdate 3 1049000, Signal 1010000, TradeError] = 1010000" by simp_all
  then show ?thesis
    using health_exact [of 1050000 "[FeedUpdate 3 1049000, Signal 1010000, TradeError]" 100 1000000 1000000]
    by (auto split: if_splits)
qed

end
