(* ===== verification/Timestamp_Sync.thy ===== *)
theory Timestamp_Sync
  imports Atomic_Cell
begin

text \<open>
  Clock synchronisation with an exchange, \<^verbatim>\<open>src/src/timestamp_sync.rs\<close>.  Offsets are \<open>i64\<close> values, words
  read with \<^const>\<open>sint\<close>; local wall-clock readings are arguments.
\<close>

section \<open>State and operations\<close>

abbreviation DEFAULT_MAX_DRIFT_MS :: i64 where "DEFAULT_MAX_DRIFT_MS \<equiv> 5000"
abbreviation DEFAULT_SAMPLES_REQUIRED :: nat where "DEFAULT_SAMPLES_REQUIRED \<equiv> 3"

record timestamp_synchronizer =
  offset_ms :: i64
  sync_exchange :: string
  max_drift_warn_ms :: i64
  max_drift_fatal_ms :: i64
  last_sync :: nat
  sync_interval :: nat
  max_drift_ms :: i64
  sample_buffer :: "i64 list"
  samples_required :: nat
  last_returned_ms :: i64

definition sync_new :: "nat \<Rightarrow> string \<Rightarrow> i64 \<Rightarrow> i64 \<Rightarrow> nat \<Rightarrow> timestamp_synchronizer" where
  "sync_new now name warn fatal interval =
     \<lparr>offset_ms = 0, sync_exchange = name, max_drift_warn_ms = warn, max_drift_fatal_ms = fatal,
      last_sync = now, sync_interval = interval, max_drift_ms = DEFAULT_MAX_DRIFT_MS, sample_buffer = [],
      samples_required = DEFAULT_SAMPLES_REQUIRED, last_returned_ms = word_of_int (- (2 ^ 63))\<rparr>"

definition with_defaults :: "nat \<Rightarrow> string \<Rightarrow> timestamp_synchronizer" where
  "with_defaults now name = sync_new now name 500 DEFAULT_MAX_DRIFT_MS 300000000000"

text \<open>The median of a non-empty buffer; the average of the two middle values truncates.\<close>

definition median :: "i64 list \<Rightarrow> i64" where
  "median buf =
     (let srt = sort_key sint buf; mid = length buf div 2
      in if length buf mod 2 = 0
         then let a = sint (srt ! (mid - 1)); b = sint (srt ! mid)
              in word_of_int (trunc_div a 2 + trunc_div b 2 + trunc_div (trunc_rem a 2 + trunc_rem b 2) 2)
         else srt ! mid)"

definition update_offset :: "i64 \<Rightarrow> nat \<Rightarrow> i64 \<Rightarrow> timestamp_synchronizer \<Rightarrow> timestamp_synchronizer" where
  "update_offset local_ms now server_time_ms s =
     (let buf = sample_buffer s @ [server_time_ms - local_ms]
      in if length buf < samples_required s then s\<lparr>sample_buffer := buf\<rparr>
         else let m = median buf; s1 = s\<lparr>sample_buffer := []\<rparr>
              in if i64_less (max_drift_ms s) (i64_abs (m - offset_ms s)) then s1
                 else if i64_less (max_drift_fatal_ms s) (i64_abs m) then s1
                 else s1\<lparr>offset_ms := m, last_sync := now\<rparr>)"

definition advance :: "i64 \<Rightarrow> i64 \<Rightarrow> i64 option" where
  "advance floored prev = (let result = i64_max floored prev in if result = prev then None else Some result)"

text \<open>The result of the loop is the value it leaves in the cell.\<close>

definition adjusted_timestamp_ms ::
  "i64 schedule \<Rightarrow> i64 \<Rightarrow> timestamp_synchronizer \<Rightarrow> i64 \<times> timestamp_synchronizer" where
  "adjusted_timestamp_ms sched local_ms s =
     (let floored = i64_max (local_ms + offset_ms s) 1;
          r = cas_result (advance floored) sched (last_returned_ms s)
      in (r, s\<lparr>last_returned_ms := r\<rparr>))"

definition is_within_bounds :: "timestamp_synchronizer \<Rightarrow> bool" where
  "is_within_bounds s \<longleftrightarrow> \<not> i64_less (max_drift_fatal_ms s) (i64_abs (offset_ms s))"

definition needs_resync :: "nat \<Rightarrow> timestamp_synchronizer \<Rightarrow> bool" where
  "needs_resync now s \<longleftrightarrow> sync_interval s \<le> now - last_sync s"

definition set_max_drift_ms :: "i64 \<Rightarrow> timestamp_synchronizer \<Rightarrow> timestamp_synchronizer" where
  "set_max_drift_ms d s = s\<lparr>max_drift_ms := d\<rparr>"

section \<open>The median\<close>

lemma length_3_cases:
  assumes "length xs = 3"
  obtains p q r where "xs = [p, q, r]"
  using assms by (auto simp: numeral_3_eq_3 length_Suc_conv)

lemma sorted_middle_bounds:
  fixes a b c :: i64
  assumes "lo \<le> sint x" "sint x \<le> hi" "lo \<le> sint y" "sint y \<le> hi" "mset [x, y, z] = mset [a, b, c]"
  shows "lo \<le> sint (median [a, b, c])" "sint (median [a, b, c]) \<le> hi"
proof -
  let ?srt = "sort_key sint [a, b, c]"
  have l: "length ?srt = 3" by simp
  then obtain p q r where s: "?srt = [p, q, r]" by (rule length_3_cases)
  have "sorted (map sint ?srt)" by (rule sorted_sort_key)
  then have o: "sint p \<le> sint q" "sint q \<le> sint r" unfolding s by simp_all
  have m: "mset [x, y, z] = mset [p, q, r]" using assms(5) by (metis mset_sort s)
  have "median [a, b, c] = q" unfolding median_def Let_def s by simp
  moreover have "\<not> sint q < lo"
  proof
    assume "sint q < lo"
    then have "filter (\<lambda>v. sint v < lo) [p, q, r] = p # q # filter (\<lambda>v. sint v < lo) [r]" using o by auto
    then have "2 \<le> length (filter (\<lambda>v. sint v < lo) [p, q, r])" by simp
    moreover have "length (filter (\<lambda>v. sint v < lo) [x, y, z]) \<le> 1" using assms(1,3) by auto
    moreover have "mset (filter (\<lambda>v. sint v < lo) [x, y, z]) = mset (filter (\<lambda>v. sint v < lo) [p, q, r])"
      using m by (metis mset_filter)
    ultimately show False by (metis (no_types, lifting) mset_eq_length one_less_numeral_iff semiring_norm(76) not_le order_trans)
  qed
  moreover have "\<not> hi < sint q"
  proof
    assume "hi < sint q"
    then have "2 \<le> length (filter (\<lambda>v. hi < sint v) [p, q, r])" using o by auto
    moreover have "length (filter (\<lambda>v. hi < sint v) [x, y, z]) \<le> 1" using assms(2,4) by auto
    moreover have "mset (filter (\<lambda>v. hi < sint v) [x, y, z]) = mset (filter (\<lambda>v. hi < sint v) [p, q, r])"
      using m by (metis mset_filter)
    ultimately show False by (metis (no_types, lifting) mset_eq_length one_less_numeral_iff semiring_norm(76) not_le order_trans)
  qed
  ultimately show "lo \<le> sint (median [a, b, c])" "sint (median [a, b, c]) \<le> hi" by auto
qed

section \<open>Offsets stay in bounds\<close>

definition small_sample :: "i64 \<Rightarrow> bool" where
  "small_sample v \<longleftrightarrow> \<bar>sint v\<bar> < 2 ^ 62"

definition sync_inv :: "timestamp_synchronizer \<Rightarrow> bool" where
  "sync_inv s \<longleftrightarrow> samples_required s = 3 \<and> length (sample_buffer s) < 3 \<and>
     (\<forall>v \<in> set (sample_buffer s). small_sample v) \<and> small_sample (offset_ms s) \<and>
     \<bar>sint (offset_ms s)\<bar> \<le> sint (max_drift_fatal_ms s)"

lemma sint_diff_small:
  assumes "small_sample a" "small_sample b"
  shows "sint (a - b) = sint a - sint b"
proof -
  have r: "- (2 ^ 63) \<le> sint a - sint b" "sint a - sint b < 2 ^ 63"
    using assms by (auto simp: small_sample_def)
  have "a - b = word_of_int (sint a - sint b)" by simp
  then show ?thesis using sint_word_of_int_id [OF r] by (simp only:)
qed

lemma sint_i64_abs:
  assumes "- (2 ^ 63) < sint a"
  shows "sint (i64_abs a) = \<bar>sint a\<bar>"
proof (cases "sint a < 0")
  case True
  have r: "- (2 ^ 63) \<le> - sint a" "- sint a < 2 ^ 63" using assms True by linarith+
  have "- a = word_of_int (- sint a)" by simp
  then have "sint (- a) = - sint a" using sint_word_of_int_id [OF r] by (simp only:)
  with True show ?thesis by (simp add: i64_abs_def)
qed (simp add: i64_abs_def)

lemma median3_mem:
  assumes "length buf = 3"
  shows "median buf \<in> set buf"
proof -
  have "sort_key sint buf ! 1 \<in> set (sort_key sint buf)" by (rule nth_mem) (simp add: assms)
  then show ?thesis by (simp add: median_def Let_def assms)
qed

lemma update_offset_facts:
  assumes inv: "sync_inv s" and v: "small_sample (server - local_ms)"
  shows "sync_inv (update_offset local_ms now server s) \<and>
    (offset_ms (update_offset local_ms now server s) = offset_ms s \<or>
     (\<bar>sint (offset_ms (update_offset local_ms now server s)) - sint (offset_ms s)\<bar> \<le> sint (max_drift_ms s) \<and>
      length (sample_buffer s) = 2 \<and>
      offset_ms (update_offset local_ms now server s) = median (sample_buffer s @ [server - local_ms])))"
proof -
  let ?buf = "sample_buffer s @ [server - local_ms]" and ?s' = "update_offset local_ms now server s"
  let ?m = "median ?buf"
  have i: "samples_required s = 3" "length (sample_buffer s) < 3" "\<forall>v \<in> set ?buf. small_sample v"
    "small_sample (offset_ms s)" "\<bar>sint (offset_ms s)\<bar> \<le> sint (max_drift_fatal_ms s)"
    using inv v by (auto simp: sync_inv_def)
  show ?thesis
  proof (cases "length ?buf < 3")
    case True
    then have "?s' = s\<lparr>sample_buffer := ?buf\<rparr>" by (simp add: update_offset_def Let_def i(1))
    with True i show ?thesis by (simp add: sync_inv_def)
  next
    case False
    then have l: "length ?buf = 3" using i(2) by simp
    have m: "small_sample ?m" using median3_mem [OF l] i(3) by blast
    have e: "?s' = (if i64_less (max_drift_ms s) (i64_abs (?m - offset_ms s)) then s\<lparr>sample_buffer := []\<rparr>
        else if i64_less (max_drift_fatal_ms s) (i64_abs ?m) then s\<lparr>sample_buffer := []\<rparr>
        else s\<lparr>sample_buffer := [], offset_ms := ?m, last_sync := now\<rparr>)"
      using l by (simp add: update_offset_def Let_def i(1))
    have d: "sint (?m - offset_ms s) = sint ?m - sint (offset_ms s)" by (rule sint_diff_small [OF m i(4)])
    have "sint (i64_abs (?m - offset_ms s)) = \<bar>sint ?m - sint (offset_ms s)\<bar>"
      using m i(4) by (subst sint_i64_abs) (auto simp: d small_sample_def)
    moreover have "sint (i64_abs ?m) = \<bar>sint ?m\<bar>" using m by (subst sint_i64_abs) (auto simp: small_sample_def)
    ultimately show ?thesis using i m l unfolding e by (auto simp: sync_inv_def i64_less_def)
  qed
qed

text \<open>The samples of a history of server responses, as offsets.\<close>

datatype sync_op = ServerTime i64 nat i64 | Timestamp nat i64

fun sync_step :: "timestamp_synchronizer \<Rightarrow> sync_op \<Rightarrow> timestamp_synchronizer \<times> int option" where
  "sync_step s (ServerTime local_ms now server) = (update_offset local_ms now server s, None)"
| "sync_step s (Timestamp n local_ms) =
     (snd (adjusted_timestamp_ms (spurious n) local_ms s), Some (sint (fst (adjusted_timestamp_ms (spurious n) local_ms s))))"

definition plausible :: "sync_op \<Rightarrow> bool" where
  "plausible opn = (case opn of ServerTime local_ms now server \<Rightarrow> small_sample (server - local_ms) | _ \<Rightarrow> True)"

lemma sync_run_inv:
  "sync_inv s \<Longrightarrow> list_all plausible ops \<Longrightarrow> sync_inv (run (\<lambda>s opn. fst (sync_step s opn)) s ops)"
proof (induction ops arbitrary: s)
  case (Cons opn ops)
  have "sync_inv (fst (sync_step s opn))"
  proof (cases opn)
    case (ServerTime l nw sv)
    then show ?thesis using update_offset_facts [OF Cons.prems(1), of sv l nw] Cons.prems(2)
      by (simp add: plausible_def)
  next
    case (Timestamp k l)
    then show ?thesis using Cons.prems(1) by (simp add: adjusted_timestamp_ms_def Let_def sync_inv_def)
  qed
  with Cons show ?case by simp
qed simp

text \<open>
  the clock offset stays within bounds and moves in bounded steps.  After every history of
  server responses whose offsets are below \<open>2 ^ 62\<close> in absolute value, the synchronizer's offset is
  within its fatal limit, so it is always within bounds; the next response changes it by at most the jump
  limit, if at all; and when it changes, the new offset lies between any two bounds that enclose
  two of the last three samples: one corrupted response cannot move the clock.
\<close>

theorem offset_bounded:
  assumes "0 \<le> sint fatal" and "list_all plausible ops" and "small_sample (server - local_ms)"
    and "s = run (\<lambda>s opn. fst (sync_step s opn)) (sync_new t0 name warn fatal interval) ops"
    and "s' = update_offset local_ms now server s"
  shows "is_within_bounds s \<and> is_within_bounds s' \<and>
    (offset_ms s' \<noteq> offset_ms s \<longrightarrow>
      \<bar>sint (offset_ms s') - sint (offset_ms s)\<bar> \<le> sint (max_drift_ms s) \<and>
      (\<forall>lo hi x y z. mset [x, y, z] = mset (sample_buffer s @ [server - local_ms]) \<longrightarrow>
         {sint x, sint y} \<subseteq> {lo..hi} \<longrightarrow> sint (offset_ms s') \<in> {lo..hi}))"
proof -
  have "sync_inv (sync_new t0 name warn fatal interval)"
    using assms(1) by (simp add: sync_inv_def sync_new_def small_sample_def)
  then have inv: "sync_inv s" unfolding assms(4) using assms(2) by (rule sync_run_inv)
  note f = update_offset_facts [OF inv assms(3), of now, folded assms(5)]
  have wb: "is_within_bounds x" if "sync_inv x" for x
  proof -
    have b: "\<bar>sint (offset_ms x)\<bar> < 2 ^ 62" "\<bar>sint (offset_ms x)\<bar> \<le> sint (max_drift_fatal_ms x)"
      using that by (auto simp: sync_inv_def small_sample_def)
    then have "sint (i64_abs (offset_ms x)) = \<bar>sint (offset_ms x)\<bar>" by (intro sint_i64_abs) simp
    with b show ?thesis by (simp add: is_within_bounds_def i64_less_def)
  qed
  have "sint (offset_ms s') \<in> {lo..hi}"
    if ne: "offset_ms s' \<noteq> offset_ms s" and p: "mset [x, y, z] = mset (sample_buffer s @ [server - local_ms])"
      and b: "{sint x, sint y} \<subseteq> {lo..hi}" for lo hi x y z
  proof -
    from f ne have two: "length (sample_buffer s) = 2"
      and med: "offset_ms s' = median (sample_buffer s @ [server - local_ms])" by auto
    from two obtain u v where uv: "sample_buffer s = [u, v]"
      by (auto simp: numeral_2_eq_2 length_Suc_conv)
    from sorted_middle_bounds [of lo x hi y z u v "server - local_ms"] p b show ?thesis
      by (simp add: med uv)
  qed
  with f wb [OF inv] wb [of s'] show ?thesis by blast
qed

theorem offset_bounded_witness:
  "let s = run (\<lambda>s opn. fst (sync_step s opn)) (with_defaults 0 ''okx'')
       [ServerTime 1000 0 1100, Timestamp 0 1000, ServerTime 1000 0 900000] in
   is_within_bounds s \<and> is_within_bounds (update_offset 2000 9 2120 s)"
proof -
  have "list_all plausible [ServerTime 1000 0 1100, Timestamp 0 1000, ServerTime 1000 0 900000]"
    "small_sample (2120 - 2000)" by (simp_all add: plausible_def small_sample_def)
  from offset_bounded [OF _ this refl refl, of 5000 0 "''okx''" 500 300000000000 9]
  show ?thesis by (simp add: Let_def with_defaults_def)
qed

section \<open>Monotone timestamps\<close>

lemma adjusted_spurious:
  "sint (fst (adjusted_timestamp_ms (spurious n) local_ms s)) =
     max (max (sint (local_ms + offset_ms s)) 1) (sint (last_returned_ms s))"
  by (auto simp: adjusted_timestamp_ms_def advance_def Let_def i64_max_def max_def split: option.splits)

lemma adjusted_snd:
  "last_returned_ms (snd (adjusted_timestamp_ms sched local_ms s)) = fst (adjusted_timestamp_ms sched local_ms s)"
  by (simp add: adjusted_timestamp_ms_def Let_def)

lemma update_offset_last [simp]: "last_returned_ms (update_offset l n v s) = last_returned_ms s"
  by (simp add: update_offset_def Let_def)

interpretation stamps: monotone_machine "\<lambda>s opn. fst (sync_step s opn)" "\<lambda>s. sint (last_returned_ms s)"
proof
  fix s opn
  show "sint (last_returned_ms s) \<le> sint (last_returned_ms (fst (sync_step s opn)))"
    by (cases opn) (simp_all add: adjusted_snd adjusted_spurious)
qed

text \<open>
  request timestamps never go back.  Over every sequence of synchronisations and readings,
  whatever the local clock does between them, the timestamps returned never decrease and are all
  at least 1, and each is at least the offset-adjusted local time of its reading.
\<close>

theorem timestamps_monotone:
  "sorted_wrt (\<le>) (trace sync_step s ops) \<and> list_all (\<lambda>v. 1 \<le> v) (trace sync_step s ops) \<and>
   sint (local_ms + offset_ms s) \<le> sint (fst (adjusted_timestamp_ms (spurious n) local_ms s))"
proof -
  have low: "sint (last_returned_ms s) \<le> v \<and> 1 \<le> v" if "v \<in> set (trace sync_step s ops)" for v s
    using that
  proof (induction ops arbitrary: s)
    case (Cons opn ops)
    note IH = Cons.IH [of "fst (sync_step s opn)"]
    show ?case
    proof (cases opn)
      case (ServerTime l nw sv)
      with IH Cons.prems show ?thesis by simp
    next
      case (Timestamp k l)
      with IH Cons.prems show ?thesis by (auto simp: adjusted_snd adjusted_spurious)
    qed
  qed simp
  have "sorted_wrt (\<le>) (trace sync_step s ops)" for s
  proof (induction ops arbitrary: s)
    case (Cons opn ops)
    obtain s' r where e: "sync_step s opn = (s', r)" by fastforce
    have "v \<le> w" if "r = Some v" "w \<in> set (trace sync_step s' ops)" for v w
    proof -
      have "v = sint (last_returned_ms s')" using e that(1) by (cases opn) (auto simp: adjusted_snd)
      moreover have "sint (last_returned_ms s') \<le> w"
        using that(2)
      proof (induction ops arbitrary: s')
        case (Cons opn ops)
        then show ?case
          using stamps.val_step [of s' opn] by (cases opn) (fastforce simp: adjusted_snd)+
      qed simp
      ultimately show ?thesis by simp
    qed
    with Cons [of s'] e show ?case by (auto split: option.splits)
  qed simp
  with low show ?thesis by (auto simp: adjusted_spurious list_all_iff)
qed

text \<open>
  The bound on the samples is needed: \<^verbatim>\<open>abs\<close> wraps on the least \<open>i64\<close>, so an offset of \<open>- (2 ^ 63)\<close>
  passes both guards and is stored.
\<close>

lemma least_offset_passes_guards:
  assumes "sample_buffer s = [least, least]" "samples_required s = 3" "offset_ms s = 0" "least = word_of_int (- (2 ^ 63))"
    "0 \<le> sint (max_drift_ms s)" "0 \<le> sint (max_drift_fatal_ms s)"
  shows "offset_ms (update_offset 0 now least s) = least"
proof -
  have m: "median [least, least, least] = least" by (simp add: median_def Let_def)
  have l: "sint least = - (2 ^ 63)" unfolding assms(4) by (rule sint_word_of_int_id) simp_all
  have "- least = least" unfolding assms(4) by simp
  then have "i64_abs least = least" by (simp only: i64_abs_def if_cancel)
  then have "sint (i64_abs least) = - (2 ^ 63)" using l by (simp only:)
  with assms m show ?thesis by (simp add: update_offset_def Let_def i64_less_def)
qed

end
