(* ===== verification/Payload_Arena.thy ===== *)
theory Payload_Arena
  imports Rust_Prelude
begin

text \<open>
  The payload buffers of \<^verbatim>\<open>src/src/payload_arena.rs\<close>: fixed buffers of 1024 bytes in which query strings
  are built, and the round-robin pool of them.  Text is a list of characters, one per byte.
\<close>

section \<open>Buffers\<close>

abbreviation PAYLOAD_BUFFER_SIZE :: nat where "PAYLOAD_BUFFER_SIZE \<equiv> 1024"

record payload_buffer =
  buf_data :: string
  buf_len :: nat

definition payload_new :: payload_buffer where
  "payload_new = \<lparr>buf_data = replicate PAYLOAD_BUFFER_SIZE (CHR 0x00), buf_len = 0\<rparr>"

definition buf_clear :: "payload_buffer \<Rightarrow> payload_buffer" where
  "buf_clear b = b\<lparr>buf_len := 0\<rparr>"

definition buf_append :: "string \<Rightarrow> payload_buffer \<Rightarrow> bool \<times> payload_buffer" where
  "buf_append bytes b =
     (let current_len = buf_len b; new_len = current_len + length bytes
      in if PAYLOAD_BUFFER_SIZE < new_len then (False, b)
         else (True, b\<lparr>buf_data := take current_len (buf_data b) @ bytes @ drop new_len (buf_data b),
                       buf_len := new_len\<rparr>))"

text \<open>\<^verbatim>\<open>a && b\<close>: the second append runs only when the first succeeds.\<close>

definition and_then ::
  "(payload_buffer \<Rightarrow> bool \<times> payload_buffer) \<Rightarrow> (payload_buffer \<Rightarrow> bool \<times> payload_buffer) \<Rightarrow>
   payload_buffer \<Rightarrow> bool \<times> payload_buffer" where
  "and_then f g b = (case f b of (ok, b') \<Rightarrow> if ok then g b' else (False, b'))"

definition append_param :: "string \<Rightarrow> string \<Rightarrow> payload_buffer \<Rightarrow> bool \<times> payload_buffer" where
  "append_param key val b =
     and_then (\<lambda>b. if buf_len b \<noteq> 0 then buf_append ''&'' b else (True, b))
       (and_then (buf_append key) (and_then (buf_append ''='') (buf_append val))) b"

definition buf_bytes :: "payload_buffer \<Rightarrow> string" where
  "buf_bytes b = take (buf_len b) (buf_data b)"

section \<open>The pool\<close>

record payload_arena =
  pool :: "payload_buffer list"
  next_index :: nat
  total_allocated :: nat
  max_capacity :: nat

definition arena_create :: "nat \<Rightarrow> payload_arena option" where
  "arena_create cnt =
     (if 0 < cnt
      then Some \<lparr>pool = replicate cnt payload_new, next_index = 0, total_allocated = 0,
                 max_capacity = (cnt * PAYLOAD_BUFFER_SIZE) mod 2 ^ 64\<rparr>
      else None)"

text \<open>The buffer handed out, by its position; \<open>None\<close> is the remainder by zero of an empty pool.\<close>

definition acquire :: "payload_arena \<Rightarrow> (nat \<times> payload_arena) option" where
  "acquire a =
     (let idx = next_index a; n = length (pool a)
      in if n = 0 then None
         else Some (idx mod n,
                    a\<lparr>next_index := (idx + 1) mod 2 ^ 64,
                      pool := (pool a)[idx mod n := buf_clear (pool a ! (idx mod n))]\<rparr>))"

definition clear_all :: "payload_arena \<Rightarrow> payload_arena" where
  "clear_all a = a\<lparr>pool := map buf_clear (pool a), total_allocated := 0\<rparr>"

section \<open>Appending\<close>

definition buf_ok :: "payload_buffer \<Rightarrow> bool" where
  "buf_ok b \<longleftrightarrow> length (buf_data b) = PAYLOAD_BUFFER_SIZE \<and> buf_len b \<le> PAYLOAD_BUFFER_SIZE"

lemma buf_bytes_length: "buf_ok b \<Longrightarrow> length (buf_bytes b) = buf_len b"
  by (simp add: buf_bytes_def buf_ok_def)

lemma buf_append_fits:
  assumes "buf_ok b" "length (buf_bytes b) + length s \<le> PAYLOAD_BUFFER_SIZE"
  shows "\<exists>b'. buf_append s b = (True, b') \<and> buf_ok b' \<and> buf_bytes b' = buf_bytes b @ s"
  using assms by (auto simp: buf_append_def buf_ok_def buf_bytes_def Let_def)

lemma buf_append_full:
  "buf_ok b \<Longrightarrow> PAYLOAD_BUFFER_SIZE < length (buf_bytes b) + length s \<Longrightarrow> buf_append s b = (False, b)"
  by (simp add: buf_append_def Let_def buf_bytes_length)

text \<open>
  An append of pieces, one after the other, stops at the first that does not fit and keeps those before it.
\<close>

fun append_all :: "string list \<Rightarrow> payload_buffer \<Rightarrow> bool \<times> payload_buffer" where
  "append_all [] b = (True, b)"
| "append_all (s # ss) b = and_then (buf_append s) (append_all ss) b"

fun fitting :: "nat \<Rightarrow> string list \<Rightarrow> string list" where
  "fitting room [] = []"
| "fitting room (s # ss) = (if length s \<le> room then s # fitting (room - length s) ss else [])"

lemma append_all_result:
  assumes "buf_ok b"
  shows "\<exists>b'. append_all ss b = (length (concat ss) \<le> PAYLOAD_BUFFER_SIZE - buf_len b, b') \<and> buf_ok b' \<and>
    buf_bytes b' = buf_bytes b @ concat (fitting (PAYLOAD_BUFFER_SIZE - buf_len b) ss)"
  using assms
proof (induction ss arbitrary: b)
  case (Cons s ss)
  show ?case
  proof (cases "length s \<le> PAYLOAD_BUFFER_SIZE - buf_len b")
    case True
    then have fits: "length (buf_bytes b) + length s \<le> PAYLOAD_BUFFER_SIZE"
      using Cons.prems by (auto simp: buf_bytes_length buf_ok_def)
    from buf_append_fits [OF Cons.prems fits] obtain b1 where
      b1: "buf_append s b = (True, b1)" "buf_ok b1" "buf_bytes b1 = buf_bytes b @ s" by blast
    have l: "buf_len b1 = buf_len b + length s"
      using b1 buf_bytes_length [OF b1(2)] buf_bytes_length [OF Cons.prems] by simp
    have r: "PAYLOAD_BUFFER_SIZE - buf_len b1 = PAYLOAD_BUFFER_SIZE - buf_len b - length s" by (simp add: l)
    from Cons.IH [OF b1(2)] obtain b2 where
      b2: "append_all ss b1 = (length (concat ss) \<le> PAYLOAD_BUFFER_SIZE - buf_len b1, b2)" "buf_ok b2"
        "buf_bytes b2 = buf_bytes b1 @ concat (fitting (PAYLOAD_BUFFER_SIZE - buf_len b1) ss)" by blast
    have "(length (concat ss) \<le> PAYLOAD_BUFFER_SIZE - buf_len b1) =
        (length (concat (s # ss)) \<le> PAYLOAD_BUFFER_SIZE - buf_len b)" using True by (auto simp: l)
    with b1 b2 True r show ?thesis by (simp add: and_then_def)
  next
    case False
    then have "buf_append s b = (False, b)"
      using Cons.prems by (intro buf_append_full) (auto simp: buf_bytes_length)
    with False Cons.prems show ?thesis by (simp add: and_then_def)
  qed
qed simp

definition param_pieces :: "string \<Rightarrow> string \<Rightarrow> bool \<Rightarrow> string list" where
  "param_pieces key val first = (if first then [] else [''&'']) @ [key, ''='', val]"

lemma append_param_all: "append_param key val b = append_all (param_pieces key val (buf_len b = 0)) b"
proof -
  have [simp]: "and_then f (\<lambda>b. (True, b)) = f" for f by (rule ext) (auto simp: and_then_def split: prod.splits)
  have [simp]: "append_all [s] = buf_append s" for s by (rule ext) (simp add: and_then_def split: prod.splits)
  have [simp]: "append_all (s # t # ss) = and_then (buf_append s) (append_all (t # ss))" for s t ss by (rule ext) simp
  show ?thesis
    by (simp add: append_param_def param_pieces_def and_then_def del: append_all.simps(2))
qed

section \<open>Query strings\<close>

fun append_params :: "(string \<times> string) list \<Rightarrow> payload_buffer \<Rightarrow> bool \<times> payload_buffer" where
  "append_params [] b = (True, b)"
| "append_params ((k, v) # ps) b = and_then (append_param k v) (append_params ps) b"

fun query :: "(string \<times> string) list \<Rightarrow> string" where
  "query [] = []"
| "query [(k, v)] = k @ ''='' @ v"
| "query ((k, v) # p # ps) = k @ ''='' @ v @ ''&'' @ query (p # ps)"

lemma fitting_all: "length (concat ss) \<le> room \<Longrightarrow> fitting room ss = ss"
  by (induction ss arbitrary: room) auto

lemma append_params_result:
  assumes "buf_ok b" "ps \<noteq> []" "length (buf_bytes b) + (if buf_len b = 0 then 0 else 1) + length (query ps) \<le> PAYLOAD_BUFFER_SIZE"
  shows "\<exists>b'. append_params ps b = (True, b') \<and> buf_ok b' \<and>
    buf_bytes b' = buf_bytes b @ (if buf_len b = 0 then [] else ''&'') @ query ps"
  using assms
proof (induction ps arbitrary: b rule: query.induct)
  case (2 k v)
  let ?ss = "param_pieces k v (buf_len b = 0)"
  have "length (concat ?ss) \<le> PAYLOAD_BUFFER_SIZE - buf_len b"
    using 2 buf_bytes_length [OF 2(1)] by (auto simp: param_pieces_def)
  with append_all_result [OF 2(1), of ?ss] fitting_all [OF this] show ?case
    by (auto simp: append_param_all and_then_def param_pieces_def)
next
  case (3 k v p ps)
  let ?ss = "param_pieces k v (buf_len b = 0)"
  have l: "length (concat ?ss) \<le> PAYLOAD_BUFFER_SIZE - buf_len b"
    using 3(4) buf_bytes_length [OF 3(2)] by (auto simp: param_pieces_def)
  with append_all_result [OF 3(2), of ?ss] fitting_all [OF l] obtain b1 where
    b1: "append_param k v b = (True, b1)" "buf_ok b1" "buf_bytes b1 = buf_bytes b @ concat ?ss"
    by (auto simp: append_param_all)
  have n: "buf_len b1 \<noteq> 0" "length (buf_bytes b1) + 1 + length (query (p # ps)) \<le> PAYLOAD_BUFFER_SIZE"
    using b1(3) 3(4) buf_bytes_length [OF b1(2)] buf_bytes_length [OF 3(2)]
    by (auto simp: param_pieces_def split: if_splits)
  from 3(1) [OF b1(2)] n obtain b2 where
    b2: "append_params (p # ps) b1 = (True, b2)" "buf_ok b2" "buf_bytes b2 = buf_bytes b1 @ ''&'' @ query (p # ps)"
    by auto
  then show ?case using b1 by (auto simp: and_then_def param_pieces_def)
qed simp

text \<open>
  a query string built in a cleared buffer is the parameters joined by ampersands, whenever it fits in 1024 bytes.
  An append that does not fit is refused and never writes outside the buffer, and a parameter that
  does not fit as a whole is refused with the pieces of it that fitted left in the buffer.
\<close>

theorem query_string_exact:
  assumes "buf_ok b"
  shows "(ps \<noteq> [] \<longrightarrow> length (query ps) \<le> PAYLOAD_BUFFER_SIZE \<longrightarrow>
      (\<exists>b'. append_params ps (buf_clear b) = (True, b') \<and> buf_ok b' \<and> buf_bytes b' = query ps)) \<and>
    (\<exists>b'. append_param k v b =
        (length (concat (param_pieces k v (buf_len b = 0))) \<le> PAYLOAD_BUFFER_SIZE - buf_len b, b') \<and> buf_ok b' \<and>
      buf_bytes b' = buf_bytes b @ concat (fitting (PAYLOAD_BUFFER_SIZE - buf_len b) (param_pieces k v (buf_len b = 0))))"
proof -
  have c: "buf_ok (buf_clear b)" "buf_len (buf_clear b) = 0" "buf_bytes (buf_clear b) = []"
    using assms by (simp_all add: buf_ok_def buf_clear_def buf_bytes_def)
  show ?thesis
    using append_params_result [OF c(1), of ps] append_all_result [OF assms, of "param_pieces k v (buf_len b = 0)"]
    by (simp add: c append_param_all)
qed

theorem query_string_exact_witness:
  "\<exists>b'. append_params [(''symbol'', ''BTCUSDT''), (''side'', ''BUY'')] (buf_clear payload_new) = (True, b') \<and>
     buf_bytes b' = ''symbol=BTCUSDT&side=BUY''"
proof -
  have "buf_ok payload_new" by (simp add: buf_ok_def payload_new_def)
  from query_string_exact [OF this, of "[(''symbol'', ''BTCUSDT''), (''side'', ''BUY'')]" "[]" "[]"]
  show ?thesis by auto
qed

section \<open>Round robin\<close>

fun acquires :: "nat \<Rightarrow> payload_arena \<Rightarrow> (nat list \<times> payload_arena) option" where
  "acquires 0 a = Some ([], a)"
| "acquires (Suc k) a =
     (case acquire a of
        None \<Rightarrow> None
      | Some (i, a') \<Rightarrow> map_option (\<lambda>(is, a''). (i # is, a'')) (acquires k a'))"

text \<open>
  the pool hands out its buffers in turn, each of them cleared, and never panics: of \<open>k\<close> acquisitions from a
  new pool of \<open>n\<close> buffers, the \<open>i\<close>-th gets buffer \<open>i mod n\<close>, so a buffer is handed out again exactly after
  all the others; and acquiring never counts towards the bytes allocated, whose total stays 0.
\<close>

theorem pool_round_robin:
  assumes "0 < n" and "k < 2 ^ 64"
  shows "\<exists>a a'. arena_create n = Some a \<and> acquires k a = Some (map (\<lambda>i. i mod n) [0..<k], a') \<and>
    length (pool a') = n \<and> total_allocated a' = 0"
proof -
  obtain a where a: "arena_create n = Some a" "length (pool a) = n" "next_index a = 0" "total_allocated a = 0"
    using assms(1) by (simp add: arena_create_def)
  have "\<exists>a'. acquires j a = Some (map (\<lambda>i. i mod n) [next_index a..<next_index a + j], a') \<and>
      length (pool a') = n \<and> total_allocated a' = total_allocated a"
    if "length (pool a) = n" "next_index a + j < 2 ^ 64" for j a
    using that
  proof (induction j arbitrary: a)
    case (Suc j)
    obtain i a1 where q: "acquire a = Some (i, a1)" "i = next_index a mod n" "next_index a1 = next_index a + 1"
      "length (pool a1) = n" "total_allocated a1 = total_allocated a"
      using Suc.prems assms(1) by (simp add: acquire_def Let_def)
    from Suc.IH [OF q(4)] q(3) Suc.prems obtain a2 where
      "acquires j a1 = Some (map (\<lambda>i. i mod n) [next_index a + 1..<next_index a + 1 + j], a2)"
      "length (pool a2) = n" "total_allocated a2 = total_allocated a1" by auto
    moreover have "[next_index a..<next_index a + Suc j] = next_index a # [next_index a + 1..<next_index a + 1 + j]"
      by (simp add: upt_conv_Cons del: upt_Suc)
    ultimately show ?case using q by (simp del: upt_Suc)
  qed simp
  from this [OF a(2)] a assms(2) show ?thesis by fastforce
qed

theorem pool_round_robin_witness:
  "\<exists>a a'. arena_create 2 = Some a \<and> acquires 3 a = Some ([0, 1, 0], a')"
proof -
  have "map (\<lambda>i. i mod 2) [0..<3] = [0, 1, 0 :: nat]" by (simp add: upt_conv_Cons)
  with pool_round_robin [of 2 3] show ?thesis by auto
qed

end
