(* ===== verification/Tri_Path_Finder.thy ===== *)
theory Tri_Path_Finder
  imports Decimal_Api
begin

text \<open>
  The Bellman-Ford search for profitable triangles of \<^verbatim>\<open>src/src/tri_path_finder.rs\<close>.  Floating-point
  numbers are finite values of an arbitrary type and the three special values of IEEE 754; the
  rounding of finite sums and the logarithms of the edges are arguments.
\<close>

section \<open>Floating-point values\<close>

datatype 'x f64 = Finite 'x | PosInf | NegInf | NotANumber

record 'x finite_ops =
  fin_add :: "'x \<Rightarrow> 'x \<Rightarrow> 'x f64"
  fin_lt :: "'x \<Rightarrow> 'x \<Rightarrow> bool"

fun f64_add :: "'x finite_ops \<Rightarrow> 'x f64 \<Rightarrow> 'x f64 \<Rightarrow> 'x f64" where
  "f64_add F (Finite x) (Finite y) = fin_add F x y"
| "f64_add F NotANumber y = NotANumber"
| "f64_add F x NotANumber = NotANumber"
| "f64_add F PosInf NegInf = NotANumber"
| "f64_add F NegInf PosInf = NotANumber"
| "f64_add F PosInf y = PosInf"
| "f64_add F x PosInf = PosInf"
| "f64_add F NegInf y = NegInf"
| "f64_add F x NegInf = NegInf"

fun f64_lt :: "'x finite_ops \<Rightarrow> 'x f64 \<Rightarrow> 'x f64 \<Rightarrow> bool" where
  "f64_lt F (Finite x) (Finite y) = fin_lt F x y"
| "f64_lt F NegInf (Finite y) = True"
| "f64_lt F NegInf PosInf = True"
| "f64_lt F (Finite x) PosInf = True"
| "f64_lt F x y = False"

section \<open>The graph\<close>

record ('d, 'x) graph_edge =
  edge_to :: usize
  log_rate :: "'x f64"
  log_fee_factor :: "'x f64"
  pair_symbol :: string
  decimal_rate :: 'd
  decimal_fee_factor :: 'd

record 'd triangular_path =
  currencies :: "string list"
  pairs :: "string list"
  net_profit_factor :: 'd
  net_profit_pct :: 'd

abbreviation DEFAULT_BELLMAN_ITERATIONS :: usize where "DEFAULT_BELLMAN_ITERATIONS \<equiv> 3"

record ('d, 'x) tri_path_finder =
  currency_to_idx :: "string \<rightharpoonup> usize"
  idx_to_currency :: "string list"
  edges :: "('d, 'x) graph_edge list list"
  min_profit_factor :: 'd
  max_iterations :: usize

text \<open>The three logarithms of an edge: of the fee factor, of selling and of buying.\<close>

record ('d, 'x) edge_logs =
  log_fee :: "'d \<Rightarrow> 'x f64"
  log_rate_sell :: "'d \<Rightarrow> 'd \<Rightarrow> 'x f64"
  log_rate_buy :: "'d \<Rightarrow> 'd \<Rightarrow> 'x f64"

definition with_max_iterations ::
  "'d decimal_arith \<Rightarrow> string list \<Rightarrow> 'd \<Rightarrow> usize \<Rightarrow> ('d, 'x) tri_path_finder" where
  "with_max_iterations D cs min_profit_pct iters =
     \<lparr>currency_to_idx = map_of (rev (zip cs [0..<length cs])), idx_to_currency = cs,
      edges = replicate (length cs) [],
      min_profit_factor = dec_add D (dec_from_int D 1) (dec_div D min_profit_pct (dec_from_int D 100)),
      max_iterations = iters\<rparr>"

definition finder_new :: "'d decimal_arith \<Rightarrow> string list \<Rightarrow> 'd \<Rightarrow> ('d, 'x) tri_path_finder" where
  "finder_new D cs min_profit_pct = with_max_iterations D cs min_profit_pct DEFAULT_BELLMAN_ITERATIONS"

definition push_edge ::
  "usize \<Rightarrow> ('d, 'x) graph_edge \<Rightarrow> ('d, 'x) graph_edge list list \<Rightarrow> ('d, 'x) graph_edge list list option" where
  "push_edge i e es = (case get_at es i of None \<Rightarrow> None | Some l \<Rightarrow> put_at i (l @ [e]) es)"

text \<open>\<open>None\<close> is an index out of bounds.\<close>

definition add_pair ::
  "'d decimal_arith \<Rightarrow> ('d, 'x) edge_logs \<Rightarrow> string \<Rightarrow> string \<Rightarrow> string \<Rightarrow> 'd \<Rightarrow> 'd \<Rightarrow>
   ('d, 'x) tri_path_finder \<Rightarrow> ('d, 'x) tri_path_finder option" where
  "add_pair D L psym base_currency quote_currency price fee f =
     (case currency_to_idx f base_currency of
        None \<Rightarrow> Some f
      | Some base_idx \<Rightarrow> (case currency_to_idx f quote_currency of
          None \<Rightarrow> Some f
        | Some quote_idx \<Rightarrow>
            let fee_factor = dec_sub D (dec_from_int D 1) fee;
                sell = \<lparr>edge_to = quote_idx, log_rate = log_rate_sell L price fee, log_fee_factor = log_fee L fee,
                        pair_symbol = psym, decimal_rate = price, decimal_fee_factor = fee_factor\<rparr>;
                inv_price = (if dec_lt D (dec_zero D) price then dec_div D (dec_from_int D 1) price else dec_zero D);
                buy = \<lparr>edge_to = base_idx, log_rate = log_rate_buy L price fee, log_fee_factor = log_fee L fee,
                       pair_symbol = psym, decimal_rate = inv_price, decimal_fee_factor = fee_factor\<rparr>
            in (case push_edge base_idx sell (edges f) of
                  None \<Rightarrow> None
                | Some es \<Rightarrow> (case push_edge quote_idx buy es of
                    None \<Rightarrow> None
                  | Some es' \<Rightarrow> Some (f\<lparr>edges := es'\<rparr>)))))"

section \<open>The search\<close>

text \<open>Distances, predecessors (\<open>-1\<close> at first) and whether a distance was lowered.\<close>

type_synonym 'x relaxation = "'x f64 list \<times> int list \<times> bool"

definition relax_edge ::
  "'x finite_ops \<Rightarrow> usize \<Rightarrow> 'x relaxation \<Rightarrow> ('d, 'x) graph_edge \<Rightarrow> 'x relaxation option" where
  "relax_edge F u = (\<lambda>(best_profit, predecessor, updated) edge.
     case get_at best_profit u of
       None \<Rightarrow> None
     | Some du \<Rightarrow>
         (case get_at best_profit (edge_to edge) of
            None \<Rightarrow> None
          | Some dv \<Rightarrow>
              let new_dist = f64_add F du (log_rate edge)
              in if f64_lt F new_dist dv then
                   (case put_at (edge_to edge) new_dist best_profit of
                      None \<Rightarrow> None
                    | Some bp \<Rightarrow> (case put_at (edge_to edge) (int u) predecessor of
                        None \<Rightarrow> None
                      | Some pr \<Rightarrow> Some (bp, pr, True)))
                 else Some (best_profit, predecessor, updated)))"

definition relax_node ::
  "'x finite_ops \<Rightarrow> ('d, 'x) tri_path_finder \<Rightarrow> 'x relaxation \<Rightarrow> usize \<Rightarrow> 'x relaxation option" where
  "relax_node F f st u =
     (case get_at (edges f) u of None \<Rightarrow> None | Some es \<Rightarrow> try_fold (relax_edge F u) st es)"

text \<open>\<open>Some None\<close> is the code's \<^verbatim>\<open>None\<close>: no triangle is found from \<open>start\<close>.\<close>

fun follow :: "usize \<Rightarrow> int list \<Rightarrow> nat \<Rightarrow> usize list \<Rightarrow> usize \<Rightarrow> usize list option option" where
  "follow n predecessor 0 path current = Some (Some path)"
| "follow n predecessor (Suc k) path current =
     (case get_at predecessor current of
        None \<Rightarrow> None
      | Some p \<Rightarrow>
          let pred = nat (p mod 2 ^ 64)
          in if pred = current \<or> n \<le> pred then Some None
             else follow n predecessor k (path @ [pred]) pred)"

definition extract_triangular_path ::
  "('d, 'x) tri_path_finder \<Rightarrow> usize \<Rightarrow> int list \<Rightarrow> usize list option option" where
  "extract_triangular_path f start predecessor =
     (case follow (length (idx_to_currency f)) predecessor 3 [start] start of
        None \<Rightarrow> None
      | Some None \<Rightarrow> Some None
      | Some (Some path) \<Rightarrow>
          let a = path ! 0; b = path ! 1; c = path ! 2
          in if path ! 3 = a \<and> length path = 4 \<and> a \<noteq> b \<and> b \<noteq> c \<and> a \<noteq> c then Some (Some [a, b, c])
             else Some None)"

text \<open>\<^verbatim>\<open>max_by\<close> keeps the last of several greatest elements.\<close>

fun max_by :: "('a \<Rightarrow> 'a \<Rightarrow> bool) \<Rightarrow> 'a list \<Rightarrow> 'a option" where
  "max_by lt [] = None"
| "max_by lt (x # xs) = Some (foldl (\<lambda>best y. if lt y best then best else y) x xs)"

definition best_edge ::
  "'d decimal_arith \<Rightarrow> ('d, 'x) tri_path_finder \<Rightarrow> usize \<Rightarrow> usize \<Rightarrow> ('d, 'x) graph_edge option option" where
  "best_edge D f u v =
     (case get_at (edges f) u of
        None \<Rightarrow> None
      | Some es \<Rightarrow> Some (max_by (\<lambda>a b. dec_lt D (decimal_rate a) (decimal_rate b)) (filter (\<lambda>e. edge_to e = v) es)))"

fun path_legs ::
  "'d decimal_arith \<Rightarrow> ('d, 'x) tri_path_finder \<Rightarrow> (usize \<times> usize) list \<Rightarrow> string list \<Rightarrow> 'd \<Rightarrow>
   (string list \<times> 'd) option option" where
  "path_legs D f [] ps profit_factor = Some (Some (ps, profit_factor))"
| "path_legs D f ((u, v) # legs) ps profit_factor =
     (case best_edge D f u v of
        None \<Rightarrow> None
      | Some None \<Rightarrow> Some None
      | Some (Some e) \<Rightarrow>
          path_legs D f legs (ps @ [pair_symbol e])
            (dec_mul D profit_factor (dec_mul D (decimal_rate e) (decimal_fee_factor e))))"

definition compute_path_profit ::
  "'d decimal_arith \<Rightarrow> ('d, 'x) tri_path_finder \<Rightarrow> usize list \<Rightarrow> 'd triangular_path option option" where
  "compute_path_profit D f path =
     (case path of
        [a, b, c] \<Rightarrow>
          (case path_legs D f [(a, b), (b, c), (c, a)] [] (dec_from_int D 1) of
             None \<Rightarrow> None
           | Some None \<Rightarrow> Some None
           | Some (Some (ps, factor)) \<Rightarrow>
               if \<forall>i\<in>set path. i < length (idx_to_currency f)
               then Some (Some \<lparr>currencies = map ((!) (idx_to_currency f)) path, pairs = ps, net_profit_factor = factor,
                                net_profit_pct = dec_mul D (dec_sub D factor (dec_from_int D 1)) (dec_from_int D 100)\<rparr>)
               else None)
      | _ \<Rightarrow> Some None)"

definition profitable_from ::
  "'d decimal_arith \<Rightarrow> ('d, 'x) tri_path_finder \<Rightarrow> int list \<Rightarrow> usize \<Rightarrow> 'd triangular_path list option" where
  "profitable_from D f predecessor start =
     (case extract_triangular_path f start predecessor of
        None \<Rightarrow> None
      | Some None \<Rightarrow> Some []
      | Some (Some path) \<Rightarrow>
          (case compute_path_profit D f path of
             None \<Rightarrow> None
           | Some None \<Rightarrow> Some []
           | Some (Some p) \<Rightarrow>
               Some (if dec_lt D (net_profit_factor p) (min_profit_factor f) then [] else [p])))"

fun search_rounds ::
  "'d decimal_arith \<Rightarrow> 'x finite_ops \<Rightarrow> ('d, 'x) tri_path_finder \<Rightarrow> usize list \<Rightarrow>
   'x f64 list \<Rightarrow> int list \<Rightarrow> 'd triangular_path list \<Rightarrow> 'd triangular_path list option" where
  "search_rounds D F f [] best_profit predecessor found = Some found"
| "search_rounds D F f (iteration # its) best_profit predecessor found =
     (let n = length (idx_to_currency f)
      in case try_fold (relax_node F f) (best_profit, predecessor, False) [0..<n] of
           None \<Rightarrow> None
         | Some (bp, pr, updated) \<Rightarrow>
             if iteration = max_iterations f - 1 \<and> updated then
               (case collect (profitable_from D f pr) [0..<n] of
                  None \<Rightarrow> None
                | Some ps \<Rightarrow> search_rounds D F f its bp pr (found @ ps))
             else search_rounds D F f its bp pr found)"

text \<open>The stable sort by descending profit and the removal of adjacent duplicates.\<close>

fun insert_desc :: "'d decimal_arith \<Rightarrow> 'd triangular_path \<Rightarrow> 'd triangular_path list \<Rightarrow> 'd triangular_path list" where
  "insert_desc D p [] = [p]"
| "insert_desc D p (q # qs) =
     (if dec_lt D (net_profit_factor p) (net_profit_factor q) then q # insert_desc D p qs else p # q # qs)"

fun dedup_pairs :: "'d triangular_path list \<Rightarrow> 'd triangular_path list" where
  "dedup_pairs (p # q # ps) = (if pairs p = pairs q then dedup_pairs (p # ps) else p # dedup_pairs (q # ps))"
| "dedup_pairs ps = ps"

definition find_profitable_paths ::
  "'d decimal_arith \<Rightarrow> 'x finite_ops \<Rightarrow> ('d, 'x) tri_path_finder \<Rightarrow> 'd triangular_path list option" where
  "find_profitable_paths D F f =
     (let n = length (idx_to_currency f)
      in if n < 3 then Some []
         else case search_rounds D F f [0..<max_iterations f] (replicate n PosInf) (replicate n (- 1)) [] of
                None \<Rightarrow> None
              | Some found \<Rightarrow> Some (dedup_pairs (foldr (insert_desc D) found [])))"


section \<open>Well-formed graphs\<close>

definition finder_wf :: "('d, 'x) tri_path_finder \<Rightarrow> bool" where
  "finder_wf f \<longleftrightarrow>
     (let n = length (idx_to_currency f)
      in length (edges f) = n \<and> (\<forall>es\<in>set (edges f). \<forall>e\<in>set es. edge_to e < n) \<and>
         (\<forall>c i. currency_to_idx f c = Some i \<longrightarrow> i < n))"

lemma with_max_iterations_wf: "finder_wf (with_max_iterations D cs pct iters)"
  by (auto simp: finder_wf_def with_max_iterations_def Let_def set_zip dest!: map_of_SomeD)

lemma push_edge_ok:
  assumes "i < length es" and "\<forall>l\<in>set es. \<forall>e\<in>set l. edge_to e < n" and "edge_to e < n"
  shows "\<exists>es'. push_edge i e es = Some es' \<and> length es' = length es \<and> (\<forall>l\<in>set es'. \<forall>e\<in>set l. edge_to e < n)"
proof -
  have "\<forall>x\<in>set (es ! i). edge_to x < n" using assms(1,2) nth_mem by blast
  with assms show ?thesis
    by (auto simp: push_edge_def get_at_def put_at_def dest!: set_update_subset_insert [THEN subsetD])
qed

lemma add_pair_wf:
  assumes wf: "finder_wf f"
  shows "\<exists>f'. add_pair D L s b q price fee f = Some f' \<and> finder_wf f'"
proof (cases "currency_to_idx f b = None \<or> currency_to_idx f q = None")
  case True
  with wf show ?thesis by (auto simp: add_pair_def split: option.splits)
next
  case False
  let ?n = "length (idx_to_currency f)"
  from False obtain i j where ij: "currency_to_idx f b = Some i" "currency_to_idx f q = Some j" by auto
  have n: "i < ?n" "j < ?n" "length (edges f) = ?n" "\<forall>l\<in>set (edges f). \<forall>e\<in>set l. edge_to e < ?n"
    using wf ij by (auto simp: finder_wf_def Let_def)
  let ?sell = "\<lparr>edge_to = j, log_rate = log_rate_sell L price fee, log_fee_factor = log_fee L fee,
    pair_symbol = s, decimal_rate = price, decimal_fee_factor = dec_sub D (dec_from_int D 1) fee\<rparr>"
  let ?buy = "\<lparr>edge_to = i, log_rate = log_rate_buy L price fee, log_fee_factor = log_fee L fee, pair_symbol = s,
    decimal_rate = if dec_lt D (dec_zero D) price then dec_div D (dec_from_int D 1) price else dec_zero D,
    decimal_fee_factor = dec_sub D (dec_from_int D 1) fee\<rparr>"
  from push_edge_ok [of i "edges f" ?n ?sell] n obtain es where
    es: "push_edge i ?sell (edges f) = Some es" "length es = ?n" "\<forall>l\<in>set es. \<forall>e\<in>set l. edge_to e < ?n" by auto
  from push_edge_ok [of j es ?n ?buy] n es obtain es' where
    es': "push_edge j ?buy es = Some es'" "length es' = ?n" "\<forall>l\<in>set es'. \<forall>e\<in>set l. edge_to e < ?n" by auto
  show ?thesis using ij es es' wf by (auto simp: add_pair_def Let_def finder_wf_def)
qed

text \<open>A finder built from a list of pairs.\<close>

fun build_finder ::
  "'d decimal_arith \<Rightarrow> ('d, 'x) edge_logs \<Rightarrow> (string \<times> string \<times> string \<times> 'd \<times> 'd) list \<Rightarrow>
   ('d, 'x) tri_path_finder \<Rightarrow> ('d, 'x) tri_path_finder option" where
  "build_finder D L ps f = try_fold (\<lambda>f (s, b, q, price, fee). add_pair D L s b q price fee f) f ps"

lemma build_finder_wf:
  assumes "finder_wf f" shows "\<exists>f'. build_finder D L ps f = Some f' \<and> finder_wf f'"
  using assms
proof (induction ps arbitrary: f)
  case (Cons p ps)
  obtain s b q price fee where p: "p = (s, b, q, price, fee)" by (metis prod_cases5)
  from add_pair_wf [OF Cons.prems, of D L s b q price fee] obtain f1 where
    "add_pair D L s b q price fee f = Some f1" "finder_wf f1" by blast
  with Cons.IH [of f1] show ?case by (simp add: p)
qed simp

section \<open>The search never starts\<close>

lemma no_improvement: "\<not> f64_lt F (f64_add F PosInf x) PosInf"
  by (cases x) simp_all

lemma relax_edge_idle:
  "u < n \<Longrightarrow> edge_to e < n \<Longrightarrow> relax_edge F u (replicate n PosInf, pr, upd) e = Some (replicate n PosInf, pr, upd)"
  by (simp add: relax_edge_def get_at_def no_improvement Let_def)

lemma try_fold_idle: "(\<And>x. x \<in> set xs \<Longrightarrow> g s x = Some s) \<Longrightarrow> try_fold g s xs = Some s"
  by (induction xs) simp_all

lemma relax_node_idle:
  assumes "finder_wf f" "n = length (idx_to_currency f)" "u < n"
  shows "relax_node F f (replicate n PosInf, pr, upd) u = Some (replicate n PosInf, pr, upd)"
proof -
  have "get_at (edges f) u = Some (edges f ! u)" "edges f ! u \<in> set (edges f)"
    using assms by (auto simp: get_at_def finder_wf_def Let_def)
  moreover have "relax_edge F u (replicate n PosInf, pr, upd) e = Some (replicate n PosInf, pr, upd)"
    if "e \<in> set (edges f ! u)" for e
    using assms that \<open>edges f ! u \<in> set (edges f)\<close> by (intro relax_edge_idle) (auto simp: finder_wf_def Let_def)
  ultimately show ?thesis by (simp add: relax_node_def try_fold_idle)
qed

lemma search_rounds_idle:
  assumes "finder_wf f" "n = length (idx_to_currency f)"
  shows "search_rounds D F f its (replicate n PosInf) pr found = Some found"
proof (induction its)
  case (Cons i its)
  have "try_fold (relax_node F f) (replicate n PosInf, pr, False) [0..<n] = Some (replicate n PosInf, pr, False)"
    by (rule try_fold_idle) (simp add: relax_node_idle [OF assms])
  with Cons assms(2) show ?case by simp
qed simp

text \<open>
  the search for profitable triangles reports none, ever.  Whatever currencies and pairs a
  finder holds, whatever their prices and fees, and whatever the number of iterations, building it
  succeeds and \<^verbatim>\<open>find_profitable_paths\<close> returns the empty list: every distance starts at infinity and none
  is set for a source, so no edge ever lowers one.
\<close>

theorem path_finder_finds_nothing:
  "\<exists>f. build_finder D L ps (with_max_iterations D cs pct iters) = Some f \<and> find_profitable_paths D F f = Some []"
proof -
  have "\<exists>f. build_finder D L ps (with_max_iterations D cs pct iters) = Some f \<and> finder_wf f"
    by (rule build_finder_wf [OF with_max_iterations_wf])
  then obtain f where f: "build_finder D L ps (with_max_iterations D cs pct iters) = Some f" "finder_wf f" by blast
  then show ?thesis by (simp add: find_profitable_paths_def Let_def search_rounds_idle)
qed

section \<open>The profit of a path\<close>

lemma max_by_foldl:
  assumes "\<And>a b c. \<not> lt a b \<Longrightarrow> \<not> lt b c \<Longrightarrow> \<not> lt a c" and "\<And>a b. lt a b \<Longrightarrow> \<not> lt b a"
  shows "foldl (\<lambda>best y. if lt y best then best else y) x xs \<in> set (x # xs) \<and>
    (\<forall>y\<in>set (x # xs). \<not> lt (foldl (\<lambda>best y. if lt y best then best else y) x xs) y)"
proof (induction xs arbitrary: x)
  case Nil
  then show ?case using assms(2) by auto
next
  case (Cons y ys)
  let ?z = "if lt y x then x else y"
  have z: "\<not> lt ?z x" "\<not> lt ?z y" using assms(2) by auto
  from Cons [of ?z] have "\<not> lt (foldl (\<lambda>best y. if lt y best then best else y) ?z ys) ?z" by simp
  then have "\<not> lt (foldl (\<lambda>best y. if lt y best then best else y) ?z ys) x"
    "\<not> lt (foldl (\<lambda>best y. if lt y best then best else y) ?z ys) y" using z assms(1) by blast+
  with Cons [of ?z] show ?case by (auto split: if_splits)
qed

text \<open>The leg from one currency to another uses an edge of the pair with the greatest rate.\<close>

lemma best_edge_greatest:
  assumes "\<And>a b c. \<not> dec_lt D a b \<Longrightarrow> \<not> dec_lt D b c \<Longrightarrow> \<not> dec_lt D a c" "\<And>a b. dec_lt D a b \<Longrightarrow> \<not> dec_lt D b a"
    and "best_edge D f u v = Some (Some e)"
  shows "e \<in> set (edges f ! u) \<and> edge_to e = v \<and>
    (\<forall>e'\<in>set (edges f ! u). edge_to e' = v \<longrightarrow> \<not> dec_lt D (decimal_rate e) (decimal_rate e'))"
proof -
  let ?es = "filter (\<lambda>e. edge_to e = v) (edges f ! u)"
  from assms(3) obtain x xs where x: "?es = x # xs"
    "e = foldl (\<lambda>best y. if dec_lt D (decimal_rate y) (decimal_rate best) then best else y) x xs"
    by (cases ?es) (auto simp: best_edge_def get_at_def split: if_splits)
  have "e \<in> set ?es \<and> (\<forall>y\<in>set ?es. \<not> dec_lt D (decimal_rate e) (decimal_rate y))"
    unfolding x using max_by_foldl [of "\<lambda>a b. dec_lt D (decimal_rate a) (decimal_rate b)" x xs] assms(1,2) by blast
  then show ?thesis by auto
qed

end
