(* ===== verification/Execution_Engine.thy ===== *)
theory Execution_Engine
  imports Protections Strategies Order_Tracker Execution_Guards
begin

text \<open>
  The execution engine of \<^verbatim>\<open>src/src/execution.rs\<close>: the two-leg and the three-leg blasts with their guards, the
  slippage limits, the emergency counter-orders and the accounting after a trade.  What the
  pipelines answer, the clocks and the expiry of the total timeout are given by a record of the
  blast's environment; the orders handed to a pipeline and the cancellations requested are logged in the
  engine's state.  The execution mutex admits one blast at a time.
\<close>

section \<open>Orders and the engine\<close>

record 'd order_intent =
  intent_exchange :: u16
  intent_token :: u16
  intent_qty :: 'd
  intent_price :: 'd
  intent_is_buy :: bool
  intent_symbol :: string

record 'd order_result =
  res_success :: bool
  res_order_id :: "string option"
  res_filled_qty :: 'd
  res_avg_price :: 'd
  res_error :: "string option"
  res_slippage_bps :: "u64 option"

text \<open>What a leg's call returns within its timeout of 200 ms.\<close>

datatype 'd leg_answer = Answered "'d order_result" | PipelineError string | LegTimedOut

abbreviation DEFAULT_MAX_SLIPPAGE_BPS :: u64 where "DEFAULT_MAX_SLIPPAGE_BPS \<equiv> 5"
abbreviation DEFAULT_SLIPPAGE_TOLERANCE_FP :: u64 where "DEFAULT_SLIPPAGE_TOLERANCE_FP \<equiv> 500"
abbreviation DEFAULT_DAILY_LOSS_LIMIT_CENTS :: u64 where "DEFAULT_DAILY_LOSS_LIMIT_CENTS \<equiv> 10000"
abbreviation TRACKER_MAX_AGE_SECS :: u64 where "TRACKER_MAX_AGE_SECS \<equiv> 300"

text \<open>
  An order in the log carries whether it went to the paper pipeline.  \<open>eng_cancel_pool\<close> says for which exchanges a cancelling
  client exists, when cancellation was set up at all.
\<close>

record 'd engine =
  eng_risk :: "'d risk_manager"
  eng_paper_mode :: bool
  eng_rollback_count :: u64
  eng_max_slippage_bps :: u64
  eng_slippage_reject_count :: u64
  eng_slippage_tolerance_fp :: u64
  eng_tracker :: "'d live_order_tracker"
  eng_cancel_pool :: "(u16 \<Rightarrow> bool) option"
  eng_volatility_circuit :: bool
  eng_daily :: daily_pnl
  eng_fee_schedule :: "exchange_fee_schedule option"
  eng_orders :: "(bool \<times> 'd order_intent) list"
  eng_cancels :: "(u16 \<times> string \<times> string) list"

definition engine_new :: "'d risk_manager \<Rightarrow> bool \<Rightarrow> 'd engine" where
  "engine_new rm paper =
     \<lparr>eng_risk = rm, eng_paper_mode = paper, eng_rollback_count = 0,
      eng_max_slippage_bps = DEFAULT_MAX_SLIPPAGE_BPS, eng_slippage_reject_count = 0,
      eng_slippage_tolerance_fp = DEFAULT_SLIPPAGE_TOLERANCE_FP, eng_tracker = tracker_new TRACKER_MAX_AGE_SECS,
      eng_cancel_pool = None, eng_volatility_circuit = False,
      eng_daily = \<lparr>daily_loss_cents = 0, daily_profit_cents = 0, daily_reset_day = 0,
                   daily_loss_limit_cents = DEFAULT_DAILY_LOSS_LIMIT_CENTS\<rparr>,
      eng_fee_schedule = None, eng_orders = [], eng_cancels = []\<rparr>"

definition with_live_cancel :: "(u16 \<Rightarrow> bool) \<Rightarrow> 'd engine \<Rightarrow> 'd engine" where
  "with_live_cancel pool g = g\<lparr>eng_cancel_pool := Some pool\<rparr>"

definition set_fee_schedule :: "exchange_fee_schedule \<Rightarrow> 'd engine \<Rightarrow> 'd engine" where
  "set_fee_schedule s g = g\<lparr>eng_fee_schedule := Some s\<rparr>"

definition set_paper_mode :: "bool \<Rightarrow> 'd engine \<Rightarrow> 'd engine" where
  "set_paper_mode b g = g\<lparr>eng_paper_mode := b\<rparr>"

definition set_max_slippage_bps :: "u64 \<Rightarrow> 'd engine \<Rightarrow> 'd engine" where
  "set_max_slippage_bps bps g = g\<lparr>eng_max_slippage_bps := bps\<rparr>"

definition set_slippage_tolerance :: "'d exec_decimal \<Rightarrow> 'd \<Rightarrow> 'd engine \<Rightarrow> 'd engine" where
  "set_slippage_tolerance D tol g =
     g\<lparr>eng_slippage_tolerance_fp :=
         (case dec_to_u64 D (dec_round D (dec_mul D tol (dec_from_int D 1000000))) of
            None \<Rightarrow> DEFAULT_SLIPPAGE_TOLERANCE_FP | Some fp \<Rightarrow> fp)\<rparr>"

section \<open>Slippage\<close>

definition decimal_to_fp :: "'d exec_decimal \<Rightarrow> 'd \<Rightarrow> u64" where
  "decimal_to_fp D d =
     (if dec_lt D d (dec_zero D) then 0
      else let scaled = dec_mul D d (dec_from_int D 1000000)
           in if dec_lt D (dec_from_int D (2 ^ 64 - 1)) scaled then - 1
              else case dec_to_u64 D (dec_trunc D scaled) of None \<Rightarrow> 0 | Some w \<Rightarrow> w)"

definition apply_slippage_limit :: "'d exec_decimal \<Rightarrow> 'd engine \<Rightarrow> 'd order_intent \<Rightarrow> 'd order_intent" where
  "apply_slippage_limit D g intent =
     (let tol_fp = eng_slippage_tolerance_fp g
      in if tol_fp = 0 then intent
         else let tolerance = dec_div D (dec_from_int D (uint tol_fp)) (dec_from_int D 1000000);
                  one = dec_from_int D 1
              in intent\<lparr>intent_price :=
                   (if intent_is_buy intent then dec_mul D (intent_price intent) (dec_add D one tolerance)
                    else dec_mul D (intent_price intent) (dec_sub D one tolerance))\<rparr>)"

text \<open>\<open>Inl\<close> carries the observed slippage of the refusal.\<close>

definition check_slippage :: "'d exec_decimal \<Rightarrow> 'd \<Rightarrow> 'd \<Rightarrow> bool \<Rightarrow> u64 \<Rightarrow> u64 + u64" where
  "check_slippage D intended_price actual_price buy max_slippage_bps =
     (if \<not> dec_lt D (dec_zero D) intended_price then Inr 0
      else let deviation = (if buy then dec_saturating_sub D actual_price intended_price
                            else dec_saturating_sub D intended_price actual_price);
               slippage_bps =
                 (case dec_to_u64 D (dec_ceil D (dec_div D (dec_mul D deviation (dec_from_int D 10000)) intended_price)) of
                    None \<Rightarrow> 0 | Some w \<Rightarrow> w)
           in if max_slippage_bps < slippage_bps then Inl slippage_bps else Inr slippage_bps)"

definition verify_leg_slippage ::
  "'d exec_decimal \<Rightarrow> 'd order_intent \<Rightarrow> 'd order_result \<Rightarrow> 'd engine \<Rightarrow> 'd engine" where
  "verify_leg_slippage D intent result g =
     (if \<not> res_success result \<or> \<not> dec_lt D (dec_zero D) (res_avg_price result) then g
      else case check_slippage D (intent_price intent) (res_avg_price result) (intent_is_buy intent)
                  (eng_max_slippage_bps g) of
             Inr _ \<Rightarrow> g
           | Inl _ \<Rightarrow> g\<lparr>eng_slippage_reject_count := eng_slippage_reject_count g + 1\<rparr>)"

section \<open>Single steps of a blast\<close>

definition submit :: "bool \<Rightarrow> 'd order_intent \<Rightarrow> 'd engine \<Rightarrow> 'd engine" where
  "submit paper intent g = g\<lparr>eng_orders := eng_orders g @ [(paper, intent)]\<rparr>"

definition track_live_order ::
  "'d exec_decimal \<Rightarrow> nat \<times> nat \<times> u64 \<Rightarrow> 'd order_result \<Rightarrow> 'd order_intent \<Rightarrow> 'd engine \<Rightarrow> 'd engine" where
  "track_live_order D clk result intent g =
     (if eng_paper_mode g then g
      else case res_order_id result of
             None \<Rightarrow> g
           | Some oid \<Rightarrow>
               (case clk of (t_clean, now, epoch_ms) \<Rightarrow>
                  g\<lparr>eng_tracker := track (decimal_api.truncate D) t_clean now epoch_ms oid (intent_exchange intent)
                                     (intent_symbol intent) (intent_is_buy intent) (eng_tracker g)\<rparr>))"

definition untrack_live_order :: "'d order_result \<Rightarrow> 'd engine \<Rightarrow> 'd engine" where
  "untrack_live_order result g =
     (case res_order_id result of None \<Rightarrow> g | Some oid \<Rightarrow> g\<lparr>eng_tracker := tracker_remove oid (eng_tracker g)\<rparr>)"

definition record_leg_outcome :: "i64 \<Rightarrow> u16 \<Rightarrow> 'd order_result \<Rightarrow> 'd engine \<Rightarrow> 'd engine" where
  "record_leg_outcome now exch result g =
     (if res_success result then g\<lparr>eng_risk := record_exchange_success exch (eng_risk g)\<rparr>
      else g\<lparr>eng_risk := record_exchange_failure now exch (eng_risk g)\<rparr>)"

definition bump_rollbacks :: "'d engine \<Rightarrow> 'd engine" where
  "bump_rollbacks g = g\<lparr>eng_rollback_count := eng_rollback_count g + 1\<rparr>"

text \<open>
  The counter-order that closes a filled leg: the other side, the filled quantity, a price worse by half a percent.
\<close>

definition counter_intent :: "'d exec_decimal \<Rightarrow> 'd order_intent \<Rightarrow> 'd order_result \<Rightarrow> 'd order_intent option" where
  "counter_intent D original filled =
     (let fill_qty = (if dec_lt D (res_filled_qty filled) (dec_zero D) then dec_zero D else res_filled_qty filled)
      in if \<not> dec_lt D (dec_zero D) fill_qty then None
         else let base_price = (if dec_lt D (dec_zero D) (res_avg_price filled) then res_avg_price filled
                                else intent_price original)
              in Some (original\<lparr>intent_qty := fill_qty,
                                intent_price := (if intent_is_buy original then dec_mul D base_price (dec_new D 995 3)
                                                 else dec_mul D base_price (dec_new D 1005 3)),
                                intent_is_buy := \<not> intent_is_buy original\<rparr>))"

definition fire_counter_order ::
  "'d exec_decimal \<Rightarrow> bool \<Rightarrow> 'd order_intent \<Rightarrow> 'd order_result \<Rightarrow> 'd engine \<Rightarrow> 'd engine" where
  "fire_counter_order D paper original filled g =
     (case counter_intent D original filled of None \<Rightarrow> g | Some counter \<Rightarrow> submit paper counter g)"

definition failed_result :: "'d exec_decimal \<Rightarrow> string \<Rightarrow> 'd order_result" where
  "failed_result D msg =
     \<lparr>res_success = False, res_order_id = None, res_filled_qty = dec_zero D, res_avg_price = dec_zero D,
      res_error = Some msg, res_slippage_bps = None\<rparr>"

definition leg_result ::
  "'d exec_decimal \<Rightarrow> bool \<Rightarrow> string \<Rightarrow> 'd order_intent \<Rightarrow> 'd leg_answer \<Rightarrow> 'd engine \<Rightarrow>
   'd order_result \<times> 'd engine" where
  "leg_result D paper label intent answer g =
     (case answer of
        Answered r \<Rightarrow> (r, g)
      | PipelineError _ \<Rightarrow>
          (failed_result D (label @ '' pipeline error (not timeout)''),
           fire_counter_order D paper intent (failed_result D (label @ '' pipeline error'')) (bump_rollbacks g))
      | LegTimedOut \<Rightarrow> (failed_result D (label @ '' error: deadline has elapsed''), g))"

definition leg_filled :: "'d exec_decimal \<Rightarrow> 'd order_result \<Rightarrow> bool" where
  "leg_filled D r \<longleftrightarrow> res_success r \<and> dec_lt D (dec_zero D) (res_filled_qty r)"


section \<open>Blasts\<close>

text \<open>
  The environment of a blast: whether the mutex is taken, the day, the gate's clocks and the
  schedules of the reservations and releases, the depeg monitor's verdict, the answer to each leg, the
  clocks of tracking and of recording outcomes, and when the total timeout of 500 ms expires: never,
  while the legs are awaited (\<open>Some 0\<close>), or while the \<open>k\<close>-th counter-order is awaited (\<open>Some k\<close>).
\<close>

record 'd blast_env =
  env_locked :: bool
  env_today :: u32
  env_gate :: "nat \<Rightarrow> gate_clock"
  env_reserve :: "nat \<Rightarrow> u64 schedule"
  env_release :: "nat \<Rightarrow> u64 schedule"
  env_depeg :: bool
  env_answer :: "nat \<Rightarrow> 'd leg_answer"
  env_track :: "nat \<Rightarrow> nat \<times> nat \<times> u64"
  env_outcome :: "nat \<Rightarrow> i64"
  env_cut :: "nat option"

datatype blast_error =
    BlastInFlight
  | VolatilityHalt
  | DailyLossHalt u64 u64
  | RiskRejection u16 trade_rejection
  | DepegHalt
  | BlastTimedOut

definition blast_guards :: "'d blast_env \<Rightarrow> 'd engine \<Rightarrow> (blast_error + unit) \<times> 'd engine" where
  "blast_guards env g =
     (if env_locked env then (Inl BlastInFlight, g)
      else if eng_volatility_circuit g then (Inl VolatilityHalt, g)
      else case check_daily_loss_limit (env_today env) (eng_daily g) of
             (Inl (loss, limit), d) \<Rightarrow> (Inl (DailyLossHalt loss limit), g\<lparr>eng_daily := d\<rparr>)
           | (Inr _, d) \<Rightarrow> (Inr (), g\<lparr>eng_daily := d\<rparr>))"

text \<open>The gate for a list of legs, each with its number; the first refusal ends it.\<close>

fun gate_legs ::
  "'d blast_env \<Rightarrow> u64 \<Rightarrow> u64 \<Rightarrow> u64 \<Rightarrow> (nat \<times> u16) list \<Rightarrow> 'd risk_manager \<Rightarrow>
   (blast_error + unit) \<times> 'd risk_manager" where
  "gate_legs env exp_bps size_fp capital_fp [] m = (Inr (), m)"
| "gate_legs env exp_bps size_fp capital_fp ((i, exch) # legs) m =
     (case pre_trade_check (env_gate env i) (env_reserve env i) exp_bps size_fp capital_fp exch m of
        (Inl rej, m') \<Rightarrow> (Inl (RiskRejection exch rej), m')
      | (Inr _, m') \<Rightarrow> gate_legs env exp_bps size_fp capital_fp legs m')"

text \<open>The scope guard: releases of the reserved size, one per reservation.\<close>

definition release_reserved :: "'d blast_env \<Rightarrow> u64 \<Rightarrow> nat \<Rightarrow> 'd engine \<Rightarrow> 'd engine" where
  "release_reserved env size_fp n g =
     g\<lparr>eng_risk := foldl (\<lambda>m i. release_exposure (env_release env i) size_fp m) (eng_risk g) [0..<n]\<rparr>"

text \<open>The task spawned after a total timeout asks for the cancellation of every tracked order and forgets it.\<close>

definition cancel_pending :: "'d engine \<Rightarrow> 'd engine" where
  "cancel_pending g =
     (let pending = map snd (orders (eng_tracker g))
      in g\<lparr>eng_cancels := eng_cancels g @
             (case eng_cancel_pool g of
                None \<Rightarrow> []
              | Some pool \<Rightarrow> map (\<lambda>e. (order_exchange e, order_symbol e, order_id e))
                               (filter (\<lambda>e. pool (order_exchange e)) pending)),
           eng_tracker := foldl (\<lambda>tr e. tracker_remove (order_id e) tr) (eng_tracker g) pending\<rparr>)"

text \<open>
  Counter-orders one after the other; the flag says that the total timeout expired while one was
  awaited.  \<open>expiry = Some 1\<close> means the next one.
\<close>

fun fire_all ::
  "'d exec_decimal \<Rightarrow> bool \<Rightarrow> nat option \<Rightarrow> ('d order_intent \<times> 'd order_result) list \<Rightarrow> 'd engine \<Rightarrow>
   bool \<times> 'd engine" where
  "fire_all D paper expiry [] g = (False, g)"
| "fire_all D paper expiry ((intent, filled) # rest) g =
     (let g' = fire_counter_order D paper intent filled g
      in if counter_intent D intent filled = None then fire_all D paper expiry rest g'
         else if expiry = Some 1 then (True, g')
         else fire_all D paper (map_option (\<lambda>k. k - 1) expiry) rest g')"

definition two_legs ::
  "'d exec_decimal \<Rightarrow> 'd blast_env \<Rightarrow> bool \<Rightarrow> 'd order_intent \<Rightarrow> 'd order_intent \<Rightarrow> 'd order_intent \<Rightarrow> 'd order_intent \<Rightarrow>
   'd engine \<Rightarrow> ('d order_result \<times> 'd order_result) option \<times> 'd engine" where
  "two_legs D env paper original_a original_b leg_a leg_b g =
     (let g = submit paper leg_b (submit paper leg_a g)
      in if env_cut env = Some 0 then (None, g)
         else
           let (result_a, g) = leg_result D paper ''leg-a'' leg_a (env_answer env 0) g;
               (result_b, g) = leg_result D paper ''leg-b'' leg_b (env_answer env 1) g;
               g = track_live_order D (env_track env 1) result_b leg_b
                     (track_live_order D (env_track env 0) result_a leg_a g);
               a_filled = leg_filled D result_a; b_filled = leg_filled D result_b;
               (expired, g) = (if a_filled \<noteq> b_filled
                           then fire_all D paper (env_cut env)
                                  [if a_filled then (leg_a, result_a) else (leg_b, result_b)] (bump_rollbacks g)
                           else (False, g))
           in if expired then (None, g)
              else let g = record_leg_outcome (env_outcome env 1) (intent_exchange leg_b) result_b
                             (record_leg_outcome (env_outcome env 0) (intent_exchange leg_a) result_a g);
                       g = verify_leg_slippage D original_b result_b (verify_leg_slippage D original_a result_a g)
                   in (Some (result_a, result_b), g))"

definition leg_fee_bps :: "'d engine \<Rightarrow> u16 \<Rightarrow> u64" where
  "leg_fee_bps g exch =
     (case eng_fee_schedule g of
        None \<Rightarrow> 10
      | Some s \<Rightarrow> (case get_at (taker_fees s) (unat exch) of None \<Rightarrow> 10 | Some x \<Rightarrow> x))"

definition to_cents :: "'d exec_decimal \<Rightarrow> 'd \<Rightarrow> i64" where
  "to_cents D profit =
     (case dec_to_i64 D (dec_round D (dec_mul D profit (dec_from_int D 100))) of None \<Rightarrow> 0 | Some c \<Rightarrow> c)"

definition bps_of :: "'d exec_decimal \<Rightarrow> 'd \<Rightarrow> u64 \<Rightarrow> 'd" where
  "bps_of D notional bps = dec_div D (dec_mul D notional (dec_from_int D (uint bps))) (dec_from_int D 10000)"

definition two_leg_pnl ::
  "'d exec_decimal \<Rightarrow> 'd order_intent \<Rightarrow> 'd order_intent \<Rightarrow> 'd order_result \<times> 'd order_result \<Rightarrow> 'd engine \<Rightarrow> 'd engine" where
  "two_leg_pnl D original_a original_b = (\<lambda>(ra, rb) g.
     if res_success ra \<and> res_success rb then
       let (buy, sell, buy_exch, sell_exch) =
             (if intent_is_buy original_a then (ra, rb, intent_exchange original_a, intent_exchange original_b)
              else (rb, ra, intent_exchange original_b, intent_exchange original_a));
           buy_notional = dec_mul D (res_filled_qty buy) (res_avg_price buy);
           sell_notional = dec_mul D (res_filled_qty sell) (res_avg_price sell);
           buy_fee = bps_of D buy_notional (leg_fee_bps g buy_exch);
           sell_fee = bps_of D sell_notional (leg_fee_bps g sell_exch);
           profit = dec_sub D (dec_sub D (dec_sub D sell_notional buy_notional) buy_fee) sell_fee
       in g\<lparr>eng_daily := record_daily_pnl (to_cents D profit) (eng_daily g)\<rparr>
     else g)"

definition untrack_filled :: "'d exec_decimal \<Rightarrow> 'd order_result list \<Rightarrow> 'd engine \<Rightarrow> 'd engine" where
  "untrack_filled D rs g = foldl (\<lambda>g r. if leg_filled D r then untrack_live_order r g else g) g rs"

definition blast_arbitrage_legs ::
  "'d exec_decimal \<Rightarrow> 'd blast_env \<Rightarrow> 'd order_intent \<Rightarrow> 'd order_intent \<Rightarrow> u64 \<Rightarrow> u64 \<Rightarrow> 'd engine \<Rightarrow>
   (blast_error + 'd order_result \<times> 'd order_result) \<times> 'd engine" where
  "blast_arbitrage_legs D env leg_a leg_b exp_bps capital_fp g =
     (case blast_guards env g of
        (Inl e, g) \<Rightarrow> (Inl e, g)
      | (Inr _, g) \<Rightarrow>
          let size_fp = decimal_to_fp D (dec_mul D (intent_qty leg_a) (intent_price leg_a))
          in case gate_legs env exp_bps size_fp capital_fp [(0, intent_exchange leg_a)] (eng_risk g) of
               (Inl e, m) \<Rightarrow> (Inl e, g\<lparr>eng_risk := m\<rparr>)
             | (Inr _, m) \<Rightarrow>
                 let g = g\<lparr>eng_risk := m\<rparr>
                 in if env_depeg env then (Inl DepegHalt, release_reserved env size_fp 1 g)
                    else case two_legs D env (eng_paper_mode g) leg_a leg_b
                                (apply_slippage_limit D g leg_a) (apply_slippage_limit D g leg_b) g of
                           (None, g) \<Rightarrow> (Inl BlastTimedOut, release_reserved env size_fp 1 (cancel_pending g))
                         | (Some (ra, rb), g) \<Rightarrow>
                             (Inr (ra, rb), two_leg_pnl D leg_a leg_b (ra, rb) (untrack_filled D [ra, rb] g)))"


text \<open>Three legs: the loops of the code over the numbered legs.\<close>

fun leg_results ::
  "'d exec_decimal \<Rightarrow> 'd blast_env \<Rightarrow> bool \<Rightarrow> (nat \<times> 'd order_intent) list \<Rightarrow> 'd engine \<Rightarrow>
   'd order_result list \<times> 'd engine" where
  "leg_results D env paper [] g = ([], g)"
| "leg_results D env paper ((i, original) # rest) g =
     (let (r, g) = leg_result D paper (''leg-'' @ digits_of i) original (env_answer env i) g;
          (rs, g) = leg_results D env paper rest g
      in (r # rs, g))"

definition each_leg :: "(nat \<Rightarrow> 'a \<Rightarrow> 'b \<Rightarrow> 's \<Rightarrow> 's) \<Rightarrow> 'a list \<Rightarrow> 'b list \<Rightarrow> 's \<Rightarrow> 's" where
  "each_leg f legs rs g = foldl (\<lambda>g (i, leg, r). f i leg r g) g (zip [0..<length rs] (zip legs rs))"

definition three_legs ::
  "'d exec_decimal \<Rightarrow> 'd blast_env \<Rightarrow> bool \<Rightarrow> 'd order_intent list \<Rightarrow> 'd order_intent list \<Rightarrow> 'd engine \<Rightarrow>
   'd order_result list option \<times> 'd engine" where
  "three_legs D env paper originals legs g =
     (let g = foldl (\<lambda>g leg. submit paper leg g) g legs
      in if env_cut env = Some 0 then (None, g)
         else
           let (results, g) = leg_results D env paper (zip [0..<length originals] originals) g;
               g = each_leg (\<lambda>i leg r. track_live_order D (env_track env i) r leg) legs results g;
               filled_count = length (filter (leg_filled D) results);
               (expired, g) = (if 0 < filled_count \<and> filled_count < 3
                               then fire_all D paper (env_cut env)
                                      (filter (\<lambda>(leg, r). leg_filled D r) (zip legs results)) (bump_rollbacks g)
                               else (False, g))
           in if expired then (None, g)
              else let g = each_leg (\<lambda>i leg r. record_leg_outcome (env_outcome env i) (intent_exchange leg) r) legs results g;
                       g = each_leg (\<lambda>i leg r. verify_leg_slippage D leg r) originals results g
                   in (Some results, g))"

definition ends_with :: "string \<Rightarrow> string \<Rightarrow> bool" where
  "ends_with s suf = is_prefix_of (rev suf) (rev s)"

definition tri_profit_estimate ::
  "'d exec_decimal \<Rightarrow> u64 \<Rightarrow> 'd order_intent list \<Rightarrow> 'd order_result list \<Rightarrow> 'd engine \<Rightarrow> 'd" where
  "tri_profit_estimate D exp_bps legs results g =
     (let usdt_leg = (case find (\<lambda>l. ends_with (intent_symbol l) ''USDT'' \<or> ends_with (intent_symbol l) ''USDC'') legs of
                        None \<Rightarrow> legs ! 0 | Some l \<Rightarrow> l);
          usdt_notional = dec_mul D (intent_qty usdt_leg) (intent_price usdt_leg);
          total_fee =
            foldl (\<lambda>fee (leg, r).
                if leg_filled D r
                then dec_add D fee (bps_of D (dec_mul D (res_filled_qty r) (res_avg_price r)) (leg_fee_bps g (intent_exchange leg)))
                else fee) (dec_zero D) (zip legs results)
      in dec_sub D (bps_of D usdt_notional exp_bps) total_fee)"

definition tri_pnl ::
  "'d exec_decimal \<Rightarrow> u64 \<Rightarrow> 'd order_intent list \<Rightarrow> 'd order_result list \<Rightarrow> 'd engine \<Rightarrow> 'd engine" where
  "tri_pnl D exp_bps legs results g =
     (let estimate = tri_profit_estimate D exp_bps legs results g
      in if dec_lt D (dec_zero D) estimate
         then g\<lparr>eng_daily := record_daily_pnl (to_cents D estimate) (eng_daily g)\<rparr> else g)"

definition blast_triangular_legs ::
  "'d exec_decimal \<Rightarrow> 'd blast_env \<Rightarrow> 'd order_intent \<times> 'd order_intent \<times> 'd order_intent \<Rightarrow> u64 \<Rightarrow> u64 \<Rightarrow> 'd engine \<Rightarrow>
   (blast_error + 'd order_result list) \<times> 'd engine" where
  "blast_triangular_legs D env = (\<lambda>(l0, l1, l2) exp_bps capital_fp g.
     case blast_guards env g of
       (Inl e, g) \<Rightarrow> (Inl e, g)
     | (Inr _, g) \<Rightarrow>
         let originals = [l0, l1, l2];
             notional = (\<lambda>l. decimal_to_fp D (dec_mul D (intent_qty l) (intent_price l)));
             size_fp = max (notional l0) (max (notional l1) (notional l2))
         in case gate_legs env exp_bps size_fp capital_fp
                   (zip [0..<3] (map intent_exchange originals)) (eng_risk g) of
              (Inl e, m) \<Rightarrow> (Inl e, g\<lparr>eng_risk := m\<rparr>)
            | (Inr _, m) \<Rightarrow>
                let g = g\<lparr>eng_risk := m\<rparr>
                in if env_depeg env then (Inl DepegHalt, release_reserved env size_fp 3 g)
                   else let legs = map (apply_slippage_limit D g) originals
                        in case three_legs D env (eng_paper_mode g) originals legs g of
                             (None, g) \<Rightarrow> (Inl BlastTimedOut, release_reserved env size_fp 3 (cancel_pending g))
                           | (Some results, g) \<Rightarrow> (Inr results, tri_pnl D exp_bps legs results (untrack_filled D results g)))"

section \<open>The pipelines\<close>

text \<open>The paper pipeline: a fill at a price worse by \<open>slippage\<close>, which is between 0.01 and 0.02 percent by the clock's nanoseconds.\<close>

record 'd paper_pipeline =
  paper_balance :: 'd
  paper_total_trades :: u64

definition paper_slippage :: "'d exec_decimal \<Rightarrow> nat \<Rightarrow> 'd" where
  "paper_slippage D nanos =
     (let random_factor = dec_div D (dec_from_int D (int (nanos mod 1000))) (dec_from_int D 1000);
          slippage_base = dec_new D 1 4
      in dec_add D slippage_base (dec_mul D slippage_base random_factor))"

definition paper_execute_order ::
  "'d exec_decimal \<Rightarrow> nat \<Rightarrow> 'd order_intent \<Rightarrow> 'd paper_pipeline \<Rightarrow> 'd order_result \<times> 'd paper_pipeline" where
  "paper_execute_order D nanos intent p =
     (if \<not> dec_lt D (dec_zero D) (intent_price intent) then
        ((failed_result D ''zero price rejected'')\<lparr>res_order_id := Some ''rejected-zero-price''\<rparr>, p)
      else
        let slippage = paper_slippage D nanos; one = dec_from_int D 1;
            adjusted_price = (if intent_is_buy intent then dec_mul D (intent_price intent) (dec_add D one slippage)
                              else dec_mul D (intent_price intent) (dec_sub D one slippage));
            notional = dec_mul D (intent_qty intent) adjusted_price
        in if intent_is_buy intent \<and> dec_lt D (paper_balance p) notional
           then (failed_result D ''paper balance insufficient'', p)
           else
             let bal = (if intent_is_buy intent then dec_sub D (paper_balance p) notional
                        else dec_add D (paper_balance p) notional);
                 trade_seq = paper_total_trades p + 1;
                 deviation = (if intent_is_buy intent then dec_saturating_sub D adjusted_price (intent_price intent)
                              else dec_saturating_sub D (intent_price intent) adjusted_price);
                 bps = (case dec_to_u64 D (dec_ceil D (dec_mul D (dec_div D deviation (intent_price intent)) (dec_from_int D 10000))) of
                          None \<Rightarrow> 0 | Some w \<Rightarrow> w)
             in (\<lparr>res_success = True, res_order_id = Some (''PAPER-'' @ digits_of (unat trade_seq)),
                  res_filled_qty = intent_qty intent, res_avg_price = adjusted_price, res_error = None,
                  res_slippage_bps = Some bps\<rparr>,
                 p\<lparr>paper_balance := bal, paper_total_trades := trade_seq\<rparr>))"

text \<open>
  One attempt of the real pipeline.  \<open>client\<close> is the exchange client's answer to the request (\<open>None\<close> when there is no pool of
  clients, \<open>Some None\<close> when the pool has none for the exchange); the flag returned says whether the client was called.  The clock is read by the
  cooldown check and by a trip, when a breaker is attached.
\<close>

datatype submit_error = ClientError string | NoPool | NoClient | CoolingDown "u16 \<times> u64" | RateLimitedAnswer string

definition limiter_check :: "u16 \<Rightarrow> u64 \<Rightarrow> cooldown_breaker option \<Rightarrow> ((u16 \<times> u64) + unit) \<times> cooldown_breaker option" where
  "limiter_check exch now b =
     (case b of None \<Rightarrow> (Inr (), None) | Some cb \<Rightarrow> map_prod id Some (cooldown_check exch now cb))"

definition execute_order_inner ::
  "u64 \<times> u64 \<Rightarrow> (string + 'd order_result) option option \<Rightarrow> 'd order_intent \<Rightarrow> cooldown_breaker option \<Rightarrow>
   bool \<times> (submit_error + 'd order_result) \<times> cooldown_breaker option" where
  "execute_order_inner = (\<lambda>(t_check, t_trip) client intent b.
     let exch = intent_exchange intent; trip = map_option (cooldown_trip exch t_trip)
     in case limiter_check exch t_check b of
          (Inl e, b) \<Rightarrow> (False, Inl (CoolingDown e), b)
        | (Inr _, b) \<Rightarrow>
            (case client of
               None \<Rightarrow> (False, Inl NoPool, b)
             | Some None \<Rightarrow> (False, Inl NoClient, b)
             | Some (Some (Inl e)) \<Rightarrow>
                 let msg = ''typed client exec error (ex='' @ digits_of (unat exch) @ ''): '' @ e
                 in (True, Inl (ClientError msg),
                     if str_contains msg ''429'' \<or> str_contains msg ''rate.limit'' \<or> str_contains msg ''rate limit''
                     then trip b else b)
             | Some (Some (Inr r)) \<Rightarrow>
                 if (case res_error r of None \<Rightarrow> False | Some err_msg \<Rightarrow> is_rate_limit err_msg)
                 then (True, Inl (RateLimitedAnswer (the (res_error r))), trip b)
                 else (True, Inr (r\<lparr>res_slippage_bps := None\<rparr>), b)))"

end
