(* ===== verification/Execution_Blasts.thy ===== *)
theory Execution_Blasts
  imports Execution_Engine
begin

text \<open>
  What the blasts of the execution engine do: which orders reach a pipeline, how a one-sided fill is
  closed, and what is left of the reserved exposure and of the daily figures.
\<close>

section \<open>Frames of the steps\<close>

text \<open>What each step leaves alone: the order log, the exposure and the daily figures.\<close>

lemma submit_frame [simp]:
  "eng_orders (submit p i g) = eng_orders g @ [(p, i)]" "eng_risk (submit p i g) = eng_risk g"
  "eng_daily (submit p i g) = eng_daily g"
  by (simp_all add: submit_def)

lemma bump_frame [simp]:
  "eng_orders (bump_rollbacks g) = eng_orders g" "eng_risk (bump_rollbacks g) = eng_risk g"
  "eng_daily (bump_rollbacks g) = eng_daily g"
  by (simp_all add: bump_rollbacks_def)

lemma track_frame [simp]:
  "eng_orders (track_live_order D c r i g) = eng_orders g" "eng_risk (track_live_order D c r i g) = eng_risk g"
  "eng_daily (track_live_order D c r i g) = eng_daily g"
  by (simp_all add: track_live_order_def split: option.split prod.split)

lemma untrack_frame [simp]:
  "eng_orders (untrack_live_order r g) = eng_orders g" "eng_risk (untrack_live_order r g) = eng_risk g"
  "eng_daily (untrack_live_order r g) = eng_daily g"
  by (simp_all add: untrack_live_order_def split: option.split)

lemma verify_frame [simp]:
  "eng_orders (verify_leg_slippage D i r g) = eng_orders g" "eng_risk (verify_leg_slippage D i r g) = eng_risk g"
  "eng_daily (verify_leg_slippage D i r g) = eng_daily g"
  by (simp_all add: verify_leg_slippage_def split: sum.split)

lemma record_outcome_frame [simp]:
  "eng_orders (record_leg_outcome t e r g) = eng_orders g"
  "total_exposure (eng_risk (record_leg_outcome t e r g)) = total_exposure (eng_risk g)"
  "eng_daily (record_leg_outcome t e r g) = eng_daily g"
  by (simp_all add: record_leg_outcome_def record_exchange_success_def record_exchange_failure_def)

lemma fire_frame [simp]:
  "eng_orders (fire_counter_order D p i r g) =
     eng_orders g @ (case counter_intent D i r of None \<Rightarrow> [] | Some c \<Rightarrow> [(p, c)])"
  "eng_risk (fire_counter_order D p i r g) = eng_risk g" "eng_daily (fire_counter_order D p i r g) = eng_daily g"
  by (simp_all add: fire_counter_order_def split: option.split)

lemma fire_all_frame [simp]:
  "eng_risk (snd (fire_all D p x ls g)) = eng_risk g" "eng_daily (snd (fire_all D p x ls g)) = eng_daily g"
  by (induction D p x ls g rule: fire_all.induct) (simp_all add: Let_def)

lemma cancel_frame [simp]:
  "eng_orders (cancel_pending g) = eng_orders g" "eng_risk (cancel_pending g) = eng_risk g"
  "eng_daily (cancel_pending g) = eng_daily g"
  by (simp_all add: cancel_pending_def Let_def)

lemma release_frame [simp]:
  "eng_orders (release_reserved env s n g) = eng_orders g" "eng_daily (release_reserved env s n g) = eng_daily g"
  by (simp_all add: release_reserved_def)

lemma untrack_filled_frame [simp]:
  "eng_orders (untrack_filled D rs g) = eng_orders g" "eng_risk (untrack_filled D rs g) = eng_risk g"
  "eng_daily (untrack_filled D rs g) = eng_daily g"
  by (induction rs arbitrary: g) (simp_all add: untrack_filled_def)

lemma pnl_frame [simp]:
  "eng_orders (two_leg_pnl D a b rs g) = eng_orders g" "eng_risk (two_leg_pnl D a b rs g) = eng_risk g"
  "eng_orders (tri_pnl D x ls us g) = eng_orders g" "eng_risk (tri_pnl D x ls us g) = eng_risk g"
  by (simp_all add: two_leg_pnl_def tri_pnl_def Let_def split: prod.split)

section \<open>Legs and counter-orders\<close>

text \<open>Decimals compare as a strict order does.\<close>

definition strict_order :: "'d exec_decimal \<Rightarrow> bool" where
  "strict_order D \<longleftrightarrow> (\<forall>a b. dec_lt D a b \<longrightarrow> \<not> dec_lt D b a)"

lemma strict_orderD: "strict_order D \<Longrightarrow> dec_lt D a b \<Longrightarrow> \<not> dec_lt D b a"
  by (simp add: strict_order_def)

lemma strict_order_irrefl: "strict_order D \<Longrightarrow> \<not> dec_lt D a a"
  by (auto simp: strict_order_def)

definition answer_result :: "'d exec_decimal \<Rightarrow> string \<Rightarrow> 'd leg_answer \<Rightarrow> 'd order_result" where
  "answer_result D label answer =
     (case answer of
        Answered r \<Rightarrow> r
      | PipelineError _ \<Rightarrow> failed_result D (label @ '' pipeline error (not timeout)'')
      | LegTimedOut \<Rightarrow> failed_result D (label @ '' error: deadline has elapsed''))"

text \<open>A failed leg fires no counter-order: there is nothing to close.\<close>

lemma no_counter_for_failed: "strict_order D \<Longrightarrow> counter_intent D i (failed_result D msg) = None"
  by (simp add: counter_intent_def failed_result_def strict_order_irrefl Let_def)

lemma leg_result_exact:
  "strict_order D \<Longrightarrow> leg_result D p label i ans g =
    (answer_result D label ans, case ans of PipelineError _ \<Rightarrow> bump_rollbacks g | _ \<Rightarrow> g)"
  by (simp add: leg_result_def answer_result_def fire_counter_order_def no_counter_for_failed split: leg_answer.split)

lemma leg_result_frame:
  "strict_order D \<Longrightarrow> leg_result D p label i ans g = (r, g') \<Longrightarrow>
   r = answer_result D label ans \<and> eng_orders g' = eng_orders g \<and> eng_risk g' = eng_risk g \<and> eng_daily g' = eng_daily g"
  by (auto simp: leg_result_exact split: leg_answer.splits)

text \<open>The order that closes a filled leg.\<close>

definition closing_order :: "'d exec_decimal \<Rightarrow> 'd order_intent \<Rightarrow> 'd order_result \<Rightarrow> 'd order_intent" where
  "closing_order D leg r =
     (let base_price = (if dec_lt D (dec_zero D) (res_avg_price r) then res_avg_price r else intent_price leg)
      in leg\<lparr>intent_qty := res_filled_qty r,
             intent_price := dec_mul D base_price (if intent_is_buy leg then dec_new D 995 3 else dec_new D 1005 3),
             intent_is_buy := \<not> intent_is_buy leg\<rparr>)"

lemma counter_of_filled:
  "strict_order D \<Longrightarrow> leg_filled D r \<Longrightarrow> counter_intent D leg r = Some (closing_order D leg r)"
  by (simp add: counter_intent_def closing_order_def leg_filled_def strict_orderD Let_def)


section \<open>Two legs\<close>

definition rollback_orders ::
  "'d exec_decimal \<Rightarrow> ('d order_intent \<times> 'd order_result) list \<Rightarrow> 'd order_intent list" where
  "rollback_orders D legs =
     (let filled = filter (\<lambda>(leg, r). leg_filled D r) legs
      in if length filled < length legs then map (\<lambda>(leg, r). closing_order D leg r) filled else [])"

lemma two_legs_effect:
  assumes "strict_order D" and "two_legs D env p oa ob la lb g = (out, g')"
    and "ra = answer_result D ''leg-a'' (env_answer env 0)" and "rb = answer_result D ''leg-b'' (env_answer env 1)"
  shows "eng_orders g' = eng_orders g @
      map (Pair p) ([la, lb] @ (if env_cut env = Some 0 then [] else rollback_orders D [(la, ra), (lb, rb)]))"
    and "total_exposure (eng_risk g') = total_exposure (eng_risk g)" and "eng_daily g' = eng_daily g"
    and "out = (if env_cut env = Some 0 \<or> leg_filled D ra \<noteq> leg_filled D rb \<and> env_cut env = Some 1 then None
                else Some (ra, rb))"
proof -
  note defs = two_legs_def leg_result_exact [OF assms(1)] rollback_orders_def counter_of_filled [OF assms(1)] Let_def
  show "eng_orders g' = eng_orders g @
      map (Pair p) ([la, lb] @ (if env_cut env = Some 0 then [] else rollback_orders D [(la, ra), (lb, rb)]))"
    using assms(2-) by (auto simp: defs split: leg_answer.splits if_splits)
  show "total_exposure (eng_risk g') = total_exposure (eng_risk g)"
    using assms(2-) by (auto simp: defs split: leg_answer.splits if_splits)
  show "eng_daily g' = eng_daily g"
    using assms(2-) by (auto simp: defs split: leg_answer.splits if_splits)
  show "out = (if env_cut env = Some 0 \<or> leg_filled D ra \<noteq> leg_filled D rb \<and> env_cut env = Some 1 then None
                else Some (ra, rb))"
    using assms(2-) by (auto simp: defs split: if_splits)
qed


text \<open>The conditions under which a blast reaches the exchanges.\<close>

definition guards_pass :: "'d blast_env \<Rightarrow> 'd engine \<Rightarrow> bool" where
  "guards_pass env g \<longleftrightarrow> \<not> env_locked env \<and> \<not> eng_volatility_circuit g \<and>
     fst (check_daily_loss_limit (env_today env) (eng_daily g)) = Inr ()"

definition admitted ::
  "'d blast_env \<Rightarrow> u64 \<Rightarrow> u64 \<Rightarrow> u64 \<Rightarrow> (nat \<times> u16) list \<Rightarrow> 'd engine \<Rightarrow> bool" where
  "admitted env exp_bps size_fp capital_fp legs g \<longleftrightarrow> guards_pass env g \<and>
     fst (gate_legs env exp_bps size_fp capital_fp legs (eng_risk g)) = Inr () \<and> \<not> env_depeg env"

lemma blast_guards_cases:
  "if guards_pass env g
   then blast_guards env g = (Inr (), g\<lparr>eng_daily := snd (check_daily_loss_limit (env_today env) (eng_daily g))\<rparr>)
   else \<exists>e g'. blast_guards env g = (Inl e, g') \<and> eng_orders g' = eng_orders g \<and> eng_risk g' = eng_risk g \<and>
     e \<in> {BlastInFlight, VolatilityHalt} \<union> range (case_prod DailyLossHalt)"
  by (auto simp: guards_pass_def blast_guards_def split: prod.split sum.split)

definition notional_fp :: "'d exec_decimal \<Rightarrow> 'd order_intent \<Rightarrow> u64" where
  "notional_fp D leg = decimal_to_fp D (dec_mul D (intent_qty leg) (intent_price leg))"

lemma slippage_limit_cong:
  "eng_slippage_tolerance_fp g' = eng_slippage_tolerance_fp g \<Longrightarrow> apply_slippage_limit D g' i = apply_slippage_limit D g i"
  by (simp add: apply_slippage_limit_def)

text \<open>The stages of a two-leg blast in one equation.\<close>

lemma two_leg_blast_stages:
  assumes "size_fp = notional_fp D leg_a" and "legs = [(0, intent_exchange leg_a)]"
  shows "\<not> guards_pass env g \<Longrightarrow>
      \<exists>e g'. blast_guards env g = (Inl e, g') \<and> blast_arbitrage_legs D env leg_a leg_b b c g = (Inl e, g')"
    and "guards_pass env g \<Longrightarrow> g1 = g\<lparr>eng_daily := snd (check_daily_loss_limit (env_today env) (eng_daily g))\<rparr> \<Longrightarrow>
      gate_legs env b size_fp c legs (eng_risk g) = (out, m) \<Longrightarrow>
      blast_arbitrage_legs D env leg_a leg_b b c g =
        (case out of
           Inl e \<Rightarrow> (Inl e, g1\<lparr>eng_risk := m\<rparr>)
         | Inr _ \<Rightarrow>
             if env_depeg env then (Inl DepegHalt, release_reserved env size_fp 1 (g1\<lparr>eng_risk := m\<rparr>))
             else case two_legs D env (eng_paper_mode g) leg_a leg_b (apply_slippage_limit D g leg_a)
                         (apply_slippage_limit D g leg_b) (g1\<lparr>eng_risk := m\<rparr>) of
                    (None, g2) \<Rightarrow> (Inl BlastTimedOut, release_reserved env size_fp 1 (cancel_pending g2))
                  | (Some (ra, rb), g2) \<Rightarrow> (Inr (ra, rb), two_leg_pnl D leg_a leg_b (ra, rb) (untrack_filled D [ra, rb] g2)))"
proof -
  show "\<exists>e g'. blast_guards env g = (Inl e, g') \<and> blast_arbitrage_legs D env leg_a leg_b b c g = (Inl e, g')"
    if "\<not> guards_pass env g"
    using that blast_guards_cases [of env g] by (auto simp: blast_arbitrage_legs_def)
next
  assume a: "guards_pass env g" "g1 = g\<lparr>eng_daily := snd (check_daily_loss_limit (env_today env) (eng_daily g))\<rparr>"
    "gate_legs env b size_fp c legs (eng_risk g) = (out, m)"
  have bg: "blast_guards env g = (Inr (), g1)" using blast_guards_cases [of env g] a by simp
  have sl: "apply_slippage_limit D (g1\<lparr>eng_risk := m\<rparr>) = apply_slippage_limit D g" "eng_risk g1 = eng_risk g"
    "eng_paper_mode g1 = eng_paper_mode g"
    by (rule ext, rule slippage_limit_cong) (simp_all add: a(2))
  show "blast_arbitrage_legs D env leg_a leg_b b c g =
        (case out of
           Inl e \<Rightarrow> (Inl e, g1\<lparr>eng_risk := m\<rparr>)
         | Inr _ \<Rightarrow>
             if env_depeg env then (Inl DepegHalt, release_reserved env size_fp 1 (g1\<lparr>eng_risk := m\<rparr>))
             else case two_legs D env (eng_paper_mode g) leg_a leg_b (apply_slippage_limit D g leg_a)
                         (apply_slippage_limit D g leg_b) (g1\<lparr>eng_risk := m\<rparr>) of
                    (None, g2) \<Rightarrow> (Inl BlastTimedOut, release_reserved env size_fp 1 (cancel_pending g2))
                  | (Some (ra, rb), g2) \<Rightarrow> (Inr (ra, rb), two_leg_pnl D leg_a leg_b (ra, rb) (untrack_filled D [ra, rb] g2)))"
    using a(3) unfolding blast_arbitrage_legs_def bg prod.case sum.case assms notional_fp_def
    by (simp add: Let_def sl del: gate_legs.simps split: sum.split)
qed

lemma admitted_gate:
  assumes "guards_pass env g" "\<not> env_depeg env" "gate_legs env b s c legs (eng_risk g) = (out, m)"
  shows "admitted env b s c legs g \<longleftrightarrow> out = Inr ()"
  using assms by (simp add: admitted_def)

text \<open>
  C3: which orders a two-leg blast hands to a pipeline.  None at all unless every guard passes (no other
  blast in flight, no volatility halt, the daily loss limit not reached, all fourteen layers of the
  risk gate, no depeg).  Otherwise the two legs with their limit prices, and after them at most one
  counter-order: exactly when one leg filled and the other did not, for the filled quantity, on the same
  exchange and the opposite side.  All go to the pipeline of the current mode, and the results are those of the legs
  unless the total timeout expires.
\<close>

theorem two_leg_blast_orders:
  assumes "strict_order D"
    and "blast_arbitrage_legs D env leg_a leg_b exp_bps capital_fp g = (res, g')"
    and "ok \<longleftrightarrow> admitted env exp_bps (notional_fp D leg_a) capital_fp [(0, intent_exchange leg_a)] g"
    and "ra = answer_result D ''leg-a'' (env_answer env 0)" and "rb = answer_result D ''leg-b'' (env_answer env 1)"
    and "la = apply_slippage_limit D g leg_a" and "lb = apply_slippage_limit D g leg_b"
  shows "eng_orders g' = eng_orders g @ map (Pair (eng_paper_mode g))
      (if ok then [la, lb] @ (if env_cut env = Some 0 then [] else rollback_orders D [(la, ra), (lb, rb)]) else []) \<and>
    ((\<exists>rs. res = Inr rs) \<longleftrightarrow> ok \<and> env_cut env \<noteq> Some 0 \<and> \<not> (leg_filled D ra \<noteq> leg_filled D rb \<and> env_cut env = Some 1)) \<and>
    (\<forall>rs. res = Inr rs \<longrightarrow> rs = (ra, rb))"
proof -
  let ?legs = "[(0, intent_exchange leg_a)]" and ?s = "notional_fp D leg_a"
  note stages = two_leg_blast_stages [where env = env and g = g and D = D and leg_a = leg_a and leg_b = leg_b
      and b = exp_bps and c = capital_fp, OF refl refl]
  show ?thesis
  proof (cases "guards_pass env g")
    case False
    then show ?thesis using stages(1) blast_guards_cases [of env g] assms(2,3) by (auto simp: admitted_def)
  next
    case True
    obtain out m where gl: "gate_legs env exp_bps ?s capital_fp ?legs (eng_risk g) = (out, m)" by fastforce
    note blast = stages(2) [OF True refl gl]
    show ?thesis
    proof (cases "env_depeg env \<or> out \<noteq> Inr ()")
      case True
      then have "\<not> ok" using assms(3) gl by (auto simp: admitted_def)
      with True blast assms(2) show ?thesis by (auto split: sum.splits if_splits)
    next
      case False
      then have ok: ok using assms(3) admitted_gate [OF \<open>guards_pass env g\<close> _ gl] by simp
      let ?g = "g\<lparr>eng_daily := snd (check_daily_loss_limit (env_today env) (eng_daily g)), eng_risk := m\<rparr>"
      obtain o2 g2 where tl: "two_legs D env (eng_paper_mode g) leg_a leg_b la lb ?g = (o2, g2)" by fastforce
      note eff = two_legs_effect [OF assms(1) tl assms(4,5)]
      from blast False assms(2,6,7) tl have b:
        "(res, g') = (case o2 of None \<Rightarrow> (Inl BlastTimedOut, release_reserved env ?s 1 (cancel_pending g2))
           | Some (ra, rb) \<Rightarrow> (Inr (ra, rb), two_leg_pnl D leg_a leg_b (ra, rb) (untrack_filled D [ra, rb] g2)))"
        by (simp split: option.split prod.split)
      show ?thesis using b eff(1,4) ok by (cases o2) (auto split: if_splits)
    qed
  qed
qed


section \<open>Exposure after a blast\<close>

definition undisturbed_env :: "'d blast_env \<Rightarrow> bool" where
  "undisturbed_env env \<longleftrightarrow> (\<forall>i. (\<exists>n<100. env_reserve env i = spurious n) \<and> (\<exists>n<100. env_release env i = spurious n))"

lemma gate_accepts_exposure:
  assumes "risk_wf m" "c \<noteq> - 1" "undisturbed_env env"
    and "pre_trade_check clk (env_reserve env i) p s c e m = (Inr u, m')"
  shows "m' = m\<lparr>total_exposure := total_exposure m + s\<rparr>" "unat (total_exposure m + s) = unat (total_exposure m) + unat s"
proof -
  from assms(3) obtain n where "n < 100" "env_reserve env i = spurious n" by (auto simp: undisturbed_env_def)
  with gate_transition [OF assms(1,2), of n clk p s e "Inr u" m'] assms(4)
  show "m' = m\<lparr>total_exposure := total_exposure m + s\<rparr>" "unat (total_exposure m + s) = unat (total_exposure m) + unat s"
    by auto
qed

lemma gate_refuses_exposure:
  assumes "risk_wf m" "c \<noteq> - 1" "undisturbed_env env"
    and "pre_trade_check clk (env_reserve env i) p s c e m = (Inl r, m')"
  shows "m' = m \<and> layer_no r \<le> 7 \<or> m' = m\<lparr>total_exposure := total_exposure m + s\<rparr> \<and> 7 < layer_no r"
proof -
  from assms(3) obtain n where "n < 100" "env_reserve env i = spurious n" by (auto simp: undisturbed_env_def)
  with gate_transition [OF assms(1,2), of n clk p s e "Inl r" m'] assms(4) show ?thesis by auto
qed

lemma release_undoes:
  assumes "undisturbed_env env" "unat (x + s) = unat x + unat s" "total_exposure m = x + s"
  shows "total_exposure (release_exposure (env_release env i) s m) = x"
proof -
  from assms(1) obtain n where n: "n < 100" "env_release env i = spurious n" by (auto simp: undisturbed_env_def)
  have "saturating_sub (x + s) s = x" by (simp add: word_unat_eq_iff unat_saturating_sub assms(2))
  with n assms(3) show ?thesis by (simp add: release_exposure_def release_def take_spurious)
qed

text \<open>
  C4: the exposure left behind by a two-leg blast.  A blast that returns results keeps exactly the notional of its first
  leg reserved, whatever the legs did: also when both failed and when a fill was rolled
  back.  A blast that is refused or times out leaves the exposure as it was, except that a refusal
  by a layer after the reservation (8 to 14) keeps the notional reserved.
\<close>

theorem two_leg_blast_exposure:
  assumes "strict_order D" and "risk_wf (eng_risk g)" and "capital_fp \<noteq> - 1" and "undisturbed_env env"
    and "blast_arbitrage_legs D env leg_a leg_b exp_bps capital_fp g = (res, g')"
  shows "case res of
      Inr rs \<Rightarrow> total_exposure (eng_risk g') = total_exposure (eng_risk g) + notional_fp D leg_a
    | Inl e \<Rightarrow> total_exposure (eng_risk g') = total_exposure (eng_risk g) +
        (if \<exists>exch r. e = RiskRejection exch r \<and> 7 < layer_no r then notional_fp D leg_a else 0)"
proof -
  let ?s = "notional_fp D leg_a" and ?x = "total_exposure (eng_risk g)"
  note stages = two_leg_blast_stages [where env = env and g = g and D = D and leg_a = leg_a and leg_b = leg_b
      and b = exp_bps and c = capital_fp, OF refl refl]
  show ?thesis
  proof (cases "guards_pass env g")
    case False
    then show ?thesis using stages(1) blast_guards_cases [of env g] assms(5) by auto
  next
    case True
    let ?pc = "pre_trade_check (env_gate env 0) (env_reserve env 0) exp_bps ?s capital_fp (intent_exchange leg_a) (eng_risk g)"
    obtain out m where pc: "?pc = (out, m)" by fastforce
    show ?thesis
    proof (cases out)
      case (Inl r)
      have "blast_arbitrage_legs D env leg_a leg_b exp_bps capital_fp g = (Inl (RiskRejection (intent_exchange leg_a) r),
          g\<lparr>eng_daily := snd (check_daily_loss_limit (env_today env) (eng_daily g)), eng_risk := m\<rparr>)"
        using stages(2) [OF True refl, of "Inl (RiskRejection (intent_exchange leg_a) r)" m] pc Inl by simp
      with gate_refuses_exposure [OF assms(2-4), of "env_gate env 0" 0 exp_bps ?s "intent_exchange leg_a" r m] pc Inl assms(5)
      show ?thesis by auto
    next
      case (Inr u)
      note acc = gate_accepts_exposure [OF assms(2-4) pc [unfolded Inr]]
      let ?g = "g\<lparr>eng_daily := snd (check_daily_loss_limit (env_today env) (eng_daily g)), eng_risk := m\<rparr>"
      obtain o2 g2 where tl: "two_legs D env (eng_paper_mode g) leg_a leg_b (apply_slippage_limit D g leg_a)
          (apply_slippage_limit D g leg_b) ?g = (o2, g2)" by fastforce
      note eff = two_legs_effect(2) [OF assms(1) tl refl refl]
      have x2: "total_exposure (eng_risk g2) = ?x + ?s" using eff acc(1) by simp
      have rel: "total_exposure (eng_risk (release_reserved env ?s (Suc 0) h)) = ?x"
        if "total_exposure (eng_risk h) = ?x + ?s" for h :: "'a engine"
        using release_undoes [OF assms(4) acc(2) that, of 0] by (simp add: release_reserved_def)
      have "blast_arbitrage_legs D env leg_a leg_b exp_bps capital_fp g =
          (if env_depeg env then (Inl DepegHalt, release_reserved env ?s 1 ?g)
           else case o2 of None \<Rightarrow> (Inl BlastTimedOut, release_reserved env ?s 1 (cancel_pending g2))
             | Some (ra, rb) \<Rightarrow> (Inr (ra, rb), two_leg_pnl D leg_a leg_b (ra, rb) (untrack_filled D [ra, rb] g2)))"
        using stages(2) [OF True refl, of "Inr ()" m] pc Inr tl by (simp split: option.split prod.split)
      with assms(5) x2 acc(1) show ?thesis by (auto simp: rel split: if_splits option.splits)
    qed
  qed
qed


section \<open>Three legs\<close>

lemma leg_result_preserves [simp]:
  "eng_daily (snd (leg_result D p label i ans g)) = eng_daily g" "eng_risk (snd (leg_result D p label i ans g)) = eng_risk g"
  by (simp_all add: leg_result_def split: leg_answer.split)

lemma leg_resultD: "leg_result D p label i ans g = (r, g') \<Longrightarrow> eng_daily g' = eng_daily g \<and> eng_risk g' = eng_risk g"
  using leg_result_preserves [of D p label i ans g] by simp

lemma leg_results_preserves [simp]:
  "eng_daily (snd (leg_results D env p legs g)) = eng_daily g" "eng_risk (snd (leg_results D env p legs g)) = eng_risk g"
  by (induction D env p legs g rule: leg_results.induct) (auto simp: Let_def split: prod.splits dest: leg_resultD)

lemma leg_resultsD: "leg_results D env p legs g = (rs, g') \<Longrightarrow> eng_daily g' = eng_daily g \<and> eng_risk g' = eng_risk g"
  using leg_results_preserves [of D env p legs g] by simp

lemma fire_allD: "fire_all D p x ls g = (t, g') \<Longrightarrow> eng_daily g' = eng_daily g \<and> eng_risk g' = eng_risk g"
  using fire_all_frame [of D p x ls g] by simp

lemma leg_results_fst: "fst (leg_results D env p legs g) = map (\<lambda>(i, l). fst (leg_result D p (''leg-'' @ digits_of i) l (env_answer env i) g)) legs"
  by (induction D env p legs g rule: leg_results.induct)
    (auto simp: Let_def leg_result_def split: prod.splits leg_answer.splits)

lemma each_leg_frame:
  assumes "\<And>i l r g. P (f i l r g) = P g" shows "P (each_leg f ls rs g) = P g"
proof -
  have "P (foldl (\<lambda>g (i, l, r). f i l r g) g xs) = P g" for xs
    by (induction xs arbitrary: g) (auto simp: assms)
  then show ?thesis by (simp add: each_leg_def)
qed

lemma submits_frame [simp]:
  "eng_daily (foldl (\<lambda>g leg. submit p leg g) g legs) = eng_daily g" "eng_risk (foldl (\<lambda>g leg. submit p leg g) g legs) = eng_risk g"
  "eng_orders (foldl (\<lambda>g leg. submit p leg g) g legs) = eng_orders g @ map (Pair p) legs"
  by (induction legs arbitrary: g) simp_all

lemma each_frames [simp]:
  "eng_daily (each_leg (\<lambda>i l r. track_live_order D (c i) r l) ls rs g) = eng_daily g"
  "eng_daily (each_leg (\<lambda>i l r. record_leg_outcome (t i) (intent_exchange l) r) ls rs g) = eng_daily g"
  "eng_daily (each_leg (\<lambda>i l r. verify_leg_slippage D l r) ls rs g) = eng_daily g"
  "eng_risk (each_leg (\<lambda>i l r. track_live_order D (c i) r l) ls rs g) = eng_risk g"
  "eng_risk (each_leg (\<lambda>i l r. verify_leg_slippage D l r) ls rs g) = eng_risk g"
  "total_exposure (eng_risk (each_leg (\<lambda>i l r. record_leg_outcome (t i) (intent_exchange l) r) ls rs g)) = total_exposure (eng_risk g)"
  by (rule each_leg_frame [of eng_daily] each_leg_frame [of eng_risk] each_leg_frame [of "\<lambda>g. total_exposure (eng_risk g)"];
      simp)+

lemma three_legs_effect:
  assumes "three_legs D env p os ls g = (out, g')"
  shows "eng_daily g' = eng_daily g" and "total_exposure (eng_risk g') = total_exposure (eng_risk g)"
  using assms by (auto simp: three_legs_def Let_def split: prod.splits if_splits dest!: leg_resultsD fire_allD)


definition tri_size :: "'d exec_decimal \<Rightarrow> 'd order_intent list \<Rightarrow> u64" where
  "tri_size D ls = max (notional_fp D (ls ! 0)) (max (notional_fp D (ls ! 1)) (notional_fp D (ls ! 2)))"

lemma tri_blast_stages:
  assumes "ls = [l0, l1, l2]" and "s = tri_size D ls" and "lim = map (apply_slippage_limit D g) ls"
    and "legs = zip [0..<3] (map intent_exchange ls)"
  shows "\<not> guards_pass env g \<Longrightarrow>
      \<exists>e g'. blast_guards env g = (Inl e, g') \<and> blast_triangular_legs D env (l0, l1, l2) b c g = (Inl e, g')"
    and "guards_pass env g \<Longrightarrow> g1 = g\<lparr>eng_daily := snd (check_daily_loss_limit (env_today env) (eng_daily g))\<rparr> \<Longrightarrow>
      gate_legs env b s c legs (eng_risk g) = (out, m) \<Longrightarrow>
      blast_triangular_legs D env (l0, l1, l2) b c g =
        (case out of
           Inl e \<Rightarrow> (Inl e, g1\<lparr>eng_risk := m\<rparr>)
         | Inr _ \<Rightarrow>
             if env_depeg env then (Inl DepegHalt, release_reserved env s 3 (g1\<lparr>eng_risk := m\<rparr>))
             else case three_legs D env (eng_paper_mode g) ls lim (g1\<lparr>eng_risk := m\<rparr>) of
                    (None, g2) \<Rightarrow> (Inl BlastTimedOut, release_reserved env s 3 (cancel_pending g2))
                  | (Some rs, g2) \<Rightarrow> (Inr rs, tri_pnl D b lim rs (untrack_filled D rs g2)))"
proof -
  show "\<exists>e g'. blast_guards env g = (Inl e, g') \<and> blast_triangular_legs D env (l0, l1, l2) b c g = (Inl e, g')"
    if "\<not> guards_pass env g"
    using that blast_guards_cases [of env g] by (auto simp: blast_triangular_legs_def)
next
  assume a: "guards_pass env g" "g1 = g\<lparr>eng_daily := snd (check_daily_loss_limit (env_today env) (eng_daily g))\<rparr>"
    "gate_legs env b s c legs (eng_risk g) = (out, m)"
  have bg: "blast_guards env g = (Inr (), g1)" using blast_guards_cases [of env g] a by simp
  have sl: "apply_slippage_limit D (g1\<lparr>eng_risk := m\<rparr>) = apply_slippage_limit D g" "eng_risk g1 = eng_risk g"
    "eng_paper_mode g1 = eng_paper_mode g"
    by (rule ext, rule slippage_limit_cong) (simp_all add: a(2))
  have sz: "s = max (decimal_to_fp D (dec_mul D (intent_qty l0) (intent_price l0)))
      (max (decimal_to_fp D (dec_mul D (intent_qty l1) (intent_price l1)))
        (decimal_to_fp D (dec_mul D (intent_qty l2) (intent_price l2))))"
    by (simp add: assms(1,2) tri_size_def notional_fp_def)
  show "blast_triangular_legs D env (l0, l1, l2) b c g =
        (case out of
           Inl e \<Rightarrow> (Inl e, g1\<lparr>eng_risk := m\<rparr>)
         | Inr _ \<Rightarrow>
             if env_depeg env then (Inl DepegHalt, release_reserved env s 3 (g1\<lparr>eng_risk := m\<rparr>))
             else case three_legs D env (eng_paper_mode g) ls lim (g1\<lparr>eng_risk := m\<rparr>) of
                    (None, g2) \<Rightarrow> (Inl BlastTimedOut, release_reserved env s 3 (cancel_pending g2))
                  | (Some rs, g2) \<Rightarrow> (Inr rs, tri_pnl D b lim rs (untrack_filled D rs g2)))"
    unfolding blast_triangular_legs_def bg prod.case sum.case Let_def sz [symmetric] assms(1) [symmetric] assms(4) [symmetric]
    using a(3) assms(3) by (simp add: sl del: gate_legs.simps split: sum.split prod.split option.split)
qed

text \<open>The daily figures after a triangular blast come from the signal's estimate alone.\<close>

lemma tri_pnl_daily:
  assumes "\<And>x. dec_lt D (dec_zero D) x \<Longrightarrow> 0 \<le> sint (to_cents D x)"
  shows "daily_loss_cents (eng_daily (tri_pnl D b ls rs g)) = daily_loss_cents (eng_daily g)"
  using assms by (simp add: tri_pnl_def Let_def record_daily_pnl_def)


lemma failed_not_filled: "strict_order D \<Longrightarrow> \<not> leg_filled D (failed_result D msg)"
  by (simp add: leg_filled_def failed_result_def)

lemma three_legs_all_timeout:
  assumes "\<And>i. env_answer env i = LegTimedOut" and "env_cut env = None" and "length ls = 3" and "length os = 3"
  shows "\<exists>rs. fst (three_legs D env p os ls g) = Some rs \<and> (\<forall>r\<in>set rs. \<not> leg_filled D r)"
proof -
  have rs: "\<forall>r\<in>set (fst (leg_results D env p xs h)). \<not> leg_filled D r" for xs h
    by (auto simp: leg_results_fst leg_result_def assms(1) leg_filled_def failed_result_def)
  let ?g = "foldl (\<lambda>g leg. submit p leg g) g ls"
  obtain us h where r: "leg_results D env p (zip [0..<length os] os) ?g = (us, h)" by fastforce
  have nf: "\<forall>u\<in>set us. \<not> leg_filled D u" using rs [of "zip [0..<length os] os" ?g] r by simp
  then have "filter (leg_filled D) us = []" by simp
  then show ?thesis using r nf assms(2) by (simp add: three_legs_def Let_def)
qed

lemma tri_estimate_nothing_filled:
  assumes "\<forall>r\<in>set rs. \<not> leg_filled D r"
  shows "tri_profit_estimate D b ls rs g = tri_profit_estimate D b ls [] g"
proof -
  have "foldl (\<lambda>fee (leg, r). if leg_filled D r then f fee leg r else fee) z (zip ls rs) = z" for f z
    using assms by (induction ls rs rule: list_induct2') auto
  from this [of "\<lambda>fee leg r. dec_add D fee (bps_of D (dec_mul D (res_filled_qty r) (res_avg_price r)) (leg_fee_bps g (intent_exchange leg)))"]
  show ?thesis by (simp add: tri_profit_estimate_def Let_def)
qed

text \<open>
  the daily figures do not see what a triangular blast did.  No triangular blast ever adds to the day's
  losses.  And when every leg times out, so that nothing was traded, an admitted blast whose
  signal promises a profit still books the promised profit of its reference leg as the day's profit.
\<close>

theorem triangular_results_invisible:
  assumes "\<And>x. dec_lt D (dec_zero D) x \<Longrightarrow> 0 \<le> sint (to_cents D x)"
    and "blast_triangular_legs D env (l0, l1, l2) exp_bps capital_fp g = (res, g')"
    and "lim = map (apply_slippage_limit D g) [l0, l1, l2]"
    and "promised = tri_profit_estimate D exp_bps lim [] g"
  shows "daily_loss_cents (eng_daily g') \<in> {daily_loss_cents (eng_daily g), 0} \<and>
    (admitted env exp_bps (tri_size D [l0, l1, l2]) capital_fp (zip [0..<3] (map intent_exchange [l0, l1, l2])) g \<longrightarrow>
     env_answer env = (\<lambda>_. LegTimedOut) \<longrightarrow> env_cut env = None \<longrightarrow> dec_lt D (dec_zero D) promised \<longrightarrow>
     daily_profit_cents (eng_daily g') =
       daily_profit_cents (snd (check_daily_loss_limit (env_today env) (eng_daily g))) + to_cents D promised)"
proof -
  let ?ls = "[l0, l1, l2]" and ?d = "snd (check_daily_loss_limit (env_today env) (eng_daily g))"
  let ?legs = "zip [0..<3] (map intent_exchange ?ls)"
  note stages = tri_blast_stages [OF refl refl refl refl, where env = env and g = g and D = D
      and ?l0.0 = l0 and ?l1.0 = l1 and ?l2.0 = l2 and b = exp_bps and c = capital_fp]
  have d: "daily_loss_cents ?d \<in> {daily_loss_cents (eng_daily g), 0}"
    by (auto simp: check_daily_loss_limit_def check_daily_reset_def Let_def)
  show ?thesis
  proof (cases "guards_pass env g")
    case False
    have "daily_loss_cents (eng_daily (snd (blast_guards env g))) \<in> {daily_loss_cents (eng_daily g), 0}"
      using d by (auto simp: blast_guards_def split: prod.split sum.split)
    with False stages(1) assms(2) show ?thesis by (auto simp: admitted_def)
  next
    case True
    obtain out m where gl: "gate_legs env exp_bps (tri_size D ?ls) capital_fp ?legs (eng_risk g) = (out, m)" by fastforce
    let ?g = "g\<lparr>eng_daily := ?d, eng_risk := m\<rparr>"
    obtain o3 g2 where tl: "three_legs D env (eng_paper_mode g) ?ls lim ?g = (o3, g2)" by fastforce
    have e2: "eng_daily g2 = ?d" using three_legs_effect(1) [OF tl] by simp
    from stages(2) [OF True refl gl] assms(2,3) tl have b:
      "(res, g') = (case out of Inl e \<Rightarrow> (Inl e, ?g)
         | Inr _ \<Rightarrow> if env_depeg env then (Inl DepegHalt, release_reserved env (tri_size D ?ls) 3 ?g)
             else case o3 of None \<Rightarrow> (Inl BlastTimedOut, release_reserved env (tri_size D ?ls) 3 (cancel_pending g2))
               | Some rs \<Rightarrow> (Inr rs, tri_pnl D exp_bps lim rs (untrack_filled D rs g2)))"
      by (simp del: gate_legs.simps split: sum.split option.split)
    have loss: "daily_loss_cents (eng_daily g') \<in> {daily_loss_cents (eng_daily g), 0}"
      using b d e2 tri_pnl_daily [OF assms(1)] by (auto split: sum.splits if_splits option.splits)
    have gain: "daily_profit_cents (eng_daily g') = daily_profit_cents ?d + to_cents D promised"
      if ad: "admitted env exp_bps (tri_size D ?ls) capital_fp ?legs g" "env_answer env = (\<lambda>_. LegTimedOut)"
        "env_cut env = None" "dec_lt D (dec_zero D) promised"
    proof -
      from ad gl have o: "out = Inr ()" "\<not> env_depeg env" by (simp_all add: admitted_def del: gate_legs.simps)
      from three_legs_all_timeout [of env lim ?ls D "eng_paper_mode g" ?g] ad(2,3) assms(3) tl
      obtain rs where rs: "o3 = Some rs" "\<forall>r\<in>set rs. \<not> leg_filled D r" by auto
      have est: "tri_profit_estimate D exp_bps lim rs h = promised" for h
        unfolding tri_estimate_nothing_filled [OF rs(2)] assms(4) by (simp add: tri_profit_estimate_def)
      have "g' = tri_pnl D exp_bps lim rs (untrack_filled D rs g2)" using b o rs by simp
      moreover have "0 \<le> sint (to_cents D promised)" using assms(1) ad(4) by blast
      ultimately show ?thesis using ad(4) e2 sint_range(2) [of "to_cents D promised"]
        by (simp add: tri_pnl_def Let_def est record_daily_pnl_def)
    qed
    show ?thesis using loss gain by blast
  qed
qed


text \<open>
  The exposure a sequence of gate checks reserves: one size per leg accepted, and one more when the
  refusal comes after the reservation.
\<close>

lemma gate_legs_exposure:
  assumes "risk_wf m" "c \<noteq> - 1" "undisturbed_env env" "gate_legs env b s c legs m = (out, m')"
  shows "(out = Inr () \<longrightarrow> total_exposure m' = total_exposure m + of_nat (length legs) * s \<and>
       unat (total_exposure m') = unat (total_exposure m) + length legs * unat s) \<and>
    (\<forall>e. out = Inl e \<longrightarrow> (\<exists>exch r. e = RiskRejection exch r) \<and>
       (\<exists>j\<le>length legs. total_exposure m' = total_exposure m + of_nat j * s))"
  using assms(1,4)
proof (induction legs arbitrary: m)
  case (Cons leg legs)
  obtain i exch where leg: "leg = (i, exch)" by fastforce
  obtain o1 m1 where p: "pre_trade_check (env_gate env i) (env_reserve env i) b s c exch m = (o1, m1)" by fastforce
  show ?case
  proof (cases o1)
    case (Inl r)
    with p leg Cons.prems(2) have out: "out = Inl (RiskRejection exch r)" "m' = m1" by simp_all
    from gate_refuses_exposure [OF Cons.prems(1) assms(2,3) p [unfolded Inl]] have
      "total_exposure m1 = total_exposure m + of_nat 0 * s \<or> total_exposure m1 = total_exposure m + of_nat 1 * s" by auto
    then have "\<exists>j\<le>length (leg # legs). total_exposure m1 = total_exposure m + of_nat j * s"
      by (elim disjE) (rule exI [of _ 0], simp, rule exI [of _ 1], simp)
    with out show ?thesis by blast
  next
    case (Inr u)
    note acc = gate_accepts_exposure [OF Cons.prems(1) assms(2,3) p [unfolded Inr]]
    have wf: "risk_wf m1" using Cons.prems(1) by (simp add: acc(1) risk_wf_def)
    have gl: "gate_legs env b s c legs m1 = (out, m')" using Cons.prems(2) p Inr leg by simp
    have x1: "total_exposure m1 = total_exposure m + s" by (simp add: acc(1))
    note IH = Cons.IH [OF wf gl]
    have "\<exists>j\<le>length (leg # legs). total_exposure m' = total_exposure m + of_nat j * s" if "out = Inl e" for e
    proof -
      from IH that obtain j where "j \<le> length legs" "total_exposure m' = total_exposure m1 + of_nat j * s" by blast
      then show ?thesis by (intro exI [of _ "Suc j"]) (simp add: x1 algebra_simps)
    qed
    moreover have "total_exposure m' = total_exposure m + of_nat (length (leg # legs)) * s \<and>
        unat (total_exposure m') = unat (total_exposure m) + length (leg # legs) * unat s" if "out = Inr ()"
    proof -
      from IH that have e: "total_exposure m' = total_exposure m + s + of_nat (length legs) * s"
        and u: "unat (total_exposure m') = unat (total_exposure m + s) + length legs * unat s" by (auto simp: x1)
      show ?thesis unfolding u acc(2) by (simp add: e algebra_simps)
    qed
    ultimately show ?thesis using IH by blast
  qed
qed auto

lemma three_releases:
  assumes "undisturbed_env env" "total_exposure (eng_risk h) = x + of_nat 3 * s" "unat (x + of_nat 3 * s) = unat x + 3 * unat s"
  shows "total_exposure (eng_risk (release_reserved env s 3 h)) = x"
proof -
  have step: "total_exposure (release_exposure (env_release env i) s m) = saturating_sub (total_exposure m) s" for i and m :: "'a risk_manager"
  proof -
    from assms(1) obtain n where "n < 100" "env_release env i = spurious n" by (auto simp: undisturbed_env_def)
    then show ?thesis by (simp add: release_exposure_def release_def take_spurious)
  qed
  have "[0..<3] = [0, 1, 2::nat]" by (simp add: upt_rec)
  then show ?thesis
    by (simp add: release_reserved_def step word_unat_eq_iff unat_saturating_sub assms(2) assms(3) [simplified])
qed

text \<open>
  Which leg the gate stops at, told by the layers of the gate: the legs before it violate none, each checked against the exposure with the legs before it reserved, and this one violates
  \<open>r\<close> first.
\<close>

definition stopped_at :: "'d blast_env \<Rightarrow> u64 \<Rightarrow> u64 \<Rightarrow> u64 \<Rightarrow> 'd risk_manager \<Rightarrow> (nat \<times> u16) list \<Rightarrow> nat \<Rightarrow> trade_rejection \<Rightarrow> bool" where
  "stopped_at env b s c m legs k r \<longleftrightarrow>
     (let v = (\<lambda>i. violated (env_gate env (fst (legs ! i))) b s c (snd (legs ! i)) (m\<lparr>total_exposure := total_exposure m + of_nat i * s\<rparr>))
      in k < length legs \<and> (\<forall>i<k. \<forall>r'. \<not> v i r') \<and> v k r \<and> (\<forall>r'. v k r' \<longrightarrow> r \<le> r'))"

lemma gate_legs_stop:
  assumes "risk_wf m" "c \<noteq> - 1" "undisturbed_env env" "gate_legs env b s c legs m = (Inl e, m')"
  shows "\<exists>k r. e = RiskRejection (snd (legs ! k)) r \<and> stopped_at env b s c m legs k r \<and>
    total_exposure m' = total_exposure m + of_nat (if layer_no r \<le> 7 then k else Suc k) * s"
  using assms(1,4)
proof (induction legs arbitrary: m)
  case (Cons leg legs)
  obtain i exch where leg: "leg = (i, exch)" by fastforce
  obtain o1 m1 where p: "pre_trade_check (env_gate env i) (env_reserve env i) b s c exch m = (o1, m1)" by fastforce
  obtain n where n: "n < 100" "env_reserve env i = spurious n" using assms(3) by (auto simp: undisturbed_env_def)
  note layers = gate_layers_exact [OF Cons.prems(1) assms(2) n(1), of "env_gate env i" b s exch, folded n(2), unfolded p fst_conv]
  have same: "m\<lparr>total_exposure := total_exposure m + of_nat 0 * s\<rparr> = m" by simp
  show ?case
  proof (cases o1)
    case (Inl r)
    have e: "e = RiskRejection exch r" "m' = m1" using p leg Cons.prems(2) Inl by simp_all
    have "stopped_at env b s c m (leg # legs) 0 r" using layers(1) [of r] Inl by (simp add: stopped_at_def leg del: violated.simps)
    moreover have "total_exposure m' = total_exposure m + of_nat (if layer_no r \<le> 7 then 0 else Suc 0) * s"
      using gate_refuses_exposure [OF Cons.prems(1) assms(2,3) p [unfolded Inl]] e(2) by auto
    ultimately show ?thesis using e(1) leg by (intro exI [of _ 0] exI [of _ r]) simp
  next
    case (Inr u)
    note acc = gate_accepts_exposure [OF Cons.prems(1) assms(2,3) p [unfolded Inr]]
    have wf: "risk_wf m1" using Cons.prems(1) by (simp add: acc(1) risk_wf_def)
    have gl: "gate_legs env b s c legs m1 = (Inl e, m')" using Cons.prems(2) p Inr leg by simp
    from Cons.IH [OF wf gl] obtain k r where k: "e = RiskRejection (snd (legs ! k)) r" "stopped_at env b s c m1 legs k r"
      "total_exposure m' = total_exposure m1 + of_nat (if layer_no r \<le> 7 then k else Suc k) * s" by blast
    have none: "\<not> violated (env_gate env i) b s c exch m r'" for r' using layers(2) Inr by simp
    have shift: "m1\<lparr>total_exposure := total_exposure m1 + of_nat j * s\<rparr> = m\<lparr>total_exposure := total_exposure m + of_nat (Suc j) * s\<rparr>" for j
      by (simp add: acc(1) algebra_simps)
    have "stopped_at env b s c m (leg # legs) (Suc k) r"
      using k(2) none by (auto simp: stopped_at_def shift leg less_Suc_eq_0_disj simp del: violated.simps)
    moreover have "total_exposure m' = total_exposure m + of_nat (if layer_no r \<le> 7 then Suc k else Suc (Suc k)) * s"
      using k(3) by (simp add: acc(1) algebra_simps)
    ultimately show ?thesis using k(1) by (intro exI [of _ "Suc k"] exI [of _ r]) simp
  qed
qed simp

text \<open>
  C5: the exposure left behind by a triangular blast.  A blast that returns results keeps three times the largest
  notional of its legs reserved, whatever the legs did.  A blast stopped by a depeg or by the total timeout
  leaves the exposure as it was, and so does one refused before the gate.  When the gate refuses a leg, the legs before it
  violated no layer of the gate, and their reservations stay: the exposure is raised by the largest notional once for each of them, and
  once more for the refused leg when the layer that refused it comes after the seventh.  Nothing gives them back.
\<close>

theorem triangular_blast_exposure:
  assumes "risk_wf (eng_risk g)" and "capital_fp \<noteq> - 1" and "undisturbed_env env"
    and "blast_triangular_legs D env (l0, l1, l2) exp_bps capital_fp g = (res, g')"
    and "s = tri_size D [l0, l1, l2]" and "x = total_exposure (eng_risk g)"
  shows "case res of
      Inr rs \<Rightarrow> total_exposure (eng_risk g') = x + 3 * s
    | Inl (RiskRejection exch r) \<Rightarrow>
        \<exists>k<3. exch = intent_exchange ([l0, l1, l2] ! k) \<and>
          stopped_at env exp_bps s capital_fp (eng_risk g) (zip [0..<3] (map intent_exchange [l0, l1, l2])) k r \<and>
          total_exposure (eng_risk g') = x + of_nat (if layer_no r \<le> 7 then k else Suc k) * s
    | Inl e \<Rightarrow> total_exposure (eng_risk g') = x"
proof -
  let ?ls = "[l0, l1, l2]" and ?legs = "zip [0..<3] (map intent_exchange [l0, l1, l2])"
  have len: "length ?legs = 3" by simp
  have nth: "snd (?legs ! k) = intent_exchange (?ls ! k)" if "k < 3" for k
    using that by (auto simp: numeral_3_eq_3 less_Suc_eq)
  note stages = tri_blast_stages [OF refl refl refl refl, where env = env and g = g and D = D
      and ?l0.0 = l0 and ?l1.0 = l1 and ?l2.0 = l2 and b = exp_bps and c = capital_fp, folded assms(5)]
  show ?thesis
  proof (cases "guards_pass env g")
    case False
    then show ?thesis using stages(1) blast_guards_cases [of env g] assms(4,6) by auto
  next
    case True
    obtain out m where gl: "gate_legs env exp_bps s capital_fp ?legs (eng_risk g) = (out, m)" by fastforce
    let ?d = "snd (check_daily_loss_limit (env_today env) (eng_daily g))"
    let ?g = "g\<lparr>eng_daily := ?d, eng_risk := m\<rparr>" and ?lim = "map (apply_slippage_limit D g) ?ls"
    obtain o3 g2 where tl: "three_legs D env (eng_paper_mode g) ?ls ?lim ?g = (o3, g2)" by fastforce
    note ge = gate_legs_exposure [OF assms(1-3) gl, unfolded len]
    from stages(2) [OF True refl gl] assms(4) tl have b:
      "(res, g') = (case out of Inl e \<Rightarrow> (Inl e, ?g)
         | Inr _ \<Rightarrow> if env_depeg env then (Inl DepegHalt, release_reserved env s 3 ?g)
             else case o3 of None \<Rightarrow> (Inl BlastTimedOut, release_reserved env s 3 (cancel_pending g2))
               | Some rs \<Rightarrow> (Inr rs, tri_pnl D exp_bps ?lim rs (untrack_filled D rs g2)))"
      by (simp del: gate_legs.simps split: sum.split option.split)
    show ?thesis
    proof (cases out)
      case (Inl e)
      from gate_legs_stop [OF assms(1-3) gl [unfolded Inl]] obtain k r where k: "e = RiskRejection (snd (?legs ! k)) r"
        "stopped_at env exp_bps s capital_fp (eng_risk g) ?legs k r" "total_exposure m = x + of_nat (if layer_no r \<le> 7 then k else Suc k) * s"
        using assms(6) by blast
      then have "k < 3" by (simp add: stopped_at_def Let_def)
      with k b Inl nth show ?thesis by auto
    next
      case (Inr u)
      then have xm: "total_exposure m = x + of_nat 3 * s" "unat (x + of_nat 3 * s) = unat x + 3 * unat s"
        using ge assms(6) by auto
      have x2: "total_exposure (eng_risk g2) = x + of_nat 3 * s" using three_legs_effect(2) [OF tl] xm by simp
      have rel: "total_exposure (eng_risk (release_reserved env s 3 h)) = x"
        if "total_exposure (eng_risk h) = x + of_nat 3 * s" for h :: "'a engine"
        using three_releases [OF assms(3) that xm(2)] .
      show ?thesis using b Inr xm(1) x2 by (auto simp: rel split: if_splits option.splits)
    qed
  qed
qed

section \<open>Slippage and pipelines\<close>

text \<open>
  A slippage whose basis points do not fit in 64 bits counts as none: the guard accepts it.
\<close>

lemma unrepresentable_slippage_accepted:
  assumes "dec_to_u64 D (dec_ceil D (dec_div D (dec_mul D
      (if buy then dec_saturating_sub D actual intended else dec_saturating_sub D intended actual)
      (dec_from_int D 10000)) intended)) = None"
  shows "check_slippage D intended actual buy max_bps = Inr 0"
  using assms by (simp add: check_slippage_def Let_def)

text \<open>A paper order fills as a whole or changes nothing, and a buy fills only within the balance.\<close>

lemma paper_all_or_nothing:
  assumes "paper_execute_order D nanos intent p = (r, p')"
  shows "if res_success r
     then res_filled_qty r = intent_qty intent \<and> paper_total_trades p' = paper_total_trades p + 1 \<and>
       (intent_is_buy intent \<longrightarrow> \<not> dec_lt D (paper_balance p) (dec_mul D (res_filled_qty r) (res_avg_price r))) \<and>
       paper_balance p' = (if intent_is_buy intent then dec_sub else dec_add) D (paper_balance p)
         (dec_mul D (res_filled_qty r) (res_avg_price r))
     else p' = p \<and> res_filled_qty r = dec_zero D"
  using assms by (auto simp: paper_execute_order_def failed_result_def Let_def split: if_splits)

text \<open>An exchange in cooldown is not called, and a rate-limited answer starts a cooldown.\<close>

lemma real_pipeline_cooldown:
  assumes "execute_order_inner (t_check, t_trip) client intent (Some b) = (called, out, b')"
  shows "fst (cooldown_check (intent_exchange intent) t_check b) \<noteq> Inr () \<Longrightarrow> \<not> called \<and> b' = Some (snd (cooldown_check (intent_exchange intent) t_check b))"
    and "out = Inl (RateLimitedAnswer msg) \<Longrightarrow>
      b' = Some (cooldown_trip (intent_exchange intent) t_trip (snd (cooldown_check (intent_exchange intent) t_check b)))"
  using assms by (auto simp: execute_order_inner_def limiter_check_def Let_def map_prod_def split: prod.splits sum.splits option.splits if_splits)

section \<open>A concrete blast\<close>

text \<open>Whole numbers as decimals, and a blast whose first leg fills while the second times out.\<close>

definition sample_leg :: "u16 \<Rightarrow> bool \<Rightarrow> int order_intent" where
  "sample_leg exch buy = \<lparr>intent_exchange = exch, intent_token = 7, intent_qty = 5, intent_price = 1,
     intent_is_buy = buy, intent_symbol = ''SOLUSDT''\<rparr>"

definition sample_fill :: "int order_result" where
  "sample_fill = \<lparr>res_success = True, res_order_id = Some ''A1'', res_filled_qty = 5, res_avg_price = 1,
     res_error = None, res_slippage_bps = None\<rparr>"

definition sample_env :: "(nat \<Rightarrow> int leg_answer) \<Rightarrow> int blast_env" where
  "sample_env answer = \<lparr>env_locked = False, env_today = 5, env_gate = (\<lambda>_. sample_clock 2000), env_reserve = (\<lambda>_. spurious 0),
     env_release = (\<lambda>_. spurious 0), env_depeg = False, env_answer = answer, env_track = (\<lambda>_. (0, 0, 0)),
     env_outcome = (\<lambda>_. 2000), env_cut = None\<rparr>"

definition sample_engine :: "int engine" where
  "sample_engine = (engine_new sample_manager False)\<lparr>eng_slippage_tolerance_fp := 0\<rparr>"

lemma int_exec_order: "strict_order int_exec"
  by (simp add: strict_order_def int_exec_def)

lemma sample_env_undisturbed: "undisturbed_env (sample_env answer)"
  by (auto simp: undisturbed_env_def sample_env_def intro: exI [of _ 0])

lemma sample_notional: "notional_fp int_exec (sample_leg e b) = 5000000"
  by (simp add: notional_fp_def decimal_to_fp_def int_exec_def sample_leg_def)

lemma sample_gate: "fst (pre_trade_check (sample_clock 2000) (spurious 0) 10 5000000 100000000 1 sample_manager) = Inr ()"
  using sample_not_violated by (simp add: gate_result [OF sample_manager_wf] find_None_iff
      del: violated.simps split: option.splits)

lemma sample_guards: "guards_pass (sample_env answer) sample_engine"
  by (simp add: guards_pass_def sample_env_def sample_engine_def engine_new_def check_daily_loss_limit_def
      check_daily_reset_def)

lemma sample_admitted: "admitted (sample_env answer) 10 5000000 100000000 [(0, 1)] sample_engine"
proof -
  have "eng_risk sample_engine = sample_manager" by (simp add: sample_engine_def engine_new_def)
  then show ?thesis using sample_gate sample_guards [of answer]
    by (auto simp: admitted_def sample_env_def split: prod.split sum.split)
qed

theorem two_leg_blast_orders_witness:
  "\<exists>res g'. blast_arbitrage_legs int_exec (sample_env (\<lambda>i. if i = 0 then Answered sample_fill else LegTimedOut))
       (sample_leg 1 True) (sample_leg 2 False) 10 100000000 sample_engine = (res, g') \<and>
     eng_orders g' = [(False, sample_leg 1 True), (False, sample_leg 2 False),
       (False, (sample_leg 1 True)\<lparr>intent_price := 0, intent_is_buy := False\<rparr>)] \<and> (\<exists>rs. res = Inr rs)"
proof -
  let ?env = "sample_env (\<lambda>i. if i = 0 then Answered sample_fill else LegTimedOut)"
  obtain res g' where b: "blast_arbitrage_legs int_exec ?env (sample_leg 1 True) (sample_leg 2 False) 10 100000000 sample_engine = (res, g')"
    by fastforce
  have ad: "True \<longleftrightarrow> admitted ?env 10 (notional_fp int_exec (sample_leg 1 True)) 100000000
      [(0, intent_exchange (sample_leg 1 True))] sample_engine"
    using sample_admitted unfolding sample_notional by (simp add: sample_leg_def)
  show ?thesis
    using b two_leg_blast_orders [OF int_exec_order b ad refl refl refl refl]
    by (simp add: sample_engine_def engine_new_def apply_slippage_limit_def answer_result_def sample_env_def
        rollback_orders_def leg_filled_def closing_order_def sample_fill_def sample_leg_def failed_result_def int_exec_def)
qed

theorem two_leg_blast_exposure_witness:
  "\<exists>res g'. blast_arbitrage_legs int_exec (sample_env (\<lambda>_. LegTimedOut)) (sample_leg 1 True) (sample_leg 2 False) 10 100000000
       sample_engine = (res, g') \<and> total_exposure (eng_risk g') \<in> {0, 5000000}"
proof -
  obtain res g' where b: "blast_arbitrage_legs int_exec (sample_env (\<lambda>_. LegTimedOut)) (sample_leg 1 True) (sample_leg 2 False) 10
      100000000 sample_engine = (res, g')" by fastforce
  have x: "eng_risk sample_engine = sample_manager" "total_exposure sample_manager = 0"
    by (simp_all add: sample_engine_def engine_new_def sample_manager_def risk_manager_new_def)
  show ?thesis
    using b two_leg_blast_exposure [OF int_exec_order _ _ sample_env_undisturbed b] sample_manager_wf
    by (auto simp: x sample_notional split: sum.splits if_splits)
qed


lemma int_exec_cents: "dec_lt int_exec (dec_zero int_exec) x \<Longrightarrow> 0 \<le> sint (to_cents int_exec x)"
proof -
  assume "dec_lt int_exec (dec_zero int_exec) x"
  then have x: "0 < x" by (simp add: int_exec_def)
  show ?thesis
  proof (cases "x * 100 < 2 ^ 63")
    case True
    then have "sint (word_of_int (x * 100) :: i64) = x * 100" using x by (intro sint_word_of_int_id) simp_all
    with True x show ?thesis by (simp add: to_cents_def int_exec_def)
  next
    case False
    then show ?thesis by (simp add: to_cents_def int_exec_def)
  qed
qed

theorem triangular_results_invisible_witness:
  "\<exists>res g'. blast_triangular_legs int_exec (sample_env (\<lambda>_. LegTimedOut)) (sample_leg 1 True, sample_leg 1 True, sample_leg 1 False)
       10 100000000 sample_engine = (res, g') \<and> daily_loss_cents (eng_daily g') = 0"
proof -
  obtain res g' where b: "blast_triangular_legs int_exec (sample_env (\<lambda>_. LegTimedOut))
      (sample_leg 1 True, sample_leg 1 True, sample_leg 1 False) 10 100000000 sample_engine = (res, g')" by fastforce
  have "daily_loss_cents (eng_daily sample_engine) = 0" by (simp add: sample_engine_def engine_new_def)
  with b triangular_results_invisible [OF int_exec_cents b refl refl] show ?thesis by auto
qed

lemma sample_never_violated:
  assumes "i < 3"
  shows "\<not> violated (sample_clock 2000) 10 5000000 100000000 1 (sample_manager\<lparr>total_exposure := of_nat i * 5000000\<rparr>) r"
proof -
  from assms have "i = 0 \<or> i = 1 \<or> i = 2" by auto
  then show ?thesis by (cases r) (auto simp: sample_defs Let_def nth_replicate)
qed

theorem triangular_blast_exposure_witness:
  "\<exists>res g'. blast_triangular_legs int_exec (sample_env (\<lambda>_. LegTimedOut)) (sample_leg 1 True, sample_leg 1 True, sample_leg 1 False)
       10 100000000 sample_engine = (res, g') \<and>
     (case res of Inr rs \<Rightarrow> total_exposure (eng_risk g') = 15000000
      | Inl e \<Rightarrow> (\<forall>exch r. e \<noteq> RiskRejection exch r) \<and> total_exposure (eng_risk g') = 0)"
proof -
  let ?ls = "[sample_leg 1 True, sample_leg 1 True, sample_leg 1 False]"
  obtain res g' where b: "blast_triangular_legs int_exec (sample_env (\<lambda>_. LegTimedOut))
      (sample_leg 1 True, sample_leg 1 True, sample_leg 1 False) 10 100000000 sample_engine = (res, g')" by fastforce
  have x: "eng_risk sample_engine = sample_manager" "total_exposure sample_manager = 0"
    by (simp_all add: sample_engine_def engine_new_def sample_manager_def risk_manager_new_def)
  have s: "tri_size int_exec ?ls = 5000000" by (simp add: tri_size_def sample_notional)
  have wf: "risk_wf (eng_risk sample_engine)" using sample_manager_wf by (simp add: x)
  have legs: "zip [0..<3] (map intent_exchange ?ls) = map (\<lambda>k. (k, 1)) [0..<3]"
    by (simp add: numeral_3_eq_3 sample_leg_def)
  have go: "\<not> stopped_at (sample_env (\<lambda>_. LegTimedOut)) 10 5000000 100000000 sample_manager
      (zip [0..<3] (map intent_exchange ?ls)) k r" for k r
  proof (cases "k < 3")
    case True
    then show ?thesis using sample_never_violated [of k r]
      unfolding legs by (simp add: stopped_at_def Let_def x sample_env_def del: violated.simps upt_Suc)
  qed (simp add: stopped_at_def Let_def)
  from triangular_blast_exposure [OF wf _ sample_env_undisturbed b refl refl] b go show ?thesis
    unfolding s x by (auto split: sum.splits blast_error.splits)
qed

end
