(* ===== verification/Execution_Daemons.thy ===== *)
theory Execution_Daemons
  imports Execution_Blasts
begin

text \<open>
  The real pipeline with its retries, and the two background tasks of \<^verbatim>\<open>src/src/execution.rs\<close> that look after the
  tracked orders: the cancellation sweeper and the status poller.  A task is modelled by one round of its loop, between
  two sleeps; the answers of the exchange clients and the readings of the clocks are arguments.
\<close>

section \<open>The real pipeline\<close>

abbreviation BASE_RETRY_DELAY_MS :: u64 where "BASE_RETRY_DELAY_MS \<equiv> 50"

definition submit_message :: "u16 \<Rightarrow> submit_error \<Rightarrow> string" where
  "submit_message exch e =
     (case e of
        ClientError msg \<Rightarrow> msg
      | NoPool \<Rightarrow> ''CRITICAL: no typed_pool configured for exchange_id '' @ digits_of (unat exch) @
          ''. The generic Binance-style fallback is DISABLED for safety.''
      | NoClient \<Rightarrow> ''CRITICAL: no typed exchange client for exchange_id '' @ digits_of (unat exch) @
          ''. The generic Binance-style fallback is DISABLED for safety. Add a typed client implementation for this exchange before live deployment.''
      | CoolingDown (x, remaining) \<Rightarrow> ''rate-limit circuit breaker: exchange '' @ digits_of (unat x) @
          '' is rate-limited, cooldown remaining: ~'' @ digits_of (unat remaining) @ ''s''
      | RateLimitedAnswer msg \<Rightarrow> ''rate limited (ex='' @ digits_of (unat exch) @ ''): '' @ msg)"

text \<open>The cooldown breaker before the \<open>i\<close>-th attempt, and the attempt's outcome.\<close>

fun breaker_before ::
  "(nat \<Rightarrow> u64 \<times> u64) \<Rightarrow> (nat \<Rightarrow> (string + 'd order_result) option option) \<Rightarrow> 'd order_intent \<Rightarrow>
   cooldown_breaker option \<Rightarrow> nat \<Rightarrow> cooldown_breaker option" where
  "breaker_before clk client intent b 0 = b"
| "breaker_before clk client intent b (Suc i) =
     snd (snd (execute_order_inner (clk i) (client i) intent (breaker_before clk client intent b i)))"

definition attempt_at ::
  "(nat \<Rightarrow> u64 \<times> u64) \<Rightarrow> (nat \<Rightarrow> (string + 'd order_result) option option) \<Rightarrow> 'd order_intent \<Rightarrow>
   cooldown_breaker option \<Rightarrow> nat \<Rightarrow> bool \<times> (submit_error + 'd order_result) \<times> cooldown_breaker option" where
  "attempt_at clk client intent b i = execute_order_inner (clk i) (client i) intent (breaker_before clk client intent b i)"

text \<open>
  \<^verbatim>\<open>RealExecutionPipeline::execute_order\<close>: the result, the number of calls of the client and the breaker.  Every attempt
  but the last is followed by one sleep.
\<close>

definition real_execute_order ::
  "(nat \<Rightarrow> u64 \<Rightarrow> u64) \<Rightarrow> (nat \<Rightarrow> u64 \<times> u64) \<Rightarrow> (nat \<Rightarrow> (string + 'd order_result) option option) \<Rightarrow> 'd order_intent \<Rightarrow>
   cooldown_breaker option \<Rightarrow> (retry_error + 'd order_result) \<times> nat \<times> cooldown_breaker option" where
  "real_execute_order jitter clk client intent b =
     (case retry_with_backoff jitter 3 BASE_RETRY_DELAY_MS
             (\<lambda>i. map_sum (submit_message (intent_exchange intent)) id (fst (snd (attempt_at clk client intent b i)))) of
        (result, slept) \<Rightarrow>
          let attempts = Suc (length slept)
          in (result, length (filter (\<lambda>i. fst (attempt_at clk client intent b i)) [0..<attempts]),
              breaker_before clk client intent b attempts))"

section \<open>Cancelling stale orders\<close>

text \<open>The answer of the client's cancellation is \<open>Inl\<close> its error; the call itself is logged.\<close>

definition attempt_exchange_cancel ::
  "(u16 \<Rightarrow> string \<Rightarrow> string \<Rightarrow> string + unit) \<Rightarrow> u16 \<Rightarrow> string \<Rightarrow> string \<Rightarrow> 'd engine \<Rightarrow> (string + bool) \<times> 'd engine" where
  "attempt_exchange_cancel cancel_order exch symbol oid g =
     (case eng_cancel_pool g of
        None \<Rightarrow> (Inr False, g)
      | Some pool \<Rightarrow>
          if \<not> pool exch
          then (Inl (''no typed client for exchange '' @ digits_of (unat exch) @ '' - cannot cancel''), g)
          else (map_sum id (\<lambda>_. True) (cancel_order exch symbol oid),
                g\<lparr>eng_cancels := eng_cancels g @ [(exch, symbol, oid)]\<rparr>))"

text \<open>The loop over the orders of the snapshot; \<open>now i\<close> is the clock when the \<open>i\<close>-th age is taken.\<close>

fun sweep_orders ::
  "(u16 \<Rightarrow> string \<Rightarrow> string \<Rightarrow> string + unit) \<Rightarrow> (nat \<Rightarrow> nat) \<Rightarrow> u64 \<Rightarrow> (nat \<times> 'd tracked_order) list \<Rightarrow> u64 \<Rightarrow> 'd engine \<Rightarrow>
   u64 \<times> 'd engine" where
  "sweep_orders cancel_order now cancel_after_secs [] cancelled g = (cancelled, g)"
| "sweep_orders cancel_order now cancel_after_secs ((i, ord) # rest) cancelled g =
     (if unat cancel_after_secs \<le> (now i - submitted_at ord) div 1000000000 then
        case attempt_exchange_cancel cancel_order (order_exchange ord) (order_symbol ord) (order_id ord) g of
          (answer, g') \<Rightarrow>
            sweep_orders cancel_order now cancel_after_secs rest
              (if answer = Inr True then cancelled + 1 else cancelled) g'
      else sweep_orders cancel_order now cancel_after_secs rest cancelled g)"

definition sweep_round ::
  "(u16 \<Rightarrow> string \<Rightarrow> string \<Rightarrow> string + unit) \<Rightarrow> (nat \<Rightarrow> nat) \<Rightarrow> nat \<Rightarrow> u64 \<Rightarrow> 'd engine \<Rightarrow> (u64 \<times> nat) option \<times> 'd engine" where
  "sweep_round cancel_order now t_clean cancel_after_secs g =
     (if eng_paper_mode g then (None, g)
      else if length (orders (eng_tracker g)) = 0 then (None, g)
      else let all_orders = map snd (orders (eng_tracker g));
               (cancelled, g) = sweep_orders cancel_order now cancel_after_secs
                                  (zip [0..<length all_orders] all_orders) 0 g;
               (cleaned, tr) = cleanup_stale t_clean (eng_tracker g)
           in (Some (cancelled, cleaned), g\<lparr>eng_tracker := tr\<rparr>))"

section \<open>Polling unfilled orders\<close>

abbreviation IDLE_MULTIPLIER :: u64 where "IDLE_MULTIPLIER \<equiv> 5"

definition poll_sleep_ms :: "u64 \<Rightarrow> u64 \<Rightarrow> u64" where
  "poll_sleep_ms poll_interval_ms idle_cycles =
     (if 10 < idle_cycles then saturating_mul poll_interval_ms IDLE_MULTIPLIER else poll_interval_ms)"

definition poll_candidate :: "'d exec_decimal \<Rightarrow> u64 \<Rightarrow> u64 \<Rightarrow> 'd tracked_order \<Rightarrow> bool" where
  "poll_candidate D stale_ms now_epoch_ms ord =
     (if order_id ord = [] \<or> dec_lt D (dec_zero D) (filled_qty ord) then False
      else saturating_sub now_epoch_ms (submitted_at_epoch_ms ord) < stale_ms)"

text \<open>\<open>query_order\<close> answers with the filled quantity.\<close>

definition poll_order ::
  "'d exec_decimal \<Rightarrow> (u16 \<Rightarrow> string \<Rightarrow> string \<Rightarrow> string + 'd) \<Rightarrow> (u16 \<Rightarrow> bool) \<Rightarrow> 'd live_order_tracker \<Rightarrow> 'd tracked_order \<Rightarrow>
   'd live_order_tracker" where
  "poll_order D query_order pool tr ord =
     (if pool (order_exchange ord) then
        case query_order (order_exchange ord) (order_symbol ord) (order_id ord) of
          Inl _ \<Rightarrow> tr
        | Inr filled \<Rightarrow> (if dec_lt D (dec_zero D) filled then update_fill (order_id ord) filled tr else tr)
      else tr)"

definition poll_round ::
  "'d exec_decimal \<Rightarrow> (u16 \<Rightarrow> string \<Rightarrow> string \<Rightarrow> string + 'd) \<Rightarrow> u64 \<Rightarrow> u64 \<Rightarrow> u64 \<times> 'd engine \<Rightarrow> u64 \<times> 'd engine" where
  "poll_round D query_order stale_order_secs now_epoch_ms = (\<lambda>(idle_cycles, g).
     let stale_ms = saturating_mul stale_order_secs 1000;
         candidates = filter (poll_candidate D stale_ms now_epoch_ms) (map snd (orders (eng_tracker g)))
     in if candidates = [] then (idle_cycles + 1, g)
        else (0, case eng_cancel_pool g of
                   None \<Rightarrow> g
                 | Some pool \<Rightarrow> g\<lparr>eng_tracker := foldl (poll_order D query_order pool) (eng_tracker g) candidates\<rparr>))"

section \<open>An exchange in cooldown\<close>

text \<open>
  While the cooldown of an exchange lasts, the pipeline's attempts neither call the exchange nor change the breaker.
\<close>

lemma cooling_attempt:
  assumes "unat exch < length (cooldown_until_ms b)" "t < cooldown_until_ms b ! unat exch" "intent_exchange intent = exch"
  shows "\<exists>e. execute_order_inner (t, t') client intent (Some b) = (False, Inl (CoolingDown e), Some b)"
proof -
  have "cooldown_until_ms b ! unat exch \<noteq> 0" using assms(2) by auto
  then have "\<exists>e. cooldown_check exch t b = (Inl e, b)" using assms by (simp add: cooldown_check_def Let_def not_le)
  then show ?thesis using assms(3) by (auto simp: execute_order_inner_def limiter_check_def Let_def)
qed

lemma cooling_exchange_untouched:
  assumes "unat (intent_exchange intent) < length (cooldown_until_ms b)"
    "\<And>i. fst (clk i) < cooldown_until_ms b ! unat (intent_exchange intent)"
  shows "\<exists>e. real_execute_order jitter clk client intent (Some b) = (Inl e, 0, Some b)"
proof -
  have cool: "\<exists>e. execute_order_inner (clk i) cl intent (Some b) = (False, Inl (CoolingDown e), Some b)" for i cl
    using cooling_attempt [OF assms(1) assms(2) refl, of i "snd (clk i)" cl] by simp
  have before: "breaker_before clk client intent (Some b) i = Some b" for i
    by (induction i) (use cool in \<open>auto, metis snd_conv\<close>)
  have called: "\<not> fst (attempt_at clk client intent (Some b) i)"
    and refused: "\<exists>e. fst (snd (attempt_at clk client intent (Some b) i)) = Inl e" for i
    using cool [of i "client i"] by (auto simp: attempt_at_def before)
  have "\<exists>e. fst (retry_loop n d jitter f xs le sl) = Inl e" if "\<And>i. \<exists>e. f i = Inl e"
    for n d xs le sl and f :: "nat \<Rightarrow> string + 'a order_result"
    using that by (induction n d jitter f xs le sl rule: retry_loop.induct) (force split: sum.splits)+
  then have "\<exists>e. fst (retry_with_backoff jitter 3 BASE_RETRY_DELAY_MS
      (\<lambda>i. map_sum (submit_message (intent_exchange intent)) id (fst (snd (attempt_at clk client intent (Some b) i))))) = Inl e"
    unfolding retry_with_backoff_def using refused by (metis map_sum.simps(1))
  then show ?thesis by (auto simp: real_execute_order_def before called Let_def split: prod.split)
qed

section \<open>What the sweeper does\<close>

definition too_old :: "(nat \<Rightarrow> nat) \<Rightarrow> u64 \<Rightarrow> nat \<times> 'd tracked_order \<Rightarrow> bool" where
  "too_old now secs = (\<lambda>(i, ord). unat secs \<le> (now i - submitted_at ord) div 1000000000)"

definition cancellable :: "'d engine \<Rightarrow> nat \<times> 'd tracked_order \<Rightarrow> bool" where
  "cancellable g = (\<lambda>(i, ord). case eng_cancel_pool g of None \<Rightarrow> False | Some pool \<Rightarrow> pool (order_exchange ord))"

definition cancel_entry :: "nat \<times> 'd tracked_order \<Rightarrow> u16 \<times> string \<times> string" where
  "cancel_entry = (\<lambda>(i, ord). (order_exchange ord, order_symbol ord, order_id ord))"

lemma sweep_orders_log:
  "snd (sweep_orders cancel_order now secs ords n g) =
     g\<lparr>eng_cancels := eng_cancels g @
         map cancel_entry (filter (\<lambda>e. too_old now secs e \<and> cancellable g e) ords)\<rparr>"
proof (induction ords arbitrary: n g)
  case (Cons e ords)
  show ?case
    by (cases e; cases "eng_cancel_pool g")
      (auto simp: Cons.IH attempt_exchange_cancel_def too_old_def cancellable_def cancel_entry_def split: prod.splits)
qed simp

text \<open>
  a round of the sweeper.  In live mode it asks for the cancellation of exactly the tracked orders that are at least
  \<open>cancel_after_secs\<close> old and whose exchange has a client, in the order of the tracker, filled or not, and forgets exactly the orders
  past the tracker's maximal age: an order that was cancelled stays tracked, and is cancelled again by the next
  round, until then.  In paper mode it does nothing.
\<close>

theorem sweep_exact:
  "let tracked = zip [0..<length (orders (eng_tracker g))] (map snd (orders (eng_tracker g)));
       g' = snd (sweep_round cancel_order now t_clean secs g)
   in (if eng_paper_mode g then g' = g
       else eng_cancels g' = eng_cancels g @ map cancel_entry (filter (\<lambda>e. too_old now secs e \<and> cancellable g e) tracked) \<and>
            orders (eng_tracker g') = filter (\<lambda>e. fresh_order t_clean (eng_tracker g) (snd e)) (orders (eng_tracker g))) \<and>
      eng_orders g' = eng_orders g \<and> eng_risk g' = eng_risk g \<and> eng_daily g' = eng_daily g"
proof (cases "eng_paper_mode g \<or> orders (eng_tracker g) = []")
  case True
  then show ?thesis by (auto simp: sweep_round_def)
next
  case False
  define tracked where "tracked = zip [0..<length (orders (eng_tracker g))] (map snd (orders (eng_tracker g)))"
  obtain n g1 where sw: "sweep_orders cancel_order now secs tracked 0 g = (n, g1)" by fastforce
  have g1: "g1 = g\<lparr>eng_cancels := eng_cancels g @ map cancel_entry (filter (\<lambda>e. too_old now secs e \<and> cancellable g e) tracked)\<rparr>"
    using sweep_orders_log [of cancel_order now secs tracked 0 g] sw by simp
  have "snd (sweep_round cancel_order now t_clean secs g) =
      g1\<lparr>eng_tracker := snd (cleanup_stale t_clean (eng_tracker g1))\<rparr>"
    using False sw by (simp add: sweep_round_def tracked_def Let_def split: prod.split)
  then show ?thesis using False by (simp add: g1 Let_def cleanup_stale_def flip: tracked_def)
qed

section \<open>What the poller does\<close>

text \<open>The fill that the exchange reports for a tracked order, if the poller asks for it.\<close>

definition polled_fill ::
  "'d exec_decimal \<Rightarrow> (u16 \<Rightarrow> string \<Rightarrow> string \<Rightarrow> string + 'd) \<Rightarrow> (u16 \<Rightarrow> bool) \<Rightarrow> 'd tracked_order \<Rightarrow> 'd tracked_order" where
  "polled_fill D query_order pool ord =
     (if pool (order_exchange ord) then
        case query_order (order_exchange ord) (order_symbol ord) (order_id ord) of
          Inl _ \<Rightarrow> ord | Inr filled \<Rightarrow> (if dec_lt D (dec_zero D) filled then ord\<lparr>filled_qty := filled\<rparr> else ord)
      else ord)"

lemma keyed_unique: "keyed m \<Longrightarrow> e \<in> set m \<Longrightarrow> e' \<in> set m \<Longrightarrow> fst e = fst e' \<Longrightarrow> e = e'"
  by (auto simp: keyed_def distinct_map dest: inj_onD)

lemma keyed_map_values:
  assumes "keyed m" "\<And>ord. order_id (f ord) = order_id ord"
  shows "keyed (map (\<lambda>e. if P e then (fst e, f (snd e)) else e) m)"
proof -
  have "map fst (map (\<lambda>e. if P e then (fst e, f (snd e)) else e) m) = map fst m" by (induction m) auto
  moreover have "\<forall>e \<in> set (map (\<lambda>e. if P e then (fst e, f (snd e)) else e) m). order_id (snd e) = fst e"
    using assms by (auto simp: keyed_def)
  ultimately show ?thesis using assms(1) by (simp only: keyed_def)
qed

lemma poll_order_orders:
  assumes "keyed (orders tr)" "(order_id ord, ord) \<in> set (orders tr)"
  shows "orders (poll_order D q pool tr ord) =
    map (\<lambda>e. if fst e = order_id ord then (fst e, polled_fill D q pool (snd e)) else e) (orders tr)"
proof -
  have same: "b = ord" if "(order_id ord, b) \<in> set (orders tr)" for b
    using keyed_unique [OF assms(1) that assms(2)] by simp
  have "orders (poll_order D q pool tr ord) = map (\<lambda>e. if fst e = order_id ord then (fst e, polled_fill D q pool ord) else e) (orders tr)"
    by (auto simp: poll_order_def polled_fill_def update_fill_def split: sum.split intro!: map_idI [symmetric] dest!: same)
  then show ?thesis by (auto dest!: same)
qed

lemma foldl_poll:
  assumes "keyed (orders tr)" "set cands \<subseteq> snd ` set (orders tr)" "distinct (map order_id cands)"
  shows "orders (foldl (poll_order D q pool) tr cands) =
    map (\<lambda>e. if fst e \<in> order_id ` set cands then (fst e, polled_fill D q pool (snd e)) else e) (orders tr)"
  using assms
proof (induction cands arbitrary: tr)
  case (Cons ord cands)
  let ?f = "\<lambda>e. if fst e = order_id ord then (fst e, polled_fill D q pool (snd e)) else e"
  have mem: "(order_id ord, ord) \<in> set (orders tr)" using Cons.prems(1,2) by (force simp: keyed_def)
  note first = poll_order_orders [OF Cons.prems(1) mem, of D q pool]
  have ids: "order_id (polled_fill D q pool x) = order_id x" for x by (simp add: polled_fill_def split: sum.split)
  have "keyed (orders (poll_order D q pool tr ord))"
    unfolding first by (rule keyed_map_values [OF Cons.prems(1) ids])
  moreover have "set cands \<subseteq> snd ` set (orders (poll_order D q pool tr ord))"
  proof
    fix c assume c: "c \<in> set cands"
    then obtain e where e: "e \<in> set (orders tr)" "snd e = c" using Cons.prems(2) by auto
    moreover from e have "order_id c = fst e" using Cons.prems(1) by (auto simp: keyed_def)
    then have "fst e \<noteq> order_id ord" using Cons.prems(3) c by (auto simp: image_iff dest: bspec)
    ultimately show "c \<in> snd ` set (orders (poll_order D q pool tr ord))" by (force simp: first)
  qed
  ultimately show ?case using Cons.prems(3) by (simp add: Cons.IH first)
qed simp

text \<open>
  a round of the poller.  It updates the filled quantity of exactly the orders that have an identifier, no recorded
  fill and are younger than the limit, when the exchange has a client that reports a positive fill; every other order, the keys and
  their order, and everything else in the engine, stay as they were.
\<close>

theorem poll_exact:
  assumes "tracker_inv (eng_tracker g)"
  shows "let g' = snd (poll_round D query_order secs now (idle, g));
             asked = poll_candidate D (saturating_mul secs 1000) now
         in orders (eng_tracker g') =
              (case eng_cancel_pool g of
                 None \<Rightarrow> orders (eng_tracker g)
               | Some pool \<Rightarrow> map (\<lambda>(k, ord). (k, if asked ord then polled_fill D query_order pool ord else ord))
                               (orders (eng_tracker g))) \<and>
            eng_orders g' = eng_orders g \<and> eng_cancels g' = eng_cancels g \<and> eng_risk g' = eng_risk g"
proof -
  let ?asked = "poll_candidate D (saturating_mul secs 1000) now"
  let ?os = "orders (eng_tracker g)"
  let ?c = "filter ?asked (map snd ?os)"
  have keyed: "keyed ?os" using assms by (simp add: tracker_inv_def)
  have ids: "map order_id (map snd ?os) = map fst ?os" using keyed by (simp add: keyed_def)
  then have dist: "distinct (map order_id ?c)" using keyed by (metis distinct_map_filter keyed_def)
  have "orders (foldl (poll_order D query_order pool) (eng_tracker g) ?c) =
      map (\<lambda>(k, ord). (k, if ?asked ord then polled_fill D query_order pool ord else ord)) ?os" for pool
  proof -
    have "fst e \<in> order_id ` set ?c \<longleftrightarrow> ?asked (snd e)" if e: "e \<in> set ?os" for e
    proof
      assume "fst e \<in> order_id ` set ?c"
      then obtain e' where "e' \<in> set ?os" "?asked (snd e')" "fst e = order_id (snd e')" by auto
      with keyed keyed_unique [OF keyed e, of e'] show "?asked (snd e)" by (auto simp: keyed_def)
    next
      assume "?asked (snd e)"
      with keyed e show "fst e \<in> order_id ` set ?c" by (force simp: keyed_def)
    qed
    then show ?thesis by (subst foldl_poll [OF keyed _ dist]) auto
  qed
  then show ?thesis
    by (auto simp: poll_round_def Let_def filter_empty_conv split: option.split intro!: map_idI [symmetric])
qed


definition sample_order :: "string \<Rightarrow> int \<Rightarrow> int tracked_order" where
  "sample_order oid q = \<lparr>order_id = oid, order_exchange = 1, order_symbol = ''SOLUSDT'', is_buy = True,
     submitted_at = 0, submitted_at_epoch_ms = 1000, filled_qty = q\<rparr>"

definition polled_engine :: "int engine" where
  "polled_engine = sample_engine
     \<lparr>eng_tracker := \<lparr>orders = [(''A1'', sample_order ''A1'' 0), (''A2'', sample_order ''A2'' 3)],
        max_age_secs = 300, max_tracked_orders = 10, total_tracked = 2\<rparr>,
      eng_cancel_pool := Some (\<lambda>_. True)\<rparr>"

lemma polled_engine_inv: "tracker_inv (eng_tracker polled_engine)"
  by (simp add: polled_engine_def tracker_inv_def keyed_def sample_order_def)

lemma sample_age: "saturating_sub 2000 1000 < (saturating_mul 30 1000 :: u64)"
  by (simp add: saturating_sub_def saturating_mul_def)

theorem poll_exact_witness:
  "orders (eng_tracker (snd (poll_round int_exec (\<lambda>_ _ _. Inr 5) 30 2000 (0, polled_engine)))) =
     [(''A1'', sample_order ''A1'' 5), (''A2'', sample_order ''A2'' 3)]"
  using poll_exact [OF polled_engine_inv, of int_exec "\<lambda>_ _ _. Inr 5" 30 2000 0]
  by (simp add: Let_def polled_engine_def poll_candidate_def polled_fill_def sample_order_def int_exec_def sample_age)

end
