(* ===== verification/Asset_Inventory.thy ===== *)
theory Asset_Inventory
  imports Decimal_Api
begin

text \<open>
  The asset inventory of \<^verbatim>\<open>src/src/asset_inventory.rs\<close>: the snapshot that a scan cycle writes and the counting
  and listing of triangles in an exchange's pairs.  Hash maps and hash sets are lists without
  repetition in their iteration order.
\<close>

section \<open>Data\<close>

record token_entry =
  entry_token_id :: u16
  entry_symbol :: string
  entry_category :: u16
  entry_exchanges :: "u16 list"

record triangular_candidate =
  cand_exchange_id :: u16
  cand_exchange_name :: string
  cand_tokens :: "u16 \<times> u16 \<times> u16"
  cand_symbols :: "string \<times> string \<times> string"

record exchange_inventory =
  inv_exchange_id :: u16
  inv_exchange_name :: string
  inv_total_pairs :: nat
  inv_token_ids :: "u16 list"
  inv_tri_loop_count :: nat

type_synonym listed_pair = "u16 \<times> string \<times> string \<times> string"

record asset_snapshot =
  tokens :: "(u16 \<times> token_entry) list"
  exchange_pairs :: "(u16 \<times> listed_pair list) list"
  cross_arb_tokens :: "u16 list"
  tri_candidates :: "triangular_candidate list"
  exchange_summaries :: "exchange_inventory list"
  cycle :: u64
  snap_total_tokens :: nat
  total_pairs :: nat
  new_tokens :: nat

definition exchange_name_by_id :: "u16 \<Rightarrow> string" where
  "exchange_name_by_id i =
     (case get_at [''Binance'', ''Bybit'', ''OKX'', ''GateIO'', ''KuCoin'', ''Bitfinex'', ''Bitget'', ''BitMEX'',
                   ''Coinbase'', ''HTX'', ''Kraken'', ''LBank'', ''Bitstamp'', ''Deribit'', ''Delta'', ''MEXC'', ''Ibank'']
             (unat i) of
        None \<Rightarrow> ''UNKNOWN'' | Some n \<Rightarrow> n)"

section \<open>Triangles\<close>

text \<open>\<^verbatim>\<open>adj.entry(k).or_default().insert(v)\<close>\<close>

fun entry_insert :: "u16 \<Rightarrow> u16 \<Rightarrow> (u16 \<times> u16 list) list \<Rightarrow> (u16 \<times> u16 list) list" where
  "entry_insert k v [] = [(k, [v])]"
| "entry_insert k v ((k', vs) # adj) =
     (if k' = k then (k', List.insert v vs) # adj else (k', vs) # entry_insert k v adj)"

definition adjacency_of :: "(u16 \<times> u16) list \<Rightarrow> (u16 \<times> u16 list) list" where
  "adjacency_of ps = foldl (\<lambda>adj (base, quote). entry_insert quote base (entry_insert base quote adj)) [] ps"

definition neighbours :: "(u16 \<times> u16 list) list \<Rightarrow> u16 \<Rightarrow> u16 list" where
  "neighbours adj a = (case map_of adj a of None \<Rightarrow> [] | Some vs \<Rightarrow> vs)"

definition estimate_triangular_loops :: "(u16 \<times> u16) list \<Rightarrow> nat" where
  "estimate_triangular_loops ps =
     (if length ps < 3 then 0
      else let adj = adjacency_of ps; nodes = map fst adj
           in length [(a, b, c). a \<leftarrow> nodes, b \<leftarrow> neighbours adj a, b \<noteq> a, c \<leftarrow> neighbours adj b, c \<noteq> a \<and> c \<noteq> b,
                        a \<in> set (neighbours adj c)] div 6)"

text \<open>The candidates in the order of the three nested loops, and the loop body with its early exit at 50.\<close>

definition ordered_candidates :: "(u16 \<times> u16 list) list \<Rightarrow> (u16 \<times> u16 \<times> u16) list" where
  "ordered_candidates adj =
     [(a, b, c). a \<leftarrow> map fst adj, b \<leftarrow> neighbours adj a, \<not> b \<le> a, c \<leftarrow> neighbours adj b, \<not> c \<le> b,
        a \<in> set (neighbours adj c)]"

fun push_loops :: "(u16 \<times> u16 \<times> u16) list \<Rightarrow> (u16 \<times> u16 \<times> u16) list \<Rightarrow> (u16 \<times> u16 \<times> u16) list" where
  "push_loops result [] = result"
| "push_loops result (key # keys) =
     (if key \<in> set result then push_loops result keys
      else let result' = result @ [key]
           in if 50 \<le> length result' then result' else push_loops result' keys)"

definition find_triangular_loops :: "(u16 \<times> u16) list \<Rightarrow> (u16 \<times> u16 \<times> u16) list" where
  "find_triangular_loops ps = (if length ps < 3 then [] else push_loops [] (ordered_candidates (adjacency_of ps)))"

section \<open>The snapshot\<close>

definition token_symbol :: "(u16 \<times> string) list \<Rightarrow> u16 \<Rightarrow> string" where
  "token_symbol symbol_by_id t = (case map_of symbol_by_id t of Some s \<Rightarrow> s | None \<Rightarrow> CHR ''T'' # digits_of (unat t))"

text \<open>Later insertions of a key replace earlier ones.\<close>

fun put_key :: "'k \<Rightarrow> 'v \<Rightarrow> ('k \<times> 'v) list \<Rightarrow> ('k \<times> 'v) list" where
  "put_key k v [] = [(k, v)]"
| "put_key k v ((k', v') # m) = (if k' = k then (k, v) # m else (k', v') # put_key k v m)"

fun sample_loops ::
  "(u16 \<times> string) list \<Rightarrow> (u16 \<times> (u16 \<times> u16) list) list \<Rightarrow> triangular_candidate list \<Rightarrow> triangular_candidate list" where
  "sample_loops names [] cands = cands"
| "sample_loops names ((exch_id, pair_list) # rest) cands =
     (let cands' = cands @
            map (\<lambda>(a, b, c). \<lparr>cand_exchange_id = exch_id, cand_exchange_name = exchange_name_by_id exch_id,
                              cand_tokens = (a, b, c),
                              cand_symbols = (token_symbol names a, token_symbol names b, token_symbol names c)\<rparr>)
              (take 10 (find_triangular_loops pair_list))
      in if 100 \<le> length cands' then cands' else sample_loops names rest cands')"

definition lookup_or :: "'v \<Rightarrow> ('k \<times> 'v) list \<Rightarrow> 'k \<Rightarrow> 'v" where
  "lookup_or d m k = (case map_of m k of None \<Rightarrow> d | Some v \<Rightarrow> v)"

definition inventory_update ::
  "(u16 \<times> listed_pair list) list \<Rightarrow> (u16 \<times> u16 list) list \<Rightarrow> (string \<times> u16) list \<Rightarrow> (u16 \<times> u16) list \<Rightarrow>
   (u16 \<times> (u16 \<times> u16) list) list \<Rightarrow> nat \<Rightarrow> nat \<Rightarrow> u64 \<Rightarrow> asset_snapshot \<Rightarrow> asset_snapshot" where
  "inventory_update ex_pairs presence symbol_map categories tri_pair_map n_new n_pairs cyc snap =
     (let symbol_by_id = foldl (\<lambda>m (s, t). put_key t s m) [] symbol_map;
          entries = foldl (\<lambda>m (s, t). put_key t
              \<lparr>entry_token_id = t, entry_symbol = s, entry_category = lookup_or 0 categories t,
               entry_exchanges = lookup_or [] presence t\<rparr> m) [] symbol_map
      in \<lparr>tokens = entries, exchange_pairs = ex_pairs,
          cross_arb_tokens =
            sort_key (\<lambda>t. - int (length (lookup_or [] presence t)))
              (map fst (filter (\<lambda>(t, exchs). 2 \<le> length exchs) presence)),
          tri_candidates = sample_loops symbol_by_id tri_pair_map [],
          exchange_summaries =
            map (\<lambda>(exch_id, ps).
                \<lparr>inv_exchange_id = exch_id, inv_exchange_name = exchange_name_by_id exch_id,
                 inv_total_pairs = length ps, inv_token_ids = remdups (map fst ps),
                 inv_tri_loop_count =
                   (case map_of tri_pair_map exch_id of None \<Rightarrow> 0 | Some tp \<Rightarrow> estimate_triangular_loops tp)\<rparr>) ex_pairs,
          cycle = cyc, snap_total_tokens = length entries, total_pairs = n_pairs, new_tokens = n_new\<rparr>)"

definition tokens_on_exchange :: "u16 \<Rightarrow> asset_snapshot \<Rightarrow> token_entry list" where
  "tokens_on_exchange e snap = filter (\<lambda>t. e \<in> set (entry_exchanges t)) (map snd (tokens snap))"

definition exchanges_for_token :: "u16 \<Rightarrow> asset_snapshot \<Rightarrow> u16 list" where
  "exchanges_for_token t snap = (case map_of (tokens snap) t of None \<Rightarrow> [] | Some en \<Rightarrow> entry_exchanges en)"

definition tri_loops_for_exchange :: "u16 \<Rightarrow> asset_snapshot \<Rightarrow> triangular_candidate list" where
  "tri_loops_for_exchange e snap = filter (\<lambda>c. cand_exchange_id c = e) (tri_candidates snap)"


section \<open>Adjacency\<close>

definition linked :: "(u16 \<times> u16) list \<Rightarrow> u16 \<Rightarrow> u16 \<Rightarrow> bool" where
  "linked ps a b \<longleftrightarrow> (a, b) \<in> set ps \<or> (b, a) \<in> set ps"

lemma linked_sym: "linked ps a b \<longleftrightarrow> linked ps b a"
  by (auto simp: linked_def)

definition adj_ok :: "(u16 \<times> u16 list) list \<Rightarrow> bool" where
  "adj_ok adj \<longleftrightarrow> distinct (map fst adj) \<and> (\<forall>(k, vs) \<in> set adj. distinct vs)"

lemma entry_insert_keys: "set (map fst (entry_insert k v adj)) = insert k (set (map fst adj))"
  by (induction k v adj rule: entry_insert.induct) auto

lemma neighbours_simps [simp]:
  "neighbours [] a = []" "neighbours ((k, vs) # adj) a = (if a = k then vs else neighbours adj a)"
  by (simp_all add: neighbours_def)

lemma neighbours_entry_insert:
  "set (neighbours (entry_insert k v adj) a) = (if a = k then insert v (set (neighbours adj k)) else set (neighbours adj a))"
proof (induction k v adj rule: entry_insert.induct)
  case (2 k v k' vs adj)
  then show ?case by (cases "k' = k"; cases "a = k"; cases "a = k'") simp_all
qed simp

lemma adj_ok_entry_insert: "adj_ok adj \<Longrightarrow> adj_ok (entry_insert k v adj)"
proof (induction k v adj rule: entry_insert.induct)
  case (2 k v k' vs adj)
  then have "adj_ok (entry_insert k v adj)" if "k' \<noteq> k" using that by (auto simp: adj_ok_def)
  moreover have "k' \<notin> set (map fst (entry_insert k v adj))" if "k' \<noteq> k"
    using 2(2) that unfolding entry_insert_keys by (auto simp: adj_ok_def)
  ultimately show ?case using 2(2) by (auto simp: adj_ok_def)
qed (simp add: adj_ok_def)

lemma adjacency_of_snoc:
  "adjacency_of (ps @ [(b, q)]) = entry_insert q b (entry_insert b q (adjacency_of ps))"
  by (simp add: adjacency_of_def)

lemma adjacency_of_correct:
  "adj_ok (adjacency_of ps) \<and> (\<forall>a. set (neighbours (adjacency_of ps) a) = {b. linked ps a b}) \<and>
   set (map fst (adjacency_of ps)) = {a. \<exists>b. linked ps a b}"
proof (induction ps rule: rev_induct)
  case Nil
  then show ?case by (simp add: adjacency_of_def adj_ok_def neighbours_def linked_def)
next
  case (snoc p ps)
  obtain b q where p: "p = (b, q)" by fastforce
  have "set (neighbours (adjacency_of (ps @ [p])) a) = {c. linked (ps @ [p]) a c}" for a
    using snoc by (auto simp: p adjacency_of_snoc neighbours_entry_insert linked_def)
  moreover have "set (map fst (adjacency_of (ps @ [p]))) = {a. \<exists>b. linked (ps @ [p]) a b}"
    using snoc unfolding p adjacency_of_snoc entry_insert_keys by (auto simp: linked_def)
  ultimately show ?case using snoc by (simp add: p adjacency_of_snoc adj_ok_entry_insert)
qed

lemma neighbours_distinct: "adj_ok adj \<Longrightarrow> distinct (neighbours adj a)"
  by (auto simp: neighbours_def adj_ok_def split: option.split dest!: map_of_SomeD)

section \<open>Counting\<close>

text \<open>Each triangle once, and every closed walk through three different tokens.\<close>

definition triangles :: "(u16 \<times> u16) list \<Rightarrow> (u16 \<times> u16 \<times> u16) set" where
  "triangles ps = {(a, b, c). a < b \<and> b < c \<and> linked ps a b \<and> linked ps b c \<and> linked ps c a}"

definition closed_walks :: "(u16 \<times> u16) list \<Rightarrow> (u16 \<times> u16 \<times> u16) set" where
  "closed_walks ps = {(a, b, c). b \<noteq> a \<and> c \<noteq> a \<and> c \<noteq> b \<and> linked ps a b \<and> linked ps b c \<and> linked ps c a}"

lemma distinct_triples:
  assumes "distinct nodes" "\<And>a. distinct (nb a)"
  shows "distinct [(a, b, c). a \<leftarrow> nodes, b \<leftarrow> nb a, P a b, c \<leftarrow> nb b, Q a b c, R a b c]"
proof -
  have inner: "distinct (concat (map (\<lambda>c. if Q a b c then if R a b c then [(a, b, c)] else [] else []) (nb b)))" for a b
    by (rule distinct_concat_map [where key = "\<lambda>(a, b, c). c"]) (auto simp: assms)
  have mid: "distinct (concat (map (\<lambda>b. if P a b then concat (map (\<lambda>c. if Q a b c then if R a b c then [(a, b, c)] else [] else []) (nb b)) else []) (nb a)))" for a
    by (rule distinct_concat_map [where key = "\<lambda>(a, b, c). b"]) (auto simp: assms inner)
  show ?thesis
    by (rule distinct_concat_map [where key = "\<lambda>(a, b, c). a"]) (auto simp: assms mid)
qed

lemma preimage_card:
  assumes "\<And>x. g (f x) = x" "\<And>x. f (g x) = x"
  shows "card {x. f x \<in> S} = card S"
proof -
  have "x \<in> {x. f x \<in> S} \<longleftrightarrow> x \<in> g ` S" for x using assms by (metis image_iff mem_Collect_eq)
  then have "{x. f x \<in> S} = g ` S" by blast
  moreover have "inj_on g S" using assms(2) by (metis inj_onI)
  ultimately show ?thesis by (simp add: card_image)
qed

lemma closed_walks_six: "card (closed_walks ps) = 6 * card (triangles ps)"
proof -
  let ?S = "triangles ps"
  define A where "A = {x. (case x of (a, b, c) \<Rightarrow> (a, c, b)) \<in> ?S}"
  define B where "B = {x. (case x of (a, b, c) \<Rightarrow> (b, a, c)) \<in> ?S}"
  define C where "C = {x. (case x of (a, b, c) \<Rightarrow> (b, c, a)) \<in> ?S}"
  define D where "D = {x. (case x of (a, b, c) \<Rightarrow> (c, a, b)) \<in> ?S}"
  define E where "E = {x. (case x of (a, b, c) \<Rightarrow> (c, b, a)) \<in> ?S}"
  note defs = A_def B_def C_def D_def E_def triangles_def
  have "card A = card ?S" unfolding A_def by (rule preimage_card [of "\<lambda>(a, b, c). (a, c, b)"]) auto
  moreover have "card B = card ?S" unfolding B_def by (rule preimage_card [of "\<lambda>(a, b, c). (b, a, c)"]) auto
  moreover have "card C = card ?S" unfolding C_def by (rule preimage_card [of "\<lambda>(a, b, c). (c, a, b)"]) auto
  moreover have "card D = card ?S" unfolding D_def by (rule preimage_card [of "\<lambda>(a, b, c). (b, c, a)"]) auto
  moreover have "card E = card ?S" unfolding E_def by (rule preimage_card [of "\<lambda>(a, b, c). (c, b, a)"]) auto
  moreover have "closed_walks ps = ?S \<union> (A \<union> (B \<union> (C \<union> (D \<union> E))))"
  proof (rule set_eqI)
    fix x :: "u16 \<times> u16 \<times> u16"
    obtain a b c where x: "x = (a, b, c)" by (metis prod_cases3)
    have sym: "linked ps b a = linked ps a b" "linked ps c b = linked ps b c" "linked ps a c = linked ps c a"
      by (auto simp: linked_def)
    have "(b \<noteq> a \<and> c \<noteq> a \<and> c \<noteq> b) \<longleftrightarrow>
        a < b \<and> b < c \<or> a < c \<and> c < b \<or> b < a \<and> a < c \<or> b < c \<and> c < a \<or> c < a \<and> a < b \<or> c < b \<and> b < a"
      by (metis less_linear less_trans less_irrefl)
    then show "x \<in> closed_walks ps \<longleftrightarrow> x \<in> ?S \<union> (A \<union> (B \<union> (C \<union> (D \<union> E))))"
      by (simp add: x defs closed_walks_def sym) blast
  qed
  moreover have "?S \<inter> (A \<union> (B \<union> (C \<union> (D \<union> E)))) = {}" "A \<inter> (B \<union> (C \<union> (D \<union> E))) = {}"
    "B \<inter> (C \<union> (D \<union> E)) = {}" "C \<inter> (D \<union> E) = {}" "D \<inter> E = {}" by (auto simp: defs)
  ultimately show ?thesis by (simp add: card_Un_disjoint)
qed


lemma set_estimate_walks:
  assumes "\<And>a. set (nb a) = {b. linked ps a b}" "set nodes = {a. \<exists>b. linked ps a b}"
  shows "set [(a, b, c). a \<leftarrow> nodes, b \<leftarrow> nb a, b \<noteq> a, c \<leftarrow> nb b, c \<noteq> a \<and> c \<noteq> b, a \<in> set (nb c)] = closed_walks ps"
    and "set [(a, b, c). a \<leftarrow> nodes, b \<leftarrow> nb a, \<not> b \<le> a, c \<leftarrow> nb b, \<not> c \<le> b, a \<in> set (nb c)] = triangles ps"
  by (auto simp: assms closed_walks_def triangles_def split: if_splits)

text \<open>A triangle has three different edges, so fewer than three pairs have none.\<close>

lemma three_edges:
  assumes "(a, b, c) \<in> triangles ps" shows "3 \<le> length ps"
proof -
  let ?e = "\<lambda>p :: u16 \<times> u16. {fst p, snd p}"
  have sub: "{{a, b}, {b, c}, {c, a}} \<subseteq> ?e ` set ps"
    using assms by (force simp: triangles_def linked_def image_iff)
  have "card {{a, b}, {b, c}, {c, a}} = 3"
    using assms by (auto simp: triangles_def card_insert_if doubleton_eq_iff)
  moreover have "card {{a, b}, {b, c}, {c, a}} \<le> card (?e ` set ps)" by (rule card_mono [OF _ sub]) simp
  moreover have "card (?e ` set ps) \<le> length ps" using card_image_le [of "set ps" ?e] card_length [of ps] by simp
  ultimately show ?thesis by simp
qed

lemma few_pairs: "length ps < 3 \<Longrightarrow> triangles ps = {}"
  using three_edges by fastforce

lemma push_loops_take:
  "distinct (result @ ks) \<Longrightarrow> length result < 50 \<Longrightarrow> push_loops result ks = take 50 (result @ ks)"
proof (induction result ks rule: push_loops.induct)
  case (2 result key ks)
  show ?case
  proof (cases "50 \<le> length (result @ [key])")
    case True
    then have "length result = 49" using 2(4) by simp
    then show ?thesis using 2(3) by (simp add: Let_def)
  next
    case False
    then have "push_loops (result @ [key]) ks = take 50 ((result @ [key]) @ ks)" using 2 by (intro 2(2)) auto
    then show ?thesis using False 2(3) by (simp add: Let_def)
  qed
qed simp

text \<open>
  the triangles of an exchange are counted and listed exactly.  The estimate, which counts closed walks and
  divides by six, is the number of sets of three tokens that are pairwise traded; the listing
  has no repetitions, contains only such triangles, each with its tokens in ascending order, and has as many as
  there are, up to the limit of fifty.
\<close>

theorem triangles_exact:
  "estimate_triangular_loops ps = card (triangles ps) \<and>
   distinct (find_triangular_loops ps) \<and> set (find_triangular_loops ps) \<subseteq> triangles ps \<and>
   length (find_triangular_loops ps) = min 50 (estimate_triangular_loops ps)"
proof (cases "length ps < 3")
  case True
  then show ?thesis by (simp add: estimate_triangular_loops_def find_triangular_loops_def few_pairs)
next
  case False
  let ?adj = "adjacency_of ps"
  have adj: "adj_ok ?adj" "\<And>a. set (neighbours ?adj a) = {b. linked ps a b}"
    "set (map fst ?adj) = {a. \<exists>b. linked ps a b}" using adjacency_of_correct [of ps] by auto
  have nodes: "distinct (map fst ?adj)" using adj(1) by (simp add: adj_ok_def)
  note dist = distinct_triples [OF nodes, where nb = "neighbours ?adj", OF neighbours_distinct [OF adj(1)]]
  define walks where "walks = [(a, b, c). a \<leftarrow> map fst ?adj, b \<leftarrow> neighbours ?adj a, b \<noteq> a,
      c \<leftarrow> neighbours ?adj b, c \<noteq> a \<and> c \<noteq> b, a \<in> set (neighbours ?adj c)]"
  have "distinct walks" unfolding walks_def by (rule dist)
  moreover have "set walks = closed_walks ps" unfolding walks_def by (rule set_estimate_walks(1) [OF adj(2,3)])
  ultimately have "length walks = 6 * card (triangles ps)" by (metis distinct_card closed_walks_six)
  moreover have "estimate_triangular_loops ps = length walks div 6"
    unfolding walks_def estimate_triangular_loops_def Let_def using False by (simp only: if_False)
  ultimately have est: "estimate_triangular_loops ps = card (triangles ps)" by simp
  have d: "distinct (ordered_candidates ?adj)" unfolding ordered_candidates_def by (rule dist)
  have st: "set (ordered_candidates ?adj) = triangles ps"
    unfolding ordered_candidates_def by (rule set_estimate_walks(2) [OF adj(2,3)])
  have f: "find_triangular_loops ps = take 50 (ordered_candidates ?adj)"
    using False d by (simp add: find_triangular_loops_def push_loops_take)
  have "length (ordered_candidates ?adj) = card (triangles ps)" using distinct_card [OF d] st by simp
  with est d st f show ?thesis by (auto simp: min_def dest: in_set_takeD)
qed

end
