(* ===== verification/BTree_Map.thy ===== *)
theory BTree_Map
  imports Rust_Prelude
begin

text \<open>
  Ordered maps: the part of \<^verbatim>\<open>std::collections::BTreeMap\<close> that the order books use.  A map is the list of its entries in
  ascending order of the keys, which is the order of its iterators.
\<close>

section \<open>Operations\<close>

fun bt_insert :: "'k::linorder \<Rightarrow> 'v \<Rightarrow> ('k \<times> 'v) list \<Rightarrow> ('k \<times> 'v) list" where
  "bt_insert k v [] = [(k, v)]"
| "bt_insert k v ((k', v') # m) =
     (if k < k' then (k, v) # (k', v') # m else if k = k' then (k', v) # m else (k', v') # bt_insert k v m)"

definition bt_remove :: "'k \<Rightarrow> ('k \<times> 'v) list \<Rightarrow> ('k \<times> 'v) list" where
  "bt_remove k m = filter (\<lambda>e. fst e \<noteq> k) m"

definition bt_first :: "('k \<times> 'v) list \<Rightarrow> ('k \<times> 'v) option" where
  "bt_first m = (case m of [] \<Rightarrow> None | e # _ \<Rightarrow> Some e)"

definition bt_last :: "('k \<times> 'v) list \<Rightarrow> ('k \<times> 'v) option" where
  "bt_last m = (if m = [] then None else Some (last m))"

definition bt_ok :: "('k::linorder \<times> 'v) list \<Rightarrow> bool" where
  "bt_ok m \<longleftrightarrow> sorted_wrt (<) (map fst m)"

section \<open>The contract of a map\<close>

text \<open>
  What the clients rely on, for any representation: an invariant and the effect of an insertion
  and a removal on lookups.  A sequence of level updates deletes, refuses or stores each of its entries; its effect on lookups is the
  same sequence on finite functions.
\<close>

locale map_contract =
  fixes ok :: "'m \<Rightarrow> bool" and lookup :: "'m \<Rightarrow> 'k \<Rightarrow> 'v option"
    and insert :: "'k \<Rightarrow> 'v \<Rightarrow> 'm \<Rightarrow> 'm" and remove :: "'k \<Rightarrow> 'm \<Rightarrow> 'm"
  assumes ok_insert: "ok m \<Longrightarrow> ok (insert k v m)"
    and ok_remove: "ok m \<Longrightarrow> ok (remove k m)"
    and lookup_insert: "ok m \<Longrightarrow> lookup (insert k v m) = (lookup m)(k \<mapsto> v)"
    and lookup_remove: "ok m \<Longrightarrow> lookup (remove k m) = (lookup m)(k := None)"
begin

lemma updates:
  "ok m \<Longrightarrow>
   ok (foldl (\<lambda>m (k, v). if del v then remove k m else if acc k then insert k v m else m) m ups) \<and>
   lookup (foldl (\<lambda>m (k, v). if del v then remove k m else if acc k then insert k v m else m) m ups) =
     foldl (\<lambda>f (k, v). if del v then f(k := None) else if acc k then f(k \<mapsto> v) else f) (lookup m) ups"
proof (induction ups arbitrary: m)
  case (Cons u ups)
  obtain k v where "u = (k, v)" by fastforce
  with Cons.prems Cons.IH [of "remove k m"] Cons.IH [of "insert k v m"] Cons.IH [of m]
  show ?case by (simp add: ok_insert ok_remove lookup_insert lookup_remove fun_upd_def)
qed simp

end

section \<open>The sorted list keeps the contract\<close>

lemma bt_ok_simps [simp]:
  "bt_ok []" "bt_ok ((k, v) # m) \<longleftrightarrow> (\<forall>e \<in> set m. k < fst e) \<and> bt_ok m"
  by (auto simp: bt_ok_def)

lemma set_bt_insert: "set (bt_insert k v m) \<subseteq> insert (k, v) (set m)"
  by (induction k v m rule: bt_insert.induct) auto

lemma bt_insert_bound: "(\<forall>e \<in> set m. x < fst e) \<Longrightarrow> x < k \<Longrightarrow> \<forall>e \<in> set (bt_insert k v m). x < fst e"
  using set_bt_insert [of k v m] by auto

lemma bt_ok_insert: "bt_ok m \<Longrightarrow> bt_ok (bt_insert k v m)"
proof (induction k v m rule: bt_insert.induct)
  case (2 k v k' v' m)
  then show ?case using bt_insert_bound [of m k' k v] by (auto dest: order.strict_trans)
qed simp

lemma bt_ok_filter: "bt_ok m \<Longrightarrow> bt_ok (filter P m)"
  by (induction m) auto

lemma bt_ok_remove: "bt_ok m \<Longrightarrow> bt_ok (bt_remove k m)"
  by (simp add: bt_remove_def bt_ok_filter)

lemma bt_lookup_insert: "bt_ok m \<Longrightarrow> map_of (bt_insert k v m) = (map_of m)(k \<mapsto> v)"
  by (induction k v m rule: bt_insert.induct) (auto simp: fun_eq_iff)

lemma bt_lookup_remove: "map_of (bt_remove k m) = (map_of m)(k := None)"
  by (induction m) (auto simp: bt_remove_def fun_eq_iff)

interpretation btree: map_contract bt_ok map_of bt_insert bt_remove
  by unfold_locales (simp_all add: bt_ok_insert bt_lookup_insert bt_lookup_remove bt_ok_remove)

section \<open>Ends and prefixes\<close>

lemma bt_ok_distinct: "bt_ok m \<Longrightarrow> distinct (map fst m)"
  by (simp add: bt_ok_def strict_sorted_iff)

lemma bt_ok_append: "bt_ok (m @ m') \<longleftrightarrow> bt_ok m \<and> bt_ok m' \<and> (\<forall>e \<in> set m. \<forall>e' \<in> set m'. fst e < fst e')"
  by (auto simp: bt_ok_def sorted_wrt_append)

lemma bt_ok_take: "bt_ok m \<Longrightarrow> bt_ok (take n m)" and bt_ok_drop: "bt_ok m \<Longrightarrow> bt_ok (drop n m)"
  by (metis append_take_drop_id bt_ok_append)+

lemma bt_dom: "dom (map_of m) = fst ` set m"
  by (rule dom_map_of_conv_image_fst)

lemma bt_first_least:
  assumes "bt_ok m"
  shows "bt_first m = Some (k, v) \<longleftrightarrow> map_of m k = Some v \<and> dom (map_of m) \<subseteq> {k..}"
proof (cases m)
  case (Cons e m')
  obtain k' v' where e: "e = (k', v')" by fastforce
  have less: "k' < x" if "(x, y) \<in> set m'" for x y using assms that by (auto simp: Cons e)
  show ?thesis
  proof
    assume "bt_first m = Some (k, v)"
    then show "map_of m k = Some v \<and> dom (map_of m) \<subseteq> {k..}" using less by (auto simp: bt_first_def Cons e bt_dom less_imp_le)
  next
    assume k: "map_of m k = Some v \<and> dom (map_of m) \<subseteq> {k..}"
    then have "k \<le> k'" by (auto simp: Cons e)
    moreover have "k \<in> insert k' (fst ` set m')" using k map_of_SomeD [of m k v] by (force simp: Cons e)
    ultimately show "bt_first m = Some (k, v)" using k less by (auto simp: bt_first_def Cons e dest: leD)
  qed
qed (simp add: bt_first_def)

lemma bt_last_greatest:
  assumes "bt_ok m"
  shows "bt_last m = Some (k, v) \<longleftrightarrow> map_of m k = Some v \<and> dom (map_of m) \<subseteq> {..k}"
proof (cases m rule: rev_cases)
  case (snoc m' e)
  obtain k' v' where e: "e = (k', v')" by fastforce
  have less: "x < k'" if "(x, y) \<in> set m'" for x y using assms that by (auto simp: snoc e bt_ok_append)
  have at: "map_of m k' = Some v'" using bt_ok_distinct [OF assms] by (intro map_of_is_SomeI) (simp_all add: snoc e)
  have dom: "dom (map_of m) = insert k' (fst ` set m')" by (simp add: bt_dom snoc e)
  show ?thesis
  proof
    assume "bt_last m = Some (k, v)"
    then have "k = k'" "v = v'" by (auto simp: bt_last_def snoc e)
    then show "map_of m k = Some v \<and> dom (map_of m) \<subseteq> {..k}" using at less unfolding dom by (auto simp: less_imp_le)
  next
    assume k: "map_of m k = Some v \<and> dom (map_of m) \<subseteq> {..k}"
    then have "k' \<le> k" "k \<in> insert k' (fst ` set m')" unfolding dom [symmetric] using at by auto
    then have "k = k'" using less by (auto dest: leD)
    then show "bt_last m = Some (k, v)" using k at by (simp add: bt_last_def snoc e)
  qed
qed (simp add: bt_last_def)

text \<open>The entries of the \<open>n\<close> least and of the \<open>n\<close> greatest keys of a finite map.\<close>

definition least_keys :: "nat \<Rightarrow> ('k::linorder \<rightharpoonup> 'v) \<Rightarrow> 'k \<rightharpoonup> 'v" where
  "least_keys n f = f |` set (take n (sorted_list_of_set (dom f)))"

definition greatest_keys :: "nat \<Rightarrow> ('k::linorder \<rightharpoonup> 'v) \<Rightarrow> 'k \<rightharpoonup> 'v" where
  "greatest_keys n f = f |` set (drop (card (dom f) - n) (sorted_list_of_set (dom f)))"

lemma bt_keys: "bt_ok m \<Longrightarrow> sorted_list_of_set (dom (map_of m)) = map fst m"
  unfolding bt_dom bt_ok_def by (metis list.set_map sorted_list_of_set.idem_if_sorted_distinct strict_sorted_iff)

lemma bt_size: "bt_ok m \<Longrightarrow> card (dom (map_of m)) = length m"
  using distinct_card [OF bt_ok_distinct] by (fastforce simp: bt_dom)

lemma map_of_sublist:
  assumes "distinct (map fst (a @ b @ c))"
  shows "map_of b = map_of (a @ b @ c) |` (fst ` set b)"
proof (rule ext)
  fix x
  have "x \<in> fst ` set b \<Longrightarrow> map_of a x = None" using assms by (auto simp: map_of_eq_None_iff)
  then show "map_of b x = (map_of (a @ b @ c) |` (fst ` set b)) x"
    by (auto simp: restrict_map_def map_add_def map_of_eq_None_iff split: option.split) (force dest: map_of_SomeD)
qed

lemma map_of_take: "bt_ok m \<Longrightarrow> map_of (take n m) = least_keys n (map_of m)"
  using map_of_sublist [of "[]" "take n m" "drop n m"] bt_ok_distinct [of m]
  by (simp add: least_keys_def bt_keys take_map)

lemma map_of_drop: "bt_ok m \<Longrightarrow> map_of (drop (length m - n) m) = greatest_keys n (map_of m)"
  using map_of_sublist [of "take (length m - n) m" "drop (length m - n) m" "[]"] bt_ok_distinct [of m]
  by (simp add: greatest_keys_def bt_keys bt_size drop_map)

end
