(* ===== verification/Order_Book.thy ===== *)
theory Order_Book
  imports BTree_Map Decimal_Api
begin

text \<open>
  The order books of \<^verbatim>\<open>src/src/order_book.rs\<close>: the two sides of a book, the deltas that update it, the queries, and the store of
  the books of all exchanges.  Prices and quantities are decimals over a linearly ordered carrier, which is
  \<^verbatim>\<open>Decimal\<close>'s \<^verbatim>\<open>Ord\<close>; their arithmetic is the argument \<open>D\<close>.
\<close>

section \<open>Books\<close>

datatype side = Bid | Ask

record 'd order_book =
  bids :: "('d \<times> 'd) list"
  asks :: "('d \<times> 'd) list"
  book_update_id :: u64
  book_update_ns :: u64

definition order_book_new :: "'d order_book" where
  "order_book_new = \<lparr>bids = [], asks = [], book_update_id = 0, book_update_ns = 0\<rparr>"

record 'd order_book_delta =
  bid_updates :: "('d \<times> 'd) list"
  ask_updates :: "('d \<times> 'd) list"
  is_snapshot :: bool
  delta_update_id :: u64
  delta_update_ns :: u64

text \<open>The constructors read the clock.\<close>

definition delta_snapshot :: "u64 \<Rightarrow> ('d \<times> 'd) list \<Rightarrow> ('d \<times> 'd) list \<Rightarrow> u64 \<Rightarrow> 'd order_book_delta" where
  "delta_snapshot ts bs as update_id =
     \<lparr>bid_updates = bs, ask_updates = as, is_snapshot = True, delta_update_id = update_id, delta_update_ns = ts\<rparr>"

definition delta_incremental :: "u64 \<Rightarrow> ('d \<times> 'd) list \<Rightarrow> ('d \<times> 'd) list \<Rightarrow> u64 \<Rightarrow> 'd order_book_delta" where
  "delta_incremental ts bs as update_id =
     \<lparr>bid_updates = bs, ask_updates = as, is_snapshot = False, delta_update_id = update_id, delta_update_ns = ts\<rparr>"

definition is_price_sane :: "'d::linorder decimal_arith \<Rightarrow> 'd \<Rightarrow> 'd option \<Rightarrow> bool" where
  "is_price_sane D price reference =
     (case reference of
        None \<Rightarrow> True
      | Some ref_price \<Rightarrow>
          if \<not> dec_zero D < ref_price then True
          else if price \<le> dec_zero D then False
          else let upper = dec_mul D ref_price (dec_from_int D 10);
                   lower = dec_div D ref_price (dec_from_int D 10)
               in lower \<le> price \<and> price \<le> upper)"

text \<open>The loop over the updates of one side, with the flag \<^verbatim>\<open>any_applied\<close>.\<close>

definition apply_level ::
  "'d::linorder decimal_arith \<Rightarrow> 'd option \<Rightarrow> bool \<times> ('d \<times> 'd) list \<Rightarrow> 'd \<times> 'd \<Rightarrow> bool \<times> ('d \<times> 'd) list" where
  "apply_level D reference = (\<lambda>(any_applied, m) (price, qty).
     if qty \<le> dec_zero D then (True, bt_remove price m)
     else if \<not> is_price_sane D price reference then (any_applied, m)
     else (True, bt_insert price qty m))"

abbreviation MAX_LEVELS_PER_SIDE :: usize where "MAX_LEVELS_PER_SIDE \<equiv> 500"

text \<open>The loops that remove the lowest bid and the highest ask while there are too many levels.\<close>

function drop_worst_bids :: "usize \<Rightarrow> ('d \<times> 'd) list \<Rightarrow> ('d \<times> 'd) list" where
  "drop_worst_bids max_levels m =
     (if max_levels < length m then
        (case bt_first m of None \<Rightarrow> m | Some (k, _) \<Rightarrow> drop_worst_bids max_levels (bt_remove k m))
      else m)"
  by auto
termination
  by (relation "measure (\<lambda>(_, m). length m)")
    (auto simp: bt_first_def bt_remove_def le_imp_less_Suc split: list.splits)

function drop_worst_asks :: "usize \<Rightarrow> ('d \<times> 'd) list \<Rightarrow> ('d \<times> 'd) list" where
  "drop_worst_asks max_levels m =
     (if max_levels < length m then
        (case bt_last m of None \<Rightarrow> m | Some (k, _) \<Rightarrow> drop_worst_asks max_levels (bt_remove k m))
      else m)"
  by auto
termination
proof (relation "measure (\<lambda>(_, m). length m)")
  fix max_levels and m :: "('d \<times> 'd) list" and x k v
  assume "bt_last m = Some x" "(k, v) = x"
  then have "m \<noteq> []" "last m = (k, v)" by (auto simp: bt_last_def split: if_splits)
  then have "(k, v) \<in> set m" by (metis last_in_set)
  then show "((max_levels, bt_remove k m), max_levels, m) \<in> measure (\<lambda>(_, m). length m)"
    unfolding bt_remove_def by (auto intro: length_filter_less)
qed simp

declare drop_worst_bids.simps [simp del] drop_worst_asks.simps [simp del]

definition apply_delta :: "'d::linorder decimal_arith \<Rightarrow> 'd order_book_delta \<Rightarrow> 'd order_book \<Rightarrow> 'd order_book" where
  "apply_delta D delta b =
     (if \<not> is_snapshot delta \<and> book_update_id b \<noteq> 0 \<and> delta_update_id delta \<le> book_update_id b then b
      else if \<not> is_snapshot delta \<and> book_update_id b \<noteq> 0 \<and> book_update_id b + 1 < delta_update_id delta
      then b\<lparr>bids := [], asks := [], book_update_id := delta_update_id delta\<rparr>
      else
        let b = (if is_snapshot delta then b\<lparr>bids := [], asks := []\<rparr> else b);
            best_bid_ref = (if \<not> is_snapshot delta then map_option fst (bt_last (bids b)) else None);
            best_ask_ref = (if \<not> is_snapshot delta then map_option fst (bt_first (asks b)) else None);
            (any_applied, bs) = foldl (apply_level D best_bid_ref) (False, bids b) (bid_updates delta);
            (any_applied, as) = foldl (apply_level D best_ask_ref) (any_applied, asks b) (ask_updates delta);
            b = b\<lparr>bids := bs, asks := as\<rparr>;
            b = (if any_applied
                 then b\<lparr>book_update_id := (if book_update_id b < delta_update_id delta then delta_update_id delta
                                          else book_update_id b),
                        book_update_ns := delta_update_ns delta\<rparr>
                 else b)
        in b\<lparr>bids := drop_worst_bids MAX_LEVELS_PER_SIDE (bids b), asks := drop_worst_asks MAX_LEVELS_PER_SIDE (asks b)\<rparr>)"

definition book_trim :: "usize \<Rightarrow> 'd order_book \<Rightarrow> 'd order_book" where
  "book_trim max_levels b =
     b\<lparr>bids := drop_worst_bids max_levels (bids b), asks := drop_worst_asks max_levels (asks b)\<rparr>"

section \<open>Queries\<close>

definition get_best_bid_ask :: "'d order_book \<Rightarrow> ('d \<times> 'd \<times> 'd \<times> 'd) option" where
  "get_best_bid_ask b =
     (case bt_last (bids b) of
        None \<Rightarrow> None
      | Some (bp, bq) \<Rightarrow> (case bt_first (asks b) of None \<Rightarrow> None | Some (ap, aq) \<Rightarrow> Some (bp, bq, ap, aq)))"

text \<open>The walk over the levels: the notional and the quantity taken so far.\<close>

fun depth_walk :: "'d::linorder decimal_arith \<Rightarrow> 'd \<Rightarrow> ('d \<times> 'd) list \<Rightarrow> 'd \<times> 'd \<Rightarrow> 'd \<times> 'd" where
  "depth_walk D max_usd [] acc = acc"
| "depth_walk D max_usd ((price, qty) # levels) (cum_usd, cum_qty) =
     (if price \<le> dec_zero D then depth_walk D max_usd levels (cum_usd, cum_qty)
      else
        let level_usd = dec_mul D qty price; remaining = dec_sub D max_usd cum_usd
        in if remaining \<le> dec_zero D then (cum_usd, cum_qty)
           else let fill_usd = (if level_usd \<le> remaining then level_usd else remaining);
                    fill_qty = dec_div D fill_usd price
                in depth_walk D max_usd levels (dec_add D cum_usd fill_usd, dec_add D cum_qty fill_qty))"

definition side_levels :: "'d order_book \<Rightarrow> side \<Rightarrow> ('d \<times> 'd) list" where
  "side_levels b s = (case s of Bid \<Rightarrow> rev (bids b) | Ask \<Rightarrow> asks b)"

definition get_depth_value :: "'d::linorder decimal_arith \<Rightarrow> 'd order_book \<Rightarrow> side \<Rightarrow> 'd \<Rightarrow> 'd" where
  "get_depth_value D b s max_usd =
     (if max_usd \<le> dec_zero D then dec_zero D
      else let (cum_usd, cum_qty) = depth_walk D max_usd (side_levels b s) (dec_zero D, dec_zero D)
           in if dec_zero D < cum_qty then dec_div D cum_usd cum_qty else dec_zero D)"

section \<open>The store of books\<close>

text \<open>The two levels of concurrent maps are one finite function each; a delta to a book is atomic under its entry's lock.\<close>

type_synonym 'd book_store = "u16 \<Rightarrow> (string \<Rightarrow> 'd order_book option) option"

definition normalize_symbol :: "string \<Rightarrow> string" where
  "normalize_symbol s = filter (\<lambda>c. c \<noteq> CHR ''/'') (filter (\<lambda>c. c \<noteq> CHR ''_'') (filter (\<lambda>c. c \<noteq> CHR ''-'') (to_uppercase s)))"

definition manager_apply_delta ::
  "'d::linorder decimal_arith \<Rightarrow> u16 \<Rightarrow> string \<Rightarrow> 'd order_book_delta \<Rightarrow> 'd book_store \<Rightarrow> 'd book_store" where
  "manager_apply_delta D exch raw delta store =
     (let symbol = normalize_symbol raw;
          entries = (case store exch of None \<Rightarrow> Map.empty | Some m \<Rightarrow> m);
          book = (case entries symbol of None \<Rightarrow> order_book_new | Some b \<Rightarrow> b)
      in store(exch \<mapsto> entries(symbol \<mapsto> apply_delta D delta book)))"

definition get_book :: "u16 \<Rightarrow> string \<Rightarrow> 'd book_store \<Rightarrow> 'd order_book option" where
  "get_book exch raw store =
     (case store exch of None \<Rightarrow> None | Some m \<Rightarrow> m (normalize_symbol raw))"

definition manager_best_bid_ask :: "u16 \<Rightarrow> string \<Rightarrow> 'd book_store \<Rightarrow> ('d \<times> 'd \<times> 'd \<times> 'd) option" where
  "manager_best_bid_ask exch raw store =
     (case store exch of
        None \<Rightarrow> None
      | Some m \<Rightarrow> (case m (normalize_symbol raw) of None \<Rightarrow> None | Some b \<Rightarrow> get_best_bid_ask b))"

definition clear_exchange :: "u16 \<Rightarrow> 'd book_store \<Rightarrow> 'd book_store" where
  "clear_exchange exch store = store(exch := None)"

section \<open>The invariant\<close>

definition book_ok :: "'d::linorder decimal_arith \<Rightarrow> 'd order_book \<Rightarrow> bool" where
  "book_ok D b \<longleftrightarrow> bt_ok (bids b) \<and> bt_ok (asks b) \<and> length (bids b) \<le> MAX_LEVELS_PER_SIDE \<and>
     length (asks b) \<le> MAX_LEVELS_PER_SIDE \<and> (\<forall>e \<in> set (bids b) \<union> set (asks b). dec_zero D < snd e)"

text \<open>The loops over the worst levels keep the best ones.\<close>

lemma bt_remove_first: "bt_ok ((k, v) # m) \<Longrightarrow> bt_remove k ((k, v) # m) = m"
  by (auto simp: bt_remove_def filter_id_conv)

lemma bt_remove_last: "bt_ok (m @ [(k, v)]) \<Longrightarrow> bt_remove k (m @ [(k, v)]) = m"
  by (auto simp: bt_remove_def filter_id_conv bt_ok_append)

lemma drop_worst_bids_drop: "bt_ok m \<Longrightarrow> drop_worst_bids n m = drop (length m - n) m"
proof (induction m)
  case (Cons e m)
  obtain k v where e: "e = (k, v)" by fastforce
  have "drop_worst_bids n (e # m) = (if n < Suc (length m) then drop_worst_bids n m else e # m)"
    using bt_remove_first [of k v m] Cons.prems
    by (subst drop_worst_bids.simps) (simp add: e bt_first_def)
  with Cons show ?case by (auto simp: e Suc_diff_le not_less)
qed (simp add: drop_worst_bids.simps)

lemma drop_worst_asks_take: "bt_ok m \<Longrightarrow> drop_worst_asks n m = take n m"
proof (induction m rule: rev_induct)
  case (snoc e m)
  obtain k v where e: "e = (k, v)" by fastforce
  have "drop_worst_asks n (m @ [e]) = (if n < Suc (length m) then drop_worst_asks n m else m @ [e])"
    using bt_remove_last [of m k v] snoc.prems
    by (subst drop_worst_asks.simps) (simp add: e bt_last_def)
  with snoc show ?case by (auto simp: e bt_ok_append not_less)
qed (simp add: drop_worst_asks.simps)

text \<open>The loop over the updates of a side, without its flag: the update of the map contract.\<close>

abbreviation level_updates :: "'d::linorder decimal_arith \<Rightarrow> 'd option \<Rightarrow> ('d \<times> 'd) list \<Rightarrow> ('d \<times> 'd) list \<Rightarrow> ('d \<times> 'd) list" where
  "level_updates D reference m ups \<equiv>
     foldl (\<lambda>m (k, v). if v \<le> dec_zero D then bt_remove k m else if is_price_sane D k reference then bt_insert k v m else m) m ups"

definition takes_effect :: "'d::linorder decimal_arith \<Rightarrow> 'd option \<Rightarrow> 'd \<times> 'd \<Rightarrow> bool" where
  "takes_effect D reference = (\<lambda>(p, q). q \<le> dec_zero D \<or> is_price_sane D p reference)"

lemma apply_levels_split:
  "foldl (apply_level D reference) (any, m) ups = (any \<or> (\<exists>u \<in> set ups. takes_effect D reference u), level_updates D reference m ups)"
  by (induction ups arbitrary: any m) (auto simp: apply_level_def takes_effect_def)

lemma level_updates_positive:
  "\<forall>e \<in> set m. dec_zero D < snd e \<Longrightarrow> \<forall>e \<in> set (level_updates D reference m ups). dec_zero D < snd e"
proof (induction ups arbitrary: m)
  case (Cons u ups)
  obtain p q where u: "u = (p, q)" by fastforce
  have rem: "\<forall>e \<in> set (bt_remove p m). dec_zero D < snd e" using Cons.prems by (simp add: bt_remove_def)
  have ins: "\<forall>e \<in> set (bt_insert p q m). dec_zero D < snd e" if "\<not> q \<le> dec_zero D"
    using Cons.prems set_bt_insert [of p q m] that by fastforce
  consider "q \<le> dec_zero D" | "\<not> q \<le> dec_zero D" "is_price_sane D p reference" | "\<not> q \<le> dec_zero D" "\<not> is_price_sane D p reference"
    by blast
  then show ?case
    by cases (use Cons.IH [OF rem] Cons.IH [OF ins] Cons.IH [OF Cons.prems] in \<open>simp_all add: u\<close>)
qed simp

lemmas level_updates_ok = btree.updates [THEN conjunct1]
lemmas level_updates_lookup = btree.updates [THEN conjunct2]

end
