(* ===== verification/Order_Book_Updates.thy ===== *)
theory Order_Book_Updates
  imports Order_Book
begin

text \<open>
  What deltas do to a book: an abstract book is a pair of finite functions from prices to quantities, on which a delta deletes,
  stores or refuses each of its levels; the sorted lists implement it.  Every book the code builds is sorted,
  bounded and has positive quantities.  The sequence numbers of a book can fall behind its feed.
\<close>

section \<open>The specification\<close>

text \<open>
  The prices that a side takes: when its best price is positive, the positive ones between a tenth of it and ten times it;
  otherwise all of them.
\<close>

definition acceptable :: "'d::linorder decimal_arith \<Rightarrow> 'd option \<Rightarrow> 'd \<Rightarrow> bool" where
  "acceptable D best p \<longleftrightarrow>
     (\<forall>r. best = Some r \<and> dec_zero D < r \<longrightarrow>
        dec_zero D < p \<and> dec_div D r (dec_from_int D 10) \<le> p \<and> p \<le> dec_mul D r (dec_from_int D 10))"

lemma price_sane_acceptable: "is_price_sane D p best = acceptable D best p"
  by (auto simp: is_price_sane_def acceptable_def Let_def split: option.split)

definition spec_levels :: "'d::linorder decimal_arith \<Rightarrow> 'd option \<Rightarrow> ('d \<rightharpoonup> 'd) \<Rightarrow> ('d \<times> 'd) list \<Rightarrow> 'd \<rightharpoonup> 'd" where
  "spec_levels D reference f ups =
     foldl (\<lambda>f (p, q). if q \<le> dec_zero D then f(p := None) else if acceptable D reference p then f(p \<mapsto> q) else f) f ups"

lemma spec_levels_code:
  "spec_levels D reference f ups =
     foldl (\<lambda>f (p, q). if q \<le> dec_zero D then f(p := None) else if is_price_sane D p reference then f(p \<mapsto> q) else f) f ups"
  unfolding spec_levels_def price_sane_acceptable ..

definition spec_touches :: "'d::linorder decimal_arith \<Rightarrow> 'd option \<Rightarrow> ('d \<times> 'd) list \<Rightarrow> bool" where
  "spec_touches D reference ups \<longleftrightarrow> (\<exists>(p, q) \<in> set ups. q \<le> dec_zero D \<or> acceptable D reference p)"

definition highest :: "('d::linorder \<rightharpoonup> 'd) \<Rightarrow> 'd option" where
  "highest f = (if dom f = {} then None else Some (Max (dom f)))"

definition lowest :: "('d::linorder \<rightharpoonup> 'd) \<Rightarrow> 'd option" where
  "lowest f = (if dom f = {} then None else Some (Min (dom f)))"

lemma highest_last: "bt_ok m \<Longrightarrow> map_option fst (bt_last m) = highest (map_of m)"
proof (cases "bt_last m")
  case (Some e)
  moreover assume ok: "bt_ok m"
  ultimately have "map_of m (fst e) = Some (snd e)" "dom (map_of m) \<subseteq> {..fst e}"
    using bt_last_greatest [OF ok, of "fst e" "snd e"] by auto
  then have "Max (dom (map_of m)) = fst e" by (intro Max_eqI) (auto simp: finite_dom_map_of)
  with Some \<open>map_of m (fst e) = Some (snd e)\<close> show ?thesis by (auto simp: highest_def)
qed (simp add: bt_last_def highest_def split: if_splits)

lemma lowest_first: "bt_ok m \<Longrightarrow> map_option fst (bt_first m) = lowest (map_of m)"
proof (cases "bt_first m")
  case (Some e)
  moreover assume ok: "bt_ok m"
  ultimately have "map_of m (fst e) = Some (snd e)" "dom (map_of m) \<subseteq> {fst e..}"
    using bt_first_least [OF ok, of "fst e" "snd e"] by auto
  then have "Min (dom (map_of m)) = fst e" by (intro Min_eqI) (auto simp: finite_dom_map_of)
  with Some \<open>map_of m (fst e) = Some (snd e)\<close> show ?thesis by (auto simp: lowest_def)
qed (simp add: bt_first_def lowest_def split: list.splits)

section \<open>Deltas\<close>

definition stale :: "'d order_book_delta \<Rightarrow> 'd order_book \<Rightarrow> bool" where
  "stale d b \<longleftrightarrow> \<not> is_snapshot d \<and> book_update_id b \<noteq> 0 \<and> delta_update_id d \<le> book_update_id b"

definition after_gap :: "'d order_book_delta \<Rightarrow> 'd order_book \<Rightarrow> bool" where
  "after_gap d b \<longleftrightarrow> \<not> is_snapshot d \<and> book_update_id b \<noteq> 0 \<and> book_update_id b + 1 < delta_update_id d"

definition base_side :: "'d order_book_delta \<Rightarrow> ('d \<times> 'd) list \<Rightarrow> ('d \<times> 'd) list" where
  "base_side d m = (if is_snapshot d then [] else m)"

text \<open>Whether a delta changes anything: some level is deleted or accepted.\<close>

definition effective :: "'d::linorder decimal_arith \<Rightarrow> 'd order_book_delta \<Rightarrow> 'd order_book \<Rightarrow> bool" where
  "effective D d b \<longleftrightarrow>
     (\<exists>u \<in> set (bid_updates d). takes_effect D (map_option fst (bt_last (base_side d (bids b)))) u) \<or>
     (\<exists>u \<in> set (ask_updates d). takes_effect D (map_option fst (bt_first (base_side d (asks b)))) u)"

lemma apply_delta_stale: "stale d b \<Longrightarrow> apply_delta D d b = b"
  by (simp add: apply_delta_def stale_def)

lemma apply_delta_gap:
  "\<not> stale d b \<Longrightarrow> after_gap d b \<Longrightarrow> apply_delta D d b = b\<lparr>bids := [], asks := [], book_update_id := delta_update_id d\<rparr>"
  by (simp add: apply_delta_def stale_def after_gap_def)

lemma apply_delta_usable:
  assumes "\<not> stale d b" "\<not> after_gap d b"
  shows "bids (apply_delta D d b) = drop_worst_bids MAX_LEVELS_PER_SIDE
      (level_updates D (map_option fst (bt_last (base_side d (bids b)))) (base_side d (bids b)) (bid_updates d))"
    and "asks (apply_delta D d b) = drop_worst_asks MAX_LEVELS_PER_SIDE
      (level_updates D (map_option fst (bt_first (base_side d (asks b)))) (base_side d (asks b)) (ask_updates d))"
    and "book_update_id (apply_delta D d b) =
      (if effective D d b then max (delta_update_id d) (book_update_id b) else book_update_id b)"
    and "book_update_ns (apply_delta D d b) = (if effective D d b then delta_update_ns d else book_update_ns b)"
proof -
  let ?rb = "map_option fst (bt_last (base_side d (bids b)))" and ?ra = "map_option fst (bt_first (base_side d (asks b)))"
  have nostale: "(\<not> is_snapshot d \<and> book_update_id b \<noteq> 0 \<and> delta_update_id d \<le> book_update_id b) = False"
    using assms(1) by (simp add: stale_def)
  have nogap: "(\<not> is_snapshot d \<and> book_update_id b \<noteq> 0 \<and> book_update_id b + 1 < delta_update_id d) = False"
    using assms(2) by (simp add: after_gap_def)
  let ?b = "if is_snapshot d then b\<lparr>bids := [], asks := []\<rparr> else b"
  have base: "bids ?b = base_side d (bids b)" "asks ?b = base_side d (asks b)"
    "book_update_id ?b = book_update_id b" "book_update_ns ?b = book_update_ns b" by (simp_all add: base_side_def)
  have refs: "(if \<not> is_snapshot d then map_option fst (bt_last (base_side d (bids b))) else None) = ?rb"
    "(if \<not> is_snapshot d then map_option fst (bt_first (base_side d (asks b))) else None) = ?ra"
    by (simp_all add: base_side_def bt_last_def bt_first_def)
  have eff: "((False \<or> (\<exists>u \<in> set (bid_updates d). takes_effect D ?rb u)) \<or> (\<exists>u \<in> set (ask_updates d). takes_effect D ?ra u)) =
      effective D d b" by (simp add: effective_def)
  note unfolded = apply_delta_def [of D d b, unfolded nostale nogap if_False Let_def base refs apply_levels_split prod.case eff]
  show "bids (apply_delta D d b) = drop_worst_bids MAX_LEVELS_PER_SIDE (level_updates D ?rb (base_side d (bids b)) (bid_updates d))"
    unfolding unfolded by simp
  show "asks (apply_delta D d b) = drop_worst_asks MAX_LEVELS_PER_SIDE (level_updates D ?ra (base_side d (asks b)) (ask_updates d))"
    unfolding unfolded by simp
  show "book_update_id (apply_delta D d b) = (if effective D d b then max (delta_update_id d) (book_update_id b) else book_update_id b)"
    unfolding unfolded by (auto simp: max_def)
  show "book_update_ns (apply_delta D d b) = (if effective D d b then delta_update_ns d else book_update_ns b)"
    unfolding unfolded by simp
qed

lemma base_side_ok: "bt_ok m \<Longrightarrow> bt_ok (base_side d m)" and base_side_subset: "set (base_side d m) \<subseteq> set m"
  by (simp_all add: base_side_def)

lemma side_ok:
  assumes "bt_ok m"
  shows "bt_ok (drop_worst_bids n (level_updates D r m ups))" "length (drop_worst_bids n (level_updates D r m ups)) \<le> n"
    "bt_ok (drop_worst_asks n (level_updates D r m ups))" "length (drop_worst_asks n (level_updates D r m ups)) \<le> n"
    "map_of (drop_worst_bids n (level_updates D r m ups)) = greatest_keys n (spec_levels D r (map_of m) ups)"
    "map_of (drop_worst_asks n (level_updates D r m ups)) = least_keys n (spec_levels D r (map_of m) ups)"
  using level_updates_ok [OF assms, of "\<lambda>v. v \<le> dec_zero D" "\<lambda>k. is_price_sane D k r" ups]
    level_updates_lookup [OF assms, of "\<lambda>v. v \<le> dec_zero D" "\<lambda>k. is_price_sane D k r" ups]
  by (simp_all add: drop_worst_bids_drop drop_worst_asks_take bt_ok_drop bt_ok_take map_of_drop map_of_take spec_levels_code)

lemma side_positive:
  assumes "bt_ok m" "\<forall>e \<in> set m. dec_zero D < snd e"
  shows "\<forall>e \<in> set (drop_worst_bids n (level_updates D r m ups)). dec_zero D < snd e"
    "\<forall>e \<in> set (drop_worst_asks n (level_updates D r m ups)). dec_zero D < snd e"
  using level_updates_positive [OF assms(2), of r ups]
    level_updates_ok [OF assms(1), of "\<lambda>v. v \<le> dec_zero D" "\<lambda>k. is_price_sane D k r" ups]
  by (auto simp: drop_worst_bids_drop drop_worst_asks_take dest: in_set_dropD in_set_takeD)

lemma apply_delta_ok: "book_ok D b \<Longrightarrow> book_ok D (apply_delta D d b)"
proof -
  assume ok: "book_ok D b"
  then have b: "bt_ok (base_side d (bids b))" "bt_ok (base_side d (asks b))"
    "\<forall>e \<in> set (base_side d (bids b)). dec_zero D < snd e" "\<forall>e \<in> set (base_side d (asks b)). dec_zero D < snd e"
    by (auto simp: book_ok_def base_side_def)
  consider "stale d b" | "\<not> stale d b" "after_gap d b" | "\<not> stale d b" "\<not> after_gap d b" by blast
  then show ?thesis
  proof cases
    case 3
    show ?thesis
      unfolding book_ok_def apply_delta_usable [OF 3] ball_Un
      by (intro conjI side_ok(1,2) [OF b(1)] side_ok(3,4) [OF b(2)] side_positive(1) [OF b(1,3)] side_positive(2) [OF b(2,4)])
  qed (use ok in \<open>simp_all add: apply_delta_stale apply_delta_gap book_ok_def\<close>)
qed

lemma book_trim_ok: "book_ok D b \<Longrightarrow> book_ok D (book_trim n b)"
  by (auto simp: book_ok_def book_trim_def drop_worst_bids_drop drop_worst_asks_take bt_ok_drop bt_ok_take
      dest: in_set_dropD in_set_takeD)

datatype 'd book_op = Delta "'d order_book_delta" | Trim usize

fun book_step :: "'d::linorder decimal_arith \<Rightarrow> 'd order_book \<Rightarrow> 'd book_op \<Rightarrow> 'd order_book" where
  "book_step D b (Delta d) = apply_delta D d b"
| "book_step D b (Trim n) = book_trim n b"

interpretation books: guarded_machine "book_step D" "book_ok D" for D :: "'d::linorder decimal_arith"
proof
  fix b and op :: "'d book_op"
  assume "book_ok D b"
  then show "book_ok D (book_step D b op)" by (cases op) (simp_all add: apply_delta_ok book_trim_ok)
qed

lemma book_new_ok: "book_ok D order_book_new"
  by (simp add: book_ok_def order_book_new_def)

text \<open>
  C16: the invariant of the books.  Whatever deltas and trims a fresh book has seen, both sides are strictly sorted by price and have at
  most 500 levels, every quantity is positive, and the best bid and ask that it reports are the highest
  bid price and the lowest ask price it holds, with their quantities; it reports none only when a side is empty.
\<close>

theorem book_invariant:
  "let b = run (book_step D) order_book_new ops
   in book_ok D b \<and>
      (case get_best_bid_ask b of
         None \<Rightarrow> bids b = [] \<or> asks b = []
       | Some (bp, bq, ap, aq) \<Rightarrow>
           map_of (bids b) bp = Some bq \<and> dom (map_of (bids b)) \<subseteq> {..bp} \<and>
           map_of (asks b) ap = Some aq \<and> dom (map_of (asks b)) \<subseteq> {ap..})"
proof -
  define b where "b = run (book_step D) order_book_new ops"
  have ok: "book_ok D b" unfolding b_def by (rule books.inv_run [OF book_new_ok])
  then have s: "bt_ok (bids b)" "bt_ok (asks b)" by (auto simp: book_ok_def)
  have "case get_best_bid_ask b of
         None \<Rightarrow> bids b = [] \<or> asks b = []
       | Some (bp, bq, ap, aq) \<Rightarrow>
           map_of (bids b) bp = Some bq \<and> dom (map_of (bids b)) \<subseteq> {..bp} \<and>
           map_of (asks b) ap = Some aq \<and> dom (map_of (asks b)) \<subseteq> {ap..}"
  proof (cases "bids b = [] \<or> asks b = []")
    case True
    then show ?thesis by (auto simp: get_best_bid_ask_def bt_last_def bt_first_def split: list.split prod.split)
  next
    case False
    then obtain bp bq ap aq where "bt_last (bids b) = Some (bp, bq)" "bt_first (asks b) = Some (ap, aq)"
      by (cases "asks b") (auto simp: bt_last_def bt_first_def, metis prod.collapse)
    moreover from this have "map_of (bids b) bp = Some bq \<and> dom (map_of (bids b)) \<subseteq> {..bp}"
      "map_of (asks b) ap = Some aq \<and> dom (map_of (asks b)) \<subseteq> {ap..}"
      using bt_last_greatest [OF s(1)] bt_first_least [OF s(2)] by blast+
    ultimately show ?thesis by (simp add: get_best_bid_ask_def)
  qed
  with ok show ?thesis by (simp add: Let_def flip: b_def)
qed

text \<open>
  C15: a delta refines its specification.  A stale increment changes nothing; one after a gap in the sequence empties the book and takes over its
  number; any other delta updates each side level by level and keeps the 500 best levels.  A level whose quantity is not positive deletes its
  price.  Any other level is stored when its price is acceptable and skipped when it is not: when the side had, before the
  delta, a best price above zero (a snapshot starts from an empty side, which has none), the acceptable prices are the positive ones between a tenth of
  the best price and ten times it; when the side was empty or its best price was not positive, every price is acceptable.
  The sequence number and the time are updated exactly when the delta deletes a price or stores a level.
\<close>

theorem apply_delta_refines:
  assumes "book_ok D b"
  shows "let b' = apply_delta D d b;
             fb = map_of (base_side d (bids b)); fa = map_of (base_side d (asks b))
         in if stale d b then b' = b
            else if after_gap d b then b' = b\<lparr>bids := [], asks := [], book_update_id := delta_update_id d\<rparr>
            else map_of (bids b') = greatest_keys 500 (spec_levels D (highest fb) fb (bid_updates d)) \<and>
                 map_of (asks b') = least_keys 500 (spec_levels D (lowest fa) fa (ask_updates d)) \<and>
                 (book_update_id b', book_update_ns b') =
                   (if spec_touches D (highest fb) (bid_updates d) \<or> spec_touches D (lowest fa) (ask_updates d)
                    then (max (delta_update_id d) (book_update_id b), delta_update_ns d)
                    else (book_update_id b, book_update_ns b))"
proof -
  have b: "bt_ok (base_side d (bids b))" "bt_ok (base_side d (asks b))" using assms by (auto simp: book_ok_def base_side_def)
  have eff: "effective D d b \<longleftrightarrow> spec_touches D (highest (map_of (base_side d (bids b)))) (bid_updates d) \<or>
      spec_touches D (lowest (map_of (base_side d (asks b)))) (ask_updates d)"
    by (auto simp: effective_def takes_effect_def spec_touches_def price_sane_acceptable highest_last [OF b(1)] lowest_first [OF b(2)])
  show ?thesis
    by (simp add: Let_def eff apply_delta_stale apply_delta_gap apply_delta_usable side_ok [OF b(1)] side_ok [OF b(2)]
        highest_last [OF b(1)] lowest_first [OF b(2)])
qed

definition sample_book :: "int order_book" where
  "sample_book = \<lparr>bids = [(98, 5), (99, 2)], asks = [(101, 4)], book_update_id = 7, book_update_ns = 1000\<rparr>"

definition sample_delta :: "int order_book_delta" where
  "sample_delta = \<lparr>bid_updates = [(99, 0), (97, 3), (5000, 1)], ask_updates = [(100, 6)], is_snapshot = False,
     delta_update_id = 8, delta_update_ns = 2000\<rparr>"

definition int_arith :: "int decimal_arith" where
  "int_arith = \<lparr>dec_zero = 0, dec_lt = (<), dec_mul = (*), dec_neg = uminus, dec_from_int = id,
     dec_to_u64 = (\<lambda>x. if 0 \<le> x \<and> x < 2 ^ 64 then Some (word_of_int x) else None),
     dec_to_string = (\<lambda>x. digits_of (nat x)), dec_add = (+), dec_sub = (-), dec_div = (div)\<rparr>"

lemma sample_book_ok: "book_ok int_arith sample_book"
  by (auto simp: book_ok_def sample_book_def int_arith_def)

theorem apply_delta_refines_witness:
  "book_ok int_arith sample_book \<and>
   map_of (bids (apply_delta int_arith sample_delta sample_book)) =
     greatest_keys 500 (spec_levels int_arith (Some 99) [98 \<mapsto> 5, 99 \<mapsto> 2] [(99, 0), (97, 3), (5000, 1)])"
proof -
  have live: "\<not> stale sample_delta sample_book" "\<not> after_gap sample_delta sample_book"
    by (simp_all add: stale_def after_gap_def sample_delta_def sample_book_def)
  have side: "map_of (base_side sample_delta (bids sample_book)) = [98 \<mapsto> 5, 99 \<mapsto> 2]"
    by (auto simp: base_side_def sample_delta_def sample_book_def)
  have "highest [98 \<mapsto> 5, 99 \<mapsto> (2::int)] = Some (99::int)" by (simp add: highest_def)
  then show ?thesis
    using apply_delta_refines [OF sample_book_ok, of sample_delta] live sample_book_ok
    unfolding Let_def side by (simp add: sample_delta_def)
qed

section \<open>Sequence numbers\<close>

text \<open>
  the sequence number of a book can fall behind its feed.  A snapshot whose number is not above the book's replaces the levels but
  keeps the number, so all increments up to the old number are ignored and the snapshot is never updated by them.  An
  increment with the expected number of which every level is refused leaves the number as it was, so the next
  one is taken for a gap and empties the book.
\<close>

theorem sequence_falls_behind:
  assumes "book_update_id b \<noteq> 0"
  shows "(is_snapshot s \<and> delta_update_id s \<le> book_update_id b \<and>
          (\<forall>d \<in> set ds. \<not> is_snapshot d \<and> delta_update_id d \<le> book_update_id b) \<longrightarrow>
          foldl (\<lambda>b d. apply_delta D d b) (apply_delta D s b) ds = apply_delta D s b) \<and>
         (\<not> is_snapshot d1 \<and> \<not> effective D d1 b \<and> delta_update_id d1 = book_update_id b + 1 \<and>
          \<not> is_snapshot d2 \<and> book_update_id b < delta_update_id d1 \<and> delta_update_id d1 < delta_update_id d2 \<longrightarrow>
          bids (apply_delta D d2 (apply_delta D d1 b)) = [] \<and> asks (apply_delta D d2 (apply_delta D d1 b)) = [])"
proof (intro conjI impI)
  assume s: "is_snapshot s \<and> delta_update_id s \<le> book_update_id b \<and>
    (\<forall>d \<in> set ds. \<not> is_snapshot d \<and> delta_update_id d \<le> book_update_id b)"
  then have "\<not> stale s b" "\<not> after_gap s b" by (simp_all add: stale_def after_gap_def)
  then have "book_update_id (apply_delta D s b) = book_update_id b" using s by (simp add: apply_delta_usable(3) max_def)
  then have "stale d (apply_delta D s b)" if "d \<in> set ds" for d using s that assms by (simp add: stale_def)
  then show "foldl (\<lambda>b d. apply_delta D d b) (apply_delta D s b) ds = apply_delta D s b"
    by (induction ds) (simp_all add: apply_delta_stale)
next
  assume d: "\<not> is_snapshot d1 \<and> \<not> effective D d1 b \<and> delta_update_id d1 = book_update_id b + 1 \<and>
    \<not> is_snapshot d2 \<and> book_update_id b < delta_update_id d1 \<and> delta_update_id d1 < delta_update_id d2"
  then have "\<not> stale d1 b" "\<not> after_gap d1 b" by (auto simp: stale_def after_gap_def)
  then have "book_update_id (apply_delta D d1 b) = book_update_id b" using d by (simp add: apply_delta_usable(3))
  then have "\<not> stale d2 (apply_delta D d1 b)" "after_gap d2 (apply_delta D d1 b)"
    using d assms by (auto simp: stale_def after_gap_def)
  then show "bids (apply_delta D d2 (apply_delta D d1 b)) = []" "asks (apply_delta D d2 (apply_delta D d1 b)) = []"
    by (simp_all add: apply_delta_gap)
qed

theorem sequence_falls_behind_witness:
  "bids (apply_delta int_arith (sample_delta\<lparr>delta_update_id := 9\<rparr>)
      (apply_delta int_arith (sample_delta\<lparr>bid_updates := [(5000, 1)], ask_updates := []\<rparr>) sample_book)) = []"
proof -
  let ?d1 = "sample_delta\<lparr>bid_updates := [(5000, 1)], ask_updates := []\<rparr>" and ?d2 = "sample_delta\<lparr>delta_update_id := 9\<rparr>"
  have "\<not> effective int_arith ?d1 sample_book"
    by (simp add: effective_def takes_effect_def is_price_sane_def base_side_def bt_last_def sample_book_def sample_delta_def int_arith_def)
  then show ?thesis
    using sequence_falls_behind [of sample_book sample_delta "[]" int_arith ?d1 ?d2] by (simp add: sample_book_def sample_delta_def)
qed

section \<open>Walking the book\<close>

text \<open>On an exact carrier the walk takes exactly the smaller of the amount asked for and the notional of the side.\<close>

definition notional_of :: "('d::linordered_idom \<times> 'd) list \<Rightarrow> 'd" where
  "notional_of levels = sum_list (map (\<lambda>(p, q). q * p) (filter (\<lambda>(p, q). 0 < p) levels))"

lemma notional_of_simps [simp]:
  "notional_of [] = 0"
  "notional_of ((p, q) # levels) = (if 0 < p then q * p + notional_of levels else notional_of levels)"
  by (simp_all add: notional_of_def)

lemma notional_nonneg: "\<forall>e \<in> set levels. 0 < snd e \<Longrightarrow> 0 \<le> notional_of levels"
  by (induction levels) (auto simp: less_imp_le)

lemma depth_walk_spends:
  assumes "exact_arith D" "\<forall>e \<in> set levels. 0 < snd e" "cum_usd \<le> max_usd"
  shows "fst (depth_walk D max_usd levels (cum_usd, cum_qty)) = min max_usd (cum_usd + notional_of levels)"
  using assms(2,3)
proof (induction levels arbitrary: cum_usd cum_qty)
  case (Cons e levels)
  obtain price qty where e: "e = (price, qty)" by fastforce
  have ops: "dec_zero D = 0" "dec_add D = (+)" "dec_sub D = (-)" "dec_mul D = (*)" using assms(1) by (simp_all add: exact_arith_def)
  have pos: "\<forall>e \<in> set levels. 0 < snd e" "0 < qty" using Cons.prems(1) by (simp_all add: e)
  note nn = notional_nonneg [OF pos(1)]
  consider "\<not> 0 < price" | "0 < price" "cum_usd < max_usd" | "0 < price" "cum_usd = max_usd"
    using Cons.prems(2) by fastforce
  then show ?case
  proof cases
    case 1
    then show ?thesis using Cons.IH [OF pos(1) Cons.prems(2)] by (simp add: e ops)
  next
    case 2
    let ?fill = "if qty * price \<le> max_usd - cum_usd then qty * price else max_usd - cum_usd"
    have "cum_usd + ?fill \<le> max_usd" by (simp add: algebra_simps)
    then have "fst (depth_walk D max_usd levels (cum_usd + ?fill, cum_qty + dec_div D ?fill price)) =
        min max_usd (cum_usd + ?fill + notional_of levels)" by (rule Cons.IH [OF pos(1)])
    moreover have "min max_usd (cum_usd + ?fill + notional_of levels) = min max_usd (cum_usd + notional_of (e # levels))"
      using 2 nn by (auto simp: e min_def algebra_simps)
    ultimately show ?thesis using 2 by (simp add: e ops Let_def not_le)
  next
    case 3
    moreover have "0 \<le> qty * price" using 3 pos(2) by (simp add: less_imp_le)
    ultimately show ?thesis using nn by (simp add: e ops Let_def min_def)
  qed
qed (simp add: min_def)

end
