(* ===== verification/Json_Values.thy ===== *)
theory Json_Values
  imports Rust_Prelude
begin

text \<open>
  JSON values: the value type of \<^verbatim>\<open>serde_json\<close> and the accessors that the parsers of the repository call.  An object is the list of its
  entries.  Floating-point numbers are an arbitrary carrier.
\<close>

section \<open>JSON values\<close>

datatype 'f json_number = PosInt u64 | NegInt i64 | Float 'f

datatype 'f json =
    JNull
  | JBool bool
  | JNumber "'f json_number"
  | JString string
  | JArray "'f json list"
  | JObject "(string \<times> 'f json) list"

definition json_get :: "string \<Rightarrow> 'f json \<Rightarrow> 'f json option" where
  "json_get k v = (case v of JObject m \<Rightarrow> map_of m k | _ \<Rightarrow> None)"

definition as_array :: "'f json \<Rightarrow> 'f json list option" where
  "as_array v = (case v of JArray xs \<Rightarrow> Some xs | _ \<Rightarrow> None)"

definition as_str :: "'f json \<Rightarrow> string option" where
  "as_str v = (case v of JString s \<Rightarrow> Some s | _ \<Rightarrow> None)"

definition as_u64 :: "'f json \<Rightarrow> u64 option" where
  "as_u64 v = (case v of JNumber (PosInt n) \<Rightarrow> Some n | _ \<Rightarrow> None)"

definition as_i64 :: "'f json \<Rightarrow> i64 option" where
  "as_i64 v = (case v of JNumber (PosInt n) \<Rightarrow> (if unat n < 2 ^ 63 then Some n else None) | JNumber (NegInt n) \<Rightarrow> Some n | _ \<Rightarrow> None)"

definition is_object :: "'f json \<Rightarrow> bool" where
  "is_object v = (case v of JObject _ \<Rightarrow> True | _ \<Rightarrow> False)"

text \<open>\<^verbatim>\<open>a.or_else(|| b)\<close>, \<^verbatim>\<open>a.and_then(f)\<close> and \<^verbatim>\<open>a.unwrap_or(d)\<close>.\<close>

definition or_else :: "'a option \<Rightarrow> 'a option \<Rightarrow> 'a option" where
  "or_else a b = (case a of None \<Rightarrow> b | Some x \<Rightarrow> Some x)"

definition unwrap_or :: "'a option \<Rightarrow> 'a \<Rightarrow> 'a" where
  "unwrap_or a d = (case a of None \<Rightarrow> d | Some x \<Rightarrow> x)"

definition get_array :: "string \<Rightarrow> 'f json \<Rightarrow> 'f json list option" where
  "get_array k v = Option.bind (json_get k v) as_array"

definition get_str :: "string \<Rightarrow> 'f json \<Rightarrow> string option" where
  "get_str k v = Option.bind (json_get k v) as_str"

definition get_u64 :: "string \<Rightarrow> 'f json \<Rightarrow> u64" where
  "get_u64 k v = unwrap_or (Option.bind (json_get k v) as_u64) 0"

definition as_number :: "'f json \<Rightarrow> 'f json_number option" where
  "as_number v = (case v of JNumber n \<Rightarrow> Some n | _ \<Rightarrow> None)"

definition json_index :: "nat \<Rightarrow> 'f json \<Rightarrow> 'f json option" where
  "json_index i v = Option.bind (as_array v) (\<lambda>xs. get_at xs i)"

definition get_number :: "string \<Rightarrow> 'f json \<Rightarrow> 'f json_number option" where
  "get_number k v = Option.bind (json_get k v) as_number"

definition first_of :: "'f json list option \<Rightarrow> 'f json option" where
  "first_of xs = Option.bind xs (\<lambda>ys. get_at ys 0)"

definition as_bool :: "'f json \<Rightarrow> bool option" where
  "as_bool v = (case v of JBool b \<Rightarrow> Some b | _ \<Rightarrow> None)"

text \<open>Indexing with \<^verbatim>\<open>v["k"]\<close> and \<^verbatim>\<open>v[i]\<close> gives null when there is no such member.\<close>

definition jfield :: "string \<Rightarrow> 'f json \<Rightarrow> 'f json" where
  "jfield k v = unwrap_or (json_get k v) JNull"

definition jelem :: "nat \<Rightarrow> 'f json \<Rightarrow> 'f json" where
  "jelem i v = unwrap_or (json_index i v) JNull"

definition field_str :: "string \<Rightarrow> 'f json \<Rightarrow> string option" where
  "field_str k v = as_str (jfield k v)"

lemma field_str_get: "field_str k v = get_str k v"
  by (cases "json_get k v") (simp_all add: field_str_def get_str_def jfield_def unwrap_or_def as_str_def)

text \<open>\<^verbatim>\<open>v.pointer("/a/0/b")\<close>, with the path as the list of its tokens.\<close>

definition array_index :: "string \<Rightarrow> nat option" where
  "array_index tok =
     (if take 1 tok = ''+'' \<or> take 1 tok = ''0'' \<and> length tok \<noteq> 1 then None else map_option unat (parse_u64 tok))"

fun jpointer :: "string list \<Rightarrow> 'f json \<Rightarrow> 'f json option" where
  "jpointer [] v = Some v"
| "jpointer (tok # toks) v =
     Option.bind (case v of JArray xs \<Rightarrow> Option.bind (array_index tok) (get_at xs) | _ \<Rightarrow> json_get tok v) (jpointer toks)"

text \<open>\<^verbatim>\<open>v["k"] = x\<close> and \<^verbatim>\<open>map.insert\<close>: replaces or appends the entry.\<close>

fun jinsert :: "string \<Rightarrow> 'f json \<Rightarrow> 'f json \<Rightarrow> 'f json" where
  "jinsert k x (JObject m) = JObject (filter (\<lambda>(k', _). k' \<noteq> k) m @ [(k, x)])"
| "jinsert k x v = v"

definition jinsert_opt :: "string \<Rightarrow> 'f json option \<Rightarrow> 'f json \<Rightarrow> 'f json" where
  "jinsert_opt k x v = (case x of None \<Rightarrow> v | Some y \<Rightarrow> jinsert k y v)"

text \<open>\<^verbatim>\<open>eq_ignore_ascii_case\<close>\<close>

definition eq_ignore_case :: "string \<Rightarrow> string \<Rightarrow> bool" where
  "eq_ignore_case s t \<longleftrightarrow> to_lowercase s = to_lowercase t"

end
