(* ===== verification/Order_Book_Parsers.thy ===== *)
theory Order_Book_Parsers
  imports Order_Book_Updates Json_Values
begin

text \<open>
  The parsers of \<^verbatim>\<open>src/src/order_book.rs\<close> that turn the messages of seventeen exchanges into deltas.  Reading a text into a JSON value, and reading decimals from texts and from numbers, belong to packages outside the
  repository and are the operations of \<open>reader\<close>.  The clock is read once per delta.
\<close>

section \<open>Reading values\<close>

text \<open>
  \<open>read_number\<close> is \<^verbatim>\<open>Decimal::from_f64_retain\<close> of the number as a float, which every number has, so that the two integer branches of
  \<^verbatim>\<open>parse_decimal_value\<close> are never taken.
\<close>

record ('d, 'f) reader =
  from_str :: "string \<Rightarrow> 'f json option"
  read_decimal :: "string \<Rightarrow> 'd option"
  read_number :: "'f json_number \<Rightarrow> 'd option"
  reader_arith :: "'d decimal_arith"

definition parse_decimal_value :: "('d, 'f) reader \<Rightarrow> 'f json \<Rightarrow> 'd option" where
  "parse_decimal_value R v =
     (case v of JString s \<Rightarrow> read_decimal R s | JNumber n \<Rightarrow> read_number R n | _ \<Rightarrow> None)"

abbreviation dzero :: "('d, 'f) reader \<Rightarrow> 'd" where "dzero R \<equiv> dec_zero (reader_arith R)"

definition parse_pair :: "('d::linorder, 'f) reader \<Rightarrow> 'f json \<Rightarrow> ('d \<times> 'd) list" where
  "parse_pair R pair =
     (case as_array pair of
        Some (x # y # _) \<Rightarrow>
          (case (parse_decimal_value R x, parse_decimal_value R y) of
             (Some p, Some q) \<Rightarrow> if dzero R < p then [(p, q)] else []
           | _ \<Rightarrow> [])
      | _ \<Rightarrow> [])"

definition parse_price_qty_pairs :: "('d::linorder, 'f) reader \<Rightarrow> 'f json list \<Rightarrow> ('d \<times> 'd) list" where
  "parse_price_qty_pairs R arr = concat (map (parse_pair R) arr)"

definition parse_price_qty_pairs_3 :: "('d::linorder, 'f) reader \<Rightarrow> 'f json list \<Rightarrow> ('d \<times> 'd) list" where
  "parse_price_qty_pairs_3 R arr = concat (map (parse_pair R) arr)"

text \<open>The common end of the parsers: no delta without levels.\<close>

definition build_delta :: "u64 \<Rightarrow> ('d \<times> 'd) list \<Rightarrow> ('d \<times> 'd) list \<Rightarrow> bool \<Rightarrow> u64 \<Rightarrow> 'd order_book_delta option" where
  "build_delta ts bs as snap update_id =
     (if bs = [] \<and> as = [] then None
      else Some \<lparr>bid_updates = bs, ask_updates = as, is_snapshot = snap, delta_update_id = update_id, delta_update_ns = ts\<rparr>)"

text \<open>Both sides as arrays of pairs under the given keys.\<close>

definition two_sides ::
  "('d::linorder, 'f) reader \<Rightarrow> string \<Rightarrow> string \<Rightarrow> 'f json \<Rightarrow> (('d \<times> 'd) list \<times> ('d \<times> 'd) list) option" where
  "two_sides R kb ka data =
     (case (get_array kb data, get_array ka data) of
        (Some bids_arr, Some asks_arr) \<Rightarrow> Some (parse_price_qty_pairs R bids_arr, parse_price_qty_pairs R asks_arr)
      | _ \<Rightarrow> None)"

section \<open>Exchanges with object messages\<close>

definition parse_binance_depth :: "('d::linorder, 'f) reader \<Rightarrow> u64 \<Rightarrow> 'f json \<Rightarrow> 'd order_book_delta option" where
  "parse_binance_depth R ts v =
     (let res = unwrap_or (json_get ''result'' v) v;
          inner = unwrap_or (json_get ''data'' res) res;
          data = unwrap_or (json_get ''data'' v) inner
      in case two_sides R ''b'' ''a'' data of
           None \<Rightarrow> None
         | Some (bs, as) \<Rightarrow>
             let update_id = unwrap_or (Option.bind (or_else (json_get ''lastUpdateId'' data) (json_get ''u'' data)) as_u64) 0;
                 snap = unwrap_or (map_option (\<lambda>e. e = ''depthUpdate'') (get_str ''e'' data)) True
             in build_delta ts bs as snap update_id)"

definition parse_bybit_book :: "('d::linorder, 'f) reader \<Rightarrow> u64 \<Rightarrow> 'f json \<Rightarrow> 'd order_book_delta option" where
  "parse_bybit_book R ts v =
     (if json_get ''op'' v \<noteq> None then None
      else if get_str ''ret_msg'' v = Some ''pong'' then None
      else case json_get ''data'' v of
             None \<Rightarrow> None
           | Some data \<Rightarrow>
               (case two_sides R ''b'' ''a'' data of
                  None \<Rightarrow> None
                | Some (bs, as) \<Rightarrow>
                    build_delta ts bs as (unwrap_or (map_option (\<lambda>t. t = ''snapshot'') (get_str ''type'' v)) False)
                      (get_u64 ''u'' data)))"

definition parse_okx_book :: "('d::linorder, 'f) reader \<Rightarrow> u64 \<Rightarrow> 'f json \<Rightarrow> 'd order_book_delta option" where
  "parse_okx_book R ts v =
     (if json_get ''event'' v \<noteq> None then None
      else case get_array ''data'' v of
             Some (first # _) \<Rightarrow>
               (case two_sides R ''bids'' ''asks'' first of
                  None \<Rightarrow> None
                | Some (bs, as) \<Rightarrow>
                    build_delta ts bs as (unwrap_or (map_option (\<lambda>a. a = ''snapshot'') (get_str ''action'' v)) False)
                      (unwrap_or (Option.bind (get_str ''seqId'' first) parse_u64) 0))
           | _ \<Rightarrow> None)"

definition parse_gateio_book :: "('d::linorder, 'f) reader \<Rightarrow> u64 \<Rightarrow> 'f json \<Rightarrow> 'd order_book_delta option" where
  "parse_gateio_book R ts v =
     (if get_str ''event'' v = Some ''subscribe'' then None
      else case json_get ''result'' v of
             None \<Rightarrow> None
           | Some result \<Rightarrow>
               (case two_sides R ''bids'' ''asks'' result of
                  None \<Rightarrow> None
                | Some (bs, as) \<Rightarrow>
                    build_delta ts bs as (get_str ''event'' v = Some ''snapshot'') (get_u64 ''lastUpdateId'' result)))"

definition parse_htx_depth :: "('d::linorder, 'f) reader \<Rightarrow> u64 \<Rightarrow> 'f json \<Rightarrow> 'd order_book_delta option" where
  "parse_htx_depth R ts v =
     (if json_get ''status'' v \<noteq> None then None
      else case json_get ''tick'' v of
             None \<Rightarrow> None
           | Some tick \<Rightarrow>
               (case two_sides R ''bids'' ''asks'' tick of
                  None \<Rightarrow> None | Some (bs, as) \<Rightarrow> build_delta ts bs as False (get_u64 ''id'' tick)))"

definition parse_lbank_depth :: "('d::linorder, 'f) reader \<Rightarrow> u64 \<Rightarrow> 'f json \<Rightarrow> 'd order_book_delta option" where
  "parse_lbank_depth R ts v =
     (if get_str ''type'' v = Some ''subscribe'' then None
      else case json_get ''data'' v of
             None \<Rightarrow> None
           | Some data \<Rightarrow>
               (case two_sides R ''bids'' ''asks'' data of
                  None \<Rightarrow> None | Some (bs, as) \<Rightarrow> build_delta ts bs as False (get_u64 ''timestamp'' data)))"

definition parse_bitstamp_book :: "('d::linorder, 'f) reader \<Rightarrow> u64 \<Rightarrow> 'f json \<Rightarrow> 'd order_book_delta option" where
  "parse_bitstamp_book R ts v =
     (if (case get_str ''event'' v of None \<Rightarrow> False | Some event \<Rightarrow> str_contains event ''subscription'') then None
      else case json_get ''data'' v of
             None \<Rightarrow> None
           | Some data \<Rightarrow>
               (case two_sides R ''bids'' ''asks'' data of
                  None \<Rightarrow> None | Some (bs, as) \<Rightarrow> build_delta ts bs as False (get_u64 ''timestamp'' data)))"

definition parse_deribit_book :: "('d::linorder, 'f) reader \<Rightarrow> u64 \<Rightarrow> 'f json \<Rightarrow> 'd order_book_delta option" where
  "parse_deribit_book R ts v =
     (if json_get ''result'' v \<noteq> None then None
      else case Option.bind (json_get ''params'' v) (json_get ''data'') of
             None \<Rightarrow> None
           | Some data \<Rightarrow>
               (case two_sides R ''bids'' ''asks'' data of
                  None \<Rightarrow> None
                | Some (bs, as) \<Rightarrow>
                    build_delta ts bs as (get_str ''type'' v = Some ''snapshot'' \<or> 10 < length bs + length as) (get_u64 ''id'' data)))"

definition parse_generic_book :: "('d::linorder, 'f) reader \<Rightarrow> u64 \<Rightarrow> 'f json \<Rightarrow> 'd order_book_delta option" where
  "parse_generic_book R ts v =
     (let deep = (\<lambda>k. or_else (or_else (json_get k v) (Option.bind (json_get ''data'' v) (json_get k)))
                        (Option.bind (json_get ''result'' v) (json_get k)))
      in case (Option.bind (deep ''bids'') as_array, Option.bind (deep ''asks'') as_array) of
           (Some bids_arr, Some asks_arr) \<Rightarrow>
             let update_id = unwrap_or (Option.bind
                   (or_else (or_else (json_get ''id'' v) (Option.bind (json_get ''data'' v) (json_get ''id'')))
                      (json_get ''lastUpdateId'' v)) as_u64) 0;
                 bs = parse_price_qty_pairs R bids_arr; as = parse_price_qty_pairs R asks_arr
             in build_delta ts bs as (get_str ''type'' v = Some ''snapshot'' \<or> 10 < length bs + length as) update_id
         | _ \<Rightarrow> None)"

section \<open>Exchanges with arrays and lists of changes\<close>

text \<open>A Bitfinex level: a positive amount is a bid, any other an ask; a count of zero deletes.\<close>

definition dec_abs :: "'d::linorder decimal_arith \<Rightarrow> 'd \<Rightarrow> 'd" where
  "dec_abs D x = (if x < dec_zero D then dec_neg D x else x)"

definition bitfinex_level ::
  "('d::linorder, 'f) reader \<Rightarrow> 'd \<Rightarrow> i64 \<Rightarrow> 'd \<Rightarrow> ('d \<times> 'd) list \<times> ('d \<times> 'd) list" where
  "bitfinex_level R price count_val amount =
     (if count_val = 0 then (if dzero R < amount then ([(price, dzero R)], []) else ([], [(price, dzero R)]))
      else if dzero R < amount then ([(price, amount)], []) else ([], [(price, dec_abs (reader_arith R) amount)]))"

text \<open>The loop over the levels; \<open>None\<close> is the early return at a level that is no array.\<close>

fun bitfinex_levels ::
  "('d::linorder, 'f) reader \<Rightarrow> 'f json list \<Rightarrow> ('d \<times> 'd) list \<times> ('d \<times> 'd) list \<Rightarrow>
   (('d \<times> 'd) list \<times> ('d \<times> 'd) list) option" where
  "bitfinex_levels R [] acc = Some acc"
| "bitfinex_levels R (level # levels) (bs, as) =
     (case as_array level of
        None \<Rightarrow> None
      | Some (x # y # z # _) \<Rightarrow>
          let price = unwrap_or (parse_decimal_value R x) (dzero R);
              count_val = unwrap_or (as_i64 y) 0;
              amount = unwrap_or (parse_decimal_value R z) (dzero R)
          in if price \<le> dzero R then bitfinex_levels R levels (bs, as)
             else (case bitfinex_level R price count_val amount of
                     (bs', as') \<Rightarrow> bitfinex_levels R levels (bs @ bs', as @ as'))
      | Some _ \<Rightarrow> bitfinex_levels R levels (bs, as))"

definition parse_bitfinex_book :: "('d::linorder, 'f) reader \<Rightarrow> u64 \<Rightarrow> 'f json \<Rightarrow> 'd order_book_delta option" where
  "parse_bitfinex_book R ts v =
     (case as_array v of
        None \<Rightarrow> None
      | Some arr \<Rightarrow>
          if arr = [] then None
          else if is_object (arr ! 0) then None
          else if 4 \<le> length arr then
            (case parse_decimal_value R (arr ! 1) of
               None \<Rightarrow> None
             | Some price \<Rightarrow>
                 (case bitfinex_level R price (unwrap_or (as_i64 (arr ! 2)) 0)
                         (unwrap_or (parse_decimal_value R (arr ! 3)) (dzero R)) of
                    (bs, as) \<Rightarrow> build_delta ts bs as False 0))
          else if 2 \<le> length arr then
            (case as_array (arr ! 1) of
               None \<Rightarrow> None
             | Some levels \<Rightarrow>
                 (case bitfinex_levels R levels ([], []) of
                    None \<Rightarrow> None | Some (bs, as) \<Rightarrow> build_delta ts bs as (10 \<le> length levels) 0))
          else None)"

definition ticker_field :: "('d, 'f) reader \<Rightarrow> string \<Rightarrow> string \<Rightarrow> 'f json \<Rightarrow> 'd" where
  "ticker_field R k1 k2 t =
     unwrap_or (Option.bind (Option.bind (or_else (json_get k1 t) (json_get k2 t)) as_str) (read_decimal R)) (dzero R)"

definition parse_bitget_ticker_book :: "('d::linorder, 'f) reader \<Rightarrow> u64 \<Rightarrow> 'f json \<Rightarrow> 'd order_book_delta option" where
  "parse_bitget_ticker_book R ts v =
     (if json_get ''op'' v \<noteq> None then None
      else case or_else (get_array ''data'' v) (get_array ''tickers'' v) of
             Some (t # _) \<Rightarrow>
               let bid_price = ticker_field R ''bid1'' ''bidPr'' t; ask_price = ticker_field R ''ask1'' ''askPr'' t;
                   bid_qty = ticker_field R ''bidSz1'' ''bidSz'' t; ask_qty = ticker_field R ''askSz1'' ''askSz'' t
               in if bid_price \<le> dzero R \<and> ask_price \<le> dzero R then None
                  else Some \<lparr>bid_updates = (if dzero R < bid_price then [(bid_price, bid_qty)] else []),
                             ask_updates = (if dzero R < ask_price then [(ask_price, ask_qty)] else []),
                             is_snapshot = True, delta_update_id = 0, delta_update_ns = ts\<rparr>
           | _ \<Rightarrow> None)"

text \<open>The side of an update by the name it carries.\<close>

definition by_side :: "string \<Rightarrow> string \<Rightarrow> string \<Rightarrow> 'd \<times> 'd \<Rightarrow> ('d \<times> 'd) list \<times> ('d \<times> 'd) list" where
  "by_side buy sell name u = (if name = buy then ([u], []) else if name = sell then ([], [u]) else ([], []))"

fun bitmex_levels ::
  "('d::linorder, 'f) reader \<Rightarrow> string \<Rightarrow> 'f json list \<Rightarrow> ('d \<times> 'd) list \<times> ('d \<times> 'd) list \<times> u64 \<Rightarrow>
   ('d \<times> 'd) list \<times> ('d \<times> 'd) list \<times> u64" where
  "bitmex_levels R action [] acc = acc"
| "bitmex_levels R action (level # levels) (bs, as, max_id) =
     (let name = unwrap_or (get_str ''side'' level) [];
          price_str = unwrap_or (get_str ''price'' level) ''0'';
          qty_val = get_u64 ''size'' level;
          id_val = get_u64 ''id'' level;
          max_id = (if max_id < id_val then id_val else max_id);
          price = unwrap_or (read_decimal R price_str) (dzero R)
      in if price \<le> dzero R then bitmex_levels R action levels (bs, as, max_id)
         else (case by_side ''Buy'' ''Sell'' name
                      (price, if action = ''delete'' then dzero R else dec_from_int (reader_arith R) (uint qty_val)) of
                 (bs', as') \<Rightarrow> bitmex_levels R action levels (bs @ bs', as @ as', max_id)))"

definition parse_bitmex_book :: "('d::linorder, 'f) reader \<Rightarrow> u64 \<Rightarrow> 'f json \<Rightarrow> 'd order_book_delta option" where
  "parse_bitmex_book R ts v =
     (if json_get ''success'' v \<noteq> None then None
      else case (get_str ''table'' v, get_str ''action'' v, get_array ''data'' v) of
             (Some table, Some action, Some data_arr) \<Rightarrow>
               if \<not> is_prefix_of ''orderBookL2'' table then None
               else (case bitmex_levels R action data_arr ([], [], 0) of
                       (bs, as, max_id) \<Rightarrow> build_delta ts bs as (action = ''partial'') max_id)
           | _ \<Rightarrow> None)"

definition text_decimal :: "('d, 'f) reader \<Rightarrow> 'f json \<Rightarrow> 'd" where
  "text_decimal R v = unwrap_or (read_decimal R (unwrap_or (as_str v) ''0'')) (dzero R)"

fun coinbase_changes ::
  "('d::linorder, 'f) reader \<Rightarrow> 'f json list \<Rightarrow> ('d \<times> 'd) list \<times> ('d \<times> 'd) list \<Rightarrow>
   (('d \<times> 'd) list \<times> ('d \<times> 'd) list) option" where
  "coinbase_changes R [] acc = Some acc"
| "coinbase_changes R (change # changes) (bs, as) =
     (case as_array change of
        None \<Rightarrow> None
      | Some (s # p # q # _) \<Rightarrow>
          let price = text_decimal R p
          in if price \<le> dzero R then coinbase_changes R changes (bs, as)
             else (case by_side ''buy'' ''sell'' (unwrap_or (as_str s) []) (price, text_decimal R q) of
                     (bs', as') \<Rightarrow> coinbase_changes R changes (bs @ bs', as @ as'))
      | Some _ \<Rightarrow> coinbase_changes R changes (bs, as))"

definition parse_coinbase_l2 :: "('d::linorder, 'f) reader \<Rightarrow> u64 \<Rightarrow> 'f json \<Rightarrow> 'd order_book_delta option" where
  "parse_coinbase_l2 R ts v =
     (case get_str ''type'' v of
        None \<Rightarrow> None
      | Some msg_type \<Rightarrow>
          if msg_type = ''snapshot'' then
            (case two_sides R ''bids'' ''asks'' v of None \<Rightarrow> None | Some (bs, as) \<Rightarrow> build_delta ts bs as True 0)
          else if msg_type = ''l2_update'' then
            (case get_array ''changes'' v of
               None \<Rightarrow> None
             | Some changes \<Rightarrow>
                 (case coinbase_changes R changes ([], []) of
                    None \<Rightarrow> None | Some (bs, as) \<Rightarrow> build_delta ts bs as False 0))
          else None)"

definition parse_kraken_book :: "('d::linorder, 'f) reader \<Rightarrow> u64 \<Rightarrow> 'f json \<Rightarrow> 'd order_book_delta option" where
  "parse_kraken_book R ts v =
     (case as_array v of
        Some (x # book_data # _) \<Rightarrow>
          if is_object x then None
          else let pick = (\<lambda>k old. case get_array k book_data of None \<Rightarrow> old | Some arr \<Rightarrow> parse_price_qty_pairs_3 R arr);
                   snap = (get_array ''as'' book_data \<noteq> None \<or> get_array ''bs'' book_data \<noteq> None);
                   as = pick ''a'' (pick ''as'' []);
                   bs = pick ''b'' (pick ''bs'' [])
               in build_delta ts bs as snap 0
      | _ \<Rightarrow> None)"

section \<open>The dispatcher\<close>

definition parser_of ::
  "u16 \<Rightarrow> ('d::linorder, 'f) reader \<Rightarrow> u64 \<Rightarrow> 'f json \<Rightarrow> 'd order_book_delta option" where
  "parser_of exch =
     (if exch = 0 \<or> exch = 15 then parse_binance_depth
      else if exch = 1 then parse_bybit_book
      else if exch = 2 then parse_okx_book
      else if exch = 3 then parse_gateio_book
      else if exch = 5 then parse_bitfinex_book
      else if exch = 6 then parse_bitget_ticker_book
      else if exch = 7 then parse_bitmex_book
      else if exch = 8 then parse_coinbase_l2
      else if exch = 9 then parse_htx_depth
      else if exch = 10 then parse_kraken_book
      else if exch = 11 then parse_lbank_depth
      else if exch = 12 then parse_bitstamp_book
      else if exch = 13 then parse_deribit_book
      else parse_generic_book)"

definition parse_orderbook_update ::
  "('d::linorder, 'f) reader \<Rightarrow> u64 \<Rightarrow> u16 \<Rightarrow> string \<Rightarrow> 'd order_book_delta option" where
  "parse_orderbook_update R ts exch raw =
     (let trimmed = str_trim raw
      in if trimmed = [] then None else Option.bind (from_str R trimmed) (parser_of exch R ts))"

end
