(* ===== verification/Order_Book_Feeds.thy ===== *)
theory Order_Book_Feeds
  imports Order_Book_Parsers
begin

text \<open>
  The listeners of \<^verbatim>\<open>src/src/order_book.rs\<close>, from the messages of an exchange to the books: what a parsed delta looks like, what
  sequences of messages do to a book, and how a listener survives dropped streams.
\<close>

section \<open>Parsed deltas\<close>

definition positive_prices :: "('d::linorder, 'f) reader \<Rightarrow> ('d \<times> 'd) list \<Rightarrow> bool" where
  "positive_prices R us \<longleftrightarrow> (\<forall>u \<in> set us. dzero R < fst u)"

lemma positive_prices_simps [simp]:
  "positive_prices R []" "positive_prices R (u # us) \<longleftrightarrow> dzero R < fst u \<and> positive_prices R us"
  "positive_prices R (us @ vs) \<longleftrightarrow> positive_prices R us \<and> positive_prices R vs"
  by (auto simp: positive_prices_def)

lemma pairs_positive [simp]: "positive_prices R (parse_price_qty_pairs R arr)" "positive_prices R (parse_price_qty_pairs_3 R arr)"
  by (auto simp: positive_prices_def parse_price_qty_pairs_def parse_price_qty_pairs_3_def parse_pair_def
      split: option.splits list.splits if_splits)

lemma two_sides_positive: "two_sides R kb ka data = Some (bs, as) \<Longrightarrow> positive_prices R bs \<and> positive_prices R as"
  by (auto simp: two_sides_def split: option.splits)

lemma by_side_positive: "dzero R < fst u \<Longrightarrow> by_side b s n u = (bs, as) \<Longrightarrow> positive_prices R bs \<and> positive_prices R as"
  by (auto simp: by_side_def split: if_splits)

lemma bitmex_levels_positive:
  "bitmex_levels R action ls (bs, as, i) = (bs', as', i') \<Longrightarrow> positive_prices R bs \<Longrightarrow> positive_prices R as \<Longrightarrow>
   positive_prices R bs' \<and> positive_prices R as'"
  by (induction ls arbitrary: bs as i)
    (auto simp: Let_def not_le split: if_splits prod.splits dest!: by_side_positive [rotated])

lemma coinbase_changes_positive:
  "coinbase_changes R cs (bs, as) = Some (bs', as') \<Longrightarrow> positive_prices R bs \<Longrightarrow> positive_prices R as \<Longrightarrow>
   positive_prices R bs' \<and> positive_prices R as'"
  by (induction cs arbitrary: bs as)
    (auto simp: Let_def not_le split: if_splits prod.splits option.splits list.splits dest!: by_side_positive [rotated])

lemma build_delta_Some:
  "build_delta ts bs as snap i = Some d \<longleftrightarrow>
     (bs \<noteq> [] \<or> as \<noteq> []) \<and> d = \<lparr>bid_updates = bs, ask_updates = as, is_snapshot = snap, delta_update_id = i, delta_update_ns = ts\<rparr>"
  by (auto simp: build_delta_def)

text \<open>Whether a delta has levels, positive prices and the given time.\<close>

definition delta_wf :: "('d::linorder, 'f) reader \<Rightarrow> u64 \<Rightarrow> 'd order_book_delta \<Rightarrow> bool" where
  "delta_wf R ts d \<longleftrightarrow> (bid_updates d \<noteq> [] \<or> ask_updates d \<noteq> []) \<and> delta_update_ns d = ts \<and>
     positive_prices R (bid_updates d) \<and> positive_prices R (ask_updates d)"

lemma build_delta_wf:
  "build_delta ts bs as snap i = Some d \<Longrightarrow> positive_prices R bs \<Longrightarrow> positive_prices R as \<Longrightarrow> delta_wf R ts d"
  by (auto simp: build_delta_Some delta_wf_def)

lemma object_parsers_wf:
  "parse_binance_depth R ts v = Some d \<Longrightarrow> delta_wf R ts d" "parse_bybit_book R ts v = Some d \<Longrightarrow> delta_wf R ts d"
  "parse_okx_book R ts v = Some d \<Longrightarrow> delta_wf R ts d" "parse_gateio_book R ts v = Some d \<Longrightarrow> delta_wf R ts d"
  "parse_htx_depth R ts v = Some d \<Longrightarrow> delta_wf R ts d" "parse_lbank_depth R ts v = Some d \<Longrightarrow> delta_wf R ts d"
  "parse_bitstamp_book R ts v = Some d \<Longrightarrow> delta_wf R ts d" "parse_deribit_book R ts v = Some d \<Longrightarrow> delta_wf R ts d"
  by (auto simp: parse_binance_depth_def parse_bybit_book_def parse_okx_book_def parse_gateio_book_def parse_htx_depth_def
      parse_lbank_depth_def parse_bitstamp_book_def parse_deribit_book_def Let_def
      split: option.splits prod.splits list.splits if_splits dest!: two_sides_positive intro: build_delta_wf)

lemma array_parsers_wf:
  "parse_generic_book R ts v = Some d \<Longrightarrow> delta_wf R ts d" "parse_bitget_ticker_book R ts v = Some d \<Longrightarrow> delta_wf R ts d"
  "parse_bitmex_book R ts v = Some d \<Longrightarrow> delta_wf R ts d" "parse_coinbase_l2 R ts v = Some d \<Longrightarrow> delta_wf R ts d"
  "parse_kraken_book R ts v = Some d \<Longrightarrow> delta_wf R ts d"
  subgoal by (auto simp: parse_generic_book_def Let_def split: option.splits intro: build_delta_wf)
  subgoal by (auto simp: parse_bitget_ticker_book_def Let_def delta_wf_def not_le split: option.splits list.splits if_splits)
  subgoal by (auto simp: parse_bitmex_book_def split: option.splits prod.splits if_splits
      dest!: bitmex_levels_positive intro: build_delta_wf)
  subgoal by (auto simp: parse_coinbase_l2_def split: option.splits prod.splits if_splits
      dest!: two_sides_positive coinbase_changes_positive intro: build_delta_wf)
  subgoal by (auto simp: parse_kraken_book_def Let_def split: option.splits list.splits if_splits elim!: build_delta_wf)
  done

lemma dispatched_delta_wf:
  assumes "parse_orderbook_update R ts exch raw = Some d" "exch \<noteq> 5"
  shows "delta_wf R ts d"
proof -
  obtain v where "parser_of exch R ts v = Some d"
    using assms(1) by (auto simp: parse_orderbook_update_def Let_def bind_eq_Some_conv split: if_splits)
  then show ?thesis
    using assms(2) by (auto simp: parser_of_def object_parsers_wf array_parsers_wf split: if_splits)
qed

text \<open>
  C19: what the parsers deliver.  Whatever text an exchange other than Bitfinex sends, a delta made of it has at least one level, carries the
  time of its parsing, and has only positive prices.
\<close>

theorem parsed_delta_wf:
  assumes "parse_orderbook_update R ts exch raw = Some d" "exch \<noteq> 5"
  shows "delta_wf R ts d"
  using dispatched_delta_wf assms by blast

text \<open>A reader whose texts are whole numbers, for concrete messages.\<close>

definition sample_json :: "nat \<Rightarrow> u64 \<Rightarrow> unit json" where
  "sample_json price stamp = JObject [(''data'', JObject [(''bids'', JArray [JArray [JNumber (PosInt (of_nat price)), JNumber (PosInt 2)]]),
     (''asks'', JArray []), (''timestamp'', JNumber (PosInt stamp))])]"

definition sample_reader :: "(int, unit) reader" where
  "sample_reader =
     \<lparr>from_str = (\<lambda>s. if s = ''m1'' then Some (sample_json 99 1000) else if s = ''m2'' then Some (sample_json 98 1250) else None),
      read_decimal = (\<lambda>s. map_option int (parse_digits 0 s)),
      read_number = (\<lambda>n. case n of PosInt w \<Rightarrow> Some (uint w) | _ \<Rightarrow> None), reader_arith = int_arith\<rparr>"

definition sample_parsed :: "int \<Rightarrow> u64 \<Rightarrow> u64 \<Rightarrow> int order_book_delta" where
  "sample_parsed price stamp ts = \<lparr>bid_updates = [(price, 2)], ask_updates = [], is_snapshot = False,
     delta_update_id = stamp, delta_update_ns = ts\<rparr>"

lemmas parse_eval = parse_orderbook_update_def str_trim_def is_ws_def parser_of_def parse_lbank_depth_def two_sides_def get_array_def
  get_str_def get_u64_def json_get_def as_array_def as_str_def as_u64_def unwrap_or_def parse_price_qty_pairs_def parse_pair_def
  parse_decimal_value_def build_delta_def

lemma sample_parses:
  "parse_orderbook_update sample_reader ts 11 ''m1'' = Some (sample_parsed 99 1000 ts)"
  "parse_orderbook_update sample_reader ts 11 ''m2'' = Some (sample_parsed 98 1250 ts)"
  by (simp_all add: parse_eval sample_reader_def sample_json_def sample_parsed_def int_arith_def)

theorem parsed_delta_wf_witness: "delta_wf sample_reader 7 (sample_parsed 99 1000 7)"
  by (rule parsed_delta_wf [OF sample_parses(1)]) simp

text \<open>
  Bitfinex' updates of a single level are not checked: a message with a negative price becomes a delta, and an empty book stores it.
\<close>

lemma bitfinex_negative_price:
  assumes "parse_decimal_value R px = Some p" "as_i64 cnt = Some c" "c \<noteq> 0" "parse_decimal_value R amt = Some a" "dzero R < a" "\<not> is_object chan"
  shows "parse_bitfinex_book R ts (JArray [chan, px, cnt, amt]) =
    Some \<lparr>bid_updates = [(p, a)], ask_updates = [], is_snapshot = False, delta_update_id = 0, delta_update_ns = ts\<rparr>"
  using assms by (simp add: parse_bitfinex_book_def as_array_def bitfinex_level_def unwrap_or_def build_delta_def)

section \<open>Sequences of messages\<close>

text \<open>
  Binance marks a change of the book with the event \<^verbatim>\<open>depthUpdate\<close>; the parser takes exactly these, and messages without an event, for
  snapshots, so a change replaces the whole book.
\<close>

lemma binance_diff_is_snapshot:
  assumes "parse_binance_depth R ts (JObject m) = Some d" "map_of m ''data'' = None" "map_of m ''result'' = None"
    "map_of m ''e'' = Some (JString e)"
  shows "is_snapshot d \<longleftrightarrow> e = ''depthUpdate''"
  using assms
  by (auto simp: parse_binance_depth_def json_get_def get_str_def as_str_def unwrap_or_def build_delta_Some Let_def
      split: option.splits prod.splits)

lemma snapshot_replaces: "is_snapshot d \<Longrightarrow> bids (apply_delta D d b) = bids (apply_delta D d b') \<and> asks (apply_delta D d b) = asks (apply_delta D d b')"
proof -
  assume s: "is_snapshot d"
  then have live: "\<not> stale d x" "\<not> after_gap d x" for x by (simp_all add: stale_def after_gap_def)
  have base: "base_side d m = []" for m using s by (simp add: base_side_def)
  show ?thesis unfolding apply_delta_usable(1,2) [OF live] base by simp
qed

text \<open>The deltas of exchanges 9, 11 and 12 are increments whose number is an identifier or a time of the message.\<close>

definition stamped :: "u16 \<Rightarrow> bool" where
  "stamped exch \<longleftrightarrow> exch = 9 \<or> exch = 11 \<or> exch = 12"

lemma stamped_increment:
  assumes "stamped exch" "parse_orderbook_update R ts exch raw = Some d"
  shows "\<not> is_snapshot d"
proof -
  have snap: "\<not> is_snapshot d" if "build_delta ts bs as False i = Some d" for bs as i using that by (auto simp: build_delta_Some)
  obtain v where v: "parser_of exch R ts v = Some d"
    using assms(2) by (auto simp: parse_orderbook_update_def Let_def bind_eq_Some_conv split: if_splits)
  from assms(1) consider "parse_htx_depth R ts v = Some d" | "parse_lbank_depth R ts v = Some d" | "parse_bitstamp_book R ts v = Some d"
    using v by (auto simp: stamped_def parser_of_def)
  then show ?thesis
    by cases (auto simp: parse_htx_depth_def parse_lbank_depth_def parse_bitstamp_book_def split: if_splits option.splits dest: snap)
qed

lemma first_increment:
  assumes "\<not> is_snapshot d" "bid_updates d \<noteq> [] \<or> ask_updates d \<noteq> []"
  shows "book_update_id (apply_delta D d order_book_new) = delta_update_id d"
proof -
  have "is_price_sane D p None" for p by (simp add: is_price_sane_def)
  then have "effective D d order_book_new"
    using assms(2) by (cases "bid_updates d"; cases "ask_updates d")
      (auto simp: effective_def takes_effect_def base_side_def order_book_new_def bt_last_def bt_first_def)
  moreover have "\<not> stale d order_book_new" "\<not> after_gap d order_book_new" by (simp_all add: stale_def after_gap_def order_book_new_def)
  ultimately show ?thesis by (simp add: apply_delta_usable(3)) (simp add: order_book_new_def max_def)
qed

lemma gaps_clear:
  assumes "\<forall>d \<in> set ds. \<not> is_snapshot d" "book_update_id b \<noteq> 0" "ds \<noteq> []"
    "sorted_wrt (\<lambda>i j. i < i + 1 \<and> i + 1 < j) (book_update_id b # map delta_update_id ds)"
  shows "bids (foldl (\<lambda>b d. apply_delta D d b) b ds) = [] \<and> asks (foldl (\<lambda>b d. apply_delta D d b) b ds) = []"
  using assms
proof (induction ds arbitrary: b)
  case (Cons d ds)
  have "\<not> stale d b" "after_gap d b" using Cons.prems by (auto simp: stale_def after_gap_def)
  then have step: "apply_delta D d b = b\<lparr>bids := [], asks := [], book_update_id := delta_update_id d\<rparr>" by (rule apply_delta_gap)
  have pos: "delta_update_id d \<noteq> 0" using Cons.prems(4) by auto
  show ?case
  proof (cases "ds = []")
    case True
    then show ?thesis by (simp add: step)
  next
    case False
    have "bids (foldl (\<lambda>b d. apply_delta D d b) (apply_delta D d b) ds) = [] \<and> asks (foldl (\<lambda>b d. apply_delta D d b) (apply_delta D d b) ds) = []"
      by (rule Cons.IH) (use Cons.prems pos False in \<open>simp_all add: step\<close>)
    then show ?thesis by simp
  qed
qed simp

text \<open>
  the feeds numbered by times keep no book.  HTX, LBank and Bitstamp messages are increments whose sequence number is an
  identifier or a time stamp of the message.  When these numbers grow by more than one from message to message, as times do, every
  message but the first is taken for a gap: from the second message on the book is empty.
\<close>

theorem stamped_feeds_keep_no_book:
  assumes "stamped exch" "map (\<lambda>(ts, raw). parse_orderbook_update R ts exch raw) msgs = map Some ds" "2 \<le> length ds"
    "delta_update_id (hd ds) \<noteq> 0" "sorted_wrt (\<lambda>i j. i < i + 1 \<and> i + 1 < j) (map delta_update_id ds)"
  shows "let b = foldl (\<lambda>b d. apply_delta D d b) order_book_new ds in bids b = [] \<and> asks b = []"
proof -
  have parsed: "\<exists>ts raw. parse_orderbook_update R ts exch raw = Some d" if "d \<in> set ds" for d
  proof -
    have "Some d \<in> set (map (\<lambda>(ts, raw). parse_orderbook_update R ts exch raw) msgs)" using that assms(2) by simp
    then show ?thesis by (force dest: sym)
  qed
  have inc: "\<not> is_snapshot d" if "d \<in> set ds" for d using parsed [OF that] stamped_increment [OF assms(1)] by blast
  obtain d ds' where ds: "ds = d # ds'" "ds' \<noteq> []" using assms(3) by (cases ds; cases "tl ds") auto
  have "exch \<noteq> 5" using assms(1) by (auto simp: stamped_def)
  then have "bid_updates d \<noteq> [] \<or> ask_updates d \<noteq> []"
    using parsed [of d] dispatched_delta_wf by (fastforce simp: ds delta_wf_def)
  then have first: "book_update_id (apply_delta D d order_book_new) = delta_update_id d"
    using inc by (intro first_increment) (simp_all add: ds)
  have "bids (foldl (\<lambda>b d. apply_delta D d b) (apply_delta D d order_book_new) ds') = [] \<and>
      asks (foldl (\<lambda>b d. apply_delta D d b) (apply_delta D d order_book_new) ds') = []"
    by (rule gaps_clear) (use inc assms(4,5) ds in \<open>simp_all add: first\<close>)
  then show ?thesis by (simp add: ds)
qed

theorem stamped_feeds_keep_no_book_witness:
  "let b = foldl (\<lambda>b d. apply_delta int_arith d b) order_book_new [sample_parsed 99 1000 5, sample_parsed 98 1250 6]
   in bids b = [] \<and> asks b = []"
  by (rule stamped_feeds_keep_no_book [of 11 sample_reader "[(5, ''m1''), (6, ''m2'')]"])
    (simp_all add: stamped_def sample_parses, simp_all add: sample_parsed_def)

end
