(* ===== verification/Order_Book_Stream.thy ===== *)
theory Order_Book_Stream
  imports Order_Book_Feeds Datafeed
begin

text \<open>
  The listeners of \<^verbatim>\<open>src/src/order_book.rs\<close>: the spelling of symbols for each exchange, the subscription messages, and the
  task that connects, reads and reconnects.  Symbols are ASCII, so byte positions are character positions.
\<close>

section \<open>Symbols\<close>

abbreviation QUOTE_SUFFIXES :: "string list" where
  "QUOTE_SUFFIXES \<equiv> [''USDT'', ''USDC'', ''USD'', ''BUSD'', ''TUSD'', ''DAI'', ''EUR'', ''GBP'', ''BTC'', ''ETH'', ''BNB'']"

definition str_ends_with :: "string \<Rightarrow> string \<Rightarrow> bool" where
  "str_ends_with s suf = is_prefix_of (rev suf) (rev s)"

definition find_quote_separator :: "string \<Rightarrow> nat" where
  "find_quote_separator s =
     (let upper = to_uppercase s
      in case find (\<lambda>suffix. str_ends_with upper suffix \<and> length suffix < length upper) QUOTE_SUFFIXES of
           Some suffix \<Rightarrow> length upper - length suffix
         | None \<Rightarrow> if 4 < length s then length s - 4 else if 3 < length s then length s - 3 else 1)"

definition split_with :: "string \<Rightarrow> string \<Rightarrow> string" where
  "split_with sep s = take (find_quote_separator s) s @ sep @ drop (find_quote_separator s) s"

definition symbol_to_okx :: "string \<Rightarrow> string" where
  "symbol_to_okx s = (if 3 < length s then split_with ''-'' s else s)"

definition symbol_to_gateio :: "string \<Rightarrow> string" where
  "symbol_to_gateio s = (if 3 < length s then split_with ''_'' s else s)"

definition symbol_to_bitfinex :: "string \<Rightarrow> string" where
  "symbol_to_bitfinex s = (if 3 < length s then ''t'' @ split_with ''_'' s else ''t'' @ s)"

definition is_ascii_alpha :: "char \<Rightarrow> bool" where
  "is_ascii_alpha c \<longleftrightarrow> (let n = of_char c :: nat in 65 \<le> n \<and> n \<le> 90 \<or> 97 \<le> n \<and> n \<le> 122)"

definition symbol_to_bitmex :: "string \<Rightarrow> string" where
  "symbol_to_bitmex s =
     (if is_prefix_of ''BTCUSDT'' s then ''XBTUSDT''
      else if is_prefix_of ''BTC'' s \<and> (drop 3 s = [] \<or> \<not> is_ascii_alpha (hd (drop 3 s))) then ''XBT'' @ drop 3 s
      else s)"

definition symbol_to_coinbase :: "string \<Rightarrow> string" where
  "symbol_to_coinbase s = symbol_to_okx s"

definition symbol_to_kraken :: "string \<Rightarrow> string" where
  "symbol_to_kraken s =
     (if 3 < length s then
        let base = take (find_quote_separator s) s; quote = drop (find_quote_separator s) s
        in (if base = ''BTC'' then ''XBT'' else base) @ ''/'' @ quote
      else s)"

section \<open>Subscription messages\<close>

text \<open>The debug format of a string and of a vector of strings.\<close>

fun hex_digits :: "nat \<Rightarrow> string" where
  "hex_digits n = (if n < 16 then [''0123456789abcdef'' ! n] else hex_digits (n div 16) @ [''0123456789abcdef'' ! (n mod 16)])"

declare hex_digits.simps [simp del]

definition escape_debug :: "char \<Rightarrow> string" where
  "escape_debug c =
     (let n = of_char c :: nat
      in if n = 34 then [CHR 0x5C, CHR 0x22] else if n = 92 then [CHR 0x5C, CHR 0x5C]
         else if n = 0 then [CHR 0x5C, CHR ''0''] else if n = 9 then [CHR 0x5C, CHR ''t'']
         else if n = 10 then [CHR 0x5C, CHR ''n''] else if n = 13 then [CHR 0x5C, CHR ''r'']
         else if n < 32 \<or> n = 127 then [CHR 0x5C] @ ''u{'' @ hex_digits n @ ''}'' else [c])"

definition debug_string :: "string \<Rightarrow> string" where
  "debug_string s = [CHR 0x22] @ concat (map escape_debug s) @ [CHR 0x22]"

fun comma_separated :: "string list \<Rightarrow> string" where
  "comma_separated [] = []"
| "comma_separated [s] = s"
| "comma_separated (s # t # ss) = s @ '', '' @ comma_separated (t # ss)"

definition debug_strings :: "string list \<Rightarrow> string" where
  "debug_strings ss = ''['' @ comma_separated (map debug_string ss) @ '']''"

text \<open>\<open>quoted\<close> gives a quoted word of a message.\<close>

definition quoted :: "string \<Rightarrow> string" where
  "quoted s = [CHR 0x22] @ s @ [CHR 0x22]"

definition op_args :: "string list \<Rightarrow> string" where
  "op_args args = ''{'' @ quoted ''op'' @ '':'' @ quoted ''subscribe'' @ '','' @ quoted ''args'' @ '':'' @ debug_strings args @ ''}''"

definition method_params :: "string list \<Rightarrow> string" where
  "method_params params =
     ''{'' @ quoted ''method'' @ '':'' @ quoted ''subscribe'' @ '','' @ quoted ''params'' @ '':'' @ debug_strings params @ ''}''"

definition strings :: "string list \<Rightarrow> 'f json" where
  "strings ss = JArray (map JString ss)"

text \<open>\<open>to_str\<close> is \<^verbatim>\<open>serde_json::to_string\<close>, which cannot fail on these values; \<open>now_ms\<close> the clock of the GateIO message.\<close>

definition build_orderbook_subscribe :: "('f json \<Rightarrow> string) \<Rightarrow> u64 \<Rightarrow> u16 \<Rightarrow> string list \<Rightarrow> string option" where
  "build_orderbook_subscribe to_str now_ms exch symbols =
     (let syms = (if symbols = [] then [''BTCUSDT''] else symbols)
      in if exch = 0 then Some (method_params (map (\<lambda>s. to_lowercase s @ ''@depth20@100ms'') syms))
         else if exch = 1 then Some (op_args (map (\<lambda>s. ''orderbook.100.'' @ s) syms))
         else if exch = 2 then
           Some (''{'' @ quoted ''op'' @ '':'' @ quoted ''subscribe'' @ '','' @ quoted ''args'' @ '':'' @
             to_str (JArray (map (\<lambda>s. JObject [(''channel'', JString ''books5''), (''instId'', JString (symbol_to_okx s))]) syms)) @ ''}'')
         else if exch = 3 then
           Some (''{'' @ quoted ''time'' @ '':'' @ digits_of (unat now_ms) @ '','' @ quoted ''channel'' @ '':'' @ quoted ''spot.order_book'' @ '','' @
             quoted ''event'' @ '':'' @ quoted ''subscribe'' @ '','' @ quoted ''payload'' @ '':'' @ debug_strings (map symbol_to_gateio syms) @ ''}'')
         else if exch = 4 then None
         else if exch = 5 then
           Some (to_str (JArray (map (\<lambda>s. JObject [(''event'', JString ''subscribe''), (''channel'', JString ''book''),
             (''symbol'', JString (symbol_to_bitfinex s)), (''prec'', JString ''P0''), (''len'', JString ''25'')]) syms)))
         else if exch = 6 then Some (op_args (map (\<lambda>s. ''tickers.'' @ s) syms))
         else if exch = 7 then Some (op_args (map (\<lambda>s. ''orderBookL2_25:'' @ symbol_to_bitmex s) syms))
         else if exch = 8 then
           Some (to_str (JObject [(''type'', JString ''subscribe''), (''product_ids'', strings (map symbol_to_coinbase syms)),
             (''channels'', strings [''level2''])]))
         else if exch = 9 then
           Some (to_str (JArray (map (\<lambda>s. JObject [(''sub'', JString (''market.depth.'' @ s)), (''id'', JString ''depth_sub'')]) syms)))
         else if exch = 10 then
           Some (to_str (JObject [(''event'', JString ''subscribe''), (''pair'', strings (map symbol_to_kraken syms)),
             (''subscription'', JObject [(''name'', JString ''book'')])]))
         else if exch = 11 then
           Some (to_str (JObject [(''action'', JString ''subscribe''), (''subscribe'', JString ''depth''), (''pair'', strings syms)]))
         else if exch = 12 then
           Some (to_str (JArray (map (\<lambda>s. JObject [(''event'', JString ''bts:subscribe''),
             (''data'', JObject [(''channel'', JString (''diff_order_book_'' @ to_lowercase s))])]) syms)))
         else if exch = 13 then
           Some (to_str (JObject [(''jsonrpc'', JString ''2.0''), (''id'', JNumber (PosInt 1)), (''method'', JString ''public/subscribe''),
             (''params'', JObject [(''channels'', strings (map (\<lambda>s. ''book.'' @ s @ ''.100ms'') syms))])]))
         else if exch = 14 then
           Some (to_str (JObject [(''type'', JString ''subscribe''),
             (''payload'', JObject [(''channel'', JString ''v2/orderbook''), (''symbols'', strings syms)])]))
         else if exch = 15 then Some (method_params (map (\<lambda>s. to_lowercase s @ ''@depth20@100ms'') syms))
         else if exch = 16 then Some (op_args (map (\<lambda>s. ''book:'' @ s) syms))
         else Some (method_params (map (\<lambda>s. to_lowercase s @ ''@depth20@100ms'') syms)))"

section \<open>The listener\<close>

record 'd ob_listener =
  ob_books :: "'d book_store"
  parse_error_count :: u32
  applied_delta_count :: u64

text \<open>
  A message arrives at a time, while the watch channel holds a list of symbols.  A connection either fails (in time or by the timeout), or
  is made, the subscription is sent or not, and the stream delivers its messages.
\<close>

type_synonym ob_event = "u64 \<times> string list \<times> ws_message"

datatype ob_connect = ObConnected bool "ob_event list" | ObFailed

abbreviation OB_MAX_MESSAGE :: nat where "OB_MAX_MESSAGE \<equiv> 1048576"

definition watched_symbol :: "string list \<Rightarrow> string" where
  "watched_symbol symbols = (case symbols of [] \<Rightarrow> ''UNKNOWN'' | s # _ \<Rightarrow> s)"

definition ob_on_text ::
  "('d::linorder, 'f) reader \<Rightarrow> u16 \<Rightarrow> u64 \<Rightarrow> string list \<Rightarrow> string \<Rightarrow> 'd ob_listener \<Rightarrow> 'd ob_listener" where
  "ob_on_text R exch ts symbols raw l =
     (if OB_MAX_MESSAGE < length raw then l
      else case parse_orderbook_update R ts exch raw of
             Some delta \<Rightarrow>
               l\<lparr>ob_books := manager_apply_delta (reader_arith R) exch (watched_symbol symbols) delta (ob_books l),
                 applied_delta_count := applied_delta_count l + 1\<rparr>
           | None \<Rightarrow> l\<lparr>parse_error_count := parse_error_count l + 1\<rparr>)"

text \<open>The flag says that a close frame ended the listener.\<close>

fun ob_read_loop ::
  "('d::linorder, 'f) reader \<Rightarrow> u16 \<Rightarrow> ob_event list \<Rightarrow> 'd ob_listener \<Rightarrow> bool \<times> 'd ob_listener" where
  "ob_read_loop R exch [] l = (False, l)"
| "ob_read_loop R exch ((ts, symbols, WsText raw) # evs) l = ob_read_loop R exch evs (ob_on_text R exch ts symbols raw l)"
| "ob_read_loop R exch ((ts, symbols, WsClose) # evs) l = (True, l)"
| "ob_read_loop R exch ((ts, symbols, WsOther) # evs) l = ob_read_loop R exch evs l"
| "ob_read_loop R exch ((ts, symbols, WsError) # evs) l = (False, l)"

abbreviation OB_MAX_DELAY_SECS :: u64 where "OB_MAX_DELAY_SECS \<equiv> 30"
abbreviation OB_MAX_CONSECUTIVE_FAILURES :: u32 where "OB_MAX_CONSECUTIVE_FAILURES \<equiv> 50"

definition ob_delay_secs :: "u32 \<Rightarrow> u64" where
  "ob_delay_secs consecutive_failures = min (push_bit (unat (saturating_sub consecutive_failures 1) mod 64) 1) OB_MAX_DELAY_SECS"

text \<open>
  The outer loop over the outcomes of the connections: whether the task has returned, the listener, the delays slept and the outcomes left.
\<close>

fun ob_start_streaming ::
  "('d::linorder, 'f) reader \<Rightarrow> u16 \<Rightarrow> u32 \<Rightarrow> ob_connect list \<Rightarrow> 'd ob_listener \<Rightarrow> u64 list \<Rightarrow>
   bool \<times> 'd ob_listener \<times> u64 list \<times> ob_connect list" where
  "ob_start_streaming R exch failures [] l slept = (False, l, slept, [])"
| "ob_start_streaming R exch failures (ObFailed # cs) l slept =
     (let failures = failures + 1
      in if OB_MAX_CONSECUTIVE_FAILURES < failures then (True, l, slept, cs)
         else ob_start_streaming R exch failures cs l (slept @ [ob_delay_secs failures]))"
| "ob_start_streaming R exch failures (ObConnected sent evs # cs) l slept =
     (if \<not> sent then (True, l, slept, cs)
      else case ob_read_loop R exch evs l of
             (closed_frame, l) \<Rightarrow>
               if closed_frame then (True, l, slept, cs)
               else let failures = 0 + 1
                    in if OB_MAX_CONSECUTIVE_FAILURES < failures then (True, l, slept, cs)
                       else ob_start_streaming R exch failures cs l (slept @ [ob_delay_secs failures]))"

section \<open>One book per symbol\<close>

text \<open>
  The store under one exchange keeps independent books: a delta changes the book of its own symbol, by \<^const>\<open>apply_delta\<close>, and no other.
\<close>

definition book_entry :: "'d::linorder decimal_arith \<Rightarrow> 'd order_book option \<Rightarrow> string \<times> 'd order_book_delta \<Rightarrow> 'd order_book option" where
  "book_entry D e = (\<lambda>(s, d). Some (apply_delta D d (case e of None \<Rightarrow> order_book_new | Some b \<Rightarrow> b)))"

definition same_key :: "string \<times> 'd order_book_delta \<Rightarrow> string \<Rightarrow> bool" where
  "same_key = (\<lambda>(s, d) k. normalize_symbol s = normalize_symbol k)"

interpretation store: keyed_store "\<lambda>st k. get_book exch k st" "\<lambda>st (s, d). manager_apply_delta D exch s d st" same_key "book_entry D"
  for exch and D :: "'d::linorder decimal_arith"
  by unfold_locales
    (auto simp: same_key_def get_book_def manager_apply_delta_def book_entry_def Let_def split: option.splits prod.splits)

lemma normalize_append: "normalize_symbol (s @ t) = normalize_symbol s @ normalize_symbol t"
  by (simp add: normalize_symbol_def to_uppercase_def)

lemma normalize_separators: "normalize_symbol ''-'' = []" "normalize_symbol ''_'' = []" "normalize_symbol ''/'' = []"
  by (simp_all add: normalize_symbol_def to_uppercase_def ascii_upper_def)

text \<open>The spellings for OKX, GateIO and Coinbase name the same book as the plain symbol.\<close>

lemma split_with_key:
  assumes "normalize_symbol sep = []"
  shows "normalize_symbol (split_with sep s) = normalize_symbol s"
  using assms by (simp add: split_with_def normalize_append flip: normalize_append [of "take n s" "drop n s" for n s, simplified])

lemma symbol_spellings_agree:
  "get_book exch (symbol_to_okx s) st = get_book exch s st" "get_book exch (symbol_to_gateio s) st = get_book exch s st"
  "get_book exch (symbol_to_coinbase s) st = get_book exch s st"
  by (simp_all add: get_book_def symbol_to_okx_def symbol_to_gateio_def symbol_to_coinbase_def split_with_key normalize_separators
      split: option.split)

text \<open>The quote currencies are not tried longest first, and Bitfinex symbols keep the separator.\<close>

lemma symbol_splits:
  "symbol_to_okx ''BTCUSDT'' = ''BTC-USDT''" "symbol_to_okx ''BTCBUSD'' = ''BTCB-USD''" "symbol_to_bitfinex ''BTCUSDT'' = ''tBTC_USDT''"
  by (simp_all add: symbol_to_okx_def symbol_to_bitfinex_def split_with_def find_quote_separator_def str_ends_with_def to_uppercase_def
      ascii_upper_def Let_def)

section \<open>Surviving dropped streams\<close>

text \<open>The texts of a stream before its end, and whether a close frame ends it.\<close>

fun stream_texts :: "ob_event list \<Rightarrow> (u64 \<times> string list \<times> string) list" where
  "stream_texts [] = []"
| "stream_texts ((ts, symbols, WsText raw) # evs) = (ts, symbols, raw) # stream_texts evs"
| "stream_texts ((ts, symbols, WsOther) # evs) = stream_texts evs"
| "stream_texts ((ts, symbols, WsClose) # evs) = []"
| "stream_texts ((ts, symbols, WsError) # evs) = []"

fun ends_closed :: "ob_event list \<Rightarrow> bool" where
  "ends_closed [] = False"
| "ends_closed ((ts, symbols, WsText raw) # evs) = ends_closed evs"
| "ends_closed ((ts, symbols, WsOther) # evs) = ends_closed evs"
| "ends_closed ((ts, symbols, WsClose) # evs) = True"
| "ends_closed ((ts, symbols, WsError) # evs) = False"

definition text_delta :: "('d::linorder, 'f) reader \<Rightarrow> u16 \<Rightarrow> u64 \<times> string list \<times> string \<Rightarrow> (string \<times> 'd order_book_delta) list" where
  "text_delta R exch = (\<lambda>(ts, symbols, raw).
     if OB_MAX_MESSAGE < length raw then []
     else case parse_orderbook_update R ts exch raw of None \<Rightarrow> [] | Some d \<Rightarrow> [(watched_symbol symbols, d)])"

definition stream_deltas :: "('d::linorder, 'f) reader \<Rightarrow> u16 \<Rightarrow> ob_connect list \<Rightarrow> (string \<times> 'd order_book_delta) list" where
  "stream_deltas R exch cs =
     concat (map (\<lambda>c. case c of ObFailed \<Rightarrow> [] | ObConnected sent evs \<Rightarrow> concat (map (text_delta R exch) (stream_texts evs))) cs)"

fun few_failures :: "nat \<Rightarrow> ob_connect list \<Rightarrow> bool" where
  "few_failures n [] = True"
| "few_failures n (ObFailed # cs) = (n < 50 \<and> few_failures (Suc n) cs)"
| "few_failures n (ObConnected sent evs # cs) = (sent \<and> \<not> ends_closed evs \<and> few_failures 1 cs)"

abbreviation apply_deltas :: "('d::linorder, 'f) reader \<Rightarrow> u16 \<Rightarrow> 'd book_store \<Rightarrow> (string \<times> 'd order_book_delta) list \<Rightarrow> 'd book_store" where
  "apply_deltas R exch \<equiv> foldl (\<lambda>st (s, d). manager_apply_delta (reader_arith R) exch s d st)"

lemma ob_read_loop_books:
  "fst (ob_read_loop R exch evs l) = ends_closed evs \<and>
   ob_books (snd (ob_read_loop R exch evs l)) = apply_deltas R exch (ob_books l) (concat (map (text_delta R exch) (stream_texts evs)))"
  by (induction R exch evs l rule: ob_read_loop.induct) (auto simp: ob_on_text_def text_delta_def split: option.splits)

lemma ob_delay_bounds:
  assumes "1 \<le> n" "n \<le> 50"
  shows "1 \<le> ob_delay_secs (of_nat n) \<and> ob_delay_secs (of_nat n) \<le> OB_MAX_DELAY_SECS"
proof -
  have u: "unat (of_nat n :: u32) = n" using assms(2) by (simp add: unat_of_nat)
  have "unat (saturating_sub (of_nat n :: u32) 1) = n - 1" by (simp add: rust_arith u)
  then have d: "ob_delay_secs (of_nat n) = min (push_bit (n - 1) 1) OB_MAX_DELAY_SECS" using assms by (simp add: ob_delay_secs_def)
  have "2 ^ (n - 1) \<le> (2::nat) ^ 49" using assms by (intro power_increasing) auto
  then have "unat (push_bit (n - 1) (1 :: u64)) = 2 ^ (n - 1)" by (simp add: push_bit_eq_mult unat_word_power)
  then have "1 \<le> unat (push_bit (n - 1) (1 :: u64))" by simp
  then have "(1 :: u64) \<le> push_bit (n - 1) 1" by (simp add: word_le_nat_alt)
  then show ?thesis by (simp add: d)
qed

lemma ob_streaming_runs:
  assumes "few_failures n cs" "n \<le> 50" "\<forall>x \<in> set slept. 1 \<le> x \<and> x \<le> OB_MAX_DELAY_SECS"
  shows "\<exists>l' slept'. ob_start_streaming R exch (of_nat n) cs l slept = (False, l', slept', []) \<and>
     ob_books l' = apply_deltas R exch (ob_books l) (stream_deltas R exch cs) \<and>
     length slept' = length slept + length cs \<and> (\<forall>x \<in> set slept'. 1 \<le> x \<and> x \<le> OB_MAX_DELAY_SECS)"
  using assms
proof (induction n cs arbitrary: l slept rule: few_failures.induct)
  case (2 n cs)
  have n: "n < 50" "few_failures (Suc n) cs" using 2(2) by simp_all
  then have "\<not> OB_MAX_CONSECUTIVE_FAILURES < of_nat (Suc n)" by (simp add: word_less_nat_alt unat_of_nat del: of_nat_Suc)
  moreover have "\<forall>x \<in> set (slept @ [ob_delay_secs (of_nat (Suc n))]). 1 \<le> x \<and> x \<le> OB_MAX_DELAY_SECS"
    using 2(4) ob_delay_bounds [of "Suc n"] n(1) by (auto simp del: of_nat_Suc)
  ultimately show ?case
    using 2(1) [OF n(2), of "slept @ [ob_delay_secs (of_nat (Suc n))]" l] n(1) by (simp add: stream_deltas_def add.commute Let_def)
next
  case (3 n sent evs cs)
  have c: "sent" "\<not> ends_closed evs" "few_failures 1 cs" using 3(2) by simp_all
  have "\<forall>x \<in> set (slept @ [ob_delay_secs 1]). 1 \<le> x \<and> x \<le> OB_MAX_DELAY_SECS"
    using 3(4) ob_delay_bounds [of 1] by auto
  moreover obtain l1 where l1: "ob_read_loop R exch evs l = (False, l1)"
    "ob_books l1 = apply_deltas R exch (ob_books l) (concat (map (text_delta R exch) (stream_texts evs)))"
    using ob_read_loop_books [of R exch evs l] c(2) by (metis prod.collapse)
  ultimately show ?case
    using 3(1) [OF c(3), of "slept @ [ob_delay_secs 1]" l1] c by (simp add: stream_deltas_def)
qed (simp add: stream_deltas_def)

lemma ob_streaming_stops:
  "n \<le> 50 \<Longrightarrow> fst (ob_start_streaming R exch (of_nat n) cs l slept) \<longleftrightarrow> \<not> few_failures n cs"
proof (induction n cs arbitrary: l slept rule: few_failures.induct)
  case (2 n cs)
  have c: "OB_MAX_CONSECUTIVE_FAILURES < (of_nat (Suc n) :: u32) \<longleftrightarrow> \<not> n < 50"
    using 2(2) by (auto simp: word_less_nat_alt unat_of_nat simp del: of_nat_Suc)
  then show ?case using 2 by (simp add: Let_def add.commute)
next
  case (3 n sent evs cs)
  then show ?case using ob_read_loop_books [of R exch evs l] by (auto split: prod.split)
qed simp

text \<open>
  C17: a listener survives dropped streams and builds the books.  The task counts failures from zero: a connection that fails adds one, and a
  stream that was connected and then dropped leaves the counter at one, whatever it was before.  The task returns exactly when a
  connection fails while the counter stands at 50, a subscription cannot be sent, or a close frame arrives.  So it survives 50 failed connections in
  a row after its start, but only 49 after a dropped stream.  While it does not return, it sleeps between 1 and 30 seconds after every
  lost or failed connection, and the book of every symbol is exactly the result of the deltas, in order, that were parsed
  while this symbol was the first of the watched list - whichever symbol the message itself was about.
\<close>

theorem ob_listener_exact:
  "case ob_start_streaming R exch 0 cs l [] of (stopped, l', slept, rest) \<Rightarrow>
     (stopped \<longleftrightarrow> \<not> few_failures 0 cs) \<and>
     (\<not> stopped \<longrightarrow>
        rest = [] \<and> length slept = length cs \<and> (\<forall>x \<in> set slept. 1 \<le> x \<and> x \<le> OB_MAX_DELAY_SECS) \<and>
        (\<forall>k. get_book exch k (ob_books l') =
           foldl (book_entry (reader_arith R)) (get_book exch k (ob_books l)) (filter (\<lambda>u. same_key u k) (stream_deltas R exch cs))))"
proof (cases "few_failures 0 cs")
  case True
  obtain l' slept where run: "ob_start_streaming R exch 0 cs l [] = (False, l', slept, [])"
    "ob_books l' = apply_deltas R exch (ob_books l) (stream_deltas R exch cs)"
    "length slept = length cs" "\<forall>x \<in> set slept. 1 \<le> x \<and> x \<le> OB_MAX_DELAY_SECS"
    using ob_streaming_runs [OF True, of "[]" R exch l] by auto
  then show ?thesis using True by (simp add: store.lookup_run)
next
  case False
  then show ?thesis using ob_streaming_stops [of 0 R exch cs l "[]"] by (auto split: prod.split)
qed

theorem ob_listener_exact_witness:
  "case ob_start_streaming sample_reader 11 0
      [ObConnected True [(5, [''btc-usdt''], WsText ''m1''), (6, [''btc-usdt''], WsError)], ObFailed]
      \<lparr>ob_books = Map.empty, parse_error_count = 0, applied_delta_count = 0\<rparr> [] of (stopped, l', slept, rest) \<Rightarrow>
     \<not> stopped \<and> get_book 11 ''BTCUSDT'' (ob_books l') = Some (apply_delta int_arith (sample_parsed 99 1000 5) order_book_new) \<and>
     get_book 11 ''ETHUSDT'' (ob_books l') = None"
proof -
  let ?cs = "[ObConnected True [(5, [''btc-usdt''], WsText ''m1''), (6, [''btc-usdt''], WsError)], ObFailed]"
  let ?l = "\<lparr>ob_books = Map.empty, parse_error_count = 0, applied_delta_count = 0\<rparr> :: int ob_listener"
  have deltas: "stream_deltas sample_reader 11 ?cs = [(''btc-usdt'', sample_parsed 99 1000 5)]"
    by (simp add: stream_deltas_def text_delta_def sample_parses watched_symbol_def)
  have names: "normalize_symbol ''btc-usdt'' = ''BTCUSDT''" "normalize_symbol ''BTCUSDT'' = ''BTCUSDT''"
    "normalize_symbol ''ETHUSDT'' = ''ETHUSDT''" by code_simp+
  have keys: "same_key (''btc-usdt'', d) ''BTCUSDT''" "\<not> same_key (''btc-usdt'', d) ''ETHUSDT''" for d :: "int order_book_delta"
    by (simp_all add: same_key_def names)
  have arith: "reader_arith sample_reader = int_arith" by (simp add: sample_reader_def)
  have empty: "get_book 11 k (\<lambda>x. None) = None" for k by (simp add: get_book_def)
  have "few_failures 0 ?cs" by simp
  with ob_listener_exact [where cs = ?cs and R = sample_reader and exch = 11 and l = ?l] show ?thesis
    unfolding deltas arith by (auto simp: empty keys book_entry_def split: prod.splits)
qed

end
