(* ===== verification/Depeg_Circuits.thy ===== *)
theory Depeg_Circuits
  imports Decimal_Api
begin

text \<open>
  The two monitors of stablecoins: the circuit with hysteresis of \<^verbatim>\<open>src/src/depeg_protection.rs\<close>, and the monitor of prices and of capital
  concentration of \<^verbatim>\<open>src/src/stablecoin.rs\<close>, whose verdict the execution engine asks for before every blast.  The order
  of decimals is the carrier's; symbols are ASCII.
\<close>

section \<open>The protection circuit\<close>

record 'd protection_circuit =
  target_symbol :: string
  is_depegged :: bool
  threshold :: 'd
  recovery_ticks_required :: u64
  recovery_tick_count :: u64
  last_price_fp :: u64
  volatility_multiplier :: u64

definition circuit_with :: "'d \<Rightarrow> string \<Rightarrow> 'd protection_circuit" where
  "circuit_with th symbol =
     \<lparr>target_symbol = to_uppercase symbol, is_depegged = False, threshold = th, recovery_ticks_required = 10,
      recovery_tick_count = 0, last_price_fp = 1000000, volatility_multiplier = 10000\<rparr>"

definition circuit_new :: "'d exec_decimal \<Rightarrow> string \<Rightarrow> 'd protection_circuit" where
  "circuit_new D symbol = circuit_with (dec_new D 5 3) symbol"

text \<open>The two assertions panic.\<close>

definition with_threshold :: "'d::linorder exec_decimal \<Rightarrow> string \<Rightarrow> 'd \<Rightarrow> 'd protection_circuit option" where
  "with_threshold D symbol th = (if dec_zero D < th \<and> th \<le> dec_new D 1 1 then Some (circuit_with th symbol) else None)"

definition check_safety :: "'d protection_circuit \<Rightarrow> bool" where
  "check_safety c \<longleftrightarrow> \<not> is_depegged c"

definition set_depeg_state :: "bool \<Rightarrow> 'd protection_circuit \<Rightarrow> 'd protection_circuit" where
  "set_depeg_state b c = (if b then c\<lparr>is_depegged := True\<rparr> else c)"

definition effective_threshold :: "'d exec_decimal \<Rightarrow> 'd protection_circuit \<Rightarrow> 'd" where
  "effective_threshold D c =
     dec_div D (dec_mul D (threshold c) (dec_from_int D (uint (volatility_multiplier c)))) (dec_from_int D 10000)"

definition last_price :: "'d exec_decimal \<Rightarrow> 'd protection_circuit \<Rightarrow> 'd" where
  "last_price D c = dec_div D (dec_from_int D (uint (last_price_fp c))) (dec_from_int D 1000000)"

definition deviation :: "'d::linorder exec_decimal \<Rightarrow> 'd \<Rightarrow> 'd" where
  "deviation D price =
     (let one = dec_from_int D 1 in if one < price then dec_sub D price one else dec_sub D one price)"

definition attempt_recovery :: "'d::linorder exec_decimal \<Rightarrow> 'd protection_circuit \<Rightarrow> bool \<times> 'd protection_circuit" where
  "attempt_recovery D c =
     (let price = last_price D c
      in if price \<le> dec_zero D then (False, c)
         else if deviation D price \<le> effective_threshold D c then (True, c\<lparr>is_depegged := False, recovery_tick_count := 0\<rparr>)
         else (False, c))"

text \<open>
  A price that converts to no positive fixed-point number trips the circuit.  Between the load and the
  exchange no other thread intervenes, so the exchange succeeds.
\<close>

definition circuit_update_price :: "'d::linorder exec_decimal \<Rightarrow> 'd \<Rightarrow> 'd protection_circuit \<Rightarrow> 'd protection_circuit" where
  "circuit_update_price D price c =
     (if price \<le> dec_zero D then c
      else case dec_to_u64 D (dec_mul D price (dec_from_int D 1000000)) of
             None \<Rightarrow> c\<lparr>is_depegged := True\<rparr>
           | Some fp \<Rightarrow>
               if fp = 0 then c\<lparr>is_depegged := True\<rparr>
               else
                 let c = c\<lparr>last_price_fp := fp\<rparr>;
                     should_depeg = effective_threshold D c < deviation D price
                 in if should_depeg then c\<lparr>recovery_tick_count := 0, is_depegged := True\<rparr>
                    else if is_depegged c then
                      let required = max (recovery_ticks_required c) 1;
                          n = recovery_tick_count c + 1
                      in if required \<le> n then c\<lparr>is_depegged := False, recovery_tick_count := 0\<rparr>
                         else c\<lparr>recovery_tick_count := n\<rparr>
                    else c\<lparr>recovery_tick_count := 0\<rparr>)"

text \<open>The range test of the float and its conversion to fixed point are the argument: \<open>None\<close> out of range.\<close>

definition update_volatility_multiplier :: "u64 option \<Rightarrow> 'd protection_circuit \<Rightarrow> 'd protection_circuit" where
  "update_volatility_multiplier factor c =
     (case factor of None \<Rightarrow> c | Some fp \<Rightarrow> c\<lparr>volatility_multiplier := max fp 1\<rparr>)"

section \<open>The stablecoin monitor\<close>

record 'd stablecoin_config =
  depeg_threshold :: 'd
  usdt_max_pct :: 'd
  usdc_min_pct :: 'd
  monitored_symbols :: "string list"
  check_interval_ms :: u64

record 'd stablecoin_price =
  coin_symbol :: string
  coin_price :: 'd
  coin_exchange :: string
  coin_timestamp :: i64

record 'd stablecoin_state =
  coin_prices :: "string \<Rightarrow> 'd stablecoin_price option"
  coin_depeg_active :: bool
  depegged_coin :: "string option"
  usdt_held :: 'd
  usdc_held :: 'd
  dai_held :: 'd
  total_capital :: 'd

definition stablecoin_default :: "'d exec_decimal \<Rightarrow> 'd stablecoin_config" where
  "stablecoin_default D = \<lparr>depeg_threshold = dec_new D 998 3, usdt_max_pct = dec_new D 80 2, usdc_min_pct = dec_new D 20 2,
     monitored_symbols = [''USDT'', ''USDC'', ''DAI''], check_interval_ms = 5000\<rparr>"

definition stablecoin_state_default :: "'d exec_decimal \<Rightarrow> 'd stablecoin_state" where
  "stablecoin_state_default D = \<lparr>coin_prices = Map.empty, coin_depeg_active = False, depegged_coin = None,
     usdt_held = dec_zero D, usdc_held = dec_zero D, dai_held = dec_zero D, total_capital = dec_zero D\<rparr>"

definition off_peg :: "'d::linorder exec_decimal \<Rightarrow> 'd stablecoin_config \<Rightarrow> 'd \<Rightarrow> bool" where
  "off_peg D cfg price \<longleftrightarrow>
     (let one = dec_from_int D 1; upper_threshold = dec_add D one (dec_sub D one (depeg_threshold cfg))
      in price < depeg_threshold cfg \<or> upper_threshold < price)"

definition coin_update_price ::
  "'d::linorder exec_decimal \<Rightarrow> 'd stablecoin_config \<Rightarrow> i64 \<Rightarrow> string \<Rightarrow> 'd \<Rightarrow> string \<Rightarrow> 'd stablecoin_state \<Rightarrow> 'd stablecoin_state" where
  "coin_update_price D cfg now symbol price exch st =
     (let trimmed = str_trim symbol
      in if trimmed = [] then st
         else if price \<le> dec_zero D then st
         else let entry = \<lparr>coin_symbol = to_uppercase trimmed, coin_price = price, coin_exchange = exch, coin_timestamp = now\<rparr>;
                  ps = (coin_prices st)(to_uppercase symbol \<mapsto> entry);
                  first_depegged = find (\<lambda>s. case ps s of None \<Rightarrow> False | Some sp \<Rightarrow> off_peg D cfg (coin_price sp)) (monitored_symbols cfg)
              in st\<lparr>coin_prices := ps, coin_depeg_active := (first_depegged \<noteq> None), depegged_coin := first_depegged\<rparr>)"

definition update_holdings :: "'d \<Rightarrow> 'd \<Rightarrow> 'd \<Rightarrow> 'd \<Rightarrow> 'd stablecoin_state \<Rightarrow> 'd stablecoin_state" where
  "update_holdings usdt usdc dai capital st =
     st\<lparr>usdt_held := usdt, usdc_held := usdc, dai_held := dai, total_capital := capital\<rparr>"

definition check_concentration :: "'d::linorder exec_decimal \<Rightarrow> 'd stablecoin_config \<Rightarrow> 'd stablecoin_state \<Rightarrow> bool" where
  "check_concentration D cfg st =
     (if total_capital st \<le> dec_zero D then True
      else \<not> usdt_max_pct cfg < dec_div D (usdt_held st) (total_capital st) \<and>
           \<not> dec_div D (usdc_held st) (total_capital st) < usdc_min_pct cfg)"

text \<open>The amount of the recommendation to rotate from USDT to USDC; its text is not modelled.\<close>

definition get_rotation_recommendation :: "'d::linorder exec_decimal \<Rightarrow> 'd stablecoin_config \<Rightarrow> 'd stablecoin_state \<Rightarrow> 'd option" where
  "get_rotation_recommendation D cfg st =
     (if total_capital st \<le> dec_zero D then None
      else if dec_div D (usdt_held st) (total_capital st) \<le> usdt_max_pct cfg then None
      else let excess = dec_sub D (usdt_held st) (dec_mul D (total_capital st) (usdt_max_pct cfg))
           in if excess \<le> dec_zero D then None else Some excess)"

section \<open>Hysteresis\<close>

text \<open>
  A price the circuit can store, and one that deviates too much under the circuit's threshold, which prices do not change.
\<close>

definition storable :: "'d::linorder exec_decimal \<Rightarrow> 'd \<Rightarrow> bool" where
  "storable D price \<longleftrightarrow> dec_zero D < price \<and>
     (case dec_to_u64 D (dec_mul D price (dec_from_int D 1000000)) of None \<Rightarrow> False | Some fp \<Rightarrow> fp \<noteq> 0)"

definition out_of_range :: "'d::linorder exec_decimal \<Rightarrow> 'd protection_circuit \<Rightarrow> 'd \<Rightarrow> bool" where
  "out_of_range D c price \<longleftrightarrow> effective_threshold D c < deviation D price"

definition feed_prices :: "'d::linorder exec_decimal \<Rightarrow> 'd list \<Rightarrow> 'd protection_circuit \<Rightarrow> 'd protection_circuit" where
  "feed_prices D ps c = foldl (\<lambda>c p. circuit_update_price D p c) c ps"

text \<open>The number of prices in range since the last one out of range.\<close>

definition quiet :: "('d \<Rightarrow> bool) \<Rightarrow> 'd list \<Rightarrow> nat" where
  "quiet bad ps = length (takeWhile (\<lambda>p. \<not> bad p) (rev ps))"

definition watched :: "'d::linorder exec_decimal \<Rightarrow> 'd protection_circuit \<Rightarrow> 'd protection_circuit \<Rightarrow> bool" where
  "watched D c0 c \<longleftrightarrow> threshold c = threshold c0 \<and> volatility_multiplier c = volatility_multiplier c0 \<and>
     recovery_ticks_required c = recovery_ticks_required c0"

lemma update_valid:
  assumes "storable D p"
  shows "watched D c (circuit_update_price D p c) \<and>
    (if out_of_range D c p
     then is_depegged (circuit_update_price D p c) \<and> recovery_tick_count (circuit_update_price D p c) = 0
     else if is_depegged c \<and> \<not> max (recovery_ticks_required c) 1 \<le> recovery_tick_count c + 1
     then is_depegged (circuit_update_price D p c) \<and> recovery_tick_count (circuit_update_price D p c) = recovery_tick_count c + 1
     else \<not> is_depegged (circuit_update_price D p c) \<and> recovery_tick_count (circuit_update_price D p c) = 0)"
proof -
  have eff: "effective_threshold D (c\<lparr>last_price_fp := fp\<rparr>) = effective_threshold D c" for fp by (simp add: effective_threshold_def)
  from assms obtain fp where "dec_to_u64 D (dec_mul D p (dec_from_int D 1000000)) = Some fp" "fp \<noteq> 0" "\<not> p \<le> dec_zero D"
    by (auto simp: storable_def split: option.splits)
  then show ?thesis by (auto simp: circuit_update_price_def watched_def out_of_range_def eff Let_def)
qed

lemma recent_bad: "(\<exists>p \<in> set (take n (rev ps)). bad p) \<longleftrightarrow> (\<exists>p \<in> set ps. bad p) \<and> quiet bad ps < n"
proof (induction ps arbitrary: n rule: rev_induct)
  case (snoc p ps)
  show ?case by (cases n) (use snoc in \<open>auto simp: quiet_def\<close>)
qed simp

lemma quiet_snoc: "quiet bad (ps @ [p]) = (if bad p then 0 else Suc (quiet bad ps))"
  by (simp add: quiet_def)

lemma feed_prices_state:
  assumes "\<forall>p \<in> set ps. storable D p" "\<not> is_depegged c0" "recovery_tick_count c0 = 0"
  shows "let c = feed_prices D ps c0; bad = out_of_range D c0; r = max (unat (recovery_ticks_required c0)) 1
    in watched D c0 c \<and> (is_depegged c \<longleftrightarrow> (\<exists>p \<in> set ps. bad p) \<and> quiet bad ps < r) \<and>
       unat (recovery_tick_count c) = (if is_depegged c then quiet bad ps else 0)"
  using assms(1)
proof (induction ps rule: rev_induct)
  case Nil
  then show ?case using assms(2,3) by (simp add: feed_prices_def watched_def)
next
  case (snoc p ps)
  define c where "c = feed_prices D ps c0"
  define bad where "bad = out_of_range D c0"
  define r where "r = max (unat (recovery_ticks_required c0)) 1"
  have IH: "watched D c0 c" "is_depegged c \<longleftrightarrow> (\<exists>p \<in> set ps. bad p) \<and> quiet bad ps < r"
    "unat (recovery_tick_count c) = (if is_depegged c then quiet bad ps else 0)"
    using snoc by (simp_all add: Let_def c_def bad_def r_def)
  have next_c: "feed_prices D (ps @ [p]) c0 = circuit_update_price D p c" by (simp add: feed_prices_def c_def)
  have same: "out_of_range D c p = bad p" "recovery_ticks_required c = recovery_ticks_required c0"
    using IH(1) by (simp_all add: watched_def out_of_range_def effective_threshold_def bad_def)
  have r: "unat (max (recovery_ticks_required c0) 1) = r" by (simp add: r_def max_def word_le_nat_alt)
  have limit: "max (recovery_ticks_required c) 1 \<le> recovery_tick_count c + 1 \<longleftrightarrow> r \<le> Suc (quiet bad ps)"
    and count: "unat (recovery_tick_count c + 1) = Suc (quiet bad ps)" if "is_depegged c"
  proof -
    have "quiet bad ps < r" using IH(2) that by blast
    moreover have "r < 2 ^ 64" using r unat_less_2p [of "max (recovery_ticks_required c0) 1"] by simp
    ultimately have "unat (recovery_tick_count c + 1) = Suc (quiet bad ps)"
      using IH(3) that by (simp add: unat_word_ariths)
    then show "max (recovery_ticks_required c) 1 \<le> recovery_tick_count c + 1 \<longleftrightarrow> r \<le> Suc (quiet bad ps)"
      and "unat (recovery_tick_count c + 1) = Suc (quiet bad ps)"
      by (simp_all add: word_le_nat_alt r same)
  qed
  have st: "storable D p" using snoc.prems by simp
  let ?c = "circuit_update_price D p c"
  have w: "watched D c0 ?c" using update_valid [OF st, of c] IH(1) by (simp add: watched_def)
  have step: "if bad p then is_depegged ?c \<and> recovery_tick_count ?c = 0
    else if is_depegged c \<and> \<not> r \<le> Suc (quiet bad ps) then is_depegged ?c \<and> recovery_tick_count ?c = recovery_tick_count c + 1
    else \<not> is_depegged ?c \<and> recovery_tick_count ?c = 0"
  proof (cases "is_depegged c")
    case True
    then show ?thesis using update_valid [OF st, of c] unfolding same(1) limit [OF True] by simp
  next
    case False
    then show ?thesis using update_valid [OF st, of c] unfolding same(1) by simp
  qed
  have bad_some: "\<exists>p \<in> set ps. bad p" "quiet bad ps < r" if "is_depegged c" using IH(2) that by auto
  have r1: "1 \<le> r" by (simp add: r_def)
  have "(is_depegged ?c \<longleftrightarrow> (\<exists>p \<in> set (ps @ [p]). bad p) \<and> quiet bad (ps @ [p]) < r) \<and>
     unat (recovery_tick_count ?c) = (if is_depegged ?c then quiet bad (ps @ [p]) else 0)"
  proof (cases "bad p")
    case True
    then show ?thesis using step r1 by (simp add: quiet_snoc)
  next
    case False
    show ?thesis
    proof (cases "is_depegged c")
      case True
      show ?thesis
        by (cases "Suc (quiet bad ps) < r") (use True False step bad_some [OF True] count [OF True] in \<open>auto simp: quiet_snoc\<close>)
    next
      case nd: False
      then have "\<not> ((\<exists>p \<in> set ps. bad p) \<and> Suc (quiet bad ps) < r)" using IH(2) by auto
      then show ?thesis using False nd step by (auto simp: quiet_snoc)
    qed
  qed
  with w show ?case unfolding next_c by (simp add: Let_def bad_def r_def)
qed

text \<open>
  the hysteresis of the depeg circuit.  Fed with prices it can store, a fresh circuit is tripped exactly when one of the last ten
  prices deviates from 1 by more than the effective threshold: one such price trips it, and ten prices in range in a
  row, not fewer, clear it.
\<close>

theorem depeg_hysteresis:
  assumes "\<forall>p \<in> set ps. storable D p"
  shows "let c0 = circuit_with th symbol
         in check_safety (feed_prices D ps c0) \<longleftrightarrow> \<not> (\<exists>p \<in> set (take 10 (rev ps)). out_of_range D c0 p)"
  using feed_prices_state [OF assms, of "circuit_with th symbol"]
  by (simp add: Let_def check_safety_def recent_bad circuit_with_def)

definition milli :: "int exec_decimal" where
  "milli =
     \<lparr>dec_zero = 0, dec_lt = (<), dec_mul = (\<lambda>a b. a * b div 1000), dec_neg = uminus, dec_from_int = (\<lambda>n. n * 1000),
      dec_to_u64 = (\<lambda>x. if 0 \<le> x \<and> x div 1000 < 2 ^ 64 then Some (word_of_int (x div 1000)) else None),
      dec_to_string = (\<lambda>x. digits_of (nat x)), dec_add = (+), dec_sub = (-), dec_div = (\<lambda>a b. a * 1000 div b),
      dec_new = (\<lambda>m s. m * 1000 div 10 ^ s), dec_saturating_sub = (-), dec_saturating_add = (+), dec_ceil = id, dec_round = id, dec_trunc = id, dec_floor = id,
      dec_to_i64 = (\<lambda>x. None)\<rparr>"

theorem depeg_hysteresis_witness:
  "\<not> check_safety (feed_prices milli [1000, 990, 1001] (circuit_with 5 ''usdt''))"
proof -
  have "\<forall>p \<in> set [1000, 990, 1001]. storable milli p" by (simp add: storable_def milli_def)
  from depeg_hysteresis [OF this, of 5 "''usdt''"] show ?thesis
    by (simp add: Let_def out_of_range_def deviation_def effective_threshold_def circuit_with_def milli_def)
qed

text \<open>
  A price that cannot be stored trips the circuit but leaves the counter of recovery ticks: after it a single price in range can
  clear the circuit.
\<close>

lemma unstorable_price_keeps_count:
  assumes "dec_zero D < p" "dec_to_u64 D (dec_mul D p (dec_from_int D 1000000)) = None" "storable D p'" "\<not> out_of_range D c p'"
    "recovery_tick_count c = 9" "recovery_ticks_required c = 10"
  shows "\<not> check_safety (circuit_update_price D p c) \<and> check_safety (circuit_update_price D p' (circuit_update_price D p c))"
proof -
  have p: "circuit_update_price D p c = c\<lparr>is_depegged := True\<rparr>" using assms(1,2) by (simp add: circuit_update_price_def)
  show ?thesis
    using update_valid [OF assms(3), of "c\<lparr>is_depegged := True\<rparr>"] assms(4-6)
    by (simp add: p check_safety_def out_of_range_def effective_threshold_def max_def)
qed

section \<open>The monitor's verdict\<close>

text \<open>
  The monitor is active exactly when the latest stored price of a monitored symbol is off its peg; the exchange a price
  comes from does not matter, so a price from one exchange hides another's.
\<close>

lemma monitor_exact:
  assumes "str_trim symbol \<noteq> []" "dec_zero D < price"
  shows "let st' = coin_update_price D cfg now symbol price exch st
    in (coin_depeg_active st' \<longleftrightarrow> (\<exists>s \<in> set (monitored_symbols cfg). \<exists>sp. coin_prices st' s = Some sp \<and> off_peg D cfg (coin_price sp))) \<and>
       map_option coin_price (coin_prices st' (to_uppercase symbol)) = Some price \<and>
       (\<forall>s. s \<noteq> to_uppercase symbol \<longrightarrow> coin_prices st' s = coin_prices st s)"
proof -
  have found: "find P xs \<noteq> None \<longleftrightarrow> (\<exists>x \<in> set xs. P x)" for P and xs :: "string list" by (auto simp: find_None_iff)
  have pick: "(case e of None \<Rightarrow> False | Some sp \<Rightarrow> off_peg D cfg (coin_price sp)) \<longleftrightarrow> (\<exists>sp. e = Some sp \<and> off_peg D cfg (coin_price sp))" for e
    by (cases e) auto
  have "\<not> price \<le> dec_zero D" using assms(2) by (simp add: not_le)
  then show ?thesis using assms(1) by (simp add: coin_update_price_def Let_def found pick del: not_None_eq)
qed

text \<open>A symbol with surrounding blanks is stored under a key that no monitored symbol has.\<close>

lemma untrimmed_symbol_unwatched:
  "coin_depeg_active (coin_update_price D (stablecoin_default D) now '' USDT'' price exch (stablecoin_state_default D)) = False"
  by (auto simp: coin_update_price_def Let_def stablecoin_default_def stablecoin_state_default_def to_uppercase_def ascii_upper_def)

end
