(* ===== verification/Hash_Map.thy ===== *)
theory Hash_Map
  imports BTree_Map
begin

text \<open>
  Hash maps: the list of the entries in the order in which an iterator visits them.  A new key comes last; since the
  order of a hash map is arbitrary, no theorem of a client relies on where an entry stands.
\<close>

fun hm_insert :: "'k \<Rightarrow> 'v \<Rightarrow> ('k \<times> 'v) list \<Rightarrow> ('k \<times> 'v) list" where
  "hm_insert k v [] = [(k, v)]"
| "hm_insert k v ((k', v') # m) = (if k = k' then (k, v) # m else (k', v') # hm_insert k v m)"

abbreviation hm_remove :: "'k \<Rightarrow> ('k \<times> 'v) list \<Rightarrow> ('k \<times> 'v) list" where
  "hm_remove \<equiv> bt_remove"

definition hm_ok :: "('k \<times> 'v) list \<Rightarrow> bool" where
  "hm_ok m \<longleftrightarrow> distinct (map fst m)"

lemma hm_ok_simps [simp]:
  "hm_ok []" "hm_ok ((k, v) # m) \<longleftrightarrow> k \<notin> fst ` set m \<and> hm_ok m"
  by (auto simp: hm_ok_def)

lemma keys_hm_insert: "fst ` set (hm_insert k v m) = insert k (fst ` set m)"
  by (induction k v m rule: hm_insert.induct) auto

lemma map_of_hm_insert: "map_of (hm_insert k v m) = (map_of m)(k \<mapsto> v)"
  by (induction k v m rule: hm_insert.induct) auto

lemma hm_ok_insert: "hm_ok m \<Longrightarrow> hm_ok (hm_insert k v m)"
  by (induction k v m rule: hm_insert.induct) (auto simp: keys_hm_insert)

lemma hm_ok_filter: "hm_ok m \<Longrightarrow> hm_ok (filter P m)"
  by (simp add: hm_ok_def distinct_map_filter)

interpretation hash: map_contract hm_ok map_of hm_insert hm_remove
  by unfold_locales
    (auto simp: hm_ok_insert map_of_hm_insert bt_lookup_remove, simp add: bt_remove_def hm_ok_filter)

lemma in_hm_iff: "hm_ok m \<Longrightarrow> (k, v) \<in> set m \<longleftrightarrow> map_of m k = Some v"
  by (auto simp: hm_ok_def dest: map_of_SomeD)

text \<open>Two maps with the same entries agree on everything that does not depend on the order.\<close>

lemma hm_same_entries:
  assumes "hm_ok m" "hm_ok m'" "map_of m = map_of m'"
  shows "mset m = mset m'"
proof -
  have "set m = set m'" by (auto simp: in_hm_iff [OF assms(1)] in_hm_iff [OF assms(2)] assms(3))
  moreover have "distinct m" "distinct m'" using assms(1,2) by (auto simp: hm_ok_def distinct_map)
  ultimately show ?thesis by (simp add: set_eq_iff_mset_eq_distinct)
qed

end
