(* ===== verification/Capital_Balances.thy ===== *)
theory Capital_Balances
  imports Hash_Map Atomic_Cell Decimal_Api
begin

text \<open>
  The capital of the engine: the matrix of balances and the registry of tokens of \<^verbatim>\<open>src/src/balance_allocator.rs\<close>, its
  synchronisation with the exchanges of \<^verbatim>\<open>src/src/balance_sync.rs\<close>, and the search for drifts of
  \<^verbatim>\<open>src/src/position_reconciliation.rs\<close>.  What an exchange answers to a request for a balance is an argument.
\<close>

section \<open>Fixed point\<close>

abbreviation FP_SCALE :: int where "FP_SCALE \<equiv> 1000000"

definition balance_to_fp :: "'d::linorder exec_decimal \<Rightarrow> 'd \<Rightarrow> u64" where
  "balance_to_fp D d =
     (if d < dec_zero D then 0
      else let scaled = dec_mul D d (dec_from_int D 1000000)
           in if dec_from_int D (2 ^ 64 - 1) < scaled then - 1
              else case dec_to_u64 D (dec_trunc D scaled) of None \<Rightarrow> 0 | Some fp \<Rightarrow> fp)"

definition fp_to_decimal :: "'d exec_decimal \<Rightarrow> u64 \<Rightarrow> 'd" where
  "fp_to_decimal D fp = dec_div D (dec_from_int D (uint fp)) (dec_from_int D FP_SCALE)"

section \<open>The registry of tokens\<close>

abbreviation CAT_NONE :: u16 where "CAT_NONE \<equiv> 0"
abbreviation CAT_MAJOR :: u16 where "CAT_MAJOR \<equiv> 1"
abbreviation CAT_ALTCOIN :: u16 where "CAT_ALTCOIN \<equiv> 2"
abbreviation CAT_MEMECOIN :: u16 where "CAT_MEMECOIN \<equiv> 4"
abbreviation CAT_STABLE :: u16 where "CAT_STABLE \<equiv> 8"
abbreviation CAT_LAYER1 :: u16 where "CAT_LAYER1 \<equiv> 16"

record token_asset =
  asset_id :: u16
  asset_symbol :: string
  category_mask :: u16

record categorized_inventory =
  token_registry :: "(u16 \<times> token_asset) list"
  symbol_to_id :: "string \<Rightarrow> u16 option"
  memecoin_indices :: "u16 list"
  altcoin_indices :: "u16 list"
  major_indices :: "u16 list"
  stable_indices :: "u16 list"

definition inventory_new :: categorized_inventory where
  "inventory_new = \<lparr>token_registry = [], symbol_to_id = Map.empty, memecoin_indices = [], altcoin_indices = [],
     major_indices = [], stable_indices = []\<rparr>"

definition push_if :: "u16 \<Rightarrow> u16 \<Rightarrow> u16 \<Rightarrow> u16 list \<Rightarrow> u16 list" where
  "push_if cmask cat i xs = (if cmask AND cat \<noteq> 0 then xs @ [i] else xs)"

definition inventory_register :: "u16 \<Rightarrow> string \<Rightarrow> u16 \<Rightarrow> categorized_inventory \<Rightarrow> categorized_inventory" where
  "inventory_register i symbol cmask v =
     v\<lparr>symbol_to_id := (symbol_to_id v)(to_uppercase symbol \<mapsto> i),
       token_registry := hm_insert i \<lparr>asset_id = i, asset_symbol = to_uppercase symbol, category_mask = cmask\<rparr> (token_registry v),
       memecoin_indices := push_if cmask CAT_MEMECOIN i (memecoin_indices v),
       altcoin_indices := push_if cmask CAT_ALTCOIN i (altcoin_indices v),
       major_indices := push_if cmask CAT_MAJOR i (major_indices v),
       stable_indices := push_if cmask CAT_STABLE i (stable_indices v)\<rparr>"

section \<open>The matrix of balances\<close>

record capital_allocator =
  balances :: "u64 list"
  alloc_tokens :: usize
  alloc_exchanges :: usize
  inventory :: categorized_inventory

definition allocator_new :: "usize \<Rightarrow> usize \<Rightarrow> capital_allocator" where
  "allocator_new exchanges toks =
     \<lparr>balances = replicate (exchanges * toks mod 2 ^ 64) 0, alloc_tokens = toks, alloc_exchanges = exchanges,
      inventory = inventory_new\<rparr>"

definition register_token :: "u16 \<Rightarrow> string \<Rightarrow> u16 \<Rightarrow> capital_allocator \<Rightarrow> capital_allocator" where
  "register_token i symbol cmask a = a\<lparr>inventory := inventory_register i symbol cmask (inventory a)\<rparr>"

definition get_category :: "u16 \<Rightarrow> capital_allocator \<Rightarrow> u16" where
  "get_category i a = (case map_of (token_registry (inventory a)) i of None \<Rightarrow> CAT_NONE | Some t \<Rightarrow> category_mask t)"

definition get_id :: "string \<Rightarrow> capital_allocator \<Rightarrow> u16 option" where
  "get_id symbol a = symbol_to_id (inventory a) (to_uppercase symbol)"

definition get_symbol :: "u16 \<Rightarrow> capital_allocator \<Rightarrow> string option" where
  "get_symbol i a = map_option asset_symbol (map_of (token_registry (inventory a)) i)"

definition filter_by_category :: "u16 \<Rightarrow> capital_allocator \<Rightarrow> u16 list" where
  "filter_by_category cmask a =
     map asset_id (filter (\<lambda>t. category_mask t AND cmask \<noteq> 0) (map snd (token_registry (inventory a))))"

text \<open>An index is \<open>None\<close> when an identifier is out of range; an access outside of the array panics.\<close>

definition balance_idx :: "capital_allocator \<Rightarrow> usize \<Rightarrow> usize \<Rightarrow> usize option" where
  "balance_idx a e t =
     (if alloc_exchanges a \<le> e \<or> alloc_tokens a \<le> t then None
      else Some ((e * alloc_tokens a + t) mod 2 ^ 64))"

definition store_balance :: "usize \<Rightarrow> u64 \<Rightarrow> capital_allocator \<Rightarrow> capital_allocator option" where
  "store_balance i fp a = map_option (\<lambda>bs. a\<lparr>balances := bs\<rparr>) (put_at i fp (balances a))"

definition update_balance_atomic ::
  "'d::linorder exec_decimal \<Rightarrow> usize \<Rightarrow> usize \<Rightarrow> 'd \<Rightarrow> capital_allocator \<Rightarrow> capital_allocator option" where
  "update_balance_atomic D e t balance a =
     (let fp = balance_to_fp D balance
      in case balance_idx a e t of None \<Rightarrow> Some a | Some i \<Rightarrow> store_balance i fp a)"

definition get_balance_atomic :: "'d exec_decimal \<Rightarrow> usize \<Rightarrow> usize \<Rightarrow> capital_allocator \<Rightarrow> 'd option" where
  "get_balance_atomic D e t a =
     (case balance_idx a e t of
        None \<Rightarrow> Some (dec_zero D)
      | Some i \<Rightarrow> map_option (fp_to_decimal D) (get_at (balances a) i))"

definition get_total_balance :: "'d exec_decimal \<Rightarrow> usize \<Rightarrow> capital_allocator \<Rightarrow> 'd option" where
  "get_total_balance D t a =
     (if alloc_tokens a \<le> t then Some (dec_zero D)
      else map_option (fp_to_decimal D)
             (try_fold (\<lambda>acc e. map_option (saturating_add acc) (get_at (balances a) ((e * alloc_tokens a + t) mod 2 ^ 64)))
                0 [0..<alloc_exchanges a]))"

definition compute_lot_size ::
  "'d::linorder exec_decimal \<Rightarrow> usize \<Rightarrow> usize \<Rightarrow> 'd \<Rightarrow> 'd \<Rightarrow> capital_allocator \<Rightarrow> 'd option" where
  "compute_lot_size D e t max_pct capital a =
     map_option (\<lambda>available. let cap = dec_mul D capital max_pct in if available < cap then available else cap)
       (get_balance_atomic D e t a)"

definition get_category_exposure :: "'d exec_decimal \<Rightarrow> usize \<Rightarrow> u16 \<Rightarrow> capital_allocator \<Rightarrow> 'd option" where
  "get_category_exposure D e cmask a =
     map_option (fp_to_decimal D)
       (try_fold (\<lambda>acc t. case balance_idx a e (unat t) of
                            None \<Rightarrow> Some acc
                          | Some i \<Rightarrow> map_option (saturating_add acc) (get_at (balances a) i))
          0 (filter_by_category cmask a))"

text \<open>
  A debit is a loop around a compare-and-swap whose function refuses when the balance is too small; a credit is one atomic addition,
  which wraps.  Both are attempts in the sense of \<^verbatim>\<open>Atomic_Cell\<close>; a credit always succeeds.
\<close>

datatype balance_move = Debit u64 | Credit u64

fun move_attempt :: "balance_move \<Rightarrow> u64 \<Rightarrow> u64 option" where
  "move_attempt (Debit fp) v = (if fp \<le> v then Some (v - fp) else None)"
| "move_attempt (Credit fp) v = Some (v + fp)"

definition fetch_sub_balance ::
  "'d::linorder exec_decimal \<Rightarrow> u64 schedule \<Rightarrow> usize \<Rightarrow> usize \<Rightarrow> 'd \<Rightarrow> capital_allocator \<Rightarrow> capital_allocator option" where
  "fetch_sub_balance D sched e t amount a =
     (let fp = balance_to_fp D amount
      in if fp = 0 then Some a
         else case balance_idx a e t of
                None \<Rightarrow> Some a
              | Some i \<Rightarrow> (case get_at (balances a) i of
                             None \<Rightarrow> None
                           | Some v \<Rightarrow> store_balance i (cas_result (move_attempt (Debit fp)) sched v) a))"

definition fetch_add_balance ::
  "'d::linorder exec_decimal \<Rightarrow> usize \<Rightarrow> usize \<Rightarrow> 'd \<Rightarrow> capital_allocator \<Rightarrow> capital_allocator option" where
  "fetch_add_balance D e t amount a =
     (let fp = balance_to_fp D amount
      in if fp = 0 then Some a
         else case balance_idx a e t of
                None \<Rightarrow> Some a
              | Some i \<Rightarrow> (case get_at (balances a) i of None \<Rightarrow> None | Some v \<Rightarrow> store_balance i (v + fp) a))"

definition calculate_trade_allocation ::
  "'d::linorder exec_decimal \<Rightarrow> usize \<Rightarrow> usize \<Rightarrow> bool \<Rightarrow> 'd \<Rightarrow> 'd \<Rightarrow> 'd \<Rightarrow> capital_allocator \<Rightarrow> 'd option" where
  "calculate_trade_allocation D e t is_cross_exchange cross_alloc_pct tri_alloc_pct max_position_pct a =
     map_option (\<lambda>available.
       if available \<le> dec_zero D then dec_zero D
       else let alloc_pct = if is_cross_exchange then cross_alloc_pct else tri_alloc_pct;
                strategy_alloc = dec_mul D available alloc_pct;
                position_cap = dec_mul D available max_position_pct;
                result = if strategy_alloc \<le> position_cap then strategy_alloc else position_cap
            in if result < dec_new D 100 1 then dec_zero D else result)
       (get_balance_atomic D e t a)"

section \<open>Synchronisation with the exchanges\<close>

text \<open>The answer to a request for the balance of a symbol; the warning about a drift changes nothing.\<close>

type_synonym ('e, 'd) balance_client = "string \<Rightarrow> 'e + 'd"

definition sync_exchange_balance ::
  "'d::linorder exec_decimal \<Rightarrow> ('e, 'd) balance_client \<Rightarrow> u16 \<Rightarrow> usize \<Rightarrow> capital_allocator \<Rightarrow> (('e + 'd) \<times> capital_allocator) option" where
  "sync_exchange_balance D client exchange_id t a =
     (let symbol = (case get_symbol (of_nat t) a of None \<Rightarrow> ''USDT'' | Some s \<Rightarrow> s)
      in case client symbol of
           Inl err \<Rightarrow> Some (Inl err, a)
         | Inr balance \<Rightarrow>
             if get_balance_atomic D (unat exchange_id) t a = None then None
             else map_option (\<lambda>a'. (Inr balance, a')) (update_balance_atomic D (unat exchange_id) t balance a))"

text \<open>The body of the loop over the clients: the running total counts the exchanges that answered.\<close>

definition sync_client ::
  "'d::linorder exec_decimal \<Rightarrow> usize \<Rightarrow> 'd \<times> capital_allocator \<Rightarrow> u16 \<times> ('e, 'd) balance_client \<Rightarrow> ('d \<times> capital_allocator) option" where
  "sync_client D t = (\<lambda>(sum, a) (exchange_id, client).
     case sync_exchange_balance D client exchange_id t a of
       None \<Rightarrow> None
     | Some (Inr bal, a') \<Rightarrow> Some (dec_add D sum bal, a')
     | Some (Inl err, a') \<Rightarrow> Some (sum, a'))"

definition boot_sync ::
  "'d::linorder exec_decimal \<Rightarrow> (u16 \<times> ('e, 'd) balance_client) list \<Rightarrow> usize \<Rightarrow> capital_allocator \<Rightarrow> ('d \<times> capital_allocator) option" where
  "boot_sync D clients t a = try_fold (sync_client D t) (dec_zero D, a) clients"

text \<open>The periodic task: one round per tick, each a synchronisation of all exchanges; its total is only logged.\<close>

definition run_periodic_sync ::
  "'d::linorder exec_decimal \<Rightarrow> (u16 \<times> ('e, 'd) balance_client) list list \<Rightarrow> usize \<Rightarrow> capital_allocator \<Rightarrow> capital_allocator option" where
  "run_periodic_sync D rounds t a =
     try_fold (\<lambda>a clients. map_option snd (boot_sync D clients t a)) a rounds"

section \<open>Reconciliation\<close>

record 'd reconciliation_config =
  interval_secs :: u64
  max_drift_usd :: 'd
  max_drift_pct :: 'd

definition reconciliation_default :: "'d exec_decimal \<Rightarrow> 'd reconciliation_config" where
  "reconciliation_default D = \<lparr>interval_secs = 120, max_drift_usd = dec_new D 500 1, max_drift_pct = dec_new D 5 2\<rparr>"

record 'd position_drift =
  drift_exchange :: u16
  drift_token :: u16
  local_balance :: 'd
  exchange_balance :: 'd
  drift_usd :: 'd
  drift_pct :: 'd

text \<open>The balance of an exchange as the loop sees it: the local one when there is no client or when its request fails.\<close>

definition real_balance :: "('e, 'd) balance_client option \<Rightarrow> 'd \<Rightarrow> 'd" where
  "real_balance client local_bal =
     (case client of
        None \<Rightarrow> local_bal
      | Some get_balance \<Rightarrow> (case get_balance ''USDT'' of Inr bal \<Rightarrow> bal | Inl err \<Rightarrow> local_bal))"

definition abs_diff :: "'d::linorder exec_decimal \<Rightarrow> 'd \<Rightarrow> 'd \<Rightarrow> 'd" where
  "abs_diff D x y = (let d = dec_sub D x y in if d < dec_zero D then dec_neg D d else d)"

definition drift_of :: "'d::linorder exec_decimal \<Rightarrow> u16 \<Rightarrow> 'd \<Rightarrow> 'd \<Rightarrow> 'd position_drift" where
  "drift_of D exch_id local_bal real_bal =
     (let drift = abs_diff D local_bal real_bal;
          pct = if dec_zero D < local_bal then dec_div D drift local_bal
                else if dec_zero D < real_bal then dec_from_int D 1 else dec_zero D
      in \<lparr>drift_exchange = exch_id, drift_token = 0, local_balance = local_bal, exchange_balance = real_bal,
          drift_usd = drift, drift_pct = pct\<rparr>)"

definition reconcile ::
  "'d::linorder exec_decimal \<Rightarrow> 'd reconciliation_config \<Rightarrow> (u16 \<Rightarrow> ('e, 'd) balance_client option) \<Rightarrow> usize \<Rightarrow> capital_allocator \<Rightarrow>
   'd position_drift list option" where
  "reconcile D cfg execution_pool num_exchanges a =
     collect (\<lambda>i. case get_balance_atomic D i 0 a of
                    None \<Rightarrow> None
                  | Some local_bal \<Rightarrow>
                      let d = drift_of D (of_nat i) local_bal (real_balance (execution_pool (of_nat i)) local_bal)
                      in Some (if max_drift_usd cfg < drift_usd d \<or> max_drift_pct cfg < drift_pct d then [d] else []))
       [0..<num_exchanges mod 2 ^ 16]"

section \<open>The matrix as a table\<close>

definition alloc_wf :: "capital_allocator \<Rightarrow> bool" where
  "alloc_wf a \<longleftrightarrow> length (balances a) = alloc_exchanges a * alloc_tokens a \<and> length (balances a) < 2 ^ 64 \<and>
     hm_ok (token_registry (inventory a))"

type_synonym balance_table = "usize \<Rightarrow> usize \<Rightarrow> u64 option"

definition balance_at :: "capital_allocator \<Rightarrow> balance_table" where
  "balance_at a e t = (if e < alloc_exchanges a \<and> t < alloc_tokens a then Some (balances a ! (e * alloc_tokens a + t)) else None)"

definition change :: "usize \<Rightarrow> usize \<Rightarrow> (u64 \<Rightarrow> u64) \<Rightarrow> balance_table \<Rightarrow> balance_table" where
  "change e t f T = (\<lambda>e' t'. if e' = e \<and> t' = t then map_option f (T e t) else T e' t')"

lemma slot_less: "e < m \<Longrightarrow> t < n \<Longrightarrow> e * n + t < m * (n::nat)"
proof -
  assume "e < m" "t < n"
  then have "e * n + t < e * n + n" by simp
  also have "\<dots> = Suc e * n" by simp
  also have "\<dots> \<le> m * n" using \<open>e < m\<close> by (intro mult_le_mono1) simp
  finally show ?thesis .
qed

lemma slot_inj: "t < n \<Longrightarrow> t' < n \<Longrightarrow> e * n + t = e' * n + t' \<longleftrightarrow> e = e' \<and> t = (t'::nat)"
  by (metis div_mult_self3 div_less less_nat_zero_code add.right_neutral add_left_cancel)

lemma balance_idx_wf:
  assumes "alloc_wf a"
  shows "balance_idx a e t = (if e < alloc_exchanges a \<and> t < alloc_tokens a then Some (e * alloc_tokens a + t) else None)"
  using slot_less [of e "alloc_exchanges a" t "alloc_tokens a"] assms by (auto simp: balance_idx_def alloc_wf_def not_le)

text \<open>The value at the index of a cell, and a store at it.\<close>

lemma get_at_cell:
  assumes "alloc_wf a" "balance_idx a e t = Some i"
  shows "get_at (balances a) i = balance_at a e t" "balance_at a e t \<noteq> None"
  using assms slot_less [of e "alloc_exchanges a" t "alloc_tokens a"]
  by (auto simp: balance_idx_wf get_at_def balance_at_def alloc_wf_def split: if_splits)

lemma store_cell:
  assumes "alloc_wf a" "balance_idx a e t = Some i"
  shows "\<exists>a'. store_balance i v a = Some a' \<and> alloc_wf a' \<and> inventory a' = inventory a \<and>
    balance_at a' = change e t (\<lambda>_. v) (balance_at a)"
proof -
  have et: "e < alloc_exchanges a" "t < alloc_tokens a" "i = e * alloc_tokens a + t"
    using assms by (auto simp: balance_idx_wf split: if_splits)
  have i: "i < length (balances a)" using et slot_less assms(1) by (simp add: alloc_wf_def)
  have "(balances a)[i := v] ! (e' * alloc_tokens a + t') = (if e' = e \<and> t' = t then v else balances a ! (e' * alloc_tokens a + t'))"
    if "t' < alloc_tokens a" for e' t' using i slot_inj [OF et(2) that, of e e'] et(3) by (auto simp: nth_list_update)
  then have "balance_at (a\<lparr>balances := (balances a)[i := v]\<rparr>) e' t' = change e t (\<lambda>_. v) (balance_at a) e' t'" for e' t'
    using et by (simp add: balance_at_def change_def)
  then show ?thesis using assms(1) i by (auto simp: store_balance_def put_at_def alloc_wf_def)
qed

lemma change_const: "T e t = Some v \<Longrightarrow> change e t (\<lambda>_. f v) T = change e t f T"
  by (simp add: change_def fun_eq_iff)

lemma change_id: "change e t (\<lambda>v. v) T = T"
  by (auto simp: change_def fun_eq_iff option.map_id0 [unfolded id_def])

lemma change_none: "T e t = None \<Longrightarrow> change e t f T = T"
  by (auto simp: change_def fun_eq_iff)

text \<open>
  Every operation on a cell has the same shape: it does nothing when an identifier is out of range, and otherwise replaces the
  value of the cell by a function of it.
\<close>

lemma cell_op:
  assumes "alloc_wf a"
  shows "\<exists>a'. (case balance_idx a e t of None \<Rightarrow> Some a
      | Some i \<Rightarrow> (case get_at (balances a) i of None \<Rightarrow> None | Some v \<Rightarrow> store_balance i (f v) a)) = Some a' \<and>
    alloc_wf a' \<and> inventory a' = inventory a \<and> balance_at a' = change e t f (balance_at a)"
proof (cases "balance_idx a e t")
  case None
  then have "balance_at a e t = None" using assms by (auto simp: balance_idx_wf balance_at_def split: if_splits)
  then show ?thesis using None assms by (simp add: change_none)
next
  case (Some i)
  then obtain v where v: "get_at (balances a) i = Some v" "balance_at a e t = Some v" using get_at_cell [OF assms Some] by auto
  then show ?thesis using store_cell [OF assms Some, of "f v"] by (simp add: Some change_const [where T = "balance_at a" and f = f, OF v(2)])
qed

datatype 'd balance_op =
    SetBalance usize usize 'd
  | SubBalance nat usize usize 'd
  | AddBalance usize usize 'd
  | RegisterToken u16 string u16

text \<open>The number of a debit is how often its exchange fails before it succeeds.\<close>

fun balance_step :: "'d::linorder exec_decimal \<Rightarrow> capital_allocator \<Rightarrow> 'd balance_op \<Rightarrow> capital_allocator option" where
  "balance_step D a (SetBalance e t b) = update_balance_atomic D e t b a"
| "balance_step D a (SubBalance n e t x) = fetch_sub_balance D (spurious n) e t x a"
| "balance_step D a (AddBalance e t x) = fetch_add_balance D e t x a"
| "balance_step D a (RegisterToken i symbol m) = Some (register_token i symbol m a)"

fun table_op :: "'d::linorder exec_decimal \<Rightarrow> balance_table \<Rightarrow> 'd balance_op \<Rightarrow> balance_table" where
  "table_op D T (SetBalance e t b) = change e t (\<lambda>_. balance_to_fp D b) T"
| "table_op D T (SubBalance n e t x) = change e t (\<lambda>v. if balance_to_fp D x \<le> v then v - balance_to_fp D x else v) T"
| "table_op D T (AddBalance e t x) = change e t (\<lambda>v. v + balance_to_fp D x) T"
| "table_op D T (RegisterToken i symbol m) = T"

lemma update_balance_cell:
  assumes "alloc_wf a"
  shows "\<exists>a'. update_balance_atomic D e t b a = Some a' \<and> alloc_wf a' \<and> inventory a' = inventory a \<and>
    balance_at a' = change e t (\<lambda>_. balance_to_fp D b) (balance_at a)"
proof -
  have "update_balance_atomic D e t b a = (case balance_idx a e t of None \<Rightarrow> Some a
      | Some i \<Rightarrow> (case get_at (balances a) i of None \<Rightarrow> None | Some v \<Rightarrow> store_balance i (balance_to_fp D b) a))"
    by (auto simp: update_balance_atomic_def store_balance_def get_at_def put_at_def split: option.splits)
  then show ?thesis using cell_op [OF assms, where e = e and t = t and f = "\<lambda>_. balance_to_fp D b"] by simp
qed

lemma balance_step_table:
  assumes "alloc_wf a"
  shows "\<exists>a'. balance_step D a op = Some a' \<and> alloc_wf a' \<and> balance_at a' = table_op D (balance_at a) op"
proof (cases op)
  case (SetBalance e t b)
  then show ?thesis using update_balance_cell [OF assms, of D e t b] by auto
next
  case (SubBalance n e t x)
  have "move_attempt (Debit fp) v = (if fp \<le> v then Some (v - fp) else None)" for fp v by simp
  then have debit: "cas_result (move_attempt (Debit fp)) (spurious n) v = (if fp \<le> v then v - fp else v)" for fp v by simp
  show ?thesis unfolding SubBalance balance_step.simps table_op.simps fetch_sub_balance_def Let_def debit
    using cell_op [OF assms, where e = e and t = t and f = "\<lambda>v. if balance_to_fp D x \<le> v then v - balance_to_fp D x else v"] assms
    by (cases "balance_to_fp D x = 0") (auto simp: change_id)
next
  case (AddBalance e t x)
  then show ?thesis
    using cell_op [OF assms, where e = e and t = t and f = "\<lambda>v. v + balance_to_fp D x"] assms
    by (auto simp: fetch_add_balance_def Let_def change_id)
next
  case (RegisterToken i symbol m)
  then show ?thesis using assms by (auto simp: register_token_def inventory_register_def alloc_wf_def balance_at_def fun_eq_iff hm_ok_insert)
qed

lemma allocator_new_wf: "m * n < 2 ^ 64 \<Longrightarrow> alloc_wf (allocator_new m n)"
  by (simp add: alloc_wf_def allocator_new_def inventory_new_def)

text \<open>
  the matrix of balances is a table.  An allocator whose size fits into a machine word takes every sequence of balance updates,
  debits, credits and registrations without a panic, whatever identifiers they name; each changes the one
  cell it names, and a debit larger than the balance changes nothing.
\<close>

theorem balances_refine_table:
  assumes "m * n < 2 ^ 64"
  shows "\<exists>a. try_fold (balance_step D) (allocator_new m n) ops = Some a \<and>
    balance_at a = foldl (table_op D) (\<lambda>e t. if e < m \<and> t < n then Some 0 else None) ops"
proof -
  have fold: "alloc_wf a \<Longrightarrow> \<exists>a'. try_fold (balance_step D) a ops = Some a' \<and> balance_at a' = foldl (table_op D) (balance_at a) ops" for a
  proof (induction ops arbitrary: a)
    case (Cons op ops)
    obtain a1 where a1: "balance_step D a op = Some a1" "alloc_wf a1" "balance_at a1 = table_op D (balance_at a) op"
      using balance_step_table [OF Cons.prems] by blast
    from Cons.IH [OF a1(2)] show ?case by (simp add: a1)
  qed simp
  have "balance_at (allocator_new m n) = (\<lambda>e t. if e < m \<and> t < n then Some 0 else None)"
    using assms slot_less by (fastforce simp: balance_at_def allocator_new_def fun_eq_iff)
  with fold [OF allocator_new_wf [OF assms]] show ?thesis by simp
qed

theorem balances_refine_table_witness:
  "\<exists>a. try_fold (balance_step int_exec) (allocator_new 2 1) [SetBalance 1 0 5, SubBalance 3 1 0 2, SubBalance 0 1 0 9, AddBalance 7 0 1] = Some a \<and>
     balance_at a 1 0 = Some 3000000"
  using balances_refine_table [of 2 1 int_exec "[SetBalance 1 0 5, SubBalance 3 1 0 2, SubBalance 0 1 0 9, AddBalance 7 0 1]"]
  by (auto simp: change_def balance_to_fp_def int_exec_def)

section \<open>Balances under concurrency\<close>

fun debited :: "balance_move \<Rightarrow> nat" where
  "debited (Debit fp) = unat fp"
| "debited (Credit fp) = 0"

fun credited :: "balance_move \<Rightarrow> nat" where
  "credited (Debit fp) = 0"
| "credited (Credit fp) = unat fp"

lemma replay_accounted:
  "replay move_attempt v ops = Some v' \<Longrightarrow> unat v + sum_list (map credited ops) < 2 ^ 64 \<Longrightarrow>
   unat v' + sum_list (map debited ops) = unat v + sum_list (map credited ops)"
proof (induction ops arbitrary: v)
  case (Cons op ops)
  show ?case
  proof (cases op)
    case (Debit fp)
    with Cons.prems have le: "fp \<le> v" and r: "replay move_attempt (v - fp) ops = Some v'" by (auto split: if_splits)
    have sub: "unat (v - fp) = unat v - unat fp" "unat fp \<le> unat v" using le by (auto simp: unat_sub word_le_nat_alt)
    have "unat v' + sum_list (map debited ops) = unat (v - fp) + sum_list (map credited ops)"
      using Cons.prems(2) Debit sub by (intro Cons.IH [OF r]) simp
    then show ?thesis using Debit sub by simp
  next
    case (Credit fp)
    with Cons.prems have r: "replay move_attempt (v + fp) ops = Some v'" by simp
    have add: "unat (v + fp) = unat v + unat fp" using Cons.prems(2) Credit by (simp add: unat_word_ariths)
    have "unat v' + sum_list (map debited ops) = unat (v + fp) + sum_list (map credited ops)"
      using Cons.prems(2) Credit add by (intro Cons.IH [OF r]) simp
    then show ?thesis using Credit add by simp
  qed
qed simp

text \<open>
  no money is lost or made by a race.  Any number of threads debit and credit one balance at the same time, in any interleaving
  of their loads and exchanges: as long as the credits fit into the word, the balance and the debits that took effect together are the
  first balance and the credits; so no debit is applied twice or lost, and the balance never goes below zero.
\<close>

theorem concurrent_balances_accounted:
  assumes "cas_reachable move_attempt v0 s" "unat v0 + sum_list (map credited (commits s)) < 2 ^ 64"
  shows "unat (cell s) + sum_list (map debited (commits s)) = unat v0 + sum_list (map credited (commits s))"
  using replay_accounted [OF cas_linearizable [OF assms(1)] assms(2)] .


text \<open>A debit that is larger than the balance does nothing, also when the money has been spent on the exchange.\<close>

theorem concurrent_balances_accounted_witness:
  "\<exists>s. cas_reachable move_attempt 5 s \<and> unat (cell s) + 3 = 5"
proof -
  let ?s0 = "cell_init 5 :: (u64, balance_move) cell_state"
  let ?s1 = "?s0\<lparr>pcs := (pcs ?s0)(0 := Loaded (Debit 3) 5)\<rparr>"
  let ?s2 = "?s1\<lparr>cell := 2, pcs := (pcs ?s1)(0 := Idle), commits := commits ?s1 @ [Debit 3]\<rparr>"
  have "cas_step move_attempt ?s0 ?s1" using cas_step.load [of ?s0 0 move_attempt "Debit 3"] by (simp add: cell_init_def)
  then have r1: "cas_reachable move_attempt 5 ?s1" by (rule cas_reachable.step [OF cas_reachable.start])
  have "cas_step move_attempt ?s1 ?s2" by (rule cas_step.exchange) (simp_all add: cell_init_def)
  then have r2: "cas_reachable move_attempt 5 ?s2" by (rule cas_reachable.step [OF r1])
  from concurrent_balances_accounted [OF r2] have "unat (cell ?s2) + 3 = 5" by (simp add: cell_init_def)
  with r2 show ?thesis by blast
qed

section \<open>Synchronisation and drift\<close>

definition token_name :: "usize \<Rightarrow> capital_allocator \<Rightarrow> string" where
  "token_name t a = (case get_symbol (of_nat t) a of None \<Rightarrow> ''USDT'' | Some s \<Rightarrow> s)"

text \<open>What the client of an exchange reports, if there is one and it answers.\<close>

definition reported :: "string \<Rightarrow> (u16 \<times> ('e, 'd) balance_client) list \<Rightarrow> usize \<Rightarrow> 'd option" where
  "reported symbol clients e =
     (if e < 2 ^ 16
      then case map_of clients (of_nat e) of
             None \<Rightarrow> None
           | Some client \<Rightarrow> (case client symbol of Inr b \<Rightarrow> Some b | Inl err \<Rightarrow> None)
      else None)"

definition answers :: "string \<Rightarrow> (u16 \<times> ('e, 'd) balance_client) list \<Rightarrow> 'd list" where
  "answers symbol clients = concat (map (\<lambda>(e, client). case client symbol of Inr b \<Rightarrow> [b] | Inl err \<Rightarrow> []) clients)"

lemma answers_iff: "b \<in> set (answers symbol (clients :: (u16 \<times> ('e, 'd) balance_client) list)) \<longleftrightarrow> (\<exists>e client. (e, client) \<in> set clients \<and> client symbol = Inr b)"
proof -
  have "b \<in> set (case r of Inr b \<Rightarrow> [b] | Inl err \<Rightarrow> []) \<longleftrightarrow> r = Inr b" for r :: "'e + 'd" and b by (cases r) auto
  then show ?thesis by (auto simp: answers_def)
qed

lemma reported_Nil: "reported symbol [] e = None"
  by (simp add: reported_def)

lemma reported_Cons:
  "reported symbol ((x, client) # clients) e =
     (if e = unat x then (case client symbol of Inr b \<Rightarrow> Some b | Inl err \<Rightarrow> None) else reported symbol clients e)"
proof (cases "e < 2 ^ 16")
  case True
  then have "(of_nat e = x) = (e = unat x)" by (auto simp: word_unat_eq_iff unat_of_nat)
  then show ?thesis using True by (simp add: reported_def)
next
  case False
  then show ?thesis using unat_less_2p [of x] by (auto simp: reported_def)
qed

lemma get_balance_total: "alloc_wf a \<Longrightarrow> get_balance_atomic D e t a =
  Some (case balance_at a e t of None \<Rightarrow> dec_zero D | Some v \<Rightarrow> fp_to_decimal D v)"
proof (cases "balance_idx a e t")
  case None
  moreover assume "alloc_wf a"
  ultimately show ?thesis by (auto simp: get_balance_atomic_def balance_idx_wf balance_at_def split: if_splits)
next
  case (Some i)
  moreover assume "alloc_wf a"
  ultimately show ?thesis using get_at_cell [of a e t i] by (auto simp: get_balance_atomic_def)
qed

definition synced :: "'d::linorder exec_decimal \<Rightarrow> usize \<Rightarrow> (usize \<Rightarrow> 'd option) \<Rightarrow> balance_table \<Rightarrow> balance_table" where
  "synced D t rep T = (\<lambda>e t'. if t' = t then (case rep e of
     None \<Rightarrow> T e t | Some b \<Rightarrow> map_option (\<lambda>_. balance_to_fp D b) (T e t)) else T e t')"

lemma sync_client_effect:
  assumes "alloc_wf a"
  shows "\<exists>a'. sync_client D t (s, a) (x, client) =
      Some (case client (token_name t a) of Inr b \<Rightarrow> dec_add D s b | Inl err \<Rightarrow> s, a') \<and> alloc_wf a' \<and> inventory a' = inventory a \<and>
    balance_at a' = (case client (token_name t a) of
      Inr b \<Rightarrow> change (unat x) t (\<lambda>_. balance_to_fp D b) (balance_at a) | Inl err \<Rightarrow> balance_at a)"
proof (cases "client (token_name t a)")
  case (Inl err)
  then show ?thesis using assms by (simp add: sync_client_def sync_exchange_balance_def token_name_def Let_def)
next
  case (Inr b)
  then show ?thesis using update_balance_cell [OF assms, of D "unat x" t b] get_balance_total [OF assms, of D "unat x" t]
    by (auto simp: sync_client_def sync_exchange_balance_def token_name_def Let_def)
qed

lemma synced_Cons:
  assumes "rep (unat x) = None"
  shows "synced D t rep (case r of Inr b \<Rightarrow> change (unat x) t (\<lambda>_. balance_to_fp D b) T | Inl err \<Rightarrow> T) =
    synced D t (\<lambda>e. if e = unat x then (case r of Inr b \<Rightarrow> Some b | Inl err \<Rightarrow> None) else rep e) T"
  using assms by (cases r) (auto simp: synced_def change_def fun_eq_iff)

lemma sync_clients_effect:
  assumes "alloc_wf a" "distinct (map fst clients)"
  shows "\<exists>a'. try_fold (sync_client D t) (s, a) clients =
      Some (foldl (dec_add D) s (answers (token_name t a) clients), a') \<and> alloc_wf a' \<and> inventory a' = inventory a \<and>
    balance_at a' = synced D t (reported (token_name t a) clients) (balance_at a)"
  using assms
proof (induction clients arbitrary: a s)
  case Nil
  then show ?case by (auto simp: answers_def reported_Nil fun_eq_iff synced_def)
next
  case (Cons c clients)
  obtain x client where c: "c = (x, client)" by fastforce
  let ?sy = "token_name t a"
  have fresh: "reported ?sy clients (unat x) = None"
    using Cons.prems(2) by (auto simp: c reported_def split: option.split dest: map_of_SomeD intro: rev_image_eqI)
  obtain a1 where a1: "sync_client D t (s, a) (x, client) = Some (case client ?sy of Inr b \<Rightarrow> dec_add D s b | Inl err \<Rightarrow> s, a1)"
    "alloc_wf a1" "inventory a1 = inventory a"
    "balance_at a1 = (case client ?sy of Inr b \<Rightarrow> change (unat x) t (\<lambda>_. balance_to_fp D b) (balance_at a) | Inl err \<Rightarrow> balance_at a)"
    using sync_client_effect [OF Cons.prems(1)] by blast
  have name: "token_name t a1 = ?sy" by (simp add: token_name_def get_symbol_def a1(3))
  have rep: "reported ?sy (c # clients) =
    (\<lambda>e. if e = unat x then (case client ?sy of Inr b \<Rightarrow> Some b | Inl err \<Rightarrow> None) else reported ?sy clients e)"
    by (simp add: c reported_Cons fun_eq_iff)
  from Cons.IH [OF a1(2), of "case client ?sy of Inr b \<Rightarrow> dec_add D s b | Inl err \<Rightarrow> s"] Cons.prems(2)
  show ?case unfolding name a1(3,4) synced_Cons [where rep = "reported ?sy clients" and x = x, OF fresh] rep
    by (auto simp: c a1(1) answers_def split: sum.splits)
qed

text \<open>
  synchronisation at start-up.  The balances of all exchanges that answer are taken over and their sum is returned; an exchange
  whose request fails keeps its balance, and no other token is touched.
\<close>

theorem boot_sync_exact:
  assumes "alloc_wf a" "distinct (map fst clients)"
  shows "\<exists>a'. boot_sync D clients t a = Some (foldl (dec_add D) (dec_zero D) (answers (token_name t a) clients), a') \<and>
    balance_at a' = (\<lambda>e t'. case reported (token_name t a) clients e of
      Some b \<Rightarrow> if t' = t then map_option (\<lambda>_. balance_to_fp D b) (balance_at a e t) else balance_at a e t'
    | None \<Rightarrow> balance_at a e t')"
proof -
  have "synced D t rep T = (\<lambda>e t'. case rep e of
      Some b \<Rightarrow> if t' = t then map_option (\<lambda>_. balance_to_fp D b) (T e t) else T e t' | None \<Rightarrow> T e t')" for rep T
    by (auto simp: synced_def fun_eq_iff split: option.split)
  with sync_clients_effect [OF assms, of D t "dec_zero D"] show ?thesis by (auto simp: boot_sync_def)
qed

theorem boot_sync_exact_witness:
  "\<exists>a'. boot_sync int_exec [(0, \<lambda>s. Inr 7), (1, \<lambda>s. Inl ()), (2, \<lambda>s. Inr 4)] 0 (allocator_new 2 1) = Some (11, a') \<and>
     balance_at a' 0 0 = Some 7000000 \<and> balance_at a' 1 0 = Some 0"
proof -
  let ?clients = "[(0, \<lambda>s. Inr 7), (1, \<lambda>s. Inl ()), (2, \<lambda>s. Inr 4)]"
  have ok: "alloc_wf (allocator_new 2 1)" by (rule allocator_new_wf) simp
  have name: "token_name 0 (allocator_new 2 1) = ''USDT''" by (simp add: token_name_def get_symbol_def allocator_new_def inventory_new_def)
  have rep: "reported ''USDT'' ?clients 0 = Some 7" "reported ''USDT'' ?clients 1 = None" by (simp_all add: reported_def)
  have cells: "balance_at (allocator_new 2 1) 0 0 = Some 0" "balance_at (allocator_new 2 1) 1 0 = Some 0" "balance_to_fp int_exec 7 = 7000000"
    by (simp_all add: balance_at_def allocator_new_def balance_to_fp_def int_exec_def)
  have total: "foldl (dec_add int_exec) (dec_zero int_exec) (answers ''USDT'' ?clients) = 11" by (simp add: answers_def int_exec_def)
  obtain a' where a': "boot_sync int_exec ?clients 0 (allocator_new 2 1) = Some (11, a')"
    "balance_at a' = (\<lambda>e t'. case reported ''USDT'' ?clients e of
      Some b \<Rightarrow> if t' = 0 then map_option (\<lambda>_. balance_to_fp int_exec b) (balance_at (allocator_new 2 1) e 0)
        else balance_at (allocator_new 2 1) e t'
    | None \<Rightarrow> balance_at (allocator_new 2 1) e t')"
    using boot_sync_exact [OF ok, of ?clients int_exec 0] unfolding name total by auto
  have "balance_at a' 0 0 = Some 7000000" unfolding a'(2) rep by (simp add: cells [simplified])
  moreover have "balance_at a' 1 0 = Some 0" unfolding a'(2) rep by (simp add: cells [simplified])
  ultimately show ?thesis using a'(1) by blast
qed

text \<open>
  A reconciliation right after a synchronisation of the token USDT finds no drift when the reported balances have an exact
  fixed-point form: an exchange that did not answer counts as free of drift.
\<close>

lemma reconcile_after_sync:
  assumes "alloc_wf a" "distinct (map fst clients)" "token_name 0 a = ''USDT''" "num_exchanges \<le> alloc_exchanges a" "0 < alloc_tokens a"
    and "\<And>b. b \<in> set (answers ''USDT'' clients) \<Longrightarrow> fp_to_decimal D (balance_to_fp D b) = b"
    and "\<And>x. dec_sub D x x = dec_zero D" "\<And>x. dec_div D (dec_zero D) x = dec_zero D"
    and "dec_zero D \<le> max_drift_usd cfg" "dec_zero D \<le> max_drift_pct cfg"
    and "boot_sync D clients 0 a = Some (tot, a')"
  shows "reconcile D cfg (map_of clients) num_exchanges a' = Some []"
proof -
  from sync_clients_effect [OF assms(1,2), of D 0 "dec_zero D"] assms(3,11)
  have a': "alloc_wf a'" "balance_at a' = synced D 0 (reported ''USDT'' clients) (balance_at a)"
    by (auto simp: boot_sync_def)
  have real: "real_balance (map_of clients (of_nat i)) loc = (case reported ''USDT'' clients i of None \<Rightarrow> loc | Some b \<Rightarrow> b)"
    if "i < 2 ^ 16" for i loc
    using that by (auto simp: real_balance_def reported_def split: option.splits sum.splits)
  have mem: "b \<in> set (answers ''USDT'' clients)" if "reported ''USDT'' clients i = Some b" for i b
    using that by (auto simp: reported_def answers_iff split: if_splits option.splits sum.splits dest: map_of_SomeD)
  have same: "real_balance (map_of clients (of_nat i)) loc = loc"
    if "get_balance_atomic D i 0 a' = Some loc" "i < num_exchanges" "i < 2 ^ 16" for i loc
  proof -
    have "balance_at a i 0 \<noteq> None" using that(2) assms(4,5) by (simp add: balance_at_def)
    then show ?thesis using that(1) get_balance_total [OF a'(1), of D i 0] mem assms(6)
      by (auto simp: real [OF that(3)] a'(2) synced_def split: option.splits)
  qed
  have nodrift: "drift_usd (drift_of D e x x) = dec_zero D \<and> drift_pct (drift_of D e x x) = dec_zero D" for e x
    using assms(7,8) by (auto simp: drift_of_def abs_diff_def Let_def)
  have "num_exchanges mod 2 ^ 16 \<le> num_exchanges" "num_exchanges mod 2 ^ 16 < (2::nat) ^ 16" by simp_all
  then show ?thesis unfolding reconcile_def
    using same nodrift assms(9,10) get_balance_total [OF a'(1), of D]
    by (subst collect_Some [where g = "\<lambda>_. []"]) (auto simp: Let_def not_less leD)
qed

end
