(* ===== verification/Capital_Guards.thy ===== *)
theory Capital_Guards
  imports Hash_Map Decimal_Api
begin

text \<open>
  Guards around the size of a trade: the ceiling on spreads of \<^verbatim>\<open>src/src/volatility_guard.rs\<close>, the detector of exhausted
  balances of \<^verbatim>\<open>src/src/capital_starvation.rs\<close>, the collector of small remainders of \<^verbatim>\<open>src/src/dust_manager.rs\<close>, and the
  slicing of large orders of \<^verbatim>\<open>src/src/size_slicer.rs\<close>.
\<close>

section \<open>The spread ceiling\<close>

record 'd volatility_guard =
  spread_ceiling_bps :: u64
  exchange_overrides :: "u16 \<Rightarrow> u64 option"
  rejection_count :: u64
  ema_spread_bps :: "'d option"
  ema_period :: u64

abbreviation DEFAULT_SPREAD_CEILING_BPS :: u64 where "DEFAULT_SPREAD_CEILING_BPS \<equiv> 80"
abbreviation MAX_REASONABLE_SPREAD_BPS :: int where "MAX_REASONABLE_SPREAD_BPS \<equiv> 1000000000000"
abbreviation DEFAULT_EMA_PERIOD :: u64 where "DEFAULT_EMA_PERIOD \<equiv> 20"

definition with_ceiling_bps :: "u64 \<Rightarrow> 'd volatility_guard" where
  "with_ceiling_bps ceiling = \<lparr>spread_ceiling_bps = ceiling, exchange_overrides = Map.empty, rejection_count = 0,
     ema_spread_bps = None, ema_period = DEFAULT_EMA_PERIOD\<rparr>"

definition volatility_guard_new :: "'d volatility_guard" where
  "volatility_guard_new = with_ceiling_bps DEFAULT_SPREAD_CEILING_BPS"

definition set_exchange_ceiling :: "u16 \<Rightarrow> u64 \<Rightarrow> 'd volatility_guard \<Rightarrow> 'd volatility_guard" where
  "set_exchange_ceiling e ceiling g = g\<lparr>exchange_overrides := (exchange_overrides g)(e \<mapsto> ceiling)\<rparr>"

definition spread_of :: "'d exec_decimal \<Rightarrow> 'd \<Rightarrow> 'd \<Rightarrow> 'd" where
  "spread_of D bid ask =
     (let mid = dec_div D (dec_add D bid ask) (dec_from_int D 2)
      in dec_div D (dec_mul D (dec_sub D ask bid) (dec_from_int D 10000)) mid)"

text \<open>The two observations share the update of the moving average; dividing by \<open>period + 1 = 0\<close> panics.\<close>

definition update_ema :: "'d exec_decimal \<Rightarrow> 'd \<Rightarrow> 'd volatility_guard \<Rightarrow> 'd volatility_guard option" where
  "update_ema D spread g =
     (if ema_period g + 1 = 0 then None
      else let alpha = dec_div D (dec_from_int D 2) (dec_from_int D (uint (ema_period g + 1)));
               one_minus_alpha = dec_sub D (dec_from_int D 1) alpha
           in Some (g\<lparr>ema_spread_bps := Some (case ema_spread_bps g of
                        None \<Rightarrow> spread
                      | Some old_ema \<Rightarrow> dec_add D (dec_mul D alpha spread) (dec_mul D one_minus_alpha old_ema))\<rparr>))"

definition reasonable :: "'d::linorder exec_decimal \<Rightarrow> 'd \<Rightarrow> bool" where
  "reasonable D spread \<longleftrightarrow> dec_zero D < spread \<and> spread \<le> dec_from_int D MAX_REASONABLE_SPREAD_BPS"

definition ceiling_for :: "u16 \<Rightarrow> 'd volatility_guard \<Rightarrow> u64" where
  "ceiling_for e g = (case exchange_overrides g e of None \<Rightarrow> spread_ceiling_bps g | Some c \<Rightarrow> c)"

definition check_spread ::
  "'d::linorder exec_decimal \<Rightarrow> u16 \<Rightarrow> 'd \<Rightarrow> 'd \<Rightarrow> 'd volatility_guard \<Rightarrow> (bool \<times> 'd volatility_guard) option" where
  "check_spread D e bid ask g =
     (if bid \<le> dec_zero D \<or> ask \<le> dec_zero D then Some (False, g)
      else let spread = spread_of D bid ask
           in if \<not> reasonable D spread then Some (False, g)
              else case update_ema D spread g of
                     None \<Rightarrow> None
                   | Some g \<Rightarrow>
                       if dec_from_int D (uint (ceiling_for e g)) < spread
                       then Some (False, g\<lparr>rejection_count := rejection_count g + 1\<rparr>)
                       else Some (True, g))"

definition compute_spread_bps :: "'d::linorder exec_decimal \<Rightarrow> 'd \<Rightarrow> 'd \<Rightarrow> 'd \<Rightarrow> 'd" where
  "compute_spread_bps D dec_max bid ask =
     (if bid \<le> dec_zero D \<or> ask \<le> dec_zero D then dec_max else spread_of D bid ask)"

definition observe_spread :: "'d::linorder exec_decimal \<Rightarrow> 'd \<Rightarrow> 'd \<Rightarrow> 'd volatility_guard \<Rightarrow> 'd volatility_guard option" where
  "observe_spread D bid ask g =
     (if bid \<le> dec_zero D \<or> ask \<le> dec_zero D then Some g
      else let spread = spread_of D bid ask in if \<not> reasonable D spread then Some g else update_ema D spread g)"

definition set_ceiling_bps :: "u64 \<Rightarrow> 'd volatility_guard \<Rightarrow> 'd volatility_guard" where
  "set_ceiling_bps bps g = g\<lparr>spread_ceiling_bps := bps\<rparr>"

definition update_ema_period :: "u64 \<Rightarrow> 'd volatility_guard \<Rightarrow> 'd volatility_guard" where
  "update_ema_period period g = g\<lparr>ema_period := max period 2, ema_spread_bps := None\<rparr>"

definition reset_ema :: "'d volatility_guard \<Rightarrow> 'd volatility_guard" where
  "reset_ema g = g\<lparr>ema_spread_bps := None\<rparr>"

section \<open>Exhausted balances\<close>

record 'd starvation_event =
  event_exchange :: usize
  event_token :: usize
  event_balance :: 'd
  event_threshold :: 'd

record 'd starvation_detector =
  min_threshold :: 'd
  starved_exchanges :: "usize set"
  last_event :: "'d starvation_event option"
  starvation_callback :: bool

definition detector_new :: "'d \<Rightarrow> 'd starvation_detector" where
  "detector_new thr = \<lparr>min_threshold = thr, starved_exchanges = {}, last_event = None, starvation_callback = False\<rparr>"

definition detector_with_defaults :: "'d exec_decimal \<Rightarrow> 'd starvation_detector" where
  "detector_with_defaults D = detector_new (dec_from_int D 10)"

text \<open>The third result lists the calls of the callback.\<close>

definition check_balance ::
  "usize \<Rightarrow> usize \<Rightarrow> 'd::linorder \<Rightarrow> 'd starvation_detector \<Rightarrow> 'd starvation_event option \<times> 'd starvation_detector \<times> usize list" where
  "check_balance e t balance d =
     (if balance \<le> min_threshold d then
        let event = \<lparr>event_exchange = e, event_token = t, event_balance = balance, event_threshold = min_threshold d\<rparr>;
            was_starved = e \<in> starved_exchanges d
        in (Some event,
            d\<lparr>starved_exchanges := insert e (starved_exchanges d), last_event := Some event\<rparr>,
            if \<not> was_starved \<and> starvation_callback d then [e] else [])
      else (None, d, []))"

definition is_starved :: "'d starvation_detector \<Rightarrow> bool" where
  "is_starved d \<longleftrightarrow> starved_exchanges d \<noteq> {}"

definition clear_starvation :: "usize \<Rightarrow> 'd::linorder \<Rightarrow> 'd starvation_detector \<Rightarrow> bool \<times> 'd starvation_detector" where
  "clear_starvation e verified_balance d =
     (if verified_balance \<le> min_threshold d then (False, d)
      else let d = d\<lparr>starved_exchanges := starved_exchanges d - {e}\<rparr>
           in (True, if starved_exchanges d = {} then d\<lparr>last_event := None\<rparr> else d))"

definition set_starvation_callback :: "'d starvation_detector \<Rightarrow> 'd starvation_detector" where
  "set_starvation_callback d = d\<lparr>starvation_callback := True\<rparr>"

definition suggested_resize_factor :: "'d::linorder exec_decimal \<Rightarrow> 'd starvation_detector \<Rightarrow> 'd option" where
  "suggested_resize_factor D d =
     (case last_event d of
        None \<Rightarrow> None
      | Some event \<Rightarrow>
          if event_balance event \<le> dec_zero D then Some (dec_new D 10 2)
          else let target = dec_mul D (min_threshold d) (dec_from_int D 5)
               in if target \<le> dec_zero D then Some (dec_from_int D 1)
                  else let factor = dec_div D (event_balance event) target
                       in Some (min (max factor (dec_new D 10 2)) (dec_from_int D 1)))"

section \<open>Small remainders\<close>

record 'd dust_entry =
  dust_exchange :: u16
  dust_token :: string
  dust_quantity :: 'd
  dust_usd_value :: 'd

record 'd dust_request =
  request_exchange :: u16
  request_token :: string
  request_quantity :: 'd
  request_target :: string

record 'd dust_manager =
  dust_threshold_usd :: 'd
  sweep_threshold_usd :: 'd
  min_withdrawal_usd :: 'd
  target_tokens :: "u16 \<Rightarrow> string option"
  dust_inventory :: "'d dust_entry list"

definition dust_with_thresholds :: "'d exec_decimal \<Rightarrow> 'd \<Rightarrow> 'd \<Rightarrow> 'd dust_manager" where
  "dust_with_thresholds D dust_thr sweep_thr = \<lparr>dust_threshold_usd = dust_thr, sweep_threshold_usd = sweep_thr,
     min_withdrawal_usd = dec_new D 100 1, target_tokens = Map.empty, dust_inventory = []\<rparr>"

definition dust_new :: "'d exec_decimal \<Rightarrow> 'd dust_manager" where
  "dust_new D = dust_with_thresholds D (dec_new D 50 2) (dec_new D 500 2)"

definition set_target_token :: "u16 \<Rightarrow> string \<Rightarrow> 'd dust_manager \<Rightarrow> 'd dust_manager" where
  "set_target_token e token m = m\<lparr>target_tokens := (target_tokens m)(e \<mapsto> to_uppercase token)\<rparr>"

definition dust_key :: "u16 \<Rightarrow> string \<Rightarrow> 'd dust_entry \<Rightarrow> bool" where
  "dust_key e symbol en \<longleftrightarrow> dust_exchange en = e \<and> dust_token en = to_uppercase symbol"

text \<open>\<^verbatim>\<open>iter_mut().find\<close>: the first entry that matches is changed, and the result says whether there was one.\<close>

fun modify_first :: "('a \<Rightarrow> bool) \<Rightarrow> ('a \<Rightarrow> 'a) \<Rightarrow> 'a list \<Rightarrow> 'a list option" where
  "modify_first P f [] = None"
| "modify_first P f (x # xs) = (if P x then Some (f x # xs) else map_option (Cons x) (modify_first P f xs))"

definition dust_update_balance ::
  "'d::linorder exec_decimal \<Rightarrow> u16 \<Rightarrow> string \<Rightarrow> 'd \<Rightarrow> 'd \<Rightarrow> 'd dust_manager \<Rightarrow> 'd dust_manager" where
  "dust_update_balance D e symbol quantity price_usd m =
     (if quantity \<le> dec_zero D then m
      else if price_usd \<le> dec_zero D then m
      else let usd_value = dec_mul D quantity price_usd
           in if usd_value < dust_threshold_usd m then
                case modify_first (dust_key e symbol) (\<lambda>en. en\<lparr>dust_quantity := quantity, dust_usd_value := usd_value\<rparr>) (dust_inventory m) of
                  Some inv' \<Rightarrow> m\<lparr>dust_inventory := inv'\<rparr>
                | None \<Rightarrow> m\<lparr>dust_inventory := dust_inventory m @
                    [\<lparr>dust_exchange = e, dust_token = to_uppercase symbol, dust_quantity = quantity, dust_usd_value = usd_value\<rparr>]\<rparr>
              else m\<lparr>dust_inventory := filter (\<lambda>en. \<not> dust_key e symbol en) (dust_inventory m)\<rparr>)"

definition total_dust_usd :: "'d exec_decimal \<Rightarrow> 'd dust_manager \<Rightarrow> 'd" where
  "total_dust_usd D m = foldl (dec_add D) (dec_zero D) (map dust_usd_value (dust_inventory m))"

definition evaluate_and_generate_requests :: "'d::linorder exec_decimal \<Rightarrow> 'd dust_manager \<Rightarrow> 'd dust_request list" where
  "evaluate_and_generate_requests D m =
     (if total_dust_usd D m < sweep_threshold_usd m then []
      else List.map_filter (\<lambda>en.
             if dust_usd_value en \<le> dec_zero D then None
             else if dust_usd_value en < min_withdrawal_usd m then None
             else map_option (\<lambda>target. \<lparr>request_exchange = dust_exchange en, request_token = dust_token en,
                    request_quantity = dust_quantity en, request_target = target\<rparr>) (target_tokens m (dust_exchange en)))
           (dust_inventory m))"

definition clear_inventory :: "'d dust_manager \<Rightarrow> 'd dust_manager" where
  "clear_inventory m = m\<lparr>dust_inventory := []\<rparr>"

section \<open>Slicing orders\<close>

record 'd order_slice =
  slice_index :: usize
  slice_quantity :: 'd
  slice_price :: 'd
  slice_notional :: 'd
  total_slices :: usize

record 'd size_slicer =
  max_slice_usd :: 'd
  min_slice_usd :: 'd

definition slicer_new :: "'d exec_decimal \<Rightarrow> 'd size_slicer" where
  "slicer_new D = \<lparr>max_slice_usd = dec_new D 10000 1, min_slice_usd = dec_new D 50 1\<rparr>"

datatype slicer_error = MaxSliceNotPositive | MinSliceNegative

definition with_limits :: "'d::linorder exec_decimal \<Rightarrow> 'd \<Rightarrow> 'd \<Rightarrow> slicer_error + 'd size_slicer" where
  "with_limits D max_usd min_usd =
     (if max_usd \<le> dec_zero D then Inl MaxSliceNotPositive
      else if min_usd < dec_zero D then Inl MinSliceNegative
      else Inr \<lparr>max_slice_usd = max_usd, min_slice_usd = min_usd\<rparr>)"

text \<open>The loop over the slices, with the quantity carried over from slices that were too small.\<close>

definition slice_extra :: "'d exec_decimal \<Rightarrow> nat \<Rightarrow> 'd \<Rightarrow> nat \<Rightarrow> 'd" where
  "slice_extra D num_slices remainder i =
     (let whole = (case dec_to_u64 D remainder of None \<Rightarrow> 0 | Some w \<Rightarrow> w)
      in if i < unat whole then dec_from_int D 1
         else if i = num_slices - 1 then dec_sub D remainder (dec_from_int D (uint whole))
         else dec_zero D)"

fun slice_loop ::
  "'d::linorder exec_decimal \<Rightarrow> 'd size_slicer \<Rightarrow> 'd \<Rightarrow> nat \<Rightarrow> 'd \<Rightarrow> 'd \<Rightarrow> nat list \<Rightarrow> 'd \<Rightarrow> 'd order_slice list \<Rightarrow> 'd order_slice list" where
  "slice_loop D sl price num_slices base_qty remainder [] merged_qty slices = slices"
| "slice_loop D sl price num_slices base_qty remainder (i # is) merged_qty slices =
     (let slice_qty = dec_add D (dec_add D base_qty (slice_extra D num_slices remainder i)) merged_qty;
          notional = dec_mul D slice_qty price
      in if notional < min_slice_usd sl \<and> i < num_slices - 1
         then slice_loop D sl price num_slices base_qty remainder is slice_qty slices
         else slice_loop D sl price num_slices base_qty remainder is (dec_zero D)
                (slices @ [\<lparr>slice_index = length slices, slice_quantity = slice_qty, slice_price = price,
                            slice_notional = notional, total_slices = 0\<rparr>]))"

definition slice_count :: "'d exec_decimal \<Rightarrow> 'd size_slicer \<Rightarrow> 'd \<Rightarrow> nat" where
  "slice_count D sl total_notional =
     max (case dec_to_u64 D (dec_ceil D (dec_div D total_notional (max_slice_usd sl))) of None \<Rightarrow> 1 | Some n \<Rightarrow> unat n) 1"

definition slice_order :: "'d::linorder exec_decimal \<Rightarrow> 'd size_slicer \<Rightarrow> 'd \<Rightarrow> 'd \<Rightarrow> 'd order_slice list" where
  "slice_order D sl quantity price =
     (if quantity \<le> dec_zero D \<or> price \<le> dec_zero D then []
      else if max_slice_usd sl = dec_zero D then []
      else let total_notional = dec_mul D quantity price;
               single = \<lparr>slice_index = 0, slice_quantity = quantity, slice_price = price, slice_notional = total_notional, total_slices = 1\<rparr>
           in if total_notional \<le> max_slice_usd sl then [single]
              else let num_slices = slice_count D sl total_notional;
                       base_qty = dec_div D quantity (dec_from_int D (int num_slices));
                       remainder = dec_sub D quantity (dec_mul D base_qty (dec_from_int D (int num_slices)));
                       slices = slice_loop D sl price num_slices base_qty remainder [0..<num_slices] (dec_zero D) []
                   in if slices = [] then [single] else map (\<lambda>s. s\<lparr>total_slices := length slices\<rparr>) slices)"

section \<open>What the guards promise\<close>

subsection \<open>Slices\<close>

definition total_quantity :: "'d::linordered_idom order_slice list \<Rightarrow> 'd" where
  "total_quantity sls = sum_list (map slice_quantity sls)"

lemma slice_loop_sum:
  assumes "exact_numbers D" "is \<noteq> [] \<Longrightarrow> last is = num_slices - 1" "is = [] \<Longrightarrow> merged = 0"
  shows "total_quantity (slice_loop D sl price num_slices base rm is merged slices) =
    total_quantity slices + merged + sum_list (map (\<lambda>i. base + slice_extra D num_slices rm i) is)"
  using assms(2,3)
proof (induction "is" arbitrary: merged slices)
  case (Cons i "is")
  have ops: "dec_add D = (+)" "dec_mul D = (*)" "dec_zero D = 0" using assms(1) by (simp_all add: exact_numbersD)
  let ?q = "base + slice_extra D num_slices rm i + merged"
  have later: "is \<noteq> [] \<Longrightarrow> last is = num_slices - 1" using Cons.prems(1) by simp
  show ?case
  proof (cases "?q * price < min_slice_usd sl \<and> i < num_slices - 1")
    case True
    then have "is = [] \<Longrightarrow> ?q = 0" using Cons.prems(1) by simp
    from Cons.IH [OF later this] True show ?thesis by (simp add: ops Let_def algebra_simps)
  next
    case False
    from Cons.IH [OF later, of 0] show ?thesis unfolding slice_loop.simps ops Let_def if_not_P [OF False]
      by (simp add: total_quantity_def algebra_simps)
  qed
qed simp

text \<open>Every slice is priced and numbered, and all but the last are worth at least the minimum.\<close>

definition slices_ok :: "'d::linorder exec_decimal \<Rightarrow> 'd size_slicer \<Rightarrow> 'd \<Rightarrow> 'd order_slice list \<Rightarrow> bool" where
  "slices_ok D sl price sls \<longleftrightarrow>
     (\<forall>k < length sls. slice_index (sls ! k) = k \<and> slice_price (sls ! k) = price \<and>
        slice_notional (sls ! k) = dec_mul D (slice_quantity (sls ! k)) price) \<and>
     (\<forall>s \<in> set (butlast sls). \<not> slice_notional s < min_slice_usd sl)"

lemma slices_ok_snoc:
  assumes "slices_ok D sl price slices" "\<forall>s \<in> set slices. \<not> slice_notional s < min_slice_usd sl"
  shows "slices_ok D sl price (slices @ [\<lparr>slice_index = length slices, slice_quantity = q', slice_price = price,
    slice_notional = dec_mul D q' price, total_slices = 0\<rparr>])"
  using assms by (auto simp: slices_ok_def nth_append)

lemma slice_loop_ok:
  assumes "slices_ok D sl price slices" "\<forall>s \<in> set slices. \<not> slice_notional s < min_slice_usd sl"
    "sorted_wrt (<) is" "\<forall>i \<in> set is. i < num_slices"
  shows "slices_ok D sl price (slice_loop D sl price num_slices base rm is merged slices)"
  using assms
proof (induction "is" arbitrary: merged slices)
  case (Cons i "is")
  let ?q = "dec_add D (dec_add D base (slice_extra D num_slices rm i)) merged"
  let ?s = "\<lparr>slice_index = length slices, slice_quantity = ?q, slice_price = price, slice_notional = dec_mul D ?q price, total_slices = 0\<rparr>"
  have rest: "sorted_wrt (<) is" "\<forall>i \<in> set is. i < num_slices" using Cons.prems(3,4) by auto
  show ?case
  proof (cases "dec_mul D ?q price < min_slice_usd sl \<and> i < num_slices - 1")
    case True
    then show ?thesis using Cons.IH [OF Cons.prems(1,2) rest, of ?q] by (simp add: Let_def)
  next
    case False
    have ok: "slices_ok D sl price (slices @ [?s])" by (rule slices_ok_snoc [OF Cons.prems(1,2)])
    show ?thesis
    proof (cases "is")
      case Nil
      then show ?thesis using ok unfolding slice_loop.simps Let_def if_not_P [OF False] by simp
    next
      case (Cons j js)
      then have "i < num_slices - 1" using Cons.prems(3) rest(2) by fastforce
      then have "\<not> dec_mul D ?q price < min_slice_usd sl" using False by simp
      then have "\<forall>s \<in> set (slices @ [?s]). \<not> slice_notional s < min_slice_usd sl" using Cons.prems(2) by auto
      from Cons.IH [OF ok this rest, of "dec_zero D"] show ?thesis unfolding slice_loop.simps Let_def if_not_P [OF False] .
    qed
  qed
qed simp

lemma sum_extras:
  assumes "exact_numbers D" "case dec_to_u64 D rm of None \<Rightarrow> True | Some w \<Rightarrow> w = 0" "0 < n"
  shows "sum_list (map (\<lambda>i. base + slice_extra D n rm i) [0..<n]) = base * of_nat n + rm"
proof -
  have ex: "slice_extra D n rm i = (if i = n - 1 then rm else 0)" for i
    using assms by (auto simp: slice_extra_def Let_def exact_numbersD split: option.splits)
  obtain m where m: "n = Suc m" using assms(3) by (cases n) auto
  have "sum_list (map (\<lambda>i. base + (if i = m then rm else 0)) [0..<m]) = base * of_nat m"
    by (subst map_cong [OF refl, of _ _ "\<lambda>_. base"]) (auto simp: sum_list_triv mult.commute)
  then show ?thesis by (simp add: ex [unfolded m] m algebra_simps)
qed

text \<open>
  slicing neither loses nor adds quantity.  An order of positive quantity and price is cut into slices that are numbered in order and carry the
  order's price; their quantities add up to the quantity of the order exactly, although the quotient is rounded (by less than one unit in
  all), and every slice but the last is worth at least the minimum, since smaller ones are merged into the next.
\<close>

theorem slices_conserve_quantity:
  fixes D :: "'d::linordered_idom exec_decimal"
  assumes exact: "exact_numbers D"
    and quotient: "\<And>n. n = slice_count D sl (quantity * price) \<Longrightarrow> quantity - dec_div D quantity (of_nat n) * of_nat n < 1"
    and floor: "\<And>x w. dec_to_u64 D x = Some w \<Longrightarrow> of_nat (unat w) \<le> x"
    and "0 < quantity" "0 < price" "max_slice_usd sl \<noteq> 0"
  shows "let sls = slice_order D sl quantity price
    in total_quantity sls = quantity \<and> slices_ok D sl price sls \<and> sls \<noteq> [] \<and> (\<forall>s \<in> set sls. total_slices s = length sls)"
proof -
  let ?n = "slice_count D sl (quantity * price)"
  let ?base = "dec_div D quantity (of_nat ?n)"
  let ?rm = "quantity - ?base * of_nat ?n"
  let ?sls = "slice_loop D sl price ?n ?base ?rm [0..<?n] 0 []"
  have n: "0 < ?n" by (simp add: slice_count_def)
  have whole: "case dec_to_u64 D ?rm of None \<Rightarrow> True | Some w \<Rightarrow> w = 0"
  proof (cases "dec_to_u64 D ?rm")
    case (Some w)
    have "(of_nat (unat w) :: 'd) \<le> ?rm" using floor Some .
    also have "\<dots> < of_nat 1" using quotient [OF refl] by simp
    finally have "unat w < 1" by (simp only: of_nat_less_iff)
    then show ?thesis using Some by (simp add: unat_eq_0)
  qed simp
  have loop_sum: "total_quantity ?sls = quantity"
    using slice_loop_sum [OF exact, of "[0..<?n]" ?n 0 sl price ?base ?rm "[]"] sum_extras [OF exact whole n] n
    by (simp add: total_quantity_def)
  then have ne: "?sls \<noteq> []" using assms(4) by (auto simp: total_quantity_def)
  have ok: "slices_ok D sl price ?sls" by (rule slice_loop_ok) (auto simp: slices_ok_def)
  let ?out = "map (\<lambda>s. s\<lparr>total_slices := length ?sls\<rparr>) ?sls"
  have out: "total_quantity ?out = quantity" "slices_ok D sl price ?out"
    using loop_sum ok by (simp_all add: total_quantity_def slices_ok_def comp_def flip: map_butlast)
  show ?thesis
  proof (cases "quantity * price \<le> max_slice_usd sl")
    case True
    then show ?thesis using assms(4-6) exact
      by (simp add: slice_order_def Let_def exact_numbersD total_quantity_def slices_ok_def)
  next
    case False
    have "slice_order D sl quantity price = ?out"
      using False ne assms(4-6) exact by (simp add: slice_order_def Let_def exact_numbersD of_int_of_nat_eq)
    then show ?thesis using out ne by simp
  qed
qed

theorem slices_conserve_quantity_witness:
  "let sls = slice_order int_exec \<lparr>max_slice_usd = 30, min_slice_usd = 45\<rparr> 12 10
   in total_quantity sls = 12 \<and> length sls = 2"
proof -
  let ?sl = "\<lparr>max_slice_usd = 30, min_slice_usd = 45\<rparr> :: int size_slicer"
  have n: "slice_count int_exec ?sl 120 = 4" by (simp add: slice_count_def int_exec_def)
  have exact: "12 - dec_div int_exec 12 (of_nat k) * of_nat k < 1" if "k = slice_count int_exec ?sl (12 * 10)" for k
    using that n by (simp add: int_exec_def)
  have floor: "of_nat (unat w) \<le> x" if "dec_to_u64 int_exec x = Some w" for x w
    using that by (auto simp: int_exec_def of_nat_unat split: if_splits) (simp add: unsigned_of_int take_bit_int_eq_self)
  have "let sls = slice_order int_exec ?sl 12 10
    in total_quantity sls = 12 \<and> slices_ok int_exec ?sl 10 sls \<and> sls \<noteq> [] \<and> (\<forall>s \<in> set sls. total_slices s = length sls)"
    by (rule slices_conserve_quantity [OF int_exec_exact exact floor]) simp_all
  moreover have "length (slice_order int_exec ?sl 12 10) = 2"
    using n by (simp add: slice_order_def Let_def int_exec_def slice_extra_def upt_rec numeral_eq_Suc)
  ultimately show ?thesis by (simp add: Let_def)
qed

subsection \<open>Dust\<close>

datatype 'd dust_op = UpdateDust u16 string 'd 'd | SetTarget u16 string | ClearDust

fun dust_step :: "'d::linorder exec_decimal \<Rightarrow> 'd dust_manager \<Rightarrow> 'd dust_op \<Rightarrow> 'd dust_manager" where
  "dust_step D m (UpdateDust e symbol quantity price) = dust_update_balance D e symbol quantity price m"
| "dust_step D m (SetTarget e token) = set_target_token e token m"
| "dust_step D m ClearDust = clear_inventory m"

text \<open>The inventory holds only dust, one entry for each token of an exchange.\<close>

definition dust_ok :: "'d::linorder dust_manager \<Rightarrow> bool" where
  "dust_ok m \<longleftrightarrow> distinct (map (\<lambda>en. (dust_exchange en, dust_token en)) (dust_inventory m)) \<and>
     (\<forall>en \<in> set (dust_inventory m). dust_usd_value en < dust_threshold_usd m)"

lemma modify_first_Some:
  "modify_first P f xs = Some ys \<Longrightarrow> \<exists>us x vs. xs = us @ x # vs \<and> P x \<and> ys = us @ f x # vs"
proof (induction xs arbitrary: ys)
  case (Cons x xs)
  show ?case
  proof (cases "P x")
    case True
    then show ?thesis using Cons.prems by force
  next
    case False
    then obtain zs where zs: "modify_first P f xs = Some zs" "ys = x # zs" using Cons.prems by auto
    from Cons.IH [OF zs(1)] obtain us y vs where "xs = us @ y # vs" "P y" "zs = us @ f y # vs" by blast
    then show ?thesis using zs(2) by (intro exI [of _ "x # us"] exI [of _ y] exI [of _ vs]) simp
  qed
qed simp

lemma modify_first_None: "modify_first P f xs = None \<longleftrightarrow> (\<forall>x \<in> set xs. \<not> P x)"
  by (induction xs) auto

lemma dust_update_ok: "dust_ok m \<Longrightarrow> dust_ok (dust_update_balance D e symbol quantity price m)"
proof -
  assume ok: "dust_ok m"
  let ?v = "dec_mul D quantity price"
  let ?f = "\<lambda>en. en\<lparr>dust_quantity := quantity, dust_usd_value := ?v\<rparr>"
  show ?thesis
  proof (cases "quantity \<le> dec_zero D \<or> price \<le> dec_zero D \<or> \<not> ?v < dust_threshold_usd m")
    case True
    then show ?thesis using ok by (auto simp: dust_update_balance_def dust_ok_def Let_def intro: distinct_map_filter)
  next
    case False
    show ?thesis
    proof (cases "modify_first (dust_key e symbol) ?f (dust_inventory m)")
      case None
      then have new: "\<forall>en \<in> set (dust_inventory m). \<not> dust_key e symbol en" by (simp add: modify_first_None)
      show ?thesis using ok False new by (auto simp: None dust_update_balance_def dust_ok_def Let_def dust_key_def)
    next
      case (Some inv')
      from modify_first_Some [OF this] show ?thesis using ok False Some by (auto simp: dust_update_balance_def dust_ok_def Let_def)
    qed
  qed
qed

lemma dust_settings [simp]:
  "dust_threshold_usd (dust_step D m op) = dust_threshold_usd m" "min_withdrawal_usd (dust_step D m op) = min_withdrawal_usd m"
  by (cases op; auto simp: dust_update_balance_def set_target_token_def clear_inventory_def Let_def split: option.splits)+

lemma dust_step_ok: "dust_ok m \<Longrightarrow> dust_ok (dust_step D m op)"
  by (cases op) (simp_all add: dust_update_ok, simp_all add: dust_ok_def set_target_token_def clear_inventory_def)

interpretation dust: guarded_machine "dust_step D" "\<lambda>m. dust_ok m \<and> dust_threshold_usd m \<le> min_withdrawal_usd m" for D
  by unfold_locales (simp add: dust_step_ok)

text \<open>
  dust is never converted.  Only balances below the dust threshold enter the inventory, and only entries of at least the minimum
  withdrawal are converted; so whenever the threshold does not exceed that minimum, which is the case for the defaults
  (0.50 and 10.00), no sequence of balance updates makes the manager generate a request, however large the total is.
\<close>

theorem dust_never_converted:
  assumes "dust_thr \<le> dec_new D 100 1"
  shows "evaluate_and_generate_requests D (run (dust_step D) (dust_with_thresholds D dust_thr sweep_thr) ops) = []"
proof -
  let ?m = "run (dust_step D) (dust_with_thresholds D dust_thr sweep_thr) ops"
  have "dust_ok ?m \<and> dust_threshold_usd ?m \<le> min_withdrawal_usd ?m"
    by (rule dust.inv_run) (use assms in \<open>simp add: dust_ok_def dust_with_thresholds_def\<close>)
  then have "\<forall>en \<in> set (dust_inventory ?m). dust_usd_value en < min_withdrawal_usd ?m" by (auto simp: dust_ok_def)
  then show ?thesis by (auto simp: evaluate_and_generate_requests_def map_filter_def filter_empty_conv)
qed

theorem dust_never_converted_witness:
  "evaluate_and_generate_requests int_exec
     (run (dust_step int_exec) (dust_with_thresholds int_exec 5 8) [SetTarget 1 ''bnb'', UpdateDust 1 ''doge'' 4 1, UpdateDust 2 ''pepe'' 2 2]) = []"
  by (rule dust_never_converted) (simp add: int_exec_def)

subsection \<open>Starvation\<close>

datatype 'd starvation_op = CheckBalance usize usize 'd | ClearStarvation usize 'd | SetCallback

fun starvation_step :: "'d::linorder starvation_detector \<Rightarrow> 'd starvation_op \<Rightarrow> 'd starvation_detector" where
  "starvation_step d (CheckBalance e t b) = fst (snd (check_balance e t b d))"
| "starvation_step d (ClearStarvation e b) = snd (clear_starvation e b d)"
| "starvation_step d SetCallback = set_starvation_callback d"

text \<open>The operations that decide whether an exchange is starved: a check that finds too little, and a clearance that finds enough.\<close>

fun decides :: "'d::linorder \<Rightarrow> usize \<Rightarrow> 'd starvation_op \<Rightarrow> bool" where
  "decides thr e (CheckBalance e' t b) \<longleftrightarrow> e' = e \<and> b \<le> thr"
| "decides thr e (ClearStarvation e' b) \<longleftrightarrow> e' = e \<and> thr < b"
| "decides thr e SetCallback \<longleftrightarrow> False"

fun is_check :: "'d starvation_op \<Rightarrow> bool" where
  "is_check (CheckBalance e t b) = True"
| "is_check _ = False"

lemma starvation_step_threshold [simp]: "min_threshold (starvation_step d op) = min_threshold d"
  by (cases op) (auto simp: check_balance_def clear_starvation_def set_starvation_callback_def Let_def)

lemma starvation_run_threshold [simp]: "min_threshold (run starvation_step d ops) = min_threshold d"
  by (induction ops arbitrary: d) auto

lemma starvation_step_member:
  "e \<in> starved_exchanges (starvation_step d op) \<longleftrightarrow> (if decides (min_threshold d) e op then is_check op else e \<in> starved_exchanges d)"
  by (cases op) (auto simp: check_balance_def clear_starvation_def set_starvation_callback_def Let_def not_le)

text \<open>
  which exchanges are starved.  After any sequence of checks, clearances and registrations an exchange counts as starved exactly
  when the last operation that decides about it is a check that found at most the threshold; in particular a check
  that finds enough does not clear it, and what happens on one exchange does not change another.
\<close>

theorem starved_exactly:
  "e \<in> starved_exchanges (run starvation_step (detector_new thr) ops) \<longleftrightarrow>
     (case filter (decides thr e) (rev ops) of [] \<Rightarrow> False | op # _ \<Rightarrow> is_check op)"
proof (induction ops rule: rev_induct)
  case (snoc op ops)
  then show ?case by (simp add: starvation_step_member detector_new_def)
qed (simp add: detector_new_def)

text \<open>
  The event that decides about the sizes is the latest one, not one of an exchange that is still starved: here exchange 2 has recovered
  and exchange 1 has no balance at all, but the factor is that of exchange 2.
\<close>

lemma recovered_event_decides:
  assumes "z < b" "b \<le> thr" "thr < c"
  shows "let d = run starvation_step (detector_new thr) [CheckBalance 1 0 z, CheckBalance 2 0 b, ClearStarvation 2 c]
    in starved_exchanges d = {1} \<and> map_option event_exchange (last_event d) = Some 2"
  using assms by (auto simp: detector_new_def check_balance_def clear_starvation_def Let_def)

lemma event_below_threshold:
  "(\<forall>ev. last_event d = Some ev \<longrightarrow> event_balance ev \<le> min_threshold d) \<Longrightarrow>
   \<forall>ev. last_event (run starvation_step d ops) = Some ev \<longrightarrow> event_balance ev \<le> min_threshold d"
proof (induction ops arbitrary: d)
  case (Cons op ops)
  have "\<forall>ev. last_event (starvation_step d op) = Some ev \<longrightarrow> event_balance ev \<le> min_threshold (starvation_step d op)"
    using Cons.prems by (cases op) (auto simp: check_balance_def clear_starvation_def set_starvation_callback_def Let_def)
  from Cons.IH [OF this] show ?case by simp
qed simp

text \<open>The suggested factor is never above one fifth: the sizes drop to at most 20 percent at once when an exchange is starved.\<close>

lemma resize_at_most_fifth:
  assumes "\<And>x. dec_zero D < x \<Longrightarrow> x \<le> thr \<Longrightarrow> dec_div D x (dec_mul D thr (dec_from_int D 5)) \<le> dec_new D 20 2"
    "dec_new D 10 2 \<le> dec_new D 20 2" "dec_zero D < dec_mul D thr (dec_from_int D 5)"
    "suggested_resize_factor D (run starvation_step (detector_new thr) ops) = Some f"
  shows "f \<le> dec_new D 20 2"
proof -
  let ?d = "run starvation_step (detector_new thr) ops"
  obtain ev where ev: "last_event ?d = Some ev" using assms(4) by (auto simp: suggested_resize_factor_def split: option.splits)
  have le: "event_balance ev \<le> thr" using event_below_threshold [of "detector_new thr" ops] ev by (simp add: detector_new_def)
  show ?thesis using assms(1) [of "event_balance ev"] assms(2-4) ev le
    by (auto simp: suggested_resize_factor_def Let_def detector_new_def not_le min_le_iff_disj split: if_splits)
qed

subsection \<open>Spreads\<close>

text \<open>The verdict depends on the spread and the ceiling of the exchange only, never on the moving average.\<close>

lemma check_spread_verdict:
  assumes "ema_period g + 1 \<noteq> 0"
  shows "\<exists>g'. check_spread D e bid ask g =
    Some (dec_zero D < bid \<and> dec_zero D < ask \<and> reasonable D (spread_of D bid ask) \<and>
          \<not> dec_from_int D (uint (ceiling_for e g)) < spread_of D bid ask, g')"
proof -
  have c: "ceiling_for e (g\<lparr>ema_spread_bps := x\<rparr>) = ceiling_for e g" for x by (simp add: ceiling_for_def split: option.split)
  show ?thesis using assms by (auto simp: check_spread_def update_ema_def Let_def c not_le)
qed

text \<open>A market whose bid and ask are equal is refused, and the refusal is not counted.\<close>

lemma locked_market_refused:
  assumes "dec_sub D p p = dec_zero D" "\<And>x. dec_mul D (dec_zero D) x = dec_zero D" "\<And>x. dec_div D (dec_zero D) x = dec_zero D"
  shows "check_spread D e p p g = Some (False, g)"
  using assms by (simp add: check_spread_def spread_of_def reasonable_def Let_def)

text \<open>With the largest period every check of a sane market panics.\<close>

lemma largest_period_panics:
  assumes "dec_zero D < bid" "dec_zero D < ask" "reasonable D (spread_of D bid ask)"
  shows "check_spread D e bid ask (update_ema_period (- 1) g) = None"
  using assms by (simp add: check_spread_def update_ema_period_def update_ema_def Let_def max_def word_le_nat_alt unat_minus_1_word not_le [symmetric])

text \<open>The moving average stays within the bounds of the spreads that were observed.\<close>

lemma ema_convex:
  fixes lo hi a x y :: "'d::linordered_idom"
  assumes "0 \<le> a" "a \<le> 1" "lo \<le> x" "x \<le> hi" "lo \<le> y" "y \<le> hi"
  shows "lo \<le> a * x + (1 - a) * y \<and> a * x + (1 - a) * y \<le> hi"
proof -
  have "a * lo + (1 - a) * lo \<le> a * x + (1 - a) * y" using assms by (intro add_mono mult_left_mono) auto
  moreover have "a * x + (1 - a) * y \<le> a * hi + (1 - a) * hi" using assms by (intro add_mono mult_left_mono) auto
  ultimately show ?thesis by (simp add: algebra_simps)
qed

lemma ema_within_observed:
  assumes "exact_numbers D" "period + 1 \<noteq> 0"
    and "0 \<le> dec_div D (of_int 2) (of_int (uint (period + 1)))" "dec_div D (of_int 2) (of_int (uint (period + 1))) \<le> 1"
    and "\<And>bid ask. (bid, ask) \<in> set quotes \<Longrightarrow> reasonable D (spread_of D bid ask) \<Longrightarrow> lo \<le> spread_of D bid ask \<and> spread_of D bid ask \<le> hi"
    and "ema_period g = period" "case ema_spread_bps g of None \<Rightarrow> True | Some x \<Rightarrow> lo \<le> x \<and> x \<le> hi"
  shows "\<exists>g'. try_fold (\<lambda>g (bid, ask). observe_spread D bid ask g) g quotes = Some g' \<and> ema_period g' = period \<and>
    (case ema_spread_bps g' of None \<Rightarrow> True | Some x \<Rightarrow> lo \<le> x \<and> x \<le> hi)"
proof (rule try_fold_inv [where P = "\<lambda>g. ema_period g = period \<and> (case ema_spread_bps g of None \<Rightarrow> True | Some x \<Rightarrow> lo \<le> x \<and> x \<le> hi)"])
  fix g :: "'a volatility_guard" and qt
  assume inv: "ema_period g = period \<and> (case ema_spread_bps g of None \<Rightarrow> True | Some x \<Rightarrow> lo \<le> x \<and> x \<le> hi)" and "qt \<in> set quotes"
  obtain bid ask where qt: "qt = (bid, ask)" by fastforce
  let ?s = "spread_of D bid ask"
  have within: "reasonable D ?s \<Longrightarrow> lo \<le> ?s \<and> ?s \<le> hi" using assms(5) \<open>qt \<in> set quotes\<close> qt by blast
  have "\<exists>g'. update_ema D ?s g = Some g' \<and> ema_period g' = period \<and> (case ema_spread_bps g' of None \<Rightarrow> True | Some x \<Rightarrow> lo \<le> x \<and> x \<le> hi)"
    if "lo \<le> ?s" "?s \<le> hi"
    using inv that assms(2) ema_convex [OF assms(3,4) that]
    by (auto simp: update_ema_def Let_def exact_numbersD [OF assms(1)] split: option.splits)
  then show "\<exists>g'. (case qt of (bid, ask) \<Rightarrow> observe_spread D bid ask g) = Some g' \<and>
      ema_period g' = period \<and> (case ema_spread_bps g' of None \<Rightarrow> True | Some x \<Rightarrow> lo \<le> x \<and> x \<le> hi)"
    using inv within by (auto simp: qt observe_spread_def Let_def)
qed (use assms(6,7) in simp)

end
