(* ===== verification/Risk_Shields.thy ===== *)
theory Risk_Shields
  imports Circuit_Breaker Decimal_Api
begin

text \<open>
  The checks of a single opportunity: the rules of an exchange and the walk through its depth of \<^verbatim>\<open>src/src/exchange_constraints.rs\<close>, the
  triangular and the cross-exchange shield of \<^verbatim>\<open>src/src/risk_shield.rs\<close>, the walk over a fixed-size book of
  \<^verbatim>\<open>src/src/production_risk_shield.rs\<close>, and the shield of \<^verbatim>\<open>src/src/core_execution_shield.rs\<close>, which asks the engine's circuit breaker first.
\<close>

section \<open>The rules of an exchange\<close>

record 'd exchange_constraints =
  price_tick_size :: 'd
  base_step_size :: 'd
  min_notional :: 'd
  max_quantity :: "'d option"
  min_quantity :: 'd

definition constraints_default :: "'d exec_decimal \<Rightarrow> 'd exchange_constraints" where
  "constraints_default D = \<lparr>price_tick_size = dec_new D 1 2, base_step_size = dec_new D 1 5, min_notional = dec_new D 50 1,
     max_quantity = None, min_quantity = dec_new D 1 5\<rparr>"

definition round_price_buy :: "'d::linorder exec_decimal \<Rightarrow> 'd exchange_constraints \<Rightarrow> 'd \<Rightarrow> 'd" where
  "round_price_buy D c price =
     (if price_tick_size c \<le> dec_zero D then price
      else let ticks = dec_floor D (dec_div D price (price_tick_size c))
           in max (dec_mul D ticks (price_tick_size c)) (price_tick_size c))"

definition round_price_sell :: "'d::linorder exec_decimal \<Rightarrow> 'd exchange_constraints \<Rightarrow> 'd \<Rightarrow> 'd" where
  "round_price_sell D c price =
     (if price_tick_size c \<le> dec_zero D then price
      else let ticks = dec_ceil D (dec_div D price (price_tick_size c))
           in max (dec_mul D ticks (price_tick_size c)) (price_tick_size c))"

definition round_quantity_down :: "'d::linorder exec_decimal \<Rightarrow> 'd exchange_constraints \<Rightarrow> 'd \<Rightarrow> 'd" where
  "round_quantity_down D c quantity =
     (if base_step_size c \<le> dec_zero D then quantity
      else dec_mul D (dec_floor D (dec_div D quantity (base_step_size c))) (base_step_size c))"

datatype 'd constraint_error = QuantityBelowMinimum 'd 'd | QuantityAboveMaximum 'd 'd | NotionalBelowMinimum 'd 'd

definition validate_quantity :: "'d::linorder exec_decimal \<Rightarrow> 'd exchange_constraints \<Rightarrow> 'd \<Rightarrow> 'd constraint_error + 'd" where
  "validate_quantity D c quantity =
     (if quantity < min_quantity c then Inl (QuantityBelowMinimum quantity (min_quantity c))
      else case max_quantity c of
             None \<Rightarrow> Inr (round_quantity_down D c quantity)
           | Some max_qty \<Rightarrow> if max_qty < quantity then Inl (QuantityAboveMaximum quantity max_qty)
                             else Inr (round_quantity_down D c quantity))"

definition validate_notional :: "'d::linorder exec_decimal \<Rightarrow> 'd exchange_constraints \<Rightarrow> 'd \<Rightarrow> 'd \<Rightarrow> 'd constraint_error + 'd" where
  "validate_notional D c price quantity =
     (let notional = dec_mul D price quantity
      in if notional < min_notional c then Inl (NotionalBelowMinimum notional (min_notional c)) else Inr notional)"

definition apply_exchange_constraints ::
  "'d::linorder exec_decimal \<Rightarrow> 'd \<Rightarrow> 'd \<Rightarrow> bool \<Rightarrow> 'd exchange_constraints \<Rightarrow> 'd \<times> 'd" where
  "apply_exchange_constraints D raw_price raw_quantity buy c =
     (if buy then round_price_buy D c raw_price else round_price_sell D c raw_price, round_quantity_down D c raw_quantity)"

section \<open>Walking through the depth\<close>

record 'd depth_level =
  level_price :: 'd
  level_quantity :: 'd

record 'd market_depth =
  depth_asks :: "'d depth_level list"
  depth_bids :: "'d depth_level list"

datatype 'd depth_error = AmountNotPositive | EmptyDepth | ZeroDepth | InsufficientDepth 'd 'd

definition total_depth :: "'d exec_decimal \<Rightarrow> 'd depth_level list \<Rightarrow> 'd" where
  "total_depth D levels = foldl (dec_add D) (dec_zero D) (map level_quantity levels)"

text \<open>The loops: what is left to spend or to sell, and what was acquired or received.\<close>

fun walk_asks :: "'d::linorder exec_decimal \<Rightarrow> 'd depth_level list \<Rightarrow> 'd \<Rightarrow> 'd \<Rightarrow> 'd \<times> 'd" where
  "walk_asks D [] spend acquired = (spend, acquired)"
| "walk_asks D (l # ls) spend acquired =
     (if level_price l \<le> dec_zero D then walk_asks D ls spend acquired
      else let level_value = dec_mul D (level_price l) (level_quantity l)
           in if spend \<le> level_value then (dec_zero D, dec_add D acquired (dec_div D spend (level_price l)))
              else walk_asks D ls (dec_sub D spend level_value) (dec_add D acquired (level_quantity l)))"

definition calculate_slippage_buy :: "'d::linorder exec_decimal \<Rightarrow> 'd market_depth \<Rightarrow> 'd \<Rightarrow> 'd depth_error + 'd" where
  "calculate_slippage_buy D depth spend =
     (if spend \<le> dec_zero D then Inl AmountNotPositive
      else if depth_asks depth = [] then Inl EmptyDepth
      else if total_depth D (depth_asks depth) \<le> dec_zero D then Inl ZeroDepth
      else let (rest, acquired) = walk_asks D (depth_asks depth) spend (dec_zero D)
           in if dec_zero D < rest then Inl (InsufficientDepth (total_depth D (depth_asks depth)) rest) else Inr acquired)"

fun walk_bids :: "'d::linorder exec_decimal \<Rightarrow> 'd depth_level list \<Rightarrow> 'd \<Rightarrow> 'd \<Rightarrow> 'd \<times> 'd" where
  "walk_bids D [] quantity received = (quantity, received)"
| "walk_bids D (l # ls) quantity received =
     (if level_price l \<le> dec_zero D then walk_bids D ls quantity received
      else if quantity \<le> level_quantity l then (dec_zero D, dec_add D received (dec_mul D quantity (level_price l)))
      else walk_bids D ls (dec_sub D quantity (level_quantity l))
             (dec_add D received (dec_mul D (level_quantity l) (level_price l))))"

definition calculate_slippage_sell :: "'d::linorder exec_decimal \<Rightarrow> 'd market_depth \<Rightarrow> 'd \<Rightarrow> 'd depth_error + 'd" where
  "calculate_slippage_sell D depth quantity =
     (if quantity \<le> dec_zero D then Inl AmountNotPositive
      else if depth_bids depth = [] then Inl EmptyDepth
      else if total_depth D (depth_bids depth) \<le> dec_zero D then Inl ZeroDepth
      else let (rest, received) = walk_bids D (depth_bids depth) quantity (dec_zero D)
           in if dec_zero D < rest then Inl (InsufficientDepth (total_depth D (depth_bids depth)) rest) else Inr received)"

definition calculate_vwap_buy :: "'d::linorder exec_decimal \<Rightarrow> 'd market_depth \<Rightarrow> 'd \<Rightarrow> 'd depth_error + 'd" where
  "calculate_vwap_buy D depth spend =
     (case calculate_slippage_buy D depth spend of
        Inl err \<Rightarrow> Inl err
      | Inr acquired \<Rightarrow> if acquired \<le> dec_zero D then Inl ZeroDepth else Inr (dec_div D spend acquired))"

definition calculate_vwap_sell :: "'d::linorder exec_decimal \<Rightarrow> 'd market_depth \<Rightarrow> 'd \<Rightarrow> 'd depth_error + 'd" where
  "calculate_vwap_sell D depth quantity =
     (case calculate_slippage_sell D depth quantity of
        Inl err \<Rightarrow> Inl err
      | Inr received \<Rightarrow> if quantity \<le> dec_zero D then Inl ZeroDepth else Inr (dec_div D received quantity))"

text \<open>The checks of single exchanges; their only result is whether the order is refused.\<close>

datatype okx_margin_mode = Cross | Isolated

definition validate_bybit_hedging_mode :: "string \<Rightarrow> string \<Rightarrow> bool \<Rightarrow> bool" where
  "validate_bybit_hedging_mode current_side new_side hedging_mode \<longleftrightarrow>
     (if \<not> hedging_mode then True else to_lowercase current_side = to_lowercase new_side)"

definition validate_okx_margin_mode :: "'d::linorder \<Rightarrow> 'd \<Rightarrow> okx_margin_mode \<Rightarrow> bool" where
  "validate_okx_margin_mode required_margin available_balance margin_mode \<longleftrightarrow> \<not> available_balance < required_margin"

definition validate_coinbase_post_only :: "bool \<Rightarrow> bool \<Rightarrow> bool" where
  "validate_coinbase_post_only is_limit_order post_only \<longleftrightarrow> \<not> (is_limit_order \<and> \<not> post_only)"

section \<open>The triangular and the cross-exchange shield\<close>

record 'd market_ticker =
  ticker_ask_price :: 'd
  ticker_ask_qty :: 'd
  ticker_bid_price :: 'd
  ticker_bid_qty :: 'd

record 'd risk_shield =
  min_capital_requirement :: 'd
  standard_fee_rate :: 'd
  execution_safety_buffer :: 'd

definition verify_triangular_loop ::
  "'d::linorder exec_decimal \<Rightarrow> 'd risk_shield \<Rightarrow> 'd \<Rightarrow> 'd market_ticker \<Rightarrow> 'd market_ticker \<Rightarrow> 'd market_ticker \<Rightarrow> 'd \<Rightarrow> 'd option" where
  "verify_triangular_loop D sh capital leg1 leg2 leg3 fee_rate =
     (if fee_rate < dec_zero D \<or> dec_from_int D 1 \<le> fee_rate then None
      else if capital < dec_new D 100 1 then None
      else if capital < min_capital_requirement sh then None
      else if ticker_ask_price leg1 \<le> dec_zero D \<or> ticker_ask_price leg2 \<le> dec_zero D \<or> ticker_bid_price leg3 \<le> dec_zero D then None
      else if ticker_ask_qty leg1 < dec_new D 10 1 \<or> ticker_ask_qty leg2 < dec_new D 10 1 \<or> ticker_bid_qty leg3 < dec_new D 10 1 then None
      else
        let leg1_qty_before_fee = dec_div D capital (ticker_ask_price leg1);
            leg1_qty = dec_sub D leg1_qty_before_fee (dec_mul D leg1_qty_before_fee fee_rate)
        in if leg1_qty \<le> dec_zero D then None
           else if ticker_ask_qty leg1 < leg1_qty_before_fee then None
           else
             let leg2_qty_before_fee = dec_div D leg1_qty (ticker_ask_price leg2);
                 leg2_qty = dec_sub D leg2_qty_before_fee (dec_mul D leg2_qty_before_fee fee_rate)
             in if leg2_qty \<le> dec_zero D then None
                else if ticker_ask_qty leg2 < leg2_qty_before_fee then None
                else
                  let leg3_proceeds_before_fee = dec_mul D leg2_qty (ticker_bid_price leg3);
                      leg3_proceeds = dec_sub D leg3_proceeds_before_fee (dec_mul D leg3_proceeds_before_fee fee_rate)
                  in if ticker_bid_qty leg3 < leg2_qty then None
                     else if dec_div D leg3_proceeds capital \<le> dec_add D (dec_from_int D 1) (execution_safety_buffer sh) then None
                     else let profit = dec_sub D leg3_proceeds capital
                          in if profit \<le> dec_zero D then None else Some profit)"

definition verify_triangular_math ::
  "'d::linorder exec_decimal \<Rightarrow> 'd risk_shield \<Rightarrow> 'd \<Rightarrow> 'd \<Rightarrow> 'd \<Rightarrow> 'd \<Rightarrow> 'd \<Rightarrow> 'd \<Rightarrow> bool" where
  "verify_triangular_math D sh rate1 rate2 rate3 f1 f2 f3 =
     (let one = dec_from_int D 1; bad = (\<lambda>f. f < dec_zero D \<or> one \<le> f)
      in if rate1 \<le> dec_zero D \<or> rate2 \<le> dec_zero D \<or> rate3 \<le> dec_zero D then False
         else if bad f1 \<or> bad f2 \<or> bad f3 then False
         else let fee_factor = dec_mul D (dec_mul D (dec_sub D one f1) (dec_sub D one f2)) (dec_sub D one f3);
                  product_rates = dec_mul D (dec_mul D rate1 rate2) rate3
              in dec_add D one (execution_safety_buffer sh) < dec_mul D fee_factor product_rates)"

record 'd cross_exchange_shield =
  min_trade_notional :: 'd
  exchange_x_taker_fee :: 'd
  exchange_y_taker_fee :: 'd
  exchange_x_maker_fee :: "'d option"
  exchange_y_maker_fee :: "'d option"
  absolute_profit_floor :: 'd

definition with_fee_tiers :: "'d \<Rightarrow> 'd \<Rightarrow> 'd \<Rightarrow> 'd option \<Rightarrow> 'd option \<Rightarrow> 'd \<Rightarrow> 'd cross_exchange_shield" where
  "with_fee_tiers notional x_taker y_taker x_maker y_maker profit_floor =
     \<lparr>min_trade_notional = notional, exchange_x_taker_fee = x_taker, exchange_y_taker_fee = y_taker,
      exchange_x_maker_fee = x_maker, exchange_y_maker_fee = y_maker, absolute_profit_floor = profit_floor\<rparr>"

definition cross_shield_new :: "'d \<Rightarrow> 'd \<Rightarrow> 'd \<Rightarrow> 'd \<Rightarrow> 'd cross_exchange_shield" where
  "cross_shield_new notional fee_x fee_y profit_floor = with_fee_tiers notional fee_x fee_y None None profit_floor"

definition set_x_maker_fee :: "'d \<Rightarrow> 'd cross_exchange_shield \<Rightarrow> 'd cross_exchange_shield" where
  "set_x_maker_fee fee sh = sh\<lparr>exchange_x_maker_fee := Some fee\<rparr>"

definition set_y_maker_fee :: "'d \<Rightarrow> 'd cross_exchange_shield \<Rightarrow> 'd cross_exchange_shield" where
  "set_y_maker_fee fee sh = sh\<lparr>exchange_y_maker_fee := Some fee\<rparr>"

definition fee_of :: "'d option \<Rightarrow> 'd \<Rightarrow> 'd" where
  "fee_of maker taker = (case maker of None \<Rightarrow> taker | Some fee \<Rightarrow> fee)"

definition evaluate_window ::
  "'d::linorder exec_decimal \<Rightarrow> 'd cross_exchange_shield \<Rightarrow> 'd \<Rightarrow> 'd \<Rightarrow> 'd \<Rightarrow> 'd \<Rightarrow> 'd \<Rightarrow> ('d \<times> 'd) option" where
  "evaluate_window D sh bid_x ask_y bid_depth_x ask_depth_y capital =
     (if bid_x \<le> dec_zero D \<or> ask_y \<le> dec_zero D then None
      else if bid_x \<le> ask_y then None
      else
        let spread_pct = dec_div D (dec_sub D bid_x ask_y) ask_y;
            sell_fee = fee_of (exchange_x_maker_fee sh) (exchange_x_taker_fee sh);
            buy_fee = fee_of (exchange_y_maker_fee sh) (exchange_y_taker_fee sh);
            net_spread_pct = dec_sub D spread_pct (dec_add D sell_fee buy_fee)
        in if net_spread_pct \<le> dec_zero D then None
           else
             let max_qty_from_capital = dec_div D capital ask_y;
                 max_qty = if max_qty_from_capital \<le> bid_depth_x \<and> max_qty_from_capital \<le> ask_depth_y
                           then max_qty_from_capital else min bid_depth_x ask_depth_y;
                 notional = dec_mul D max_qty ask_y
             in if notional < min_trade_notional sh then None
                else
                  let buy_cost = dec_mul D max_qty ask_y;
                      sell_proceeds = dec_mul D max_qty bid_x;
                      total_cost = dec_add D buy_cost (dec_mul D buy_cost buy_fee);
                      total_revenue = dec_sub D sell_proceeds (dec_mul D sell_proceeds sell_fee);
                      profit = dec_sub D total_revenue total_cost
                  in if profit < absolute_profit_floor sh then None
                     else if profit \<le> dec_zero D then None
                     else Some (max_qty, profit))"

section \<open>The fixed-size book\<close>

abbreviation MATRIX_BOOK_DEPTH :: nat where "MATRIX_BOOK_DEPTH \<equiv> 4"

record order_book_layer =
  price_fp :: u64
  quantity_fp :: u64

definition nano_to_fp :: "'d exec_decimal \<Rightarrow> 'd \<Rightarrow> u64 option" where
  "nano_to_fp D d = dec_to_u64 D (dec_mul D d (dec_from_int D 1000000000))"

definition nano_of_fp :: "'d exec_decimal \<Rightarrow> u64 \<Rightarrow> 'd" where
  "nano_of_fp D fp = dec_div D (dec_from_int D (uint fp)) (dec_from_int D 1000000000)"

definition layer_from_decimal :: "'d exec_decimal \<Rightarrow> 'd \<Rightarrow> 'd \<Rightarrow> order_book_layer option" where
  "layer_from_decimal D price quantity =
     (case nano_to_fp D price of
        None \<Rightarrow> None
      | Some p \<Rightarrow> map_option (\<lambda>qt. \<lparr>price_fp = p, quantity_fp = qt\<rparr>) (nano_to_fp D quantity))"

record fast_order_book =
  fast_asks :: "order_book_layer list"
  fast_bids :: "order_book_layer list"

definition fast_book_new :: fast_order_book where
  "fast_book_new = \<lparr>fast_asks = replicate MATRIX_BOOK_DEPTH \<lparr>price_fp = 0, quantity_fp = 0\<rparr>,
     fast_bids = replicate MATRIX_BOOK_DEPTH \<lparr>price_fp = 0, quantity_fp = 0\<rparr>\<rparr>"

definition set_layers :: "'d exec_decimal \<Rightarrow> 'd list \<Rightarrow> 'd list \<Rightarrow> order_book_layer list \<Rightarrow> order_book_layer list" where
  "set_layers D prices quantities layers =
     foldl (\<lambda>ls i. if i < length prices \<and> i < length quantities
                   then case layer_from_decimal D (prices ! i) (quantities ! i) of None \<Rightarrow> ls | Some layer \<Rightarrow> ls[i := layer]
                   else ls) layers [0..<MATRIX_BOOK_DEPTH]"

definition set_asks :: "'d exec_decimal \<Rightarrow> 'd list \<Rightarrow> 'd list \<Rightarrow> fast_order_book \<Rightarrow> fast_order_book" where
  "set_asks D prices quantities b = b\<lparr>fast_asks := set_layers D prices quantities (fast_asks b)\<rparr>"

definition set_bids :: "'d exec_decimal \<Rightarrow> 'd list \<Rightarrow> 'd list \<Rightarrow> fast_order_book \<Rightarrow> fast_order_book" where
  "set_bids D prices quantities b = b\<lparr>fast_bids := set_layers D prices quantities (fast_bids b)\<rparr>"

record 'd market_execution_rules =
  tick_size :: 'd
  lot_step_size :: 'd
  minimum_notional :: 'd

definition rules_default :: "'d exec_decimal \<Rightarrow> 'd market_execution_rules" where
  "rules_default D = \<lparr>tick_size = dec_new D 1 2, lot_step_size = dec_new D 1 3, minimum_notional = dec_new D 50 1\<rparr>"

record 'd production_shield =
  total_taker_fee :: 'd
  net_profit_floor :: 'd
  shield_rules :: "'d market_execution_rules"

definition production_with_defaults :: "'d exec_decimal \<Rightarrow> 'd production_shield" where
  "production_with_defaults D = \<lparr>total_taker_fee = dec_new D 2 3, net_profit_floor = dec_new D 12 2, shield_rules = rules_default D\<rparr>"

text \<open>The walk by money and the walk by quantity; a layer with a zero ends both.\<close>

fun spend_walk :: "'d::linorder exec_decimal \<Rightarrow> order_book_layer list \<Rightarrow> 'd \<Rightarrow> 'd \<Rightarrow> 'd" where
  "spend_walk D [] remaining total_qty = total_qty"
| "spend_walk D (l # ls) remaining total_qty =
     (if quantity_fp l = 0 \<or> price_fp l = 0 \<or> remaining \<le> dec_zero D then total_qty
      else let price = nano_of_fp D (price_fp l); qty = nano_of_fp D (quantity_fp l); level_cost = dec_mul D price qty
           in if level_cost \<le> remaining
              then spend_walk D ls (dec_sub D remaining level_cost) (dec_add D total_qty qty)
              else spend_walk D ls (dec_zero D) (dec_add D total_qty (dec_div D remaining price)))"

fun cost_walk :: "'d::linorder exec_decimal \<Rightarrow> order_book_layer list \<Rightarrow> 'd \<Rightarrow> 'd \<Rightarrow> 'd" where
  "cost_walk D [] remaining_qty exact_cost = exact_cost"
| "cost_walk D (l # ls) remaining_qty exact_cost =
     (if quantity_fp l = 0 \<or> price_fp l = 0 \<or> remaining_qty \<le> dec_zero D then exact_cost
      else let price = nano_of_fp D (price_fp l); qty = nano_of_fp D (quantity_fp l)
           in if remaining_qty \<le> qty then dec_add D exact_cost (dec_mul D remaining_qty price)
              else cost_walk D ls (dec_sub D remaining_qty qty) (dec_add D exact_cost (dec_mul D qty price)))"

definition truncate_lot_step :: "'d::linorder exec_decimal \<Rightarrow> 'd production_shield \<Rightarrow> 'd \<Rightarrow> 'd" where
  "truncate_lot_step D sh qty =
     (let step = lot_step_size (shield_rules sh)
      in if dec_zero D < step then dec_mul D (dec_floor D (dec_div D qty step)) step else qty)"

definition process_discrete_buy_slippage ::
  "'d::linorder exec_decimal \<Rightarrow> 'd production_shield \<Rightarrow> fast_order_book \<Rightarrow> 'd \<Rightarrow> 'd \<times> 'd" where
  "process_discrete_buy_slippage D sh book spend_amount =
     (let truncated_qty = truncate_lot_step D sh (spend_walk D (fast_asks book) spend_amount (dec_zero D));
          exact_cost = cost_walk D (fast_asks book) truncated_qty (dec_zero D)
      in (truncated_qty, if dec_zero D < truncated_qty then dec_div D exact_cost truncated_qty else dec_zero D))"

definition validate_execution_safety :: "'d::linorder exec_decimal \<Rightarrow> 'd production_shield \<Rightarrow> 'd \<Rightarrow> 'd \<Rightarrow> bool" where
  "validate_execution_safety D sh notional expected_profit_pct \<longleftrightarrow>
     (if expected_profit_pct \<le> dec_zero D then False
      else if notional < minimum_notional (shield_rules sh) then False
      else if expected_profit_pct < net_profit_floor sh then False
      else True)"

section \<open>The core shield\<close>

datatype 'd shield_rejection = DepthRejection "'d depth_error" | ZeroQuantity | BelowMinimumProfit 'd 'd

record 'd shielded_result =
  estimated_acquired :: 'd
  estimated_total_cost :: 'd
  estimated_net_profit :: 'd
  slippage_bps :: 'd
  fee_cost :: 'd
  rejection_reason :: "'d shield_rejection option"

text \<open>A result is approved exactly when it has no reason for a rejection.\<close>

definition approved :: "'d shielded_result \<Rightarrow> bool" where
  "approved r \<longleftrightarrow> rejection_reason r = None"

record 'd core_shield =
  shield_breaker :: engine_circuit_breaker
  shield_fee_rate :: 'd
  min_net_profit_bps :: 'd

definition refused_result :: "'d exec_decimal \<Rightarrow> 'd \<Rightarrow> 'd shield_rejection \<Rightarrow> 'd shielded_result" where
  "refused_result D cost why = \<lparr>estimated_acquired = dec_zero D, estimated_total_cost = cost, estimated_net_profit = dec_zero D,
     slippage_bps = dec_zero D, fee_cost = dec_zero D, rejection_reason = Some why\<rparr>"

definition bps_ratio :: "'d::linorder exec_decimal \<Rightarrow> 'd \<Rightarrow> 'd \<Rightarrow> 'd" where
  "bps_ratio D x y = (if dec_zero D < y then dec_mul D (dec_div D x y) (dec_new D 100000 1) else dec_zero D)"

definition buy_estimate :: "'d::linorder exec_decimal \<Rightarrow> 'd core_shield \<Rightarrow> 'd \<Rightarrow> 'd \<Rightarrow> 'd market_depth \<Rightarrow> 'd \<Rightarrow> 'd shielded_result" where
  "buy_estimate D sh capital intended_price depth expected_sell_price =
     (case calculate_slippage_buy D depth capital of
        Inl err \<Rightarrow> refused_result D capital (DepthRejection err)
      | Inr acquired \<Rightarrow>
          if acquired \<le> dec_zero D then refused_result D capital ZeroQuantity
          else
            let vwap = dec_div D capital acquired;
                fee = dec_mul D capital (shield_fee_rate sh);
                cost = dec_add D capital fee;
                gross_sell_proceeds = dec_mul D acquired expected_sell_price;
                net_sell_proceeds = dec_sub D gross_sell_proceeds (dec_mul D gross_sell_proceeds (shield_fee_rate sh));
                net_profit = dec_sub D net_sell_proceeds cost;
                net_profit_bps = bps_ratio D net_profit cost
            in \<lparr>estimated_acquired = acquired, estimated_total_cost = cost, estimated_net_profit = net_profit,
                slippage_bps = bps_ratio D (decimal_abs D (dec_sub D vwap intended_price)) intended_price, fee_cost = fee,
                rejection_reason = (if min_net_profit_bps sh \<le> net_profit_bps then None
                                    else Some (BelowMinimumProfit net_profit_bps (min_net_profit_bps sh)))\<rparr>)"

definition sell_estimate :: "'d::linorder exec_decimal \<Rightarrow> 'd core_shield \<Rightarrow> 'd \<Rightarrow> 'd \<Rightarrow> 'd market_depth \<Rightarrow> 'd \<Rightarrow> 'd shielded_result" where
  "sell_estimate D sh quantity intended_price depth entry_cost =
     (case calculate_slippage_sell D depth quantity of
        Inl err \<Rightarrow> refused_result D entry_cost (DepthRejection err)
      | Inr proceeds \<Rightarrow>
          if proceeds \<le> dec_zero D then refused_result D entry_cost ZeroQuantity
          else
            let vwap = if dec_zero D < quantity then dec_div D proceeds quantity else dec_zero D;
                fee = dec_mul D proceeds (shield_fee_rate sh);
                net_profit = dec_sub D (dec_sub D proceeds fee) entry_cost;
                net_profit_bps = bps_ratio D net_profit entry_cost
            in \<lparr>estimated_acquired = quantity, estimated_total_cost = entry_cost, estimated_net_profit = net_profit,
                slippage_bps = bps_ratio D (decimal_abs D (dec_sub D intended_price vwap)) intended_price, fee_cost = fee,
                rejection_reason = (if min_net_profit_bps sh \<le> net_profit_bps then None
                                    else Some (BelowMinimumProfit net_profit_bps (min_net_profit_bps sh)))\<rparr>)"

definition behind_breaker ::
  "u64 \<Rightarrow> 'd shielded_result \<Rightarrow> 'd core_shield \<Rightarrow> (circuit_breaker_error + 'd shielded_result) \<times> 'd core_shield" where
  "behind_breaker now r sh =
     (case check_and_reject now (shield_breaker sh) of
        (Inl err, b) \<Rightarrow> (Inl err, sh\<lparr>shield_breaker := b\<rparr>)
      | (Inr _, b) \<Rightarrow> (Inr r, sh\<lparr>shield_breaker := b\<rparr>))"

definition evaluate_buy ::
  "'d::linorder exec_decimal \<Rightarrow> u64 \<Rightarrow> 'd \<Rightarrow> 'd \<Rightarrow> 'd market_depth \<Rightarrow> 'd \<Rightarrow> 'd core_shield \<Rightarrow>
   (circuit_breaker_error + 'd shielded_result) \<times> 'd core_shield" where
  "evaluate_buy D now capital intended_price depth expected_sell_price sh =
     behind_breaker now (buy_estimate D sh capital intended_price depth expected_sell_price) sh"

definition evaluate_sell ::
  "'d::linorder exec_decimal \<Rightarrow> u64 \<Rightarrow> 'd \<Rightarrow> 'd \<Rightarrow> 'd market_depth \<Rightarrow> 'd \<Rightarrow> 'd core_shield \<Rightarrow>
   (circuit_breaker_error + 'd shielded_result) \<times> 'd core_shield" where
  "evaluate_sell D now quantity intended_price depth entry_cost sh =
     behind_breaker now (sell_estimate D sh quantity intended_price depth entry_cost) sh"

section \<open>Depth\<close>

definition valid_levels :: "'d::linordered_idom depth_level list \<Rightarrow> 'd depth_level list" where
  "valid_levels ls = filter (\<lambda>l. 0 < level_price l) ls"

definition value_of :: "'d::linordered_idom depth_level list \<Rightarrow> 'd" where
  "value_of ls = sum_list (map (\<lambda>l. level_price l * level_quantity l) ls)"

definition quantity_of :: "'d::linordered_idom depth_level list \<Rightarrow> 'd" where
  "quantity_of ls = sum_list (map level_quantity ls)"

text \<open>Splitting a list of levels where an amount is used up: the levels before are taken whole, the one at the end in part.\<close>

definition filled_at :: "('d::linordered_idom depth_level list \<Rightarrow> 'd) \<Rightarrow> 'd \<Rightarrow> 'd depth_level list \<Rightarrow> 'd depth_level list \<Rightarrow> 'd depth_level \<Rightarrow> bool" where
  "filled_at size_of amount ls pre l \<longleftrightarrow> (\<exists>post. ls = pre @ l # post) \<and> size_of pre < amount \<and> amount \<le> size_of (pre @ [l])"

lemma sums_simps [simp]:
  "value_of [] = 0" "value_of (l # ls) = level_price l * level_quantity l + value_of ls"
  "value_of (ls @ ls') = value_of ls + value_of ls'"
  "quantity_of [] = 0" "quantity_of (l # ls) = level_quantity l + quantity_of ls" "quantity_of (ls @ ls') = quantity_of ls + quantity_of ls'"
  by (simp_all add: value_of_def quantity_of_def)

lemma valid_levels_simps [simp]:
  "valid_levels [] = []" "valid_levels (l # ls) = (if 0 < level_price l then l # valid_levels ls else valid_levels ls)"
  by (simp_all add: valid_levels_def)

lemma sums_nonneg:
  assumes "\<forall>l \<in> set ls. 0 \<le> level_quantity l"
  shows "0 \<le> value_of (valid_levels ls)" "0 \<le> quantity_of (valid_levels ls)"
  using assms by (induction ls) (auto simp: add_nonneg_nonneg)

lemma total_depth_exact: "exact_arith D \<Longrightarrow> total_depth D ls = quantity_of ls"
proof -
  assume "exact_arith D"
  then have "foldl (dec_add D) a xs = a + sum_list xs" for a xs by (induction xs arbitrary: a) (auto simp: exact_arith_def algebra_simps)
  then show ?thesis using \<open>exact_arith D\<close> by (simp add: total_depth_def quantity_of_def exact_arith_def)
qed

lemma filled_at_Cons: "size_of (l # pre) = size_of [l] + size_of pre \<Longrightarrow> size_of (l # pre @ [l']) = size_of [l] + size_of (pre @ [l']) \<Longrightarrow>
  filled_at size_of (amount - size_of [l]) ls pre l' \<Longrightarrow> filled_at size_of amount (l # ls) (l # pre) l'"
  by (auto simp: filled_at_def algebra_simps less_diff_eq)

lemma walk_asks_exact:
  assumes "exact_arith D" "\<forall>l \<in> set ls. 0 \<le> level_quantity l" "0 < spend"
  shows "if spend \<le> value_of (valid_levels ls)
    then \<exists>pre l. filled_at value_of spend (valid_levels ls) pre l \<and>
           walk_asks D ls spend acq = (0, acq + quantity_of pre + dec_div D (spend - value_of pre) (level_price l))
    else fst (walk_asks D ls spend acq) = spend - value_of (valid_levels ls)"
  using assms(2,3)
proof (induction ls arbitrary: spend acq)
  case (Cons l ls)
  have ops: "dec_zero D = 0" "dec_add D = (+)" "dec_sub D = (-)" "dec_mul D = (*)" using assms(1) by (simp_all add: exact_arith_def)
  have qty: "\<forall>l \<in> set ls. 0 \<le> level_quantity l" "0 \<le> level_quantity l" using Cons.prems(1) by auto
  consider "level_price l \<le> 0" | "0 < level_price l" "spend \<le> level_price l * level_quantity l"
    | "0 < level_price l" "level_price l * level_quantity l < spend" by fastforce
  then show ?case
  proof cases
    case 1
    then show ?thesis using Cons.IH [OF qty(1) Cons.prems(2), of acq] by (simp add: ops not_less)
  next
    case 2
    moreover have "filled_at value_of spend (l # valid_levels ls) [] l" using 2 Cons.prems(2) by (simp add: filled_at_def)
    moreover have "spend \<le> value_of (l # valid_levels ls)" using 2 sums_nonneg [OF qty(1)] by (simp add: add_increasing2)
    ultimately show ?thesis by (auto simp: ops Let_def not_le intro!: exI [of _ "[]"] exI [of _ l])
  next
    case 3
    let ?v = "level_price l * level_quantity l"
    have IH: "if spend - ?v \<le> value_of (valid_levels ls)
      then \<exists>pre l'. filled_at value_of (spend - ?v) (valid_levels ls) pre l' \<and>
           walk_asks D ls (spend - ?v) (acq + level_quantity l) =
             (0, acq + level_quantity l + quantity_of pre + dec_div D (spend - ?v - value_of pre) (level_price l'))
      else fst (walk_asks D ls (spend - ?v) (acq + level_quantity l)) = spend - ?v - value_of (valid_levels ls)"
      using Cons.IH [OF qty(1), of "spend - ?v" "acq + level_quantity l"] 3 by simp
    have step: "walk_asks D (l # ls) spend acq = walk_asks D ls (spend - ?v) (acq + level_quantity l)" using 3 by (simp add: ops Let_def not_le)
    have valid: "valid_levels (l # ls) = l # valid_levels ls" using 3 by simp
    show ?thesis
    proof (cases "spend - ?v \<le> value_of (valid_levels ls)")
      case True
      then obtain pre l' where f: "filled_at value_of (spend - ?v) (valid_levels ls) pre l'"
        "walk_asks D ls (spend - ?v) (acq + level_quantity l) =
           (0, acq + level_quantity l + quantity_of pre + dec_div D (spend - ?v - value_of pre) (level_price l'))" using IH by auto
      have "filled_at value_of spend (l # valid_levels ls) (l # pre) l'" using f(1) by (intro filled_at_Cons) simp_all
      then show ?thesis using True f(2) unfolding step valid
        by (auto simp: algebra_simps intro!: exI [of _ "l # pre"] exI [of _ l'])
    next
      case False
      then show ?thesis using IH unfolding step valid by (auto simp: algebra_simps)
    qed
  qed
qed simp

text \<open>
  the simulated market order.  The simulation of a buy succeeds exactly when the valid ask levels are worth the amount, and
  then takes the levels in order, whole until the one at which the amount is used up: the result is the quantity of the levels before
  it and the rest divided by its price.
\<close>

theorem slippage_buy_exact:
  assumes exact: "exact_arith D" and nonneg: "\<forall>l \<in> set (depth_asks depth). 0 \<le> level_quantity l" and "0 < spend"
  shows "case calculate_slippage_buy D depth spend of
      Inl err \<Rightarrow> value_of (valid_levels (depth_asks depth)) < spend
    | Inr acquired \<Rightarrow> (\<exists>pre l. filled_at value_of spend (valid_levels (depth_asks depth)) pre l \<and>
        acquired = quantity_of pre + dec_div D (spend - value_of pre) (level_price l))"
proof -
  let ?ls = "depth_asks depth"
  have zero: "dec_zero D = 0" using exact by (simp add: exact_arith_def)
  have pos: "0 < quantity_of ?ls" if "spend \<le> value_of (valid_levels ?ls)"
  proof (rule ccontr)
    assume "\<not> 0 < quantity_of ?ls"
    moreover have "0 \<le> quantity_of xs" if "\<forall>l \<in> set xs. 0 \<le> level_quantity l" for xs :: "'a depth_level list"
      using that by (induction xs) auto
    ultimately have "quantity_of ?ls = 0" using nonneg by (meson not_less order_antisym)
    moreover have "quantity_of xs = 0 \<Longrightarrow> \<forall>l \<in> set xs. 0 \<le> level_quantity l \<Longrightarrow> value_of (valid_levels xs) = 0" for xs :: "'a depth_level list"
    proof (induction xs)
      case (Cons l xs)
      have "0 \<le> quantity_of xs" using Cons.prems(2) by (induction xs) auto
      then show ?case using Cons by (auto simp: add_nonneg_eq_0_iff)
    qed simp
    ultimately show False using nonneg that assms(3) by simp
  qed
  show ?thesis
  proof (cases "spend \<le> value_of (valid_levels ?ls)")
    case True
    then obtain pre l where w: "filled_at value_of spend (valid_levels ?ls) pre l"
      "walk_asks D ?ls spend 0 = (0, quantity_of pre + dec_div D (spend - value_of pre) (level_price l))"
      using walk_asks_exact [OF exact nonneg assms(3), of 0] by auto
    have "?ls \<noteq> []" using True assms(3) by auto
    then have "calculate_slippage_buy D depth spend = Inr (quantity_of pre + dec_div D (spend - value_of pre) (level_price l))"
      using w(2) assms(3) pos [OF True] by (simp add: calculate_slippage_buy_def zero total_depth_exact [OF exact] not_le)
    then show ?thesis using w(1) by auto
  next
    case False
    then have "fst (walk_asks D ?ls spend 0) = spend - value_of (valid_levels ?ls)"
      using walk_asks_exact [OF exact nonneg assms(3), of 0] by simp
    then have "\<exists>err. calculate_slippage_buy D depth spend = Inl err"
      using False by (auto simp: calculate_slippage_buy_def zero case_prod_beta Let_def)
    then show ?thesis using False by auto
  qed
qed

definition sample_depth :: "int market_depth" where
  "sample_depth = \<lparr>depth_asks = [\<lparr>level_price = 10, level_quantity = 3\<rparr>, \<lparr>level_price = 0, level_quantity = 9\<rparr>, \<lparr>level_price = 20, level_quantity = 5\<rparr>],
     depth_bids = []\<rparr>"

lemma int_exec_arith: "exact_arith int_exec"
  using int_exec_exact by (simp add: exact_numbers_def)

theorem slippage_buy_exact_witness:
  "calculate_slippage_buy int_exec sample_depth 70 = Inr 5 \<and>
   (\<exists>pre l. filled_at value_of 70 (valid_levels (depth_asks sample_depth)) pre l)"
proof -
  have "calculate_slippage_buy int_exec sample_depth 70 = Inr 5"
    by (simp add: calculate_slippage_buy_def sample_depth_def total_depth_def int_exec_def)
  moreover have "\<forall>l \<in> set (depth_asks sample_depth). 0 \<le> level_quantity l" by (simp add: sample_depth_def)
  ultimately show ?thesis using slippage_buy_exact [OF int_exec_arith, of sample_depth 70] by auto
qed

text \<open>The walk down the bids: it sells everything exactly when the valid bids take the quantity.\<close>

lemma walk_bids_exact:
  assumes "exact_arith D" "\<forall>l \<in> set ls. 0 \<le> level_quantity l" "0 < quantity"
  shows "if quantity \<le> quantity_of (valid_levels ls)
    then \<exists>pre l. filled_at quantity_of quantity (valid_levels ls) pre l \<and>
           walk_bids D ls quantity rec = (0, rec + value_of pre + (quantity - quantity_of pre) * level_price l)
    else fst (walk_bids D ls quantity rec) = quantity - quantity_of (valid_levels ls)"
  using assms(2,3)
proof (induction ls arbitrary: quantity rec)
  case (Cons l ls)
  have ops: "dec_zero D = 0" "dec_add D = (+)" "dec_sub D = (-)" "dec_mul D = (*)" using assms(1) by (simp_all add: exact_arith_def)
  have qty: "\<forall>l \<in> set ls. 0 \<le> level_quantity l" "0 \<le> level_quantity l" using Cons.prems(1) by auto
  consider "level_price l \<le> 0" | "0 < level_price l" "quantity \<le> level_quantity l" | "0 < level_price l" "level_quantity l < quantity"
    by fastforce
  then show ?case
  proof cases
    case 1
    then show ?thesis using Cons.IH [OF qty(1) Cons.prems(2), of rec] by (simp add: ops not_less)
  next
    case 2
    moreover have "filled_at quantity_of quantity (l # valid_levels ls) [] l" using 2 Cons.prems(2) by (simp add: filled_at_def)
    moreover have "quantity \<le> quantity_of (l # valid_levels ls)" using 2 sums_nonneg [OF qty(1)] by (simp add: add_increasing2)
    ultimately show ?thesis by (auto simp: ops Let_def not_le intro!: exI [of _ "[]"] exI [of _ l])
  next
    case 3
    let ?q = "level_quantity l" and ?r = "rec + level_quantity l * level_price l"
    have IH: "if quantity - ?q \<le> quantity_of (valid_levels ls)
      then \<exists>pre l'. filled_at quantity_of (quantity - ?q) (valid_levels ls) pre l' \<and>
           walk_bids D ls (quantity - ?q) ?r = (0, ?r + value_of pre + (quantity - ?q - quantity_of pre) * level_price l')
      else fst (walk_bids D ls (quantity - ?q) ?r) = quantity - ?q - quantity_of (valid_levels ls)"
      using Cons.IH [OF qty(1), of "quantity - ?q" ?r] 3 by simp
    have step: "walk_bids D (l # ls) quantity rec = walk_bids D ls (quantity - ?q) ?r" using 3 by (simp add: ops Let_def not_le)
    have valid: "valid_levels (l # ls) = l # valid_levels ls" using 3 by simp
    show ?thesis
    proof (cases "quantity - ?q \<le> quantity_of (valid_levels ls)")
      case True
      then obtain pre l' where f: "filled_at quantity_of (quantity - ?q) (valid_levels ls) pre l'"
        "walk_bids D ls (quantity - ?q) ?r = (0, ?r + value_of pre + (quantity - ?q - quantity_of pre) * level_price l')" using IH by auto
      have "filled_at quantity_of quantity (l # valid_levels ls) (l # pre) l'" using f(1) by (intro filled_at_Cons) simp_all
      then show ?thesis using True f(2) unfolding step valid
        by (auto simp: algebra_simps intro!: exI [of _ "l # pre"] exI [of _ l'])
    next
      case False
      then show ?thesis using IH unfolding step valid by (auto simp: algebra_simps)
    qed
  qed
qed simp

lemma slippage_sell_exact:
  assumes exact: "exact_arith D" and nonneg: "\<forall>l \<in> set (depth_bids depth). 0 \<le> level_quantity l" and "0 < quantity"
  shows "case calculate_slippage_sell D depth quantity of
      Inl err \<Rightarrow> quantity_of (valid_levels (depth_bids depth)) < quantity
    | Inr received \<Rightarrow> (\<exists>pre l. filled_at quantity_of quantity (valid_levels (depth_bids depth)) pre l \<and>
        received = value_of pre + (quantity - quantity_of pre) * level_price l)"
proof -
  let ?ls = "depth_bids depth"
  have zero: "dec_zero D = 0" using exact by (simp add: exact_arith_def)
  have more: "quantity_of (valid_levels xs) \<le> quantity_of xs" if "\<forall>l \<in> set xs. 0 \<le> level_quantity l" for xs :: "'a depth_level list"
    using that by (induction xs) (auto simp: add_increasing)
  show ?thesis
  proof (cases "quantity \<le> quantity_of (valid_levels ?ls)")
    case True
    then obtain pre l where w: "filled_at quantity_of quantity (valid_levels ?ls) pre l"
      "walk_bids D ?ls quantity 0 = (0, value_of pre + (quantity - quantity_of pre) * level_price l)"
      using walk_bids_exact [OF exact nonneg assms(3), of 0] by auto
    have "?ls \<noteq> []" using True assms(3) by auto
    moreover have "0 < quantity_of ?ls" using True assms(3) more [OF nonneg] by (meson less_le_trans)
    ultimately have "calculate_slippage_sell D depth quantity = Inr (value_of pre + (quantity - quantity_of pre) * level_price l)"
      using w(2) assms(3) by (simp add: calculate_slippage_sell_def zero total_depth_exact [OF exact] not_le)
    then show ?thesis using w(1) by auto
  next
    case False
    then have "fst (walk_bids D ?ls quantity 0) = quantity - quantity_of (valid_levels ?ls)"
      using walk_bids_exact [OF exact nonneg assms(3), of 0] by simp
    then have "\<exists>err. calculate_slippage_sell D depth quantity = Inl err"
      using False by (auto simp: calculate_slippage_sell_def zero case_prod_beta Let_def)
    then show ?thesis using False by auto
  qed
qed

section \<open>Opportunities\<close>

text \<open>
  a cross-exchange window that the shield accepts is profitable.  The quantity is the least of what the capital buys and the depths of
  both sides, its value is not below the minimum, and the stated profit is exactly the proceeds of the sale after its fee less the
  cost of the purchase with its fee; it is positive and not below the floor.  Conversely a refused window violates one of these, or its
  relative spread does not exceed the sum of the fees.
\<close>

theorem window_exact:
  fixes D :: "'d::linordered_idom exec_decimal" and sh :: "'d cross_exchange_shield" and bid ask bid_depth ask_depth capital :: 'd
  assumes exact: "exact_numbers D"
  defines "fx \<equiv> fee_of (exchange_x_maker_fee sh) (exchange_x_taker_fee sh)"
    and "fy \<equiv> fee_of (exchange_y_maker_fee sh) (exchange_y_taker_fee sh)"
    and "qty \<equiv> min (dec_div D capital ask) (min bid_depth ask_depth)"
  defines "profit \<equiv> qty * bid * (1 - fx) - qty * ask * (1 + fy)"
  shows "evaluate_window D sh bid ask bid_depth ask_depth capital =
    (if 0 < ask \<and> ask < bid \<and> fx + fy < dec_div D (bid - ask) ask \<and> min_trade_notional sh \<le> qty * ask \<and>
        absolute_profit_floor sh \<le> profit \<and> 0 < profit
     then Some (qty, profit) else None)"
proof -
  have least: "(if dec_div D capital ask \<le> bid_depth \<and> dec_div D capital ask \<le> ask_depth then dec_div D capital ask
      else min bid_depth ask_depth) = qty"
    by (auto simp: qty_def min_def)
  have p: "qty * bid - qty * bid * fx - (qty * ask + qty * ask * fy) = profit" by (simp add: profit_def algebra_simps)
  show ?thesis
    unfolding evaluate_window_def exact_numbersD [OF exact] Let_def least p fx_def [symmetric] fy_def [symmetric]
    by (auto simp: not_le not_less)
qed

theorem window_exact_witness:
  "evaluate_window int_exec (cross_shield_new 10 0 0 5) 30 10 4 9 20 = Some (2, 40)"
  using window_exact [OF int_exec_exact, of "cross_shield_new 10 0 0 5" 30 10 4 9 20]
  by (simp add: cross_shield_new_def with_fee_tiers_def fee_of_def int_exec_def)

text \<open>
  An accepted triangle: the purchases fit into the depths, and when the quotients of the two purchases are exact the proceeds are the
  capital times the bid and the three fee factors, divided by both asks.
\<close>

lemma triangle_sound:
  fixes D :: "'d::linordered_idom exec_decimal" and leg1 leg2 leg3 :: "'d market_ticker" and capital f :: 'd
  assumes exact: "exact_numbers D" and acc: "verify_triangular_loop D sh capital leg1 leg2 leg3 f = Some profit"
  defines "q1 \<equiv> dec_div D capital (ticker_ask_price leg1)"
  defines "q2 \<equiv> dec_div D (q1 * (1 - f)) (ticker_ask_price leg2)"
  assumes "q1 * ticker_ask_price leg1 = capital" "q2 * ticker_ask_price leg2 = q1 * (1 - f)"
  shows "0 < profit" "q1 \<le> ticker_ask_qty leg1" "q2 \<le> ticker_ask_qty leg2" "q2 * (1 - f) \<le> ticker_bid_qty leg3"
    "(capital + profit) * ticker_ask_price leg1 * ticker_ask_price leg2 = capital * (1 - f) ^ 3 * ticker_bid_price leg3"
proof -
  have fee: "x - x * f = x * (1 - f)" for x by (simp add: algebra_simps)
  note facts = acc [unfolded verify_triangular_loop_def exact_numbersD [OF exact] Let_def fee]
  show "0 < profit" "q1 \<le> ticker_ask_qty leg1" "q2 \<le> ticker_ask_qty leg2" "q2 * (1 - f) \<le> ticker_bid_qty leg3"
    using facts by (auto simp: q1_def q2_def split: if_splits)
  have "capital + profit = q2 * (1 - f) * ticker_bid_price leg3 * (1 - f)" using facts by (auto simp: q1_def q2_def split: if_splits)
  then have "(capital + profit) * ticker_ask_price leg1 * ticker_ask_price leg2 =
      (q2 * ticker_ask_price leg2) * ticker_ask_price leg1 * (1 - f) * (1 - f) * ticker_bid_price leg3" by (simp only: ac_simps)
  also have "\<dots> = (q1 * ticker_ask_price leg1) * (1 - f) * (1 - f) * (1 - f) * ticker_bid_price leg3" by (simp add: assms(6) algebra_simps)
  also have "\<dots> = capital * (1 - f) ^ 3 * ticker_bid_price leg3" by (simp add: assms(5) power3_eq_cube algebra_simps)
  finally show "(capital + profit) * ticker_ask_price leg1 * ticker_ask_price leg2 = capital * (1 - f) ^ 3 * ticker_bid_price leg3" .
qed

section \<open>The discrete walk stays within the budget\<close>

lemma walks_acc:
  assumes "exact_arith D"
  shows "spend_walk D ls m a = a + spend_walk D ls m 0" "cost_walk D ls x a = a + cost_walk D ls x 0"
proof -
  have ops: "dec_zero D = 0" "dec_add D = (+)" "dec_sub D = (-)" "dec_mul D = (*)" using assms by (simp_all add: exact_arith_def)
  show "spend_walk D ls m a = a + spend_walk D ls m 0"
  proof (induction ls arbitrary: m a)
    case (Cons l ls)
    let ?p = "nano_of_fp D (price_fp l)" and ?q = "nano_of_fp D (quantity_fp l)"
    show ?case
      using Cons.IH [of "m - ?p * ?q" "a + ?q"] Cons.IH [of "m - ?p * ?q" ?q]
        Cons.IH [of 0 "a + dec_div D m ?p"] Cons.IH [of 0 "dec_div D m ?p"]
      by (simp add: ops Let_def)
  qed simp
  show "cost_walk D ls x a = a + cost_walk D ls x 0"
  proof (induction ls arbitrary: x a)
    case (Cons l ls)
    let ?p = "nano_of_fp D (price_fp l)" and ?q = "nano_of_fp D (quantity_fp l)"
    show ?case using Cons.IH [of "x - ?q" "a + ?q * ?p"] Cons.IH [of "x - ?q" "?q * ?p"] by (simp add: ops Let_def)
  qed simp
qed

lemma spend_walk_done: "exact_arith D \<Longrightarrow> m \<le> 0 \<Longrightarrow> spend_walk D ls m a = a"
  by (cases ls) (simp_all add: exact_arith_def)

lemma cost_within_budget:
  assumes exact: "exact_arith D"
    and pos: "\<And>fp. fp \<noteq> 0 \<Longrightarrow> 0 < nano_of_fp D fp"
    and down: "\<And>x y. 0 < x \<Longrightarrow> 0 < y \<Longrightarrow> dec_div D x y * y \<le> x"
    and "0 \<le> m" "x \<le> spend_walk D ls m 0"
  shows "cost_walk D ls x 0 \<le> m"
  using assms(4,5)
proof (induction ls arbitrary: m x)
  case (Cons l ls)
  have ops: "dec_zero D = 0" "dec_add D = (+)" "dec_sub D = (-)" "dec_mul D = (*)" using exact by (simp_all add: exact_arith_def)
  let ?p = "nano_of_fp D (price_fp l)" and ?q = "nano_of_fp D (quantity_fp l)"
  show ?case
  proof (cases "quantity_fp l = 0 \<or> price_fp l = 0 \<or> x \<le> 0")
    case True
    then show ?thesis using Cons.prems by (auto simp: ops)
  next
    case False
    then have p: "0 < ?p" "0 < ?q" "0 < x" using pos by auto
    have m: "0 < m"
    proof (rule ccontr)
      assume "\<not> 0 < m"
      then have "spend_walk D (l # ls) m 0 = 0" using spend_walk_done [OF exact, of m "l # ls" 0] by simp
      then show False using Cons.prems(2) p(3) by simp
    qed
    show ?thesis
    proof (cases "?p * ?q \<le> m")
      case True
      have x: "x \<le> ?q + spend_walk D ls (m - ?p * ?q) 0"
        using Cons.prems(2) True False m walks_acc(1) [OF exact, of ls "m - ?p * ?q" ?q] by (simp add: ops Let_def)
      show ?thesis
      proof (cases "x \<le> ?q")
        case True
        then have "x * ?p \<le> ?q * ?p" using p(1) by (simp add: mult_right_mono)
        then have "x * ?p \<le> m" using \<open>?p * ?q \<le> m\<close> by (simp add: mult.commute)
        then show ?thesis using True False by (simp add: ops Let_def)
      next
        case lt: False
        have "cost_walk D ls (x - ?q) 0 \<le> m - ?p * ?q" using x \<open>?p * ?q \<le> m\<close> by (intro Cons.IH) (simp_all add: algebra_simps)
        then show ?thesis using lt False walks_acc(2) [OF exact, of ls "x - ?q" "?q * ?p"] by (simp add: ops Let_def algebra_simps)
      qed
    next
      case part: False
      have "spend_walk D (l # ls) m 0 = dec_div D m ?p"
        using part False m spend_walk_done [OF exact, of 0 ls "dec_div D m ?p"] by (simp add: ops Let_def)
      then have "x * ?p \<le> dec_div D m ?p * ?p" using Cons.prems(2) p(1) by (simp add: mult_right_mono)
      also have "\<dots> \<le> m" using down m p(1) by blast
      finally have xp: "x * ?p \<le> m" .
      then have "x * ?p < ?q * ?p" using part by (simp add: mult.commute not_le)
      then have "x \<le> ?q" using p(1) by (simp add: mult_less_cancel_right_pos less_imp_le)
      then show ?thesis using xp False by (simp add: ops Let_def)
    qed
  qed
qed (simp add: exact_arith_def)

text \<open>Where quotients are rounded down, the truncated quantity never costs more than the amount to be spent.\<close>

lemma discrete_slippage_within_budget:
  assumes "exact_arith D" "\<And>fp. fp \<noteq> 0 \<Longrightarrow> 0 < nano_of_fp D fp" "\<And>x y. 0 < x \<Longrightarrow> 0 < y \<Longrightarrow> dec_div D x y * y \<le> x"
    and "\<And>x y. 0 < y \<Longrightarrow> dec_floor D (dec_div D x y) * y \<le> x" "0 \<le> spend"
  shows "cost_walk D (fast_asks book) (fst (process_discrete_buy_slippage D sh book spend)) 0 \<le> spend"
proof -
  have "truncate_lot_step D sh x \<le> x" for x
    using assms(1,4) by (simp add: truncate_lot_step_def exact_arith_def Let_def)
  moreover have "dec_zero D = 0" using assms(1) by (simp add: exact_arith_def)
  ultimately show ?thesis
    using assms(1-3,5) by (auto simp: process_discrete_buy_slippage_def Let_def intro!: cost_within_budget)
qed

text \<open>The combined fee of the shield does not enter the calculation.\<close>

lemma discrete_slippage_ignores_fee:
  "process_discrete_buy_slippage D (sh\<lparr>total_taker_fee := fee\<rparr>) book spend = process_discrete_buy_slippage D sh book spend"
  by (simp add: process_discrete_buy_slippage_def truncate_lot_step_def Let_def)

text \<open>A shorter list of levels leaves the layers of the earlier book behind it.\<close>

lemma stale_layers_kept:
  assumes "length ls = MATRIX_BOOK_DEPTH" "length prices \<le> k" "k < MATRIX_BOOK_DEPTH"
  shows "set_layers D prices quantities ls ! k = ls ! k"
proof -
  have "foldl (\<lambda>ls i. if i < length prices \<and> i < length quantities
      then case layer_from_decimal D (prices ! i) (quantities ! i) of None \<Rightarrow> ls | Some layer \<Rightarrow> ls[i := layer] else ls) ls is ! k = ls ! k" for ls "is"
  proof (induction "is" arbitrary: ls)
    case (Cons i "is")
    show ?case using assms(2) by (simp add: Cons.IH nth_list_update split: option.split)
  qed simp
  then show ?thesis by (simp add: set_layers_def)
qed

section \<open>Rules that do not hold\<close>

text \<open>A quantity that passes the check of the minimum can be rounded below it, and a price below one tick is rounded up although the order buys.\<close>

lemma validated_quantity_below_minimum:
  "validate_quantity int_exec \<lparr>price_tick_size = 1, base_step_size = 10, min_notional = 0, max_quantity = None, min_quantity = 15\<rparr> 15 = Inr 10"
  by (simp add: validate_quantity_def round_quantity_down_def int_exec_def)

lemma small_buy_price_rounded_up:
  assumes "dec_zero D < price_tick_size c" "price < price_tick_size c"
  shows "price < round_price_buy D c price"
  using assms by (simp add: round_price_buy_def Let_def less_max_iff_disj not_le)

section \<open>The core shield and the breaker\<close>

text \<open>
  While the breaker is frozen for a reason that does not clear by itself, no evaluation reaches the depth, whatever the opportunity; when it is not
  frozen, the evaluation is the estimate alone.
\<close>

lemma core_shield_behind_breaker:
  assumes "system_frozen (shield_breaker sh)" "\<not> transient_reason (trip_reason (shield_breaker sh))"
  shows "\<exists>err sh'. evaluate_buy D now capital price depth sell_price sh = (Inl err, sh')" "\<exists>err sh'. evaluate_sell D now qty price depth cost sh = (Inl err, sh')"
  using assms by (auto simp: evaluate_buy_def evaluate_sell_def behind_breaker_def check_and_reject_def Let_def)

text \<open>An approved purchase is one whose estimated profit in basis points of its cost reaches the minimum.\<close>

lemma approved_buy_profitable:
  assumes "evaluate_buy D now capital price depth sell_price sh = (Inr r, sh')" "approved r"
  shows "\<exists>acquired. calculate_slippage_buy D depth capital = Inr acquired \<and> dec_zero D < acquired \<and>
    min_net_profit_bps sh \<le> bps_ratio D (estimated_net_profit r) (estimated_total_cost r)"
  using assms
  by (auto simp: evaluate_buy_def behind_breaker_def buy_estimate_def approved_def refused_result_def Let_def not_le
      split: prod.splits sum.splits if_splits)

end
