(* ===== verification/Dynamic_Fees.thy ===== *)
theory Dynamic_Fees
  imports Json_Values Hash_Map Decimal_Api Asset_Inventory
begin

text \<open>
  The fee schedules of \<^verbatim>\<open>src/src/dynamic_fees.rs\<close>: the parsers of the fee answers of eleven exchanges, the cache with its
  fallbacks to the configuration and to defaults, and its refresh.  The body an exchange answers with, already decoded, is an argument; reading decimals and
  floats belongs to packages outside the repository.
\<close>

section \<open>Fee fractions\<close>

record ('d, 'f) fee_reader =
  fee_decimal :: "'d exec_decimal"
  fee_from_str :: "string \<Rightarrow> 'd option"
  fee_f64_str :: "string \<Rightarrow> u64 option"
  fee_f64 :: "'f json_number \<Rightarrow> u64"

text \<open>
  \<open>fee_f64_str\<close> is the last resort of the string parser, the text as a float times 10000, rounded; \<open>fee_f64\<close> is \<^verbatim>\<open>bps_from_fraction_f64\<close> of a JSON number.
\<close>

definition strip_suffix :: "char \<Rightarrow> string \<Rightarrow> string option" where
  "strip_suffix c s = (if s \<noteq> [] \<and> last s = c then Some (butlast s) else None)"

definition scaled_bps :: "'d::linorder exec_decimal \<Rightarrow> int \<Rightarrow> 'd \<Rightarrow> u64 option" where
  "scaled_bps D k x =
     (let b = dec_mul D x (dec_from_int D k)
      in if b < dec_zero D then Some 0 else dec_to_u64 D (dec_trunc D b))"

definition bps_from_fraction_str :: "('d::linorder, 'f) fee_reader \<Rightarrow> string \<Rightarrow> u64" where
  "bps_from_fraction_str R s =
     (let trimmed = str_trim s;
          percent = Option.bind (strip_suffix CHR ''%'' trimmed) (fee_from_str R);
          fraction = Option.bind (fee_from_str R trimmed) (scaled_bps (fee_decimal R) 10000)
      in case percent of
           Some pct \<Rightarrow> unwrap_or (scaled_bps (fee_decimal R) 100 pct) 0
         | None \<Rightarrow> (case fraction of Some b \<Rightarrow> b | None \<Rightarrow> unwrap_or (fee_f64_str R trimmed) 10))"

section \<open>The answers of the exchanges\<close>

definition field_u64 :: "string \<Rightarrow> 'f json \<Rightarrow> u64 option" where
  "field_u64 k v = Option.bind (json_get k v) as_u64"

definition both :: "'a option \<Rightarrow> 'b option \<Rightarrow> ('a \<times> 'b) option" where
  "both a b = (case (a, b) of (Some x, Some y) \<Rightarrow> Some (x, y) | _ \<Rightarrow> None)"

definition str_fees :: "('d::linorder, 'f) fee_reader \<Rightarrow> string \<Rightarrow> string \<Rightarrow> 'f json \<Rightarrow> (u64 \<times> u64) option" where
  "str_fees R km kt v =
     map_option (map_prod (bps_from_fraction_str R) (bps_from_fraction_str R)) (both (get_str km v) (get_str kt v))"

definition fetch_binance_fees :: "'f json \<Rightarrow> (u64 \<times> u64) option" where
  "fetch_binance_fees body = both (field_u64 ''makerCommission'' body) (field_u64 ''takerCommission'' body)"

definition fetch_bybit_fees :: "('d::linorder, 'f) fee_reader \<Rightarrow> 'f json \<Rightarrow> (u64 \<times> u64) option" where
  "fetch_bybit_fees R body =
     Option.bind (first_of (Option.bind (json_get ''result'' body) (get_array ''list''))) (str_fees R ''makerFeeRate'' ''takerFeeRate'')"

definition fetch_okx_fees :: "('d::linorder, 'f) fee_reader \<Rightarrow> 'f json \<Rightarrow> (u64 \<times> u64) option" where
  "fetch_okx_fees R body = Option.bind (first_of (get_array ''data'' body)) (str_fees R ''maker'' ''taker'')"

definition fetch_gateio_fees :: "('d::linorder, 'f) fee_reader \<Rightarrow> 'f json \<Rightarrow> (u64 \<times> u64) option" where
  "fetch_gateio_fees R body = Option.bind (first_of (as_array body)) (str_fees R ''maker_fee'' ''taker_fee'')"

definition fetch_kucoin_fees :: "('d::linorder, 'f) fee_reader \<Rightarrow> 'f json \<Rightarrow> (u64 \<times> u64) option" where
  "fetch_kucoin_fees R body = Option.bind (json_get ''data'' body) (str_fees R ''makerFeeRate'' ''takerFeeRate'')"

definition fetch_bitget_fees :: "('d::linorder, 'f) fee_reader \<Rightarrow> 'f json \<Rightarrow> (u64 \<times> u64) option" where
  "fetch_bitget_fees R body =
     (case json_get ''data'' body of
        Some data \<Rightarrow>
          (case as_array data of
             Some arr \<Rightarrow> Option.bind (first_of (Some arr)) (str_fees R ''makerFeeRate'' ''takerFeeRate'')
           | None \<Rightarrow> if is_object data then str_fees R ''makerFeeRate'' ''takerFeeRate'' data else None)
      | None \<Rightarrow> None)"

definition fetch_bitmex_fees :: "'f json \<Rightarrow> (u64 \<times> u64) option" where
  "fetch_bitmex_fees body = None"

definition fetch_coinbase_fees :: "('d::linorder, 'f) fee_reader \<Rightarrow> 'f json \<Rightarrow> (u64 \<times> u64) option" where
  "fetch_coinbase_fees R body =
     or_else (str_fees R ''maker_fee_rate'' ''taker_fee_rate'' body)
       (Option.bind (json_get ''data'' body) (str_fees R ''maker_fee_rate'' ''taker_fee_rate''))"

definition htx_fee :: "('d::linorder, 'f) fee_reader \<Rightarrow> string \<Rightarrow> 'f json \<Rightarrow> u64 option" where
  "htx_fee R k data =
     or_else (map_option (fee_f64 R) (get_number k data)) (map_option (bps_from_fraction_str R) (get_str k data))"

definition fetch_htx_fees :: "('d::linorder, 'f) fee_reader \<Rightarrow> 'f json \<Rightarrow> (u64 \<times> u64) option" where
  "fetch_htx_fees R body =
     Option.bind (json_get ''data'' body) (\<lambda>data. both (htx_fee R ''maker_fee'' data) (htx_fee R ''taker_fee'' data))"

text \<open>The second element of the first entry of an array; the taker fee defaults to the maker fee plus 26, which wraps.\<close>

definition kraken_fee :: "('d::linorder, 'f) fee_reader \<Rightarrow> string \<Rightarrow> 'f json \<Rightarrow> u64 option" where
  "kraken_fee R k result =
     map_option (bps_from_fraction_str R)
       (Option.bind (Option.bind (first_of (get_array k result)) (json_index 1)) as_str)"

definition fetch_kraken_fees :: "('d::linorder, 'f) fee_reader \<Rightarrow> 'f json \<Rightarrow> (u64 \<times> u64) option" where
  "fetch_kraken_fees R body =
     (case json_get ''result'' body of
        None \<Rightarrow> None
      | Some result \<Rightarrow>
          map_option (\<lambda>maker. (maker, unwrap_or (kraken_fee R ''fees'' result) (maker + 26))) (kraken_fee R ''fees_maker'' result))"

definition fetch_mexc_fees :: "('d::linorder, 'f) fee_reader \<Rightarrow> 'f json \<Rightarrow> (u64 \<times> u64) option" where
  "fetch_mexc_fees R body =
     or_else (both (field_u64 ''makerCommission'' body) (field_u64 ''takerCommission'' body))
       (case json_get ''data'' body of
          None \<Rightarrow> None
        | Some data \<Rightarrow>
            or_else (str_fees R ''makerFeeRate'' ''takerFeeRate'' data)
              (map_option (map_prod (fee_f64 R) (fee_f64 R)) (both (get_number ''makerFeeRate'' data) (get_number ''takerFeeRate'' data))))"

definition fetch_fees :: "('d::linorder, 'f) fee_reader \<Rightarrow> string \<Rightarrow> 'f json \<Rightarrow> (u64 \<times> u64) option" where
  "fetch_fees R name body =
     (if name = ''Binance'' then fetch_binance_fees body
      else if name = ''Bybit'' then fetch_bybit_fees R body
      else if name = ''OKX'' then fetch_okx_fees R body
      else if name = ''GateIO'' then fetch_gateio_fees R body
      else if name = ''KuCoin'' then fetch_kucoin_fees R body
      else if name = ''Bitget'' then fetch_bitget_fees R body
      else if name = ''BitMEX'' then fetch_bitmex_fees body
      else if name = ''Coinbase'' then fetch_coinbase_fees R body
      else if name = ''HTX'' then fetch_htx_fees R body
      else if name = ''Kraken'' then fetch_kraken_fees R body
      else if name = ''MEXC'' then fetch_mexc_fees R body
      else None)"

section \<open>The cache\<close>

datatype fee_source = FromApi | FromConfig | FromDefault

record cached_fees =
  maker_fee_bps :: u64
  taker_fee_bps :: u64
  fetched_at :: i64
  fee_source :: fee_source

record fee_manager =
  cached :: "(u16 \<times> cached_fees) list"
  config_fees :: "string \<Rightarrow> u64 option"

definition fee_manager_new :: "(string \<Rightarrow> u64 option) \<Rightarrow> fee_manager" where
  "fee_manager_new cfg = \<lparr>cached = [], config_fees = cfg\<rparr>"

definition exchange_default_fees :: "string \<Rightarrow> u64 \<times> u64" where
  "exchange_default_fees name =
     (if name = ''Coinbase'' then (40, 60) else if name = ''Kraken'' then (25, 40) else if name = ''BitMEX'' then (8, 8) else (10, 10))"

definition schedule_of :: "(string \<Rightarrow> u64 option) \<Rightarrow> string \<Rightarrow> i64 \<Rightarrow> (u64 \<times> u64) option \<Rightarrow> cached_fees" where
  "schedule_of cfg name now result =
     (let (m, t, src) = (case result of
            Some (m, t) \<Rightarrow> (m, t, FromApi)
          | None \<Rightarrow> (case cfg name of
                       Some fee \<Rightarrow> (fee, fee, FromConfig)
                     | None \<Rightarrow> (let (dm, dt) = exchange_default_fees name in (dm, dt, FromDefault))))
      in \<lparr>maker_fee_bps = m, taker_fee_bps = t, fetched_at = now, fee_source = src\<rparr>)"

text \<open>
  A round visits the keys of the client pool and then those of the addresses, so that an exchange with both is visited twice; each visit reads the clock and
  gets its own answer, \<open>None\<close> when the request failed.
\<close>

definition fetch_one :: "('d::linorder, 'f) fee_reader \<Rightarrow> fee_manager \<Rightarrow> u16 \<times> i64 \<times> 'f json option \<Rightarrow> fee_manager" where
  "fetch_one R m visit =
     (case visit of (i, now, answer) \<Rightarrow>
        let name = exchange_name_by_id i
        in m\<lparr>cached := hm_insert i (schedule_of (config_fees m) name now (Option.bind answer (fetch_fees R name))) (cached m)\<rparr>)"

definition fetch_all_fees :: "('d::linorder, 'f) fee_reader \<Rightarrow> (u16 \<times> i64 \<times> 'f json option) list \<Rightarrow> fee_manager \<Rightarrow> fee_manager" where
  "fetch_all_fees R visits m = foldl (fetch_one R) m visits"

definition fetch_ids :: "u16 list \<Rightarrow> u16 list \<Rightarrow> u16 list" where
  "fetch_ids pool_keys url_keys = pool_keys @ url_keys"

definition get_taker_fee_bps :: "u16 \<Rightarrow> fee_manager \<Rightarrow> u64" where
  "get_taker_fee_bps i m =
     (case map_of (cached m) i of
        Some s \<Rightarrow> taker_fee_bps s
      | None \<Rightarrow> unwrap_or (config_fees m (exchange_name_by_id i)) (snd (exchange_default_fees (exchange_name_by_id i))))"

definition get_maker_fee_bps :: "u16 \<Rightarrow> fee_manager \<Rightarrow> u64" where
  "get_maker_fee_bps i m =
     (case map_of (cached m) i of
        Some s \<Rightarrow> maker_fee_bps s
      | None \<Rightarrow> unwrap_or (config_fees m (exchange_name_by_id i)) (fst (exchange_default_fees (exchange_name_by_id i))))"

definition get_all_fees_summary :: "fee_manager \<Rightarrow> (u16 \<times> string \<times> u64 \<times> u64) list" where
  "get_all_fees_summary m = map (\<lambda>(i, s). (i, exchange_name_by_id i, maker_fee_bps s, taker_fee_bps s)) (cached m)"

definition snapshot_fees :: "fee_manager \<Rightarrow> u16 \<Rightarrow> cached_fees option" where
  "snapshot_fees m = map_of (cached m)"

definition refresh_periodically :: "('d::linorder, 'f) fee_reader \<Rightarrow> (u16 \<times> i64 \<times> 'f json option) list list \<Rightarrow> fee_manager \<Rightarrow> fee_manager" where
  "refresh_periodically R rounds m = foldl (\<lambda>m visits. fetch_all_fees R visits m) m rounds"

section \<open>What the engine reads\<close>

text \<open>The fees of an exchange when no answer is available, and those that an answer gives.\<close>

definition fallback_fees :: "(string \<Rightarrow> u64 option) \<Rightarrow> u16 \<Rightarrow> u64 \<times> u64" where
  "fallback_fees cfg i =
     (case cfg (exchange_name_by_id i) of Some fee \<Rightarrow> (fee, fee) | None \<Rightarrow> exchange_default_fees (exchange_name_by_id i))"

definition answered_fees :: "('d::linorder, 'f) fee_reader \<Rightarrow> u16 \<Rightarrow> 'f json option \<Rightarrow> (u64 \<times> u64) option" where
  "answered_fees R i answer = Option.bind answer (fetch_fees R (exchange_name_by_id i))"

definition fees_read :: "u16 \<Rightarrow> fee_manager \<Rightarrow> u64 \<times> u64" where
  "fees_read i m = (get_maker_fee_bps i m, get_taker_fee_bps i m)"

lemma fees_read_new: "fees_read i (fee_manager_new cfg) = fallback_fees cfg i"
  by (auto simp: fees_read_def get_maker_fee_bps_def get_taker_fee_bps_def fee_manager_new_def fallback_fees_def unwrap_or_def
      split: option.split)

lemma fees_read_fetch_one:
  "fees_read i (fetch_one R m (j, now, answer)) =
     (if i = j then unwrap_or (answered_fees R i answer) (fallback_fees (config_fees m) i) else fees_read i m)"
proof (cases "i = j")
  case True
  show ?thesis
  proof (cases "answered_fees R i answer")
    case None
    then show ?thesis using True
      by (auto simp: fees_read_def get_maker_fee_bps_def get_taker_fee_bps_def fetch_one_def map_of_hm_insert Let_def schedule_of_def
          answered_fees_def fallback_fees_def unwrap_or_def split: option.split prod.split)
  next
    case (Some mt)
    then show ?thesis using True
      by (cases mt) (auto simp: fees_read_def get_maker_fee_bps_def get_taker_fee_bps_def fetch_one_def map_of_hm_insert Let_def schedule_of_def
          answered_fees_def unwrap_or_def)
  qed
next
  case False
  then show ?thesis
    by (auto simp: fees_read_def get_maker_fee_bps_def get_taker_fee_bps_def fetch_one_def map_of_hm_insert Let_def split: option.split)
qed

lemma config_fees_fetch_one [simp]: "config_fees (fetch_one R m visit) = config_fees m"
  by (simp add: fetch_one_def Let_def split: prod.split)

text \<open>
  the fees the engine reads.  After any rounds of refreshing, the fees of an exchange are those of its last visit: what the answer says, or, when
  the request failed or the answer could not be read, the configured fee or the default; an exchange that was never visited has
  the configured fee or the default, so that a fee is always available.
\<close>

theorem fees_follow_last_visit:
  "fees_read i (refresh_periodically R rounds (fee_manager_new cfg)) =
     (case map_of (rev (concat rounds)) i of
        None \<Rightarrow> fallback_fees cfg i
      | Some (now, answer) \<Rightarrow> unwrap_or (answered_fees R i answer) (fallback_fees cfg i))"
proof -
  have flat: "refresh_periodically R rounds m = foldl (fetch_one R) m (concat rounds)" for m
    by (induction rounds arbitrary: m) (auto simp: refresh_periodically_def fetch_all_fees_def)
  have "fees_read i (foldl (fetch_one R) (fee_manager_new cfg) visits) =
     (case map_of (rev visits) i of
        None \<Rightarrow> fallback_fees cfg i
      | Some (now, answer) \<Rightarrow> unwrap_or (answered_fees R i answer) (fallback_fees cfg i))" for visits
  proof (induction visits rule: rev_induct)
    case Nil
    show ?case by (simp add: fees_read_new)
  next
    case (snoc v visits)
    obtain j now answer where v: "v = (j, now, answer)" by (cases v) auto
    have cfg: "config_fees (foldl (fetch_one R) m xs) = config_fees m" for m xs by (induction xs arbitrary: m) auto
    show ?case using snoc by (auto simp: v fees_read_fetch_one cfg fee_manager_new_def)
  qed
  then show ?thesis by (simp add: flat)
qed

text \<open>
  An exchange with a client and an address is visited twice in every round, so a good first answer is replaced by the fallback when the second
  request fails.
\<close>

lemma second_visit_replaces_answer:
  "fees_read i (fetch_all_fees R [(i, t1, Some body), (i, t2, None)] (fee_manager_new cfg)) = fallback_fees cfg i"
  by (simp add: fetch_all_fees_def fees_read_fetch_one answered_fees_def unwrap_or_def fee_manager_new_def)

text \<open>A fee that cannot be read counts as an answer of 10 basis points, below the default of the exchange.\<close>

lemma unreadable_fee_is_ten:
  assumes "\<And>s. fee_from_str R s = None" "\<And>s. fee_f64_str R s = None"
  shows "answered_fees R 8 (Some (JObject [(''maker_fee_rate'', JString x), (''taker_fee_rate'', JString y)])) = Some (10, 10)"
    "exchange_default_fees (exchange_name_by_id 8) = (40, 60)"
proof -
  have "bps_from_fraction_str R s = 10" for s
    using assms by (cases "strip_suffix CHR ''%'' (str_trim s)") (simp_all add: bps_from_fraction_str_def Let_def unwrap_or_def)
  then show "answered_fees R 8 (Some (JObject [(''maker_fee_rate'', JString x), (''taker_fee_rate'', JString y)])) = Some (10, 10)"
    by (simp add: answered_fees_def fetch_fees_def exchange_name_by_id_def get_at_def fetch_coinbase_fees_def str_fees_def both_def get_str_def
        json_get_def as_str_def or_else_def)
  show "exchange_default_fees (exchange_name_by_id 8) = (40, 60)"
    by (simp add: exchange_name_by_id_def get_at_def exchange_default_fees_def)
qed

end
