(* ===== verification/Report_Parsers.thy ===== *)
theory Report_Parsers
  imports Json_Values Decimal_Api "HOL-Library.Sublist"
begin

text \<open>
  Byte scanners of private feeds: the execution reports of \<^verbatim>\<open>src/src/order_feed.rs\<close> and the parsers of
  \<^verbatim>\<open>src/src/zero_copy_parser.rs\<close>.  A payload is the list of its bytes, which are ASCII, so that \<^verbatim>\<open>from_utf8\<close> succeeds; a position in it is the
  suffix that starts there.  Reading a byte behind the end panics.  Reading decimals and floats is an argument.
\<close>

section \<open>Execution reports\<close>

abbreviation QUOTE :: char where "QUOTE \<equiv> CHR 0x22"

record 'd report_scan =
  scan_token_id :: u16
  scan_trade_id :: string
  scan_balance :: 'd
  scan_is_report :: bool
  scan_symbol :: string
  scan_side :: string
  scan_filled_qty :: 'd
  scan_fill_price :: 'd

record 'd execution_report =
  report_token_id :: u16
  report_trade_id :: string
  report_balance :: 'd

record 'd full_execution_report = "'d execution_report" +
  report_symbol :: string
  report_side :: string
  report_filled_qty :: 'd
  report_fill_price :: 'd

definition report_init :: "'d \<Rightarrow> 'd report_scan" where
  "report_init zero = \<lparr>scan_token_id = 0, scan_trade_id = [], scan_balance = zero, scan_is_report = False, scan_symbol = [],
     scan_side = [], scan_filled_qty = zero, scan_fill_price = zero\<rparr>"

definition is_digit :: "char \<Rightarrow> bool" where
  "is_digit c \<longleftrightarrow> digit_value c \<noteq> None"

definition is_number_char :: "char \<Rightarrow> bool" where
  "is_number_char c \<longleftrightarrow> is_digit c \<or> c = CHR ''.''"

definition parse_u16 :: "string \<Rightarrow> u16 option" where
  "parse_u16 s = Option.bind (parse_u64 s) (\<lambda>n. if unat n < 2 ^ 16 then Some (ucast n) else None)"

definition REPORT_EVENT :: string where
  "REPORT_EVENT = QUOTE # ''executionReport'' @ [QUOTE]"

text \<open>\<^verbatim>\<open>payload[i]\<close>, and the step over an opening quote.\<close>

definition byte_at :: "string \<Rightarrow> char option" where
  "byte_at rest = (case rest of [] \<Rightarrow> None | c # _ \<Rightarrow> Some c)"

definition skip_quote :: "string \<Rightarrow> string option" where
  "skip_quote rest = map_option (\<lambda>c. if c = QUOTE then tl rest else rest) (byte_at rest)"

text \<open>The value of a key: the new state and the rest behind the value; \<open>None\<close> is a panic.\<close>

definition event_value :: "string \<Rightarrow> 'd report_scan \<Rightarrow> 'd report_scan \<times> string" where
  "event_value rest st =
     (if take 17 rest = REPORT_EVENT then (st\<lparr>scan_is_report := True\<rparr>, drop 17 rest) else (st, rest))"

definition trade_value :: "string \<Rightarrow> 'd report_scan \<Rightarrow> 'd report_scan \<times> string" where
  "trade_value rest st =
     (let ds = takeWhile is_digit rest
      in (st\<lparr>scan_trade_id := ds, scan_token_id := (case parse_u16 ds of None \<Rightarrow> scan_token_id st | Some v \<Rightarrow> v)\<rparr>,
          dropWhile is_digit rest))"

definition number_value ::
  "(string \<Rightarrow> 'd option) \<Rightarrow> ('d \<Rightarrow> 'd report_scan \<Rightarrow> 'd report_scan) \<Rightarrow> string \<Rightarrow> 'd report_scan \<Rightarrow> ('d report_scan \<times> string) option" where
  "number_value rd put rest st =
     map_option (\<lambda>r. let num = takeWhile is_number_char r
                     in (case (if num = [] then None else rd num) of None \<Rightarrow> st | Some v \<Rightarrow> put v st, dropWhile is_number_char r))
       (skip_quote rest)"

definition skip_string :: "string \<Rightarrow> string option" where
  "skip_string rest =
     map_option (\<lambda>c. if c = QUOTE then dropWhile (\<lambda>c. c \<noteq> QUOTE) (tl rest) else rest) (byte_at rest)"

definition text_value ::
  "(string \<Rightarrow> 'd report_scan \<Rightarrow> 'd report_scan) \<Rightarrow> string \<Rightarrow> 'd report_scan \<Rightarrow> ('d report_scan \<times> string) option" where
  "text_value put rest st =
     map_option (\<lambda>r. (put (takeWhile (\<lambda>c. c \<noteq> QUOTE) r) st, dropWhile (\<lambda>c. c \<noteq> QUOTE) r)) (skip_quote rest)"

definition basic_key :: "(string \<Rightarrow> 'd option) \<Rightarrow> char \<Rightarrow> string \<Rightarrow> 'd report_scan \<Rightarrow> ('d report_scan \<times> string) option" where
  "basic_key rd key rest st =
     (if key = CHR ''e'' then Some (event_value rest st)
      else if key = CHR ''t'' then Some (trade_value rest st)
      else if key = CHR ''B'' then number_value rd (\<lambda>v s. s\<lparr>scan_balance := v\<rparr>) rest st
      else if key = CHR ''s'' \<or> key = CHR ''S'' \<or> key = CHR ''l'' \<or> key = CHR ''L'' then map_option (Pair st) (skip_string rest)
      else Some (st, rest))"

definition full_key :: "(string \<Rightarrow> 'd option) \<Rightarrow> char \<Rightarrow> string \<Rightarrow> 'd report_scan \<Rightarrow> ('d report_scan \<times> string) option" where
  "full_key rd key rest st =
     (if key = CHR ''e'' then Some (event_value rest st)
      else if key = CHR ''t'' then Some (trade_value rest st)
      else if key = CHR ''B'' then number_value rd (\<lambda>v s. s\<lparr>scan_balance := v\<rparr>) rest st
      else if key = CHR ''s'' then text_value (\<lambda>v s. s\<lparr>scan_symbol := v\<rparr>) rest st
      else if key = CHR ''S'' then text_value (\<lambda>v s. s\<lparr>scan_side := v\<rparr>) rest st
      else if key = CHR ''l'' then number_value rd (\<lambda>v s. s\<lparr>scan_filled_qty := v\<rparr>) rest st
      else if key = CHR ''L'' then number_value rd (\<lambda>v s. s\<lparr>scan_fill_price := v\<rparr>) rest st
      else Some (st, rest))"

text \<open>
  The loop: a quote, one byte, a quote and a colon start a value; after it, and at every other byte, the scan moves on by one.  The guard
  on the length only serves the termination of the definition for handlers that would go backwards.
\<close>

function scan_keys :: "(char \<Rightarrow> string \<Rightarrow> 's \<Rightarrow> ('s \<times> string) option) \<Rightarrow> string \<Rightarrow> 's \<Rightarrow> 's option" where
  "scan_keys h [] st = Some st"
| "scan_keys h (c # cs) st =
     (case cs of
        key # c2 # c3 # rest \<Rightarrow>
          if c = QUOTE \<and> c2 = QUOTE \<and> c3 = CHR '':'' then
            (case h key rest st of
               None \<Rightarrow> None
             | Some (st', rest') \<Rightarrow> if length rest' \<le> length rest then scan_keys h (drop 1 rest') st' else None)
          else scan_keys h cs st
      | _ \<Rightarrow> scan_keys h cs st)"
  by pat_completeness auto
termination
  by (relation "measure (\<lambda>(h, s, st). length s)") auto

definition parse_execution_report_bytes :: "'d exec_decimal \<Rightarrow> (string \<Rightarrow> 'd option) \<Rightarrow> string \<Rightarrow> 'd execution_report option option" where
  "parse_execution_report_bytes D rd payload =
     map_option (\<lambda>st.
       if scan_is_report st \<and> scan_trade_id st \<noteq> [] \<and> scan_trade_id st \<noteq> ''0''
       then Some \<lparr>report_token_id = scan_token_id st, report_trade_id = scan_trade_id st, report_balance = scan_balance st\<rparr>
       else None)
       (scan_keys (basic_key rd) payload (report_init (dec_zero D)))"

definition parse_full_execution_report :: "'d exec_decimal \<Rightarrow> (string \<Rightarrow> 'd option) \<Rightarrow> string \<Rightarrow> 'd full_execution_report option option" where
  "parse_full_execution_report D rd payload =
     map_option (\<lambda>st.
       if scan_is_report st \<and> scan_symbol st \<noteq> []
       then Some \<lparr>report_token_id = scan_token_id st, report_trade_id = scan_trade_id st, report_balance = scan_balance st,
                  report_symbol = scan_symbol st, report_side = scan_side st, report_filled_qty = scan_filled_qty st,
                  report_fill_price = scan_fill_price st\<rparr>
       else None)
       (scan_keys (full_key rd) payload (report_init (dec_zero D)))"

section \<open>The parsers without copies\<close>

abbreviation MAX_INPUT_SIZE :: nat where "MAX_INPUT_SIZE \<equiv> 1048576"
abbreviation MAX_EXTRACTED_STRING_LEN :: nat where "MAX_EXTRACTED_STRING_LEN \<equiv> 256"
abbreviation MAX_EXTRACTED_NUM_LEN :: nat where "MAX_EXTRACTED_NUM_LEN \<equiv> 128"

record 'f fast_order_book_update =
  fast_symbol :: string
  fast_bid :: 'f
  fast_ask :: 'f

record 'f fast_report =
  fast_report_symbol :: string
  fast_balance :: 'f
  fast_status :: string

text \<open>\<^verbatim>\<open>str::find\<close>: the text before the first occurrence and the text behind it.\<close>

fun split_at :: "string \<Rightarrow> string \<Rightarrow> (string \<times> string) option" where
  "split_at pat [] = (if pat = [] then Some ([], []) else None)"
| "split_at pat (c # cs) =
     (if is_prefix_of pat (c # cs) then Some ([], drop (length pat) (c # cs))
      else map_option (apfst (Cons c)) (split_at pat cs))"

definition key_pattern :: "string \<Rightarrow> string" where
  "key_pattern key = QUOTE # key @ [QUOTE]"

definition is_ascii_ws :: "char \<Rightarrow> bool" where
  "is_ascii_ws c \<longleftrightarrow> (let n = of_char c :: nat in n = 32 \<or> n = 9 \<or> n = 10 \<or> n = 12 \<or> n = 13)"

definition opens_key :: "char \<Rightarrow> bool" where
  "opens_key c \<longleftrightarrow> c = CHR '','' \<or> c = CHR ''{'' \<or> c = CHR ''['' \<or> c = CHR '':'' \<or> is_ascii_ws c"

text \<open>Both extractors accept only the first occurrence of the key, and only when what stands around it marks a whole key.\<close>

definition after_key :: "string \<Rightarrow> string \<Rightarrow> string option" where
  "after_key text' key =
     (case split_at (key_pattern key) text' of
        None \<Rightarrow> None
      | Some (before, after) \<Rightarrow>
          if before \<noteq> [] \<and> \<not> opens_key (last before) then None
          else (case after of
                  [] \<Rightarrow> None
                | c # _ \<Rightarrow> if c \<noteq> CHR '':'' \<and> \<not> is_ascii_ws c then None else Some after))"

definition extract_string_value :: "string \<Rightarrow> string \<Rightarrow> string option" where
  "extract_string_value text' key =
     Option.bind (after_key text' key) (\<lambda>after.
       Option.bind (split_at [QUOTE] after) (\<lambda>(_, after_quote).
         Option.bind (split_at [QUOTE] after_quote) (\<lambda>(val, _).
           if MAX_EXTRACTED_STRING_LEN < length val then None else Some val)))"

fun number_prefix :: "nat \<Rightarrow> string \<Rightarrow> string option" where
  "number_prefix i [] = Some []"
| "number_prefix i (c # cs) =
     (if MAX_EXTRACTED_NUM_LEN \<le> i then None
      else if i = 0 \<and> c = CHR ''-'' \<or> is_digit c \<or> c = CHR ''.'' \<or> c = CHR ''e'' \<or> c = CHR ''E'' \<or> c = CHR ''+''
      then map_option (Cons c) (number_prefix (Suc i) cs)
      else Some [])"

definition extract_number_value :: "(string \<Rightarrow> 'f option) \<Rightarrow> string \<Rightarrow> string \<Rightarrow> 'f option" where
  "extract_number_value read_f64 text' key =
     Option.bind (after_key text' key) (\<lambda>after.
       Option.bind (split_at '':'' after) (\<lambda>(_, after_colon).
         Option.bind (number_prefix 0 (dropWhile is_ascii_ws after_colon)) read_f64))"

definition zc_parse_raw_bytes_fast :: "(string \<Rightarrow> 'f option) \<Rightarrow> string \<Rightarrow> 'f fast_order_book_update option" where
  "zc_parse_raw_bytes_fast read_f64 payload =
     (if MAX_INPUT_SIZE < length payload then None
      else case extract_string_value payload ''t'' of
             None \<Rightarrow> None
           | Some symbol \<Rightarrow>
               (case (extract_number_value read_f64 payload ''b'', extract_number_value read_f64 payload ''a'') of
                  (Some bid, Some ask) \<Rightarrow> Some \<lparr>fast_symbol = symbol, fast_bid = bid, fast_ask = ask\<rparr>
                | _ \<Rightarrow> None))"

definition parse_execution_report_bytes_simulated :: "'f \<Rightarrow> (string \<Rightarrow> 'f option) \<Rightarrow> string \<Rightarrow> 'f fast_report option" where
  "parse_execution_report_bytes_simulated zero_f64 read_f64 payload =
     (if MAX_INPUT_SIZE < length payload then None
      else map_option (\<lambda>symbol.
             \<lparr>fast_report_symbol = symbol,
              fast_balance = unwrap_or (or_else (extract_number_value read_f64 payload ''B'') (extract_number_value read_f64 payload ''bal'')) zero_f64,
              fast_status = unwrap_or (extract_string_value payload ''X'') ''UNKNOWN''\<rparr>)
             (extract_string_value payload ''t''))"

section \<open>Scanning\<close>

lemma scan_other: "c \<noteq> QUOTE \<Longrightarrow> scan_keys h (c # cs) st = scan_keys h cs st"
  by (auto split: list.split)

lemma scan_others: "\<forall>c \<in> set pre. c \<noteq> QUOTE \<Longrightarrow> scan_keys h (pre @ rest) st = scan_keys h rest st"
  by (induction pre) (auto simp: scan_other simp del: scan_keys.simps)

lemma scan_key:
  "h key rest st = Some (st', rest') \<Longrightarrow> length rest' \<le> length rest \<Longrightarrow>
   scan_keys h (QUOTE # key # QUOTE # CHR '':'' # rest) st = scan_keys h (drop 1 rest') st'"
  by simp

declare scan_keys.simps(2) [simp del]

text \<open>What a handler leaves is a suffix of what it got, and it panics only at the end of the payload.\<close>

definition forward :: "string \<Rightarrow> ('s \<times> string) option \<Rightarrow> bool" where
  "forward rest r \<longleftrightarrow> (case r of None \<Rightarrow> rest = [] | Some (st', rest') \<Rightarrow> suffix rest' rest)"

lemma skip_quote_suffix: "case skip_quote rest of None \<Rightarrow> rest = [] | Some r \<Rightarrow> suffix r rest"
  by (auto simp: skip_quote_def byte_at_def split: list.split intro: suffix_ConsI)

lemma number_value_forward [simp]: "forward rest (number_value rd put rest st)"
  using skip_quote_suffix [of rest]
  by (auto simp: forward_def number_value_def Let_def split: option.splits intro: suffix_order.trans [OF suffix_dropWhile])

lemma text_value_forward [simp]: "forward rest (text_value put rest st)"
  using skip_quote_suffix [of rest]
  by (auto simp: forward_def text_value_def split: option.splits intro: suffix_order.trans [OF suffix_dropWhile])

lemma skip_string_forward [simp]: "forward rest (map_option (Pair st) (skip_string rest))"
  by (cases rest) (auto simp: forward_def skip_string_def byte_at_def intro: suffix_ConsI suffix_dropWhile)

lemma some_forward [simp]: "forward rest (Some (event_value rest st))" "forward rest (Some (trade_value rest st))" "forward rest (Some (st, rest))"
  by (auto simp: forward_def event_value_def trade_value_def Let_def suffix_drop suffix_dropWhile)

lemma basic_key_forward: "forward rest (basic_key rd key rest st)"
  unfolding basic_key_def by simp

lemma full_key_forward: "forward rest (full_key rd key rest st)"
  unfolding full_key_def by simp

lemma scan_skip:
  "\<nexists>key rest. c # cs = QUOTE # key # QUOTE # CHR '':'' # rest \<Longrightarrow> scan_keys h (c # cs) st = scan_keys h cs st"
  by (auto simp: scan_keys.simps(2) split: list.split)

definition cut_off :: "string \<Rightarrow> bool" where
  "cut_off payload \<longleftrightarrow> suffix [QUOTE, CHR '':''] payload"

lemma scan_total:
  assumes "\<And>key rest st. forward rest (h key rest st)"
  shows "\<not> cut_off payload \<Longrightarrow> scan_keys h payload st \<noteq> None"
proof (induction payload arbitrary: st rule: length_induct)
  case (1 payload)
  have IH: "scan_keys h s st \<noteq> None" if "suffix s payload" "s \<noteq> payload" for s st
  proof -
    have "length s < length payload" using that by (metis suffix_length_less strict_suffix_def)
    moreover have "\<not> cut_off s" using 1(2) that(1) unfolding cut_off_def by (meson suffix_order.trans)
    ultimately show ?thesis using 1(1) by blast
  qed
  show ?case
  proof (cases "\<exists>key rest. payload = QUOTE # key # QUOTE # CHR '':'' # rest")
    case True
    then obtain key rest where pl: "payload = QUOTE # key # QUOTE # CHR '':'' # rest" by auto
    have "rest \<noteq> []"
    proof
      assume "rest = []"
      then have "payload = [QUOTE, key] @ [QUOTE, CHR '':'']" by (simp add: pl)
      then show False using 1(2) unfolding cut_off_def by (metis suffixI)
    qed
    moreover note assms [of rest key st]
    ultimately obtain st' rest' where h: "h key rest st = Some (st', rest')" "suffix rest' rest"
      by (auto simp: forward_def split: option.splits)
    have "suffix (drop 1 rest') rest" using h(2) suffix_drop suffix_order.trans by blast
    then have "suffix (drop 1 rest') payload" "drop 1 rest' \<noteq> payload"
      unfolding pl by (auto intro!: suffix_ConsI dest: suffix_length_le)
    from IH [OF this] show ?thesis
      using scan_key [where h = h and st' = st' and rest' = rest', OF h(1) suffix_length_le [OF h(2)]] by (simp add: pl)
  next
    case False
    show ?thesis
    proof (cases payload)
      case (Cons c cs)
      then have "scan_keys h payload st = scan_keys h cs st" using False scan_skip [of c cs h st] by simp
      moreover have "scan_keys h cs st \<noteq> None" by (rule IH) (auto simp: Cons intro: suffix_ConsI)
      ultimately show ?thesis by simp
    qed simp
  qed
qed

text \<open>
  the scanner of execution reports panics only on a message that was cut off behind a key: when the payload does not end with a quote and a
  colon, both parsers return, with a report or without one, whatever else the bytes are.
\<close>

theorem report_parsers_total:
  assumes "\<not> cut_off payload"
  shows "parse_execution_report_bytes D rd payload \<noteq> None \<and> parse_full_execution_report D rd payload \<noteq> None"
  using scan_total [OF basic_key_forward assms] scan_total [OF full_key_forward assms]
  by (auto simp: parse_execution_report_bytes_def parse_full_execution_report_def)

theorem report_parsers_total_witness:
  "parse_execution_report_bytes int_exec (\<lambda>_. None) ''garbage'' \<noteq> None"
proof -
  have "\<not> cut_off ''garbage''" by (simp add: cut_off_def suffix_def)
  from report_parsers_total [OF this, of int_exec "\<lambda>_. None"] show ?thesis by blast
qed

text \<open>A message that ends behind such a key does panic, for example where a connection breaks off.\<close>

lemma cut_off_report_panics:
  assumes "\<forall>c \<in> set pre. c \<noteq> QUOTE" "key \<in> {CHR ''B'', CHR ''s'', CHR ''S'', CHR ''l'', CHR ''L''}"
  shows "parse_execution_report_bytes D rd (pre @ [QUOTE, key, QUOTE, CHR '':'']) = None"
    "parse_full_execution_report D rd (pre @ [QUOTE, key, QUOTE, CHR '':'']) = None"
proof -
  have "basic_key rd key [] st = None" "full_key rd key [] st = None" for st
    using assms(2) by (auto simp: basic_key_def full_key_def number_value_def text_value_def skip_quote_def skip_string_def byte_at_def)
  then show "parse_execution_report_bytes D rd (pre @ [QUOTE, key, QUOTE, CHR '':'']) = None"
    "parse_full_execution_report D rd (pre @ [QUOTE, key, QUOTE, CHR '':'']) = None"
    by (simp_all add: parse_execution_report_bytes_def parse_full_execution_report_def scan_others [OF assms(1)] scan_keys.simps(2))
qed

section \<open>Round trip of a report\<close>

definition field :: "char \<Rightarrow> string \<Rightarrow> string" where
  "field key val = QUOTE # key # QUOTE # CHR '':'' # val"

definition quoted :: "string \<Rightarrow> string" where
  "quoted s = QUOTE # s @ [QUOTE]"

definition report_frame :: "string \<Rightarrow> string \<Rightarrow> string \<Rightarrow> string \<Rightarrow> string \<Rightarrow> string \<Rightarrow> string" where
  "report_frame tid bal symbol sd qty price =
     ''{'' @ field CHR ''e'' REPORT_EVENT @ '','' @ field CHR ''t'' tid @ '','' @ field CHR ''B'' (quoted bal) @ '','' @
     field CHR ''s'' (quoted symbol) @ '','' @ field CHR ''S'' (quoted sd) @ '','' @ field CHR ''l'' (quoted qty) @ '','' @
     field CHR ''L'' (quoted price) @ ''}''"

lemma field_append: "field key val @ rest = QUOTE # key # QUOTE # CHR '':'' # (val @ rest)"
  by (simp add: field_def)

lemma takeWhile_field: "\<forall>c \<in> set v. P c \<Longrightarrow> \<not> P d \<Longrightarrow> takeWhile P (v @ d # rest) = v \<and> dropWhile P (v @ d # rest) = d # rest"
  by (induction v) auto

lemma number_field:
  assumes "\<forall>c \<in> set v. is_number_char c" "v \<noteq> []" "rd v = Some x"
  shows "number_value rd put (quoted v @ rest) st = Some (put x st, QUOTE # rest)"
proof -
  have "\<not> is_number_char QUOTE" by (simp add: is_number_char_def is_digit_def digit_value_def)
  from takeWhile_field [OF assms(1) this, of rest] show ?thesis
    using assms(2,3) by (simp add: number_value_def quoted_def skip_quote_def byte_at_def Let_def)
qed

lemma text_field:
  assumes "\<forall>c \<in> set v. c \<noteq> QUOTE"
  shows "text_value put (quoted v @ rest) st = Some (put v st, QUOTE # rest)"
  using takeWhile_field [where P = "\<lambda>c. c \<noteq> QUOTE", OF assms, of QUOTE rest]
  by (simp add: text_value_def quoted_def skip_quote_def byte_at_def)

lemma trade_field:
  assumes "\<forall>c \<in> set v. is_digit c"
  shows "trade_value (v @ CHR '','' # rest) st =
    (st\<lparr>scan_trade_id := v, scan_token_id := (case parse_u16 v of None \<Rightarrow> scan_token_id st | Some w \<Rightarrow> w)\<rparr>, CHR '','' # rest)"
proof -
  have "\<not> is_digit CHR '',''" by (simp add: is_digit_def digit_value_def)
  from takeWhile_field [OF assms this, of rest] show ?thesis by (simp add: trade_value_def Let_def)
qed

lemma event_field: "event_value (REPORT_EVENT @ rest) st = (st\<lparr>scan_is_report := True\<rparr>, rest)"
proof -
  have "length REPORT_EVENT = 17" by (simp add: REPORT_EVENT_def)
  then show ?thesis by (simp add: event_value_def)
qed

text \<open>A scanned field: the handler reads its value, and the scan goes on behind the delimiter.\<close>

lemma scan_field:
  assumes "h key (val @ rest) st = Some (st', d # rest')" "suffix (d # rest') (val @ rest)"
  shows "scan_keys h (field key val @ rest) st = scan_keys h rest' st'"
  using scan_key [where h = h and key = key and rest = "val @ rest" and st = st and st' = st' and rest' = "d # rest'", OF assms(1) suffix_length_le [OF assms(2)]]
  by (simp add: field_append)

lemma scan_quoted_field:
  assumes "h key (quoted v @ CHR '','' # rest) st = Some (st', QUOTE # CHR '','' # rest)"
  shows "scan_keys h (field key (quoted v) @ CHR '','' # rest) st = scan_keys h rest st'"
proof -
  have "suffix (QUOTE # CHR '','' # rest) (quoted v @ CHR '','' # rest)" by (auto simp: quoted_def suffix_def)
  from scan_field [where h = h, OF assms this] show ?thesis by (simp add: scan_other)
qed

text \<open>
  C24: a well-formed execution report is read back.  The full parser returns the trade identifier, the balance, the symbol, the side, the filled
  quantity and the fill price of a frame exactly; the short token identifier is the trade identifier when it fits into 16 bits and 0 otherwise.
\<close>

theorem report_roundtrip:
  assumes "\<forall>c \<in> set tid. is_digit c" "symbol \<noteq> []" "\<forall>c \<in> set symbol. c \<noteq> QUOTE" "\<forall>c \<in> set sd. c \<noteq> QUOTE"
    and nums: "\<And>v. v \<in> {bal, qty, price} \<Longrightarrow> v \<noteq> [] \<and> (\<forall>c \<in> set v. is_number_char c)"
    and "rd bal = Some b" "rd qty = Some q" "rd price = Some p"
  shows "parse_full_execution_report D rd (report_frame tid bal symbol sd qty price) =
    Some (Some \<lparr>report_token_id = (case parse_u16 tid of None \<Rightarrow> 0 | Some w \<Rightarrow> w), report_trade_id = tid, report_balance = b,
      report_symbol = symbol, report_side = sd, report_filled_qty = q, report_fill_price = p\<rparr>)"
proof -
  let ?h = "full_key rd" and ?st = "report_init (dec_zero D)"
  have e: "scan_keys ?h (field CHR ''e'' REPORT_EVENT @ CHR '','' # rest) st = scan_keys ?h rest (st\<lparr>scan_is_report := True\<rparr>)" for rest st
    by (rule scan_field [where h = ?h and d = "CHR '',''"]) (simp_all add: full_key_def event_field suffix_def)
  have t: "scan_keys ?h (field CHR ''t'' tid @ CHR '','' # rest) st =
      scan_keys ?h rest (st\<lparr>scan_trade_id := tid, scan_token_id := (case parse_u16 tid of None \<Rightarrow> scan_token_id st | Some w \<Rightarrow> w)\<rparr>)" for rest st
    by (rule scan_field [where h = ?h and d = "CHR '',''"]) (simp_all add: full_key_def trade_field [OF assms(1)] suffix_def)
  have B: "scan_keys ?h (field CHR ''B'' (quoted bal) @ CHR '','' # rest) st = scan_keys ?h rest (st\<lparr>scan_balance := b\<rparr>)" for rest st
    by (rule scan_quoted_field) (use nums [of bal] assms(6) in \<open>simp add: full_key_def number_field\<close>)
  have s: "scan_keys ?h (field CHR ''s'' (quoted symbol) @ CHR '','' # rest) st = scan_keys ?h rest (st\<lparr>scan_symbol := symbol\<rparr>)" for rest st
    by (rule scan_quoted_field) (simp add: full_key_def text_field [OF assms(3)])
  have S: "scan_keys ?h (field CHR ''S'' (quoted sd) @ CHR '','' # rest) st = scan_keys ?h rest (st\<lparr>scan_side := sd\<rparr>)" for rest st
    by (rule scan_quoted_field) (simp add: full_key_def text_field [OF assms(4)])
  have l: "scan_keys ?h (field CHR ''l'' (quoted qty) @ CHR '','' # rest) st = scan_keys ?h rest (st\<lparr>scan_filled_qty := q\<rparr>)" for rest st
    by (rule scan_quoted_field) (use nums [of qty] assms(7) in \<open>simp add: full_key_def number_field\<close>)
  have "?h CHR ''L'' (quoted price @ ''}'') st = Some (st\<lparr>scan_fill_price := p\<rparr>, QUOTE # ''}'')" for st
    using nums [of price] assms(8) by (simp add: full_key_def number_field)
  then have L: "scan_keys ?h (field CHR ''L'' (quoted price) @ ''}'') st = scan_keys ?h ''}'' (st\<lparr>scan_fill_price := p\<rparr>)" for st
    by (rule scan_field [where h = ?h]) (simp add: quoted_def suffix_def)
  have "scan_keys ?h (report_frame tid bal symbol sd qty price) ?st =
    Some (?st\<lparr>scan_is_report := True, scan_trade_id := tid, scan_token_id := (case parse_u16 tid of None \<Rightarrow> 0 | Some w \<Rightarrow> w), scan_balance := b,
      scan_symbol := symbol, scan_side := sd, scan_filled_qty := q, scan_fill_price := p\<rparr>)"
    unfolding report_frame_def by (simp add: scan_other e t B s S l L report_init_def split: option.split)
  then show ?thesis using assms(2) by (simp add: parse_full_execution_report_def report_init_def)
qed

theorem report_roundtrip_witness:
  "\<exists>r. parse_full_execution_report int_exec (\<lambda>v. if v = ''25.5'' then Some 25 else Some 1)
     (report_frame ''70000'' ''25.5'' ''BTCUSDT'' ''BUY'' ''3'' ''0.5'') = Some (Some r) \<and> report_token_id r = 0 \<and> report_balance r = 25"
proof -
  let ?rd = "\<lambda>v. if v = ''25.5'' then Some 25 else Some (1::int)"
  note ev = is_number_char_def is_digit_def digit_value_def
  have id: "parse_u16 ''70000'' = None" by (simp add: parse_u16_def parse_u64_def digit_value_def)
  have "parse_full_execution_report int_exec ?rd (report_frame ''70000'' ''25.5'' ''BTCUSDT'' ''BUY'' ''3'' ''0.5'') =
    Some (Some \<lparr>report_token_id = (case parse_u16 ''70000'' of None \<Rightarrow> 0 | Some w \<Rightarrow> w), report_trade_id = ''70000'', report_balance = 25,
      report_symbol = ''BTCUSDT'', report_side = ''BUY'', report_filled_qty = 1, report_fill_price = 1\<rparr>)"
    by (rule report_roundtrip) (auto simp: ev)
  then show ?thesis by (simp add: id)
qed

text \<open>A number with a negative exponent is cut behind its e, although the comment speaks of scientific notation.\<close>

lemma negative_exponent_cut: "number_prefix 0 ''1e-5'' = Some ''1e''"
  by (simp add: is_digit_def digit_value_def)

end
