(* ===== verification/Book_Stores.thy ===== *)
theory Book_Stores
  imports Decimal_Api
begin

text \<open>
  Two further stores of prices: the levels under a sequence lock and the fixed-size book of \<^verbatim>\<open>src/src/atomic_orderbook.rs\<close>, and the matrix
  and the exchange masks of \<^verbatim>\<open>src/src/market_arena.rs\<close>.  The accesses of a level are interleaved one atomic operation at a time.
\<close>

section \<open>Atomic levels\<close>

abbreviation MAX_BOOK_DEPTH :: nat where "MAX_BOOK_DEPTH \<equiv> 50"

record atomic_level =
  lv_price :: u64
  lv_quantity :: u64
  lv_version :: u64

definition level_new :: atomic_level where
  "level_new = \<lparr>lv_price = 0, lv_quantity = 0, lv_version = 0\<rparr>"

definition level_to_fp :: "'d::linorder exec_decimal \<Rightarrow> 'd \<Rightarrow> u64" where
  "level_to_fp D d =
     (let scaled = dec_mul D d (dec_from_int D 1000000000)
      in if dec_zero D \<le> scaled then (case dec_to_u64 D scaled of Some fp \<Rightarrow> fp | None \<Rightarrow> - 1) else 0)"

definition level_of_fp :: "'d exec_decimal \<Rightarrow> u64 \<Rightarrow> 'd" where
  "level_of_fp D fp = dec_div D (dec_from_int D (uint fp)) (dec_from_int D 1000000000)"

text \<open>A store that no other thread interrupts.\<close>

definition level_put :: "u64 \<Rightarrow> u64 \<Rightarrow> atomic_level \<Rightarrow> atomic_level" where
  "level_put p qt l =
     (let v = lv_version l;
          l = l\<lparr>lv_version := v + 1\<rparr>;
          l = l\<lparr>lv_price := p\<rparr>;
          l = l\<lparr>lv_quantity := qt\<rparr>
      in l\<lparr>lv_version := v + 2\<rparr>)"

definition level_store :: "'d::linorder exec_decimal \<Rightarrow> 'd \<Rightarrow> 'd \<Rightarrow> atomic_level \<Rightarrow> atomic_level" where
  "level_store D price quantity l = level_put (level_to_fp D price) (level_to_fp D quantity) l"

definition level_clear :: "atomic_level \<Rightarrow> atomic_level" where
  "level_clear l = level_put 0 0 l"

text \<open>
  The loop of a read, over the levels it finds in its rounds: in each round the level at the first load of the version, at the loads of
  price and quantity, and at the second load.  \<open>None\<close> says that the rounds ended before the loop returned.
\<close>

fun level_load :: "'d exec_decimal \<Rightarrow> (atomic_level \<times> atomic_level \<times> atomic_level \<times> atomic_level) list \<Rightarrow> ('d \<times> 'd) option" where
  "level_load D [] = None"
| "level_load D ((l1, lp, lq, l2) # rounds) =
     (if lv_version l1 AND 1 \<noteq> 0 then level_load D rounds
      else if lv_version l1 = lv_version l2 then Some (level_of_fp D (lv_price lp), level_of_fp D (lv_quantity lq))
      else level_load D rounds)"

text \<open>A read without interference.\<close>

definition level_get :: "'d exec_decimal \<Rightarrow> atomic_level \<Rightarrow> 'd \<times> 'd" where
  "level_get D l = (level_of_fp D (lv_price l), level_of_fp D (lv_quantity l))"

lemma level_load_quiet: "lv_version l AND 1 = 0 \<Longrightarrow> level_load D [(l, l, l, l)] = Some (level_get D l)"
  by (simp add: level_get_def)

section \<open>The fixed-size book\<close>

record fixed_order_book =
  book_asks :: "atomic_level list"
  book_bids :: "atomic_level list"

definition fixed_book_new :: fixed_order_book where
  "fixed_book_new = \<lparr>book_asks = replicate MAX_BOOK_DEPTH level_new, book_bids = replicate MAX_BOOK_DEPTH level_new\<rparr>"

definition fixed_best_ask :: "'d exec_decimal \<Rightarrow> fixed_order_book \<Rightarrow> 'd \<times> 'd" where
  "fixed_best_ask D b = level_get D (book_asks b ! 0)"

definition fixed_best_bid :: "'d exec_decimal \<Rightarrow> fixed_order_book \<Rightarrow> 'd \<times> 'd" where
  "fixed_best_bid D b = level_get D (book_bids b ! 0)"

definition mid_price :: "'d::linorder exec_decimal \<Rightarrow> fixed_order_book \<Rightarrow> 'd option" where
  "mid_price D b =
     (let bid = fst (fixed_best_bid D b); ask = fst (fixed_best_ask D b)
      in if dec_zero D < bid \<and> dec_zero D < ask then Some (dec_div D (dec_add D bid ask) (dec_from_int D 2)) else None)"

definition book_spread :: "'d::linorder exec_decimal \<Rightarrow> fixed_order_book \<Rightarrow> 'd option" where
  "book_spread D b =
     (let bid = fst (fixed_best_bid D b); ask = fst (fixed_best_ask D b)
      in if dec_zero D < bid \<and> dec_zero D < ask \<and> bid < ask then Some (dec_sub D ask bid) else None)"

definition book_spread_bps :: "'d::linorder exec_decimal \<Rightarrow> fixed_order_book \<Rightarrow> 'd option" where
  "book_spread_bps D b =
     (let bid = fst (fixed_best_bid D b); ask = fst (fixed_best_ask D b); mid = dec_div D (dec_add D bid ask) (dec_from_int D 2)
      in if dec_zero D < mid \<and> bid < ask then Some (dec_mul D (dec_div D (dec_sub D ask bid) mid) (dec_from_int D 10000)) else None)"

definition book_clear_all :: "fixed_order_book \<Rightarrow> fixed_order_book" where
  "book_clear_all b = b\<lparr>book_asks := map level_clear (book_asks b), book_bids := map level_clear (book_bids b)\<rparr>"

text \<open>\<open>side_notional\<close> sums until the first level without a price.\<close>

fun side_notional :: "'d::linorder exec_decimal \<Rightarrow> atomic_level list \<Rightarrow> 'd \<Rightarrow> 'd" where
  "side_notional D [] tot = tot"
| "side_notional D (l # ls) tot =
     (let (price, qty) = level_get D l
      in if price \<le> dec_zero D then tot else side_notional D ls (dec_add D tot (dec_mul D price qty)))"

definition ask_notional :: "'d::linorder exec_decimal \<Rightarrow> nat \<Rightarrow> fixed_order_book \<Rightarrow> 'd" where
  "ask_notional D max_levels b = side_notional D (take (min max_levels MAX_BOOK_DEPTH) (book_asks b)) (dec_zero D)"

definition bid_notional :: "'d::linorder exec_decimal \<Rightarrow> nat \<Rightarrow> fixed_order_book \<Rightarrow> 'd" where
  "bid_notional D max_levels b = side_notional D (take (min max_levels MAX_BOOK_DEPTH) (book_bids b)) (dec_zero D)"

section \<open>Writers and readers of one level\<close>

text \<open>
  The atomic operations of \<^verbatim>\<open>store\<close> (and \<^verbatim>\<open>clear\<close>, which stores zeros) and of \<^verbatim>\<open>load\<close>, each a step of its thread.  The history lists the
  pairs whose stores are complete, the initial pair first.
\<close>

datatype writer_pc = WIdle | WBumped u64 u64 u64 | WPriced u64 u64 u64 | WQuantified u64 u64 u64
datatype reader_pc = RIdle | RVersion u64 | RPrice u64 u64 | RBoth u64 u64 u64 | RGot u64 u64

record level_state =
  lv :: atomic_level
  writers :: "nat \<Rightarrow> writer_pc"
  reader_of :: "nat \<Rightarrow> reader_pc"
  history :: "(u64 \<times> u64) list"

definition level_init :: level_state where
  "level_init = \<lparr>lv = level_new, writers = (\<lambda>_. WIdle), reader_of = (\<lambda>_. RIdle), history = [(0, 0)]\<rparr>"

inductive level_step :: "nat set \<Rightarrow> level_state \<Rightarrow> level_state \<Rightarrow> bool" for W where
  bump: "t \<in> W \<Longrightarrow> writers s t = WIdle \<Longrightarrow>
    level_step W s (s\<lparr>lv := (lv s)\<lparr>lv_version := lv_version (lv s) + 1\<rparr>, writers := (writers s)(t := WBumped (lv_version (lv s)) p qt)\<rparr>)"
| price: "writers s t = WBumped v p qt \<Longrightarrow>
    level_step W s (s\<lparr>lv := (lv s)\<lparr>lv_price := p\<rparr>, writers := (writers s)(t := WPriced v p qt)\<rparr>)"
| quantity: "writers s t = WPriced v p qt \<Longrightarrow>
    level_step W s (s\<lparr>lv := (lv s)\<lparr>lv_quantity := qt\<rparr>, writers := (writers s)(t := WQuantified v p qt)\<rparr>)"
| publish: "writers s t = WQuantified v p qt \<Longrightarrow>
    level_step W s (s\<lparr>lv := (lv s)\<lparr>lv_version := v + 2\<rparr>, writers := (writers s)(t := WIdle), history := history s @ [(p, qt)]\<rparr>)"
| read_version: "lv_version (lv s) AND 1 = 0 \<Longrightarrow>
    level_step W s (s\<lparr>reader_of := (reader_of s)(t := RVersion (lv_version (lv s)))\<rparr>)"
| read_price: "reader_of s t = RVersion v \<Longrightarrow>
    level_step W s (s\<lparr>reader_of := (reader_of s)(t := RPrice v (lv_price (lv s)))\<rparr>)"
| read_quantity: "reader_of s t = RPrice v p \<Longrightarrow>
    level_step W s (s\<lparr>reader_of := (reader_of s)(t := RBoth v p (lv_quantity (lv s)))\<rparr>)"
| accept: "reader_of s t = RBoth v p qt \<Longrightarrow> lv_version (lv s) = v \<Longrightarrow>
    level_step W s (s\<lparr>reader_of := (reader_of s)(t := RGot p qt)\<rparr>)"
| retry: "reader_of s t = RBoth v p qt \<Longrightarrow> lv_version (lv s) \<noteq> v \<Longrightarrow>
    level_step W s (s\<lparr>reader_of := (reader_of s)(t := RIdle)\<rparr>)"

inductive level_reachable :: "nat set \<Rightarrow> level_state \<Rightarrow> bool" for W where
  start: "level_reachable W level_init"
| step: "level_reachable W s \<Longrightarrow> level_step W s s' \<Longrightarrow> level_reachable W s'"

inductive_cases level_stepE: "level_step W s s'"

section \<open>The matrix of prices\<close>

record matrix_entry =
  st_bid :: u64
  st_ask :: u64
  st_timestamp_ms :: u64
  st_sequence :: u64

definition state_default :: matrix_entry where
  "state_default = \<lparr>st_bid = 0, st_ask = 0, st_timestamp_ms = 0, st_sequence = 0\<rparr>"

definition state_new :: "u64 \<Rightarrow> u64 \<Rightarrow> u64 \<Rightarrow> matrix_entry" where
  "state_new now bid ask = \<lparr>st_bid = bid, st_ask = ask, st_timestamp_ms = now, st_sequence = 0\<rparr>"

definition mid_price_fp :: "matrix_entry \<Rightarrow> u64" where
  "mid_price_fp s = saturating_add (st_bid s) (st_ask s) div 2"

definition spread_fp :: "matrix_entry \<Rightarrow> u64" where
  "spread_fp s = saturating_sub (st_ask s) (st_bid s)"

record exchange_target =
  target_name :: string
  exchange_mask :: u64
  target_token :: usize

definition target_new :: "string \<Rightarrow> usize \<Rightarrow> exchange_target" where
  "target_new symbol i = \<lparr>target_name = to_uppercase symbol, exchange_mask = 0, target_token = i\<rparr>"

definition add_exchange :: "u16 \<Rightarrow> exchange_target \<Rightarrow> exchange_target" where
  "add_exchange e t = (if e < 64 then t\<lparr>exchange_mask := exchange_mask t OR push_bit (unat e) 1\<rparr> else t)"

definition remove_exchange :: "u16 \<Rightarrow> exchange_target \<Rightarrow> exchange_target" where
  "remove_exchange e t = (if e < 64 then t\<lparr>exchange_mask := exchange_mask t AND NOT (push_bit (unat e) 1)\<rparr> else t)"

definition has_exchange :: "u16 \<Rightarrow> exchange_target \<Rightarrow> bool" where
  "has_exchange e t \<longleftrightarrow> (if 64 \<le> e then False else exchange_mask t AND push_bit (unat e) 1 \<noteq> 0)"

definition exchange_count :: "exchange_target \<Rightarrow> nat" where
  "exchange_count t = length (filter (bit (exchange_mask t)) [0..<64])"

record price_matrix =
  matrix :: "matrix_entry list"
  mx_exchanges :: usize
  mx_tokens :: usize
  mx_targets :: "exchange_target list"
  max_targets :: usize

definition matrix_new :: "usize \<Rightarrow> usize \<Rightarrow> price_matrix" where
  "matrix_new exchanges toks = \<lparr>matrix = replicate (exchanges * toks mod 2 ^ 64) state_default, mx_exchanges = exchanges,
     mx_tokens = toks, mx_targets = [], max_targets = 10000\<rparr>"

definition mx_index :: "price_matrix \<Rightarrow> usize \<Rightarrow> usize \<Rightarrow> usize" where
  "mx_index a e t = (e * mx_tokens a + t) mod 2 ^ 64"

definition mx_update :: "u64 \<Rightarrow> usize \<Rightarrow> usize \<Rightarrow> u64 \<Rightarrow> u64 \<Rightarrow> price_matrix \<Rightarrow> price_matrix" where
  "mx_update now e t bid ask a =
     (let i = mx_index a e t
      in case get_at (matrix a) i of
           Some s \<Rightarrow> a\<lparr>matrix := (matrix a)[i := \<lparr>st_bid = bid, st_ask = ask, st_timestamp_ms = now, st_sequence = st_sequence s + 1\<rparr>]\<rparr>
         | None \<Rightarrow> a)"

definition mx_read :: "usize \<Rightarrow> usize \<Rightarrow> price_matrix \<Rightarrow> matrix_entry option" where
  "mx_read e t a = get_at (matrix a) (mx_index a e t)"

definition register_target :: "exchange_target \<Rightarrow> price_matrix \<Rightarrow> price_matrix" where
  "register_target target a =
     a\<lparr>mx_targets := (if max_targets a \<le> length (mx_targets a) then tl (mx_targets a) else mx_targets a) @ [target]\<rparr>"

definition get_target :: "usize \<Rightarrow> price_matrix \<Rightarrow> exchange_target option" where
  "get_target i a = find (\<lambda>t. target_token t = i) (mx_targets a)"

section \<open>One writer\<close>

lemma version_parity: "(of_nat (2 * n) :: u64) AND 1 = 0" "(of_nat (2 * n) + 1 :: u64) AND 1 \<noteq> 0"
proof -
  have "even (of_nat (2 * n) :: u64)" by simp
  then show "(of_nat (2 * n) :: u64) AND 1 = 0" "(of_nat (2 * n) + 1 :: u64) AND 1 \<noteq> 0"
    by (simp_all add: and_one_eq odd_iff_mod_2_eq_one [symmetric] even_iff_mod_2_eq_zero [symmetric])
qed

lemma version_inj: "n < 2 ^ 63 \<Longrightarrow> k < 2 ^ 63 \<Longrightarrow> (of_nat (2 * n) :: u64) = of_nat (2 * k) \<longleftrightarrow> n = k"
proof -
  assume "n < 2 ^ 63" "k < 2 ^ 63"
  then have "unat (of_nat (2 * n) :: u64) = 2 * n" "unat (of_nat (2 * k) :: u64) = 2 * k" by (simp_all add: unat_of_nat del: of_nat_mult)
  then show ?thesis by (metis mult_left_cancel zero_neq_numeral)
qed

definition stored :: "level_state \<Rightarrow> u64 \<times> u64" where
  "stored s = (lv_price (lv s), lv_quantity (lv s))"

definition writes :: "level_state \<Rightarrow> nat" where
  "writes s = length (history s) - 1"

definition writer_ok :: "nat \<Rightarrow> level_state \<Rightarrow> bool" where
  "writer_ok w s \<longleftrightarrow> history s \<noteq> [] \<and> (\<forall>t. t \<noteq> w \<longrightarrow> writers s t = WIdle) \<and>
     (let ver = lv_version (lv s); v0 = of_nat (2 * writes s)
      in case writers s w of
           WIdle \<Rightarrow> ver = v0 \<and> stored s = last (history s)
         | WBumped v p qt \<Rightarrow> v = v0 \<and> ver = v0 + 1
         | WPriced v p qt \<Rightarrow> v = v0 \<and> ver = v0 + 1 \<and> lv_price (lv s) = p
         | WQuantified v p qt \<Rightarrow> v = v0 \<and> ver = v0 + 1 \<and> stored s = (p, qt))"

text \<open>What a reader has seen is right as long as no further store has begun.\<close>

definition unchanged :: "nat \<Rightarrow> level_state \<Rightarrow> nat \<Rightarrow> bool" where
  "unchanged w s k \<longleftrightarrow> writers s w = WIdle \<and> k = writes s"

definition reader_ok :: "nat \<Rightarrow> level_state \<Rightarrow> reader_pc \<Rightarrow> bool" where
  "reader_ok w s r \<longleftrightarrow>
     (case r of
        RIdle \<Rightarrow> True
      | RVersion v \<Rightarrow> \<exists>k \<le> writes s. v = of_nat (2 * k)
      | RPrice v p \<Rightarrow> \<exists>k \<le> writes s. v = of_nat (2 * k) \<and> (unchanged w s k \<longrightarrow> p = fst (last (history s)))
      | RBoth v p qt \<Rightarrow> \<exists>k \<le> writes s. v = of_nat (2 * k) \<and> (unchanged w s k \<longrightarrow> (p, qt) = last (history s))
      | RGot p qt \<Rightarrow> (p, qt) \<in> set (history s))"

lemma reader_ok_mono:
  assumes "reader_ok w s r" "history s' = history s" "writers s' w = WIdle \<Longrightarrow> writers s w = WIdle"
  shows "reader_ok w s' r"
  using assms by (auto simp: reader_ok_def writes_def unchanged_def split: reader_pc.splits)

lemma reader_ok_publish:
  assumes "reader_ok w s r" "history s \<noteq> []" "history s' = history s @ [e]"
  shows "reader_ok w s' r"
proof -
  have "writes s' = Suc (writes s)" using assms(2,3) by (cases "history s") (simp_all add: writes_def)
  then have "\<not> unchanged w s' k" if "k \<le> writes s" for k using that by (simp add: unchanged_def)
  then show ?thesis using assms \<open>writes s' = Suc (writes s)\<close>
    unfolding reader_ok_def by (auto split: reader_pc.splits intro: le_SucI)
qed

definition level_inv :: "nat \<Rightarrow> level_state \<Rightarrow> bool" where
  "level_inv w s \<longleftrightarrow> writer_ok w s \<and> (\<forall>t. reader_ok w s (reader_of s t))"

text \<open>A step of a reader, and a step of the writer between its first and its last access.\<close>

lemma level_inv_reader:
  assumes "level_inv w s" "reader_ok w s r"
  shows "level_inv w (s\<lparr>reader_of := (reader_of s)(t := r)\<rparr>)"
proof -
  have "writer_ok w (s\<lparr>reader_of := x\<rparr>) = writer_ok w s" "reader_ok w (s\<lparr>reader_of := x\<rparr>) r' = reader_ok w s r'" for x r'
    unfolding writer_ok_def reader_ok_def unchanged_def writes_def stored_def by (simp_all split: writer_pc.split reader_pc.split)
  then show ?thesis using assms by (auto simp: level_inv_def)
qed

lemma level_inv_writer:
  assumes "level_inv w s" "pc \<noteq> WIdle" "writer_ok w (s\<lparr>lv := l, writers := (writers s)(w := pc)\<rparr>)"
  shows "level_inv w (s\<lparr>lv := l, writers := (writers s)(w := pc)\<rparr>)"
  using assms reader_ok_mono [of w s _ "s\<lparr>lv := l, writers := (writers s)(w := pc)\<rparr>"] by (simp add: level_inv_def)

lemma idle_iff:
  assumes "writer_ok w s"
  shows "lv_version (lv s) AND 1 = 0 \<longleftrightarrow> writers s w = WIdle"
  using assms version_parity(1) [of "writes s"] version_parity(2) [of "writes s"]
  by (auto simp: writer_ok_def Let_def simp del: of_nat_mult split: writer_pc.splits)

lemma level_inv_step:
  assumes "level_inv w s" "level_step {w} s s'" "writes s' < 2 ^ 63"
  shows "level_inv w s'"
proof -
  have wr: "writer_ok w s" and rd: "\<And>t. reader_ok w s (reader_of s t)" using assms(1) by (simp_all add: level_inv_def)
  have only: "t = w" if "writers s t \<noteq> WIdle" for t using wr that by (auto simp: writer_ok_def)
  have hist: "history s \<noteq> []" using wr by (simp add: writer_ok_def)
  have last: "stored s = last (history s)" "lv_version (lv s) = of_nat (2 * writes s)" if "writers s w = WIdle"
    using wr that by (simp_all add: writer_ok_def Let_def)
  from assms(2) show ?thesis
  proof (cases rule: level_step.cases)
    case (bump t p qt)
    then show ?thesis using wr by (auto intro!: level_inv_writer [OF assms(1)] simp: writer_ok_def writes_def stored_def Let_def)
  next
    case (price t v p qt)
    then have "t = w" using only [of t] by simp
    then show ?thesis using wr price by (auto intro!: level_inv_writer [OF assms(1)] simp: writer_ok_def writes_def stored_def Let_def)
  next
    case (quantity t v p qt)
    then have "t = w" using only [of t] by simp
    then show ?thesis using wr quantity by (auto intro!: level_inv_writer [OF assms(1)] simp: writer_ok_def writes_def stored_def Let_def)
  next
    case (publish t v p qt)
    then have "t = w" using only [of t] by simp
    have n: "writes s' = Suc (writes s)" using hist publish by (cases "history s") (simp_all add: writes_def)
    have "writer_ok w s'" using wr publish \<open>t = w\<close> n by (simp add: writer_ok_def stored_def Let_def)
    moreover have "reader_ok w s' (reader_of s' t')" for t' using reader_ok_publish [OF rd [of t'] hist, of s' "(p, qt)"] publish by simp
    ultimately show ?thesis by (simp add: level_inv_def)
  next
    case (read_version t)
    have "reader_ok w s (RVersion (lv_version (lv s)))" using last(2) idle_iff [OF wr] read_version(2) by (auto simp: reader_ok_def)
    then show ?thesis unfolding read_version(1) by (rule level_inv_reader [OF assms(1)])
  next
    case (read_price t v)
    have "reader_ok w s (RPrice v (lv_price (lv s)))" using rd [of t] read_price(2) last(1)
      by (auto simp: reader_ok_def unchanged_def stored_def prod_eq_iff)
    then show ?thesis unfolding read_price(1) by (rule level_inv_reader [OF assms(1)])
  next
    case (read_quantity t v p)
    have "reader_ok w s (RBoth v p (lv_quantity (lv s)))" using rd [of t] read_quantity(2) last(1)
      by (auto simp: reader_ok_def unchanged_def stored_def prod_eq_iff)
    then show ?thesis unfolding read_quantity(1) by (rule level_inv_reader [OF assms(1)])
  next
    case (accept t v p qt)
    obtain k where k: "k \<le> writes s" "v = of_nat (2 * k)" "unchanged w s k \<longrightarrow> (p, qt) = last (history s)"
      using rd [of t] accept(2) by (auto simp: reader_ok_def)
    have bound: "writes s < 2 ^ 63" using assms(3) accept(1) by (simp add: writes_def)
    have idle: "writers s w = WIdle" using idle_iff [OF wr] accept(3) k(2) version_parity(1) [of k] by simp
    have "k = writes s" using accept(3) k(1,2) last(2) [OF idle] version_inj [of k "writes s"] bound by simp
    then have "reader_ok w s (RGot p qt)" using k(3) hist idle by (simp add: unchanged_def reader_ok_def)
    then show ?thesis unfolding accept(1) by (rule level_inv_reader [OF assms(1)])
  next
    case (retry t v p qt)
    show ?thesis unfolding retry(1) by (rule level_inv_reader [OF assms(1)]) (simp add: reader_ok_def)
  qed
qed

text \<open>
  C29: a level is never read torn, as long as it has one writer.  In every interleaving of the accesses of one writer and of any number of readers,
  with fewer than \<open>2\<^sup>6\<^sup>3\<close> stores, every pair that a reader returns is the initial pair or one that was stored as a whole.
\<close>

theorem level_reads_not_torn:
  assumes "level_reachable {w} s" "length (history s) \<le> 2 ^ 63" "reader_of s t = RGot p qt"
  shows "(p, qt) \<in> set (history s)"
proof -
  have "level_inv w s" using assms(1,2)
  proof (induction rule: level_reachable.induct)
    case start
    show ?case by (simp add: level_inv_def writer_ok_def reader_ok_def level_init_def writes_def stored_def level_new_def Let_def)
  next
    case (step s s')
    have "length (history s) \<le> length (history s')" using step.hyps(2) by (cases rule: level_step.cases) auto
    then have "level_inv w s" using step.IH step.prems by simp
    moreover have "writes s' < 2 ^ 63" using step.prems by (simp add: writes_def)
    ultimately show ?case using level_inv_step step.hyps(2) by blast
  qed
  then have "reader_ok w s (reader_of s t)" by (simp add: level_inv_def)
  then show ?thesis by (simp add: assms(3) reader_ok_def)
qed

text \<open>A run, one step after the other, from a given state.\<close>

lemma level_run:
  assumes "level_reachable W s" "level_step W s s'"
  shows "level_reachable W s'"
  using assms by (rule level_reachable.step)

theorem level_reads_not_torn_witness:
  "\<exists>s. level_reachable {0} s \<and> reader_of s 3 = RGot 0 0 \<and> (0, 0) \<in> set (history s)"
proof -
  let ?v = "\<lambda>r. level_init\<lparr>reader_of := (\<lambda>_. RIdle)(3 := r)\<rparr>"
  have 1: "level_reachable {0} (?v (RVersion 0))"
    using level_run [OF level_reachable.start level_step.read_version [of level_init "{0}" 3]] by (simp add: level_init_def level_new_def)
  have 2: "level_reachable {0} (?v (RPrice 0 0))"
    using level_run [OF 1 level_step.read_price [of "?v (RVersion 0)" 3 0]] by (simp add: level_init_def level_new_def)
  have 3: "level_reachable {0} (?v (RBoth 0 0 0))"
    using level_run [OF 2 level_step.read_quantity [of "?v (RPrice 0 0)" 3 0 0]] by (simp add: level_init_def level_new_def)
  have 4: "level_reachable {0} (?v (RGot 0 0))"
    using level_run [OF 3 level_step.accept [of "?v (RBoth 0 0 0)" 3 0 0 0]] by (simp add: level_init_def level_new_def)
  have "(0, 0) \<in> set (history (?v (RGot 0 0)))" by (rule level_reads_not_torn [OF 4]) (simp_all add: level_init_def)
  with 4 show ?thesis by (intro exI [of _ "?v (RGot 0 0)"]) simp
qed

section \<open>Two writers\<close>

text \<open>
  Nothing keeps two threads from storing into one level, and then the lock fails twice: while both stores are under way the version is even
  again, so that a reader accepts a mixture, and after both are complete it is odd, so that every later read spins, since a store
  that is not interrupted keeps the parity.
\<close>

definition two_writing :: "writer_pc \<Rightarrow> writer_pc \<Rightarrow> u64 \<Rightarrow> u64 \<Rightarrow> u64 \<Rightarrow> reader_pc \<Rightarrow> (u64 \<times> u64) list \<Rightarrow> level_state" where
  "two_writing w0 w1 p qt v r h = \<lparr>lv = \<lparr>lv_price = p, lv_quantity = qt, lv_version = v\<rparr>, writers = (\<lambda>t. if t = 0 then w0 else if t = 1 then w1 else WIdle),
     reader_of = (\<lambda>t. if t = 0 then r else RIdle), history = h\<rparr>"

lemma level_run_to:
  assumes "level_reachable W s" "level_step W s s'" "s' = s''"
  shows "level_reachable W s''"
  using level_run [OF assms(1,2)] assms(3) by simp

lemmas two_writing_simps = two_writing_def fun_eq_iff

lemma two_bumped: "level_reachable {0, 1} (two_writing (WPriced 0 5 6) (WBumped 1 7 8) 5 0 2 RIdle [(0, 0)])"
proof -
  have 1: "level_reachable {0, 1} (two_writing (WBumped 0 5 6) WIdle 0 0 1 RIdle [(0, 0)])"
    by (rule level_run_to [OF level_reachable.start level_step.bump [where t = 0 and p = 5 and qt = 6]])
      (simp_all add: level_init_def level_new_def two_writing_simps)
  have 2: "level_reachable {0, 1} (two_writing (WBumped 0 5 6) (WBumped 1 7 8) 0 0 2 RIdle [(0, 0)])"
    by (rule level_run_to [OF 1 level_step.bump [where t = 1 and p = 7 and qt = 8]]) (simp_all add: two_writing_simps)
  show ?thesis
    by (rule level_run_to [OF 2 level_step.price [where t = 0 and v = 0 and p = 5 and qt = 6]]) (simp_all add: two_writing_simps)
qed

lemma two_writers_torn_read:
  "\<exists>s. level_reachable {0, 1} s \<and> reader_of s 0 = RGot 5 0 \<and> (5, 0) \<notin> set (history s)"
proof -
  let ?s = "\<lambda>r. two_writing (WPriced 0 5 6) (WBumped 1 7 8) 5 0 2 r [(0, 0)]"
  have upd: "(?s r)\<lparr>reader_of := (reader_of (?s r))(0 := r')\<rparr> = ?s r'" for r r' by (simp add: two_writing_def fun_eq_iff)
  have sel: "reader_of (?s r) 0 = r" "lv (?s r) = \<lparr>lv_price = 5, lv_quantity = 0, lv_version = 2\<rparr>" for r by (simp_all add: two_writing_def)
  have 1: "level_reachable {0, 1} (?s (RVersion 2))"
    using level_run [OF two_bumped level_step.read_version [of "?s RIdle" "{0, 1}" 0]] by (simp add: upd sel)
  have 2: "level_reachable {0, 1} (?s (RPrice 2 5))" using level_run [OF 1 level_step.read_price [of "?s (RVersion 2)" 0 2]] by (simp add: upd sel)
  have 3: "level_reachable {0, 1} (?s (RBoth 2 5 0))" using level_run [OF 2 level_step.read_quantity [of "?s (RPrice 2 5)" 0 2 5]] by (simp add: upd sel)
  have 4: "level_reachable {0, 1} (?s (RGot 5 0))" using level_run [OF 3 level_step.accept [of "?s (RBoth 2 5 0)" 0 2 5 0]] by (simp add: upd sel)
  show ?thesis using 4 by (intro exI [of _ "?s (RGot 5 0)"]) (simp add: two_writing_def)
qed

lemma two_writers_leave_odd_version:
  "\<exists>s. level_reachable {0, 1} s \<and> (\<forall>t. writers s t = WIdle) \<and> lv_version (lv s) = 3"
proof -
  have 1: "level_reachable {0, 1} (two_writing (WQuantified 0 5 6) (WBumped 1 7 8) 5 6 2 RIdle [(0, 0)])"
    by (rule level_run_to [OF two_bumped level_step.quantity [where t = 0 and v = 0 and p = 5 and qt = 6]]) (simp_all add: two_writing_simps)
  have 2: "level_reachable {0, 1} (two_writing WIdle (WBumped 1 7 8) 5 6 2 RIdle [(0, 0), (5, 6)])"
    by (rule level_run_to [OF 1 level_step.publish [where t = 0 and v = 0 and p = 5 and qt = 6]]) (simp_all add: two_writing_simps)
  have 3: "level_reachable {0, 1} (two_writing WIdle (WPriced 1 7 8) 7 6 2 RIdle [(0, 0), (5, 6)])"
    by (rule level_run_to [OF 2 level_step.price [where t = 1 and v = 1 and p = 7 and qt = 8]]) (simp_all add: two_writing_simps)
  have 4: "level_reachable {0, 1} (two_writing WIdle (WQuantified 1 7 8) 7 8 2 RIdle [(0, 0), (5, 6)])"
    by (rule level_run_to [OF 3 level_step.quantity [where t = 1 and v = 1 and p = 7 and qt = 8]]) (simp_all add: two_writing_simps)
  have 5: "level_reachable {0, 1} (two_writing WIdle WIdle 7 8 3 RIdle [(0, 0), (5, 6), (7, 8)])"
    by (rule level_run_to [OF 4 level_step.publish [where t = 1 and v = 1 and p = 7 and qt = 8]]) (simp_all add: two_writing_simps)
  show ?thesis using 5 by (intro exI [of _ "two_writing WIdle WIdle 7 8 3 RIdle [(0, 0), (5, 6), (7, 8)]"]) (simp add: two_writing_def)
qed

lemma odd_version_never_read:
  assumes "\<forall>(l1, lp, lq, l2) \<in> set rounds. lv_version l1 AND 1 \<noteq> 0"
  shows "level_load D rounds = None"
  using assms by (induction D rounds rule: level_load.induct) auto

lemma whole_store_keeps_parity: "lv_version (level_put p qt l) AND 1 = lv_version l AND 1"
proof -
  have "even (lv_version l + 2) = even (lv_version l)" by simp
  then have "(lv_version l + 2) mod 2 = lv_version l mod 2" unfolding even_iff_mod_2_eq_zero by (metis not_mod_2_eq_0_eq_1)
  then show ?thesis by (simp add: level_put_def and_one_eq)
qed

section \<open>Masks and the matrix\<close>

lemma has_exchange_bit: "has_exchange e t \<longleftrightarrow> e < 64 \<and> bit (exchange_mask t) (unat e)"
proof -
  have "exchange_mask t AND push_bit (unat e) 1 \<noteq> 0 \<longleftrightarrow> bit (exchange_mask t) (unat e)"
    by (simp add: push_bit_eq_mult and_exp_eq_0_iff_not_bit)
  then show ?thesis by (auto simp: has_exchange_def not_le)
qed

lemma exchange_mask_set:
  "has_exchange e (add_exchange e' t) \<longleftrightarrow> (e = e' \<and> e < 64 \<or> has_exchange e t)"
  "has_exchange e (remove_exchange e' t) \<longleftrightarrow> (e \<noteq> e' \<and> has_exchange e t)"
  by (auto simp: has_exchange_bit add_exchange_def remove_exchange_def bit_simps word_less_nat_alt word_unat_eq_iff)

text \<open>A token identifier behind the last column is that of the next exchange: the update of one exchange overwrites the price of another.\<close>

lemma matrix_row_overflow:
  assumes "1 < n" "n * m < 2 ^ 64" "0 < m"
  shows "mx_read 1 0 (mx_update now 0 m bid ask (matrix_new n m)) =
    Some \<lparr>st_bid = bid, st_ask = ask, st_timestamp_ms = now, st_sequence = 1\<rparr>"
proof -
  have m: "m < n * m" using assms(1,3) by simp
  have "m < 2 ^ 64" using m assms(2) by (rule less_trans)
  with m show ?thesis using assms(2) by (simp add: mx_read_def mx_update_def mx_index_def matrix_new_def get_at_def state_default_def)
qed

text \<open>Within the columns the matrix is a table of quotes.\<close>

lemma matrix_update_read:
  assumes "length (matrix a) = mx_exchanges a * mx_tokens a" "length (matrix a) < 2 ^ 64"
    and "e < mx_exchanges a" "t < mx_tokens a" "e' < mx_exchanges a" "t' < mx_tokens a"
  shows "mx_read e' t' (mx_update now e t bid ask a) =
    (if e' = e \<and> t' = t then map_option (\<lambda>s. \<lparr>st_bid = bid, st_ask = ask, st_timestamp_ms = now, st_sequence = st_sequence s + 1\<rparr>) (mx_read e t a)
     else mx_read e' t' a)"
proof -
  have less: "x * mx_tokens a + y < mx_exchanges a * mx_tokens a" if "x < mx_exchanges a" "y < mx_tokens a" for x y
  proof -
    have "x * mx_tokens a + y < Suc x * mx_tokens a" using that(2) by simp
    also have "\<dots> \<le> mx_exchanges a * mx_tokens a" using that(1) by (intro mult_le_mono1) simp
    finally show ?thesis .
  qed
  have idx: "mx_index a x y = x * mx_tokens a + y" "mx_index a x y < length (matrix a)" if "x < mx_exchanges a" "y < mx_tokens a" for x y
    using less [OF that] assms(1,2) by (simp_all add: mx_index_def)
  have "mx_index a e' t' = mx_index a e t \<longleftrightarrow> e' = e \<and> t' = t" unfolding idx [OF assms(3,4)] idx [OF assms(5,6)]
    by (metis assms(4,6) div_mult_self3 div_less less_nat_zero_code add.right_neutral add_left_cancel)
  then show ?thesis using idx [OF assms(3,4)] idx [OF assms(5,6)]
    by (auto simp: mx_read_def mx_update_def get_at_def Let_def) (simp_all add: mx_index_def)
qed

end
