(* ===== verification/Http_Programs.thy ===== *)
theory Http_Programs
  imports Json_Values Decimal_Api
begin

text \<open>
  Programs that talk to an exchange: a request goes out and what follows depends on the reply.  The replies, like everything the network
  decides, are not part of a program; \<open>run_http\<close> plays a program against a list of them.  The contract of the trait
  \<^verbatim>\<open>PrivateExchangeClient\<close> of \<^verbatim>\<open>src/src/signer.rs\<close> is the locale \<open>private_client\<close>.
\<close>

section \<open>Requests and replies\<close>

datatype http_method = GET | POST | DELETE

fun method_name :: "http_method \<Rightarrow> string" where
  "method_name GET = ''GET''"
| "method_name POST = ''POST''"
| "method_name DELETE = ''DELETE''"

record http_request =
  rq_method :: http_method
  rq_url :: string
  rq_headers :: "(string \<times> string) list"
  rq_body :: "string option"

text \<open>
  A reply is the failure of the transport, or a status with the text it is displayed as and a body, whose reading may fail.
\<close>

datatype http_reply = NoResponse string | Response nat string "string + string"

datatype 'r http = Return 'r | Send http_request "http_reply \<Rightarrow> 'r http"

definition is_success :: "nat \<Rightarrow> bool" where
  "is_success status \<longleftrightarrow> 200 \<le> status \<and> status < 300"

primrec http_bind :: "'a http \<Rightarrow> ('a \<Rightarrow> 'b http) \<Rightarrow> 'b http" where
  "http_bind (Return x) f = f x"
| "http_bind (Send rq k) f = Send rq (\<lambda>rp. http_bind (k rp) f)"

definition http_map :: "('a \<Rightarrow> 'b) \<Rightarrow> 'a http \<Rightarrow> 'b http" where
  "http_map f p = http_bind p (\<lambda>x. Return (f x))"

text \<open>The requests that leave when the replies are \<open>rps\<close>, and the result, unless the replies end before the program does.\<close>

primrec run_http :: "'r http \<Rightarrow> http_reply list \<Rightarrow> http_request list \<times> 'r option" where
  "run_http (Return x) = (\<lambda>rps. ([], Some x))"
| "run_http (Send rq k) = (\<lambda>rps. case rps of
     [] \<Rightarrow> ([rq], None)
   | rp # rps' \<Rightarrow> (let (rqs, x) = run_http (k rp) rps' in (rq # rqs, x)))"

section \<open>What a program may do\<close>

primrec every_request :: "(http_request \<Rightarrow> bool) \<Rightarrow> 'r http \<Rightarrow> bool" where
  "every_request P (Return x) \<longleftrightarrow> True"
| "every_request P (Send rq k) \<longleftrightarrow> P rq \<and> (\<forall>rp. every_request P (k rp))"

primrec at_most :: "(http_request \<Rightarrow> bool) \<Rightarrow> 'r http \<Rightarrow> nat \<Rightarrow> bool" where
  "at_most P (Return x) = (\<lambda>n. True)"
| "at_most P (Send rq k) = (\<lambda>n. if P rq then 0 < n \<and> (\<forall>rp. at_most P (k rp) (n - 1)) else (\<forall>rp. at_most P (k rp) n))"

text \<open>A failure of the transport ends the program with an error: nothing is sent again and nothing is made up.\<close>

primrec fail_closed :: "('r \<Rightarrow> bool) \<Rightarrow> 'r http \<Rightarrow> bool" where
  "fail_closed E (Return x) \<longleftrightarrow> True"
| "fail_closed E (Send rq k) \<longleftrightarrow> (\<forall>err. \<exists>x. k (NoResponse err) = Return x \<and> E x) \<and> (\<forall>rp. fail_closed E (k rp))"

lemma run_every_request: "every_request P p \<Longrightarrow> rq \<in> set (fst (run_http p rps)) \<Longrightarrow> P rq"
proof (induction p arbitrary: rps)
  case (Send rq' k)
  then show ?case by (cases rps) (auto simp: split_beta)
qed simp

lemma run_at_most: "at_most P p n \<Longrightarrow> length (filter P (fst (run_http p rps))) \<le> n"
proof (induction p arbitrary: rps n)
  case (Send rq' k)
  show ?case
  proof (cases rps)
    case (Cons rp rps')
    have "at_most P (k rp) (if P rq' then n - 1 else n)" using Send.prems by (auto split: if_splits)
    then have "length (filter P (fst (run_http (k rp) rps'))) \<le> (if P rq' then n - 1 else n)" using Send.IH [of "k rp"] by blast
    then show ?thesis using Send.prems Cons by (auto simp: split_beta split: if_splits)
  qed (use Send.prems in \<open>auto split: if_splits\<close>)
qed simp

lemma run_fail_closed:
  "fail_closed E p \<Longrightarrow> run_http p rps = (rqs, Some x) \<Longrightarrow> \<not> E x \<Longrightarrow> \<forall>err. NoResponse err \<notin> set (take (length rqs) rps)"
proof (induction p arbitrary: rps rqs)
  case (Send rq k)
  obtain rp rps' where rps: "rps = rp # rps'" using Send.prems(2) by (cases rps) auto
  obtain rqs' where rqs: "rqs = rq # rqs'" "run_http (k rp) rps' = (rqs', Some x)"
    using Send.prems(2) rps by (auto simp: split_beta prod_eq_iff)
  have "rp \<noteq> NoResponse err" for err
  proof
    assume "rp = NoResponse err"
    then obtain y where "k rp = Return y" "E y" using Send.prems(1) by auto
    then show False using rqs(2) Send.prems(3) by simp
  qed
  then show ?case using Send.IH [of "k rp" rps' rqs'] Send.prems rps rqs by auto
qed simp

text \<open>A program that is followed by another: the second one gets the replies that the first one has left.\<close>

lemma run_bind_drop:
  "run_http (http_bind p f) rps = (rqs, Some y) \<Longrightarrow>
   \<exists>rqs1 x rqs2. run_http p rps = (rqs1, Some x) \<and> run_http (f x) (drop (length rqs1) rps) = (rqs2, Some y) \<and> rqs = rqs1 @ rqs2"
proof (induction p arbitrary: rps rqs)
  case (Send rq k)
  obtain rp rps' where rps: "rps = rp # rps'" using Send.prems by (cases rps) auto
  obtain rqs' where rqs: "rqs = rq # rqs'" "run_http (http_bind (k rp) f) rps' = (rqs', Some y)"
    using Send.prems rps by (auto simp: split_beta prod_eq_iff)
  have "k rp \<in> range k" by simp
  from Send.IH [OF this rqs(2)] obtain rqs1 x rqs2 where
    "run_http (k rp) rps' = (rqs1, Some x)" "run_http (f x) (drop (length rqs1) rps') = (rqs2, Some y)" "rqs' = rqs1 @ rqs2" by blast
  then show ?case unfolding rps rqs by (intro exI [of _ "rq # rqs1"] exI [of _ x] exI [of _ rqs2]) auto
qed auto

lemma run_map: "run_http (http_map f p) rps = apsnd (map_option f) (run_http p rps)"
proof (induction p arbitrary: rps)
  case (Send rq k)
  then show ?case by (cases rps) (simp_all add: http_map_def split_beta)
qed (simp add: http_map_def)

text \<open>A program that is followed by a function of its result, or by another program.\<close>

lemma every_request_bind: "every_request P p \<Longrightarrow> (\<And>x. every_request P (f x)) \<Longrightarrow> every_request P (http_bind p f)"
  by (induction p) auto

lemma every_request_map [simp]: "every_request P (http_map f p) \<longleftrightarrow> every_request P p"
  by (induction p) (simp_all add: http_map_def)

lemma at_most_map [simp]: "at_most P (http_map f p) n \<longleftrightarrow> at_most P p n"
  by (induction p arbitrary: n) (simp_all add: http_map_def)

lemma fail_closed_map: "fail_closed E p \<Longrightarrow> (\<And>x. E x \<Longrightarrow> E' (f x)) \<Longrightarrow> fail_closed E' (http_map f p)"
proof (induction p)
  case (Send rq k)
  have "\<exists>y. http_map f (k (NoResponse err)) = Return y \<and> E' y" for err
  proof -
    obtain x where "k (NoResponse err) = Return x" "E x" using Send.prems(1) by auto
    then show ?thesis using Send.prems(2) by (simp add: http_map_def)
  qed
  moreover have "fail_closed E' (http_map f (k rp))" for rp using Send.IH [of "k rp"] Send.prems by simp
  ultimately show ?case by (simp add: http_map_def)
qed (simp add: http_map_def)

section \<open>The steps of a call\<close>

text \<open>
  Sending and reading the body, with the errors that the clients give to the two failures; refusing a status that is no success; decoding
  the body.
\<close>

definition fetch :: "string \<Rightarrow> http_request \<Rightarrow> (nat \<Rightarrow> string \<Rightarrow> string \<Rightarrow> (string + 'a) http) \<Rightarrow> (string + 'a) http" where
  "fetch label rq k = Send rq (\<lambda>rp. case rp of
     NoResponse err \<Rightarrow> Return (Inl (label @ '' request failed: '' @ err))
   | Response status shown (Inl err) \<Rightarrow> Return (Inl (label @ '' read body failed: '' @ err))
   | Response status shown (Inr body) \<Rightarrow> k status shown body)"

definition require_ok :: "string \<Rightarrow> nat \<Rightarrow> string \<Rightarrow> string \<Rightarrow> (string + 'a) \<Rightarrow> string + 'a" where
  "require_ok label status shown body res =
     (if is_success status then res else Inl (label @ '' HTTP '' @ shown @ '': '' @ body))"

definition decode :: "(string \<Rightarrow> string + 'f json) \<Rightarrow> string \<Rightarrow> string \<Rightarrow> ('f json \<Rightarrow> string + 'a) \<Rightarrow> string + 'a" where
  "decode from_str label body k =
     (case from_str body of Inl err \<Rightarrow> Inl (label @ '' JSON parse failed: '' @ err) | Inr v \<Rightarrow> k v)"

text \<open>The shape of most calls: one request, and a result that the reply decides.\<close>

definition call :: "string \<Rightarrow> http_request \<Rightarrow> (nat \<Rightarrow> string \<Rightarrow> string \<Rightarrow> string + 'a) \<Rightarrow> (string + 'a) http" where
  "call label rq res = fetch label rq (\<lambda>status shown body. Return (res status shown body))"

named_theorems http_simps

lemma all_replies:
  "(\<forall>rp. P (case rp of NoResponse err \<Rightarrow> f err | Response st sh (Inl err) \<Rightarrow> g err | Response st sh (Inr body) \<Rightarrow> h st sh body)) \<longleftrightarrow>
     (\<forall>err. P (f err)) \<and> (\<forall>err. P (g err)) \<and> (\<forall>st sh body. P (h st sh body))" (is "(\<forall>rp. P (?c rp)) \<longleftrightarrow> _")
proof
  assume all: "\<forall>rp. P (?c rp)"
  have "P (f err)" for err using spec [OF all, of "NoResponse err"] by simp
  moreover have "P (g err)" for err using spec [OF all, of "Response 0 [] (Inl err)"] by simp
  moreover have "P (h st sh body)" for st sh body using spec [OF all, of "Response st sh (Inr body)"] by simp
  ultimately show "(\<forall>err. P (f err)) \<and> (\<forall>err. P (g err)) \<and> (\<forall>st sh body. P (h st sh body))" by blast
qed (auto split: http_reply.split sum.split)

lemma every_request_fetch [http_simps]:
  "every_request P (fetch label rq k) \<longleftrightarrow> P rq \<and> (\<forall>status shown body. every_request P (k status shown body))"
  by (simp add: fetch_def all_replies [where P = "every_request P"])

lemma every_request_call [http_simps]: "every_request P (call label rq res) \<longleftrightarrow> P rq"
  by (simp add: call_def every_request_fetch)

lemma at_most_fetch [http_simps]:
  "at_most P (fetch label rq k) n \<longleftrightarrow>
     (if P rq then 0 < n \<and> (\<forall>status shown body. at_most P (k status shown body) (n - 1))
      else \<forall>status shown body. at_most P (k status shown body) n)"
  by (simp add: fetch_def all_replies [where P = "\<lambda>p. at_most P p m" for m])

lemma at_most_call [http_simps]: "at_most P (call label rq res) n \<longleftrightarrow> (P rq \<longrightarrow> 0 < n)"
  by (simp add: call_def at_most_fetch)

lemma fail_closed_fetch [http_simps]:
  "fail_closed isl (fetch label rq k) \<longleftrightarrow> (\<forall>status shown body. fail_closed isl (k status shown body))"
  by (simp add: fetch_def all_replies [where P = "fail_closed isl"])

lemma fail_closed_call [http_simps]: "fail_closed isl (call label rq res)"
  by (simp add: call_def fail_closed_fetch)

declare every_request.simps [http_simps] at_most.simps [http_simps] fail_closed.simps [http_simps]

end
