(* ===== verification/Api_Signing.thy ===== *)
theory Api_Signing
  imports Http_Programs
begin

text \<open>
  What the clients of the exchanges share, from \<^verbatim>\<open>src/src/signer.rs\<close>: the signer, orders and their results, and the texts of the
  parameters.  The cryptographic functions, the reading and the writing of JSON, and the reading of decimals belong to packages outside of the
  repository and are the fields of \<open>client_api\<close>, as is the order in which a hash map gives its entries, \<open>map_order\<close>.
\<close>

section \<open>The packages\<close>

record ('f, 'd) client_api =
  from_str :: "string \<Rightarrow> string + 'f json"
  json_text :: "'f json \<Rightarrow> string"
  num_ops :: "'d exec_decimal"
  read_decimal :: "string \<Rightarrow> string + 'd"
  decimal_json :: "'d \<Rightarrow> 'f json"
  float_decimal :: "'f json_number \<Rightarrow> 'd option"
  read_float :: "string \<Rightarrow> 'f option"
  map_order :: "(string \<times> string) list \<Rightarrow> (string \<times> string) list"
  hmac_sha256 :: "string \<Rightarrow> string \<Rightarrow> string"
  hmac_sha384 :: "string \<Rightarrow> string \<Rightarrow> string"
  hmac_sha512 :: "string \<Rightarrow> string \<Rightarrow> string"
  sha256 :: "string \<Rightarrow> string"
  hex :: "string \<Rightarrow> string"
  base64 :: "string \<Rightarrow> string"
  unbase64 :: "string \<Rightarrow> string + string"
  header_ok :: "string \<Rightarrow> bool"

text \<open>An instance: whole numbers, no JSON but the null value, and functions in place of the cryptographic ones.\<close>

definition plain_api :: "(unit, int) client_api" where
  "plain_api =
     \<lparr>from_str = (\<lambda>s. if s = ''null'' then Inr JNull else Inl ''expected null''), json_text = (\<lambda>_. ''null''), num_ops = int_exec,
      read_decimal = (\<lambda>s. case parse_u64 s of None \<Rightarrow> Inl ''not a number'' | Some n \<Rightarrow> Inr (uint n)), decimal_json = (\<lambda>_. JNull),
      float_decimal = (\<lambda>_. None), read_float = (\<lambda>_. None), map_order = id,
      hmac_sha256 = (\<lambda>key msg. key @ msg), hmac_sha384 = (\<lambda>key msg. key @ msg), hmac_sha512 = (\<lambda>key msg. key @ msg), sha256 = id,
      hex = id, base64 = id, unbase64 = Inr, header_ok = (\<lambda>_. True)\<rparr>"

abbreviation zero_of :: "('f, 'd) client_api \<Rightarrow> 'd" where
  "zero_of A \<equiv> dec_zero (num_ops A)"

abbreviation show_dec :: "('f, 'd) client_api \<Rightarrow> 'd \<Rightarrow> string" where
  "show_dec A \<equiv> dec_to_string (num_ops A)"

text \<open>The readings of the clock during a call, in milliseconds since the epoch; the \<open>i\<close>-th reading is \<open>clk i\<close>.\<close>

type_synonym clock = "nat \<Rightarrow> u64"

definition show_i64 :: "i64 \<Rightarrow> string" where
  "show_i64 w = (if sint w < 0 then ''-'' else []) @ digits_of (nat \<bar>sint w\<bar>)"

definition ok_of :: "'e + 'a \<Rightarrow> 'a option" where
  "ok_of r = (case r of Inl _ \<Rightarrow> None | Inr x \<Rightarrow> Some x)"

definition or_dec :: "('f, 'd) client_api \<Rightarrow> string option \<Rightarrow> 'd" where
  "or_dec A s = unwrap_or (Option.bind s (\<lambda>t. ok_of (read_decimal A t))) (zero_of A)"

definition str_dec :: "('f, 'd) client_api \<Rightarrow> string \<Rightarrow> 'f json \<Rightarrow> 'd" where
  "str_dec A k v = or_dec A (get_str k v)"

text \<open>\<^verbatim>\<open>parse_json_decimal\<close> of the client modules: a string, an integer or a float; anything else is zero.\<close>

definition parse_json_decimal :: "('f, 'd) client_api \<Rightarrow> 'f json \<Rightarrow> 'd" where
  "parse_json_decimal A v =
     (case as_str v of
        Some s \<Rightarrow> unwrap_or (ok_of (read_decimal A s)) (zero_of A)
      | None \<Rightarrow> (case as_i64 v of
          Some n \<Rightarrow> dec_from_int (num_ops A) (sint n)
        | None \<Rightarrow> (case as_number v of
            Some x \<Rightarrow> unwrap_or (float_decimal A x) (zero_of A)
          | None \<Rightarrow> zero_of A)))"

section \<open>Parameters\<close>

fun join_with :: "string \<Rightarrow> string list \<Rightarrow> string" where
  "join_with sep [] = []"
| "join_with sep [s] = s"
| "join_with sep (s # ss) = s @ sep @ join_with sep ss"

definition query_text :: "(string \<times> string) list \<Rightarrow> string" where
  "query_text ps = join_with ''&'' (map (\<lambda>(k, v). k @ ''='' @ v) ps)"

definition opt_param :: "string \<Rightarrow> string option \<Rightarrow> (string \<times> string) list" where
  "opt_param k v = (case v of None \<Rightarrow> [] | Some x \<Rightarrow> [(k, x)])"

section \<open>The signer\<close>

record api_signer =
  sg_key :: string
  sg_secret :: string
  sg_passphrase :: "string option"

definition signer_new :: "string \<Rightarrow> string \<Rightarrow> api_signer" where
  "signer_new key secret = \<lparr>sg_key = key, sg_secret = secret, sg_passphrase = None\<rparr>"

definition signer_with_passphrase :: "string \<Rightarrow> string \<Rightarrow> string \<Rightarrow> api_signer" where
  "signer_with_passphrase key secret pass = \<lparr>sg_key = key, sg_secret = secret, sg_passphrase = Some pass\<rparr>"

definition generate_hmac_signature :: "('f, 'd) client_api \<Rightarrow> api_signer \<Rightarrow> string \<Rightarrow> string" where
  "generate_hmac_signature A sg payload = hex A (hmac_sha256 A (sg_secret sg) payload)"

definition generate_signed_query :: "('f, 'd) client_api \<Rightarrow> u64 \<Rightarrow> api_signer \<Rightarrow> string \<Rightarrow> string" where
  "generate_signed_query A ts sg base_params =
     (let query = (if base_params = [] then ''timestamp='' @ show_word ts else base_params @ ''&timestamp='' @ show_word ts)
      in query @ ''&signature='' @ generate_hmac_signature A sg query)"

definition generate_okx_signature :: "('f, 'd) client_api \<Rightarrow> api_signer \<Rightarrow> string \<Rightarrow> string \<Rightarrow> string \<Rightarrow> string \<Rightarrow> string" where
  "generate_okx_signature A sg timestamp meth request_path body =
     base64 A (hmac_sha256 A (sg_secret sg) (timestamp @ meth @ request_path @ body))"

definition get_auth_headers :: "string \<Rightarrow> string \<Rightarrow> api_signer \<Rightarrow> (string \<times> string) list" where
  "get_auth_headers utc exchange_type sg =
     (if exchange_type = ''binance'' then [(''X-MBX-APIKEY'', sg_key sg)]
      else if exchange_type = ''bybit'' then [(''X-BAPI-API-KEY'', sg_key sg)]
      else if exchange_type = ''okx'' then
        [(''OK-ACCESS-KEY'', sg_key sg), (''OK-ACCESS-SIGN'', []), (''OK-ACCESS-TIMESTAMP'', utc),
         (''OK-ACCESS-PASSPHRASE'', unwrap_or (sg_passphrase sg) []), (''Content-Type'', ''application/json'')]
      else [])"

text \<open>A header whose value is replaced by the empty text when it has characters that a header cannot carry.\<close>

definition header_or_empty :: "('f, 'd) client_api \<Rightarrow> string \<Rightarrow> string" where
  "header_or_empty A v = (if header_ok A v then v else [])"

section \<open>Orders\<close>

datatype order_side = OrderBuy | OrderSell
datatype order_kind = LimitOrder | MarketOrder | FokOrder | IocOrder

fun side_name :: "order_side \<Rightarrow> string" where
  "side_name OrderBuy = ''BUY''"
| "side_name OrderSell = ''SELL''"

fun kind_name :: "order_kind \<Rightarrow> string" where
  "kind_name LimitOrder = ''LIMIT''"
| "kind_name MarketOrder = ''MARKET''"
| "kind_name FokOrder = ''FOK''"
| "kind_name IocOrder = ''IOC''"

fun order_type_to_bybit :: "order_kind \<Rightarrow> string" where
  "order_type_to_bybit LimitOrder = ''Limit''"
| "order_type_to_bybit MarketOrder = ''Market''"
| "order_type_to_bybit FokOrder = ''FOK''"
| "order_type_to_bybit IocOrder = ''IOC''"

fun side_lower :: "order_side \<Rightarrow> string" where
  "side_lower OrderBuy = ''buy''"
| "side_lower OrderSell = ''sell''"

record 'd order_request =
  or_symbol :: string
  or_side :: order_side
  or_kind :: order_kind
  or_quantity :: 'd
  or_price :: "'d option"
  or_client_id :: "string option"

record 'd client_result =
  res_success :: bool
  res_order_id :: "string option"
  res_filled :: 'd
  res_avg_price :: 'd
  res_error :: "string option"

definition result_default :: "('f, 'd) client_api \<Rightarrow> 'd client_result" where
  "result_default A = \<lparr>res_success = False, res_order_id = None, res_filled = zero_of A, res_avg_price = zero_of A, res_error = None\<rparr>"

text \<open>The results that the clients build again and again: accepted without a known fill, refused with a message, and a queried order.\<close>

definition accepted :: "('f, 'd) client_api \<Rightarrow> string option \<Rightarrow> 'd client_result" where
  "accepted A oid = (result_default A)\<lparr>res_success := True, res_order_id := oid\<rparr>"

definition refused :: "('f, 'd) client_api \<Rightarrow> string \<Rightarrow> 'd client_result" where
  "refused A msg = (result_default A)\<lparr>res_error := Some msg\<rparr>"

definition queried :: "bool \<Rightarrow> string option \<Rightarrow> 'd \<Rightarrow> 'd \<Rightarrow> string \<Rightarrow> 'd client_result" where
  "queried good oid filled avg msg =
     \<lparr>res_success = good, res_order_id = oid, res_filled = filled, res_avg_price = avg, res_error = (if good then None else Some msg)\<rparr>"

section \<open>The contract of a client\<close>

datatype 'd client_call = SubmitOrder "'d order_request" | CancelOrder string string | QueryOrder string string | GetBalance string

text \<open>What a call returns: an order result, or a balance.\<close>

datatype 'd client_answer = OrderAnswer "'d client_result" | BalanceAnswer 'd

fun is_submit :: "'d client_call \<Rightarrow> bool" where
  "is_submit (SubmitOrder r) = True"
| "is_submit _ = False"

text \<open>A session: calls one after the other, each with its own clock and replies; a call whose replies end before it does is the last one.\<close>

fun client_session :: "(clock \<Rightarrow> 's \<Rightarrow> 'd client_call \<Rightarrow> ((string + 'd client_answer) \<times> 's) http) \<Rightarrow> 's \<Rightarrow> (clock \<times> 'd client_call \<times> http_reply list) list \<Rightarrow> http_request list" where
  "client_session perform s [] = []"
| "client_session perform s ((clk, c, rps) # rest) =
     (let (rqs, res) = run_http (perform clk s c) rps
      in case res of None \<Rightarrow> rqs | Some (_, s') \<Rightarrow> rqs @ client_session perform s' rest)"

text \<open>All requests of a session are authentic, and there are at most as many placements as submissions.\<close>

definition honest_session ::
  "(http_request \<Rightarrow> bool) \<Rightarrow> (http_request \<Rightarrow> bool) \<Rightarrow> http_request list \<Rightarrow> (clock \<times> 'd client_call \<times> http_reply list) list \<Rightarrow> bool" where
  "honest_session authentic places rqs calls \<longleftrightarrow>
     list_all authentic rqs \<and> length (filter places rqs) \<le> length (filter (\<lambda>(_, c, _). is_submit c) calls)"

text \<open>The four methods of the trait as one program; \<open>with_state\<close> is for the clients without a state of their own.\<close>

definition client_program ::
  "('d order_request \<Rightarrow> (string + 'd client_result) http) \<Rightarrow> (string \<Rightarrow> string \<Rightarrow> (string + 'd client_result) http) \<Rightarrow>
   (string \<Rightarrow> string \<Rightarrow> (string + 'd client_result) http) \<Rightarrow> (string \<Rightarrow> (string + 'd) http) \<Rightarrow> 'd client_call \<Rightarrow>
   (string + 'd client_answer) http" where
  "client_program submit cancel query balance c =
     (case c of
        SubmitOrder r \<Rightarrow> http_map (map_sum id OrderAnswer) (submit r)
      | CancelOrder sm oid \<Rightarrow> http_map (map_sum id OrderAnswer) (cancel sm oid)
      | QueryOrder sm oid \<Rightarrow> http_map (map_sum id OrderAnswer) (query sm oid)
      | GetBalance a \<Rightarrow> http_map (map_sum id BalanceAnswer) (balance a))"

definition stateful_program ::
  "('d order_request \<Rightarrow> ((string + 'd client_result) \<times> 's) http) \<Rightarrow> (string \<Rightarrow> string \<Rightarrow> ((string + 'd client_result) \<times> 's) http) \<Rightarrow>
   (string \<Rightarrow> string \<Rightarrow> ((string + 'd client_result) \<times> 's) http) \<Rightarrow> (string \<Rightarrow> ((string + 'd) \<times> 's) http) \<Rightarrow> 'd client_call \<Rightarrow>
   ((string + 'd client_answer) \<times> 's) http" where
  "stateful_program submit cancel query balance c =
     (case c of
        SubmitOrder r \<Rightarrow> http_map (apfst (map_sum id OrderAnswer)) (submit r)
      | CancelOrder sm oid \<Rightarrow> http_map (apfst (map_sum id OrderAnswer)) (cancel sm oid)
      | QueryOrder sm oid \<Rightarrow> http_map (apfst (map_sum id OrderAnswer)) (query sm oid)
      | GetBalance a \<Rightarrow> http_map (apfst (map_sum id BalanceAnswer)) (balance a))"

definition with_state :: "'s \<Rightarrow> 'a http \<Rightarrow> ('a \<times> 's) http" where
  "with_state s p = http_map (\<lambda>r. (r, s)) p"

text \<open>
  The program of a call may change the state of the client, such as a counter of nonces.  Every request carries a valid signature of what it
  sends, an order is placed at most once per submission and by nothing else, and a failure of the transport ends the call with an error.
\<close>

locale private_client =
  fixes perform :: "clock \<Rightarrow> 's \<Rightarrow> 'd client_call \<Rightarrow> ((string + 'd client_answer) \<times> 's) http"
    and authentic :: "http_request \<Rightarrow> bool"
    and places :: "http_request \<Rightarrow> bool"
  assumes call_authentic: "every_request authentic (perform clk s c)"
    and submits_once: "at_most places (perform clk s (SubmitOrder r)) 1"
    and places_only_submits: "\<not> is_submit c \<Longrightarrow> every_request (\<lambda>rq. \<not> places rq) (perform clk s c)"
    and call_fail_closed: "fail_closed (isl \<circ> fst) (perform clk s c)"
begin

lemma every_not_none: "every_request (\<lambda>rq. \<not> P rq) p \<Longrightarrow> filter P (fst (run_http p rps)) = []"
  using run_every_request [of "\<lambda>rq. \<not> P rq" p _ rps] by (auto simp: filter_empty_conv)

lemma call_places: "length (filter places (fst (run_http (perform clk s c) rps))) \<le> (if is_submit c then 1 else 0)"
proof (cases c)
  case (SubmitOrder r)
  then show ?thesis using run_at_most [OF submits_once [of clk s r], of rps] by simp
qed (use every_not_none [OF places_only_submits [of c clk s], of rps] in simp_all)

lemma session_authentic: "rq \<in> set (client_session perform s calls) \<Longrightarrow> authentic rq"
proof (induction calls arbitrary: s)
  case (Cons call rest)
  obtain clk c rps where call: "call = (clk, c, rps)" by (cases call) auto
  obtain rqs res where r: "run_http (perform clk s c) rps = (rqs, res)" by fastforce
  then show ?case using Cons.IH Cons.prems call run_every_request [OF call_authentic [of clk s c], of rq rps] by (auto split: option.splits)
qed simp

lemma session_places: "length (filter places (client_session perform s calls)) \<le> length (filter (\<lambda>(_, c, _). is_submit c) calls)"
proof (induction calls arbitrary: s)
  case (Cons call rest)
  obtain clk c rps where call: "call = (clk, c, rps)" by (cases call) auto
  obtain rqs res where r: "run_http (perform clk s c) rps = (rqs, res)" by fastforce
  have "length (filter places rqs) \<le> (if is_submit c then 1 else 0)" using call_places [of clk s c rps] r by simp
  moreover have "length (filter places (client_session perform s' rest)) \<le> length (filter (\<lambda>(_, c, _). is_submit c) rest)" for s'
    by (rule Cons.IH)
  ultimately show ?case using r call add_mono by (fastforce split: option.split if_splits)
qed simp

lemma answers_are_received:
  "run_http (perform clk s c) rps = (rqs, Some (Inr x, s')) \<Longrightarrow> \<forall>err. NoResponse err \<notin> set (take (length rqs) rps)"
  using run_fail_closed [OF call_fail_closed [of clk s c], of rps rqs "(Inr x, s')"] by simp

text \<open>The whole contract for a session, in one statement.\<close>

lemma session_contract: "honest_session authentic places (client_session perform s calls) calls"
  unfolding honest_session_def list_all_iff using session_authentic session_places by blast

end

section \<open>Clients with nonces\<close>

text \<open>
  A client whose state is a counter: a call sends one request, which bears the next number, and counts on, or it sends nothing.  Then the
  numbers of a session increase, as long as the counter does not overflow.
\<close>

locale nonce_client = private_client perform authentic places
  for perform :: "clock \<Rightarrow> u64 \<Rightarrow> 'd client_call \<Rightarrow> ((string + 'd client_answer) \<times> u64) http"
    and authentic places +
  fixes bears :: "u64 \<Rightarrow> http_request \<Rightarrow> bool"
  assumes one_nonce: "(\<exists>r n'. perform clk n c = Return (r, n') \<and> n' \<in> {n, n + 1}) \<or>
    (\<exists>rq k. perform clk n c = Send rq (\<lambda>rp. Return (k rp, n + 1)) \<and> bears (n + 1) rq)"
begin

lemma session_nonces:
  "unat n + length calls < 2 ^ 64 \<Longrightarrow>
   \<exists>ns. list_all2 bears ns (client_session perform n calls) \<and> sorted_wrt (<) ns \<and> (\<forall>m \<in> set ns. n < m)"
proof (induction calls arbitrary: n)
  case (Cons call rest)
  obtain clk c rps where call: "call = (clk, c, rps)" by (cases call) auto
  have up: "unat (n + 1) = unat n + 1" using Cons.prems by (simp add: unat_plus_if' less_Suc_eq)
  then have less: "n < n + 1" by (simp add: word_less_nat_alt)
  have ih: "\<exists>ns. list_all2 bears ns (client_session perform m rest) \<and> sorted_wrt (<) ns \<and> (\<forall>x \<in> set ns. m < x)" if "m \<in> {n, n + 1}" for m
    using Cons.IH [of m] Cons.prems up that by auto
  from one_nonce [of clk n c] show ?case
  proof (elim disjE exE conjE)
    fix r n' assume r: "perform clk n c = Return (r, n')" "n' \<in> {n, n + 1}"
    then have "client_session perform n (call # rest) = client_session perform n' rest" by (simp add: call)
    moreover have "n \<le> n'" using r(2) less by auto
    ultimately show ?thesis using ih [OF r(2)] by (metis order_le_less_trans)
  next
    fix rq k assume rq: "perform clk n c = Send rq (\<lambda>rp. Return (k rp, n + 1))" "bears (n + 1) rq"
    show ?thesis
    proof (cases rps)
      case Nil
      then show ?thesis using rq less by (intro exI [of _ "[n + 1]"]) (simp add: call)
    next
      case (Cons rp rps')
      obtain ns where "list_all2 bears ns (client_session perform (n + 1) rest)" "sorted_wrt (<) ns" "\<forall>x \<in> set ns. n + 1 < x"
        using ih [of "n + 1"] by auto
      then show ?thesis using rq less Cons by (intro exI [of _ "(n + 1) # ns"]) (auto simp: call intro: less_trans)
    qed
  qed
qed simp

end

section \<open>Establishing the contract\<close>

lemma isl_map_sum: "isl x \<Longrightarrow> isl (map_sum id f x)"
  by (cases x) simp_all

lemma fail_closed_answer: "fail_closed isl p \<Longrightarrow> fail_closed isl (http_map (map_sum id f) p)"
  by (rule fail_closed_map [where E = isl]) (simp_all add: isl_map_sum)

lemma fail_closed_with_state: "fail_closed isl p \<Longrightarrow> fail_closed (isl \<circ> fst) (with_state s p)"
  unfolding with_state_def by (rule fail_closed_map [where E = isl]) simp_all

lemma program_simps [http_simps]:
  "every_request P (with_state s p) \<longleftrightarrow> every_request P p"
  "at_most P (with_state s p) n \<longleftrightarrow> at_most P p n"
  by (simp_all add: with_state_def)

lemma client_program_contract:
  assumes "\<And>r. every_request P (submit r)" "\<And>sm oid. every_request P (cancel sm oid)" "\<And>sm oid. every_request P (query sm oid)"
    "\<And>a. every_request P (balance a)"
  shows "every_request P (client_program submit cancel query balance c)"
  using assms by (cases c) (simp_all add: client_program_def)

lemma client_program_once: "at_most P (client_program submit cancel query balance (SubmitOrder r)) n \<longleftrightarrow> at_most P (submit r) n"
  by (simp add: client_program_def)

lemma client_program_others:
  assumes "\<not> is_submit c" "\<And>sm oid. every_request P (cancel sm oid)" "\<And>sm oid. every_request P (query sm oid)" "\<And>a. every_request P (balance a)"
  shows "every_request P (client_program submit cancel query balance c)"
  using assms by (cases c) (simp_all add: client_program_def)

lemma client_program_closed:
  assumes "\<And>r. fail_closed isl (submit r)" "\<And>sm oid. fail_closed isl (cancel sm oid)" "\<And>sm oid. fail_closed isl (query sm oid)"
    "\<And>a. fail_closed isl (balance a)"
  shows "fail_closed isl (client_program submit cancel query balance c)"
  using assms by (cases c) (simp_all add: client_program_def fail_closed_answer)

text \<open>A client without state fulfils the contract when its four programs do.\<close>

lemma stateless_client:
  fixes submit :: "clock \<Rightarrow> 'd order_request \<Rightarrow> (string + 'd client_result) http"
  assumes "\<And>clk r. every_request auth (submit clk r) \<and> at_most pl (submit clk r) 1 \<and> fail_closed isl (submit clk r)"
    and "\<And>clk sm oid. every_request (\<lambda>rq. auth rq \<and> \<not> pl rq) (cancel clk sm oid) \<and> fail_closed isl (cancel clk sm oid)"
    and "\<And>clk sm oid. every_request (\<lambda>rq. auth rq \<and> \<not> pl rq) (query clk sm oid) \<and> fail_closed isl (query clk sm oid)"
    and "\<And>clk a. every_request (\<lambda>rq. auth rq \<and> \<not> pl rq) (balance clk a) \<and> fail_closed isl (balance clk a)"
  shows "private_client (\<lambda>clk s c. with_state s (client_program (submit clk) (cancel clk) (query clk) (balance clk) c)) auth pl"
proof
  have weak: "every_request (\<lambda>rq. auth rq \<and> \<not> pl rq) p \<Longrightarrow> every_request auth p" "every_request (\<lambda>rq. auth rq \<and> \<not> pl rq) p \<Longrightarrow> every_request (\<lambda>rq. \<not> pl rq) p"
    for p :: "'x http" by (induction p) simp_all
  have auth: "every_request auth (submit clk r)" "every_request auth (cancel clk sm oid)" "every_request auth (query clk sm oid)"
    "every_request auth (balance clk a)" for clk r sm oid a
    using assms(1) weak(1) [OF conjunct1 [OF assms(2)]] weak(1) [OF conjunct1 [OF assms(3)]] weak(1) [OF conjunct1 [OF assms(4)]] by simp_all
  have other: "every_request (\<lambda>rq. \<not> pl rq) (cancel clk sm oid)" "every_request (\<lambda>rq. \<not> pl rq) (query clk sm oid)"
    "every_request (\<lambda>rq. \<not> pl rq) (balance clk a)" for clk sm oid a
    using weak(2) [OF conjunct1 [OF assms(2)]] weak(2) [OF conjunct1 [OF assms(3)]] weak(2) [OF conjunct1 [OF assms(4)]] by simp_all
  have closed: "fail_closed isl (submit clk r)" "fail_closed isl (cancel clk sm oid)" "fail_closed isl (query clk sm oid)"
    "fail_closed isl (balance clk a)" for clk r sm oid a using assms by simp_all
  fix clk :: clock and s :: 's and c :: "'d client_call" and r
  show "every_request auth (with_state s (client_program (submit clk) (cancel clk) (query clk) (balance clk) c))"
    unfolding program_simps by (intro client_program_contract auth)
  show "at_most pl (with_state s (client_program (submit clk) (cancel clk) (query clk) (balance clk) (SubmitOrder r))) 1"
    unfolding program_simps client_program_once using assms(1) by simp
  show "every_request (\<lambda>rq. \<not> pl rq) (with_state s (client_program (submit clk) (cancel clk) (query clk) (balance clk) c))" if "\<not> is_submit c"
    unfolding program_simps by (intro client_program_others that other)
  show "fail_closed (isl \<circ> fst) (with_state s (client_program (submit clk) (cancel clk) (query clk) (balance clk) c))"
    by (intro fail_closed_with_state client_program_closed closed)
qed

text \<open>The calls of a client with a counter.\<close>

definition one_shot :: "(http_request \<Rightarrow> bool) \<Rightarrow> (u64 \<Rightarrow> http_request \<Rightarrow> bool) \<Rightarrow> u64 \<Rightarrow> ((string + 'a) \<times> u64) http \<Rightarrow> bool" where
  "one_shot ok bears n p \<longleftrightarrow> (\<exists>r n'. p = Return (r, n') \<and> n' \<in> {n, n + 1}) \<or>
     (\<exists>rq k. p = Send rq (\<lambda>rp. Return (k rp, n + 1)) \<and> ok rq \<and> bears (n + 1) rq \<and> (\<forall>err. isl (k (NoResponse err))))"

lemma one_shot_call [http_simps]: "ok rq \<Longrightarrow> bears (n + 1) rq \<Longrightarrow> one_shot ok bears n (with_state (n + 1) (call label rq res))"
proof -
  define k where "k = (\<lambda>rp. case rp of NoResponse err \<Rightarrow> Inl (label @ '' request failed: '' @ err)
     | Response status shown (Inl err) \<Rightarrow> Inl (label @ '' read body failed: '' @ err)
     | Response status shown (Inr body) \<Rightarrow> res status shown body)"
  have "with_state (n + 1) (call label rq res) = Send rq (\<lambda>rp. Return (k rp, n + 1))"
    unfolding with_state_def http_map_def call_def fetch_def k_def by (simp add: fun_eq_iff split: http_reply.split sum.split)
  moreover have "isl (k (NoResponse err))" for err by (simp add: k_def)
  ultimately show "ok rq \<Longrightarrow> bears (n + 1) rq \<Longrightarrow> one_shot ok bears n (with_state (n + 1) (call label rq res))" unfolding one_shot_def by blast
qed

lemma one_shot_return [http_simps]: "one_shot ok bears n (Return (r, n))" "one_shot ok bears n (Return (r, n + 1))"
  by (simp_all add: one_shot_def)

lemma one_shot_map: "one_shot ok bears n p \<Longrightarrow> one_shot ok bears n (http_map (apfst (map_sum id f)) p)"
proof (unfold one_shot_def, elim disjE exE conjE)
  fix rq k assume "p = Send rq (\<lambda>rp. Return (k rp, n + 1))" "ok rq" "bears (n + 1) rq" "\<forall>err. isl (k (NoResponse err))"
  then show "(\<exists>r n'. http_map (apfst (map_sum id f)) p = Return (r, n') \<and> n' \<in> {n, n + 1}) \<or>
     (\<exists>rq k. http_map (apfst (map_sum id f)) p = Send rq (\<lambda>rp. Return (k rp, n + 1)) \<and> ok rq \<and> bears (n + 1) rq \<and> (\<forall>err. isl (k (NoResponse err))))"
    by (intro disjI2 exI [of _ rq] exI [of _ "\<lambda>rp. map_sum id f (k rp)"]) (simp add: http_map_def isl_map_sum)
qed (simp add: http_map_def)

lemma one_shot_mono: "one_shot ok bears n p \<Longrightarrow> (\<And>rq. ok rq \<Longrightarrow> ok' rq) \<Longrightarrow> one_shot ok' bears n p"
  unfolding one_shot_def by blast

lemma one_shotD:
  assumes "one_shot ok bears n p"
  shows "every_request ok p" "at_most P p 1" "fail_closed (isl \<circ> fst) p"
    "(\<exists>r n'. p = Return (r, n') \<and> n' \<in> {n, n + 1}) \<or> (\<exists>rq k. p = Send rq (\<lambda>rp. Return (k rp, n + 1)) \<and> bears (n + 1) rq)"
  using assms by (auto simp: one_shot_def)

lemma nonce_clientI:
  fixes submit :: "clock \<Rightarrow> u64 \<Rightarrow> 'd order_request \<Rightarrow> ((string + 'd client_result) \<times> u64) http"
  assumes "\<And>clk n r. one_shot auth bears n (submit clk n r)"
    and "\<And>clk n sm oid. one_shot (\<lambda>rq. auth rq \<and> \<not> pl rq) bears n (cancel clk n sm oid)"
    and "\<And>clk n sm oid. one_shot (\<lambda>rq. auth rq \<and> \<not> pl rq) bears n (query clk n sm oid)"
    and "\<And>clk n a. one_shot (\<lambda>rq. auth rq \<and> \<not> pl rq) bears n (balance clk n a)"
  shows "nonce_client (\<lambda>clk n. stateful_program (submit clk n) (cancel clk n) (query clk n) (balance clk n)) auth pl bears"
proof -
  let ?p = "\<lambda>clk n. stateful_program (submit clk n) (cancel clk n) (query clk n) (balance clk n)"
  have other: "one_shot (\<lambda>rq. auth rq \<and> \<not> pl rq) bears n (?p clk n c)" if "\<not> is_submit c" for clk n c
    using that assms by (cases c) (simp_all add: stateful_program_def one_shot_map)
  have any: "one_shot auth bears n (?p clk n c)" for clk n c
  proof (cases c)
    case (SubmitOrder r)
    then show ?thesis using assms(1) by (simp add: stateful_program_def one_shot_map)
  qed (rule one_shot_mono [OF other]; simp)+
  show ?thesis
  proof
    show "every_request (\<lambda>rq. \<not> pl rq) (?p clk n c)" if "\<not> is_submit c" for clk n c
      using one_shotD(1) [OF one_shot_mono [OF other [OF that], where ok' = "\<lambda>rq. \<not> pl rq"]] by simp
  qed (rule one_shotD [OF any])+
qed

end
