(* ===== verification/Signer_Clients.thy ===== *)
theory Signer_Clients
  imports Api_Signing
begin

text \<open>
  The three clients of \<^verbatim>\<open>src/src/signer.rs\<close>: Binance, Bybit and KuCoin.  Each method is a program; its requests carry the URL,
  the headers and the body that the source builds, and its result is read from the reply as in the source.
\<close>

record rest_client =
  cl_id :: u16
  cl_key :: string
  cl_signer :: api_signer
  cl_url :: string

section \<open>Binance\<close>

definition binance_new :: "u16 \<Rightarrow> string \<Rightarrow> string \<Rightarrow> string \<Rightarrow> rest_client" where
  "binance_new i key secret url = \<lparr>cl_id = i, cl_key = key, cl_signer = signer_new key secret, cl_url = url\<rparr>"

definition binance_get :: "http_method \<Rightarrow> rest_client \<Rightarrow> string \<Rightarrow> http_request" where
  "binance_get meth c path_query =
     \<lparr>rq_method = meth, rq_url = cl_url c @ path_query, rq_headers = [(''X-MBX-APIKEY'', cl_key c)], rq_body = None\<rparr>"

definition either_str :: "string \<Rightarrow> string \<Rightarrow> 'f json \<Rightarrow> string option" where
  "either_str k1 k2 v = Option.bind (or_else (json_get k1 v) (json_get k2 v)) as_str"

definition numeric_id :: "string \<Rightarrow> 'f json \<Rightarrow> string option" where
  "numeric_id k v = or_else (map_option show_i64 (Option.bind (json_get k v) as_i64)) (get_str k v)"

definition binance_query_order ::
  "('f, 'd) client_api \<Rightarrow> rest_client \<Rightarrow> clock \<Rightarrow> string \<Rightarrow> string \<Rightarrow> (string + 'd client_result) http" where
  "binance_query_order A c clk symbol oid =
     (let label = ''Binance query_order'';
          base_params = query_text (map_order A [(''symbol'', to_uppercase symbol), (''orderId'', oid)]);
          signed_query = generate_signed_query A (clk 0) (cl_signer c) base_params
      in call label (binance_get GET c (''/api/v3/order?'' @ signed_query)) (\<lambda>status shown body.
           require_ok label status shown body (decode (from_str A) label body (\<lambda>v.
             let status_str = unwrap_or (get_str ''status'' v) ''UNKNOWN''
             in Inr (queried (status_str = ''FILLED'' \<or> status_str = ''PARTIALLY_FILLED'') (numeric_id ''orderId'' v)
                  (or_dec A (either_str ''executedQty'' ''filled'' v)) (str_dec A ''avgPrice'' v) (''unfilled: '' @ status_str))))))"

definition binance_order_params :: "('f, 'd) client_api \<Rightarrow> 'd order_request \<Rightarrow> (string \<times> string) list" where
  "binance_order_params A r =
     [(''symbol'', to_uppercase (or_symbol r)), (''side'', side_name (or_side r)), (''type'', kind_name (or_kind r)),
      (''quantity'', show_dec A (or_quantity r))] @
     opt_param ''price'' (map_option (show_dec A) (or_price r)) @ opt_param ''newClientOrderId'' (or_client_id r) @
     (if or_kind r = LimitOrder then [(''timeInForce'', ''GTC'')] else [])"

text \<open>
  The average price: of the fills, when the member that is found first, \<^verbatim>\<open>avgPrice\<close> or \<^verbatim>\<open>fills\<close>, is an array with a positive
  quantity; otherwise the member \<^verbatim>\<open>price\<close>.
\<close>

definition fill_qty :: "('f, 'd) client_api \<Rightarrow> string \<Rightarrow> 'f json \<Rightarrow> 'd option" where
  "fill_qty A k f = Option.bind (get_str k f) (\<lambda>s. ok_of (read_decimal A s))"

definition fills_price :: "('f, 'd::linorder) client_api \<Rightarrow> 'f json list \<Rightarrow> 'd option" where
  "fills_price A fills =
     (let D = num_ops A;
          total_qty = foldl (dec_add D) (dec_zero D) (List.map_filter (fill_qty A ''qty'') fills);
          cost = (\<lambda>f. Option.bind (fill_qty A ''qty'' f) (\<lambda>x. map_option (dec_mul D x) (fill_qty A ''price'' f)));
          total_cost = foldl (dec_add D) (dec_zero D) (List.map_filter cost fills)
      in if dec_zero D < total_qty then Some (dec_div D total_cost total_qty) else None)"

definition binance_avg_price :: "('f, 'd::linorder) client_api \<Rightarrow> 'f json \<Rightarrow> 'd" where
  "binance_avg_price A v =
     unwrap_or (or_else (Option.bind (Option.bind (or_else (json_get ''avgPrice'' v) (json_get ''fills'' v)) as_array) (fills_price A))
                  (fill_qty A ''price'' v)) (zero_of A)"

definition binance_submit_order ::
  "('f, 'd::linorder) client_api \<Rightarrow> rest_client \<Rightarrow> clock \<Rightarrow> 'd order_request \<Rightarrow> (string + 'd client_result) http" where
  "binance_submit_order A c clk r =
     (let label = ''Binance submit_order'';
          signed_query = generate_signed_query A (clk 0) (cl_signer c) (query_text (map_order A (binance_order_params A r)))
      in call label
           \<lparr>rq_method = POST, rq_url = cl_url c @ ''/api/v3/order'',
            rq_headers = [(''X-MBX-APIKEY'', cl_key c), (''Content-Type'', ''application/x-www-form-urlencoded'')],
            rq_body = Some signed_query\<rparr>
           (\<lambda>status shown body. decode (from_str A) label body (\<lambda>v.
              if is_success status
              then Inr \<lparr>res_success = True, res_order_id = numeric_id ''orderId'' v,
                        res_filled = or_dec A (either_str ''filled'' ''executedQty'' v), res_avg_price = binance_avg_price A v, res_error = None\<rparr>
              else Inr (refused A (unwrap_or (get_str ''msg'' v) body)))))"

fun find_entry :: "('f json \<Rightarrow> bool) \<Rightarrow> 'f json list \<Rightarrow> 'f json option" where
  "find_entry P [] = None"
| "find_entry P (v # vs) = (if P v then Some v else find_entry P vs)"

definition binance_get_balance :: "('f, 'd) client_api \<Rightarrow> rest_client \<Rightarrow> clock \<Rightarrow> string \<Rightarrow> (string + 'd) http" where
  "binance_get_balance A c clk asset =
     (let label = ''Binance get_balance''
      in call label (binance_get GET c (''/api/v3/account?'' @ generate_signed_query A (clk 0) (cl_signer c) [])) (\<lambda>status shown body.
           require_ok label status shown body (decode (from_str A) label body (\<lambda>v.
             case get_array ''balances'' v of
               None \<Rightarrow> Inl (label @ '': missing 'balances' array'')
             | Some entries \<Rightarrow>
                 (case find_entry (\<lambda>e. eq_ignore_case (unwrap_or (get_str ''asset'' e) []) asset) entries of
                    Some e \<Rightarrow> Inr (dec_add (num_ops A) (str_dec A ''free'' e) (str_dec A ''locked'' e))
                  | None \<Rightarrow> Inl (label @ '': asset '' @ [CHR 0x27] @ asset @ [CHR 0x27] @ '' not found in account''))))))"

definition binance_fill :: "('f, 'd) client_api \<Rightarrow> string \<Rightarrow> 'f json \<Rightarrow> 'd client_result" where
  "binance_fill A oid v =
     \<lparr>res_success = True, res_order_id = Some oid, res_filled = or_dec A (either_str ''executedQty'' ''filled'' v),
      res_avg_price = str_dec A ''avgPrice'' v, res_error = None\<rparr>"

definition binance_cancel_order ::
  "('f, 'd) client_api \<Rightarrow> rest_client \<Rightarrow> clock \<Rightarrow> string \<Rightarrow> string \<Rightarrow> (string + 'd client_result) http" where
  "binance_cancel_order A c clk symbol oid =
     (let base_params = ''symbol='' @ to_uppercase symbol @ ''&orderId='' @ oid;
          signed = (\<lambda>ts. ''/api/v3/order?'' @ generate_signed_query A ts (cl_signer c) base_params);
          label = ''Binance cancel_order query''; label2 = ''Binance cancel_order delete''
      in fetch label (binance_get GET c (signed (clk 0))) (\<lambda>status shown body.
           case require_ok label status shown body (decode (from_str A) label body Inr) of
             Inl err \<Rightarrow> Return (Inl err)
           | Inr v \<Rightarrow>
               if unwrap_or (get_str ''status'' v) [] \<in> {''FILLED'', ''CANCELED'', ''EXPIRED'', ''REJECTED''}
               then Return (Inr (binance_fill A oid v))
               else call label2 (binance_get DELETE c (signed (clk 1))) (\<lambda>status shown body.
                      decode (from_str A) label2 body (\<lambda>v.
                        if is_success status then Inr (binance_fill A oid v)
                        else Inl (''Binance cancel_order failed: '' @ unwrap_or (get_str ''msg'' v) body)))))"

section \<open>Bybit\<close>

definition bybit_new :: "u16 \<Rightarrow> string \<Rightarrow> string \<Rightarrow> string \<Rightarrow> rest_client" where
  "bybit_new i key secret url = \<lparr>cl_id = i, cl_key = key, cl_signer = signer_new key secret, cl_url = url\<rparr>"

definition recv_window :: string where
  "recv_window = ''5000''"

definition bybit_headers :: "('f, 'd) client_api \<Rightarrow> rest_client \<Rightarrow> u64 \<Rightarrow> string \<Rightarrow> (string \<times> string) list" where
  "bybit_headers A c ts payload =
     (let pre_sign = show_word ts @ cl_key c @ recv_window @ payload
      in [(''X-BAPI-API-KEY'', cl_key c), (''X-BAPI-SIGN'', generate_hmac_signature A (cl_signer c) pre_sign),
          (''X-BAPI-TIMESTAMP'', show_word ts), (''X-BAPI-RECV-WINDOW'', recv_window)])"

definition bybit_query_order ::
  "('f, 'd) client_api \<Rightarrow> rest_client \<Rightarrow> clock \<Rightarrow> string \<Rightarrow> string \<Rightarrow> (string + 'd client_result) http" where
  "bybit_query_order A c clk symbol oid =
     (let label = ''Bybit query_order''; query_string = ''orderId='' @ oid
      in call label
           \<lparr>rq_method = GET, rq_url = cl_url c @ ''/v5/order/realtime?orderId='' @ oid,
            rq_headers = bybit_headers A c (clk 0) query_string, rq_body = None\<rparr>
           (\<lambda>status shown body. require_ok label status shown body (decode (from_str A) label body (\<lambda>v.
              case first_of (Option.bind (json_get ''result'' v) (get_array ''list'')) of
                Some entry \<Rightarrow>
                  let st = unwrap_or (get_str ''orderStatus'' entry) ''UNKNOWN''
                  in Inr (queried (st = ''Filled'' \<or> st = ''PartiallyFilled'') (Some oid) (str_dec A ''cumExecQty'' entry)
                       (str_dec A ''avgPrice'' entry) (''unfilled: '' @ st))
              | None \<Rightarrow> Inr ((refused A ''order not found'')\<lparr>res_order_id := Some oid\<rparr>)))))"

definition bybit_order_body :: "('f, 'd) client_api \<Rightarrow> 'd order_request \<Rightarrow> 'f json" where
  "bybit_order_body A r =
     jinsert_opt ''orderLinkId'' (map_option JString (or_client_id r))
       (jinsert_opt ''price'' (map_option (JString \<circ> show_dec A) (or_price r))
         (JObject [(''category'', JString ''spot''), (''symbol'', JString (to_uppercase (or_symbol r))), (''side'', JString (side_name (or_side r))),
            (''orderType'', JString (order_type_to_bybit (or_kind r))), (''qty'', JString (show_dec A (or_quantity r)))]))"

definition bybit_post :: "('f, 'd) client_api \<Rightarrow> rest_client \<Rightarrow> u64 \<Rightarrow> string \<Rightarrow> string \<Rightarrow> http_request" where
  "bybit_post A c ts path body_json =
     \<lparr>rq_method = POST, rq_url = cl_url c @ path, rq_headers = bybit_headers A c ts body_json @ [(''Content-Type'', ''application/json'')],
      rq_body = Some body_json\<rparr>"

definition ret_code :: "'f json \<Rightarrow> i64" where
  "ret_code v = unwrap_or (Option.bind (json_get ''retCode'' v) as_i64) (- 1)"

definition bybit_submit_order ::
  "('f, 'd) client_api \<Rightarrow> rest_client \<Rightarrow> clock \<Rightarrow> 'd order_request \<Rightarrow> (string + 'd client_result) http" where
  "bybit_submit_order A c clk r =
     (let label = ''Bybit submit_order''
      in call label (bybit_post A c (clk 0) ''/v5/order/create'' (json_text A (bybit_order_body A r))) (\<lambda>status shown body.
           decode (from_str A) label body (\<lambda>v.
             if ret_code v = 0
             then let result = json_get ''result'' v; str = (\<lambda>k. Option.bind result (get_str k))
                  in Inr \<lparr>res_success = True, res_order_id = str ''orderId'', res_filled = or_dec A (str ''cumExecQty''),
                          res_avg_price = or_dec A (str ''avgPrice''), res_error = None\<rparr>
             else Inr (refused A (unwrap_or (get_str ''retMsg'' v) ''unknown Bybit error'')))))"

definition bybit_get_balance :: "('f, 'd) client_api \<Rightarrow> rest_client \<Rightarrow> clock \<Rightarrow> string \<Rightarrow> (string + 'd) http" where
  "bybit_get_balance A c clk asset =
     (let label = ''Bybit get_balance''; query_string = ''accountType=UNIFIED''
      in call label
           \<lparr>rq_method = GET, rq_url = cl_url c @ ''/v5/account/wallet-balance?accountType=UNIFIED'',
            rq_headers = bybit_headers A c (clk 0) query_string, rq_body = None\<rparr>
           (\<lambda>status shown body. require_ok label status shown body (decode (from_str A) label body (\<lambda>v.
              if ret_code v \<noteq> 0
              then Inl (label @ '' error (retCode='' @ show_i64 (ret_code v) @ ''): '' @ unwrap_or (get_str ''retMsg'' v) ''unknown error'')
              else case Option.bind (jpointer [''result'', ''list'', ''0'', ''coin''] v) as_array of
                     None \<Rightarrow> Inl (label @ '': cannot locate coin list'')
                   | Some coins \<Rightarrow>
                       (case find_entry (\<lambda>e. eq_ignore_case (unwrap_or (get_str ''coin'' e) []) asset) coins of
                          Some e \<Rightarrow> Inr (str_dec A ''walletBalance'' e)
                        | None \<Rightarrow> Inl (label @ '': asset '' @ [CHR 0x27] @ asset @ [CHR 0x27] @ '' not found''))))))"

definition bybit_cancel_order ::
  "('f, 'd) client_api \<Rightarrow> rest_client \<Rightarrow> clock \<Rightarrow> string \<Rightarrow> string \<Rightarrow> (string + 'd client_result) http" where
  "bybit_cancel_order A c clk symbol oid =
     (let label = ''Bybit cancel_order'';
          body_map = JObject [(''category'', JString ''spot''), (''symbol'', JString (to_uppercase symbol)), (''orderId'', JString oid)]
      in call label (bybit_post A c (clk 0) ''/v5/order/cancel'' (json_text A body_map)) (\<lambda>status shown body.
           decode (from_str A) label body (\<lambda>v.
             if ret_code v = 0 then Inr (accepted A (Some oid))
             else Inl (label @ '' failed (retCode='' @ show_i64 (ret_code v) @ ''): '' @ unwrap_or (get_str ''retMsg'' v) ''unknown Bybit cancel error''))))"

section \<open>KuCoin\<close>

definition kucoin_new :: "u16 \<Rightarrow> string \<Rightarrow> string \<Rightarrow> string \<Rightarrow> string \<Rightarrow> rest_client" where
  "kucoin_new i key secret pass url = \<lparr>cl_id = i, cl_key = key, cl_signer = signer_with_passphrase key secret pass, cl_url = url\<rparr>"

definition kc_sign :: "('f, 'd) client_api \<Rightarrow> rest_client \<Rightarrow> string \<Rightarrow> string" where
  "kc_sign A c preimage = base64 A (hmac_sha256 A (sg_secret (cl_signer c)) preimage)"

definition kc_passphrase :: "rest_client \<Rightarrow> string" where
  "kc_passphrase c = unwrap_or (sg_passphrase (cl_signer c)) []"

definition kc_auth_headers :: "('f, 'd) client_api \<Rightarrow> rest_client \<Rightarrow> u64 \<Rightarrow> string \<Rightarrow> string \<Rightarrow> string \<Rightarrow> (string \<times> string) list" where
  "kc_auth_headers A c ts meth path body =
     [(''KC-API-KEY'', cl_key c), (''KC-API-SIGN'', kc_sign A c (show_word ts @ meth @ path @ body)), (''KC-API-TIMESTAMP'', show_word ts),
      (''KC-API-PASSPHRASE'', kc_sign A c (kc_passphrase c)), (''KC-API-KEY-VERSION'', ''2''), (''Content-Type'', ''application/json'')]"

definition kucoin_query_order ::
  "('f, 'd::linorder) client_api \<Rightarrow> rest_client \<Rightarrow> clock \<Rightarrow> string \<Rightarrow> string \<Rightarrow> (string + 'd client_result) http" where
  "kucoin_query_order A c clk symbol oid =
     (let label = ''KuCoin query_order''; D = num_ops A; timestamp = show_word (clk 0);
          signature = kc_sign A c (timestamp @ ''GET'' @ ''/api/v1/orders/'' @ oid)
      in call label
           \<lparr>rq_method = GET, rq_url = cl_url c @ ''/api/v1/orders/'' @ oid,
            rq_headers = [(''KC-API-KEY'', header_or_empty A (cl_key c)), (''KC-API-SIGN'', header_or_empty A signature),
              (''KC-API-TIMESTAMP'', header_or_empty A timestamp),
              (''KC-API-PASSPHRASE'', header_or_empty A (kc_sign A c (kc_passphrase c))), (''KC-API-KEY-VERSION'', ''2'')],
            rq_body = None\<rparr>
           (\<lambda>status shown body. require_ok label status shown body (decode (from_str A) label body (\<lambda>v.
              case json_get ''data'' v of
                None \<Rightarrow> Inr ((refused A ''order not found'')\<lparr>res_order_id := Some oid\<rparr>)
              | Some entry \<Rightarrow>
                  let filled = str_dec A ''dealSize'' entry;
                      avg = unwrap_or (Option.bind (fill_qty A ''dealFunds'' entry)
                              (\<lambda>funds. if dec_zero D < filled then Some (dec_div D funds filled) else None)) (dec_zero D);
                      is_active = unwrap_or (Option.bind (json_get ''isActive'' entry) as_bool) True
                  in Inr (queried (\<not> is_active \<and> dec_zero D < filled) (Some oid) filled avg
                       (''unfilled isActive='' @ (if is_active then ''true'' else ''false'')))))))"

fun kucoin_type :: "order_kind \<Rightarrow> string" where
  "kucoin_type LimitOrder = ''limit''"
| "kucoin_type MarketOrder = ''market''"
| "kucoin_type FokOrder = ''limit''"
| "kucoin_type IocOrder = ''limit''"

definition kucoin_order_body :: "('f, 'd) client_api \<Rightarrow> 'd order_request \<Rightarrow> 'f json" where
  "kucoin_order_body A r =
     jinsert_opt ''price'' (map_option (JString \<circ> show_dec A) (or_price r))
       (JObject [(''clientOid'', JString (unwrap_or (or_client_id r) ''hft-oid'')), (''side'', JString (side_lower (or_side r))),
          (''symbol'', JString (to_uppercase (or_symbol r))), (''type'', JString (kucoin_type (or_kind r))),
          (''size'', JString (show_dec A (or_quantity r)))])"

definition kucoin_request :: "('f, 'd) client_api \<Rightarrow> rest_client \<Rightarrow> u64 \<Rightarrow> http_method \<Rightarrow> string \<Rightarrow> string option \<Rightarrow> http_request" where
  "kucoin_request A c ts m path body =
     \<lparr>rq_method = m, rq_url = cl_url c @ path, rq_headers = kc_auth_headers A c ts (method_name m) path (unwrap_or body []), rq_body = body\<rparr>"

definition kucoin_submit_order ::
  "('f, 'd) client_api \<Rightarrow> rest_client \<Rightarrow> clock \<Rightarrow> 'd order_request \<Rightarrow> (string + 'd client_result) http" where
  "kucoin_submit_order A c clk r =
     (let label = ''Kucoin submit_order''
      in call label (kucoin_request A c (clk 0) POST ''/api/v1/orders'' (Some (json_text A (kucoin_order_body A r)))) (\<lambda>status shown body.
           decode (from_str A) label body (\<lambda>v.
             if is_success status then Inr (accepted A (Option.bind (json_get ''data'' v) (get_str ''orderId'')))
             else Inr (refused A (unwrap_or (get_str ''msg'' v) body)))))"

definition kucoin_get_balance :: "('f, 'd::linorder) client_api \<Rightarrow> rest_client \<Rightarrow> clock \<Rightarrow> string \<Rightarrow> (string + 'd) http" where
  "kucoin_get_balance A c clk asset =
     (let label = ''Kucoin get_balance''; D = num_ops A
      in call label (kucoin_request A c (clk 0) GET (''/api/v1/accounts?currency='' @ to_uppercase asset) None) (\<lambda>status shown body.
           require_ok label status shown body (decode (from_str A) label body (\<lambda>v.
             case get_array ''data'' v of
               None \<Rightarrow> Inl (label @ '': missing data array'')
             | Some accounts \<Rightarrow>
                 let sum = foldl (\<lambda>acc e. if eq_ignore_case (unwrap_or (get_str ''currency'' e) []) asset
                                          then dec_add D acc (str_dec A ''balance'' e) else acc) (dec_zero D) accounts
                 in if dec_zero D < sum then Inr sum
                    else Inl (label @ '': asset '' @ [CHR 0x27] @ asset @ [CHR 0x27] @ '' not found or zero'')))))"

definition kucoin_cancel_order ::
  "('f, 'd) client_api \<Rightarrow> rest_client \<Rightarrow> clock \<Rightarrow> string \<Rightarrow> string \<Rightarrow> (string + 'd client_result) http" where
  "kucoin_cancel_order A c clk symbol oid =
     (let label = ''Kucoin cancel_order''
      in call label (kucoin_request A c (clk 0) DELETE (''/api/v1/orders/'' @ oid) None) (\<lambda>status shown body.
           require_ok label status shown body (decode (from_str A) label body (\<lambda>v.
             Inr (accepted A (Some (unwrap_or (Option.bind (jpointer [''data'', ''orderId''] v) as_str) oid)))))))"

section \<open>The contract\<close>

text \<open>A text that ends with a timestamp and a signature of everything before the signature.\<close>

definition signed_text :: "('f, 'd) client_api \<Rightarrow> api_signer \<Rightarrow> string \<Rightarrow> bool" where
  "signed_text A sg txt \<longleftrightarrow> (\<exists>q ts. let stamped = q @ ''timestamp='' @ show_word (ts::u64) in txt = stamped @ ''&signature='' @ hex A (hmac_sha256 A (sg_secret sg) stamped))"

lemma signed_query_signed [simp]: "signed_text A sg (generate_signed_query A ts sg base_params)"
proof (cases "base_params = []")
  case True
  then show ?thesis unfolding signed_text_def by (intro exI [of _ "[]"] exI [of _ ts]) (simp add: generate_signed_query_def generate_hmac_signature_def)
next
  case False
  then show ?thesis unfolding signed_text_def by (intro exI [of _ "base_params @ ''&''"] exI [of _ ts]) (simp add: generate_signed_query_def generate_hmac_signature_def)
qed

text \<open>What is signed is the body of the request or, when it has none, the part of the URL behind the question mark.\<close>

definition sent_text :: "string \<Rightarrow> http_request \<Rightarrow> string \<Rightarrow> bool" where
  "sent_text url rq txt \<longleftrightarrow> rq_body rq = Some txt \<or> rq_body rq = None \<and> (\<exists>path. rq_url rq = url @ path @ ''?'' @ txt)"

lemma sent_query: "rq_body rq = None \<Longrightarrow> rq_url rq = url @ path @ ''?'' @ txt \<Longrightarrow> sent_text url rq txt"
  by (auto simp: sent_text_def)

definition binance_authentic :: "('f, 'd) client_api \<Rightarrow> rest_client \<Rightarrow> http_request \<Rightarrow> bool" where
  "binance_authentic A c rq \<longleftrightarrow> (''X-MBX-APIKEY'', cl_key c) \<in> set (rq_headers rq) \<and> (\<exists>txt. sent_text (cl_url c) rq txt \<and> signed_text A (cl_signer c) txt)"

definition binance_places :: "rest_client \<Rightarrow> http_request \<Rightarrow> bool" where
  "binance_places c rq \<longleftrightarrow> rq_method rq = POST \<and> rq_url rq = cl_url c @ ''/api/v3/order''"

definition binance_perform ::
  "('f, 'd::linorder) client_api \<Rightarrow> rest_client \<Rightarrow> clock \<Rightarrow> 's \<Rightarrow> 'd client_call \<Rightarrow> ((string + 'd client_answer) \<times> 's) http" where
  "binance_perform A c = (\<lambda>clk s call. with_state s
     (client_program (binance_submit_order A c clk) (binance_cancel_order A c clk) (binance_query_order A c clk) (binance_get_balance A c clk) call))"

lemma binance_get_authentic:
  "signed_text A (cl_signer c) txt \<Longrightarrow> m \<noteq> POST \<Longrightarrow>
     binance_authentic A c (binance_get m c (path @ ''?'' @ txt)) \<and> \<not> binance_places c (binance_get m c (path @ ''?'' @ txt))"
  by (auto simp: binance_authentic_def binance_places_def binance_get_def sent_text_def)

interpretation binance: private_client "binance_perform A c" "binance_authentic A c" "binance_places c" for A c
  unfolding binance_perform_def
proof (rule stateless_client)
  fix clk r sm oid a
  have cancel: "every_request (\<lambda>rq. binance_authentic A c rq \<and> \<not> binance_places c rq) (binance_cancel_order A c clk sm oid)"
    using binance_get_authentic [of A c "generate_signed_query A ts (cl_signer c) q" m "''/api/v3/order''" for ts q m]
    by (auto simp: binance_cancel_order_def Let_def http_simps split: sum.split)
  show "every_request (binance_authentic A c) (binance_submit_order A c clk r) \<and> at_most (binance_places c) (binance_submit_order A c clk r) 1 \<and>
      fail_closed isl (binance_submit_order A c clk r)"
    by (auto simp: binance_submit_order_def Let_def http_simps binance_authentic_def sent_text_def)
  show "every_request (\<lambda>rq. binance_authentic A c rq \<and> \<not> binance_places c rq) (binance_cancel_order A c clk sm oid) \<and>
      fail_closed isl (binance_cancel_order A c clk sm oid)"
    using cancel by (auto simp: binance_cancel_order_def Let_def http_simps split: sum.split)
  show "every_request (\<lambda>rq. binance_authentic A c rq \<and> \<not> binance_places c rq) (binance_query_order A c clk sm oid) \<and>
      fail_closed isl (binance_query_order A c clk sm oid)"
    using binance_get_authentic [of A c _ GET "''/api/v3/order''"] by (simp add: binance_query_order_def Let_def http_simps)
  show "every_request (\<lambda>rq. binance_authentic A c rq \<and> \<not> binance_places c rq) (binance_get_balance A c clk a) \<and>
      fail_closed isl (binance_get_balance A c clk a)"
    using binance_get_authentic [of A c _ GET "''/api/v3/account''"] by (simp add: binance_get_balance_def Let_def http_simps)
qed

definition bybit_authentic :: "('f, 'd) client_api \<Rightarrow> rest_client \<Rightarrow> http_request \<Rightarrow> bool" where
  "bybit_authentic A c rq \<longleftrightarrow> (\<exists>(ts::u64) payload. sent_text (cl_url c) rq payload \<and>
     {(''X-BAPI-API-KEY'', cl_key c), (''X-BAPI-TIMESTAMP'', show_word ts), (''X-BAPI-RECV-WINDOW'', ''5000''),
      (''X-BAPI-SIGN'', hex A (hmac_sha256 A (sg_secret (cl_signer c)) (show_word ts @ cl_key c @ ''5000'' @ payload)))} \<subseteq> set (rq_headers rq))"

lemma bybit_authenticI: "sent_text (cl_url c) rq payload \<Longrightarrow> set (bybit_headers A c ts payload) \<subseteq> set (rq_headers rq) \<Longrightarrow> bybit_authentic A c rq"
  unfolding bybit_authentic_def bybit_headers_def recv_window_def generate_hmac_signature_def Let_def by auto

definition bybit_places :: "rest_client \<Rightarrow> http_request \<Rightarrow> bool" where
  "bybit_places c rq \<longleftrightarrow> rq_method rq = POST \<and> rq_url rq = cl_url c @ ''/v5/order/create''"

definition bybit_perform ::
  "('f, 'd) client_api \<Rightarrow> rest_client \<Rightarrow> clock \<Rightarrow> 's \<Rightarrow> 'd client_call \<Rightarrow> ((string + 'd client_answer) \<times> 's) http" where
  "bybit_perform A c = (\<lambda>clk s call. with_state s
     (client_program (bybit_submit_order A c clk) (bybit_cancel_order A c clk) (bybit_query_order A c clk) (bybit_get_balance A c clk) call))"

lemma bybit_post_authentic: "bybit_authentic A c (bybit_post A c ts path body)"
  by (rule bybit_authenticI) (auto simp: bybit_post_def sent_text_def)

lemma bybit_get_authentic:
  "bybit_authentic A c \<lparr>rq_method = GET, rq_url = cl_url c @ path @ ''?'' @ q, rq_headers = bybit_headers A c ts q, rq_body = None\<rparr>"
  by (rule bybit_authenticI) (auto simp: sent_text_def)

interpretation bybit: private_client "bybit_perform A c" "bybit_authentic A c" "bybit_places c" for A c
  unfolding bybit_perform_def
proof (rule stateless_client)
  fix clk r sm oid a
  note [simp] = bybit_post_authentic
  show "every_request (bybit_authentic A c) (bybit_submit_order A c clk r) \<and> at_most (bybit_places c) (bybit_submit_order A c clk r) 1 \<and>
      fail_closed isl (bybit_submit_order A c clk r)"
    by (simp add: bybit_submit_order_def Let_def http_simps)
  show "every_request (\<lambda>rq. bybit_authentic A c rq \<and> \<not> bybit_places c rq) (bybit_cancel_order A c clk sm oid) \<and>
      fail_closed isl (bybit_cancel_order A c clk sm oid)"
    by (simp add: bybit_cancel_order_def Let_def http_simps) (simp add: bybit_places_def bybit_post_def)
  show "every_request (\<lambda>rq. bybit_authentic A c rq \<and> \<not> bybit_places c rq) (bybit_query_order A c clk sm oid) \<and>
      fail_closed isl (bybit_query_order A c clk sm oid)"
    using bybit_get_authentic [of A c "''/v5/order/realtime''" "''orderId='' @ oid" "clk 0"]
    by (simp add: bybit_query_order_def bybit_places_def Let_def http_simps)
  show "every_request (\<lambda>rq. bybit_authentic A c rq \<and> \<not> bybit_places c rq) (bybit_get_balance A c clk a) \<and>
      fail_closed isl (bybit_get_balance A c clk a)"
    using bybit_get_authentic [of A c "''/v5/account/wallet-balance''" "''accountType=UNIFIED''" "clk 0"]
    by (simp add: bybit_get_balance_def bybit_places_def Let_def http_simps)
qed

text \<open>KuCoin signs the time, the method, the path and the body; in one method a value that no header can carry is replaced by the empty text.\<close>

definition carries :: "('f, 'd) client_api \<Rightarrow> http_request \<Rightarrow> string \<Rightarrow> string \<Rightarrow> bool" where
  "carries A rq name v \<longleftrightarrow> (name, v) \<in> set (rq_headers rq) \<or> \<not> header_ok A v \<and> (name, []) \<in> set (rq_headers rq)"

definition kucoin_authentic :: "('f, 'd) client_api \<Rightarrow> rest_client \<Rightarrow> http_request \<Rightarrow> bool" where
  "kucoin_authentic A c rq \<longleftrightarrow> (\<exists>(ts::u64) path. rq_url rq = cl_url c @ path \<and> carries A rq ''KC-API-KEY'' (cl_key c) \<and>
     carries A rq ''KC-API-TIMESTAMP'' (show_word ts) \<and> carries A rq ''KC-API-PASSPHRASE'' (base64 A (hmac_sha256 A (sg_secret (cl_signer c)) (unwrap_or (sg_passphrase (cl_signer c)) []))) \<and>
     carries A rq ''KC-API-SIGN'' (base64 A (hmac_sha256 A (sg_secret (cl_signer c))
       (show_word ts @ method_name (rq_method rq) @ path @ unwrap_or (rq_body rq) []))))"

definition kucoin_places :: "rest_client \<Rightarrow> http_request \<Rightarrow> bool" where
  "kucoin_places c rq \<longleftrightarrow> rq_method rq = POST \<and> rq_url rq = cl_url c @ ''/api/v1/orders''"

definition kucoin_perform ::
  "('f, 'd::linorder) client_api \<Rightarrow> rest_client \<Rightarrow> clock \<Rightarrow> 's \<Rightarrow> 'd client_call \<Rightarrow> ((string + 'd client_answer) \<times> 's) http" where
  "kucoin_perform A c = (\<lambda>clk s call. with_state s
     (client_program (kucoin_submit_order A c clk) (kucoin_cancel_order A c clk) (kucoin_query_order A c clk) (kucoin_get_balance A c clk) call))"

lemma kucoin_request_authentic: "kucoin_authentic A c (kucoin_request A c ts m path body)"
  unfolding kucoin_authentic_def by (intro exI [of _ ts] exI [of _ path]) (simp add: kucoin_request_def kc_auth_headers_def carries_def kc_sign_def kc_passphrase_def)

lemma kucoin_query_authentic:
  "kucoin_authentic A c \<lparr>rq_method = GET, rq_url = cl_url c @ path,
     rq_headers = [(''KC-API-KEY'', header_or_empty A (cl_key c)), (''KC-API-SIGN'', header_or_empty A (kc_sign A c (show_word ts @ ''GET'' @ path))),
       (''KC-API-TIMESTAMP'', header_or_empty A (show_word (ts::u64))), (''KC-API-PASSPHRASE'', header_or_empty A (kc_sign A c (kc_passphrase c))),
       (''KC-API-KEY-VERSION'', ''2'')], rq_body = None\<rparr>"
  unfolding kucoin_authentic_def by (intro exI [of _ ts] exI [of _ path]) (simp add: carries_def header_or_empty_def unwrap_or_def kc_sign_def kc_passphrase_def)

interpretation kucoin: private_client "kucoin_perform A c" "kucoin_authentic A c" "kucoin_places c" for A c
  unfolding kucoin_perform_def
proof (rule stateless_client)
  fix clk r sm oid a
  note [simp] = kucoin_request_authentic
  show "every_request (kucoin_authentic A c) (kucoin_submit_order A c clk r) \<and> at_most (kucoin_places c) (kucoin_submit_order A c clk r) 1 \<and>
      fail_closed isl (kucoin_submit_order A c clk r)"
    by (simp add: kucoin_submit_order_def Let_def http_simps)
  show "every_request (\<lambda>rq. kucoin_authentic A c rq \<and> \<not> kucoin_places c rq) (kucoin_cancel_order A c clk sm oid) \<and>
      fail_closed isl (kucoin_cancel_order A c clk sm oid)"
    by (simp add: kucoin_cancel_order_def Let_def http_simps) (simp add: kucoin_places_def kucoin_request_def)
  show "every_request (\<lambda>rq. kucoin_authentic A c rq \<and> \<not> kucoin_places c rq) (kucoin_query_order A c clk sm oid) \<and>
      fail_closed isl (kucoin_query_order A c clk sm oid)"
    using kucoin_query_authentic [of A c "''/api/v1/orders/'' @ oid" "clk 0"]
    by (simp add: kucoin_query_order_def kucoin_places_def Let_def http_simps)
  show "every_request (\<lambda>rq. kucoin_authentic A c rq \<and> \<not> kucoin_places c rq) (kucoin_get_balance A c clk a) \<and>
      fail_closed isl (kucoin_get_balance A c clk a)"
    by (simp add: kucoin_get_balance_def Let_def http_simps) (simp add: kucoin_places_def kucoin_request_def)
qed

section \<open>What the clients get wrong\<close>

text \<open>
  KuCoin: a fill-or-kill or immediate-or-cancel order is sent as a plain limit order, which stays in the book.  Binance: an answer
  with \<^verbatim>\<open>avgPrice\<close> as a text hides the fills, and the price of the order is reported as the price of the fills.
\<close>

lemma kucoin_ignores_time_in_force:
  "kucoin_order_body A (r\<lparr>or_kind := FokOrder\<rparr>) = kucoin_order_body A (r\<lparr>or_kind := LimitOrder\<rparr>)"
  "kucoin_order_body A (r\<lparr>or_kind := IocOrder\<rparr>) = kucoin_order_body A (r\<lparr>or_kind := LimitOrder\<rparr>)"
  by (simp_all add: kucoin_order_body_def)

lemma binance_price_hides_fills:
  assumes "json_get ''avgPrice'' v = Some (JString p)"
  shows "binance_avg_price A v = str_dec A ''price'' v"
  using assms by (simp add: binance_avg_price_def or_else_def as_array_def str_dec_def or_dec_def fill_qty_def)

text \<open>A balance of zero on KuCoin is an error, not the balance zero.\<close>

lemma kucoin_zero_balance_is_error:
  fixes A :: "('f, 'd::linorder) client_api"
  assumes "from_str A body = Inr (JObject [(''data'', JArray [])])" "is_success status"
  shows "\<exists>rqs msg. run_http (kucoin_get_balance A c clk asset) [Response status shown (Inr body)] = (rqs, Some (Inl msg))"
  using assms by (simp add: kucoin_get_balance_def Let_def call_def fetch_def require_ok_def decode_def get_array_def json_get_def as_array_def)

end
