(* ===== verification/Venue_Clients_A.thy ===== *)
theory Venue_Clients_A
  imports Signer_Clients
begin

text \<open>
  Clients of \<^verbatim>\<open>src/src/exchanges.rs\<close>, first part: the constructors for Binance, Bybit and KuCoin, the clients of OKX, Gate.io, Coinbase
  and BitMEX, and the paper client, which simulates fills.
\<close>

section \<open>Constructors\<close>

definition binance_venue :: "string \<Rightarrow> string \<Rightarrow> rest_client" where
  "binance_venue key secret = binance_new 0 key secret ''https://api.binance.com''"

definition bybit_venue :: "string \<Rightarrow> string \<Rightarrow> rest_client" where
  "bybit_venue key secret = bybit_new 1 key secret ''https://api.bybit.com''"

definition kucoin_venue :: "string \<Rightarrow> string \<Rightarrow> string \<Rightarrow> rest_client" where
  "kucoin_venue key secret pass = kucoin_new 4 key secret pass ''https://api.kucoin.com''"

text \<open>The structs of the client modules.\<close>

record venue_client =
  vc_id :: u16
  vc_key :: string
  vc_secret :: string
  vc_passphrase :: string
  vc_url :: string

definition venue_new :: "u16 \<Rightarrow> string \<Rightarrow> string \<Rightarrow> string \<Rightarrow> venue_client" where
  "venue_new i url key secret = \<lparr>vc_id = i, vc_key = key, vc_secret = secret, vc_passphrase = [], vc_url = url\<rparr>"

text \<open>A balance that is given as a text.\<close>

definition parse_balance :: "('f, 'd) client_api \<Rightarrow> string \<Rightarrow> string option \<Rightarrow> string + 'd" where
  "parse_balance A label txt =
     (case read_decimal A (unwrap_or txt ''0'') of Inl err \<Rightarrow> Inl (label @ '' balance parse decimal error: '' @ err) | Inr d \<Rightarrow> Inr d)"

definition no_asset :: "string \<Rightarrow> string \<Rightarrow> string + 'd" where
  "no_asset label asset = Inl (label @ '': asset '' @ [CHR 0x27] @ asset @ [CHR 0x27] @ '' not found in balance'')"

text \<open>An accepted order whose answer may lack the identifier.\<close>

definition placed :: "('f, 'd) client_api \<Rightarrow> string option \<Rightarrow> 'd client_result" where
  "placed A oid = (result_default A)\<lparr>res_success := oid \<noteq> None, res_order_id := oid\<rparr>"

definition not_found :: "('f, 'd) client_api \<Rightarrow> string \<Rightarrow> 'd client_result" where
  "not_found A oid = (refused A ''order not found'')\<lparr>res_order_id := Some oid\<rparr>"

section \<open>OKX\<close>

definition okx_new :: "('f, 'd) client_api \<Rightarrow> string \<Rightarrow> string \<Rightarrow> string \<Rightarrow> string + venue_client" where
  "okx_new A key secret pass =
     (case unbase64 A secret of
        Inl err \<Rightarrow> Inl (''OKX: failed to base64-decode api_secret: '' @ err)
      | Inr bytes \<Rightarrow> Inr \<lparr>vc_id = 2, vc_key = key, vc_secret = bytes, vc_passphrase = pass, vc_url = ''https://www.okx.com''\<rparr>)"

definition okx_sign :: "('f, 'd) client_api \<Rightarrow> venue_client \<Rightarrow> string \<Rightarrow> string \<Rightarrow> string \<Rightarrow> string \<Rightarrow> string" where
  "okx_sign A c timestamp meth request_path body = base64 A (hmac_sha256 A (vc_secret c) (timestamp @ meth @ request_path @ body))"

definition okx_request :: "('f, 'd) client_api \<Rightarrow> venue_client \<Rightarrow> u64 \<Rightarrow> http_method \<Rightarrow> string \<Rightarrow> string option \<Rightarrow> (string \<times> string) list \<Rightarrow> http_request" where
  "okx_request A c ts m path body extra =
     \<lparr>rq_method = m, rq_url = vc_url c @ path,
      rq_headers = [(''OK-ACCESS-KEY'', vc_key c), (''OK-ACCESS-SIGN'', okx_sign A c (show_word ts) (method_name m) path (unwrap_or body [])),
        (''OK-ACCESS-TIMESTAMP'', show_word ts), (''OK-ACCESS-PASSPHRASE'', vc_passphrase c)] @ extra,
      rq_body = body\<rparr>"

abbreviation content_json :: "(string \<times> string) list" where
  "content_json \<equiv> [(''Content-Type'', ''application/json'')]"

definition okx_query_order ::
  "('f, 'd) client_api \<Rightarrow> venue_client \<Rightarrow> clock \<Rightarrow> string \<Rightarrow> string \<Rightarrow> (string + 'd client_result) http" where
  "okx_query_order A c clk symbol oid =
     (let label = ''OKX query_order''
      in call label (okx_request A c (clk 0) GET (''/api/v5/trade/order?ordId='' @ oid) None []) (\<lambda>status shown body.
           require_ok label status shown body (decode (from_str A) label body (\<lambda>v.
             case first_of (get_array ''data'' v) of
               None \<Rightarrow> Inr (not_found A oid)
             | Some entry \<Rightarrow>
                 let state = unwrap_or (get_str ''state'' entry) ''UNKNOWN''
                 in Inr (queried (state = ''filled'' \<or> state = ''partial_fill'') (Some oid) (str_dec A ''fillSz'' entry) (str_dec A ''avgPx'' entry)
                      (''unfilled: '' @ state))))))"

fun kind_lower :: "order_kind \<Rightarrow> string" where
  "kind_lower MarketOrder = ''market''"
| "kind_lower LimitOrder = ''limit''"
| "kind_lower FokOrder = ''fok''"
| "kind_lower IocOrder = ''ioc''"

definition okx_order_body :: "('f, 'd) client_api \<Rightarrow> 'd order_request \<Rightarrow> 'f json" where
  "okx_order_body A r =
     jinsert_opt ''clOrdId'' (map_option JString (or_client_id r))
       (jinsert_opt ''px'' (map_option (JString \<circ> show_dec A) (or_price r))
         (JObject [(''instId'', JString (or_symbol r)), (''tdMode'', JString ''cash''), (''side'', JString (side_lower (or_side r))),
            (''ordType'', JString (kind_lower (or_kind r))), (''sz'', JString (show_dec A (or_quantity r)))]))"

definition okx_refusal :: "string \<Rightarrow> 'f json \<Rightarrow> string option" where
  "okx_refusal fallback v = (if field_str ''code'' v \<noteq> Some ''0'' then Some (unwrap_or (field_str ''msg'' v) fallback) else None)"

definition okx_order_id :: "'f json \<Rightarrow> string option" where
  "okx_order_id v = field_str ''ordId'' (jelem 0 (jfield ''data'' v))"

definition okx_submit_order ::
  "('f, 'd) client_api \<Rightarrow> venue_client \<Rightarrow> clock \<Rightarrow> 'd order_request \<Rightarrow> (string + 'd client_result) http" where
  "okx_submit_order A c clk r =
     (let label = ''OKX submit_order''
      in call label (okx_request A c (clk 0) POST ''/api/v5/trade/order'' (Some (json_text A (okx_order_body A r))) content_json) (\<lambda>status shown body.
           decode (from_str A) label body (\<lambda>v.
             case okx_refusal ''unknown OKX error'' v of
               Some msg \<Rightarrow> Inr (refused A msg)
             | None \<Rightarrow> Inr (placed A (okx_order_id v)))))"

definition okx_get_balance :: "('f, 'd) client_api \<Rightarrow> venue_client \<Rightarrow> clock \<Rightarrow> string \<Rightarrow> (string + 'd) http" where
  "okx_get_balance A c clk asset =
     (let label = ''OKX get_balance''
      in call label (okx_request A c (clk 0) GET ''/api/v5/account/balance'' None content_json) (\<lambda>status shown body.
           decode (from_str A) label body (\<lambda>v.
             case okx_refusal ''unknown OKX error'' v of
               Some msg \<Rightarrow> Inl (label @ '' error: '' @ msg)
             | None \<Rightarrow>
                 (case Option.bind (as_array (jfield ''details'' (jelem 0 (jfield ''data'' v)))) (find_entry (\<lambda>e. field_str ''ccy'' e = Some asset)) of
                    Some e \<Rightarrow> parse_balance A ''OKX'' (field_str ''eq'' e)
                  | None \<Rightarrow> no_asset ''OKX'' asset))))"

definition okx_cancel_order ::
  "('f, 'd) client_api \<Rightarrow> venue_client \<Rightarrow> clock \<Rightarrow> string \<Rightarrow> string \<Rightarrow> (string + 'd client_result) http" where
  "okx_cancel_order A c clk symbol oid =
     (let label = ''OKX cancel_order''; body = JObject [(''instId'', JString symbol), (''ordId'', JString oid)]
      in call label (okx_request A c (clk 0) POST ''/api/v5/trade/cancel-order'' (Some (json_text A body)) content_json) (\<lambda>status shown body.
           decode (from_str A) label body (\<lambda>v.
             case okx_refusal ''unknown OKX cancel error'' v of
               Some msg \<Rightarrow> Inl (label @ '' error: '' @ msg)
             | None \<Rightarrow> Inr (accepted A (Some (unwrap_or (okx_order_id v) oid))))))"

section \<open>Gate.io\<close>

definition gateio_new :: "string \<Rightarrow> string \<Rightarrow> venue_client" where
  "gateio_new = venue_new 3 ''https://api.gateio.ws''"

definition secs :: "u64 \<Rightarrow> string" where
  "secs ms = show_word (ms div 1000)"

definition gateio_sign :: "('f, 'd) client_api \<Rightarrow> venue_client \<Rightarrow> string \<Rightarrow> string \<Rightarrow> string \<Rightarrow> string \<Rightarrow> string \<Rightarrow> string" where
  "gateio_sign A c timestamp meth path query body =
     hex A (hmac_sha256 A (vc_secret c) (timestamp @ meth @ path @ query @ hex A (sha256 A body)))"

definition gateio_request ::
  "('f, 'd) client_api \<Rightarrow> venue_client \<Rightarrow> u64 \<Rightarrow> http_method \<Rightarrow> string \<Rightarrow> string \<Rightarrow> string option \<Rightarrow> (string \<times> string) list \<Rightarrow> http_request" where
  "gateio_request A c ts m path query body extra =
     \<lparr>rq_method = m, rq_url = vc_url c @ path @ (if query = [] then [] else ''?'' @ query),
      rq_headers = [(''KEY'', vc_key c), (''SIGN'', gateio_sign A c (secs ts) (method_name m) path query (unwrap_or body [])), (''Timestamp'', secs ts)] @ extra,
      rq_body = body\<rparr>"

definition gateio_query_order ::
  "('f, 'd) client_api \<Rightarrow> venue_client \<Rightarrow> clock \<Rightarrow> string \<Rightarrow> string \<Rightarrow> (string + 'd client_result) http" where
  "gateio_query_order A c clk symbol oid =
     (let label = ''GateIO query_order''
      in call label (gateio_request A c (clk 0) GET (''/api/v4/spot/orders/'' @ oid) (''currency_pair='' @ to_uppercase symbol) None [])
           (\<lambda>status shown body. require_ok label status shown body (decode (from_str A) label body (\<lambda>v.
              let st = unwrap_or (get_str ''status'' v) ''UNKNOWN''
              in Inr (queried (st = ''closed'') (Some oid) (str_dec A ''filled_total'' v) (str_dec A ''avg_deal_price'' v) (''unfilled: '' @ st))))))"

definition gateio_order_body :: "('f, 'd) client_api \<Rightarrow> 'd order_request \<Rightarrow> 'f json" where
  "gateio_order_body A r =
     jinsert_opt ''text'' (map_option JString (or_client_id r))
       (jinsert_opt ''price'' (map_option (JString \<circ> show_dec A) (or_price r))
         (JObject [(''account'', JString ''spot''), (''symbol'', JString (or_symbol r)), (''side'', JString (side_lower (or_side r))),
            (''type'', JString (kind_lower (or_kind r))), (''amount'', JString (show_dec A (or_quantity r)))]))"

definition gateio_message :: "'f json \<Rightarrow> string \<Rightarrow> string" where
  "gateio_message v body = unwrap_or (or_else (field_str ''label'' v) (field_str ''message'' v)) body"

definition gateio_submit_order ::
  "('f, 'd) client_api \<Rightarrow> venue_client \<Rightarrow> clock \<Rightarrow> 'd order_request \<Rightarrow> (string + 'd client_result) http" where
  "gateio_submit_order A c clk r =
     (let label = ''Gate.io submit_order''
      in call label (gateio_request A c (clk 0) POST ''/api/v4/spot/orders'' [] (Some (json_text A (gateio_order_body A r))) content_json)
           (\<lambda>status shown body. decode (from_str A) label body (\<lambda>v.
              if is_success status then Inr (placed A (field_str ''id'' v)) else Inr (refused A (gateio_message v body)))))"

definition gateio_get_balance :: "('f, 'd) client_api \<Rightarrow> venue_client \<Rightarrow> clock \<Rightarrow> string \<Rightarrow> (string + 'd) http" where
  "gateio_get_balance A c clk asset =
     (let label = ''Gate.io get_balance''
      in call label (gateio_request A c (clk 0) GET ''/api/v4/spot/accounts'' [] None content_json) (\<lambda>status shown body.
           require_ok label status shown body (decode (from_str A) label body (\<lambda>v.
             case Option.bind (as_array v) (find_entry (\<lambda>e. field_str ''currency'' e = Some asset)) of
               Some e \<Rightarrow> parse_balance A ''Gate.io'' (field_str ''available'' e)
             | None \<Rightarrow> no_asset ''Gate.io'' asset))))"

definition gateio_cancel_order ::
  "('f, 'd) client_api \<Rightarrow> venue_client \<Rightarrow> clock \<Rightarrow> string \<Rightarrow> string \<Rightarrow> (string + 'd client_result) http" where
  "gateio_cancel_order A c clk symbol oid =
     (let label = ''Gate.io cancel_order''
      in call label (gateio_request A c (clk 0) DELETE (''/api/v4/spot/orders/'' @ oid) [] None content_json) (\<lambda>status shown body.
           if \<not> is_success status
           then let v = unwrap_or (ok_of (from_str A body)) JNull in Inl (label @ '' HTTP '' @ shown @ '': '' @ gateio_message v body)
           else decode (from_str A) label body (\<lambda>v.
             Inr \<lparr>res_success = True, res_order_id = Some (unwrap_or (get_str ''id'' v) oid),
                  res_filled = or_dec A (either_str ''filled_total'' ''fill_size'' v),
                  res_avg_price = or_dec A (either_str ''avg_deal_price'' ''avgPrice'' v), res_error = None\<rparr>)))"

section \<open>The paper client\<close>

abbreviation LCG_A :: u64 where "LCG_A \<equiv> 1664525"
abbreviation LCG_C :: u64 where "LCG_C \<equiv> 1013904223"
abbreviation LCG_M :: u64 where "LCG_M \<equiv> 4294967296"
abbreviation PAPER_DEFAULT_BALANCE :: int where "PAPER_DEFAULT_BALANCE \<equiv> 10000"
abbreviation MIN_SLIPPAGE_BPS :: u64 where "MIN_SLIPPAGE_BPS \<equiv> 1"
abbreviation MAX_SLIPPAGE_BPS :: u64 where "MAX_SLIPPAGE_BPS \<equiv> 3"
abbreviation BPS_DIVISOR :: int where "BPS_DIVISOR \<equiv> 10000"

text \<open>The state of a paper client is the seed of its generator.\<close>

definition paper_new :: "u16 \<Rightarrow> u64" where
  "paper_new i = ucast i + 1"

definition paper_next :: "u64 \<Rightarrow> u64" where
  "paper_next prev = (LCG_A * prev + LCG_C) mod LCG_M"

definition compute_slippage :: "('f, 'd) client_api \<Rightarrow> u64 \<Rightarrow> 'd \<times> u64" where
  "compute_slippage A prev =
     (let nxt = paper_next prev; bps = MIN_SLIPPAGE_BPS + nxt mod (MAX_SLIPPAGE_BPS - MIN_SLIPPAGE_BPS + 1); D = num_ops A
      in (dec_div D (dec_from_int D (uint bps)) (dec_from_int D BPS_DIVISOR), nxt))"

definition paper_submit_order :: "('f, 'd) client_api \<Rightarrow> u64 \<Rightarrow> 'd order_request \<Rightarrow> 'd client_result \<times> u64" where
  "paper_submit_order A seed r =
     (let (slippage, seed') = compute_slippage A seed; D = num_ops A; base_price = unwrap_or (or_price r) (dec_zero D);
          factor = (case or_side r of OrderBuy \<Rightarrow> dec_add D (dec_from_int D 1) slippage | OrderSell \<Rightarrow> dec_sub D (dec_from_int D 1) slippage)
      in (\<lparr>res_success = True, res_order_id = or_client_id r, res_filled = or_quantity r, res_avg_price = dec_mul D base_price factor,
           res_error = None\<rparr>, seed'))"

definition paper_get_balance :: "('f, 'd) client_api \<Rightarrow> string \<Rightarrow> 'd" where
  "paper_get_balance A asset = dec_from_int (num_ops A) PAPER_DEFAULT_BALANCE"

definition paper_cancel_order :: "('f, 'd) client_api \<Rightarrow> string \<Rightarrow> string \<Rightarrow> 'd client_result" where
  "paper_cancel_order A symbol oid = accepted A (Some oid)"

definition paper_query_order :: "('f, 'd) client_api \<Rightarrow> string \<Rightarrow> string \<Rightarrow> 'd client_result" where
  "paper_query_order A symbol oid = accepted A (Some oid)"

definition paper_perform ::
  "('f, 'd) client_api \<Rightarrow> clock \<Rightarrow> u64 \<Rightarrow> 'd client_call \<Rightarrow> ((string + 'd client_answer) \<times> u64) http" where
  "paper_perform A clk seed c =
     Return (case c of
       SubmitOrder r \<Rightarrow> (let (res, seed') = paper_submit_order A seed r in (Inr (OrderAnswer res), seed'))
     | CancelOrder sm oid \<Rightarrow> (Inr (OrderAnswer (paper_cancel_order A sm oid)), seed)
     | QueryOrder sm oid \<Rightarrow> (Inr (OrderAnswer (paper_query_order A sm oid)), seed)
     | GetBalance a \<Rightarrow> (Inr (BalanceAnswer (paper_get_balance A a)), seed))"

section \<open>Coinbase\<close>

definition coinbase_new :: "string \<Rightarrow> string \<Rightarrow> venue_client" where
  "coinbase_new = venue_new 8 ''https://api.exchange.coinbase.com''"

definition coinbase_sign :: "('f, 'd) client_api \<Rightarrow> venue_client \<Rightarrow> string \<Rightarrow> string \<Rightarrow> string \<Rightarrow> string \<Rightarrow> string + string" where
  "coinbase_sign A c timestamp meth path body =
     (case unbase64 A (vc_secret c) of
        Inl err \<Rightarrow> Inl (''Coinbase: failed to base64-decode api_secret: '' @ err)
      | Inr key_bytes \<Rightarrow> Inr (base64 A (hmac_sha256 A key_bytes (timestamp @ meth @ path @ body))))"

definition replace_char :: "char \<Rightarrow> string \<Rightarrow> string \<Rightarrow> string" where
  "replace_char x t s = concat (map (\<lambda>y. if y = x then t else [y]) s)"

definition coinbase_symbol :: "string \<Rightarrow> string" where
  "coinbase_symbol symbol = to_uppercase (replace_char CHR ''/'' ''-'' symbol)"

text \<open>A secret that cannot be decoded ends the call before anything is sent.\<close>

definition coinbase_call ::
  "('f, 'd) client_api \<Rightarrow> venue_client \<Rightarrow> u64 \<Rightarrow> string \<Rightarrow> http_method \<Rightarrow> string \<Rightarrow> string option \<Rightarrow> (nat \<Rightarrow> string \<Rightarrow> string \<Rightarrow> string + 'a) \<Rightarrow> (string + 'a) http" where
  "coinbase_call A c ts label m path body res =
     (case coinbase_sign A c (secs ts) (method_name m) path (unwrap_or body []) of
        Inl err \<Rightarrow> Return (Inl err)
      | Inr signature \<Rightarrow>
          call label
            \<lparr>rq_method = m, rq_url = vc_url c @ path,
             rq_headers = [(''CB-ACCESS-KEY'', vc_key c), (''CB-ACCESS-SIGN'', signature), (''CB-ACCESS-TIMESTAMP'', secs ts)] @ content_json,
             rq_body = body\<rparr> res)"

definition coinbase_order_body :: "('f, 'd) client_api \<Rightarrow> 'd order_request \<Rightarrow> 'f json" where
  "coinbase_order_body A r =
     jinsert_opt ''client_order_id'' (map_option JString (or_client_id r))
       (jinsert_opt ''price'' (map_option (JString \<circ> show_dec A) (or_price r))
         (JObject [(''product_id'', JString (coinbase_symbol (or_symbol r))), (''side'', JString (side_lower (or_side r))),
            (''size'', JString (show_dec A (or_quantity r)))]))"

text \<open>The answer of Coinbase and of BitMEX to a new order: a status that is no success is a refusal with the whole body.\<close>

definition placed_or_refused :: "('f, 'd) client_api \<Rightarrow> string \<Rightarrow> string \<Rightarrow> nat \<Rightarrow> string \<Rightarrow> string \<Rightarrow> string + 'd client_result" where
  "placed_or_refused A label id_field status shown body =
     (if \<not> is_success status then Inr (refused A (''HTTP '' @ shown @ '': '' @ body))
      else decode (from_str A) label body (\<lambda>v. Inr (placed A (field_str id_field v))))"

definition coinbase_submit_order ::
  "('f, 'd) client_api \<Rightarrow> venue_client \<Rightarrow> clock \<Rightarrow> 'd order_request \<Rightarrow> (string + 'd client_result) http" where
  "coinbase_submit_order A c clk r =
     (let label = ''Coinbase submit_order''
      in coinbase_call A c (clk 0) label POST ''/orders'' (Some (json_text A (coinbase_order_body A r))) (placed_or_refused A label ''id''))"

definition coinbase_get_balance :: "('f, 'd) client_api \<Rightarrow> venue_client \<Rightarrow> clock \<Rightarrow> string \<Rightarrow> (string + 'd) http" where
  "coinbase_get_balance A c clk asset =
     (let label = ''Coinbase get_balance''
      in coinbase_call A c (clk 0) label GET ''/accounts'' None (\<lambda>status shown body.
           require_ok label status shown body (decode (from_str A) label body (\<lambda>v.
             case Option.bind (as_array v) (find_entry (\<lambda>e. map_option (\<lambda>cur. eq_ignore_case cur asset) (field_str ''currency'' e) = Some True)) of
               Some e \<Rightarrow> parse_balance A ''Coinbase'' (field_str ''value'' (jfield ''available_balance'' e))
             | None \<Rightarrow> no_asset ''Coinbase'' asset))))"

definition coinbase_cancel_order ::
  "('f, 'd) client_api \<Rightarrow> venue_client \<Rightarrow> clock \<Rightarrow> string \<Rightarrow> string \<Rightarrow> (string + 'd client_result) http" where
  "coinbase_cancel_order A c clk symbol oid =
     (let label = ''Coinbase cancel_order''
      in coinbase_call A c (clk 0) label DELETE (''/orders/'' @ oid) None (\<lambda>status shown body.
           require_ok label status shown body (Inr (accepted A (Some oid)))))"

definition coinbase_query_order ::
  "('f, 'd) client_api \<Rightarrow> venue_client \<Rightarrow> clock \<Rightarrow> string \<Rightarrow> string \<Rightarrow> (string + 'd client_result) http" where
  "coinbase_query_order A c clk symbol oid =
     (let label = ''Coinbase query_order''
      in coinbase_call A c (clk 0) label GET (''/orders/'' @ oid) None (\<lambda>status shown body.
           require_ok label status shown body (decode (from_str A) label body (\<lambda>v.
             let st = unwrap_or (get_str ''status'' v) ''UNKNOWN''
             in Inr (queried (st = ''filled'') (Some oid) (str_dec A ''filled_size'' v) (str_dec A ''average_filled_price'' v) (''unfilled: '' @ st))))))"

section \<open>BitMEX\<close>

abbreviation BITMEX_EXPIRE_WINDOW_SECS :: u64 where "BITMEX_EXPIRE_WINDOW_SECS \<equiv> 60"
abbreviation SATOSHIS_PER_BTC :: int where "SATOSHIS_PER_BTC \<equiv> 100000000"

definition bitmex_new :: "string \<Rightarrow> string \<Rightarrow> venue_client" where
  "bitmex_new = venue_new 7 ''https://www.bitmex.com''"

definition bitmex_sign :: "('f, 'd) client_api \<Rightarrow> venue_client \<Rightarrow> string \<Rightarrow> string \<Rightarrow> u64 \<Rightarrow> string \<Rightarrow> string" where
  "bitmex_sign A c verb path expires body = hex A (hmac_sha256 A (vc_secret c) (verb @ path @ show_word expires @ body))"

definition bitmex_expires :: "u64 \<Rightarrow> u64" where
  "bitmex_expires ms = ms div 1000 + BITMEX_EXPIRE_WINDOW_SECS"

definition is_alpha :: "char \<Rightarrow> bool" where
  "is_alpha ch \<longleftrightarrow> (let n = of_char ch :: nat in 65 \<le> n \<and> n \<le> 90 \<or> 97 \<le> n \<and> n \<le> 122)"

definition bitmex_symbol :: "string \<Rightarrow> string" where
  "bitmex_symbol symbol =
     (let normalized = to_uppercase (replace_char CHR ''/'' [] symbol); rest = drop 3 normalized
      in if is_prefix_of ''BTC'' normalized \<and> (rest = [] \<or> \<not> is_alpha (hd rest)) then ''XBT'' @ rest else normalized)"

definition bitmex_request ::
  "('f, 'd) client_api \<Rightarrow> venue_client \<Rightarrow> u64 \<Rightarrow> http_method \<Rightarrow> string \<Rightarrow> string option \<Rightarrow> http_request" where
  "bitmex_request A c ms m path body =
     (let expires = bitmex_expires ms
      in \<lparr>rq_method = m, rq_url = vc_url c @ path,
          rq_headers = [(''api-key'', vc_key c), (''api-expires'', show_word expires),
            (''api-signature'', bitmex_sign A c (method_name m) path expires (unwrap_or body []))] @ (if body = None then [] else content_json),
          rq_body = body\<rparr>)"

fun bitmex_side :: "order_side \<Rightarrow> string" where
  "bitmex_side OrderBuy = ''Buy''"
| "bitmex_side OrderSell = ''Sell''"

fun bitmex_type :: "order_kind \<Rightarrow> string" where
  "bitmex_type MarketOrder = ''Market''"
| "bitmex_type LimitOrder = ''Limit''"
| "bitmex_type FokOrder = ''FillOrKill''"
| "bitmex_type IocOrder = ''ImmediateOrCancel''"

definition nonempty_id :: "string option \<Rightarrow> string option" where
  "nonempty_id i = (if i = Some [] then None else i)"

definition bitmex_order_body :: "('f, 'd) client_api \<Rightarrow> 'd order_request \<Rightarrow> 'f json" where
  "bitmex_order_body A r =
     jinsert_opt ''clOrdID'' (map_option JString (nonempty_id (or_client_id r)))
       (jinsert_opt ''price'' (map_option (decimal_json A) (or_price r))
         (JObject [(''symbol'', JString (bitmex_symbol (or_symbol r))), (''side'', JString (bitmex_side (or_side r))),
            (''orderQty'', decimal_json A (or_quantity r)), (''ordType'', JString (bitmex_type (or_kind r)))]))"

definition bitmex_submit_order ::
  "('f, 'd) client_api \<Rightarrow> venue_client \<Rightarrow> clock \<Rightarrow> 'd order_request \<Rightarrow> (string + 'd client_result) http" where
  "bitmex_submit_order A c clk r =
     (let label = ''BitMEX submit_order''
      in call label (bitmex_request A c (clk 0) POST ''/api/v1/order'' (Some (json_text A (bitmex_order_body A r)))) (placed_or_refused A label ''orderID''))"

definition bitmex_get_balance :: "('f, 'd) client_api \<Rightarrow> venue_client \<Rightarrow> clock \<Rightarrow> string \<Rightarrow> (string + 'd) http" where
  "bitmex_get_balance A c clk asset =
     (let label = ''BitMEX get_balance''; D = num_ops A; asset_upper = to_uppercase asset
      in call label (bitmex_request A c (clk 0) GET ''/api/v1/user/wallet'' None) (\<lambda>status shown body.
           require_ok label status shown body (decode (from_str A) label body (\<lambda>v.
             case as_i64 (jfield ''amount'' v) of
               Some amount \<Rightarrow>
                 if asset_upper = ''XBT'' \<or> asset_upper = ''BTC'' then Inr (dec_div D (dec_from_int D (sint amount)) (dec_from_int D SATOSHIS_PER_BTC))
                 else no_asset ''BitMEX'' asset
             | None \<Rightarrow> no_asset ''BitMEX'' asset))))"

definition bitmex_cancel_order ::
  "('f, 'd) client_api \<Rightarrow> venue_client \<Rightarrow> clock \<Rightarrow> string \<Rightarrow> string \<Rightarrow> (string + 'd client_result) http" where
  "bitmex_cancel_order A c clk symbol oid =
     (let label = ''BitMEX cancel_order''
      in call label (bitmex_request A c (clk 0) DELETE ''/api/v1/order'' (Some (json_text A (JObject [(''orderID'', JString oid)])))) (\<lambda>status shown body.
           require_ok label status shown body (Inr (accepted A (Some oid)))))"

definition bitmex_query_order ::
  "('f, 'd) client_api \<Rightarrow> venue_client \<Rightarrow> clock \<Rightarrow> string \<Rightarrow> string \<Rightarrow> (string + 'd client_result) http" where
  "bitmex_query_order A c clk symbol oid =
     (let label = ''BitMEX query_order''; quote = [CHR 0x22];
          path = ''/api/v1/order?filter={'' @ quote @ ''orderID'' @ quote @ '':'' @ quote @ oid @ quote @ ''}''
      in call label (bitmex_request A c (clk 0) GET path None) (\<lambda>status shown body.
           require_ok label status shown body (decode (from_str A) label body (\<lambda>v.
             case first_of (as_array v) of
               None \<Rightarrow> Inl (''BitMEX: order '' @ oid @ '' not found'')
             | Some entry \<Rightarrow>
                 let st = unwrap_or (field_str ''ordStatus'' entry) ''UNKNOWN''
                 in Inr (queried (st = ''Filled'' \<or> st = ''PartiallyFilled'') (Some oid) (parse_json_decimal A (jfield ''cumQty'' entry))
                      (parse_json_decimal A (jfield ''avgPx'' entry)) (''unfilled: '' @ st))))))"

section \<open>The contract\<close>

text \<open>The path behind the address of the exchange, the method and the body are what the headers sign.\<close>

definition signs :: "string \<Rightarrow> (string \<Rightarrow> string \<Rightarrow> string \<Rightarrow> (string \<times> string) list) \<Rightarrow> http_request \<Rightarrow> bool" where
  "signs url hdrs rq \<longleftrightarrow> (\<exists>path. rq_url rq = url @ path \<and>
     set (hdrs path (method_name (rq_method rq)) (unwrap_or (rq_body rq) [])) \<subseteq> set (rq_headers rq))"

definition okx_authentic :: "('f, 'd) client_api \<Rightarrow> venue_client \<Rightarrow> http_request \<Rightarrow> bool" where
  "okx_authentic A c rq \<longleftrightarrow> (\<exists>ts::u64. signs (vc_url c) (\<lambda>path m body.
     [(''OK-ACCESS-KEY'', vc_key c), (''OK-ACCESS-SIGN'', base64 A (hmac_sha256 A (vc_secret c) (show_word ts @ m @ path @ body))),
      (''OK-ACCESS-TIMESTAMP'', show_word ts), (''OK-ACCESS-PASSPHRASE'', vc_passphrase c)]) rq)"

definition okx_places :: "venue_client \<Rightarrow> http_request \<Rightarrow> bool" where
  "okx_places c rq \<longleftrightarrow> rq_method rq = POST \<and> rq_url rq = vc_url c @ ''/api/v5/trade/order''"

definition okx_perform ::
  "('f, 'd) client_api \<Rightarrow> venue_client \<Rightarrow> clock \<Rightarrow> 's \<Rightarrow> 'd client_call \<Rightarrow> ((string + 'd client_answer) \<times> 's) http" where
  "okx_perform A c = (\<lambda>clk s call. with_state s
     (client_program (okx_submit_order A c clk) (okx_cancel_order A c clk) (okx_query_order A c clk) (okx_get_balance A c clk) call))"

lemma okx_request_authentic: "okx_authentic A c (okx_request A c ts m path body extra)"
  unfolding okx_authentic_def signs_def by (intro exI [of _ ts] exI [of _ path]) (simp add: okx_request_def okx_sign_def)

lemma okx_places_iff: "okx_places c (okx_request A c ts m path body extra) \<longleftrightarrow> m = POST \<and> path = ''/api/v5/trade/order''"
  by (simp add: okx_places_def okx_request_def)

interpretation okx: private_client "okx_perform A c" "okx_authentic A c" "okx_places c" for A c
  unfolding okx_perform_def
  by (rule stateless_client)
    (simp_all add: okx_submit_order_def okx_cancel_order_def okx_query_order_def okx_get_balance_def Let_def http_simps
       okx_request_authentic okx_places_iff)

definition gateio_authentic :: "('f, 'd) client_api \<Rightarrow> venue_client \<Rightarrow> http_request \<Rightarrow> bool" where
  "gateio_authentic A c rq \<longleftrightarrow> (\<exists>(ts::u64) path query. rq_url rq = vc_url c @ path @ (if query = [] then [] else ''?'' @ query) \<and>
     {(''KEY'', vc_key c), (''Timestamp'', secs ts),
      (''SIGN'', hex A (hmac_sha256 A (vc_secret c) (secs ts @ method_name (rq_method rq) @ path @ query @ hex A (sha256 A (unwrap_or (rq_body rq) [])))))} \<subseteq> set (rq_headers rq))"

definition gateio_places :: "venue_client \<Rightarrow> http_request \<Rightarrow> bool" where
  "gateio_places c rq \<longleftrightarrow> rq_method rq = POST \<and> rq_url rq = vc_url c @ ''/api/v4/spot/orders''"

definition gateio_perform ::
  "('f, 'd) client_api \<Rightarrow> venue_client \<Rightarrow> clock \<Rightarrow> 's \<Rightarrow> 'd client_call \<Rightarrow> ((string + 'd client_answer) \<times> 's) http" where
  "gateio_perform A c = (\<lambda>clk s call. with_state s
     (client_program (gateio_submit_order A c clk) (gateio_cancel_order A c clk) (gateio_query_order A c clk) (gateio_get_balance A c clk) call))"

lemma gateio_request_authentic: "gateio_authentic A c (gateio_request A c ts m path query body extra)"
  unfolding gateio_authentic_def by (intro exI [of _ ts] exI [of _ path] exI [of _ query]) (simp add: gateio_request_def gateio_sign_def)

lemma gateio_places_method: "m \<noteq> POST \<Longrightarrow> \<not> gateio_places c (gateio_request A c ts m path query body extra)"
  by (simp add: gateio_places_def gateio_request_def)

interpretation gateio: private_client "gateio_perform A c" "gateio_authentic A c" "gateio_places c" for A c
  unfolding gateio_perform_def
  by (rule stateless_client)
    (simp_all add: gateio_submit_order_def gateio_cancel_order_def gateio_query_order_def gateio_get_balance_def Let_def http_simps
       gateio_request_authentic gateio_places_method)

definition coinbase_authentic :: "('f, 'd) client_api \<Rightarrow> venue_client \<Rightarrow> http_request \<Rightarrow> bool" where
  "coinbase_authentic A c rq \<longleftrightarrow> (\<exists>(ts::u64) key_bytes. unbase64 A (vc_secret c) = Inr key_bytes \<and> signs (vc_url c) (\<lambda>path m body.
     [(''CB-ACCESS-KEY'', vc_key c), (''CB-ACCESS-TIMESTAMP'', secs ts),
      (''CB-ACCESS-SIGN'', base64 A (hmac_sha256 A key_bytes (secs ts @ m @ path @ body)))]) rq)"

definition coinbase_places :: "venue_client \<Rightarrow> http_request \<Rightarrow> bool" where
  "coinbase_places c rq \<longleftrightarrow> rq_method rq = POST \<and> rq_url rq = vc_url c @ ''/orders''"

definition coinbase_perform ::
  "('f, 'd) client_api \<Rightarrow> venue_client \<Rightarrow> clock \<Rightarrow> 's \<Rightarrow> 'd client_call \<Rightarrow> ((string + 'd client_answer) \<times> 's) http" where
  "coinbase_perform A c = (\<lambda>clk s call. with_state s
     (client_program (coinbase_submit_order A c clk) (coinbase_cancel_order A c clk) (coinbase_query_order A c clk) (coinbase_get_balance A c clk) call))"

lemma coinbase_call_contract:
  "every_request (coinbase_authentic A c) (coinbase_call A c ts label m path body res)"
  "fail_closed isl (coinbase_call A c ts label m path body res)"
  "at_most (coinbase_places c) (coinbase_call A c ts label m path body res) (Suc 0)"
  "m \<noteq> POST \<Longrightarrow> every_request (\<lambda>rq. coinbase_authentic A c rq \<and> \<not> coinbase_places c rq) (coinbase_call A c ts label m path body res)"
  by (auto simp: coinbase_call_def http_simps coinbase_authentic_def coinbase_places_def coinbase_sign_def signs_def split: sum.splits)

interpretation coinbase: private_client "coinbase_perform A c" "coinbase_authentic A c" "coinbase_places c" for A c
  unfolding coinbase_perform_def
  by (rule stateless_client)
    (simp_all add: coinbase_submit_order_def coinbase_cancel_order_def coinbase_query_order_def coinbase_get_balance_def Let_def coinbase_call_contract)

definition bitmex_authentic :: "('f, 'd) client_api \<Rightarrow> venue_client \<Rightarrow> http_request \<Rightarrow> bool" where
  "bitmex_authentic A c rq \<longleftrightarrow> (\<exists>expires::u64. signs (vc_url c) (\<lambda>path m body.
     [(''api-key'', vc_key c), (''api-expires'', show_word expires), (''api-signature'', hex A (hmac_sha256 A (vc_secret c) (m @ path @ show_word expires @ body)))]) rq)"

definition bitmex_places :: "venue_client \<Rightarrow> http_request \<Rightarrow> bool" where
  "bitmex_places c rq \<longleftrightarrow> rq_method rq = POST \<and> rq_url rq = vc_url c @ ''/api/v1/order''"

definition bitmex_perform ::
  "('f, 'd) client_api \<Rightarrow> venue_client \<Rightarrow> clock \<Rightarrow> 's \<Rightarrow> 'd client_call \<Rightarrow> ((string + 'd client_answer) \<times> 's) http" where
  "bitmex_perform A c = (\<lambda>clk s call. with_state s
     (client_program (bitmex_submit_order A c clk) (bitmex_cancel_order A c clk) (bitmex_query_order A c clk) (bitmex_get_balance A c clk) call))"

lemma bitmex_request_authentic: "bitmex_authentic A c (bitmex_request A c ms m path body)"
  unfolding bitmex_authentic_def signs_def by (intro exI [of _ "bitmex_expires ms"] exI [of _ path]) (auto simp: bitmex_request_def bitmex_sign_def Let_def)

lemma bitmex_places_method: "m \<noteq> POST \<Longrightarrow> \<not> bitmex_places c (bitmex_request A c ms m path body)"
  by (simp add: bitmex_places_def bitmex_request_def Let_def)

interpretation bitmex: private_client "bitmex_perform A c" "bitmex_authentic A c" "bitmex_places c" for A c
  unfolding bitmex_perform_def
  by (rule stateless_client)
    (simp_all add: bitmex_submit_order_def bitmex_cancel_order_def bitmex_query_order_def bitmex_get_balance_def Let_def http_simps
       bitmex_request_authentic bitmex_places_method)

text \<open>The paper client sends nothing.\<close>

interpretation paper: private_client "paper_perform A" "\<lambda>_. False" "\<lambda>_. True" for A
  by unfold_locales (simp_all add: paper_perform_def)

section \<open>What the clients get wrong\<close>

text \<open>
  Coinbase: the kind of an order is not sent.  BitMEX: the symbol that the comment gives as its example is not converted, since a letter follows the
  prefix.  The seeds of the paper client stay below \<open>2\<^sup>3\<^sup>2\<close>, and its slippage is one to three basis points.
\<close>

lemma coinbase_ignores_kind: "coinbase_order_body A (r\<lparr>or_kind := k\<rparr>) = coinbase_order_body A r"
  by (simp add: coinbase_order_body_def)

lemma bitmex_symbol_not_converted: "bitmex_symbol ''BTC/USD'' = ''BTCUSD''" "bitmex_symbol ''BTC'' = ''XBT''"
  by code_simp+

lemma paper_slippage_bounded:
  "\<exists>k. 1 \<le> k \<and> k \<le> 3 \<and> fst (compute_slippage A s) = dec_div (num_ops A) (dec_from_int (num_ops A) k) (dec_from_int (num_ops A) BPS_DIVISOR)"
proof -
  let ?n = "paper_next s mod (MAX_SLIPPAGE_BPS - MIN_SLIPPAGE_BPS + 1)"
  have "uint ?n < 3" by (simp add: uint_mod_distrib)
  then have "uint (MIN_SLIPPAGE_BPS + ?n) = 1 + uint ?n" by (simp add: uint_plus_if')
  then show ?thesis using \<open>uint ?n < 3\<close> uint_ge_0 [of ?n]
    by (intro exI [of _ "1 + uint ?n"]) (simp add: compute_slippage_def Let_def)
qed

end
