(* ===== verification/Venue_Clients_B.thy ===== *)
theory Venue_Clients_B
  imports Venue_Clients_A
begin

text \<open>
  Clients of \<^verbatim>\<open>src/src/exchanges.rs\<close>, second part: Bitget, and Bitfinex and Kraken, whose requests carry a nonce from a counter of the
  client.  The state of these two is the counter.
\<close>

section \<open>Bitget\<close>

definition bitget_new :: "('f, 'd) client_api \<Rightarrow> string \<Rightarrow> string \<Rightarrow> string \<Rightarrow> venue_client" where
  "bitget_new A key secret pass =
     \<lparr>vc_id = 6, vc_key = key, vc_secret = secret, vc_passphrase = base64 A (hmac_sha256 A secret pass), vc_url = ''https://api.bitget.com''\<rparr>"

definition bitget_sign :: "('f, 'd) client_api \<Rightarrow> venue_client \<Rightarrow> string \<Rightarrow> string \<Rightarrow> string \<Rightarrow> string \<Rightarrow> string" where
  "bitget_sign A c timestamp meth path body = base64 A (hmac_sha256 A (vc_secret c) (timestamp @ to_uppercase meth @ path @ body))"

definition bitget_symbol :: "string \<Rightarrow> string" where
  "bitget_symbol symbol = to_uppercase (replace_char CHR ''/'' [] symbol)"

definition bitget_request :: "('f, 'd) client_api \<Rightarrow> venue_client \<Rightarrow> u64 \<Rightarrow> http_method \<Rightarrow> string \<Rightarrow> string option \<Rightarrow> http_request" where
  "bitget_request A c ts m path body =
     \<lparr>rq_method = m, rq_url = vc_url c @ path,
      rq_headers = [(''ACCESS-KEY'', vc_key c), (''ACCESS-SIGN'', bitget_sign A c (show_word ts) (method_name m) path (unwrap_or body [])),
        (''ACCESS-TIMESTAMP'', show_word ts), (''ACCESS-PASSPHRASE'', vc_passphrase c)] @ content_json,
      rq_body = body\<rparr>"

fun bitget_force :: "order_kind \<Rightarrow> string" where
  "bitget_force IocOrder = ''ioc''"
| "bitget_force FokOrder = ''fok''"
| "bitget_force _ = ''normal''"

text \<open>The identifier is made up when the order has none; it is an argument.\<close>

definition bitget_order_body :: "('f, 'd) client_api \<Rightarrow> string \<Rightarrow> 'd order_request \<Rightarrow> 'f json" where
  "bitget_order_body A uuid r =
     (let client_oid = unwrap_or (or_client_id r) []
      in jinsert ''price'' (JString (case or_price r of Some p \<Rightarrow> show_dec A p | None \<Rightarrow> ''0''))
           (JObject [(''symbol'', JString (bitget_symbol (or_symbol r))), (''side'', JString (side_lower (or_side r))),
              (''orderType'', JString (kind_lower (or_kind r))), (''force'', JString (bitget_force (or_kind r))),
              (''quantity'', JString (show_dec A (or_quantity r))), (''clientOid'', JString (if client_oid = [] then uuid else client_oid))]))"

definition bitget_submit_order ::
  "('f, 'd) client_api \<Rightarrow> venue_client \<Rightarrow> (clock \<Rightarrow> string) \<Rightarrow> clock \<Rightarrow> 'd order_request \<Rightarrow> (string + 'd client_result) http" where
  "bitget_submit_order A c uuid clk r =
     (let label = ''Bitget submit_order''
      in call label (bitget_request A c (clk 0) POST ''/api/spot/v1/trade/orders'' (Some (json_text A (bitget_order_body A (uuid clk) r))))
           (\<lambda>status shown body.
              if \<not> is_success status then Inr (refused A (''HTTP '' @ shown @ '': '' @ body))
              else decode (from_str A) label body (\<lambda>v. Inr (placed A (field_str ''orderId'' (jfield ''data'' v))))))"

definition bitget_get_balance :: "('f, 'd) client_api \<Rightarrow> venue_client \<Rightarrow> clock \<Rightarrow> string \<Rightarrow> (string + 'd) http" where
  "bitget_get_balance A c clk asset =
     (let label = ''Bitget get_balance''
      in call label (bitget_request A c (clk 0) GET ''/api/spot/v1/account/assets'' None) (\<lambda>status shown body.
           require_ok label status shown body (decode (from_str A) label body (\<lambda>v.
             case Option.bind (as_array (jfield ''data'' v)) (find_entry (\<lambda>e. eq_ignore_case (unwrap_or (field_str ''coinName'' e) []) asset)) of
               Some e \<Rightarrow> parse_balance A ''Bitget'' (field_str ''available'' e)
             | None \<Rightarrow> no_asset ''Bitget'' asset))))"

definition bitget_cancel_order ::
  "('f, 'd) client_api \<Rightarrow> venue_client \<Rightarrow> clock \<Rightarrow> string \<Rightarrow> string \<Rightarrow> (string + 'd client_result) http" where
  "bitget_cancel_order A c clk symbol oid =
     (let label = ''Bitget cancel_order''; body = JObject [(''symbol'', JString (bitget_symbol symbol)), (''orderId'', JString oid)]
      in call label (bitget_request A c (clk 0) POST ''/api/spot/v1/trade/cancel-order'' (Some (json_text A body))) (\<lambda>status shown body.
           require_ok label status shown body (Inr (accepted A (Some oid)))))"

text \<open>A price that is present as a text is preferred to another field.\<close>

definition preferred_decimal :: "('f, 'd) client_api \<Rightarrow> string \<Rightarrow> string \<Rightarrow> 'f json \<Rightarrow> 'd" where
  "preferred_decimal A k1 k2 v = parse_json_decimal A (if field_str k1 v \<noteq> None then jfield k1 v else jfield k2 v)"

definition bitget_query_order ::
  "('f, 'd) client_api \<Rightarrow> venue_client \<Rightarrow> clock \<Rightarrow> string \<Rightarrow> string \<Rightarrow> (string + 'd client_result) http" where
  "bitget_query_order A c clk symbol oid =
     (let label = ''Bitget query_order''
      in call label (bitget_request A c (clk 0) POST ''/api/spot/v1/trade/order-info'' (Some (json_text A (JObject [(''orderId'', JString oid)]))))
           (\<lambda>status shown body. require_ok label status shown body (decode (from_str A) label body (\<lambda>v.
              let entry = jfield ''data'' v; st = unwrap_or (field_str ''status'' entry) ''UNKNOWN''
              in Inr (queried (st = ''full_fill'' \<or> st = ''partial_fill'') (Some oid) (parse_json_decimal A (jfield ''fillQuantity'' entry))
                   (preferred_decimal A ''priceAvg'' ''fillPrice'' entry) (''unfilled: '' @ st))))))"

section \<open>Bitfinex\<close>

definition bitfinex_new :: "string \<Rightarrow> string \<Rightarrow> venue_client" where
  "bitfinex_new = venue_new 5 ''https://api.bitfinex.com''"

definition client_next_nonce :: "u64 \<Rightarrow> u64" where
  "client_next_nonce n = n + 1"

definition bitfinex_sign :: "('f, 'd) client_api \<Rightarrow> venue_client \<Rightarrow> string \<Rightarrow> string \<Rightarrow> string \<Rightarrow> string" where
  "bitfinex_sign A c path nonce body = hex A (hmac_sha384 A (vc_secret c) (''/api/v2'' @ path @ nonce @ body))"

definition bitfinex_symbol :: "string \<Rightarrow> string" where
  "bitfinex_symbol symbol = ''t'' @ to_uppercase (replace_char CHR ''/'' [] symbol)"

definition bitfinex_request :: "('f, 'd) client_api \<Rightarrow> venue_client \<Rightarrow> u64 \<Rightarrow> string \<Rightarrow> 'f json \<Rightarrow> http_request" where
  "bitfinex_request A c n path body =
     (let nonce = show_word n; body_str = json_text A body
      in \<lparr>rq_method = POST, rq_url = vc_url c @ path,
          rq_headers = [(''bfx-nonce'', nonce), (''bfx-apikey'', vc_key c), (''bfx-signature'', bitfinex_sign A c path nonce body_str)] @ content_json,
          rq_body = Some body_str\<rparr>)"

definition bitfinex_auth_post ::
  "('f, 'd) client_api \<Rightarrow> venue_client \<Rightarrow> u64 \<Rightarrow> string \<Rightarrow> 'f json \<Rightarrow> ('f json \<Rightarrow> string + 'a) \<Rightarrow> ((string + 'a) \<times> u64) http" where
  "bitfinex_auth_post A c n path body k =
     (let label = ''Bitfinex auth_post''
      in with_state (client_next_nonce n) (call label (bitfinex_request A c (client_next_nonce n) path body) (\<lambda>status shown txt.
           require_ok label status shown txt (decode (from_str A) label txt k))))"

definition json_nat :: "u64 \<Rightarrow> 'f json" where
  "json_nat n = JNumber (PosInt n)"

definition json_i64 :: "i64 \<Rightarrow> 'f json" where
  "json_i64 n = JNumber (if sint n < 0 then NegInt n else PosInt n)"

fun bitfinex_type :: "order_kind \<Rightarrow> string" where
  "bitfinex_type MarketOrder = ''MARKET''"
| "bitfinex_type LimitOrder = ''LIMIT''"
| "bitfinex_type FokOrder = ''EXCHANGE LIMIT''"
| "bitfinex_type IocOrder = ''LIMIT''"

definition bitfinex_cid :: "string \<Rightarrow> u64" where
  "bitfinex_cid s = foldl (\<lambda>acc ch. acc + of_nat (of_char ch)) 0 s"

definition bitfinex_order :: "('f, 'd) client_api \<Rightarrow> 'd order_request \<Rightarrow> 'f json" where
  "bitfinex_order A r =
     (let amount = (case or_side r of OrderBuy \<Rightarrow> or_quantity r | OrderSell \<Rightarrow> dec_neg (num_ops A) (or_quantity r))
      in jinsert_opt ''cid'' (map_option (json_nat \<circ> bitfinex_cid) (nonempty_id (or_client_id r)))
           (jinsert_opt ''flags'' (if or_kind r = IocOrder then Some (json_nat 4096) else None)
             (jinsert_opt ''price'' (map_option (decimal_json A) (or_price r))
               (JObject [(''type'', JString (bitfinex_type (or_kind r))), (''symbol'', JString (bitfinex_symbol (or_symbol r))),
                  (''amount'', decimal_json A amount)]))))"

definition bitfinex_order_id :: "'f json \<Rightarrow> string option" where
  "bitfinex_order_id v =
     map_option show_i64 (Option.bind (first_of (Option.bind (json_index 4 v) as_array)) (\<lambda>e. as_i64 (jfield ''id'' e)))"

definition bitfinex_submit_order ::
  "('f, 'd) client_api \<Rightarrow> venue_client \<Rightarrow> clock \<Rightarrow> u64 \<Rightarrow> 'd order_request \<Rightarrow> ((string + 'd client_result) \<times> u64) http" where
  "bitfinex_submit_order A c clk n r =
     bitfinex_auth_post A c n ''/auth/w/order/submit'' (JArray [json_nat 0, JString ''on'', JNull, bitfinex_order A r]) (\<lambda>v.
       Inr ((placed A (bitfinex_order_id v))\<lparr>res_filled := or_quantity r, res_avg_price := unwrap_or (or_price r) (zero_of A)\<rparr>))"

definition bitfinex_get_balance :: "('f, 'd) client_api \<Rightarrow> venue_client \<Rightarrow> clock \<Rightarrow> u64 \<Rightarrow> string \<Rightarrow> ((string + 'd) \<times> u64) http" where
  "bitfinex_get_balance A c clk n asset =
     bitfinex_auth_post A c n ''/auth/r/wallets'' (JArray [json_nat 0, JString ''wallet'', JNull, JObject [(''type'', JString ''exchange'')]]) (\<lambda>v.
       case Option.bind (as_array v) (find_entry (\<lambda>w. eq_ignore_case (unwrap_or (as_str (jelem 1 w)) []) asset)) of
         Some w \<Rightarrow> Inr (unwrap_or (Option.bind (as_number (jelem 2 w)) (float_decimal A)) (zero_of A))
       | None \<Rightarrow> no_asset ''Bitfinex'' asset)"

definition bitfinex_bad_id :: "string \<Rightarrow> string" where
  "bitfinex_bad_id oid = ''Bitfinex: invalid order_id '' @ [CHR 0x27] @ oid @ [CHR 0x27]"

definition bitfinex_cancel_order ::
  "('f, 'd) client_api \<Rightarrow> venue_client \<Rightarrow> clock \<Rightarrow> u64 \<Rightarrow> string \<Rightarrow> string \<Rightarrow> ((string + 'd client_result) \<times> u64) http" where
  "bitfinex_cancel_order A c clk n symbol oid =
     (case parse_i64 oid of
        None \<Rightarrow> Return (Inl (bitfinex_bad_id oid), n)
      | Some i \<Rightarrow>
          bitfinex_auth_post A c n ''/auth/w/order/cancel'' (JArray [json_nat 0, JString ''oc'', JNull, JObject [(''id'', json_i64 i)]])
            (\<lambda>v. Inr (accepted A (Some oid))))"

definition bitfinex_find :: "i64 \<Rightarrow> 'f json list \<Rightarrow> 'f json list option" where
  "bitfinex_find i orders =
     Option.bind (find_entry (\<lambda>e. as_array e \<noteq> None \<and> Option.bind (first_of (as_array e)) as_i64 = Some i) orders) as_array"

definition bitfinex_query_order ::
  "('f, 'd::linorder) client_api \<Rightarrow> venue_client \<Rightarrow> clock \<Rightarrow> u64 \<Rightarrow> string \<Rightarrow> string \<Rightarrow> ((string + 'd client_result) \<times> u64) http" where
  "bitfinex_query_order A c clk n symbol oid =
     (case parse_i64 oid of
        None \<Rightarrow> Return (Inl (bitfinex_bad_id oid), n)
      | Some i \<Rightarrow>
          bitfinex_auth_post A c n ''/auth/r/orders/hist''
            (JArray [json_nat 0, JString ''order_multi'', JNull, JObject [(''ids'', JArray [json_i64 i])]]) (\<lambda>v.
            case as_array v of
              None \<Rightarrow> Inl (''Bitfinex: order '' @ oid @ '' not found in history'')
            | Some orders \<Rightarrow>
                (case bitfinex_find i orders of
                   None \<Rightarrow> Inl (''Bitfinex: order '' @ oid @ '' not found in history ('' @ digits_of (length orders) @ '' orders returned)'')
                 | Some arr \<Rightarrow>
                     let num = (\<lambda>j. decimal_abs (num_ops A) (parse_json_decimal A (unwrap_or (get_at arr j) JNull)));
                         st = unwrap_or (Option.bind (get_at arr 13) as_str) ''UNKNOWN''
                     in Inr (queried (to_uppercase st \<in> {''EXECUTED'', ''PARTIALLY FILLED'', ''ACTIVE''}) (Some oid) (num 15) (num 17)
                          (''unfilled: '' @ st)))))"

section \<open>Kraken\<close>

definition kraken_client_new :: "string \<Rightarrow> string \<Rightarrow> venue_client" where
  "kraken_client_new = venue_new 10 ''https://api.kraken.com''"

definition kraken_sign :: "('f, 'd) client_api \<Rightarrow> venue_client \<Rightarrow> string \<Rightarrow> string \<Rightarrow> string \<Rightarrow> string + string" where
  "kraken_sign A c path nonce body =
     (case unbase64 A (vc_secret c) of
        Inl err \<Rightarrow> Inl (''Kraken: failed to decode api_secret: '' @ err)
      | Inr key_bytes \<Rightarrow> Inr (base64 A (hmac_sha512 A key_bytes (nonce @ path @ body))))"

text \<open>\<^verbatim>\<open>str::replace\<close> with a pattern of several characters.\<close>

function replace_str :: "string \<Rightarrow> string \<Rightarrow> string \<Rightarrow> string" where
  "replace_str pat t [] = []"
| "replace_str pat t (ch # s) =
     (if pat \<noteq> [] \<and> is_prefix_of pat (ch # s) then t @ replace_str pat t (drop (length pat) (ch # s)) else ch # replace_str pat t s)"
  by pat_completeness auto
termination
  by (relation "measure (\<lambda>(pat, t, s). length s)") auto

definition kraken_pair :: "string \<Rightarrow> string" where
  "kraken_pair symbol = replace_char CHR ''/'' [] (replace_str ''BTC/'' ''XBT/'' symbol)"

definition fnv_1a :: "string \<Rightarrow> u64" where
  "fnv_1a s = foldl (\<lambda>h ch. (h XOR of_nat (of_char ch)) * 0x100000001b3) 0xcbf29ce484222325 s"

definition derive_userref :: "string option \<Rightarrow> i64" where
  "derive_userref client_order_id =
     (case nonempty_id client_order_id of
        None \<Rightarrow> 0
      | Some coid \<Rightarrow>
          (case parse_i64 coid of
             Some i \<Rightarrow> i
           | None \<Rightarrow> (let masked = fnv_1a coid AND 0x7FFFFFFF in if masked = 0 then 1 else masked)))"

definition kraken_auth_post ::
  "('f, 'd) client_api \<Rightarrow> venue_client \<Rightarrow> u64 \<Rightarrow> string \<Rightarrow> string \<Rightarrow> ('f json \<Rightarrow> string + 'a) \<Rightarrow> ((string + 'a) \<times> u64) http" where
  "kraken_auth_post A c n path body k =
     (let label = ''Kraken auth_post''; nonce = show_word (client_next_nonce n);
          body_with_nonce = ''nonce='' @ nonce @ (if body = [] then [] else ''&'' @ body)
      in case kraken_sign A c path nonce body_with_nonce of
           Inl err \<Rightarrow> Return (Inl err, client_next_nonce n)
         | Inr signature \<Rightarrow>
             with_state (client_next_nonce n) (call label
               \<lparr>rq_method = POST, rq_url = vc_url c @ path,
                rq_headers = [(''API-Key'', vc_key c), (''API-Sign'', signature), (''Content-Type'', ''application/x-www-form-urlencoded'')],
                rq_body = Some body_with_nonce\<rparr>
               (\<lambda>status shown txt. require_ok label status shown txt (decode (from_str A) label txt (\<lambda>v.
                  case as_array (jfield ''error'' v) of
                    Some (e # es) \<Rightarrow> Inl (''Kraken API error: '' @ join_with '', '' (map (json_text A) (e # es)))
                  | _ \<Rightarrow> k v)))))"

fun kraken_type :: "order_kind \<Rightarrow> string" where
  "kraken_type LimitOrder = ''limit''"
| "kraken_type _ = ''market''"

definition kraken_submit_order ::
  "('f, 'd) client_api \<Rightarrow> venue_client \<Rightarrow> clock \<Rightarrow> u64 \<Rightarrow> 'd order_request \<Rightarrow> ((string + 'd client_result) \<times> u64) http" where
  "kraken_submit_order A c clk n r =
     (let userref = derive_userref (or_client_id r);
          base = ''ordertype='' @ kraken_type (or_kind r) @ ''&type='' @ side_lower (or_side r) @ ''&volume='' @ show_dec A (or_quantity r) @
                 ''&pair='' @ kraken_pair (or_symbol r);
          post = (\<lambda>body. kraken_auth_post A c n ''/0/private/AddOrder'' (body @ (if userref \<noteq> 0 then ''&userref='' @ show_i64 userref else [])) (\<lambda>v.
            case Option.bind (first_of (as_array (jfield ''txid'' (jfield ''result'' v)))) as_str of
              Some txid \<Rightarrow> Inr (accepted A (Some txid))
            | None \<Rightarrow> Inr (refused A ''Kraken: missing txid in response'')))
      in if or_kind r = LimitOrder
         then (case or_price r of
                 None \<Rightarrow> Return (Inl ''Kraken: limit order requires a price'', n)
               | Some price \<Rightarrow> post (base @ ''&price='' @ show_dec A price))
         else post base)"

definition kraken_get_balance :: "('f, 'd) client_api \<Rightarrow> venue_client \<Rightarrow> clock \<Rightarrow> u64 \<Rightarrow> string \<Rightarrow> ((string + 'd) \<times> u64) http" where
  "kraken_get_balance A c clk n asset =
     (let kraken_asset = (if eq_ignore_case asset ''BTC'' then ''XBT'' else asset)
      in kraken_auth_post A c n ''/0/private/Balance'' [] (\<lambda>v.
           case jfield ''result'' v of
             JObject result \<Rightarrow>
               (case find (\<lambda>(k, _). eq_ignore_case k kraken_asset) result of
                  Some (_, x) \<Rightarrow> Inr (or_dec A (as_str x))
                | None \<Rightarrow> no_asset ''Kraken'' asset)
           | _ \<Rightarrow> Inl ''Kraken: missing result in balance response''))"

definition kraken_cancel_order ::
  "('f, 'd) client_api \<Rightarrow> venue_client \<Rightarrow> clock \<Rightarrow> u64 \<Rightarrow> string \<Rightarrow> string \<Rightarrow> ((string + 'd client_result) \<times> u64) http" where
  "kraken_cancel_order A c clk n symbol oid =
     kraken_auth_post A c n ''/0/private/CancelOrder'' (''txid='' @ oid) (\<lambda>v. Inr (accepted A (Some oid)))"

definition kraken_query_order ::
  "('f, 'd) client_api \<Rightarrow> venue_client \<Rightarrow> clock \<Rightarrow> u64 \<Rightarrow> string \<Rightarrow> string \<Rightarrow> ((string + 'd client_result) \<times> u64) http" where
  "kraken_query_order A c clk n symbol oid =
     kraken_auth_post A c n ''/0/private/QueryOrders'' (''txid='' @ oid) (\<lambda>v.
       let entry = jfield oid (jfield ''result'' v); st = unwrap_or (field_str ''status'' entry) ''UNKNOWN''
       in if entry = JNull then Inl (''Kraken: order '' @ oid @ '' not found in query response'')
          else Inr (queried (st \<in> {''closed'', ''open'', ''partially filled''}) (Some oid) (parse_json_decimal A (jfield ''vol_exec'' entry))
                 (preferred_decimal A ''avg_price'' ''price'' entry) (''status: '' @ st)))"

section \<open>The contract\<close>

definition bitget_authentic :: "('f, 'd) client_api \<Rightarrow> venue_client \<Rightarrow> http_request \<Rightarrow> bool" where
  "bitget_authentic A c rq \<longleftrightarrow> (\<exists>ts::u64. signs (vc_url c) (\<lambda>path m body.
     [(''ACCESS-KEY'', vc_key c), (''ACCESS-SIGN'', base64 A (hmac_sha256 A (vc_secret c) (show_word ts @ m @ path @ body))),
      (''ACCESS-TIMESTAMP'', show_word ts), (''ACCESS-PASSPHRASE'', vc_passphrase c)]) rq)"

definition bitget_places :: "venue_client \<Rightarrow> http_request \<Rightarrow> bool" where
  "bitget_places c rq \<longleftrightarrow> rq_method rq = POST \<and> rq_url rq = vc_url c @ ''/api/spot/v1/trade/orders''"

definition bitget_perform ::
  "('f, 'd) client_api \<Rightarrow> venue_client \<Rightarrow> (clock \<Rightarrow> string) \<Rightarrow> clock \<Rightarrow> 's \<Rightarrow> 'd client_call \<Rightarrow> ((string + 'd client_answer) \<times> 's) http" where
  "bitget_perform A c uuid = (\<lambda>clk s call. with_state s
     (client_program (bitget_submit_order A c uuid clk) (bitget_cancel_order A c clk) (bitget_query_order A c clk) (bitget_get_balance A c clk) call))"

lemma method_upper: "to_uppercase (method_name m) = method_name m"
  by (cases m) (simp_all add: to_uppercase_def ascii_upper_def)

lemma bitget_request_authentic: "bitget_authentic A c (bitget_request A c ts m path body)"
  unfolding bitget_authentic_def signs_def by (intro exI [of _ ts] exI [of _ path]) (simp add: bitget_request_def bitget_sign_def method_upper)

lemma bitget_places_iff: "bitget_places c (bitget_request A c ts m path body) \<longleftrightarrow> m = POST \<and> path = ''/api/spot/v1/trade/orders''"
  by (simp add: bitget_places_def bitget_request_def)

interpretation bitget: private_client "bitget_perform A c uuid" "bitget_authentic A c" "bitget_places c" for A c uuid
  unfolding bitget_perform_def
  by (rule stateless_client)
    (simp_all add: bitget_submit_order_def bitget_cancel_order_def bitget_query_order_def bitget_get_balance_def Let_def http_simps
       bitget_request_authentic bitget_places_iff)

definition bitfinex_bears :: "u64 \<Rightarrow> http_request \<Rightarrow> bool" where
  "bitfinex_bears n rq \<longleftrightarrow> (''bfx-nonce'', show_word n) \<in> set (rq_headers rq)"

definition bitfinex_authentic :: "('f, 'd) client_api \<Rightarrow> venue_client \<Rightarrow> http_request \<Rightarrow> bool" where
  "bitfinex_authentic A c rq \<longleftrightarrow> (\<exists>n::u64. signs (vc_url c) (\<lambda>path m body.
     [(''bfx-nonce'', show_word n), (''bfx-apikey'', vc_key c), (''bfx-signature'', hex A (hmac_sha384 A (vc_secret c) (''/api/v2'' @ path @ show_word n @ body)))]) rq)"

definition bitfinex_places :: "venue_client \<Rightarrow> http_request \<Rightarrow> bool" where
  "bitfinex_places c rq \<longleftrightarrow> rq_url rq = vc_url c @ ''/auth/w/order/submit''"

definition bitfinex_perform ::
  "('f, 'd::linorder) client_api \<Rightarrow> venue_client \<Rightarrow> clock \<Rightarrow> u64 \<Rightarrow> 'd client_call \<Rightarrow> ((string + 'd client_answer) \<times> u64) http" where
  "bitfinex_perform A c = (\<lambda>clk n. stateful_program (bitfinex_submit_order A c clk n) (bitfinex_cancel_order A c clk n)
     (bitfinex_query_order A c clk n) (bitfinex_get_balance A c clk n))"

lemma bitfinex_request_authentic: "bitfinex_authentic A c (bitfinex_request A c n path body)"
  unfolding bitfinex_authentic_def signs_def by (intro exI [of _ n] exI [of _ path]) (simp add: bitfinex_request_def bitfinex_sign_def Let_def unwrap_or_def)

lemma bitfinex_request_simps:
  "bitfinex_bears n (bitfinex_request A c n path body)"
  "bitfinex_places c (bitfinex_request A c n path body) \<longleftrightarrow> path = ''/auth/w/order/submit''"
  by (simp_all add: bitfinex_bears_def bitfinex_places_def bitfinex_request_def Let_def)

lemma bitfinex_post_one_shot:
  "one_shot (bitfinex_authentic A c) bitfinex_bears n (bitfinex_auth_post A c n path body k)"
  "path \<noteq> ''/auth/w/order/submit'' \<Longrightarrow>
     one_shot (\<lambda>rq. bitfinex_authentic A c rq \<and> \<not> bitfinex_places c rq) bitfinex_bears n (bitfinex_auth_post A c n path body k)"
  unfolding bitfinex_auth_post_def client_next_nonce_def Let_def
  by (rule one_shot_call; simp add: bitfinex_request_authentic bitfinex_request_simps)+

interpretation bitfinex: nonce_client "bitfinex_perform A c" "bitfinex_authentic A c" "bitfinex_places c" bitfinex_bears for A c
  unfolding bitfinex_perform_def
  by (rule nonce_clientI)
    (simp_all add: bitfinex_submit_order_def bitfinex_cancel_order_def bitfinex_query_order_def bitfinex_get_balance_def
       bitfinex_post_one_shot http_simps split: option.split)

definition kraken_bears :: "u64 \<Rightarrow> http_request \<Rightarrow> bool" where
  "kraken_bears n rq \<longleftrightarrow> (\<exists>rest. rq_body rq = Some (''nonce='' @ show_word n @ rest) \<and> (rest = [] \<or> hd rest = CHR ''&''))"

definition kraken_authentic :: "('f, 'd) client_api \<Rightarrow> venue_client \<Rightarrow> http_request \<Rightarrow> bool" where
  "kraken_authentic A c rq \<longleftrightarrow> (\<exists>n path body key_bytes. rq_url rq = vc_url c @ path \<and> rq_body rq = Some body \<and> kraken_bears n rq \<and>
     unbase64 A (vc_secret c) = Inr key_bytes \<and>
     {(''API-Key'', vc_key c), (''API-Sign'', base64 A (hmac_sha512 A key_bytes (show_word n @ path @ body)))} \<subseteq> set (rq_headers rq))"

definition kraken_places :: "venue_client \<Rightarrow> http_request \<Rightarrow> bool" where
  "kraken_places c rq \<longleftrightarrow> rq_url rq = vc_url c @ ''/0/private/AddOrder''"

definition kraken_perform ::
  "('f, 'd) client_api \<Rightarrow> venue_client \<Rightarrow> clock \<Rightarrow> u64 \<Rightarrow> 'd client_call \<Rightarrow> ((string + 'd client_answer) \<times> u64) http" where
  "kraken_perform A c = (\<lambda>clk n. stateful_program (kraken_submit_order A c clk n) (kraken_cancel_order A c clk n)
     (kraken_query_order A c clk n) (kraken_get_balance A c clk n))"

lemma kraken_post_one_shot:
  assumes "\<And>rq. kraken_authentic A c rq \<Longrightarrow> rq_url rq = vc_url c @ path \<Longrightarrow> ok rq"
  shows "one_shot ok kraken_bears n (kraken_auth_post A c n path body k)"
proof (cases "kraken_sign A c path (show_word (client_next_nonce n)) (''nonce='' @ show_word (client_next_nonce n) @ (if body = [] then [] else ''&'' @ body))")
  case (Inl err)
  then show ?thesis by (simp add: kraken_auth_post_def Let_def client_next_nonce_def http_simps)
next
  case (Inr signature)
  let ?rq = "\<lparr>rq_method = POST, rq_url = vc_url c @ path,
    rq_headers = [(''API-Key'', vc_key c), (''API-Sign'', signature), (''Content-Type'', ''application/x-www-form-urlencoded'')],
    rq_body = Some (''nonce='' @ show_word (n + 1) @ (if body = [] then [] else ''&'' @ body))\<rparr>"
  have bears: "kraken_bears (n + 1) ?rq"
    unfolding kraken_bears_def by (intro exI [of _ "if body = [] then [] else ''&'' @ body"]) simp
  obtain key_bytes where key: "unbase64 A (vc_secret c) = Inr key_bytes"
    "signature = base64 A (hmac_sha512 A key_bytes (show_word (n + 1) @ path @ the (rq_body ?rq)))"
    using Inr by (auto simp: kraken_sign_def client_next_nonce_def split: sum.splits)
  have "kraken_authentic A c ?rq" unfolding kraken_authentic_def
    using key bears by (intro exI [of _ "n + 1"] exI [of _ path] exI [of _ "the (rq_body ?rq)"] exI [of _ key_bytes]) simp
  then have "ok ?rq" by (rule assms) simp
  then show ?thesis using Inr bears unfolding kraken_auth_post_def Let_def client_next_nonce_def by (simp add: one_shot_call)
qed

lemma kraken_post_other:
  "path \<noteq> ''/0/private/AddOrder'' \<Longrightarrow> one_shot (\<lambda>rq. kraken_authentic A c rq \<and> \<not> kraken_places c rq) kraken_bears n (kraken_auth_post A c n path body k)"
  by (rule kraken_post_one_shot) (simp add: kraken_places_def)

interpretation kraken: nonce_client "kraken_perform A c" "kraken_authentic A c" "kraken_places c" kraken_bears for A c
  unfolding kraken_perform_def
  by (rule nonce_clientI)
    (simp_all add: kraken_submit_order_def kraken_cancel_order_def kraken_query_order_def kraken_get_balance_def Let_def
       kraken_post_one_shot kraken_post_other http_simps split: option.split)

section \<open>What the clients get wrong\<close>

text \<open>
  Bitfinex: an answer of the shape that the comment gives, four members with the orders in the last, is read at position 4 and gives no identifier;
  the result then says that the submission failed and yet that everything was filled.  The client identifier is a sum of characters,
  so that identifiers with the same characters in another order collide.  Kraken: an open order counts as a success
  although the comment says that only a closed one is filled, and fill-or-kill orders become market orders without a price.
\<close>

lemma bitfinex_answer_misread:
  assumes "is_success status" "from_str A body = Inr (JArray [x0, x1, x2, x3])"
  shows "\<exists>res. snd (run_http (bitfinex_submit_order A c clk n r) [Response status shown (Inr body)]) = Some (Inr res, n + 1) \<and>
    \<not> res_success res \<and> res_order_id res = None \<and> res_filled res = or_quantity r"
  using assms
  by (simp add: bitfinex_submit_order_def bitfinex_auth_post_def Let_def with_state_def http_map_def call_def fetch_def require_ok_def decode_def
      client_next_nonce_def placed_def result_default_def bitfinex_order_id_def json_index_def as_array_def get_at_def first_of_def)

lemma bitfinex_cid_collides: "bitfinex_cid ''leg-12'' = bitfinex_cid ''leg-21''"
  by code_simp

lemma kraken_fok_is_market:
  "or_kind r \<in> {FokOrder, IocOrder} \<Longrightarrow> kraken_submit_order A c clk n r = kraken_submit_order A c clk n (r\<lparr>or_kind := MarketOrder, or_price := None\<rparr>)"
  by (auto simp: kraken_submit_order_def)

end
