(* ===== verification/Venue_Clients_C.thy ===== *)
theory Venue_Clients_C
  imports Venue_Clients_B "HOL-Library.List_Lexorder" "HOL-Library.Char_ord"
begin

text \<open>
  Clients of \<^verbatim>\<open>src/src/exchanges.rs\<close>, third part: LBank, MEXC, Delta and HTX.  The first three have no state; HTX keeps the identifier
  of the account and the last timestamp.
\<close>

section \<open>Texts\<close>

text \<open>\<^verbatim>\<open>trim_end_matches\<close> with a character, \<^verbatim>\<open>trim_start_matches\<close> and \<^verbatim>\<open>trim_end_matches\<close> with a text.\<close>

definition trim_end_char :: "char \<Rightarrow> string \<Rightarrow> string" where
  "trim_end_char ch s = rev (dropWhile (\<lambda>x. x = ch) (rev s))"

function trim_start_str :: "string \<Rightarrow> string \<Rightarrow> string" where
  "trim_start_str pat s = (if pat \<noteq> [] \<and> is_prefix_of pat s \<and> s \<noteq> [] then trim_start_str pat (drop (length pat) s) else s)"
  by pat_completeness auto
termination
  by (relation "measure (\<lambda>(pat, s). length s)") auto

declare trim_start_str.simps [simp del]

definition trim_end_str :: "string \<Rightarrow> string \<Rightarrow> string" where
  "trim_end_str pat s = rev (trim_start_str (rev pat) (rev s))"

text \<open>\<^verbatim>\<open>params.sort_by(|a, b| a.0.cmp(b.0))\<close>, which is stable.\<close>

definition sort_params :: "(string \<times> string) list \<Rightarrow> (string \<times> string) list" where
  "sort_params ps = sort_key fst ps"

text \<open>A balance that is given as a text and read as a float.\<close>

definition float_balance :: "('f, 'd) client_api \<Rightarrow> 'f json \<Rightarrow> 'd" where
  "float_balance A v =
     (case Option.bind (as_str v) (read_float A) of
        None \<Rightarrow> zero_of A
      | Some x \<Rightarrow> unwrap_or (float_decimal A (Float x)) (zero_of A))"

text \<open>The result of a submission, which depends on whether the answer names the order.\<close>

definition named_order :: "string option \<Rightarrow> 'd \<Rightarrow> 'd \<Rightarrow> string \<Rightarrow> 'd client_result" where
  "named_order oid filled avg msg = queried (oid \<noteq> None) oid filled avg msg"

section \<open>LBank\<close>

definition lbank_new :: "string \<Rightarrow> string \<Rightarrow> venue_client" where
  "lbank_new = venue_new 11 ''https://api.lbank.info''"

definition sign_params :: "('f, 'd) client_api \<Rightarrow> venue_client \<Rightarrow> (string \<times> string) list \<Rightarrow> string" where
  "sign_params A c params =
     (let plain = query_text (sort_params params)
      in plain @ ''&sign='' @ hex A (hmac_sha256 A (vc_secret c) plain) @ ''&sign_type=1'')"

definition lbank_symbol :: "string \<Rightarrow> string" where
  "lbank_symbol symbol = to_lowercase (replace_char CHR ''/'' ''_'' symbol)"

definition lbank_request :: "('f, 'd) client_api \<Rightarrow> venue_client \<Rightarrow> string \<Rightarrow> (string \<times> string) list \<Rightarrow> http_request" where
  "lbank_request A c path params =
     \<lparr>rq_method = POST, rq_url = trim_end_char CHR ''/'' (vc_url c) @ path,
      rq_headers = [(''Content-Type'', ''application/x-www-form-urlencoded'')], rq_body = Some (sign_params A c params)\<rparr>"

definition lbank_signed_post ::
  "('f, 'd) client_api \<Rightarrow> venue_client \<Rightarrow> string \<Rightarrow> (string \<times> string) list \<Rightarrow> ('f json \<Rightarrow> string + 'a) \<Rightarrow> (string + 'a) http" where
  "lbank_signed_post A c path params k =
     (let label = ''LBank signed_post''
      in call label (lbank_request A c path params) (\<lambda>status shown body. require_ok label status shown body (decode (from_str A) label body k)))"

definition lbank_order_params :: "('f, 'd) client_api \<Rightarrow> venue_client \<Rightarrow> u64 \<Rightarrow> 'd order_request \<Rightarrow> (string \<times> string) list" where
  "lbank_order_params A c ts r =
     [(''amount'', show_dec A (or_quantity r)), (''api_key'', vc_key c), (''symbol'', lbank_symbol (or_symbol r)), (''timestamp'', show_word ts),
      (''type'', side_lower (or_side r))] @
     (if or_kind r = LimitOrder then opt_param ''price'' (map_option (show_dec A) (or_price r)) else []) @
     opt_param ''custom_id'' (nonempty_id (or_client_id r))"

definition lbank_submit_order ::
  "('f, 'd) client_api \<Rightarrow> venue_client \<Rightarrow> clock \<Rightarrow> 'd order_request \<Rightarrow> (string + 'd client_result) http" where
  "lbank_submit_order A c clk r =
     lbank_signed_post A c ''/v2/create_order.do'' (lbank_order_params A c (clk 0) r) (\<lambda>v.
       Inr (named_order (field_str ''data'' v) (zero_of A) (zero_of A) ''LBank: missing order ID in response''))"

definition lbank_get_balance :: "('f, 'd) client_api \<Rightarrow> venue_client \<Rightarrow> clock \<Rightarrow> string \<Rightarrow> (string + 'd) http" where
  "lbank_get_balance A c clk asset =
     lbank_signed_post A c ''/v2/user_info.do'' [(''api_key'', vc_key c), (''timestamp'', show_word (clk 0))] (\<lambda>v.
       case json_get ''free'' (jfield ''funds'' (jfield ''data'' v)) of
         Some (JObject free) \<Rightarrow>
           (case find (\<lambda>(key, _). eq_ignore_case key asset) free of
              Some (_, x) \<Rightarrow> Inr (float_balance A x)
            | None \<Rightarrow> no_asset ''LBank'' asset)
       | _ \<Rightarrow> no_asset ''LBank'' asset)"

definition lbank_id_params :: "venue_client \<Rightarrow> u64 \<Rightarrow> string \<Rightarrow> string \<Rightarrow> (string \<times> string) list" where
  "lbank_id_params c ts symbol oid =
     [(''api_key'', vc_key c), (''order_id'', oid), (''symbol'', lbank_symbol symbol), (''timestamp'', show_word ts)]"

definition lbank_cancel_order ::
  "('f, 'd) client_api \<Rightarrow> venue_client \<Rightarrow> clock \<Rightarrow> string \<Rightarrow> string \<Rightarrow> (string + 'd client_result) http" where
  "lbank_cancel_order A c clk symbol oid =
     lbank_signed_post A c ''/v2/cancel_order.do'' (lbank_id_params c (clk 0) symbol oid) (\<lambda>v. Inr (accepted A (Some oid)))"

definition lbank_query_order ::
  "('f, 'd) client_api \<Rightarrow> venue_client \<Rightarrow> clock \<Rightarrow> string \<Rightarrow> string \<Rightarrow> (string + 'd client_result) http" where
  "lbank_query_order A c clk symbol oid =
     lbank_signed_post A c ''/v2/orders_info.do'' (lbank_id_params c (clk 0) symbol oid) (\<lambda>v.
       let order = jelem 0 (jfield ''data'' v); status_code = unwrap_or (as_u64 (jfield ''status'' order)) 99
       in Inr (queried (status_code \<le> 2) (Some oid) (parse_json_decimal A (jfield ''dealQuantity'' order))
            (parse_json_decimal A (jfield ''avgPrice'' order)) (''unfilled: status='' @ show_word status_code)))"

section \<open>MEXC\<close>

definition mexc_new :: "string \<Rightarrow> string \<Rightarrow> venue_client" where
  "mexc_new = venue_new 15 ''https://api.mexc.com''"

definition mexc_symbol :: "string \<Rightarrow> string" where
  "mexc_symbol symbol = to_uppercase (replace_char CHR ''/'' [] symbol)"

definition signed_query :: "('f, 'd) client_api \<Rightarrow> venue_client \<Rightarrow> u64 \<Rightarrow> (string \<times> string) list \<Rightarrow> string" where
  "signed_query A c ts params =
     (let query = query_text ((''timestamp'', show_word ts) # params)
      in query @ ''&signature='' @ hex A (hmac_sha256 A (vc_secret c) query))"

definition mexc_request ::
  "('f, 'd) client_api \<Rightarrow> venue_client \<Rightarrow> u64 \<Rightarrow> http_method \<Rightarrow> string \<Rightarrow> (string \<times> string) list \<Rightarrow> string option \<Rightarrow> http_request" where
  "mexc_request A c ts m path params body =
     \<lparr>rq_method = m, rq_url = vc_url c @ path @ ''?'' @ signed_query A c ts params,
      rq_headers = (''X-MEXC-APIKEY'', vc_key c) # (if body = None then [] else content_json), rq_body = body\<rparr>"

definition mexc_order_body :: "('f, 'd) client_api \<Rightarrow> 'd order_request \<Rightarrow> 'f json" where
  "mexc_order_body A r =
     (let order_type = (if or_kind r = MarketOrder then ''MARKET'' else ''LIMIT'')
      in jinsert_opt ''timeInForce'' (if order_type = ''LIMIT'' then Some (JString ''GTC'') else None)
           (jinsert_opt ''price'' (map_option (JString \<circ> show_dec A) (or_price r))
             (JObject [(''symbol'', JString (mexc_symbol (or_symbol r))), (''side'', JString (side_name (or_side r))),
                (''type'', JString order_type), (''quantity'', JString (show_dec A (or_quantity r)))])))"

definition mexc_submit_order ::
  "('f, 'd) client_api \<Rightarrow> venue_client \<Rightarrow> clock \<Rightarrow> 'd order_request \<Rightarrow> (string + 'd client_result) http" where
  "mexc_submit_order A c clk r =
     (let label = ''MEXC submit_order''
      in call label (mexc_request A c (clk 0) POST ''/api/v3/order'' [] (Some (json_text A (mexc_order_body A r)))) (\<lambda>status shown body.
           if \<not> is_success status then Inr (refused A (''HTTP '' @ shown @ '': '' @ body))
           else decode (from_str A) label body (\<lambda>v.
             Inr (named_order (field_str ''orderId'' v) (parse_json_decimal A (jfield ''filledQty'' v))
               (parse_json_decimal A (jfield ''avgPrice'' v)) ''MEXC: missing orderId in response''))))"

definition mexc_get_balance :: "('f, 'd) client_api \<Rightarrow> venue_client \<Rightarrow> clock \<Rightarrow> string \<Rightarrow> (string + 'd) http" where
  "mexc_get_balance A c clk asset =
     (let label = ''MEXC get_balance''
      in call label (mexc_request A c (clk 0) GET ''/api/v3/account'' [] None) (\<lambda>status shown body.
           require_ok label status shown body (decode (from_str A) label body (\<lambda>v.
             case Option.bind (as_array (jfield ''balances'' v))
                    (find_entry (\<lambda>b. map_option (\<lambda>a. eq_ignore_case a asset) (field_str ''asset'' b) = Some True)) of
               Some b \<Rightarrow> Inr (or_dec A (field_str ''free'' b))
             | None \<Rightarrow> no_asset ''MEXC'' asset))))"

definition mexc_id_params :: "string \<Rightarrow> string \<Rightarrow> (string \<times> string) list" where
  "mexc_id_params symbol oid = [(''symbol'', mexc_symbol symbol), (''orderId'', oid)]"

definition mexc_cancel_order ::
  "('f, 'd) client_api \<Rightarrow> venue_client \<Rightarrow> clock \<Rightarrow> string \<Rightarrow> string \<Rightarrow> (string + 'd client_result) http" where
  "mexc_cancel_order A c clk symbol oid =
     (let label = ''MEXC cancel_order''
      in call label (mexc_request A c (clk 0) DELETE ''/api/v3/order'' (mexc_id_params symbol oid) None) (\<lambda>status shown body.
           require_ok label status shown body (Inr (accepted A (Some oid)))))"

definition mexc_query_order ::
  "('f, 'd) client_api \<Rightarrow> venue_client \<Rightarrow> clock \<Rightarrow> string \<Rightarrow> string \<Rightarrow> (string + 'd client_result) http" where
  "mexc_query_order A c clk symbol oid =
     (let label = ''MEXC query_order''
      in call label (mexc_request A c (clk 0) GET ''/api/v3/order'' (mexc_id_params symbol oid) None) (\<lambda>status shown body.
           require_ok label status shown body (decode (from_str A) label body (\<lambda>v.
             let st = unwrap_or (field_str ''status'' v) ''UNKNOWN''
             in Inr (queried (st = ''FILLED'' \<or> st = ''PARTIALLY_FILLED'') (Some oid) (parse_json_decimal A (jfield ''filledQty'' v))
                  (parse_json_decimal A (jfield ''avgPrice'' v)) (''unfilled: '' @ st))))))"

section \<open>Delta\<close>

definition delta_new :: "string \<Rightarrow> string \<Rightarrow> venue_client" where
  "delta_new = venue_new 14 ''https://api.india.delta.exchange''"

definition delta_sign :: "('f, 'd) client_api \<Rightarrow> venue_client \<Rightarrow> string \<Rightarrow> string \<Rightarrow> string \<Rightarrow> string \<Rightarrow> string" where
  "delta_sign A c timestamp meth path body = hex A (hmac_sha256 A (vc_secret c) (timestamp @ to_uppercase meth @ path @ body))"

definition delta_base :: "venue_client \<Rightarrow> string" where
  "delta_base c = trim_end_str ''/v2'' (trim_end_char CHR ''/'' (vc_url c))"

definition delta_request :: "('f, 'd) client_api \<Rightarrow> venue_client \<Rightarrow> u64 \<Rightarrow> http_method \<Rightarrow> string \<Rightarrow> string option \<Rightarrow> http_request" where
  "delta_request A c ts m path body =
     \<lparr>rq_method = m, rq_url = delta_base c @ path,
      rq_headers = [(''api-key'', vc_key c), (''timestamp'', secs ts),
        (''signature'', delta_sign A c (secs ts) (method_name m) path (unwrap_or body []))] @ content_json,
      rq_body = body\<rparr>"

definition delta_send_signed ::
  "('f, 'd) client_api \<Rightarrow> venue_client \<Rightarrow> u64 \<Rightarrow> http_method \<Rightarrow> string \<Rightarrow> string option \<Rightarrow> ('f json \<Rightarrow> string + 'a) \<Rightarrow> (string + 'a) http" where
  "delta_send_signed A c ts m path body k =
     (let label = ''Delta '' @ method_name m
      in call label (delta_request A c ts m path body) (\<lambda>status shown txt. require_ok label status shown txt (decode (from_str A) label txt k)))"

definition resolve_product_id :: "string \<Rightarrow> string" where
  "resolve_product_id symbol =
     (let id_part = rev (takeWhile (\<lambda>ch. ch \<noteq> CHR '':'') (rev symbol))
      in if CHR '':'' \<in> set symbol \<and> parse_u64 id_part \<noteq> None then id_part else symbol)"

definition delta_order_body :: "('f, 'd) client_api \<Rightarrow> 'd order_request \<Rightarrow> 'f json" where
  "delta_order_body A r =
     jinsert_opt ''limit_price'' (map_option (JString \<circ> show_dec A) (or_price r))
       (JObject [(''product_id'', JString (resolve_product_id (or_symbol r))), (''size'', JString (show_dec A (or_quantity r))),
          (''side'', JString (side_lower (or_side r))),
          (''order_type'', JString (if or_kind r = MarketOrder then ''market_order'' else ''limit_order''))])"

definition delta_submit_order ::
  "('f, 'd) client_api \<Rightarrow> venue_client \<Rightarrow> clock \<Rightarrow> 'd order_request \<Rightarrow> (string + 'd client_result) http" where
  "delta_submit_order A c clk r =
     delta_send_signed A c (clk 0) POST ''/v2/orders'' (Some (json_text A (delta_order_body A r))) (\<lambda>v.
       Inr (named_order (field_str ''id'' v) (parse_json_decimal A (jfield ''filled_quantity'' v))
         (parse_json_decimal A (jfield ''avg_fill_price'' v)) ''Delta: missing order ID in response''))"

definition delta_get_balance :: "('f, 'd) client_api \<Rightarrow> venue_client \<Rightarrow> clock \<Rightarrow> string \<Rightarrow> (string + 'd) http" where
  "delta_get_balance A c clk asset =
     delta_send_signed A c (clk 0) GET ''/v2/wallet/balances'' None (\<lambda>v.
       case find_entry (\<lambda>e. map_option (\<lambda>a. eq_ignore_case a asset) (field_str ''asset_symbol'' e) = Some True)
              (unwrap_or (or_else (as_array (jfield ''result'' v)) (as_array v)) []) of
         Some e \<Rightarrow> Inr (parse_json_decimal A (jfield ''balance'' e))
       | None \<Rightarrow> no_asset ''Delta'' asset)"

definition delta_cancel_order ::
  "('f, 'd) client_api \<Rightarrow> venue_client \<Rightarrow> clock \<Rightarrow> string \<Rightarrow> string \<Rightarrow> (string + 'd client_result) http" where
  "delta_cancel_order A c clk symbol oid =
     delta_send_signed A c (clk 0) DELETE (''/v2/orders/'' @ oid) None (\<lambda>v. Inr (accepted A (Some oid)))"

definition delta_query_order ::
  "('f, 'd) client_api \<Rightarrow> venue_client \<Rightarrow> clock \<Rightarrow> string \<Rightarrow> string \<Rightarrow> (string + 'd client_result) http" where
  "delta_query_order A c clk symbol oid =
     delta_send_signed A c (clk 0) GET (''/v2/orders/'' @ oid) None (\<lambda>v.
       let st = unwrap_or (field_str ''state'' v) ''unknown''
       in Inr (queried (st = ''filled'') (Some oid) (parse_json_decimal A (jfield ''filled_quantity'' v))
            (parse_json_decimal A (jfield ''avg_fill_price'' v)) (''unfilled: '' @ st)))"

section \<open>HTX\<close>

record htx_state =
  htx_account :: u64
  htx_counter :: u64

definition htx_new :: "string \<Rightarrow> string \<Rightarrow> venue_client" where
  "htx_new = venue_new 9 ''https://api.huobi.pro''"

definition htx_init :: "u64 \<Rightarrow> htx_state" where
  "htx_init now = \<lparr>htx_account = 0, htx_counter = now\<rparr>"

text \<open>
  The timestamp is taken in two atomic steps: the maximum of the counter and the clock goes into the counter, and the timestamp that follows
  from the previous value is stored.
\<close>

definition htx_fetch_max :: "u64 \<Rightarrow> u64 \<Rightarrow> u64 \<times> u64" where
  "htx_fetch_max now cnt = (if cnt < now then now else cnt + 1, max cnt now)"

definition next_timestamp :: "u64 \<Rightarrow> htx_state \<Rightarrow> string \<times> htx_state" where
  "next_timestamp now s = (let (ts, _) = htx_fetch_max now (htx_counter s) in (show_word ts, s\<lparr>htx_counter := ts\<rparr>))"

definition htx_sign :: "('f, 'd) client_api \<Rightarrow> venue_client \<Rightarrow> string \<Rightarrow> string \<Rightarrow> string \<Rightarrow> string \<Rightarrow> string" where
  "htx_sign A c meth host path query = hex A (hmac_sha256 A (vc_secret c) (join_with [CHR 0x0A] [meth, host, path, query]))"

definition htx_host :: "venue_client \<Rightarrow> string" where
  "htx_host c = trim_end_char CHR ''/'' (trim_start_str ''http://'' (trim_start_str ''https://'' (vc_url c)))"

definition signed_url ::
  "('f, 'd) client_api \<Rightarrow> venue_client \<Rightarrow> u64 \<Rightarrow> htx_state \<Rightarrow> string \<Rightarrow> string \<Rightarrow> (string \<times> string) list \<Rightarrow> string \<times> htx_state" where
  "signed_url A c now s meth path extra_params =
     (let (ts, s') = next_timestamp now s;
          query = query_text (sort_params ([(''AccessKeyId'', vc_key c), (''SignatureMethod'', ''HmacSHA256''), (''SignatureVersion'', ''2''),
                    (''Timestamp'', ts)] @ extra_params))
      in (trim_end_char CHR ''/'' (vc_url c) @ path @ ''?'' @ query @ ''&Signature='' @ htx_sign A c meth (htx_host c) path query, s'))"

definition htx_call ::
  "('f, 'd) client_api \<Rightarrow> venue_client \<Rightarrow> u64 \<Rightarrow> htx_state \<Rightarrow> string \<Rightarrow> http_method \<Rightarrow> string \<Rightarrow> string option \<Rightarrow>
   (nat \<Rightarrow> string \<Rightarrow> string \<Rightarrow> string + 'a) \<Rightarrow> ((string + 'a) \<times> htx_state) http" where
  "htx_call A c now s label m path body res =
     (let (url, s') = signed_url A c now s (method_name m) path []
      in with_state s' (call label
           \<lparr>rq_method = m, rq_url = url, rq_headers = (if body = None then [] else content_json), rq_body = body\<rparr> res))"

text \<open>A program that goes on with the result of another one, unless that failed: the question mark of the source.\<close>

definition http_try :: "((string + 'a) \<times> 's) http \<Rightarrow> ('a \<Rightarrow> 's \<Rightarrow> ((string + 'b) \<times> 's) http) \<Rightarrow> ((string + 'b) \<times> 's) http" where
  "http_try p k = http_bind p (\<lambda>(r, s). case r of Inl err \<Rightarrow> Return (Inl err, s) | Inr x \<Rightarrow> k x s)"

definition ensure_account_id :: "('f, 'd) client_api \<Rightarrow> venue_client \<Rightarrow> clock \<Rightarrow> htx_state \<Rightarrow> ((string + u64) \<times> htx_state) http" where
  "ensure_account_id A c clk s =
     (let label = ''HTX ensure_account_id''
      in if htx_account s \<noteq> 0 then Return (Inr (htx_account s), s)
         else http_try (htx_call A c (clk 0) s label GET ''/v1/account/accounts'' None (\<lambda>status shown body.
                require_ok label status shown body (decode (from_str A) label body (\<lambda>v.
                  case as_u64 (jfield ''id'' (jelem 0 (jfield ''data'' v))) of
                    None \<Rightarrow> Inl ''HTX: failed to parse account-id''
                  | Some aid \<Rightarrow> Inr aid))))
              (\<lambda>aid s'. Return (Inr aid, s'\<lparr>htx_account := aid\<rparr>)))"

definition htx_symbol :: "string \<Rightarrow> string" where
  "htx_symbol symbol = to_lowercase (replace_char CHR ''/'' [] symbol)"

definition htx_order_body :: "('f, 'd) client_api \<Rightarrow> u64 \<Rightarrow> 'd order_request \<Rightarrow> 'f json" where
  "htx_order_body A aid r =
     jinsert_opt ''client-order-id'' (map_option JString (nonempty_id (or_client_id r)))
       (jinsert_opt ''price'' (map_option (JString \<circ> show_dec A) (or_price r))
         (JObject [(''account-id'', JString (show_word aid)), (''amount'', JString (show_dec A (or_quantity r))),
            (''symbol'', JString (htx_symbol (or_symbol r))), (''type'', JString (side_lower (or_side r) @ ''-'' @ kind_lower (or_kind r)))]))"

definition htx_submit_order ::
  "('f, 'd) client_api \<Rightarrow> venue_client \<Rightarrow> clock \<Rightarrow> htx_state \<Rightarrow> 'd order_request \<Rightarrow> ((string + 'd client_result) \<times> htx_state) http" where
  "htx_submit_order A c clk s r =
     (let label = ''HTX submit_order''
      in http_try (ensure_account_id A c clk s) (\<lambda>aid s'.
           htx_call A c (clk (if htx_account s \<noteq> 0 then 0 else 1)) s' label POST ''/v1/order/orders/place'' (Some (json_text A (htx_order_body A aid r)))
             (\<lambda>status shown body. require_ok label status shown body (decode (from_str A) label body (\<lambda>v.
                Inr (named_order (field_str ''data'' v) (zero_of A) (zero_of A) ''HTX: missing order ID in response''))))))"

definition htx_get_balance ::
  "('f, 'd) client_api \<Rightarrow> venue_client \<Rightarrow> clock \<Rightarrow> htx_state \<Rightarrow> string \<Rightarrow> ((string + 'd) \<times> htx_state) http" where
  "htx_get_balance A c clk s asset =
     (let label = ''HTX get_balance accounts''; label2 = ''HTX get_balance balance''
      in http_try (htx_call A c (clk 0) s label GET ''/v1/account/accounts'' None (\<lambda>status shown body.
             require_ok label status shown body (decode (from_str A) label body (\<lambda>v.
               case Option.bind (first_of (as_array (jfield ''data'' v))) (\<lambda>a. as_i64 (jfield ''id'' a)) of
                 None \<Rightarrow> Inl ''HTX: failed to parse account-id in get_balance''
               | Some aid \<Rightarrow> Inr aid))))
           (\<lambda>aid s'. htx_call A c (clk 1) s' label2 GET (''/v1/account/accounts/'' @ show_i64 aid @ ''/balance'') None (\<lambda>status shown body.
             require_ok label2 status shown body (decode (from_str A) label2 body (\<lambda>v.
               case Option.bind (as_array (jfield ''list'' (jfield ''data'' v)))
                      (find_entry (\<lambda>b. eq_ignore_case (unwrap_or (field_str ''currency'' b) []) asset)) of
                 Some b \<Rightarrow> Inr (float_balance A (jfield ''balance'' b))
               | None \<Rightarrow> no_asset ''HTX'' asset)))))"

definition htx_cancel_order ::
  "('f, 'd) client_api \<Rightarrow> venue_client \<Rightarrow> clock \<Rightarrow> htx_state \<Rightarrow> string \<Rightarrow> string \<Rightarrow> ((string + 'd client_result) \<times> htx_state) http" where
  "htx_cancel_order A c clk s symbol oid =
     (let label = ''HTX cancel_order''
      in htx_call A c (clk 0) s label POST (''/v1/order/orders/'' @ oid @ ''/submitcancel'') None (\<lambda>status shown body.
           require_ok label status shown body (Inr (accepted A (Some oid)))))"

definition htx_query_order ::
  "('f, 'd::linorder) client_api \<Rightarrow> venue_client \<Rightarrow> clock \<Rightarrow> htx_state \<Rightarrow> string \<Rightarrow> string \<Rightarrow> ((string + 'd client_result) \<times> htx_state) http" where
  "htx_query_order A c clk s symbol oid =
     (let label = ''HTX query_order''
      in htx_call A c (clk 0) s label GET (''/v1/order/orders/'' @ oid) None (\<lambda>status shown body.
           require_ok label status shown body (decode (from_str A) label body (\<lambda>v.
             let order = jfield ''data'' v;
                 filled = parse_json_decimal A (jfield ''field-amount'' order);
                 cash = parse_json_decimal A (jfield ''field-cash-amount'' order);
                 avg = (if zero_of A < filled then dec_div (num_ops A) cash filled else zero_of A);
                 st = unwrap_or (field_str ''state'' order) ''UNKNOWN''
             in Inr (queried (st \<in> {''submitted'', ''partial-filled'', ''filled''}) (Some oid) filled avg (''unfilled: '' @ st))))))"

section \<open>The contract of the stateless clients\<close>

definition lbank_authentic :: "('f, 'd) client_api \<Rightarrow> venue_client \<Rightarrow> http_request \<Rightarrow> bool" where
  "lbank_authentic A c rq \<longleftrightarrow> (\<exists>ps plain. plain = query_text ps \<and> (''api_key'', vc_key c) \<in> set ps \<and>
     rq_body rq = Some (plain @ ''&sign='' @ hex A (hmac_sha256 A (vc_secret c) plain) @ ''&sign_type=1''))"

definition lbank_places :: "venue_client \<Rightarrow> http_request \<Rightarrow> bool" where
  "lbank_places c rq \<longleftrightarrow> rq_url rq = trim_end_char CHR ''/'' (vc_url c) @ ''/v2/create_order.do''"

definition lbank_perform ::
  "('f, 'd) client_api \<Rightarrow> venue_client \<Rightarrow> clock \<Rightarrow> 's \<Rightarrow> 'd client_call \<Rightarrow> ((string + 'd client_answer) \<times> 's) http" where
  "lbank_perform A c = (\<lambda>clk s call. with_state s
     (client_program (lbank_submit_order A c clk) (lbank_cancel_order A c clk) (lbank_query_order A c clk) (lbank_get_balance A c clk) call))"

lemma lbank_request_simps:
  "(''api_key'', vc_key c) \<in> set params \<Longrightarrow> lbank_authentic A c (lbank_request A c path params)"
  "lbank_places c (lbank_request A c path params) \<longleftrightarrow> path = ''/v2/create_order.do''"
  by (auto simp: lbank_authentic_def lbank_places_def lbank_request_def sign_params_def sort_params_def Let_def intro!: exI [of _ "sort_key fst params"])

interpretation lbank: private_client "lbank_perform A c" "lbank_authentic A c" "lbank_places c" for A c
  unfolding lbank_perform_def
  by (rule stateless_client)
    (simp_all add: lbank_submit_order_def lbank_cancel_order_def lbank_query_order_def lbank_get_balance_def lbank_signed_post_def Let_def http_simps
       lbank_request_simps lbank_order_params_def lbank_id_params_def)

definition mexc_authentic :: "('f, 'd) client_api \<Rightarrow> venue_client \<Rightarrow> http_request \<Rightarrow> bool" where
  "mexc_authentic A c rq \<longleftrightarrow> (''X-MEXC-APIKEY'', vc_key c) \<in> set (rq_headers rq) \<and>
     (\<exists>path query. rq_url rq = vc_url c @ path @ ''?'' @ query @ ''&signature='' @ hex A (hmac_sha256 A (vc_secret c) query))"

definition mexc_places :: "venue_client \<Rightarrow> http_request \<Rightarrow> bool" where
  "mexc_places c rq \<longleftrightarrow> rq_method rq = POST \<and> (\<exists>query. rq_url rq = vc_url c @ ''/api/v3/order?'' @ query)"

definition mexc_perform ::
  "('f, 'd) client_api \<Rightarrow> venue_client \<Rightarrow> clock \<Rightarrow> 's \<Rightarrow> 'd client_call \<Rightarrow> ((string + 'd client_answer) \<times> 's) http" where
  "mexc_perform A c = (\<lambda>clk s call. with_state s
     (client_program (mexc_submit_order A c clk) (mexc_cancel_order A c clk) (mexc_query_order A c clk) (mexc_get_balance A c clk) call))"

lemma mexc_request_authentic: "mexc_authentic A c (mexc_request A c ts m path params body)"
  by (auto simp: mexc_authentic_def mexc_request_def signed_query_def Let_def)

lemma mexc_request_places: "m \<noteq> POST \<Longrightarrow> \<not> mexc_places c (mexc_request A c ts m path params body)"
  by (simp add: mexc_places_def mexc_request_def)

interpretation mexc: private_client "mexc_perform A c" "mexc_authentic A c" "mexc_places c" for A c
  unfolding mexc_perform_def
  by (rule stateless_client)
    (simp_all add: mexc_submit_order_def mexc_cancel_order_def mexc_query_order_def mexc_get_balance_def Let_def http_simps
       mexc_request_authentic mexc_request_places)

definition delta_authentic :: "('f, 'd) client_api \<Rightarrow> venue_client \<Rightarrow> http_request \<Rightarrow> bool" where
  "delta_authentic A c rq \<longleftrightarrow> (\<exists>ts::u64. signs (delta_base c) (\<lambda>path m body.
     [(''api-key'', vc_key c), (''timestamp'', secs ts), (''signature'', hex A (hmac_sha256 A (vc_secret c) (secs ts @ m @ path @ body)))]) rq)"

definition delta_places :: "venue_client \<Rightarrow> http_request \<Rightarrow> bool" where
  "delta_places c rq \<longleftrightarrow> rq_method rq = POST \<and> rq_url rq = delta_base c @ ''/v2/orders''"

definition delta_perform ::
  "('f, 'd) client_api \<Rightarrow> venue_client \<Rightarrow> clock \<Rightarrow> 's \<Rightarrow> 'd client_call \<Rightarrow> ((string + 'd client_answer) \<times> 's) http" where
  "delta_perform A c = (\<lambda>clk s call. with_state s
     (client_program (delta_submit_order A c clk) (delta_cancel_order A c clk) (delta_query_order A c clk) (delta_get_balance A c clk) call))"

lemma delta_request_authentic: "delta_authentic A c (delta_request A c ts m path body)"
  unfolding delta_authentic_def signs_def by (intro exI [of _ ts] exI [of _ path]) (simp add: delta_request_def delta_sign_def method_upper)

lemma delta_request_places: "m \<noteq> POST \<Longrightarrow> \<not> delta_places c (delta_request A c ts m path body)"
  by (simp add: delta_places_def delta_request_def)

interpretation delta: private_client "delta_perform A c" "delta_authentic A c" "delta_places c" for A c
  unfolding delta_perform_def
  by (rule stateless_client)
    (simp_all add: delta_submit_order_def delta_cancel_order_def delta_query_order_def delta_get_balance_def delta_send_signed_def Let_def http_simps
       delta_request_authentic delta_request_places)

section \<open>Clients with a state\<close>

lemma http_try_every [http_simps]:
  "every_request P p \<Longrightarrow> (\<And>x s. every_request P (k x s)) \<Longrightarrow> every_request P (http_try p k)"
  unfolding http_try_def by (rule every_request_bind) (simp_all split: prod.split sum.split)

lemma http_try_at_most: "every_request (\<lambda>rq. \<not> P rq) p \<Longrightarrow> (\<And>x s. at_most P (k x s) n) \<Longrightarrow> at_most P (http_try p k) n"
  unfolding http_try_def by (induction p) (auto split: prod.split sum.split)

lemma http_try_closed: "fail_closed (isl \<circ> fst) p \<Longrightarrow> (\<And>x s. fail_closed (isl \<circ> fst) (k x s)) \<Longrightarrow> fail_closed (isl \<circ> fst) (http_try p k)"
proof (induction p)
  case (Send rq f)
  have "\<exists>y. http_try (f (NoResponse err)) k = Return y \<and> (isl \<circ> fst) y" for err
  proof -
    obtain r s where "f (NoResponse err) = Return (r, s)" "isl r" using Send.prems(1) by fastforce
    then show ?thesis by (cases r) (simp_all add: http_try_def)
  qed
  moreover have "fail_closed (isl \<circ> fst) (http_try (f rp) k)" for rp using Send.IH [of "f rp"] Send.prems by (simp del: o_apply)
  ultimately show ?case unfolding http_try_def by (simp del: o_apply)
qed (auto simp: http_try_def split: prod.split sum.split)

text \<open>A client with a state fulfils the contract when its four programs do.\<close>

lemma stateful_client:
  fixes submit :: "clock \<Rightarrow> 's \<Rightarrow> 'd order_request \<Rightarrow> ((string + 'd client_result) \<times> 's) http"
  assumes "\<And>clk s r. every_request auth (submit clk s r)" "\<And>clk s r. at_most pl (submit clk s r) (Suc 0)"
    "\<And>clk s r. fail_closed (isl \<circ> fst) (submit clk s r)"
    and "\<And>clk s sm oid. every_request (\<lambda>rq. auth rq \<and> \<not> pl rq) (cancel clk s sm oid)" "\<And>clk s sm oid. fail_closed (isl \<circ> fst) (cancel clk s sm oid)"
    and "\<And>clk s sm oid. every_request (\<lambda>rq. auth rq \<and> \<not> pl rq) (query clk s sm oid)" "\<And>clk s sm oid. fail_closed (isl \<circ> fst) (query clk s sm oid)"
    and "\<And>clk s a. every_request (\<lambda>rq. auth rq \<and> \<not> pl rq) (balance clk s a)" "\<And>clk s a. fail_closed (isl \<circ> fst) (balance clk s a)"
  shows "private_client (\<lambda>clk s. stateful_program (submit clk s) (cancel clk s) (query clk s) (balance clk s)) auth pl"
proof
  have weak: "every_request auth p \<and> every_request (\<lambda>rq. \<not> pl rq) p" if "every_request (\<lambda>rq. auth rq \<and> \<not> pl rq) p" for p :: "'x http"
    using that by (induction p) simp_all
  have mapped: "fail_closed (isl \<circ> fst) p \<Longrightarrow> fail_closed (isl \<circ> fst) (http_map (apfst (map_sum id f)) p)" for p :: "((string + 'x) \<times> 's) http" and f :: "'x \<Rightarrow> 'd client_answer"
    by (rule fail_closed_map [where E = "isl \<circ> fst"]) (auto simp: isl_map_sum)
  fix clk :: clock and s :: 's and c :: "'d client_call" and r
  let ?p = "stateful_program (submit clk s) (cancel clk s) (query clk s) (balance clk s)"
  show "every_request auth (?p c)"
    using assms(1) weak [OF assms(4)] weak [OF assms(6)] weak [OF assms(8)] by (cases c) (simp_all add: stateful_program_def)
  show "at_most pl (?p (SubmitOrder r)) 1" using assms(2) by (simp add: stateful_program_def)
  show "every_request (\<lambda>rq. \<not> pl rq) (?p c)" if "\<not> is_submit c"
    using that weak [OF assms(4)] weak [OF assms(6)] weak [OF assms(8)] by (cases c) (simp_all add: stateful_program_def)
  show "fail_closed (isl \<circ> fst) (?p c)" using assms(3,5,7,9) by (cases c) (simp_all add: stateful_program_def mapped)
qed

text \<open>HTX: the address carries the signature of the method, the host, the path and the parameters; the body is not signed.\<close>

definition htx_authentic :: "('f, 'd) client_api \<Rightarrow> venue_client \<Rightarrow> http_request \<Rightarrow> bool" where
  "htx_authentic A c rq \<longleftrightarrow> (\<exists>path ps query. query = query_text ps \<and> (''AccessKeyId'', vc_key c) \<in> set ps \<and>
     rq_url rq = trim_end_char CHR ''/'' (vc_url c) @ path @ ''?'' @ query @ ''&Signature='' @
       hex A (hmac_sha256 A (vc_secret c) (method_name (rq_method rq) @ [CHR 0x0A] @ htx_host c @ [CHR 0x0A] @ path @ [CHR 0x0A] @ query)))"

definition htx_places :: "venue_client \<Rightarrow> http_request \<Rightarrow> bool" where
  "htx_places c rq \<longleftrightarrow> rq_method rq = POST \<and> rq_body rq \<noteq> None \<and>
     (\<exists>query. rq_url rq = trim_end_char CHR ''/'' (vc_url c) @ ''/v1/order/orders/place?'' @ query)"

definition htx_perform ::
  "('f, 'd::linorder) client_api \<Rightarrow> venue_client \<Rightarrow> clock \<Rightarrow> htx_state \<Rightarrow> 'd client_call \<Rightarrow> ((string + 'd client_answer) \<times> htx_state) http" where
  "htx_perform A c = (\<lambda>clk s. stateful_program (htx_submit_order A c clk s) (htx_cancel_order A c clk s) (htx_query_order A c clk s)
     (htx_get_balance A c clk s))"

lemma htx_call_sends:
  obtains url s' where "htx_call A c now s label m path body res =
      with_state s' (call label \<lparr>rq_method = m, rq_url = url, rq_headers = (if body = None then [] else content_json), rq_body = body\<rparr> res)"
    "\<And>hs. htx_authentic A c \<lparr>rq_method = m, rq_url = url, rq_headers = hs, rq_body = body\<rparr>"
proof -
  obtain ts s' where ts: "next_timestamp now s = (ts, s')" by fastforce
  define url where "url = fst (signed_url A c now s (method_name m) path [])"
  show thesis
  proof (rule that)
    show "htx_call A c now s label m path body res =
      with_state s' (call label \<lparr>rq_method = m, rq_url = url, rq_headers = (if body = None then [] else content_json), rq_body = body\<rparr> res)"
      by (simp add: htx_call_def url_def signed_url_def ts Let_def)
    show "htx_authentic A c \<lparr>rq_method = m, rq_url = url, rq_headers = hs, rq_body = body\<rparr>" for hs
      unfolding htx_authentic_def
      by (rule exI [of _ path], rule exI [of _ "sort_params [(''AccessKeyId'', vc_key c), (''SignatureMethod'', ''HmacSHA256''), (''SignatureVersion'', ''2''), (''Timestamp'', ts)]"])
        (simp add: url_def signed_url_def ts htx_sign_def sort_params_def Let_def)
  qed
qed

lemma htx_call_authentic: "every_request (htx_authentic A c) (htx_call A c now s label m path body res)"
  by (rule htx_call_sends [of A c now s label m path body res]) (simp add: http_simps)

lemma htx_call_places: "body = None \<Longrightarrow> every_request (\<lambda>rq. htx_authentic A c rq \<and> \<not> htx_places c rq) (htx_call A c now s label m path body res)"
  by (rule htx_call_sends [of A c now s label m path body res]) (simp add: http_simps htx_places_def)

lemma htx_call_once: "at_most P (htx_call A c now s label m path body res) (Suc 0)"
  by (rule htx_call_sends [of A c now s label m path body res]) (simp add: http_simps)

lemma htx_call_closed: "fail_closed (isl \<circ> fst) (htx_call A c now s label m path body res)"
  by (rule htx_call_sends [of A c now s label m path body res]) (simp add: fail_closed_with_state fail_closed_call)

lemma ensure_account_id_contract:
  "every_request (\<lambda>rq. htx_authentic A c rq \<and> \<not> htx_places c rq) (ensure_account_id A c clk s)" "fail_closed (isl \<circ> fst) (ensure_account_id A c clk s)"
  unfolding ensure_account_id_def Let_def
  by (auto intro!: http_try_every http_try_closed htx_call_places htx_call_closed)

interpretation htx: private_client "htx_perform A c" "htx_authentic A c" "htx_places c" for A c
proof -
  have weak: "every_request P p" if "every_request (\<lambda>rq. P rq \<and> Q rq) p" for P Q and p :: "'x http" using that by (induction p) simp_all
  have weak2: "every_request Q p" if "every_request (\<lambda>rq. P rq \<and> Q rq) p" for P Q and p :: "'x http" using that by (induction p) simp_all
  show "private_client (htx_perform A c) (htx_authentic A c) (htx_places c)"
    unfolding htx_perform_def htx_submit_order_def htx_cancel_order_def htx_query_order_def htx_get_balance_def Let_def
    by (rule stateful_client)
      (intro http_try_every http_try_closed http_try_at_most htx_call_authentic htx_call_places htx_call_once htx_call_closed
         ensure_account_id_contract weak [OF ensure_account_id_contract(1)] weak2 [OF ensure_account_id_contract(1)]; simp)+
qed

section \<open>What the clients get wrong\<close>

text \<open>
  The timestamps of HTX increase when the calls follow one another.  They do not when two calls overlap: the second step of the slower
  call writes an older timestamp over the newer one, and a third call then gives a timestamp out again.
\<close>

lemma htx_timestamp_increases:
  assumes "unat (htx_counter s) + 1 < 2 ^ 64"
  shows "\<exists>ts. next_timestamp now s = (show_word ts, s\<lparr>htx_counter := ts\<rparr>) \<and> htx_counter s < ts \<and> now \<le> ts"
proof -
  have up: "htx_counter s < htx_counter s + 1" using assms by (simp add: word_less_nat_alt unat_plus_if')
  show ?thesis
  proof (cases "htx_counter s < now")
    case True
    then show ?thesis by (intro exI [of _ now]) (simp add: next_timestamp_def htx_fetch_max_def)
  next
    case False
    then show ?thesis using up by (intro exI [of _ "htx_counter s + 1"]) (auto simp: next_timestamp_def htx_fetch_max_def)
  qed
qed

lemma htx_timestamps_collide:
  "\<exists>cnt ts1 cnt1 ts2 cnt2 ts3 cnt3. htx_fetch_max 10 5 = (ts1, cnt1) \<and> htx_fetch_max 10 cnt1 = (ts2, cnt2) \<and>
     \<comment> \<open>the second call stores first, the first one after it\<close> cnt = ts1 \<and> htx_fetch_max 10 cnt = (ts3, cnt3) \<and> ts2 = ts3 \<and> ts1 < ts2"
  by (simp add: htx_fetch_max_def)

text \<open>
  LBank: the order type is never sent, so that the exchange cannot tell a market order from a limit order without a price.  MEXC: the order
  stands in the body, which the signature does not cover, so that two different orders of the same moment carry the same signature.
\<close>

lemma lbank_ignores_kind:
  "or_kind r \<in> {MarketOrder, FokOrder, IocOrder} \<Longrightarrow> lbank_submit_order A c clk r = lbank_submit_order A c clk (r\<lparr>or_kind := LimitOrder, or_price := None\<rparr>)"
  by (auto simp: lbank_submit_order_def lbank_order_params_def opt_param_def)

lemma mexc_signature_ignores_order:
  "map (\<lambda>rq. (rq_url rq, rq_headers rq)) (fst (run_http (mexc_submit_order A c clk r1) [])) =
   map (\<lambda>rq. (rq_url rq, rq_headers rq)) (fst (run_http (mexc_submit_order A c clk r2) []))"
  by (simp add: mexc_submit_order_def Let_def call_def fetch_def mexc_request_def)

end
