(* ===== verification/Venue_Clients_D.thy ===== *)
theory Venue_Clients_D
  imports Venue_Clients_C
begin

text \<open>
  Clients of \<^verbatim>\<open>src/src/exchanges.rs\<close>, fourth part: Bitstamp and Independent Reserve, which count nonces, and Deribit, which logs in and keeps
  a token.  At the end stand the properties of the sessions of all clients.
\<close>

section \<open>Bitstamp\<close>

definition bitstamp_new :: "string \<Rightarrow> string \<Rightarrow> venue_client" where
  "bitstamp_new = venue_new 12 ''https://www.bitstamp.net''"

definition fetch_nonce :: "u64 \<Rightarrow> u64 \<times> u64" where
  "fetch_nonce n = (n, n + 1)"

definition bitstamp_symbol :: "string \<Rightarrow> string" where
  "bitstamp_symbol symbol = to_lowercase (replace_char CHR ''/'' [] symbol)"

definition form_type :: string where
  "form_type = ''application/x-www-form-urlencoded''"

definition bitstamp_sign :: "('f, 'd) client_api \<Rightarrow> venue_client \<Rightarrow> string \<Rightarrow> string \<Rightarrow> string \<Rightarrow> string" where
  "bitstamp_sign A c nonce_str url_path body =
     hex A (hmac_sha256 A (vc_secret c) (nonce_str @ vc_key c @ ''POST/api/v2/'' @ url_path @ form_type @ body))"

definition bitstamp_request :: "('f, 'd) client_api \<Rightarrow> venue_client \<Rightarrow> u64 \<Rightarrow> string \<Rightarrow> string \<Rightarrow> http_request" where
  "bitstamp_request A c nonce url_path body =
     (let nonce_str = show_word nonce; signature = bitstamp_sign A c nonce_str url_path body
      in \<lparr>rq_method = POST, rq_url = vc_url c @ ''/api/v2/'' @ url_path,
          rq_headers = [(''X-Auth'', vc_key c), (''X-Auth-Sign'', signature), (''X-Auth-Nonce'', nonce_str), (''X-Auth-Version'', ''2''),
            (''Content-Type'', form_type)],
          rq_body = Some (''key='' @ vc_key c @ ''&signature='' @ signature @ ''&nonce='' @ nonce_str @ (if body = [] then [] else ''&'' @ body))\<rparr>)"

definition bitstamp_send_signed_post ::
  "('f, 'd) client_api \<Rightarrow> venue_client \<Rightarrow> u64 \<Rightarrow> string \<Rightarrow> string \<Rightarrow> ('f json \<Rightarrow> string + 'a) \<Rightarrow> ((string + 'a) \<times> u64) http" where
  "bitstamp_send_signed_post A c n url_path body k =
     (let (nonce, n') = fetch_nonce n; label = ''Bitstamp''
      in with_state n' (call label (bitstamp_request A c nonce url_path body) (\<lambda>status shown txt.
           require_ok label status shown txt (decode (from_str A) label txt k))))"

definition bitstamp_order_text :: "('f, 'd) client_api \<Rightarrow> 'd order_request \<Rightarrow> string" where
  "bitstamp_order_text A r =
     query_text ([(''type'', if or_kind r = MarketOrder then ''market'' else ''limit''), (''amount'', show_dec A (or_quantity r)),
       (''side'', side_lower (or_side r))] @ opt_param ''price'' (map_option (show_dec A) (or_price r)))"

definition bitstamp_submit_order ::
  "('f, 'd) client_api \<Rightarrow> venue_client \<Rightarrow> clock \<Rightarrow> u64 \<Rightarrow> 'd order_request \<Rightarrow> ((string + 'd client_result) \<times> u64) http" where
  "bitstamp_submit_order A c clk n r =
     bitstamp_send_signed_post A c n (bitstamp_symbol (or_symbol r) @ ''/order/'') (bitstamp_order_text A r) (\<lambda>v.
       Inr (named_order (field_str ''id'' v) (zero_of A) (zero_of A) ''Bitstamp: missing order ID in response''))"

definition bitstamp_get_balance :: "('f, 'd) client_api \<Rightarrow> venue_client \<Rightarrow> clock \<Rightarrow> u64 \<Rightarrow> string \<Rightarrow> ((string + 'd) \<times> u64) http" where
  "bitstamp_get_balance A c clk n asset =
     bitstamp_send_signed_post A c n ''balance/'' [] (\<lambda>v.
       let asset_lower = to_lowercase asset
       in case or_else (as_number (jfield (asset_lower @ ''_available'') v)) (as_number (jfield (asset_lower @ ''_balance'') v)) of
            Some x \<Rightarrow> Inr (unwrap_or (float_decimal A x) (zero_of A))
          | None \<Rightarrow> no_asset ''Bitstamp'' asset)"

definition bitstamp_cancel_order ::
  "('f, 'd) client_api \<Rightarrow> venue_client \<Rightarrow> clock \<Rightarrow> u64 \<Rightarrow> string \<Rightarrow> string \<Rightarrow> ((string + 'd client_result) \<times> u64) http" where
  "bitstamp_cancel_order A c clk n symbol oid =
     bitstamp_send_signed_post A c n ''order/cancel/'' (''id='' @ oid) (\<lambda>v. Inr (accepted A (Some oid)))"

definition bitstamp_query_order ::
  "('f, 'd) client_api \<Rightarrow> venue_client \<Rightarrow> clock \<Rightarrow> u64 \<Rightarrow> string \<Rightarrow> string \<Rightarrow> ((string + 'd client_result) \<times> u64) http" where
  "bitstamp_query_order A c clk n symbol oid =
     bitstamp_send_signed_post A c n ''order/status/'' (''id='' @ oid) (\<lambda>v.
       let st = unwrap_or (or_else (field_str ''status'' v) (field_str ''transaction_status'' v)) ''Unknown''
       in Inr (queried (st = ''Finished'') (Some oid) (parse_json_decimal A (jfield ''amount_filled'' v)) (parse_json_decimal A (jfield ''price'' v))
            (''unfilled: '' @ st)))"

section \<open>Independent Reserve\<close>

definition ibank_new :: "string \<Rightarrow> string \<Rightarrow> venue_client" where
  "ibank_new = venue_new 16 ''https://api.independentreserve.com''"

definition auth_header :: "('f, 'd) client_api \<Rightarrow> venue_client \<Rightarrow> u64 \<Rightarrow> string" where
  "auth_header A c nonce =
     ''apikey '' @ vc_key c @ '':'' @
     base64 A (hmac_sha512 A (vc_secret c) (''nonce='' @ show_word nonce @ ''&apiKey='' @ vc_key c)) @ '':'' @ show_word nonce"

definition ir_parse_pair :: "string \<Rightarrow> string \<times> string" where
  "ir_parse_pair symbol =
     (if length (filter (\<lambda>ch. ch = CHR ''/'') symbol) = 1
      then (to_uppercase (takeWhile (\<lambda>ch. ch \<noteq> CHR ''/'') symbol), to_uppercase (tl (dropWhile (\<lambda>ch. ch \<noteq> CHR ''/'') symbol)))
      else (to_uppercase symbol, ''USD''))"

definition ir_order_type :: "order_side \<Rightarrow> order_kind \<Rightarrow> string" where
  "ir_order_type side kind =
     (if kind = MarketOrder then ''Market'' else ''Limit'') @ (case side of OrderBuy \<Rightarrow> ''Bid'' | OrderSell \<Rightarrow> ''Offer'')"

definition ibank_request :: "('f, 'd) client_api \<Rightarrow> venue_client \<Rightarrow> u64 \<Rightarrow> string \<Rightarrow> 'f json \<Rightarrow> http_request" where
  "ibank_request A c nonce path body =
     \<lparr>rq_method = POST, rq_url = vc_url c @ path, rq_headers = (''Authorization'', auth_header A c nonce) # content_json,
      rq_body = Some (json_text A body)\<rparr>"

definition ibank_send_signed_post ::
  "('f, 'd) client_api \<Rightarrow> venue_client \<Rightarrow> u64 \<Rightarrow> string \<Rightarrow> 'f json \<Rightarrow> ('f json \<Rightarrow> string + 'a) \<Rightarrow> ((string + 'a) \<times> u64) http" where
  "ibank_send_signed_post A c n path body k =
     (let (nonce, n') = fetch_nonce n; label = ''Ibank '' @ path
      in with_state n' (call label (ibank_request A c nonce path body) (\<lambda>status shown txt.
           require_ok label status shown txt (decode (from_str A) label txt k))))"

definition pair_json :: "string \<Rightarrow> (string \<times> 'f json) list" where
  "pair_json symbol =
     (let (primary, secondary) = ir_parse_pair symbol
      in [(''PrimaryCurrencyCode'', JString primary), (''SecondaryCurrencyCode'', JString secondary)])"

definition ibank_submit_order ::
  "('f, 'd) client_api \<Rightarrow> venue_client \<Rightarrow> clock \<Rightarrow> u64 \<Rightarrow> 'd order_request \<Rightarrow> ((string + 'd client_result) \<times> u64) http" where
  "ibank_submit_order A c clk n r =
     ibank_send_signed_post A c n ''/Private/PlaceOrder''
       (jinsert_opt ''Price'' (map_option (JString \<circ> show_dec A) (or_price r))
         (JObject (pair_json (or_symbol r) @
           [(''OrderType'', JString (ir_order_type (or_side r) (or_kind r))), (''Volume'', JString (show_dec A (or_quantity r)))])))
       (\<lambda>v. Inr (named_order (field_str ''OrderGuid'' v) (zero_of A) (zero_of A) ''Ibank: missing OrderGuid in response''))"

definition ibank_get_balance :: "('f, 'd) client_api \<Rightarrow> venue_client \<Rightarrow> clock \<Rightarrow> u64 \<Rightarrow> string \<Rightarrow> ((string + 'd) \<times> u64) http" where
  "ibank_get_balance A c clk n asset =
     ibank_send_signed_post A c n ''/Private/GetAccounts'' (JObject []) (\<lambda>v.
       case find_entry (\<lambda>e. map_option (\<lambda>a. eq_ignore_case a asset) (field_str ''AccountCurrencyCode'' e) = Some True) (unwrap_or (as_array v) []) of
         Some e \<Rightarrow> Inr (parse_json_decimal A (jfield ''TotalBalance'' e))
       | None \<Rightarrow> no_asset ''Ibank'' asset)"

definition ibank_cancel_order ::
  "('f, 'd) client_api \<Rightarrow> venue_client \<Rightarrow> clock \<Rightarrow> u64 \<Rightarrow> string \<Rightarrow> string \<Rightarrow> ((string + 'd client_result) \<times> u64) http" where
  "ibank_cancel_order A c clk n symbol oid =
     ibank_send_signed_post A c n ''/Private/CancelOrder'' (JObject [(''OrderGuid'', JString oid)]) (\<lambda>v. Inr (accepted A (Some oid)))"

definition ibank_query_order ::
  "('f, 'd) client_api \<Rightarrow> venue_client \<Rightarrow> clock \<Rightarrow> u64 \<Rightarrow> string \<Rightarrow> string \<Rightarrow> ((string + 'd client_result) \<times> u64) http" where
  "ibank_query_order A c clk n symbol oid =
     ibank_send_signed_post A c n ''/Private/GetOpenOrders'' (JObject (pair_json symbol)) (\<lambda>v.
       case find_entry (\<lambda>e. field_str ''OrderGuid'' e = Some oid) (unwrap_or (as_array v) []) of
         Some order \<Rightarrow>
           let st = unwrap_or (field_str ''Status'' order) ''Unknown''
           in Inr (queried (st \<in> {''Open'', ''PartiallyFilled'', ''Filled''}) (Some oid) (parse_json_decimal A (jfield ''VolumeFilled'' order))
                (parse_json_decimal A (jfield ''AvgPrice'' order)) (''unfilled: '' @ st))
       | None \<Rightarrow> Inl (''Ibank: order '' @ oid @ '' not found in open orders (may be filled/cancelled)''))"

section \<open>Deribit\<close>

record deribit_state =
  db_rpc_id :: u64
  db_token :: "string option"

definition deribit_new :: "string \<Rightarrow> string \<Rightarrow> venue_client" where
  "deribit_new = venue_new 13 ''https://www.deribit.com''"

definition deribit_init :: deribit_state where
  "deribit_init = \<lparr>db_rpc_id = 1, db_token = None\<rparr>"

definition next_rpc_id :: "deribit_state \<Rightarrow> u64 \<times> deribit_state" where
  "next_rpc_id s = (db_rpc_id s, s\<lparr>db_rpc_id := db_rpc_id s + 1\<rparr>)"

definition rpc_body :: "('f, 'd) client_api \<Rightarrow> u64 \<Rightarrow> string \<Rightarrow> 'f json \<Rightarrow> string" where
  "rpc_body A i meth params =
     json_text A (JObject [(''jsonrpc'', JString ''2.0''), (''id'', json_nat i), (''method'', JString meth), (''params'', params)])"

definition deribit_login :: "('f, 'd) client_api \<Rightarrow> venue_client \<Rightarrow> u64 \<Rightarrow> u64 \<Rightarrow> http_request" where
  "deribit_login A c now i =
     (let nonce = show_word now; signature = hex A (hmac_sha256 A (vc_secret c) (nonce @ vc_key c @ nonce))
      in \<lparr>rq_method = POST, rq_url = vc_url c @ ''/api/v2/public/auth'', rq_headers = content_json,
          rq_body = Some (rpc_body A i ''public/auth'' (JObject [(''grant_type'', JString ''client_credentials''), (''client_id'', JString (vc_key c)),
            (''client_secret'', JString (vc_secret c)), (''timestamp'', JString nonce), (''signature'', JString signature), (''nonce'', JString nonce)]))\<rparr>)"

definition rpc_message :: "'f json \<Rightarrow> string \<Rightarrow> string" where
  "rpc_message err fallback = unwrap_or (field_str ''message'' err) fallback"

definition ensure_auth :: "('f, 'd) client_api \<Rightarrow> venue_client \<Rightarrow> clock \<Rightarrow> deribit_state \<Rightarrow> ((string + string) \<times> deribit_state) http" where
  "ensure_auth A c clk s =
     (case db_token s of
        Some token \<Rightarrow> Return (Inr token, s)
      | None \<Rightarrow>
          let (i, s1) = next_rpc_id s; label = ''Deribit auth''
          in http_try (with_state s1 (call label (deribit_login A c (clk 0) i) (\<lambda>status shown body.
               require_ok label status shown body (decode (from_str A) label body (\<lambda>v.
                 case json_get ''error'' v of
                   Some err \<Rightarrow> Inl (''Deribit auth RPC error: '' @ rpc_message err ''unknown auth error'')
                 | None \<Rightarrow>
                     (case field_str ''access_token'' (jfield ''result'' v) of
                        None \<Rightarrow> Inl ''Deribit auth failed: no access_token in response''
                      | Some token \<Rightarrow> Inr token))))))
               (\<lambda>token s'. Return (Inr token, s'\<lparr>db_token := Some token\<rparr>)))"

definition token_rejected :: "'f json \<Rightarrow> bool" where
  "token_rejected err \<longleftrightarrow>
     (let msg = rpc_message err ''unknown RPC error''
      in unwrap_or (as_i64 (jfield ''code'' err)) 0 = - 32602 \<or> str_contains msg ''token'' \<or> str_contains msg ''auth'')"

definition deribit_request :: "('f, 'd) client_api \<Rightarrow> venue_client \<Rightarrow> u64 \<Rightarrow> string \<Rightarrow> string \<Rightarrow> 'f json \<Rightarrow> http_request" where
  "deribit_request A c i token meth params =
     \<lparr>rq_method = POST, rq_url = vc_url c @ ''/api/v2/'' @ meth, rq_headers = content_json @ [(''Authorization'', ''Bearer '' @ token)],
      rq_body = Some (rpc_body A i meth params)\<rparr>"

definition call_private ::
  "('f, 'd) client_api \<Rightarrow> venue_client \<Rightarrow> clock \<Rightarrow> deribit_state \<Rightarrow> string \<Rightarrow> 'f json \<Rightarrow> ('f json \<Rightarrow> string + 'a) \<Rightarrow> ((string + 'a) \<times> deribit_state) http" where
  "call_private A c clk s meth params k =
     (let label = ''Deribit '' @ meth
      in http_try (ensure_auth A c clk s) (\<lambda>token s'.
           let (i, s2) = next_rpc_id s'
           in http_try (with_state s2 (call label (deribit_request A c i token meth params) (\<lambda>status shown body.
                require_ok label status shown body (decode (from_str A) label body Inr))))
                (\<lambda>v s3. case json_get ''error'' v of
                   Some err \<Rightarrow>
                     Return (Inl (''Deribit RPC error ('' @ meth @ ''): '' @ rpc_message err ''unknown RPC error''),
                       if token_rejected err then s3\<lparr>db_token := None\<rparr> else s3)
                 | None \<Rightarrow> Return (k v, s3))))"

definition deribit_order_params :: "('f, 'd) client_api \<Rightarrow> 'd order_request \<Rightarrow> 'f json" where
  "deribit_order_params A r =
     (let params = JObject [(''instrument_name'', JString (replace_char CHR ''/'' ''-'' (or_symbol r))), (''amount'', JString (show_dec A (or_quantity r))),
        (''type'', JString ''market'')]
      in case or_price r of
           None \<Rightarrow> params
         | Some price \<Rightarrow> jinsert ''price'' (JString (show_dec A price)) (jinsert ''type'' (JString ''limit'') params))"

definition deribit_submit_order ::
  "('f, 'd) client_api \<Rightarrow> venue_client \<Rightarrow> clock \<Rightarrow> deribit_state \<Rightarrow> 'd order_request \<Rightarrow> ((string + 'd client_result) \<times> deribit_state) http" where
  "deribit_submit_order A c clk s r =
     call_private A c clk s (case or_side r of OrderBuy \<Rightarrow> ''private/buy'' | OrderSell \<Rightarrow> ''private/sell'') (deribit_order_params A r) (\<lambda>v.
       let order = jfield ''order'' (jfield ''result'' v)
       in Inr (named_order (field_str ''order_id'' order) (parse_json_decimal A (jfield ''filled_amount'' order))
            (parse_json_decimal A (jfield ''average_price'' order)) ''Deribit: missing order ID in response''))"

definition deribit_get_balance ::
  "('f, 'd) client_api \<Rightarrow> venue_client \<Rightarrow> clock \<Rightarrow> deribit_state \<Rightarrow> string \<Rightarrow> ((string + 'd) \<times> deribit_state) http" where
  "deribit_get_balance A c clk s asset =
     (let currency = (if to_uppercase asset = ''USDT'' then ''USDC'' else to_uppercase asset)
      in call_private A c clk s ''private/get_account_summary'' (JObject [(''currency'', JString currency)])
           (\<lambda>v. Inr (parse_json_decimal A (jfield ''equity'' (jfield ''result'' v)))))"

definition deribit_cancel_order ::
  "('f, 'd) client_api \<Rightarrow> venue_client \<Rightarrow> clock \<Rightarrow> deribit_state \<Rightarrow> string \<Rightarrow> string \<Rightarrow> ((string + 'd client_result) \<times> deribit_state) http" where
  "deribit_cancel_order A c clk s symbol oid =
     call_private A c clk s ''private/cancel'' (JObject [(''order_id'', JString oid)]) (\<lambda>v. Inr (accepted A (Some oid)))"

definition deribit_query_order ::
  "('f, 'd) client_api \<Rightarrow> venue_client \<Rightarrow> clock \<Rightarrow> deribit_state \<Rightarrow> string \<Rightarrow> string \<Rightarrow> ((string + 'd client_result) \<times> deribit_state) http" where
  "deribit_query_order A c clk s symbol oid =
     call_private A c clk s ''private/get_order_state'' (JObject [(''order_id'', JString oid)]) (\<lambda>v.
       let order = jfield ''order'' (jfield ''result'' v); st = unwrap_or (field_str ''state'' order) ''unknown''
       in Inr (queried (st = ''filled'') (Some oid) (parse_json_decimal A (jfield ''filled_amount'' order))
            (parse_json_decimal A (jfield ''average_price'' order)) (''unfilled: '' @ st)))"

section \<open>The contract\<close>

definition bitstamp_bears :: "u64 \<Rightarrow> http_request \<Rightarrow> bool" where
  "bitstamp_bears n rq \<longleftrightarrow> (''X-Auth-Nonce'', show_word n) \<in> set (rq_headers rq)"

definition bitstamp_authentic :: "('f, 'd) client_api \<Rightarrow> venue_client \<Rightarrow> http_request \<Rightarrow> bool" where
  "bitstamp_authentic A c rq \<longleftrightarrow> (\<exists>(n::u64) path body. let nonce = show_word n; signature = hex A (hmac_sha256 A (vc_secret c)
        (nonce @ vc_key c @ ''POST/api/v2/'' @ path @ ''application/x-www-form-urlencoded'' @ body)) in
     rq_url rq = vc_url c @ ''/api/v2/'' @ path \<and>
     {(''X-Auth'', vc_key c), (''X-Auth-Sign'', signature), (''X-Auth-Nonce'', nonce)} \<subseteq> set (rq_headers rq) \<and>
     rq_body rq = Some (''key='' @ vc_key c @ ''&signature='' @ signature @ ''&nonce='' @ nonce @ (if body = [] then [] else ''&'' @ body)))"

definition bitstamp_places :: "venue_client \<Rightarrow> http_request \<Rightarrow> bool" where
  "bitstamp_places c rq \<longleftrightarrow> (\<exists>pair. rq_url rq = vc_url c @ ''/api/v2/'' @ pair @ ''/order/'')"

definition bitstamp_perform ::
  "('f, 'd) client_api \<Rightarrow> venue_client \<Rightarrow> clock \<Rightarrow> u64 \<Rightarrow> 'd client_call \<Rightarrow> ((string + 'd client_answer) \<times> u64) http" where
  "bitstamp_perform A c = (\<lambda>clk n. stateful_program (bitstamp_submit_order A c clk n) (bitstamp_cancel_order A c clk n)
     (bitstamp_query_order A c clk n) (bitstamp_get_balance A c clk n))"

lemma bitstamp_request_simps:
  "bitstamp_authentic A c (bitstamp_request A c n path body)" "bitstamp_bears n (bitstamp_request A c n path body)"
  by (auto simp: bitstamp_authentic_def bitstamp_bears_def bitstamp_request_def bitstamp_sign_def form_type_def Let_def)

lemma bitstamp_other_paths:
  "path \<in> {''balance/'', ''order/cancel/'', ''order/status/''} \<Longrightarrow> \<not> bitstamp_places c (bitstamp_request A c n path body)"
proof
  assume path: "path \<in> {''balance/'', ''order/cancel/'', ''order/status/''}" and "bitstamp_places c (bitstamp_request A c n path body)"
  then obtain pair where "path = pair @ ''/order/''" by (auto simp: bitstamp_places_def bitstamp_request_def Let_def)
  then have "rev path = ''/redro/'' @ rev pair" by simp
  then show False using path by auto
qed

lemma bitstamp_post_one_shot:
  "one_shot (bitstamp_authentic A c) (\<lambda>m. bitstamp_bears (m - 1)) n (bitstamp_send_signed_post A c n path body k)"
  "path \<in> {''balance/'', ''order/cancel/'', ''order/status/''} \<Longrightarrow>
     one_shot (\<lambda>rq. bitstamp_authentic A c rq \<and> \<not> bitstamp_places c rq) (\<lambda>m. bitstamp_bears (m - 1)) n (bitstamp_send_signed_post A c n path body k)"
  unfolding bitstamp_send_signed_post_def fetch_nonce_def Let_def prod.case
  by (rule one_shot_call; simp add: bitstamp_request_simps bitstamp_other_paths)+

text \<open>The counter after the call is one above the nonce of the request, as the nonce is the value before the increment.\<close>

interpretation bitstamp: nonce_client "bitstamp_perform A c" "bitstamp_authentic A c" "bitstamp_places c" "\<lambda>m. bitstamp_bears (m - 1)" for A c
  unfolding bitstamp_perform_def
  by (rule nonce_clientI)
    (simp_all add: bitstamp_submit_order_def bitstamp_cancel_order_def bitstamp_query_order_def bitstamp_get_balance_def bitstamp_post_one_shot)

definition ibank_bears :: "('f, 'd) client_api \<Rightarrow> venue_client \<Rightarrow> u64 \<Rightarrow> http_request \<Rightarrow> bool" where
  "ibank_bears A c n rq \<longleftrightarrow> (''Authorization'', auth_header A c n) \<in> set (rq_headers rq)"

definition ibank_authentic :: "('f, 'd) client_api \<Rightarrow> venue_client \<Rightarrow> http_request \<Rightarrow> bool" where
  "ibank_authentic A c rq \<longleftrightarrow> (\<exists>n::u64. (''Authorization'', ''apikey '' @ vc_key c @ '':'' @
     base64 A (hmac_sha512 A (vc_secret c) (''nonce='' @ show_word n @ ''&apiKey='' @ vc_key c)) @ '':'' @ show_word n) \<in> set (rq_headers rq))"

lemma ibank_authentic_bears: "ibank_authentic A c rq \<longleftrightarrow> (\<exists>n. ibank_bears A c n rq)"
  by (simp add: ibank_authentic_def ibank_bears_def auth_header_def)

definition ibank_places :: "venue_client \<Rightarrow> http_request \<Rightarrow> bool" where
  "ibank_places c rq \<longleftrightarrow> rq_url rq = vc_url c @ ''/Private/PlaceOrder''"

definition ibank_perform ::
  "('f, 'd) client_api \<Rightarrow> venue_client \<Rightarrow> clock \<Rightarrow> u64 \<Rightarrow> 'd client_call \<Rightarrow> ((string + 'd client_answer) \<times> u64) http" where
  "ibank_perform A c = (\<lambda>clk n. stateful_program (ibank_submit_order A c clk n) (ibank_cancel_order A c clk n)
     (ibank_query_order A c clk n) (ibank_get_balance A c clk n))"

lemma ibank_post_one_shot:
  "one_shot (ibank_authentic A c) (\<lambda>m. ibank_bears A c (m - 1)) n (ibank_send_signed_post A c n path body k)"
  "path \<noteq> ''/Private/PlaceOrder'' \<Longrightarrow>
     one_shot (\<lambda>rq. ibank_authentic A c rq \<and> \<not> ibank_places c rq) (\<lambda>m. ibank_bears A c (m - 1)) n (ibank_send_signed_post A c n path body k)"
  unfolding ibank_send_signed_post_def fetch_nonce_def Let_def prod.case
  by (rule one_shot_call; auto simp: ibank_authentic_bears ibank_bears_def ibank_places_def ibank_request_def)+

interpretation ibank: nonce_client "ibank_perform A c" "ibank_authentic A c" "ibank_places c" "\<lambda>m. ibank_bears A c (m - 1)" for A c
  unfolding ibank_perform_def
  by (rule nonce_clientI)
    (simp_all add: ibank_submit_order_def ibank_cancel_order_def ibank_query_order_def ibank_get_balance_def ibank_post_one_shot)

text \<open>
  Deribit: a login that names the key and has a signature of the time and the key, or a request that bears a token of a given set.  Neither the path nor
  the parameters of a request are signed.
\<close>

definition deribit_authentic :: "('f, 'd) client_api \<Rightarrow> venue_client \<Rightarrow> string set \<Rightarrow> http_request \<Rightarrow> bool" where
  "deribit_authentic A c tokens rq \<longleftrightarrow>
     (\<exists>(now::u64) i nonce. nonce = show_word now \<and> rq_url rq = vc_url c @ ''/api/v2/public/auth'' \<and>
        rq_body rq = Some (json_text A (JObject [(''jsonrpc'', JString ''2.0''), (''id'', json_nat i), (''method'', JString ''public/auth''), (''params'',
          JObject [(''grant_type'', JString ''client_credentials''), (''client_id'', JString (vc_key c)), (''client_secret'', JString (vc_secret c)),
            (''timestamp'', JString nonce), (''signature'', JString (hex A (hmac_sha256 A (vc_secret c) (nonce @ vc_key c @ nonce)))),
            (''nonce'', JString nonce)])]))) \<or>
     (\<exists>token \<in> tokens. (''Authorization'', ''Bearer '' @ token) \<in> set (rq_headers rq))"

lemma deribit_login_authentic: "deribit_authentic A c tokens (deribit_login A c now i)"
  unfolding deribit_authentic_def by (rule disjI1, rule exI [of _ now], rule exI [of _ i]) (simp add: deribit_login_def rpc_body_def Let_def)

lemma deribit_request_authentic: "token \<in> tokens \<Longrightarrow> deribit_authentic A c tokens (deribit_request A c i token meth params)"
  by (auto simp: deribit_authentic_def deribit_request_def)

definition deribit_places :: "venue_client \<Rightarrow> http_request \<Rightarrow> bool" where
  "deribit_places c rq \<longleftrightarrow> rq_url rq = vc_url c @ ''/api/v2/private/buy'' \<or> rq_url rq = vc_url c @ ''/api/v2/private/sell''"

definition deribit_perform ::
  "('f, 'd) client_api \<Rightarrow> venue_client \<Rightarrow> clock \<Rightarrow> deribit_state \<Rightarrow> 'd client_call \<Rightarrow> ((string + 'd client_answer) \<times> deribit_state) http" where
  "deribit_perform A c = (\<lambda>clk s. stateful_program (deribit_submit_order A c clk s) (deribit_cancel_order A c clk s)
     (deribit_query_order A c clk s) (deribit_get_balance A c clk s))"

lemma ensure_auth_contract:
  "every_request (deribit_authentic A c UNIV) (ensure_auth A c clk s)" "every_request (\<lambda>rq. \<not> deribit_places c rq) (ensure_auth A c clk s)"
  "fail_closed (isl \<circ> fst) (ensure_auth A c clk s)"
proof -
  have login: "deribit_authentic A c UNIV (deribit_login A c now i)" "\<not> deribit_places c (deribit_login A c now i)" for now i
    by (rule deribit_login_authentic) (auto simp: deribit_places_def deribit_login_def Let_def)
  show "every_request (deribit_authentic A c UNIV) (ensure_auth A c clk s)" "every_request (\<lambda>rq. \<not> deribit_places c rq) (ensure_auth A c clk s)"
    "fail_closed (isl \<circ> fst) (ensure_auth A c clk s)"
    unfolding ensure_auth_def next_rpc_id_def Let_def prod.case
    by (auto simp: http_simps login split: option.split intro!: http_try_every http_try_closed fail_closed_with_state)
qed

lemma call_then_return:
  assumes "\<And>x s. \<exists>y. k x s = Return y"
  shows "at_most P (http_try (with_state s (call label rq res)) k) (Suc 0)"
proof -
  have "at_most P (k x s) n" for x s n using assms [of x s] by auto
  then show ?thesis by (simp add: http_try_def with_state_def http_map_def call_def fetch_def split: http_reply.split sum.split)
qed

lemma call_private_contract:
  "every_request (deribit_authentic A c UNIV) (call_private A c clk s meth params k)"
  "meth \<notin> {''private/buy'', ''private/sell''} \<Longrightarrow> every_request (\<lambda>rq. \<not> deribit_places c rq) (call_private A c clk s meth params k)"
  "at_most (deribit_places c) (call_private A c clk s meth params k) (Suc 0)"
  "fail_closed (isl \<circ> fst) (call_private A c clk s meth params k)"
proof -
  have rq: "deribit_authentic A c UNIV (deribit_request A c i token meth params)" for i token by (rule deribit_request_authentic) simp
  show "every_request (deribit_authentic A c UNIV) (call_private A c clk s meth params k)"
    unfolding call_private_def next_rpc_id_def Let_def prod.case
    by (intro http_try_every ensure_auth_contract) (auto simp: http_simps rq split: option.split)
  show "every_request (\<lambda>rq. \<not> deribit_places c rq) (call_private A c clk s meth params k)" if "meth \<notin> {''private/buy'', ''private/sell''}"
    unfolding call_private_def next_rpc_id_def Let_def prod.case using that
    by (intro http_try_every ensure_auth_contract) (auto simp: http_simps deribit_places_def deribit_request_def split: option.split)
  show "at_most (deribit_places c) (call_private A c clk s meth params k) (Suc 0)"
    unfolding call_private_def next_rpc_id_def Let_def prod.case by (rule http_try_at_most [OF ensure_auth_contract(2)], rule call_then_return) (simp split: option.split)
  show "fail_closed (isl \<circ> fst) (call_private A c clk s meth params k)"
    unfolding call_private_def next_rpc_id_def Let_def prod.case
    by (intro http_try_closed ensure_auth_contract fail_closed_with_state fail_closed_call) (auto split: option.split)
qed

interpretation deribit: private_client "deribit_perform A c" "deribit_authentic A c UNIV" "deribit_places c" for A c
proof -
  have both: "every_request (\<lambda>rq. P rq \<and> Q rq) p" if "every_request P p" "every_request Q p" for P Q and p :: "'x http"
    using that by (induction p) simp_all
  show "private_client (deribit_perform A c) (deribit_authentic A c UNIV) (deribit_places c)"
    unfolding deribit_perform_def deribit_submit_order_def deribit_cancel_order_def deribit_query_order_def deribit_get_balance_def Let_def
    by (rule stateful_client) (intro both call_private_contract; simp)+
qed

section \<open>The tokens of Deribit\<close>

text \<open>
  The tokens that a client holds, those that a reply grants, and programs whose requests bear only tokens that are held or were granted by a reply to an earlier
  request.
\<close>

definition held :: "deribit_state \<Rightarrow> string set" where
  "held s = set_option (db_token s)"

definition granted :: "('f, 'd) client_api \<Rightarrow> http_reply \<Rightarrow> string set" where
  "granted A rp = {token. \<exists>status shown body v. rp = Response status shown (Inr body) \<and> is_success status \<and> from_str A body = Inr v \<and>
     field_str ''access_token'' (jfield ''result'' v) = Some token}"

primrec bears_only :: "('f, 'd) client_api \<Rightarrow> venue_client \<Rightarrow> (string set \<Rightarrow> 'r \<Rightarrow> bool) \<Rightarrow> 'r http \<Rightarrow> string set \<Rightarrow> bool" where
  "bears_only A c Q (Return x) = (\<lambda>T. Q T x)"
| "bears_only A c Q (Send rq k) = (\<lambda>T. deribit_authentic A c T rq \<and> (\<forall>rp. bears_only A c Q (k rp) (T \<union> granted A rp)))"

lemma bears_only_bind:
  assumes "bears_only A c R p T" "\<And>x T'. R T' x \<Longrightarrow> bears_only A c Q (f x) T'"
  shows "bears_only A c Q (http_bind p f) T"
  using assms(1) by (induction p arbitrary: T) (auto intro: assms(2))

lemma bears_only_map: "bears_only A c (\<lambda>T x. Q T (f x)) p T \<Longrightarrow> bears_only A c Q (http_map f p) T"
  unfolding http_map_def by (erule bears_only_bind) simp

lemma bears_only_run:
  assumes "bears_only A c Q p T" "run_http p rps = (rqs, res)"
  shows "(\<forall>rq \<in> set rqs. deribit_authentic A c (T \<union> (\<Union>rp \<in> set rps. granted A rp)) rq) \<and>
    (\<forall>x. res = Some x \<longrightarrow> (\<exists>T'. T' \<subseteq> T \<union> (\<Union>rp \<in> set rps. granted A rp) \<and> Q T' x))"
  using assms
proof (induction p arbitrary: T rps rqs)
  case (Send rq k)
  have mono: "deribit_authentic A c T rq \<Longrightarrow> T \<subseteq> T' \<Longrightarrow> deribit_authentic A c T' rq" for T T' rq by (auto simp: deribit_authentic_def)
  show ?case
  proof (cases rps)
    case Nil
    then show ?thesis using Send.prems by auto
  next
    case (Cons rp rps')
    obtain rqs' where run: "run_http (k rp) rps' = (rqs', res)" "rqs = rq # rqs'" using Send.prems(2) Cons by (auto simp: split_beta prod_eq_iff)
    have "bears_only A c Q (k rp) (T \<union> granted A rp)" using Send.prems(1) by simp
    from Send.IH [OF _ this run(1)] show ?thesis
      using mono [of T rq] Send.prems(1) run(2) Cons by (auto simp: Un_assoc)
  qed
qed auto

definition deribit_state_ok :: "string set \<Rightarrow> 'r \<times> deribit_state \<Rightarrow> bool" where
  "deribit_state_ok T = (\<lambda>(r, s). held s \<subseteq> T)"

lemma ensure_auth_bears:
  assumes "held s \<subseteq> T"
  shows "bears_only A c (\<lambda>T (r, s). held s \<subseteq> T \<and> (\<forall>token. r = Inr token \<longrightarrow> token \<in> T)) (ensure_auth A c clk s) T"
proof (cases "db_token s")
  case (Some token)
  then show ?thesis using assms by (simp add: ensure_auth_def held_def)
next
  case None
  then show ?thesis
    by (auto simp: ensure_auth_def next_rpc_id_def http_try_def with_state_def http_map_def call_def fetch_def deribit_login_authentic held_def granted_def
        require_ok_def decode_def Let_def split: http_reply.split sum.splits option.splits if_splits)
qed

lemma call_private_bears:
  assumes "held s \<subseteq> T"
  shows "bears_only A c deribit_state_ok (call_private A c clk s meth params k) T"
  unfolding call_private_def http_try_def Let_def
proof (rule bears_only_bind [OF ensure_auth_bears [OF assms]], goal_cases)
  case (1 x T')
  then show ?case
    by (auto simp: next_rpc_id_def with_state_def http_map_def call_def fetch_def deribit_request_authentic deribit_state_ok_def held_def
        split: http_reply.split sum.splits option.splits prod.splits if_splits)
qed

lemma call_private_answer:
  assumes "held s \<subseteq> T"
  shows "bears_only A c deribit_state_ok (http_map (apfst f) (call_private A c clk s meth params k)) T"
proof (rule bears_only_map)
  have "(\<lambda>T x. deribit_state_ok T (apfst f x)) = deribit_state_ok" by (simp add: fun_eq_iff deribit_state_ok_def split_beta)
  then show "bears_only A c (\<lambda>T x. deribit_state_ok T (apfst f x)) (call_private A c clk s meth params k) T"
    using call_private_bears [OF assms] by simp
qed

lemma deribit_perform_bears: "held s \<subseteq> T \<Longrightarrow> bears_only A c deribit_state_ok (deribit_perform A c clk s job) T"
  by (cases job) (simp_all add: deribit_perform_def stateful_program_def deribit_submit_order_def deribit_cancel_order_def deribit_query_order_def
      deribit_get_balance_def Let_def call_private_answer)

definition granted_in :: "('f, 'd) client_api \<Rightarrow> (clock \<times> 'd client_call \<times> http_reply list) list \<Rightarrow> string set" where
  "granted_in A calls = (\<Union>(clk, job, rps) \<in> set calls. \<Union>rp \<in> set rps. granted A rp)"

lemma deribit_session_bears:
  "held s \<subseteq> T \<Longrightarrow> rq \<in> set (client_session (deribit_perform A c) s calls) \<Longrightarrow> deribit_authentic A c (T \<union> granted_in A calls) rq"
proof (induction calls arbitrary: s T)
  case (Cons entry calls)
  obtain clk job rps where entry: "entry = (clk, job, rps)" by (metis prod_cases3)
  obtain rqs res where run: "run_http (deribit_perform A c clk s job) rps = (rqs, res)" by fastforce
  let ?T = "T \<union> (\<Union>rp \<in> set rps. granted A rp)"
  have all: "T \<union> granted_in A (entry # calls) = ?T \<union> granted_in A calls" by (auto simp: granted_in_def entry)
  have mono: "deribit_authentic A c T rq \<Longrightarrow> T \<subseteq> T' \<Longrightarrow> deribit_authentic A c T' rq" for T T' by (auto simp: deribit_authentic_def)
  note bears = bears_only_run [OF deribit_perform_bears [OF Cons.prems(1)] run]
  show ?case
  proof (cases "rq \<in> set rqs")
    case True
    then have "deribit_authentic A c ?T rq" using bears by blast
    then show ?thesis unfolding all by (rule mono) simp
  next
    case False
    then obtain r s' where r: "res = Some (r, s')" "rq \<in> set (client_session (deribit_perform A c) s' calls)"
      using Cons.prems(2) entry run by (auto split: option.splits)
    then have "held s' \<subseteq> ?T" using bears by (auto simp: deribit_state_ok_def)
    from Cons.IH [OF this r(2)] show ?thesis unfolding all .
  qed
qed simp

lemma deribit_session_honest:
  "honest_session (deribit_authentic A c (held s \<union> granted_in A calls)) (deribit_places c) (client_session (deribit_perform A c) s calls) calls"
  using deribit.session_contract [of A c s calls] deribit_session_bears [of s "held s" _ A c calls]
  by (simp add: honest_session_def list_all_iff)

section \<open>Sessions of all clients\<close>

text \<open>
  C38: For every client, whatever the calls, the clock and the replies of the exchange: each request of a session is authentic in the sense of its exchange, and the session never
  places more orders than were submitted: no retry, no second placement on an error, no placement by a query, a cancellation or a balance request.  Authentic means that the request
  carries the key of the client and the signature under its secret of the following texts, each written out in the predicate of the exchange.  OKX, Coinbase, BitMEX, Bitget, Delta and
  KuCoin (where a value that no header can carry is replaced by the empty text): the time (BitMEX: the expiry), the method, the path with its query, and the body.  Gate.io: the time, the
  method, the path, the query and a digest of the body.  Bitfinex: the path, the nonce and the body; Kraken: the nonce, the path and the body.  Bitstamp: the nonce, the key, the
  method, the path, the content type and the parameters.  Binance: the body, or the query when there is none, which ends with the time; Bybit: the time, the key, the
  window and the body or query.  LBank: the parameters in the body, the key among them.
  Four exchanges sign less.  MEXC: the query only, so that an order, which stands in the body, is not signed.  HTX: the method, the host, the path and the query with the
  key, not the body.  Independent Reserve, which the code calls Ibank: the nonce and the key only, neither path nor body.  Deribit: the login names the key and signs the time and the key; every other request
  bears a token that the client held at the start or that a reply of the session granted, and nothing else in it is signed.
\<close>

theorem client_sessions_honest:
  fixes A :: "('f, 'd::linorder) client_api"
  shows "honest_session (binance_authentic A b) (binance_places b) (client_session (binance_perform A b) s0 calls) calls \<and>
    honest_session (bybit_authentic A b) (bybit_places b) (client_session (bybit_perform A b) s0 calls) calls \<and>
    honest_session (kucoin_authentic A b) (kucoin_places b) (client_session (kucoin_perform A b) s0 calls) calls \<and>
    honest_session (okx_authentic A c) (okx_places c) (client_session (okx_perform A c) s0 calls) calls \<and>
    honest_session (gateio_authentic A c) (gateio_places c) (client_session (gateio_perform A c) s0 calls) calls \<and>
    honest_session (coinbase_authentic A c) (coinbase_places c) (client_session (coinbase_perform A c) s0 calls) calls \<and>
    honest_session (bitmex_authentic A c) (bitmex_places c) (client_session (bitmex_perform A c) s0 calls) calls \<and>
    honest_session (bitget_authentic A c) (bitget_places c) (client_session (bitget_perform A c uuid) s0 calls) calls \<and>
    honest_session (bitfinex_authentic A c) (bitfinex_places c) (client_session (bitfinex_perform A c) n calls) calls \<and>
    honest_session (kraken_authentic A c) (kraken_places c) (client_session (kraken_perform A c) n calls) calls \<and>
    honest_session (lbank_authentic A c) (lbank_places c) (client_session (lbank_perform A c) s0 calls) calls \<and>
    honest_session (mexc_authentic A c) (mexc_places c) (client_session (mexc_perform A c) s0 calls) calls \<and>
    honest_session (delta_authentic A c) (delta_places c) (client_session (delta_perform A c) s0 calls) calls \<and>
    honest_session (htx_authentic A c) (htx_places c) (client_session (htx_perform A c) hs calls) calls \<and>
    honest_session (bitstamp_authentic A c) (bitstamp_places c) (client_session (bitstamp_perform A c) n calls) calls \<and>
    honest_session (ibank_authentic A c) (ibank_places c) (client_session (ibank_perform A c) n calls) calls \<and>
    honest_session (deribit_authentic A c (held ds \<union> granted_in A calls)) (deribit_places c) (client_session (deribit_perform A c) ds calls) calls"
  by (intro conjI binance.session_contract bybit.session_contract kucoin.session_contract okx.session_contract gateio.session_contract
      coinbase.session_contract bitmex.session_contract bitget.session_contract bitfinex.session_contract kraken.session_contract
      lbank.session_contract mexc.session_contract delta.session_contract htx.session_contract bitstamp.session_contract ibank.session_contract
      deribit_session_honest)

lemma shifted_nonces:
  assumes "list_all2 (\<lambda>m. bears (m - 1)) ns rqs" "sorted_wrt (<) ns" "\<forall>m \<in> set ns. (n::u64) < m"
  shows "\<exists>ms. list_all2 bears ms rqs \<and> sorted_wrt (<) ms"
proof (intro exI [of _ "map (\<lambda>m. m - 1) ns"] conjI)
  show "list_all2 bears (map (\<lambda>m. m - 1) ns) rqs" using assms(1) by (simp add: list.rel_map)
  have less: "x - 1 < y - 1" if "n < x" "x < y" for x y :: u64
  proof -
    have "x \<noteq> 0" "y \<noteq> 0" using that by auto
    moreover have "unat x \<noteq> 0" using \<open>x \<noteq> 0\<close> by (simp add: unat_eq_0)
    ultimately show ?thesis using that(2) by (simp add: word_less_nat_alt unat_minus_one)
  qed
  show "sorted_wrt (<) (map (\<lambda>m. m - 1) ns)"
    unfolding sorted_wrt_map
  proof (rule sorted_wrt_mono_rel [OF _ assms(2)])
    show "x - 1 < y - 1" if "x \<in> set ns" "x < y" for x y using less that assms(3) by blast
  qed
qed

text \<open>
  C39: The clients that count nonces (Bitfinex, Kraken, Bitstamp and Independent Reserve) send strictly increasing ones: in every session, whatever the calls and the
  replies, the requests bear numbers that increase from one request to the next, as long as the counter does not overflow.  Deribit, whose login takes its nonce from the
  clock, is not among them.
\<close>

theorem session_nonces_increase:
  fixes A :: "('f, 'd::linorder) client_api"
  assumes "unat n + length calls < 2 ^ 64"
  shows "(\<exists>ns. list_all2 bitfinex_bears ns (client_session (bitfinex_perform A c) n calls) \<and> sorted_wrt (<) ns) \<and>
    (\<exists>ns. list_all2 kraken_bears ns (client_session (kraken_perform A c) n calls) \<and> sorted_wrt (<) ns) \<and>
    (\<exists>ns. list_all2 bitstamp_bears ns (client_session (bitstamp_perform A c) n calls) \<and> sorted_wrt (<) ns) \<and>
    (\<exists>ns. list_all2 (ibank_bears A c) ns (client_session (ibank_perform A c) n calls) \<and> sorted_wrt (<) ns)"
proof (intro conjI)
  show "\<exists>ns. list_all2 bitfinex_bears ns (client_session (bitfinex_perform A c) n calls) \<and> sorted_wrt (<) ns"
    using bitfinex.session_nonces [OF assms] by blast
  show "\<exists>ns. list_all2 kraken_bears ns (client_session (kraken_perform A c) n calls) \<and> sorted_wrt (<) ns"
    using kraken.session_nonces [OF assms] by blast
  show "\<exists>ns. list_all2 bitstamp_bears ns (client_session (bitstamp_perform A c) n calls) \<and> sorted_wrt (<) ns"
    using bitstamp.session_nonces [OF assms] shifted_nonces by blast
  show "\<exists>ns. list_all2 (ibank_bears A c) ns (client_session (ibank_perform A c) n calls) \<and> sorted_wrt (<) ns"
    using ibank.session_nonces [OF assms] shifted_nonces by blast
qed

theorem session_nonces_increase_witness:
  "let calls = [(\<lambda>_. 0, GetBalance ''BTC'', [NoResponse ''down'']), (\<lambda>_. 0, CancelOrder ''BTC/USD'' ''1'', [NoResponse ''down''])]
   in unat (7 :: u64) + length calls < 2 ^ 64 \<and>
     length (client_session (bitstamp_perform plain_api (bitstamp_new ''k'' ''s'')) 7 calls) = 2 \<and>
     (\<exists>ns. list_all2 bitstamp_bears ns (client_session (bitstamp_perform plain_api (bitstamp_new ''k'' ''s'')) 7 calls) \<and> sorted_wrt (<) ns)"
  using session_nonces_increase [of 7 "[(\<lambda>_. 0, GetBalance ''BTC'', [NoResponse ''down'']), (\<lambda>_. 0, CancelOrder ''BTC/USD'' ''1'', [NoResponse ''down''])]"
      plain_api "bitstamp_new ''k'' ''s''"]
  by (simp add: Let_def bitstamp_perform_def stateful_program_def http_map_def bitstamp_get_balance_def bitstamp_cancel_order_def
      bitstamp_send_signed_post_def fetch_nonce_def with_state_def call_def fetch_def)

section \<open>What the clients get wrong\<close>

text \<open>Deribit: the kind of an order is not read; an order with a price is a limit order and one without is a market order.\<close>

lemma deribit_ignores_kind: "deribit_submit_order A c clk s r = deribit_submit_order A c clk s (r\<lparr>or_kind := kind\<rparr>)"
  by (simp add: deribit_submit_order_def deribit_order_params_def)

end
