(* ===== verification/Leg_Executors.thy ===== *)
theory Leg_Executors
  imports Decimal_Api
begin

text \<open>
  The executors outside of the engine: \<^verbatim>\<open>src/src/safety_execution.rs\<close> (orders that may not stay in a book, and their counter-orders),
  \<^verbatim>\<open>src/src/cross_exchange_executor.rs\<close> (two legs at once) and \<^verbatim>\<open>src/src/triangular_executor.rs\<close> (three legs at once).  Sending an order
  is an argument: what the exchange answers within the timeout and how long it took, or nothing.
\<close>

section \<open>Safe orders\<close>

datatype safe_order_type = Ioc | Fok

record 'd safe_order_payload =
  sp_symbol :: string
  sp_side :: string
  sp_type :: safe_order_type
  sp_price :: 'd
  sp_quantity :: 'd
  sp_tif :: string
  sp_client_id :: string
  sp_timestamp :: u64
  sp_exchange :: u16

record 'd safe_execution_result =
  se_success :: bool
  se_order_id :: "string option"
  se_filled :: 'd
  se_avg_price :: 'd
  se_fee :: 'd
  se_error :: "string option"
  se_time_us :: u64
  se_full :: bool

datatype 'd safe_error =
    PriceNotPositive | QuantityNotPositive | InvalidSide string | BuyAboveAsk 'd 'd | SellBelowBid 'd 'd | EmptySymbol
  | OrderFailed string | NothingFilled | SlippageTooHigh 'd | FokNotFilled

definition MAX_SLIPPAGE_THRESHOLD :: "'d exec_decimal \<Rightarrow> 'd" where
  "MAX_SLIPPAGE_THRESHOLD D = dec_new D 5 3"

definition MIN_PRICE_FLOOR :: "'d exec_decimal \<Rightarrow> 'd" where
  "MIN_PRICE_FLOOR D = dec_new D 1 2"

abbreviation ORDER_ID_HASH_MASK :: u64 where
  "ORDER_ID_HASH_MASK \<equiv> 0xFFFFFFFF"

text \<open>The counter of the process, and its seed: a compare-and-exchange that only changes a zero.\<close>

definition seed_order_counter :: "u64 \<Rightarrow> u64 \<Rightarrow> u64 \<Rightarrow> u64" where
  "seed_order_counter nanos pid cnt = (if cnt = 0 then nanos + push_bit 48 pid else cnt)"

text \<open>Formatting with \<^verbatim>\<open>{:08x}\<close>.\<close>

fun hex_of :: "nat \<Rightarrow> string" where
  "hex_of n = (if n < 16 then [''0123456789abcdef'' ! n] else hex_of (n div 16) @ [''0123456789abcdef'' ! (n mod 16)])"

declare hex_of.simps [simp del]

definition hex8 :: "u64 \<Rightarrow> string" where
  "hex8 w = (let h = hex_of (unat w) in replicate (8 - length h) CHR ''0'' @ h)"

definition price_hash :: "'d exec_decimal \<Rightarrow> 'd \<Rightarrow> u64" where
  "price_hash D price =
     (let shown = filter (\<lambda>ch. ch \<noteq> CHR ''.'') (dec_to_string D (dec_mul D price (dec_from_int D 1000000)))
      in (case parse_u64 shown of None \<Rightarrow> 1 | Some h \<Rightarrow> h) mod ORDER_ID_HASH_MASK)"

definition order_client_id :: "u16 \<Rightarrow> u64 \<Rightarrow> u64 \<Rightarrow> u64 \<Rightarrow> string \<Rightarrow> string" where
  "order_client_id ex ts h seq uuid =
     (if ts = 0 \<and> h = 0 then show_word ex @ ''-uuid-'' @ uuid
      else show_word ex @ ''-'' @ show_word ts @ ''-'' @ hex8 h @ ''-'' @ show_word seq)"

fun tif_of :: "safe_order_type \<Rightarrow> string" where
  "tif_of Ioc = ''IOC''"
| "tif_of Fok = ''FOK''"

text \<open>The check of a price against the book; a side of the book that is missing or not positive is not compared with.\<close>

definition book_check :: "'d::linorder exec_decimal \<Rightarrow> string \<Rightarrow> 'd \<Rightarrow> 'd option \<Rightarrow> 'd option \<Rightarrow> 'd safe_error option" where
  "book_check D side price best_bid best_ask =
     (if side = ''BUY'' then
        (case best_ask of
           Some ask \<Rightarrow>
             if dec_zero D < ask \<and> MAX_SLIPPAGE_THRESHOLD D < dec_div D (dec_sub D price ask) ask then Some (BuyAboveAsk price ask) else None
         | None \<Rightarrow> None)
      else
        (case best_bid of
           Some bid \<Rightarrow>
             if dec_zero D < bid \<and> MAX_SLIPPAGE_THRESHOLD D < dec_div D (dec_sub D bid price) bid then Some (SellBelowBid price bid) else None
         | None \<Rightarrow> None))"

text \<open>The counter is only advanced when every check has passed.\<close>

definition build_safe_order ::
  "'d::linorder exec_decimal \<Rightarrow> u64 \<Rightarrow> string \<Rightarrow> string \<Rightarrow> string \<Rightarrow> safe_order_type \<Rightarrow> 'd \<Rightarrow> 'd \<Rightarrow> u16 \<Rightarrow> 'd option \<Rightarrow> 'd option \<Rightarrow> u64 \<Rightarrow>
   ('d safe_error + 'd safe_order_payload) \<times> u64" where
  "build_safe_order D now uuid symbol side otype price quantity ex best_bid best_ask cnt =
     (let side_upper = to_uppercase side
      in if price \<le> dec_zero D then (Inl PriceNotPositive, cnt)
         else if quantity \<le> dec_zero D then (Inl QuantityNotPositive, cnt)
         else if side_upper \<noteq> ''BUY'' \<and> side_upper \<noteq> ''SELL'' then (Inl (InvalidSide side), cnt)
         else case book_check D side_upper price best_bid best_ask of
                Some err \<Rightarrow> (Inl err, cnt)
              | None \<Rightarrow>
                  if symbol = [] then (Inl EmptySymbol, cnt)
                  else (Inr \<lparr>sp_symbol = symbol, sp_side = side_upper, sp_type = otype, sp_price = price, sp_quantity = quantity,
                             sp_tif = tif_of otype, sp_client_id = order_client_id ex now (price_hash D price) cnt uuid,
                             sp_timestamp = now, sp_exchange = ex\<rparr>, cnt + 1))"

definition slippage_bps_of :: "'d exec_decimal \<Rightarrow> 'd safe_order_payload \<Rightarrow> 'd \<Rightarrow> 'd" where
  "slippage_bps_of D p avg =
     dec_mul D (dec_div D (if sp_side p = ''BUY'' then dec_saturating_sub D avg (sp_price p) else dec_saturating_sub D (sp_price p) avg) (sp_price p))
       (dec_new D 100000 1)"

definition validate_execution_result ::
  "'d::linorder exec_decimal \<Rightarrow> 'd safe_order_payload \<Rightarrow> 'd safe_execution_result \<Rightarrow> u64 \<Rightarrow> 'd safe_error + unit" where
  "validate_execution_result D p r max_slippage_bps =
     (let slippage = slippage_bps_of D p (se_avg_price r)
      in if \<not> se_success r then Inl (OrderFailed (case se_error r of None \<Rightarrow> ''unknown error'' | Some e \<Rightarrow> e))
         else if se_filled r \<le> dec_zero D then Inl NothingFilled
         else if dec_zero D < sp_price p \<and> dec_from_int D (uint max_slippage_bps) < slippage then Inl (SlippageTooHigh slippage)
         else if sp_type p = Fok \<and> \<not> se_full r then Inl FokNotFilled
         else Inr ())"

definition counter_side :: "'d safe_order_payload \<Rightarrow> string" where
  "counter_side p = (if sp_side p = ''BUY'' then ''SELL'' else ''BUY'')"

definition counter_price :: "'d exec_decimal \<Rightarrow> 'd safe_order_payload \<Rightarrow> u64 \<Rightarrow> 'd" where
  "counter_price D p nudge_bps =
     (let nudge = dec_div D (dec_from_int D (uint nudge_bps)) (dec_new D 100000 1); one = dec_from_int D 1
      in dec_mul D (sp_price p) (if counter_side p = ''SELL'' then dec_sub D one nudge else dec_add D one nudge))"

definition build_counter_order ::
  "'d::linorder exec_decimal \<Rightarrow> u64 \<Rightarrow> 'd safe_order_payload \<Rightarrow> u64 \<Rightarrow> 'd option \<Rightarrow> u64 \<Rightarrow> 'd safe_order_payload option \<times> u64" where
  "build_counter_order D now p nudge_bps filled cnt =
     (let price = counter_price D p nudge_bps;
          relative_floor = max (dec_mul D (sp_price p) (dec_new D 1 8)) (MIN_PRICE_FLOOR D);
          qty = (case filled of Some x \<Rightarrow> if dec_zero D < x then x else sp_quantity p | None \<Rightarrow> sp_quantity p)
      in if price \<le> dec_zero D \<or> price < relative_floor then (None, cnt)
         else (Some \<lparr>sp_symbol = sp_symbol p, sp_side = counter_side p, sp_type = Ioc, sp_price = price, sp_quantity = qty, sp_tif = ''IOC'',
                     sp_client_id = ''COUNTER-'' @ show_word (sp_exchange p) @ ''-'' @ show_word now @ ''-'' @ show_word cnt,
                     sp_timestamp = now, sp_exchange = sp_exchange p\<rparr>, cnt + 1))"

section \<open>Checks of a leg\<close>

datatype order_fault = BadPrice | BadQuantity | NotionalAboveMaximum | BadSide | MarketProhibited | GtcProhibited | NoSymbol

definition MAX_NOTIONAL_USD :: "'d exec_decimal \<Rightarrow> 'd" where
  "MAX_NOTIONAL_USD D = dec_from_int D 500000"

definition order_checks :: "'d::linorder exec_decimal \<Rightarrow> 'd \<Rightarrow> 'd \<Rightarrow> string \<Rightarrow> string \<Rightarrow> string \<Rightarrow> string \<Rightarrow> order_fault option" where
  "order_checks D price qty side otype tif symbol =
     (if price \<le> dec_zero D then Some BadPrice
      else if qty \<le> dec_zero D then Some BadQuantity
      else if MAX_NOTIONAL_USD D < dec_mul D qty price then Some NotionalAboveMaximum
      else if side \<noteq> ''BUY'' \<and> side \<noteq> ''SELL'' then Some BadSide
      else if otype = ''MARKET'' then Some MarketProhibited
      else if tif = ''GTC'' then Some GtcProhibited
      else if symbol = [] then Some NoSymbol
      else None)"

text \<open>The result of a leg; the two executors add the name of the exchange or the symbol.\<close>

datatype leg_error = Fault order_fault | LegTimedOut | BuyCheckFailed | Reported string

record 'd leg_fill =
  lf_exchange :: u16
  lf_success :: bool
  lf_order_id :: "string option"
  lf_filled :: 'd
  lf_price :: 'd
  lf_error :: "leg_error option"
  lf_time_us :: u64

section \<open>Two legs\<close>

record 'd cross_exchange_order =
  xo_name :: string
  xo_exchange :: u16
  xo_symbol :: string
  xo_side :: string
  xo_price :: 'd
  xo_quantity :: 'd
  xo_type :: string
  xo_tif :: string

record 'd cross_leg_result = "'d leg_fill" +
  cl_name :: string

record 'd cross_exchange_result =
  cr_buy :: "'d cross_leg_result"
  cr_sell :: "'d cross_leg_result"
  cr_both :: bool
  cr_profit :: "'d option"
  cr_time_us :: u64
  cr_rollback :: bool

definition validate_order :: "'d::linorder exec_decimal \<Rightarrow> 'd cross_exchange_order \<Rightarrow> order_fault option" where
  "validate_order D x = order_checks D (xo_price x) (xo_quantity x) (xo_side x) (xo_type x) (xo_tif x) (xo_symbol x)"

definition failed_leg :: "'d exec_decimal \<Rightarrow> 'd cross_exchange_order \<Rightarrow> leg_error \<Rightarrow> u64 \<Rightarrow> 'd cross_leg_result" where
  "failed_leg D x err time =
     \<lparr>lf_exchange = xo_exchange x, lf_success = False, lf_order_id = None, lf_filled = dec_zero D, lf_price = dec_zero D, lf_error = Some err,
      lf_time_us = time, cl_name = xo_name x\<rparr>"

text \<open>
  What comes back within the timeout, with the time it took: the value that the two branches which send an order bind to \<^verbatim>\<open>result\<close>.  Both end with
  this binding, where every other branch ends with the \<^verbatim>\<open>LegResult\<close> it returns; the value with which they end is not written in the source and
  is the parameter \<open>ending\<close> of the executor, applied to the bound result.
\<close>

definition run_leg :: "'d exec_decimal \<Rightarrow> ('d cross_exchange_order \<Rightarrow> ('d cross_leg_result \<times> u64) option) \<Rightarrow> 'd cross_exchange_order \<Rightarrow> 'd cross_leg_result" where
  "run_leg D dispatch x =
     (case dispatch x of
        Some (r, elapsed) \<Rightarrow> r\<lparr>lf_time_us := elapsed\<rparr>
      | None \<Rightarrow> failed_leg D x LegTimedOut 5000000)"

text \<open>The two legs, with the orders that are sent.\<close>

definition buy_leg ::
  "'d::linorder exec_decimal \<Rightarrow> ('d cross_leg_result \<Rightarrow> 'd cross_leg_result) \<Rightarrow> ('d cross_exchange_order \<Rightarrow> ('d cross_leg_result \<times> u64) option) \<Rightarrow>
   'd cross_exchange_order \<Rightarrow> 'd cross_leg_result \<times> 'd cross_exchange_order list" where
  "buy_leg D ending dispatch b = (case validate_order D b of Some e \<Rightarrow> (failed_leg D b (Fault e) 0, []) | None \<Rightarrow> (ending (run_leg D dispatch b), [b]))"

definition sell_leg ::
  "'d::linorder exec_decimal \<Rightarrow> ('d cross_leg_result \<Rightarrow> 'd cross_leg_result) \<Rightarrow> ('d cross_exchange_order \<Rightarrow> ('d cross_leg_result \<times> u64) option) \<Rightarrow>
   'd cross_exchange_order \<Rightarrow> 'd cross_exchange_order \<Rightarrow> 'd cross_leg_result \<times> 'd cross_exchange_order list" where
  "sell_leg D ending dispatch b s =
     (if validate_order D b \<noteq> None then (failed_leg D s BuyCheckFailed 0, [])
      else case validate_order D s of Some e \<Rightarrow> (failed_leg D s (Fault e) 0, []) | None \<Rightarrow> (ending (run_leg D dispatch s), [s]))"

definition cross_profit :: "'d exec_decimal \<Rightarrow> 'd cross_leg_result \<Rightarrow> 'd cross_leg_result \<Rightarrow> 'd \<Rightarrow> 'd \<Rightarrow> 'd" where
  "cross_profit D b s fee_buy fee_sell =
     (let buy_cost = dec_mul D (lf_filled b) (lf_price b); buy_fee = dec_mul D buy_cost fee_buy;
          proceeds = dec_mul D (lf_filled s) (lf_price s); sell_fee = dec_mul D proceeds fee_sell
      in dec_sub D (dec_sub D (dec_sub D proceeds sell_fee) buy_cost) buy_fee)"

definition execute_cross ::
  "'d::linorder exec_decimal \<Rightarrow> ('d cross_leg_result \<Rightarrow> 'd cross_leg_result) \<Rightarrow> ('d cross_exchange_order \<Rightarrow> ('d cross_leg_result \<times> u64) option) \<Rightarrow> u64 \<Rightarrow> 'd cross_exchange_order \<Rightarrow> 'd cross_exchange_order \<Rightarrow>
   'd \<Rightarrow> 'd \<Rightarrow> 'd cross_exchange_result \<times> 'd cross_exchange_order list" where
  "execute_cross D ending dispatch elapsed b s fee_buy fee_sell =
     (let (rb, sent_b) = buy_leg D ending dispatch b; (rs, sent_s) = sell_leg D ending dispatch b s; both = lf_success rb \<and> lf_success rs
      in (\<lparr>cr_buy = rb, cr_sell = rs, cr_both = both,
           cr_profit = (if both then Some (cross_profit D rb rs fee_buy fee_sell) else None), cr_time_us = elapsed,
           cr_rollback = (lf_success rb \<noteq> lf_success rs \<or> lf_filled rb \<noteq> lf_filled rs)\<rparr>, sent_b @ sent_s))"

definition compute_expected_profit :: "'d exec_decimal \<Rightarrow> 'd \<Rightarrow> 'd \<Rightarrow> 'd \<Rightarrow> 'd \<Rightarrow> 'd \<Rightarrow> 'd" where
  "compute_expected_profit D buy_price sell_price qty fee_buy fee_sell =
     (let buy_cost = dec_mul D qty buy_price; proceeds = dec_mul D qty sell_price;
          fees = dec_add D (dec_mul D buy_cost fee_buy) (dec_mul D proceeds fee_sell)
      in dec_sub D (dec_sub D proceeds buy_cost) fees)"

definition breakeven_sell_price :: "'d exec_decimal \<Rightarrow> 'd \<Rightarrow> 'd \<Rightarrow> 'd \<Rightarrow> 'd" where
  "breakeven_sell_price D buy_price fee_buy fee_sell =
     dec_div D (dec_mul D buy_price (dec_add D (dec_from_int D 1) fee_buy)) (dec_sub D (dec_from_int D 1) fee_sell)"

definition minimum_spread_bps :: "'d::linorder exec_decimal \<Rightarrow> 'd \<Rightarrow> 'd \<Rightarrow> 'd \<Rightarrow> 'd" where
  "minimum_spread_bps D dec_max fee_buy fee_sell =
     (let divisor = dec_sub D (dec_from_int D 1) fee_sell
      in if divisor \<le> dec_zero D then dec_max
         else dec_mul D (dec_div D (dec_add D fee_buy fee_sell) divisor) (dec_new D 100000 1))"

section \<open>Three legs\<close>

record 'd triangular_leg =
  tl_exchange :: u16
  tl_token :: u16
  tl_symbol :: string
  tl_side :: string
  tl_price :: 'd
  tl_quantity :: 'd
  tl_type :: string
  tl_tif :: string

record 'd tri_leg_result = "'d leg_fill" +
  tr_symbol :: string

record 'd triangular_result =
  tri_legs :: "'d tri_leg_result \<times> 'd tri_leg_result \<times> 'd tri_leg_result"
  tri_all :: bool
  tri_rollback :: bool
  tri_time_us :: u64

abbreviation LEG_TIMEOUT_SECS :: u64 where
  "LEG_TIMEOUT_SECS \<equiv> 5"

definition validate_leg :: "'d::linorder exec_decimal \<Rightarrow> 'd triangular_leg \<Rightarrow> order_fault option" where
  "validate_leg D l = order_checks D (tl_price l) (tl_quantity l) (tl_side l) (tl_type l) (tl_tif l) (tl_symbol l)"

definition empty_leg :: "'d exec_decimal \<Rightarrow> 'd triangular_leg \<Rightarrow> leg_error option \<Rightarrow> u64 \<Rightarrow> 'd tri_leg_result" where
  "empty_leg D l err time =
     \<lparr>lf_exchange = tl_exchange l, lf_success = False, lf_order_id = None, lf_filled = dec_zero D, lf_price = dec_zero D, lf_error = err,
      lf_time_us = time, tr_symbol = tl_symbol l\<rparr>"

definition validation_failed :: "'d exec_decimal \<Rightarrow> 'd triangular_leg \<Rightarrow> order_fault option \<Rightarrow> 'd tri_leg_result" where
  "validation_failed D l err = empty_leg D l (map_option Fault err) 0"

text \<open>The answer within the timeout, or the time at which the leg was given up.\<close>

definition dispatch_leg :: "'d exec_decimal \<Rightarrow> ('d triangular_leg \<Rightarrow> u64 + ('d tri_leg_result \<times> u64)) \<Rightarrow> 'd triangular_leg \<Rightarrow> 'd tri_leg_result" where
  "dispatch_leg D dispatch l =
     (case dispatch l of
        Inr (r, elapsed) \<Rightarrow> r\<lparr>lf_time_us := elapsed\<rparr>
      | Inl elapsed \<Rightarrow> empty_leg D l (Some LegTimedOut) elapsed)"

definition fill_off :: "'d::linorder exec_decimal \<Rightarrow> 'd tri_leg_result \<Rightarrow> 'd triangular_leg \<Rightarrow> bool" where
  "fill_off D r l \<longleftrightarrow> dec_new D 1 8 < decimal_abs D (dec_sub D (lf_filled r) (tl_quantity l))"

definition execute_triangular ::
  "'d::linorder exec_decimal \<Rightarrow> ('d triangular_leg \<Rightarrow> u64 + ('d tri_leg_result \<times> u64)) \<Rightarrow> u64 \<Rightarrow> 'd triangular_leg \<times> 'd triangular_leg \<times> 'd triangular_leg \<Rightarrow>
   'd triangular_result \<times> 'd triangular_leg list" where
  "execute_triangular D dispatch elapsed legs =
     (let (l0, l1, l2) = legs; v0 = validate_leg D l0; v1 = validate_leg D l1; v2 = validate_leg D l2
      in if v0 \<noteq> None \<or> v1 \<noteq> None \<or> v2 \<noteq> None
         then (\<lparr>tri_legs = (validation_failed D l0 v0, validation_failed D l1 v1, validation_failed D l2 v2), tri_all = False, tri_rollback = False,
                tri_time_us = 0\<rparr>, [])
         else let r0 = dispatch_leg D dispatch l0; r1 = dispatch_leg D dispatch l1; r2 = dispatch_leg D dispatch l2;
                  all_ok = (lf_success r0 \<and> lf_success r1 \<and> lf_success r2)
              in (\<lparr>tri_legs = (r0, r1, r2), tri_all = all_ok, tri_rollback = (\<not> all_ok \<or> fill_off D r0 l0 \<or> fill_off D r1 l1 \<or> fill_off D r2 l2),
                   tri_time_us = elapsed\<rparr>, [l0, l1, l2]))"

definition breakeven_final_price :: "'d::linorder exec_decimal \<Rightarrow> ('d \<Rightarrow> int \<Rightarrow> 'd) \<Rightarrow> 'd \<Rightarrow> 'd \<Rightarrow> 'd \<Rightarrow> 'd \<Rightarrow> 'd" where
  "breakeven_final_price D dec_powi dec_max leg1_price leg2_rate fee =
     (let divisor = dec_mul D leg2_rate (dec_powi (dec_sub D (dec_from_int D 1) fee) 3)
      in if divisor \<le> dec_zero D then dec_max else dec_div D leg1_price divisor)"

section \<open>Identifiers\<close>

text \<open>The builds of a process one after the other, on the shared counter, and the orders that come out of them.\<close>

datatype 'd build =
    SafeBuild u64 string string string safe_order_type 'd 'd u16 "'d option" "'d option"
  | CounterBuild u64 "'d safe_order_payload" u64 "'d option"

fun do_build :: "'d::linorder exec_decimal \<Rightarrow> 'd build \<Rightarrow> u64 \<Rightarrow> 'd safe_order_payload option \<times> u64" where
  "do_build D (SafeBuild now uuid symbol side otype price qty ex bid ask) cnt =
     (let (r, cnt') = build_safe_order D now uuid symbol side otype price qty ex bid ask cnt
      in (case r of Inl _ \<Rightarrow> None | Inr p \<Rightarrow> Some p, cnt'))"
| "do_build D (CounterBuild now p nudge filled) cnt = build_counter_order D now p nudge filled cnt"

fun run_builds :: "'d::linorder exec_decimal \<Rightarrow> 'd build list \<Rightarrow> u64 \<Rightarrow> 'd safe_order_payload list" where
  "run_builds D [] cnt = []"
| "run_builds D (b # bs) cnt =
     (let (r, cnt') = do_build D b cnt in (case r of None \<Rightarrow> [] | Some p \<Rightarrow> [p]) @ run_builds D bs cnt')"

fun build_clock :: "'d build \<Rightarrow> u64" where
  "build_clock (SafeBuild now uuid symbol side otype price qty ex bid ask) = now"
| "build_clock (CounterBuild now p nudge filled) = now"

text \<open>An identifier ends with a dash and the number that the counter had.\<close>

definition numbered :: "u64 \<Rightarrow> string \<Rightarrow> bool" where
  "numbered n cid \<longleftrightarrow> (\<exists>pre. cid = pre @ ''-'' @ show_word n)"

lemma numbered_unique: "numbered m cid \<Longrightarrow> numbered n cid \<Longrightarrow> m = n"
proof -
  have tail: "rev (takeWhile (\<lambda>ch. ch \<noteq> CHR ''-'') (rev (pre @ ''-'' @ show_word w))) = show_word w" for pre and w :: u64
  proof -
    have "\<forall>ch \<in> set (rev (show_word w)). ch \<noteq> CHR ''-''" using show_word_digits [of w] by auto
    then have "takeWhile (\<lambda>ch. ch \<noteq> CHR ''-'') (rev (show_word w) @ CHR ''-'' # rev pre) = rev (show_word w)"
      by (subst takeWhile_append2) simp_all
    then show ?thesis by simp
  qed
  show "numbered m cid \<Longrightarrow> numbered n cid \<Longrightarrow> m = n"
    unfolding numbered_def using tail show_word_inject by (metis (no_types))
qed

lemma do_build_numbers:
  assumes "do_build D b cnt = (r, cnt')" "build_clock b \<noteq> 0"
  shows "(r = None \<and> cnt' = cnt) \<or> (\<exists>p. r = Some p \<and> cnt' = cnt + 1 \<and> numbered cnt (sp_client_id p))"
proof (cases b)
  case (SafeBuild now uuid symbol side otype price qty ex bid ask)
  have "numbered cnt (order_client_id ex now h cnt uuid)" for h
    unfolding numbered_def using assms(2) SafeBuild
    by (intro exI [of _ "show_word ex @ ''-'' @ show_word now @ ''-'' @ hex8 h"]) (simp add: order_client_id_def)
  then show ?thesis
    using assms(1) SafeBuild by (auto simp: build_safe_order_def Let_def split: if_splits option.splits)
next
  case (CounterBuild now p nudge filled)
  have "numbered cnt (''COUNTER-'' @ show_word (sp_exchange p) @ ''-'' @ show_word now @ ''-'' @ show_word cnt)"
    unfolding numbered_def by (intro exI [of _ "''COUNTER-'' @ show_word (sp_exchange p) @ ''-'' @ show_word now"]) simp
  then show ?thesis
    using assms(1) CounterBuild by (auto simp: build_counter_order_def Let_def split: if_splits)
qed

lemma run_builds_numbers:
  "\<forall>b \<in> set bs. build_clock b \<noteq> 0 \<Longrightarrow>
   \<exists>k \<le> length bs. list_all2 (\<lambda>i p. numbered (cnt + of_nat i) (sp_client_id p)) [0..<k] (run_builds D bs cnt)"
proof (induction bs arbitrary: cnt)
  case (Cons b bs)
  obtain r cnt' where b: "do_build D b cnt = (r, cnt')" by fastforce
  obtain k where k: "k \<le> length bs" "list_all2 (\<lambda>i p. numbered (cnt' + of_nat i) (sp_client_id p)) [0..<k] (run_builds D bs cnt')"
    using Cons.IH [of cnt'] Cons.prems by auto
  have "build_clock b \<noteq> 0" using Cons.prems by simp
  from do_build_numbers [OF b this] show ?case
  proof (elim disjE exE conjE)
    assume "r = None" "cnt' = cnt"
    then show ?thesis using k b by (intro exI [of _ k]) simp
  next
    fix p assume p: "r = Some p" "cnt' = cnt + 1" "numbered cnt (sp_client_id p)"
    have "list_all2 (\<lambda>i p. numbered (cnt + of_nat i) (sp_client_id p)) (map Suc [0..<k]) (run_builds D bs cnt')"
      using k(2) p(2) by (simp add: list.rel_map algebra_simps)
    then have "list_all2 (\<lambda>i p. numbered (cnt + of_nat i) (sp_client_id p)) [0..<Suc k] (p # run_builds D bs cnt')"
      using p(3) by (simp add: upt_conv_Cons map_Suc_upt del: upt_Suc)
    then show ?thesis using k(1) b p(1) by (intro exI [of _ "Suc k"]) (simp del: upt_Suc)
  qed
qed simp

text \<open>
  C18: Client order identifiers are unique: whatever orders and counter-orders a process builds, at whatever times, exchanges and prices, no two of them
  get the same identifier, as long as the clock is past the epoch and the counter has not gone through all its values.
\<close>

theorem client_ids_unique:
  assumes "\<forall>b \<in> set bs. build_clock b \<noteq> 0" "length bs \<le> 2 ^ 64"
  shows "distinct (map sp_client_id (run_builds D bs cnt))"
proof -
  obtain k where k: "k \<le> length bs" "list_all2 (\<lambda>i p. numbered (cnt + of_nat i) (sp_client_id p)) [0..<k] (run_builds D bs cnt)"
    using run_builds_numbers [OF assms(1)] by blast
  define ids where "ids = map sp_client_id (run_builds D bs cnt)"
  have len: "length ids = k" and ids: "\<And>i. i < k \<Longrightarrow> numbered (cnt + of_nat i) (ids ! i)"
    using k(2) by (auto simp: ids_def list_all2_conv_all_nth)
  have inj: "i = j" if "i < k" "j < k" "(of_nat i :: u64) = of_nat j" for i j
  proof -
    have "i < 2 ^ 64" "j < 2 ^ 64" using that k(1) assms(2) by simp_all
    moreover have "unat (of_nat n :: u64) = n" if "n < 2 ^ 64" for n using that by (simp add: unat_of_nat)
    ultimately show ?thesis using arg_cong [OF that(3), of unat] by metis
  qed
  show ?thesis unfolding ids_def [symmetric] distinct_conv_nth
  proof (intro allI impI notI)
    fix i j assume ij: "i < length ids" "j < length ids" "i \<noteq> j" "ids ! i = ids ! j"
    then have "cnt + of_nat i = cnt + of_nat j" using ids len numbered_unique by metis
    then show False using inj ij len by simp
  qed
qed

theorem client_ids_unique_witness:
  "let bs = [SafeBuild 5 [] ''BTCUSDT'' ''buy'' Ioc 100 1 3 None None, SafeBuild 5 [] ''BTCUSDT'' ''buy'' Ioc 100 1 3 None None] :: int build list
   in (\<forall>b \<in> set bs. build_clock b \<noteq> 0) \<and> length (run_builds int_exec bs 0) = 2 \<and> distinct (map sp_client_id (run_builds int_exec bs 0))"
proof -
  let ?bs = "[SafeBuild 5 [] ''BTCUSDT'' ''buy'' Ioc 100 1 3 None None, SafeBuild 5 [] ''BTCUSDT'' ''buy'' Ioc 100 1 3 None None] :: int build list"
  have "\<forall>b \<in> set ?bs. build_clock b \<noteq> 0" by simp
  moreover have "length (run_builds int_exec ?bs 0) = 2"
  proof -
    have "dec_zero int_exec = 0" by (simp add: int_exec_def)
    moreover have "to_uppercase ''buy'' = ''BUY''" by code_simp
    ultimately show ?thesis by (simp add: build_safe_order_def book_check_def Let_def)
  qed
  moreover have "distinct (map sp_client_id (run_builds int_exec ?bs 0))" by (rule client_ids_unique) simp_all
  ultimately show ?thesis unfolding Let_def by blast
qed

section \<open>Safe orders and counter-orders\<close>

text \<open>
  An order that is built may not stay in a book, has a positive limit and quantity, and its limit has passed the comparison with the book; nothing else
  of the process changes but the counter.
\<close>

lemma built_order_safe:
  assumes "build_safe_order D now uuid symbol side otype price qty ex bid ask cnt = (Inr p, cnt')"
  shows "dec_zero D < sp_price p \<and> dec_zero D < sp_quantity p \<and> sp_tif p \<in> {''IOC'', ''FOK''} \<and> sp_side p \<in> {''BUY'', ''SELL''} \<and> sp_symbol p \<noteq> [] \<and>
    book_check D (sp_side p) (sp_price p) bid ask = None \<and> cnt' = cnt + 1"
  using assms by (cases otype) (auto simp: build_safe_order_def Let_def not_le split: if_splits option.splits)

text \<open>A counter-order is on the other side, at once or never, of what was filled, and at no less than the floor.\<close>

lemma counter_order_reverses:
  assumes "build_counter_order D now p nudge filled cnt = (Some c, cnt')"
  shows "sp_side c \<noteq> sp_side p \<and> sp_type c = Ioc \<and> sp_symbol c = sp_symbol p \<and> sp_exchange c = sp_exchange p \<and>
    dec_zero D < sp_price c \<and> MIN_PRICE_FLOOR D \<le> sp_price c \<and> (\<forall>x. filled = Some x \<and> dec_zero D < x \<longrightarrow> sp_quantity c = x)"
  using assms by (auto simp: build_counter_order_def counter_side_def Let_def not_le not_less split: if_splits option.splits)

text \<open>
  The floor is the larger one of a cent and a fraction of the price, so that a token that costs less than a cent is never sold back; and an order of which
  nothing was filled is reversed as a whole.
\<close>

lemma cheap_token_not_unwound:
  fixes D :: "'d::linordered_idom exec_decimal"
  assumes "exact_numbers D" "sp_side p = ''BUY''" "0 \<le> sp_price p" "sp_price p < MIN_PRICE_FLOOR D" "0 \<le> dec_div D (of_int (uint nudge)) (dec_new D 100000 1)"
  shows "build_counter_order D now p nudge filled cnt = (None, cnt)"
proof -
  let ?n = "dec_div D (of_int (uint nudge)) (dec_new D 100000 1)"
  have "sp_price p * (1 - ?n) \<le> sp_price p * 1" using assms(3,5) by (intro mult_left_mono) simp_all
  then have "counter_price D p nudge < MIN_PRICE_FLOOR D"
    using assms by (simp add: counter_price_def counter_side_def Let_def exact_numbersD)
  then have "counter_price D p nudge < max (dec_mul D (sp_price p) (dec_new D 1 8)) (MIN_PRICE_FLOOR D)" by (simp add: less_max_iff_disj)
  then show ?thesis by (simp add: build_counter_order_def Let_def)
qed

lemma unfilled_order_reversed:
  "build_counter_order D now p nudge (Some (dec_zero D)) cnt = build_counter_order D now p nudge (Some (sp_quantity p)) cnt \<or> sp_quantity p \<le> dec_zero D"
  by (auto simp: build_counter_order_def Let_def)

section \<open>Two and three legs\<close>

definition leg_in_limits :: "'d::linorder exec_decimal \<Rightarrow> 'd \<Rightarrow> 'd \<Rightarrow> string \<Rightarrow> string \<Rightarrow> string \<Rightarrow> bool" where
  "leg_in_limits D price qty side otype tif \<longleftrightarrow>
     dec_zero D < price \<and> dec_zero D < qty \<and> dec_mul D qty price \<le> MAX_NOTIONAL_USD D \<and> side \<in> {''BUY'', ''SELL''} \<and> otype \<noteq> ''MARKET'' \<and> tif \<noteq> ''GTC''"

lemma order_checks_limits: "order_checks D price qty side otype tif symbol = None \<longleftrightarrow> leg_in_limits D price qty side otype tif \<and> symbol \<noteq> []"
  by (auto simp: order_checks_def leg_in_limits_def not_le not_less)

lemma profit_as_expected:
  fixes D :: "'d::linordered_idom exec_decimal"
  assumes "exact_arith D" "lf_filled rb = q" "lf_filled rs = q"
  shows "cross_profit D rb rs fb fs = compute_expected_profit D (lf_price rb) (lf_price rs) q fb fs"
  using assms by (simp add: cross_profit_def compute_expected_profit_def Let_def exact_arith_def algebra_simps)

text \<open>
  The executor of two legs sends only orders within the limits and never a sale without its purchase; when it asks for no rollback, both
  legs succeeded or both failed, with the same quantity filled; and the profit of two complete legs is what was expected for the
  fills, fees included.  All this holds whatever value the branches that send an order end with.
\<close>

theorem cross_execution_sound:
  fixes D :: "'d::linordered_idom exec_decimal"
  assumes "exact_arith D" "execute_cross D ending dispatch elapsed b s fee_buy fee_sell = (res, sent)"
  shows "(\<forall>x \<in> set sent. leg_in_limits D (xo_price x) (xo_quantity x) (xo_side x) (xo_type x) (xo_tif x)) \<and> sent \<in> {[], [b], [b, s]} \<and>
    (\<not> cr_rollback res \<longrightarrow> lf_success (cr_buy res) = lf_success (cr_sell res) \<and> lf_filled (cr_buy res) = lf_filled (cr_sell res)) \<and>
    (cr_both res \<and> \<not> cr_rollback res \<longrightarrow>
       cr_profit res = Some (compute_expected_profit D (lf_price (cr_buy res)) (lf_price (cr_sell res)) (lf_filled (cr_buy res)) fee_buy fee_sell))"
proof -
  have ok: "leg_in_limits D (xo_price x) (xo_quantity x) (xo_side x) (xo_type x) (xo_tif x)" if "validate_order D x = None" for x
    using that by (simp add: validate_order_def order_checks_limits)
  show ?thesis
    using assms(2) ok profit_as_expected [OF assms(1)]
    by (auto simp: execute_cross_def buy_leg_def sell_leg_def Let_def split: option.splits if_splits)
qed

definition sample_order :: "string \<Rightarrow> int \<Rightarrow> int cross_exchange_order" where
  "sample_order side price =
     \<lparr>xo_name = ''X'', xo_exchange = 0, xo_symbol = ''BTCUSDT'', xo_side = side, xo_price = price, xo_quantity = 2, xo_type = ''LIMIT'', xo_tif = ''IOC''\<rparr>"

definition sample_fill :: "int cross_exchange_order \<Rightarrow> (int cross_leg_result \<times> u64) option" where
  "sample_fill x =
     Some (\<lparr>lf_exchange = 0, lf_success = True, lf_order_id = None, lf_filled = xo_quantity x, lf_price = xo_price x, lf_error = None, lf_time_us = 0,
            cl_name = xo_name x\<rparr>, 3)"

theorem cross_execution_sound_witness:
  "let b = sample_order ''BUY'' 100; s = sample_order ''SELL'' 110; (res, sent) = execute_cross int_exec id sample_fill 9 b s 0 0
   in sent = [b, s] \<and> cr_both res \<and> \<not> cr_rollback res \<and> cr_profit res = Some 20 \<and>
      cr_profit res = Some (compute_expected_profit int_exec (lf_price (cr_buy res)) (lf_price (cr_sell res)) (lf_filled (cr_buy res)) 0 0)"
proof -
  have ops: "dec_zero int_exec = 0" "dec_mul int_exec = (*)" "dec_sub int_exec = (-)" "dec_from_int int_exec = id" by (simp_all add: int_exec_def)
  obtain res sent where ex: "execute_cross int_exec id sample_fill 9 (sample_order ''BUY'' 100) (sample_order ''SELL'' 110) 0 0 = (res, sent)" by fastforce
  have "sent = [sample_order ''BUY'' 100, sample_order ''SELL'' 110] \<and> cr_both res \<and> \<not> cr_rollback res \<and> cr_profit res = Some 20"
    using ex by (auto simp: execute_cross_def buy_leg_def sell_leg_def run_leg_def validate_order_def order_checks_def sample_order_def sample_fill_def
        MAX_NOTIONAL_USD_def cross_profit_def ops Let_def)
  moreover have "exact_arith int_exec" using int_exec_exact by (simp add: exact_numbers_def)
  moreover have "cr_profit res = Some (compute_expected_profit int_exec (lf_price (cr_buy res)) (lf_price (cr_sell res)) (lf_filled (cr_buy res)) 0 0)"
    using cross_execution_sound [OF _ ex] calculation by blast
  ultimately show ?thesis unfolding Let_def ex by simp
qed

text \<open>
  C33: The executor of three legs sends all of them or none: all exactly when each has a positive price and quantity, a value of at most half a million, the side BUY or
  SELL, a symbol, a type other than the text MARKET and a time in force other than the text GTC.  (Every other text passes, so also
  a lower-case gtc or a type that rests in the book; only these two spellings are refused.)  The result of a leg that was sent is the answer of the exchange
  with the time it took, or on a timeout a failure without fill; legs that were not sent failed without fill.  The flag for
  complete success is set exactly when all three succeeded, and a rollback is asked for exactly when the legs were sent and one of them did not succeed
  or filled a quantity more than 0.00000001 away from the quantity asked for.
\<close>

theorem triangular_execution_exact:
  fixes D :: "'d::linorder exec_decimal"
  assumes "execute_triangular D dispatch elapsed (l0, l1, l2) = (res, sent)"
  shows "let ok = (\<lambda>l. leg_in_limits D (tl_price l) (tl_quantity l) (tl_side l) (tl_type l) (tl_tif l) \<and> tl_symbol l \<noteq> []) in
    sent = (if ok l0 \<and> ok l1 \<and> ok l2 then [l0, l1, l2] else []) \<and>
    (\<exists>r0 r1 r2. tri_legs res = (r0, r1, r2) \<and>
       (\<forall>(r, l) \<in> {(r0, l0), (r1, l1), (r2, l2)}.
          if sent = [] then \<not> lf_success r \<and> lf_filled r = dec_zero D
          else case dispatch l of
                 Inr (answer, t) \<Rightarrow> r = answer\<lparr>lf_time_us := t\<rparr>
               | Inl t \<Rightarrow> \<not> lf_success r \<and> lf_filled r = dec_zero D \<and> lf_time_us r = t) \<and>
       (tri_all res \<longleftrightarrow> lf_success r0 \<and> lf_success r1 \<and> lf_success r2) \<and>
       (tri_rollback res \<longleftrightarrow> sent \<noteq> [] \<and>
          (\<exists>(r, l) \<in> {(r0, l0), (r1, l1), (r2, l2)}. \<not> lf_success r \<or> dec_new D 1 8 < decimal_abs D (dec_sub D (lf_filled r) (tl_quantity l)))))"
proof -
  let ?ok = "\<lambda>l. leg_in_limits D (tl_price l) (tl_quantity l) (tl_side l) (tl_type l) (tl_tif l) \<and> tl_symbol l \<noteq> []"
  have ok: "validate_leg D l = None \<longleftrightarrow> ?ok l" for l by (simp add: validate_leg_def order_checks_limits)
  have sent: "case dispatch l of Inr (answer, t) \<Rightarrow> dispatch_leg D dispatch l = answer\<lparr>lf_time_us := t\<rparr>
      | Inl t \<Rightarrow> \<not> lf_success (dispatch_leg D dispatch l) \<and> lf_filled (dispatch_leg D dispatch l) = dec_zero D \<and> lf_time_us (dispatch_leg D dispatch l) = t" for l
    by (simp add: dispatch_leg_def empty_leg_def split: sum.split prod.split)
  show ?thesis
  proof (cases "?ok l0 \<and> ?ok l1 \<and> ?ok l2")
    case True
    then have v: "validate_leg D l0 = None" "validate_leg D l1 = None" "validate_leg D l2 = None" unfolding ok by simp_all
    show ?thesis
      using assms True sent [of l0] sent [of l1] sent [of l2] unfolding execute_triangular_def Let_def by (auto simp: v fill_off_def)
  next
    case False
    then have "validate_leg D l0 \<noteq> None \<or> validate_leg D l1 \<noteq> None \<or> validate_leg D l2 \<noteq> None" unfolding ok by simp
    then show ?thesis using assms False unfolding execute_triangular_def Let_def by (auto simp: validation_failed_def empty_leg_def)
  qed
qed

text \<open>The checks name two texts only: other spellings and types that rest in the book pass.\<close>

lemma resting_orders_pass:
  assumes "dec_zero D < price" "dec_zero D < qty" "dec_mul D qty price \<le> MAX_NOTIONAL_USD D" "symbol \<noteq> []"
  shows "order_checks D price qty ''BUY'' ''LIMIT'' ''gtc'' symbol = None" "order_checks D price qty ''BUY'' ''POST_ONLY'' ''GTX'' symbol = None"
  using assms by (simp_all add: order_checks_limits leg_in_limits_def)

definition sample_leg :: "int \<Rightarrow> int triangular_leg" where
  "sample_leg price =
     \<lparr>tl_exchange = 0, tl_token = 1, tl_symbol = ''BTCUSDT'', tl_side = ''BUY'', tl_price = price, tl_quantity = 2, tl_type = ''LIMIT'', tl_tif = ''IOC''\<rparr>"

theorem triangular_execution_exact_witness:
  "let (res, sent) = execute_triangular int_exec (\<lambda>l. Inl 5) 9 (sample_leg 1, sample_leg 2, sample_leg 3)
   in sent = [sample_leg 1, sample_leg 2, sample_leg 3] \<and> \<not> tri_all res \<and> tri_rollback res"
proof -
  have ops: "dec_zero int_exec = 0" "dec_mul int_exec = (*)" "dec_from_int int_exec = id" by (simp_all add: int_exec_def)
  obtain res sent where ex: "execute_triangular int_exec (\<lambda>l. Inl 5) 9 (sample_leg 1, sample_leg 2, sample_leg 3) = (res, sent)" by fastforce
  have lim: "leg_in_limits int_exec (tl_price (sample_leg p)) (tl_quantity (sample_leg p)) (tl_side (sample_leg p)) (tl_type (sample_leg p)) (tl_tif (sample_leg p)) \<and>
      tl_symbol (sample_leg p) \<noteq> []" if "p \<in> {1, 2, 3}" for p
    using that by (auto simp: leg_in_limits_def sample_leg_def MAX_NOTIONAL_USD_def ops)
  note exact = triangular_execution_exact [OF ex, unfolded Let_def]
  have sent: "sent = [sample_leg 1, sample_leg 2, sample_leg 3]" using exact [THEN conjunct1] lim [of 1] lim [of 2] lim [of 3] by simp
  have "\<not> tri_all res \<and> tri_rollback res" using exact [THEN conjunct2] sent by auto
  with sent ex show ?thesis by (simp add: Let_def)
qed

text \<open>
  The executor of two legs does not check both before it sends: a purchase within the limits is sent although the sale is refused.  Legs that time out
  count as unfilled, so that two of them ask for no rollback although both orders may have been filled.
\<close>

lemma purchase_without_sale:
  assumes "validate_order D b = None" "validate_order D s = Some e"
  shows "snd (execute_cross D ending dispatch elapsed b s fee_buy fee_sell) = [b]"
  using assms by (simp add: execute_cross_def buy_leg_def sell_leg_def Let_def)

lemma two_timeouts_no_rollback:
  assumes "validate_order D b = None" "validate_order D s = None" "dispatch b = None" "dispatch s = None"
  shows "\<not> cr_rollback (fst (execute_cross D id dispatch elapsed b s fee_buy fee_sell))"
  using assms by (simp add: execute_cross_def buy_leg_def sell_leg_def run_leg_def failed_leg_def Let_def)

end
