(* ===== verification/Paper_Trading.thy ===== *)
theory Paper_Trading
  imports Hash_Map Decimal_Api
begin

text \<open>
  The simulator of \<^verbatim>\<open>src/src/paper_trading.rs\<close>: a portfolio whose fills depend on a linear congruential generator.  The clock that seeds the
  generator is an argument; the generator is a state of the process, the portfolio is a record.  A call is one step.
\<close>

section \<open>The generator\<close>

record lcg_state =
  lcg_value :: u64
  lcg_initialised :: bool

definition lcg_init :: lcg_state where
  "lcg_init = \<lparr>lcg_value = 0, lcg_initialised = False\<rparr>"

abbreviation PARTIAL_FILL_MIN_BPS :: u64 where
  "PARTIAL_FILL_MIN_BPS \<equiv> 5000"

text \<open>The update gives the value before it back, cut to 32 bits.\<close>

definition lcg_next :: "u64 \<Rightarrow> lcg_state \<Rightarrow> u64 \<times> lcg_state" where
  "lcg_next nanos g =
     (let s = (if lcg_initialised g then lcg_value g else nanos)
      in (take_bit 32 s, \<lparr>lcg_value = (1664525 * s + 1013904223) mod 2 ^ 32, lcg_initialised = True\<rparr>))"

definition random_slippage_bps :: "u64 \<Rightarrow> lcg_state \<Rightarrow> u64 \<times> lcg_state" where
  "random_slippage_bps nanos g = (let (x, g') = lcg_next nanos g in (1 + x mod 5, g'))"

section \<open>The portfolio\<close>

record 'd paper_trade_record =
  pt_timestamp :: i64
  pt_exchange :: u16
  pt_token :: u16
  pt_symbol :: string
  pt_side :: string
  pt_qty :: 'd
  pt_price :: 'd
  pt_total :: 'd
  pt_slippage_bps :: u64

record 'd paper_portfolio =
  pp_balances :: "(u16 \<times> 'd) list"
  pp_initial_capital :: 'd
  pp_total_trades :: u64
  pp_total_pnl :: i64
  pp_history :: "'d paper_trade_record list"
  pp_fill_probability :: u64
  pp_partial_fill_max :: u64
  pp_latency_us :: u64

definition MAX_ORDER_NOTIONAL_USD :: "'d exec_decimal \<Rightarrow> 'd" where
  "MAX_ORDER_NOTIONAL_USD D = dec_from_int D 100000"

definition initial_balances :: "'d exec_decimal \<Rightarrow> 'd \<Rightarrow> (u16 \<times> 'd) list" where
  "initial_balances D capital =
     [(0, capital), (1, dec_new D 10 1), (2, dec_new D 100 1), (50, dec_from_int D 150000), (51, dec_from_int D 1000), (52, dec_from_int D 800),
      (53, dec_from_int D 1500), (54, dec_from_int D 1300)]"

definition paper_portfolio_new :: "'d::linorder exec_decimal \<Rightarrow> 'd \<Rightarrow> 'd paper_portfolio option" where
  "paper_portfolio_new D capital =
     (if capital \<le> dec_zero D then None
      else Some \<lparr>pp_balances = initial_balances D capital, pp_initial_capital = capital, pp_total_trades = 0, pp_total_pnl = 0, pp_history = [],
                 pp_fill_probability = 95, pp_partial_fill_max = 9500, pp_latency_us = 500\<rparr>)"

definition set_fill_probability :: "u64 \<Rightarrow> 'd paper_portfolio \<Rightarrow> 'd paper_portfolio" where
  "set_fill_probability pct p = p\<lparr>pp_fill_probability := min pct 100\<rparr>"

definition set_partial_fill_max_pct :: "u64 \<Rightarrow> 'd paper_portfolio \<Rightarrow> 'd paper_portfolio" where
  "set_partial_fill_max_pct bps p = p\<lparr>pp_partial_fill_max := min bps 10000\<rparr>"

definition set_simulated_latency_us :: "u64 \<Rightarrow> 'd paper_portfolio \<Rightarrow> 'd paper_portfolio" where
  "set_simulated_latency_us us p = p\<lparr>pp_latency_us := us\<rparr>"

definition balance_of :: "'d exec_decimal \<Rightarrow> (u16 \<times> 'd) list \<Rightarrow> u16 \<Rightarrow> 'd" where
  "balance_of D m t = (case map_of m t of None \<Rightarrow> dec_zero D | Some x \<Rightarrow> x)"

text \<open>\<^verbatim>\<open>*balances.entry(t).or_insert(ZERO)\<close> increased and decreased.\<close>

definition credit :: "'d exec_decimal \<Rightarrow> u16 \<Rightarrow> 'd \<Rightarrow> (u16 \<times> 'd) list \<Rightarrow> (u16 \<times> 'd) list" where
  "credit D t x m = hm_insert t (dec_add D (balance_of D m t) x) m"

definition debit :: "'d exec_decimal \<Rightarrow> u16 \<Rightarrow> 'd \<Rightarrow> (u16 \<times> 'd) list \<Rightarrow> (u16 \<times> 'd) list" where
  "debit D t x m = hm_insert t (dec_sub D (balance_of D m t) x) m"

text \<open>The funding of the currencies of a loop; an error ends it, with the fundings before it done.\<close>

fun allocate_loop :: "'d::linorder exec_decimal \<Rightarrow> 'd \<Rightarrow> u16 list \<Rightarrow> (u16 \<times> 'd) list \<Rightarrow> (u16 + unit) \<times> (u16 \<times> 'd) list" where
  "allocate_loop D amount [] m = (Inr (), m)"
| "allocate_loop D amount (t # ts) m =
     (let current = balance_of D m t
      in if current < amount
         then let shortfall = dec_sub D amount current
              in if balance_of D m 0 < shortfall then (Inl t, m)
                 else allocate_loop D amount ts (credit D t shortfall (if map_of m 0 = None then m else debit D 0 shortfall m))
         else allocate_loop D amount ts m)"

definition allocate_fx_tri_capital :: "'d::linorder exec_decimal \<Rightarrow> u16 list \<Rightarrow> 'd \<Rightarrow> 'd paper_portfolio \<Rightarrow> (u16 + unit) \<times> 'd paper_portfolio" where
  "allocate_fx_tri_capital D tokens amount p =
     (let (r, m) = allocate_loop D amount tokens (pp_balances p) in (r, p\<lparr>pp_balances := m\<rparr>))"

definition decimal_to_cents :: "'d::linorder exec_decimal \<Rightarrow> 'd \<Rightarrow> i64" where
  "decimal_to_cents D x =
     (case parse_i64 (dec_to_string D (dec_round D (dec_mul D x (dec_from_int D 100)))) of
        Some v \<Rightarrow> v
      | None \<Rightarrow> if dec_zero D < x then 0x7FFFFFFFFFFFFFFF else 0x8000000000000000)"

section \<open>Fills\<close>

definition side_text :: "bool \<Rightarrow> string" where
  "side_text is_buy = (if is_buy then ''BUY'' else ''SELL'')"

definition zeroed_record :: "'d exec_decimal \<Rightarrow> i64 \<Rightarrow> u16 \<Rightarrow> u16 \<Rightarrow> string \<Rightarrow> bool \<Rightarrow> 'd paper_trade_record" where
  "zeroed_record D ts ex token symbol is_buy =
     \<lparr>pt_timestamp = ts, pt_exchange = ex, pt_token = token, pt_symbol = symbol, pt_side = side_text is_buy, pt_qty = dec_zero D,
      pt_price = dec_zero D, pt_total = dec_zero D, pt_slippage_bps = 0\<rparr>"

definition partial_quantity :: "'d exec_decimal \<Rightarrow> u64 \<Rightarrow> u64 \<Rightarrow> 'd \<Rightarrow> lcg_state \<Rightarrow> 'd \<times> lcg_state" where
  "partial_quantity D nanos partial_max qty g =
     (let share = (\<lambda>bps :: u64. dec_div D (dec_mul D qty (dec_from_int D (uint bps))) (dec_from_int D 10000))
      in if 10000 \<le> partial_max then (qty, g)
         else if partial_max \<le> PARTIAL_FILL_MIN_BPS then (share partial_max, g)
         else let range = partial_max - PARTIAL_FILL_MIN_BPS + 1; (x, g') = lcg_next nanos g
              in (share (PARTIAL_FILL_MIN_BPS + x mod range), g'))"

definition effective_price :: "'d exec_decimal \<Rightarrow> bool \<Rightarrow> 'd \<Rightarrow> u64 \<Rightarrow> 'd" where
  "effective_price D is_buy price slippage_bps =
     (let slippage = dec_div D (dec_from_int D (uint slippage_bps)) (dec_from_int D 10000); one = dec_from_int D 1
      in dec_mul D price (if is_buy then dec_add D one slippage else dec_sub D one slippage))"

text \<open>The exchange of a quantity for its value; nothing when the side that pays does not have enough.\<close>

definition settle :: "'d::linorder exec_decimal \<Rightarrow> bool \<Rightarrow> u16 \<Rightarrow> 'd \<Rightarrow> 'd \<Rightarrow> (u16 \<times> 'd) list \<Rightarrow> (u16 \<times> 'd) list option" where
  "settle D is_buy token qty value m =
     (if is_buy
      then (if balance_of D m 0 < value then None else Some (credit D token qty (debit D 0 value m)))
      else (if balance_of D m token < qty then None else Some (credit D 0 value (debit D token qty m))))"

definition simulate_fill ::
  "'d::linorder exec_decimal \<Rightarrow> i64 \<Rightarrow> u64 \<Rightarrow> u16 \<Rightarrow> u16 \<Rightarrow> string \<Rightarrow> 'd \<Rightarrow> 'd \<Rightarrow> bool \<Rightarrow> lcg_state \<Rightarrow> 'd paper_portfolio \<Rightarrow>
   'd paper_trade_record \<times> lcg_state \<times> 'd paper_portfolio" where
  "simulate_fill D ts nanos ex token symbol qty price is_buy g p =
     (let none = zeroed_record D ts ex token symbol is_buy; (rand_val, g1) = lcg_next nanos g
      in if pp_fill_probability p \<le> rand_val mod 100 then (none, g1, p)
         else let (actual_qty, g2) = partial_quantity D nanos (pp_partial_fill_max p) qty g1;
                  (slippage_bps, g3) = random_slippage_bps nanos g2;
                  eff_price = effective_price D is_buy price slippage_bps;
                  value = dec_mul D actual_qty eff_price
              in if MAX_ORDER_NOTIONAL_USD D < value then (none, g3, p)
                 else case settle D is_buy token actual_qty value (pp_balances p) of
                        None \<Rightarrow> (none, g3, p)
                      | Some m \<Rightarrow>
                          let rec = \<lparr>pt_timestamp = ts, pt_exchange = ex, pt_token = token, pt_symbol = symbol, pt_side = side_text is_buy,
                                     pt_qty = actual_qty, pt_price = eff_price, pt_total = value, pt_slippage_bps = slippage_bps\<rparr>
                          in (rec, g3, p\<lparr>pp_balances := m, pp_total_trades := pp_total_trades p + 1,
                                pp_total_pnl := decimal_to_cents D (dec_sub D (balance_of D m 0) (pp_initial_capital p)),
                                pp_history := pp_history p @ [rec]\<rparr>))"

definition paper_balance :: "'d exec_decimal \<Rightarrow> u16 \<Rightarrow> 'd paper_portfolio \<Rightarrow> 'd" where
  "paper_balance D t p = balance_of D (pp_balances p) t"

definition get_total_pnl :: "'d exec_decimal \<Rightarrow> 'd paper_portfolio \<Rightarrow> 'd" where
  "get_total_pnl D p = dec_sub D (balance_of D (pp_balances p) 0) (pp_initial_capital p)"

definition get_pnl_percentage :: "'d::linorder exec_decimal \<Rightarrow> 'd paper_portfolio \<Rightarrow> 'd" where
  "get_pnl_percentage D p =
     (if pp_initial_capital p \<le> dec_zero D then dec_zero D
      else dec_mul D (dec_div D (get_total_pnl D p) (pp_initial_capital p)) (dec_from_int D 100))"

definition paper_reset :: "'d exec_decimal \<Rightarrow> 'd paper_portfolio \<Rightarrow> 'd paper_portfolio" where
  "paper_reset D p =
     p\<lparr>pp_balances := initial_balances D (pp_initial_capital p), pp_total_trades := 0, pp_total_pnl := 0, pp_history := []\<rparr>"

section \<open>Runs\<close>

datatype 'd paper_op =
    Fill i64 u64 u16 u16 string 'd 'd bool
  | Allocate "u16 list" 'd
  | SetFillProbability u64
  | SetPartialFillMax u64
  | SetLatency u64
  | ResetPaper

fun paper_step :: "'d::linorder exec_decimal \<Rightarrow> lcg_state \<times> 'd paper_portfolio \<Rightarrow> 'd paper_op \<Rightarrow> lcg_state \<times> 'd paper_portfolio" where
  "paper_step D (g, p) (Fill ts nanos ex token symbol qty price is_buy) = snd (simulate_fill D ts nanos ex token symbol qty price is_buy g p)"
| "paper_step D (g, p) (Allocate tokens amount) = (g, snd (allocate_fx_tri_capital D tokens amount p))"
| "paper_step D (g, p) (SetFillProbability pct) = (g, set_fill_probability pct p)"
| "paper_step D (g, p) (SetPartialFillMax bps) = (g, set_partial_fill_max_pct bps p)"
| "paper_step D (g, p) (SetLatency us) = (g, set_simulated_latency_us us p)"
| "paper_step D (g, p) ResetPaper = (g, paper_reset D p)"

lemmas setter_defs = set_fill_probability_def set_partial_fill_max_pct_def set_simulated_latency_us_def paper_reset_def

text \<open>A fill changes nothing, or it settles what its record says.\<close>

lemma simulate_fill_cases:
  assumes "simulate_fill D ts nanos ex token symbol qty price is_buy g p = (r, g', p')"
  obtains (unchanged) "p' = p" "r = zeroed_record D ts ex token symbol is_buy"
  | (filled) actual m gs bps gt where "partial_quantity D nanos (pp_partial_fill_max p) qty gs = (actual, gt)" "pt_qty r = actual"
      "pt_price r = effective_price D is_buy price bps" "1 \<le> bps" "bps \<le> 5" "pt_total r = dec_mul D actual (pt_price r)" "pt_token r = token"
      "pt_side r = side_text is_buy" "pt_total r \<le> MAX_ORDER_NOTIONAL_USD D" "settle D is_buy token actual (pt_total r) (pp_balances p) = Some m"
      "p' = p\<lparr>pp_balances := m, pp_total_trades := pp_total_trades p + 1,
         pp_total_pnl := decimal_to_cents D (dec_sub D (balance_of D m 0) (pp_initial_capital p)), pp_history := pp_history p @ [r]\<rparr>"
proof -
  obtain x g1 where g1: "lcg_next nanos g = (x, g1)" by fastforce
  obtain actual g2 where g2: "partial_quantity D nanos (pp_partial_fill_max p) qty g1 = (actual, g2)" by fastforce
  obtain bps g3 where g3: "random_slippage_bps nanos g2 = (bps, g3)" by fastforce
  have bps: "1 \<le> bps" "bps \<le> 5"
  proof -
    obtain y where "bps = 1 + y mod 5" using g3 by (auto simp: random_slippage_bps_def Let_def split: prod.splits)
    moreover have "unat (y mod 5) < 5" by (simp add: unat_mod)
    ultimately have "unat bps = 1 + unat (y mod 5)" by (simp add: unat_plus_if')
    then show "1 \<le> bps" "bps \<le> 5" using \<open>unat (y mod 5) < 5\<close> by (simp_all add: word_le_nat_alt)
  qed
  let ?worth = "dec_mul D actual (effective_price D is_buy price bps)"
  show thesis
  proof (cases "pp_fill_probability p \<le> x mod 100 \<or> MAX_ORDER_NOTIONAL_USD D < ?worth \<or> settle D is_buy token actual ?worth (pp_balances p) = None")
    case True
    then have "p' = p \<and> r = zeroed_record D ts ex token symbol is_buy"
      using assms by (auto simp: simulate_fill_def g1 g2 g3 Let_def split: if_splits option.splits)
    then show thesis using unchanged by blast
  next
    case False
    then obtain m where "settle D is_buy token actual ?worth (pp_balances p) = Some m" by auto
    then show thesis using assms False
      by - (rule filled [OF g2 _ _ bps, of m], auto simp: simulate_fill_def g1 g2 g3 Let_def not_less split: if_splits option.splits)
  qed
qed

section \<open>The ledger as a specification\<close>

text \<open>
  The abstract ledger: what every token has, the trades that were made, the chance of a fill in percent, the largest share of a partial fill in basis points
  and the next number of the generator, none before the first draw.  The numbers of the generator are natural numbers.
\<close>

record 'd ledger =
  ld_balance :: "u16 \<Rightarrow> 'd"
  ld_trades :: "'d paper_trade_record list"
  ld_chance :: nat
  ld_share :: nat
  ld_seed :: "nat option"

definition gen_next :: "nat \<Rightarrow> nat" where
  "gen_next s = (1664525 * s + 1013904223) mod 2 ^ 32"

definition gen_start :: "nat option \<Rightarrow> u64 \<Rightarrow> nat" where
  "gen_start seed nanos = (case seed of None \<Rightarrow> unat nanos | Some s \<Rightarrow> s)"

definition draw :: "nat \<Rightarrow> nat \<Rightarrow> nat" where
  "draw start k = (gen_next ^^ k) start mod 2 ^ 32"

definition opening_balance :: "'d exec_decimal \<Rightarrow> 'd \<Rightarrow> u16 \<Rightarrow> 'd" where
  "opening_balance D capital =
     (\<lambda>_. dec_zero D)(0 := capital, 1 := dec_new D 10 1, 2 := dec_new D 100 1, 50 := dec_from_int D 150000, 51 := dec_from_int D 1000,
       52 := dec_from_int D 800, 53 := dec_from_int D 1500, 54 := dec_from_int D 1300)"

text \<open>A purchase takes its worth from the quote currency, which has the number zero, and adds the quantity to the token; a sale does the opposite.\<close>

definition exchanged :: "'d exec_decimal \<Rightarrow> bool \<Rightarrow> u16 \<Rightarrow> 'd \<Rightarrow> 'd \<Rightarrow> (u16 \<Rightarrow> 'd) \<Rightarrow> u16 \<Rightarrow> 'd" where
  "exchanged D is_buy token qty worth f =
     (if is_buy then let f' = f(0 := dec_sub D (f 0) worth) in f'(token := dec_add D (f' token) qty)
      else let f' = f(token := dec_sub D (f token) qty) in f'(0 := dec_add D (f' 0) worth))"

text \<open>
  A fill in the ledger.  The first number of the generator decides whether there is one.  Shares between a half and the whole are drawn with the second
  number; the slippage of one to five basis points against the trader is drawn with the last.  The fill takes place when it has not been rejected by
  chance, its worth is at most 100000 and the paying side covers it; otherwise only the generator moves on.
\<close>

definition ledger_fill :: "'d::linorder exec_decimal \<Rightarrow> i64 \<Rightarrow> u64 \<Rightarrow> u16 \<Rightarrow> u16 \<Rightarrow> string \<Rightarrow> 'd \<Rightarrow> 'd \<Rightarrow> bool \<Rightarrow> 'd ledger \<Rightarrow> 'd ledger" where
  "ledger_fill D ts nanos ex token symbol qty price is_buy l =
     (let start = gen_start (ld_seed l) nanos; split = (5000 < ld_share l \<and> ld_share l < 10000);
          bps = (if split then 5000 + draw start 1 mod (ld_share l - 4999) else ld_share l);
          q = (if 10000 \<le> ld_share l then qty else dec_div D (dec_mul D qty (dec_from_int D (int bps))) (dec_from_int D 10000));
          slip = 1 + draw start (if split then 2 else 1) mod 5;
          loss = dec_div D (dec_from_int D (int slip)) (dec_from_int D 10000);
          pr = dec_mul D price (if is_buy then dec_add D (dec_from_int D 1) loss else dec_sub D (dec_from_int D 1) loss);
          worth = dec_mul D q pr;
          lucky = (draw start 0 mod 100 < ld_chance l);
          fills = (lucky \<and> worth \<le> dec_from_int D 100000 \<and> (if is_buy then worth \<le> ld_balance l 0 else q \<le> ld_balance l token));
          l' = l\<lparr>ld_seed := Some ((gen_next ^^ (if \<not> lucky then 1 else if split then 3 else 2)) start)\<rparr>
      in if fills
         then l'\<lparr>ld_balance := exchanged D is_buy token q worth (ld_balance l),
                 ld_trades := ld_trades l @ [\<lparr>pt_timestamp = ts, pt_exchange = ex, pt_token = token, pt_symbol = symbol,
                   pt_side = (if is_buy then ''BUY'' else ''SELL''), pt_qty = q, pt_price = pr, pt_total = worth, pt_slippage_bps = of_nat slip\<rparr>]\<rparr>
         else l')"

fun ledger_step :: "'d::linorder exec_decimal \<Rightarrow> 'd \<Rightarrow> 'd ledger \<Rightarrow> 'd paper_op \<Rightarrow> 'd ledger" where
  "ledger_step D capital l (Fill ts nanos ex token symbol qty price is_buy) = ledger_fill D ts nanos ex token symbol qty price is_buy l"
| "ledger_step D capital l (SetFillProbability pct) = l\<lparr>ld_chance := min (unat pct) 100\<rparr>"
| "ledger_step D capital l (SetPartialFillMax bps) = l\<lparr>ld_share := min (unat bps) 10000\<rparr>"
| "ledger_step D capital l ResetPaper = l\<lparr>ld_balance := opening_balance D capital, ld_trades := []\<rparr>"
| "ledger_step D capital l (SetLatency us) = l"
| "ledger_step D capital l (Allocate tokens amount) = l"

text \<open>The ledger that a state of the simulator stands for.\<close>

definition seed_of :: "lcg_state \<Rightarrow> nat option" where
  "seed_of g = (if lcg_initialised g then Some (unat (lcg_value g)) else None)"

definition ledger_of :: "'d exec_decimal \<Rightarrow> lcg_state \<times> 'd paper_portfolio \<Rightarrow> 'd ledger" where
  "ledger_of D = (\<lambda>(g, p). \<lparr>ld_balance = balance_of D (pp_balances p), ld_trades = pp_history p, ld_chance = unat (pp_fill_probability p),
     ld_share = unat (pp_partial_fill_max p), ld_seed = seed_of g\<rparr>)"

lemma lcg_next_nat:
  assumes "lcg_next nanos g = (x, g')"
  shows "unat x = draw (gen_start (seed_of g) nanos) 0" "seed_of g' = Some (gen_next (gen_start (seed_of g) nanos))"
proof -
  define s where "s = (if lcg_initialised g then lcg_value g else nanos)"
  have s: "gen_start (seed_of g) nanos = unat s" by (simp add: gen_start_def seed_of_def s_def)
  have "x = take_bit 32 s" "g' = \<lparr>lcg_value = (1664525 * s + 1013904223) mod 2 ^ 32, lcg_initialised = True\<rparr>"
    using assms by (simp_all add: lcg_next_def Let_def s_def split: if_splits)
  moreover have "unat ((1664525 * s + 1013904223) mod 2 ^ 32) = (1664525 * unat s + 1013904223) mod 2 ^ 32"
  proof -
    have "1664525 * unat s mod 2 ^ 64 mod 2 ^ 32 = 1664525 * unat s mod 2 ^ 32" by (simp add: mod_mod_cancel)
    then have "(1664525 * unat s mod 2 ^ 64 + 1013904223) mod 2 ^ 32 = (1664525 * unat s + 1013904223) mod 2 ^ 32" by (rule mod_add_cong) simp
    then show ?thesis by (simp add: unat_mod unat_word_ariths mod_mod_cancel)
  qed
  ultimately show "unat x = draw (gen_start (seed_of g) nanos) 0" "seed_of g' = Some (gen_next (gen_start (seed_of g) nanos))"
    unfolding s by (simp_all add: draw_def gen_next_def seed_of_def unat_mod take_bit_eq_mod)
qed

lemma draw_Suc: "draw s (Suc k) = draw (gen_next s) k"
  by (simp add: draw_def funpow_swap1)

lemma gen_start_some [simp]: "gen_start (Some s) nanos = s"
  by (simp add: gen_start_def)

lemma slippage_nat:
  assumes "random_slippage_bps nanos g = (b, g')"
  shows "unat b = 1 + draw (gen_start (seed_of g) nanos) 0 mod 5" "seed_of g' = Some (gen_next (gen_start (seed_of g) nanos))"
proof -
  obtain x where x: "lcg_next nanos g = (x, g')" "b = 1 + x mod 5" using assms by (auto simp: random_slippage_bps_def Let_def split: prod.splits)
  have "unat (x mod 5) < 5" by (simp add: unat_mod)
  then have "unat b = 1 + unat x mod 5" using x(2) by (simp add: unat_plus_if' unat_mod)
  then show "unat b = 1 + draw (gen_start (seed_of g) nanos) 0 mod 5" "seed_of g' = Some (gen_next (gen_start (seed_of g) nanos))"
    using lcg_next_nat [OF x(1)] by simp_all
qed

lemma share_word:
  fixes x pmax :: u64
  assumes "5000 < unat pmax" "unat pmax < 10000"
  shows "uint (5000 + x mod (pmax - 4999)) = int (5000 + unat x mod (unat pmax - 4999))"
proof -
  define y where "y = x mod (pmax - 4999)"
  have "4999 \<le> pmax" using assms by (simp add: word_le_nat_alt)
  then have r: "unat y = unat x mod (unat pmax - 4999)" by (simp add: y_def unat_mod unat_sub)
  have "unat y < unat pmax - 4999" unfolding r by (rule mod_less_divisor) (use assms(1) in simp)
  then have "unat (5000 + y) = 5000 + unat y" using assms(2) by (simp add: unat_plus_if')
  then show ?thesis unfolding y_def [symmetric] r [symmetric] by (simp only: uint_nat)
qed

lemma partial_nat:
  assumes "partial_quantity D nanos pmax qty g = (q, g')" "seed_of g = Some s"
  shows "let share = unat pmax; split = (5000 < share \<and> share < 10000); bps = (if split then 5000 + draw s 0 mod (share - 4999) else share)
    in q = (if 10000 \<le> share then qty else dec_div D (dec_mul D qty (dec_from_int D (int bps))) (dec_from_int D 10000)) \<and>
       seed_of g' = Some (if split then gen_next s else s)"
proof (cases "5000 < unat pmax \<and> unat pmax < 10000")
  case True
  then have c: "\<not> 10000 \<le> pmax" "\<not> pmax \<le> 5000" by (simp_all add: word_le_nat_alt)
  obtain x g1 where x: "lcg_next nanos g = (x, g1)" by fastforce
  have "q = dec_div D (dec_mul D qty (dec_from_int D (uint (5000 + x mod (pmax - 4999))))) (dec_from_int D 10000)" "g' = g1"
    using assms(1) c x by (simp_all add: partial_quantity_def Let_def)
  moreover have "unat x = draw s 0" "seed_of g1 = Some (gen_next s)" using lcg_next_nat [OF x] assms(2) by simp_all
  ultimately show ?thesis using True share_word [of pmax x] by (simp add: Let_def)
next
  case False
  show ?thesis
  proof (cases "10000 \<le> pmax")
    case True
    then have "10000 \<le> unat pmax" by (simp add: word_le_nat_alt)
    moreover have "q = qty" "g' = g" using assms(1) True by (simp_all add: partial_quantity_def Let_def)
    ultimately show ?thesis using assms(2) by (simp add: Let_def)
  next
    case below: False
    then have n: "unat pmax < 10000" by (simp add: word_le_nat_alt)
    with False have "pmax \<le> 5000" by (simp add: word_le_nat_alt)
    then have "q = dec_div D (dec_mul D qty (dec_from_int D (int (unat pmax)))) (dec_from_int D 10000)" "g' = g"
      using assms(1) below by (simp_all add: partial_quantity_def Let_def)
    with n False assms(2) show ?thesis by (simp add: Let_def)
  qed
qed

lemma balance_updates:
  "balance_of D (credit D t x m) = (balance_of D m)(t := dec_add D (balance_of D m t) x)"
  "balance_of D (debit D t x m) = (balance_of D m)(t := dec_sub D (balance_of D m t) x)"
  by (auto simp: credit_def debit_def balance_of_def map_of_hm_insert)

lemma settle_None: "settle D is_buy token qty v m = None \<longleftrightarrow> \<not> (if is_buy then v \<le> balance_of D m 0 else qty \<le> balance_of D m token)"
  by (simp add: settle_def not_le)

lemma settle_Some: "settle D is_buy token qty v m = Some m' \<Longrightarrow> balance_of D m' = exchanged D is_buy token qty v (balance_of D m)"
  by (auto simp: settle_def exchanged_def balance_updates split: if_splits)

lemma fill_refines:
  "ledger_of D (snd (simulate_fill D ts nanos ex token symbol qty price is_buy g p)) = ledger_fill D ts nanos ex token symbol qty price is_buy (ledger_of D (g, p))"
proof -
  obtain x g1 where g1: "lcg_next nanos g = (x, g1)" by fastforce
  obtain actual g2 where g2: "partial_quantity D nanos (pp_partial_fill_max p) qty g1 = (actual, g2)" by fastforce
  obtain slip g3 where g3: "random_slippage_bps nanos g2 = (slip, g3)" by fastforce
  define start where "start = gen_start (seed_of g) nanos"
  define several where "several \<longleftrightarrow> 5000 < unat (pp_partial_fill_max p) \<and> unat (pp_partial_fill_max p) < 10000"
  have s1: "unat x = draw start 0" "seed_of g1 = Some (gen_next start)" using lcg_next_nat [OF g1] by (simp_all add: start_def)
  note q = partial_nat [OF g2 s1(2), unfolded Let_def, folded several_def]
  have actual: "actual = (if 10000 \<le> unat (pp_partial_fill_max p) then qty
      else dec_div D (dec_mul D qty (dec_from_int D (int (if several then 5000 + draw start 1 mod (unat (pp_partial_fill_max p) - 4999)
        else unat (pp_partial_fill_max p))))) (dec_from_int D 10000))"
    using q [THEN conjunct1] draw_Suc [of start 0] by simp
  have s2: "seed_of g2 = Some ((gen_next ^^ (if several then 2 else 1)) start)" using q by (simp add: numeral_2_eq_2)
  have s3: "seed_of g3 = Some ((gen_next ^^ (if several then 3 else 2)) start)"
    using slippage_nat(2) [OF g3] s2 by (simp add: numeral_2_eq_2 numeral_3_eq_3)
  have b: "unat slip = 1 + draw start (if several then 2 else 1) mod 5"
    using slippage_nat(1) [OF g3] s2 by (simp add: draw_def numeral_2_eq_2)
  have lucky: "pp_fill_probability p \<le> x mod 100 \<longleftrightarrow> \<not> draw start 0 mod 100 < unat (pp_fill_probability p)"
    by (simp add: word_le_nat_alt unat_mod s1(1) not_less)
  have slip: "uint slip = int (1 + draw start (if several then 2 else 1) mod 5)" "slip = of_nat (1 + draw start (if several then 2 else 1) mod 5)"
    unfolding b [symmetric] by simp_all
  have pr: "effective_price D is_buy price slip =
      (let loss = dec_div D (dec_from_int D (int (1 + draw start (if several then 2 else 1) mod 5))) (dec_from_int D 10000)
       in dec_mul D price (if is_buy then dec_add D (dec_from_int D 1) loss else dec_sub D (dec_from_int D 1) loss))"
    unfolding effective_price_def slip(1) Let_def ..
  let ?l = "ledger_of D (g, p)" and ?v = "dec_mul D actual (effective_price D is_buy price slip)"
  have l: "gen_start (ld_seed ?l) nanos = start" "ld_share ?l = unat (pp_partial_fill_max p)" "ld_chance ?l = unat (pp_fill_probability p)"
    "ld_balance ?l = balance_of D (pp_balances p)" "ld_trades ?l = pp_history p"
    by (simp_all add: ledger_of_def start_def)
  have spec: "ledger_fill D ts nanos ex token symbol qty price is_buy ?l =
     (let lucky = (draw start 0 mod 100 < unat (pp_fill_probability p));
          l' = ?l\<lparr>ld_seed := Some ((gen_next ^^ (if \<not> lucky then 1 else if several then 3 else 2)) start)\<rparr>
      in if lucky \<and> ?v \<le> dec_from_int D 100000 \<and> (if is_buy then ?v \<le> balance_of D (pp_balances p) 0 else actual \<le> balance_of D (pp_balances p) token)
         then l'\<lparr>ld_balance := exchanged D is_buy token actual ?v (balance_of D (pp_balances p)),
                 ld_trades := pp_history p @ [\<lparr>pt_timestamp = ts, pt_exchange = ex, pt_token = token, pt_symbol = symbol,
                   pt_side = (if is_buy then ''BUY'' else ''SELL''), pt_qty = actual, pt_price = effective_price D is_buy price slip, pt_total = ?v, pt_slippage_bps = slip\<rparr>]\<rparr>
         else l')"
    unfolding ledger_fill_def l several_def [symmetric] Let_def pr slip(2) [symmetric] actual [symmetric] ..
  consider (unlucky) "pp_fill_probability p \<le> x mod 100" | (large) "\<not> pp_fill_probability p \<le> x mod 100" "dec_from_int D 100000 < ?v"
    | (uncovered) "\<not> pp_fill_probability p \<le> x mod 100" "\<not> dec_from_int D 100000 < ?v" "settle D is_buy token actual ?v (pp_balances p) = None"
    | (filled) m where "\<not> pp_fill_probability p \<le> x mod 100" "\<not> dec_from_int D 100000 < ?v" "settle D is_buy token actual ?v (pp_balances p) = Some m"
    by fastforce
  then show ?thesis
  proof cases
    case unlucky
    then show ?thesis unfolding spec lucky using s1(2) by (simp add: simulate_fill_def g1 Let_def lucky ledger_of_def)
  next
    case large
    then show ?thesis unfolding spec lucky
      using s3 by (auto simp: simulate_fill_def g1 g2 g3 Let_def lucky ledger_of_def MAX_ORDER_NOTIONAL_USD_def)
  next
    case uncovered
    then have "\<not> (if is_buy then ?v \<le> balance_of D (pp_balances p) 0 else actual \<le> balance_of D (pp_balances p) token)"
      unfolding settle_None by simp
    with uncovered show ?thesis unfolding spec lucky
      using s3 by (simp add: simulate_fill_def g1 g2 g3 Let_def lucky ledger_of_def MAX_ORDER_NOTIONAL_USD_def)
  next
    case filled
    then have "if is_buy then ?v \<le> balance_of D (pp_balances p) 0 else actual \<le> balance_of D (pp_balances p) token"
      using settle_None [of D is_buy token actual ?v "pp_balances p"] by simp
    with filled show ?thesis unfolding spec lucky
      using s3 settle_Some [OF filled(3)]
      by (cases is_buy) (simp_all add: simulate_fill_def g1 g2 g3 Let_def lucky ledger_of_def MAX_ORDER_NOTIONAL_USD_def side_text_def not_less)
  qed
qed

lemma step_refines:
  assumes "\<forall>tokens amount. op \<noteq> Allocate tokens amount" "pp_initial_capital p = capital"
  shows "ledger_of D (paper_step D (g, p) op) = ledger_step D capital (ledger_of D (g, p)) op"
proof (cases op)
  case (Fill ts nanos ex token symbol qty price is_buy)
  then show ?thesis by (simp add: fill_refines)
next
  case ResetPaper
  have "balance_of D (initial_balances D capital) = opening_balance D capital"
    by (auto simp: balance_of_def initial_balances_def opening_balance_def)
  then show ?thesis using ResetPaper assms(2) by (simp add: ledger_of_def paper_reset_def)
qed (use assms(1) in \<open>auto simp: ledger_of_def setter_defs min_def word_le_nat_alt\<close>)

text \<open>The cents of an amount: its hundredfold, rounded to a whole number that the package shows as such, or the nearest 64-bit number when it is too large.\<close>

definition int_text :: "int \<Rightarrow> string" where
  "int_text z = (if z < 0 then ''-'' else []) @ digits_of (nat \<bar>z\<bar>)"

definition cents_of :: "'d::linorder exec_decimal \<Rightarrow> 'd \<Rightarrow> int \<Rightarrow> bool" where
  "cents_of D x c \<longleftrightarrow>
     (\<forall>z. dec_to_string D (dec_round D (dec_mul D x (dec_from_int D 100))) = int_text z \<longrightarrow>
        c = (if - (2 ^ 63) \<le> z \<and> z < 2 ^ 63 then z else if dec_zero D < x then 2 ^ 63 - 1 else - (2 ^ 63)))"

lemma parse_int_text: "parse_i64 (int_text z) = (if - (2 ^ 63) \<le> z \<and> z < 2 ^ 63 then Some (word_of_int z) else None)"
proof -
  have "parse_digits acc ds = Some (foldl (\<lambda>acc ch. 10 * acc + (of_char ch - 48)) acc ds)" if "set ds \<subseteq> set ''0123456789''" for acc ds
    using that by (induction ds arbitrary: acc) (auto simp: digit_value_def)
  then have p: "parse_digits 0 (digits_of n) = Some n" for n
    using digits_of_digits [of n] digits_value_of [of n] by (simp add: digits_value_def)
  have "digits_of n \<noteq> []" for n by (subst digits_of.simps) simp
  then obtain d ds where d: "digits_of (nat \<bar>z\<bar>) = d # ds" by (metis list.exhaust)
  have "d \<in> set ''0123456789''" using digits_of_digits [of "nat \<bar>z\<bar>"] d by auto
  then have "d \<noteq> CHR ''-''" "d \<noteq> CHR ''+''" by auto
  then show ?thesis using p [of "nat \<bar>z\<bar>"] d by (auto simp: parse_i64_def int_text_def)
qed

lemma decimal_to_cents_exact: "cents_of D x (sint (decimal_to_cents D x))"
  by (auto simp: cents_of_def decimal_to_cents_def parse_int_text sint_word_of_int_id)

text \<open>The profit that is stored: zero before the first trade, then that of the quote balance over the capital.\<close>

definition profit_ok :: "'d::linorder exec_decimal \<Rightarrow> 'd \<Rightarrow> 'd paper_portfolio \<Rightarrow> bool" where
  "profit_ok D capital p \<longleftrightarrow> pp_initial_capital p = capital \<and> pp_total_trades p = of_nat (length (pp_history p)) \<and>
     (if pp_history p = [] then pp_total_pnl p = 0 else pp_total_pnl p = decimal_to_cents D (dec_sub D (balance_of D (pp_balances p) 0) capital))"

lemma profit_step:
  assumes "profit_ok D capital p" "\<forall>tokens amount. op \<noteq> Allocate tokens amount"
  shows "profit_ok D capital (snd (paper_step D (g, p) op))"
proof (cases op)
  case (Fill ts nanos ex token symbol qty price is_buy)
  obtain r g' p' where f: "simulate_fill D ts nanos ex token symbol qty price is_buy g p = (r, g', p')" by (metis prod_cases3)
  from f show ?thesis by (cases rule: simulate_fill_cases) (use assms(1) Fill f in \<open>simp_all add: profit_ok_def\<close>)
qed (use assms in \<open>auto simp: profit_ok_def setter_defs\<close>)

text \<open>
  C36: The simulator of paper trades refines a ledger.  After any calls other than an allocation, the balances and the history of the portfolio, its
  settings and the generator are exactly those of the ledger on which every call does what it should: a fill draws its chance, share and slippage from the
  generator of natural numbers; it takes place exactly when it was not rejected by chance, its worth is at most 100000 and the paying side covers it, and
  then it moves the quantity and its worth between the token and the quote currency and adds one record to the history.  A fill that was rejected, is too large or is not covered
  leaves no trace but the moved generator; a reset restores the initial balances and clears the history.  The counter of trades is the length of the history, modulo 64 bits.  The stored
  profit is zero while the history is empty, and otherwise the quote balance less the initial capital in cents, cut off at the limits of a 64-bit number.
\<close>

theorem paper_ledger_exact:
  assumes "paper_portfolio_new D capital = Some p0" "\<forall>op \<in> set ops. \<forall>tokens amount. op \<noteq> Allocate tokens amount"
    "foldl (paper_step D) (g0, p0) ops = (g, p)"
  shows "let l = foldl (ledger_step D capital)
           \<lparr>ld_balance = opening_balance D capital, ld_trades = [], ld_chance = 95, ld_share = 9500, ld_seed = seed_of g0\<rparr> ops
    in (\<lambda>t. paper_balance D t p) = ld_balance l \<and> pp_history p = ld_trades l \<and> unat (pp_fill_probability p) = ld_chance l \<and>
       unat (pp_partial_fill_max p) = ld_share l \<and> seed_of g = ld_seed l \<and>
       unat (pp_total_trades p) = length (ld_trades l) mod 2 ^ 64 \<and>
       (if ld_trades l = [] then pp_total_pnl p = 0 else cents_of D (dec_sub D (ld_balance l 0) capital) (sint (pp_total_pnl p)))"
proof -
  let ?l0 = "\<lparr>ld_balance = opening_balance D capital, ld_trades = [], ld_chance = 95, ld_share = 9500, ld_seed = seed_of g0\<rparr>"
  have run: "ledger_of D (foldl (paper_step D) s ops) = foldl (ledger_step D capital) (ledger_of D s) ops \<and> profit_ok D capital (snd (foldl (paper_step D) s ops))"
    if "profit_ok D capital (snd s)" for s
    using that assms(2)
  proof (induction ops arbitrary: s)
    case (Cons op ops)
    then show ?case using step_refines [of op "snd s" capital D "fst s"] profit_step [of D capital "snd s" op "fst s"] by (simp add: profit_ok_def)
  qed simp
  have "balance_of D (initial_balances D capital) = opening_balance D capital"
    by (auto simp: balance_of_def initial_balances_def opening_balance_def)
  then have "ledger_of D (g0, p0) = ?l0" "profit_ok D capital p0"
    using assms(1) by (auto simp: paper_portfolio_new_def ledger_of_def profit_ok_def split: if_splits)
  with run [of "(g0, p0)"] assms(3) have l: "ledger_of D (g, p) = foldl (ledger_step D capital) ?l0 ops" "profit_ok D capital p" by simp_all
  show ?thesis unfolding l(1) [symmetric] Let_def
    using l(2) decimal_to_cents_exact [of D "dec_sub D (balance_of D (pp_balances p) 0) capital"]
    by (auto simp: ledger_of_def profit_ok_def paper_balance_def unat_of_nat)
qed

theorem paper_ledger_exact_witness:
  "\<exists>p0 g p. paper_portfolio_new int_exec 1000 = Some p0 \<and>
     foldl (paper_step int_exec) (lcg_init, p0) [SetPartialFillMax 10000, Fill 1 7 0 9 ''ETHUSDT'' 2 100 True, Fill 2 8 0 9 ''ETHUSDT'' 50 100 True] = (g, p) \<and>
     paper_balance int_exec 0 p = 800 \<and> paper_balance int_exec 9 p = 2 \<and> length (pp_history p) = 1"
proof -
  let ?ops = "[SetPartialFillMax 10000, Fill 1 7 0 9 ''ETHUSDT'' 2 100 True, Fill 2 8 0 9 ''ETHUSDT'' 50 100 True]"
  let ?l = "foldl (ledger_step int_exec 1000) \<lparr>ld_balance = opening_balance int_exec 1000, ld_trades = [], ld_chance = 95, ld_share = 9500, ld_seed = seed_of lcg_init\<rparr> ?ops"
  obtain p0 where p0: "paper_portfolio_new int_exec 1000 = Some p0" by (simp add: paper_portfolio_new_def int_exec_def)
  obtain g p where run: "foldl (paper_step int_exec) (lcg_init, p0) ?ops = (g, p)" by fastforce
  have twice: "(gen_next ^^ 2) s = gen_next (gen_next s)" for s by (simp add: numeral_2_eq_2)
  have l: "ld_balance ?l 0 = 800 \<and> ld_balance ?l 9 = 2 \<and> length (ld_trades ?l) = 1"
    by (simp add: ledger_fill_def opening_balance_def exchanged_def gen_start_def seed_of_def lcg_init_def draw_def gen_next_def int_exec_def twice Let_def)
  have "(\<lambda>t. paper_balance int_exec t p) = ld_balance ?l" "pp_history p = ld_trades ?l"
    using paper_ledger_exact [OF p0 _ run] by (auto simp: Let_def)
  then have "paper_balance int_exec 0 p = 800 \<and> paper_balance int_exec 9 p = 2 \<and> length (pp_history p) = 1" using l by (simp add: fun_eq_iff)
  with p0 run show ?thesis by blast
qed

section \<open>No debts\<close>

text \<open>What is used of the division: it keeps the sign, and a quotient of a smaller by a larger number is at most one.\<close>

definition tame_division :: "'d::linordered_idom exec_decimal \<Rightarrow> bool" where
  "tame_division D \<longleftrightarrow> exact_numbers D \<and> (\<forall>x y. 0 \<le> x \<and> 0 < y \<longrightarrow> 0 \<le> dec_div D x y) \<and> (\<forall>x y. 0 \<le> x \<and> x \<le> y \<and> 0 < y \<longrightarrow> dec_div D x y \<le> 1) \<and>
     (\<forall>m e. 0 \<le> m \<longrightarrow> 0 \<le> dec_new D m e)"

definition no_debts :: "'d::linordered_idom exec_decimal \<Rightarrow> (u16 \<times> 'd) list \<Rightarrow> bool" where
  "no_debts D m \<longleftrightarrow> (\<forall>t. 0 \<le> balance_of D m t)"

lemma balance_after:
  "balance_of D (credit D t x m) u = (if u = t then dec_add D (balance_of D m t) x else balance_of D m u)"
  "balance_of D (debit D t x m) u = (if u = t then dec_sub D (balance_of D m t) x else balance_of D m u)"
  by (simp_all add: balance_updates)

lemma no_debts_credit: "exact_numbers D \<Longrightarrow> no_debts D m \<Longrightarrow> 0 \<le> x \<Longrightarrow> no_debts D (credit D t x m)"
  by (simp add: no_debts_def balance_after exact_numbersD)

lemma no_debts_debit: "exact_numbers D \<Longrightarrow> no_debts D m \<Longrightarrow> x \<le> balance_of D m t \<Longrightarrow> no_debts D (debit D t x m)"
  by (simp add: no_debts_def balance_after exact_numbersD)

lemma settle_no_debts:
  "exact_numbers D \<Longrightarrow> no_debts D m \<Longrightarrow> 0 \<le> qty \<Longrightarrow> 0 \<le> value \<Longrightarrow> settle D is_buy token qty value m = Some m' \<Longrightarrow> no_debts D m'"
  by (auto simp: settle_def not_less split: if_splits intro!: no_debts_credit no_debts_debit)

lemma allocate_no_debts: "exact_numbers D \<Longrightarrow> no_debts D m \<Longrightarrow> no_debts D (snd (allocate_loop D amount ts m))"
proof (induction D amount ts m rule: allocate_loop.induct)
  case (2 D amount t ts m)
  let ?s = "dec_sub D amount (balance_of D m t)"
  show ?case
  proof (cases "balance_of D m t < amount \<and> \<not> balance_of D m 0 < ?s")
    case True
    then have "no_debts D (credit D t ?s (if map_of m 0 = None then m else debit D 0 ?s m))"
      using "2.prems" by (auto intro!: no_debts_credit no_debts_debit simp: exact_numbersD)
    then show ?thesis using "2.IH"(1) [OF refl _ refl] True "2.prems"(1) by (simp add: Let_def del: if_split)
  next
    case False
    then show ?thesis using "2.IH"(2) [OF refl] "2.prems" by (auto simp: Let_def)
  qed
qed simp

lemma unsigned_nonneg [simp]: "0 \<le> (unsigned (w :: 'w::len word) :: 'a::linordered_idom)"
  using of_int_0_le_iff [of "uint w", where 'a = 'a] by simp

lemma partial_quantity_nonneg:
  assumes "tame_division D" "0 \<le> qty" "partial_quantity D nanos pmax qty g = (actual, g')"
  shows "0 \<le> actual"
proof -
  have D: "exact_numbers D" "\<And>x y. 0 \<le> x \<Longrightarrow> 0 < y \<Longrightarrow> 0 \<le> dec_div D x y" using assms(1) by (auto simp: tame_division_def)
  have "0 \<le> dec_div D (dec_mul D qty (dec_from_int D (uint bps))) (dec_from_int D 10000)" for bps :: u64
    using assms(2) by (intro D(2)) (simp_all add: exact_numbersD [OF D(1)])
  then show ?thesis using assms(2,3) by (auto simp: partial_quantity_def Let_def split: if_splits prod.splits)
qed

lemma effective_price_nonneg:
  assumes "tame_division D" "0 \<le> price" "bps \<le> 5"
  shows "0 \<le> effective_price D is_buy price bps"
proof -
  have D: "exact_numbers D" using assms(1) by (simp add: tame_division_def)
  have "uint bps \<le> 5" using assms(3) by (simp add: word_le_def)
  then have "(of_int (uint bps) :: 'a) \<le> of_int 10000" by (simp only: of_int_le_iff)
  then have "0 \<le> dec_div D (of_int (uint bps)) 10000" "dec_div D (of_int (uint bps)) 10000 \<le> 1"
    using assms(1) by (simp_all add: tame_division_def)
  then show ?thesis using assms(2) D by (simp add: effective_price_def Let_def exact_numbersD)
qed

fun op_nonneg :: "'d::linordered_idom paper_op \<Rightarrow> bool" where
  "op_nonneg (Fill ts nanos ex token symbol qty price is_buy) \<longleftrightarrow> 0 \<le> qty \<and> 0 \<le> price"
| "op_nonneg _ \<longleftrightarrow> True"

lemma initial_no_debts: "tame_division D \<Longrightarrow> 0 \<le> capital \<Longrightarrow> no_debts D (initial_balances D capital)"
  by (auto simp: no_debts_def balance_of_def initial_balances_def tame_division_def exact_numbersD)

lemma no_debts_step:
  assumes "tame_division D" "no_debts D (pp_balances p)" "0 \<le> pp_initial_capital p" "op_nonneg op"
  shows "no_debts D (pp_balances (snd (paper_step D (g, p) op))) \<and> pp_initial_capital (snd (paper_step D (g, p) op)) = pp_initial_capital p"
proof (cases op)
  case (Fill ts nanos ex token symbol qty price is_buy)
  have D: "exact_numbers D" using assms(1) by (simp add: tame_division_def)
  obtain r g' p' where f: "simulate_fill D ts nanos ex token symbol qty price is_buy g p = (r, g', p')" by (metis prod_cases3)
  from f show ?thesis
  proof (cases rule: simulate_fill_cases)
    case unchanged
    then show ?thesis using assms(2) Fill f by simp
  next
    case (filled actual m gs bps gt)
    have "0 \<le> actual" "0 \<le> pt_price r"
      using partial_quantity_nonneg [OF assms(1) _ filled(1)] effective_price_nonneg [OF assms(1) _ filled(5)] assms(4) Fill filled(3) by simp_all
    then have "no_debts D m" using settle_no_debts [OF D assms(2) _ _ filled(10)] filled(6) D by (simp add: exact_numbersD)
    then show ?thesis using Fill f filled by simp
  qed
next
  case (Allocate tokens amount)
  have "exact_numbers D" using assms(1) by (simp add: tame_division_def)
  from allocate_no_debts [OF this assms(2), of amount tokens] show ?thesis
    using Allocate by (cases "allocate_loop D amount tokens (pp_balances p)") (simp add: allocate_fx_tri_capital_def)
qed (use assms initial_no_debts in \<open>simp_all add: setter_defs\<close>)

text \<open>
  No balance of the simulator becomes negative: whatever fills, allocations and resets are made, in any order and with any outcomes of chance, as long as
  the quantities and prices that are asked for are not negative.
\<close>

theorem paper_balances_nonneg:
  fixes D :: "'d::linordered_idom exec_decimal"
  assumes "tame_division D" "paper_portfolio_new D capital = Some p0" "list_all op_nonneg ops" "foldl (paper_step D) (g0, p0) ops = (g, p)"
  shows "0 \<le> paper_balance D t p"
proof -
  have "no_debts D (pp_balances (snd (foldl (paper_step D) s ops)))" if "no_debts D (pp_balances (snd s))" "0 \<le> pp_initial_capital (snd s)" for s
    using that assms(3)
  proof (induction ops arbitrary: s)
    case (Cons op ops)
    then show ?case using no_debts_step [OF assms(1), of "snd s" op "fst s"] by simp
  qed simp
  moreover have "no_debts D (pp_balances p0) \<and> 0 \<le> pp_initial_capital p0"
  proof -
    have "0 < capital" using assms(1,2) by (auto simp: paper_portfolio_new_def tame_division_def exact_numbersD not_le split: if_splits)
    then show ?thesis using assms(2) initial_no_debts [OF assms(1), of capital] by (auto simp: paper_portfolio_new_def split: if_splits)
  qed
  ultimately have "no_debts D (pp_balances (snd (foldl (paper_step D) (g0, p0) ops)))" by simp
  then show ?thesis using assms(4) by (simp add: paper_balance_def no_debts_def)
qed

lemma int_exec_tame: "tame_division int_exec"
proof -
  have ops: "dec_div int_exec = (div)" "dec_new int_exec = (\<lambda>m e. m div 10 ^ e)" by (auto simp: int_exec_def)
  have "x div y \<le> 1" if "0 \<le> x" "x \<le> y" "0 < y" for x y :: int using zdiv_mono1 [OF that(2,3)] that(3) by simp
  then show ?thesis using int_exec_exact by (auto simp: tame_division_def ops pos_imp_zdiv_nonneg_iff)
qed

theorem paper_balances_nonneg_witness:
  "\<exists>p0 g p. paper_portfolio_new int_exec 1000 = Some p0 \<and>
     foldl (paper_step int_exec) (lcg_init, p0) [Allocate [60] 10, Fill 1 7 0 9 ''ETHUSDT'' 2 100 True] = (g, p) \<and> 0 \<le> paper_balance int_exec 0 p"
proof -
  obtain p0 where p0: "paper_portfolio_new int_exec 1000 = Some p0" by (simp add: paper_portfolio_new_def int_exec_def)
  obtain g p where run: "foldl (paper_step int_exec) (lcg_init, p0) [Allocate [60] 10, Fill 1 7 0 9 ''ETHUSDT'' 2 100 True] = (g, p)" by fastforce
  show ?thesis using paper_balances_nonneg [OF int_exec_tame p0 _ run, of 0] p0 run by auto
qed

section \<open>What the simulator gets wrong\<close>

text \<open>
  An allocation that fails keeps the fundings it has made before.  A quantity is not checked: a purchase of a negative one adds to the quote balance.  The
  largest share of a partial fill is included, against the half-open interval of the documentation.
\<close>

lemma failed_allocation_keeps_fundings:
  "allocate_loop int_exec 600 [60, 61] (initial_balances int_exec 1000) = (Inl 61, credit int_exec 60 600 (debit int_exec 0 600 (initial_balances int_exec 1000)))"
  by (simp add: initial_balances_def balance_of_def credit_def debit_def int_exec_def Let_def)

lemma negative_purchase_mints:
  fixes D :: "'d::linordered_idom exec_decimal"
  assumes "exact_numbers D" "0 \<le> balance_of D m 0" "value < 0" "token \<noteq> 0"
  shows "\<exists>m'. settle D True token qty value m = Some m' \<and> balance_of D m' 0 > balance_of D m 0"
  using assms by (simp add: settle_def balance_after exact_numbersD)

lemma partial_fill_reaches_maximum: "fst (partial_quantity D 4500 9500 qty lcg_init) = dec_div D (dec_mul D qty (dec_from_int D 9500)) (dec_from_int D 10000)"
  by (simp add: partial_quantity_def lcg_next_def lcg_init_def Let_def take_bit_eq_mod)

end
