(* ===== verification/Rebalance_Matrix.thy ===== *)
theory Rebalance_Matrix
  imports Decimal_Api
begin

text \<open>
  The engine of \<^verbatim>\<open>src/src/rebalance_matrix.rs\<close>, which watches how the capital is split between two exchanges and plans transfers.  Both of its
  questions are cached under a hash of the balances; the bytes of a decimal, over which the hash is taken, are an argument.
\<close>

unbundle bit_operations_syntax

abbreviation STATE_BALANCED :: "8 word" where "STATE_BALANCED \<equiv> 0"
abbreviation STATE_IMBALANCED :: "8 word" where "STATE_IMBALANCED \<equiv> 1"
abbreviation STATE_REBALANCING :: "8 word" where "STATE_REBALANCING \<equiv> 2"
abbreviation STATE_ERROR :: "8 word" where "STATE_ERROR \<equiv> 3"
abbreviation DEFAULT_MIN_INTERVAL_SECS :: i64 where "DEFAULT_MIN_INTERVAL_SECS \<equiv> 5"

record 'd account_inventory =
  stable_x :: 'd
  stable_y :: 'd

definition total_stable :: "'d exec_decimal \<Rightarrow> 'd account_inventory \<Rightarrow> 'd" where
  "total_stable D acc = dec_add D (stable_x acc) (stable_y acc)"

definition ratio_x :: "'d::linorder exec_decimal \<Rightarrow> 'd account_inventory \<Rightarrow> 'd" where
  "ratio_x D acc = (let total = total_stable D acc in if dec_zero D < total then dec_div D (stable_x acc) total else dec_zero D)"

definition ratio_y :: "'d::linorder exec_decimal \<Rightarrow> 'd account_inventory \<Rightarrow> 'd" where
  "ratio_y D acc =
     (let total = total_stable D acc
      in if dec_zero D < total then dec_sub D (dec_from_int D 1) (dec_div D (stable_x acc) total) else dec_zero D)"

record 'd rebalance_action =
  ra_amount :: 'd
  ra_from :: u16
  ra_to :: u16
  ra_fee :: 'd
  ra_imbalance :: 'd
  ra_target :: 'd

definition fnv_bytes :: "u64 \<Rightarrow> 8 word list \<Rightarrow> u64" where
  "fnv_bytes h bytes = foldl (\<lambda>h b. (h XOR ucast b) * 0x100000001b3) h bytes"

definition hash_balances :: "('d \<Rightarrow> 8 word list) \<Rightarrow> 'd \<Rightarrow> 'd \<Rightarrow> u64" where
  "hash_balances ser b_x b_y = fnv_bytes (fnv_bytes 0xcbf29ce484222325 (ser b_x)) (ser b_y)"

definition hash_compute_input :: "('d \<Rightarrow> 8 word list) \<Rightarrow> 'd \<Rightarrow> 'd \<Rightarrow> u16 \<Rightarrow> u16 \<Rightarrow> u64" where
  "hash_compute_input ser b_x b_y from_ex to_ex = hash_balances ser b_x b_y XOR push_bit 32 (ucast from_ex) XOR ucast to_ex"

record 'd matrix_engine =
  me_state :: "8 word"
  me_max_ratio :: 'd
  me_fee :: 'd
  me_min_transfer :: 'd
  me_audit_hash :: u64
  me_audit_result :: bool
  me_compute_hash :: u64
  me_compute_result :: "'d rebalance_action option"
  me_compute_time :: i64
  me_min_interval :: i64

definition matrix_engine_new :: "'d \<Rightarrow> 'd \<Rightarrow> 'd \<Rightarrow> 'd matrix_engine" where
  "matrix_engine_new threshold fee min_transfer =
     \<lparr>me_state = STATE_BALANCED, me_max_ratio = threshold, me_fee = fee, me_min_transfer = min_transfer, me_audit_hash = 0, me_audit_result = False,
      me_compute_hash = 0, me_compute_result = None, me_compute_time = 0, me_min_interval = DEFAULT_MIN_INTERVAL_SECS\<rparr>"

definition with_min_interval :: "i64 \<Rightarrow> 'd matrix_engine \<Rightarrow> 'd matrix_engine" where
  "with_min_interval secs e = e\<lparr>me_min_interval := secs\<rparr>"

definition set_engine_state :: "8 word \<Rightarrow> 'd matrix_engine \<Rightarrow> 'd matrix_engine" where
  "set_engine_state st e = e\<lparr>me_state := st\<rparr>"

definition needs_rebalance :: "'d::linorder exec_decimal \<Rightarrow> 'd \<Rightarrow> 'd account_inventory \<Rightarrow> bool" where
  "needs_rebalance D limit acc \<longleftrightarrow> limit < ratio_x D acc \<or> limit < ratio_y D acc"

definition audit_balance_drift ::
  "'d::linorder exec_decimal \<Rightarrow> ('d \<Rightarrow> 8 word list) \<Rightarrow> 'd account_inventory \<Rightarrow> 'd matrix_engine \<Rightarrow> bool \<times> 'd matrix_engine" where
  "audit_balance_drift D ser acc e =
     (let h = hash_balances ser (stable_x acc) (stable_y acc)
      in if h = me_audit_hash e then (me_audit_result e, e)
         else let needs = needs_rebalance D (me_max_ratio e) acc;
                  e' = set_engine_state (if needs then STATE_IMBALANCED else STATE_BALANCED) e
              in (needs, e'\<lparr>me_audit_hash := h, me_audit_result := needs\<rparr>))"

text \<open>The plan for a transfer, from the side that holds more to the other one.\<close>

definition do_compute :: "'d::linorder exec_decimal \<Rightarrow> 'd account_inventory \<Rightarrow> u16 \<Rightarrow> u16 \<Rightarrow> 'd matrix_engine \<Rightarrow> 'd rebalance_action option" where
  "do_compute D acc from_ex to_ex e =
     (let rx = ratio_x D acc; ry = ratio_y D acc; one = dec_from_int D 1;
          (source_balance, dest_balance, from_id, to_id) =
            (if ry < rx then (stable_x acc, stable_y acc, from_ex, to_ex) else (stable_y acc, stable_x acc, to_ex, from_ex));
          total = total_stable D acc;
          one_minus_fee = dec_sub D one (me_fee e);
          target_each = dec_div D total (dec_from_int D 2);
          transfer = dec_floor D (dec_div D (dec_sub D source_balance target_each) one_minus_fee);
          fee = min (dec_mul D transfer (me_fee e)) transfer;
          net = dec_saturating_sub D transfer fee;
          new_source = (if source_balance \<le> transfer then dec_zero D else dec_saturating_sub D source_balance transfer);
          new_dest = dec_saturating_add D dest_balance net;
          new_ratio = dec_div D new_source (dec_add D new_source new_dest);
          half = dec_div D (dec_from_int D 5) (dec_from_int D 10)
      in if total \<le> dec_zero D then None
         else if one_minus_fee \<le> dec_zero D then None
         else if transfer \<le> dec_zero D then None
         else if transfer < me_min_transfer e then None
         else if new_source < dec_zero D then None
         else if dec_new D 5 2 < decimal_abs D (dec_sub D new_ratio half) then None
         else Some \<lparr>ra_amount = transfer, ra_from = from_id, ra_to = to_id, ra_fee = fee, ra_imbalance = max rx ry, ra_target = dec_new D 5 1\<rparr>)"

definition compute_hedged_rebalance_execution ::
  "'d::linorder exec_decimal \<Rightarrow> ('d \<Rightarrow> 8 word list) \<Rightarrow> i64 \<Rightarrow> 'd account_inventory \<Rightarrow> u16 \<Rightarrow> u16 \<Rightarrow> 'd matrix_engine \<Rightarrow> 'd rebalance_action option \<times> 'd matrix_engine" where
  "compute_hedged_rebalance_execution D ser now acc from_ex to_ex e =
     (let h = hash_compute_input ser (stable_x acc) (stable_y acc) from_ex to_ex
      in if h = me_compute_hash e then (me_compute_result e, e)
         else if i64_less (i64_saturating_sub now (me_compute_time e)) (me_min_interval e) then (me_compute_result e, e)
         else let result = do_compute D acc from_ex to_ex e
              in (result, e\<lparr>me_compute_hash := h, me_compute_time := now, me_compute_result := result\<rparr>))"

definition is_rebalancing :: "'d matrix_engine \<Rightarrow> bool" where
  "is_rebalancing e \<longleftrightarrow> me_state e = STATE_REBALANCING"

definition is_imbalanced :: "'d matrix_engine \<Rightarrow> bool" where
  "is_imbalanced e \<longleftrightarrow> me_state e = STATE_IMBALANCED"

section \<open>The cached verdict\<close>

fun audits :: "'d::linorder exec_decimal \<Rightarrow> ('d \<Rightarrow> 8 word list) \<Rightarrow> 'd account_inventory list \<Rightarrow> 'd matrix_engine \<Rightarrow> bool list" where
  "audits D ser [] e = []"
| "audits D ser (acc # invs) e = (let (v, e') = audit_balance_drift D ser acc e in v # audits D ser invs e')"

abbreviation inventory_hash :: "('d \<Rightarrow> 8 word list) \<Rightarrow> 'd account_inventory \<Rightarrow> u64" where
  "inventory_hash ser acc \<equiv> hash_balances ser (stable_x acc) (stable_y acc)"

definition audit_cache_ok :: "'d::linorder exec_decimal \<Rightarrow> ('d \<Rightarrow> 8 word list) \<Rightarrow> 'd \<Rightarrow> 'd account_inventory set \<Rightarrow> 'd matrix_engine \<Rightarrow> bool" where
  "audit_cache_ok D ser limit seen e \<longleftrightarrow> me_max_ratio e = limit \<and>
     (\<forall>acc \<in> seen. inventory_hash ser acc = me_audit_hash e \<longrightarrow> me_audit_result e = needs_rebalance D limit acc)"

lemma audit_step:
  assumes "audit_cache_ok D ser limit seen e" "acc \<in> seen" "inj_on (inventory_hash ser) seen" "audit_balance_drift D ser acc e = (v, e')"
  shows "v = needs_rebalance D limit acc \<and> audit_cache_ok D ser limit seen e'"
proof (cases "inventory_hash ser acc = me_audit_hash e")
  case True
  then show ?thesis using assms(1,2,4) by (auto simp: audit_balance_drift_def audit_cache_ok_def)
next
  case False
  have same: "acc' = acc" if "acc' \<in> seen" "inventory_hash ser acc' = inventory_hash ser acc" for acc'
    using that assms(2,3) by (auto dest: inj_onD)
  show ?thesis using assms(1,4) False by (auto simp: audit_balance_drift_def audit_cache_ok_def set_engine_state_def Let_def dest!: same)
qed

text \<open>
  The cache of the audit never shows: in any sequence of audits every verdict is the one that the balances of that call give, repeated balances included,
  as long as the hashes of the balances that occur do not collide and none of them is the initial hash.
\<close>

theorem audit_cache_exact:
  assumes "inj_on (inventory_hash ser) (set invs)" "\<forall>acc \<in> set invs. inventory_hash ser acc \<noteq> 0"
  shows "audits D ser invs (matrix_engine_new limit fee min_transfer) = map (needs_rebalance D limit) invs"
proof -
  have "audits D ser ivs e = map (needs_rebalance D limit) ivs" if "audit_cache_ok D ser limit (set invs) e" "set ivs \<subseteq> set invs" for ivs e
    using that
  proof (induction ivs arbitrary: e)
    case (Cons acc ivs)
    obtain v e' where a: "audit_balance_drift D ser acc e = (v, e')" by fastforce
    have "acc \<in> set invs" using Cons.prems(2) by simp
    from audit_step [OF Cons.prems(1) this assms(1) a] show ?case using Cons.IH Cons.prems(2) a by simp
  qed simp
  moreover have "audit_cache_ok D ser limit (set invs) (matrix_engine_new limit fee min_transfer)"
    using assms(2) by (auto simp: audit_cache_ok_def matrix_engine_new_def)
  ultimately show ?thesis by blast
qed

theorem audit_cache_exact_witness:
  "let invs = [\<lparr>stable_x = 90, stable_y = 10\<rparr>, \<lparr>stable_x = 50, stable_y = 50\<rparr>, \<lparr>stable_x = 90, stable_y = 10\<rparr>]; ser = (\<lambda>x :: int. [word_of_int x])
   in inj_on (inventory_hash ser) (set invs) \<and> (\<forall>acc \<in> set invs. inventory_hash ser acc \<noteq> 0) \<and>
     audits int_exec ser invs (matrix_engine_new 0 0 1) = map (needs_rebalance int_exec 0) invs"
proof -
  let ?invs = "[\<lparr>stable_x = 90, stable_y = 10\<rparr>, \<lparr>stable_x = 50, stable_y = 50\<rparr>, \<lparr>stable_x = 90, stable_y = 10\<rparr>]" and ?ser = "\<lambda>x :: int. [word_of_int x]"
  have h: "hash_balances ?ser 90 10 \<noteq> hash_balances ?ser 50 50" "hash_balances ?ser 90 10 \<noteq> 0" "hash_balances ?ser 50 50 \<noteq> 0"
    by code_simp+
  then have "inj_on (inventory_hash ?ser) (set ?invs)" "\<forall>acc \<in> set ?invs. inventory_hash ?ser acc \<noteq> 0" by (auto simp: inj_on_def)
  then show ?thesis using audit_cache_exact [of ?ser ?invs int_exec 0 0 1] unfolding Let_def by blast
qed

section \<open>The plans\<close>

text \<open>A plan moves a positive amount, at least the minimum, from the side with the larger share, and leaves both sides near the half.\<close>

lemma plan_sound:
  assumes "do_compute D acc from_ex to_ex e = Some a"
  shows "dec_zero D < ra_amount a \<and> me_min_transfer e \<le> ra_amount a \<and> ra_fee a \<le> ra_amount a \<and>
    (if ratio_y D acc < ratio_x D acc then ra_from a = from_ex \<and> ra_to a = to_ex else ra_from a = to_ex \<and> ra_to a = from_ex)"
  using assms by (auto simp: do_compute_def Let_def not_le not_less split: if_splits)

text \<open>
  Whatever the engine answers, it once computed for some balances and some pair; but within the interval this can be another pair: the cached plan is
  returned for exchanges that it does not concern.
\<close>

lemma stale_plan_for_other_pair:
  assumes "compute_hedged_rebalance_execution D ser now acc a b e = (Some act, e')" "hash_compute_input ser (stable_x acc) (stable_y acc) a b \<noteq> me_compute_hash e"
    "\<not> i64_less (i64_saturating_sub now (me_compute_time e)) (me_min_interval e)"
    and "i64_less (i64_saturating_sub later now) (me_min_interval e)"
  shows "compute_hedged_rebalance_execution D ser later acc' c d e' = (Some act, e')"
  using assms by (auto simp: compute_hedged_rebalance_execution_def Let_def)

lemma stale_plan_names_other_exchanges:
  assumes "compute_hedged_rebalance_execution D ser now acc a b e = (Some act, e')" "hash_compute_input ser (stable_x acc) (stable_y acc) a b \<noteq> me_compute_hash e"
    "\<not> i64_less (i64_saturating_sub now (me_compute_time e)) (me_min_interval e)"
  shows "{ra_from act, ra_to act} = {a, b}"
  using assms plan_sound [of D acc a b e act] by (auto simp: compute_hedged_rebalance_execution_def Let_def split: if_splits)

end
