(* ===== verification/Rebalancer.thy ===== *)
theory Rebalancer
  imports Api_Signing Capital_Balances Asset_Inventory
begin

text \<open>
  The worker of \<^verbatim>\<open>src/src/rebalancer.rs\<close>, which moves capital between exchanges: it checks a request, sends one withdrawal, waits, asks the
  destination for the deposit and then realigns the balances.  The requests and replies are a program as for the other clients; the length of the queue, the
  heartbeats, the clocks and what other threads do to the balances during the wait are arguments.
\<close>

section \<open>Requests\<close>

record 'd rebalance_request =
  rr_from :: u16
  rr_to :: u16
  rr_token :: u16
  rr_amount :: 'd
  rr_symbol :: string

definition get_withdrawal_endpoint :: "u16 \<Rightarrow> string option" where
  "get_withdrawal_endpoint i =
     (if i = 0 then Some ''https://api.binance.com/sapi/v1/capital/withdraw/apply''
      else if i = 1 then Some ''https://api.bybit.com/v5/asset/withdraw''
      else if i = 2 then Some ''https://www.okx.com/api/v5/asset/withdrawal''
      else if i = 3 then Some ''https://api.gateio.ws/api/v4/withdrawals''
      else if i = 4 then Some ''https://api.kucoin.com/api/v1/withdrawals/apply''
      else None)"

datatype 'd deposit_verify = Confirmed 'd | DepositNotFound | DepositFailed string | DepositApiError string

text \<open>Heartbeats: the milliseconds at which an exchange was last seen; \<open>None\<close> is a poisoned lock.\<close>

type_synonym heartbeats = "(u16 \<times> nat) list option"

definition heartbeat_record :: "nat \<Rightarrow> u16 \<Rightarrow> heartbeats \<Rightarrow> heartbeats" where
  "heartbeat_record now ex hb = map_option (hm_insert ex now) hb"

abbreviation HEARTBEAT_TTL_SECS :: nat where
  "HEARTBEAT_TTL_SECS \<equiv> 90"

definition is_exchange_live :: "nat \<Rightarrow> u16 \<Rightarrow> heartbeats \<Rightarrow> bool" where
  "is_exchange_live now ex hb =
     (case hb of
        None \<Rightarrow> True
      | Some m \<Rightarrow> if m = [] then True else case map_of m ex of Some seen \<Rightarrow> (now - seen) div 1000 < HEARTBEAT_TTL_SECS | None \<Rightarrow> False)"

section \<open>The state\<close>

record rebalancer_config =
  rc_signers :: "u16 \<Rightarrow> api_signer option"
  rc_addresses :: "string \<Rightarrow> string option"

record rebalancer =
  rb_allocator :: capital_allocator
  rb_gas_fee_fp :: u64
  rb_gas_deducted :: u64

definition rebalancer_new :: "capital_allocator \<Rightarrow> rebalancer" where
  "rebalancer_new a = \<lparr>rb_allocator = a, rb_gas_fee_fp = 2000000, rb_gas_deducted = 0\<rparr>"

definition set_gas_fee_usd :: "'d::linorder exec_decimal \<Rightarrow> 'd \<Rightarrow> rebalancer \<Rightarrow> rebalancer" where
  "set_gas_fee_usd D fee rb =
     (let f = (if fee < dec_zero D then dec_zero D else fee)
      in rb\<lparr>rb_gas_fee_fp := unwrap_or (dec_to_u64 D (dec_trunc D (dec_mul D f (dec_from_int D 1000000)))) 0\<rparr>)"

definition get_total_gas_deducted_usd :: "'d exec_decimal \<Rightarrow> rebalancer \<Rightarrow> 'd" where
  "get_total_gas_deducted_usd D rb = dec_div D (dec_from_int D (uint (rb_gas_deducted rb))) (dec_from_int D 1000000)"

section \<open>The withdrawal\<close>

text \<open>Headers are inserted one after the other; a value that a header cannot carry ends the construction.\<close>

definition insert_headers :: "('f, 'd) client_api \<Rightarrow> (string \<times> string) list \<Rightarrow> string + (string \<times> string) list" where
  "insert_headers A hs =
     (case find (\<lambda>(_, v). \<not> header_ok A v) hs of None \<Rightarrow> Inr hs | Some (name, _) \<Rightarrow> Inl (name @ '' header value invalid''))"

definition with_headers :: "('f, 'd) client_api \<Rightarrow> (string \<times> string) list \<Rightarrow> (string \<times> string) list \<Rightarrow> string \<Rightarrow> string + (string \<times> (string \<times> string) list)" where
  "with_headers A fixed hs payload = (case insert_headers A hs of Inl err \<Rightarrow> Inl err | Inr hs' \<Rightarrow> Inr (payload, fixed @ hs'))"

definition json_type :: "(string \<times> string) list" where
  "json_type = [(''content-type'', ''application/json'')]"

definition build_withdrawal_request ::
  "('f, 'd) client_api \<Rightarrow> clock \<Rightarrow> string \<Rightarrow> 'd rebalance_request \<Rightarrow> string \<Rightarrow> string \<Rightarrow> api_signer \<Rightarrow> string + (string \<times> (string \<times> string) list)" where
  "build_withdrawal_request A clk utc req addr network sg =
     (let coin = to_uppercase (rr_symbol req); net = to_uppercase network; amount = show_dec A (rr_amount req); key = sg_key sg; ts = show_word (clk 0)
      in if rr_from req = 0 then
           with_headers A [(''content-type'', ''application/x-www-form-urlencoded'')] [(''X-MBX-APIKEY'', key)]
             (generate_signed_query A (clk 0) sg (query_text [(''address'', addr), (''amount'', amount), (''coin'', coin), (''network'', net)]))
         else if rr_from req = 1 then
           let body = json_text A (JObject [(''coin'', JString coin), (''chain'', JString net), (''address'', JString addr), (''amt'', JString amount)])
           in with_headers A json_type
                [(''X-BAPI-API-KEY'', key), (''X-BAPI-SIGN'', generate_hmac_signature A sg (ts @ key @ ''5000'' @ body)), (''X-BAPI-TIMESTAMP'', ts),
                 (''X-BAPI-RECV-WINDOW'', ''5000'')] body
         else if rr_from req = 2 then
           let body = json_text A (JObject [(''ccy'', JString coin), (''amt'', JString amount), (''dest'', JString ''4''), (''toAddr'', JString addr),
                        (''chain'', JString (coin @ ''-'' @ net))])
           in with_headers A json_type
                [(''OK-ACCESS-KEY'', key),
                 (''OK-ACCESS-SIGN'', base64 A (hmac_sha256 A (sg_secret sg) (utc @ ''POST'' @ ''/api/v5/asset/withdrawal'' @ body))),
                 (''OK-ACCESS-TIMESTAMP'', utc), (''OK-ACCESS-PASSPHRASE'', unwrap_or (sg_passphrase sg) [])] body
         else if rr_from req = 3 then
           let body = json_text A (JObject [(''currency'', JString coin), (''amount'', JString amount), (''address'', JString addr), (''chain'', JString net)])
           in with_headers A json_type
                [(''KEY'', key), (''SIGN'', generate_hmac_signature A sg body), (''Timestamp'', show_word (clk 0 div 1000))] body
         else if rr_from req = 4 then
           let body = json_text A (JObject [(''currency'', JString coin), (''amount'', JString amount), (''address'', JString addr), (''chain'', JString net),
                        (''memo'', JString [])])
           in with_headers A (json_type @ [(''KC-API-KEY-VERSION'', ''2'')])
                [(''KC-API-KEY'', key), (''KC-API-SIGN'', generate_hmac_signature A sg (ts @ ''POST'' @ ''/api/v1/withdrawals/apply'' @ body)),
                 (''KC-API-TIMESTAMP'', ts), (''KC-API-PASSPHRASE'', base64 A (hmac_sha256 A (sg_secret sg) (unwrap_or (sg_passphrase sg) [])))] body
         else Inl (''Unknown source exchange ID '' @ show_word (rr_from req) @ '' for withdrawal''))"

datatype skip_reason =
    UnknownDestination | NoAddress | NoSigner | SourceNotLive | AmountNotPositive | SelfTransfer | Backpressure | InsufficientSource | NoEndpoint
  | BuildFailed string | EmptyPayload

record rebalance_env =
  re_clock :: clock
  re_utc :: string
  re_instant :: nat
  re_heartbeats :: heartbeats
  re_queued :: nat
  re_meanwhile :: "capital_allocator \<Rightarrow> capital_allocator"
  re_schedule :: "u64 schedule"

text \<open>The checks before the withdrawal; \<open>None\<close> is a panic of the access to the balances.\<close>

definition preflight ::
  "('f, 'd::linorder) client_api \<Rightarrow> rebalancer_config \<Rightarrow> rebalance_env \<Rightarrow> 'd rebalance_request \<Rightarrow> rebalancer \<Rightarrow> (skip_reason + http_request) option" where
  "preflight A cfg env req rb =
     (let D = num_ops A; name = exchange_name_by_id (rr_to req)
      in if name = ''UNKNOWN'' then Some (Inl UnknownDestination)
         else case rc_addresses cfg (name @ ''_arbitrum'') of
           None \<Rightarrow> Some (Inl NoAddress)
         | Some addr \<Rightarrow>
           if addr = [] then Some (Inl NoAddress)
           else case rc_signers cfg (rr_from req) of
             None \<Rightarrow> Some (Inl NoSigner)
           | Some sg \<Rightarrow>
             if \<not> is_exchange_live (re_instant env) (rr_from req) (re_heartbeats env) then Some (Inl SourceNotLive)
             else if rr_amount req \<le> dec_zero D then Some (Inl AmountNotPositive)
             else if rr_from req = rr_to req then Some (Inl SelfTransfer)
             else if 3 < re_queued env then Some (Inl Backpressure)
             else case get_balance_atomic D (unat (rr_from req)) (unat (rr_token req)) (rb_allocator rb) of
               None \<Rightarrow> None
             | Some source \<Rightarrow>
               if source < rr_amount req then Some (Inl InsufficientSource)
               else case get_withdrawal_endpoint (rr_from req) of
                 None \<Rightarrow> Some (Inl NoEndpoint)
               | Some endpoint \<Rightarrow>
                 (case build_withdrawal_request A (re_clock env) (re_utc env) req addr ''arbitrum'' sg of
                    Inl err \<Rightarrow> Some (Inl (BuildFailed err))
                  | Inr (payload, headers) \<Rightarrow>
                      if payload = [] then Some (Inl EmptyPayload)
                      else Some (Inr \<lparr>rq_method = POST, rq_url = endpoint, rq_headers = headers, rq_body = Some payload\<rparr>)))"

section \<open>The deposit\<close>

definition build_deposit_query_request ::
  "('f, 'd) client_api \<Rightarrow> clock \<Rightarrow> u16 \<Rightarrow> string \<Rightarrow> api_signer \<Rightarrow> string + (string \<times> (string \<times> string) list)" where
  "build_deposit_query_request A clk i symbol sg =
     (let coin = to_uppercase symbol; ts = show_word (clk 0); key = sg_key sg
      in if i = 0 then
           with_headers A [] [(''X-MBX-APIKEY'', key)]
             (''https://api.binance.com/sapi/v1/capital/deposit/hisrec?'' @ generate_signed_query A (clk 2) sg
               (query_text [(''coin'', coin), (''endTime'', show_word (clk 1)), (''startTime'', show_word (clk 1 - 120000)), (''status'', ''1''),
                 (''timestamp'', ts)]))
         else if i = 1 then
           let query = ''coin='' @ coin @ ''&limit=1''
           in with_headers A []
                [(''X-BAPI-API-KEY'', key), (''X-BAPI-SIGN'', generate_hmac_signature A sg (ts @ key @ ''5000'' @ query)), (''X-BAPI-TIMESTAMP'', ts),
                 (''X-BAPI-RECV-WINDOW'', ''5000'')] (''https://api.bybit.com/v5/asset/deposit/query-record?'' @ query)
         else if i = 2 then
           let query = ''ccy='' @ coin @ ''&limit=1''; path = ''/api/v5/asset/deposit-history''
           in with_headers A []
                [(''OK-ACCESS-KEY'', key), (''OK-ACCESS-SIGN'', base64 A (hmac_sha256 A (sg_secret sg) (ts @ ''GET'' @ path @ query))),
                 (''OK-ACCESS-TIMESTAMP'', ts), (''OK-ACCESS-PASSPHRASE'', unwrap_or (sg_passphrase sg) [])]
                (''https://www.okx.com'' @ path @ ''?'' @ query)
         else Inl (''deposit verification not yet supported for exchange '' @ show_word i))"

definition binance_deposit :: "('f, 'd::linorder) client_api \<Rightarrow> string \<Rightarrow> 'd \<Rightarrow> 'f json \<Rightarrow> 'd deposit_verify option" where
  "binance_deposit A symbol expected dep =
     (let D = num_ops A; mine = eq_ignore_case (unwrap_or (field_str ''coin'' dep) []) symbol;
          st = (case as_i64 (jfield ''status'' dep) of Some n \<Rightarrow> sint n | None \<Rightarrow> 0);
          amount = (if mine \<and> st = 1 then ok_of (read_decimal A (unwrap_or (field_str ''amount'' dep) ''0'')) else None)
      in case amount of
           Some amt \<Rightarrow>
             if dec_zero D < amt \<and> decimal_abs D (dec_sub D amt expected) \<le> dec_from_int D 1 then Some (Confirmed amt) else None
         | None \<Rightarrow> if mine \<and> st = 6 then Some (DepositFailed ''deposit rejected by exchange'') else None)"

definition either_field :: "string \<Rightarrow> string \<Rightarrow> 'f json \<Rightarrow> string option" where
  "either_field k1 k2 v = Option.bind (or_else (json_get k1 v) (json_get k2 v)) as_str"

definition row_deposit :: "('f, 'd::linorder) client_api \<Rightarrow> string \<Rightarrow> 'f json \<Rightarrow> 'd deposit_verify option" where
  "row_deposit A symbol dep =
     (let D = num_ops A; mine = eq_ignore_case (unwrap_or (either_field ''coin'' ''ccy'' dep) []) symbol;
          st = unwrap_or (or_else (get_str ''state'' dep) (get_str ''status'' dep)) [];
          amount = (if mine \<and> st \<in> {''3'', ''2'', ''1''} then ok_of (read_decimal A (unwrap_or (either_field ''amount'' ''amt'' dep) ''0'')) else None)
      in case amount of
           Some amt \<Rightarrow> if dec_zero D < amt then Some (Confirmed amt) else None
         | None \<Rightarrow> if mine \<and> st \<in> {''6'', ''4'', ''rejected''} then Some (DepositFailed (''deposit rejected (state='' @ st @ '')'')) else None)"

fun first_verdict :: "('a \<Rightarrow> 'd deposit_verify option) \<Rightarrow> 'a list \<Rightarrow> 'd deposit_verify" where
  "first_verdict f [] = DepositNotFound"
| "first_verdict f (x # xs) = (case f x of Some r \<Rightarrow> r | None \<Rightarrow> first_verdict f xs)"

definition parse_deposit_response :: "('f, 'd::linorder) client_api \<Rightarrow> string \<Rightarrow> string \<Rightarrow> 'd \<Rightarrow> 'd deposit_verify" where
  "parse_deposit_response A body symbol expected =
     (let unreadable = DepositApiError ''unparseable deposit response''; upper = to_uppercase symbol
      in case from_str A body of
           Inl _ \<Rightarrow> unreadable
         | Inr v \<Rightarrow>
             (case as_array v of
                Some deposits \<Rightarrow> first_verdict (binance_deposit A upper expected) deposits
              | None \<Rightarrow>
                  (case Option.bind (or_else (Option.bind (json_get ''result'' v) (json_get ''rows'')) (json_get ''data'' v)) as_array of
                     Some rows \<Rightarrow> first_verdict (row_deposit A upper) rows
                   | None \<Rightarrow> unreadable)))"

text \<open>A timeout is a failure of the transport.\<close>

definition attempt_deposit_verification ::
  "('f, 'd::linorder) client_api \<Rightarrow> rebalancer_config \<Rightarrow> clock \<Rightarrow> u16 \<Rightarrow> string \<Rightarrow> 'd \<Rightarrow> 'd deposit_verify http" where
  "attempt_deposit_verification A cfg clk dest symbol expected =
     (if exchange_name_by_id dest = ''UNKNOWN'' then Return (DepositApiError ''unknown destination exchange'')
      else case rc_signers cfg dest of
        None \<Rightarrow> Return (DepositApiError ''no signer for destination exchange'')
      | Some sg \<Rightarrow>
          (case build_deposit_query_request A clk dest symbol sg of
             Inl err \<Rightarrow> Return (DepositApiError err)
           | Inr (url, headers) \<Rightarrow>
               Send \<lparr>rq_method = GET, rq_url = url, rq_headers = headers, rq_body = None\<rparr> (\<lambda>rp. case rp of
                 NoResponse err \<Rightarrow> Return (DepositApiError err)
               | Response status shown body \<Rightarrow>
                   if \<not> is_success status then Return (DepositApiError (''HTTP '' @ shown))
                   else case body of
                     Inl err \<Rightarrow> Return (DepositApiError (''body read error: '' @ err))
                   | Inr txt \<Rightarrow> Return (parse_deposit_response A txt symbol expected))))"

text \<open>The first question and the three retries.\<close>

fun verify_deposit :: "('f, 'd::linorder) client_api \<Rightarrow> rebalancer_config \<Rightarrow> clock \<Rightarrow> 'd rebalance_request \<Rightarrow> nat \<Rightarrow> 'd option http" where
  "verify_deposit A cfg clk req retries =
     http_bind (attempt_deposit_verification A cfg (\<lambda>i. clk (3 * (3 - retries) + i + 1)) (rr_to req) (rr_symbol req) (rr_amount req)) (\<lambda>r.
       case r of
         Confirmed net \<Rightarrow> Return (Some net)
       | DepositFailed _ \<Rightarrow> Return None
       | _ \<Rightarrow> (case retries of 0 \<Rightarrow> Return None | Suc n \<Rightarrow> verify_deposit A cfg clk req n))"

declare verify_deposit.simps [simp del]

definition apply_balance_realignment ::
  "'d::linorder exec_decimal \<Rightarrow> u64 schedule \<Rightarrow> u16 \<Rightarrow> u16 \<Rightarrow> u16 \<Rightarrow> 'd \<Rightarrow> 'd \<Rightarrow> rebalancer \<Rightarrow> rebalancer option" where
  "apply_balance_realignment D sched from_ex to_ex token debit_amount credit_amount rb =
     (let gas_fee = dec_div D (dec_from_int D (uint (rb_gas_fee_fp rb))) (dec_from_int D 1000000);
          effective_gas = (if debit_amount < gas_fee then debit_amount else gas_fee);
          gas_fp_add = unwrap_or (dec_to_u64 D (dec_trunc D (dec_mul D effective_gas (dec_from_int D 1000000)))) 0
      in case fetch_sub_balance D sched (unat from_ex) (unat token) debit_amount (rb_allocator rb) of
           None \<Rightarrow> None
         | Some a \<Rightarrow>
             (case fetch_add_balance D (unat to_ex) (unat token) credit_amount a of
                None \<Rightarrow> None
              | Some a' \<Rightarrow> Some (rb\<lparr>rb_allocator := a', rb_gas_deducted := rb_gas_deducted rb + gas_fp_add\<rparr>)))"

section \<open>The worker\<close>

datatype 'd rebalance_outcome = Skipped skip_reason | WithdrawalRejected | WithdrawalUnsent | Unconfirmed | Realigned 'd

text \<open>A withdrawal whose reply has a readable success goes on, whatever its body; the balances may change during the wait.\<close>

definition process_request ::
  "('f, 'd::linorder) client_api \<Rightarrow> rebalancer_config \<Rightarrow> rebalance_env \<Rightarrow> 'd rebalance_request \<Rightarrow> rebalancer \<Rightarrow> ('d rebalance_outcome \<times> rebalancer) option http" where
  "process_request A cfg env req rb =
     (case preflight A cfg env req rb of
        None \<Rightarrow> Return None
      | Some (Inl reason) \<Rightarrow> Return (Some (Skipped reason, rb))
      | Some (Inr rq) \<Rightarrow> Send rq (\<lambda>rp. case rp of
          NoResponse err \<Rightarrow> Return (Some (WithdrawalUnsent, rb))
        | Response status shown body \<Rightarrow>
            if \<not> is_success status then Return (Some (WithdrawalRejected, rb))
            else http_bind (verify_deposit A cfg (re_clock env) req 3) (\<lambda>r.
              let rb1 = rb\<lparr>rb_allocator := re_meanwhile env (rb_allocator rb)\<rparr>
              in case r of
                   None \<Rightarrow> Return (Some (Unconfirmed, rb1))
                 | Some net \<Rightarrow>
                     Return (map_option (\<lambda>rb2. (Realigned net, rb2))
                       (apply_balance_realignment (num_ops A) (re_schedule env) (rr_from req) (rr_to req) (rr_token req) (rr_amount req) net rb1)))))"

fun run_rebalancer ::
  "('f, 'd::linorder) client_api \<Rightarrow> rebalancer_config \<Rightarrow> (rebalance_env \<times> 'd rebalance_request) list \<Rightarrow> rebalancer \<Rightarrow> ('d rebalance_outcome list \<times> rebalancer) option http" where
  "run_rebalancer A cfg [] rb = Return (Some ([], rb))"
| "run_rebalancer A cfg ((env, req) # rest) rb =
     http_bind (process_request A cfg env req rb) (\<lambda>r.
       case r of
         None \<Rightarrow> Return None
       | Some (out, rb') \<Rightarrow> http_map (map_option (apfst (Cons out))) (run_rebalancer A cfg rest rb'))"

section \<open>What the worker may do\<close>

lemma run_bind:
  "run_http (http_bind p f) rps = (rqs, Some y) \<Longrightarrow>
   \<exists>rqs1 x rqs2 rest. run_http p rps = (rqs1, Some x) \<and> run_http (f x) rest = (rqs2, Some y) \<and> rqs = rqs1 @ rqs2 \<and> set rest \<subseteq> set rps"
  using run_bind_drop [of p f rps rqs y] set_drop_subset by fastforce

definition confirms :: "('f, 'd::linorder) client_api \<Rightarrow> 'd rebalance_request \<Rightarrow> 'd \<Rightarrow> http_reply \<Rightarrow> bool" where
  "confirms A req net rp \<longleftrightarrow> (\<exists>status shown txt. rp = Response status shown (Inr txt) \<and> is_success status \<and>
     parse_deposit_response A txt (rr_symbol req) (rr_amount req) = Confirmed net)"

lemma attempt_confirmed:
  assumes "run_http (attempt_deposit_verification A cfg clk (rr_to req) (rr_symbol req) (rr_amount req)) rps = (rqs, Some (Confirmed net))"
  shows "(\<exists>rp \<in> set rps. confirms A req net rp) \<and> rr_to req \<in> {0, 1, 2}"
  using assms
  by (cases rps) (auto simp: attempt_deposit_verification_def confirms_def build_deposit_query_request_def Let_def
      split: if_splits option.splits sum.splits prod.splits http_reply.splits)

lemma verify_confirmed:
  "run_http (verify_deposit A cfg clk req n) rps = (rqs, Some (Some net)) \<Longrightarrow> (\<exists>rp \<in> set rps. confirms A req net rp) \<and> rr_to req \<in> {0, 1, 2}"
proof (induction n arbitrary: rps rqs)
  case (0 rps rqs)
  from run_bind [OF 0 [unfolded verify_deposit.simps [of A cfg clk req 0]]] show ?case
    using attempt_confirmed by (fastforce split: deposit_verify.splits)
next
  case (Suc n)
  from run_bind [OF Suc.prems [unfolded verify_deposit.simps [of A cfg clk req "Suc n"] nat.case]]
  obtain rqs1 x rqs2 rest where p: "run_http (attempt_deposit_verification A cfg (\<lambda>i. clk (3 * (3 - Suc n) + i + 1)) (rr_to req) (rr_symbol req) (rr_amount req)) rps = (rqs1, Some x)"
    "run_http (case x of Confirmed net \<Rightarrow> Return (Some net) | DepositFailed _ \<Rightarrow> Return None | _ \<Rightarrow> verify_deposit A cfg clk req n) rest = (rqs2, Some (Some net))"
    "set rest \<subseteq> set rps" by blast
  then show ?case using attempt_confirmed [of A cfg _ req rps rqs1] Suc.IH [of rest rqs2] by (cases x) auto
qed

lemma verify_only_asks: "every_request (\<lambda>rq. rq_method rq = GET) (verify_deposit A cfg clk req n)"
proof (induction n)
  have attempt: "every_request (\<lambda>rq. rq_method rq = GET) (attempt_deposit_verification A cfg clk i sm x)" for clk i sm x
    by (auto simp: attempt_deposit_verification_def split: option.split sum.split prod.split http_reply.split)
  show "every_request (\<lambda>rq. rq_method rq = GET) (verify_deposit A cfg clk req 0)"
    unfolding verify_deposit.simps [of A cfg clk req 0] by (rule every_request_bind) (auto simp: attempt split: deposit_verify.split)
  fix n assume "every_request (\<lambda>rq. rq_method rq = GET) (verify_deposit A cfg clk req n)"
  then show "every_request (\<lambda>rq. rq_method rq = GET) (verify_deposit A cfg clk req (Suc n))"
    unfolding verify_deposit.simps [of A cfg clk req "Suc n"] by (intro every_request_bind) (auto simp: attempt split: deposit_verify.split)
qed

lemma preflight_passes:
  assumes "preflight A cfg env req rb = Some (Inr rq)"
  shows "dec_zero (num_ops A) < rr_amount req \<and> rr_from req \<noteq> rr_to req \<and> re_queued env \<le> 3 \<and> rq_method rq = POST \<and>
    is_exchange_live (re_instant env) (rr_from req) (re_heartbeats env) \<and>
    (\<exists>source. get_balance_atomic (num_ops A) (unat (rr_from req)) (unat (rr_token req)) (rb_allocator rb) = Some source \<and> rr_amount req \<le> source)"
  using assms by (auto simp: preflight_def Let_def not_le not_less split: if_splits option.splits sum.splits prod.splits)

text \<open>
  The balances after a realignment, written in whole millionths: the amount leaves the source when it is covered there, the
  confirmed amount reaches the destination, and no other balance changes.
\<close>

definition millionths :: "'d::linorder exec_decimal \<Rightarrow> 'd \<Rightarrow> nat" where
  "millionths D d =
     (let x = dec_mul D d (dec_from_int D 1000000)
      in if d < dec_zero D then 0 else if dec_from_int D (2 ^ 64 - 1) < x then 2 ^ 64 - 1
         else case dec_to_u64 D (dec_trunc D x) of None \<Rightarrow> 0 | Some w \<Rightarrow> unat w)"

lemma millionths_code: "millionths D d = unat (balance_to_fp D d)"
  by (simp add: millionths_def balance_to_fp_def Let_def unat_minus_1_word split: option.split)

definition moved :: "'d::linorder exec_decimal \<Rightarrow> 'd rebalance_request \<Rightarrow> 'd \<Rightarrow> capital_allocator \<Rightarrow> capital_allocator \<Rightarrow> bool" where
  "moved D req net a a' \<longleftrightarrow>
     (\<forall>e t. map_option unat (balance_at a' e t) = map_option (\<lambda>v.
        if t = unat (rr_token req) \<and> e = unat (rr_from req) then
          (if millionths D (rr_amount req) \<le> unat v then unat v - millionths D (rr_amount req) else unat v)
        else if t = unat (rr_token req) \<and> e = unat (rr_to req) then (unat v + millionths D net) mod 2 ^ 64
        else unat v) (balance_at a e t))"

lemma realignment_moves:
  assumes "apply_balance_realignment D (spurious k) (rr_from req) (rr_to req) (rr_token req) (rr_amount req) net rb = Some rb'"
    and "alloc_wf (rb_allocator rb)" "rr_from req \<noteq> rr_to req"
  shows "moved D req net (rb_allocator rb) (rb_allocator rb')"
proof -
  let ?f = "unat (rr_from req)" and ?g = "unat (rr_to req)" and ?t = "unat (rr_token req)"
  let ?d = "balance_to_fp D (rr_amount req)" and ?c = "balance_to_fp D net"
  obtain a1 where a1: "fetch_sub_balance D (spurious k) ?f ?t (rr_amount req) (rb_allocator rb) = Some a1" "alloc_wf a1"
    "balance_at a1 = change ?f ?t (\<lambda>v. if ?d \<le> v then v - ?d else v) (balance_at (rb_allocator rb))"
    using balance_step_table [OF assms(2), of D "SubBalance k ?f ?t (rr_amount req)"] by auto
  moreover obtain a2 where a2: "fetch_add_balance D ?g ?t net a1 = Some a2" "balance_at a2 = change ?g ?t (\<lambda>v. v + ?c) (balance_at a1)"
    using balance_step_table [OF a1(2), of D "AddBalance ?g ?t net"] by auto
  ultimately have "rb_allocator rb' = a2" using assms(1) by (auto simp: apply_balance_realignment_def Let_def)
  moreover have "?f \<noteq> ?g" using assms(3) by (simp add: word_unat_eq_iff)
  ultimately show ?thesis
    by (auto simp: moved_def a1(3) a2(2) change_def millionths_code option.map_comp comp_def word_le_nat_alt unat_sub unat_word_ariths
        intro!: option.map_cong0)
qed

text \<open>
  C25: A request is worth at most one withdrawal, which is only sent for a positive amount that the balances cover, between two different exchanges, from one that
  is alive; and the worker changes the balances only after the exchange accepted the withdrawal and a later reply of the destination
  confirmed a deposit.  Then, when no other thread writes the balance of the source during the debit, that balance has lost exactly the amount if it still covers it
  and is unchanged if it does not (the debit is dropped), the balance of the destination has gained exactly the confirmed amount in either case, modulo
  64 bits, and no other balance has changed; amounts are in whole millionths.  Whatever else the replies are, the balances and the
  gas account stay as the other threads left them.
\<close>

theorem realigned_only_on_confirmation:
  assumes "run_http (process_request A cfg env req rb) rps = (rqs, Some (Some (out, rb')))"
  shows "length (filter (\<lambda>rq. rq_method rq = POST) rqs) \<le> 1 \<and>
    (rqs \<noteq> [] \<longrightarrow> dec_zero (num_ops A) < rr_amount req \<and> rr_from req \<noteq> rr_to req \<and> is_exchange_live (re_instant env) (rr_from req) (re_heartbeats env) \<and>
       (\<exists>source. get_balance_atomic (num_ops A) (unat (rr_from req)) (unat (rr_token req)) (rb_allocator rb) = Some source \<and> rr_amount req \<le> source)) \<and>
    (case out of
       Realigned net \<Rightarrow>
         (\<exists>status shown body later. rps = Response status shown body # later \<and> is_success status \<and> (\<exists>rp \<in> set later. confirms A req net rp)) \<and>
         apply_balance_realignment (num_ops A) (re_schedule env) (rr_from req) (rr_to req) (rr_token req) (rr_amount req) net
           (rb\<lparr>rb_allocator := re_meanwhile env (rb_allocator rb)\<rparr>) = Some rb' \<and>
         (re_schedule env = spurious k \<and> alloc_wf (re_meanwhile env (rb_allocator rb)) \<longrightarrow>
            moved (num_ops A) req net (re_meanwhile env (rb_allocator rb)) (rb_allocator rb'))
     | Unconfirmed \<Rightarrow> rb' = rb\<lparr>rb_allocator := re_meanwhile env (rb_allocator rb)\<rparr>
     | _ \<Rightarrow> rb' = rb)"
proof (cases "preflight A cfg env req rb")
  case None
  then show ?thesis using assms by (simp add: process_request_def)
next
  case (Some r)
  show ?thesis
  proof (cases r)
    case (Inl reason)
    then show ?thesis using assms Some by (auto simp: process_request_def)
  next
    case (Inr rq)
    note pre = preflight_passes [OF Some [unfolded Inr]]
    obtain rp later where rps: "rps = rp # later" using assms Some Inr by (cases rps) (auto simp: process_request_def)
    show ?thesis
    proof (cases "\<exists>status shown body. rp = Response status shown body \<and> is_success status")
      case False
      then show ?thesis using assms Some Inr rps pre by (cases rp) (auto simp: process_request_def)
    next
      case True
      then obtain status shown body where rp: "rp = Response status shown body" "is_success status" by blast
      obtain rqs1 where rqs: "rqs = rq # rqs1" and run: "run_http (http_bind (verify_deposit A cfg (re_clock env) req 3) (\<lambda>r.
              let rb1 = rb\<lparr>rb_allocator := re_meanwhile env (rb_allocator rb)\<rparr>
              in case r of
                   None \<Rightarrow> Return (Some (Unconfirmed, rb1))
                 | Some net \<Rightarrow>
                     Return (map_option (\<lambda>rb2. (Realigned net, rb2))
                       (apply_balance_realignment (num_ops A) (re_schedule env) (rr_from req) (rr_to req) (rr_token req) (rr_amount req) net rb1))))
              later = (rqs1, Some (Some (out, rb')))"
        using assms Some Inr rps rp by (auto simp: process_request_def split_beta prod_eq_iff)
      from run_bind [OF run] obtain rqs2 x rqs3 rest where v: "run_http (verify_deposit A cfg (re_clock env) req 3) later = (rqs2, Some x)"
        "run_http (case x of None \<Rightarrow> Return (Some (Unconfirmed, rb\<lparr>rb_allocator := re_meanwhile env (rb_allocator rb)\<rparr>))
            | Some net \<Rightarrow> Return (map_option (\<lambda>rb2. (Realigned net, rb2)) (apply_balance_realignment (num_ops A) (re_schedule env) (rr_from req) (rr_to req)
                (rr_token req) (rr_amount req) net (rb\<lparr>rb_allocator := re_meanwhile env (rb_allocator rb)\<rparr>)))) rest = (rqs3, Some (Some (out, rb')))"
        "rqs1 = rqs2 @ rqs3" by (auto simp: Let_def)
      have "filter (\<lambda>rq. rq_method rq = POST) rqs2 = []"
        using run_every_request [OF verify_only_asks, of _ A cfg "re_clock env" req 3 later] v(1) by (fastforce simp: filter_empty_conv)
      moreover have "rqs3 = []" using v(2) by (cases x) auto
      ultimately show ?thesis using v rp rps rqs pre verify_confirmed [of A cfg "re_clock env" req 3 later rqs2]
          realignment_moves [where D = "num_ops A" and k = k and req = req and rb' = rb' and rb = "rb\<lparr>rb_allocator := re_meanwhile env (rb_allocator rb)\<rparr>"]
        by (cases x) auto
    qed
  qed
qed

definition sample_rebalancer :: rebalancer where
  "sample_rebalancer = rebalancer_new \<lparr>balances = [0, 5000000], alloc_tokens = 1, alloc_exchanges = 2, inventory = inventory_new\<rparr>"

definition sample_config :: rebalancer_config where
  "sample_config = \<lparr>rc_signers = (\<lambda>_. Some (signer_new ''k'' ''s'')), rc_addresses = (\<lambda>_. Some ''0xabc'')\<rparr>"

definition sample_env :: rebalance_env where
  "sample_env = \<lparr>re_clock = (\<lambda>_. 7), re_utc = [], re_instant = 0, re_heartbeats = Some [], re_queued = 0, re_meanwhile = id, re_schedule = spurious 0\<rparr>"

definition sample_request :: "int rebalance_request" where
  "sample_request = \<lparr>rr_from = 1, rr_to = 0, rr_token = 0, rr_amount = 3, rr_symbol = ''USDT''\<rparr>"

text \<open>A destination that reports a deposit of two coins.\<close>

definition confirming_api :: "(unit, int) client_api" where
  "confirming_api = plain_api\<lparr>from_str := (\<lambda>_. Inr (JArray [JObject [(''coin'', JString ''USDT''), (''status'', JNumber (PosInt 1)), (''amount'', JString ''2'')]]))\<rparr>"

lemma sample_preflight: "\<exists>rq. preflight confirming_api sample_config sample_env sample_request sample_rebalancer = Some (Inr rq)"
  by (simp add: preflight_def sample_config_def sample_env_def sample_request_def sample_rebalancer_def rebalancer_new_def confirming_api_def plain_api_def int_exec_def
      exchange_name_by_id_def get_at_def is_exchange_live_def get_balance_atomic_def balance_idx_def fp_to_decimal_def get_withdrawal_endpoint_def
      build_withdrawal_request_def with_headers_def insert_headers_def Let_def)

lemma sample_verdict: "parse_deposit_response confirming_api txt ''USDT'' 3 = Confirmed 2"
  by (simp add: parse_deposit_response_def confirming_api_def plain_api_def as_array_def binance_deposit_def field_str_def jfield_def as_i64_def eq_ignore_case_def
      to_uppercase_def ascii_upper_def unwrap_or_def decimal_abs_def int_exec_def ok_of_def json_get_def as_str_def parse_u64_def digit_value_def Let_def)

lemma sample_question:
  "\<exists>rq. attempt_deposit_verification confirming_api sample_config clk 0 ''USDT'' 3 =
      Send rq (\<lambda>rp. case rp of
                 NoResponse err \<Rightarrow> Return (DepositApiError err)
               | Response status shown body \<Rightarrow>
                   if \<not> is_success status then Return (DepositApiError (''HTTP '' @ shown))
                   else case body of
                     Inl err \<Rightarrow> Return (DepositApiError (''body read error: '' @ err))
                   | Inr txt \<Rightarrow> Return (Confirmed 2))"
proof -
  have "\<exists>u. build_deposit_query_request confirming_api clk 0 ''USDT'' (signer_new ''k'' ''s'') = Inr u"
    by (simp add: build_deposit_query_request_def with_headers_def insert_headers_def confirming_api_def plain_api_def Let_def)
  then show ?thesis
    unfolding attempt_deposit_verification_def sample_verdict
    by (auto simp: exchange_name_by_id_def get_at_def sample_config_def split: prod.split)
qed

lemma sample_moves:
  "\<exists>rb'. apply_balance_realignment int_exec (spurious 0) 1 0 0 3 2 sample_rebalancer = Some rb'"
  by (simp add: apply_balance_realignment_def sample_rebalancer_def rebalancer_new_def fetch_sub_balance_def fetch_add_balance_def balance_to_fp_def
      balance_idx_def int_exec_def get_at_def put_at_def store_balance_def Let_def)

theorem realigned_only_on_confirmation_witness:
  "\<exists>rqs rb'. run_http (process_request confirming_api sample_config sample_env sample_request sample_rebalancer)
         [Response 200 [] (Inr ''accepted''), Response 200 [] (Inr ''deposits'')] = (rqs, Some (Some (Realigned 2, rb'))) \<and>
       length (filter (\<lambda>rq. rq_method rq = POST) rqs) \<le> 1 \<and>
       map_option unat (balance_at (rb_allocator rb') 1 0) = Some 2000000 \<and> map_option unat (balance_at (rb_allocator rb') 0 0) = Some 2000000"
proof -
  obtain rq where rq: "preflight confirming_api sample_config sample_env sample_request sample_rebalancer = Some (Inr rq)" using sample_preflight by blast
  obtain rb' where rb': "apply_balance_realignment int_exec (spurious 0) 1 0 0 3 2 sample_rebalancer = Some rb'" using sample_moves by blast
  obtain ask where ask: "attempt_deposit_verification confirming_api sample_config (\<lambda>i. 7) 0 ''USDT'' 3 =
      Send ask (\<lambda>rp. case rp of
                 NoResponse err \<Rightarrow> Return (DepositApiError err)
               | Response status shown body \<Rightarrow>
                   if \<not> is_success status then Return (DepositApiError (''HTTP '' @ shown))
                   else case body of
                     Inl err \<Rightarrow> Return (DepositApiError (''body read error: '' @ err))
                   | Inr txt \<Rightarrow> Return (Confirmed 2))" using sample_question by blast
  have api: "num_ops confirming_api = int_exec" by (simp add: confirming_api_def plain_api_def)
  have run: "run_http (process_request confirming_api sample_config sample_env sample_request sample_rebalancer)
      [Response 200 [] (Inr ''accepted''), Response 200 [] (Inr ''deposits'')] = ([rq, ask], Some (Some (Realigned 2, rb')))"
    unfolding process_request_def rq using ask rb'
    by (simp add: is_success_def verify_deposit.simps [of _ _ _ _ 3] api sample_env_def sample_request_def)
  have wf: "alloc_wf (re_meanwhile sample_env (rb_allocator sample_rebalancer))"
    by (simp add: alloc_wf_def sample_env_def sample_rebalancer_def rebalancer_new_def inventory_new_def)
  have "re_schedule sample_env = spurious 0" by (simp add: sample_env_def)
  with realigned_only_on_confirmation [OF run] wf
  have "moved int_exec sample_request 2 (re_meanwhile sample_env (rb_allocator sample_rebalancer)) (rb_allocator rb')"
    and one: "length (filter (\<lambda>rq. rq_method rq = POST) [rq, ask]) \<le> 1"
    by (simp_all add: api)
  then have "map_option unat (balance_at (rb_allocator rb') 1 0) = Some 2000000 \<and> map_option unat (balance_at (rb_allocator rb') 0 0) = Some 2000000"
    by (simp add: moved_def sample_request_def sample_env_def sample_rebalancer_def rebalancer_new_def balance_at_def millionths_def int_exec_def Let_def)
  with run one show ?thesis by blast
qed

section \<open>What the worker gets wrong\<close>

text \<open>
  Deposits can be asked for at the first three exchanges only, so that a withdrawal to any other one is never booked, although it was sent.  The amount of a
  deposit at Bybit or OKX is not compared with the amount that was sent.  And a debit that is no longer covered when the deposit arrives is dropped while
  the credit is made: the balances then hold capital that does not exist.
\<close>

lemma other_destinations_never_booked:
  assumes "run_http (process_request A cfg env req rb) rps = (rqs, Some (Some (out, rb')))" "rr_to req \<notin> {0, 1, 2}"
  shows "out \<noteq> Realigned net"
proof
  assume out: "out = Realigned net"
  obtain rq where pre: "preflight A cfg env req rb = Some (Inr rq)"
    using assms(1) out by (auto simp: process_request_def split: option.splits sum.splits)
  obtain status shown body later where rps: "rps = Response status shown body # later" "is_success status"
    using assms(1) out pre by (cases rps) (auto simp: process_request_def split: http_reply.splits if_splits)
  obtain rqs1 where "run_http (http_bind (verify_deposit A cfg (re_clock env) req 3) (\<lambda>r.
              let rb1 = rb\<lparr>rb_allocator := re_meanwhile env (rb_allocator rb)\<rparr>
              in case r of
                   None \<Rightarrow> Return (Some (Unconfirmed, rb1))
                 | Some net \<Rightarrow>
                     Return (map_option (\<lambda>rb2. (Realigned net, rb2))
                       (apply_balance_realignment (num_ops A) (re_schedule env) (rr_from req) (rr_to req) (rr_token req) (rr_amount req) net rb1))))
              later = (rqs1, Some (Some (out, rb')))"
    using assms(1) pre rps by (auto simp: process_request_def split_beta prod_eq_iff)
  from run_bind [OF this] obtain rqs2 x where "run_http (verify_deposit A cfg (re_clock env) req 3) later = (rqs2, Some x)" "x \<noteq> None"
    using out by (fastforce simp: Let_def split: option.splits)
  then show False using verify_confirmed [of A cfg "re_clock env" req 3 later rqs2] assms(2) by auto
qed

lemma row_amount_unchecked:
  assumes "eq_ignore_case (unwrap_or (either_field ''coin'' ''ccy'' dep) []) symbol" "get_str ''state'' dep = Some ''3''"
    "either_field ''amount'' ''amt'' dep = Some s" "read_decimal A s = Inr amt" "dec_zero (num_ops A) < amt"
  shows "row_deposit A symbol dep = Some (Confirmed amt)"
  using assms by (simp add: row_deposit_def unwrap_or_def or_else_def ok_of_def)

lemma dropped_debit_creates_capital:
  assumes "alloc_wf (rb_allocator rb)" "balance_at (rb_allocator rb) (unat from_ex) (unat token) = Some v" "v < balance_to_fp D debit_amount"
  shows "\<exists>rb'. apply_balance_realignment D (spurious k) from_ex to_ex token debit_amount credit_amount rb = Some rb' \<and>
    balance_at (rb_allocator rb') = change (unat to_ex) (unat token) (\<lambda>v. v + balance_to_fp D credit_amount) (balance_at (rb_allocator rb))"
proof -
  obtain a1 where a1: "fetch_sub_balance D (spurious k) (unat from_ex) (unat token) debit_amount (rb_allocator rb) = Some a1" "alloc_wf a1"
    "balance_at a1 = change (unat from_ex) (unat token) (\<lambda>v. if balance_to_fp D debit_amount \<le> v then v - balance_to_fp D debit_amount else v) (balance_at (rb_allocator rb))"
    using balance_step_table [OF assms(1), of D "SubBalance k (unat from_ex) (unat token) debit_amount"] by auto
  have "balance_at a1 = balance_at (rb_allocator rb)" using a1(3) assms(2,3) by (auto simp: change_def fun_eq_iff)
  moreover obtain a2 where "fetch_add_balance D (unat to_ex) (unat token) credit_amount a1 = Some a2"
    "balance_at a2 = change (unat to_ex) (unat token) (\<lambda>v. v + balance_to_fp D credit_amount) (balance_at a1)"
    using balance_step_table [OF a1(2), of D "AddBalance (unat to_ex) (unat token) credit_amount"] by auto
  ultimately show ?thesis using a1(1) by (simp add: apply_balance_realignment_def Let_def)
qed

end
