(* ===== verification/Withdrawal_Venues.thy ===== *)
theory Withdrawal_Venues
  imports Api_Signing
begin

text \<open>
  The withdrawals of \<^verbatim>\<open>src/src/withdrawal.rs\<close>, one exchange after the other: how a withdrawal and a query of its fee are built and signed,
  and how the replies are read.  Also the helpers: the redaction of URLs and secrets, hosts, chain codes.  A request that the HTTP library refuses to build
  counts as a failed transmission, since both are errors of the same call.  A \<^verbatim>\<open>BTreeMap\<close> of parameters gives its entries in the order of
  the keys, which are written out in that order.
\<close>

section \<open>Redaction\<close>

text \<open>\<^verbatim>\<open>str::find\<close> of a text: the first position.\<close>

fun str_find :: "string \<Rightarrow> string \<Rightarrow> nat option" where
  "str_find pat [] = (if pat = [] then Some 0 else None)"
| "str_find pat (c # cs) = (if is_prefix_of pat (c # cs) then Some 0 else map_option Suc (str_find pat cs))"

lemma str_find_Some: "str_find pat s = Some i \<Longrightarrow> is_prefix_of pat (drop i s) \<and> i \<le> length s"
  by (induction pat s arbitrary: i rule: str_find.induct) (auto split: if_splits)

lemma str_find_None: "str_find pat s = None \<longleftrightarrow> \<not> str_contains s pat"
  by (induction pat s rule: str_find.induct) auto

lemma str_contains_length: "str_contains s pat \<Longrightarrow> length pat \<le> length s"
  by (auto simp: str_contains_iff)

lemma str_find_take: "str_find pat s = Some i \<Longrightarrow> j < i + length pat \<Longrightarrow> \<not> str_contains (take j s) pat"
proof (induction pat s arbitrary: i j rule: str_find.induct)
  case (2 pat c cs)
  show ?case
  proof (cases "is_prefix_of pat (c # cs)")
    case True
    then show ?thesis using 2(2,3) str_contains_length [of "take j (c # cs)" pat] by auto
  next
    case False
    then obtain i' where i': "str_find pat cs = Some i'" "i = Suc i'" using 2(2) by auto
    have "pat \<noteq> []" using False by auto
    show ?thesis
    proof (cases j)
      case (Suc j')
      have "\<not> is_prefix_of pat (c # take j' cs)" using False by (metis append.assoc append_Cons append_take_drop_id is_prefix_of_iff)
      then show ?thesis using 2(1) [OF False i'(1), of j'] 2(3) i' Suc by simp
    qed (use \<open>pat \<noteq> []\<close> in simp)
  qed
qed (auto split: if_splits)

lemma str_find_absent: "str_find pat s = None \<Longrightarrow> \<not> str_contains (take j s) pat"
  unfolding str_find_None str_contains_iff by (metis append.assoc append_take_drop_id)

definition url_start :: "string \<Rightarrow> nat option" where
  "url_start rest =
     (case (str_find ''http://'' rest, str_find ''https://'' rest) of
        (Some h, Some s) \<Rightarrow> Some (min h s) | (Some h, None) \<Rightarrow> Some h | (None, Some s) \<Rightarrow> Some s | (None, None) \<Rightarrow> None)"

lemma url_start_Some:
  assumes "url_start s = Some i"
  shows "is_prefix_of ''http://'' (drop i s) \<or> is_prefix_of ''https://'' (drop i s)"
    "\<not> str_contains (take i s) ''http://''" "\<not> str_contains (take i s) ''https://''"
proof -
  consider h where "str_find ''http://'' s = Some h" "h \<le> i" "i = h"
      "str_find ''https://'' s = None \<or> (\<exists>k. str_find ''https://'' s = Some k \<and> i \<le> k)"
    | k where "str_find ''https://'' s = Some k" "i = k" "str_find ''http://'' s = None \<or> (\<exists>h. str_find ''http://'' s = Some h \<and> i \<le> h)"
    using assms unfolding url_start_def min_def by (auto split: option.splits if_splits)
  note cases = this
  show "is_prefix_of ''http://'' (drop i s) \<or> is_prefix_of ''https://'' (drop i s)"
    by (cases rule: cases) (use str_find_Some in blast)+
  show "\<not> str_contains (take i s) ''http://''"
    by (cases rule: cases) (use str_find_take [of "''http://''" s _ i] str_find_absent [of "''http://''" s i] in auto)
  show "\<not> str_contains (take i s) ''https://''"
    by (cases rule: cases) (use str_find_take [of "''https://''" s _ i] str_find_absent [of "''https://''" s i] in auto)
qed

lemma url_start_None: "url_start s = None \<longleftrightarrow> \<not> str_contains s ''http://'' \<and> \<not> str_contains s ''https://''"
  by (auto simp: url_start_def simp flip: str_find_None split: option.splits)

lemma url_start_shrinks: "url_start s = Some i \<Longrightarrow> length (dropWhile (\<lambda>c. \<not> is_ws c) (drop i s)) < length s"
proof -
  assume i: "url_start s = Some i"
  obtain cs where "drop i s = CHR ''h'' # cs" using url_start_Some(1) [OF i] by (auto simp: is_prefix_of_iff)
  moreover have "\<not> is_ws CHR ''h''" by (simp add: is_ws_def)
  moreover have "length (drop i s) \<le> length s" by simp
  ultimately show ?thesis using length_dropWhile_le [of "\<lambda>c. \<not> is_ws c" cs] by (simp add: less_Suc_eq_le del: length_drop)
qed

function redact_urls_in_error :: "string \<Rightarrow> string" where
  "redact_urls_in_error msg =
     (case url_start msg of
        None \<Rightarrow> msg
      | Some i \<Rightarrow> take i msg @ ''[REDACTED URL]'' @ redact_urls_in_error (dropWhile (\<lambda>c. \<not> is_ws c) (drop i msg)))"
  by pat_completeness auto

termination redact_urls_in_error
  by (relation "measure length") (simp_all add: url_start_shrinks)

declare redact_urls_in_error.simps [simp del]

definition redact_secret :: "string \<Rightarrow> string" where
  "redact_secret s = (if length s \<le> 8 then ''****'' else take 4 s @ ''****'' @ drop (length s - 4) s)"

text \<open>
  What the redaction is for: every word, up to the next white space, is cut where a URL begins in it, and everything else is kept.
\<close>

definition mask_word :: "string \<Rightarrow> string" where
  "mask_word w = (case url_start w of None \<Rightarrow> w | Some i \<Rightarrow> take i w @ ''[REDACTED URL]'')"

function redact_words :: "string \<Rightarrow> string" where
  "redact_words [] = []"
| "redact_words (c # cs) =
     (if is_ws c then c # redact_words cs
      else mask_word (takeWhile (\<lambda>c. \<not> is_ws c) (c # cs)) @ redact_words (dropWhile (\<lambda>c. \<not> is_ws c) (c # cs)))"
  by pat_completeness auto

termination redact_words
  by (relation "measure length") (auto simp: less_Suc_eq_le length_dropWhile_le)

lemma prefix_of_append: "r = [] \<or> hd r \<notin> set pat \<Longrightarrow> is_prefix_of pat (w @ r) = is_prefix_of pat w"
proof (induction pat w rule: is_prefix_of.induct)
  case (2 x xs)
  then show ?case by (cases r) auto
qed auto

lemma str_find_append:
  "pat \<noteq> [] \<Longrightarrow> r = [] \<or> hd r \<notin> set pat \<Longrightarrow>
   str_find pat (w @ r) = (case str_find pat w of None \<Rightarrow> map_option ((+) (length w)) (str_find pat r) | Some i \<Rightarrow> Some i)"
proof (induction w)
  case (Cons c w)
  have "map_option Suc (map_option ((+) (length w)) x) = map_option ((+) (length (c # w))) x" for x by (cases x) simp_all
  then show ?case using Cons prefix_of_append [of r pat "c # w"] by (auto split: option.splits)
qed (cases "str_find pat r"; simp)

lemma no_ws_in_scheme: "is_ws c \<Longrightarrow> c \<notin> set ''http://''" "is_ws c \<Longrightarrow> c \<notin> set ''https://''"
  by (auto simp: is_ws_def)

lemma url_start_append:
  assumes "r = [] \<or> is_ws (hd r)"
  shows "url_start (w @ r) = (case url_start w of None \<Rightarrow> map_option ((+) (length w)) (url_start r) | Some i \<Rightarrow> Some i)"
proof -
  have find: "str_find pat (w @ r) = (case str_find pat w of None \<Rightarrow> map_option ((+) (length w)) (str_find pat r) | Some i \<Rightarrow> Some i)"
    if "pat \<in> {''http://'', ''https://''}" for pat
    using that assms no_ws_in_scheme by (intro str_find_append) blast+
  have le: "i \<le> length w" if "str_find pat w = Some i" for pat i using str_find_Some [OF that] by simp
  have "i \<le> length w + j" if "str_find pat w = Some i" for pat i j using le [OF that] by simp
  then show ?thesis using find [of "''http://''"] find [of "''https://''"] unfolding url_start_def
    by (cases "str_find ''http://'' w"; cases "str_find ''https://'' w"; cases "str_find ''http://'' r"; cases "str_find ''https://'' r")
      (simp_all add: min_absorb1 min_absorb2)
qed

lemma redact_append:
  assumes "r = [] \<or> is_ws (hd r)" "\<forall>c \<in> set w. \<not> is_ws c"
  shows "redact_urls_in_error (w @ r) = mask_word w @ redact_urls_in_error r"
proof (cases "url_start w")
  case None
  then show ?thesis using url_start_append [OF assms(1), of w]
    by (auto simp: mask_word_def redact_urls_in_error.simps [of "w @ r"] redact_urls_in_error.simps [of r] split: option.split)
next
  case (Some i)
  have "dropWhile (\<lambda>c. \<not> is_ws c) (drop i w @ r) = r"
    using assms set_drop_subset [of i w] by (cases r) (auto simp: dropWhile_append2 subset_iff)
  moreover have "i \<le> length w" using Some str_find_Some [of _ w] by (auto simp: url_start_def min_def split: option.splits)
  ultimately show ?thesis using Some url_start_append [OF assms(1), of w]
    by (simp add: mask_word_def redact_urls_in_error.simps [of "w @ r"])
qed

lemma redact_ws: "is_ws c \<Longrightarrow> redact_urls_in_error (c # cs) = c # redact_urls_in_error cs"
proof -
  assume ws: "is_ws c"
  then have "c \<noteq> CHR ''h''" by (auto simp: is_ws_def)
  then have "url_start (c # cs) = map_option Suc (url_start cs)"
    by (auto simp: url_start_def split: option.split)
  then show ?thesis by (auto simp: redact_urls_in_error.simps [of "c # cs"] redact_urls_in_error.simps [of cs] split: option.split)
qed

lemma redact_is_words: "redact_urls_in_error msg = redact_words msg"
proof (induction msg rule: redact_words.induct)
  case 1
  then show ?case by (simp add: redact_urls_in_error.simps [of "[]"] url_start_def)
next
  case (2 c cs)
  let ?w = "takeWhile (\<lambda>c. \<not> is_ws c) (c # cs)" and ?r = "dropWhile (\<lambda>c. \<not> is_ws c) (c # cs)"
  have "?r = [] \<or> is_ws (hd ?r)" using hd_dropWhile [of "\<lambda>c. \<not> is_ws c" "c # cs"] by blast
  moreover have "\<forall>d \<in> set ?w. \<not> is_ws d" using set_takeWhileD by fast
  ultimately have "redact_urls_in_error (?w @ ?r) = mask_word ?w @ redact_urls_in_error ?r" by (rule redact_append)
  then have "redact_urls_in_error (c # cs) = mask_word ?w @ redact_urls_in_error ?r" by (simp only: takeWhile_dropWhile_id)
  then show ?case using 2 redact_ws by (cases "is_ws c") simp_all
qed

lemma contains_around: "c \<notin> set pat \<Longrightarrow> str_contains (xs @ c # ys) pat \<longleftrightarrow> str_contains xs pat \<or> str_contains ys pat"
proof (induction xs)
  case Nil
  then show ?case by (cases pat; cases ys) auto
next
  case (Cons x xs)
  then show ?case using prefix_of_append [of "c # ys" pat "x # xs"] by simp
qed

lemma no_url_left: "url_start (redact_urls_in_error msg) = None"
proof (induction msg rule: redact_urls_in_error.induct)
  case (1 msg)
  show ?case
  proof (cases "url_start msg")
    case (Some i)
    have mark: "''[REDACTED URL]'' @ r = CHR ''['' # ''REDACTED URL'' @ CHR '']'' # r" for r by simp
    have "\<not> str_contains ''REDACTED URL'' ''http://'' \<and> \<not> str_contains ''REDACTED URL'' ''https://''" by simp
    with 1 [OF Some] url_start_Some [OF Some] show ?thesis
      unfolding redact_urls_in_error.simps [of msg] Some option.case mark url_start_None by (auto simp: contains_around)
  qed (simp add: redact_urls_in_error.simps [of msg])
qed

text \<open>
  C23: the redaction cuts every word of a message where a URL begins in it and keeps everything else as it is, white space included; what is left contains no URL, not even one that the cutting
  has put together.
\<close>

theorem redaction_exact:
  "redact_urls_in_error msg = redact_words msg \<and> \<not> str_contains (redact_urls_in_error msg) ''http://'' \<and> \<not> str_contains (redact_urls_in_error msg) ''https://''"
  using redact_is_words no_url_left url_start_None by blast

text \<open>What is shown of a secret: nothing of a short one, and eight characters of a longer one.\<close>

lemma redacted_secret_shows: "redact_secret s = ''****'' \<or> (\<exists>mid. s = take 4 s @ mid @ drop (length s - 4) s \<and> mid \<noteq> [] \<and> redact_secret s = take 4 s @ ''****'' @ drop (length s - 4) s)"
proof (cases "length s \<le> 8")
  case False
  let ?mid = "take (length s - 8) (drop 4 s)"
  have "drop (length s - 8) (drop 4 s) = drop (length s - 4) s" using False by simp
  then have "s = take 4 s @ ?mid @ drop (length s - 4) s" by (metis append_take_drop_id)
  moreover have "?mid \<noteq> []" using False by simp
  ultimately show ?thesis using False unfolding redact_secret_def by auto
qed (simp add: redact_secret_def)

section \<open>Requests and results\<close>

record exchange_credentials =
  wc_key :: string
  wc_secret :: string
  wc_passphrase :: "string option"

definition credentials_new :: "string \<Rightarrow> string \<Rightarrow> exchange_credentials" where
  "credentials_new key secret = \<lparr>wc_key = key, wc_secret = secret, wc_passphrase = None\<rparr>"

definition credentials_with_passphrase :: "string \<Rightarrow> string \<Rightarrow> string \<Rightarrow> exchange_credentials" where
  "credentials_with_passphrase key secret pass = \<lparr>wc_key = key, wc_secret = secret, wc_passphrase = Some pass\<rparr>"

text \<open>The text that is displayed of credentials, and their destructor.\<close>

definition credentials_display :: "exchange_credentials \<Rightarrow> string" where
  "credentials_display c =
     ''ExchangeCredentials { api_key: '' @ redact_secret (wc_key c) @ '', api_secret: ****'' @
     (case wc_passphrase c of None \<Rightarrow> [] | Some p \<Rightarrow> '', passphrase: '' @ redact_secret p) @ '' }''"

definition credentials_drop :: "exchange_credentials \<Rightarrow> exchange_credentials" where
  "credentials_drop c = c\<lparr>wc_secret := [], wc_passphrase := map_option (\<lambda>_. []) (wc_passphrase c)\<rparr>"

record 'd withdrawal_request =
  wq_exchange :: u16
  wq_currency :: string
  wq_amount :: 'd
  wq_address :: string
  wq_network :: string
  wq_client_id :: "string option"

record 'd withdrawal_result =
  wr_success :: bool
  wr_id :: "string option"
  wr_fee :: 'd
  wr_error :: "string option"

definition withdrawal_default :: "('f, 'd) client_api \<Rightarrow> 'd withdrawal_result" where
  "withdrawal_default A = \<lparr>wr_success = False, wr_id = None, wr_fee = zero_of A, wr_error = None\<rparr>"

text \<open>The two results that the readers of replies build.\<close>

definition rejected_with :: "('f, 'd) client_api \<Rightarrow> string \<Rightarrow> 'd withdrawal_result" where
  "rejected_with A msg = \<lparr>wr_success = False, wr_id = None, wr_fee = zero_of A, wr_error = Some msg\<rparr>"

definition granted_with :: "string option \<Rightarrow> 'd \<Rightarrow> 'd withdrawal_result" where
  "granted_with wid fee = \<lparr>wr_success = True, wr_id = wid, wr_fee = fee, wr_error = None\<rparr>"

definition hmac_hex :: "('f, 'd) client_api \<Rightarrow> string \<Rightarrow> string \<Rightarrow> string" where
  "hmac_hex A secret msg = hex A (hmac_sha256 A secret msg)"

definition hmac_base64 :: "('f, 'd) client_api \<Rightarrow> string \<Rightarrow> string \<Rightarrow> string" where
  "hmac_base64 A secret msg = base64 A (hmac_sha256 A secret msg)"

definition extract_host :: "string \<Rightarrow> string" where
  "extract_host base_url =
     (if is_prefix_of ''https://'' base_url then takeWhile (\<lambda>c. c \<noteq> CHR ''/'') (drop 8 base_url)
      else if is_prefix_of ''http://'' base_url then takeWhile (\<lambda>c. c \<noteq> CHR ''/'') (drop 7 base_url)
      else [])"

definition gateio_chain_code :: "string \<Rightarrow> string" where
  "gateio_chain_code network =
     (let upper = to_uppercase network
      in if upper \<in> {''ARBITRUM ONE'', ''ARBITRUM'', ''ARB''} then ''ARBITRUM_ARB''
         else if upper \<in> {''ERC20'', ''ETH'', ''ETHEREUM''} then ''ETH''
         else if upper \<in> {''TRC20'', ''TRON'', ''TRX''} then ''TRC20''
         else if upper \<in> {''BSC'', ''BEP20''} then ''BSC''
         else if upper \<in> {''SOL'', ''SOLANA''} then ''SOL''
         else if upper \<in> {''OPTIMISM'', ''OP''} then ''OPTIMISM''
         else if upper \<in> {''POLYGON'', ''MATIC''} then ''POLYGON''
         else upper)"

definition as_u64_safe :: "'f json \<Rightarrow> u64 option" where
  "as_u64_safe v = (case as_str v of Some s \<Rightarrow> parse_u64 s | None \<Rightarrow> as_u64 v)"

section \<open>The readers of replies\<close>

definition parse_withdrawal_json :: "('f, 'd) client_api \<Rightarrow> string \<Rightarrow> string \<Rightarrow> ('f json \<Rightarrow> 'd withdrawal_result) \<Rightarrow> string + 'd withdrawal_result" where
  "parse_withdrawal_json A label body res =
     (case from_str A body of Inl err \<Rightarrow> Inl (label @ '' withdrawal JSON: '' @ err) | Inr v \<Rightarrow> Inr (res v))"

definition error_text :: "('f, 'd) client_api \<Rightarrow> string \<Rightarrow> string \<Rightarrow> string" where
  "error_text A k body = unwrap_or (Option.bind (ok_of (from_str A body)) (get_str k)) (redact_urls_in_error body)"

definition parse_binance_withdrawal_response :: "('f, 'd) client_api \<Rightarrow> nat \<Rightarrow> string \<Rightarrow> string + 'd withdrawal_result" where
  "parse_binance_withdrawal_response A status body =
     (if \<not> is_success status then Inr (rejected_with A (error_text A ''msg'' body))
      else parse_withdrawal_json A ''Binance'' body (\<lambda>v.
        granted_with (map_option (json_text A) (json_get ''id'' v)) (str_dec A ''transactionFee'' v)))"

definition parse_bybit_withdrawal_response :: "('f, 'd) client_api \<Rightarrow> nat \<Rightarrow> string \<Rightarrow> string + 'd withdrawal_result" where
  "parse_bybit_withdrawal_response A status body = parse_withdrawal_json A ''Bybit'' body (\<lambda>v.
     if unwrap_or (Option.bind (json_get ''retCode'' v) as_i64) (- 1) \<noteq> 0 \<or> \<not> is_success status
     then rejected_with A (unwrap_or (get_str ''retMsg'' v) ''unknown error'')
     else granted_with (map_option (json_text A) (Option.bind (json_get ''result'' v) (json_get ''id'')))
       (or_dec A (Option.bind (json_get ''result'' v) (get_str ''fee''))))"

definition parse_okx_withdrawal_response :: "('f, 'd) client_api \<Rightarrow> nat \<Rightarrow> string \<Rightarrow> string + 'd withdrawal_result" where
  "parse_okx_withdrawal_response A status body = parse_withdrawal_json A ''OKX'' body (\<lambda>v.
     if unwrap_or (get_str ''code'' v) ''5'' \<noteq> ''0'' \<or> \<not> is_success status
     then rejected_with A (unwrap_or (get_str ''msg'' v) ''unknown error'')
     else let item = first_of (get_array ''data'' v)
          in granted_with (map_option (json_text A) (Option.bind item (json_get ''wdId''))) (or_dec A (Option.bind item (get_str ''fee''))))"

definition parse_gateio_withdrawal_response :: "('f, 'd) client_api \<Rightarrow> nat \<Rightarrow> string \<Rightarrow> string + 'd withdrawal_result" where
  "parse_gateio_withdrawal_response A status body =
     (if \<not> is_success status then Inr (rejected_with A (error_text A ''message'' body))
      else parse_withdrawal_json A ''GateIO'' body (\<lambda>v. granted_with (map_option (json_text A) (json_get ''id'' v)) (str_dec A ''fee'' v)))"

definition parse_kucoin_withdrawal_response :: "('f, 'd) client_api \<Rightarrow> nat \<Rightarrow> string \<Rightarrow> string + 'd withdrawal_result" where
  "parse_kucoin_withdrawal_response A status body = parse_withdrawal_json A ''KuCoin'' body (\<lambda>v.
     if unwrap_or (Option.bind (json_get ''code'' v) as_u64_safe) 200000 \<noteq> 200000 \<or> \<not> is_success status
     then rejected_with A (unwrap_or (get_str ''msg'' v) ''unknown error'')
     else granted_with (Option.bind (json_get ''data'' v) (\<lambda>d.
         case d of JString s \<Rightarrow> Some s
         | JObject m \<Rightarrow> map_option (json_text A) (or_else (json_get ''withdrawalId'' d) (json_get ''id'' d))
         | _ \<Rightarrow> Some (json_text A d))) (zero_of A))"

definition parse_bitget_withdrawal_response :: "('f, 'd) client_api \<Rightarrow> nat \<Rightarrow> string \<Rightarrow> string + 'd withdrawal_result" where
  "parse_bitget_withdrawal_response A status body = parse_withdrawal_json A ''Bitget'' body (\<lambda>v.
     if unwrap_or (get_str ''code'' v) ''00000'' \<noteq> ''00000'' \<or> \<not> is_success status
     then rejected_with A (unwrap_or (get_str ''msg'' v) ''unknown error'')
     else granted_with (map_option (json_text A) (json_get ''data'' v)) (or_dec A (Option.bind (json_get ''data'' v) (get_str ''fee''))))"

definition parse_htx_withdrawal_response :: "('f, 'd) client_api \<Rightarrow> nat \<Rightarrow> string \<Rightarrow> string + 'd withdrawal_result" where
  "parse_htx_withdrawal_response A status body = parse_withdrawal_json A ''HTX'' body (\<lambda>v.
     if unwrap_or (Option.bind (json_get ''code'' v) as_i64) (- 1) \<noteq> 200 \<or> \<not> is_success status
     then rejected_with A (unwrap_or (or_else (get_str ''message'' v) (get_str ''msg'' v)) ''unknown error'')
     else granted_with (map_option (json_text A) (json_get ''data'' v)) (or_dec A (Option.bind (json_get ''data'' v) (get_str ''fee''))))"

definition parse_kraken_withdrawal_response :: "('f, 'd) client_api \<Rightarrow> nat \<Rightarrow> string \<Rightarrow> string + 'd withdrawal_result" where
  "parse_kraken_withdrawal_response A status body = parse_withdrawal_json A ''Kraken'' body (\<lambda>v.
     let errors = (case get_array ''error'' v of None \<Rightarrow> [] | Some xs \<Rightarrow> List.map_filter as_str xs)
     in if errors \<noteq> [] \<or> \<not> is_success status then rejected_with A (join_with ''; '' errors)
        else granted_with (map_option (json_text A) (Option.bind (json_get ''result'' v) (json_get ''refid''))) (zero_of A))"

section \<open>Sending\<close>

definition send_withdrawal :: "string \<Rightarrow> http_request \<Rightarrow> (nat \<Rightarrow> string \<Rightarrow> string + 'd withdrawal_result) \<Rightarrow> (string + 'd withdrawal_result) http" where
  "send_withdrawal label rq parse = Send rq (\<lambda>rp. case rp of
     NoResponse err \<Rightarrow> Return (Inl (redact_urls_in_error (label @ '' withdrawal request failed: '' @ err)))
   | Response status shown (Inl err) \<Rightarrow> Return (Inl (label @ '' withdrawal read body: '' @ err))
   | Response status shown (Inr body) \<Rightarrow> Return (parse status body))"

definition send_fee_query :: "('f, 'd) client_api \<Rightarrow> string \<Rightarrow> http_request \<Rightarrow> ('f json \<Rightarrow> 'd option) \<Rightarrow> string \<Rightarrow> (string + 'd) http" where
  "send_fee_query A label rq fee missing = Send rq (\<lambda>rp. Return (case rp of
     NoResponse err \<Rightarrow> Inl (redact_urls_in_error (label @ '' fee query failed: '' @ err))
   | Response status shown (Inl err) \<Rightarrow> Inl (label @ '' fee read: '' @ err)
   | Response status shown (Inr body) \<Rightarrow>
       if \<not> is_success status then Inl (redact_urls_in_error (label @ '' fee HTTP '' @ shown @ '': '' @ body))
       else case from_str A body of
              Inl err \<Rightarrow> Inl (label @ '' fee JSON: '' @ err)
            | Inr v \<Rightarrow> (case fee v of None \<Rightarrow> Inl missing | Some x \<Rightarrow> Inr x)))"

text \<open>The account of an exchange: its credentials and its address; either may be missing.\<close>

definition with_account ::
  "string \<Rightarrow> exchange_credentials option \<Rightarrow> string option \<Rightarrow> (exchange_credentials \<Rightarrow> string \<Rightarrow> (string + 'a) http) \<Rightarrow> (string + 'a) http" where
  "with_account label creds url k =
     (case creds of
        None \<Rightarrow> Return (Inl (''no '' @ label @ '' credentials''))
      | Some c \<Rightarrow> (case url of None \<Rightarrow> Return (Inl (''no '' @ label @ '' REST URL'')) | Some u \<Rightarrow> k c u))"

definition dec_of :: "('f, 'd) client_api \<Rightarrow> string \<Rightarrow> 'f json \<Rightarrow> 'd option" where
  "dec_of A k v = Option.bind (get_str k v) (\<lambda>s. ok_of (read_decimal A s))"

definition json_content :: "string \<times> string" where
  "json_content = (''Content-Type'', ''application/json'')"

definition form_content :: "string \<times> string" where
  "form_content = (''Content-Type'', ''application/x-www-form-urlencoded'')"

section \<open>Binance and MEXC\<close>

definition signed_form :: "('f, 'd) client_api \<Rightarrow> string \<Rightarrow> string \<Rightarrow> string" where
  "signed_form A secret query = query @ ''&signature='' @ hmac_hex A secret query"

definition withdraw_binance ::
  "('f, 'd) client_api \<Rightarrow> clock \<Rightarrow> exchange_credentials option \<Rightarrow> string option \<Rightarrow> 'd withdrawal_request \<Rightarrow> (string + 'd withdrawal_result) http" where
  "withdraw_binance A clk creds url req = with_account ''Binance'' creds url (\<lambda>c base_url.
     let base_query = query_text ([(''address'', wq_address req), (''amount'', show_dec A (wq_amount req)), (''coin'', wq_currency req),
           (''network'', wq_network req)] @ opt_param ''withdrawOrderId'' (wq_client_id req));
         query_with_ts = (if base_query = [] then ''timestamp='' @ show_word (clk 0) else base_query @ ''&timestamp='' @ show_word (clk 0))
     in send_withdrawal ''Binance''
          \<lparr>rq_method = POST, rq_url = base_url @ ''/sapi/v1/capital/withdraw/apply'', rq_headers = [(''X-MBX-APIKEY'', wc_key c), form_content],
           rq_body = Some (signed_form A (wc_secret c) query_with_ts)\<rparr> (parse_binance_withdrawal_response A))"

definition fee_binance ::
  "('f, 'd) client_api \<Rightarrow> clock \<Rightarrow> string \<Rightarrow> exchange_credentials \<Rightarrow> string \<Rightarrow> string \<Rightarrow> (string + 'd) http" where
  "fee_binance A clk base_url c currency network =
     send_fee_query A ''Binance''
       \<lparr>rq_method = GET,
        rq_url = base_url @ ''/sapi/v1/capital/withdraw/fee?coin='' @ currency @ ''&'' @ signed_form A (wc_secret c) (''timestamp='' @ show_word (clk 0)),
        rq_headers = [(''X-MBX-APIKEY'', wc_key c)], rq_body = None\<rparr>
       (dec_of A ''withdrawFee'') ''Binance fee response missing withdrawFee''"

definition withdraw_mexc ::
  "('f, 'd) client_api \<Rightarrow> clock \<Rightarrow> exchange_credentials option \<Rightarrow> string option \<Rightarrow> 'd withdrawal_request \<Rightarrow> (string + 'd withdrawal_result) http" where
  "withdraw_mexc A clk creds url req = with_account ''MEXC'' creds url (\<lambda>c base_url.
     let base_query = query_text [(''address'', wq_address req), (''amount'', show_dec A (wq_amount req)), (''coin'', wq_currency req),
           (''network'', wq_network req)];
         query_with_ts = base_query @ ''&timestamp='' @ show_word (clk 0)
     in send_withdrawal ''MEXC''
          \<lparr>rq_method = POST, rq_url = base_url @ ''/api/v3/capital/withdraw/apply'', rq_headers = [(''X-MBX-APIKEY'', wc_key c), form_content],
           rq_body = Some (signed_form A (wc_secret c) query_with_ts)\<rparr> (parse_binance_withdrawal_response A))"

section \<open>Bybit\<close>

definition DEFAULT_RECV_WINDOW_MS :: string where
  "DEFAULT_RECV_WINDOW_MS = ''5000''"

definition wd_bybit_headers :: "exchange_credentials \<Rightarrow> string \<Rightarrow> string \<Rightarrow> (string \<times> string) list" where
  "wd_bybit_headers c sign timestamp =
     [(''X-BAPI-API-KEY'', wc_key c), (''X-BAPI-SIGN'', sign), (''X-BAPI-TIMESTAMP'', timestamp), (''X-BAPI-RECV-WINDOW'', DEFAULT_RECV_WINDOW_MS)]"

definition withdraw_bybit ::
  "('f, 'd) client_api \<Rightarrow> clock \<Rightarrow> exchange_credentials option \<Rightarrow> string option \<Rightarrow> 'd withdrawal_request \<Rightarrow> (string + 'd withdrawal_result) http" where
  "withdraw_bybit A clk creds url req = with_account ''Bybit'' creds url (\<lambda>c base_url.
     let body = json_text A (JObject [(''coin'', JString (wq_currency req)), (''chain'', JString (wq_network req)),
           (''address'', JString (wq_address req)), (''amt'', JString (show_dec A (wq_amount req)))]);
         timestamp = show_word (clk 0);
         sign = hmac_hex A (wc_secret c) (timestamp @ wc_key c @ DEFAULT_RECV_WINDOW_MS @ body)
     in send_withdrawal ''Bybit''
          \<lparr>rq_method = POST, rq_url = base_url @ ''/v5/asset/withdraw/create'', rq_headers = wd_bybit_headers c sign timestamp @ [json_content], rq_body = Some body\<rparr>
          (parse_bybit_withdrawal_response A))"

definition fee_bybit ::
  "('f, 'd) client_api \<Rightarrow> clock \<Rightarrow> string \<Rightarrow> exchange_credentials \<Rightarrow> string \<Rightarrow> string \<Rightarrow> (string + 'd) http" where
  "fee_bybit A clk base_url c currency network =
     (let timestamp = show_word (clk 0);
          param_str = ''coin='' @ currency @ ''&chain='' @ network;
          sign = hmac_hex A (wc_secret c) (''GET/api/v5/asset/coin/query-info'' @ timestamp @ wc_key c @ DEFAULT_RECV_WINDOW_MS @ param_str)
      in send_fee_query A ''Bybit''
           \<lparr>rq_method = GET, rq_url = base_url @ ''/v5/asset/coin/query-info?coin='' @ currency @ ''&chain='' @ network,
            rq_headers = wd_bybit_headers c sign timestamp, rq_body = None\<rparr>
           (\<lambda>v. Option.bind (Option.bind (json_get ''result'' v) (\<lambda>r. first_of (get_array ''rows'' r))) (dec_of A ''withdrawFee''))
           ''Bybit fee response missing withdrawFee'')"

section \<open>OKX\<close>

definition okx_headers :: "exchange_credentials \<Rightarrow> string \<Rightarrow> string \<Rightarrow> (string \<times> string) list" where
  "okx_headers c sign timestamp =
     [(''OK-ACCESS-KEY'', wc_key c), (''OK-ACCESS-SIGN'', sign), (''OK-ACCESS-TIMESTAMP'', timestamp),
      (''OK-ACCESS-PASSPHRASE'', unwrap_or (wc_passphrase c) [])]"

text \<open>The clock reading as the text of a date is \<open>utc\<close>.\<close>

definition withdraw_okx ::
  "('f, 'd) client_api \<Rightarrow> string \<Rightarrow> exchange_credentials option \<Rightarrow> string option \<Rightarrow> 'd withdrawal_request \<Rightarrow> (string + 'd withdrawal_result) http" where
  "withdraw_okx A utc creds url req = with_account ''OKX'' creds url (\<lambda>c base_url.
     let body = json_text A (JObject [(''ccy'', JString (wq_currency req)), (''amt'', JString (show_dec A (wq_amount req))), (''dest'', JString ''4''),
           (''toAddr'', JString (wq_address req)), (''chain'', JString (wq_currency req @ ''-'' @ wq_network req))]);
         sign = hmac_base64 A (wc_secret c) (utc @ ''POST'' @ ''/api/v5/asset/withdrawal'' @ body)
     in send_withdrawal ''OKX''
          \<lparr>rq_method = POST, rq_url = base_url @ ''/api/v5/asset/withdrawal'', rq_headers = okx_headers c sign utc @ [json_content], rq_body = Some body\<rparr>
          (parse_okx_withdrawal_response A))"

definition fee_okx ::
  "('f, 'd) client_api \<Rightarrow> string \<Rightarrow> string \<Rightarrow> exchange_credentials \<Rightarrow> string \<Rightarrow> string \<Rightarrow> (string + 'd) http" where
  "fee_okx A utc base_url c currency network =
     (let chain = currency @ ''-'' @ network; query = ''ccy='' @ currency;
          sign = hmac_base64 A (wc_secret c) (utc @ ''GET'' @ ''/api/v5/asset/currencies'' @ query)
      in send_fee_query A ''OKX''
           \<lparr>rq_method = GET, rq_url = base_url @ ''/api/v5/asset/currencies'' @ ''?'' @ query, rq_headers = okx_headers c sign utc, rq_body = None\<rparr>
           (\<lambda>v. Option.bind (Option.bind (get_array ''data'' v) (find (\<lambda>item. get_str ''chain'' item = Some chain))) (dec_of A ''wdFee''))
           (''OKX fee response missing wdFee for chain '' @ chain))"

section \<open>GateIO\<close>

text \<open>A clock in seconds.\<close>

definition epoch_secs :: "clock \<Rightarrow> u64" where
  "epoch_secs clk = clk 0 div 1000"

definition gateio_headers :: "exchange_credentials \<Rightarrow> string \<Rightarrow> string \<Rightarrow> (string \<times> string) list" where
  "gateio_headers c sign timestamp = [(''KEY'', wc_key c), (''SIGN'', sign), (''Timestamp'', timestamp)]"

definition withdraw_gateio ::
  "('f, 'd) client_api \<Rightarrow> clock \<Rightarrow> exchange_credentials option \<Rightarrow> string option \<Rightarrow> 'd withdrawal_request \<Rightarrow> (string + 'd withdrawal_result) http" where
  "withdraw_gateio A clk creds url req = with_account ''GateIO'' creds url (\<lambda>c base_url.
     let body = json_text A (JObject [(''currency'', JString (wq_currency req)), (''amount'', JString (show_dec A (wq_amount req))),
           (''address'', JString (wq_address req)), (''chain'', JString (gateio_chain_code (wq_network req)))]);
         timestamp = show_word (epoch_secs clk);
         sign = hmac_hex A (wc_secret c) (timestamp @ ''POST'' @ ''/api/v4/withdrawals'' @ body)
     in send_withdrawal ''GateIO''
          \<lparr>rq_method = POST, rq_url = base_url @ ''/api/v4/withdrawals'', rq_headers = gateio_headers c sign timestamp @ [json_content], rq_body = Some body\<rparr>
          (parse_gateio_withdrawal_response A))"

definition fee_gateio ::
  "('f, 'd) client_api \<Rightarrow> clock \<Rightarrow> string \<Rightarrow> exchange_credentials \<Rightarrow> string \<Rightarrow> string \<Rightarrow> (string + 'd) http" where
  "fee_gateio A clk base_url c currency network =
     (let timestamp = show_word (epoch_secs clk); query = ''currency='' @ currency;
          sign = hmac_hex A (wc_secret c) (''GET/api/v4/withdrawal_fee?'' @ query @ timestamp)
      in send_fee_query A ''GateIO''
           \<lparr>rq_method = GET, rq_url = base_url @ ''/api/v4/withdrawal_fee?'' @ query, rq_headers = gateio_headers c sign timestamp, rq_body = None\<rparr>
           (dec_of A ''fee'') ''GateIO fee response missing fee'')"

section \<open>KuCoin\<close>

definition kucoin_headers :: "('f, 'd) client_api \<Rightarrow> exchange_credentials \<Rightarrow> string \<Rightarrow> string \<Rightarrow> (string \<times> string) list" where
  "kucoin_headers A c sign timestamp =
     [(''KC-API-KEY'', wc_key c), (''KC-API-SIGN'', sign), (''KC-API-TIMESTAMP'', timestamp),
      (''KC-API-PASSPHRASE'', hmac_base64 A (wc_secret c) (unwrap_or (wc_passphrase c) [])), (''KC-API-KEY-VERSION'', ''2'')]"

definition withdraw_kucoin ::
  "('f, 'd) client_api \<Rightarrow> clock \<Rightarrow> exchange_credentials option \<Rightarrow> string option \<Rightarrow> 'd withdrawal_request \<Rightarrow> (string + 'd withdrawal_result) http" where
  "withdraw_kucoin A clk creds url req = with_account ''KuCoin'' creds url (\<lambda>c base_url.
     let body = json_text A (JObject [(''currency'', JString (wq_currency req)), (''amount'', JString (show_dec A (wq_amount req))),
           (''address'', JString (wq_address req)), (''chain'', JString (wq_network req)), (''memo'', JString [])]);
         timestamp = show_word (clk 0);
         sign = hmac_base64 A (wc_secret c) (timestamp @ ''POST'' @ ''/api/v1/withdrawals'' @ body)
     in send_withdrawal ''KuCoin''
          \<lparr>rq_method = POST, rq_url = base_url @ ''/api/v1/withdrawals'', rq_headers = kucoin_headers A c sign timestamp @ [json_content], rq_body = Some body\<rparr>
          (parse_kucoin_withdrawal_response A))"

definition fee_kucoin ::
  "('f, 'd) client_api \<Rightarrow> clock \<Rightarrow> string \<Rightarrow> exchange_credentials \<Rightarrow> string \<Rightarrow> string \<Rightarrow> (string + 'd) http" where
  "fee_kucoin A clk base_url c currency network =
     (let timestamp = show_word (clk 0); query = ''currency='' @ currency;
          sign = hmac_base64 A (wc_secret c) (timestamp @ ''GET'' @ ''/api/v1/currencies'' @ query)
      in send_fee_query A ''KuCoin''
           \<lparr>rq_method = GET, rq_url = base_url @ ''/api/v1/currencies'' @ ''?'' @ query, rq_headers = kucoin_headers A c sign timestamp, rq_body = None\<rparr>
           (\<lambda>v. Option.bind (Option.bind (Option.bind (first_of (get_array ''data'' v)) (get_array ''chains''))
                  (find (\<lambda>c. case get_str ''chainName'' c of None \<Rightarrow> False | Some n \<Rightarrow> str_contains n network)))
                (dec_of A ''withdrawalMinFee''))
           (''KuCoin fee response missing withdrawalMinFee for '' @ currency @ '' on '' @ network))"

section \<open>Bitget\<close>

definition bitget_headers :: "exchange_credentials \<Rightarrow> string \<Rightarrow> string \<Rightarrow> (string \<times> string) list" where
  "bitget_headers c sign timestamp =
     [(''ACCESS-KEY'', wc_key c), (''ACCESS-SIGN'', sign), (''ACCESS-TIMESTAMP'', timestamp), (''ACCESS-PASSPHRASE'', unwrap_or (wc_passphrase c) [])]"

definition withdraw_bitget ::
  "('f, 'd) client_api \<Rightarrow> clock \<Rightarrow> exchange_credentials option \<Rightarrow> string option \<Rightarrow> 'd withdrawal_request \<Rightarrow> (string + 'd withdrawal_result) http" where
  "withdraw_bitget A clk creds url req = with_account ''Bitget'' creds url (\<lambda>c base_url.
     let body = json_text A (JObject [(''coin'', JString (wq_currency req)), (''chain'', JString (wq_network req)),
           (''address'', JString (wq_address req)), (''amount'', JString (show_dec A (wq_amount req)))]);
         timestamp = show_word (clk 0);
         sign = hmac_base64 A (wc_secret c) (timestamp @ unwrap_or (wc_passphrase c) [] @ body)
     in send_withdrawal ''Bitget''
          \<lparr>rq_method = POST, rq_url = base_url @ ''/api/v2/spot/wallet/withdrawal'', rq_headers = bitget_headers c sign timestamp @ [json_content],
           rq_body = Some body\<rparr> (parse_bitget_withdrawal_response A))"

definition fee_bitget ::
  "('f, 'd) client_api \<Rightarrow> clock \<Rightarrow> string \<Rightarrow> exchange_credentials \<Rightarrow> string \<Rightarrow> string \<Rightarrow> (string + 'd) http" where
  "fee_bitget A clk base_url c currency network =
     (let timestamp = show_word (clk 0);
          sign = hmac_base64 A (wc_secret c) (timestamp @ unwrap_or (wc_passphrase c) [] @ ''GET/api/v2/spot/wallet/coins?coin='' @ currency)
      in send_fee_query A ''Bitget''
           \<lparr>rq_method = GET, rq_url = base_url @ ''/api/v2/spot/wallet/coins?coin='' @ currency, rq_headers = bitget_headers c sign timestamp, rq_body = None\<rparr>
           (\<lambda>v. Option.bind (Option.bind (Option.bind (json_get ''data'' v) (get_array ''chains''))
                  (find (\<lambda>c. case get_str ''chain'' c of None \<Rightarrow> False | Some ch \<Rightarrow> eq_ignore_case ch network)))
                (dec_of A ''withdrawFee''))
           (''Bitget fee response missing withdrawFee for '' @ currency @ '' on '' @ network))"

section \<open>HTX\<close>

definition htx_headers :: "exchange_credentials \<Rightarrow> string \<Rightarrow> string \<Rightarrow> (string \<times> string) list" where
  "htx_headers c sign timestamp = [(''AccessKeyId'', wc_key c), (''Signature'', sign), (''Timestamp'', timestamp)]"

definition newline :: string where
  "newline = [CHR 0x0A]"

definition withdraw_htx ::
  "('f, 'd) client_api \<Rightarrow> clock \<Rightarrow> exchange_credentials option \<Rightarrow> string option \<Rightarrow> 'd withdrawal_request \<Rightarrow> (string + 'd withdrawal_result) http" where
  "withdraw_htx A clk creds url req = with_account ''HTX'' creds url (\<lambda>c base_url.
     let body = json_text A (JObject [(''currency'', JString (wq_currency req)), (''addr'', JString (wq_address req)),
           (''amount'', JString (show_dec A (wq_amount req))), (''fee'', JString ''0''), (''chain'', JString (wq_network req))]);
         timestamp = show_word (clk 0); host = extract_host base_url;
         sign = hmac_hex A (wc_secret c) (''POST'' @ newline @ host @ newline @ ''/v1/dw/withdraw/api/create'' @ newline @ body)
     in send_withdrawal ''HTX''
          \<lparr>rq_method = POST, rq_url = base_url @ ''/v1/dw/withdraw/api/create'', rq_headers = htx_headers c sign timestamp @ [json_content], rq_body = Some body\<rparr>
          (parse_htx_withdrawal_response A))"

definition fee_htx ::
  "('f, 'd) client_api \<Rightarrow> clock \<Rightarrow> string \<Rightarrow> exchange_credentials \<Rightarrow> string \<Rightarrow> string \<Rightarrow> (string + 'd) http" where
  "fee_htx A clk base_url c currency network =
     (let timestamp = show_word (clk 0); path = ''/v2/reference/currencies/'' @ currency; host = extract_host base_url;
          sign = hmac_hex A (wc_secret c) (''GET'' @ newline @ host @ newline @ path @ newline)
      in send_fee_query A ''HTX''
           \<lparr>rq_method = GET, rq_url = base_url @ path, rq_headers = htx_headers c sign timestamp, rq_body = None\<rparr>
           (\<lambda>v. Option.bind (first_of (Option.bind (json_get ''data'' v) (get_array ''chains''))) (dec_of A ''transactFeeWithdraw''))
           (''HTX fee response missing transactFeeWithdraw for '' @ currency))"

section \<open>Kraken\<close>

definition wd_kraken_sign :: "('f, 'd) client_api \<Rightarrow> string \<Rightarrow> string \<Rightarrow> string" where
  "wd_kraken_sign A key_bytes preimage = base64 A (hmac_sha512 A key_bytes preimage)"

definition kraken_headers :: "exchange_credentials \<Rightarrow> string \<Rightarrow> (string \<times> string) list" where
  "kraken_headers c sign = [(''API-Key'', wc_key c), (''API-Sign'', sign), form_content]"

definition withdraw_kraken ::
  "('f, 'd) client_api \<Rightarrow> clock \<Rightarrow> exchange_credentials option \<Rightarrow> string option \<Rightarrow> 'd withdrawal_request \<Rightarrow> (string + 'd withdrawal_result) http" where
  "withdraw_kraken A clk creds url req = with_account ''Kraken'' creds url (\<lambda>c base_url.
     let nonce = show_word (clk 0);
         form_body = query_text [(''amount'', show_dec A (wq_amount req)), (''asset'', wq_currency req), (''key'', wq_address req), (''nonce'', nonce)]
     in case unbase64 A (wc_secret c) of
          Inl err \<Rightarrow> Return (Inl (''Kraken withdrawal: failed to decode API secret: '' @ err))
        | Inr key_bytes \<Rightarrow>
            send_withdrawal ''Kraken''
              \<lparr>rq_method = POST, rq_url = base_url @ ''/0/private/Withdraw'',
               rq_headers = kraken_headers c (wd_kraken_sign A key_bytes (nonce @ ''/0/private/Withdraw'' @ form_body)), rq_body = Some form_body\<rparr>
              (parse_kraken_withdrawal_response A))"

definition fee_kraken ::
  "('f, 'd) client_api \<Rightarrow> clock \<Rightarrow> string \<Rightarrow> exchange_credentials \<Rightarrow> string \<Rightarrow> string \<Rightarrow> (string + 'd) http" where
  "fee_kraken A clk base_url c currency network =
     (let nonce = show_word (clk 0); form_body = ''nonce='' @ nonce @ ''&asset='' @ currency
      in case unbase64 A (wc_secret c) of
           Inl err \<Rightarrow> Return (Inl (''failed to decode Kraken API secret: '' @ err))
         | Inr secret_bytes \<Rightarrow>
             send_fee_query A ''Kraken''
               \<lparr>rq_method = POST, rq_url = base_url @ ''/0/private/WithdrawInfo'',
                rq_headers = kraken_headers c (wd_kraken_sign A secret_bytes (nonce @ ''/0/private/WithdrawInfo'' @ form_body)), rq_body = Some form_body\<rparr>
               (\<lambda>v. or_else (Option.bind (json_get ''result'' v) (dec_of A ''limit'')) (Option.bind (json_get ''result'' v) (dec_of A ''fee'')))
               (''Kraken fee response missing fee/limit for '' @ currency))"

end
