(* ===== verification/Engine_Configs.thy ===== *)
theory Engine_Configs
  imports Protections Api_Signing Hash_Map
begin

text \<open>
  The validation of the configuration, \<^verbatim>\<open>src/src/configs.rs\<close>: the raw sections as the file has them, the checked ones, and
  \<open>load_and_validate\<close> between the two.  The reading of the file and of its TOML text, the variables of the environment, the conversion of floats and the texts of
  floats are arguments.  A map of the file is the list of its entries in the order in which they are visited, which is any order.
\<close>

section \<open>The sections of the file\<close>

record vps_settings =
  pinned_cpu_core :: nat
  network_interface_backlog :: u32

record discord_config =
  webhook_url :: string
  buffer_capacity :: nat

record raw_cross_exchange_config =
  rc_enabled :: bool
  rc_min_spread_pct :: string
  rc_max_target_latency_ms :: u64
  rc_min_l2_liquidity_usd :: string
  rc_max_slippage_tolerance :: string
  rc_exchanges :: "u16 list option"

record raw_triangular_config =
  rt_enabled :: bool
  rt_min_loop_profit_pct :: string
  rt_max_path_length :: u32
  rt_min_pair_volume_24h :: string
  rt_quote_anchors :: "string list"
  rt_exchanges :: "u16 list option"

record raw_exchange_config =
  re_id :: u16
  re_name :: string
  re_api_key :: string
  re_api_secret :: string
  re_passphrase :: "string option"
  re_wss_url :: string
  re_rest_url :: string

record raw_risk_limits =
  rl_min_net_profit_pct :: string
  rl_max_equity_staleness_seconds :: i64
  rl_absolute_hard_loss_cap :: string
  rl_pct_hard_loss_cap :: string
  rl_max_drawdown_pct :: string
  rl_max_total_exposure_pct :: string
  rl_max_single_position_pct :: string
  rl_exchange_failure_threshold :: u32
  rl_exchange_pause_duration_seconds :: i64
  rl_stablecoin_depeg_threshold :: string
  rl_daily_loss_limit_usd :: string

record 'f raw_stablecoin_config =
  rs_depeg_threshold :: 'f
  rs_usdt_max_pct :: 'f
  rs_usdc_min_pct :: 'f
  rs_monitored_symbols :: "string list"

record raw_friction_protections =
  rf_transfer_gas_fee_usd :: string
  rf_fee_aware_enabled :: bool
  rf_default_taker_fee_pct :: string
  rf_exchange_taker_fees :: "(string \<times> u64) list"

record 'f raw_config =
  raw_force_live_mode :: bool
  raw_vps :: vps_settings
  raw_discord :: discord_config
  raw_cross :: raw_cross_exchange_config
  raw_triangular :: raw_triangular_config
  raw_exchanges :: "(string \<times> raw_exchange_config) list"
  raw_risk :: raw_risk_limits
  raw_stablecoin :: "'f raw_stablecoin_config"
  raw_friction :: raw_friction_protections
  raw_deposit_addresses :: "(string \<times> string) list"

text \<open>The defaults of optional fields.\<close>

definition default_gas_fee :: string where
  "default_gas_fee = ''2.00''"

definition default_taker_fee :: string where
  "default_taker_fee = ''0.0010''"

definition friction_default :: raw_friction_protections where
  "friction_default =
     \<lparr>rf_transfer_gas_fee_usd = default_gas_fee, rf_fee_aware_enabled = True, rf_default_taker_fee_pct = default_taker_fee, rf_exchange_taker_fees = []\<rparr>"

section \<open>The validated sections\<close>

record 'd validated_cross_exchange_config =
  vc_enabled :: bool
  vc_min_spread_pct :: 'd
  vc_max_target_latency_ms :: u64
  vc_min_l2_liquidity_usd :: 'd
  vc_max_slippage_tolerance :: 'd
  vc_exchanges :: "u16 list option"

record 'd validated_triangular_config =
  vt_enabled :: bool
  vt_min_loop_profit_pct :: 'd
  vt_max_path_length :: u32
  vt_min_pair_volume_24h :: 'd
  vt_quote_anchors :: "string list"
  vt_exchanges :: "u16 list option"

record validated_exchange_config =
  vx_id :: u16
  vx_name :: string
  vx_api_key :: string
  vx_api_secret :: string
  vx_passphrase :: "string option"
  vx_wss_url :: string
  vx_rest_url :: string

record 'd validated_stablecoin_config =
  vs_depeg_threshold :: 'd
  vs_usdt_max_pct :: 'd
  vs_usdc_min_pct :: 'd
  vs_monitored_symbols :: "string list"

record 'd validated_friction_protections =
  vf_transfer_gas_fee_usd :: 'd
  vf_fee_aware_enabled :: bool
  vf_default_taker_fee_pct :: 'd
  vf_exchange_taker_fees :: "(string \<times> u64) list"

record 'd engine_config =
  ec_force_live_mode :: bool
  ec_vps :: vps_settings
  ec_discord :: discord_config
  ec_cross_exchange :: "'d validated_cross_exchange_config"
  ec_triangular :: "'d validated_triangular_config"
  ec_risk :: "'d validated_risk_config"
  ec_exchanges :: "(u16 \<times> validated_exchange_config) list"
  ec_stablecoin :: "'d validated_stablecoin_config"
  ec_friction_protections :: "'d validated_friction_protections"
  ec_deposit_addresses :: "(string \<times> string) list"

section \<open>Checks\<close>

text \<open>The operator \<^verbatim>\<open>?\<close> on a result, and a check that may end the validation.\<close>

definition try_then :: "'e + 'a \<Rightarrow> ('a \<Rightarrow> 'e + 'b) \<Rightarrow> 'e + 'b" where
  "try_then r k = (case r of Inl err \<Rightarrow> Inl err | Inr x \<Rightarrow> k x)"

definition ensure :: "bool \<Rightarrow> 'e \<Rightarrow> 'e + unit" where
  "ensure ok err = (if ok then Inr () else Inl err)"

lemma try_then_Inr [simp]: "try_then r k = Inr y \<longleftrightarrow> (\<exists>x. r = Inr x \<and> k x = Inr y)"
  by (cases r) (simp_all add: try_then_def)

lemma ensure_Inr [simp]: "ensure ok err = Inr u \<longleftrightarrow> ok"
  by (simp add: ensure_def)

definition parse_decimal :: "('f, 'd) client_api \<Rightarrow> string \<Rightarrow> string \<Rightarrow> string + 'd" where
  "parse_decimal A s field =
     (case read_decimal A s of
        Inl err \<Rightarrow> Inl (''Failed to parse '' @ [CHR 0x27] @ s @ [CHR 0x27] @ '' as Decimal for field '' @ [CHR 0x27] @ field @ [CHR 0x27] @ '': '' @ err)
      | Inr d \<Rightarrow> Inr d)"

definition field_is :: "string \<Rightarrow> string \<Rightarrow> string" where
  "field_is field shown = ''Field '' @ [CHR 0x27] @ field @ [CHR 0x27] @ '' = '' @ shown"

abbreviation one_of :: "('f, 'd) client_api \<Rightarrow> 'd" where
  "one_of A \<equiv> dec_from_int (num_ops A) 1"

definition validate_pct_range :: "('f, 'd::linorder) client_api \<Rightarrow> 'd \<Rightarrow> string \<Rightarrow> string + unit" where
  "validate_pct_range A x field =
     (if x < zero_of A \<or> one_of A < x then Inl (field_is field (show_dec A x) @ '' must be between 0 and 1 (inclusive)'') else Inr ())"

definition validate_positive :: "('f, 'd::linorder) client_api \<Rightarrow> 'd \<Rightarrow> string \<Rightarrow> string + unit" where
  "validate_positive A x field =
     (if x \<le> zero_of A then Inl (field_is field (show_dec A x) @ '' must be strictly greater than 0'') else Inr ())"

definition f64_to_decimal :: "('f, 'd) client_api \<Rightarrow> ('f \<Rightarrow> string) \<Rightarrow> 'f \<Rightarrow> string \<Rightarrow> string + 'd" where
  "f64_to_decimal A show_f64 x field =
     (case float_decimal A (Float x) of
        None \<Rightarrow> Inl (''Failed to convert f64 value '' @ show_f64 x @ '' for field '' @ [CHR 0x27] @ field @ [CHR 0x27] @ '' to Decimal'')
      | Some d \<Rightarrow> Inr d)"

definition validate_strictly_positive_pct :: "('f, 'd::linorder) client_api \<Rightarrow> 'd \<Rightarrow> string \<Rightarrow> string + unit" where
  "validate_strictly_positive_pct A x field =
     (if x \<le> zero_of A \<or> one_of A < x
      then Inl (field_is field (show_dec A x) @ '' must be strictly between 0 and 1 (exclusive of 0)'') else Inr ())"

definition validate_positive_i64 :: "i64 \<Rightarrow> string \<Rightarrow> string + unit" where
  "validate_positive_i64 x field =
     (if sint x \<le> 0 then Inl (field_is field (show_i64 x) @ '' must be strictly greater than 0'') else Inr ())"

definition env_override :: "(string \<Rightarrow> string option) \<Rightarrow> string \<Rightarrow> string option" where
  "env_override env key = (case env key of None \<Rightarrow> None | Some v \<Rightarrow> if v = [] then None else Some v)"

definition is_alphanumeric :: "char \<Rightarrow> bool" where
  "is_alphanumeric c \<longleftrightarrow> (let n = of_char c :: nat in 48 \<le> n \<and> n \<le> 57 \<or> 65 \<le> n \<and> n \<le> 90 \<or> 97 \<le> n \<and> n \<le> 122)"

definition is_ascii_hexdigit :: "char \<Rightarrow> bool" where
  "is_ascii_hexdigit c \<longleftrightarrow> (let n = of_char c :: nat in 48 \<le> n \<and> n \<le> 57 \<or> 65 \<le> n \<and> n \<le> 70 \<or> 97 \<le> n \<and> n \<le> 102)"

definition exchange_env_prefix :: "string \<Rightarrow> string" where
  "exchange_env_prefix name = to_uppercase (filter is_alphanumeric name)"

lemma parse_decimal_Inr [simp]: "parse_decimal A s field = Inr x \<longleftrightarrow> read_decimal A s = Inr x"
  by (simp add: parse_decimal_def split: sum.split)

lemma f64_to_decimal_Inr [simp]: "f64_to_decimal A show_f64 f field = Inr x \<longleftrightarrow> float_decimal A (Float f) = Some x"
  by (simp add: f64_to_decimal_def split: option.split)

lemma checks_Inr [simp]:
  "validate_pct_range A x field = Inr u \<longleftrightarrow> zero_of A \<le> x \<and> x \<le> one_of A"
  "validate_positive A x field = Inr u \<longleftrightarrow> zero_of A < x"
  "validate_strictly_positive_pct A x field = Inr u \<longleftrightarrow> zero_of A < x \<and> x \<le> one_of A"
  "validate_positive_i64 n field = Inr u \<longleftrightarrow> 0 < sint n"
  by (auto simp: validate_pct_range_def validate_positive_def validate_strictly_positive_pct_def validate_positive_i64_def)

section \<open>The validation\<close>

definition non_empty :: "'a list option \<Rightarrow> 'a list option" where
  "non_empty xs = (case xs of None \<Rightarrow> None | Some ys \<Rightarrow> if ys = [] then None else Some ys)"

text \<open>A number of a section: read and checked.\<close>

definition checked_field :: "('f, 'd) client_api \<Rightarrow> ('d \<Rightarrow> string \<Rightarrow> string + unit) \<Rightarrow> string \<Rightarrow> string \<Rightarrow> ('d \<Rightarrow> string + 'a) \<Rightarrow> string + 'a" where
  "checked_field A check text field k = try_then (parse_decimal A text field) (\<lambda>x. try_then (check x field) (\<lambda>_. k x))"

lemma checked_field_Inr [simp]:
  "checked_field A check text field k = Inr y \<longleftrightarrow> (\<exists>x u. read_decimal A text = Inr x \<and> check x field = Inr u \<and> k x = Inr y)"
  by (auto simp: checked_field_def)

definition validate_cross_exchange :: "('f, 'd::linorder) client_api \<Rightarrow> raw_cross_exchange_config \<Rightarrow> string + 'd validated_cross_exchange_config" where
  "validate_cross_exchange A r =
     checked_field A (validate_strictly_positive_pct A) (rc_min_spread_pct r) ''strategies.cross_exchange.min_spread_pct'' (\<lambda>min_spread.
     checked_field A (validate_positive A) (rc_min_l2_liquidity_usd r) ''strategies.cross_exchange.min_l2_liquidity_usd'' (\<lambda>liquidity.
     checked_field A (validate_pct_range A) (rc_max_slippage_tolerance r) ''strategies.cross_exchange.max_slippage_tolerance'' (\<lambda>slippage.
     Inr \<lparr>vc_enabled = rc_enabled r, vc_min_spread_pct = min_spread, vc_max_target_latency_ms = rc_max_target_latency_ms r,
          vc_min_l2_liquidity_usd = liquidity, vc_max_slippage_tolerance = slippage, vc_exchanges = non_empty (rc_exchanges r)\<rparr>)))"

definition validate_triangular :: "('f, 'd::linorder) client_api \<Rightarrow> raw_triangular_config \<Rightarrow> string + 'd validated_triangular_config" where
  "validate_triangular A r =
     checked_field A (validate_pct_range A) (rt_min_loop_profit_pct r) ''strategies.triangular.min_loop_profit_pct'' (\<lambda>profit.
     checked_field A (validate_positive A) (rt_min_pair_volume_24h r) ''strategies.triangular.min_pair_volume_24h'' (\<lambda>volume.
     try_then (ensure (3 \<le> rt_max_path_length r)
       (''strategies.triangular.max_path_length = '' @ show_word (rt_max_path_length r) @ '' must be >= 3'')) (\<lambda>_.
     try_then (ensure (rt_quote_anchors r \<noteq> []) ''strategies.triangular.quote_anchors must contain at least one entry'') (\<lambda>_.
     Inr \<lparr>vt_enabled = rt_enabled r, vt_min_loop_profit_pct = profit, vt_max_path_length = rt_max_path_length r,
          vt_min_pair_volume_24h = volume, vt_quote_anchors = rt_quote_anchors r, vt_exchanges = non_empty (rt_exchanges r)\<rparr>))))"

text \<open>The dash of a message, as the bytes of its encoding.\<close>

definition dash :: string where
  "dash = [CHR 0xE2, CHR 0x80, CHR 0x94]"

definition validate_risk :: "('f, 'd::linorder) client_api \<Rightarrow> raw_risk_limits \<Rightarrow> string + 'd validated_risk_config" where
  "validate_risk A r =
     checked_field A (validate_strictly_positive_pct A) (rl_min_net_profit_pct r) ''risk_limits.min_net_profit_pct'' (\<lambda>profit.
     try_then (validate_positive_i64 (rl_max_equity_staleness_seconds r) ''risk_limits.max_equity_staleness_seconds'') (\<lambda>_.
     checked_field A (validate_positive A) (rl_absolute_hard_loss_cap r) ''risk_limits.absolute_hard_loss_cap'' (\<lambda>abs_cap.
     checked_field A (validate_strictly_positive_pct A) (rl_pct_hard_loss_cap r) ''risk_limits.pct_hard_loss_cap'' (\<lambda>pct_cap.
     checked_field A (validate_strictly_positive_pct A) (rl_max_drawdown_pct r) ''risk_limits.max_drawdown_pct'' (\<lambda>max_dd.
     try_then (ensure (max_dd < one_of A) (''risk_limits.max_drawdown_pct = '' @ show_dec A max_dd @ '' must be < 1.0 (100%%) '' @ dash @
       '' losing everything is not a valid risk parameter'')) (\<lambda>_.
     checked_field A (validate_strictly_positive_pct A) (rl_max_total_exposure_pct r) ''risk_limits.max_total_exposure_pct'' (\<lambda>exposure.
     checked_field A (validate_strictly_positive_pct A) (rl_max_single_position_pct r) ''risk_limits.max_single_position_pct'' (\<lambda>position.
     try_then (ensure (rl_exchange_failure_threshold r \<noteq> 0) ''risk_limits.exchange_failure_threshold must be > 0'') (\<lambda>_.
     try_then (validate_positive_i64 (rl_exchange_pause_duration_seconds r) ''risk_limits.exchange_pause_duration_seconds'') (\<lambda>_.
     checked_field A (validate_positive A) (rl_stablecoin_depeg_threshold r) ''risk_limits.stablecoin_depeg_threshold'' (\<lambda>depeg.
     checked_field A (validate_positive A) (rl_daily_loss_limit_usd r) ''risk_limits.daily_loss_limit_usd'' (\<lambda>daily.
     Inr \<lparr>min_net_profit_pct = profit, max_equity_staleness_seconds = rl_max_equity_staleness_seconds r, absolute_hard_loss_cap = abs_cap,
          pct_hard_loss_cap = pct_cap, max_drawdown_pct = max_dd, max_total_exposure_pct = exposure, max_single_position_pct = position,
          exchange_failure_threshold = rl_exchange_failure_threshold r, exchange_pause_duration_seconds = rl_exchange_pause_duration_seconds r,
          stablecoin_depeg_threshold = depeg, daily_loss_limit_usd = daily\<rparr>))))))))))))"

text \<open>The secrets of an exchange come from the environment when it has them.\<close>

definition with_secrets :: "(string \<Rightarrow> string option) \<Rightarrow> raw_exchange_config \<Rightarrow> validated_exchange_config" where
  "with_secrets env r =
     (let prefix = exchange_env_prefix (re_name r)
      in \<lparr>vx_id = re_id r, vx_name = re_name r, vx_api_key = unwrap_or (env_override env (prefix @ ''_API_KEY'')) (re_api_key r),
          vx_api_secret = unwrap_or (env_override env (prefix @ ''_API_SECRET'')) (re_api_secret r),
          vx_passphrase = or_else (env_override env (prefix @ ''_PASSPHRASE'')) (re_passphrase r), vx_wss_url = re_wss_url r, vx_rest_url = re_rest_url r\<rparr>)"

fun validate_exchanges ::
  "(string \<Rightarrow> string option) \<Rightarrow> (u16 \<times> validated_exchange_config) list \<Rightarrow> (string \<times> raw_exchange_config) list \<Rightarrow>
   string + (u16 \<times> validated_exchange_config) list" where
  "validate_exchanges env exchanges [] = Inr exchanges"
| "validate_exchanges env exchanges ((section, r) # rest) =
     (if section = [] then Inl ''Exchange section name must not be empty''
      else if re_name r = [] then Inl (''Exchange ['' @ section @ ''] has an empty '' @ [CHR 0x27] @ ''name'' @ [CHR 0x27] @ '' field'')
      else if map_of exchanges (re_id r) \<noteq> None
      then Inl (''Duplicate exchange id '' @ show_word (re_id r) @ '' (found in section [exchanges.'' @ section @ ''])'')
      else if re_name r \<noteq> section
      then Inl (''Exchange section name '' @ [CHR 0x27] @ section @ [CHR 0x27] @ '' does not match exchange.name '' @ [CHR 0x27] @ re_name r @ [CHR 0x27])
      else validate_exchanges env (hm_insert (re_id r) (with_secrets env r) exchanges) rest)"

definition CONFIG_MAX_EXCHANGES :: nat where
  "CONFIG_MAX_EXCHANGES = 64"

definition exchange_sections ::
  "(string \<Rightarrow> string option) \<Rightarrow> (string \<times> raw_exchange_config) list \<Rightarrow> string + (u16 \<times> validated_exchange_config) list" where
  "exchange_sections env sections =
     try_then (validate_exchanges env [] sections) (\<lambda>exchanges.
     try_then (ensure (exchanges \<noteq> []) ''At least one exchange must be configured under [exchanges.*]'') (\<lambda>_.
     try_then (ensure (length exchanges \<le> CONFIG_MAX_EXCHANGES)
       (''FATAL: More than '' @ digits_of CONFIG_MAX_EXCHANGES @ '' exchanges configured. The u64 bitmask system supports at most '' @ digits_of CONFIG_MAX_EXCHANGES @
        '' exchanges.'')) (\<lambda>_. Inr exchanges)))"

definition validate_stablecoin :: "('f, 'd::linorder) client_api \<Rightarrow> ('f \<Rightarrow> string) \<Rightarrow> 'f raw_stablecoin_config \<Rightarrow> string + 'd validated_stablecoin_config" where
  "validate_stablecoin A show_f64 s =
     try_then (f64_to_decimal A show_f64 (rs_depeg_threshold s) ''stablecoin.depeg_threshold'') (\<lambda>depeg.
     try_then (f64_to_decimal A show_f64 (rs_usdt_max_pct s) ''stablecoin.usdt_max_pct'') (\<lambda>usdt.
     try_then (f64_to_decimal A show_f64 (rs_usdc_min_pct s) ''stablecoin.usdc_min_pct'') (\<lambda>usdc.
     try_then (ensure (zero_of A < depeg \<and> depeg < one_of A) (''stablecoin.depeg_threshold = '' @ show_dec A depeg @ '' must be in (0, 1)'')) (\<lambda>_.
     try_then (ensure (zero_of A \<le> usdt \<and> usdt \<le> one_of A) (''stablecoin.usdt_max_pct = '' @ show_dec A usdt @ '' must be in [0, 1]'')) (\<lambda>_.
     try_then (ensure (zero_of A \<le> usdc \<and> usdc \<le> one_of A) (''stablecoin.usdc_min_pct = '' @ show_dec A usdc @ '' must be in [0, 1]'')) (\<lambda>_.
     try_then (ensure (dec_add (num_ops A) usdt usdc \<le> one_of A) ''stablecoin usdt_max_pct + usdc_min_pct must be <= 1.0'') (\<lambda>_.
     Inr \<lparr>vs_depeg_threshold = depeg, vs_usdt_max_pct = usdt, vs_usdc_min_pct = usdc, vs_monitored_symbols = rs_monitored_symbols s\<rparr>)))))))"

fun check_taker_fees :: "(string \<times> u64) list \<Rightarrow> string + unit" where
  "check_taker_fees [] = Inr ()"
| "check_taker_fees ((name, bps) # rest) =
     (if bps = 0 then Inl (''friction_protections.exchange_taker_fees.'' @ name @ '' = 0 must be > 0'') else check_taker_fees rest)"

definition validate_friction :: "('f, 'd::linorder) client_api \<Rightarrow> raw_friction_protections \<Rightarrow> string + 'd validated_friction_protections" where
  "validate_friction A f =
     checked_field A (validate_positive A) (rf_transfer_gas_fee_usd f) ''friction_protections.transfer_gas_fee_usd'' (\<lambda>gas.
     try_then (parse_decimal A (rf_default_taker_fee_pct f) ''friction_protections.default_taker_fee_pct'') (\<lambda>taker.
     try_then (ensure (zero_of A < taker \<and> taker \<le> one_of A)
       (''friction_protections.default_taker_fee_pct = '' @ show_dec A taker @ '' must be strictly between 0 and 1 (exclusive of 0)'')) (\<lambda>_.
     try_then (check_taker_fees (rf_exchange_taker_fees f)) (\<lambda>_.
     Inr \<lparr>vf_transfer_gas_fee_usd = gas, vf_fee_aware_enabled = rf_fee_aware_enabled f, vf_default_taker_fee_pct = taker,
          vf_exchange_taker_fees = rf_exchange_taker_fees f\<rparr>))))"

definition MIN_DEPOSIT_ADDR_LEN :: nat where
  "MIN_DEPOSIT_ADDR_LEN = 10"

definition MAX_DEPOSIT_ADDR_LEN :: nat where
  "MAX_DEPOSIT_ADDR_LEN = 44"

definition quoted_value :: "string \<Rightarrow> string \<Rightarrow> string" where
  "quoted_value key addr = ''deposit_addresses.'' @ key @ '' = '' @ [CHR 0x22] @ addr @ [CHR 0x22]"

fun check_deposit_addresses :: "(string \<times> string) list \<Rightarrow> string + unit" where
  "check_deposit_addresses [] = Inr ()"
| "check_deposit_addresses ((key, addr) # rest) =
     (let hex_body = drop 2 addr
      in if addr = [] then check_deposit_addresses rest
         else if \<not> is_prefix_of ''0x'' addr \<or> length addr < MIN_DEPOSIT_ADDR_LEN
         then Inl (quoted_value key addr @ '' is not a valid blockchain address (must start with 0x, min 10 chars)'')
         else if list_all (\<lambda>c. c = CHR ''0'') hex_body
         then Inl (''deposit_addresses.'' @ key @ '' is the zero-address sentinel (0x0000...). Replace it with your REAL verified on-chain deposit address before live deployment.'')
         else if \<not> list_all is_ascii_hexdigit hex_body then Inl (quoted_value key addr @ '' contains non-hex characters'')
         else if MAX_DEPOSIT_ADDR_LEN < length addr
         then Inl (quoted_value key addr @ '' is too long (>'' @ digits_of MAX_DEPOSIT_ADDR_LEN @ '' chars)'')
         else check_deposit_addresses rest)"

text \<open>The raw sections in their order, and the whole of the loading: the file, its text, the sections.\<close>

definition validate_config ::
  "('f, 'd::linorder) client_api \<Rightarrow> ('f \<Rightarrow> string) \<Rightarrow> (string \<Rightarrow> string option) \<Rightarrow> 'f raw_config \<Rightarrow> string + 'd engine_config" where
  "validate_config A show_f64 env raw =
     try_then (validate_cross_exchange A (raw_cross raw)) (\<lambda>cross.
     try_then (validate_triangular A (raw_triangular raw)) (\<lambda>tri.
     try_then (validate_risk A (raw_risk raw)) (\<lambda>risk.
     try_then (exchange_sections env (raw_exchanges raw)) (\<lambda>exchanges.
     try_then (validate_stablecoin A show_f64 (raw_stablecoin raw)) (\<lambda>stable.
     let discord = (case env_override env ''DISCORD_WEBHOOK_URL'' of None \<Rightarrow> raw_discord raw | Some url \<Rightarrow> (raw_discord raw)\<lparr>webhook_url := url\<rparr>)
     in try_then (validate_friction A (raw_friction raw)) (\<lambda>friction.
        try_then (check_deposit_addresses (raw_deposit_addresses raw)) (\<lambda>_.
        Inr \<lparr>ec_force_live_mode = raw_force_live_mode raw, ec_vps = raw_vps raw, ec_discord = discord, ec_cross_exchange = cross, ec_triangular = tri,
             ec_risk = risk, ec_exchanges = exchanges, ec_stablecoin = stable, ec_friction_protections = friction,
             ec_deposit_addresses = raw_deposit_addresses raw\<rparr>)))))))"

definition load_and_validate ::
  "('f, 'd::linorder) client_api \<Rightarrow> ('f \<Rightarrow> string) \<Rightarrow> (string \<Rightarrow> string option) \<Rightarrow> (string \<Rightarrow> string + 'f raw_config) \<Rightarrow> string \<Rightarrow> string + string \<Rightarrow>
   string + 'd engine_config" where
  "load_and_validate A show_f64 env toml path contents =
     (case contents of
        Inl err \<Rightarrow> Inl (''failed to read config file '' @ [CHR 0x27] @ path @ [CHR 0x27] @ '': '' @ err)
      | Inr text \<Rightarrow>
          (case toml text of
             Inl err \<Rightarrow> Inl (''failed to parse TOML from '' @ [CHR 0x27] @ path @ [CHR 0x27] @ '': '' @ err)
           | Inr raw \<Rightarrow> validate_config A show_f64 env raw))"

section \<open>What an accepted configuration satisfies\<close>

definition section_ok :: "string \<times> raw_exchange_config \<Rightarrow> bool" where
  "section_ok sec \<longleftrightarrow> fst sec \<noteq> [] \<and> re_name (snd sec) = fst sec"

definition section_entry :: "(string \<Rightarrow> string option) \<Rightarrow> string \<times> raw_exchange_config \<Rightarrow> u16 \<times> validated_exchange_config" where
  "section_entry env sec = (re_id (snd sec), with_secrets env (snd sec))"

lemma hm_insert_fresh: "k \<notin> fst ` set m \<Longrightarrow> hm_insert k v m = m @ [(k, v)]"
  by (induction k v m rule: hm_insert.induct) auto

lemma validate_exchanges_iff:
  "validate_exchanges env m secs = Inr m' \<longleftrightarrow>
     list_all section_ok secs \<and> distinct (map (re_id \<circ> snd) secs) \<and> (re_id \<circ> snd) ` set secs \<inter> fst ` set m = {} \<and> m' = m @ map (section_entry env) secs"
proof (induction env m secs rule: validate_exchanges.induct)
  case (2 env m sec r rest)
  show ?case
  proof (cases "sec = [] \<or> re_name r = [] \<or> map_of m (re_id r) \<noteq> None \<or> re_name r \<noteq> sec")
    case True
    then have "\<not> section_ok (sec, r) \<or> re_id r \<in> fst ` set m" by (auto simp: section_ok_def map_of_eq_None_iff)
    then show ?thesis using True by auto
  next
    case False
    then have "re_id r \<notin> fst ` set m" by (simp add: map_of_eq_None_iff)
    then show ?thesis using False 2 by (auto simp: section_ok_def section_entry_def hm_insert_fresh)
  qed
qed auto

lemma exchange_sections_iff:
  "exchange_sections env secs = Inr m \<longleftrightarrow>
     list_all section_ok secs \<and> distinct (map (re_id \<circ> snd) secs) \<and> secs \<noteq> [] \<and> length secs \<le> CONFIG_MAX_EXCHANGES \<and> m = map (section_entry env) secs"
  by (auto simp: exchange_sections_def validate_exchanges_iff)

definition deposit_ok :: "string \<Rightarrow> bool" where
  "deposit_ok addr \<longleftrightarrow> addr = [] \<or>
     (\<exists>digits. addr = ''0x'' @ digits \<and> 8 \<le> length digits \<and> length digits \<le> 42 \<and> (\<forall>c \<in> set digits. is_ascii_hexdigit c) \<and> (\<exists>c \<in> set digits. c \<noteq> CHR ''0''))"

lemma deposit_ok_iff:
  "deposit_ok addr \<longleftrightarrow> addr = [] \<or> is_prefix_of ''0x'' addr \<and> \<not> length addr < MIN_DEPOSIT_ADDR_LEN \<and> \<not> list_all (\<lambda>c. c = CHR ''0'') (drop 2 addr) \<and>
     list_all is_ascii_hexdigit (drop 2 addr) \<and> \<not> MAX_DEPOSIT_ADDR_LEN < length addr" (is "_ \<longleftrightarrow> addr = [] \<or> ?c")
proof -
  have "?c \<longleftrightarrow> (\<exists>digits. addr = ''0x'' @ digits \<and> 8 \<le> length digits \<and> length digits \<le> 42 \<and> (\<forall>c \<in> set digits. is_ascii_hexdigit c) \<and>
      (\<exists>c \<in> set digits. c \<noteq> CHR ''0''))" (is "_ \<longleftrightarrow> (\<exists>digits. ?d digits)")
  proof
    assume c: ?c
    then obtain digits where addr: "addr = ''0x'' @ digits" unfolding is_prefix_of_iff by blast
    have "?d digits" using c unfolding addr MIN_DEPOSIT_ADDR_LEN_def MAX_DEPOSIT_ADDR_LEN_def list_all_iff by simp
    then show "\<exists>digits. ?d digits" by (rule exI)
  next
    assume "\<exists>digits. ?d digits"
    then obtain digits where d: "?d digits" by blast
    then have "addr = ''0x'' @ digits" by blast
    then show ?c using d unfolding MIN_DEPOSIT_ADDR_LEN_def MAX_DEPOSIT_ADDR_LEN_def list_all_iff by simp
  qed
  then show ?thesis unfolding deposit_ok_def by (simp only:)
qed

lemma check_deposit_addresses_iff: "check_deposit_addresses m = Inr u \<longleftrightarrow> (\<forall>(key, addr) \<in> set m. deposit_ok addr)"
proof (induction m rule: check_deposit_addresses.induct)
  case (2 key addr rest)
  then show ?case unfolding check_deposit_addresses.simps Let_def list.set ball_simps prod.case deposit_ok_iff [of addr] by simp
qed simp

lemma check_taker_fees_iff: "check_taker_fees m = Inr u \<longleftrightarrow> (\<forall>(name, bps) \<in> set m. bps \<noteq> 0)"
  by (induction m rule: check_taker_fees.induct) auto

definition risk_ok :: "('f, 'd::linorder) client_api \<Rightarrow> 'd validated_risk_config \<Rightarrow> bool" where
  "risk_ok A r \<longleftrightarrow>
     (\<forall>x \<in> {min_net_profit_pct r, pct_hard_loss_cap r, max_drawdown_pct r, max_total_exposure_pct r, max_single_position_pct r}. zero_of A < x \<and> x \<le> one_of A) \<and>
     (\<forall>x \<in> {absolute_hard_loss_cap r, stablecoin_depeg_threshold r, daily_loss_limit_usd r}. zero_of A < x) \<and> max_drawdown_pct r < one_of A \<and>
     0 < sint (max_equity_staleness_seconds r) \<and> 0 < sint (exchange_pause_duration_seconds r) \<and> 0 < exchange_failure_threshold r"

definition exchanges_ok :: "(u16 \<times> validated_exchange_config) list \<Rightarrow> bool" where
  "exchanges_ok m \<longleftrightarrow> hm_ok m \<and> 1 \<le> length m \<and> length m \<le> 64 \<and> (\<forall>(i, x) \<in> set m. vx_id x = i \<and> vx_name x \<noteq> [])"

definition config_ok :: "('f, 'd::linorder) client_api \<Rightarrow> 'd engine_config \<Rightarrow> bool" where
  "config_ok A cfg \<longleftrightarrow> risk_ok A (ec_risk cfg) \<and> exchanges_ok (ec_exchanges cfg) \<and>
     (let c = ec_cross_exchange cfg in zero_of A < vc_min_spread_pct c \<and> vc_min_spread_pct c \<le> one_of A \<and> zero_of A < vc_min_l2_liquidity_usd c \<and>
        zero_of A \<le> vc_max_slippage_tolerance c \<and> vc_max_slippage_tolerance c \<le> one_of A \<and> vc_exchanges c \<noteq> Some []) \<and>
     (let t = ec_triangular cfg in zero_of A \<le> vt_min_loop_profit_pct t \<and> vt_min_loop_profit_pct t \<le> one_of A \<and> zero_of A < vt_min_pair_volume_24h t \<and>
        3 \<le> vt_max_path_length t \<and> vt_quote_anchors t \<noteq> [] \<and> vt_exchanges t \<noteq> Some []) \<and>
     (let s = ec_stablecoin cfg in zero_of A < vs_depeg_threshold s \<and> vs_depeg_threshold s < one_of A \<and> zero_of A \<le> vs_usdt_max_pct s \<and>
        zero_of A \<le> vs_usdc_min_pct s \<and> dec_add (num_ops A) (vs_usdt_max_pct s) (vs_usdc_min_pct s) \<le> one_of A) \<and>
     (let f = ec_friction_protections cfg in zero_of A < vf_transfer_gas_fee_usd f \<and> zero_of A < vf_default_taker_fee_pct f \<and>
        vf_default_taker_fee_pct f \<le> one_of A \<and> (\<forall>(name, bps) \<in> set (vf_exchange_taker_fees f). bps \<noteq> 0)) \<and>
     (\<forall>(key, addr) \<in> set (ec_deposit_addresses cfg). deposit_ok addr)"

lemma non_empty_Some [simp]: "non_empty xs \<noteq> Some []"
  by (simp add: non_empty_def split: option.split)

lemma validate_risk_ok: "validate_risk A r = Inr risk \<Longrightarrow> risk_ok A risk"
  by (auto simp: validate_risk_def risk_ok_def word_gt_0)

lemma exchange_sections_ok: "exchange_sections env secs = Inr m \<Longrightarrow> exchanges_ok m"
  by (cases secs) (auto simp: exchange_sections_iff exchanges_ok_def hm_ok_def section_entry_def with_secrets_def Let_def comp_def CONFIG_MAX_EXCHANGES_def
      list_all_iff section_ok_def)

text \<open>
  C37: a configuration that is accepted is within its limits: fractions between zero and one, positive caps and durations, paths of at least three pairs, one to sixty-four
  exchanges under their own ids and without repetitions, no free trading, and no deposit address but a hexadecimal one that is not zero.  The exchanges are exactly the
  sections of the file, each with its secrets from the environment when it has them.
\<close>

theorem accepted_config_ok:
  assumes "load_and_validate A show_f64 env toml path contents = Inr cfg"
  shows "config_ok A cfg \<and> (\<exists>body raw. contents = Inr body \<and> toml body = Inr raw \<and>
    ec_exchanges cfg = map (\<lambda>(name, r). (re_id r, with_secrets env r)) (raw_exchanges raw))"
proof -
  obtain body raw where raw: "contents = Inr body" "toml body = Inr raw" "validate_config A show_f64 env raw = Inr cfg"
    using assms by (auto simp: load_and_validate_def split: sum.splits)
  have "config_ok A cfg" using raw(3)
    by (auto simp: validate_config_def config_ok_def validate_cross_exchange_def validate_triangular_def validate_stablecoin_def validate_friction_def Let_def
        check_deposit_addresses_iff check_taker_fees_iff dest: validate_risk_ok exchange_sections_ok)
  moreover have "section_entry env = (\<lambda>(name, r). (re_id r, with_secrets env r))" by (auto simp: section_entry_def)
  then have "ec_exchanges cfg = map (\<lambda>(name, r). (re_id r, with_secrets env r)) (raw_exchanges raw)"
    using raw(3) by (auto simp: validate_config_def exchange_sections_iff Let_def)
  ultimately show ?thesis using raw(1,2) by blast
qed

text \<open>
  The order in which the sections of the exchanges are visited does not matter: an accepted list of sections is accepted in every order, and the exchanges are the
  same map.
\<close>

theorem exchange_order_irrelevant:
  assumes "exchange_sections env secs = Inr m" "mset secs' = mset secs"
  shows "\<exists>m'. exchange_sections env secs' = Inr m' \<and> map_of m' = map_of m"
proof -
  have a: "list_all section_ok secs" "distinct (map (re_id \<circ> snd) secs)" "secs \<noteq> []" "length secs \<le> CONFIG_MAX_EXCHANGES" "m = map (section_entry env) secs"
    using assms(1) by (simp_all add: exchange_sections_iff)
  have m: "mset (map f secs') = mset (map f secs)" for f :: "string \<times> raw_exchange_config \<Rightarrow> 'x" using assms(2) by simp
  have "set secs' = set secs" using assms(2) by (rule mset_eq_setD)
  moreover have d: "distinct (map (re_id \<circ> snd) secs')" using a(2) mset_eq_imp_distinct_iff [OF m] by blast
  moreover have "length secs' = length secs" using assms(2) by (rule mset_eq_length)
  ultimately have "exchange_sections env secs' = Inr (map (section_entry env) secs')"
    using a by (auto simp: exchange_sections_iff list_all_iff)
  moreover have keys: "distinct (map fst (map (section_entry env) xs)) \<longleftrightarrow> distinct (map (re_id \<circ> snd) xs)" for xs
    by (simp add: comp_def section_entry_def)
  have "map_of (map (section_entry env) secs') = map_of m"
    using d a(2) \<open>set secs' = set secs\<close> unfolding a(5) by (subst map_of_inject_set) (simp_all add: keys del: map_map)
  ultimately show ?thesis by blast
qed

text \<open>A configuration of one exchange, with whole numbers as decimals: fractions are one hundred percent or nothing.\<close>

definition sample_exchange :: raw_exchange_config where
  "sample_exchange = \<lparr>re_id = 0, re_name = ''Binance'', re_api_key = ''k'', re_api_secret = ''s'', re_passphrase = None, re_wss_url = ''w'', re_rest_url = ''r''\<rparr>"

lemma sample_accepted:
  "exchange_sections (\<lambda>_. None) [(''Binance'', sample_exchange), (''OKX'', sample_exchange\<lparr>re_id := 2, re_name := ''OKX''\<rparr>)] =
     Inr [(0, with_secrets (\<lambda>_. None) sample_exchange), (2, with_secrets (\<lambda>_. None) (sample_exchange\<lparr>re_id := 2, re_name := ''OKX''\<rparr>))]"
  by (simp add: exchange_sections_iff section_ok_def section_entry_def sample_exchange_def CONFIG_MAX_EXCHANGES_def)

theorem exchange_order_irrelevant_witness:
  "\<exists>m'. exchange_sections (\<lambda>_. None) [(''OKX'', sample_exchange\<lparr>re_id := 2, re_name := ''OKX''\<rparr>), (''Binance'', sample_exchange)] = Inr m' \<and>
     map_of m' = map_of [(0, with_secrets (\<lambda>_. None) sample_exchange), (2, with_secrets (\<lambda>_. None) (sample_exchange\<lparr>re_id := 2, re_name := ''OKX''\<rparr>))]"
  by (rule exchange_order_irrelevant [OF sample_accepted]) simp

text \<open>Decimals in percent: the number one is a hundred of them.\<close>

definition percent_api :: "(int, int) client_api" where
  "percent_api =
     \<lparr>from_str = (\<lambda>s. Inl ''no JSON''), json_text = (\<lambda>_. ''null''), num_ops = int_exec\<lparr>dec_from_int := (\<lambda>n. 100 * n)\<rparr>,
      read_decimal = (\<lambda>s. case parse_u64 s of None \<Rightarrow> Inl ''not a number'' | Some n \<Rightarrow> Inr (uint n)), decimal_json = (\<lambda>_. JNull),
      float_decimal = (\<lambda>x. case x of Float f \<Rightarrow> Some f | _ \<Rightarrow> None), read_float = (\<lambda>_. None), map_order = id,
      hmac_sha256 = (\<lambda>key msg. key @ msg), hmac_sha384 = (\<lambda>key msg. key @ msg), hmac_sha512 = (\<lambda>key msg. key @ msg), sha256 = id,
      hex = id, base64 = id, unbase64 = Inr, header_ok = (\<lambda>_. True)\<rparr>"

definition sample_raw :: "int raw_config" where
  "sample_raw =
     \<lparr>raw_force_live_mode = False, raw_vps = \<lparr>pinned_cpu_core = 0, network_interface_backlog = 0\<rparr>,
      raw_discord = \<lparr>webhook_url = [], buffer_capacity = 1\<rparr>,
      raw_cross = \<lparr>rc_enabled = True, rc_min_spread_pct = ''1'', rc_max_target_latency_ms = 5, rc_min_l2_liquidity_usd = ''1'',
        rc_max_slippage_tolerance = ''0'', rc_exchanges = Some []\<rparr>,
      raw_triangular = \<lparr>rt_enabled = True, rt_min_loop_profit_pct = ''0'', rt_max_path_length = 3, rt_min_pair_volume_24h = ''1'',
        rt_quote_anchors = [''USDT''], rt_exchanges = None\<rparr>,
      raw_exchanges = [(''Binance'', sample_exchange)],
      raw_risk = \<lparr>rl_min_net_profit_pct = ''1'', rl_max_equity_staleness_seconds = 60, rl_absolute_hard_loss_cap = ''9'', rl_pct_hard_loss_cap = ''2'',
        rl_max_drawdown_pct = ''5'', rl_max_total_exposure_pct = ''9'', rl_max_single_position_pct = ''9'', rl_exchange_failure_threshold = 3,
        rl_exchange_pause_duration_seconds = 60, rl_stablecoin_depeg_threshold = ''2'', rl_daily_loss_limit_usd = ''9''\<rparr>,
      raw_stablecoin = \<lparr>rs_depeg_threshold = 99, rs_usdt_max_pct = 80, rs_usdc_min_pct = 20, rs_monitored_symbols = []\<rparr>,
      raw_friction = \<lparr>rf_transfer_gas_fee_usd = ''2'', rf_fee_aware_enabled = True, rf_default_taker_fee_pct = ''1'', rf_exchange_taker_fees = [(''Binance'', 10)]\<rparr>,
      raw_deposit_addresses = [(''Binance_eth'', ''0x00000001''), (''OKX_eth'', [])]\<rparr>"

lemma percent_digit:
  "read_decimal percent_api ''0'' = Inr 0" "read_decimal percent_api ''1'' = Inr 1" "read_decimal percent_api ''2'' = Inr 2"
  "read_decimal percent_api ''5'' = Inr 5" "read_decimal percent_api ''9'' = Inr 9"
  by (simp_all add: percent_api_def parse_u64_def digit_value_def)

lemma percent_ops: "zero_of percent_api = 0" "one_of percent_api = 100" "dec_add (num_ops percent_api) = (+)" "float_decimal percent_api (Float f) = Some f"
  by (simp_all add: percent_api_def int_exec_def)

text \<open>
  A minimal profit of nothing for a triangle is accepted, and an address with eight digits behind its prefix.
\<close>

lemma sample_sections:
  "\<exists>c. validate_cross_exchange percent_api (raw_cross sample_raw) = Inr c"
  "\<exists>t. validate_triangular percent_api (raw_triangular sample_raw) = Inr t \<and> vt_min_loop_profit_pct t = 0"
  "\<exists>r. validate_risk percent_api (raw_risk sample_raw) = Inr r"
  "\<exists>s. validate_stablecoin percent_api (\<lambda>_. []) (raw_stablecoin sample_raw) = Inr s"
  "\<exists>f. validate_friction percent_api (raw_friction sample_raw) = Inr f"
  by (simp_all add: validate_cross_exchange_def validate_triangular_def validate_risk_def validate_stablecoin_def validate_friction_def percent_digit percent_ops
      sample_raw_def word_le_nat_alt)

lemma short_address_accepted: "deposit_ok ''0x00000001'' \<and> length (drop 2 ''0x00000001'') = 8"
  by (simp add: deposit_ok_iff MIN_DEPOSIT_ADDR_LEN_def MAX_DEPOSIT_ADDR_LEN_def is_ascii_hexdigit_def)

lemma zero_loop_profit_accepted:
  "\<exists>cfg. load_and_validate percent_api (\<lambda>_. []) (\<lambda>_. None) (\<lambda>_. Inr sample_raw) [] (Inr []) = Inr cfg \<and> vt_min_loop_profit_pct (ec_triangular cfg) = 0"
proof -
  obtain c t r s f where sections: "validate_cross_exchange percent_api (raw_cross sample_raw) = Inr c"
    "validate_triangular percent_api (raw_triangular sample_raw) = Inr t" "vt_min_loop_profit_pct t = 0"
    "validate_risk percent_api (raw_risk sample_raw) = Inr r" "validate_stablecoin percent_api (\<lambda>_. []) (raw_stablecoin sample_raw) = Inr s"
    "validate_friction percent_api (raw_friction sample_raw) = Inr f"
    using sample_sections by auto
  have "exchange_sections (\<lambda>_. None) (raw_exchanges sample_raw) = Inr [(0, with_secrets (\<lambda>_. None) sample_exchange)]"
    by (simp add: exchange_sections_iff section_ok_def section_entry_def sample_exchange_def sample_raw_def CONFIG_MAX_EXCHANGES_def)
  moreover have "check_deposit_addresses (raw_deposit_addresses sample_raw) = Inr ()"
    using short_address_accepted by (simp add: check_deposit_addresses_iff sample_raw_def deposit_ok_def [of "[]"] del: check_deposit_addresses.simps)
  ultimately show ?thesis using sections by (simp add: load_and_validate_def validate_config_def Let_def del: checks_Inr)
qed

theorem accepted_config_ok_witness:
  "\<exists>cfg. load_and_validate percent_api (\<lambda>_. []) (\<lambda>_. None) (\<lambda>_. Inr sample_raw) [] (Inr []) = Inr cfg \<and> config_ok percent_api cfg"
  using zero_loop_profit_accepted accepted_config_ok [of percent_api "\<lambda>_. []" "\<lambda>_. None" "\<lambda>_. Inr sample_raw" "[]" "Inr []"] by blast

end
