(* ===== verification/Withdrawals.thy ===== *)
theory Withdrawals
  imports Withdrawal_Venues Engine_Configs Asset_Inventory "HOL-Library.Sublist"
begin

text \<open>
  The executor of withdrawals, \<^verbatim>\<open>src/src/withdrawal.rs\<close>: its checks, the choice of the exchange, the fees and the transfers of the rebalancing.  The contract that the
  exchanges share is the locale \<open>withdrawal_venue\<close>, and the executor fulfils it as well.
\<close>

section \<open>The executor\<close>

text \<open>The provider of balances is a trait that others implement: a function.\<close>

record 'd withdrawal_executor =
  we_rest_urls :: "(u16 \<times> string) list"
  we_credentials :: "(u16 \<times> exchange_credentials) list"
  we_balance_provider :: "(u16 \<Rightarrow> string \<Rightarrow> 'd option) option"

definition credentials_of :: "validated_exchange_config \<Rightarrow> exchange_credentials" where
  "credentials_of cfg =
     (case vx_passphrase cfg of
        Some pp \<Rightarrow> credentials_with_passphrase (vx_api_key cfg) (vx_api_secret cfg) pp
      | None \<Rightarrow> credentials_new (vx_api_key cfg) (vx_api_secret cfg))"

definition withdrawal_executor_new ::
  "(u16 \<times> string) list \<Rightarrow> (u16 \<times> validated_exchange_config) list \<Rightarrow> (u16 \<Rightarrow> string \<Rightarrow> 'd option) option \<Rightarrow> 'd withdrawal_executor" where
  "withdrawal_executor_new rest_urls configs provider =
     \<lparr>we_rest_urls = rest_urls, we_credentials = map (\<lambda>(i, cfg). (i, credentials_of cfg)) configs, we_balance_provider = provider\<rparr>"

definition set_balance_provider :: "(u16 \<Rightarrow> string \<Rightarrow> 'd option) \<Rightarrow> 'd withdrawal_executor \<Rightarrow> 'd withdrawal_executor" where
  "set_balance_provider provider ex = ex\<lparr>we_balance_provider := Some provider\<rparr>"

text \<open>The checks before anything is sent: an error, or nothing.\<close>

definition withdrawal_check :: "('f, 'd::linorder) client_api \<Rightarrow> 'd withdrawal_executor \<Rightarrow> 'd withdrawal_request \<Rightarrow> string + unit" where
  "withdrawal_check A ex req =
     (let name = exchange_name_by_id (wq_exchange req); addr = str_trim (wq_address req)
      in if wq_amount req \<le> zero_of A
         then Inl (''withdrawal amount must be positive, got '' @ show_dec A (wq_amount req) @ '' for '' @ wq_currency req @ '' on exchange '' @ name)
         else if addr = [] then Inl ''withdrawal address must not be empty''
         else if str_trim (wq_network req) = [] then Inl ''withdrawal network must not be empty''
         else if length addr < 10 then Inl (''withdrawal address too short ('' @ digits_of (length addr) @ '' chars) '' @ dash @ '' likely invalid'')
         else case we_balance_provider ex of
                None \<Rightarrow> Inr ()
              | Some provider \<Rightarrow>
                  (case provider (wq_exchange req) (wq_currency req) of
                     None \<Rightarrow> Inr ()
                   | Some available \<Rightarrow>
                       if available < wq_amount req
                       then Inl (''insufficient balance for withdrawal: available '' @ show_dec A available @ '' '' @ wq_currency req @ '' on '' @ name @
                              '' (requested '' @ show_dec A (wq_amount req) @ '')'')
                       else Inr ()))"

definition withdrawal_dispatch ::
  "('f, 'd) client_api \<Rightarrow> clock \<Rightarrow> string \<Rightarrow> 'd withdrawal_executor \<Rightarrow> 'd withdrawal_request \<Rightarrow> (string + 'd withdrawal_result) http" where
  "withdrawal_dispatch A clk utc ex req =
     (let i = wq_exchange req; creds = map_of (we_credentials ex) i; url = map_of (we_rest_urls ex) i
      in if i = 0 then withdraw_binance A clk creds url req
         else if i = 1 then withdraw_bybit A clk creds url req
         else if i = 2 then withdraw_okx A utc creds url req
         else if i = 3 then withdraw_gateio A clk creds url req
         else if i = 4 then withdraw_kucoin A clk creds url req
         else if i = 6 then withdraw_bitget A clk creds url req
         else if i = 9 then withdraw_htx A clk creds url req
         else if i = 10 then withdraw_kraken A clk creds url req
         else if i = 15 then withdraw_mexc A clk creds url req
         else Return (Inl (''withdrawal not implemented for exchange '' @ exchange_name_by_id i @ '' (id '' @ show_word i @ '')'')))"

definition execute_withdrawal ::
  "('f, 'd::linorder) client_api \<Rightarrow> clock \<Rightarrow> string \<Rightarrow> 'd withdrawal_executor \<Rightarrow> 'd withdrawal_request \<Rightarrow> (string + 'd withdrawal_result) http" where
  "execute_withdrawal A clk utc ex req =
     (case withdrawal_check A ex req of Inl err \<Rightarrow> Return (Inl err) | Inr _ \<Rightarrow> withdrawal_dispatch A clk utc ex req)"

definition get_withdrawal_fee ::
  "('f, 'd) client_api \<Rightarrow> clock \<Rightarrow> string \<Rightarrow> 'd withdrawal_executor \<Rightarrow> u16 \<Rightarrow> string \<Rightarrow> string \<Rightarrow> (string + 'd) http" where
  "get_withdrawal_fee A clk utc ex i currency network =
     (case map_of (we_credentials ex) i of
        None \<Rightarrow> Return (Inl (''no credentials for exchange id '' @ show_word i))
      | Some c \<Rightarrow>
          (case map_of (we_rest_urls ex) i of
             None \<Rightarrow> Return (Inl (''no REST URL for exchange id '' @ show_word i))
           | Some u \<Rightarrow>
               if i = 0 then fee_binance A clk u c currency network
               else if i = 1 then fee_bybit A clk u c currency network
               else if i = 2 then fee_okx A utc u c currency network
               else if i = 3 then fee_gateio A clk u c currency network
               else if i = 4 then fee_kucoin A clk u c currency network
               else if i = 6 then fee_bitget A clk u c currency network
               else if i = 9 then fee_htx A clk u c currency network
               else if i = 10 then fee_kraken A clk u c currency network
               else if i = 15 then fee_binance A clk u c currency network
               else Return (Inl (''fee query not implemented for exchange id '' @ show_word i))))"

definition execute_rebalance_transfer ::
  "('f, 'd::linorder) client_api \<Rightarrow> clock \<Rightarrow> string \<Rightarrow> 'd withdrawal_executor \<Rightarrow> u16 \<Rightarrow> u16 \<Rightarrow> string \<Rightarrow> 'd \<Rightarrow> string \<Rightarrow> string \<Rightarrow>
   (string + 'd withdrawal_result) http" where
  "execute_rebalance_transfer A clk utc ex src dst currency amount address network =
     execute_withdrawal A (\<lambda>i. clk (Suc i)) utc ex
       \<lparr>wq_exchange = src, wq_currency = currency, wq_amount = amount, wq_address = address, wq_network = network,
        wq_client_id = Some (''rebal_'' @ show_word src @ ''_'' @ show_word dst @ ''_'' @ show_word (clk 0))\<rparr>"

section \<open>The contract\<close>

text \<open>The body is covered by a signature with the secret of the account.\<close>

definition sealed :: "('f, 'd) client_api \<Rightarrow> exchange_credentials \<Rightarrow> http_request \<Rightarrow> bool" where
  "sealed A c rq \<longleftrightarrow> rq_method rq = POST \<and> (\<exists>body. rq_body rq = Some body \<and>
     ((\<exists>query. body = signed_form A (wc_secret c) query) \<or>
      (\<exists>msg name sign. (name, sign) \<in> set (rq_headers rq) \<and> suffix body msg \<and>
        (sign = hmac_hex A (wc_secret c) msg \<or> sign = hmac_base64 A (wc_secret c) msg \<or>
         (\<exists>key. unbase64 A (wc_secret c) = Inr key \<and> sign = wd_kraken_sign A key msg)))))"

text \<open>The body names the currency, the amount and the address of the request, as members of an object or as parameters.\<close>

definition names_transfer :: "('f, 'd) client_api \<Rightarrow> 'd withdrawal_request \<Rightarrow> http_request \<Rightarrow> bool" where
  "names_transfer A req rq \<longleftrightarrow>
     (\<exists>entries. rq_body rq = Some (json_text A (JObject entries)) \<and>
        {JString (wq_currency req), JString (show_dec A (wq_amount req)), JString (wq_address req)} \<subseteq> snd ` set entries) \<or>
     (\<exists>ps rest. rq_body rq = Some (query_text ps @ rest) \<and>
        {wq_currency req, show_dec A (wq_amount req), wq_address req} \<subseteq> snd ` set ps)"

text \<open>A withdrawal ends with an error without a request, or sends one and is only successful when the reply is.\<close>

definition one_withdrawal :: "('f, 'd) client_api \<Rightarrow> exchange_credentials option \<Rightarrow> string option \<Rightarrow> 'd withdrawal_request \<Rightarrow> (string + 'd withdrawal_result) http \<Rightarrow> bool" where
  "one_withdrawal A creds url req p \<longleftrightarrow> (\<exists>err. p = Return (Inl err)) \<or>
     (\<exists>c base path label rq parse. creds = Some c \<and> url = Some base \<and> p = send_withdrawal label rq parse \<and> rq_url rq = base @ path \<and>
        sealed A c rq \<and> names_transfer A req rq \<and> (\<forall>status body r. parse status body = Inr r \<longrightarrow> wr_success r \<longrightarrow> is_success status))"

locale withdrawal_venue =
  fixes A :: "('f, 'd) client_api"
    and creds :: "'d withdrawal_request \<Rightarrow> exchange_credentials option"
    and url :: "'d withdrawal_request \<Rightarrow> string option"
    and withdraw :: "'d withdrawal_request \<Rightarrow> (string + 'd withdrawal_result) http"
  assumes withdraws_once: "one_withdrawal A (creds req) (url req) req (withdraw req)"
begin

lemma request_sealed:
  assumes "rq \<in> set (fst (run_http (withdraw req) rps))"
  shows "\<exists>c base path. creds req = Some c \<and> url req = Some base \<and> rq_url rq = base @ path \<and> sealed A c rq \<and> names_transfer A req rq"
  using assms withdraws_once [of req] unfolding one_withdrawal_def send_withdrawal_def
  by (cases rps) (auto split: http_reply.splits sum.splits)

lemma one_request: "length (fst (run_http (withdraw req) rps)) \<le> 1"
  using withdraws_once [of req] unfolding one_withdrawal_def send_withdrawal_def
  by (cases rps) (auto split: http_reply.split sum.split)

lemma success_confirmed:
  assumes "run_http (withdraw req) rps = (rqs, Some (Inr r))" "wr_success r"
  shows "\<exists>status shown body rest. rps = Response status shown (Inr body) # rest \<and> is_success status \<and> length rqs = 1"
  using assms withdraws_once [of req] unfolding one_withdrawal_def send_withdrawal_def
  by (cases rps) (auto split: http_reply.splits sum.splits)

end

section \<open>Every exchange fulfils it\<close>

text \<open>A reader of replies is honest when it reports success only for a status that is one.\<close>

definition honest_reader :: "(nat \<Rightarrow> string \<Rightarrow> string + 'd withdrawal_result) \<Rightarrow> bool" where
  "honest_reader parse \<longleftrightarrow> (\<forall>status body r. parse status body = Inr r \<longrightarrow> wr_success r \<longrightarrow> is_success status)"

lemma withdrawal_json_honest:
  "(\<And>v. wr_success (res v) \<Longrightarrow> is_success status) \<Longrightarrow> parse_withdrawal_json A label body res = Inr r \<Longrightarrow> wr_success r \<Longrightarrow> is_success status"
  by (auto simp: parse_withdrawal_json_def split: sum.splits)

lemma rejected_granted [simp]: "\<not> wr_success (rejected_with A msg)" "wr_success (granted_with wid fee)"
  by (simp_all add: rejected_with_def granted_with_def)

lemma readers_honest:
  "honest_reader (parse_binance_withdrawal_response A)" "honest_reader (parse_bybit_withdrawal_response A)" "honest_reader (parse_okx_withdrawal_response A)"
  "honest_reader (parse_gateio_withdrawal_response A)" "honest_reader (parse_kucoin_withdrawal_response A)" "honest_reader (parse_bitget_withdrawal_response A)"
  "honest_reader (parse_htx_withdrawal_response A)" "honest_reader (parse_kraken_withdrawal_response A)"
  unfolding honest_reader_def parse_binance_withdrawal_response_def parse_bybit_withdrawal_response_def parse_okx_withdrawal_response_def
    parse_gateio_withdrawal_response_def parse_kucoin_withdrawal_response_def parse_bitget_withdrawal_response_def parse_htx_withdrawal_response_def
    parse_kraken_withdrawal_response_def Let_def
  by (auto elim!: withdrawal_json_honest [rotated] split: if_splits)

lemma one_withdrawal_account:
  "(\<And>c base. one_withdrawal A (Some c) (Some base) req (k c base)) \<Longrightarrow> one_withdrawal A creds url req (with_account label creds url k)"
  by (auto simp: with_account_def one_withdrawal_def split: option.split)

lemma one_withdrawal_send:
  "rq_url rq = base @ path \<Longrightarrow> sealed A c rq \<Longrightarrow> names_transfer A req rq \<Longrightarrow> honest_reader parse \<Longrightarrow>
   one_withdrawal A (Some c) (Some base) req (send_withdrawal label rq parse)"
  unfolding one_withdrawal_def honest_reader_def by blast

lemma sealed_form: "rq_method rq = POST \<Longrightarrow> rq_body rq = Some (signed_form A (wc_secret c) query) \<Longrightarrow> sealed A c rq"
  unfolding sealed_def by blast

lemma sealed_header:
  "rq_method rq = POST \<Longrightarrow> rq_body rq = Some body \<Longrightarrow> (name, sign) \<in> set (rq_headers rq) \<Longrightarrow> suffix body msg \<Longrightarrow>
   sign = hmac_hex A (wc_secret c) msg \<or> sign = hmac_base64 A (wc_secret c) msg \<or> (\<exists>key. unbase64 A (wc_secret c) = Inr key \<and> sign = wd_kraken_sign A key msg) \<Longrightarrow>
   sealed A c rq"
  unfolding sealed_def by blast

lemma names_transfer_object:
  "rq_body rq = Some (json_text A (JObject entries)) \<Longrightarrow>
   {JString (wq_currency req), JString (show_dec A (wq_amount req)), JString (wq_address req)} \<subseteq> snd ` set entries \<Longrightarrow> names_transfer A req rq"
  unfolding names_transfer_def by blast

lemma names_transfer_params:
  "rq_body rq = Some (query_text ps @ rest) \<Longrightarrow> {wq_currency req, show_dec A (wq_amount req), wq_address req} \<subseteq> snd ` set ps \<Longrightarrow> names_transfer A req rq"
  unfolding names_transfer_def by blast

text \<open>The three ways to send: a signed form, a signed object, and the form of Kraken.\<close>

lemma form_withdrawal:
  assumes "query = query_text ps @ rest" "{wq_currency req, show_dec A (wq_amount req), wq_address req} \<subseteq> snd ` set ps" "honest_reader parse"
  shows "one_withdrawal A (Some c) (Some base) req (send_withdrawal label
    \<lparr>rq_method = POST, rq_url = base @ path, rq_headers = hs, rq_body = Some (signed_form A (wc_secret c) query)\<rparr> parse)"
proof (rule one_withdrawal_send [OF _ _ _ assms(3)])
  show "sealed A c \<lparr>rq_method = POST, rq_url = base @ path, rq_headers = hs, rq_body = Some (signed_form A (wc_secret c) query)\<rparr>"
    by (rule sealed_form) simp_all
  show "names_transfer A req \<lparr>rq_method = POST, rq_url = base @ path, rq_headers = hs, rq_body = Some (signed_form A (wc_secret c) query)\<rparr>"
    by (rule names_transfer_params [OF _ assms(2), where rest = "rest @ ''&signature='' @ hmac_hex A (wc_secret c) query"]) (simp add: signed_form_def assms(1))
qed simp

lemma object_withdrawal:
  assumes "hs = h # (name, sign) # hs'" "sign = hmac_hex A (wc_secret c) msg \<or> sign = hmac_base64 A (wc_secret c) msg"
    "suffix (json_text A (JObject entries)) msg"
    "{JString (wq_currency req), JString (show_dec A (wq_amount req)), JString (wq_address req)} \<subseteq> snd ` set entries" "honest_reader parse"
  shows "one_withdrawal A (Some c) (Some base) req (send_withdrawal label
    \<lparr>rq_method = POST, rq_url = base @ path, rq_headers = hs, rq_body = Some (json_text A (JObject entries))\<rparr> parse)"
proof (rule one_withdrawal_send [OF _ _ _ assms(5)])
  show "sealed A c \<lparr>rq_method = POST, rq_url = base @ path, rq_headers = hs, rq_body = Some (json_text A (JObject entries))\<rparr>"
    by (rule sealed_header [OF _ _ _ assms(3), of _ name sign]) (use assms(1,2) in auto)
  show "names_transfer A req \<lparr>rq_method = POST, rq_url = base @ path, rq_headers = hs, rq_body = Some (json_text A (JObject entries))\<rparr>"
    using assms(4) by (intro names_transfer_object) simp_all
qed simp

lemmas object_hex = object_withdrawal [OF _ disjI1 [OF refl]]
lemmas object_base64 = object_withdrawal [OF _ disjI2 [OF refl]]

interpretation wd_binance: withdrawal_venue A "\<lambda>_. creds" "\<lambda>_. url" "withdraw_binance A clk creds url" for A clk creds url
proof (unfold_locales, unfold withdraw_binance_def, rule one_withdrawal_account)
  fix c base and req :: "'b withdrawal_request"
  let ?ps = "[(''address'', wq_address req), (''amount'', show_dec A (wq_amount req)), (''coin'', wq_currency req), (''network'', wq_network req)] @
    opt_param ''withdrawOrderId'' (wq_client_id req)"
  have "query_text ?ps \<noteq> []" by (cases "wq_client_id req") (simp_all add: query_text_def opt_param_def)
  then show "one_withdrawal A (Some c) (Some base) req (let base_query = query_text ?ps;
      query_with_ts = (if base_query = [] then ''timestamp='' @ show_word (clk 0) else base_query @ ''&timestamp='' @ show_word (clk 0))
    in send_withdrawal ''Binance''
         \<lparr>rq_method = POST, rq_url = base @ ''/sapi/v1/capital/withdraw/apply'', rq_headers = [(''X-MBX-APIKEY'', wc_key c), form_content],
          rq_body = Some (signed_form A (wc_secret c) query_with_ts)\<rparr> (parse_binance_withdrawal_response A))"
    unfolding Let_def by (simp only: if_False) (rule form_withdrawal [OF refl _ readers_honest(1)], simp)
qed

interpretation wd_mexc: withdrawal_venue A "\<lambda>_. creds" "\<lambda>_. url" "withdraw_mexc A clk creds url" for A clk creds url
  by (unfold_locales, unfold withdraw_mexc_def Let_def, rule one_withdrawal_account, rule form_withdrawal [OF refl _ readers_honest(1)]) simp

interpretation wd_bybit: withdrawal_venue A "\<lambda>_. creds" "\<lambda>_. url" "withdraw_bybit A clk creds url" for A clk creds url
  by (unfold_locales, unfold withdraw_bybit_def wd_bybit_headers_def Let_def append_Cons append_Nil, rule one_withdrawal_account, rule object_hex [OF refl _ _ readers_honest(2)])
    (intro suffix_appendI suffix_ConsI suffix_order.refl, simp)

interpretation wd_okx: withdrawal_venue A "\<lambda>_. creds" "\<lambda>_. url" "withdraw_okx A utc creds url" for A utc creds url
  by (unfold_locales, unfold withdraw_okx_def okx_headers_def Let_def append_Cons append_Nil, rule one_withdrawal_account, rule object_base64 [OF refl _ _ readers_honest(3)])
    (intro suffix_appendI suffix_ConsI suffix_order.refl, simp)

interpretation wd_gateio: withdrawal_venue A "\<lambda>_. creds" "\<lambda>_. url" "withdraw_gateio A clk creds url" for A clk creds url
  by (unfold_locales, unfold withdraw_gateio_def gateio_headers_def Let_def append_Cons append_Nil, rule one_withdrawal_account, rule object_hex [OF refl _ _ readers_honest(4)])
    (intro suffix_appendI suffix_ConsI suffix_order.refl, simp)

interpretation wd_kucoin: withdrawal_venue A "\<lambda>_. creds" "\<lambda>_. url" "withdraw_kucoin A clk creds url" for A clk creds url
  by (unfold_locales, unfold withdraw_kucoin_def kucoin_headers_def Let_def append_Cons append_Nil, rule one_withdrawal_account, rule object_base64 [OF refl _ _ readers_honest(5)])
    (intro suffix_appendI suffix_ConsI suffix_order.refl, simp)

interpretation wd_bitget: withdrawal_venue A "\<lambda>_. creds" "\<lambda>_. url" "withdraw_bitget A clk creds url" for A clk creds url
  by (unfold_locales, unfold withdraw_bitget_def bitget_headers_def Let_def append_Cons append_Nil, rule one_withdrawal_account, rule object_base64 [OF refl _ _ readers_honest(6)])
    (intro suffix_appendI suffix_ConsI suffix_order.refl, simp)

interpretation wd_htx: withdrawal_venue A "\<lambda>_. creds" "\<lambda>_. url" "withdraw_htx A clk creds url" for A clk creds url
  by (unfold_locales, unfold withdraw_htx_def htx_headers_def Let_def append_Cons append_Nil, rule one_withdrawal_account, rule object_hex [OF refl _ _ readers_honest(7)])
    (intro suffix_appendI suffix_ConsI suffix_order.refl, simp)

interpretation wd_kraken: withdrawal_venue A "\<lambda>_. creds" "\<lambda>_. url" "withdraw_kraken A clk creds url" for A clk creds url
proof (unfold_locales, unfold withdraw_kraken_def Let_def, rule one_withdrawal_account)
  fix c base and req :: "'b withdrawal_request"
  let ?ps = "[(''amount'', show_dec A (wq_amount req)), (''asset'', wq_currency req), (''key'', wq_address req), (''nonce'', show_word (clk 0))]"
  let ?rq = "\<lambda>key. \<lparr>rq_method = POST, rq_url = base @ ''/0/private/Withdraw'',
    rq_headers = kraken_headers c (wd_kraken_sign A key (show_word (clk 0) @ ''/0/private/Withdraw'' @ query_text ?ps)), rq_body = Some (query_text ?ps)\<rparr>"
  have suf: "suffix (query_text ?ps) (show_word (clk 0) @ ''/0/private/Withdraw'' @ query_text ?ps)"
    by (intro suffix_appendI suffix_ConsI suffix_order.refl)
  have "sealed A c (?rq key)" if "unbase64 A (wc_secret c) = Inr key" for key
    by (rule sealed_header [OF _ _ _ suf, of _ "''API-Sign''"]) (use that in \<open>auto simp: kraken_headers_def\<close>)
  moreover have "names_transfer A req (?rq key)" for key by (rule names_transfer_params [of _ ?ps "[]"]) simp_all
  ultimately show "one_withdrawal A (Some c) (Some base) req (case unbase64 A (wc_secret c) of
      Inl err \<Rightarrow> Return (Inl (''Kraken withdrawal: failed to decode API secret: '' @ err))
    | Inr key_bytes \<Rightarrow> send_withdrawal ''Kraken'' (?rq key_bytes) (parse_kraken_withdrawal_response A))"
    by (cases "unbase64 A (wc_secret c)") (auto intro!: one_withdrawal_send readers_honest simp: one_withdrawal_def [of _ _ _ _ "Return x" for x])
qed

section \<open>The executor fulfils it\<close>

lemmas venues_once = wd_binance.withdraws_once wd_bybit.withdraws_once wd_okx.withdraws_once wd_gateio.withdraws_once wd_kucoin.withdraws_once
  wd_bitget.withdraws_once wd_htx.withdraws_once wd_kraken.withdraws_once wd_mexc.withdraws_once

lemma not_sent: "one_withdrawal A creds url req (Return (Inl err))"
  unfolding one_withdrawal_def by blast

lemma dispatch_once:
  "one_withdrawal A (map_of (we_credentials ex) (wq_exchange req)) (map_of (we_rest_urls ex) (wq_exchange req)) req (withdrawal_dispatch A clk utc ex req)"
  unfolding withdrawal_dispatch_def Let_def by (simp add: venues_once not_sent)

interpretation executor: withdrawal_venue A "\<lambda>req. map_of (we_credentials ex) (wq_exchange req)" "\<lambda>req. map_of (we_rest_urls ex) (wq_exchange req)"
    "execute_withdrawal A clk utc ex" for A clk utc ex
  by unfold_locales (auto simp: execute_withdrawal_def not_sent dispatch_once split: sum.split)

lemma check_passed:
  "withdrawal_check A ex req = Inr u \<Longrightarrow> zero_of A < wq_amount req \<and> 10 \<le> length (str_trim (wq_address req)) \<and> str_trim (wq_network req) \<noteq> [] \<and>
     (\<forall>provider available. we_balance_provider ex = Some provider \<longrightarrow> provider (wq_exchange req) (wq_currency req) = Some available \<longrightarrow> wq_amount req \<le> available)"
  by (auto simp: withdrawal_check_def Let_def not_le not_less split: if_splits option.splits)

text \<open>
  C21: a withdrawal is sent at most once, and only when the amount is positive and covered by the known balance, the address long enough and the network named.  The request goes to the
  address of the exchange, names the currency, the amount and the destination, and its body is covered by a signature with the secret of that exchange's account.  Success is reported only
  when the exchange answered with success.
\<close>

theorem withdrawal_sound:
  fixes A :: "('f, 'd::linorder) client_api"
  assumes "run_http (execute_withdrawal A clk utc ex req) rps = (rqs, res)"
  shows "length rqs \<le> 1 \<and>
    (\<forall>rq \<in> set rqs. zero_of A < wq_amount req \<and> 10 \<le> length (str_trim (wq_address req)) \<and> str_trim (wq_network req) \<noteq> [] \<and>
       (\<forall>provider available. we_balance_provider ex = Some provider \<longrightarrow> provider (wq_exchange req) (wq_currency req) = Some available \<longrightarrow> wq_amount req \<le> available) \<and>
       (\<exists>c base path. map_of (we_credentials ex) (wq_exchange req) = Some c \<and> map_of (we_rest_urls ex) (wq_exchange req) = Some base \<and>
          rq_url rq = base @ path \<and> sealed A c rq \<and> names_transfer A req rq)) \<and>
    (\<forall>r. res = Some (Inr r) \<longrightarrow> wr_success r \<longrightarrow>
       (\<exists>status shown body rest. rps = Response status shown (Inr body) # rest \<and> is_success status \<and> length rqs = 1))"
proof -
  have rqs: "rqs = fst (run_http (execute_withdrawal A clk utc ex req) rps)" using assms by simp
  have "withdrawal_check A ex req = Inr ()" if "rqs \<noteq> []"
    using that rqs by (cases "withdrawal_check A ex req") (simp_all add: execute_withdrawal_def)
  moreover have "length rqs \<le> 1" unfolding rqs by (rule executor.one_request)
  moreover have "\<exists>status shown body rest. rps = Response status shown (Inr body) # rest \<and> is_success status \<and> length rqs = 1"
    if "res = Some (Inr r)" "wr_success r" for r
    using executor.success_confirmed [of A clk utc ex req rps rqs r] assms that by simp
  ultimately show ?thesis using executor.request_sealed [of _ A clk utc ex req rps] check_passed [of A ex req] unfolding rqs by fastforce
qed

definition sample_executor :: "int withdrawal_executor" where
  "sample_executor = withdrawal_executor_new [(0, ''https://b'')] [(0, with_secrets (\<lambda>_. None) sample_exchange)] (Some (\<lambda>_ _. Some 100))"

definition sample_withdrawal :: "int withdrawal_request" where
  "sample_withdrawal = \<lparr>wq_exchange = 0, wq_currency = ''USDT'', wq_amount = 7, wq_address = ''0123456789'', wq_network = ''ETH'', wq_client_id = None\<rparr>"

lemma sample_withdrawal_runs:
  "\<exists>rq. run_http (execute_withdrawal plain_api (\<lambda>_. 5) [] sample_executor sample_withdrawal) [Response 200 ''200 OK'' (Inr ''null'')] = ([rq], Some (Inr (granted_with None 0)))"
proof -
  have "withdrawal_check plain_api sample_executor sample_withdrawal = Inr ()"
    by (simp add: withdrawal_check_def sample_executor_def withdrawal_executor_new_def sample_withdrawal_def plain_api_def int_exec_def str_trim_def is_ws_def)
  moreover have "parse_binance_withdrawal_response plain_api 200 ''null'' = Inr (granted_with None 0)"
    by (simp add: parse_binance_withdrawal_response_def is_success_def parse_withdrawal_json_def plain_api_def int_exec_def json_get_def str_dec_def or_dec_def get_str_def
        unwrap_or_def)
  ultimately show ?thesis
    by (simp add: execute_withdrawal_def withdrawal_dispatch_def withdraw_binance_def with_account_def sample_executor_def withdrawal_executor_new_def
        sample_withdrawal_def send_withdrawal_def Let_def)
qed

theorem withdrawal_sound_witness:
  "\<exists>rq c. run_http (execute_withdrawal plain_api (\<lambda>_. 5) [] sample_executor sample_withdrawal) [Response 200 ''200 OK'' (Inr ''null'')] =
       ([rq], Some (Inr (granted_with None 0))) \<and> sealed plain_api c rq \<and> names_transfer plain_api sample_withdrawal rq"
proof -
  obtain rq where "run_http (execute_withdrawal plain_api (\<lambda>_. 5) [] sample_executor sample_withdrawal) [Response 200 ''200 OK'' (Inr ''null'')] =
      ([rq], Some (Inr (granted_with None 0)))" using sample_withdrawal_runs by blast
  with withdrawal_sound [OF this] show ?thesis by auto
qed

text \<open>
  C20: the text with which a failing transport ends a withdrawal.  When the request cannot be transmitted, the withdrawal ends with an
  error in which no URL is left, whatever text the transport gives: it is the text with the name of the exchange before it and every URL cut out,
  so a signature or key in the query of the URL does not reach the logs.  When the answer comes but its body cannot be read, the
  redaction is missing: the error ends with the text of the transport exactly as it is, URLs included.
\<close>

theorem transport_errors_redacted:
  assumes "run_http (execute_withdrawal A clk utc ex req) (reply # rps) = ([rq], res)"
  shows "case reply of
      NoResponse err \<Rightarrow>
        \<exists>label e. res = Some (Inl e) \<and> e = redact_urls_in_error (label @ '' withdrawal request failed: '' @ err) \<and>
          \<not> str_contains e ''http://'' \<and> \<not> str_contains e ''https://''
    | Response status shown (Inl err) \<Rightarrow> \<exists>label. res = Some (Inl (label @ '' withdrawal read body: '' @ err))
    | _ \<Rightarrow> True"
proof -
  obtain label rq' parse where run: "run_http (send_withdrawal label rq' parse) (reply # rps) = ([rq], res)"
    using assms executor.withdraws_once [of A ex req clk utc] unfolding one_withdrawal_def by auto
  show ?thesis
  proof (cases reply)
    case (NoResponse err)
    with run have "res = Some (Inl (redact_urls_in_error (label @ '' withdrawal request failed: '' @ err)))"
      by (simp add: send_withdrawal_def)
    with NoResponse show ?thesis using no_url_left url_start_None by auto
  next
    case (Response status shown body)
    with run show ?thesis by (auto simp: send_withdrawal_def split: sum.splits)
  qed
qed

lemma sample_withdrawal_fails:
  "\<exists>rq res. run_http (execute_withdrawal plain_api (\<lambda>_. 5) [] sample_executor sample_withdrawal) [NoResponse err] = ([rq], res)"
proof -
  have "withdrawal_check plain_api sample_executor sample_withdrawal = Inr ()"
    by (simp add: withdrawal_check_def sample_executor_def withdrawal_executor_new_def sample_withdrawal_def plain_api_def int_exec_def str_trim_def is_ws_def)
  then show ?thesis
    by (simp add: execute_withdrawal_def withdrawal_dispatch_def withdraw_binance_def with_account_def sample_executor_def withdrawal_executor_new_def
        sample_withdrawal_def send_withdrawal_def Let_def)
qed

theorem transport_errors_redacted_witness:
  "\<exists>rq e. run_http (execute_withdrawal plain_api (\<lambda>_. 5) [] sample_executor sample_withdrawal) [NoResponse ''for url (https://b/?signature=s)''] = ([rq], Some (Inl e)) \<and>
     \<not> str_contains e ''https://''"
proof -
  obtain rq res where "run_http (execute_withdrawal plain_api (\<lambda>_. 5) [] sample_executor sample_withdrawal) [NoResponse ''for url (https://b/?signature=s)''] = ([rq], res)"
    using sample_withdrawal_fails by blast
  with transport_errors_redacted [OF this] show ?thesis by auto
qed

section \<open>Where the code departs from its comments\<close>

text \<open>A body that cannot be read ends with the text of the transport as it is, with any URL in it.\<close>

lemma read_failures_not_redacted:
  "run_http (send_withdrawal label rq parse) [Response status shown (Inl err)] = ([rq], Some (Inl (label @ '' withdrawal read body: '' @ err)))"
  "run_http (send_fee_query A label rq fee missing) [Response status shown (Inl err)] = ([rq], Some (Inl (label @ '' fee read: '' @ err)))"
  by (simp_all add: send_withdrawal_def send_fee_query_def)

text \<open>A reply without a code counts as accepted.\<close>

lemma missing_code_accepted:
  assumes "from_str A body = Inr (JObject [])"
  shows "\<exists>r. parse_kucoin_withdrawal_response A 200 body = Inr r \<and> wr_success r" "\<exists>r. parse_bitget_withdrawal_response A 200 body = Inr r \<and> wr_success r"
  using assms by (simp_all add: parse_kucoin_withdrawal_response_def parse_bitget_withdrawal_response_def parse_withdrawal_json_def json_get_def get_str_def
      unwrap_or_def is_success_def)

text \<open>The signature of a fee query on Binance is the same for every coin.\<close>

lemma fee_signature_ignores_coin:
  "\<exists>base sig. \<forall>currency. \<exists>k. fee_binance A clk url c currency network =
     Send \<lparr>rq_method = GET, rq_url = base @ currency @ ''&timestamp='' @ show_word (clk 0) @ ''&signature='' @ sig, rq_headers = [(''X-MBX-APIKEY'', wc_key c)], rq_body = None\<rparr> k"
  unfolding fee_binance_def send_fee_query_def signed_form_def
  by (rule exI [of _ "url @ ''/sapi/v1/capital/withdraw/fee?coin=''"], rule exI [of _ "hmac_hex A (wc_secret c) (''timestamp='' @ show_word (clk 0))"]) auto

end
