(* ===== verification/Sub_Accounts.thy ===== *)
theory Sub_Accounts
  imports Withdrawal_Venues Asset_Inventory
begin

text \<open>
  The checks of what an API key may do, \<^verbatim>\<open>src/src/subaccount.rs\<close>: a signed query per exchange, what is inferred from its reply, and the report over all
  exchanges.  The text that is shown of a failed transmission is the cause of the error, an argument.  The printed guide is left out.
\<close>

section \<open>Permissions\<close>

record api_key_permission =
  can_trade :: bool
  can_withdraw :: bool
  can_deposit :: bool
  can_read :: bool
  ip_restricted :: bool
  allowed_ips :: "string list"

definition permission_default :: api_key_permission where
  "permission_default = \<lparr>can_trade = False, can_withdraw = False, can_deposit = False, can_read = False, ip_restricted = False, allowed_ips = []\<rparr>"

definition recommended_permissions :: api_key_permission where
  "recommended_permissions = \<lparr>can_trade = True, can_withdraw = False, can_deposit = False, can_read = True, ip_restricted = True, allowed_ips = []\<rparr>"

definition verify_safety :: "api_key_permission \<Rightarrow> bool" where
  "verify_safety perms \<longleftrightarrow> can_trade perms \<and> \<not> can_withdraw perms"

record exchange_creds =
  sc_key :: string
  sc_secret :: string
  sc_passphrase :: "string option"
  sc_rest_url :: string

type_synonym subaccount_manager = "(u16 \<times> exchange_creds) list"

text \<open>Another redaction of secrets than that of the withdrawals.\<close>

definition redact_key :: "string \<Rightarrow> string" where
  "redact_key s =
     (let len = length s
      in if len = 0 then ''<empty>''
         else if len \<le> 9 then replicate len CHR ''*''
         else take 4 s @ replicate (min (len - 8) 16) CHR ''*'' @ rev (take 4 (rev s)))"

definition sanitize_error :: "(string \<Rightarrow> string option) \<Rightarrow> string \<Rightarrow> string" where
  "sanitize_error cause err = unwrap_or (cause err) ''unknown request error''"

section \<open>The checks of single exchanges\<close>

definition check_call ::
  "(string \<Rightarrow> string option) \<Rightarrow> string \<Rightarrow> string \<Rightarrow> http_request \<Rightarrow> (nat \<Rightarrow> string \<Rightarrow> string \<Rightarrow> (string + 'a) http) \<Rightarrow> (string + 'a) http" where
  "check_call cause failed unread rq k = Send rq (\<lambda>rp. case rp of
     NoResponse err \<Rightarrow> Return (Inl (failed @ sanitize_error cause err))
   | Response status shown (Inl err) \<Rightarrow> Return (Inl (unread @ sanitize_error cause err))
   | Response status shown (Inr body) \<Rightarrow> k status shown body)"

definition get_request :: "string \<Rightarrow> (string \<times> string) list \<Rightarrow> http_request" where
  "get_request url hs = \<lparr>rq_method = GET, rq_url = url, rq_headers = hs, rq_body = None\<rparr>"

definition lists_permission :: "string list \<Rightarrow> 'f json \<Rightarrow> bool" where
  "lists_permission names v =
     (case get_array ''permissions'' v of None \<Rightarrow> False
      | Some xs \<Rightarrow> list_ex (\<lambda>perm. case as_str perm of None \<Rightarrow> False | Some s \<Rightarrow> s \<in> set names) xs)"

definition check_binance_permissions ::
  "('f, 'd) client_api \<Rightarrow> (string \<Rightarrow> string option) \<Rightarrow> u64 \<Rightarrow> exchange_creds \<Rightarrow> (string + api_key_permission) http" where
  "check_binance_permissions A cause ts c =
     check_call cause ''Binance permission check failed: '' ''Binance read body: ''
       (get_request (sc_rest_url c @ ''/api/v3/account?'' @ signed_form A (sc_secret c) (''timestamp='' @ show_word ts)) [(''X-MBX-APIKEY'', sc_key c)])
       (\<lambda>status shown body. Return (
          if \<not> is_success status then
            (if status = 403 then Inr (permission_default\<lparr>ip_restricted := True\<rparr>) else Inl (''Binance HTTP '' @ shown @ '': '' @ body))
          else case from_str A body of
                 Inl err \<Rightarrow> Inl (''Binance JSON: '' @ err)
               | Inr v \<Rightarrow> Inr (permission_default\<lparr>can_read := True, can_trade := lists_permission [''SPOT_TRADE'', ''MARGIN_TRADE''] v,
                                can_withdraw := lists_permission [''WITHDRAW''] v\<rparr>)))"

definition check_bybit_permissions ::
  "('f, 'd) client_api \<Rightarrow> (string \<Rightarrow> string option) \<Rightarrow> u64 \<Rightarrow> exchange_creds \<Rightarrow> (string + api_key_permission) http" where
  "check_bybit_permissions A cause ts c =
     (let timestamp = show_word ts; param_str = ''accountType=UNIFIED'';
          sign = hmac_hex A (sc_secret c) (''GET/v5/account/wallet-balance?'' @ timestamp @ sc_key c @ ''5000'' @ param_str)
      in check_call cause ''Bybit permission check failed: '' ''Bybit read body: ''
           (get_request (sc_rest_url c @ ''/v5/account/wallet-balance?'' @ param_str)
             [(''X-BAPI-API-KEY'', sc_key c), (''X-BAPI-SIGN'', sign), (''X-BAPI-TIMESTAMP'', timestamp), (''X-BAPI-RECV-WINDOW'', ''5000'')])
           (\<lambda>status shown body. Return (
              if \<not> is_success status then (if status = 403 then Inr permission_default else Inl (''Bybit HTTP '' @ shown @ '': '' @ body))
              else case from_str A body of
                     Inl err \<Rightarrow> Inl (''Bybit JSON: '' @ err)
                   | Inr v \<Rightarrow> Inr (permission_default\<lparr>can_read := True,
                       can_trade := (Option.bind (json_get ''result'' v) (json_get ''accountType'') \<noteq> None)\<rparr>))))"

definition okx_get :: "('f, 'd) client_api \<Rightarrow> string \<Rightarrow> exchange_creds \<Rightarrow> string \<Rightarrow> http_request" where
  "okx_get A utc c path =
     get_request (sc_rest_url c @ path)
       [(''OK-ACCESS-KEY'', sc_key c), (''OK-ACCESS-SIGN'', hmac_base64 A (sc_secret c) (utc @ ''GET'' @ path)), (''OK-ACCESS-TIMESTAMP'', utc),
        (''OK-ACCESS-PASSPHRASE'', unwrap_or (sc_passphrase c) [])]"

definition check_okx_apikey_permissions ::
  "('f, 'd) client_api \<Rightarrow> (string \<Rightarrow> string option) \<Rightarrow> string \<Rightarrow> exchange_creds \<Rightarrow> (string + api_key_permission) http" where
  "check_okx_apikey_permissions A cause utc c =
     check_call cause ''OKX apikey check failed: '' ''OKX apikey read body: '' (okx_get A utc c ''/api/v5/users/apikey'')
       (\<lambda>status shown body. Return (
          if \<not> is_success status then Inl (''OKX apikey HTTP '' @ shown @ '': '' @ body)
          else case from_str A body of
                 Inl err \<Rightarrow> Inl (''OKX apikey JSON: '' @ err)
               | Inr v \<Rightarrow>
                   let data = first_of (get_array ''data'' v); perm = Option.bind data (get_str ''perm''); ip = Option.bind data (get_str ''ip'')
                   in Inr (permission_default\<lparr>can_read := True,
                        can_trade := (case perm of None \<Rightarrow> False | Some p \<Rightarrow> str_contains p ''1''),
                        can_withdraw := (case perm of None \<Rightarrow> False | Some p \<Rightarrow> str_contains p ''3''),
                        ip_restricted := (case ip of None \<Rightarrow> False | Some a \<Rightarrow> a \<noteq> []),
                        allowed_ips := (case ip of None \<Rightarrow> [] | Some a \<Rightarrow> filter (\<lambda>s. s \<noteq> []) (str_split CHR '';'' a))\<rparr>)))"

text \<open>The second query of OKX has its own reading of the clock.\<close>

definition check_okx_permissions ::
  "('f, 'd) client_api \<Rightarrow> (string \<Rightarrow> string option) \<Rightarrow> string \<Rightarrow> string \<Rightarrow> exchange_creds \<Rightarrow> (string + api_key_permission) http" where
  "check_okx_permissions A cause utc utc' c =
     check_call cause ''OKX permission check failed: '' ''OKX read body: '' (okx_get A utc c ''/api/v5/account/balance'')
       (\<lambda>status shown body.
          if \<not> is_success status then Return (if status = 403 then Inr permission_default else Inl (''OKX HTTP '' @ shown @ '': '' @ body))
          else http_map (\<lambda>r. Inr (case r of Inl _ \<Rightarrow> permission_default\<lparr>can_read := True, can_trade := True\<rparr> | Inr perms \<Rightarrow> perms))
                 (check_okx_apikey_permissions A cause utc' c))"

definition build_generic_balance_query :: "('f, 'd) client_api \<Rightarrow> u64 \<Rightarrow> u16 \<Rightarrow> exchange_creds \<Rightarrow> string \<times> (string \<times> string) list" where
  "build_generic_balance_query A ts i c =
     (let key = sc_key c; secret = sc_secret c; base = sc_rest_url c; pass = unwrap_or (sc_passphrase c) []; millis = show_word ts; secs = show_word (ts div 1000)
      in if i = 3 then
           (base @ ''/api/v4/spot/accounts'',
            [(''KEY'', key), (''SIGN'', hmac_hex A secret (''GET/api/v4/spot/accounts'' @ secs)), (''Timestamp'', secs)])
         else if i = 4 then
           (base @ ''/api/v1/accounts'',
            [(''KC-API-KEY'', key), (''KC-API-SIGN'', hmac_base64 A secret (millis @ ''GET'' @ ''/api/v1/accounts'')), (''KC-API-TIMESTAMP'', millis),
             (''KC-API-PASSPHRASE'', hmac_base64 A secret pass), (''KC-API-KEY-VERSION'', ''2'')])
         else if i = 6 then
           (base @ ''/api/v2/spot/account/assets'',
            [(''ACCESS-KEY'', key), (''ACCESS-SIGN'', hmac_base64 A secret (millis @ pass @ ''GET/api/v2/spot/account/assets'')), (''ACCESS-TIMESTAMP'', millis),
             (''ACCESS-PASSPHRASE'', pass)])
         else if i = 9 then
           (base @ ''/v1/account/accounts'',
            [(''AccessKeyId'', key), (''Signature'', hmac_hex A secret (millis @ ''GET'')), (''Timestamp'', millis)])
         else if i = 10 then
           (base @ ''/0/private/Balance'',
            [(''API-Key'', key), (''API-Sign'', hmac_base64 A secret (''/0/private/Balance'' @ hex A (sha256 A (''nonce='' @ millis)))), form_content])
         else if i = 15 then
           (base @ ''/api/v3/account?'' @ signed_form A secret (''timestamp='' @ millis), [(''X-MBX-APIKEY'', key)])
         else (base @ ''/api/v3/account'', []))"

definition check_generic_permissions ::
  "('f, 'd) client_api \<Rightarrow> (string \<Rightarrow> string option) \<Rightarrow> u64 \<Rightarrow> u16 \<Rightarrow> exchange_creds \<Rightarrow> (string + api_key_permission) http" where
  "check_generic_permissions A cause ts i c =
     (let (url, headers) = build_generic_balance_query A ts i c
      in Send (get_request url headers) (\<lambda>rp. Return (case rp of
           NoResponse err \<Rightarrow> Inl (exchange_name_by_id i @ '' permission check failed: '' @ sanitize_error cause err)
         | Response status shown body \<Rightarrow> Inr (if is_success status then permission_default\<lparr>can_read := True\<rparr> else permission_default))))"

section \<open>The manager\<close>

text \<open>A clock for each exchange: milliseconds, and two dates as texts.\<close>

type_synonym key_clock = "u16 \<Rightarrow> u64 \<times> string \<times> string"

definition check_permissions ::
  "('f, 'd) client_api \<Rightarrow> (string \<Rightarrow> string option) \<Rightarrow> key_clock \<Rightarrow> subaccount_manager \<Rightarrow> u16 \<Rightarrow> (string + api_key_permission) http" where
  "check_permissions A cause kc mgr i =
     (case map_of mgr i of
        None \<Rightarrow> Return (Inl (''no credentials for exchange id '' @ show_word i))
      | Some c \<Rightarrow>
          (case kc i of (ts, utc, utc') \<Rightarrow>
             if i = 0 then check_binance_permissions A cause ts c
             else if i = 1 then check_bybit_permissions A cause ts c
             else if i = 2 then check_okx_permissions A cause utc utc' c
             else check_generic_permissions A cause ts i c))"

fun report_keys ::
  "('f, 'd) client_api \<Rightarrow> (string \<Rightarrow> string option) \<Rightarrow> key_clock \<Rightarrow> subaccount_manager \<Rightarrow> u16 list \<Rightarrow> (u16 \<times> string \<times> (string + api_key_permission)) list http" where
  "report_keys A cause kc mgr [] = Return []"
| "report_keys A cause kc mgr (i # is) =
     http_bind (check_permissions A cause kc mgr i) (\<lambda>r. http_map ((#) (i, exchange_name_by_id i, r)) (report_keys A cause kc mgr is))"

definition validate_all_keys ::
  "('f, 'd) client_api \<Rightarrow> (string \<Rightarrow> string option) \<Rightarrow> key_clock \<Rightarrow> subaccount_manager \<Rightarrow> (u16 \<times> string \<times> (string + api_key_permission)) list http" where
  "validate_all_keys A cause kc mgr = report_keys A cause kc mgr (sort (map fst mgr))"

section \<open>What a check does\<close>

definition reads_account :: "subaccount_manager \<Rightarrow> http_request \<Rightarrow> bool" where
  "reads_account mgr rq \<longleftrightarrow> rq_method rq = GET \<and> rq_body rq = None \<and> (\<exists>(i, c) \<in> set mgr. \<exists>path. rq_url rq = sc_rest_url c @ path)"

lemma get_request_reads: "map_of mgr i = Some c \<Longrightarrow> url = sc_rest_url c @ path \<Longrightarrow> reads_account mgr (get_request url hs)"
  by (force simp: reads_account_def get_request_def dest: map_of_SomeD)

lemma every_request_check [http_simps]:
  "every_request P (check_call cause failed unread rq k) \<longleftrightarrow> P rq \<and> (\<forall>status shown body. every_request P (k status shown body))"
  by (simp add: check_call_def all_replies [where P = "every_request P"])

lemma generic_query_url: "\<exists>path. fst (build_generic_balance_query A ts i c) = sc_rest_url c @ path"
  by (simp add: build_generic_balance_query_def Let_def)

lemma check_reads: "every_request (reads_account mgr) (check_permissions A cause kc mgr i)"
proof (cases "map_of mgr i")
  case (Some c)
  note reads = get_request_reads [OF Some refl]
  obtain ts utc utc' where kc: "kc i = (ts, utc, utc')" by (cases "kc i") auto
  have "every_request (reads_account mgr) (check_binance_permissions A cause ts c)" "every_request (reads_account mgr) (check_bybit_permissions A cause ts c)"
    by (simp_all add: check_binance_permissions_def check_bybit_permissions_def Let_def http_simps reads)
  moreover have "every_request (reads_account mgr) (check_okx_permissions A cause utc utc' c)"
    by (simp add: check_okx_permissions_def check_okx_apikey_permissions_def okx_get_def http_simps reads)
  moreover have "every_request (reads_account mgr) (check_generic_permissions A cause ts i c)"
    using generic_query_url [of A ts i c] get_request_reads [OF Some]
    by (cases "build_generic_balance_query A ts i c") (auto simp: check_generic_permissions_def)
  ultimately show ?thesis using Some kc by (simp add: check_permissions_def)
qed (simp add: check_permissions_def)

lemma check_call_result:
  assumes "run_http (check_call cause failed unread rq k) rps = (rqs, Some (Inr x))"
  obtains status shown body rest rqs' where "rps = Response status shown (Inr body) # rest" "run_http (k status shown body) rest = (rqs', Some (Inr x))"
proof -
  obtain rp rest where rps: "rps = rp # rest" using assms by (cases rps) (auto simp: check_call_def)
  then show thesis using assms that
    by (cases rp) (auto simp: check_call_def split: sum.splits prod.splits)
qed

text \<open>A right is only reported when the first reply was a success.\<close>

definition some_right :: "api_key_permission \<Rightarrow> bool" where
  "some_right p \<longleftrightarrow> can_read p \<or> can_trade p \<or> can_withdraw p \<or> can_deposit p"

lemma no_right_default [simp]: "\<not> some_right permission_default" "\<not> some_right (permission_default\<lparr>ip_restricted := b\<rparr>)"
  by (simp_all add: some_right_def permission_default_def)

lemma right_confirmed:
  assumes run: "run_http (check_permissions A cause kc mgr i) rps = (rqs, Some (Inr p))" and right: "some_right p"
  shows "\<exists>status shown body rest. rps = Response status shown body # rest \<and> is_success status"
proof -
  obtain c where c: "map_of mgr i = Some c" using run by (cases "map_of mgr i") (simp_all add: check_permissions_def)
  obtain ts utc utc' where kc: "kc i = (ts, utc, utc')" by (cases "kc i") auto
  consider "run_http (check_binance_permissions A cause ts c) rps = (rqs, Some (Inr p))" | "run_http (check_bybit_permissions A cause ts c) rps = (rqs, Some (Inr p))"
    | "run_http (check_okx_permissions A cause utc utc' c) rps = (rqs, Some (Inr p))" | "run_http (check_generic_permissions A cause ts i c) rps = (rqs, Some (Inr p))"
    using run by (auto simp: check_permissions_def c kc split: if_splits)
  then show ?thesis
  proof cases
    case 1
    from 1 [unfolded check_binance_permissions_def] show ?thesis
      by (rule check_call_result) (use right in \<open>auto split: if_splits\<close>)
  next
    case 2
    from 2 [unfolded check_bybit_permissions_def Let_def] show ?thesis
      by (rule check_call_result) (use right in \<open>auto split: if_splits\<close>)
  next
    case 3
    from 3 [unfolded check_okx_permissions_def] show ?thesis
      by (rule check_call_result) (use right in \<open>auto split: if_splits\<close>)
  next
    case 4
    then show ?thesis using right
      by (cases rps) (auto simp: check_generic_permissions_def split: prod.splits http_reply.splits if_splits)
  qed
qed

text \<open>Each entry of a report is the answer of the check of that exchange, on the replies that the checks before it have left.\<close>

lemma report_keys_run:
  "run_http (report_keys A cause kc mgr is) rps = (rqs, Some report) \<Longrightarrow>
   map fst report = is \<and> (\<forall>(i, name, r) \<in> set report. name = exchange_name_by_id i \<and> (\<exists>n rqs'. run_http (check_permissions A cause kc mgr i) (drop n rps) = (rqs', Some r)))"
proof (induction "is" arbitrary: rps rqs report)
  case (Cons i "is")
  from run_bind_drop [OF Cons.prems [unfolded report_keys.simps]] obtain rqs1 r rqs2 where
    r: "run_http (check_permissions A cause kc mgr i) rps = (rqs1, Some r)"
    "run_http (http_map ((#) (i, exchange_name_by_id i, r)) (report_keys A cause kc mgr is)) (drop (length rqs1) rps) = (rqs2, Some report)" by blast
  obtain report' where rest: "run_http (report_keys A cause kc mgr is) (drop (length rqs1) rps) = (rqs2, Some report')"
    "report = (i, exchange_name_by_id i, r) # report'" using r(2) by (auto simp: run_map apsnd_def map_prod_def split: prod.splits)
  have "\<exists>n rqs'. run_http (check_permissions A cause kc mgr i) (drop n rps) = (rqs', Some r)" using r(1) by (intro exI [of _ 0]) simp
  moreover have "\<exists>n rqs'. run_http (check_permissions A cause kc mgr j) (drop n rps) = (rqs', Some r')"
    if "\<exists>n rqs'. run_http (check_permissions A cause kc mgr j) (drop n (drop (length rqs1) rps)) = (rqs', Some r')" for j r'
    using that by (auto simp: drop_drop)
  ultimately show ?case using Cons.IH [OF rest(1)] rest(2) by fastforce
qed simp

text \<open>
  The report on the keys covers every configured exchange once, in ascending order, whatever fails on the way; the checks only read, with requests to the configured addresses; and a right is
  attributed to a key only when the exchange answered with success.
\<close>

theorem key_report_sound:
  assumes "run_http (validate_all_keys A cause kc mgr) rps = (rqs, Some report)"
  shows "map fst report = sort (map fst mgr) \<and> (\<forall>rq \<in> set rqs. reads_account mgr rq) \<and>
    (\<forall>(i, name, r) \<in> set report. name = exchange_name_by_id i \<and>
      (\<forall>p. r = Inr p \<longrightarrow> some_right p \<longrightarrow> (\<exists>status shown body. Response status shown body \<in> set rps \<and> is_success status)))"
proof -
  have run: "run_http (report_keys A cause kc mgr (sort (map fst mgr))) rps = (rqs, Some report)" using assms by (simp add: validate_all_keys_def)
  have "every_request (reads_account mgr) (report_keys A cause kc mgr is)" for "is"
    by (induction "is") (simp_all add: every_request_bind check_reads)
  then have "reads_account mgr rq" if "rq \<in> set rqs" for rq using run_every_request that run by (metis fst_conv)
  moreover have "\<exists>status shown body. Response status shown body \<in> set rps \<and> is_success status"
    if "run_http (check_permissions A cause kc mgr i) (drop n rps) = (rqs', Some (Inr p))" "some_right p" for i n rqs' p
    using right_confirmed [OF that] by (metis in_set_dropD list.set_intros(1))
  ultimately show ?thesis using report_keys_run [OF run] by fastforce
qed

theorem key_report_sound_witness:
  "\<exists>rqs report. run_http (validate_all_keys plain_api (\<lambda>_. None) (\<lambda>_. (0, [], [])) [(15, \<lparr>sc_key = ''k'', sc_secret = ''s'', sc_passphrase = None, sc_rest_url = ''u''\<rparr>)])
       [Response 200 ''OK'' (Inr [])] = (rqs, Some report) \<and> map fst report = [15]"
proof -
  let ?mgr = "[(15, \<lparr>sc_key = ''k'', sc_secret = ''s'', sc_passphrase = None, sc_rest_url = ''u''\<rparr>)] :: subaccount_manager"
  obtain rqs report where "run_http (validate_all_keys plain_api (\<lambda>_. None) (\<lambda>_. (0, [], [])) ?mgr) [Response 200 ''OK'' (Inr [])] = (rqs, Some report)"
    by (simp add: validate_all_keys_def check_permissions_def check_generic_permissions_def build_generic_balance_query_def Let_def http_map_def)
  with key_report_sound [OF this] show ?thesis by auto
qed

section \<open>Where the checks are too kind\<close>

text \<open>
  Bybit never reports the right to withdraw, and OKX not when its second query fails: such a key counts as safe whatever it may do.
\<close>

lemma unknown_withdrawals_pass:
  assumes "from_str A body = Inr v" "Option.bind (json_get ''result'' v) (json_get ''accountType'') \<noteq> None"
  shows "\<exists>rqs p. run_http (check_bybit_permissions A cause ts c) [Response 200 shown (Inr body)] = (rqs, Some (Inr p)) \<and> verify_safety p"
    "\<exists>rqs p. run_http (check_okx_permissions A cause utc utc' c) [Response 200 shown (Inr body'), NoResponse err] = (rqs, Some (Inr p)) \<and> verify_safety p"
  using assms by (simp_all add: check_bybit_permissions_def check_okx_permissions_def check_okx_apikey_permissions_def check_call_def Let_def is_success_def
      verify_safety_def permission_default_def http_map_def)

text \<open>The query of Kraken is sent with GET and without the form that its signature is about.\<close>

lemma kraken_check_without_body:
  "\<exists>rq k. check_generic_permissions A cause ts 10 c = Send rq k \<and> rq_method rq = GET \<and> rq_body rq = None"
  by (simp add: check_generic_permissions_def build_generic_balance_query_def get_request_def Let_def)

end
