(* ===== verification/Coin_Scanners.thy ===== *)
theory Coin_Scanners
  imports Withdrawal_Venues
begin

text \<open>
  The scanners of \<^verbatim>\<open>src/src/coin_finder.rs\<close>: for each exchange the public request for its pairs and how the reply is read.  A failed transmission, an unreadable body
  and a body of another shape all give no pairs; the status of the reply is not looked at.
\<close>

section \<open>Pairs\<close>

record raw_pair =
  rp_base :: string
  rp_quote :: string
  rp_raw :: string
  rp_status_ok :: bool

definition listed_pair_of :: "string \<Rightarrow> string \<Rightarrow> string \<Rightarrow> raw_pair" where
  "listed_pair_of base quote raw = \<lparr>rp_base = to_uppercase base, rp_quote = to_uppercase quote, rp_raw = to_uppercase raw, rp_status_ok = True\<rparr>"

definition text_at :: "string \<Rightarrow> 'f json \<Rightarrow> string" where
  "text_at k v = unwrap_or (field_str k v) []"

definition flag_at :: "string \<Rightarrow> 'f json \<Rightarrow> bool" where
  "flag_at k v = unwrap_or (as_bool (jfield k v)) False"

definition each_item :: "('a \<Rightarrow> raw_pair option) \<Rightarrow> 'a list option \<Rightarrow> raw_pair list" where
  "each_item f xs = (case xs of None \<Rightarrow> [] | Some ys \<Rightarrow> List.map_filter f ys)"

definition keep_if :: "bool \<Rightarrow> 'a \<Rightarrow> 'a option" where
  "keep_if ok x = (if ok then Some x else None)"

definition trim_slashes :: "string \<Rightarrow> string" where
  "trim_slashes url = rev (dropWhile (\<lambda>c. c = CHR ''/'') (rev url))"

definition public_get :: "string \<Rightarrow> http_request" where
  "public_get url = \<lparr>rq_method = GET, rq_url = url, rq_headers = [], rq_body = None\<rparr>"

definition read_json :: "('f, 'd) client_api \<Rightarrow> http_reply \<Rightarrow> 'f json option" where
  "read_json A rp = (case rp of Response _ _ (Inr body) \<Rightarrow> ok_of (from_str A body) | _ \<Rightarrow> None)"

definition public_scan :: "('f, 'd) client_api \<Rightarrow> http_request \<Rightarrow> ('f json \<Rightarrow> raw_pair list) \<Rightarrow> raw_pair list http" where
  "public_scan A rq pairs_of = Send rq (\<lambda>rp. Return (case read_json A rp of None \<Rightarrow> [] | Some v \<Rightarrow> pairs_of v))"

section \<open>One scanner per exchange\<close>

text \<open>A pair with texts for its status, its currencies and its symbol.\<close>

definition spot_item :: "bool \<Rightarrow> string \<Rightarrow> string \<Rightarrow> string \<Rightarrow> 'f json \<Rightarrow> raw_pair option" where
  "spot_item ok base_key quote_key raw_key v =
     keep_if (ok \<and> text_at base_key v \<noteq> [] \<and> text_at quote_key v \<noteq> []) (listed_pair_of (text_at base_key v) (text_at quote_key v) (text_at raw_key v))"

definition scan_binance :: "('f, 'd) client_api \<Rightarrow> string \<Rightarrow> raw_pair list http" where
  "scan_binance A url = public_scan A (public_get (trim_slashes url @ ''/api/v3/exchangeInfo''))
     (\<lambda>v. each_item (\<lambda>s. spot_item (text_at ''status'' s = ''TRADING'') ''baseAsset'' ''quoteAsset'' ''symbol'' s) (as_array (jfield ''symbols'' v)))"

definition scan_bybit :: "('f, 'd) client_api \<Rightarrow> string \<Rightarrow> raw_pair list http" where
  "scan_bybit A url = public_scan A (public_get (trim_slashes url @ ''/v5/market/instruments-info?category=spot''))
     (\<lambda>v. each_item (\<lambda>s. spot_item (text_at ''status'' s = ''Trading'') ''baseCoin'' ''quoteCoin'' ''symbol'' s) (as_array (jfield ''list'' (jfield ''result'' v))))"

definition okx_item :: "'f json \<Rightarrow> raw_pair option" where
  "okx_item v =
     (case str_split CHR ''-'' (text_at ''instId'' v) of
        [base, quote] \<Rightarrow> keep_if (text_at ''state'' v = ''live'' \<and> base \<noteq> [] \<and> quote \<noteq> []) (listed_pair_of base quote (text_at ''instId'' v))
      | _ \<Rightarrow> None)"

definition scan_okx :: "('f, 'd) client_api \<Rightarrow> string \<Rightarrow> raw_pair list http" where
  "scan_okx A url = public_scan A (public_get (trim_slashes url @ ''/api/v5/public/instruments?instType=SPOT''))
     (\<lambda>v. each_item okx_item (as_array (jfield ''data'' v)))"

definition scan_gateio :: "('f, 'd) client_api \<Rightarrow> string \<Rightarrow> raw_pair list http" where
  "scan_gateio A url = public_scan A (public_get (trim_slashes url @ ''/api/v4/spot/currency_pairs''))
     (\<lambda>v. each_item (\<lambda>s. spot_item (text_at ''trade_status'' s = ''tradable'') ''base'' ''quote'' ''id'' s) (as_array v))"

definition scan_kucoin :: "('f, 'd) client_api \<Rightarrow> string \<Rightarrow> raw_pair list http" where
  "scan_kucoin A url = public_scan A (public_get (trim_slashes url @ ''/api/v1/symbols''))
     (\<lambda>v. each_item (\<lambda>s. spot_item (flag_at ''enableTrading'' s) ''baseCurrency'' ''quoteCurrency'' ''symbol'' s) (as_array (jfield ''data'' v)))"

definition scan_bitfinex :: "('f, 'd) client_api \<Rightarrow> string \<Rightarrow> raw_pair list http" where
  "scan_bitfinex A url = public_scan A (public_get (trim_slashes url @ ''/v1/symbols_details''))
     (\<lambda>v. each_item (\<lambda>s. map_option (\<lambda>p. p\<lparr>rp_raw := ''t'' @ text_at ''pair'' s\<rparr>)
            (spot_item (flag_at ''active'' s) ''base_currency'' ''quote_currency'' ''pair'' s)) (as_array v))"

definition scan_bitget :: "('f, 'd) client_api \<Rightarrow> string \<Rightarrow> raw_pair list http" where
  "scan_bitget A url = public_scan A (public_get (trim_slashes url @ ''/api/v2/spot/public/symbols''))
     (\<lambda>v. each_item (\<lambda>s. spot_item (text_at ''symbolStatus'' s = ''1'') ''baseCoin'' ''quoteCoin'' ''symbol'' s) (as_array (jfield ''data'' v)))"

definition usd_unless :: "string \<Rightarrow> string" where
  "usd_unless quote = (if quote = [] then ''USD'' else quote)"

definition scan_bitmex :: "('f, 'd) client_api \<Rightarrow> string \<Rightarrow> raw_pair list http" where
  "scan_bitmex A url = public_scan A (public_get (trim_slashes url @ ''/api/v1/instruments?filter=%7B%22state%22%3A%22Open%22%7D''))
     (\<lambda>v. each_item (\<lambda>s. keep_if (text_at ''state'' s = ''Open'' \<and> text_at ''underlying'' s \<noteq> [] \<and> text_at ''typ'' s \<in> {''FFWCS'', ''FFWSS'', ''spot''})
            (listed_pair_of (text_at ''underlying'' s) (usd_unless (text_at ''quoteCurrency'' s)) (text_at ''symbol'' s))) (as_array v))"

definition scan_coinbase :: "('f, 'd) client_api \<Rightarrow> string \<Rightarrow> raw_pair list http" where
  "scan_coinbase A url = public_scan A (public_get (trim_slashes url @ ''/products''))
     (\<lambda>v. each_item (\<lambda>s. spot_item (text_at ''status'' s = ''online'' \<and> flag_at ''trading_disabled'' s) ''base_currency'' ''quote_currency'' ''id'' s) (as_array v))"

definition scan_htx :: "('f, 'd) client_api \<Rightarrow> string \<Rightarrow> raw_pair list http" where
  "scan_htx A url = public_scan A (public_get (trim_slashes url @ ''/v1/settings/symbols''))
     (\<lambda>v. each_item (\<lambda>s. spot_item (text_at ''state'' s = ''online'') ''baseCurrency'' ''quoteCurrency'' ''symbol'' s) (as_array (jfield ''data'' v)))"

definition as_object :: "'f json \<Rightarrow> (string \<times> 'f json) list option" where
  "as_object v = (case v of JObject m \<Rightarrow> Some m | _ \<Rightarrow> None)"

definition kraken_item :: "string \<times> 'f json \<Rightarrow> raw_pair option" where
  "kraken_item e =
     (case e of (wsname, s) \<Rightarrow>
        if is_prefix_of (rev ''.d'') (rev wsname) then None
        else keep_if (text_at ''base'' s \<noteq> [] \<and> text_at ''quote'' s \<noteq> [])
               (listed_pair_of (text_at ''base'' s) (text_at ''quote'' s) (unwrap_or (field_str ''altname'' s) wsname)))"

definition scan_kraken :: "('f, 'd) client_api \<Rightarrow> string \<Rightarrow> raw_pair list http" where
  "scan_kraken A url = public_scan A (public_get (trim_slashes url @ ''/0/public/AssetPairs''))
     (\<lambda>v. each_item kraken_item (as_object (jfield ''result'' v)))"

definition scan_lbank :: "('f, 'd) client_api \<Rightarrow> string \<Rightarrow> raw_pair list http" where
  "scan_lbank A url = public_scan A (public_get (trim_slashes url @ ''/api/v2/pairs''))
     (\<lambda>v. each_item (\<lambda>s. spot_item (unwrap_or (as_i64 (jfield ''status'' s)) 0 = 1) ''coin'' ''market'' ''symbol'' s) (as_array (jfield ''data'' v)))"

definition scan_bitstamp :: "('f, 'd) client_api \<Rightarrow> string \<Rightarrow> raw_pair list http" where
  "scan_bitstamp A url = public_scan A (public_get (trim_slashes url @ ''/api/v2/trading-pairs-info''))
     (\<lambda>v. each_item (\<lambda>s. keep_if (unwrap_or (field_str ''trading'' s) ''Disabled'' = ''Enabled'' \<and> text_at ''base_currency'' s \<noteq> [] \<and> text_at ''quote_currency'' s \<noteq> [])
            (listed_pair_of (text_at ''base_currency'' s) (text_at ''quote_currency'' s) (unwrap_or (field_str ''url_symbol'' s) (text_at ''name'' s)))) (as_array v))"

definition deribit_query :: "'f json" where
  "deribit_query = JObject [(''jsonrpc'', JString ''2.0''), (''id'', JNumber (PosInt 1)), (''method'', JString ''public/get_instruments''),
     (''params'', JObject [(''currency'', JString ''BTC''), (''kind'', JString ''spot''), (''expired'', JBool False)])]"

definition scan_deribit :: "('f, 'd) client_api \<Rightarrow> string \<Rightarrow> raw_pair list http" where
  "scan_deribit A url = public_scan A
     \<lparr>rq_method = POST, rq_url = trim_slashes url @ ''/api/v2/public/get_instruments'', rq_headers = [(''content-type'', ''application/json'')],
      rq_body = Some (json_text A deribit_query)\<rparr>
     (\<lambda>v. each_item (\<lambda>s. keep_if (flag_at ''is_active'' s \<and> text_at ''instrument_name'' s \<noteq> [])
            (listed_pair_of (unwrap_or (field_str ''base_currency'' s) ''BTC'') (usd_unless (text_at ''quote_currency'' s)) (text_at ''instrument_name'' s)))
          (as_array (jfield ''result'' v)))"

definition scan_delta :: "('f, 'd) client_api \<Rightarrow> string \<Rightarrow> raw_pair list http" where
  "scan_delta A url = public_scan A (public_get (trim_slashes url @ ''/v2/products''))
     (\<lambda>v. each_item (\<lambda>s. keep_if (flag_at ''live'' s \<and> text_at ''symbol'' s \<noteq> [] \<and> text_at ''product_type'' s \<in> {''spot'', ''perpetual_futures''})
            (listed_pair_of (unwrap_or (or_else (field_str ''symbol'' (jfield ''underlying_asset'' s)) (field_str ''contract_type'' s)) [])
               (unwrap_or (or_else (field_str ''symbol'' (jfield ''settlement_asset'' s)) (field_str ''symbol'' (jfield ''quote_asset'' s))) ''USDT'')
               (text_at ''symbol'' s))) (as_array (jfield ''result'' v)))"

definition scan_mexc :: "('f, 'd) client_api \<Rightarrow> string \<Rightarrow> raw_pair list http" where
  "scan_mexc A url = public_scan A (public_get (trim_slashes url @ ''/api/v3/exchangeInfo''))
     (\<lambda>v. each_item (\<lambda>s. spot_item (text_at ''status'' s \<in> {''ENABLED'', ''TRADING''}) ''baseAsset'' ''quoteAsset'' ''symbol'' s) (as_array (jfield ''symbols'' v)))"

definition ibank_market :: "'f json \<Rightarrow> raw_pair option" where
  "ibank_market s =
     (let base = text_at ''PrimaryCurrencyCode'' s; quote = text_at ''SecondaryCurrencyCode'' s
      in keep_if (flag_at ''Active'' s \<and> base \<noteq> [] \<and> quote \<noteq> []) (listed_pair_of base quote (base @ quote)))"

definition ibank_assets :: "'f json list option \<Rightarrow> raw_pair list" where
  "ibank_assets assets =
     (case assets of None \<Rightarrow> []
      | Some xs \<Rightarrow> concat (map (\<lambda>s. let code = text_at ''Code'' s
          in if code = [] then [] else map (\<lambda>quote. listed_pair_of code quote (code @ quote)) [''USD'', ''AUD'', ''NZD'', ''USDT'']) xs))"

definition scan_ibank :: "('f, 'd) client_api \<Rightarrow> string \<Rightarrow> raw_pair list http" where
  "scan_ibank A url = Send (public_get (trim_slashes url @ ''/Public/GetMarkets'')) (\<lambda>rp.
     case rp of
       NoResponse _ \<Rightarrow> public_scan A (public_get (trim_slashes url @ ''/Public/GetAssets'')) (\<lambda>v. ibank_assets (as_array v))
     | Response _ _ _ \<Rightarrow> Return (case read_json A rp of None \<Rightarrow> [] | Some v \<Rightarrow> each_item ibank_market (as_array v)))"

definition scan_exchange :: "('f, 'd) client_api \<Rightarrow> u16 \<Rightarrow> string \<Rightarrow> raw_pair list http" where
  "scan_exchange A i url =
     (case get_at [scan_binance, scan_bybit, scan_okx, scan_gateio, scan_kucoin, scan_bitfinex, scan_bitget, scan_bitmex, scan_coinbase, scan_htx, scan_kraken,
                   scan_lbank, scan_bitstamp, scan_deribit, scan_delta, scan_mexc, scan_ibank] (unat i) of
        None \<Rightarrow> Return []
      | Some scan \<Rightarrow> scan A url)"

end
