(* ===== verification/Coin_Finder.thy ===== *)
theory Coin_Finder
  imports Coin_Scanners Capital_Balances Asset_Inventory Strategies_Signals
begin

text \<open>
  The coin finder of \<^verbatim>\<open>src/src/coin_finder.rs\<close>: it filters and classifies the pairs that the scanners find, gives tokens their numbers, rebuilds targets and loops of the
  arena, writes the inventory, and prunes tokens that are gone.  It is a client of the arena, the allocator and the inventory.  Whether an attempt to take a lock succeeds is an
  argument, and so are the replies of the exchanges.
\<close>

section \<open>The filter\<close>

definition STABLECOIN_SET :: "string list" where
  "STABLECOIN_SET =
    [''USDT'', ''USDC'', ''DAI'', ''TUSD'', ''BUSD'', ''FDUSD'', ''USDP'', ''PYUSD'', ''GUSD'', ''SUSD'', ''HUSD'', ''USDN'', ''UST'',
     ''MIM'', ''FRAX'', ''CRVUSD'', ''LUSD'', ''DOLA'', ''RUSD'', ''USDD'', ''ZUSD'']"

definition BLACKLIST_SET :: "string list" where
  "BLACKLIST_SET =
    [''BTCDOM'', ''DEFI'', ''CAKE'', ''BNBDOWN'', ''BNBUP'', ''ETHDOWN'', ''ETHUP'', ''BTCDOWN'', ''BTCUP'', ''ADADOWN'', ''ADAUP'',
     ''XRPDOWN'', ''XRPUP'', ''DOTDOWN'', ''DOTUP'', ''LINKDOWN'', ''LINKUP'', ''TRXDOWN'', ''TRXUP'', ''NEARDOWN'', ''NEARUP'', ''SOLUP'',
     ''SOLDOWN'', ''DOGEUP'', ''DOGEDOWN'', ''EUR'', ''GBP'', ''JPY'', ''AUD'', ''TRYB'', ''BRL'', ''ARS'', ''RUB'', ''UAH'', ''NFT'',
     ''LDBNB'', ''TUSD-OLD'', ''BULL'', ''BEAR'', ''ETHBULL'', ''ETHBEAR'', ''BTCST'', ''LTCUP'', ''LTCDOWN'', ''BVOL'', ''IBVOL'',
     ''PAXG'', ''SXPDOWN'', ''SXPUP'', ''CHRDOWN'', ''CHRUP'', ''TEST'', ''TESTUSDT'', ''TESTBTC'']"

definition MAJOR_COINS :: "string list" where
  "MAJOR_COINS =
    [''BTC'', ''ETH'', ''BNB'', ''XRP'']"

definition LAYER1_COINS :: "string list" where
  "LAYER1_COINS =
    [''SOL'', ''ADA'', ''AVAX'', ''NEAR'', ''DOT'', ''ATOM'', ''APT'', ''SUI'', ''SEI'', ''TIA'', ''INJ'', ''FTM'', ''OP'', ''ARB'',
     ''MATIC'', ''ALGO'', ''EOS'', ''XTZ'', ''HBAR'', ''ICP'', ''KAVA'', ''ROSE'']"

definition MEMECOIN_FRAGMENTS :: "string list" where
  "MEMECOIN_FRAGMENTS =
    [''DOGE'', ''PEPE'', ''SHIB'', ''FLOKI'', ''BONK'', ''WIF'', ''MEME'', ''TURBO'', ''BRETT'', ''MOG'', ''SPX'', ''POPCAT'', ''GIGA'',
     ''BOME'', ''NEIRO'', ''BABYDOGE'', ''SAMO'', ''ELON'', ''SAFEMOON'', ''FEG'', ''HOKK'', ''LEASH'', ''CATE'', ''KISHU'', ''AKITA'',
     ''BNN'']"

definition ci_member :: "string \<Rightarrow> string list \<Rightarrow> bool" where
  "ci_member s xs \<longleftrightarrow> list_ex (\<lambda>x. eq_ignore_case x s) xs"

text \<open>The comparison of floats is an argument.\<close>

definition passes_filter :: "('f \<Rightarrow> 'f \<Rightarrow> bool) \<Rightarrow> string \<Rightarrow> string \<Rightarrow> string list \<Rightarrow> 'f option \<Rightarrow> 'f option \<Rightarrow> bool \<times> u16" where
  "passes_filter lt base quote quote_anchors min_volume volume =
     (let upper = to_uppercase base
      in if \<not> ci_member quote quote_anchors then (False, CAT_NONE)
         else if ci_member base STABLECOIN_SET then (False, CAT_NONE)
         else if ci_member base BLACKLIST_SET then (False, CAT_NONE)
         else if (case (min_volume, volume) of (Some min_vol, Some vol) \<Rightarrow> lt vol min_vol | _ \<Rightarrow> False) then (False, CAT_NONE)
         else if ci_member base MAJOR_COINS then (True, CAT_MAJOR)
         else if ci_member base LAYER1_COINS then (True, CAT_LAYER1)
         else if 4 \<le> length upper \<and> list_ex (str_contains upper) MEMECOIN_FRAGMENTS then (True, CAT_MEMECOIN)
         else (True, CAT_ALTCOIN))"

section \<open>The finder\<close>

record 'f coin_finder_config =
  quote_anchors :: "string list"
  allowed_categories :: u16
  min_volume_usd :: "'f option"
  cross_arb_removal_cycles :: u32
  tri_arb_removal_cycles :: u32

definition finder_config_default :: "'f coin_finder_config" where
  "finder_config_default = \<lparr>quote_anchors = [''USDT''], allowed_categories = 0, min_volume_usd = None, cross_arb_removal_cycles = 60, tri_arb_removal_cycles = 30\<rparr>"

record 'f coin_finder =
  cf_rest_urls :: "(u16 \<times> string) list"
  cf_config :: "'f coin_finder_config"
  cf_allocator :: capital_allocator
  cf_arena :: market_arena
  cf_next_token_id :: u16
  cf_symbol_map :: "(string \<times> u16) list"
  cf_categories :: "(u16 \<times> u16) list"
  cf_custom :: "(string \<times> u16 list) list"
  cf_inventory :: asset_snapshot
  cf_missing :: "(u16 \<times> u32) list"
  cf_exchange_missing :: "((u16 \<times> u16) \<times> u32) list"

definition coin_finder_new ::
  "(u16 \<times> string) list \<Rightarrow> 'f coin_finder_config \<Rightarrow> capital_allocator \<Rightarrow> market_arena \<Rightarrow> u16 \<Rightarrow> asset_snapshot \<Rightarrow> 'f coin_finder" where
  "coin_finder_new urls cfg alloc a start snap =
     \<lparr>cf_rest_urls = urls, cf_config = cfg, cf_allocator = alloc, cf_arena = a, cf_next_token_id = start, cf_symbol_map = [], cf_categories = [],
      cf_custom = [], cf_inventory = snap, cf_missing = [], cf_exchange_missing = []\<rparr>"

definition add_custom_mapping :: "string \<Rightarrow> u16 list \<Rightarrow> 'f coin_finder \<Rightarrow> 'f coin_finder" where
  "add_custom_mapping symbol exchange_ids cf = cf\<lparr>cf_custom := hm_insert (to_uppercase symbol) exchange_ids (cf_custom cf)\<rparr>"

abbreviation MAX_DISCOVERED_TOKENS :: u16 where "MAX_DISCOVERED_TOKENS \<equiv> 2990"

definition alloc_token_id :: "'f coin_finder \<Rightarrow> u16 option \<times> 'f coin_finder" where
  "alloc_token_id cf =
     (let v = cf_next_token_id cf in if MAX_DISCOVERED_TOKENS \<le> v then (None, cf) else (Some v, cf\<lparr>cf_next_token_id := v + 1\<rparr>))"

definition modify_key :: "'k \<Rightarrow> ('v \<Rightarrow> 'v) \<Rightarrow> ('k \<times> 'v) list \<Rightarrow> ('k \<times> 'v) list" where
  "modify_key k f m = map (\<lambda>(k', v). (k', if k' = k then f v else v)) m"

text \<open>The attempt to register token \<open>i\<close> in the arena succeeds when \<open>lk i\<close>.\<close>

definition get_or_create_token_id :: "(u16 \<Rightarrow> bool) \<Rightarrow> string \<Rightarrow> u16 \<Rightarrow> 'f coin_finder \<Rightarrow> (u16 \<times> bool) option \<times> 'f coin_finder" where
  "get_or_create_token_id lk symbol category cf =
     (case map_of (cf_symbol_map cf) symbol of
        Some i \<Rightarrow> (Some (i, False), cf\<lparr>cf_categories := modify_key i (\<lambda>c. c OR category) (cf_categories cf)\<rparr>)
      | None \<Rightarrow>
          (case alloc_token_id cf of
             (None, cf') \<Rightarrow> (None, cf')
           | (Some i, cf') \<Rightarrow>
               (Some (i, True),
                cf'\<lparr>cf_symbol_map := hm_insert (to_uppercase symbol) i (cf_symbol_map cf'), cf_categories := hm_insert i category (cf_categories cf'),
                    cf_allocator := register_token i symbol category (cf_allocator cf'), cf_arena := register_active_token (lk i) i (cf_arena cf')\<rparr>)))"

section \<open>A scan cycle\<close>

text \<open>What a cycle collects: pairs per exchange, exchanges per token, and how many tokens are new.\<close>

record 'f scan_state =
  ss_finder :: "'f coin_finder"
  ss_pairs :: "(u16 \<times> listed_pair list) list"
  ss_presence :: "(u16 \<times> u16 list) list"
  ss_new :: nat
  ss_total :: nat

definition pair_category :: "('f \<Rightarrow> 'f \<Rightarrow> bool) \<Rightarrow> 'f coin_finder_config \<Rightarrow> string \<Rightarrow> string \<Rightarrow> u16 option" where
  "pair_category lt cfg base quote =
     (case passes_filter lt base quote (quote_anchors cfg) (min_volume_usd cfg) None of
        (passes, category) \<Rightarrow>
          if \<not> passes \<or> allowed_categories cfg \<noteq> 0 \<and> category AND allowed_categories cfg = 0 then None else Some category)"

definition scan_pair ::
  "('f \<Rightarrow> 'f \<Rightarrow> bool) \<Rightarrow> (u16 \<Rightarrow> bool) \<Rightarrow> u16 \<Rightarrow> raw_pair \<Rightarrow> 'f scan_state \<times> listed_pair list \<Rightarrow> 'f scan_state \<times> listed_pair list" where
  "scan_pair lt lk exch p st =
     (case st of (ss, filtered) \<Rightarrow>
        if \<not> rp_status_ok p then st
        else case pair_category lt (cf_config (ss_finder ss)) (rp_base p) (rp_quote p) of
               None \<Rightarrow> st
             | Some category \<Rightarrow>
                 (case get_or_create_token_id lk (rp_base p) category (ss_finder ss) of
                    (None, cf) \<Rightarrow> (ss\<lparr>ss_finder := cf\<rparr>, filtered)
                  | (Some (i, fresh), cf) \<Rightarrow>
                      (ss\<lparr>ss_finder := cf, ss_presence := entry_insert i exch (ss_presence ss), ss_new := ss_new ss + (if fresh then 1 else 0)\<rparr>,
                       filtered @ [(i, rp_base p, rp_quote p, rp_raw p)])))"

definition scan_result :: "('f \<Rightarrow> 'f \<Rightarrow> bool) \<Rightarrow> (u16 \<Rightarrow> bool) \<Rightarrow> 'f scan_state \<Rightarrow> u16 \<times> raw_pair list \<Rightarrow> 'f scan_state" where
  "scan_result lt lk ss r =
     (case r of (exch, ps) \<Rightarrow>
        (case foldl (\<lambda>st p. scan_pair lt lk exch p st) (ss, []) ps of
           (ss', filtered) \<Rightarrow> ss'\<lparr>ss_total := ss_total ss' + length filtered, ss_pairs := hm_insert exch filtered (ss_pairs ss')\<rparr>))"

text \<open>The first anchor that a symbol ends with and that leaves something.\<close>

definition ends_with :: "string \<Rightarrow> string \<Rightarrow> bool" where
  "ends_with suf s \<longleftrightarrow> is_prefix_of (rev suf) (rev s)"

fun split_anchor :: "string list \<Rightarrow> string \<Rightarrow> (string \<times> string) option" where
  "split_anchor [] symbol = None"
| "split_anchor (anchor # anchors) symbol =
     (if ends_with anchor symbol \<and> take (length symbol - length anchor) symbol \<noteq> []
      then Some (take (length symbol - length anchor) symbol, anchor) else split_anchor anchors symbol)"

fun add_targets :: "u16 \<Rightarrow> listed_pair \<Rightarrow> u16 list \<Rightarrow> 'f scan_state \<Rightarrow> 'f scan_state" where
  "add_targets i entry [] ss = ss"
| "add_targets i entry (exch # exchs) ss =
     (let here = (case map_of (ss_pairs ss) exch of None \<Rightarrow> [] | Some ps \<Rightarrow> ps)
      in add_targets i entry exchs
           (if i \<in> fst ` set here then ss
            else ss\<lparr>ss_presence := entry_insert i exch (ss_presence ss), ss_pairs := hm_insert exch (here @ [entry]) (ss_pairs ss)\<rparr>))"

definition apply_custom :: "('f \<Rightarrow> 'f \<Rightarrow> bool) \<Rightarrow> (u16 \<Rightarrow> bool) \<Rightarrow> 'f scan_state \<Rightarrow> string \<times> u16 list \<Rightarrow> 'f scan_state" where
  "apply_custom lt lk ss custom =
     (case custom of (symbol, targets) \<Rightarrow>
        (case split_anchor (quote_anchors (cf_config (ss_finder ss))) symbol of
           None \<Rightarrow> ss
         | Some (base, quote) \<Rightarrow>
             (case pair_category lt (cf_config (ss_finder ss)) base quote of
                None \<Rightarrow> ss
              | Some category \<Rightarrow>
                  (case get_or_create_token_id lk base category (ss_finder ss) of
                     (None, cf) \<Rightarrow> ss\<lparr>ss_finder := cf\<rparr>
                   | (Some (i, fresh), cf) \<Rightarrow>
                       add_targets i (i, base, quote, symbol) targets (ss\<lparr>ss_finder := cf, ss_new := ss_new ss + (if fresh then 1 else 0)\<rparr>)))))"

definition scan_all :: "('f \<Rightarrow> 'f \<Rightarrow> bool) \<Rightarrow> (u16 \<Rightarrow> bool) \<Rightarrow> (u16 \<times> raw_pair list) list \<Rightarrow> 'f coin_finder \<Rightarrow> 'f scan_state" where
  "scan_all lt lk results cf =
     foldl (apply_custom lt lk)
       (foldl (scan_result lt lk) \<lparr>ss_finder = cf, ss_pairs = [], ss_presence = [], ss_new = 0, ss_total = 0\<rparr> results) (cf_custom cf)"

definition tri_pairs :: "capital_allocator \<Rightarrow> (u16 \<times> listed_pair list) list \<Rightarrow> (u16 \<times> (u16 \<times> u16) list) list" where
  "tri_pairs alloc m = map (\<lambda>(exch, ps). (exch, List.map_filter (\<lambda>(i, base, quote, raw). map_option (\<lambda>q. (i, q)) (get_id quote alloc)) ps)) m"

section \<open>Pruning\<close>

text \<open>\<^verbatim>\<open>let count = m.entry(k).or_insert(0); *count += 1;\<close>\<close>

definition count_up :: "'k \<Rightarrow> ('k \<times> u32) list \<Rightarrow> u32 \<times> ('k \<times> u32) list" where
  "count_up k m = (let n = unwrap_or (map_of m k) 0 + 1 in (n, hm_insert k n m))"

fun cross_check :: "u32 \<Rightarrow> u16 list \<Rightarrow> u16 list \<Rightarrow> (u16 \<times> u32) list \<Rightarrow> u16 list \<times> (u16 \<times> u32) list" where
  "cross_check threshold seen [] m = ([], m)"
| "cross_check threshold seen (t # ts) m =
     (if t < 100 then cross_check threshold seen ts m
      else if t \<in> set seen then cross_check threshold seen ts (hm_insert t 0 m)
      else case count_up t m of
             (n, m') \<Rightarrow> (case cross_check threshold seen ts m' of (rem, m'') \<Rightarrow> ((if threshold \<le> n then t # rem else rem), m'')))"

text \<open>The sets of tokens per exchange, as the source builds them: from the keys and the members of the presence.\<close>

definition exch_token_seen :: "(u16 \<times> u16 list) list \<Rightarrow> (u16 \<times> u16 list) list" where
  "exch_token_seen presence = foldl (\<lambda>m (exch, ts). foldl (\<lambda>m t. entry_insert exch t m) m ts) [] presence"

fun tri_check :: "u32 \<Rightarrow> (u16 \<times> u16 list) list \<Rightarrow> (u16 \<times> u16) list \<Rightarrow> ((u16 \<times> u16) \<times> u32) list \<Rightarrow> (u16 \<times> u16) list \<times> ((u16 \<times> u16) \<times> u32) list" where
  "tri_check threshold seen [] m = ([], m)"
| "tri_check threshold seen ((t, e) # tes) m =
     (if t \<in> set (neighbours seen e) then tri_check threshold seen tes (hm_insert (t, e) 0 m)
      else case count_up (t, e) m of
             (n, m') \<Rightarrow> (case tri_check threshold seen tes m' of (rem, m'') \<Rightarrow> ((if threshold \<le> n then (t, e) # rem else rem), m'')))"

text \<open>
  A removal takes the locks of the registry.  They are not reentrant: when the caller holds them (\<open>held\<close>) the task waits for itself.  \<open>Stuck\<close> is the state in which it
  waits.
\<close>

datatype 'f finder_stop = Panic | Stuck "'f coin_finder"

definition remove_token :: "bool \<Rightarrow> (u16 \<Rightarrow> bool) \<Rightarrow> 'f coin_finder \<Rightarrow> u16 \<Rightarrow> 'f finder_stop + 'f coin_finder" where
  "remove_token held lk cf t =
     (case invalidate_token (unat t) (cf_arena cf) of
        None \<Rightarrow> Inl Panic
      | Some a \<Rightarrow>
          let cf' = cf\<lparr>cf_arena := unregister_active_token (lk t) t a, cf_missing := hm_remove t (cf_missing cf),
                cf_exchange_missing := filter (\<lambda>((t', _), _). t' \<noteq> t) (cf_exchange_missing cf)\<rparr>;
              symbol = unwrap_or (get_symbol t (cf_allocator cf)) (''id:'' @ show_word t)
          in if held then Inl (Stuck cf')
             else Inr (cf'\<lparr>cf_symbol_map := hm_remove symbol (cf_symbol_map cf), cf_categories := hm_remove t (cf_categories cf)\<rparr>))"

fun remove_tokens :: "bool \<Rightarrow> (u16 \<Rightarrow> bool) \<Rightarrow> u16 list \<Rightarrow> 'f coin_finder \<Rightarrow> 'f finder_stop + 'f coin_finder" where
  "remove_tokens held lk [] cf = Inr cf"
| "remove_tokens held lk (t # ts) cf = (case remove_token held lk cf t of Inl stop \<Rightarrow> Inl stop | Inr cf' \<Rightarrow> remove_tokens held lk ts cf')"

definition invalidate_pair :: "u32 \<Rightarrow> 'f coin_finder \<times> nat \<Rightarrow> u16 \<times> u16 \<Rightarrow> ('f coin_finder \<times> nat) option" where
  "invalidate_pair threshold st te =
     (case (st, te) of ((cf, n), (t, e)) \<Rightarrow>
        if total_exchanges (cf_arena cf) \<le> unat e \<or> total_tokens (cf_arena cf) \<le> unat t then Some (cf, n)
        else map_option (\<lambda>a. (cf\<lparr>cf_arena := a, cf_exchange_missing := hm_insert (t, e) threshold (cf_exchange_missing cf)\<rparr>, Suc n))
               (store_quote (get_index (cf_arena cf) (unat e) (unat t)) 0 0 (cf_arena cf)))"

definition remove_stale ::
  "bool \<Rightarrow> (u16 \<Rightarrow> bool) \<Rightarrow> u32 \<Rightarrow> u16 list \<Rightarrow> (u16 \<times> u16) list \<Rightarrow> 'f coin_finder \<Rightarrow> 'f finder_stop + 'f coin_finder \<times> nat \<times> nat" where
  "remove_stale held lk threshold gone stale cf =
     (case remove_tokens held lk gone cf of
        Inl stop \<Rightarrow> Inl stop
      | Inr cf1 \<Rightarrow>
          (case try_fold (invalidate_pair threshold) (cf1, 0) (filter (\<lambda>(t, _). t \<notin> set gone) stale) of
             None \<Rightarrow> Inl Panic
           | Some (cf2, invalidated) \<Rightarrow>
               if gone \<noteq> [] \<or> 0 < invalidated
               then (case build_cross_exchange_targets (cf_arena cf2) of
                       None \<Rightarrow> Inl Panic | Some a \<Rightarrow> Inr (cf2\<lparr>cf_arena := a\<rparr>, length gone, invalidated))
               else Inr (cf2, 0, 0)))"

text \<open>
  \<open>busy\<close>: the list of active tokens could not be locked.  Attempts to unregister a token succeed by \<open>lk\<close>.
\<close>

definition prune_stale_tokens ::
  "bool \<Rightarrow> bool \<Rightarrow> (u16 \<Rightarrow> bool) \<Rightarrow> (u16 \<times> u16 list) list \<Rightarrow> 'f coin_finder \<Rightarrow> 'f finder_stop + 'f coin_finder \<times> nat \<times> nat" where
  "prune_stale_tokens held busy lk presence cf =
     (let cross = cross_arb_removal_cycles (cf_config cf); tri = tri_arb_removal_cycles (cf_config cf)
      in if cross = 0 \<and> tri = 0 \<or> busy then Inr (cf, 0, 0)
         else let active = active_tokens (cf_arena cf); ids = map fst (cf_rest_urls cf);
                  (gone, missing) = (if 0 < cross then cross_check cross (map fst presence) active (cf_missing cf) else ([], cf_missing cf));
                  (stale, exch_missing) = (if 0 < tri
                     then tri_check tri (exch_token_seen presence) [(t, e). t \<leftarrow> active, \<not> t < 100, e \<leftarrow> ids] (cf_exchange_missing cf)
                     else ([], cf_exchange_missing cf))
              in remove_stale held lk tri gone stale (cf\<lparr>cf_missing := missing, cf_exchange_missing := exch_missing\<rparr>))"

section \<open>The loop\<close>

text \<open>The tasks of a cycle: one program per exchange with its replies; a task that panicked gives nothing.\<close>

definition cycle_results :: "('f, 'd) client_api \<Rightarrow> (u16 \<Rightarrow> http_reply list) \<Rightarrow> (u16 \<times> string) list \<Rightarrow> (u16 \<times> raw_pair list) list" where
  "cycle_results A replies urls = List.map_filter (\<lambda>(i, url). map_option (Pair i) (snd (run_http (scan_exchange A i url) (replies i)))) urls"

record scan_env =
  se_replies :: "u16 \<Rightarrow> http_reply list"
  se_register :: "u16 \<Rightarrow> bool"
  se_busy :: bool
  se_unregister :: "u16 \<Rightarrow> bool"
  se_order :: "u16 list \<Rightarrow> u16 list"

text \<open>The locks of the registry, taken for the inventory, are held to the end of the cycle, also while it prunes.\<close>

definition scan_cycle ::
  "('f, 'd) client_api \<Rightarrow> ('f \<Rightarrow> 'f \<Rightarrow> bool) \<Rightarrow> scan_env \<Rightarrow> u64 \<Rightarrow> 'f coin_finder \<Rightarrow> 'f finder_stop + 'f coin_finder \<times> nat \<times> nat" where
  "scan_cycle A lt env cyc cf =
     (let ss = scan_all lt (se_register env) (cycle_results A (se_replies env) (cf_rest_urls cf)) cf; cf1 = ss_finder ss;
          pair_map = tri_pairs (cf_allocator cf1) (ss_pairs ss)
      in case build_cross_exchange_targets_from_presence (ss_presence ss) (cf_arena cf1) of
           None \<Rightarrow> Inl Panic
         | Some a1 \<Rightarrow>
             (case build_cross_exchange_targets a1 of
                None \<Rightarrow> Inl Panic
              | Some a2 \<Rightarrow>
                  let cf2 = cf1\<lparr>cf_arena := build_triangular_loops (se_order env) pair_map a2,
                      cf_inventory := inventory_update (ss_pairs ss) (ss_presence ss) (cf_symbol_map cf1) (cf_categories cf1) pair_map (ss_new ss) (ss_total ss) cyc
                        (cf_inventory cf1)\<rparr>
                  in map_sum (\<lambda>x. x) (\<lambda>(cf3, _). (cf3, ss_new ss, ss_total ss)) (prune_stale_tokens True (se_busy env) (se_unregister env) (ss_presence ss) cf2)))"

text \<open>The rounds of the scanner, with what happens in each.\<close>

fun run_finder :: "('f, 'd) client_api \<Rightarrow> ('f \<Rightarrow> 'f \<Rightarrow> bool) \<Rightarrow> u64 \<Rightarrow> scan_env list \<Rightarrow> 'f coin_finder \<Rightarrow> 'f finder_stop + 'f coin_finder" where
  "run_finder A lt cyc [] cf = Inr cf"
| "run_finder A lt cyc (env # envs) cf =
     (let n = saturating_add cyc 1
      in case scan_cycle A lt env n cf of Inl stop \<Rightarrow> Inl stop | Inr (cf', _) \<Rightarrow> run_finder A lt n envs cf')"

end
