(* ===== verification/Coin_Registry.thy ===== *)
theory Coin_Registry
  imports Coin_Finder
begin

text \<open>
  What the coin finder guarantees: the scanners deliver pairs in upper case, a token keeps its number and no number is given twice, whatever the exchanges answer and
  whatever locks are busy, and no cycle panics.  The last sections show that the removal of a token waits for ever, and that the pruning of pairs takes tokens for exchanges.
\<close>

section \<open>Upper case\<close>

abbreviation upper_case :: "string \<Rightarrow> bool" where
  "upper_case s \<equiv> to_uppercase s = s"

lemma ascii_upper_idem [simp]: "ascii_upper (ascii_upper c) = ascii_upper c"
  by (auto simp: ascii_upper_def Let_def)

lemma to_uppercase_idem [simp]: "upper_case (to_uppercase s)"
  by (simp add: to_uppercase_def)

lemma upper_case_take: "upper_case s \<Longrightarrow> upper_case (take n s)"
  by (simp add: to_uppercase_def flip: take_map)

section \<open>Scanned pairs\<close>

definition pair_ok :: "raw_pair \<Rightarrow> bool" where
  "pair_ok p \<longleftrightarrow> rp_status_ok p \<and> upper_case (rp_base p) \<and> upper_case (rp_quote p)"

lemma pair_ok_listed [simp]: "pair_ok (listed_pair_of b q r)"
  by (simp add: pair_ok_def listed_pair_of_def)

lemma pair_ok_raw [simp]: "pair_ok (p\<lparr>rp_raw := r\<rparr>) \<longleftrightarrow> pair_ok p"
  by (simp add: pair_ok_def)

lemma each_item_ok: "(\<And>x p. f x = Some p \<Longrightarrow> pair_ok p) \<Longrightarrow> list_all pair_ok (each_item f xs)"
  by (auto simp: each_item_def List.map_filter_def list_all_iff split: option.splits)

lemma run_public_scan:
  assumes "\<And>v. list_all pair_ok (f v)" and "snd (run_http (public_scan A rq f) rps) = Some ps"
  shows "list_all pair_ok ps"
  using assms by (cases rps) (auto simp: public_scan_def split: option.splits)

lemma item_ok:
  "keep_if c (listed_pair_of b q r) = Some p \<Longrightarrow> pair_ok p"
  "spot_item c k k' k'' v = Some p \<Longrightarrow> pair_ok p"
  "okx_item v = Some p \<Longrightarrow> pair_ok p"
  "kraken_item e = Some p \<Longrightarrow> pair_ok p"
  "ibank_market v = Some p \<Longrightarrow> pair_ok p"
  by (auto simp: keep_if_def spot_item_def okx_item_def kraken_item_def ibank_market_def Let_def split: list.splits if_splits prod.splits)

lemma scan_ibank_ok:
  assumes "snd (run_http (scan_ibank A url) rps) = Some ps"
  shows "list_all pair_ok ps"
proof (cases rps)
  case (Cons rp rest)
  have assets: "list_all pair_ok (ibank_assets xs)" for xs :: "'a json list option"
    by (auto simp: ibank_assets_def list_all_iff Let_def split: option.splits if_splits)
  show ?thesis
  proof (cases rp)
    case (NoResponse e)
    with assms Cons have "snd (run_http (public_scan A (public_get (trim_slashes url @ ''/Public/GetAssets'')) (\<lambda>v. ibank_assets (as_array v))) rest) = Some ps"
      by (auto simp: scan_ibank_def split: prod.splits)
    then show ?thesis by (rule run_public_scan [rotated]) (rule assets)
  qed (use assms Cons in \<open>auto simp: scan_ibank_def item_ok intro!: each_item_ok split: option.splits\<close>)
qed (use assms in \<open>simp add: scan_ibank_def\<close>)

lemma scan_exchange_ok:
  assumes "snd (run_http (scan_exchange A i url) rps) = Some ps"
  shows "list_all pair_ok ps"
proof -
  have each: "list_all pair_ok ps" if "snd (run_http (scan A url) rps) = Some ps"
    and "scan \<in> set [scan_binance, scan_bybit, scan_okx, scan_gateio, scan_kucoin, scan_bitfinex, scan_bitget, scan_bitmex, scan_coinbase, scan_htx, scan_kraken,
                   scan_lbank, scan_bitstamp, scan_deribit, scan_delta, scan_mexc, scan_ibank]" for scan
    using that scan_ibank_ok [of A url rps ps]
    by (auto simp: scan_binance_def scan_bybit_def scan_okx_def scan_gateio_def scan_kucoin_def scan_bitfinex_def scan_bitget_def scan_bitmex_def scan_coinbase_def
        scan_htx_def scan_kraken_def scan_lbank_def scan_bitstamp_def scan_deribit_def scan_delta_def scan_mexc_def item_ok
        elim!: run_public_scan [rotated] intro!: each_item_ok)
  show ?thesis
    using assms each by (auto simp: scan_exchange_def get_at_def nth_mem simp del: list.set split: if_splits)
qed

lemma cycle_results_ok: "(i, ps) \<in> set (cycle_results A replies urls) \<Longrightarrow> list_all pair_ok ps"
  by (auto simp: cycle_results_def List.map_filter_def intro: scan_exchange_ok)

section \<open>Numbers of tokens\<close>

text \<open>
  The registry: every symbol is in upper case and passed the filter, no two symbols share a number, and numbers are below the next one; the arena is well formed.
\<close>

definition admitted :: "('f \<Rightarrow> 'f \<Rightarrow> bool) \<Rightarrow> 'f coin_finder_config \<Rightarrow> string \<Rightarrow> bool" where
  "admitted lt cfg s \<longleftrightarrow> upper_case s \<and> (\<exists>quote. pair_category lt cfg s quote \<noteq> None)"

definition finder_ok :: "('f \<Rightarrow> 'f \<Rightarrow> bool) \<Rightarrow> u16 \<Rightarrow> 'f coin_finder \<Rightarrow> bool" where
  "finder_ok lt start cf \<longleftrightarrow>
     hm_ok (cf_symbol_map cf) \<and> inj_on (map_of (cf_symbol_map cf)) (dom (map_of (cf_symbol_map cf))) \<and>
     (\<forall>s i. map_of (cf_symbol_map cf) s = Some i \<longrightarrow> admitted lt (cf_config cf) s \<and> start \<le> i \<and> i < cf_next_token_id cf) \<and>
     start \<le> cf_next_token_id cf \<and> cf_next_token_id cf \<le> max start MAX_DISCOVERED_TOKENS \<and>
     list_all (\<lambda>(s, _). upper_case s) (cf_custom cf) \<and> arena_wf (cf_arena cf)"

lemma finder_ok_arena: "finder_ok lt start cf \<Longrightarrow> arena_wf (cf_arena cf)"
  by (simp add: finder_ok_def)

text \<open>
  One state follows another: the rest of the finder is the same, what is registered was registered with that number before or has a number that is new, and nothing has been
  taken out.
\<close>

definition follows :: "'f coin_finder \<Rightarrow> 'f coin_finder \<Rightarrow> bool" where
  "follows cf' cf \<longleftrightarrow>
     cf_config cf' = cf_config cf \<and> cf_custom cf' = cf_custom cf \<and> cf_rest_urls cf' = cf_rest_urls cf \<and> cf_next_token_id cf \<le> cf_next_token_id cf' \<and>
     (\<forall>s i. map_of (cf_symbol_map cf') s = Some i \<longrightarrow> map_of (cf_symbol_map cf) s = Some i \<or> cf_next_token_id cf \<le> i) \<and>
     map_of (cf_symbol_map cf) \<subseteq>\<^sub>m map_of (cf_symbol_map cf')"

lemma follows_refl [simp]: "follows cf cf"
  by (simp add: follows_def)

lemma follows_trans [trans]: "follows cf'' cf' \<Longrightarrow> follows cf' cf \<Longrightarrow> follows cf'' cf"
  unfolding follows_def using order_trans [of "cf_next_token_id cf" "cf_next_token_id cf'"] map_le_trans by simp blast

text \<open>A step keeps the registry in order and follows the state before.\<close>

abbreviation good_step :: "('f \<Rightarrow> 'f \<Rightarrow> bool) \<Rightarrow> u16 \<Rightarrow> 'f coin_finder \<Rightarrow> 'f coin_finder \<Rightarrow> bool" where
  "good_step lt start cf cf' \<equiv> finder_ok lt start cf' \<and> follows cf' cf"

lemma inj_on_map_of_update:
  assumes "inj_on m (dom m)" "\<And>s j. m s = Some j \<Longrightarrow> j \<noteq> i"
  shows "inj_on (m(k \<mapsto> i)) (dom (m(k \<mapsto> i)))"
proof (rule inj_onI)
  fix x y assume "x \<in> dom (m(k \<mapsto> i))" "y \<in> dom (m(k \<mapsto> i))" "(m(k \<mapsto> i)) x = (m(k \<mapsto> i)) y"
  then show "x = y" using assms by (cases "x = k"; cases "y = k") (auto dest: inj_onD)
qed

lemma register_active_wf: "arena_wf (register_active_token lk i a) \<longleftrightarrow> arena_wf a" "arena_wf (unregister_active_token lk i a) \<longleftrightarrow> arena_wf a"
  by (auto simp: register_active_token_def unregister_active_token_def arena_wf_def)

lemma next_number: "v < MAX_DISCOVERED_TOKENS \<Longrightarrow> v < v + 1 \<and> v + 1 \<le> MAX_DISCOVERED_TOKENS" for v :: u16
  by (simp add: word_less_nat_alt word_le_nat_alt unat_word_ariths)

lemma get_or_create_good:
  assumes ok: "finder_ok lt start cf" and up: "admitted lt (cf_config cf) s"
  shows "good_step lt start cf (snd (get_or_create_token_id lk s cat cf))"
proof (cases "map_of (cf_symbol_map cf) s")
  case (Some i)
  then show ?thesis using ok by (simp add: get_or_create_token_id_def finder_ok_def follows_def)
next
  case None
  show ?thesis
  proof (cases "MAX_DISCOVERED_TOKENS \<le> cf_next_token_id cf")
    case True
    then show ?thesis using ok None by (simp add: get_or_create_token_id_def alloc_token_id_def)
  next
    case False
    let ?v = "cf_next_token_id cf" and ?m = "cf_symbol_map cf"
    have upper: "to_uppercase s = s" using up by (simp add: admitted_def)
    have n: "?v < ?v + 1" "?v + 1 \<le> MAX_DISCOVERED_TOKENS" using next_number [of ?v] False by auto
    have old: "admitted lt (cf_config cf) s' \<and> start \<le> j \<and> j < ?v" if "map_of ?m s' = Some j" for s' j
      using ok that by (auto simp: finder_ok_def)
    have inj: "inj_on ((map_of ?m)(s \<mapsto> ?v)) (dom ((map_of ?m)(s \<mapsto> ?v)))"
      by (rule inj_on_map_of_update) (use ok old in \<open>auto simp: finder_ok_def\<close>)
    have new: "admitted lt (cf_config cf) s' \<and> start \<le> j \<and> j < ?v + 1 \<and> (map_of ?m s' = Some j \<or> ?v \<le> j)"
      if "((map_of ?m)(s \<mapsto> ?v)) s' = Some j" for s' j
      using that old [of s' j] up n ok by (cases "s' = s") (auto simp: finder_ok_def intro: order.strict_trans)
    define cf' where "cf' = snd (get_or_create_token_id lk s cat cf)"
    have "cf_symbol_map cf' = hm_insert s ?v ?m" "cf_next_token_id cf' = ?v + 1" "cf_config cf' = cf_config cf" "cf_custom cf' = cf_custom cf"
      "cf_rest_urls cf' = cf_rest_urls cf" "cf_arena cf' = register_active_token (lk ?v) ?v (cf_arena cf)"
      using None False upper by (simp_all add: cf'_def get_or_create_token_id_def alloc_token_id_def Let_def)
    moreover have "map_of ?m \<subseteq>\<^sub>m (map_of ?m)(s \<mapsto> ?v)" using None by (simp add: map_le_def dom_def)
    moreover have "start \<le> ?v" "hm_ok ?m" "list_all (\<lambda>(s, _). upper_case s) (cf_custom cf)" "arena_wf (cf_arena cf)"
      using ok by (auto simp: finder_ok_def)
    ultimately have "good_step lt start cf cf'"
      using n inj new unfolding finder_ok_def follows_def
      by (simp add: map_of_hm_insert hm_ok_insert register_active_wf le_max_iff_disj order_less_imp_le order.trans [of start ?v] del: fun_upd_apply dom_fun_upd)
    then show ?thesis by (simp add: cf'_def)
  qed
qed

section \<open>A cycle\<close>

definition scan_ok :: "('f \<Rightarrow> 'f \<Rightarrow> bool) \<Rightarrow> u16 \<Rightarrow> 'f coin_finder \<Rightarrow> 'f scan_state \<Rightarrow> bool" where
  "scan_ok lt start cf ss \<longleftrightarrow> good_step lt start cf (ss_finder ss) \<and> adj_ok (ss_presence ss)"

lemma admittedI: "upper_case s \<Longrightarrow> pair_category lt cfg s quote = Some c \<Longrightarrow> admitted lt cfg s"
  by (auto simp: admitted_def)

lemma scan_ok_get_or_create:
  assumes "scan_ok lt start cf ss" "upper_case s" "pair_category lt (cf_config (ss_finder ss)) s quote = Some c"
    and "get_or_create_token_id lk s cat (ss_finder ss) = (r, cf')"
  shows "good_step lt start cf cf'"
  using get_or_create_good [of lt start "ss_finder ss" s lk cat] assms follows_trans [of cf' "ss_finder ss" cf]
  by (auto simp: scan_ok_def dest: admittedI)

lemma scan_ok_finder: "scan_ok lt start cf (ss\<lparr>ss_finder := cf', ss_new := n\<rparr>) \<longleftrightarrow> good_step lt start cf cf' \<and> adj_ok (ss_presence ss)"
  "scan_ok lt start cf (ss\<lparr>ss_finder := cf'\<rparr>) \<longleftrightarrow> good_step lt start cf cf' \<and> adj_ok (ss_presence ss)"
  by (simp_all add: scan_ok_def)

lemma scan_ok_presence: "scan_ok lt start cf ss \<Longrightarrow> adj_ok (ss_presence ss)"
  by (simp add: scan_ok_def)

lemma scan_pair_ok:
  assumes "scan_ok lt start cf (fst st)" "pair_ok p"
  shows "scan_ok lt start cf (fst (scan_pair lt lk exch p st))"
  using assms scan_ok_get_or_create [OF assms(1), of "rp_base p" "rp_quote p"]
  by (auto simp: scan_pair_def pair_ok_def scan_ok_def adj_ok_entry_insert split: prod.splits option.splits)

lemma scan_result_ok:
  assumes "scan_ok lt start cf ss" "list_all pair_ok (snd r)"
  shows "scan_ok lt start cf (scan_result lt lk ss r)"
proof -
  obtain exch ps where r: "r = (exch, ps)" by fastforce
  have "scan_ok lt start cf (fst (foldl (\<lambda>st p. scan_pair lt lk exch p st) (ss, []) ps))"
    by (rule foldl_inv [where P = "\<lambda>st. scan_ok lt start cf (fst st)"]) (use assms r in \<open>auto simp: list_all_iff intro: scan_pair_ok [of _ _ _ "(_, _)", simplified]\<close>)
  then show ?thesis by (auto simp: scan_result_def r scan_ok_def split: prod.splits)
qed

lemma split_anchor_prefix: "split_anchor anchors s = Some (b, q) \<Longrightarrow> \<exists>n. b = take n s"
  by (induction anchors) (auto split: if_splits)

lemma add_targets_ok: "scan_ok lt start cf ss \<Longrightarrow> scan_ok lt start cf (add_targets i e exchs ss)"
  by (induction i e exchs ss rule: add_targets.induct) (auto simp: Let_def scan_ok_def adj_ok_entry_insert)

lemma apply_custom_ok:
  assumes "scan_ok lt start cf ss" "upper_case (fst c)"
  shows "scan_ok lt start cf (apply_custom lt lk ss c)"
proof -
  have up: "upper_case b" if "split_anchor anchors (fst c) = Some (b, q)" for anchors b q
    using split_anchor_prefix [OF that] upper_case_take [OF assms(2)] by auto
  show ?thesis
    using assms(1) scan_ok_get_or_create [OF assms(1) up, THEN conjunct1] scan_ok_get_or_create [OF assms(1) up, THEN conjunct2]
    by (auto simp: apply_custom_def scan_ok_finder scan_ok_presence intro!: add_targets_ok split: prod.splits option.splits)
qed

lemma scan_all_ok:
  assumes "finder_ok lt start cf" and "\<And>r. r \<in> set rs \<Longrightarrow> list_all pair_ok (snd r)"
  shows "scan_ok lt start cf (scan_all lt lk rs cf)"
  unfolding scan_all_def
proof (rule foldl_inv)
  show "scan_ok lt start cf (apply_custom lt lk ss c)" if "scan_ok lt start cf ss" "c \<in> set (cf_custom cf)" for ss c
    by (rule apply_custom_ok) (use that assms(1) in \<open>auto simp: finder_ok_def list_all_iff\<close>)
  show "scan_ok lt start cf (foldl (scan_result lt lk) \<lparr>ss_finder = cf, ss_pairs = [], ss_presence = [], ss_new = 0, ss_total = 0\<rparr> rs)"
    by (rule foldl_inv, erule scan_result_ok) (use assms in \<open>simp_all add: scan_ok_def adj_ok_def\<close>)
qed

text \<open>Pruning and rebuilding leave the registry alone: a removal never gets that far.\<close>

lemma kept_good:
  assumes "good_step lt start cf0 cf" "arena_wf (cf_arena cf')" "cf_symbol_map cf' = cf_symbol_map cf"
    and "cf_config cf' = cf_config cf" "cf_custom cf' = cf_custom cf" "cf_rest_urls cf' = cf_rest_urls cf" "cf_next_token_id cf' = cf_next_token_id cf"
  shows "good_step lt start cf0 cf'"
  using assms(1,2) unfolding finder_ok_def follows_def assms(3-7) by blast

text \<open>How a part of a cycle may end: not with a panic, and with a registry in order, even when it waits for ever.\<close>

fun good_end :: "('f \<Rightarrow> 'f \<Rightarrow> bool) \<Rightarrow> u16 \<Rightarrow> 'f coin_finder \<Rightarrow> 'f finder_stop + 'f coin_finder \<Rightarrow> bool" where
  "good_end lt start cf0 (Inl Panic) \<longleftrightarrow> False"
| "good_end lt start cf0 (Inl (Stuck cf)) \<longleftrightarrow> good_step lt start cf0 cf"
| "good_end lt start cf0 (Inr cf) \<longleftrightarrow> good_step lt start cf0 cf"

abbreviation state_part :: "'f finder_stop + 'f coin_finder \<times> 'b \<Rightarrow> 'f finder_stop + 'f coin_finder" where
  "state_part \<equiv> map_sum (\<lambda>x. x) fst"

lemma remove_token_stuck:
  assumes "good_step lt start cf0 cf"
  shows "\<exists>cf'. remove_token True lk cf t = Inl (Stuck cf') \<and> good_step lt start cf0 cf'"
proof -
  obtain a where a: "invalidate_token (unat t) (cf_arena cf) = Some a" "arena_wf a"
    using invalidate_token_refines [of "cf_arena cf" "unat t"] assms by (auto simp: finder_ok_def)
  have "good_step lt start cf0 (cf\<lparr>cf_arena := unregister_active_token (lk t) t a, cf_missing := m, cf_exchange_missing := m'\<rparr>)" for m m'
    by (rule kept_good [OF assms]) (use a in \<open>auto simp: register_active_wf\<close>)
  then show ?thesis using a by (simp add: remove_token_def Let_def)
qed

lemma store_quote_total:
  assumes "arena_wf a" "e < total_exchanges a" "t < total_tokens a"
  shows "\<exists>a'. store_quote (get_index a e t) b k a = Some a' \<and> arena_wf a'"
  using update_price_refines [OF assms(1), of e t b k] assms(2,3) by (auto simp: update_price_def)

lemma invalidate_pair_good:
  assumes "good_step lt start cf0 (fst st)"
  shows "\<exists>st'. invalidate_pair thr st te = Some st' \<and> good_step lt start cf0 (fst st')"
proof -
  obtain cf n t e where st: "st = (cf, n)" "te = (t, e)" by (cases st, cases te) auto
  show ?thesis
  proof (cases "total_exchanges (cf_arena cf) \<le> unat e \<or> total_tokens (cf_arena cf) \<le> unat t")
    case True
    then show ?thesis using assms by (simp add: invalidate_pair_def st)
  next
    case False
    then obtain a where a: "store_quote (get_index (cf_arena cf) (unat e) (unat t)) 0 0 (cf_arena cf) = Some a" "arena_wf a"
      using store_quote_total [of "cf_arena cf" "unat e" "unat t" 0 0] assms st by (auto simp: finder_ok_def)
    have "good_step lt start cf0 (cf\<lparr>cf_arena := a, cf_exchange_missing := hm_insert (t, e) thr (cf_exchange_missing cf)\<rparr>)"
      by (rule kept_good [where cf = cf]) (use a assms st in auto)
    then show ?thesis using a(1) False by (simp add: invalidate_pair_def st)
  qed
qed

lemma remove_stale_good:
  assumes "good_step lt start cf0 cf"
  shows "good_end lt start cf0 (state_part (remove_stale True lk thr gone stale cf))"
    "gone \<noteq> [] \<Longrightarrow> \<exists>cf'. remove_stale True lk thr gone stale cf = Inl (Stuck cf')"
proof -
  let ?P = "good_step lt start cf0"
  have stuck: "\<exists>cf'. remove_stale True lk thr gone stale cf = Inl (Stuck cf') \<and> ?P cf'" if "gone \<noteq> []"
  proof -
    obtain t ts where g: "gone = t # ts" using \<open>gone \<noteq> []\<close> by (cases gone) auto
    show ?thesis using remove_token_stuck [OF assms, of lk t] by (auto simp: remove_stale_def g)
  qed
  then show "gone \<noteq> [] \<Longrightarrow> \<exists>cf'. remove_stale True lk thr gone stale cf = Inl (Stuck cf')" by blast
  show "good_end lt start cf0 (state_part (remove_stale True lk thr gone stale cf))"
  proof (cases gone)
    case Nil
    have "\<exists>st. try_fold (invalidate_pair thr) (cf, 0) stale = Some st \<and> ?P (fst st)"
      by (rule try_fold_inv [where P = "\<lambda>st. ?P (fst st)"]) (erule invalidate_pair_good, use assms in simp)
    then obtain cf2 k where 2: "try_fold (invalidate_pair thr) (cf, 0) stale = Some (cf2, k)" "?P cf2" by auto
    obtain a where a: "build_cross_exchange_targets (cf_arena cf2) = Some a" "arena_wf a"
      using build_cross_exchange_targets_result [OF finder_ok_arena] 2(2) by blast
    have "?P (cf2\<lparr>cf_arena := a\<rparr>)" by (rule kept_good [OF 2(2)]) (use a in auto)
    then show ?thesis using 2 a Nil by (simp add: remove_stale_def case_prod_beta')
  qed (use stuck in auto)
qed

lemma prune_good:
  assumes "good_step lt start cf0 cf"
  shows "good_end lt start cf0 (state_part (prune_stale_tokens True busy lk presence cf))"
proof -
  have counted: "good_end lt start cf0 (state_part (remove_stale True lk thr gone stale (cf\<lparr>cf_missing := m, cf_exchange_missing := m'\<rparr>)))" for thr gone stale m m'
    by (rule remove_stale_good(1), rule kept_good [OF assms]) (use assms in \<open>auto simp: finder_ok_def\<close>)
  show ?thesis
  proof (cases "cross_arb_removal_cycles (cf_config cf) = 0 \<and> tri_arb_removal_cycles (cf_config cf) = 0 \<or> busy")
    case True
    then show ?thesis using assms by (simp add: prune_stale_tokens_def Let_def)
  next
    case False
    show ?thesis unfolding prune_stale_tokens_def Let_def case_prod_beta if_not_P [OF False] by (rule counted)
  qed
qed

text \<open>A cycle up to its pruning.\<close>

lemma scan_cycle_prunes:
  assumes "finder_ok lt start cf" and ss: "ss = scan_all lt (se_register env) (cycle_results A (se_replies env) (cf_rest_urls cf)) cf"
  shows "\<exists>cf'. scan_cycle A lt env cyc cf =
      map_sum (\<lambda>x. x) (\<lambda>(cf3, _). (cf3, ss_new ss, ss_total ss)) (prune_stale_tokens True (se_busy env) (se_unregister env) (ss_presence ss) cf') \<and>
    good_step lt start cf cf' \<and> cf_missing cf' = cf_missing (ss_finder ss) \<and> cf_symbol_map cf' = cf_symbol_map (ss_finder ss) \<and>
    active_tokens (cf_arena cf') = active_tokens (cf_arena (ss_finder ss))"
proof -
  have "scan_ok lt start cf ss"
    unfolding ss by (rule scan_all_ok [OF assms(1)]) (metis cycle_results_ok prod.collapse)
  then have ok: "good_step lt start cf (ss_finder ss)" "adj_ok (ss_presence ss)" by (auto simp: scan_ok_def)
  obtain a1 where a1: "build_cross_exchange_targets_from_presence (ss_presence ss) (cf_arena (ss_finder ss)) = Some a1" "arena_wf a1"
    using build_from_presence_result [of "cf_arena (ss_finder ss)" "ss_presence ss"] ok by (auto simp: finder_ok_def adj_ok_def)
  obtain a2 where a2: "build_cross_exchange_targets a1 = Some a2" "arena_wf a2"
    using build_cross_exchange_targets_result [OF a1(2)] by blast
  have act: "active_tokens a2 = active_tokens (cf_arena (ss_finder ss))"
    using a1(1) a2(1) by (auto simp: build_cross_exchange_targets_def build_cross_exchange_targets_from_presence_def)
  have wf: "arena_wf (build_triangular_loops (se_order env) pm a2)" for pm
    using a2(2) by (simp add: arena_wf_def build_triangular_loops_def)
  have "good_step lt start cf (ss_finder ss\<lparr>cf_arena := build_triangular_loops (se_order env) pm a2, cf_inventory := iv\<rparr>)" for pm iv
    by (rule kept_good [OF ok(1)]) (use wf in auto)
  then show ?thesis
    unfolding scan_cycle_def Let_def ss [symmetric] using a1(1) a2(1) act
    by (intro exI [of _ "ss_finder ss\<lparr>cf_arena := build_triangular_loops (se_order env) _ a2, cf_inventory := _\<rparr>"]) (simp add: build_triangular_loops_def)
qed

lemma scan_cycle_good:
  assumes "finder_ok lt start cf"
  shows "good_end lt start cf (state_part (scan_cycle A lt env cyc cf))"
proof -
  have same: "state_part (map_sum (\<lambda>x. x) (\<lambda>(cf3, _). (cf3, n, k)) r) = state_part r" for n k :: nat and r :: "'a finder_stop + 'a coin_finder \<times> nat \<times> nat"
    by (cases r) (auto split: prod.splits)
  show ?thesis using scan_cycle_prunes [OF assms refl, of A env cyc] prune_good same by metis
qed

lemma run_finder_good:
  assumes "good_step lt start cf0 cf"
  shows "good_end lt start cf0 (run_finder A lt cyc envs cf)"
  using assms
proof (induction envs arbitrary: cyc cf)
  case (Cons env envs)
  have "good_end lt start cf (state_part (scan_cycle A lt env (saturating_add cyc 1) cf))"
    by (rule scan_cycle_good) (use Cons.prems in simp)
  then consider (stuck) cf' where "scan_cycle A lt env (saturating_add cyc 1) cf = Inl (Stuck cf')" "good_step lt start cf cf'"
    | (goes_on) cf' x where "scan_cycle A lt env (saturating_add cyc 1) cf = Inr (cf', x)" "good_step lt start cf cf'"
    by (cases "scan_cycle A lt env (saturating_add cyc 1) cf") (auto elim!: good_end.elims)
  then show ?case
  proof cases
    case stuck
    then show ?thesis using Cons.prems follows_trans by (auto simp: Let_def)
  next
    case goes_on
    then have "good_step lt start cf0 cf'" using Cons.prems follows_trans by blast
    then show ?thesis using goes_on Cons.IH by (simp add: Let_def)
  qed
qed simp

section \<open>Properties\<close>

lemma finder_ok_new:
  assumes "arena_wf a"
  shows "finder_ok lt start (foldl (\<lambda>cf (s, is). add_custom_mapping s is cf) (coin_finder_new urls cfg alloc a start snap) customs)"
    (is "finder_ok lt start (?build customs)")
proof -
  define P where "P cf \<longleftrightarrow> finder_ok lt start cf" for cf :: "'a coin_finder"
  have keys: "list_all (\<lambda>(s, _). upper_case s) (hm_insert k v m)" if "list_all (\<lambda>(s, _). upper_case s) m" "upper_case k" for k and v :: "u16 list" and m
    using that by (induction k v m rule: hm_insert.induct) auto
  have "P (?build customs)"
  proof (rule foldl_inv)
    show "P (coin_finder_new urls cfg alloc a start snap)" using assms by (simp add: P_def finder_ok_def coin_finder_new_def le_max_iff_disj)
  qed (auto simp: P_def finder_ok_def add_custom_mapping_def keys)
  then show ?thesis by (simp add: P_def)
qed

text \<open>
  What the registry promises in a state: every symbol is in upper case and admitted, has a number between the start and the limit that has been handed out, and shares it with no other
  symbol.  A later state extends an earlier one: the symbols keep their numbers and new ones have numbers that had not been handed out.
\<close>

definition numbered :: "('f \<Rightarrow> 'f \<Rightarrow> bool) \<Rightarrow> 'f coin_finder_config \<Rightarrow> u16 \<Rightarrow> 'f coin_finder \<Rightarrow> bool" where
  "numbered lt cfg start cf \<longleftrightarrow>
     (\<forall>s i. map_of (cf_symbol_map cf) s = Some i \<longrightarrow>
        to_uppercase s = s \<and> (\<exists>quote. pair_category lt cfg s quote \<noteq> None) \<and> start \<le> i \<and> i < MAX_DISCOVERED_TOKENS \<and> i < cf_next_token_id cf) \<and>
     (\<forall>s s' i. map_of (cf_symbol_map cf) s = Some i \<longrightarrow> map_of (cf_symbol_map cf) s' = Some i \<longrightarrow> s = s')"

definition extends :: "'f coin_finder \<Rightarrow> 'f coin_finder \<Rightarrow> bool" where
  "extends cf cf' \<longleftrightarrow> map_of (cf_symbol_map cf) \<subseteq>\<^sub>m map_of (cf_symbol_map cf') \<and>
     (\<forall>s i. map_of (cf_symbol_map cf') s = Some i \<longrightarrow> map_of (cf_symbol_map cf) s = Some i \<or> cf_next_token_id cf \<le> i)"

lemma finder_numbered:
  assumes ok: "finder_ok lt start cf" and cfg: "cf_config cf = cfg"
  shows "numbered lt cfg start cf"
proof -
  have "admitted lt cfg s \<and> start \<le> i \<and> i < cf_next_token_id cf \<and> i < MAX_DISCOVERED_TOKENS" if "map_of (cf_symbol_map cf) s = Some i" for s i
  proof -
    have i: "admitted lt cfg s" "start \<le> i" "i < cf_next_token_id cf" "cf_next_token_id cf \<le> max start MAX_DISCOVERED_TOKENS"
      using that ok cfg by (auto simp: finder_ok_def)
    have "i < max start MAX_DISCOVERED_TOKENS" by (rule order.strict_trans2 [OF i(3,4)])
    then show ?thesis using i by (auto simp: less_max_iff_disj)
  qed
  moreover have "s = s'" if "map_of (cf_symbol_map cf) s = Some i" "map_of (cf_symbol_map cf) s' = Some i" for s s' i
    using ok that by (auto simp: finder_ok_def dest!: inj_onD [where x = s and y = s'])
  ultimately show ?thesis by (auto simp: numbered_def admitted_def)
qed

lemma good_end_numbered:
  assumes "good_end lt start cf0 r" "cf_config cf0 = cfg"
  shows "case r of
      Inl Panic \<Rightarrow> False
    | Inl (Stuck hung) \<Rightarrow> numbered lt cfg start hung \<and> extends cf0 hung
    | Inr cf \<Rightarrow> numbered lt cfg start cf \<and> extends cf0 cf"
proof -
  have "numbered lt cfg start cf \<and> extends cf0 cf" if "finder_ok lt start cf" "follows cf cf0" for cf
    using that finder_numbered [of lt start cf cfg] assms(2) by (auto simp: follows_def extends_def)
  then show ?thesis using assms(1) by (auto split: sum.split finder_stop.split)
qed

text \<open>
  C34: no token number is ever given twice.  Start the finder on a well-formed arena with any custom mappings and let it run any number of cycles, with any answers of the
  exchanges and any busy locks.  No cycle panics: either the run finishes its cycles, or one of them hangs for ever because its pruner waits for locks that the cycle itself holds.
  In the last state of a finished run, and likewise in the state in which a hanging run waits, the symbols in the registry are in upper case and admitted by the filter for some
  quote currency, two symbols never share a number, and numbers lie between the start and the limit of 2990.  If a run that has finished is continued by further
  cycles, until these finish or hang, every symbol keeps its number, and the symbols that are added have numbers that no symbol was given before.  (The registry never shrinks although
  the pruner is meant to delete the entries of stale tokens: the removal of the first of them is the point where the cycle hangs.)
\<close>

theorem token_numbers_unique:
  assumes wf: "arena_wf a"
    and init: "cf = foldl (\<lambda>cf (s, is). add_custom_mapping s is cf) (coin_finder_new urls cfg alloc a start snap) customs"
  shows "case run_finder A lt 0 envs cf of
      Inl Panic \<Rightarrow> False
    | Inl (Stuck hung) \<Rightarrow> numbered lt cfg start hung
    | Inr cf1 \<Rightarrow> numbered lt cfg start cf1 \<and>
        (\<forall>cyc envs'. case run_finder A lt cyc envs' cf1 of
            Inl Panic \<Rightarrow> False
          | Inl (Stuck hung) \<Rightarrow> numbered lt cfg start hung \<and> extends cf1 hung
          | Inr cf2 \<Rightarrow> numbered lt cfg start cf2 \<and> extends cf1 cf2)"
proof -
  have ok: "finder_ok lt start cf" unfolding init by (rule finder_ok_new [OF wf])
  have cfg: "cf_config cf = cfg"
    unfolding init by (rule foldl_inv [where P = "\<lambda>cf. cf_config cf = cfg"]) (auto simp: coin_finder_new_def add_custom_mapping_def)
  have run: "good_end lt start c (run_finder A lt n es c)" if "finder_ok lt start c" for c n es
    using run_finder_good [of lt start c c A n es] that by (simp add: follows_def)
  show ?thesis
  proof (cases "run_finder A lt 0 envs cf")
    case (Inl stop)
    with good_end_numbered [OF run [OF ok, of 0 envs] cfg] show ?thesis by (auto split: finder_stop.splits)
  next
    case (Inr cf1)
    with run [OF ok, of 0 envs] cfg have 1: "finder_ok lt start cf1" "cf_config cf1 = cfg" by (simp_all add: follows_def)
    show ?thesis
      using Inr good_end_numbered [OF run [OF ok, of 0 envs] cfg] good_end_numbered [OF run [OF 1(1)] 1(2)] by simp
  qed
qed

text \<open>A sample: two exchanges that do not answer and a custom mapping.\<close>

definition sample_snapshot :: asset_snapshot where
  "sample_snapshot = \<lparr>tokens = [], exchange_pairs = [], cross_arb_tokens = [], tri_candidates = [], exchange_summaries = [], cycle = 0, snap_total_tokens = 0,
     total_pairs = 0, new_tokens = 0\<rparr>"

definition sample_finder :: "unit coin_finder" where
  "sample_finder = foldl (\<lambda>cf (s, is). add_custom_mapping s is cf)
     (coin_finder_new [(0, ''https://x''), (1, ''https://y'')] finder_config_default (allocator_new 2 2) sample_arena 100 sample_snapshot) [(''ABCUSDT'', [0, 1])]"

definition silent_env :: scan_env where
  "silent_env = \<lparr>se_replies = (\<lambda>_. []), se_register = (\<lambda>_. True), se_busy = True, se_unregister = (\<lambda>_. True), se_order = (\<lambda>xs. xs)\<rparr>"

lemma sample_category: "pair_category (\<lambda>_ _. False) finder_config_default ''ABC'' ''USDT'' = Some CAT_ALTCOIN"
  by (simp add: pair_category_def passes_filter_def finder_config_default_def ci_member_def eq_ignore_case_def STABLECOIN_SET_def BLACKLIST_SET_def MAJOR_COINS_def
      LAYER1_COINS_def to_uppercase_def ascii_upper_def ascii_lower_def to_lowercase_def MEMECOIN_FRAGMENTS_def)

lemma no_replies: "cycle_results A (\<lambda>_. []) [(0, u), (1, v)] = []"
  by (simp add: cycle_results_def List.map_filter_def scan_exchange_def get_at_def scan_binance_def scan_bybit_def public_scan_def)

lemma sample_scan: "cf_symbol_map (ss_finder (scan_all (\<lambda>_ _. False) (\<lambda>_. True) [] sample_finder)) = [(''ABC'', 100)]"
proof -
  have c: "cf_custom sample_finder = [(''ABCUSDT'', [0, 1])]" "cf_config sample_finder = finder_config_default" "cf_next_token_id sample_finder = 100"
    "cf_symbol_map sample_finder = []"
    by (simp_all add: sample_finder_def add_custom_mapping_def coin_finder_new_def to_uppercase_def ascii_upper_def)
  have sp: "split_anchor (quote_anchors (finder_config_default :: unit coin_finder_config)) ''ABCUSDT'' = Some (''ABC'', ''USDT'')"
    by (simp add: finder_config_default_def ends_with_def)
  have keep: "ss_finder (add_targets i e exchs ss) = ss_finder ss" for i e exchs and ss :: "unit scan_state"
    by (induction i e exchs ss rule: add_targets.induct) (simp_all add: Let_def)
  show ?thesis
    by (simp add: scan_all_def c apply_custom_def sp sample_category keep get_or_create_token_id_def alloc_token_id_def to_uppercase_def ascii_upper_def)
qed

lemma sample_urls: "cf_rest_urls sample_finder = [(0, ''https://x''), (1, ''https://y'')]"
  by (simp add: sample_finder_def add_custom_mapping_def coin_finder_new_def)

text \<open>While the lock that the pruner tries is busy nothing is pruned, and a cycle ends.\<close>

lemma sample_run:
  "\<exists>cf1. run_finder plain_api (\<lambda>_ _. False) 0 [silent_env] sample_finder = Inr cf1 \<and> cf_symbol_map cf1 = [(''ABC'', 100)]"
proof -
  have ok: "finder_ok (\<lambda>_ _. False) 100 sample_finder"
    unfolding sample_finder_def by (rule finder_ok_new [OF sample_arena_wf])
  have "good_end (\<lambda>_ _. False) 100 sample_finder (run_finder plain_api (\<lambda>_ _. False) 0 [silent_env] sample_finder)"
    using run_finder_good [of _ 100 sample_finder sample_finder plain_api 0 "[silent_env]"] ok by (simp add: follows_def)
  with sample_scan show ?thesis
    by (auto simp: scan_cycle_def Let_def sample_urls no_replies silent_env_def prune_stale_tokens_def split: option.splits)
qed

theorem token_numbers_unique_witness:
  "\<exists>cf1. run_finder plain_api (\<lambda>_ _. False) 0 [silent_env] sample_finder = Inr cf1 \<and> map_of (cf_symbol_map cf1) ''ABC'' = Some 100 \<and>
     (case run_finder plain_api (\<lambda>_ _. False) 1 [silent_env, silent_env] cf1 of
        Inl Panic \<Rightarrow> False
      | Inl (Stuck hung) \<Rightarrow> map_of (cf_symbol_map hung) ''ABC'' = Some 100
      | Inr cf2 \<Rightarrow> map_of (cf_symbol_map cf2) ''ABC'' = Some 100)"
proof -
  obtain cf1 where 1: "run_finder plain_api (\<lambda>_ _. False) 0 [silent_env] sample_finder = Inr cf1" "cf_symbol_map cf1 = [(''ABC'', 100)]"
    using sample_run by blast
  have keeps: "map_of (cf_symbol_map c) ''ABC'' = Some 100" if "extends cf1 c" for c
    using that 1(2) by (simp add: extends_def map_le_def)
  from token_numbers_unique [OF sample_arena_wf sample_finder_def, where A = plain_api and lt = "\<lambda>_ _. False" and envs = "[silent_env]"]
  have "case run_finder plain_api (\<lambda>_ _. False) 1 [silent_env, silent_env] cf1 of
        Inl Panic \<Rightarrow> False | Inl (Stuck hung) \<Rightarrow> extends cf1 hung | Inr cf2 \<Rightarrow> extends cf1 cf2"
    unfolding 1(1) sum.case by (auto split: sum.splits finder_stop.splits dest!: spec [of _ 1] spec [of _ "[silent_env, silent_env]"])
  with 1 keeps show ?thesis by (auto split: sum.splits finder_stop.splits)
qed

section \<open>The removal of a token\<close>

lemma cross_check_reports:
  assumes "t \<in> set ts" "100 \<le> t" "t \<notin> set seen" "threshold \<le> unwrap_or (map_of m t) 0 + 1"
  shows "fst (cross_check threshold seen ts m) \<noteq> []"
  using assms(1,4)
proof (induction ts arbitrary: m)
  case (Cons t' ts)
  have later: "fst (cross_check threshold seen ts (hm_insert t' v m)) \<noteq> []" if "t' \<noteq> t" for v
    by (rule Cons.IH) (use Cons.prems that in \<open>auto simp: map_of_hm_insert\<close>)
  then show ?case
    using Cons assms(2,3) by (cases "t' = t") (auto simp: count_up_def Let_def not_less case_prod_beta)
qed simp

text \<open>
  The first token that has been missing for long enough stops the finder for ever.  The cycle still holds the locks on the registry when it starts to prune, and the removal of a token
  takes them again: the task waits for itself, and no later cycle is run.
\<close>

theorem first_removal_hangs:
  assumes "finder_ok lt start cf"
    and ss: "ss = scan_all lt (se_register env) (cycle_results A (se_replies env) (cf_rest_urls cf)) cf"
    and "\<not> se_busy env" "0 < cross_arb_removal_cycles (cf_config cf)"
    and t: "t \<in> set (active_tokens (cf_arena (ss_finder ss)))" "100 \<le> t" "t \<notin> fst ` set (ss_presence ss)"
      "cross_arb_removal_cycles (cf_config cf) \<le> unwrap_or (map_of (cf_missing (ss_finder ss)) t) 0 + 1"
  shows "\<exists>cf'. run_finder A lt cyc (env # envs) cf = Inl (Stuck cf')"
proof -
  obtain cf1 where 1: "scan_cycle A lt env (saturating_add cyc 1) cf =
      map_sum (\<lambda>x. x) (\<lambda>(cf3, _). (cf3, ss_new ss, ss_total ss)) (prune_stale_tokens True (se_busy env) (se_unregister env) (ss_presence ss) cf1)"
    and good: "good_step lt start cf cf1" and same: "cf_missing cf1 = cf_missing (ss_finder ss)" "active_tokens (cf_arena cf1) = active_tokens (cf_arena (ss_finder ss))"
    using scan_cycle_prunes [OF assms(1) ss] by blast
  have cfg: "cf_config cf1 = cf_config cf" using good by (simp add: follows_def)
  have gone: "fst (cross_check (cross_arb_removal_cycles (cf_config cf)) (map fst (ss_presence ss)) (active_tokens (cf_arena cf1)) (cf_missing cf1)) \<noteq> []"
    by (rule cross_check_reports [of t]) (use t same in auto)
  have counted: "\<exists>cf'. remove_stale True lk thr g stale (cf1\<lparr>cf_missing := m, cf_exchange_missing := m'\<rparr>) = Inl (Stuck cf')" if "g \<noteq> []" for lk thr g stale m m'
    by (rule remove_stale_good(2) [OF kept_good [OF good] that]) (use good in \<open>auto simp: finder_ok_def\<close>)
  have "\<exists>cf'. prune_stale_tokens True (se_busy env) (se_unregister env) (ss_presence ss) cf1 = Inl (Stuck cf')"
    unfolding prune_stale_tokens_def Let_def case_prod_beta cfg using assms(3,4) gone counted by (simp add: word_gt_0)
  then show ?thesis using 1 by auto
qed

theorem first_removal_hangs_witness:
  "\<exists>cf'. run_finder plain_api (\<lambda>_ _. False) 0 [silent_env\<lparr>se_busy := False\<rparr>]
     (coin_finder_new [] finder_config_default (allocator_new 2 2) (register_active_token True 100 sample_arena) 101 sample_snapshot\<lparr>cf_missing := [(100, 59)]\<rparr>) = Inl (Stuck cf')"
    (is "\<exists>cf'. run_finder _ _ _ _ ?cf = _")
proof -
  have ok: "finder_ok (\<lambda>_ _. False) 101 ?cf"
    using sample_arena_wf by (simp add: finder_ok_def coin_finder_new_def register_active_wf le_max_iff_disj)
  show ?thesis
    by (rule first_removal_hangs [OF ok refl, where t = 100])
      (simp_all add: silent_env_def finder_config_default_def coin_finder_new_def register_active_token_def sample_arena_def scan_all_def cycle_results_def
        List.map_filter_def unwrap_or_def)
qed

section \<open>Pruning of pairs\<close>

text \<open>
  The presence of a cycle maps tokens to exchanges, but the pruner reads it as a map from exchanges to tokens.  As token numbers start above the numbers of the exchanges,
  no pair is ever found: the pruner counts pairs as missing that the cycle has just seen, and invalidates their prices once the threshold is reached.
\<close>

lemma neighbours_key: "neighbours adj e \<noteq> [] \<Longrightarrow> e \<in> fst ` set adj"
  by (induction adj) (auto split: if_splits)

lemma entry_keys: "fst ` set (entry_insert k v adj) = insert k (fst ` set adj)"
  using entry_insert_keys [of k v adj] by simp

lemma keys_of_seen: "fst ` set (exch_token_seen presence) \<subseteq> fst ` set presence"
proof -
  have inner: "fst ` set (foldl (\<lambda>m t. entry_insert e t m) m ts) \<subseteq> insert e (fst ` set m)" for e m and ts :: "u16 list"
    by (rule foldl_inv [where P = "\<lambda>m'. fst ` set m' \<subseteq> insert e (fst ` set m)"]) (auto simp: entry_keys)
  show ?thesis
    unfolding exch_token_seen_def
  proof (rule foldl_inv [where P = "\<lambda>m. fst ` set m \<subseteq> fst ` set presence"])
    fix m and p :: "u16 \<times> u16 list" assume "fst ` set (m :: (u16 \<times> u16 list) list) \<subseteq> fst ` set presence" "p \<in> set presence"
    then show "fst ` set (case p of (exch, ts) \<Rightarrow> foldl (\<lambda>m t. entry_insert exch t m) m ts) \<subseteq> fst ` set presence"
      using inner [of "fst p" m "snd p"] unfolding case_prod_beta by (meson imageI insert_subset order_trans)
  qed simp
qed

theorem pruner_blind_to_presence:
  assumes "\<And>t es. (t, es) \<in> set presence \<Longrightarrow> 100 \<le> t" and "\<And>t e. (t, e) \<in> set tes \<Longrightarrow> e < 100"
  shows "tri_check threshold (exch_token_seen presence) tes m = tri_check threshold [] tes m"
  using assms(2)
proof (induction tes arbitrary: m)
  case (Cons te tes)
  obtain t e where te: "te = (t, e)" by fastforce
  have "e \<notin> fst ` set presence" using assms(1) Cons.prems [of t e] te by force
  then have "neighbours (exch_token_seen presence) e = []" using neighbours_key keys_of_seen by blast
  moreover have "tri_check threshold (exch_token_seen presence) tes m' = tri_check threshold [] tes m'" for m'
    by (rule Cons.IH) (use Cons.prems in auto)
  ultimately show ?case by (simp add: te)
qed simp

theorem pruner_blind_to_presence_witness:
  "tri_check 2 (exch_token_seen [(100, [0, 1])]) [(100, 0)] [((100, 0), 1)] = ([(100, 0)], [((100, 0), 2)])"
  using pruner_blind_to_presence [of "[(100, [0, 1])]" "[(100, 0)]" 2 "[((100, 0), 1)]"] by (simp add: count_up_def Let_def unwrap_or_def)

end
