(* ===== verification/Private_Feed.thy ===== *)
theory Private_Feed
  imports Report_Parsers Hash_Map
begin

text \<open>
  The listener of private feeds of \<^verbatim>\<open>src/src/private_ws_feed.rs\<close>: the scanners for single fields, the task that reads the frames of one exchange and reconnects, and the
  operations of the listener.  The reading of floats is an argument, as are the outcomes of the attempts to connect, the frames with the instants at which they arrive, and the
  random part of a delay.
\<close>

abbreviation PRIVATE_MAX_MESSAGE_SIZE :: nat where "PRIVATE_MAX_MESSAGE_SIZE \<equiv> 65536"
abbreviation PRIVATE_BASE_DELAY_SECS :: u64 where "PRIVATE_BASE_DELAY_SECS \<equiv> 1"
abbreviation PRIVATE_MAX_DELAY_SECS :: u64 where "PRIVATE_MAX_DELAY_SECS \<equiv> 60"
abbreviation PRIVATE_MAX_FAILURES :: u32 where "PRIVATE_MAX_FAILURES \<equiv> 100"

section \<open>Single fields\<close>

text \<open>
  Both scanners look for a quoted key of one character with a colon behind it.  What follows is given to \<open>h\<close>, which answers or names the position where the search goes on.
  A search never goes back.
\<close>

function seek_key :: "(string \<Rightarrow> 'a option + string) \<Rightarrow> char \<Rightarrow> string \<Rightarrow> 'a option" where
  "seek_key h key [] = None"
| "seek_key h key (c # cs) =
     (if c \<noteq> QUOTE then seek_key h key cs
      else if take 1 cs \<noteq> [key] then seek_key h key cs
      else if take 1 (drop 1 cs) \<noteq> [QUOTE] then seek_key h key (drop 1 cs)
      else if take 1 (drop 2 cs) \<noteq> '':'' then seek_key h key (drop 2 cs)
      else case h (drop 3 cs) of
             Inl answer \<Rightarrow> answer
           | Inr rest \<Rightarrow> if length rest \<le> length cs then seek_key h key rest else None)"
  by pat_completeness auto
termination by (relation "measure (\<lambda>(h, key, bytes). length bytes)") auto

definition string_after_colon :: "string \<Rightarrow> string option + string" where
  "string_after_colon bytes =
     (let rest = dropWhile (\<lambda>c. c = CHR '' '') bytes
      in if take 1 rest \<noteq> [QUOTE] then Inr rest
         else let tail = drop 1 rest; val = takeWhile (\<lambda>c. c \<noteq> QUOTE) tail
              in Inl (if length val = length tail then None else Some val))"

definition extract_json_string :: "string \<Rightarrow> char \<Rightarrow> string option" where
  "extract_json_string payload key = seek_key string_after_colon key payload"

definition number_after_colon :: "(string \<Rightarrow> 'f option) \<Rightarrow> string \<Rightarrow> 'f option + string" where
  "number_after_colon read_f64 bytes =
     (let rest = dropWhile (\<lambda>c. c = CHR '' '' \<or> c = CHR 0x0A) bytes
      in Inl (case rest of
           [] \<Rightarrow> None
         | c # cs \<Rightarrow>
             if c = QUOTE
             then let val = takeWhile (\<lambda>c. c \<noteq> QUOTE) cs in if length val = length cs then None else read_f64 val
             else read_f64 (takeWhile (\<lambda>c. is_digit c \<or> c = CHR ''.'' \<or> c = CHR ''-'') rest)))"

definition extract_json_f64 :: "(string \<Rightarrow> 'f option) \<Rightarrow> string \<Rightarrow> char \<Rightarrow> 'f option" where
  "extract_json_f64 read_f64 payload key = seek_key (number_after_colon read_f64) key payload"

text \<open>What the listener uses of floats: reading, zero, and the cast to an integer.\<close>

record 'f feed_floats =
  ff_read :: "string \<Rightarrow> 'f option"
  ff_zero :: 'f
  ff_u64 :: "'f \<Rightarrow> u64"

record 'f private_report =
  pr_order_id :: string
  pr_client_order_id :: "string option"
  pr_symbol :: string
  pr_side :: string
  pr_filled_quantity :: 'f
  pr_avg_price :: 'f
  pr_status :: string
  pr_timestamp :: u64
  pr_commission :: 'f
  pr_commission_asset :: string

record 'f private_balance =
  pb_asset :: string
  pb_free :: 'f
  pb_locked :: 'f
  pb_timestamp :: u64

definition text_field_of :: "string \<Rightarrow> char \<Rightarrow> string" where
  "text_field_of payload key = unwrap_or (extract_json_string payload key) []"

definition float_field_of :: "'f feed_floats \<Rightarrow> string \<Rightarrow> char \<Rightarrow> 'f" where
  "float_field_of F payload key = unwrap_or (extract_json_f64 (ff_read F) payload key) (ff_zero F)"

definition parse_private_report :: "'f feed_floats \<Rightarrow> string \<Rightarrow> 'f private_report option" where
  "parse_private_report F payload =
     Some \<lparr>pr_order_id = text_field_of payload CHR ''i'', pr_client_order_id = extract_json_string payload CHR ''c'',
           pr_symbol = text_field_of payload CHR ''s'', pr_side = text_field_of payload CHR ''S'',
           pr_filled_quantity = float_field_of F payload CHR ''l'', pr_avg_price = float_field_of F payload CHR ''L'',
           pr_status = text_field_of payload CHR ''X'', pr_timestamp = ff_u64 F (float_field_of F payload CHR ''T''),
           pr_commission = float_field_of F payload CHR ''n'', pr_commission_asset = text_field_of payload CHR ''N''\<rparr>"

definition parse_balance_update :: "'f feed_floats \<Rightarrow> string \<Rightarrow> 'f private_balance option" where
  "parse_balance_update F payload =
     Some \<lparr>pb_asset = text_field_of payload CHR ''a'', pb_free = float_field_of F payload CHR ''f'', pb_locked = float_field_of F payload CHR ''l'',
           pb_timestamp = ff_u64 F (float_field_of F payload CHR ''E'')\<rparr>"

section \<open>The task of one exchange\<close>

datatype 'f private_feed_event =
  ExecutionReport "'f private_report" | BalanceUpdate "'f private_balance" | FeedConnected string | FeedDisconnected string string

record private_feed_config =
  pc_exchange_id :: u16
  pc_exchange_name :: string
  pc_wss_url :: string
  pc_listen_key :: "string option"
  pc_ping_interval_secs :: u64
  pc_pong_timeout_secs :: u64

text \<open>
  The state that the task and the listener share (the flags and the channel, with what was sent into it and whether its receiver still exists), and that of the task: failures in a
  row, the instant of the last pong in nanoseconds, and the delays it slept.
\<close>

record 'f feed_state =
  fs_active :: "(string \<times> bool) list"
  fs_events :: "'f private_feed_event list"
  fs_open :: bool
  fs_failures :: u32
  fs_last_pong :: nat
  fs_sleeps :: "nat list"

definition send_event :: "'f private_feed_event \<Rightarrow> 'f feed_state \<Rightarrow> bool \<times> 'f feed_state" where
  "send_event ev s = (if fs_open s then (True, s\<lparr>fs_events := fs_events s @ [ev]\<rparr>) else (False, s))"

text \<open>What the select of the read loop can see; a tick of the ping timer says whether the ping could be sent.  \<open>Receiver_Dropped\<close> is the end of the channel.\<close>

datatype feed_frame = TextFrame string | PingFrame | PongFrame | CloseFrame | OtherFrame | ErrorFrame | PingTick bool | Receiver_Dropped

datatype loop_step = Read_On | Leave_Loop | End_Task

definition event_of :: "'f feed_floats \<Rightarrow> string \<Rightarrow> 'f private_feed_event option" where
  "event_of F payload =
     (case extract_json_string payload CHR ''e'' of
        None \<Rightarrow> None
      | Some kind \<Rightarrow>
          if kind = ''executionReport'' then map_option ExecutionReport (parse_private_report F payload)
          else if kind = ''outboundAccountPosition'' \<or> kind = ''balanceUpdate'' then map_option BalanceUpdate (parse_balance_update F payload)
          else None)"

definition on_frame :: "'f feed_floats \<Rightarrow> private_feed_config \<Rightarrow> nat \<Rightarrow> feed_frame \<Rightarrow> 'f feed_state \<Rightarrow> loop_step \<times> 'f feed_state" where
  "on_frame F cfg now frame s =
     (case frame of
        TextFrame payload \<Rightarrow>
          if PRIVATE_MAX_MESSAGE_SIZE < length payload then (Read_On, s)
          else (case event_of F payload of
                  None \<Rightarrow> (Read_On, s)
                | Some ev \<Rightarrow> (case send_event ev s of (sent, s') \<Rightarrow> (if sent then Read_On else End_Task, s')))
      | PingFrame \<Rightarrow> (Read_On, s\<lparr>fs_last_pong := now\<rparr>)
      | PongFrame \<Rightarrow> (Read_On, s\<lparr>fs_last_pong := now\<rparr>)
      | CloseFrame \<Rightarrow> (Leave_Loop, s)
      | OtherFrame \<Rightarrow> (Read_On, s)
      | ErrorFrame \<Rightarrow> (Leave_Loop, s)
      | PingTick ok \<Rightarrow> (if unat (pc_pong_timeout_secs cfg) * 1000000000 < now - fs_last_pong s \<or> \<not> ok then Leave_Loop else Read_On, s)
      | Receiver_Dropped \<Rightarrow> (Read_On, s\<lparr>fs_open := False\<rparr>))"

text \<open>The frames of one connection, with their instants; behind the last one the stream ends.\<close>

fun read_frames :: "'f feed_floats \<Rightarrow> private_feed_config \<Rightarrow> (nat \<times> feed_frame) list \<Rightarrow> 'f feed_state \<Rightarrow> bool \<times> 'f feed_state" where
  "read_frames F cfg [] s = (False, s)"
| "read_frames F cfg ((now, frame) # frames) s =
     (case on_frame F cfg now frame s of
        (Read_On, s') \<Rightarrow> read_frames F cfg frames s'
      | (Leave_Loop, s') \<Rightarrow> (False, s')
      | (End_Task, s') \<Rightarrow> (True, s'))"

datatype feed_attempt = FeedOpened nat "(nat \<times> feed_frame) list" | FeedRefused | FeedTimedOut

definition private_base_delay :: "u32 \<Rightarrow> u64" where
  "private_base_delay failures = min (push_bit (unat (saturating_sub failures 1) mod 64) PRIVATE_BASE_DELAY_SECS) PRIVATE_MAX_DELAY_SECS"

definition private_delay_secs :: "(u64 \<Rightarrow> nat) \<Rightarrow> u32 \<Rightarrow> nat" where
  "private_delay_secs jitter failures = max (min (jitter (private_base_delay failures)) (unat PRIVATE_MAX_DELAY_SECS)) 1"

text \<open>What follows an attempt: a delay, or the end of the task.  The first component says that the task has ended.\<close>

definition back_off :: "(u64 \<Rightarrow> nat) \<Rightarrow> string \<Rightarrow> 'f feed_state \<Rightarrow> bool \<times> 'f feed_state" where
  "back_off jitter name s =
     (let failures = fs_failures s + 1; s' = s\<lparr>fs_failures := failures\<rparr>
      in if PRIVATE_MAX_FAILURES < failures then (True, snd (send_event (FeedDisconnected name ''max retries exceeded'') s'))
         else (False, s'\<lparr>fs_sleeps := fs_sleeps s' @ [private_delay_secs jitter failures]\<rparr>))"

definition one_attempt :: "'f feed_floats \<Rightarrow> (u64 \<Rightarrow> nat) \<Rightarrow> private_feed_config \<Rightarrow> string \<Rightarrow> feed_attempt \<Rightarrow> 'f feed_state \<Rightarrow> bool \<times> 'f feed_state" where
  "one_attempt F jitter cfg name attempt s =
     (case attempt of
        FeedOpened now frames \<Rightarrow>
          (case read_frames F cfg frames (s\<lparr>fs_failures := 0, fs_last_pong := now\<rparr>) of
             (ended, s') \<Rightarrow>
               if ended then (True, s')
               else back_off jitter name
                      (snd (send_event (FeedDisconnected name ''stream ended'') (s'\<lparr>fs_active := hm_insert name False (fs_active s')\<rparr>))))
      | _ \<Rightarrow> back_off jitter name s)"

fun feed_task :: "'f feed_floats \<Rightarrow> (u64 \<Rightarrow> nat) \<Rightarrow> private_feed_config \<Rightarrow> string \<Rightarrow> feed_attempt list \<Rightarrow> 'f feed_state \<Rightarrow> bool \<times> 'f feed_state" where
  "feed_task F jitter cfg name [] s = (False, s)"
| "feed_task F jitter cfg name (attempt # attempts) s =
     (case one_attempt F jitter cfg name attempt s of
        (True, s') \<Rightarrow> (True, s')
      | (False, s') \<Rightarrow> feed_task F jitter cfg name attempts s')"

section \<open>The listener\<close>

definition private_feed_new :: "private_feed_config list \<Rightarrow> 'f feed_state" where
  "private_feed_new configs =
     \<lparr>fs_active = foldl (\<lambda>m c. hm_insert (pc_exchange_name c) False m) [] configs, fs_events = [], fs_open = True, fs_failures = 0, fs_last_pong = 0, fs_sleeps = []\<rparr>"

text \<open>The first result says that a task was started; the second is the configuration it works with.\<close>

definition start_listening :: "private_feed_config list \<Rightarrow> string \<Rightarrow> 'f feed_state \<Rightarrow> private_feed_config option \<times> 'f feed_state" where
  "start_listening configs name s =
     (case find (\<lambda>c. pc_exchange_name c = name) configs of
        None \<Rightarrow> (None, s)
      | Some c \<Rightarrow> (Some c, (snd (send_event (FeedConnected name) (s\<lparr>fs_active := hm_insert name True (fs_active s)\<rparr>)))\<lparr>fs_failures := 0\<rparr>))"

definition stop_listening :: "string \<Rightarrow> string \<Rightarrow> 'f feed_state \<Rightarrow> 'f feed_state" where
  "stop_listening name reason s = snd (send_event (FeedDisconnected name reason) (s\<lparr>fs_active := hm_insert name False (fs_active s)\<rparr>))"

definition feed_is_active :: "string \<Rightarrow> 'f feed_state \<Rightarrow> bool" where
  "feed_is_active name s = unwrap_or (map_of (fs_active s) name) False"

text \<open>Whether the mutex of the exchange could be taken is an argument; the refresh itself does nothing yet.\<close>

definition refresh_token :: "private_feed_config list \<Rightarrow> bool \<Rightarrow> string \<Rightarrow> string + bool" where
  "refresh_token configs lock_ok name =
     (if \<not> list_ex (\<lambda>c. pc_exchange_name c = name) configs then Inl (''Exchange '' @ [CHR 0x27] @ name @ [CHR 0x27] @ '' not found in private feed configs'')
      else Inr lock_ok)"

section \<open>Reports are read back\<close>

lemma seek_other: "c \<noteq> QUOTE \<Longrightarrow> seek_key h key (c # cs) = seek_key h key cs"
  by simp

lemma seek_others: "\<forall>c \<in> set pre. c \<noteq> QUOTE \<Longrightarrow> seek_key h key (pre @ rest) = seek_key h key rest"
  by (induction pre) (simp_all add: seek_other)

lemma seek_hit: "seek_key h key (field key val @ rest) = (case h (val @ rest) of Inl answer \<Rightarrow> answer
    | Inr rest' \<Rightarrow> if length rest' \<le> length (val @ rest) + 3 then seek_key h key rest' else None)"
  by (auto simp: field_append split: sum.split)

text \<open>A quoted text with a comma behind it is never taken for a key.\<close>

lemma seek_past_text:
  assumes "QUOTE \<notin> set v" and key: "key \<noteq> QUOTE" "key \<noteq> CHR '',''"
  shows "seek_key h key (quoted v @ CHR '','' # rest) = seek_key h key rest"
proof -
  have tail: "seek_key h key (w @ QUOTE # CHR '','' # rest) = seek_key h key rest" if "QUOTE \<notin> set w" for w
    using seek_others [of w h key "QUOTE # CHR '','' # rest"] that key by auto
  show ?thesis
  proof (cases v)
    case Nil
    then show ?thesis using key by (simp add: quoted_def)
  next
    case (Cons c w)
    show ?thesis
    proof (cases "w = []")
      case True
      then show ?thesis using Cons assms by (simp add: quoted_def)
    next
      case False
      then obtain d w' where w: "w = d # w'" by (cases w) auto
      have "seek_key h key (quoted v @ CHR '','' # rest) =
          (if c = key then seek_key h key (w @ QUOTE # CHR '','' # rest) else seek_key h key (v @ QUOTE # CHR '','' # rest))"
        using assms by (subst quoted_def, unfold append_Cons seek_key.simps) (auto simp add: Cons w simp del: seek_key.simps)
      then show ?thesis using tail [of w] tail [of v] assms Cons by auto
    qed
  qed
qed

lemma seek_past_field:
  assumes "QUOTE \<notin> set v" "key' \<noteq> key" "key' \<noteq> QUOTE" "key \<noteq> QUOTE" "key \<noteq> CHR '',''" "key \<noteq> CHR '':''"
  shows "seek_key h key (field key' (quoted v) @ CHR '','' # rest) = seek_key h key rest"
  using seek_past_text [OF assms(1,4,5), of h rest] assms(2-6) by (simp add: field_append)

lemma take_text: "QUOTE \<notin> set v \<Longrightarrow> takeWhile (\<lambda>c. c \<noteq> QUOTE) (v @ QUOTE # rest) = v"
  by (induction v) auto

lemma string_hit:
  assumes "QUOTE \<notin> set v"
  shows "seek_key string_after_colon key (field key (quoted v) @ rest) = Some v"
  using take_text [OF assms, of rest]
  by (simp add: seek_hit string_after_colon_def quoted_def Let_def)

lemma number_hit:
  assumes "QUOTE \<notin> set v"
  shows "seek_key (number_after_colon rd) key (field key (quoted v) @ rest) = rd v"
  using take_text [OF assms, of rest]
  by (simp add: seek_hit number_after_colon_def quoted_def Let_def)

definition private_report_frame :: "string \<Rightarrow> string \<Rightarrow> string \<Rightarrow> string \<Rightarrow> string \<Rightarrow> string \<Rightarrow> string \<Rightarrow> string \<Rightarrow> string \<Rightarrow> string \<Rightarrow> string" where
  "private_report_frame symbol cid sd status i qty price ts fee asset =
     ''{'' @ field CHR ''e'' (quoted ''executionReport'') @ '','' @ field CHR ''s'' (quoted symbol) @ '','' @ field CHR ''c'' (quoted cid) @ '','' @
     field CHR ''S'' (quoted sd) @ '','' @ field CHR ''X'' (quoted status) @ '','' @ field CHR ''i'' (quoted i) @ '','' @ field CHR ''l'' (quoted qty) @ '','' @
     field CHR ''L'' (quoted price) @ '','' @ field CHR ''T'' (quoted ts) @ '','' @ field CHR ''n'' (quoted fee) @ '','' @ field CHR ''N'' (quoted asset) @ ''}''"

text \<open>
  a report whose fields are texts is read back: every text as it was sent, every number as the float that its text denotes, zero when it denotes none.
\<close>

theorem private_report_roundtrip:
  assumes "\<forall>v \<in> set [symbol, cid, sd, status, i, qty, price, ts, fee, asset]. QUOTE \<notin> set v"
  shows "event_of F (private_report_frame symbol cid sd status i qty price ts fee asset) =
    Some (ExecutionReport \<lparr>pr_order_id = i, pr_client_order_id = Some cid, pr_symbol = symbol, pr_side = sd,
      pr_filled_quantity = unwrap_or (ff_read F qty) (ff_zero F), pr_avg_price = unwrap_or (ff_read F price) (ff_zero F), pr_status = status,
      pr_timestamp = ff_u64 F (unwrap_or (ff_read F ts) (ff_zero F)), pr_commission = unwrap_or (ff_read F fee) (ff_zero F), pr_commission_asset = asset\<rparr>)"
proof -
  have "QUOTE \<notin> set ''executionReport''" by simp
  note q = this assms [simplified]
  show ?thesis
    by (simp add: private_report_frame_def event_of_def parse_private_report_def extract_json_string_def extract_json_f64_def text_field_of_def float_field_of_def
        seek_other seek_past_field string_hit number_hit q unwrap_or_def del: seek_key.simps)
qed

theorem private_report_roundtrip_witness:
  "event_of \<lparr>ff_read = (\<lambda>s. if s = ''x'' then None else Some (length s)), ff_zero = 0, ff_u64 = of_nat\<rparr>
     (private_report_frame ''BTCUSDT'' ''c1'' ''BUY'' ''FILLED'' ''42'' ''7'' ''9.5'' ''1700'' ''x'' ''BNB'') =
     Some (ExecutionReport \<lparr>pr_order_id = ''42'', pr_client_order_id = Some ''c1'', pr_symbol = ''BTCUSDT'', pr_side = ''BUY'', pr_filled_quantity = 1, pr_avg_price = 3,
       pr_status = ''FILLED'', pr_timestamp = 4, pr_commission = 0, pr_commission_asset = ''BNB''\<rparr>)"
  by (subst private_report_roundtrip) (simp_all add: unwrap_or_def)

text \<open>Binance sends the number of an order as a number: such a report is forwarded without its order.\<close>

lemma numeric_order_id_lost:
  "extract_json_string (''{'' @ field CHR ''e'' (quoted ''executionReport'') @ '','' @ field CHR ''i'' ''4293153'' @ ''}'') CHR ''i'' = None"
  by (simp add: extract_json_string_def field_def quoted_def string_after_colon_def Let_def)

section \<open>What the task sends\<close>

text \<open>The events of the frames of a connection, until something ends it.\<close>

fun heard :: "'f feed_floats \<Rightarrow> nat \<Rightarrow> nat \<Rightarrow> (nat \<times> feed_frame) list \<Rightarrow> 'f private_feed_event list" where
  "heard F timeout last_pong [] = []"
| "heard F timeout last_pong ((now, TextFrame p) # frames) =
     (if PRIVATE_MAX_MESSAGE_SIZE < length p then [] else case event_of F p of None \<Rightarrow> [] | Some ev \<Rightarrow> [ev]) @ heard F timeout last_pong frames"
| "heard F timeout last_pong ((now, PingFrame) # frames) = heard F timeout now frames"
| "heard F timeout last_pong ((now, PongFrame) # frames) = heard F timeout now frames"
| "heard F timeout last_pong ((now, PingTick ok) # frames) = (if timeout < now - last_pong \<or> \<not> ok then [] else heard F timeout last_pong frames)"
| "heard F timeout last_pong ((now, OtherFrame) # frames) = heard F timeout last_pong frames"
| "heard F timeout last_pong ((now, Receiver_Dropped) # frames) = heard F timeout last_pong frames"
| "heard F timeout last_pong ((now, frame) # frames) = []"

abbreviation pong_timeout :: "private_feed_config \<Rightarrow> nat" where
  "pong_timeout cfg \<equiv> unat (pc_pong_timeout_secs cfg) * 1000000000"

definition attempt_events :: "'f feed_floats \<Rightarrow> private_feed_config \<Rightarrow> string \<Rightarrow> feed_attempt \<Rightarrow> 'f private_feed_event list" where
  "attempt_events F cfg name attempt =
     (case attempt of FeedOpened now frames \<Rightarrow> heard F (pong_timeout cfg) now frames @ [FeedDisconnected name ''stream ended''] | _ \<Rightarrow> [])"

definition keeps_receiver :: "feed_attempt \<Rightarrow> bool" where
  "keeps_receiver attempt = (case attempt of FeedOpened now frames \<Rightarrow> Receiver_Dropped \<notin> snd ` set frames | _ \<Rightarrow> True)"

text \<open>The failures in a row stay below the limit; a connection that ends counts as the first failure of the next row.\<close>

fun within_limit :: "nat \<Rightarrow> feed_attempt list \<Rightarrow> bool" where
  "within_limit n [] \<longleftrightarrow> True"
| "within_limit n (FeedOpened now frames # attempts) \<longleftrightarrow> within_limit 1 attempts"
| "within_limit n (attempt # attempts) \<longleftrightarrow> n < 100 \<and> within_limit (Suc n) attempts"

lemma same_pong: "\<exists>lp. s = s\<lparr>fs_events := fs_events s, fs_last_pong := lp\<rparr>" "\<exists>lp. s = s\<lparr>fs_last_pong := lp\<rparr>"
  by (rule exI [of _ "fs_last_pong s"]; simp)+

lemma read_frames_heard:
  assumes "fs_open s" "Receiver_Dropped \<notin> snd ` set frames"
  shows "\<exists>lp. read_frames F cfg frames s =
    (False, s\<lparr>fs_events := fs_events s @ heard F (pong_timeout cfg) (fs_last_pong s) frames, fs_last_pong := lp\<rparr>)"
  using assms
proof (induction F "pong_timeout cfg" "fs_last_pong s" frames arbitrary: s rule: heard.induct)
  case (1 F)
  then show ?case by (intro exI [of _ "fs_last_pong s"]) simp
next
  case (2 F now p frames)
  let ?s = "s\<lparr>fs_events := fs_events s @ (if PRIVATE_MAX_MESSAGE_SIZE < length p then [] else case event_of F p of None \<Rightarrow> [] | Some ev \<Rightarrow> [ev])\<rparr>"
  have "on_frame F cfg now (TextFrame p) s = (Read_On, ?s)"
    using 2(2) by (simp add: on_frame_def send_event_def split: option.split)
  then show ?case using 2(1) [of ?s] 2(2,3) by auto
next
  case (3 F now frames)
  then show ?case using 3(1) [of "s\<lparr>fs_last_pong := now\<rparr>"] by (auto simp: on_frame_def)
next
  case (4 F now frames)
  then show ?case using 4(1) [of "s\<lparr>fs_last_pong := now\<rparr>"] by (auto simp: on_frame_def)
next
  case (5 F now ok frames)
  show ?case
  proof (cases "pong_timeout cfg < now - fs_last_pong s \<or> \<not> ok")
    case True
    then show ?thesis by (intro exI [of _ "fs_last_pong s"]) (simp add: on_frame_def)
  next
    case False
    then show ?thesis using 5(1) [of s] 5(2,3) by (simp add: on_frame_def)
  qed
next
  case (6 F now frames)
  then show ?case using 6(1) [of s] by (simp add: on_frame_def)
next
  case (7 F now frames)
  then show ?case by simp
qed (simp_all add: on_frame_def same_pong)

lemma private_delay_bounds: "1 \<le> private_delay_secs jitter n \<and> private_delay_secs jitter n \<le> 60"
  by (simp add: private_delay_secs_def)

lemma back_off_goes_on:
  assumes "unat (fs_failures s) < 100"
  shows "back_off jitter name s =
    (False, s\<lparr>fs_failures := fs_failures s + 1, fs_sleeps := fs_sleeps s @ [private_delay_secs jitter (fs_failures s + 1)]\<rparr>)"
  and "unat (fs_failures s + 1) = Suc (unat (fs_failures s))"
proof -
  show u: "unat (fs_failures s + 1) = Suc (unat (fs_failures s))" using assms by (simp add: unat_word_ariths)
  then have "\<not> PRIVATE_MAX_FAILURES < fs_failures s + 1" using assms by (simp add: word_less_nat_alt)
  then show "back_off jitter name s =
    (False, s\<lparr>fs_failures := fs_failures s + 1, fs_sleeps := fs_sleeps s @ [private_delay_secs jitter (fs_failures s + 1)]\<rparr>)"
    by (simp add: back_off_def Let_def)
qed

lemma back_off_gives_up:
  assumes "unat (fs_failures s) = 100" "fs_open s"
  shows "\<exists>s'. back_off jitter name s = (True, s') \<and> fs_events s' = fs_events s @ [FeedDisconnected name ''max retries exceeded'']"
proof -
  have "unat (fs_failures s + 1) = 101" using assms(1) by (simp add: unat_word_ariths)
  then have "PRIVATE_MAX_FAILURES < fs_failures s + 1" by (simp add: word_less_nat_alt)
  then show ?thesis using assms(2) by (simp add: back_off_def Let_def send_event_def)
qed

text \<open>One attempt that does not reach the limit.\<close>

lemma one_attempt_goes_on:
  assumes "fs_open s" "keeps_receiver attempt" "within_limit (unat (fs_failures s)) [attempt]"
  shows "\<exists>s' d. one_attempt F jitter cfg name attempt s = (False, s') \<and> fs_open s' \<and> fs_events s' = fs_events s @ attempt_events F cfg name attempt \<and>
    fs_sleeps s' = fs_sleeps s @ [d] \<and> 1 \<le> d \<and> d \<le> 60 \<and>
    unat (fs_failures s') = (case attempt of FeedOpened _ _ \<Rightarrow> 1 | _ \<Rightarrow> Suc (unat (fs_failures s))) \<and>
    (\<not> feed_is_active name s \<or> (\<exists>now frames. attempt = FeedOpened now frames) \<longrightarrow> \<not> feed_is_active name s')"
proof (cases attempt)
  case (FeedOpened now frames)
  let ?s = "s\<lparr>fs_failures := 0, fs_last_pong := now\<rparr>"
  have "Receiver_Dropped \<notin> snd ` set frames" using assms(2) FeedOpened by (simp add: keeps_receiver_def)
  then obtain lp where r: "read_frames F cfg frames ?s =
      (False, ?s\<lparr>fs_events := fs_events s @ heard F (pong_timeout cfg) now frames, fs_last_pong := lp\<rparr>)"
    using read_frames_heard [of ?s frames F cfg] assms(1) by auto
  define s1 where "s1 = (snd (send_event (FeedDisconnected name ''stream ended'')
     (?s\<lparr>fs_events := fs_events s @ heard F (pong_timeout cfg) now frames, fs_last_pong := lp, fs_active := hm_insert name False (fs_active s)\<rparr>)))"
  have s1: "fs_failures s1 = 0" "fs_open s1" "fs_sleeps s1 = fs_sleeps s" "fs_active s1 = hm_insert name False (fs_active s)"
    "fs_events s1 = fs_events s @ heard F (pong_timeout cfg) now frames @ [FeedDisconnected name ''stream ended'']"
    using assms(1) by (simp_all add: s1_def send_event_def)
  have "one_attempt F jitter cfg name attempt s = back_off jitter name s1"
    using r by (simp add: one_attempt_def FeedOpened s1_def)
  then show ?thesis
    using back_off_goes_on(1) [of s1 jitter name] back_off_goes_on(2) [of s1] s1 private_delay_bounds
    by (simp add: FeedOpened attempt_events_def feed_is_active_def map_of_hm_insert unwrap_or_def)
qed (use assms back_off_goes_on(1) [of s jitter name] back_off_goes_on(2) [of s] private_delay_bounds in \<open>auto simp: one_attempt_def attempt_events_def feed_is_active_def\<close>)

lemma within_limit_split:
  "within_limit n (attempt # attempts) \<longleftrightarrow>
     within_limit n [attempt] \<and> within_limit (case attempt of FeedOpened _ _ \<Rightarrow> 1 | _ \<Rightarrow> Suc n) attempts"
  by (cases attempt) simp_all

text \<open>
  the listener forwards what it hears.  As long as the receiver exists and failures in a row stay below the limit of one hundred, the task goes on: the events it has sent are exactly
  those of the frames it was given, connection by connection and in order, with the end of each connection, and between two attempts it waits from one to sixty seconds.  When the limit is
  passed the task ends, and the last event says so.
\<close>

theorem private_feed_exact:
  assumes "fs_open s" "unat (fs_failures s) \<le> 100" "list_all keeps_receiver attempts"
  shows "\<exists>s' ds k. feed_task F jitter cfg name attempts s = (\<not> within_limit (unat (fs_failures s)) attempts, s') \<and>
    fs_events s' = fs_events s @ concat (map (attempt_events F cfg name) (take k attempts)) @
      (if within_limit (unat (fs_failures s)) attempts then [] else [FeedDisconnected name ''max retries exceeded'']) \<and>
    (within_limit (unat (fs_failures s)) attempts \<longrightarrow>
       k = length attempts \<and> fs_sleeps s' = fs_sleeps s @ ds \<and> length ds = k \<and> (\<forall>d \<in> set ds. 1 \<le> d \<and> d \<le> 60))"
  using assms
proof (induction attempts arbitrary: s)
  case (Cons attempt attempts)
  show ?case
  proof (cases "within_limit (unat (fs_failures s)) [attempt]")
    case True
    then obtain s1 d where 1: "one_attempt F jitter cfg name attempt s = (False, s1)" "fs_open s1" "fs_events s1 = fs_events s @ attempt_events F cfg name attempt"
      "fs_sleeps s1 = fs_sleeps s @ [d]" "1 \<le> d" "d \<le> 60" "unat (fs_failures s1) = (case attempt of FeedOpened _ _ \<Rightarrow> 1 | _ \<Rightarrow> Suc (unat (fs_failures s)))"
      using one_attempt_goes_on [of s attempt F jitter cfg name] Cons.prems by auto
    have "unat (fs_failures s1) \<le> 100" using 1(7) True by (cases attempt) auto
    then obtain s' ds k where 2: "feed_task F jitter cfg name attempts s1 = (\<not> within_limit (unat (fs_failures s1)) attempts, s')"
      "fs_events s' = fs_events s1 @ concat (map (attempt_events F cfg name) (take k attempts)) @
        (if within_limit (unat (fs_failures s1)) attempts then [] else [FeedDisconnected name ''max retries exceeded''])"
      "within_limit (unat (fs_failures s1)) attempts \<longrightarrow> k = length attempts \<and> fs_sleeps s' = fs_sleeps s1 @ ds \<and> length ds = k \<and> (\<forall>d \<in> set ds. 1 \<le> d \<and> d \<le> 60)"
      using Cons.IH [of s1] 1(2) Cons.prems(3) by auto
    have "within_limit (unat (fs_failures s)) (attempt # attempts) \<longleftrightarrow> within_limit (unat (fs_failures s1)) attempts"
      using within_limit_split True 1(7) by metis
    then show ?thesis using 1 2 by (intro exI [of _ s'] exI [of _ "d # ds"] exI [of _ "Suc k"]) auto
  next
    case False
    then have f: "attempt = FeedRefused \<or> attempt = FeedTimedOut" "unat (fs_failures s) = 100" using Cons.prems(2) by (cases attempt; force)+
    then obtain s' where "one_attempt F jitter cfg name attempt s = (True, s')" "fs_events s' = fs_events s @ [FeedDisconnected name ''max retries exceeded'']"
      using back_off_gives_up [OF f(2) Cons.prems(1), of jitter name] by (auto simp: one_attempt_def)
    moreover have "\<not> within_limit (unat (fs_failures s)) (attempt # attempts)" using False within_limit_split by blast
    ultimately show ?thesis by (intro exI [of _ s'] exI [of _ "[]"] exI [of _ 0]) auto
  qed
qed (auto intro: exI [of _ "[]"])

theorem private_feed_exact_witness:
  "\<exists>s'. feed_task \<lparr>ff_read = (\<lambda>_. None), ff_zero = 0, ff_u64 = of_nat\<rparr> (\<lambda>_. 5) \<lparr>pc_exchange_id = 0, pc_exchange_name = ''a'', pc_wss_url = [], pc_listen_key = None,
       pc_ping_interval_secs = 30, pc_pong_timeout_secs = 60\<rparr> ''a'' (FeedOpened 0 [(1, TextFrame ''{}'')] # replicate 2 FeedRefused) (private_feed_new []) = (False, s') \<and>
     fs_events s' = [FeedDisconnected ''a'' ''stream ended'' :: nat private_feed_event]"
proof -
  let ?as = "FeedOpened 0 [(1, TextFrame ''{}'')] # replicate 2 FeedRefused" and ?s = "private_feed_new [] :: nat feed_state"
  let ?F = "\<lparr>ff_read = (\<lambda>_. None), ff_zero = 0, ff_u64 = of_nat\<rparr> :: nat feed_floats"
  let ?cfg = "\<lparr>pc_exchange_id = 0, pc_exchange_name = ''a'', pc_wss_url = [], pc_listen_key = None, pc_ping_interval_secs = 30, pc_pong_timeout_secs = 60\<rparr>"
  have ok: "fs_open ?s" "unat (fs_failures ?s) \<le> 100" "list_all keeps_receiver ?as" "within_limit (unat (fs_failures ?s)) ?as" "fs_events ?s = []"
    by (simp_all add: private_feed_new_def keeps_receiver_def numeral_2_eq_2)
  have ev: "concat (map (attempt_events ?F ?cfg ''a'') ?as) = [FeedDisconnected ''a'' ''stream ended'']"
    by (simp add: attempt_events_def numeral_2_eq_2 event_of_def extract_json_string_def)
  obtain s' ds k where "feed_task ?F (\<lambda>_. 5) ?cfg ''a'' ?as ?s = (False, s')" "fs_events s' = concat (map (attempt_events ?F ?cfg ''a'') (take k ?as))" "k = length ?as"
    using private_feed_exact [OF ok(1-3), of ?F "\<lambda>_. 5" ?cfg "''a''"] ok(4,5) by auto
  then show ?thesis using ev by (intro exI [of _ s']) simp
qed

section \<open>Where the listener fails\<close>

text \<open>
  A feed that has lost one connection is reported as inactive for ever: the task sets the flag to false when a connection ends, and never back to true when the next one opens.
\<close>

lemma reconnected_not_active:
  assumes "fs_open s" "unat (fs_failures s) \<le> 100" "list_all keeps_receiver attempts" "within_limit (unat (fs_failures s)) attempts"
    and "\<not> feed_is_active name s \<or> (\<exists>now frames. attempts \<noteq> [] \<and> hd attempts = FeedOpened now frames)"
  shows "\<not> feed_is_active name (snd (feed_task F jitter cfg name attempts s))"
  using assms
proof (induction attempts arbitrary: s)
  case (Cons attempt attempts)
  have w: "within_limit (unat (fs_failures s)) [attempt]" "within_limit (case attempt of FeedOpened _ _ \<Rightarrow> 1 | _ \<Rightarrow> Suc (unat (fs_failures s))) attempts"
    using Cons.prems(4) within_limit_split by blast+
  obtain s1 where 1: "one_attempt F jitter cfg name attempt s = (False, s1)" "fs_open s1" "\<not> feed_is_active name s1"
    "unat (fs_failures s1) = (case attempt of FeedOpened _ _ \<Rightarrow> 1 | _ \<Rightarrow> Suc (unat (fs_failures s)))"
    using one_attempt_goes_on [OF Cons.prems(1) _ w(1), of F jitter cfg name] Cons.prems(3,5) by auto
  have "unat (fs_failures s1) \<le> 100" using 1(4) w(1) by (cases attempt) auto
  then show ?case using Cons.IH [of s1] 1 w(2) Cons.prems(3) by auto
qed simp

text \<open>The shift of the delay wraps: after 64 failures in a row the delay starts again at one second.\<close>

lemma backoff_starts_over: "private_base_delay 64 = 60" "private_base_delay 65 = 1"
  by (simp_all add: private_base_delay_def saturating_sub_def)

end
