(* ===== verification/Zero_Alloc_Signer.thy ===== *)
theory Zero_Alloc_Signer
  imports Api_Signing
begin

text \<open>
  The signer of \<^verbatim>\<open>src/src/zero_alloc_signer.rs\<close>, which writes a signed query into a buffer of fixed size.  The hash is a field of the record of packages.  Keys and
  parameters are ASCII texts.
\<close>

abbreviation MAX_PAYLOAD_LEN :: nat where "MAX_PAYLOAD_LEN \<equiv> 4096"
abbreviation SIGNATURE_OVERHEAD :: nat where "SIGNATURE_OVERHEAD \<equiv> 76"
abbreviation MAX_PREIMAGE_LEN :: nat where "MAX_PREIMAGE_LEN \<equiv> MAX_PAYLOAD_LEN - SIGNATURE_OVERHEAD"
abbreviation MIN_KEY_LENGTH :: nat where "MIN_KEY_LENGTH \<equiv> 16"

section \<open>Keys\<close>

definition key_char :: "char \<Rightarrow> bool" where
  "key_char c \<longleftrightarrow> (let n = of_char c :: nat in 48 \<le> n \<and> n \<le> 57 \<or> 65 \<le> n \<and> n \<le> 90 \<or> 97 \<le> n \<and> n \<le> 122) \<or>
     c = CHR ''-'' \<or> c = CHR ''_'' \<or> c = CHR ''.'' \<or> c = CHR ''+''"

text \<open>The display of the offending character is an argument.\<close>

fun first_bad_char :: "(char \<Rightarrow> string) \<Rightarrow> nat \<Rightarrow> string \<Rightarrow> string + unit" where
  "first_bad_char debug i [] = Inr ()"
| "first_bad_char debug i (c # cs) =
     (if \<not> key_char c then Inl (''API key contains invalid character '' @ debug c @ '' at byte offset '' @ digits_of i) else first_bad_char debug (Suc i) cs)"

definition validate_key :: "(char \<Rightarrow> string) \<Rightarrow> string \<Rightarrow> string + unit" where
  "validate_key debug key =
     (if length key < MIN_KEY_LENGTH
      then Inl (''API key too short: '' @ digits_of (length key) @ '' bytes (minimum '' @ digits_of MIN_KEY_LENGTH @ '')'')
      else first_bad_char debug 0 key)"

text \<open>The constructor panics on a key that is not valid.\<close>

definition zero_alloc_signer_new :: "(char \<Rightarrow> string) \<Rightarrow> string \<Rightarrow> string option" where
  "zero_alloc_signer_new debug secret = (case validate_key debug secret of Inl _ \<Rightarrow> None | Inr _ \<Rightarrow> Some secret)"

section \<open>Signing\<close>

definition sign_raw :: "('f, 'd) client_api \<Rightarrow> string \<Rightarrow> string \<Rightarrow> string" where
  "sign_raw A secret msg = hex A (hmac_sha256 A secret msg)"

definition za_generate_signed_query :: "('f, 'd) client_api \<Rightarrow> string \<Rightarrow> string \<Rightarrow> u64 \<Rightarrow> string" where
  "za_generate_signed_query A secret base_payload timestamp =
     (let preimage = (if base_payload = [] then ''timestamp='' @ show_word timestamp else base_payload @ ''&timestamp='' @ show_word timestamp)
      in preimage @ ''&signature='' @ sign_raw A secret preimage)"

fun push_params :: "nat \<Rightarrow> (string \<times> string) list \<Rightarrow> string \<Rightarrow> string" where
  "push_params i [] acc = acc"
| "push_params i ((k, v) # ps) acc = push_params (Suc i) ps (acc @ (if 0 < i then ''&'' else []) @ k @ ''='' @ v)"

definition payload_preimage :: "(string \<times> string) list \<Rightarrow> u64 \<Rightarrow> string" where
  "payload_preimage params timestamp = push_params 0 params [] @ (if params \<noteq> [] then ''&'' else []) @ ''timestamp='' @ show_word timestamp"

text \<open>The cursor over the buffer: a text that does not fit is written as far as it goes, and is an error.\<close>

definition write_all :: "string \<Rightarrow> string \<Rightarrow> string \<times> bool" where
  "write_all buffer out = (take (length buffer) out @ drop (length out) buffer, length out \<le> length buffer)"

definition compile_and_sign_payload ::
  "('f, 'd) client_api \<Rightarrow> string \<Rightarrow> (string \<times> string) list \<Rightarrow> u64 \<Rightarrow> string \<Rightarrow> string \<times> (string + nat)" where
  "compile_and_sign_payload A secret params timestamp buffer =
     (let preimage = payload_preimage params timestamp
      in if MAX_PREIMAGE_LEN < length preimage then (buffer, Inl ''Preimage too large for output buffer'')
         else let out = preimage @ ''&signature='' @ sign_raw A secret preimage
              in case write_all buffer out of (buffer', fits) \<Rightarrow> (buffer', if fits then Inr (length out) else Inl ''Buffer overflow''))"

definition parse_decimal_from_bytes :: "('f, 'd) client_api \<Rightarrow> string \<Rightarrow> 'd option" where
  "parse_decimal_from_bytes A bytes = ok_of (read_decimal A bytes)"

section \<open>Properties\<close>

lemma first_bad_char_ok: "first_bad_char debug i key = Inr () \<longleftrightarrow> (\<forall>c \<in> set key. key_char c)"
  by (induction key arbitrary: i) auto

lemma push_params_query: "push_params i ps acc = acc @ (if 0 < i \<and> ps \<noteq> [] then ''&'' else []) @ query_text ps"
proof (induction i ps acc rule: push_params.induct)
  case (2 i k v ps acc)
  then show ?case by (cases ps) (auto simp: query_text_def)
qed (simp add: query_text_def)

lemma payload_preimage_query: "payload_preimage ps ts = (if ps = [] then ''timestamp='' @ show_word ts else query_text ps @ ''&timestamp='' @ show_word ts)"
  by (simp add: payload_preimage_def push_params_query query_text_def)


lemma query_text_nonempty: "ps \<noteq> [] \<Longrightarrow> query_text ps \<noteq> []"
  by (cases ps; cases "tl ps") (auto simp: query_text_def)

text \<open>
  the buffer gets exactly the signed query.  A signer is constructed precisely for secrets of at least sixteen letters, digits and the characters \<^verbatim>\<open>- _ . +\<close>.  With a hash of 64
  digits, a query of at most 4020 characters with its timestamp always fits: the buffer then starts with the text that \<^verbatim>\<open>generate_signed_query\<close> gives for the joined
  parameters, the returned number is its length, and the rest of the buffer is as before.  A longer query is refused and the buffer is not touched.
\<close>

theorem signed_payload_exact:
  assumes "length buffer = MAX_PAYLOAD_LEN" and "\<And>msg. length (hex A (hmac_sha256 A secret msg)) = 64"
    and "compile_and_sign_payload A secret params ts buffer = (buffer', res)"
  shows "(zero_alloc_signer_new debug secret = Some secret \<longleftrightarrow> 16 \<le> length secret \<and> (\<forall>c \<in> set secret. key_char c)) \<and>
    (if length (payload_preimage params ts) \<le> 4020
     then \<exists>n. res = Inr n \<and> n = length (payload_preimage params ts) + 75 \<and> take n buffer' = za_generate_signed_query A secret (query_text params) ts \<and>
            drop n buffer' = drop n buffer \<and> length buffer' = MAX_PAYLOAD_LEN
     else res = Inl ''Preimage too large for output buffer'' \<and> buffer' = buffer)"
proof
  show "zero_alloc_signer_new debug secret = Some secret \<longleftrightarrow> 16 \<le> length secret \<and> (\<forall>c \<in> set secret. key_char c)"
    using first_bad_char_ok [of debug 0 secret] by (cases "first_bad_char debug 0 secret") (auto simp: zero_alloc_signer_new_def validate_key_def)
  let ?pre = "payload_preimage params ts"
  have query: "za_generate_signed_query A secret (query_text params) ts = ?pre @ ''&signature='' @ sign_raw A secret ?pre"
    using query_text_nonempty [of params] by (simp add: za_generate_signed_query_def payload_preimage_query query_text_def Let_def)
  have len: "length (?pre @ ''&signature='' @ sign_raw A secret ?pre) = length ?pre + 75" using assms(2) by (simp add: sign_raw_def)
  show "if length ?pre \<le> 4020
     then \<exists>n. res = Inr n \<and> n = length ?pre + 75 \<and> take n buffer' = za_generate_signed_query A secret (query_text params) ts \<and>
            drop n buffer' = drop n buffer \<and> length buffer' = MAX_PAYLOAD_LEN
     else res = Inl ''Preimage too large for output buffer'' \<and> buffer' = buffer"
  proof (cases "length ?pre \<le> 4020")
    case True
    define out where "out = ?pre @ ''&signature='' @ sign_raw A secret ?pre"
    have "length out = length ?pre + 75" using len by (simp add: out_def)
    moreover have "compile_and_sign_payload A secret params ts buffer = (out @ drop (length out) buffer, Inr (length out))"
      using True \<open>length out = length ?pre + 75\<close> assms(1) unfolding compile_and_sign_payload_def write_all_def Let_def out_def [symmetric] by simp
    ultimately show ?thesis using True assms(1,3) query [folded out_def] by auto
  next
    case False
    then show ?thesis using assms(3) by (simp add: compile_and_sign_payload_def Let_def)
  qed
qed

theorem signed_payload_exact_witness:
  "\<exists>buffer'. compile_and_sign_payload (plain_api\<lparr>hex := \<lambda>_. replicate 64 CHR ''f''\<rparr>) ''k'' [(''a'', ''b'')] 7 (replicate 4096 CHR ''-'') = (buffer', Inr 90)"
proof -
  let ?A = "plain_api\<lparr>hex := \<lambda>_. replicate 64 CHR ''f''\<rparr>" and ?b = "replicate 4096 CHR ''-''"
  obtain buffer' res where r: "compile_and_sign_payload ?A ''k'' [(''a'', ''b'')] 7 ?b = (buffer', res)" by fastforce
  have "payload_preimage [(''a'', ''b'')] 7 = ''a=b&timestamp=7''" by (simp add: payload_preimage_def show_word_def digits_of.simps)
  then show ?thesis using signed_payload_exact [OF _ _ r] r by auto
qed

text \<open>The suffix is one byte shorter than the comment beside its length says.\<close>

lemma overhead_of_signature: "length ''&signature='' + 64 = SIGNATURE_OVERHEAD - 1"
  by simp

end
