(* ===== verification/Zero_Lag_Stream.thy ===== *)
theory Zero_Lag_Stream
  imports Report_Parsers
begin

text \<open>
  The stream manager and the static parser of \<^verbatim>\<open>src/src/zero_lag_stream.rs\<close>.  The manager opens no connection itself: it keeps counters and computes delays.  Instants are
  arguments, and so are the operations on floats.
\<close>

section \<open>The manager\<close>

record stream_health =
  total_messages_received :: u64
  total_reconnects :: u64
  total_parse_errors :: u64
  last_message_ts_ms :: u64
  connected_since_ms :: u64
  current_latency_ms :: u64

record 'f stream_config =
  stream_ws_url :: string
  stream_subscribe_message :: string
  initial_reconnect_delay_ms :: u64
  max_reconnect_delay_ms :: u64
  backoff_multiplier :: 'f
  stream_ping_interval_secs :: "u64 option"
  stream_exchange_id :: u16

definition stream_config_default :: "'f \<Rightarrow> 'f stream_config" where
  "stream_config_default two =
     \<lparr>stream_ws_url = [], stream_subscribe_message = [], initial_reconnect_delay_ms = 250, max_reconnect_delay_ms = 30000, backoff_multiplier = two,
      stream_ping_interval_secs = Some 30, stream_exchange_id = 0\<rparr>"

record 'f stream_manager =
  sm_config :: "'f stream_config"
  sm_health :: stream_health
  pending_count :: u64
  max_pending :: u64
  dropped_count :: u64

definition stream_manager_new :: "'f stream_config \<Rightarrow> 'f stream_manager" where
  "stream_manager_new cfg =
     \<lparr>sm_config = cfg,
      sm_health = \<lparr>total_messages_received = 0, total_reconnects = 0, total_parse_errors = 0, last_message_ts_ms = 0, connected_since_ms = 0, current_latency_ms = 0\<rparr>,
      pending_count = 0, max_pending = 10000, dropped_count = 0\<rparr>"

definition record_message :: "u64 \<Rightarrow> 'f stream_manager \<Rightarrow> 'f stream_manager" where
  "record_message now m =
     (if max_pending m \<le> pending_count m then m\<lparr>dropped_count := dropped_count m + 1\<rparr>
      else m\<lparr>sm_health := (sm_health m)\<lparr>total_messages_received := total_messages_received (sm_health m) + 1, last_message_ts_ms := now\<rparr>,
             pending_count := pending_count m + 1\<rparr>)"

definition acknowledge_message :: "'f stream_manager \<Rightarrow> 'f stream_manager" where
  "acknowledge_message m = m\<lparr>pending_count := saturating_sub (pending_count m) 1\<rparr>"

definition record_reconnect :: "u64 \<Rightarrow> 'f stream_manager \<Rightarrow> 'f stream_manager" where
  "record_reconnect now m = m\<lparr>sm_health := (sm_health m)\<lparr>total_reconnects := total_reconnects (sm_health m) + 1, connected_since_ms := now\<rparr>\<rparr>"

definition record_parse_error :: "'f stream_manager \<Rightarrow> 'f stream_manager" where
  "record_parse_error m = m\<lparr>sm_health := (sm_health m)\<lparr>total_parse_errors := total_parse_errors (sm_health m) + 1\<rparr>\<rparr>"

definition time_since_last_message_ms :: "u64 \<Rightarrow> 'f stream_manager \<Rightarrow> u64" where
  "time_since_last_message_ms now m = saturating_sub now (last_message_ts_ms (sm_health m))"

definition set_latency_ms :: "u64 \<Rightarrow> 'f stream_manager \<Rightarrow> 'f stream_manager" where
  "set_latency_ms latency m = m\<lparr>sm_health := (sm_health m)\<lparr>current_latency_ms := latency\<rparr>\<rparr>"

text \<open>The delay before a reconnection.\<close>

record 'f delay_floats =
  df_of_u64 :: "u64 \<Rightarrow> 'f"
  df_mul :: "'f \<Rightarrow> 'f \<Rightarrow> 'f"
  df_div :: "'f \<Rightarrow> 'f \<Rightarrow> 'f"
  df_add :: "'f \<Rightarrow> 'f \<Rightarrow> 'f"
  df_sub :: "'f \<Rightarrow> 'f \<Rightarrow> 'f"
  df_min :: "'f \<Rightarrow> 'f \<Rightarrow> 'f"
  df_max :: "'f \<Rightarrow> 'f \<Rightarrow> 'f"
  df_powi :: "'f \<Rightarrow> 32 word \<Rightarrow> 'f"
  df_u64 :: "'f \<Rightarrow> u64"
  df_tenth :: 'f
  df_half :: 'f

definition rand_jitter :: "'f delay_floats \<Rightarrow> u64 \<Rightarrow> u16 \<Rightarrow> 'f" where
  "rand_jitter D nanos exchange_id =
     (let seed = nanos XOR (ucast exchange_id * 1000003); x = seed * 1103515245 + 12345
      in df_div D (df_of_u64 D (x mod 1000)) (df_of_u64 D 1000))"

definition next_reconnect_delay :: "'f delay_floats \<Rightarrow> u64 \<Rightarrow> u32 \<Rightarrow> 'f stream_manager \<Rightarrow> u64" where
  "next_reconnect_delay D nanos attempt m =
     (let cfg = sm_config m; delay_ms = df_mul D (df_of_u64 D (initial_reconnect_delay_ms cfg)) (df_powi D (backoff_multiplier cfg) (ucast (min attempt 2147483647)));
          capped = df_min D delay_ms (df_of_u64 D (max_reconnect_delay_ms cfg));
          jitter = df_mul D (df_mul D capped (df_tenth D)) (df_sub D (rand_jitter D nanos (stream_exchange_id cfg)) (df_half D))
      in df_u64 D (df_max D (df_add D capped jitter) (df_of_u64 D 100)))"

section \<open>The static parser\<close>

record parsed_book_update =
  pbu_symbol :: string
  pbu_bids :: "(string \<times> string) list"
  pbu_asks :: "(string \<times> string) list"
  pbu_is_snapshot :: bool
  pbu_last_update_id :: u64

definition extract_string_field :: "string \<Rightarrow> string \<Rightarrow> string option" where
  "extract_string_field json key =
     (case split_at (QUOTE # key @ [QUOTE, CHR '':'', QUOTE]) json of
        None \<Rightarrow> None
      | Some (before, after) \<Rightarrow>
          if before \<noteq> [] \<and> \<not> opens_key (last before) then None else map_option fst (split_at [QUOTE] after))"

definition extract_number_field :: "string \<Rightarrow> string \<Rightarrow> u64 option" where
  "extract_number_field json key =
     Option.bind (split_at (QUOTE # key @ [QUOTE, CHR '':'']) json) (\<lambda>(_, after). parse_u64 (takeWhile (\<lambda>c. is_digit c \<or> c = CHR ''.'') after))"

definition trim_quotes :: "string \<Rightarrow> string" where
  "trim_quotes s = rev (dropWhile (\<lambda>c. c = QUOTE) (rev (dropWhile (\<lambda>c. c = QUOTE) s)))"

definition inner_pair :: "string \<Rightarrow> (string \<times> string) list" where
  "inner_pair inner = (case str_split CHR '','' inner of [p, v] \<Rightarrow> [(trim_quotes p, trim_quotes v)] | _ \<Rightarrow> [])"

lemma split_at_length: "split_at pat s = Some (b, a) \<Longrightarrow> length b + length pat + length a = length s"
proof (induction s arbitrary: b)
  case (Cons c s)
  then show ?case
  proof (cases "is_prefix_of pat (c # s)")
    case True
    have "is_prefix_of xs ys \<Longrightarrow> length xs \<le> length ys" for xs ys :: string
      by (induction xs ys rule: is_prefix_of.induct) auto
    from this [OF True] show ?thesis using Cons.prems True by auto
  qed auto
qed (auto split: if_splits)

text \<open>The loop over the inner arrays; the position is the suffix that starts there.\<close>

function pair_loop :: "string \<Rightarrow> (string \<times> string) list option" where
  "pair_loop s =
     (if s = [] then Some []
      else case split_at ''['' s of
             None \<Rightarrow> None
           | Some (_, after) \<Rightarrow>
               (case split_at '']'' after of
                  None \<Rightarrow> None
                | Some (inner, rest) \<Rightarrow>
                    if take 1 rest = '']'' then Some (inner_pair inner) else map_option ((@) (inner_pair inner)) (pair_loop rest)))"
  by pat_completeness auto
termination by (relation "measure length") (auto dest!: split_at_length)

declare pair_loop.simps [simp del]

definition extract_price_quantity_array :: "string \<Rightarrow> string \<Rightarrow> (string \<times> string) list option" where
  "extract_price_quantity_array json key =
     Option.bind (split_at (QUOTE # key @ [QUOTE, CHR '':'', CHR ''['']) json) (\<lambda>(_, array).
       Option.bind (pair_loop array) (\<lambda>pairs. if pairs = [] then None else Some pairs))"

definition parse_binance_depth_static :: "string \<Rightarrow> parsed_book_update option" where
  "parse_binance_depth_static json =
     Option.bind (extract_string_field json ''s'') (\<lambda>symbol.
       Option.bind (extract_number_field json ''u'') (\<lambda>update_id.
         Option.bind (extract_price_quantity_array json ''b'') (\<lambda>bids.
           Option.bind (extract_price_quantity_array json ''a'') (\<lambda>asks.
             Some \<lparr>pbu_symbol = symbol, pbu_bids = bids, pbu_asks = asks, pbu_is_snapshot = False, pbu_last_update_id = update_id\<rparr>))))"

definition parse_generic_depth :: "string \<Rightarrow> parsed_book_update option" where
  "parse_generic_depth json =
     Option.bind (extract_price_quantity_array json ''bids'') (\<lambda>bids.
       Option.bind (extract_price_quantity_array json ''asks'') (\<lambda>asks.
         Some \<lparr>pbu_symbol = [], pbu_bids = bids, pbu_asks = asks, pbu_is_snapshot = True, pbu_last_update_id = 0\<rparr>))"

section \<open>Backpressure\<close>

datatype stream_op = Received u64 | Acknowledged | Reconnected u64 | Parse_Error | Latency u64

fun stream_step :: "'f stream_manager \<Rightarrow> stream_op \<Rightarrow> 'f stream_manager" where
  "stream_step m (Received now) = record_message now m"
| "stream_step m Acknowledged = acknowledge_message m"
| "stream_step m (Reconnected now) = record_reconnect now m"
| "stream_step m Parse_Error = record_parse_error m"
| "stream_step m (Latency l) = set_latency_ms l m"

definition arrivals :: "stream_op list \<Rightarrow> nat" where
  "arrivals ops = length (filter (\<lambda>op. case op of Received _ \<Rightarrow> True | _ \<Rightarrow> False) ops)"

lemma arrivals_snoc: "arrivals (ops @ [op]) = arrivals ops + (case op of Received _ \<Rightarrow> 1 | _ \<Rightarrow> 0)"
  by (cases op) (simp_all add: arrivals_def)

text \<open>
  every message is either received or counted as dropped, and never more than 10000 are pending, whatever the order of messages, acknowledgements and reconnections.
\<close>

theorem backpressure_accounted:
  assumes "length ops < 2 ^ 64"
  shows "unat (pending_count (run stream_step (stream_manager_new cfg) ops)) \<le> 10000 \<and>
    unat (total_messages_received (sm_health (run stream_step (stream_manager_new cfg) ops))) + unat (dropped_count (run stream_step (stream_manager_new cfg) ops)) = arrivals ops \<and>
    unat (pending_count (run stream_step (stream_manager_new cfg) ops)) \<le> unat (total_messages_received (sm_health (run stream_step (stream_manager_new cfg) ops)))"
proof -
  have "length ops < 2 ^ 64 \<Longrightarrow> max_pending (run stream_step (stream_manager_new cfg) ops) = 10000 \<and>
      unat (pending_count (run stream_step (stream_manager_new cfg) ops)) \<le> 10000 \<and>
      unat (total_messages_received (sm_health (run stream_step (stream_manager_new cfg) ops))) + unat (dropped_count (run stream_step (stream_manager_new cfg) ops)) = arrivals ops \<and>
      unat (pending_count (run stream_step (stream_manager_new cfg) ops)) \<le> unat (total_messages_received (sm_health (run stream_step (stream_manager_new cfg) ops))) \<and>
      arrivals ops \<le> length ops"
  proof (induction ops rule: rev_induct)
    case (snoc op ops)
    let ?m = "run stream_step (stream_manager_new cfg) ops"
    have ih: "max_pending ?m = 10000" "unat (pending_count ?m) \<le> 10000" "unat (total_messages_received (sm_health ?m)) + unat (dropped_count ?m) = arrivals ops"
      "unat (pending_count ?m) \<le> unat (total_messages_received (sm_health ?m))" "arrivals ops \<le> length ops" using snoc by auto
    show ?case
    proof (cases op)
      case (Received now)
      have a: "arrivals (ops @ [op]) = Suc (arrivals ops)" by (simp add: arrivals_snoc Received)
      have small: "arrivals ops + 1 < 2 ^ 64" using ih(5) snoc.prems by simp
      show ?thesis
      proof (cases "10000 \<le> pending_count ?m")
        case True
        have "unat (dropped_count ?m + 1) = Suc (unat (dropped_count ?m))" using small ih(3) by (simp add: unat_word_ariths)
        then show ?thesis using True ih a by (simp add: Received record_message_def)
      next
        case False
        then have "unat (pending_count ?m) < 10000" by (simp add: word_le_nat_alt)
        moreover have "unat (total_messages_received (sm_health ?m) + 1) = Suc (unat (total_messages_received (sm_health ?m)))"
          using small ih(3) by (simp add: unat_word_ariths)
        moreover have "unat (pending_count ?m + 1) = Suc (unat (pending_count ?m))" using ih(2) by (simp add: unat_word_ariths)
        ultimately show ?thesis using False ih a by (simp add: Received record_message_def)
      qed
    next
      case Acknowledged
      have "unat (saturating_sub (pending_count ?m) 1) \<le> unat (pending_count ?m)" by (cases "1 \<le> pending_count ?m") (simp_all add: saturating_sub_def unat_sub)
      then show ?thesis using ih by (simp add: Acknowledged acknowledge_message_def arrivals_snoc)
    qed (use ih in \<open>simp_all add: arrivals_snoc record_reconnect_def record_parse_error_def set_latency_ms_def\<close>)
  qed (simp add: stream_manager_new_def arrivals_def)
  then show ?thesis using assms by blast
qed

theorem backpressure_accounted_witness:
  "unat (pending_count (run stream_step (stream_manager_new (stream_config_default (2::nat))) [Received 5, Acknowledged, Received 6])) \<le> 10000 \<and>
   arrivals [Received 5, Acknowledged, Received 6] = 2"
  using backpressure_accounted [of "[Received 5, Acknowledged, Received 6]" "stream_config_default (2::nat)"] by (simp add: arrivals_def)

section \<open>Depth updates are read back\<close>

text \<open>A pattern with a colon can only be found where the text has its colon.\<close>

lemma colon_prefix:
  assumes "CHR '':'' \<notin> set u" "CHR '':'' \<notin> set w"
  shows "is_prefix_of (u @ CHR '':'' # v) (w @ CHR '':'' # r) \<longleftrightarrow> u = w \<and> is_prefix_of v r"
  using assms
proof (induction u arbitrary: w)
  case Nil
  then show ?case by (cases w) auto
next
  case (Cons c u)
  then show ?case by (cases w) auto
qed

lemma split_at_colon:
  assumes "CHR '':'' \<notin> set u" "CHR '':'' \<notin> set w"
  shows "split_at (u @ CHR '':'' # v) (w @ CHR '':'' # r) =
    (if suffix u w \<and> is_prefix_of v r then Some (take (length w - length u) w, drop (length v) r)
     else map_option (apfst (\<lambda>b. w @ CHR '':'' # b)) (split_at (u @ CHR '':'' # v) r))"
  using assms
proof (induction w)
  case Nil
  have "is_prefix_of (u @ CHR '':'' # v) (CHR '':'' # r) \<longleftrightarrow> u = [] \<and> is_prefix_of v r" using colon_prefix [of u "[]" v r] Nil by auto
  then show ?case by (auto simp: option.map_comp comp_def)
next
  case (Cons c w)
  have pre: "is_prefix_of (u @ CHR '':'' # v) (c # w @ CHR '':'' # r) \<longleftrightarrow> u = c # w \<and> is_prefix_of v r"
    using colon_prefix [OF Cons.prems, of v r] by simp
  have suf: "suffix u (c # w) \<longleftrightarrow> u = c # w \<or> suffix u w" by (auto simp: suffix_Cons)
  have len: "suffix u w \<Longrightarrow> length u \<le> length w" by (rule suffix_length_le)
  have comp: "map_option (apfst ((#) c)) (map_option (apfst g) x) = map_option (apfst (\<lambda>b. c # g b)) x" for g :: "string \<Rightarrow> string" and x :: "(string \<times> string) option"
    by (cases x) auto
  show ?case
  proof (cases "u = c # w \<and> is_prefix_of v r")
    case True
    then show ?thesis using pre by simp
  next
    case False
    then have "split_at (u @ CHR '':'' # v) ((c # w) @ CHR '':'' # r) = map_option (apfst ((#) c)) (split_at (u @ CHR '':'' # v) (w @ CHR '':'' # r))"
      using pre by auto
    then show ?thesis using Cons False suf len comp by (auto simp: Suc_diff_le)
  qed
qed

lemma suffix_append_long: "length u \<le> length z \<Longrightarrow> suffix u (x @ z) \<longleftrightarrow> suffix u z"
  by (auto simp: suffix_append dest: suffix_length_le)

lemma split_at_char: "c \<notin> set pre \<Longrightarrow> split_at [c] (pre @ c # rest) = Some (pre, rest)"
  by (induction pre) auto

definition row :: "string \<times> string \<Rightarrow> string" where
  "row e = ''['' @ quoted (fst e) @ '','' @ quoted (snd e) @ '']''"

fun rows :: "(string \<times> string) list \<Rightarrow> string" where
  "rows [] = []"
| "rows [e] = row e"
| "rows (e # es) = row e @ '','' @ rows es"

text \<open>Prices and quantities without the characters that structure a message.\<close>

definition plain_text :: "string \<Rightarrow> bool" where
  "plain_text s \<longleftrightarrow> set s \<inter> {QUOTE, CHR ''['', CHR '']'', CHR '','', CHR '':''} = {}"

definition plain_row :: "string \<times> string \<Rightarrow> bool" where
  "plain_row e \<longleftrightarrow> plain_text (fst e) \<and> plain_text (snd e)"

lemma trim_quoted: "QUOTE \<notin> set s \<Longrightarrow> trim_quotes (quoted s) = s"
proof -
  assume q: "QUOTE \<notin> set s"
  have "dropWhile (\<lambda>c. c = QUOTE) (s' @ [QUOTE]) = (if s' = [] then [] else s' @ [QUOTE])" if "QUOTE \<notin> set s'" for s'
    using that by (cases s') auto
  moreover have "dropWhile (\<lambda>c. c = QUOTE) s' = s'" if "QUOTE \<notin> set s'" for s' using that by (cases s') auto
  ultimately show ?thesis using q by (auto simp: trim_quotes_def quoted_def)
qed

lemma split_no_sep: "sep \<notin> set s \<Longrightarrow> str_split sep s = [s]"
  by (induction s) auto

lemma split_sep: "sep \<notin> set s \<Longrightarrow> str_split sep (s @ sep # t) = s # str_split sep t"
  by (induction s) auto

lemma inner_pair_row: "plain_row e \<Longrightarrow> inner_pair (quoted (fst e) @ '','' @ quoted (snd e)) = [e]"
  using split_sep [of "CHR '',''" "quoted (fst e)" "quoted (snd e)"] split_no_sep [of "CHR '',''" "quoted (snd e)"] trim_quoted [of "fst e"] trim_quoted [of "snd e"]
  by (auto simp: inner_pair_def plain_row_def plain_text_def quoted_def)

lemma pair_loop_row:
  assumes "plain_row e" "CHR ''['' \<notin> set pre"
  shows "pair_loop (pre @ row e @ rest) = (if take 1 rest = '']'' then Some [e] else map_option ((@) [e]) (pair_loop rest))"
proof -
  let ?in = "quoted (fst e) @ '','' @ quoted (snd e)"
  have "split_at ''['' (pre @ row e @ rest) = Some (pre, ?in @ CHR '']'' # rest)"
    using split_at_char [OF assms(2), of "?in @ CHR '']'' # rest"] by (simp add: row_def)
  moreover have "split_at '']'' (?in @ CHR '']'' # rest) = Some (?in, rest)"
    by (rule split_at_char) (use assms(1) in \<open>auto simp: plain_row_def plain_text_def quoted_def\<close>)
  ultimately show ?thesis by (subst pair_loop.simps) (simp add: inner_pair_row [OF assms(1), simplified] row_def)
qed

lemma pair_loop_rows:
  assumes "list_all plain_row es" "es \<noteq> []" "CHR ''['' \<notin> set pre"
  shows "pair_loop (pre @ rows es @ CHR '']'' # rest) = Some es"
  using assms
proof (induction es arbitrary: pre rule: rows.induct)
  case (2 e)
  then show ?case using pair_loop_row [of e pre "CHR '']'' # rest"] by simp
next
  case (3 e e' es)
  have "pair_loop (pre @ row e @ '','' @ rows (e' # es) @ CHR '']'' # rest) = Some (e # e' # es)"
    using 3(1) [of "'',''"] 3(2-4) pair_loop_row [of e pre "'','' @ rows (e' # es) @ CHR '']'' # rest"] by simp
  then show ?case by simp
qed simp

lemma parse_digits_value: "set ds \<subseteq> set ''0123456789'' \<Longrightarrow> parse_digits acc ds = Some (foldl (\<lambda>acc ch. 10 * acc + (of_char ch - 48)) acc ds)"
  by (induction ds arbitrary: acc) (auto simp: digit_value_def)

lemma parse_show_u64: "parse_u64 (show_word w) = Some w"
proof -
  have "show_word w \<noteq> []" unfolding show_word_def by (subst digits_of.simps) simp
  then obtain d ds where d: "show_word w = d # ds" by (cases "show_word w") auto
  have "d \<in> set ''0123456789''" using show_word_digits [of w] d by auto
  then have "d \<noteq> CHR ''+''" by auto
  moreover have "parse_digits 0 (show_word w) = Some (unat w)"
    using parse_digits_value [OF show_word_digits [of w], of 0] digits_value_of [of "unat w"] by (simp add: digits_value_def show_word_def)
  moreover have "unat w < 2 ^ 64" using unsigned_less [of w] by simp
  ultimately show ?thesis using d by (simp add: parse_u64_def)
qed

definition depth_frame :: "string \<Rightarrow> (string \<times> string) list \<Rightarrow> (string \<times> string) list \<Rightarrow> u64 \<Rightarrow> string" where
  "depth_frame symbol bids asks update_id =
     (''{'' @ quoted ''e'') @ CHR '':'' # (quoted ''depthUpdate'' @ '','' @ quoted ''s'') @ CHR '':'' # (quoted symbol @ '','' @ quoted ''b'') @ CHR '':'' #
     (''['' @ rows bids @ ''],'' @ quoted ''a'') @ CHR '':'' # (''['' @ rows asks @ ''],'' @ quoted ''u'') @ CHR '':'' # show_word update_id @ ''}''"

lemma colon_free_rows: "list_all plain_row es \<Longrightarrow> CHR '':'' \<notin> set (rows es)"
  by (induction es rule: rows.induct) (auto simp: row_def quoted_def plain_row_def plain_text_def)

lemma quoted_set: "set (quoted s) = insert QUOTE (set s)"
  by (auto simp: quoted_def)

lemma quoted_suffix: "suffix (quoted k) (x @ '','' @ quoted k') \<longleftrightarrow> k = k'" if "length k = 1" "length k' = 1" for k k' x
proof -
  have "suffix (quoted k) ((x @ '','') @ quoted k') \<longleftrightarrow> suffix (quoted k) (quoted k')"
    using that by (subst suffix_append_long) (simp_all add: quoted_def)
  moreover have "suffix (quoted k) (quoted k') \<longleftrightarrow> quoted k = quoted k'"
    using that by (auto simp: suffix_def quoted_def append_eq_append_conv length_Suc_conv)
  ultimately show ?thesis by (simp add: quoted_def)
qed

text \<open>
  a depth update of Binance is read back: the symbol, both sides of the book row by row, and the number of the update, for texts without the characters that structure the message and
  sides that are not empty.
\<close>

theorem depth_update_roundtrip:
  assumes "plain_text symbol" "list_all plain_row bids" "bids \<noteq> []" "list_all plain_row asks" "asks \<noteq> []"
  shows "parse_binance_depth_static (depth_frame symbol bids asks update_id) =
    Some \<lparr>pbu_symbol = symbol, pbu_bids = bids, pbu_asks = asks, pbu_is_snapshot = False, pbu_last_update_id = update_id\<rparr>"
proof -
  let ?w1 = "''{'' @ quoted ''e''" and ?w2 = "quoted ''depthUpdate'' @ '','' @ quoted ''s''" and ?w3 = "quoted symbol @ '','' @ quoted ''b''"
    and ?w4 = "(''['' @ rows bids @ '']'') @ '','' @ quoted ''a''" and ?w5 = "(''['' @ rows asks @ '']'') @ '','' @ quoted ''u''" and ?rest = "show_word update_id @ ''}''"
  have frame: "depth_frame symbol bids asks update_id = ?w1 @ CHR '':'' # ?w2 @ CHR '':'' # ?w3 @ CHR '':'' # ?w4 @ CHR '':'' # ?w5 @ CHR '':'' # ?rest"
    by (simp add: depth_frame_def)
  have free: "CHR '':'' \<notin> set ?w1" "CHR '':'' \<notin> set ?w2" "CHR '':'' \<notin> set ?w3" "CHR '':'' \<notin> set ?w4" "CHR '':'' \<notin> set ?w5"
    using assms colon_free_rows [OF assms(2)] colon_free_rows [OF assms(4)] by (auto simp: quoted_set plain_text_def)
  have ends: "\<not> suffix (quoted k) ?w1" if "k \<in> {''s'', ''b'', ''a'', ''u''}" for k
    using that suffix_append_long [of "quoted k" "quoted ''e''" "''{''"] by (auto simp: quoted_def suffix_def append_eq_append_conv)
  have sfx: "suffix (quoted k) ?w2 \<longleftrightarrow> k = ''s''" "suffix (quoted k) ?w3 \<longleftrightarrow> k = ''b''" "suffix (quoted k) ?w4 \<longleftrightarrow> k = ''a''" "suffix (quoted k) ?w5 \<longleftrightarrow> k = ''u''"
    if "k \<in> {''s'', ''b'', ''a'', ''u''}" for k
    by (rule quoted_suffix; use that in auto)+
  have kc: "CHR '':'' \<notin> set (quoted k)" if "k \<in> {''s'', ''b'', ''a'', ''u''}" for k using that by (auto simp: quoted_set)
  have sp: "split_at (quoted k @ CHR '':'' # v) (w @ CHR '':'' # r) = (if suffix (quoted k) w \<and> is_prefix_of v r then Some (take (length w - length (quoted k)) w, drop (length v) r)
     else map_option (apfst (\<lambda>b. w @ CHR '':'' # b)) (split_at (quoted k @ CHR '':'' # v) r))"
    if "k \<in> {''s'', ''b'', ''a'', ''u''}" "CHR '':'' \<notin> set w" for k v w r by (rule split_at_colon [OF kc [OF that(1)] that(2)])
  have 1: "extract_string_field (depth_frame symbol bids asks update_id) ''s'' = Some symbol"
  proof -
    let ?r = "?w3 @ CHR '':'' # ?w4 @ CHR '':'' # ?w5 @ CHR '':'' # ?rest"
    have "split_at (quoted ''s'' @ CHR '':'' # [QUOTE]) (depth_frame symbol bids asks update_id) =
        Some (?w1 @ CHR '':'' # quoted ''depthUpdate'' @ '','', drop 1 ?r)"
      unfolding frame sp [OF _ free(1)] using ends [of "''s''"] sp [OF _ free(2), of "''s''" "[QUOTE]" ?r] sfx(1) [of "''s''"] by (simp add: quoted_def)
    moreover have "split_at [QUOTE] (drop 1 ?r) = Some (symbol, drop (length symbol + 2) ?r)"
      using split_at_char [of QUOTE symbol "drop (length symbol + 2) ?r"] assms(1) by (simp add: quoted_def plain_text_def)
    ultimately show ?thesis by (simp add: extract_string_field_def quoted_def opens_key_def)
  qed
  let ?r3 = "?w3 @ CHR '':'' # ?w4 @ CHR '':'' # ?w5 @ CHR '':'' # ?rest" and ?r4 = "?w4 @ CHR '':'' # ?w5 @ CHR '':'' # ?rest" and ?r5 = "?w5 @ CHR '':'' # ?rest"
  have skip: "map_option snd (split_at (quoted k @ CHR '':'' # v) (w @ CHR '':'' # r)) = map_option snd (split_at (quoted k @ CHR '':'' # v) r)"
    if "k \<in> {''s'', ''b'', ''a'', ''u''}" "CHR '':'' \<notin> set w" "\<not> suffix (quoted k) w" for k v w r
    using that by (simp add: sp option.map_comp comp_def del: append.simps)
  have hit: "map_option snd (split_at (quoted k @ CHR '':'' # v) (w @ CHR '':'' # v @ r)) = Some r"
    if "k \<in> {''s'', ''b'', ''a'', ''u''}" "CHR '':'' \<notin> set w" "suffix (quoted k) w" for k v w r
  proof -
    have "is_prefix_of v (v @ r)" by (induction v) auto
    then show ?thesis using that by (simp add: sp del: append.simps)
  qed
  have in3: "map_option snd (split_at (quoted k @ CHR '':'' # v) (depth_frame symbol bids asks update_id)) = map_option snd (split_at (quoted k @ CHR '':'' # v) ?r3)"
    if "k \<in> {''b'', ''a'', ''u''}" for k v
    unfolding frame using that skip [OF _ free(1), of k v] skip [OF _ free(2), of k v] ends [of k] sfx(1) [of k] by auto
  have in4: "map_option snd (split_at (quoted k @ CHR '':'' # v) (depth_frame symbol bids asks update_id)) = map_option snd (split_at (quoted k @ CHR '':'' # v) ?r4)"
    if "k \<in> {''a'', ''u''}" for k v
    using that in3 [of k v] skip [OF _ free(3), of k v ?r4] sfx(2) [of k] by auto
  have in5: "map_option snd (split_at (quoted ''u'' @ CHR '':'' # v) (depth_frame symbol bids asks update_id)) = map_option snd (split_at (quoted ''u'' @ CHR '':'' # v) ?r5)" for v
    using in4 [of "''u''" v] skip [OF _ free(4), of "''u''" v ?r5] sfx(3) [of "''u''"] by simp
  have u: "map_option snd (split_at (quoted ''u'' @ CHR '':'' # []) (depth_frame symbol bids asks update_id)) = Some ?rest"
    unfolding in5 using hit [OF _ free(5), of "''u''" "[]" ?rest] sfx(4) [of "''u''"] by simp
  have b: "map_option snd (split_at (quoted ''b'' @ CHR '':'' # ''['') (depth_frame symbol bids asks update_id)) =
      Some (rows bids @ CHR '']'' # '','' @ quoted ''a'' @ CHR '':'' # ?r5)"
    using in3 [of "''b''" "''[''"] hit [OF _ free(3), of "''b''" "''[''" "rows bids @ CHR '']'' # '','' @ quoted ''a'' @ CHR '':'' # ?r5"] sfx(2) [of "''b''"] by simp
  have a: "map_option snd (split_at (quoted ''a'' @ CHR '':'' # ''['') (depth_frame symbol bids asks update_id)) =
      Some (rows asks @ CHR '']'' # '','' @ quoted ''u'' @ CHR '':'' # ?rest)"
    using in4 [of "''a''" "''[''"] hit [OF _ free(4), of "''a''" "''[''" "rows asks @ CHR '']'' # '','' @ quoted ''u'' @ CHR '':'' # ?rest"] sfx(3) [of "''a''"] by simp
  have digits: "takeWhile (\<lambda>c. is_digit c \<or> c = CHR ''.'') ?rest = show_word update_id"
  proof -
    have "\<forall>c \<in> set ''0123456789''. is_digit c" by (simp add: is_digit_def digit_value_def)
    then have "\<forall>c \<in> set (show_word update_id). is_digit c \<or> c = CHR ''.''" using show_word_digits [of update_id] by blast
    moreover have "\<not> (is_digit CHR ''}'' \<or> CHR ''}'' = CHR ''.'')" by (simp add: is_digit_def digit_value_def)
    ultimately show ?thesis using takeWhile_field [of "show_word update_id" "\<lambda>c. is_digit c \<or> c = CHR ''.''" "CHR ''}''" "[]"] by simp
  qed
  have 2: "extract_number_field (depth_frame symbol bids asks update_id) ''u'' = Some update_id"
    using u digits parse_show_u64 [of update_id] by (auto simp: extract_number_field_def quoted_def)
  have 3: "extract_price_quantity_array (depth_frame symbol bids asks update_id) ''b'' = Some bids"
    using b pair_loop_rows [OF assms(2,3), of "[]"] assms(3) by (auto simp: extract_price_quantity_array_def quoted_def)
  have 4: "extract_price_quantity_array (depth_frame symbol bids asks update_id) ''a'' = Some asks"
    using a pair_loop_rows [OF assms(4,5), of "[]"] assms(5) by (auto simp: extract_price_quantity_array_def quoted_def)
  show ?thesis using 1 2 3 4 by (simp add: parse_binance_depth_static_def)
qed

theorem depth_update_roundtrip_witness:
  "parse_binance_depth_static (depth_frame ''BTCUSDT'' [(''50000'', ''1.5''), (''49990'', ''2'')] [(''50010'', ''0.8'')] 12345) =
     Some \<lparr>pbu_symbol = ''BTCUSDT'', pbu_bids = [(''50000'', ''1.5''), (''49990'', ''2'')], pbu_asks = [(''50010'', ''0.8'')], pbu_is_snapshot = False, pbu_last_update_id = 12345\<rparr>"
  by (rule depth_update_roundtrip) (simp_all add: plain_row_def plain_text_def)

text \<open>
  A side without rows makes the parser run on: the bids are then read out of the text of the asks, with a price that is no number.
\<close>

lemma empty_side_read_from_other:
  "extract_price_quantity_array (''{'' @ quoted ''b'' @ '':[],'' @ quoted ''a'' @ '':['' @ rows [(''50010'', ''0.8'')] @ '']}'') ''b'' =
     Some [([CHR ''['', QUOTE] @ ''50010'', ''0.8'')]"
  by (simp add: extract_price_quantity_array_def quoted_def row_def pair_loop.simps inner_pair_def trim_quotes_def)

end
