(* ===== verification/Backtest.thy ===== *)
theory Backtest
  imports Decimal_Api Hash_Map Json_Values
begin

text \<open>
  The backtesting engine of \<^verbatim>\<open>src/src/backtest.rs\<close>: the reading of price bars, the simulation of trades between exchanges and its statistics.  A division by zero
  panics.  The generator of sample data and the texts of the summary are not modelled.
\<close>

section \<open>Data\<close>

record 'd price_bar =
  bar_timestamp :: i64
  bar_exchange :: u16
  bar_symbol :: string
  bar_bid :: 'd
  bar_ask :: 'd
  bar_volume :: 'd

record exchange_fee_tier =
  tier_exchange :: u16
  tier_maker_bps :: "u64 option"
  tier_taker_bps :: u64

record 'd backtest_config =
  bc_initial_capital :: 'd
  bc_max_position_pct :: 'd
  bc_taker_fee_bps :: u64
  bc_fee_tiers :: "exchange_fee_tier list"
  bc_min_spread_bps :: u64
  bc_data_file :: string

record 'd backtest_trade =
  bt_entry_time :: i64
  bt_exit_time :: i64
  bt_symbol :: string
  bt_buy_exchange :: u16
  bt_sell_exchange :: u16
  bt_spread_bps :: u64
  bt_qty :: 'd
  bt_pnl :: 'd
  bt_fees :: 'd

record 'd backtest_result =
  br_total_pnl :: 'd
  br_total_fees :: 'd
  br_total_trades :: u64
  br_win_rate :: 'd
  br_max_drawdown :: 'd
  br_sharpe_ratio :: 'd
  br_trades :: "'d backtest_trade list"

record 'd backtest_engine =
  be_config :: "'d backtest_config"
  be_capital :: 'd
  be_positions :: "(string \<times> 'd) list"
  be_trades :: "'d backtest_trade list"
  be_balances :: "(u16 \<times> 'd) list"
  be_bars :: "'d price_bar list"
  be_fee_cache :: "(u16 \<times> 'd) list"

text \<open>What the engine uses of decimals besides the operations of the execution engine: addition that gives the largest number on an overflow, and reading.\<close>

record 'd backtest_decimal = "'d exec_decimal" +
  dec_add_or_max :: "'d \<Rightarrow> 'd \<Rightarrow> 'd"
  dec_read :: "string \<Rightarrow> 'd option"

definition dec_of_u64 :: "'d backtest_decimal \<Rightarrow> u64 \<Rightarrow> 'd" where
  "dec_of_u64 D w = dec_from_int D (uint w)"

definition backtest_config_default :: "'d backtest_decimal \<Rightarrow> 'd backtest_config" where
  "backtest_config_default D =
     \<lparr>bc_initial_capital = dec_from_int D 100000, bc_max_position_pct = dec_new D 15 2, bc_taker_fee_bps = 10, bc_fee_tiers = [], bc_min_spread_bps = 15, bc_data_file = []\<rparr>"

section \<open>Reading bars\<close>

text \<open>\<^verbatim>\<open>str::lines\<close>: the lines without their ends; an empty text behind the last end is no line.\<close>

definition drop_return :: "string \<Rightarrow> string" where
  "drop_return s = (if s \<noteq> [] \<and> last s = CHR 0x0D then butlast s else s)"

fun str_lines :: "string \<Rightarrow> string list" where
  "str_lines s = (let parts = str_split CHR 0x0A s in map drop_return (butlast parts) @ (if last parts = [] then [] else [last parts]))"

datatype bar_error = Wrong_Columns nat | Bad_Timestamp string | Bad_Exchange string | Bad_Bid string | Bad_Ask string | Bad_Volume string

definition parse_exchange_id :: "string \<Rightarrow> u16 option" where
  "parse_exchange_id s = Option.bind (parse_u64 s) (\<lambda>n. if unat n < 2 ^ 16 then Some (ucast n) else None)"

definition or_error :: "'a option \<Rightarrow> 'e \<Rightarrow> ('a \<Rightarrow> 'e + 'b) \<Rightarrow> 'e + 'b" where
  "or_error x e f = (case x of None \<Rightarrow> Inl e | Some y \<Rightarrow> f y)"

definition parse_price_bar :: "'d backtest_decimal \<Rightarrow> string \<Rightarrow> bar_error + 'd price_bar" where
  "parse_price_bar D line =
     (case str_split CHR '','' line of
        [ts, ex, sy, bid, ask, vol] \<Rightarrow>
          or_error (parse_i64 (str_trim ts)) (Bad_Timestamp ts) (\<lambda>timestamp.
            or_error (parse_exchange_id (str_trim ex)) (Bad_Exchange ex) (\<lambda>exchange.
              or_error (dec_read D (str_trim bid)) (Bad_Bid bid) (\<lambda>bid_price.
                or_error (dec_read D (str_trim ask)) (Bad_Ask ask) (\<lambda>ask_price.
                  or_error (dec_read D (str_trim vol)) (Bad_Volume vol) (\<lambda>volume.
                    Inr \<lparr>bar_timestamp = timestamp, bar_exchange = exchange, bar_symbol = str_trim sy, bar_bid = bid_price, bar_ask = ask_price, bar_volume = volume\<rparr>)))))
      | parts \<Rightarrow> Inl (Wrong_Columns (length parts)))"

text \<open>The header is skipped, and so are empty and malformed lines.\<close>

definition parse_csv_bars :: "'d backtest_decimal \<Rightarrow> string \<Rightarrow> 'd price_bar list" where
  "parse_csv_bars D content =
     List.map_filter (\<lambda>line. let l = str_trim line in if l = [] then None else case parse_price_bar D l of Inl _ \<Rightarrow> None | Inr bar \<Rightarrow> Some bar) (drop 1 (str_lines content))"

definition load_data :: "'d backtest_decimal \<Rightarrow> string \<Rightarrow> 'd backtest_engine \<Rightarrow> nat \<times> 'd backtest_engine" where
  "load_data D content e = (let bars = parse_csv_bars D content in (length bars, e\<lparr>be_bars := be_bars e @ bars\<rparr>))"

section \<open>Fees\<close>

definition build_fee_cache :: "'d backtest_decimal \<Rightarrow> 'd backtest_config \<Rightarrow> (u16 \<times> 'd) list" where
  "build_fee_cache D cfg =
     foldl (\<lambda>m tier. hm_insert (tier_exchange tier) (dec_div D (dec_of_u64 D (tier_taker_bps tier)) (dec_from_int D 10000)) m) [] (bc_fee_tiers cfg)"

definition fee_for_exchange :: "'d backtest_decimal \<Rightarrow> 'd backtest_engine \<Rightarrow> u16 \<Rightarrow> 'd" where
  "fee_for_exchange D e ex = unwrap_or (map_of (be_fee_cache e) ex) (dec_div D (dec_of_u64 D (bc_taker_fee_bps (be_config e))) (dec_from_int D 10000))"

definition backtest_new :: "'d backtest_decimal \<Rightarrow> 'd backtest_config \<Rightarrow> 'd backtest_engine" where
  "backtest_new D cfg =
     \<lparr>be_config = cfg, be_capital = bc_initial_capital cfg, be_positions = [], be_trades = [], be_balances = [], be_bars = [], be_fee_cache = build_fee_cache D cfg\<rparr>"

section \<open>The simulation\<close>

text \<open>
  One direction: buy at the ask of one exchange and sell at the bid of another.  The working balances and the trades are the state; the first result says that the rest of the pair
  is skipped, which the source does when the position is empty.
\<close>

definition arb_direction ::
  "'d::linorder backtest_decimal \<Rightarrow> 'd backtest_engine \<Rightarrow> i64 \<Rightarrow> string \<Rightarrow> u16 \<Rightarrow> 'd \<Rightarrow> u16 \<Rightarrow> 'd \<Rightarrow> (u16 \<times> 'd) list \<times> 'd backtest_trade list \<Rightarrow>
   bool \<times> (u16 \<times> 'd) list \<times> 'd backtest_trade list" where
  "arb_direction D e ts sy ex_buy ask ex_sell bid st =
     (case st of (bals, trades) \<Rightarrow>
        if \<not> (dec_zero D < ask \<and> ask < bid) then (False, st)
        else let mid = dec_div D (dec_add D ask bid) (dec_from_int D 2); spread = dec_div D (dec_sub D bid ask) mid;
                 spread_bps = unwrap_or (dec_to_u64 D (dec_mul D spread (dec_from_int D 10000))) (- 1)
             in if spread_bps < bc_min_spread_bps (be_config e) then (False, st)
                else let bal_buy = unwrap_or (map_of bals ex_buy) (dec_zero D); bal_sell = unwrap_or (map_of bals ex_sell) (dec_zero D);
                         max_buy_capital = dec_mul D bal_buy (bc_max_position_pct (be_config e));
                         qty = (if dec_zero D < ask then dec_floor D (dec_div D max_buy_capital ask) else dec_zero D)
                     in if qty \<le> dec_zero D then (True, st)
                        else let buy_cost = dec_mul D qty ask; sell_proceeds = dec_mul D qty bid;
                                 buy_fee = dec_mul D buy_cost (fee_for_exchange D e ex_buy); sell_fee = dec_mul D sell_proceeds (fee_for_exchange D e ex_sell);
                                 total_fees = dec_add D buy_fee sell_fee; gross = dec_sub D sell_proceeds buy_cost; net = dec_sub D gross total_fees
                             in if dec_zero D < net \<and> buy_cost \<le> bal_buy \<and> sell_fee \<le> sell_proceeds
                                then (False,
                                  hm_insert ex_sell (dec_sub D (dec_add D bal_sell sell_proceeds) sell_fee)
                                    (hm_insert ex_buy (dec_sub D (dec_sub D bal_buy buy_cost) buy_fee) bals),
                                  trades @ [\<lparr>bt_entry_time = ts, bt_exit_time = ts, bt_symbol = sy, bt_buy_exchange = ex_buy, bt_sell_exchange = ex_sell,
                                    bt_spread_bps = spread_bps, bt_qty = qty, bt_pnl = net, bt_fees = total_fees\<rparr>])
                                else (False, st))"

definition arb_pair ::
  "'d::linorder backtest_decimal \<Rightarrow> 'd backtest_engine \<Rightarrow> i64 \<Rightarrow> string \<Rightarrow> (u16 \<times> 'd \<times> 'd) \<Rightarrow> (u16 \<times> 'd \<times> 'd) \<Rightarrow> (u16 \<times> 'd) list \<times> 'd backtest_trade list \<Rightarrow>
   (u16 \<times> 'd) list \<times> 'd backtest_trade list" where
  "arb_pair D e ts sy a b st =
     (case (a, b) of ((ex_a, bid_a, ask_a), (ex_b, bid_b, ask_b)) \<Rightarrow>
        (case arb_direction D e ts sy ex_a ask_a ex_b bid_b st of
           (skip, st1) \<Rightarrow> if skip then st1 else snd (arb_direction D e ts sy ex_b ask_b ex_a bid_a st1)))"

fun arb_pairs ::
  "'d::linorder backtest_decimal \<Rightarrow> 'd backtest_engine \<Rightarrow> i64 \<Rightarrow> string \<Rightarrow> (u16 \<times> 'd \<times> 'd) list \<Rightarrow> (u16 \<times> 'd) list \<times> 'd backtest_trade list \<Rightarrow>
   (u16 \<times> 'd) list \<times> 'd backtest_trade list" where
  "arb_pairs D e ts sy [] st = st"
| "arb_pairs D e ts sy (a # as) st = arb_pairs D e ts sy as (foldl (\<lambda>st b. arb_pair D e ts sy a b st) st as)"

definition group_by :: "('a \<Rightarrow> 'k) \<Rightarrow> 'a list \<Rightarrow> ('k \<times> 'a list) list" where
  "group_by key xs = foldl (\<lambda>m x. hm_insert (key x) (unwrap_or (map_of m (key x)) [] @ [x]) m) [] xs"

definition market_map :: "'d price_bar list \<Rightarrow> (u16 \<times> 'd \<times> 'd) list" where
  "market_map bars = foldl (\<lambda>m b. hm_insert (bar_exchange b) (bar_bid b, bar_ask b) m) [] bars"

definition arb_symbol ::
  "'d::linorder backtest_decimal \<Rightarrow> 'd backtest_engine \<Rightarrow> i64 \<Rightarrow> (u16 \<times> 'd) list \<times> 'd backtest_trade list \<Rightarrow> string \<times> 'd price_bar list \<Rightarrow>
   (u16 \<times> 'd) list \<times> 'd backtest_trade list" where
  "arb_symbol D e ts st g = (case g of (sy, bars) \<Rightarrow> if length bars < 2 then st else arb_pairs D e ts sy (market_map bars) st)"

text \<open>One timestamp; the equity curve is the second component.\<close>

definition backtest_step :: "'d::linorder backtest_decimal \<Rightarrow> 'd backtest_engine \<times> 'd list \<Rightarrow> i64 \<times> 'd price_bar list \<Rightarrow> 'd backtest_engine \<times> 'd list" where
  "backtest_step D st g =
     (case (st, g) of ((e, curve), (ts, snapshot)) \<Rightarrow>
        (case foldl (arb_symbol D e ts) (be_balances e, be_trades e) (group_by bar_symbol snapshot) of
           (bals, trades) \<Rightarrow>
             let capital = foldl (dec_add_or_max D) (dec_zero D) (map snd bals)
             in (e\<lparr>be_balances := bals, be_trades := trades, be_capital := capital\<rparr>, curve @ [capital])))"

section \<open>Statistics\<close>

fun drawdown_loop :: "'d::linorder backtest_decimal \<Rightarrow> 'd list \<Rightarrow> 'd \<Rightarrow> 'd \<Rightarrow> 'd" where
  "drawdown_loop D [] peak max_dd = max_dd"
| "drawdown_loop D (v # vs) peak max_dd =
     (let peak = (if peak < v then v else peak); dd = dec_div D (dec_sub D peak v) peak
      in drawdown_loop D vs peak (if dec_zero D < peak \<and> max_dd < dd then dd else max_dd))"

definition compute_max_drawdown :: "'d::linorder backtest_decimal \<Rightarrow> 'd list \<Rightarrow> 'd" where
  "compute_max_drawdown D curve = (case curve of [] \<Rightarrow> dec_zero D | v # _ \<Rightarrow> drawdown_loop D curve v (dec_zero D))"

fun sqrt_loop :: "'d::linorder backtest_decimal \<Rightarrow> 'd \<Rightarrow> nat \<Rightarrow> 'd \<Rightarrow> 'd" where
  "sqrt_loop D v 0 guess = guess"
| "sqrt_loop D v (Suc n) guess =
     (if guess = dec_zero D then guess else sqrt_loop D v n (dec_div D (dec_add D guess (dec_div D v guess)) (dec_from_int D 2)))"

definition decimal_sqrt :: "'d::linorder backtest_decimal \<Rightarrow> 'd \<Rightarrow> nat \<Rightarrow> 'd" where
  "decimal_sqrt D v iterations = (if v \<le> dec_zero D then dec_zero D else sqrt_loop D v iterations (dec_div D v (dec_from_int D 2)))"

fun step_returns :: "'d::linorder backtest_decimal \<Rightarrow> 'd list \<Rightarrow> 'd list" where
  "step_returns D (prev # v # vs) = (if dec_zero D < prev then [dec_div D (dec_sub D v prev) prev] else []) @ step_returns D (v # vs)"
| "step_returns D _ = []"

definition dec_sum :: "'d backtest_decimal \<Rightarrow> 'd list \<Rightarrow> 'd" where
  "dec_sum D xs = foldl (dec_add D) (dec_zero D) xs"

text \<open>The variance divides by the number of returns less one; with one return that is a division by zero.\<close>

definition compute_sharpe_ratio :: "'d::linorder backtest_decimal \<Rightarrow> 'd list \<Rightarrow> u64 \<Rightarrow> 'd option" where
  "compute_sharpe_ratio D curve annual_steps =
     (if length curve < 2 then Some (dec_zero D)
      else let returns = step_returns D curve; n = dec_from_int D (int (length returns)); mean = dec_div D (dec_sum D returns) n
           in if returns = [] then Some (dec_zero D)
              else if dec_sub D n (dec_from_int D 1) = dec_zero D then None
              else let variance = dec_div D (dec_sum D (map (\<lambda>r. dec_mul D (dec_sub D r mean) (dec_sub D r mean)) returns)) (dec_sub D n (dec_from_int D 1));
                       std_dev = (if dec_zero D \<le> variance then decimal_sqrt D variance 20 else dec_zero D)
                   in if std_dev = dec_zero D then Some (dec_zero D)
                      else Some (dec_mul D (dec_div D mean std_dev) (decimal_sqrt D (dec_of_u64 D annual_steps) 20)))"

abbreviation ANNUAL_MULTIPLIER :: u64 where "ANNUAL_MULTIPLIER \<equiv> 31536000"

section \<open>A run\<close>

definition empty_result :: "'d backtest_decimal \<Rightarrow> 'd backtest_result" where
  "empty_result D = \<lparr>br_total_pnl = dec_zero D, br_total_fees = dec_zero D, br_total_trades = 0, br_win_rate = dec_zero D, br_max_drawdown = dec_zero D,
     br_sharpe_ratio = dec_zero D, br_trades = []\<rparr>"

definition seen_exchanges :: "'d price_bar list \<Rightarrow> u16 list" where
  "seen_exchanges bars = sort (remdups (map bar_exchange bars))"

definition initial_state :: "'d backtest_decimal \<Rightarrow> 'd price_bar list \<Rightarrow> 'd backtest_engine \<Rightarrow> 'd backtest_engine" where
  "initial_state D bars e =
     (let exchanges = seen_exchanges bars; share = dec_div D (be_capital e) (dec_from_int D (int (max (length exchanges) 1)))
      in e\<lparr>be_balances := foldl (\<lambda>m ex. hm_insert ex share m) (be_balances e) exchanges\<rparr>)"

definition bars_in_time :: "'d price_bar list \<Rightarrow> (i64 \<times> 'd price_bar list) list" where
  "bars_in_time bars = sort_key (\<lambda>g. sint (fst g)) (group_by bar_timestamp bars)"

definition backtest_run :: "'d::linorder backtest_decimal \<Rightarrow> 'd price_bar list \<Rightarrow> 'd backtest_engine \<Rightarrow> ('d backtest_result \<times> 'd backtest_engine) option" where
  "backtest_run D bars e =
     (if bars = [] then Some (empty_result D, e)
      else case foldl (backtest_step D) (initial_state D bars e, [be_capital e]) (bars_in_time bars) of
             (e', curve) \<Rightarrow>
               let trades = be_trades e'; n = of_nat (length trades); wins = length (filter (\<lambda>t. dec_zero D < bt_pnl t) trades)
               in map_option (\<lambda>sharpe.
                    (\<lparr>br_total_pnl = dec_sum D (map bt_pnl trades), br_total_fees = dec_sum D (map bt_fees trades), br_total_trades = n,
                      br_win_rate = (if 0 < n then dec_div D (dec_from_int D (int wins)) (dec_of_u64 D n) else dec_zero D),
                      br_max_drawdown = compute_max_drawdown D curve, br_sharpe_ratio = sharpe, br_trades = trades\<rparr>,
                     e'\<lparr>be_trades := []\<rparr>))
                    (compute_sharpe_ratio D curve ANNUAL_MULTIPLIER))"

definition run_loaded :: "'d::linorder backtest_decimal \<Rightarrow> 'd backtest_engine \<Rightarrow> ('d backtest_result \<times> 'd backtest_engine) option" where
  "run_loaded D e = backtest_run D (be_bars e) e"

text \<open>The reading of the file is an argument: its content, or an error.\<close>

definition run_backtest :: "'d::linorder backtest_decimal \<Rightarrow> string \<Rightarrow> string + string \<Rightarrow> 'd backtest_config \<Rightarrow> (string + 'd backtest_result) option" where
  "run_backtest D data_file file cfg =
     (case file of
        Inl err \<Rightarrow> Some (Inl (''failed to read '' @ [CHR 0x27] @ data_file @ [CHR 0x27] @ '': '' @ err))
      | Inr content \<Rightarrow> map_option (\<lambda>(res, _). Inr res) (backtest_run D (parse_csv_bars D content) (backtest_new D cfg)))"

section \<open>Conservation\<close>

abbreviation hm_total :: "('k \<times> 'd::comm_monoid_add) list \<Rightarrow> 'd" where
  "hm_total m \<equiv> sum_list (map snd m)"

lemma hm_total_insert:
  fixes v :: "'d::ab_group_add"
  shows "hm_ok m \<Longrightarrow> hm_total (hm_insert k v m) = hm_total m - unwrap_or (map_of m k) 0 + v"
proof (induction m)
  case (Cons p m)
  then show ?case by (cases p) (auto simp: unwrap_or_def)
qed (simp add: unwrap_or_def)

lemma hm_ok_fold_insert: "hm_ok m \<Longrightarrow> hm_ok (foldl (\<lambda>m x. hm_insert (f m x) (g m x) m) m xs)"
  by (induction xs arbitrary: m) (simp_all add: hm_ok_insert)

lemma hm_ok_market_map: "hm_ok (market_map bars)"
  unfolding market_map_def by (rule hm_ok_fold_insert) simp

lemma foldl_add: "foldl (+) a xs = (a::'d::comm_monoid_add) + sum_list xs"
  by (induction xs arbitrary: a) (simp_all add: ac_simps)

text \<open>The money on the exchanges is the money at the start and the profit of the trades since; each trade has a profit and goes from one exchange to another.\<close>

definition fair_trade :: "'d::linordered_idom backtest_trade \<Rightarrow> bool" where
  "fair_trade t \<longleftrightarrow> 0 < bt_pnl t \<and> bt_buy_exchange t \<noteq> bt_sell_exchange t \<and> bt_entry_time t = bt_exit_time t"

definition conserves :: "'d::linordered_idom \<Rightarrow> (u16 \<times> 'd) list \<times> 'd backtest_trade list \<Rightarrow> bool" where
  "conserves c st \<longleftrightarrow> hm_ok (fst st) \<and> hm_total (fst st) = c + sum_list (map bt_pnl (snd st)) \<and> list_all fair_trade (snd st)"

text \<open>Sums and differences without rounding; products and quotients may be rounded in any way.\<close>

definition exact_totals :: "'d::linordered_idom backtest_decimal \<Rightarrow> bool" where
  "exact_totals D \<longleftrightarrow> dec_zero D = 0 \<and> dec_add D = (+) \<and> dec_sub D = (-) \<and> dec_add_or_max D = (+)"

lemma conserves_direction:
  fixes D :: "'d::linordered_idom backtest_decimal"
  assumes D: "exact_totals D" and c: "conserves c st" and ne: "ex_buy \<noteq> ex_sell"
  shows "conserves c (snd (arb_direction D e ts sy ex_buy ask ex_sell bid st))"
proof (cases st)
  case (Pair bals trades)
  have ok: "hm_ok bals" using c Pair by (simp add: conserves_def)
  have keep: "unwrap_or (map_of (hm_insert ex_buy v bals) ex_sell) 0 = unwrap_or (map_of bals ex_sell) 0" for v
    using ne by (simp add: map_of_hm_insert)
  show ?thesis
    using c D ne ok unfolding Pair
    by (simp add: arb_direction_def Let_def conserves_def hm_total_insert hm_ok_insert keep fair_trade_def exact_totals_def)
qed

lemma direction_conserves:
  fixes D :: "'d::linordered_idom backtest_decimal"
  shows "arb_direction D e ts sy ex_buy ask ex_sell bid st = (b, st') \<Longrightarrow> exact_totals D \<Longrightarrow> conserves c st \<Longrightarrow> ex_buy \<noteq> ex_sell \<Longrightarrow> conserves c st'"
  by (metis conserves_direction snd_conv)

lemma conserves_pair:
  fixes D :: "'d::linordered_idom backtest_decimal"
  shows "exact_totals D \<Longrightarrow> conserves c st \<Longrightarrow> fst a \<noteq> fst b \<Longrightarrow> conserves c (arb_pair D e ts sy a b st)"
  by (auto simp: arb_pair_def split: prod.splits intro!: conserves_direction dest: direction_conserves)

lemma conserves_row:
  fixes D :: "'d::linordered_idom backtest_decimal"
  shows "exact_totals D \<Longrightarrow> conserves c st \<Longrightarrow> fst a \<notin> fst ` set bs \<Longrightarrow> conserves c (foldl (\<lambda>st b. arb_pair D e ts sy a b st) st bs)"
  by (induction bs arbitrary: st) (simp_all add: conserves_pair)

lemma conserves_pairs:
  fixes D :: "'d::linordered_idom backtest_decimal"
  shows "exact_totals D \<Longrightarrow> conserves c st \<Longrightarrow> hm_ok m \<Longrightarrow> conserves c (arb_pairs D e ts sy m st)"
  by (induction m arbitrary: st) (simp_all add: conserves_row hm_ok_def)

lemma conserves_symbols:
  fixes D :: "'d::linordered_idom backtest_decimal"
  shows "exact_totals D \<Longrightarrow> conserves c st \<Longrightarrow> conserves c (foldl (arb_symbol D e ts) st gs)"
  by (induction gs arbitrary: st) (auto simp: arb_symbol_def conserves_pairs hm_ok_market_map split: prod.splits)

lemma conserves_steps:
  fixes D :: "'d::linordered_idom backtest_decimal"
  assumes D: "exact_totals D"
  shows "conserves c (be_balances e, be_trades e) \<Longrightarrow> foldl (backtest_step D) (e, curve) gs = (e', curve') \<Longrightarrow>
    conserves c (be_balances e', be_trades e') \<and> (gs \<noteq> [] \<longrightarrow> be_capital e' = hm_total (be_balances e')) \<and> length curve' = length curve + length gs"
proof (induction gs arbitrary: e curve)
  case (Cons g gs)
  obtain ts snap where g: "g = (ts, snap)" by (cases g)
  obtain bals trades where st: "foldl (arb_symbol D e ts) (be_balances e, be_trades e) (group_by bar_symbol snap) = (bals, trades)"
    by (cases "foldl (arb_symbol D e ts) (be_balances e, be_trades e) (group_by bar_symbol snap)")
  have c: "conserves c (bals, trades)"
    using conserves_symbols [of D c "(be_balances e, be_trades e)" e ts "group_by bar_symbol snap"] Cons.prems(1) D st by simp
  define cap where "cap = foldl (dec_add_or_max D) (dec_zero D) (map snd bals)"
  have cap: "cap = hm_total bals" using D by (simp add: cap_def exact_totals_def foldl_add)
  define e1 where "e1 = e\<lparr>be_balances := bals, be_trades := trades, be_capital := cap\<rparr>"
  have step: "backtest_step D (e, curve) g = (e1, curve @ [cap])"
    by (simp add: backtest_step_def g st e1_def cap_def Let_def)
  have rest: "foldl (backtest_step D) (e1, curve @ [cap]) gs = (e', curve')" using Cons.prems(2) step by simp
  have "conserves c (be_balances e1, be_trades e1)" using c by (simp add: e1_def)
  from Cons.IH [OF this rest] show ?case
    using rest cap by (cases gs) (auto simp: e1_def)
qed simp

text \<open>The balances that no exchange of the new bars overwrites.\<close>

definition left_over :: "u16 list \<Rightarrow> (u16 \<times> 'd::comm_monoid_add) list \<Rightarrow> 'd" where
  "left_over exs m = sum_list (map snd (filter (\<lambda>p. fst p \<notin> set exs) m))"

lemma left_over_insert:
  fixes m :: "(u16 \<times> 'd::linordered_idom) list"
  shows "x \<notin> set exs \<Longrightarrow> hm_ok m \<Longrightarrow> left_over exs (hm_insert x v m) = left_over (x # exs) m + v"
proof (induction m)
  case (Cons p m)
  have "left_over exs m = left_over (x # exs) m" if "x \<notin> fst ` set m"
    unfolding left_over_def using that by (intro arg_cong [where f = "\<lambda>l. sum_list (map snd l)"] filter_cong) auto
  with Cons show ?case by (cases p) (auto simp: left_over_def hm_ok_def)
qed (simp add: left_over_def)

lemma initial_balances:
  fixes m :: "(u16 \<times> 'd::linordered_idom) list"
  shows "hm_ok m \<Longrightarrow> distinct exs \<Longrightarrow>
    hm_total (foldl (\<lambda>m ex. hm_insert ex share m) m exs) = left_over exs m + of_nat (length exs) * share"
proof (induction exs arbitrary: m)
  case (Cons x exs)
  then show ?case by (simp add: hm_ok_insert left_over_insert algebra_simps)
qed (simp add: left_over_def)

lemma group_by_nonempty: "xs \<noteq> [] \<Longrightarrow> group_by key xs \<noteq> []"
proof -
  have ne: "hm_insert k v m \<noteq> []" for k v m by (cases "(k, v, m)" rule: hm_insert.cases) simp_all
  have "m \<noteq> [] \<Longrightarrow> foldl (\<lambda>m x. hm_insert (key x) (unwrap_or (map_of m (key x)) [] @ [x]) m) m ys \<noteq> []" for m ys
    by (induction ys arbitrary: m) (simp_all add: ne)
  then show "xs \<noteq> [] \<Longrightarrow> group_by key xs \<noteq> []"
    unfolding group_by_def by (cases xs) (simp_all add: ne)
qed

text \<open>
  C27: A backtest neither makes nor loses money besides the trades it reports and the balances that an earlier run left behind.  When a run on bars ends, the capital of the
  engine is the sum of three parts: the total profit of the result, the share that each exchange of the bars was given at the start (the capital divided by
  the number of these exchanges) times their number, and the balances of the exchanges that do not occur in the bars.  A new engine has no balances, so the
  third part is zero; an engine that is used again keeps its old balances, whose money was divided among the exchanges once more as part of the capital, so
  it is counted twice.  Every reported trade has a positive profit after fees and buys and sells on different exchanges at one time, the totals of
  profit and fees are the sums over the trades, and the number of trades is that of the list.  Sums and differences are taken to be exact: the decimal
  package rounds them to 28 digits, and then the equations hold up to these roundings; products and quotients may be rounded in any way.
\<close>

theorem backtest_conserves:
  fixes D :: "'d::linordered_idom backtest_decimal"
  assumes D: "exact_totals D" and e: "hm_ok (be_balances e)" "be_trades e = []" and bars: "bars \<noteq> []"
    and run: "backtest_run D bars e = Some (res, e')"
  shows "let n = length (seen_exchanges bars); share = dec_div D (be_capital e) (dec_from_int D (int n)) in
    be_capital e' = of_nat n * share + left_over (seen_exchanges bars) (be_balances e) + br_total_pnl res \<and>
    hm_ok (be_balances e') \<and> hm_total (be_balances e') = be_capital e' \<and> list_all fair_trade (br_trades res) \<and>
    br_total_pnl res = sum_list (map bt_pnl (br_trades res)) \<and> br_total_fees res = sum_list (map bt_fees (br_trades res)) \<and>
    br_total_trades res = of_nat (length (br_trades res)) \<and> be_trades e' = []"
proof -
  let ?n = "length (seen_exchanges bars)"
  let ?c = "of_nat ?n * dec_div D (be_capital e) (dec_from_int D (int ?n)) + left_over (seen_exchanges bars) (be_balances e)"
  have "seen_exchanges bars \<noteq> []"
    using bars unfolding seen_exchanges_def by (metis length_0_conv length_sort map_is_Nil_conv remdups_eq_nil_iff)
  then have n: "max ?n 1 = ?n" by (cases "seen_exchanges bars") simp_all
  have d: "distinct (seen_exchanges bars)" by (simp add: seen_exchanges_def)
  let ?i = "initial_state D bars e"
  have i: "conserves ?c (be_balances ?i, be_trades ?i)"
    using initial_balances [OF e(1) d, of "dec_div D (be_capital e) (dec_from_int D (int ?n))"] e n
    by (simp add: conserves_def initial_state_def Let_def hm_ok_fold_insert)
  obtain e1 curve where f: "foldl (backtest_step D) (?i, [be_capital e]) (bars_in_time bars) = (e1, curve)"
    by (cases "foldl (backtest_step D) (?i, [be_capital e]) (bars_in_time bars)")
  have "bars_in_time bars \<noteq> []"
    using group_by_nonempty [OF bars, of bar_timestamp] by (metis bars_in_time_def length_0_conv length_sort)
  with conserves_steps [OF D i f] have c: "conserves ?c (be_balances e1, be_trades e1)" "be_capital e1 = hm_total (be_balances e1)" by simp_all
  have sum: "dec_sum D xs = sum_list xs" for xs
    using D by (simp add: dec_sum_def exact_totals_def foldl_add)
  show ?thesis
    using run bars c by (auto simp: backtest_run_def f Let_def conserves_def sum)
qed

definition int_backtest :: "int backtest_decimal" where
  "int_backtest = exec_decimal.extend int_exec \<lparr>dec_add_or_max = (+), dec_read = (\<lambda>s. map_option sint (parse_i64 s))\<rparr>"

definition sample_bar :: "i64 \<Rightarrow> u16 \<Rightarrow> int \<Rightarrow> int \<Rightarrow> int price_bar" where
  "sample_bar ts ex bid ask = \<lparr>bar_timestamp = ts, bar_exchange = ex, bar_symbol = ''BTC-USDT'', bar_bid = bid, bar_ask = ask, bar_volume = 1\<rparr>"

definition sample_bars :: "int price_bar list" where
  "sample_bars = [sample_bar 1 0 90 100, sample_bar 1 1 900 1000, sample_bar 2 0 90 100, sample_bar 2 1 95 105]"

definition simulated_engine :: "int backtest_engine" where
  "simulated_engine = backtest_new int_backtest ((backtest_config_default int_backtest)\<lparr>bc_initial_capital := 1000, bc_max_position_pct := 1, bc_taker_fee_bps := 0\<rparr>)"

lemmas int_backtest_simps = int_backtest_def int_exec_def exec_decimal.extend_def

lemma int_backtest_exact: "exact_totals int_backtest"
  by (simp add: exact_totals_def int_backtest_simps fun_eq_iff)

text \<open>Two exchanges with 500 each: the first sells at 100 what the second buys at 900.\<close>

lemma simulated_run:
  "map_option (\<lambda>(res, e). (br_total_pnl res, be_capital e, map bt_qty (br_trades res))) (backtest_run int_backtest sample_bars simulated_engine) = Some (4000, 5000, [5])"
  by code_simp

theorem backtest_conserves_witness:
  "\<exists>res e'. backtest_run int_backtest sample_bars simulated_engine = Some (res, e') \<and>
     (let n = length (seen_exchanges sample_bars)
      in be_capital e' = of_nat n * dec_div int_backtest (be_capital simulated_engine) (dec_from_int int_backtest (int n)) + br_total_pnl res) \<and>
     list_all fair_trade (br_trades res) \<and> br_total_pnl res = 4000"
proof -
  obtain res e' where run: "backtest_run int_backtest sample_bars simulated_engine = Some (res, e')" and pnl: "br_total_pnl res = 4000"
    using simulated_run by (auto simp: map_option_case split: option.splits)
  have new: "hm_ok (be_balances simulated_engine)" "be_trades simulated_engine = []" "sample_bars \<noteq> []" "left_over exs (be_balances simulated_engine) = 0" for exs
    by (simp_all add: simulated_engine_def backtest_new_def sample_bars_def left_over_def)
  from backtest_conserves [OF int_backtest_exact new(1-3) run] show ?thesis using run pnl by (simp add: Let_def new(4))
qed

section \<open>Running an engine twice\<close>

text \<open>
  The balances of a run stay in the engine, and the next run divides the whole capital among its own exchanges.  After three exchanges with 300 each and
  no trade, a run on two of them, again without a trade, ends with 1200.
\<close>

definition flat_bars :: "u16 list \<Rightarrow> int price_bar list" where
  "flat_bars exs = concat (map (\<lambda>ts. map (\<lambda>ex. sample_bar ts ex 90 100) exs) [1, 2, 3])"

lemma second_run_makes_money:
  "Option.bind (backtest_run int_backtest (flat_bars [0, 1, 2]) (simulated_engine\<lparr>be_capital := 900\<rparr>)) (\<lambda>(res1, e1).
     map_option (\<lambda>(res2, e2). (be_capital e1, br_total_trades res1, be_capital e2, br_total_trades res2)) (backtest_run int_backtest (flat_bars [0, 1]) e1)) =
   Some (900, 0, 1200, 0)"
  by code_simp

section \<open>Where the statistics fail\<close>

text \<open>Bars of one time make an equity curve with one step, and the unbiased variance of one return divides by zero: the run panics after the trades.\<close>

lemma group_by_one_key: "xs \<noteq> [] \<Longrightarrow> \<forall>x \<in> set xs. key x = k \<Longrightarrow> group_by key xs = [(k, xs)]"
proof -
  have "\<forall>x \<in> set ys. key x = k \<Longrightarrow> foldl (\<lambda>m x. hm_insert (key x) (unwrap_or (map_of m (key x)) [] @ [x]) m) [(k, zs)] ys = [(k, zs @ ys)]" for zs ys
    by (induction ys arbitrary: zs) (simp_all add: unwrap_or_def)
  then show "xs \<noteq> [] \<Longrightarrow> \<forall>x \<in> set xs. key x = k \<Longrightarrow> group_by key xs = [(k, xs)]"
    by (cases xs) (simp_all add: group_by_def unwrap_or_def)
qed

lemma single_time_panics:
  assumes "bars \<noteq> []" "\<forall>b \<in> set bars. bar_timestamp b = ts" "dec_zero D < be_capital e"
    and "dec_sub D (dec_from_int D 1) (dec_from_int D 1) = dec_zero D"
  shows "backtest_run D bars e = None"
proof -
  have "bars_in_time bars = [(ts, bars)]"
    using group_by_one_key [of bars bar_timestamp ts] assms(1,2) by (simp add: bars_in_time_def)
  moreover obtain e1 cap where "backtest_step D (initial_state D bars e, [be_capital e]) (ts, bars) = (e1, [be_capital e, cap])"
    by (cases "foldl (arb_symbol D (initial_state D bars e) ts) (be_balances (initial_state D bars e), be_trades (initial_state D bars e)) (group_by bar_symbol bars)")
      (simp add: backtest_step_def Let_def)
  ultimately show ?thesis
    using assms(1,3,4) by (simp add: backtest_run_def Let_def compute_sharpe_ratio_def)
qed

text \<open>Only trades with a profit are executed, so the number of winners is the number of trades, whatever the data.\<close>

lemma winners_are_trades:
  assumes "list_all fair_trade trades" and "dec_zero D = 0"
  shows "length (filter (\<lambda>t. dec_zero D < bt_pnl t) trades) = length trades"
proof -
  have "filter (\<lambda>t. dec_zero D < bt_pnl t) trades = trades"
    using assms by (induction trades) (simp_all add: fair_trade_def)
  then show ?thesis by simp
qed

end
