(* ===== verification/Spec2Isabelle.thy ===== *)
theory Spec2Isabelle
  imports Protections_Runs Strategies_Signals Datafeed Circuit_Breaker Execution_Guards Nonce_Manager
    Exchange_Common Rate_Limiter Ring_Buffer Shared_Memory Order_Tracker Watchdogs Timestamp_Sync
    Payload_Arena Tri_Path_Finder Execution_Daemons Asset_Inventory Order_Book_Stream Depeg_Circuits
    Capital_Balances Capital_Guards Risk_Shields Dynamic_Fees Report_Parsers Book_Stores Venue_Clients_D
    Leg_Executors Paper_Trading Rebalance_Matrix Rebalancer Withdrawals
    Sub_Accounts Coin_Registry Private_Feed Zero_Alloc_Signer Zero_Lag_Stream Backtest
begin

text \<open>
  A verification library of the arbitrage engine under \<^verbatim>\<open>src/src\<close>.

  \<^bold>\<open>The program.\<close>  Feed workers read ticker messages of the exchanges and store best prices in a market arena; on each update the
  arena evaluates which exchange pairs and which triangles of pairs are profitable after fees and emits signals.  The execution
  engine turns a signal into two or three orders: it asks the risk manager's gate, reserves exposure, widens
  the limit prices by the slippage tolerance, hands the orders to a paper or a real pipeline, closes one-sided fills by
  counter-orders, tracks orders that are still open and books profit and loss.  Around this path stand breakers, watchdogs, rate
  limits, nonces, clock synchronisation, logs, a second feed that keeps full order books, and an inventory of the assets.

  \<^bold>\<open>Theories and sources.\<close>
  \<^item> \<^verbatim>\<open>Rust_Prelude\<close>, \<^verbatim>\<open>Atomic_Cell\<close>, \<^verbatim>\<open>BTree_Map\<close>, \<^verbatim>\<open>Decimal_Api\<close>: Rust integers as words with saturating and
    checked arithmetic, strings, indexing; compare-and-swap loops under schedules of interference; ordered maps; the interface of
    \<^verbatim>\<open>rust_decimal\<close>.  The interfaces shared by the components are locales: \<open>guarded_machine\<close> (an invariant kept by every
    operation), \<open>monotone_machine\<close>, \<open>dispenser\<close> (strictly increasing values), \<open>keyed_store\<close> (independent entries),
    \<open>slot_store\<close> (arrays), \<open>cas_object\<close> and \<open>cas_monotone\<close> (interleaved updates of a cell), \<open>bounded_fifo\<close>
    (queues), \<open>map_contract\<close> (maps).  Each is interpreted on the definitions of the components that provide it.
  \<^item> \<^verbatim>\<open>Protections\<close>, \<^verbatim>\<open>Protections_Runs\<close>: \<^verbatim>\<open>protections.rs\<close>, the fourteen-layer gate and the risk manager, with
    the limits it reads from \<^verbatim>\<open>configs.rs\<close>.  Which layer refuses, what a call changes, runs of calls, and interleaved reservations.
  \<^item> \<^verbatim>\<open>Strategies\<close>, \<^verbatim>\<open>Strategies_Prices\<close>, \<^verbatim>\<open>Strategies_Targets\<close>, \<^verbatim>\<open>Strategies_Signals\<close>: \<^verbatim>\<open>strategies.rs\<close>, the price
    arrays as a table of quotes, the discovery of targets and loops, and the evaluation of a tick: signals are real, and none is missed.
  \<^item> \<^verbatim>\<open>Datafeed\<close>: \<^verbatim>\<open>datafeed.rs\<close>, the byte scanner of ticker messages, the splitting of symbols and the streaming worker.
  \<^item> \<^verbatim>\<open>BTree_Map\<close>, \<^verbatim>\<open>Order_Book\<close>, \<^verbatim>\<open>Order_Book_Updates\<close>, \<^verbatim>\<open>Order_Book_Parsers\<close>, \<^verbatim>\<open>Order_Book_Feeds\<close>,
    \<^verbatim>\<open>Order_Book_Stream\<close>: \<^verbatim>\<open>order_book.rs\<close>, books and deltas as a refinement of finite functions, the parsers of
    all exchanges over JSON values, and the listener with its reconnections.
  \<^item> \<^verbatim>\<open>Execution_Guards\<close>, \<^verbatim>\<open>Execution_Engine\<close>, \<^verbatim>\<open>Execution_Blasts\<close>, \<^verbatim>\<open>Execution_Daemons\<close>: \<^verbatim>\<open>execution.rs\<close>, retries,
    cooldowns and the daily loss limit; the blasts of two and three legs, which orders they send and what exposure they
    leave; the pipelines, the cancellation sweeper and the status poller.
  \<^item> \<^verbatim>\<open>Order_Tracker\<close>: \<^verbatim>\<open>live_order_tracker.rs\<close>.  \<^verbatim>\<open>Circuit_Breaker\<close>: \<^verbatim>\<open>circuit_breaker.rs\<close>.
    \<^verbatim>\<open>Rate_Limiter\<close>: \<^verbatim>\<open>rate_limiter.rs\<close>.  \<^verbatim>\<open>Nonce_Manager\<close>: \<^verbatim>\<open>nonce_manager.rs\<close>.
    \<^verbatim>\<open>Exchange_Common\<close>: \<^verbatim>\<open>exchange/common.rs\<close>.  \<^verbatim>\<open>Watchdogs\<close>: \<^verbatim>\<open>dead_mans_switch.rs\<close> and \<^verbatim>\<open>health.rs\<close>.
    \<^verbatim>\<open>Timestamp_Sync\<close>: \<^verbatim>\<open>timestamp_sync.rs\<close>.  \<^verbatim>\<open>Ring_Buffer\<close>: \<^verbatim>\<open>ring_buffer_logger.rs\<close>.
    \<^verbatim>\<open>Shared_Memory\<close>: \<^verbatim>\<open>shared_memory.rs\<close>.  \<^verbatim>\<open>Payload_Arena\<close>: \<^verbatim>\<open>payload_arena.rs\<close>.
    \<^verbatim>\<open>Tri_Path_Finder\<close>: \<^verbatim>\<open>tri_path_finder.rs\<close>.  \<^verbatim>\<open>Asset_Inventory\<close>: \<^verbatim>\<open>asset_inventory.rs\<close>.
  \<^item> \<^verbatim>\<open>Depeg_Circuits\<close>: \<^verbatim>\<open>depeg_protection.rs\<close> and \<^verbatim>\<open>stablecoin.rs\<close>, the two monitors of stablecoins.
  \<^item> \<^verbatim>\<open>Capital_Balances\<close>, \<^verbatim>\<open>Capital_Guards\<close>: \<^verbatim>\<open>balance_allocator.rs\<close>, \<^verbatim>\<open>balance_sync.rs\<close> and \<^verbatim>\<open>position_reconciliation.rs\<close>;
    \<^verbatim>\<open>capital_starvation.rs\<close>, \<^verbatim>\<open>dust_manager.rs\<close>, \<^verbatim>\<open>size_slicer.rs\<close>.  The balances are a refinement of a table, also when debits and credits of
    several threads interleave; slices add up to the quantity they cut.
  \<^item> \<^verbatim>\<open>Risk_Shields\<close>: \<^verbatim>\<open>risk_shield.rs\<close>, \<^verbatim>\<open>production_risk_shield.rs\<close>, \<^verbatim>\<open>volatility_guard.rs\<close>,
    \<^verbatim>\<open>exchange_constraints.rs\<close>, \<^verbatim>\<open>core_execution_shield.rs\<close>.  \<^verbatim>\<open>Dynamic_Fees\<close>: \<^verbatim>\<open>dynamic_fees.rs\<close>.
    \<^verbatim>\<open>Report_Parsers\<close>: \<^verbatim>\<open>order_feed.rs\<close> and \<^verbatim>\<open>zero_copy_parser.rs\<close>, with round trips of written reports.
    \<^verbatim>\<open>Book_Stores\<close>: \<^verbatim>\<open>atomic_orderbook.rs\<close> and \<^verbatim>\<open>market_arena.rs\<close>, with the interleavings of a sequence lock.
  \<^item> \<^verbatim>\<open>Hash_Map\<close>, \<^verbatim>\<open>Json_Values\<close>, \<^verbatim>\<open>Http_Programs\<close>: maps with a chosen order of iteration; the values of \<^verbatim>\<open>serde_json\<close>;
    programs of requests and replies, played against any list of replies.
  \<^item> \<^verbatim>\<open>Api_Signing\<close>, \<^verbatim>\<open>Signer_Clients\<close>: \<^verbatim>\<open>signer.rs\<close>.  \<^verbatim>\<open>Venue_Clients_A\<close>, \<^verbatim>\<open>Venue_Clients_B\<close>,
    \<^verbatim>\<open>Venue_Clients_C\<close>, \<^verbatim>\<open>Venue_Clients_D\<close>: \<^verbatim>\<open>exchanges.rs\<close>, the clients of all exchanges.  Their contract is the locale
    \<open>private_client\<close>, and for those with nonces \<open>nonce_client\<close>: every request carries the key and the signature of its exchange, written out per
    exchange with the text that is signed, an order is placed at most once per submission, a failed transmission ends a call, and nonces increase.
  \<^item> \<^verbatim>\<open>Leg_Executors\<close>: \<^verbatim>\<open>safety_execution.rs\<close>, \<^verbatim>\<open>cross_exchange_executor.rs\<close> and \<^verbatim>\<open>triangular_executor.rs\<close>, orders with unique
    identifiers and the executors of two and three legs; the value with which the sending branches of a cross leg end, which the source binds and does not return, is an
    argument.  \<^verbatim>\<open>Paper_Trading\<close>: \<^verbatim>\<open>paper_trading.rs\<close>, the simulator as a refinement of a ledger that books a fill or leaves no trace of it.
  \<^item> \<^verbatim>\<open>Rebalance_Matrix\<close>: \<^verbatim>\<open>rebalance_matrix.rs\<close>, the audit of drifting balances and its plans.  \<^verbatim>\<open>Rebalancer\<close>:
    \<^verbatim>\<open>rebalancer.rs\<close>, the worker that withdraws, waits for the deposit and books both.
  \<^item> \<^verbatim>\<open>Withdrawal_Venues\<close>, \<^verbatim>\<open>Withdrawals\<close>: \<^verbatim>\<open>withdrawal.rs\<close>, the withdrawals of nine exchanges under the contract \<open>withdrawal_venue\<close>, and
    the redaction of URLs in errors.  \<^verbatim>\<open>Engine_Configs\<close>: \<^verbatim>\<open>configs.rs\<close>, what an accepted configuration satisfies.
  \<^item> \<^verbatim>\<open>Coin_Scanners\<close>, \<^verbatim>\<open>Coin_Finder\<close>, \<^verbatim>\<open>Coin_Registry\<close>: \<^verbatim>\<open>coin_finder.rs\<close>, the scanners of the exchanges, the numbering of tokens, the
    scan cycle and its pruning; a cycle that waits for ever on a lock it already holds is an outcome of its own.  \<^verbatim>\<open>Sub_Accounts\<close>: \<^verbatim>\<open>subaccount.rs\<close>, what the report on the keys says.
  \<^item> \<^verbatim>\<open>Private_Feed\<close>: \<^verbatim>\<open>private_ws_feed.rs\<close>, the private feed from frames to events.  \<^verbatim>\<open>Zero_Lag_Stream\<close>: \<^verbatim>\<open>zero_lag_stream.rs\<close>, the counters of a stream and the scanner of
    depth messages.  \<^verbatim>\<open>Zero_Alloc_Signer\<close>: \<^verbatim>\<open>zero_alloc_signer.rs\<close>, signed payloads in a fixed buffer.  \<^verbatim>\<open>Backtest\<close>: \<^verbatim>\<open>backtest.rs\<close>, the simulation on recorded prices,
    which conserves money, the balances an engine keeps from an earlier run counted with it.

  \<^bold>\<open>Conventions.\<close>  A struct is a record and a method a function from the old to the new record, with its result beside it.  Integers keep
  their width and wrap as in the release profile; \<open>usize\<close> is a natural number, with the reduction modulo \<open>2\<^sup>6\<^sup>4\<close>
  written out where it could matter.  A panic is \<open>None\<close>, an error is \<open>Inl\<close>.  Every reading of a clock, every random number, every answer
  of an exchange and every attempt to take a lock is an argument.  A loop around a compare-and-swap takes a schedule: what the
  other threads do before each attempt and whether the exchange succeeds; concurrency is sequentially consistent interleaving.
  The iteration order of a hash map is the order of a list, or an argument.  Decimals are an arbitrary carrier with a record of
  operations, and what a theorem needs of them is among its hypotheses; floats are handled likewise.  The operations of these records are total: a run in which
  the package itself panics on an overflow is not covered.  Loops over messages, connection
  attempts and rounds of background tasks are recursions over the list of what happens, so that a theorem
  holds for every finite history; no fuel is used.

  \<^bold>\<open>Not modelled.\<close>  Cryptography, the reading and writing of JSON texts, decimals and floats (packages outside of the repository, arguments of the
  model), persistence, reports and messages to the operator, start-up and operating-system settings, and the second family of HTTP clients under
  \<^verbatim>\<open>exchange/\<close>.
\<close>

section \<open>From messages to signals\<close>

text \<open>The workers of several exchanges, one after the other, on the shared arena.\<close>

definition feed_workers ::
  "(u64 \<Rightarrow> nat) \<Rightarrow> bool \<Rightarrow> (u16 \<times> connect_result list) list \<Rightarrow> feed_worker \<Rightarrow> feed_worker option" where
  "feed_workers jitter hb jobs w =
     try_fold (\<lambda>w (ex, rs). map_option (\<lambda>(_, w', _). w') (start_streaming jitter ex hb 0 rs w)) w jobs"

lemma feed_workers_do:
  "arena_wf (fw_arena w) \<Longrightarrow>
   \<exists>w'. feed_workers jitter hb jobs w = Some w' \<and> arena_wf (fw_arena w') \<and>
     quote_of (fw_arena w') = foldl table_step (quote_of (fw_arena w)) (concat (map (\<lambda>(ex, rs). attempts_ops ex 51 rs) jobs))"
proof (induction jobs arbitrary: w)
  case (Cons j jobs)
  obtain ex rs where j: "j = (ex, rs)" by fastforce
  from start_streaming_does [OF Cons.prems, of 0 51 "length (takeWhile failed rs)" rs jitter ex hb]
  obtain st w1 rest ss where w1: "start_streaming jitter ex hb 0 rs w = Some (st, w1, rest)"
    "worker_does ex hb (attempts_ops ex 51 rs) ss w w1" by auto
  from Cons.IH [of w1] w1 show ?case by (auto simp: feed_workers_def j worker_does_def)
qed (simp add: feed_workers_def)

text \<open>
  C14: no message makes the hot path panic.  An arena for at most 64 exchanges is built, its targets and loops are set up by any sequence of its
  operations, and workers read whatever their connections deliver: every worker runs without a panic, the stored
  quotes are exactly those of the parsed messages, applied in order, and the evaluation of a tick returns a list of signals for every
  exchange and token, whatever locks are busy.
\<close>

theorem messages_never_panic:
  assumes "n \<le> 64" and "n * m < 2 ^ 64" and "list_all valid_arena_op ops"
  shows "\<exists>a a' w sigs. arena_new n m = Some a \<and> try_fold (arena_step order) a ops = Some a' \<and>
    feed_workers jitter hb jobs \<lparr>fw_arena = a', fw_heartbeats = [], fw_sleeps = []\<rparr> = Some w \<and>
    quote_of (fw_arena w) = foldl table_step (quote_of a') (concat (map (\<lambda>(ex, rs). attempts_ops ex 51 rs) jobs)) \<and>
    evaluate_tick env e t ms mp (fw_arena w) = Some sigs"
proof -
  obtain a where a: "arena_new n m = Some a" "arena_wf a" using arena_new_wf [OF assms(1,2)] by blast
  have "\<exists>a'. try_fold (arena_step order) a ops = Some a' \<and> arena_wf a'"
    by (rule try_fold_inv [where P = arena_wf]) (use arena_step_wf a(2) assms(3) in \<open>auto simp: list_all_iff\<close>)
  then obtain a' where a': "try_fold (arena_step order) a ops = Some a'" "arena_wf a'" by blast
  from feed_workers_do [of "\<lparr>fw_arena = a', fw_heartbeats = [], fw_sleeps = []\<rparr>" jitter hb jobs] a'(2)
  obtain w where "feed_workers jitter hb jobs \<lparr>fw_arena = a', fw_heartbeats = [], fw_sleeps = []\<rparr> = Some w" "arena_wf (fw_arena w)"
    "quote_of (fw_arena w) = foldl table_step (quote_of a') (concat (map (\<lambda>(ex, rs). attempts_ops ex 51 rs) jobs))" by auto
  with a(1) a'(1) evaluate_tick_total show ?thesis by blast
qed

theorem messages_never_panic_witness:
  "\<exists>a a' w sigs. arena_new 2 4 = Some a \<and> try_fold (arena_step rev) a [BuildTargets] = Some a' \<and>
     feed_workers (\<lambda>d. unat d) True [(1, [ConnectFailed, Connected [WsText (ticker_message 3 7 8), WsClose]])]
       \<lparr>fw_arena = a', fw_heartbeats = [], fw_sleeps = []\<rparr> = Some w \<and>
     evaluate_tick free_locks 1 3 5 5 (fw_arena w) = Some sigs"
  using messages_never_panic [of 2 4 "[BuildTargets]" rev "\<lambda>d. unat d" True
      "[(1, [ConnectFailed, Connected [WsText (ticker_message 3 7 8), WsClose]])]" free_locks 1 3 5 5]
  by auto

end
